(* ===== verification/Prelude.thy ===== *)
theory Prelude
  imports Main "HOL-Library.Word" "HOL-Library.Multiset" "HOL-Library.Product_Lexorder"
    "HOL-Library.Monad_Syntax"
begin

text \<open>
  Shared vocabulary of the development: the result types of the Rust functions (a panic, a
  returned \<open>Err\<close> or a value), positional big-endian digits (used for the byte arrays of
  \<open>zkmemory/src/base.rs\<close> and for the 32-bit limbs of \<open>zkmemory/src/zincplus/uair.rs\<close>),
  checked machine arithmetic, and the generic facts on lists the components share.
\<close>

unbundle bit_operations_syntax

section \<open>Results\<close>

text \<open>
  A Rust function that may panic returns an \<open>option\<close> (\<open>None\<close> is the panic), one
  that returns a \<open>Result<T, E>\<close> returns \<open>'e + 'a\<close>, and one that does both returns
  \<open>('e + 'a) option\<close>. Sequencing of code that may panic is the option monad.
\<close>

type_synonym ('e, 'a) result = "('e + 'a) option"

abbreviation (input) panic :: "'a option" where
  "panic \<equiv> None"

text \<open>\<open>assert!\<close>, \<open>Result::expect\<close> and an indexed read of a \<open>Vec\<close>.\<close>

definition assert_ok :: "bool \<Rightarrow> unit option" where
  "assert_ok b = (if b then Some () else panic)"

definition expect_ok :: "'e + 'a \<Rightarrow> 'a option" where
  "expect_ok r = (case r of Inl _ \<Rightarrow> panic | Inr v \<Rightarrow> Some v)"

definition vec_get :: "'a list \<Rightarrow> nat \<Rightarrow> 'a option" where
  "vec_get xs i = (if i < length xs then Some (xs ! i) else panic)"

lemma assert_ok_simps [simp]:
  "assert_ok True = Some ()"
  "assert_ok False = None"
  by (simp_all add: assert_ok_def)

lemma assert_ok_eq_Some [simp]: "assert_ok b = Some u \<longleftrightarrow> b"
  by (simp add: assert_ok_def)

lemma expect_ok_simps [simp]:
  "expect_ok (Inl e) = None"
  "expect_ok (Inr v) = Some v"
  by (simp_all add: expect_ok_def)

lemma expect_ok_eq_Some [simp]: "expect_ok r = Some v \<longleftrightarrow> r = Inr v"
  by (cases r) auto

lemma vec_get_in [simp]: "i < length xs \<Longrightarrow> vec_get xs i = Some (xs ! i)"
  by (simp add: vec_get_def)

section \<open>Positional digits, most significant first\<close>

definition digits_be :: "nat \<Rightarrow> nat \<Rightarrow> nat \<Rightarrow> nat list" where
  "digits_be b n x = map (\<lambda>i. x div b ^ (n - 1 - i) mod b) [0..<n]"

definition undigits_be :: "nat \<Rightarrow> nat list \<Rightarrow> nat" where
  "undigits_be b ds = foldl (\<lambda>a d. a * b + d) 0 ds"

lemma length_digits_be [simp]: "length (digits_be b n x) = n"
  by (simp add: digits_be_def)

lemma digits_be_0 [simp]: "digits_be b 0 x = []"
  by (simp add: digits_be_def)

lemma digits_be_nth: "i < n \<Longrightarrow> digits_be b n x ! i = x div b ^ (n - 1 - i) mod b"
  by (simp add: digits_be_def)

lemma digits_be_Suc: "digits_be b (Suc n) x = digits_be b n (x div b) @ [x mod b]"
proof (rule nth_equalityI)
  fix i assume "i < length (digits_be b (Suc n) x)"
  then have i: "i < Suc n" by simp
  show "digits_be b (Suc n) x ! i = (digits_be b n (x div b) @ [x mod b]) ! i"
  proof (cases "i < n")
    case True
    then have "n - i = Suc (n - 1 - i)" by simp
    then have "b ^ (n - i) = b * b ^ (n - 1 - i)" by simp
    with True show ?thesis
      by (simp add: digits_be_nth nth_append div_mult2_eq)
  next
    case False
    with i have "i = n" by simp
    then show ?thesis by (simp add: digits_be_nth nth_append)
  qed
qed simp

lemma undigits_be_Nil [simp]: "undigits_be b [] = 0"
  by (simp add: undigits_be_def)

lemma undigits_be_snoc [simp]: "undigits_be b (ds @ [d]) = undigits_be b ds * b + d"
  by (simp add: undigits_be_def)

lemma undigits_be_append:
  "undigits_be b (xs @ ys) = undigits_be b xs * b ^ length ys + undigits_be b ys"
proof (induction ys rule: rev_induct)
  case Nil
  then show ?case by simp
next
  case (snoc y ys)
  then show ?case by (simp add: append_assoc [symmetric] algebra_simps del: append_assoc)
qed

lemma undigits_be_Cons:
  "undigits_be b (d # ds) = d * b ^ length ds + undigits_be b ds"
  using undigits_be_append [of b "[d]" ds] by (simp add: undigits_be_def)

lemma undigits_digits_be: "undigits_be b (digits_be b n x) = x mod b ^ n"
proof (induction n arbitrary: x)
  case 0
  then show ?case by simp
next
  case (Suc n)
  have "x div b mod b ^ n * b + x mod b = x mod (b * b ^ n)"
    by (simp add: mod_mult2_eq mult.commute add.commute)
  then show ?case by (simp add: digits_be_Suc Suc)
qed

lemma undigits_be_less: "\<forall>d \<in> set ds. d < b \<Longrightarrow> undigits_be b ds < b ^ length ds"
proof (induction ds rule: rev_induct)
  case Nil
  then show ?case by simp
next
  case (snoc d ds)
  then have "undigits_be b ds + 1 \<le> b ^ length ds" and d: "d < b" by auto
  then have "(undigits_be b ds + 1) * b \<le> b ^ length ds * b"
    by (intro mult_le_mono1) simp
  with d show ?case by (simp add: algebra_simps)
qed

lemma digits_undigits_be:
  "\<forall>d \<in> set ds. d < b \<Longrightarrow> digits_be b (length ds) (undigits_be b ds) = ds"
proof (induction ds rule: rev_induct)
  case Nil
  then show ?case by simp
next
  case (snoc d ds)
  then have d: "d < b" and IH: "digits_be b (length ds) (undigits_be b ds) = ds" by auto
  have "(undigits_be b ds * b + d) div b = undigits_be b ds"
    and "(undigits_be b ds * b + d) mod b = d" using d by simp_all
  then show ?case using IH by (simp only: length_append_singleton undigits_be_snoc digits_be_Suc)
qed

lemma digits_be_less: "0 < b \<Longrightarrow> d \<in> set (digits_be b n x) \<Longrightarrow> d < b"
  by (auto simp: digits_be_def)

lemma undigits_be_inj:
  assumes "length xs = length ys" "\<forall>d \<in> set xs. d < b" "\<forall>d \<in> set ys. d < b"
    and "undigits_be b xs = undigits_be b ys"
  shows "xs = ys"
  using digits_undigits_be [OF assms(2)] digits_undigits_be [OF assms(3)] assms(1,4) by metis

text \<open>Comparing two numerals digit by digit: the first difference decides.\<close>

lemma undigits_be_lex:
  assumes len: "length xs = length ys" and k: "k < length xs"
    and pre: "take k xs = take k ys" and lt: "xs ! k < ys ! k"
    and bx: "\<forall>d \<in> set xs. d < b"
  shows "undigits_be b xs < undigits_be b ys"
proof -
  have xs: "xs = take k xs @ xs ! k # drop (Suc k) xs"
    using k by (rule id_take_nth_drop)
  have ys: "ys = take k ys @ ys ! k # drop (Suc k) ys"
    using k len by (intro id_take_nth_drop) simp
  let ?m = "length xs - Suc k"
  have "undigits_be b (drop (Suc k) xs) < b ^ length (drop (Suc k) xs)"
    using bx by (intro undigits_be_less) (auto dest: in_set_dropD)
  then have tail: "undigits_be b (drop (Suc k) xs) < b ^ ?m" by simp
  have "xs ! k * b ^ ?m + undigits_be b (drop (Suc k) xs) < Suc (xs ! k) * b ^ ?m"
    using tail by simp
  also have "\<dots> \<le> ys ! k * b ^ ?m"
    using lt by (intro mult_le_mono1) simp
  finally have "xs ! k * b ^ ?m + undigits_be b (drop (Suc k) xs)
      < ys ! k * b ^ ?m + undigits_be b (drop (Suc k) ys)" by simp
  moreover have "undigits_be b xs = undigits_be b (take k xs) * b ^ Suc ?m
      + (xs ! k * b ^ ?m + undigits_be b (drop (Suc k) xs))"
    by (subst xs) (simp add: undigits_be_append undigits_be_Cons)
  moreover have "undigits_be b ys = undigits_be b (take k xs) * b ^ Suc ?m
      + (ys ! k * b ^ ?m + undigits_be b (drop (Suc k) ys))"
    using len pre by (subst ys) (simp add: undigits_be_append undigits_be_Cons)
  ultimately show ?thesis by simp
qed

section \<open>Machine arithmetic\<close>

type_synonym u8 = "8 word"
type_synonym u32 = "32 word"
type_synonym u64 = "64 word"
type_synonym u256 = "256 word"

text \<open>
  The operators of Rust's integers (and of \<open>ethnum::U256\<close>, which documents the same
  behaviour): with overflow checks an overflow panics (\<open>None\<close>), without them the result
  wraps. \<open>chk\<close> says whether the checks are compiled in. Remainder and division panic on a
  zero divisor in both profiles.
\<close>

definition uadd :: "bool \<Rightarrow> 'a::len word \<Rightarrow> 'a word \<Rightarrow> 'a word option" where
  "uadd chk a b = (if chk \<and> 2 ^ LENGTH('a) \<le> unat a + unat b then None else Some (a + b))"

definition usub :: "bool \<Rightarrow> 'a::len word \<Rightarrow> 'a word \<Rightarrow> 'a word option" where
  "usub chk a b = (if chk \<and> a < b then None else Some (a - b))"

definition umul :: "bool \<Rightarrow> 'a::len word \<Rightarrow> 'a word \<Rightarrow> 'a word option" where
  "umul chk a b = (if chk \<and> 2 ^ LENGTH('a) \<le> unat a * unat b then None else Some (a * b))"

definition udiv :: "'a::len word \<Rightarrow> 'a word \<Rightarrow> 'a word option" where
  "udiv a b = (if b = 0 then None else Some (a div b))"

definition urem :: "'a::len word \<Rightarrow> 'a word \<Rightarrow> 'a word option" where
  "urem a b = (if b = 0 then None else Some (a mod b))"

lemma unat_less_2p: "unat (x :: 'a::len word) < 2 ^ LENGTH('a)"
  by (rule unsigned_less)

lemma uadd_eq: "uadd chk a b = Some c \<Longrightarrow> c = a + b"
  by (auto simp: uadd_def split: if_splits)

lemma usub_eq: "usub chk a b = Some c \<Longrightarrow> c = a - b"
  by (auto simp: usub_def split: if_splits)

lemma urem_eq: "urem a b = Some c \<Longrightarrow> b \<noteq> 0 \<and> c = a mod b"
  by (auto simp: urem_def split: if_splits)

lemma uadd_no_overflow:
  fixes a b :: "'a::len word"
  assumes "unat a + unat b < 2 ^ LENGTH('a)"
  shows "uadd chk a b = Some (a + b)" and "unat (a + b) = unat a + unat b"
  using assms by (simp_all add: uadd_def unat_word_ariths)

lemma uadd_checked:
  fixes a b :: "'a::len word"
  assumes "uadd True a b = Some c"
  shows "unat c = unat a + unat b" and "c = a + b"
  using assms by (auto simp: uadd_def unat_word_ariths not_le split: if_splits)

lemma usub_no_underflow:
  fixes a b :: "'a::len word"
  assumes "b \<le> a"
  shows "usub chk a b = Some (a - b)" and "unat (a - b) = unat a - unat b"
  using assms by (simp_all add: usub_def unat_sub not_less)

lemma umul_no_overflow:
  fixes a b :: "'a::len word"
  assumes "unat a * unat b < 2 ^ LENGTH('a)"
  shows "umul chk a b = Some (a * b)" and "unat (a * b) = unat a * unat b"
  using assms by (simp_all add: umul_def unat_word_ariths)

lemma urem_nonzero [simp]: "b \<noteq> 0 \<Longrightarrow> urem a b = Some (a mod b)"
  by (simp add: urem_def)

section \<open>Lists\<close>

lemma take_nth_eqI:
  assumes "k \<le> length xs" "k \<le> length ys" "\<And>i. i < k \<Longrightarrow> xs ! i = ys ! i"
  shows "take k xs = take k ys"
  using assms by (intro nth_equalityI) auto

lemma mset_permutation_of_nth:
  assumes "length p = length xs" "distinct p" "set p = {..<length xs}"
  shows "mset (map (\<lambda>i. xs ! i) p) = mset xs"
proof -
  have "mset p = mset_set (set p)"
    using assms(2) by (simp add: mset_set_set)
  also have "\<dots> = mset_set (set [0..<length xs])"
    using assms(3) by (simp add: atLeast0LessThan)
  also have "\<dots> = mset [0..<length xs]"
    by (subst mset_set_set) simp_all
  finally have "mset (map ((!) xs) p) = mset (map ((!) xs) [0..<length xs])"
    by simp
  then show ?thesis by (simp add: map_nth)
qed

lemma those_Some_iff: "those xs = Some ys \<longleftrightarrow> xs = map Some ys"
  by (induction xs arbitrary: ys) (auto split: option.splits)

lemma those_map_Some: "(\<And>x. x \<in> set xs \<Longrightarrow> f x = Some (g x)) \<Longrightarrow> those (map f xs) = Some (map g xs)"
  by (induction xs) simp_all

section \<open>Vectors and loops\<close>

text \<open>\<open>xs[i] = v\<close> on a vector, and a \<open>for\<close> loop whose body may panic.\<close>

definition vec_set :: "'a list \<Rightarrow> nat \<Rightarrow> 'a \<Rightarrow> 'a list option" where
  "vec_set xs i v = (if i < length xs then Some (xs[i := v]) else panic)"

fun loop_m :: "('i \<Rightarrow> 's \<Rightarrow> 's option) \<Rightarrow> 'i list \<Rightarrow> 's \<Rightarrow> 's option" where
  "loop_m f [] s = Some s"
| "loop_m f (i # is) s = Option.bind (f i s) (loop_m f is)"

lemma vec_set_Some [simp]: "i < length xs \<Longrightarrow> vec_set xs i v = Some (xs[i := v])"
  by (simp add: vec_set_def)

lemma loop_m_append: "loop_m f (xs @ ys) s = Option.bind (loop_m f xs s) (loop_m f ys)"
  by (induction xs arbitrary: s) (auto split: bind_splits)

text \<open>A loop over an index range keeps an invariant of the index, and does not panic.\<close>

lemma loop_m_range:
  assumes "I 0 s" and step: "\<And>i s. i < n \<Longrightarrow> I i s \<Longrightarrow> \<exists>s'. f i s = Some s' \<and> I (Suc i) s'"
  obtains s' where "loop_m f [0..<n] s = Some s'" "I n s'"
proof -
  have "\<exists>s'. loop_m f [0..<k] s = Some s' \<and> I k s'" if "k \<le> n" for k
    using that
  proof (induction k)
    case (Suc k)
    then obtain s1 where s1: "loop_m f [0..<k] s = Some s1" "I k s1" by auto
    with step [of k s1] Suc.prems obtain s2 where "f k s1 = Some s2" "I (Suc k) s2" by auto
    with s1 show ?case by (simp add: loop_m_append)
  qed (use assms in simp)
  with that show thesis by blast
qed

end
