(* ===== verification/Base_Values.thy ===== *)
theory Base_Values
  imports Prelude
begin

text \<open>
  Addresses and values of the RAM machine (\<open>zkmemory/src/base.rs\<close>): \<open>Uint<T>\<close> over an
  unsigned integer of \<open>S\<close> bytes is a word of \<open>8 * S\<close> bits, so \<open>B256\<close> is
  \<open>256 word\<close> and \<open>B16\<close> is \<open>16 word\<close>. The arithmetic operators are
  \<open>uadd\<close>, \<open>usub\<close>, \<open>umul\<close>, \<open>udiv\<close> and \<open>urem\<close> of the prelude; here are the
  constants, the byte arrays and the conversions.
\<close>

section \<open>Constants of the trait\<close>

definition base_MAX :: "'a::len word" where
  "base_MAX = - 1"

definition base_MIN :: "'a::len word" where
  "base_MIN = 0"

definition word_usize :: "'a::len itself \<Rightarrow> nat" where
  "word_usize _ = LENGTH('a) div 8"

definition WORD_SIZE :: "'a::len word" where
  "WORD_SIZE = word_of_nat (LENGTH('a) div 8)"

definition is_zero :: "'a::len word \<Rightarrow> bool" where
  "is_zero x \<longleftrightarrow> x = 0"

definition base_zero :: "'a::len word" where
  "base_zero = 0"

section \<open>Byte arrays\<close>

definition to_be_bytes :: "'a::len word \<Rightarrow> u8 list" where
  "to_be_bytes x = map word_of_nat (digits_be 256 (LENGTH('a) div 8) (unat x))"

definition from_be_bytes :: "u8 list \<Rightarrow> 'a::len word" where
  "from_be_bytes bs = word_of_nat (undigits_be 256 (map unat bs))"

definition fixed_be_bytes :: "'a::len word \<Rightarrow> u8 list" where
  "fixed_be_bytes x = replicate (32 - LENGTH('a) div 8) 0 @ to_be_bytes x"

definition fixed_le_bytes :: "'a::len word \<Rightarrow> u8 list" where
  "fixed_le_bytes x = rev (to_be_bytes x) @ replicate (32 - LENGTH('a) div 8) 0"

section \<open>Conversions\<close>

text \<open>
  \<open>From<i32>\<close>: the primitive instances cast (\<open>value as u64\<close>), which sign-extends;
  the 256-bit instance casts to \<open>u128\<close> first and zero-extends that.
\<close>

definition from_i32_prim :: "32 word \<Rightarrow> 'a::len word" where
  "from_i32_prim v = scast v"

definition from_i32_u256 :: "32 word \<Rightarrow> 256 word" where
  "from_i32_u256 v = ucast (scast v :: 128 word)"

definition from_u64 :: "u64 \<Rightarrow> 'a::len word" where
  "from_u64 v = ucast v"

definition into_u64 :: "'a::len word \<Rightarrow> u64" where
  "into_u64 v = ucast v"

definition into_i32 :: "'a::len word \<Rightarrow> 32 word" where
  "into_i32 v = ucast v"

text \<open>A \<open>usize\<close> of the 64-bit targets is a natural number below \<open>2 ^ 64\<close>.\<close>

definition from_usize :: "nat \<Rightarrow> 'a::len word" where
  "from_usize n = word_of_nat (n mod 2 ^ 64)"

definition into_usize :: "'a::len word \<Rightarrow> nat" where
  "into_usize v = unat v mod 2 ^ 64"

section \<open>Lemmas\<close>

lemma map_unat_of_nat_digits:
  "map (unat \<circ> (word_of_nat :: nat \<Rightarrow> u8)) (digits_be 256 n x) = digits_be 256 n x"
proof (rule map_idI)
  fix d assume "d \<in> set (digits_be 256 n x)"
  then have "d < 256" by (auto dest: digits_be_less [rotated])
  then show "(unat \<circ> (word_of_nat :: nat \<Rightarrow> u8)) d = d"
    by (simp add: unat_of_nat)
qed

lemma length_to_be_bytes [simp]: "length (to_be_bytes (x :: 'a::len word)) = LENGTH('a) div 8"
  by (simp add: to_be_bytes_def)

lemma map_unat_to_be_bytes:
  "map unat (to_be_bytes (x :: 'a::len word)) = digits_be 256 (LENGTH('a) div 8) (unat x)"
  by (simp add: to_be_bytes_def map_unat_of_nat_digits)

lemma pow_256_width:
  assumes "8 dvd LENGTH('a::len)"
  shows "(256::nat) ^ (LENGTH('a) div 8) = 2 ^ LENGTH('a)"
proof -
  obtain k where k: "LENGTH('a) = 8 * k" using assms by blast
  then show ?thesis by (simp add: power_mult)
qed

lemma undigits_to_be_bytes:
  fixes x :: "'a::len word"
  assumes "8 dvd LENGTH('a)"
  shows "undigits_be 256 (map unat (to_be_bytes x)) = unat x"
  using assms unat_less_2p [of x]
  by (simp add: map_unat_to_be_bytes undigits_digits_be pow_256_width)

lemma from_to_be_bytes:
  fixes x :: "'a::len word"
  assumes "8 dvd LENGTH('a)"
  shows "from_be_bytes (to_be_bytes x) = x"
  using assms by (simp add: from_be_bytes_def undigits_to_be_bytes)

lemma unat_u8_less: "d \<in> set (map unat (bs :: u8 list)) \<Longrightarrow> d < 256"
  using unat_less_2p [where 'a = 8] by auto

lemma unat_from_be_bytes:
  assumes "8 dvd LENGTH('a::len)" and "length bs = LENGTH('a) div 8"
  shows "unat (from_be_bytes bs :: 'a word) = undigits_be 256 (map unat bs)"
proof -
  have "undigits_be 256 (map unat bs) < 256 ^ length (map unat bs)"
    by (intro undigits_be_less ballI unat_u8_less)
  then have "undigits_be 256 (map unat bs) < 2 ^ LENGTH('a)"
    using assms pow_256_width [where 'a = 'a] by simp
  then show ?thesis by (simp add: from_be_bytes_def unat_of_nat)
qed

lemma to_from_be_bytes:
  assumes "8 dvd LENGTH('a::len)" and "length bs = LENGTH('a) div 8"
  shows "to_be_bytes (from_be_bytes bs :: 'a word) = bs"
proof -
  have "digits_be 256 (length (map unat bs)) (undigits_be 256 (map unat bs)) = map unat bs"
    by (intro digits_undigits_be ballI unat_u8_less)
  then show ?thesis
    using assms by (simp add: to_be_bytes_def unat_from_be_bytes o_def)
qed

lemma to_be_bytes_inj:
  fixes x y :: "'a::len word"
  assumes "8 dvd LENGTH('a)" "to_be_bytes x = to_be_bytes y"
  shows "x = y"
  using assms from_to_be_bytes by metis

lemma length_fixed_be_bytes:
  "LENGTH('a::len) \<le> 256 \<Longrightarrow> length (fixed_be_bytes (x :: 'a word)) = 32"
  by (simp add: fixed_be_bytes_def)

lemma fixed_le_is_rev_be: "fixed_le_bytes x = rev (fixed_be_bytes x)"
  by (simp add: fixed_le_bytes_def fixed_be_bytes_def)

lemma undigits_replicate_0 [simp]:
  "undigits_be b (replicate k 0 @ ds) = undigits_be b ds"
  by (induction k) (simp_all add: undigits_be_Cons)

lemma undigits_fixed_be_bytes:
  fixes x :: "'a::len word"
  assumes "8 dvd LENGTH('a)"
  shows "undigits_be 256 (map unat (fixed_be_bytes x)) = unat x"
  using assms by (simp add: fixed_be_bytes_def undigits_to_be_bytes)

lemma from_u64_into_u64:
  assumes "64 \<le> LENGTH('a::len)"
  shows "into_u64 (from_u64 v :: 'a word) = v"
  using assms by (intro bit_word_eqI) (simp add: into_u64_def from_u64_def bit_simps)

lemma into_from_usize:
  assumes "64 \<le> LENGTH('a::len)" "n < 2 ^ 64"
  shows "into_usize (from_usize n :: 'a word) = n"
proof -
  have "(2::nat) ^ 64 \<le> 2 ^ LENGTH('a)" using assms(1) by (intro power_increasing) simp_all
  with assms(2) have "n < 2 ^ LENGTH('a)" by simp
  with assms(2) show ?thesis by (simp add: into_usize_def from_usize_def unat_of_nat)
qed

section \<open>Properties\<close>

text \<open>
  The byte arrays of a base value are a bijection: decoding the big-endian bytes of a
  value gives it back, encoding the value of an array of the right length gives the array
  back, and the fixed 32-byte forms (big- and little-endian) are mirror images whose
  numeric value is the value itself.
\<close>

theorem base_bytes_roundtrip:
  fixes x :: "'a::len word"
  assumes "8 dvd LENGTH('a)" and "LENGTH('a) \<le> 256" and "length bs = LENGTH('a) div 8"
  shows "from_be_bytes (to_be_bytes x) = x \<and>
    to_be_bytes (from_be_bytes bs :: 'a word) = bs \<and>
    length (fixed_be_bytes x) = 32 \<and>
    fixed_le_bytes x = rev (fixed_be_bytes x) \<and>
    undigits_be 256 (map unat (fixed_be_bytes x)) = unat x"
  using assms
  by (simp add: from_to_be_bytes to_from_be_bytes length_fixed_be_bytes
      fixed_le_is_rev_be undigits_fixed_be_bytes)

theorem base_bytes_roundtrip_witness:
  "from_be_bytes (to_be_bytes (589505315 :: 32 word)) = (589505315 :: 32 word) \<and>
   to_be_bytes (from_be_bytes [35, 35, 35, 35] :: 32 word) = [35, 35, 35, 35]"
  using base_bytes_roundtrip [where x = "589505315 :: 32 word" and bs = "[35, 35, 35, 35]"]
  by simp

end
