(* ===== verification/Memory_Config.thy ===== *)
theory Memory_Config
  imports Base_Values
begin

text \<open>
  The address-space layout of the RAM machine (\<open>zkmemory/src/config.rs\<close>): sections, the
  section allocator and \<open>Config::new\<close> for the head and the tail layout. \<open>chk\<close> says
  whether integer overflow checks are compiled in; a panic is \<open>None\<close>.
\<close>

section \<open>Sections\<close>

record 'k mem_section =
  sec_lo :: 'k
  sec_hi :: 'k

abbreviation Section :: "'k \<Rightarrow> 'k \<Rightarrow> 'k mem_section" where
  "Section lo hi \<equiv> \<lparr>sec_lo = lo, sec_hi = hi\<rparr>"

definition contain :: "'k::len word mem_section \<Rightarrow> 'k word \<Rightarrow> bool" where
  "contain s address \<longleftrightarrow> sec_lo s \<le> address \<and> address \<le> sec_hi s"

definition section_low :: "'k::len word mem_section \<Rightarrow> 'k word" where
  "section_low s = sec_lo s"

definition section_high :: "'k::len word mem_section \<Rightarrow> 'k word" where
  "section_high s = sec_hi s"

section \<open>Virtual registers\<close>

record 'k register =
  reg_index :: nat
  reg_address :: 'k

definition Register_new :: "nat \<Rightarrow> 'k \<Rightarrow> 'k register" where
  "Register_new i a = \<lparr>reg_index = i, reg_address = a\<rparr>"

section \<open>Configuration\<close>

record 'k config =
  cfg_word_size :: 'k
  cfg_stack_depth :: 'k
  cfg_buffer_size :: 'k
  cfg_memory :: "'k mem_section"
  cfg_stack :: "'k mem_section"
  cfg_register :: "'k mem_section"

record config_args =
  head_layout :: bool
  arg_stack_depth :: nat
  no_register :: nat
  no_buffer :: nat

definition default_config :: config_args where
  "default_config = \<lparr>head_layout = True, arg_stack_depth = 1024, no_register = 32, no_buffer = 32\<rparr>"

record 'k memory_allocation =
  ma_section :: "'k mem_section list"
  ma_word_size :: 'k
  ma_buffer_size :: 'k

definition alloc_new :: "bool \<Rightarrow> 'k::len word \<Rightarrow> nat \<Rightarrow> 'k word memory_allocation option" where
  "alloc_new chk word_size nb = do {
     buffer \<leftarrow> umul chk (from_usize nb) word_size;
     Some \<lparr>ma_section = [], ma_word_size = word_size, ma_buffer_size = buffer\<rparr> }"

definition last_offset :: "bool \<Rightarrow> 'k::len word memory_allocation \<Rightarrow> 'k word option" where
  "last_offset chk ma =
     (if ma_section ma = [] then Some base_zero
      else uadd chk (sec_hi (last (ma_section ma))) (ma_buffer_size ma))"

definition add_fixed_section ::
    "bool \<Rightarrow> nat \<Rightarrow> 'k::len word memory_allocation \<Rightarrow> 'k word memory_allocation option" where
  "add_fixed_section chk elems ma = do {
     lo \<leftarrow> last_offset chk ma;
     bytes \<leftarrow> umul chk (from_usize elems) (ma_word_size ma);
     hi \<leftarrow> uadd chk lo bytes;
     Some (ma\<lparr>ma_section := ma_section ma @ [Section lo hi]\<rparr>) }"

definition add_section ::
    "bool \<Rightarrow> 'k::len word \<Rightarrow> 'k word memory_allocation \<Rightarrow> 'k word memory_allocation option" where
  "add_section chk end ma = do {
     lo \<leftarrow> last_offset chk ma;
     Some (ma\<lparr>ma_section := ma_section ma @ [Section lo end]\<rparr>) }"

fun shift_sections ::
    "bool \<Rightarrow> 'k::len word \<Rightarrow> 'k word mem_section list \<Rightarrow> 'k word mem_section list option" where
  "shift_sections chk off [] = Some []"
| "shift_sections chk off (s # ss) = do {
     lo \<leftarrow> uadd chk (sec_lo s) off;
     hi \<leftarrow> uadd chk (sec_hi s) off;
     rest \<leftarrow> shift_sections chk off ss;
     Some (Section lo hi # rest) }"

definition set_offset ::
    "bool \<Rightarrow> 'k::len word \<Rightarrow> 'k word memory_allocation \<Rightarrow> 'k word memory_allocation option" where
  "set_offset chk off ma = do {
     ss \<leftarrow> shift_sections chk off (ma_section ma);
     Some (ma\<lparr>ma_section := ss\<rparr>) }"

definition config_new :: "bool \<Rightarrow> 'k::len word \<Rightarrow> config_args \<Rightarrow> 'k word config option" where
  "config_new chk word_size args = do {
     ma \<leftarrow> alloc_new chk word_size (no_buffer args);
     if head_layout args then do {
       ma \<leftarrow> add_fixed_section chk (arg_stack_depth args) ma;
       ma \<leftarrow> add_fixed_section chk (no_register args) ma;
       ma \<leftarrow> add_section chk base_MAX ma;
       st \<leftarrow> vec_get (ma_section ma) 0;
       rg \<leftarrow> vec_get (ma_section ma) 1;
       me \<leftarrow> vec_get (ma_section ma) 2;
       Some \<lparr>cfg_word_size = word_size, cfg_stack_depth = from_usize (arg_stack_depth args),
             cfg_buffer_size = ma_buffer_size ma, cfg_memory = me, cfg_stack = st,
             cfg_register = rg\<rparr> }
     else do {
       ma \<leftarrow> add_fixed_section chk (arg_stack_depth args) ma;
       ma \<leftarrow> add_fixed_section chk (no_register args) ma;
       lo \<leftarrow> last_offset chk ma;
       begin0 \<leftarrow> usub chk base_MAX lo;
       rem \<leftarrow> urem begin0 word_size;
       begin1 \<leftarrow> usub chk begin0 rem;
       ma \<leftarrow> set_offset chk begin1 ma;
       st \<leftarrow> vec_get (ma_section ma) 0;
       rg \<leftarrow> vec_get (ma_section ma) 1;
       mem_hi \<leftarrow> usub chk begin1 (ma_buffer_size ma);
       Some \<lparr>cfg_word_size = word_size, cfg_stack_depth = from_usize (arg_stack_depth args),
             cfg_buffer_size = ma_buffer_size ma, cfg_memory = Section base_zero mem_hi,
             cfg_stack = st, cfg_register = rg\<rparr> } }"

definition create_register :: "bool \<Rightarrow> 'k::len word config \<Rightarrow> nat \<Rightarrow> 'k word register option" where
  "create_register chk cfg index = do {
     off \<leftarrow> umul chk (from_usize index) (cfg_word_size cfg);
     a \<leftarrow> uadd chk (section_low (cfg_register cfg)) off;
     Some (Register_new index a) }"

section \<open>Arithmetic of the allocator without overflow\<close>

lemma uadd_of_nat:
  "a + b < 2 ^ LENGTH('k::len) \<Longrightarrow>
   uadd chk (word_of_nat a :: 'k word) (word_of_nat b) = Some (word_of_nat (a + b))"
  by (simp add: uadd_def unat_of_nat)

lemma usub_of_nat:
  "b \<le> a \<Longrightarrow> a < 2 ^ LENGTH('k::len) \<Longrightarrow>
   usub chk (word_of_nat a :: 'k word) (word_of_nat b) = Some (word_of_nat (a - b))"
  by (simp add: usub_def unat_of_nat word_less_nat_alt)

lemma umul_of_nat:
  "a < 2 ^ 64 \<Longrightarrow> 0 < b \<Longrightarrow> a * b < 2 ^ LENGTH('k::len) \<Longrightarrow>
   umul chk (from_usize a :: 'k word) (word_of_nat b) = Some (word_of_nat (a * b))"
proof -
  assume a: "a < 2 ^ 64" and b: "0 < b" and ab: "a * b < 2 ^ LENGTH('k)"
  have "a * 1 \<le> a * b" using b by (intro mult_le_mono2) simp
  with ab have la: "a < 2 ^ LENGTH('k)" by linarith
  show ?thesis
  proof (cases "a = 0")
    case True
    then show ?thesis by (simp add: umul_def from_usize_def)
  next
    case False
    then have "1 * b \<le> a * b" by (intro mult_le_mono1) simp
    with ab have lb: "b < 2 ^ LENGTH('k)" by linarith
    show ?thesis using a la lb ab by (simp add: umul_def from_usize_def unat_of_nat)
  qed
qed

lemma urem_of_nat:
  "0 < b \<Longrightarrow> b < 2 ^ LENGTH('k::len) \<Longrightarrow> a < 2 ^ LENGTH('k) \<Longrightarrow>
   urem (word_of_nat a :: 'k word) (word_of_nat b) = Some (word_of_nat (a mod b))"
  by (simp add: urem_def word_unat_eq_iff unat_mod_distrib unat_of_nat less_imp_diff_less
      take_bit_nat_eq_self mod_less_eq_dividend [THEN le_less_trans])

lemma base_MAX_of_nat: "(base_MAX :: 'k::len word) = word_of_nat (2 ^ LENGTH('k) - 1)"
  by (simp add: base_MAX_def)

lemma uadd_0 [simp]: "uadd chk 0 b = Some b"
  using unat_less_2p [of b] by (simp add: uadd_def not_le)

lemmas alloc_arith = uadd_of_nat usub_of_nat umul_of_nat urem_of_nat

text \<open>Both layouts start by allocating the stack and the register section.\<close>

definition fixed_sections :: "nat \<Rightarrow> nat \<Rightarrow> nat \<Rightarrow> nat \<Rightarrow> 'k::len word mem_section list" where
  "fixed_sections m sd nr nb =
     [Section 0 (word_of_nat (sd * m)),
      Section (word_of_nat ((sd + nb) * m)) (word_of_nat ((sd + nb + nr) * m))]"

lemma alloc_fixed_sections:
  assumes "sd < 2 ^ 64" "nr < 2 ^ 64" "nb < 2 ^ 64" "0 < m"
    and fits: "(sd + nr + 2 * nb) * m < 2 ^ LENGTH('k::len)"
  shows "alloc_new chk (word_of_nat m :: 'k word) nb =
      Some \<lparr>ma_section = [], ma_word_size = word_of_nat m, ma_buffer_size = word_of_nat (nb * m)\<rparr>"
    and "add_fixed_section chk sd \<lparr>ma_section = [], ma_word_size = word_of_nat m,
        ma_buffer_size = word_of_nat (nb * m)\<rparr> =
      Some \<lparr>ma_section = [Section 0 (word_of_nat (sd * m) :: 'k word)],
        ma_word_size = word_of_nat m, ma_buffer_size = word_of_nat (nb * m)\<rparr>"
    and "add_fixed_section chk nr \<lparr>ma_section = [Section 0 (word_of_nat (sd * m) :: 'k word)],
        ma_word_size = word_of_nat m, ma_buffer_size = word_of_nat (nb * m)\<rparr> =
      Some \<lparr>ma_section = fixed_sections m sd nr nb, ma_word_size = word_of_nat m,
        ma_buffer_size = word_of_nat (nb * m)\<rparr>"
    and "last_offset chk \<lparr>ma_section = fixed_sections m sd nr nb, ma_word_size = word_of_nat m,
        ma_buffer_size = word_of_nat (nb * m)\<rparr> =
      Some (word_of_nat ((sd + nb + nr + nb) * m) :: 'k word)"
proof -
  have "sd * m + nr * m + 2 * (nb * m) < 2 ^ LENGTH('k)"
    using fits by (simp add: algebra_simps)
  note facts = this assms(1-4)
  show "alloc_new chk (word_of_nat m :: 'k word) nb =
      Some \<lparr>ma_section = [], ma_word_size = word_of_nat m, ma_buffer_size = word_of_nat (nb * m)\<rparr>"
    using facts by (simp add: alloc_new_def alloc_arith del: of_nat_mult)
  show "add_fixed_section chk sd \<lparr>ma_section = [], ma_word_size = word_of_nat m,
        ma_buffer_size = word_of_nat (nb * m)\<rparr> =
      Some \<lparr>ma_section = [Section 0 (word_of_nat (sd * m) :: 'k word)],
        ma_word_size = word_of_nat m, ma_buffer_size = word_of_nat (nb * m)\<rparr>"
    using facts by (simp add: add_fixed_section_def last_offset_def base_zero_def alloc_arith
        del: of_nat_mult)
  show "add_fixed_section chk nr \<lparr>ma_section = [Section 0 (word_of_nat (sd * m) :: 'k word)],
        ma_word_size = word_of_nat m, ma_buffer_size = word_of_nat (nb * m)\<rparr> =
      Some \<lparr>ma_section = fixed_sections m sd nr nb, ma_word_size = word_of_nat m,
        ma_buffer_size = word_of_nat (nb * m)\<rparr>"
    using facts by (simp add: add_fixed_section_def last_offset_def alloc_arith fixed_sections_def
        distrib_right del: of_nat_mult of_nat_add)
  show "last_offset chk \<lparr>ma_section = fixed_sections m sd nr nb, ma_word_size = word_of_nat m,
        ma_buffer_size = word_of_nat (nb * m)\<rparr> =
      Some (word_of_nat ((sd + nb + nr + nb) * m) :: 'k word)"
    using facts by (simp add: last_offset_def alloc_arith fixed_sections_def
        distrib_right del: of_nat_mult of_nat_add)
qed

text \<open>The layout a call of \<open>config_new\<close> is expected to return, in numbers.\<close>

definition head_config :: "nat \<Rightarrow> nat \<Rightarrow> nat \<Rightarrow> nat \<Rightarrow> 'k::len word config" where
  "head_config m sd nr nb =
     \<lparr>cfg_word_size = word_of_nat m, cfg_stack_depth = from_usize sd,
      cfg_buffer_size = word_of_nat (nb * m),
      cfg_memory = Section (word_of_nat ((sd + nb + nr + nb) * m)) base_MAX,
      cfg_stack = Section 0 (word_of_nat (sd * m)),
      cfg_register = Section (word_of_nat ((sd + nb) * m)) (word_of_nat ((sd + nb + nr) * m))\<rparr>"

lemma config_new_head:
  assumes "head_layout args" "arg_stack_depth args = sd" "no_register args = nr"
    and "no_buffer args = nb" "sd < 2 ^ 64" "nr < 2 ^ 64" "nb < 2 ^ 64"
    and m: "0 < m" and fits: "(sd + nr + 2 * nb) * m < 2 ^ LENGTH('k::len)"
  shows "config_new chk (word_of_nat m :: 'k word) args = Some (head_config m sd nr nb)"
proof -
  note fixed = alloc_fixed_sections [OF assms(5-8) fits]
  show ?thesis
    using assms(1-4)
    by (simp add: config_new_def add_section_def fixed del: of_nat_add of_nat_mult)
      (simp add: fixed_sections_def vec_get_def head_config_def del: of_nat_add of_nat_mult)
qed

text \<open>In the tail layout the fixed sections end just below the top of the address space.\<close>

definition tail_begin :: "'k::len itself \<Rightarrow> nat \<Rightarrow> nat \<Rightarrow> nat \<Rightarrow> nat \<Rightarrow> nat" where
  "tail_begin _ m sd nr nb =
     (let top = 2 ^ LENGTH('k) - 1 - (sd + nb + nr + nb) * m in top - top mod m)"

definition tail_config :: "nat \<Rightarrow> nat \<Rightarrow> nat \<Rightarrow> nat \<Rightarrow> 'k::len word config" where
  "tail_config m sd nr nb =
     (let beg = tail_begin TYPE('k) m sd nr nb in
      \<lparr>cfg_word_size = word_of_nat m, cfg_stack_depth = from_usize sd,
       cfg_buffer_size = word_of_nat (nb * m),
       cfg_memory = Section 0 (word_of_nat (beg - nb * m)),
       cfg_stack = Section (word_of_nat beg) (word_of_nat (sd * m + beg)),
       cfg_register = Section (word_of_nat ((sd + nb) * m + beg))
         (word_of_nat ((sd + nb + nr) * m + beg))\<rparr>)"

lemma tail_begin_bounds:
  assumes m: "0 < m" and fits: "(sd + nr + 3 * nb + 1) * m < 2 ^ LENGTH('k::len)"
  shows "nb * m \<le> tail_begin TYPE('k) m sd nr nb"
    and "tail_begin TYPE('k) m sd nr nb + (sd + nb + nr + nb) * m < 2 ^ LENGTH('k)"
    and "m dvd tail_begin TYPE('k) m sd nr nb"
proof -
  let ?top = "2 ^ LENGTH('k) - 1 - (sd + nb + nr + nb) * m"
  have fits': "sd * m + nr * m + 3 * (nb * m) + m < 2 ^ LENGTH('k)"
    using fits by (simp add: algebra_simps)
  have sum: "(sd + nb + nr + nb) * m = sd * m + nr * m + 2 * (nb * m)"
    by (simp add: algebra_simps)
  have r: "?top mod m < m" using m by simp
  have beg: "tail_begin TYPE('k) m sd nr nb = ?top - ?top mod m"
    by (simp add: tail_begin_def Let_def)
  have le: "?top mod m \<le> ?top" by simp
  show "nb * m \<le> tail_begin TYPE('k) m sd nr nb"
    unfolding beg using fits' sum r by linarith
  show "tail_begin TYPE('k) m sd nr nb + (sd + nb + nr + nb) * m < 2 ^ LENGTH('k)"
    unfolding beg using fits' sum by linarith
  show "m dvd tail_begin TYPE('k) m sd nr nb"
    unfolding beg by (rule dvd_minus_mod)
qed

lemma config_new_tail:
  assumes "\<not> head_layout args" "arg_stack_depth args = sd" "no_register args = nr"
    and "no_buffer args = nb" "sd < 2 ^ 64" "nr < 2 ^ 64" "nb < 2 ^ 64"
    and m: "0 < m" and fits: "(sd + nr + 3 * nb + 1) * m < 2 ^ LENGTH('k::len)"
  shows "config_new chk (word_of_nat m :: 'k word) args = Some (tail_config m sd nr nb)"
proof -
  let ?L = "(2::nat) ^ LENGTH('k)"
  let ?o = "(sd + nb + nr + nb) * m"
  define beg where "beg = tail_begin TYPE('k) m sd nr nb"
  define top where "top = ?L - 1 - ?o"
  have fits': "sd * m + nr * m + 3 * (nb * m) + m < ?L"
    using fits by (simp add: algebra_simps)
  have o: "sd * m + nb * m + nr * m + nb * m = ?o" by (simp add: algebra_simps)
  have b1: "nb * m \<le> beg" and b2: "beg + ?o < ?L"
    using tail_begin_bounds [OF m fits] by (simp_all add: beg_def)
  have b3: "top - top mod m = beg"
    by (simp add: beg_def top_def tail_begin_def Let_def)
  have topL: "top < ?L" by (simp add: top_def)
  have sum: "sd * m + beg < ?L" "(sd + nb) * m + beg < ?L" "(sd + nb + nr) * m + beg < ?L"
    "beg < ?L" "?o < ?L"
    using b2 o unfolding distrib_right by linarith+
  have "(sd + nr + 2 * nb) * m < ?L" using fits' by (simp add: algebra_simps)
  note fixed = alloc_fixed_sections [OF assms(5-8) this]
  have sub1: "usub chk (base_MAX :: 'k word) (word_of_nat ?o) = Some (word_of_nat top)"
    unfolding base_MAX_of_nat top_def using sum by (intro usub_of_nat) simp_all
  have rem1: "urem (word_of_nat top :: 'k word) (word_of_nat m) = Some (word_of_nat (top mod m))"
    using m fits' topL by (intro urem_of_nat) simp_all
  have sub2: "usub chk (word_of_nat top :: 'k word) (word_of_nat (top mod m))
      = Some (word_of_nat beg)"
    unfolding b3 [symmetric] using topL by (intro usub_of_nat) simp_all
  have off: "set_offset chk (word_of_nat beg)
        \<lparr>ma_section = fixed_sections m sd nr nb, ma_word_size = word_of_nat m :: 'k word,
         ma_buffer_size = word_of_nat (nb * m)\<rparr> =
      Some \<lparr>ma_section = [cfg_stack (tail_config m sd nr nb), cfg_register (tail_config m sd nr nb)],
        ma_word_size = word_of_nat m, ma_buffer_size = word_of_nat (nb * m)\<rparr>"
    using sum uadd_of_nat [of 0 beg chk, where 'k = 'k]
    by (simp add: set_offset_def fixed_sections_def tail_config_def Let_def beg_def [symmetric]
        uadd_of_nat del: of_nat_add of_nat_mult)
  have sub3: "usub chk (word_of_nat beg :: 'k word) (word_of_nat (nb * m))
      = Some (word_of_nat (beg - nb * m))"
    using b1 sum by (intro usub_of_nat) simp_all
  show ?thesis
    using assms(1-4)
    by (simp add: config_new_def fixed sub1 rem1 sub2 off sub3 del: of_nat_add of_nat_mult)
      (simp add: tail_config_def Let_def beg_def base_zero_def)
qed

section \<open>Separation of the sections\<close>

definition disjoint_sections :: "'k::len word mem_section \<Rightarrow> 'k word mem_section \<Rightarrow> bool" where
  "disjoint_sections s t \<longleftrightarrow> sec_hi s < sec_lo t \<or> sec_hi t < sec_lo s"

lemma disjoint_sections_contain:
  "disjoint_sections s t \<Longrightarrow> contain s a \<Longrightarrow> \<not> contain t a"
  by (auto simp: disjoint_sections_def contain_def)

definition layout_ok :: "'k::len word config \<Rightarrow> bool" where
  "layout_ok cfg \<longleftrightarrow>
     disjoint_sections (cfg_stack cfg) (cfg_register cfg) \<and>
     disjoint_sections (cfg_stack cfg) (cfg_memory cfg) \<and>
     disjoint_sections (cfg_register cfg) (cfg_memory cfg) \<and>
     sec_lo (cfg_stack cfg) \<le> sec_hi (cfg_stack cfg) \<and>
     sec_lo (cfg_register cfg) \<le> sec_hi (cfg_register cfg) \<and>
     sec_lo (cfg_memory cfg) \<le> sec_hi (cfg_memory cfg)"

lemma word_of_nat_less_iff:
  "a < 2 ^ LENGTH('k::len) \<Longrightarrow> b < 2 ^ LENGTH('k) \<Longrightarrow>
   (word_of_nat a :: 'k word) < word_of_nat b \<longleftrightarrow> a < b"
  by (simp add: word_less_nat_alt unat_of_nat)

lemma word_of_nat_le_iff:
  "a < 2 ^ LENGTH('k::len) \<Longrightarrow> b < 2 ^ LENGTH('k) \<Longrightarrow>
   (word_of_nat a :: 'k word) \<le> word_of_nat b \<longleftrightarrow> a \<le> b"
  by (simp add: word_le_nat_alt unat_of_nat)

lemma head_config_layout_ok:
  assumes "0 < m" "0 < nb" and fits: "(sd + nr + 2 * nb) * m < 2 ^ LENGTH('k::len)"
  shows "layout_ok (head_config m sd nr nb :: 'k word config)"
proof -
  have "0 < nb * m" using assms by simp
  moreover have "sd * m + nr * m + 2 * (nb * m) < 2 ^ LENGTH('k)"
    using fits by (simp add: algebra_simps)
  ultimately show ?thesis
    by (simp add: layout_ok_def disjoint_sections_def head_config_def distrib_right
        word_of_nat_less_iff word_of_nat_le_iff base_MAX_def
        del: of_nat_add of_nat_mult)
qed

lemma tail_config_layout_ok:
  assumes m: "0 < m" and nb: "0 < nb"
    and fits: "(sd + nr + 3 * nb + 1) * m < 2 ^ LENGTH('k::len)"
  shows "layout_ok (tail_config m sd nr nb :: 'k word config)"
proof -
  note b = tail_begin_bounds(1,2) [OF m fits]
  have "0 < nb * m" using assms by simp
  moreover have "tail_begin TYPE('k) m sd nr nb + (sd * m + nr * m + 2 * (nb * m)) < 2 ^ LENGTH('k)"
    using b(2) by (simp add: algebra_simps)
  moreover from calculation b(1)
  have "tail_begin TYPE('k) m sd nr nb - nb * m < tail_begin TYPE('k) m sd nr nb"
    by linarith
  ultimately show ?thesis
    using b(1)
    by (simp add: layout_ok_def disjoint_sections_def tail_config_def distrib_right Let_def
        word_of_nat_less_iff word_of_nat_le_iff trans_less_add2
        del: of_nat_add of_nat_mult of_nat_diff nat_0_less_mult_iff)
qed

section \<open>Properties\<close>

text \<open>
  When the requested cells and two buffers fit in the address space, \<open>Config::new\<close>
  returns (it never panics, in either build profile) and the head layout puts the stack at
  address 0, the register section one buffer behind it and the memory one buffer behind the
  registers up to the last address; no address lies in two sections.
\<close>

theorem config_new_head_layout:
  fixes ws :: "'k::len word"
  assumes "head_layout args" "0 < unat ws" "0 < no_buffer args"
    and "arg_stack_depth args < 2 ^ 64" "no_register args < 2 ^ 64" "no_buffer args < 2 ^ 64"
    and "(arg_stack_depth args + no_register args + 2 * no_buffer args) * unat ws < 2 ^ LENGTH('k)"
  shows "\<exists>cfg. config_new chk ws args = Some cfg \<and> layout_ok cfg \<and>
    sec_lo (cfg_stack cfg) = 0 \<and>
    unat (sec_hi (cfg_stack cfg)) = arg_stack_depth args * unat ws \<and>
    sec_lo (cfg_register cfg) = sec_hi (cfg_stack cfg) + cfg_buffer_size cfg \<and>
    unat (sec_hi (cfg_register cfg)) =
      unat (sec_lo (cfg_register cfg)) + no_register args * unat ws \<and>
    sec_lo (cfg_memory cfg) = sec_hi (cfg_register cfg) + cfg_buffer_size cfg \<and>
    sec_hi (cfg_memory cfg) = base_MAX"
proof -
  let ?sd = "arg_stack_depth args" and ?nr = "no_register args" and ?nb = "no_buffer args"
  let ?m = "unat ws"
  have sum: "?sd * ?m + ?nr * ?m + 2 * (?nb * ?m) < 2 ^ LENGTH('k)"
    using assms(7) by (simp add: algebra_simps)
  have "config_new chk (word_of_nat ?m :: 'k word) args = Some (head_config ?m ?sd ?nr ?nb)"
    using assms by (intro config_new_head) simp_all
  moreover have "layout_ok (head_config ?m ?sd ?nr ?nb :: 'k word config)"
    using assms by (intro head_config_layout_ok) simp_all
  moreover have "unat (word_of_nat (?sd * ?m) :: 'k word) = ?sd * ?m"
    and "unat (word_of_nat ((?sd + ?nb) * ?m) :: 'k word) = (?sd + ?nb) * ?m"
    and "unat (word_of_nat ((?sd + ?nb + ?nr) * ?m) :: 'k word) = (?sd + ?nb + ?nr) * ?m"
    using sum by (simp_all add: unat_of_nat distrib_right del: of_nat_add of_nat_mult)
  ultimately show ?thesis
    by (intro exI [of _ "head_config ?m ?sd ?nr ?nb"])
      (simp add: head_config_def distrib_right add.assoc add.left_commute)
qed

theorem config_new_head_layout_witness:
  "\<exists>cfg. config_new True (32 :: 256 word) default_config = Some cfg \<and> layout_ok cfg"
  using config_new_head_layout [of default_config "32 :: 256 word" True]
  by (auto simp: default_config_def)

text \<open>
  The tail layout. When everything fits with one more buffer and one cell to spare,
  \<open>Config::new\<close> returns, the memory section starts at address 0 and ends one buffer below
  the stack, whose base is a multiple of the word size, and the sections are disjoint.
\<close>

theorem config_new_tail_layout:
  fixes ws :: "'k::len word"
  assumes "\<not> head_layout args" "0 < unat ws" "0 < no_buffer args"
    and "arg_stack_depth args < 2 ^ 64" "no_register args < 2 ^ 64" "no_buffer args < 2 ^ 64"
    and "(arg_stack_depth args + no_register args + 3 * no_buffer args + 1) * unat ws
      < 2 ^ LENGTH('k)"
  shows "\<exists>cfg. config_new chk ws args = Some cfg \<and> layout_ok cfg \<and>
    sec_lo (cfg_memory cfg) = 0 \<and>
    sec_hi (cfg_memory cfg) = sec_lo (cfg_stack cfg) - cfg_buffer_size cfg \<and>
    unat ws dvd unat (sec_lo (cfg_stack cfg)) \<and>
    unat (sec_hi (cfg_stack cfg)) =
      unat (sec_lo (cfg_stack cfg)) + arg_stack_depth args * unat ws \<and>
    sec_lo (cfg_register cfg) = sec_hi (cfg_stack cfg) + cfg_buffer_size cfg \<and>
    unat (sec_hi (cfg_register cfg)) =
      unat (sec_lo (cfg_register cfg)) + no_register args * unat ws"
proof -
  let ?sd = "arg_stack_depth args" and ?nr = "no_register args" and ?nb = "no_buffer args"
  let ?m = "unat ws" and ?beg = "tail_begin TYPE('k) (unat ws) (arg_stack_depth args)
    (no_register args) (no_buffer args)"
  note b = tail_begin_bounds [OF assms(2,7)]
  have b2: "?beg + (?sd * ?m + ?nr * ?m + 2 * (?nb * ?m)) < 2 ^ LENGTH('k)"
    using b(2) by (simp add: algebra_simps)
  have "config_new chk (word_of_nat ?m :: 'k word) args = Some (tail_config ?m ?sd ?nr ?nb)"
    using assms by (intro config_new_tail) simp_all
  moreover have "layout_ok (tail_config ?m ?sd ?nr ?nb :: 'k word config)"
    using assms by (intro tail_config_layout_ok) simp_all
  moreover have "unat (word_of_nat ?beg :: 'k word) = ?beg"
    and "unat (word_of_nat (?sd * ?m + ?beg) :: 'k word) = ?sd * ?m + ?beg"
    and "unat (word_of_nat ((?sd + ?nb) * ?m + ?beg) :: 'k word) = (?sd + ?nb) * ?m + ?beg"
    and "unat (word_of_nat ((?sd + ?nb + ?nr) * ?m + ?beg) :: 'k word)
      = (?sd + ?nb + ?nr) * ?m + ?beg"
    using b2 by (simp_all add: unat_of_nat distrib_right del: of_nat_add of_nat_mult)
  ultimately show ?thesis
    using b(1,3)
    by (intro exI [of _ "tail_config ?m ?sd ?nr ?nb"])
      (simp add: tail_config_def Let_def distrib_right add.assoc add.left_commute)
qed

theorem config_new_tail_layout_witness:
  "\<exists>cfg. config_new False (32 :: 256 word) (default_config\<lparr>head_layout := False\<rparr>) = Some cfg \<and>
     layout_ok cfg"
  using config_new_tail_layout [of "default_config\<lparr>head_layout := False\<rparr>" "32 :: 256 word" False]
  by (auto simp: default_config_def)

text \<open>
  Without a buffer the sections are not disjoint: the high bound of a section is inclusive,
  so the first register cell is also an address of the stack section.
\<close>

lemma no_buffer_sections_overlap:
  "\<exists>cfg. config_new True (32 :: 256 word) (default_config\<lparr>no_buffer := 0\<rparr>) = Some cfg \<and>
     contain (cfg_stack cfg) (section_low (cfg_register cfg)) \<and>
     contain (cfg_register cfg) (section_low (cfg_register cfg))"
  using config_new_head [of "default_config\<lparr>no_buffer := 0\<rparr>" 1024 32 0 32 True, where 'k = 256]
  by (auto simp: default_config_def head_config_def contain_def section_low_def)

lemma create_register_in_section:
  fixes cfg :: "'k::len word config"
  assumes "unat (cfg_word_size cfg) = m" "0 < m" "i < nr" "nr < 2 ^ 64"
    and "unat (sec_hi (cfg_register cfg)) = unat (sec_lo (cfg_register cfg)) + nr * m"
  shows "create_register chk cfg i =
      Some \<lparr>reg_index = i, reg_address = sec_lo (cfg_register cfg) + word_of_nat (i * m)\<rparr>"
    and "unat (sec_lo (cfg_register cfg) + word_of_nat (i * m)) =
      unat (sec_lo (cfg_register cfg)) + i * m"
    and "i * m < nr * m"
proof -
  let ?lo = "sec_lo (cfg_register cfg)"
  show lt: "i * m < nr * m" using assms(2,3) by simp
  have hi: "unat ?lo + nr * m < 2 ^ LENGTH('k)"
    using assms(5) unat_less_2p [of "sec_hi (cfg_register cfg)"] by simp
  have ws: "cfg_word_size cfg = word_of_nat m" using assms(1) by auto
  have im: "i * m < 2 ^ LENGTH('k)" using hi lt by linarith
  have u: "unat (word_of_nat (i * m) :: 'k word) = i * m"
    using im by (simp add: unat_of_nat del: of_nat_mult)
  have lo_im: "unat ?lo + unat (word_of_nat (i * m) :: 'k word) < 2 ^ LENGTH('k)"
    using hi lt u by linarith
  then show "unat (?lo + word_of_nat (i * m)) = unat ?lo + i * m"
    by (simp add: uadd_no_overflow(2) u del: of_nat_mult)
  show "create_register chk cfg i =
      Some \<lparr>reg_index = i, reg_address = ?lo + word_of_nat (i * m)\<rparr>"
    using assms(2-4) im lo_im
    by (simp add: create_register_def ws umul_of_nat section_low_def Register_new_def
        uadd_no_overflow(1) del: of_nat_mult)
qed

end
