(* ===== verification/Ram_Machine.thy ===== *)
theory Ram_Machine
  imports Memory_Config "HOL-Library.RBT"
begin

text \<open>
  The RAM machine of \<open>zkmemory/src/machine.rs\<close>: trace records, the memory, stack and
  register traits, the \<open>StateMachine\<close> that implements them and its instruction set, with
  the errors of \<open>zkmemory/src/error.rs\<close>. The red-black tree crate that holds the memory
  and the execution trace is not part of the repository: it is a record of operations, an
  argument of every operation that uses it, and the laws the machine relies on are the
  locale \<open>rbtree\<close>.
\<close>

section \<open>Errors, trace records, cell interactions\<close>

datatype machine_error =
  MemoryAccessDeinied | MemoryInvalidInteraction | RegisterUnableToRead | RegisterUnableToWrite
  | RegisterUnableToAssign | StackOverflow | StackUnderflow

fun error_message :: "machine_error \<Rightarrow> string" where
  "error_message MemoryAccessDeinied = ''Memory access denied''"
| "error_message MemoryInvalidInteraction = ''Memory invalid interaction''"
| "error_message RegisterUnableToRead = ''Register unable to read''"
| "error_message RegisterUnableToWrite = ''Register unable to write''"
| "error_message RegisterUnableToAssign = ''Register unable to assign''"
| "error_message StackOverflow = ''Stack overflow''"
| "error_message StackUnderflow = ''Stack underflow''"

datatype memory_instruction = Write | Read

record ('k, 'v) trace_record =
  tr_time_log :: u64
  tr_stack_depth :: u64
  tr_instruction :: memory_instruction
  tr_address :: 'k
  tr_value :: 'v

definition TraceRecord_new ::
    "u64 \<Rightarrow> u64 \<Rightarrow> memory_instruction \<Rightarrow> 'k \<Rightarrow> 'v \<Rightarrow> ('k, 'v) trace_record" where
  "TraceRecord_new time_log stack_depth instruction address value =
     \<lparr>tr_time_log = time_log, tr_stack_depth = stack_depth, tr_instruction = instruction,
      tr_address = address, tr_value = value\<rparr>"

definition get_tuple ::
    "('k, 'v) trace_record \<Rightarrow> u64 \<times> u64 \<times> memory_instruction \<times> 'k \<times> 'v" where
  "get_tuple r = (tr_time_log r, tr_stack_depth r, tr_instruction r, tr_address r, tr_value r)"

datatype ordering = Less | Equal | Greater

text \<open>Records are compared by time log; equal time logs panic.\<close>

definition trace_cmp :: "('k, 'v) trace_record \<Rightarrow> ('k, 'v) trace_record \<Rightarrow> ordering option" where
  "trace_cmp a b =
     (if tr_time_log a = tr_time_log b then panic
      else Some (if tr_time_log a < tr_time_log b then Less else Greater))"

datatype ('k, 'v) cell_interaction =
  SingleCell memory_instruction 'k 'v
  | DoubleCell memory_instruction 'k 'v 'k 'v 'k 'v

section \<open>The red-black tree interface\<close>

text \<open>
  \<open>rb_*\<close> is the tree that holds the memory, \<open>tr_*\<close> the tree of trace records;
  \<open>tr_insert\<close> gets the comparison function and fails when a comparison panics.
\<close>

record ('m, 't, 'k, 'v) platform =
  overflow_checks :: bool
  rb_new :: 'm
  rb_get :: "'m \<Rightarrow> 'k \<Rightarrow> 'v option"
  rb_replace_or_insert :: "'m \<Rightarrow> 'k \<Rightarrow> 'v \<Rightarrow> 'm"
  tr_new :: 't
  tr_insert :: "(('k, 'v) trace_record \<Rightarrow> ('k, 'v) trace_record \<Rightarrow> ordering option) \<Rightarrow>
    't \<Rightarrow> ('k, 'v) trace_record \<Rightarrow> 't option"
  tr_keys :: "'t \<Rightarrow> ('k, 'v) trace_record list"

section \<open>The machine\<close>

text \<open>
  The traits work on any structure with these fields; a machine adds its registers, here the
  five of the library's own \<open>StateMachine\<close>.
\<close>

record ('m, 't, 'k) machine =
  memory :: 'm
  memory_allocated :: "'k mem_section"
  word_size :: 'k
  time_log :: u64
  stack_allocated :: "'k mem_section"
  max_stack_depth :: u64
  stack_depth :: u64
  stack_ptr :: 'k
  register_allocated :: "'k mem_section"
  execution_trace :: 't

record ('m, 't, 'k) state_machine = "('m, 't, 'k) machine" +
  r0 :: "'k register"
  r1 :: "'k register"
  r2 :: "'k register"
  r3 :: "'k register"
  r4 :: "'k register"

definition StateMachine_new ::
    "('m, 't, 'k::len word, 'v) platform \<Rightarrow> config_args \<Rightarrow> ('m, 't, 'k word) state_machine option" where
  "StateMachine_new P args = do {
     cfg \<leftarrow> config_new (overflow_checks P) WORD_SIZE args;
     g0 \<leftarrow> create_register (overflow_checks P) cfg 0;
     g1 \<leftarrow> create_register (overflow_checks P) cfg 1;
     g2 \<leftarrow> create_register (overflow_checks P) cfg 2;
     g3 \<leftarrow> create_register (overflow_checks P) cfg 3;
     g4 \<leftarrow> create_register (overflow_checks P) cfg 4;
     Some \<lparr>memory = rb_new P, memory_allocated = cfg_memory cfg, word_size = cfg_word_size cfg,
       time_log = 0, stack_allocated = cfg_stack cfg,
       max_stack_depth = into_u64 (cfg_stack_depth cfg), stack_depth = 0, stack_ptr = base_zero,
       register_allocated = cfg_register cfg, execution_trace = tr_new P,
       r0 = g0, r1 = g1, r2 = g2, r3 = g3, r4 = g4\<rparr> }"

definition track ::
    "('m, 't, 'k, 'v) platform \<Rightarrow> ('k, 'v) trace_record \<Rightarrow> ('m, 't, 'k, 'z) machine_scheme \<Rightarrow>
     ('m, 't, 'k, 'z) machine_scheme option" where
  "track P r s = do {
     t \<leftarrow> tr_insert P trace_cmp (execution_trace s) r;
     Some (s\<lparr>execution_trace := t\<rparr>) }"

definition machine_trace ::
    "('m, 't, 'k, 'v) platform \<Rightarrow> ('m, 't, 'k, 'z) machine_scheme \<Rightarrow> ('k, 'v) trace_record list" where
  "machine_trace P s = tr_keys P (execution_trace s)"

definition register_start :: "('m, 't, 'k::len word, 'z) machine_scheme \<Rightarrow> 'k word" where
  "register_start s = section_low (register_allocated s)"

definition base_address :: "('m, 't, 'k::len word, 'z) machine_scheme \<Rightarrow> 'k word" where
  "base_address s = section_low (memory_allocated s)"

definition get_memory_address :: "('m, 't, 'k::len word, 'z) machine_scheme \<Rightarrow> 'k word \<times> 'k word" where
  "get_memory_address s = (section_low (memory_allocated s), section_high (memory_allocated s))"

section \<open>Memory: reading and writing one or two cells\<close>

text \<open>\<open>buf[i..j]\<close> and \<open>buf[i..j].copy_from_slice(src)\<close>, with their panics.\<close>

definition slice_get :: "'a list \<Rightarrow> nat \<Rightarrow> nat \<Rightarrow> 'a list option" where
  "slice_get xs i j = (if i \<le> j \<and> j \<le> length xs then Some (take (j - i) (drop i xs)) else panic)"

definition slice_set :: "'a list \<Rightarrow> nat \<Rightarrow> nat \<Rightarrow> 'a list \<Rightarrow> 'a list option" where
  "slice_set xs i j src =
     (if i \<le> j \<and> j \<le> length xs \<and> length src = j - i then Some (take i xs @ src @ drop j xs)
      else panic)"

text \<open>Subtraction of \<open>usize\<close> values.\<close>

definition usize_sub :: "bool \<Rightarrow> nat \<Rightarrow> nat \<Rightarrow> nat option" where
  "usize_sub chk a b =
     (if b \<le> a then Some (a - b) else if chk then panic else Some (a + 2 ^ 64 - b))"

definition dummy_read ::
    "('m, 't, 'k, 'v::len word) platform \<Rightarrow> 'k \<Rightarrow> ('m, 't, 'k, 'z) machine_scheme \<Rightarrow> 'v word" where
  "dummy_read P address s =
     (case rb_get P (memory s) address of Some r \<Rightarrow> r | None \<Rightarrow> base_zero)"

definition compute_address ::
    "('m, 't, 'k::len word, 'v) platform \<Rightarrow> 'k word \<Rightarrow> 'k word \<Rightarrow> ('m, 't, 'k word, 'z) machine_scheme \<Rightarrow>
     ('k word \<times> 'k word) option" where
  "compute_address P address remain s = do {
     base \<leftarrow> usub (overflow_checks P) address remain;
     hi \<leftarrow> uadd (overflow_checks P) base (word_size s);
     Some (base, hi) }"

definition mem_read ::
    "('m, 't, 'k::len word, 'v::len word) platform \<Rightarrow> 'k word \<Rightarrow> ('m, 't, 'k word, 'z) machine_scheme \<Rightarrow>
     (machine_error, ('k word, 'v word) cell_interaction \<times> ('m, 't, 'k word, 'z) machine_scheme) result" where
  "mem_read P address s = do {
     remain \<leftarrow> urem address (word_size s);
     if is_zero remain then do {
       let result = dummy_read P address s;
       let time = time_log s;
       s \<leftarrow> track P (TraceRecord_new time (stack_depth s) Read address result) s;
       time' \<leftarrow> uadd (overflow_checks P) time 1;
       Some (Inr (SingleCell Read address result, s\<lparr>time_log := time'\<rparr>)) }
     else do {
       (addr_lo, addr_hi) \<leftarrow> compute_address P address remain s;
       let time = time_log s;
       let val_lo = dummy_read P addr_lo s;
       let val_hi = dummy_read P addr_hi s;
       let cell_size = into_usize (word_size s);
       off \<leftarrow> usub (overflow_checks P) address addr_lo;
       let part_lo = into_usize off;
       part_hi \<leftarrow> usize_sub (overflow_checks P) cell_size part_lo;
       let buf = replicate (LENGTH('v) div 8) 0;
       hi_bytes \<leftarrow> slice_get (to_be_bytes val_hi) 0 part_lo;
       buf \<leftarrow> slice_set buf part_hi cell_size hi_bytes;
       lo_bytes \<leftarrow> slice_get (to_be_bytes val_lo) part_lo cell_size;
       buf \<leftarrow> slice_set buf 0 part_hi lo_bytes;
       s \<leftarrow> track P (TraceRecord_new time (stack_depth s) Read addr_lo val_lo) s;
       time1 \<leftarrow> uadd (overflow_checks P) time 1;
       s \<leftarrow> track P (TraceRecord_new time1 (stack_depth s) Read addr_hi val_hi) s;
       time2 \<leftarrow> uadd (overflow_checks P) time 2;
       Some (Inr (DoubleCell Read address (from_be_bytes buf) addr_lo val_lo addr_hi val_hi,
         s\<lparr>time_log := time2\<rparr>)) } }"

definition mem_write ::
    "('m, 't, 'k::len word, 'v::len word) platform \<Rightarrow> 'k word \<Rightarrow> 'v word \<Rightarrow>
     ('m, 't, 'k word, 'z) machine_scheme \<Rightarrow>
     (machine_error, ('k word, 'v word) cell_interaction \<times> ('m, 't, 'k word, 'z) machine_scheme) result" where
  "mem_write P address value s = do {
     remain \<leftarrow> urem address (word_size s);
     if is_zero remain then do {
       let time = time_log s;
       let s = s\<lparr>memory := rb_replace_or_insert P (memory s) address value\<rparr>;
       s \<leftarrow> track P (TraceRecord_new time (stack_depth s) Write address value) s;
       time' \<leftarrow> uadd (overflow_checks P) time 1;
       Some (Inr (SingleCell Write address value, s\<lparr>time_log := time'\<rparr>)) }
     else do {
       (addr_lo, addr_hi) \<leftarrow> compute_address P address remain s;
       let time = time_log s;
       let cell_size = into_usize (word_size s);
       off \<leftarrow> usub (overflow_checks P) address addr_lo;
       let part_lo = into_usize off;
       part_hi \<leftarrow> usize_sub (overflow_checks P) cell_size part_lo;
       let val = to_be_bytes value;
       let buf = to_be_bytes (dummy_read P addr_lo s);
       front \<leftarrow> slice_get val 0 part_hi;
       buf \<leftarrow> slice_set buf part_lo cell_size front;
       let val_lo = (from_be_bytes buf :: 'v word);
       let buf = to_be_bytes (dummy_read P addr_hi s);
       back \<leftarrow> slice_get val part_hi cell_size;
       buf \<leftarrow> slice_set buf 0 part_lo back;
       let val_hi = (from_be_bytes buf :: 'v word);
       let s = s\<lparr>memory := rb_replace_or_insert P (memory s) addr_lo val_lo\<rparr>;
       let s = s\<lparr>memory := rb_replace_or_insert P (memory s) addr_hi val_hi\<rparr>;
       s \<leftarrow> track P (TraceRecord_new time (stack_depth s) Write addr_lo val_lo) s;
       time1 \<leftarrow> uadd (overflow_checks P) time 1;
       s \<leftarrow> track P (TraceRecord_new time1 (stack_depth s) Write addr_hi val_hi) s;
       time2 \<leftarrow> uadd (overflow_checks P) time 2;
       Some (Inr (DoubleCell Write address value addr_lo val_lo addr_hi val_hi,
         s\<lparr>time_log := time2\<rparr>)) } }"

section \<open>Stack and registers\<close>

definition push ::
    "('m, 't, 'k::len word, 'v::len word) platform \<Rightarrow> 'v word \<Rightarrow> ('m, 't, 'k word, 'z) machine_scheme \<Rightarrow>
     (machine_error, (u64 \<times> ('k word, 'v word) cell_interaction) \<times> ('m, 't, 'k word, 'z) machine_scheme) result"
  where
  "push P value s =
     (if stack_depth s = max_stack_depth s then Some (Inl StackOverflow)
      else do {
        depth \<leftarrow> uadd (overflow_checks P) (stack_depth s) 1;
        let s = s\<lparr>stack_depth := depth\<rparr>;
        let address = stack_ptr s;
        next_address \<leftarrow> uadd (overflow_checks P) address (word_size s);
        let s = s\<lparr>stack_ptr := next_address\<rparr>;
        r \<leftarrow> mem_write P address value s;
        Some (case r of Inr (v, s) \<Rightarrow> Inr ((depth, v), s) | Inl e \<Rightarrow> Inl e) })"

definition pop ::
    "('m, 't, 'k::len word, 'v::len word) platform \<Rightarrow> ('m, 't, 'k word, 'z) machine_scheme \<Rightarrow>
     (machine_error, (u64 \<times> ('k word, 'v word) cell_interaction) \<times> ('m, 't, 'k word, 'z) machine_scheme) result"
  where
  "pop P s =
     (if stack_depth s = 0 then Some (Inl StackUnderflow)
      else do {
        depth \<leftarrow> usub (overflow_checks P) (stack_depth s) 1;
        let s = s\<lparr>stack_depth := depth\<rparr>;
        address \<leftarrow> usub (overflow_checks P) (stack_ptr s) (word_size s);
        let s = s\<lparr>stack_ptr := address\<rparr>;
        r \<leftarrow> mem_read P address s;
        Some (case r of Inr (v, s) \<Rightarrow> Inr ((depth, v), s) | Inl e \<Rightarrow> Inl e) })"

definition reg_set ::
    "('m, 't, 'k::len word, 'v::len word) platform \<Rightarrow> 'k word register \<Rightarrow> 'v word \<Rightarrow>
     ('m, 't, 'k word, 'z) machine_scheme \<Rightarrow>
     (machine_error, ('k word, 'v word) cell_interaction \<times> ('m, 't, 'k word, 'z) machine_scheme) result" where
  "reg_set P register value s = mem_write P (reg_address register) value s"

definition reg_get ::
    "('m, 't, 'k::len word, 'v::len word) platform \<Rightarrow> 'k word register \<Rightarrow>
     ('m, 't, 'k word, 'z) machine_scheme \<Rightarrow>
     (machine_error, ('k word, 'v word) cell_interaction \<times> ('m, 't, 'k word, 'z) machine_scheme) result" where
  "reg_get P register s = mem_read P (reg_address register) s"

definition new_register ::
    "bool \<Rightarrow> nat \<Rightarrow> ('m, 't, 'k::len word, 'z) machine_scheme \<Rightarrow> 'k word register option option" where
  "new_register chk i s = do {
     off \<leftarrow> umul chk (from_usize i) WORD_SIZE;
     a \<leftarrow> uadd chk (register_start s) off;
     Some (Some (Register_new i a)) }"

section \<open>Instructions\<close>

datatype ('k, 'v) instruction =
  I_Read 'k
  | I_Write 'k 'v
  | I_Push 'v
  | I_Pop
  | I_Mov "'k register" "'k register"
  | I_Swap "'k register"
  | I_Load "'k register" 'k
  | I_Save 'k "'k register"
  | I_Invalid
  | I_Add "'k register" "'k register"

text \<open>\<open>r.expect(..)\<close> on a machine operation: an error is a panic.\<close>

definition expecting :: "(machine_error, 'a) result \<Rightarrow> 'a option" where
  "expecting r = do { x \<leftarrow> r; expect_ok x }"

text \<open>The value of a single-cell interaction; two cells are a panic.\<close>

fun single_value :: "('k, 'v) cell_interaction \<Rightarrow> 'v option" where
  "single_value (SingleCell _ _ v) = Some v"
| "single_value (DoubleCell _ _ _ _ _ _ _) = panic"

fun exec ::
    "('m, 't, 'k::len word, 'v::len word) platform \<Rightarrow> ('k word, 'v word) instruction \<Rightarrow>
     ('m, 't, 'k word, 'z) machine_scheme \<Rightarrow> ('m, 't, 'k word, 'z) machine_scheme option" where
  "exec P I_Invalid s = panic"
| "exec P (I_Read addr) s =
     (if \<not> contain (memory_allocated s) addr then panic
      else do { (_, s) \<leftarrow> expecting (mem_read P addr s); Some s })"
| "exec P (I_Write addr val) s =
     (if \<not> contain (memory_allocated s) addr then panic
      else do { (_, s) \<leftarrow> expecting (mem_write P addr val s); Some s })"
| "exec P (I_Push value) s = do { (_, s) \<leftarrow> expecting (push P value s); Some s }"
| "exec P I_Pop s = do { (_, s) \<leftarrow> expecting (pop P s); Some s }"
| "exec P (I_Mov reg1 reg2) s = do {
     (c, s) \<leftarrow> expecting (reg_get P reg2 s);
     value \<leftarrow> single_value c;
     (_, s) \<leftarrow> expecting (reg_set P reg1 value s);
     Some s }"
| "exec P (I_Swap reg) s = do {
     ((_, c), s) \<leftarrow> expecting (pop P s);
     stack_top_value \<leftarrow> single_value c;
     (register_cell, s) \<leftarrow> expecting (reg_get P reg s);
     (case register_cell of
        SingleCell _ _ register_value \<Rightarrow> do {
          (_, s) \<leftarrow> expecting (push P register_value s);
          (_, s) \<leftarrow> expecting (reg_set P reg stack_top_value s);
          Some s }
      | DoubleCell _ _ _ _ _ _ _ \<Rightarrow> Some s) }"
| "exec P (I_Load reg addr) s = do {
     (c, s) \<leftarrow> expecting (mem_read P addr s);
     (case c of
        SingleCell _ _ value \<Rightarrow> do { (_, s) \<leftarrow> expecting (reg_set P reg value s); Some s }
      | DoubleCell _ _ cvalue _ _ _ _ \<Rightarrow>
          do { (_, s) \<leftarrow> expecting (reg_set P reg cvalue s); Some s }) }"
| "exec P (I_Save address reg) s = do {
     (c, s) \<leftarrow> expecting (reg_get P reg s);
     value \<leftarrow> single_value c;
     (_, s) \<leftarrow> expecting (mem_write P address value s);
     Some s }"
| "exec P (I_Add reg1 reg2) s = do {
     (c1, s) \<leftarrow> expecting (reg_get P reg1 s);
     value1 \<leftarrow> single_value c1;
     (c2, s) \<leftarrow> expecting (reg_get P reg2 s);
     value2 \<leftarrow> single_value c2;
     total \<leftarrow> uadd (overflow_checks P) value1 value2;
     (_, s) \<leftarrow> expecting (reg_set P reg1 total s);
     Some s }"

fun exec_program ::
    "('m, 't, 'k::len word, 'v::len word) platform \<Rightarrow> ('k word, 'v word) instruction list \<Rightarrow>
     ('m, 't, 'k word, 'z) machine_scheme \<Rightarrow> ('m, 't, 'k word, 'z) machine_scheme option" where
  "exec_program P [] s = Some s"
| "exec_program P (i # is) s = do { s \<leftarrow> exec P i s; exec_program P is s }"

end
