(* ===== verification/Machine_Invariant.thy ===== *)
theory Machine_Invariant
  imports Ram_Machine
begin

text \<open>
  The contract of the red-black tree crate as a locale, and what the machine of
  \<open>Ram_Machine\<close> keeps under it: time logs count the accesses, the trace is in time order,
  and replaying the trace from an empty memory gives exactly the machine's memory.
\<close>

section \<open>The tree contract\<close>

locale rbtree =
  fixes P :: "('m, 't, 'k::len word, 'v::len word) platform"
  assumes rb_get_new: "rb_get P (rb_new P) = Map.empty"
    and rb_get_insert: "rb_get P (rb_replace_or_insert P m k v) = (rb_get P m)(k \<mapsto> v)"
    and tr_keys_new: "tr_keys P (tr_new P) = []"
    and tr_insert_fresh: "sorted (map tr_time_log (tr_keys P t)) \<Longrightarrow>
      tr_time_log r \<notin> tr_time_log ` set (tr_keys P t) \<Longrightarrow>
      \<exists>t'. tr_insert P trace_cmp t r = Some t' \<and>
        tr_keys P t' = insort_key tr_time_log r (tr_keys P t)"
    and tr_insert_clash: "sorted (map tr_time_log (tr_keys P t)) \<Longrightarrow>
      tr_time_log r \<in> tr_time_log ` set (tr_keys P t) \<Longrightarrow> tr_insert P trace_cmp t r = None"

section \<open>Replaying a trace\<close>

text \<open>
  The meaning of a trace: a write stores its value, a read must return the current value of
  its cell, which is zero for a cell never written.
\<close>

definition cell_value :: "('k \<Rightarrow> 'v::len word option) \<Rightarrow> 'k \<Rightarrow> 'v word" where
  "cell_value m a = (case m a of Some v \<Rightarrow> v | None \<Rightarrow> 0)"

fun replay ::
    "('k \<Rightarrow> 'v::len word option) \<Rightarrow> ('k, 'v word) trace_record list \<Rightarrow>
     ('k \<Rightarrow> 'v word option) option" where
  "replay m [] = Some m"
| "replay m (r # rs) =
     (case tr_instruction r of
        Write \<Rightarrow> replay (m(tr_address r \<mapsto> tr_value r)) rs
      | Read \<Rightarrow> if cell_value m (tr_address r) = tr_value r then replay m rs else None)"

lemma replay_append: "replay m (xs @ ys) = Option.bind (replay m xs) (\<lambda>m. replay m ys)"
  by (induction xs arbitrary: m) (auto split: memory_instruction.splits)

lemma cell_value_upd: "cell_value (m(a \<mapsto> v)) b = (if b = a then v else cell_value m b)"
  by (simp add: cell_value_def)

section \<open>The invariant\<close>

definition trace_ok :: "('k, 'v) trace_record list \<Rightarrow> bool" where
  "trace_ok tr \<longleftrightarrow>
     length tr \<le> 2 ^ 64 \<and> map tr_time_log tr = map word_of_nat [0..<length tr]"

definition machine_inv ::
    "('m, 't, 'k, 'v::len word) platform \<Rightarrow> ('m, 't, 'k, 'z) machine_scheme \<Rightarrow> bool" where
  "machine_inv P s \<longleftrightarrow>
     trace_ok (machine_trace P s) \<and>
     time_log s = word_of_nat (length (machine_trace P s)) \<and>
     replay Map.empty (machine_trace P s) = Some (rb_get P (memory s))"

text \<open>What one access appends to the trace.\<close>

definition read_records ::
    "('m, 't, 'k::len word, 'v::len word) platform \<Rightarrow> 'k word \<Rightarrow> ('m, 't, 'k word, 'z) machine_scheme \<Rightarrow>
     ('k word, 'v word) trace_record list" where
  "read_records P a s =
     (let lo = a - a mod word_size s; hi = lo + word_size s in
      if is_zero (a mod word_size s)
      then [TraceRecord_new (time_log s) (stack_depth s) Read a (dummy_read P a s)]
      else [TraceRecord_new (time_log s) (stack_depth s) Read lo (dummy_read P lo s),
            TraceRecord_new (time_log s + 1) (stack_depth s) Read hi (dummy_read P hi s)])"

definition write_cells ::
    "('m, 't, 'k::len word, 'v::len word) platform \<Rightarrow> 'k word \<Rightarrow> 'v word \<Rightarrow>
     ('m, 't, 'k word, 'z) machine_scheme \<Rightarrow> ('k word \<times> 'v word) list" where
  "write_cells P a v s =
     (let lo = a - a mod word_size s; hi = lo + word_size s;
          k = into_usize (a mod word_size s); n = LENGTH('v) div 8 in
      if is_zero (a mod word_size s) then [(a, v)]
      else [(lo, from_be_bytes (take k (to_be_bytes (dummy_read P lo s)) @
                 take (n - k) (to_be_bytes v))),
            (hi, from_be_bytes (drop (n - k) (to_be_bytes v) @
                 drop k (to_be_bytes (dummy_read P hi s))))])"

fun write_records ::
    "u64 \<Rightarrow> u64 \<Rightarrow> ('k \<times> 'v) list \<Rightarrow> ('k, 'v) trace_record list" where
  "write_records t d [] = []"
| "write_records t d ((a, v) # cs) = TraceRecord_new t d Write a v # write_records (t + 1) d cs"

fun store_cells :: "('k \<Rightarrow> 'v option) \<Rightarrow> ('k \<times> 'v) list \<Rightarrow> 'k \<Rightarrow> 'v option" where
  "store_cells m [] = m"
| "store_cells m ((a, v) # cs) = store_cells (m(a \<mapsto> v)) cs"

lemma length_write_records [simp]: "length (write_records t d cs) = length cs"
  by (induction t d cs rule: write_records.induct) simp_all

lemma replay_write_records: "replay m (write_records t d cs) = Some (store_cells m cs)"
  by (induction t d cs arbitrary: m rule: write_records.induct) (simp_all add: TraceRecord_new_def)

lemma word_of_nat_eq_iff_le:
  "i < n \<Longrightarrow> n \<le> 2 ^ LENGTH('a::len) \<Longrightarrow> j < n \<Longrightarrow>
   (word_of_nat i :: 'a word) = word_of_nat j \<longleftrightarrow> i = j"
  by (simp add: word_unat_eq_iff unat_of_nat)

lemma sorted_time_logs:
  assumes "n \<le> 2 ^ LENGTH('a::len)"
  shows "sorted (map (word_of_nat :: nat \<Rightarrow> 'a word) [0..<n])"
  unfolding sorted_iff_nth_mono using assms
  by (simp add: word_of_nat_le_iff)

lemma insort_key_max: "\<forall>x \<in> set xs. f x < f r \<Longrightarrow> insort_key f r xs = xs @ [r]"
  by (induction xs) auto

context rbtree
begin

lemma dummy_read_cell: "dummy_read P a s = cell_value (rb_get P (memory s)) a"
  by (simp add: dummy_read_def cell_value_def base_zero_def split: option.splits)

lemma track_appends:
  assumes ok: "trace_ok (machine_trace P s)"
    and r: "tr_time_log r = word_of_nat (length (machine_trace P s))"
    and tk: "track P r s = Some s'"
  shows "length (machine_trace P s) < 2 ^ 64"
    and "s' = s\<lparr>execution_trace := execution_trace s'\<rparr>"
    and "machine_trace P s' = machine_trace P s @ [r]"
    and "trace_ok (machine_trace P s @ [r])"
proof -
  let ?tr = "machine_trace P s"
  let ?n = "length ?tr"
  from ok have n: "?n \<le> 2 ^ 64" and times: "map tr_time_log ?tr = map word_of_nat [0..<?n]"
    by (simp_all add: trace_ok_def)
  have image: "tr_time_log ` set ?tr = word_of_nat ` {0..<?n}"
    using arg_cong [OF times, of set] by simp
  have sorted: "sorted (map tr_time_log ?tr)"
    unfolding times using n by (intro sorted_time_logs) simp
  from tk obtain t where t: "tr_insert P trace_cmp (execution_trace s) r = Some t"
    and s': "s' = s\<lparr>execution_trace := t\<rparr>"
    by (auto simp: track_def bind_eq_Some_conv)
  have fresh: "tr_time_log r \<notin> tr_time_log ` set ?tr"
    using tr_insert_clash [of "execution_trace s" r] sorted t by (auto simp: machine_trace_def)
  show lt: "?n < 2 ^ 64"
  proof (rule ccontr)
    assume "\<not> ?n < 2 ^ 64"
    with n have eq: "?n = 2 ^ 64" by simp
    then have "(word_of_nat ?n :: u64) = word_of_nat 0" by simp
    moreover have "0 \<in> {0..<?n}" using eq by simp
    ultimately have "word_of_nat ?n \<in> (word_of_nat :: nat \<Rightarrow> u64) ` {0..<?n}" by (metis image_eqI)
    with fresh r image show False by simp
  qed
  have "\<forall>x \<in> set ?tr. tr_time_log x < tr_time_log r"
  proof
    fix x assume "x \<in> set ?tr"
    then have "tr_time_log x \<in> word_of_nat ` {0..<?n}" using image by auto
    then obtain i where "i < ?n" "tr_time_log x = word_of_nat i" by auto
    then show "tr_time_log x < tr_time_log r"
      using r lt by (simp add: word_of_nat_less_iff)
  qed
  then have "insort_key tr_time_log r ?tr = ?tr @ [r]" by (rule insort_key_max)
  with tr_insert_fresh [of "execution_trace s" r] sorted fresh t
  have "tr_keys P t = ?tr @ [r]" by (simp add: machine_trace_def)
  with s' show "s' = s\<lparr>execution_trace := execution_trace s'\<rparr>"
    and "machine_trace P s' = ?tr @ [r]" by (simp_all add: machine_trace_def)
  show "trace_ok (?tr @ [r])"
    using lt times r by (simp add: trace_ok_def)
qed

lemma track_succeeds:
  assumes ok: "trace_ok (machine_trace P s)"
    and r: "tr_time_log r = word_of_nat (length (machine_trace P s))"
    and lt: "length (machine_trace P s) < 2 ^ 64"
  shows "\<exists>s'. track P r s = Some s'"
proof -
  let ?tr = "machine_trace P s"
  let ?n = "length ?tr"
  from ok have times: "map tr_time_log ?tr = map word_of_nat [0..<?n]"
    by (simp add: trace_ok_def)
  have image: "tr_time_log ` set ?tr = word_of_nat ` {0..<?n}"
    using arg_cong [OF times, of set] by simp
  have sorted: "sorted (map tr_time_log ?tr)"
    unfolding times using lt by (intro sorted_time_logs) simp
  have "tr_time_log r \<notin> tr_time_log ` set ?tr"
    unfolding image r
  proof
    assume "(word_of_nat ?n :: u64) \<in> word_of_nat ` {0..<?n}"
    then obtain i where i: "i < ?n" and "(word_of_nat ?n :: u64) = word_of_nat i" by auto
    then have "unat (word_of_nat ?n :: u64) = unat (word_of_nat i :: u64)" by simp
    with lt i show False by (simp add: unat_of_nat)
  qed
  with tr_insert_fresh [of "execution_trace s" r] sorted show ?thesis
    by (auto simp: track_def machine_trace_def)
qed

text \<open>Two consecutive records, as an access to two cells appends them.\<close>

lemma machine_trace_simps [simp]:
  "machine_trace P (s\<lparr>time_log := x\<rparr>) = machine_trace P s"
  "machine_trace P (s\<lparr>memory := m\<rparr>) = machine_trace P s"
  "machine_trace P (s\<lparr>stack_depth := d\<rparr>) = machine_trace P s"
  "machine_trace P (s\<lparr>stack_ptr := p\<rparr>) = machine_trace P s"
  "machine_trace P (s\<lparr>execution_trace := t\<rparr>) = tr_keys P t"
  by (simp_all add: machine_trace_def)

lemma track_twice:
  assumes ok: "trace_ok (machine_trace P s)"
    and a: "tr_time_log a = word_of_nat (length (machine_trace P s))"
    and b: "tr_time_log b = tr_time_log a + 1"
    and ta: "track P a s = Some s1" and tb: "track P b s1 = Some s2"
  shows "s2 = s\<lparr>execution_trace := execution_trace s2\<rparr>"
    and "machine_trace P s2 = machine_trace P s @ [a, b]"
    and "trace_ok (machine_trace P s @ [a, b])"
proof -
  note A = track_appends [OF ok a ta]
  have b': "tr_time_log b = word_of_nat (length (machine_trace P s1))"
    using a b A(3) by simp
  have ok': "trace_ok (machine_trace P s1)" using A(3,4) by simp
  note B = track_appends [OF ok' b' tb]
  have frame: "s1 = s\<lparr>execution_trace := execution_trace s1\<rparr>"
    "s2 = s1\<lparr>execution_trace := execution_trace s2\<rparr>" by (fact A(2), fact B(2))
  show "s2 = s\<lparr>execution_trace := execution_trace s2\<rparr>"
    by (subst frame(2), subst frame(1)) simp
  show "machine_trace P s2 = machine_trace P s @ [a, b]" and "trace_ok (machine_trace P s @ [a, b])"
    using A(3) B(3,4) by simp_all
qed

text \<open>
  What a successful access did to the machine. First the shape of a run, read off the
  definition; then its effect on the trace.
\<close>

lemma mem_read_aligned_run:
  assumes "mem_read P a s = Some r" "is_zero (a mod word_size s)"
  obtains s1 where "track P (TraceRecord_new (time_log s) (stack_depth s) Read a (dummy_read P a s)) s
      = Some s1"
    and "r = Inr (SingleCell Read a (dummy_read P a s), s1\<lparr>time_log := time_log s + 1\<rparr>)"
  using assms
  by (auto simp: mem_read_def Let_def bind_eq_Some_conv
      dest!: urem_eq uadd_eq split: if_splits)

lemma mem_read_unaligned_run:
  assumes "mem_read P a s = Some r" "\<not> is_zero (a mod word_size s)"
    and "lo = a - a mod word_size s" "hi = lo + word_size s"
  obtains s1 s2 part_hi hi_bytes lo_bytes buf0 buf where
    "usize_sub (overflow_checks P) (into_usize (word_size s)) (into_usize (a mod word_size s))
      = Some part_hi"
    and "slice_get (to_be_bytes (dummy_read P hi s)) 0 (into_usize (a mod word_size s)) = Some hi_bytes"
    and "slice_set (replicate (LENGTH('v) div 8) 0) part_hi (into_usize (word_size s)) hi_bytes
      = Some buf0"
    and "slice_get (to_be_bytes (dummy_read P lo s)) (into_usize (a mod word_size s))
        (into_usize (word_size s)) = Some lo_bytes"
    and "slice_set buf0 0 part_hi lo_bytes = Some buf"
    and "track P (TraceRecord_new (time_log s) (stack_depth s) Read lo (dummy_read P lo s)) s = Some s1"
    and "track P (TraceRecord_new (time_log s + 1) (stack_depth s1) Read hi (dummy_read P hi s)) s1
      = Some s2"
    and "r = Inr (DoubleCell Read a (from_be_bytes buf) lo (dummy_read P lo s) hi (dummy_read P hi s),
        s2\<lparr>time_log := time_log s + 2\<rparr>)"
  using assms
  by (auto simp: mem_read_def Let_def bind_eq_Some_conv compute_address_def
      dest!: urem_eq uadd_eq usub_eq split: if_splits)

lemma mem_write_aligned_run:
  assumes "mem_write P a v s = Some r" "is_zero (a mod word_size s)"
  obtains s1 where "track P (TraceRecord_new (time_log s) (stack_depth s) Write a v)
      (s\<lparr>memory := rb_replace_or_insert P (memory s) a v\<rparr>) = Some s1"
    and "r = Inr (SingleCell Write a v, s1\<lparr>time_log := time_log s + 1\<rparr>)"
  using assms
  by (auto simp: mem_write_def Let_def bind_eq_Some_conv
      dest!: urem_eq uadd_eq split: if_splits)

lemma mem_write_unaligned_run:
  fixes v :: "'v word"
  assumes "mem_write P a v s = Some r" "\<not> is_zero (a mod word_size s)"
    and "lo = a - a mod word_size s" "hi = lo + word_size s"
  obtains s1 s2 part_hi front lo_buf rest hi_buf where
    "usize_sub (overflow_checks P) (into_usize (word_size s)) (into_usize (a mod word_size s))
      = Some part_hi"
    and "slice_get (to_be_bytes v) 0 part_hi = Some front"
    and "slice_set (to_be_bytes (dummy_read P lo s)) (into_usize (a mod word_size s))
        (into_usize (word_size s)) front = Some lo_buf"
    and "slice_get (to_be_bytes v) part_hi (into_usize (word_size s)) = Some rest"
    and "slice_set (to_be_bytes (dummy_read P hi s)) 0 (into_usize (a mod word_size s)) rest
      = Some hi_buf"
    and "track P (TraceRecord_new (time_log s) (stack_depth s) Write lo (from_be_bytes lo_buf :: 'v word))
        (s\<lparr>memory := rb_replace_or_insert P (rb_replace_or_insert P (memory s) lo (from_be_bytes lo_buf))
          hi (from_be_bytes hi_buf)\<rparr>) = Some s1"
    and "track P (TraceRecord_new (time_log s + 1) (stack_depth s1) Write hi
        (from_be_bytes hi_buf :: 'v word)) s1 = Some s2"
    and "r = Inr (DoubleCell Write a v lo (from_be_bytes lo_buf) hi (from_be_bytes hi_buf),
        s2\<lparr>time_log := time_log s + 2\<rparr>)"
  using assms
  by (auto simp: mem_write_def Let_def bind_eq_Some_conv compute_address_def
      dest!: urem_eq uadd_eq usub_eq split: if_splits)

lemma mem_read_effect:
  assumes inv: "machine_inv P s" and run: "mem_read P a s = Some r"
  obtains c t where "r = Inr (c, s\<lparr>execution_trace := t,
      time_log := word_of_nat (length (machine_trace P s @ read_records P a s))\<rparr>)"
    and "tr_keys P t = machine_trace P s @ read_records P a s"
    and "trace_ok (machine_trace P s @ read_records P a s)"
proof -
  from inv have ok: "trace_ok (machine_trace P s)"
    and tl: "time_log s = word_of_nat (length (machine_trace P s))"
    by (simp_all add: machine_inv_def)
  show thesis
  proof (cases "is_zero (a mod word_size s)")
    case True
    let ?r = "TraceRecord_new (time_log s) (stack_depth s) Read a (dummy_read P a s)"
    obtain s1 where tk: "track P ?r s = Some s1"
      and r: "r = Inr (SingleCell Read a (dummy_read P a s), s1\<lparr>time_log := time_log s + 1\<rparr>)"
      by (rule mem_read_aligned_run [OF run True])
    have t: "tr_time_log ?r = word_of_nat (length (machine_trace P s))"
      using tl by (simp add: TraceRecord_new_def)
    note T = track_appends [OF ok t tk]
    have rr: "read_records P a s = [?r]" using True by (simp add: read_records_def Let_def)
    show thesis
    proof (rule that)
      show "r = Inr (SingleCell Read a (dummy_read P a s), s\<lparr>execution_trace := execution_trace s1,
          time_log := word_of_nat (length (machine_trace P s @ read_records P a s))\<rparr>)"
        unfolding r rr using tl by (subst T(2)) simp
    qed (use T(3,4) rr in \<open>simp_all add: machine_trace_def\<close>)
  next
    case False
    define lo where "lo = a - a mod word_size s"
    define hi where "hi = lo + word_size s"
    let ?r1 = "TraceRecord_new (time_log s) (stack_depth s) Read lo (dummy_read P lo s)"
    obtain s1 s2 c where t1: "track P ?r1 s = Some s1"
      and t2: "track P (TraceRecord_new (time_log s + 1) (stack_depth s1) Read hi (dummy_read P hi s)) s1
        = Some s2"
      and r: "r = Inr (c, s2\<lparr>time_log := time_log s + 2\<rparr>)"
      by (rule mem_read_unaligned_run [OF run False lo_def hi_def])
    have t: "tr_time_log ?r1 = word_of_nat (length (machine_trace P s))"
      using tl by (simp add: TraceRecord_new_def)
    have sd: "stack_depth s1 = stack_depth s" by (subst track_appends(2) [OF ok t t1]) simp
    note T = track_twice [OF ok t _ t1 t2 [unfolded sd], simplified TraceRecord_new_def, simplified]
    have rr: "read_records P a s = [?r1, TraceRecord_new (time_log s + 1) (stack_depth s) Read hi
        (dummy_read P hi s)]"
      using False by (simp add: read_records_def Let_def lo_def hi_def)
    show thesis
    proof (rule that)
      show "r = Inr (c, s\<lparr>execution_trace := execution_trace s2,
          time_log := word_of_nat (length (machine_trace P s @ read_records P a s))\<rparr>)"
        unfolding r rr using tl by (subst T(1)) simp
    qed (use T(2,3) rr in \<open>simp_all add: machine_trace_def TraceRecord_new_def\<close>)
  qed
qed

lemma mem_write_effect:
  fixes v :: "'v word"
  assumes inv: "machine_inv P s" and run: "mem_write P a v s = Some r"
  obtains c m t cells where "r = Inr (c, s\<lparr>memory := m, execution_trace := t, time_log :=
        word_of_nat (length (machine_trace P s @ write_records (time_log s) (stack_depth s) cells))\<rparr>)"
    and "tr_keys P t = machine_trace P s @ write_records (time_log s) (stack_depth s) cells"
    and "trace_ok (machine_trace P s @ write_records (time_log s) (stack_depth s) cells)"
    and "rb_get P m = store_cells (rb_get P (memory s)) cells" "length cells \<le> 2"
proof -
  from inv have ok: "trace_ok (machine_trace P s)"
    and tl: "time_log s = word_of_nat (length (machine_trace P s))"
    by (simp_all add: machine_inv_def)
  show thesis
  proof (cases "is_zero (a mod word_size s)")
    case True
    let ?r = "TraceRecord_new (time_log s) (stack_depth s) Write a v"
    let ?s = "s\<lparr>memory := rb_replace_or_insert P (memory s) a v\<rparr>"
    obtain s1 where tk: "track P ?r ?s = Some s1"
      and r: "r = Inr (SingleCell Write a v, s1\<lparr>time_log := time_log s + 1\<rparr>)"
      by (rule mem_write_aligned_run [OF run True])
    have ok': "trace_ok (machine_trace P ?s)" using ok by simp
    have t: "tr_time_log ?r = word_of_nat (length (machine_trace P ?s))"
      using tl by (simp add: TraceRecord_new_def)
    note T = track_appends [OF ok' t tk]
    show thesis
    proof (rule that [where cells = "[(a, v)]"])
      show "r = Inr (SingleCell Write a v, s\<lparr>memory := rb_replace_or_insert P (memory s) a v,
          execution_trace := execution_trace s1, time_log := word_of_nat (length
            (machine_trace P s @ write_records (time_log s) (stack_depth s) [(a, v)]))\<rparr>)"
        unfolding r using tl by (subst T(2)) simp
    qed (use T(3,4) in \<open>simp_all add: machine_trace_def rb_get_insert\<close>)
  next
    case False
    define lo where "lo = a - a mod word_size s"
    define hi where "hi = lo + word_size s"
    obtain s1 s2 c v1 v2 where t1: "track P (TraceRecord_new (time_log s) (stack_depth s) Write lo v1)
        (s\<lparr>memory := rb_replace_or_insert P (rb_replace_or_insert P (memory s) lo v1) hi v2\<rparr>) = Some s1"
      and t2: "track P (TraceRecord_new (time_log s + 1) (stack_depth s1) Write hi v2) s1 = Some s2"
      and r: "r = Inr (c, s2\<lparr>time_log := time_log s + 2\<rparr>)"
      by (rule mem_write_unaligned_run [OF run False lo_def hi_def])
    let ?r1 = "TraceRecord_new (time_log s) (stack_depth s) Write lo v1"
    let ?s = "s\<lparr>memory := rb_replace_or_insert P (rb_replace_or_insert P (memory s) lo v1) hi v2\<rparr>"
    have ok': "trace_ok (machine_trace P ?s)" using ok by simp
    have t: "tr_time_log ?r1 = word_of_nat (length (machine_trace P ?s))"
      using tl by (simp add: TraceRecord_new_def)
    have sd: "stack_depth s1 = stack_depth s" by (subst track_appends(2) [OF ok' t t1]) simp
    note T = track_twice [OF ok' t _ t1 t2 [unfolded sd], simplified TraceRecord_new_def, simplified]
    show thesis
    proof (rule that [where cells = "[(lo, v1), (hi, v2)]"])
      show "r = Inr (c, s\<lparr>memory := rb_replace_or_insert P (rb_replace_or_insert P (memory s) lo v1) hi v2,
          execution_trace := execution_trace s2, time_log := word_of_nat (length
            (machine_trace P s @ write_records (time_log s) (stack_depth s) [(lo, v1), (hi, v2)]))\<rparr>)"
        unfolding r using tl by (subst T(1)) simp
    qed (use T(2,3) in \<open>simp_all add: machine_trace_def TraceRecord_new_def rb_get_insert\<close>)
  qed
qed

text \<open>Reads and writes keep the invariant and never return an error.\<close>

lemma replay_read_records:
  "replay (rb_get P (memory s)) (read_records P a s) = Some (rb_get P (memory s))"
  by (simp add: read_records_def Let_def TraceRecord_new_def dummy_read_cell)

lemma mem_read_inv:
  assumes inv: "machine_inv P s" and run: "mem_read P a s = Some r"
  obtains c s' where "r = Inr (c, s')" "machine_inv P s'" "memory s' = memory s"
    "machine_trace P s' = machine_trace P s @ read_records P a s"
proof -
  obtain c t where r: "r = Inr (c, s\<lparr>execution_trace := t,
      time_log := word_of_nat (length (machine_trace P s @ read_records P a s))\<rparr>)"
    and k: "tr_keys P t = machine_trace P s @ read_records P a s"
    and ok: "trace_ok (machine_trace P s @ read_records P a s)"
    by (rule mem_read_effect [OF inv run])
  have "replay Map.empty (machine_trace P s @ read_records P a s) = Some (rb_get P (memory s))"
    using inv by (simp add: replay_append machine_inv_def replay_read_records)
  with k ok show thesis
    by (intro that [OF r]) (simp_all add: machine_inv_def)
qed

lemma mem_write_inv:
  assumes inv: "machine_inv P s" and run: "mem_write P a v s = Some r"
  obtains c s' where "r = Inr (c, s')" "machine_inv P s'"
proof -
  obtain c m t cells where r: "r = Inr (c, s\<lparr>memory := m, execution_trace := t, time_log :=
        word_of_nat (length (machine_trace P s @ write_records (time_log s) (stack_depth s) cells))\<rparr>)"
    and k: "tr_keys P t = machine_trace P s @ write_records (time_log s) (stack_depth s) cells"
    and ok: "trace_ok (machine_trace P s @ write_records (time_log s) (stack_depth s) cells)"
    and m: "rb_get P m = store_cells (rb_get P (memory s)) cells" and "length cells \<le> 2"
    by (rule mem_write_effect [OF inv run])
  have "replay Map.empty (machine_trace P s @ write_records (time_log s) (stack_depth s) cells)
      = Some (rb_get P m)"
    using inv by (simp add: replay_append machine_inv_def replay_write_records m)
  with k ok show thesis
    by (intro that [OF r]) (simp_all add: machine_inv_def)
qed

lemma push_run:
  "push P v s = Some (Inr ((d, c), s')) \<longleftrightarrow>
     stack_depth s \<noteq> max_stack_depth s \<and>
     uadd (overflow_checks P) (stack_depth s) 1 = Some d \<and>
     (\<exists>p. uadd (overflow_checks P) (stack_ptr s) (word_size s) = Some p \<and>
       mem_write P (stack_ptr s) v (s\<lparr>stack_depth := d, stack_ptr := p\<rparr>) = Some (Inr (c, s')))"
  by (auto simp: push_def Let_def bind_eq_Some_conv
      split: if_split_asm sum.split_asm prod.split_asm)

lemma pop_run:
  "pop P s = Some (Inr ((d, c), s')) \<longleftrightarrow>
     stack_depth s \<noteq> 0 \<and>
     usub (overflow_checks P) (stack_depth s) 1 = Some d \<and>
     (\<exists>p. usub (overflow_checks P) (stack_ptr s) (word_size s) = Some p \<and>
       mem_read P p (s\<lparr>stack_depth := d, stack_ptr := p\<rparr>) = Some (Inr (c, s')))"
  by (auto simp: pop_def Let_def bind_eq_Some_conv
      split: if_split_asm sum.split_asm prod.split_asm)

lemma machine_inv_stack [simp]:
  "machine_inv P (s\<lparr>stack_depth := d\<rparr>) = machine_inv P s"
  "machine_inv P (s\<lparr>stack_ptr := p\<rparr>) = machine_inv P s"
  by (simp_all add: machine_inv_def)

lemma push_inv:
  assumes "machine_inv P s" "push P v s = Some (Inr (x, s'))"
  shows "machine_inv P s'"
proof -
  obtain d p c where "mem_write P (stack_ptr s) v (s\<lparr>stack_depth := d, stack_ptr := p\<rparr>)
      = Some (Inr (c, s'))"
    using assms(2) by (cases x) (auto simp: push_run)
  then show ?thesis using assms(1) by (auto elim: mem_write_inv [rotated])
qed

lemma pop_inv:
  assumes "machine_inv P s" "pop P s = Some (Inr (x, s'))"
  shows "machine_inv P s'"
proof -
  obtain d p c where "mem_read P p (s\<lparr>stack_depth := d, stack_ptr := p\<rparr>) = Some (Inr (c, s'))"
    using assms(2) by (cases x) (auto simp: pop_run)
  then show ?thesis using assms(1) by (auto elim: mem_read_inv [rotated])
qed

end

section \<open>Steps and reachable machines\<close>

text \<open>
  The public operations of the traits as one step relation; registers are memory cells, so
  \<open>set\<close> and \<open>get\<close> are writes and reads.
\<close>

inductive mstep ::
    "('m, 't, 'k::len word, 'v::len word) platform \<Rightarrow> ('m, 't, 'k word, 'z) machine_scheme \<Rightarrow>
     ('m, 't, 'k word, 'z) machine_scheme \<Rightarrow> bool" for P where
  step_read: "mem_read P a s = Some (Inr (c, s')) \<Longrightarrow> mstep P s s'"
| step_write: "mem_write P a v s = Some (Inr (c, s')) \<Longrightarrow> mstep P s s'"
| step_push: "push P v s = Some (Inr (x, s')) \<Longrightarrow> mstep P s s'"
| step_pop: "pop P s = Some (Inr (x, s')) \<Longrightarrow> mstep P s s'"

inductive_cases mstepE: "mstep P s s'"

inductive reachable ::
    "('m, 't, 'k::len word, 'v::len word) platform \<Rightarrow> config_args \<Rightarrow>
     ('m, 't, 'k word) state_machine \<Rightarrow> bool" for P args where
  reach_new: "StateMachine_new P args = Some s \<Longrightarrow> reachable P args s"
| reach_step: "reachable P args s \<Longrightarrow> mstep P s s' \<Longrightarrow> reachable P args s'"

lemma expecting_eq_Some [simp]: "expecting r = Some x \<longleftrightarrow> r = Some (Inr x)"
  by (auto simp: expecting_def bind_eq_Some_conv)

lemma reg_ops_steps:
  "reg_set P g v s = Some (Inr (c, s')) \<Longrightarrow> mstep P s s'"
  "reg_get P g s = Some (Inr (c, s')) \<Longrightarrow> mstep P s s'"
  by (auto simp: reg_set_def reg_get_def intro: mstep.intros)

lemmas mstep_intros = mstep.intros reg_ops_steps

lemma steps_consI: "mstep P s s' \<Longrightarrow> (mstep P)\<^sup>*\<^sup>* s' t \<Longrightarrow> (mstep P)\<^sup>*\<^sup>* s t"
  by (rule converse_rtranclp_into_rtranclp)

lemma exec_steps:
  assumes "exec P i s = Some s'"
  shows "(mstep P)\<^sup>*\<^sup>* s s'"
proof (cases i)
  case (I_Swap g)
  then obtain x c s1 v d s2 where "pop P s = Some (Inr ((x, c), s1))" "single_value c = Some v"
    and "reg_get P g s1 = Some (Inr (d, s2))" and
    "(case d of SingleCell _ _ w \<Rightarrow> do { (_, s) \<leftarrow> expecting (push P w s2);
        (_, s) \<leftarrow> expecting (reg_set P g v s); Some s }
      | DoubleCell _ _ _ _ _ _ _ \<Rightarrow> Some s2) = Some s'"
    using assms by (auto simp: bind_eq_Some_conv)
  then show ?thesis
    by (cases d) (auto simp: bind_eq_Some_conv dest!: mstep_intros elim!: steps_consI)
next
  case (I_Load g a)
  then obtain c s1 where "mem_read P a s = Some (Inr (c, s1))" and
    "(case c of SingleCell _ _ w \<Rightarrow> do { (_, s) \<leftarrow> expecting (reg_set P g w s1); Some s }
      | DoubleCell _ _ w _ _ _ _ \<Rightarrow> do { (_, s) \<leftarrow> expecting (reg_set P g w s1); Some s }) = Some s'"
    using assms by (auto simp: bind_eq_Some_conv)
  then show ?thesis
    by (cases c) (auto simp: bind_eq_Some_conv dest!: mstep_intros elim!: steps_consI)
qed (use assms in \<open>auto simp: bind_eq_Some_conv split: if_split_asm
      dest!: mstep_intros elim!: steps_consI\<close>)

lemma exec_program_steps: "exec_program P is s = Some s' \<Longrightarrow> (mstep P)\<^sup>*\<^sup>* s s'"
  by (induction "is" arbitrary: s)
    (auto simp: bind_eq_Some_conv dest!: exec_steps intro: rtranclp_trans)

lemma reachable_exec:
  assumes "reachable P args s" "exec P i s = Some s'"
  shows "reachable P args s'"
  using exec_steps [OF assms(2)] assms(1)
  by (induction rule: rtranclp_induct) (auto intro: reachable.intros)

lemma reachable_program:
  assumes "StateMachine_new P args = Some s" "exec_program P is s = Some s'"
  shows "reachable P args s'"
  using exec_program_steps [OF assms(2)] assms(1)
  by (induction rule: rtranclp_induct) (auto intro: reachable.intros)

context rbtree
begin

lemma StateMachine_new_inv: "StateMachine_new P args = Some s \<Longrightarrow> machine_inv P s"
  by (auto simp: StateMachine_new_def bind_eq_Some_conv machine_inv_def machine_trace_def
      tr_keys_new rb_get_new trace_ok_def)

lemma mstep_inv: "mstep P s s' \<Longrightarrow> machine_inv P s \<Longrightarrow> machine_inv P s'"
  by (auto elim!: mstepE intro: push_inv pop_inv elim: mem_read_inv mem_write_inv)

lemma reachable_inv: "reachable P args s \<Longrightarrow> machine_inv P s"
  by (induction rule: reachable.induct) (auto intro: StateMachine_new_inv mstep_inv)

end

section \<open>An implementation of the contract\<close>

text \<open>
  The red-black trees of the library for the memory, and an insertion into an ordered list
  that calls the comparison function of the trace records.
\<close>

fun ordered_insert :: "('r \<Rightarrow> 'r \<Rightarrow> ordering option) \<Rightarrow> 'r list \<Rightarrow> 'r \<Rightarrow> 'r list option" where
  "ordered_insert cmp [] r = Some [r]"
| "ordered_insert cmp (x # xs) r =
     (case cmp r x of
        None \<Rightarrow> None
      | Some Less \<Rightarrow> Some (r # x # xs)
      | Some _ \<Rightarrow> map_option ((#) x) (ordered_insert cmp xs r))"

definition rbt_platform ::
    "bool \<Rightarrow> (('k::linorder, 'v) RBT.rbt, ('k, 'v) trace_record list, 'k, 'v) platform" where
  "rbt_platform chk =
     \<lparr>overflow_checks = chk, rb_new = RBT.empty, rb_get = RBT.lookup,
      rb_replace_or_insert = (\<lambda>m k v. RBT.insert k v m),
      tr_new = [], tr_insert = ordered_insert, tr_keys = id\<rparr>"

lemma ordered_insert_fresh:
  "sorted (map tr_time_log xs) \<Longrightarrow> tr_time_log r \<notin> tr_time_log ` set xs \<Longrightarrow>
   ordered_insert trace_cmp xs r = Some (insort_key tr_time_log r xs)"
  by (induction xs) (auto simp: trace_cmp_def)

lemma ordered_insert_clash:
  "sorted (map tr_time_log xs) \<Longrightarrow> tr_time_log r \<in> tr_time_log ` set xs \<Longrightarrow>
   ordered_insert trace_cmp xs r = None"
  by (induction xs) (force simp: trace_cmp_def)+

interpretation rbt: rbtree "rbt_platform chk ::
    (('k::len word, 'v::len word) RBT.rbt, ('k word, 'v word) trace_record list, 'k word, 'v word) platform"
  by unfold_locales
    (auto simp: rbt_platform_def ordered_insert_fresh ordered_insert_clash)

end
