(* ===== verification/Machine_Bytes.thy ===== *)
theory Machine_Bytes
  imports Machine_Invariant
begin

text \<open>
  The abstract memory behind \<open>AbstractMemoryMachine\<close>: a flat array of bytes. An access
  at any address, aligned with the cells or not, reads or writes \<open>word_size\<close>
  consecutive bytes of it, although the machine stores whole cells and touches two of them
  when the address is not a multiple of the word size.
\<close>

section \<open>Cells and offsets\<close>

text \<open>The configuration the code uses: one cell holds one value.\<close>

definition cells_fit :: "'v::len itself \<Rightarrow> ('m, 't, 'k::len word, 'z) machine_scheme \<Rightarrow> bool" where
  "cells_fit _ s \<longleftrightarrow>
     unat (word_size s) = LENGTH('v) div 8 \<and> 8 dvd LENGTH('v) \<and> LENGTH('v) div 8 < 2 ^ 64"

definition flat_byte ::
    "('m, 't, 'k::len word, 'v::len word) platform \<Rightarrow> ('m, 't, 'k word, 'z) machine_scheme \<Rightarrow>
     'k word \<Rightarrow> u8" where
  "flat_byte P s x =
     to_be_bytes (dummy_read P (x - x mod word_size s) s) ! unat (x mod word_size s)"

text \<open>The value a read returns, whatever the shape of the interaction.\<close>

fun interaction_value :: "('k, 'v) cell_interaction \<Rightarrow> 'v" where
  "interaction_value (SingleCell _ _ v) = v"
| "interaction_value (DoubleCell _ _ v _ _ _ _) = v"

lemma cells_fit_pos:
  assumes "cells_fit TYPE('v::len) s"
  shows "0 < LENGTH('v) div 8"
proof -
  obtain j where "LENGTH('v) = 8 * j" using assms by (auto simp: cells_fit_def)
  then show ?thesis using len_gt_0 [where 'a = 'v] by simp
qed

lemma cell_base:
  fixes x :: "'k::len word"
  assumes "unat w = n"
  shows "x - x mod w = word_of_nat (n * (unat x div n))" and "unat (x mod w) = unat x mod n"
    and "n * (unat x div n) < 2 ^ LENGTH('k)"
proof -
  show m: "unat (x mod w) = unat x mod n"
    using assms by (simp add: unat_mod_distrib)
  have le: "n * (unat x div n) \<le> unat x" by simp
  also have "\<dots> < 2 ^ LENGTH('k)" by (rule unat_less_2p)
  finally show lt: "n * (unat x div n) < 2 ^ LENGTH('k)" .
  have "x mod w \<le> x" using m by (simp add: word_le_nat_alt)
  then have "unat (x - x mod w) = unat x - unat x mod n"
    using m by (simp add: unat_sub)
  also have "\<dots> = n * (unat x div n)" by (simp add: minus_mod_eq_mult_div)
  finally show "x - x mod w = word_of_nat (n * (unat x div n))"
    using lt by (simp add: word_unat_eq_iff unat_of_nat del: of_nat_mult)
qed

lemma cell_index_eq:
  fixes i j :: nat
  assumes "0 < n" "n * i < 2 ^ LENGTH('k::len)" "n * j < 2 ^ LENGTH('k)"
  shows "(word_of_nat (n * i) :: 'k word) = word_of_nat (n * j) \<longleftrightarrow> i = j"
  using assms by (simp add: word_unat_eq_iff unat_of_nat del: of_nat_mult)

section \<open>The byte buffers of an unaligned access\<close>

lemma slices:
  assumes "k \<le> n" "length lo = n" "length hi = n" "length val = n"
  shows "usize_sub chk n k = Some (n - k)"
    and "slice_get val 0 (n - k) = Some (take (n - k) val)"
    and "slice_set lo k n (take (n - k) val) = Some (take k lo @ take (n - k) val)"
    and "slice_get val (n - k) n = Some (drop (n - k) val)"
    and "slice_set hi 0 k (drop (n - k) val) = Some (drop (n - k) val @ drop k hi)"
    and "slice_get hi 0 k = Some (take k hi)"
    and "slice_set (replicate n 0) (n - k) n (take k hi) = Some (replicate (n - k) 0 @ take k hi)"
    and "slice_get lo k n = Some (drop k lo)"
    and "slice_set (replicate (n - k) 0 @ take k hi) 0 (n - k) (drop k lo) = Some (drop k lo @ take k hi)"
  using assms by (simp_all add: usize_sub_def slice_get_def slice_set_def)

context rbtree
begin

lemma offset_usize:
  assumes "cells_fit TYPE('v) s"
  shows "into_usize (word_size s) = LENGTH('v) div 8"
    and "into_usize (a mod word_size s) = unat a mod (LENGTH('v) div 8)"
proof -
  from assms have w: "unat (word_size s) = LENGTH('v) div 8" and lt: "LENGTH('v) div 8 < 2 ^ 64"
    by (simp_all add: cells_fit_def)
  show "into_usize (word_size s) = LENGTH('v) div 8" using w lt by (simp add: into_usize_def)
  have "unat a mod (LENGTH('v) div 8) < 2 ^ 64"
    using lt cells_fit_pos [OF assms] by (meson mod_less_divisor less_trans)
  then show "into_usize (a mod word_size s) = unat a mod (LENGTH('v) div 8)"
    using cell_base(2) [OF w] by (simp add: into_usize_def)
qed

text \<open>The exact cells an access touches and what it stores there.\<close>

lemma mem_write_cells:
  fixes v :: "'v word"
  assumes inv: "machine_inv P s" and fit: "cells_fit TYPE('v) s"
    and run: "mem_write P a v s = Some (Inr (c, s'))"
  shows "rb_get P (memory s') = store_cells (rb_get P (memory s)) (write_cells P a v s)"
    and "word_size s' = word_size s" and "machine_inv P s'"
    and "machine_trace P s' = machine_trace P s @ write_records (time_log s) (stack_depth s) (write_cells P a v s)"
proof -
  let ?n = "LENGTH('v) div 8" and ?k = "unat a mod (LENGTH('v) div 8)"
  show "machine_inv P s'" by (rule mem_write_inv [OF inv run]) simp
  show "word_size s' = word_size s" by (rule mem_write_effect [OF inv run]) simp
  have ok: "trace_ok (machine_trace P s)"
    and tl: "time_log s = word_of_nat (length (machine_trace P s))"
    using inv by (simp_all add: machine_inv_def)
  have "rb_get P (memory s') = store_cells (rb_get P (memory s)) (write_cells P a v s) \<and>
    machine_trace P s' = machine_trace P s @ write_records (time_log s) (stack_depth s) (write_cells P a v s)"
  proof (cases "is_zero (a mod word_size s)")
    case True
    then show ?thesis
    proof (rule mem_write_aligned_run [OF run])
      fix s1
      assume t: "track P (TraceRecord_new (time_log s) (stack_depth s) Write a v)
          (s\<lparr>memory := rb_replace_or_insert P (memory s) a v\<rparr>) = Some s1"
        and r: "Inr (c, s') = Inr (SingleCell Write a v, s1\<lparr>time_log := time_log s + 1\<rparr>)"
      have "memory s1 = rb_replace_or_insert P (memory s) a v"
        using t by (auto simp: track_def bind_eq_Some_conv)
      moreover have "machine_trace P s1 = machine_trace P s @ [TraceRecord_new (time_log s) (stack_depth s) Write a v]"
        using track_appends(3) [OF _ _ t] ok tl by (simp add: TraceRecord_new_def)
      ultimately show ?thesis using r True by (auto simp: write_cells_def Let_def rb_get_insert)
    qed
  next
    case False
    define lo where "lo = a - a mod word_size s"
    define hi where "hi = lo + word_size s"
    have "?k \<le> ?n" using cells_fit_pos [OF fit] by (intro less_imp_le mod_less_divisor) simp
    note sl = slices [OF this, of "to_be_bytes (dummy_read P lo s)"
        "to_be_bytes (dummy_read P hi s)" "to_be_bytes v", simplified]
    show ?thesis
    proof (rule mem_write_unaligned_run [OF run False lo_def hi_def], unfold offset_usize [OF fit], goal_cases)
      case (1 s1 s2 part_hi front lo_buf rest hi_buf)
      have m: "memory s' = rb_replace_or_insert P
          (rb_replace_or_insert P (memory s) lo (from_be_bytes lo_buf)) hi (from_be_bytes hi_buf)"
        using 1(6-8) by (auto simp: track_def bind_eq_Some_conv)
      have p: "part_hi = ?n - ?k" using 1(1) unfolding sl by simp
      have f: "front = take (?n - ?k) (to_be_bytes v)" "rest = drop (?n - ?k) (to_be_bytes v)"
        using 1(2,4) unfolding p sl by simp_all
      have "lo_buf = take ?k (to_be_bytes (dummy_read P lo s)) @ take (?n - ?k) (to_be_bytes v)"
        "hi_buf = drop (?n - ?k) (to_be_bytes v) @ drop ?k (to_be_bytes (dummy_read P hi s))"
        using 1(3,5) unfolding f sl by simp_all
      then have cells: "write_cells P a v s = [(lo, from_be_bytes lo_buf), (hi, from_be_bytes hi_buf)]"
        using False by (simp add: write_cells_def Let_def offset_usize [OF fit] flip: lo_def hi_def)
      have "stack_depth s1 = stack_depth s" using 1(6) by (auto simp: track_def bind_eq_Some_conv)
      moreover have "machine_trace P s2 = machine_trace P s @ [TraceRecord_new (time_log s) (stack_depth s) Write lo (from_be_bytes lo_buf),
          TraceRecord_new (time_log s + 1) (stack_depth s1) Write hi (from_be_bytes hi_buf)]"
        using track_twice(2) [OF _ _ _ 1(6,7)] ok tl by (simp add: TraceRecord_new_def)
      ultimately show ?case using m 1(8) by (simp add: cells rb_get_insert)
    qed
  qed
  then show "rb_get P (memory s') = store_cells (rb_get P (memory s)) (write_cells P a v s)"
    "machine_trace P s' = machine_trace P s @ write_records (time_log s) (stack_depth s) (write_cells P a v s)"
    by simp_all
qed

lemma mem_read_value:
  assumes inv: "machine_inv P s" and fit: "cells_fit TYPE('v) s"
    and run: "mem_read P a s = Some (Inr (c, s'))"
    and k: "k = unat a mod (LENGTH('v) div 8)"
    and lo: "lo = a - a mod word_size s" and hi: "hi = lo + word_size s"
  shows "interaction_value c = (if k = 0 then dummy_read P a s else
      from_be_bytes (drop k (to_be_bytes (dummy_read P lo s)) @ take k (to_be_bytes (dummy_read P hi s))))"
proof -
  let ?n = "LENGTH('v) div 8"
  have z: "is_zero (a mod word_size s) \<longleftrightarrow> k = 0"
    using fit cell_base(2) [of "word_size s" ?n a] k
    by (auto simp: is_zero_def cells_fit_def word_unat_eq_iff)
  show ?thesis
  proof (cases "is_zero (a mod word_size s)")
    case True
    with z show ?thesis by (auto intro: mem_read_aligned_run [OF run True])
  next
    case False
    have "k \<le> ?n" using cells_fit_pos [OF fit] unfolding k
      by (intro less_imp_le mod_less_divisor) simp
    note sl = slices [OF this, of "to_be_bytes (dummy_read P lo s)"
        "to_be_bytes (dummy_read P hi s)" "to_be_bytes (0 :: 'v word)", simplified]
    show ?thesis
    proof (rule mem_read_unaligned_run [OF run False lo hi],
        unfold offset_usize [OF fit] k [symmetric], goal_cases)
      case (1 s1 s2 part_hi hi_bytes lo_bytes buf0 buf)
      have p: "part_hi = ?n - k" using 1(1) unfolding sl by simp
      have h: "hi_bytes = take k (to_be_bytes (dummy_read P hi s))"
        "lo_bytes = drop k (to_be_bytes (dummy_read P lo s))"
        using 1(2,4) unfolding sl by simp_all
      have "buf0 = replicate (?n - k) 0 @ hi_bytes" using 1(3) unfolding p h sl by simp
      then have "buf = lo_bytes @ hi_bytes" using 1(5) unfolding p h by (simp add: sl)
      with 1(8) h False z show ?case by simp
    qed
  qed
qed

lemma flat_byte_cell:
  assumes "cells_fit TYPE('v) s" "n = LENGTH('v) div 8"
  shows "flat_byte P s x = to_be_bytes (cell_value (rb_get P (memory s))
      (word_of_nat (n * (unat x div n)))) ! (unat x mod n)"
  using assms cell_base [of "word_size s" n x]
  by (simp add: flat_byte_def dummy_read_cell cells_fit_def)

lemma write_cells_nat:
  fixes v :: "'v word"
  assumes fit: "cells_fit TYPE('v) s" and n: "n = LENGTH('v) div 8"
    and q: "q = unat a div n" and k: "k = unat a mod n"
  shows "write_cells P a v s =
    (if k = 0 then [(word_of_nat (n * q), v)]
     else [(word_of_nat (n * q), from_be_bytes
              (take k (to_be_bytes (cell_value (rb_get P (memory s)) (word_of_nat (n * q)))) @
               take (n - k) (to_be_bytes v))),
           (word_of_nat (n * Suc q), from_be_bytes (drop (n - k) (to_be_bytes v) @
              drop k (to_be_bytes (cell_value (rb_get P (memory s)) (word_of_nat (n * Suc q))))))])"
proof -
  have w: "unat (word_size s) = n" using fit n by (simp add: cells_fit_def)
  then have ws: "word_size s = word_of_nat n" by auto
  have z: "is_zero (a mod word_size s) \<longleftrightarrow> k = 0"
    using cell_base(2) [OF w, of a] k by (auto simp: is_zero_def word_unat_eq_iff)
  have hi: "word_of_nat (n * q) + word_size s = word_of_nat (n * Suc q)"
    by (simp add: ws)
  have "unat a = n * q + k" by (simp add: q k)
  then have a0: "k = 0 \<Longrightarrow> a = word_of_nat (n * q)"
    by (metis add.right_neutral of_nat_unat ucast_id)
  show ?thesis
    using offset_usize(2) [OF fit] cell_base(1) [OF w, of a] z a0
    unfolding write_cells_def Let_def
    by (simp add: hi dummy_read_cell flip: q k n del: of_nat_mult)
qed

end

lemma cell_range:
  fixes n k j p q :: nat
  assumes "k < n" "j < n"
  shows "n * q + k \<le> n * p + j \<and> n * p + j < n * q + k + n \<longleftrightarrow>
      p = q \<and> k \<le> j \<or> p = Suc q \<and> j < k"
proof -
  consider "p < q" | "p = q" | "p = Suc q" | "Suc q < p" by linarith
  then show ?thesis
  proof cases
    case 1
    then have "n * Suc p \<le> n * q" by (intro mult_le_mono2) simp
    with 1 assms show ?thesis by simp
  next
    case 4
    then have "n * Suc (Suc q) \<le> n * p" by (intro mult_le_mono2) simp
    with 4 assms show ?thesis by simp
  qed (use assms in auto)
qed

context rbtree
begin

lemma mem_write_flat:
  fixes v :: "'v word"
  assumes inv: "machine_inv P s" and fit: "cells_fit TYPE('v) s"
    and run: "mem_write P a v s = Some (Inr (c, s'))"
    and room: "unat a + LENGTH('v) div 8 \<le> 2 ^ LENGTH('k)"
  shows "flat_byte P s' x =
    (if unat a \<le> unat x \<and> unat x < unat a + LENGTH('v) div 8
     then to_be_bytes v ! (unat x - unat a) else flat_byte P s x)"
proof -
  define n where "n = LENGTH('v) div 8"
  define q k p j where "q = unat a div n" and "k = unat a mod n"
    and "p = unat x div n" and "j = unat x mod n"
  note defs = q_def k_def p_def j_def
  have n0: "0 < n" using cells_fit_pos [OF fit] by (simp add: n_def)
  have d8: "8 dvd LENGTH('v)" using fit by (simp add: cells_fit_def)
  have kn: "k < n" and jn: "j < n" using n0 by (simp_all add: defs)
  have a: "unat a = n * q + k" and x: "unat x = n * p + j" by (simp_all add: defs)
  have pL: "n * p < 2 ^ LENGTH('k)" using unat_less_2p [of x] x by linarith
  have qL: "n * q < 2 ^ LENGTH('k)" using unat_less_2p [of a] a by linarith
  have sL: "k \<noteq> 0 \<Longrightarrow> n * Suc q < 2 ^ LENGTH('k)" using room a n_def by simp
  note ieq = cell_index_eq [OF n0 pL qL] cell_index_eq [OF n0 pL sL]
  note W = mem_write_cells [OF inv fit run]
  have fit': "cells_fit TYPE('v) s'" using fit W(2) by (simp add: cells_fit_def)
  let ?m = "rb_get P (memory s)"
  have old: "flat_byte P s x = to_be_bytes (cell_value ?m (word_of_nat (n * p))) ! j"
    using flat_byte_cell [OF fit n_def] by (simp add: defs)
  have new: "flat_byte P s' x
      = to_be_bytes (cell_value (store_cells ?m (write_cells P a v s)) (word_of_nat (n * p))) ! j"
    using flat_byte_cell [OF fit' n_def] by (simp add: defs W(1))
  note cells = write_cells_nat [OF fit n_def q_def k_def]
  have range: "unat a \<le> unat x \<and> unat x < unat a + n \<longleftrightarrow> p = q \<and> k \<le> j \<or> p = Suc q \<and> j < k"
    unfolding a x by (rule cell_range [OF kn jn])
  have len: "length (to_be_bytes (y :: 'v word)) = n" for y by (simp add: n_def)
  show ?thesis
  proof (cases "k = 0")
    case True
    then show ?thesis
      unfolding new old cells n_def [symmetric] range
      by (simp add: cell_value_upd ieq(1) a x del: of_nat_mult)
  next
    case False
    have enc: "to_be_bytes (from_be_bytes bs :: 'v word) = bs" if "length bs = n" for bs
      using that d8 by (simp add: to_from_be_bytes n_def)
    have lo: "to_be_bytes (from_be_bytes (take k (to_be_bytes y) @ take (n - k) (to_be_bytes v)) :: 'v word)
        = take k (to_be_bytes y) @ take (n - k) (to_be_bytes v)" for y :: "'v word"
      using kn by (intro enc) (simp add: len del: length_to_be_bytes)
    have hi: "to_be_bytes (from_be_bytes (drop (n - k) (to_be_bytes v) @ drop k (to_be_bytes y)) :: 'v word)
        = drop (n - k) (to_be_bytes v) @ drop k (to_be_bytes y)" for y :: "'v word"
      using kn by (intro enc) (simp add: len del: length_to_be_bytes)
    have idx: "n * Suc q + j - (n * q + k) = n + j - k" by simp
    show ?thesis
      unfolding new old cells n_def [symmetric] range
      using False kn jn
      by (auto simp: cell_value_upd ieq(1) ieq(2) [OF False] lo hi len a x idx nth_append min_def
          simp del: of_nat_mult length_to_be_bytes mult_Suc_right)
  qed
qed

lemma mem_read_flat:
  assumes inv: "machine_inv P s" and fit: "cells_fit TYPE('v) s"
    and run: "mem_read P a s = Some (Inr (c, s'))"
    and room: "unat a + LENGTH('v) div 8 \<le> 2 ^ LENGTH('k)"
  shows "interaction_value c
    = from_be_bytes (map (\<lambda>i. flat_byte P s (a + word_of_nat i)) [0..<LENGTH('v) div 8])"
proof -
  define n where "n = LENGTH('v) div 8"
  define q k where "q = unat a div n" and "k = unat a mod n"
  define lo hi where "lo = a - a mod word_size s" and "hi = lo + word_size s"
  have n0: "0 < n" using cells_fit_pos [OF fit] by (simp add: n_def)
  have d8: "8 dvd LENGTH('v)" using fit by (simp add: cells_fit_def)
  have kn: "k < n" using n0 by (simp add: k_def)
  have a: "unat a = n * q + k" by (simp add: q_def k_def)
  have w: "unat (word_size s) = n" using fit n_def by (simp add: cells_fit_def)
  then have ws: "word_size s = word_of_nat n" by auto
  have lo: "lo = word_of_nat (n * q)" using cell_base(1) [OF w, of a] by (simp add: lo_def q_def)
  have hi: "hi = word_of_nat (n * Suc q)" by (simp add: hi_def lo ws)
  have step: "unat (a + word_of_nat i) = n * q + (k + i)" if "i < n" for i
  proof -
    have "i < 2 ^ LENGTH('k)" using that room n_def by simp
    then have "unat (word_of_nat i :: 'k word) = i" by (simp add: unat_of_nat)
    then show ?thesis using that room a n_def by (simp add: uadd_no_overflow(2))
  qed
  have byte: "flat_byte P s (a + word_of_nat i) =
      (if k + i < n then to_be_bytes (dummy_read P lo s) ! (k + i)
       else to_be_bytes (dummy_read P hi s) ! (k + i - n))" if "i < n" for i
  proof (cases "k + i < n")
    case True
    then have "(n * q + (k + i)) div n = q" "(n * q + (k + i)) mod n = k + i" using n0 by simp_all
    with True show ?thesis
      using flat_byte_cell [OF fit n_def, of "a + word_of_nat i"] step [OF that]
      by (simp add: lo dummy_read_cell)
  next
    case False
    then have e: "n * q + (k + i) = n * Suc q + (k + i - n)" and l: "k + i - n < n"
      using that kn by simp_all
    have "(n * q + (k + i)) div n = Suc q" "(n * q + (k + i)) mod n = k + i - n"
      unfolding e using l n0 by (simp_all del: mult_Suc_right)
    with False show ?thesis
      using flat_byte_cell [OF fit n_def, of "a + word_of_nat i"] step [OF that]
      by (simp add: hi dummy_read_cell del: mult_Suc_right)
  qed
  have len: "length (to_be_bytes (y :: 'v word)) = n" for y by (simp add: n_def)
  have bytes: "map (\<lambda>i. flat_byte P s (a + word_of_nat i)) [0..<n]
      = drop k (to_be_bytes (dummy_read P lo s)) @ take k (to_be_bytes (dummy_read P hi s))"
    using kn by (intro nth_equalityI)
      (auto simp: byte len nth_append min_def add.commute [of k] simp del: length_to_be_bytes)
  have v: "interaction_value c = (if k = 0 then dummy_read P a s else
      from_be_bytes (drop k (to_be_bytes (dummy_read P lo s)) @ take k (to_be_bytes (dummy_read P hi s))))"
    by (rule mem_read_value [OF inv fit run]) (simp_all add: k_def n_def lo_def hi_def)
  show ?thesis
  proof (cases "k = 0")
    case True
    have "lo = a" using True a lo by (metis add.right_neutral of_nat_unat ucast_id)
    with True v bytes d8 show ?thesis by (simp add: n_def from_to_be_bytes)
  next
    case False
    with v bytes show ?thesis by (simp add: n_def)
  qed
qed

text \<open>An access that fits returns: no error, no panic.\<close>

lemma urem_cells: "cells_fit TYPE('v) s \<Longrightarrow> urem a (word_size s) = Some (a mod word_size s)"
  using cells_fit_pos [of s] by (auto simp: urem_def cells_fit_def)

lemma access_arith:
  assumes fit: "cells_fit TYPE('v) s" and room: "unat a + LENGTH('v) div 8 \<le> 2 ^ LENGTH('k)"
    and nz: "\<not> is_zero (a mod word_size s)"
  shows "compute_address P a (a mod word_size s) s
      = Some (a - a mod word_size s, a - a mod word_size s + word_size s)"
    and "usub chk a (a - a mod word_size s) = Some (a mod word_size s)"
proof -
  let ?n = "LENGTH('v) div 8"
  have w: "unat (word_size s) = ?n" using fit by (simp add: cells_fit_def)
  have le: "a mod word_size s \<le> a" using cell_base(2) [OF w, of a] by (simp add: word_le_nat_alt)
  have pos: "0 < unat (a mod word_size s)"
    using nz by (simp add: is_zero_def word_unat_eq_iff)
  have "unat (a - a mod word_size s) = unat a - unat (a mod word_size s)"
    using le by (simp add: unat_sub)
  then have "unat (a - a mod word_size s) + unat (word_size s) < 2 ^ LENGTH('k)"
    using pos room w le by (simp add: word_le_nat_alt)
  with le show "compute_address P a (a mod word_size s) s
      = Some (a - a mod word_size s, a - a mod word_size s + word_size s)"
    by (simp add: compute_address_def usub_no_underflow uadd_no_overflow)
  show "usub chk a (a - a mod word_size s) = Some (a mod word_size s)"
    using le by (simp add: usub_no_underflow word_sub_le)
qed

lemma track_two_succeed:
  assumes "trace_ok (machine_trace P s)" "length (machine_trace P s) + 2 < 2 ^ 64"
    and "tr_time_log a = word_of_nat (length (machine_trace P s))" "tr_time_log b = tr_time_log a + 1"
  obtains s1 s2 where "track P a s = Some s1" "track P b s1 = Some s2" "stack_depth s1 = stack_depth s"
proof -
  obtain s1 where t: "track P a s = Some s1"
    using track_succeeds [OF assms(1,3)] assms(2) by auto
  note A = track_appends [OF assms(1,3) t]
  have "\<exists>s2. track P b s1 = Some s2"
    using assms(2-4) A(3,4) by (intro track_succeeds) simp_all
  moreover have "stack_depth s1 = stack_depth s" by (subst A(2)) simp
  ultimately show thesis using t that by blast
qed

lemma time_log_room:
  assumes "machine_inv P s" "length (machine_trace P s) + 2 < 2 ^ 64"
  shows "uadd chk (time_log s) 1 = Some (time_log s + 1)"
    and "uadd chk (time_log s) 2 = Some (time_log s + 2)"
  using assms by (simp_all add: machine_inv_def uadd_def unat_of_nat)

lemma mem_write_succeeds:
  fixes v :: "'v word"
  assumes inv: "machine_inv P s" and fit: "cells_fit TYPE('v) s"
    and room: "unat a + LENGTH('v) div 8 \<le> 2 ^ LENGTH('k)"
    and time: "length (machine_trace P s) + 2 < 2 ^ 64"
  shows "\<exists>c s'. mem_write P a v s = Some (Inr (c, s'))"
proof -
  from inv have ok: "trace_ok (machine_trace P s)"
    and tl: "time_log s = word_of_nat (length (machine_trace P s))"
    by (simp_all add: machine_inv_def)
  show ?thesis
  proof (cases "is_zero (a mod word_size s)")
    case True
    have "\<exists>s1. track P (TraceRecord_new (time_log s) (stack_depth s) Write a v)
        (s\<lparr>memory := rb_replace_or_insert P (memory s) a v\<rparr>) = Some s1"
      using ok tl time by (intro track_succeeds) (simp_all add: TraceRecord_new_def)
    then show ?thesis
      using True by (auto simp: mem_write_def urem_cells [OF fit] time_log_room [OF inv time])
  next
    case False
    let ?n = "LENGTH('v) div 8" and ?k = "unat a mod (LENGTH('v) div 8)"
    define lo where "lo = a - a mod word_size s"
    define hi where "hi = lo + word_size s"
    have "?k \<le> ?n" using cells_fit_pos [OF fit] by (intro less_imp_le mod_less_divisor) simp
    note sl = slices [OF this, of "to_be_bytes (dummy_read P lo s)"
        "to_be_bytes (dummy_read P hi s)" "to_be_bytes v", simplified]
    define v1 :: "'v word" where "v1 = from_be_bytes (take ?k (to_be_bytes (dummy_read P lo s)) @
      take (?n - ?k) (to_be_bytes v))"
    define v2 :: "'v word" where "v2 = from_be_bytes (drop (?n - ?k) (to_be_bytes v) @
      drop ?k (to_be_bytes (dummy_read P hi s)))"
    obtain s1 s2 where "track P (TraceRecord_new (time_log s) (stack_depth s) Write lo v1)
        (s\<lparr>memory := rb_replace_or_insert P (rb_replace_or_insert P (memory s) lo v1) hi v2\<rparr>) = Some s1"
      and "track P (TraceRecord_new (time_log s + 1) (stack_depth s) Write hi v2) s1 = Some s2"
      and "stack_depth s1 = stack_depth s"
      by (rule track_two_succeed [where
            a = "TraceRecord_new (time_log s) (stack_depth s) Write lo v1" and
            b = "TraceRecord_new (time_log s + 1) (stack_depth s) Write hi v2" and
            s = "s\<lparr>memory := rb_replace_or_insert P (rb_replace_or_insert P (memory s) lo v1) hi v2\<rparr>"])
        (use ok tl time in \<open>simp_all add: TraceRecord_new_def\<close>)
    then show ?thesis
      using False
      by (simp add: mem_write_def urem_cells [OF fit] time_log_room [OF inv time]
          access_arith [OF fit room False, folded lo_def, folded hi_def] offset_usize [OF fit] sl
          flip: v1_def v2_def)
  qed
qed

lemma mem_read_succeeds:
  assumes inv: "machine_inv P s" and fit: "cells_fit TYPE('v) s"
    and room: "unat a + LENGTH('v) div 8 \<le> 2 ^ LENGTH('k)"
    and time: "length (machine_trace P s) + 2 < 2 ^ 64"
  shows "\<exists>c s'. mem_read P a s = Some (Inr (c, s'))"
proof -
  from inv have ok: "trace_ok (machine_trace P s)"
    and tl: "time_log s = word_of_nat (length (machine_trace P s))"
    by (simp_all add: machine_inv_def)
  show ?thesis
  proof (cases "is_zero (a mod word_size s)")
    case True
    have "\<exists>s1. track P (TraceRecord_new (time_log s) (stack_depth s) Read a (dummy_read P a s)) s = Some s1"
      using ok tl time by (intro track_succeeds) (simp_all add: TraceRecord_new_def)
    then show ?thesis
      using True by (auto simp: mem_read_def urem_cells [OF fit] time_log_room [OF inv time])
  next
    case False
    let ?n = "LENGTH('v) div 8" and ?k = "unat a mod (LENGTH('v) div 8)"
    define lo where "lo = a - a mod word_size s"
    define hi where "hi = lo + word_size s"
    have "?k \<le> ?n" using cells_fit_pos [OF fit] by (intro less_imp_le mod_less_divisor) simp
    note sl = slices [OF this, of "to_be_bytes (dummy_read P lo s)"
        "to_be_bytes (dummy_read P hi s)" "to_be_bytes (0 :: 'v word)", simplified]
    obtain s1 s2 where
        "track P (TraceRecord_new (time_log s) (stack_depth s) Read lo (dummy_read P lo s)) s = Some s1"
      and "track P (TraceRecord_new (time_log s + 1) (stack_depth s) Read hi (dummy_read P hi s)) s1
        = Some s2"
      and "stack_depth s1 = stack_depth s"
      by (rule track_two_succeed [OF ok time, where
            a = "TraceRecord_new (time_log s) (stack_depth s) Read lo (dummy_read P lo s)" and
            b = "TraceRecord_new (time_log s + 1) (stack_depth s) Read hi (dummy_read P hi s)"])
        (use tl in \<open>simp_all add: TraceRecord_new_def\<close>)
    then show ?thesis
      using False
      by (simp add: mem_read_def Let_def urem_cells [OF fit] time_log_room [OF inv time]
          access_arith [OF fit room False, folded lo_def, folded hi_def] offset_usize [OF fit] sl)
  qed
qed

lemma mem_write_trace_length:
  assumes "machine_inv P s" "mem_write P a v s = Some (Inr (c, s'))"
  shows "length (machine_trace P s') \<le> length (machine_trace P s) + 2"
  by (rule mem_write_effect [OF assms]) simp

lemma read_after_write_aux:
  fixes v :: "'v word"
  assumes inv: "machine_inv P s" and fit: "cells_fit TYPE('v) s"
    and room: "unat a + LENGTH('v) div 8 \<le> 2 ^ LENGTH('k)"
    and time: "length (machine_trace P s) + 4 < 2 ^ 64"
  shows "\<exists>c s1 c' s2. mem_write P a v s = Some (Inr (c, s1)) \<and>
    mem_read P a s1 = Some (Inr (c', s2)) \<and> interaction_value c' = v \<and> memory s2 = memory s1"
proof -
  let ?n = "LENGTH('v) div 8"
  obtain c s1 where w: "mem_write P a v s = Some (Inr (c, s1))"
    using mem_write_succeeds [OF inv fit room, of v] time by auto
  have inv1: "machine_inv P s1" and fit1: "cells_fit TYPE('v) s1"
    using mem_write_cells(2,3) [OF inv fit w] fit by (simp_all add: cells_fit_def)
  have "length (machine_trace P s1) \<le> length (machine_trace P s) + 2"
    by (rule mem_write_trace_length [OF inv w])
  then have time1: "length (machine_trace P s1) + 2 < 2 ^ 64" using time by simp
  obtain c' s2 where r: "mem_read P a s1 = Some (Inr (c', s2))"
    using mem_read_succeeds [OF inv1 fit1 room time1] by auto
  have "map (\<lambda>i. flat_byte P s1 (a + word_of_nat i)) [0..<?n] = to_be_bytes v"
  proof (rule nth_equalityI)
    fix i assume "i < length (map (\<lambda>i. flat_byte P s1 (a + word_of_nat i)) [0..<?n])"
    then have i: "i < ?n" by simp
    then have "unat (a + word_of_nat i) = unat a + i"
      using room by (simp add: unat_word_ariths unat_of_nat mod_less_eq_dividend [THEN le_less_trans])
    then show "map (\<lambda>i. flat_byte P s1 (a + word_of_nat i)) [0..<?n] ! i = to_be_bytes v ! i"
      using i by (simp add: mem_write_flat [OF inv fit w room])
  qed simp
  then have "interaction_value c' = from_be_bytes (to_be_bytes v)"
    using mem_read_flat [OF inv1 fit1 r room] by simp
  then have "interaction_value c' = v"
    using fit by (simp add: from_to_be_bytes cells_fit_def)
  moreover have "memory s2 = memory s1"
    by (rule mem_read_inv [OF inv1 r]) simp
  ultimately show ?thesis using w r by auto
qed

end

end
