(* ===== verification/Machine_Exec.thy ===== *)
theory Machine_Exec
  imports Machine_Bytes
begin

text \<open>
  The stack discipline and the instruction set. A machine state is abstracted to the cells
  of its memory and the number of values on the stack; \<open>spec_exec\<close> says what each
  instruction does there, and \<open>exec\<close> on word-aligned operands implements it, failing
  exactly when \<open>spec_guard\<close> says so.
\<close>

section \<open>The stack invariant\<close>

definition stack_inv :: "('m, 't, 'k::len word, 'z) machine_scheme \<Rightarrow> bool" where
  "stack_inv s \<longleftrightarrow>
     stack_depth s \<le> max_stack_depth s \<and>
     unat (stack_ptr s) = unat (stack_depth s) * unat (word_size s) \<and>
     unat (max_stack_depth s) * unat (word_size s) < 2 ^ LENGTH('k)"

definition aligned :: "('m, 't, 'k::len word, 'z) machine_scheme \<Rightarrow> 'k word \<Rightarrow> bool" where
  "aligned s a \<longleftrightarrow> is_zero (a mod word_size s)"

text \<open>What no access changes.\<close>

definition same_frame :: "('m, 't, 'k, 'z) machine_scheme \<Rightarrow> ('m, 't, 'k, 'z) machine_scheme \<Rightarrow> bool" where
  "same_frame s s' \<longleftrightarrow>
     memory_allocated s' = memory_allocated s \<and> word_size s' = word_size s \<and>
     stack_allocated s' = stack_allocated s \<and> max_stack_depth s' = max_stack_depth s \<and>
     stack_depth s' = stack_depth s \<and> stack_ptr s' = stack_ptr s \<and>
     register_allocated s' = register_allocated s"

lemma stack_inv_step:
  fixes s :: "('m, 't, 'k::len word, 'z) machine_scheme"
  assumes "stack_inv s" "stack_depth s < max_stack_depth s"
  shows "unat (stack_depth s + 1) = Suc (unat (stack_depth s))"
    and "unat (stack_ptr s + word_size s) = Suc (unat (stack_depth s)) * unat (word_size s)"
    and "uadd chk (stack_depth s) 1 = Some (stack_depth s + 1)"
    and "uadd chk (stack_ptr s) (word_size s) = Some (stack_ptr s + word_size s)"
proof -
  let ?d = "unat (stack_depth s)" and ?m = "unat (max_stack_depth s)" and ?w = "unat (word_size s)"
  have d: "Suc ?d \<le> ?m" using assms(2) by (simp add: word_less_nat_alt)
  have "Suc ?d < 2 ^ 64" using d unat_less_2p [of "max_stack_depth s"] by simp
  then show "unat (stack_depth s + 1) = Suc ?d" and "uadd chk (stack_depth s) 1 = Some (stack_depth s + 1)"
    by (simp_all add: uadd_def unat_word_ariths)
  have "Suc ?d * ?w \<le> ?m * ?w" using d by (rule mult_le_mono1)
  with assms(1) have "unat (stack_ptr s) + ?w < 2 ^ LENGTH('k)"
    by (simp add: stack_inv_def)
  note sum = uadd_no_overflow [OF this]
  show "unat (stack_ptr s + word_size s) = Suc ?d * ?w"
    using assms(1) by (simp add: sum stack_inv_def)
  show "uadd chk (stack_ptr s) (word_size s) = Some (stack_ptr s + word_size s)" by (rule sum)
qed

lemma stack_inv_back:
  assumes "stack_inv s" "stack_depth s \<noteq> 0"
  shows "unat (stack_depth s - 1) = unat (stack_depth s) - 1"
    and "unat (stack_ptr s - word_size s) = (unat (stack_depth s) - 1) * unat (word_size s)"
    and "usub chk (stack_depth s) 1 = Some (stack_depth s - 1)"
    and "usub chk (stack_ptr s) (word_size s) = Some (stack_ptr s - word_size s)"
proof -
  have one: "1 \<le> stack_depth s" using assms(2) by (simp add: word_le_nat_alt unat_gt_0 Suc_le_eq)
  then show "unat (stack_depth s - 1) = unat (stack_depth s) - 1"
    and "usub chk (stack_depth s) 1 = Some (stack_depth s - 1)"
    using usub_no_underflow [of 1 "stack_depth s"] by simp_all
  have "1 * unat (word_size s) \<le> unat (stack_depth s) * unat (word_size s)"
    using one by (intro mult_le_mono1) (simp add: word_le_nat_alt)
  with assms(1) have "word_size s \<le> stack_ptr s" by (simp add: stack_inv_def word_le_nat_alt)
  note d = usub_no_underflow [OF this]
  show "unat (stack_ptr s - word_size s) = (unat (stack_depth s) - 1) * unat (word_size s)"
    using assms(1) by (simp add: d stack_inv_def diff_mult_distrib)
  show "usub chk (stack_ptr s) (word_size s) = Some (stack_ptr s - word_size s)" by (rule d)
qed

text \<open>The cells of a machine, and a good state with room in the trace for \<open>n\<close> more records.\<close>

definition cells ::
    "('m, 't, 'k, 'v::len word) platform \<Rightarrow> ('m, 't, 'k, 'z) machine_scheme \<Rightarrow> 'k \<Rightarrow> 'v word" where
  "cells P s a = dummy_read P a s"

definition ready ::
    "('m, 't, 'k::len word, 'v::len word) platform \<Rightarrow> nat \<Rightarrow> ('m, 't, 'k word, 'z) machine_scheme \<Rightarrow> bool" where
  "ready P n s \<longleftrightarrow> machine_inv P s \<and> cells_fit TYPE('v) s \<and> stack_inv s \<and>
     length (machine_trace P s) + n < 2 ^ 64"

context rbtree
begin

lemma access_frame:
  assumes "machine_inv P s"
  shows "mem_read P a s = Some (Inr (c, s')) \<Longrightarrow> same_frame s s'"
    and "mem_write P a v s = Some (Inr (c, s')) \<Longrightarrow> same_frame s s'"
proof -
  assume "mem_read P a s = Some (Inr (c, s'))"
  then show "same_frame s s'" by (rule mem_read_effect [OF assms]) (simp add: same_frame_def)
next
  assume "mem_write P a v s = Some (Inr (c, s'))"
  then show "same_frame s s'" by (rule mem_write_effect [OF assms]) (simp add: same_frame_def)
qed

lemma stack_inv_frame:
  "same_frame s s' \<Longrightarrow> stack_inv s' = stack_inv s"
  by (simp add: same_frame_def stack_inv_def)

lemma mstep_frame:
  assumes "mstep P s s'" "machine_inv P s"
  shows "word_size s' = word_size s \<and> max_stack_depth s' = max_stack_depth s \<and>
    memory_allocated s' = memory_allocated s \<and> stack_allocated s' = stack_allocated s \<and>
    register_allocated s' = register_allocated s"
  using assms(1)
proof (cases rule: mstep.cases)
  case (step_push v x)
  then obtain d p c where "mem_write P (stack_ptr s) v (s\<lparr>stack_depth := d, stack_ptr := p\<rparr>) = Some (Inr (c, s'))"
    by (cases x) (auto simp: push_run)
  from access_frame(2) [OF _ this] assms(2) show ?thesis by (simp add: same_frame_def)
next
  case (step_pop x)
  then obtain d p c where "mem_read P p (s\<lparr>stack_depth := d, stack_ptr := p\<rparr>) = Some (Inr (c, s'))"
    by (cases x) (auto simp: pop_run)
  from access_frame(1) [OF _ this] assms(2) show ?thesis by (simp add: same_frame_def)
qed (use access_frame [OF assms(2)] in \<open>auto simp: same_frame_def\<close>)

lemma mstep_stack_inv:
  assumes "mstep P s s'" "machine_inv P s" "stack_inv s"
  shows "stack_inv s'"
  using assms(1)
proof (cases rule: mstep.cases)
  case (step_push v x)
  then obtain d p c where ne: "stack_depth s \<noteq> max_stack_depth s"
    and d: "uadd (overflow_checks P) (stack_depth s) 1 = Some d"
    and p: "uadd (overflow_checks P) (stack_ptr s) (word_size s) = Some p"
    and w: "mem_write P (stack_ptr s) v (s\<lparr>stack_depth := d, stack_ptr := p\<rparr>) = Some (Inr (c, s'))"
    by (cases x) (auto simp: push_run)
  have lt: "stack_depth s < max_stack_depth s" using ne assms(3) by (simp add: stack_inv_def order_less_le)
  note step = stack_inv_step [OF assms(3) lt]
  have "stack_inv (s\<lparr>stack_depth := d, stack_ptr := p\<rparr>)"
    using assms(3) lt step d p by (auto simp: stack_inv_def word_le_nat_alt word_less_nat_alt)
  then show ?thesis
    using access_frame(2) [OF _ w] assms(2) by (simp add: stack_inv_frame)
next
  case (step_pop x)
  then obtain d p c where ne: "stack_depth s \<noteq> 0"
    and d: "usub (overflow_checks P) (stack_depth s) 1 = Some d"
    and p: "usub (overflow_checks P) (stack_ptr s) (word_size s) = Some p"
    and r: "mem_read P p (s\<lparr>stack_depth := d, stack_ptr := p\<rparr>) = Some (Inr (c, s'))"
    by (cases x) (auto simp: pop_run)
  note step = stack_inv_back [OF assms(3) ne]
  have "stack_inv (s\<lparr>stack_depth := d, stack_ptr := p\<rparr>)"
    using assms(3) step d p by (auto simp: stack_inv_def word_le_nat_alt)
  then show ?thesis
    using access_frame(1) [OF _ r] assms(2) by (simp add: stack_inv_frame)
qed (use access_frame [OF assms(2)] assms(3) stack_inv_frame in blast)+

lemma readyD:
  assumes "ready P (Suc n) s"
  shows "machine_inv P s" "cells_fit TYPE('v) s" "stack_inv s" "trace_ok (machine_trace P s)"
    and "time_log s = word_of_nat (length (machine_trace P s))"
    and "length (machine_trace P s) < 2 ^ 64" "length (machine_trace P s) + Suc n < 2 ^ 64"
    and "uadd chk (time_log s) 1 = Some (time_log s + 1)"
  using assms by (simp_all add: ready_def machine_inv_def uadd_def unat_of_nat)

lemma cells_fit_frame: "same_frame s s' \<Longrightarrow> cells_fit TYPE('v) s' = cells_fit TYPE('v) s"
  by (simp add: same_frame_def cells_fit_def)

lemma read_cell:
  assumes "ready P (Suc n) s" and al: "aligned s a"
  obtains s' where "mem_read P a s = Some (Inr (SingleCell Read a (cells P s a), s'))"
    and "ready P n s'" "same_frame s s'" "cells P s' = cells P s" "aligned s' = aligned s"
proof -
  note g = readyD [OF assms(1)]
  let ?r = "TraceRecord_new (time_log s) (stack_depth s) Read a (dummy_read P a s)"
  obtain s1 where t: "track P ?r s = Some s1"
    using track_succeeds [OF g(4) _ g(6), of ?r] g(5) by (auto simp: TraceRecord_new_def)
  let ?s = "s1\<lparr>time_log := time_log s + 1\<rparr>"
  have run: "mem_read P a s = Some (Inr (SingleCell Read a (cells P s a), ?s))"
    using al t by (simp add: mem_read_def aligned_def urem_cells [OF g(2)] g(8) cells_def)
  have f: "same_frame s ?s" by (rule access_frame(1) [OF g(1) run])
  obtain c s' where s': "Inr (SingleCell Read a (cells P s a), ?s) = (Inr (c, s') :: machine_error + _)"
    and inv: "machine_inv P s'" and m: "memory s' = memory s"
    and tr: "machine_trace P s' = machine_trace P s @ read_records P a s"
    by (rule mem_read_inv [OF g(1) run])
  have "length (read_records P a s) = 1" using al by (simp add: read_records_def aligned_def)
  then have "ready P n ?s"
    using s' inv tr g f by (simp add: ready_def cells_fit_frame stack_inv_frame)
  moreover have "cells P ?s = cells P s" using s' m by (auto simp: cells_def dummy_read_def)
  moreover have "aligned ?s = aligned s" using f by (simp add: aligned_def same_frame_def fun_eq_iff)
  ultimately show thesis using f by (intro that [OF run])
qed

lemma write_cell:
  fixes v :: "'v word"
  assumes "ready P (Suc n) s" and al: "aligned s a"
  obtains s' where "mem_write P a v s = Some (Inr (SingleCell Write a v, s'))"
    and "ready P n s'" "same_frame s s'" "cells P s' = (cells P s)(a := v)" "aligned s' = aligned s"
proof -
  note g = readyD [OF assms(1)]
  let ?r = "TraceRecord_new (time_log s) (stack_depth s) Write a v"
  let ?s = "s\<lparr>memory := rb_replace_or_insert P (memory s) a v\<rparr>"
  have ok: "trace_ok (machine_trace P ?s)" and tm: "tr_time_log ?r = word_of_nat (length (machine_trace P ?s))"
    and lt: "length (machine_trace P ?s) < 2 ^ 64"
    using g(4-6) by (simp_all add: TraceRecord_new_def)
  obtain s1 where t: "track P ?r ?s = Some s1" using track_succeeds [OF ok tm lt] by auto
  note T = track_appends [OF ok tm t]
  let ?s2 = "s1\<lparr>time_log := time_log s + 1\<rparr>"
  have run: "mem_write P a v s = Some (Inr (SingleCell Write a v, ?s2))"
    using al t by (simp add: mem_write_def aligned_def urem_cells [OF g(2)] g(8))
  have f: "same_frame s ?s2" by (rule access_frame(2) [OF g(1) run])
  have inv: "machine_inv P ?s2" by (rule mem_write_cells(3) [OF g(1,2) run])
  have m: "rb_get P (memory ?s2) = (rb_get P (memory s))(a \<mapsto> v)"
    using mem_write_cells(1) [OF g(1,2) run] al by (simp add: write_cells_def aligned_def)
  have "ready P n ?s2"
    using inv T(3) g f by (simp add: ready_def cells_fit_frame stack_inv_frame)
  moreover have "cells P ?s2 = (cells P s)(a := v)"
    by (rule ext) (simp only: cells_def dummy_read_cell m cell_value_upd fun_upd_apply)
  moreover have "aligned ?s2 = aligned s" using f by (simp add: aligned_def same_frame_def fun_eq_iff)
  ultimately show thesis using f by (intro that [OF run])
qed

text \<open>The slot of the top of the stack.\<close>

lemma stack_slot:
  assumes "stack_inv s"
  shows "stack_ptr s = word_of_nat (unat (stack_depth s)) * word_size s"
    and "aligned s (stack_ptr s)"
proof -
  from assms have p: "unat (stack_ptr s) = unat (stack_depth s) * unat (word_size s)"
    by (simp add: stack_inv_def)
  have "stack_ptr s = word_of_nat (unat (stack_ptr s))" by simp
  then show "stack_ptr s = word_of_nat (unat (stack_depth s)) * word_size s"
    unfolding p by simp
  show "aligned s (stack_ptr s)"
    using p by (simp add: aligned_def is_zero_def word_unat_eq_iff unat_mod_distrib)
qed

lemma push_cell:
  fixes v :: "'v word"
  assumes g: "ready P (Suc n) s" and lt: "stack_depth s < max_stack_depth s"
  obtains s' where
    "push P v s = Some (Inr ((stack_depth s + 1, SingleCell Write (stack_ptr s) v), s'))"
    and "ready P n s'" "cells P s' = (cells P s)(stack_ptr s := v)" "aligned s' = aligned s"
    and "stack_depth s' = stack_depth s + 1" "word_size s' = word_size s"
    and "max_stack_depth s' = max_stack_depth s" "memory_allocated s' = memory_allocated s"
    and "stack_ptr s' = stack_ptr s + word_size s"
proof -
  have inv: "stack_inv s" using g by (simp add: ready_def)
  note step = stack_inv_step [OF inv lt]
  let ?s = "s\<lparr>stack_depth := stack_depth s + 1, stack_ptr := stack_ptr s + word_size s\<rparr>"
  have "stack_inv ?s"
    using inv lt step by (simp add: stack_inv_def word_le_nat_alt word_less_nat_alt)
  with g have g': "ready P (Suc n) ?s" by (simp add: ready_def cells_fit_def)
  have al: "aligned ?s (stack_ptr s)" using stack_slot(2) [OF inv] by (simp add: aligned_def)
  obtain s' where
    w: "mem_write P (stack_ptr s) v ?s = Some (Inr (SingleCell Write (stack_ptr s) v, s'))"
    and s': "ready P n s'" "same_frame ?s s'" "cells P s' = (cells P ?s)(stack_ptr s := v)"
    "aligned s' = aligned ?s"
    by (rule write_cell [OF g' al, of v])
  have "stack_depth s \<noteq> max_stack_depth s" using lt by simp
  then have "push P v s = Some (Inr ((stack_depth s + 1, SingleCell Write (stack_ptr s) v), s'))"
    using w step by (simp add: push_run)
  moreover have "cells P ?s = cells P s" by (simp add: cells_def dummy_read_def fun_eq_iff)
  ultimately show thesis
    using s' by (intro that [of s']) (simp_all add: same_frame_def aligned_def fun_eq_iff)
qed

lemma pop_cell:
  assumes g: "ready P (Suc n) s" and ne: "stack_depth s \<noteq> 0"
  obtains s' where "pop P s = Some (Inr ((stack_depth s - 1,
      SingleCell Read (stack_ptr s - word_size s) (cells P s (stack_ptr s - word_size s))), s'))"
    and "ready P n s'" "cells P s' = cells P s" "aligned s' = aligned s"
    and "stack_depth s' = stack_depth s - 1" "stack_ptr s' = stack_ptr s - word_size s"
    "word_size s' = word_size s" "max_stack_depth s' = max_stack_depth s"
    "memory_allocated s' = memory_allocated s"
proof -
  have inv: "stack_inv s" using g by (simp add: ready_def)
  note step = stack_inv_back [OF inv ne]
  let ?p = "stack_ptr s - word_size s"
  let ?s = "s\<lparr>stack_depth := stack_depth s - 1, stack_ptr := ?p\<rparr>"
  have inv': "stack_inv ?s"
    using inv step by (auto simp: stack_inv_def word_le_nat_alt)
  with g have g': "ready P (Suc n) ?s" by (simp add: ready_def cells_fit_def)
  have al: "aligned ?s ?p" using stack_slot(2) [OF inv'] by (simp add: aligned_def)
  obtain s' where
    r: "mem_read P ?p ?s = Some (Inr (SingleCell Read ?p (cells P ?s ?p), s'))"
    and s': "ready P n s'" "same_frame ?s s'" "cells P s' = cells P ?s"
    "aligned s' = aligned ?s"
    by (rule read_cell [OF g' al])
  have c: "cells P ?s = cells P s" by (simp add: cells_def dummy_read_def fun_eq_iff)
  have "pop P s = Some (Inr ((stack_depth s - 1, SingleCell Read ?p (cells P s ?p)), s'))"
    using r step ne c by (simp add: pop_run)
  then show thesis
    using s' c by (intro that [of s']) (simp_all add: same_frame_def aligned_def fun_eq_iff)
qed

end

section \<open>The specification of the instruction set\<close>

text \<open>
  An abstract state is the memory, cell by cell, and the number of values on the stack; the
  stack lies at address 0, one cell per value.
\<close>

type_synonym ('k, 'v) abs_state = "('k \<Rightarrow> 'v) \<times> nat"

definition abs_state ::
    "('m, 't, 'k, 'v::len word) platform \<Rightarrow> ('m, 't, 'k, 'z) machine_scheme \<Rightarrow> ('k, 'v word) abs_state" where
  "abs_state P s = (cells P s, unat (stack_depth s))"

definition slot :: "'k::len word \<Rightarrow> nat \<Rightarrow> 'k word" where
  "slot w d = word_of_nat d * w"

text \<open>The addresses an instruction names.\<close>

fun operands :: "('k, 'v) instruction \<Rightarrow> 'k list" where
  "operands (I_Read a) = [a]"
| "operands (I_Write a v) = [a]"
| "operands (I_Push v) = []"
| "operands I_Pop = []"
| "operands (I_Mov g h) = [reg_address g, reg_address h]"
| "operands (I_Swap g) = [reg_address g]"
| "operands (I_Load g a) = [reg_address g, a]"
| "operands (I_Save a g) = [a, reg_address g]"
| "operands I_Invalid = []"
| "operands (I_Add g h) = [reg_address g, reg_address h]"

text \<open>When an instruction does not panic.\<close>

fun spec_guard ::
    "bool \<Rightarrow> 'k::len word mem_section \<Rightarrow> nat \<Rightarrow> ('k word, 'v::len word) instruction \<Rightarrow>
     ('k word, 'v word) abs_state \<Rightarrow> bool" where
  "spec_guard chk sec mx (I_Read a) (m, d) = contain sec a"
| "spec_guard chk sec mx (I_Write a v) (m, d) = contain sec a"
| "spec_guard chk sec mx (I_Push v) (m, d) = (d < mx)"
| "spec_guard chk sec mx I_Pop (m, d) = (0 < d)"
| "spec_guard chk sec mx (I_Mov g h) (m, d) = True"
| "spec_guard chk sec mx (I_Swap g) (m, d) = (0 < d)"
| "spec_guard chk sec mx (I_Load g a) (m, d) = True"
| "spec_guard chk sec mx (I_Save a g) (m, d) = True"
| "spec_guard chk sec mx I_Invalid (m, d) = False"
| "spec_guard chk sec mx (I_Add g h) (m, d) =
     (chk \<longrightarrow> unat (m (reg_address g)) + unat (m (reg_address h)) < 2 ^ LENGTH('v))"

text \<open>What it does then.\<close>

fun spec_exec ::
    "'k::len word \<Rightarrow> ('k word, 'v::len word) instruction \<Rightarrow> ('k word, 'v word) abs_state \<Rightarrow>
     ('k word, 'v word) abs_state" where
  "spec_exec w (I_Read a) (m, d) = (m, d)"
| "spec_exec w (I_Write a v) (m, d) = (m(a := v), d)"
| "spec_exec w (I_Push v) (m, d) = (m(slot w d := v), d + 1)"
| "spec_exec w I_Pop (m, d) = (m, d - 1)"
| "spec_exec w (I_Mov g h) (m, d) = (m(reg_address g := m (reg_address h)), d)"
| "spec_exec w (I_Swap g) (m, d) =
     (m(slot w (d - 1) := m (reg_address g), reg_address g := m (slot w (d - 1))), d)"
| "spec_exec w (I_Load g a) (m, d) = (m(reg_address g := m a), d)"
| "spec_exec w (I_Save a g) (m, d) = (m(a := m (reg_address g)), d)"
| "spec_exec w I_Invalid (m, d) = (m, d)"
| "spec_exec w (I_Add g h) (m, d) =
     (m(reg_address g := m (reg_address g) + m (reg_address h)), d)"

lemma expecting_Inr: "expecting (Some (Inr x)) = Some x"
  by (simp add: expecting_def)

lemma expecting_Inl: "expecting (Some (Inl x)) = None"
  by (simp add: expecting_def)

lemmas expecting_simps = expecting_Inr expecting_Inl

context rbtree
begin

definition refines :: "('k word, 'v word) instruction \<Rightarrow> ('m, 't, 'k word, 'z) machine_scheme \<Rightarrow> bool" where
  "refines i s \<longleftrightarrow>
     (if spec_guard (overflow_checks P) (memory_allocated s) (unat (max_stack_depth s)) i (abs_state P s)
      then \<exists>s'. exec P i s = Some s' \<and> abs_state P s' = spec_exec (word_size s) i (abs_state P s)
      else exec P i s = None)"

lemma refines_memory:
  assumes g: "ready P 4 s" and al: "list_all (aligned s) (operands i)"
  shows "i = I_Read a \<Longrightarrow> refines i s" and "i = I_Write a v \<Longrightarrow> refines i s"
proof -
  have g1: "ready P (Suc 0) s" using g by (simp add: ready_def)
  {
    assume i: "i = I_Read a"
    with al have a: "aligned s a" by simp
    obtain s' where "mem_read P a s = Some (Inr (SingleCell Read a (cells P s a), s'))"
      and "same_frame s s'" "cells P s' = cells P s"
      by (rule read_cell [OF g1 a])
    then show "refines i s"
      by (simp add: i refines_def abs_state_def same_frame_def expecting_simps)
  }
  {
    assume i: "i = I_Write a v"
    with al have a: "aligned s a" by simp
    obtain s' where "mem_write P a v s = Some (Inr (SingleCell Write a v, s'))"
      and "same_frame s s'" "cells P s' = (cells P s)(a := v)"
      by (rule write_cell [OF g1 a])
    then show "refines i s"
      by (simp add: i refines_def abs_state_def same_frame_def expecting_simps)
  }
qed

lemma ready_mono: "ready P n s \<Longrightarrow> k \<le> n \<Longrightarrow> ready P k s"
  by (simp add: ready_def)

lemma refines_stack:
  assumes g: "ready P 4 s"
  shows "i = I_Push v \<Longrightarrow> refines i s" and "i = I_Pop \<Longrightarrow> refines i s"
proof -
  have g1: "ready P (Suc 0) s" using g by (simp add: ready_def)
  have inv: "stack_inv s" using g by (simp add: ready_def)
  have slot: "stack_ptr s = slot (word_size s) (unat (stack_depth s))"
    by (simp add: slot_def stack_slot(1) [OF inv])
  {
    assume i: "i = I_Push v"
    show "refines i s"
    proof (cases "stack_depth s < max_stack_depth s")
      case True
      obtain s' where
        "push P v s = Some (Inr ((stack_depth s + 1, SingleCell Write (stack_ptr s) v), s'))"
        and "cells P s' = (cells P s)(stack_ptr s := v)" "stack_depth s' = stack_depth s + 1"
        by (rule push_cell [OF g1 True])
      with stack_inv_step(1) [OF inv True] True show ?thesis
        by (simp add: i refines_def abs_state_def expecting_simps slot word_less_nat_alt)
    next
      case False
      then have "stack_depth s = max_stack_depth s" using inv by (auto simp: stack_inv_def)
      then show ?thesis
        by (simp add: i refines_def abs_state_def expecting_simps push_def)
    qed
  }
  {
    assume i: "i = I_Pop"
    show "refines i s"
    proof (cases "stack_depth s = 0")
      case True
      then show ?thesis by (simp add: i refines_def abs_state_def expecting_simps pop_def)
    next
      case False
      obtain s' c where "pop P s = Some (Inr ((stack_depth s - 1, c), s'))"
        and "cells P s' = cells P s" "stack_depth s' = stack_depth s - 1"
        by (rule pop_cell [OF g1 False])
      with stack_inv_back(1) [OF inv False] False show ?thesis
        by (simp add: i refines_def abs_state_def expecting_simps unat_gt_0)
    qed
  }
qed

lemma refines_copy:
  assumes g: "ready P 4 s" and al: "list_all (aligned s) (operands i)"
  shows "i = I_Mov g1 g2 \<Longrightarrow> refines i s" and "i = I_Load g1 a \<Longrightarrow> refines i s"
    and "i = I_Save a g1 \<Longrightarrow> refines i s"
proof -
  have g2: "ready P (Suc (Suc 0)) s" using g by (simp add: ready_def)
  have copy: "\<exists>s1 s2. mem_read P x s = Some (Inr (SingleCell Read x (cells P s x), s1)) \<and>
      mem_write P y (cells P s x) s1 = Some (Inr (SingleCell Write y (cells P s x), s2)) \<and>
      cells P s2 = (cells P s)(y := cells P s x) \<and> stack_depth s2 = stack_depth s"
    if x: "aligned s x" and y: "aligned s y" for x y
  proof -
    obtain s1 where r: "mem_read P x s = Some (Inr (SingleCell Read x (cells P s x), s1))"
      and s1: "ready P (Suc 0) s1" "same_frame s s1" "cells P s1 = cells P s" "aligned s1 = aligned s"
      by (rule read_cell [OF g2 x])
    have y': "aligned s1 y" using y s1(4) by simp
    obtain s2 where
      "mem_write P y (cells P s x) s1 = Some (Inr (SingleCell Write y (cells P s x), s2))"
      and "same_frame s1 s2" "cells P s2 = (cells P s1)(y := cells P s x)"
      by (rule write_cell [OF s1(1) y'])
    with r s1(2,3) show ?thesis by (auto simp: same_frame_def)
  qed
  {
    assume i: "i = I_Mov g1 g2"
    from copy [of "reg_address g2" "reg_address g1"] al show "refines i s"
      by (auto simp: i refines_def abs_state_def expecting_simps reg_get_def reg_set_def)
  }
  {
    assume i: "i = I_Load g1 a"
    from copy [of a "reg_address g1"] al show "refines i s"
      by (auto simp: i refines_def abs_state_def expecting_simps reg_get_def reg_set_def)
  }
  {
    assume i: "i = I_Save a g1"
    from copy [of "reg_address g1" a] al show "refines i s"
      by (auto simp: i refines_def abs_state_def expecting_simps reg_get_def reg_set_def)
  }
qed

lemma refines_swap:
  assumes g: "ready P 4 s" and al: "aligned s (reg_address h)"
  shows "refines (I_Swap h) s"
proof (cases "stack_depth s = 0")
  case True
  then show ?thesis by (simp add: refines_def abs_state_def expecting_simps pop_def)
next
  case False
  have g4: "ready P (Suc (Suc (Suc (Suc 0)))) s" using g by (simp add: ready_def)
  have inv: "stack_inv s" using g by (simp add: ready_def)
  let ?p = "stack_ptr s - word_size s" and ?a = "reg_address h"
  obtain s1 where pop: "pop P s = Some (Inr ((stack_depth s - 1, SingleCell Read ?p (cells P s ?p)), s1))"
    and s1: "ready P (Suc (Suc (Suc 0))) s1" "cells P s1 = cells P s" "aligned s1 = aligned s"
    and d1: "stack_depth s1 = stack_depth s - 1" "stack_ptr s1 = ?p" "word_size s1 = word_size s"
    and m1: "max_stack_depth s1 = max_stack_depth s"
    by (rule pop_cell [OF g4 False])
  have al1: "aligned s1 ?a" using al s1(3) by simp
  obtain s2 where get: "mem_read P ?a s1 = Some (Inr (SingleCell Read ?a (cells P s1 ?a), s2))"
    and s2: "ready P (Suc (Suc 0)) s2" "same_frame s1 s2" "cells P s2 = cells P s1"
      "aligned s2 = aligned s1"
    by (rule read_cell [OF s1(1) al1])
  have d2: "stack_depth s2 = stack_depth s - 1" "stack_ptr s2 = ?p" "max_stack_depth s2 = max_stack_depth s"
    using s2(2) d1 m1 by (simp_all add: same_frame_def)
  note down = stack_inv_back [OF inv False]
  have "stack_depth s - 1 < max_stack_depth s"
    using down(1) inv False unat_gt_0 [of "stack_depth s"]
    by (auto simp: word_less_nat_alt word_le_nat_alt stack_inv_def)
  then have lt: "stack_depth s2 < max_stack_depth s2" by (simp add: d2)
  obtain s3 c where push: "push P (cells P s ?a) s2 = Some (Inr ((stack_depth s2 + 1, c), s3))"
    and s3: "ready P (Suc 0) s3" "cells P s3 = (cells P s2)(stack_ptr s2 := cells P s ?a)"
      "aligned s3 = aligned s2" and d3: "stack_depth s3 = stack_depth s2 + 1"
    by (rule push_cell [OF s2(1) lt, of "cells P s ?a"])
  have al3: "aligned s3 ?a" using al s1(3) s2(4) s3(3) by simp
  obtain s4 where set: "mem_write P ?a (cells P s ?p) s3 = Some (Inr (SingleCell Write ?a (cells P s ?p), s4))"
    and s4: "same_frame s3 s4" "cells P s4 = (cells P s3)(?a := cells P s ?p)"
    by (rule write_cell [OF s3(1) al3, of "cells P s ?p"])
  have "exec P (I_Swap h) s = Some s4"
    using pop get push set s1(2) by (simp add: expecting_simps reg_get_def reg_set_def)
  moreover have "?p = slot (word_size s) (unat (stack_depth s) - 1)"
    using stack_slot(1) [of s1] s1(1) d1 down(1) by (simp add: ready_def slot_def)
  moreover have "stack_depth s4 = stack_depth s" using s4(1) d3 d2 by (simp add: same_frame_def)
  ultimately show ?thesis
    using False s4(2) s3(2) s2(3) s1(2) d2 by (simp add: refines_def abs_state_def unat_gt_0)
qed

lemma refines_add:
  assumes g: "ready P 4 s" and al: "aligned s (reg_address g1)" "aligned s (reg_address g2)"
  shows "refines (I_Add g1 g2) s"
proof -
  have g3: "ready P (Suc (Suc (Suc 0))) s" using g by (simp add: ready_def)
  let ?a = "reg_address g1" and ?b = "reg_address g2"
  let ?v = "cells P s ?a + cells P s ?b"
  obtain s1 where r1: "mem_read P ?a s = Some (Inr (SingleCell Read ?a (cells P s ?a), s1))"
    and s1: "ready P (Suc (Suc 0)) s1" "same_frame s s1" "cells P s1 = cells P s" "aligned s1 = aligned s"
    by (rule read_cell [OF g3 al(1)])
  have al1: "aligned s1 ?b" using al s1(4) by simp
  obtain s2 where r2: "mem_read P ?b s1 = Some (Inr (SingleCell Read ?b (cells P s1 ?b), s2))"
    and s2: "ready P (Suc 0) s2" "same_frame s1 s2" "cells P s2 = cells P s1" "aligned s2 = aligned s1"
    by (rule read_cell [OF s1(1) al1])
  have al2: "aligned s2 ?a" using al s1(4) s2(4) by simp
  obtain s3 where w: "mem_write P ?a ?v s2 = Some (Inr (SingleCell Write ?a ?v, s3))"
    and s3: "same_frame s2 s3" "cells P s3 = (cells P s2)(?a := ?v)"
    by (rule write_cell [OF s2(1) al2, of ?v])
  have d: "stack_depth s3 = stack_depth s" using s1(2) s2(2) s3(1) by (simp add: same_frame_def)
  show ?thesis
  proof (cases "overflow_checks P \<longrightarrow> unat (cells P s ?a) + unat (cells P s ?b) < 2 ^ LENGTH('v)")
    case True
    then have "uadd (overflow_checks P) (cells P s ?a) (cells P s ?b) = Some ?v"
      by (auto simp: uadd_def)
    then show ?thesis
      using True r1 r2 w s1(3) s2(3) s3(2) d
      by (simp add: refines_def abs_state_def expecting_simps reg_get_def reg_set_def)
  next
    case False
    then have "uadd (overflow_checks P) (cells P s ?a) (cells P s ?b) = None"
      by (auto simp: uadd_def)
    then show ?thesis
      using False r1 r2 s1(3)
      by (simp add: refines_def abs_state_def expecting_simps reg_get_def)
  qed
qed

lemma exec_refines:
  assumes g: "ready P 4 s" and al: "list_all (aligned s) (operands i)"
  shows "refines i s"
proof (cases i)
  case I_Invalid
  then show ?thesis by (simp add: refines_def abs_state_def)
qed (use refines_memory [OF g al] refines_stack [OF g] refines_copy [OF g al] refines_swap [OF g]
    refines_add [OF g] al in simp_all)

text \<open>Reachable machines are good states.\<close>

lemma reachable_sizes:
  assumes "reachable P args s"
  shows "word_size s = WORD_SIZE" and
    "unat (max_stack_depth s) * unat (word_size s) < 2 ^ LENGTH('k) \<longrightarrow> stack_inv s"
  using assms
proof (induction rule: reachable.induct)
  case (reach_new s)
  { case 1 then show ?case
      using reach_new by (auto simp: StateMachine_new_def config_new_def bind_eq_Some_conv
          split: if_splits) }
  { case 2 then show ?case
      using reach_new by (auto simp: StateMachine_new_def bind_eq_Some_conv stack_inv_def
          base_zero_def) }
next
  case (reach_step s s')
  have inv: "machine_inv P s" by (rule reachable_inv [OF reach_step(1)])
  have frame: "word_size s' = word_size s" "max_stack_depth s' = max_stack_depth s"
    using mstep_frame [OF reach_step(2) inv] by simp_all
  { case 1 then show ?case using reach_step frame by simp }
  { case 2 then show ?case using reach_step frame mstep_stack_inv [OF reach_step(2) inv] by simp }
qed

lemma reachable_ready:
  assumes "reachable P args s" "cells_fit TYPE('v) s"
    and "unat (max_stack_depth s) * unat (word_size s) < 2 ^ LENGTH('k)"
    and "length (machine_trace P s) + n < 2 ^ 64"
  shows "ready P n s"
  using assms reachable_inv [OF assms(1)] reachable_sizes [OF assms(1)] by (simp add: ready_def)

lemma exec_refines_aux:
  assumes "reachable P args s" "cells_fit TYPE('v) s"
    and "unat (max_stack_depth s) * unat (word_size s) < 2 ^ LENGTH('k)"
    and "length (machine_trace P s) + 4 < 2 ^ 64" "list_all (aligned s) (operands i)"
  shows "if spec_guard (overflow_checks P) (memory_allocated s) (unat (max_stack_depth s)) i (abs_state P s)
    then \<exists>s'. exec P i s = Some s' \<and> abs_state P s' = spec_exec (word_size s) i (abs_state P s)
    else exec P i s = None"
  using exec_refines [OF reachable_ready [OF assms(1-4)] assms(5)] by (simp add: refines_def)

lemma push_pop_aux:
  fixes v :: "'v word"
  assumes "reachable P args s" "cells_fit TYPE('v) s"
    and "unat (max_stack_depth s) * unat (word_size s) < 2 ^ LENGTH('k)"
    and "length (machine_trace P s) + 2 < 2 ^ 64"
  shows "(if stack_depth s = max_stack_depth s then push P v s = Some (Inl StackOverflow)
      else \<exists>c s1 c' s2. push P v s = Some (Inr ((stack_depth s + 1, c), s1)) \<and>
        pop P s1 = Some (Inr ((stack_depth s, c'), s2)) \<and> interaction_value c' = v \<and>
        stack_depth s2 = stack_depth s \<and> stack_ptr s2 = stack_ptr s) \<and>
    (if stack_depth s = 0 then pop P s = Some (Inl StackUnderflow)
     else \<exists>c s1. pop P s = Some (Inr ((stack_depth s - 1, c), s1)))"
proof (intro conjI)
  have g: "ready P (Suc (Suc 0)) s" using reachable_ready [OF assms] by (simp add: numeral_2_eq_2)
  then have inv: "stack_inv s" by (simp add: ready_def)
  show "if stack_depth s = max_stack_depth s then push P v s = Some (Inl StackOverflow)
      else \<exists>c s1 c' s2. push P v s = Some (Inr ((stack_depth s + 1, c), s1)) \<and>
        pop P s1 = Some (Inr ((stack_depth s, c'), s2)) \<and> interaction_value c' = v \<and>
        stack_depth s2 = stack_depth s \<and> stack_ptr s2 = stack_ptr s"
  proof (cases "stack_depth s = max_stack_depth s")
    case False
    then have lt: "stack_depth s < max_stack_depth s" using inv by (simp add: stack_inv_def order_less_le)
    obtain s1 where push: "push P v s = Some (Inr ((stack_depth s + 1, SingleCell Write (stack_ptr s) v), s1))"
      and s1: "ready P (Suc 0) s1" "cells P s1 = (cells P s)(stack_ptr s := v)"
      and d1: "stack_depth s1 = stack_depth s + 1"
      and w: "word_size s1 = word_size s" and p: "stack_ptr s1 = stack_ptr s + word_size s"
      by (rule push_cell [OF g lt])
    have p1: "stack_ptr s1 - word_size s1 = stack_ptr s" using p w by simp
    have ne: "stack_depth s1 \<noteq> 0"
      using stack_inv_step(1) [OF inv lt] by (auto simp: d1 word_unat_eq_iff)
    obtain s2 where "pop P s1 = Some (Inr ((stack_depth s1 - 1, SingleCell Read
        (stack_ptr s1 - word_size s1) (cells P s1 (stack_ptr s1 - word_size s1))), s2))"
      and "stack_depth s2 = stack_depth s1 - 1" "stack_ptr s2 = stack_ptr s1 - word_size s1"
      by (rule pop_cell [OF s1(1) ne])
    with push s1(2) d1 show ?thesis by (simp add: p1 False)
  qed (simp add: push_def)
  show "if stack_depth s = 0 then pop P s = Some (Inl StackUnderflow)
     else \<exists>c s1. pop P s = Some (Inr ((stack_depth s - 1, c), s1))"
  proof (cases "stack_depth s = 0")
    case False
    obtain c s1 where "pop P s = Some (Inr ((stack_depth s - 1, c), s1))"
      by (rule pop_cell [OF g False])
    with False show ?thesis by auto
  qed (simp add: pop_def)
qed

end

end
