(* ===== verification/Machine_Correct.thy ===== *)
theory Machine_Correct
  imports Machine_Exec
begin

text \<open>
  The properties of the RAM machine, over any tree that keeps the contract \<open>rbtree\<close>, with
  witnesses on the trees of the library.
\<close>

section \<open>The default machine\<close>

definition default_machine :: "('m, 't, 256 word, 256 word) platform \<Rightarrow> ('m, 't, 256 word) state_machine" where
  "default_machine P =
     \<lparr>memory = rb_new P, memory_allocated = Section 35840 base_MAX, word_size = 32,
      time_log = 0, stack_allocated = Section 0 32768, max_stack_depth = 1024, stack_depth = 0,
      stack_ptr = 0, register_allocated = Section 33792 34816,
      execution_trace = tr_new P,
      r0 = Register_new 0 33792, r1 = Register_new 1 33824, r2 = Register_new 2 33856,
      r3 = Register_new 3 33888, r4 = Register_new 4 33920\<rparr>"

lemma create_register_default:
  "i < 5 \<Longrightarrow> create_register chk (head_config 32 1024 32 32 :: 256 word config) i
     = Some (Register_new i (word_of_nat (33792 + i * 32)))"
proof -
  assume i: "i < 5"
  have "umul chk (from_usize i) (word_of_nat 32 :: 256 word) = Some (word_of_nat (i * 32))"
    using i by (intro umul_of_nat) simp_all
  moreover have "uadd chk (word_of_nat 33792 :: 256 word) (word_of_nat (i * 32))
      = Some (word_of_nat (33792 + i * 32))"
    using i by (intro uadd_of_nat) simp
  ultimately show ?thesis
    by (simp add: create_register_def head_config_def section_low_def)
qed

lemma new_default_machine:
  "StateMachine_new P default_config = Some (default_machine P)"
proof -
  have "config_new (overflow_checks P) (WORD_SIZE :: 256 word) default_config
      = Some (head_config 32 1024 32 32)"
    using config_new_head [of default_config 1024 32 32 32 "overflow_checks P", where 'k = 256]
    by (simp add: default_config_def WORD_SIZE_def)
  then show ?thesis
    by (simp add: StateMachine_new_def create_register_default)
      (simp add: default_machine_def head_config_def base_zero_def into_u64_def from_usize_def)
qed

lemma default_machine_reachable: "reachable P default_config (default_machine P)"
  by (rule reach_new [OF new_default_machine])

text \<open>The same machine with the tail layout.\<close>

lemma tail_begin_default: "tail_begin TYPE(256) 32 1024 32 32 = 2 ^ 256 - 35872"
  by (simp add: tail_begin_def)

lemma create_register_tail:
  "i < 5 \<Longrightarrow> \<exists>g. create_register chk (tail_config 32 1024 32 32 :: 256 word config) i = Some g"
proof -
  assume i: "i < 5"
  have "umul chk (from_usize i) (word_of_nat 32 :: 256 word) = Some (word_of_nat (i * 32))"
    using i by (intro umul_of_nat) simp_all
  moreover have "uadd chk (word_of_nat (2 ^ 256 - 2080) :: 256 word) (word_of_nat (i * 32))
      = Some (word_of_nat (2 ^ 256 - 2080 + i * 32))"
    using i by (intro uadd_of_nat) simp
  ultimately show ?thesis
    by (simp add: create_register_def tail_config_def section_low_def tail_begin_default Let_def)
qed

lemma new_tail_machine:
  "\<exists>s. StateMachine_new P (default_config\<lparr>head_layout := False\<rparr>) = Some s \<and>
     stack_ptr s = (0 :: 256 word) \<and> base_address s = 0 \<and>
     contain (memory_allocated s) 0 \<and> \<not> contain (stack_allocated s) 0"
proof -
  have "config_new (overflow_checks P) (WORD_SIZE :: 256 word) (default_config\<lparr>head_layout := False\<rparr>)
      = Some (tail_config 32 1024 32 32)"
    using config_new_tail [of "default_config\<lparr>head_layout := False\<rparr>" 1024 32 32 32
        "overflow_checks P", where 'k = 256]
    by (simp add: default_config_def WORD_SIZE_def)
  moreover obtain g0 g1 g2 g3 g4 where
    "create_register (overflow_checks P) (tail_config 32 1024 32 32 :: 256 word config) 0 = Some g0"
    "create_register (overflow_checks P) (tail_config 32 1024 32 32 :: 256 word config) 1 = Some g1"
    "create_register (overflow_checks P) (tail_config 32 1024 32 32 :: 256 word config) 2 = Some g2"
    "create_register (overflow_checks P) (tail_config 32 1024 32 32 :: 256 word config) 3 = Some g3"
    "create_register (overflow_checks P) (tail_config 32 1024 32 32 :: 256 word config) 4 = Some g4"
    using create_register_tail [of 0 "overflow_checks P"]
      create_register_tail [of 1 "overflow_checks P"] create_register_tail [of 2 "overflow_checks P"]
      create_register_tail [of 3 "overflow_checks P"] create_register_tail [of 4 "overflow_checks P"]
    by auto
  ultimately show ?thesis
    by (simp add: StateMachine_new_def base_zero_def)
      (simp add: tail_config_def tail_begin_default Let_def base_address_def section_low_def contain_def
        base_zero_def word_le_nat_alt)
qed

lemma default_ready:
  "machine_trace (rbt_platform chk) (default_machine (rbt_platform chk)) = []"
  by (simp add: default_machine_def machine_trace_def rbt_platform_def)

lemma default_cells_fit [simp]: "cells_fit TYPE(256) (default_machine P)"
  by (simp add: cells_fit_def default_machine_def)

lemmas rbt_platform_law = rbt.rbtree_axioms

text \<open>The default machine over the trees of the library, for the witnesses.\<close>

abbreviation (input) lib :: "((256 word, 256 word) RBT.rbt, (256 word, 256 word) trace_record list,
    256 word, 256 word) platform" where
  "lib \<equiv> rbt_platform True"

lemma lib_write:
  assumes "unat (a :: 256 word) + 32 \<le> 2 ^ 256"
  obtains c s' where "mem_write lib a v (default_machine lib) = Some (Inr (c, s'))"
  using rbt.mem_write_succeeds [OF rbt.reachable_inv [OF default_machine_reachable] default_cells_fit,
      of a True v] assms
  by (auto simp: default_ready)

lemma lib_inv: "machine_inv lib (default_machine lib)"
  by (rule rbt.reachable_inv [OF default_machine_reachable])

section \<open>Properties\<close>

text \<open>
  C11: in every machine reached from \<open>StateMachine::new\<close> by reads, writes, pushes and pops,
  the time logs of the trace are 0, 1, 2, ... in order, \<open>time_log\<close> is the number of
  records, and replaying the trace from an empty memory, every read checked against the last
  write to its cell, succeeds and gives the machine's memory.
\<close>

theorem machine_trace_replays:
  assumes "rbtree P" "reachable P args s"
  shows "map tr_time_log (machine_trace P s) = map word_of_nat [0..<length (machine_trace P s)] \<and>
    time_log s = word_of_nat (length (machine_trace P s)) \<and>
    replay Map.empty (machine_trace P s) = Some (rb_get P (memory s))"
  using rbtree.reachable_inv [OF assms] by (simp add: machine_inv_def trace_ok_def)

theorem machine_trace_replays_witness:
  "\<exists>c s'. mem_write lib 35840 7 (default_machine lib) = Some (Inr (c, s')) \<and>
     replay Map.empty (machine_trace lib s') = Some (rb_get lib (memory s'))"
proof -
  have "unat (35840 :: 256 word) + 32 \<le> 2 ^ 256" by simp
  then obtain c s' where w: "mem_write lib 35840 7 (default_machine lib) = Some (Inr (c, s'))"
    by (rule lib_write)
  have "reachable lib default_config s'"
    by (rule reach_step [OF default_machine_reachable step_write [OF w]])
  from machine_trace_replays [OF rbt_platform_law this] w show ?thesis by auto
qed

text \<open>
  A write that returns changes the bytes of memory at exactly the addresses from
  \<open>a\<close> to \<open>a + n - 1\<close>, where \<open>n\<close> is the size of a value, to the big-endian bytes
  of the value, whether the address is aligned to a cell or not.
\<close>

theorem write_updates_bytes:
  fixes v :: "'v::len word" and a :: "'k::len word"
  assumes "rbtree P" "machine_inv P s" "cells_fit TYPE('v) s"
    and "mem_write P a v s = Some (Inr (c, s'))"
    and "unat a + LENGTH('v) div 8 \<le> 2 ^ LENGTH('k)"
  shows "flat_byte P s' x =
    (if unat a \<le> unat x \<and> unat x < unat a + LENGTH('v) div 8
     then to_be_bytes v ! (unat x - unat a) else flat_byte P s x)"
  by (rule rbtree.mem_write_flat [OF assms])

theorem write_updates_bytes_witness:
  "\<exists>c s'. mem_write lib 1 5 (default_machine lib) = Some (Inr (c, s')) \<and>
     flat_byte lib s' 32 = 5"
proof -
  have "unat (1 :: 256 word) + 32 \<le> 2 ^ 256" by simp
  then obtain c s' where w: "mem_write lib 1 5 (default_machine lib) = Some (Inr (c, s'))"
    by (rule lib_write)
  have "to_be_bytes (5 :: 256 word) ! 31 = 5"
    by (simp add: to_be_bytes_def digits_be_nth)
  with write_updates_bytes [OF rbt_platform_law lib_inv default_cells_fit w, of 32]
  have "flat_byte lib s' 32 = 5" by simp
  with w show ?thesis by auto
qed

text \<open>
  C10: a write of a value followed by a read at the same address returns that value, aligned
  or not; neither fails when the access ends inside the address space and the trace has
  room for the records.
\<close>

theorem read_after_write:
  fixes v :: "'v::len word" and a :: "'k::len word"
  assumes "rbtree P" "machine_inv P s" "cells_fit TYPE('v) s"
    and "unat a + LENGTH('v) div 8 \<le> 2 ^ LENGTH('k)"
    and "length (machine_trace P s) + 4 < 2 ^ 64"
  shows "\<exists>c s1 c' s2. mem_write P a v s = Some (Inr (c, s1)) \<and>
    mem_read P a s1 = Some (Inr (c', s2)) \<and> interaction_value c' = v \<and> memory s2 = memory s1"
  by (rule rbtree.read_after_write_aux [OF assms])

theorem read_after_write_witness:
  "\<exists>c s1 c' s2. mem_write lib 1 5 (default_machine lib) = Some (Inr (c, s1)) \<and>
    mem_read lib 1 s1 = Some (Inr (c', s2)) \<and> interaction_value c' = 5 \<and> memory s2 = memory s1"
  by (rule read_after_write [OF rbt_platform_law lib_inv default_cells_fit])
    (simp_all add: default_ready)

text \<open>
  The stack. A push fails with \<open>StackOverflow\<close> exactly when the depth is the maximum
  and a pop fails with \<open>StackUnderflow\<close> exactly on the empty stack; otherwise they return,
  and a pop after a push returns the pushed value and restores the depth and the pointer.
\<close>

theorem push_pop:
  fixes v :: "'v::len word" and s :: "('m, 't, 'k::len word) state_machine"
  assumes "rbtree P" "reachable P args s" "cells_fit TYPE('v) s"
    and "unat (max_stack_depth s) * unat (word_size s) < 2 ^ LENGTH('k)"
    and "length (machine_trace P s) + 2 < 2 ^ 64"
  shows "(if stack_depth s = max_stack_depth s then push P v s = Some (Inl StackOverflow)
      else \<exists>c s1 c' s2. push P v s = Some (Inr ((stack_depth s + 1, c), s1)) \<and>
        pop P s1 = Some (Inr ((stack_depth s, c'), s2)) \<and> interaction_value c' = v \<and>
        stack_depth s2 = stack_depth s \<and> stack_ptr s2 = stack_ptr s) \<and>
    (if stack_depth s = 0 then pop P s = Some (Inl StackUnderflow)
     else \<exists>c s1. pop P s = Some (Inr ((stack_depth s - 1, c), s1)))"
  by (rule rbtree.push_pop_aux [OF assms])

theorem push_pop_witness:
  "(\<exists>c s1 c' s2. push lib 5 (default_machine lib) = Some (Inr ((1, c), s1)) \<and>
     pop lib s1 = Some (Inr ((0, c'), s2)) \<and> interaction_value c' = 5) \<and>
   pop lib (default_machine lib) = Some (Inl StackUnderflow)"
proof -
  have "stack_depth (default_machine lib) = 0" "max_stack_depth (default_machine lib) = 1024"
    "word_size (default_machine lib) = 32"
    by (simp_all add: default_machine_def)
  then show ?thesis
    using push_pop [OF rbt_platform_law default_machine_reachable default_cells_fit, of True 5]
    by (auto simp: default_ready)
qed

text \<open>
  Every instruction with word-aligned operands implements \<open>spec_exec\<close> on the cells and
  the stack depth, and panics exactly when \<open>spec_guard\<close> fails: an invalid instruction, a
  read or write outside the memory section, a push on a full or a pop or swap on an empty
  stack, an addition that overflows in a build that checks overflow.
\<close>

theorem exec_implements_spec:
  fixes i :: "('k::len word, 'v::len word) instruction"
  assumes "rbtree P" "reachable P args s" "cells_fit TYPE('v) s"
    and "unat (max_stack_depth s) * unat (word_size s) < 2 ^ LENGTH('k)"
    and "length (machine_trace P s) + 4 < 2 ^ 64" "list_all (aligned s) (operands i)"
  shows "if spec_guard (overflow_checks P) (memory_allocated s) (unat (max_stack_depth s)) i (abs_state P s)
    then \<exists>s'. exec P i s = Some s' \<and> abs_state P s' = spec_exec (word_size s) i (abs_state P s)
    else exec P i s = None"
  by (rule rbtree.exec_refines_aux [OF assms])

theorem exec_implements_spec_witness:
  "\<exists>s'. exec lib (I_Write 35840 7) (default_machine lib) = Some s' \<and>
     abs_state lib s' = ((cells lib (default_machine lib))(35840 := 7), 0)"
proof -
  have "memory_allocated (default_machine lib) = Section 35840 base_MAX"
    "max_stack_depth (default_machine lib) = 1024"
    "word_size (default_machine lib) = 32" "aligned (default_machine lib) 35840"
    "abs_state lib (default_machine lib) = (cells lib (default_machine lib), 0)"
    by (simp_all add: default_machine_def aligned_def is_zero_def abs_state_def)
  then show ?thesis
    using exec_implements_spec [OF rbt_platform_law default_machine_reachable default_cells_fit,
        of True "I_Write 35840 7"]
    by (simp add: default_ready contain_def base_MAX_def)
qed

text \<open>
  Where the stack pointer starts. \<open>StateMachine::new\<close> sets it to zero; with the head
  layout that is the base of the stack section, but with the tail layout it is the base of
  the memory section and no address of the stack section, so pushes overwrite program memory.
\<close>

theorem new_stack_pointer:
  fixes P :: "('m, 't, 256 word, 256 word) platform"
  shows
  "(\<exists>s. StateMachine_new P default_config = Some s \<and>
      stack_ptr s = section_low (stack_allocated s) \<and> \<not> contain (memory_allocated s) (stack_ptr s)) \<and>
   (\<exists>s. StateMachine_new P (default_config\<lparr>head_layout := False\<rparr>) = Some s \<and>
      stack_ptr s = base_address s \<and> contain (memory_allocated s) (stack_ptr s) \<and>
      \<not> contain (stack_allocated s) (stack_ptr (s :: ('m, 't, 256 word) state_machine)))"
  using new_default_machine [of P] new_tail_machine [of P]
  by (auto simp: default_machine_def section_low_def contain_def)

end
