(* ===== verification/Machine_Stack.thy ===== *)
theory Machine_Stack
  imports Machine_Correct
begin

text \<open>
  The bounds of the stack. With the head layout, the stack of a machine never leaves the
  section \<open>Config::new\<close> gives it, whatever the machine executes.
\<close>

section \<open>Sections of a reachable machine\<close>

definition fits_layout :: "'k::len itself \<Rightarrow> config_args \<Rightarrow> bool" where
  "fits_layout _ args \<longleftrightarrow> head_layout args \<and> 0 < no_buffer args \<and>
     arg_stack_depth args < 2 ^ 64 \<and> no_register args < 2 ^ 64 \<and> no_buffer args < 2 ^ 64 \<and>
     0 < unat (WORD_SIZE :: 'k word) \<and>
     (arg_stack_depth args + no_register args + 2 * no_buffer args) * unat (WORD_SIZE :: 'k word) < 2 ^ LENGTH('k)"

definition sections_ok :: "config_args \<Rightarrow> ('m, 't, 'k::len word, 'z) machine_scheme \<Rightarrow> bool" where
  "sections_ok args s \<longleftrightarrow>
     disjoint_sections (stack_allocated s) (register_allocated s) \<and>
     disjoint_sections (stack_allocated s) (memory_allocated s) \<and>
     sec_lo (stack_allocated s) = 0 \<and>
     unat (sec_hi (stack_allocated s)) = arg_stack_depth args * unat (WORD_SIZE :: 'k word) \<and>
     unat (max_stack_depth s) = arg_stack_depth args"

lemma into_u64_usize:
  assumes "n < 2 ^ 64" "n < 2 ^ LENGTH('k::len)"
  shows "unat (into_u64 (from_usize n :: 'k word)) = n"
  using assms by (simp add: into_u64_def from_usize_def unsigned_ucast_eq unat_of_nat unsigned_of_nat take_bit_nat_eq_self)

lemma StateMachine_new_sections:
  assumes "fits_layout TYPE('k::len) args" "StateMachine_new P args = Some (s :: ('m, 't, 'k word) state_machine)"
  shows "sections_ok args s"
proof -
  obtain cfg where cfg: "config_new (overflow_checks P) (WORD_SIZE :: 'k word) args = Some cfg" "layout_ok cfg"
    and lo: "sec_lo (cfg_stack cfg) = 0" "unat (sec_hi (cfg_stack cfg)) = arg_stack_depth args * unat (WORD_SIZE :: 'k word)"
    using config_new_head_layout [of args "WORD_SIZE :: 'k word" "overflow_checks P"] assms(1) by (auto simp: fits_layout_def)
  have s: "stack_allocated s = cfg_stack cfg" "register_allocated s = cfg_register cfg" "memory_allocated s = cfg_memory cfg"
    "max_stack_depth s = into_u64 (cfg_stack_depth cfg)"
    using assms(2) cfg(1) by (auto simp: StateMachine_new_def bind_eq_Some_conv)
  have "cfg_stack_depth cfg = from_usize (arg_stack_depth args)"
    using cfg(1) by (auto simp: config_new_def bind_eq_Some_conv split: if_splits)
  moreover have "arg_stack_depth args * 1 \<le> arg_stack_depth args * unat (WORD_SIZE :: 'k word)"
    using assms(1) by (intro mult_le_mono2) (simp add: fits_layout_def)
  moreover have "\<dots> \<le> (arg_stack_depth args + no_register args + 2 * no_buffer args) * unat (WORD_SIZE :: 'k word)"
    by (intro mult_le_mono1) simp
  ultimately have "cfg_stack_depth cfg = from_usize (arg_stack_depth args)" "arg_stack_depth args < 2 ^ LENGTH('k)" "arg_stack_depth args < 2 ^ 64"
    using assms(1) unfolding fits_layout_def by linarith+
  then have "unat (max_stack_depth s) = arg_stack_depth args" unfolding s by (simp only: into_u64_usize)
  then show ?thesis using cfg(2) lo by (simp add: sections_ok_def layout_ok_def s)
qed

context rbtree
begin

lemma reachable_sections:
  assumes "reachable P args s" "fits_layout TYPE('k) args"
  shows "sections_ok args s"
  using assms
proof induction
  case (reach_step s s')
  from mstep_frame [OF reach_step(2) reachable_inv [OF reach_step(1)]] reach_step(3,4)
  show ?case by (simp add: sections_ok_def)
qed (rule StateMachine_new_sections)

lemma stack_room:
  assumes "reachable P args s" "fits_layout TYPE('k) args"
  shows "stack_inv s" "word_size s = WORD_SIZE" "unat (stack_depth s) \<le> arg_stack_depth args"
    "unat (stack_ptr s) \<le> unat (sec_hi (stack_allocated s))"
proof -
  note sec = reachable_sections [OF assms]
  show w: "word_size s = WORD_SIZE" by (rule reachable_sizes [OF assms(1)])
  have "arg_stack_depth args * unat (WORD_SIZE :: 'k word) < 2 ^ LENGTH('k)"
    using sec unat_less_2p [of "sec_hi (stack_allocated s)"] by (simp add: sections_ok_def)
  then show inv: "stack_inv s"
    using reachable_sizes(2) [OF assms(1)] sec w by (simp add: sections_ok_def)
  then show d: "unat (stack_depth s) \<le> arg_stack_depth args"
    using sec by (simp add: stack_inv_def sections_ok_def word_le_nat_alt)
  have "unat (stack_depth s) * unat (WORD_SIZE :: 'k word) \<le> arg_stack_depth args * unat (WORD_SIZE :: 'k word)"
    using d by (rule mult_le_mono1)
  then show "unat (stack_ptr s) \<le> unat (sec_hi (stack_allocated s))"
    using inv sec w by (simp add: stack_inv_def sections_ok_def)
qed

lemma push_bytes:
  fixes v :: "'v word"
  assumes "reachable P args s" "fits_layout TYPE('k) args" "cells_fit TYPE('v) s"
    and run: "push P v s = Some (Inr (x, s'))"
  shows "unat (stack_ptr s') = unat (stack_ptr s) + unat (word_size s)"
    and "flat_byte P s' a \<noteq> flat_byte P s a \<Longrightarrow> unat (stack_ptr s) \<le> unat a \<and> unat a < unat (stack_ptr s')"
proof -
  note room = stack_room [OF assms(1,2)]
  obtain d p c where ne: "stack_depth s \<noteq> max_stack_depth s" and d: "uadd (overflow_checks P) (stack_depth s) 1 = Some d"
    and p: "uadd (overflow_checks P) (stack_ptr s) (word_size s) = Some p"
    and w: "mem_write P (stack_ptr s) v (s\<lparr>stack_depth := d, stack_ptr := p\<rparr>) = Some (Inr (c, s'))"
    using run by (cases x) (auto simp: push_run)
  let ?t = "s\<lparr>stack_depth := d, stack_ptr := p\<rparr>"
  have lt: "stack_depth s < max_stack_depth s" using ne room(1) by (simp add: stack_inv_def order_less_le)
  note up = stack_inv_step [OF room(1) lt]
  have t: "machine_inv P ?t" "cells_fit TYPE('v) ?t"
    using reachable_inv [OF assms(1)] assms(3) by (simp_all add: cells_fit_def)
  have "same_frame ?t s'" by (rule access_frame(2) [OF t(1) w])
  then have "stack_ptr s' = stack_ptr s + word_size s" using p up(4) by (simp add: same_frame_def)
  then show ptr: "unat (stack_ptr s') = unat (stack_ptr s) + unat (word_size s)"
    using up(2) room(1) by (simp add: stack_inv_def)
  have n: "unat (word_size s) = LENGTH('v) div 8" using assms(3) by (simp add: cells_fit_def)
  have "unat (stack_ptr s) + LENGTH('v) div 8 \<le> 2 ^ LENGTH('k)"
    using ptr n unat_less_2p [of "stack_ptr s'"] by simp
  note flat = mem_write_flat [OF t w this, of a]
  have "flat_byte P ?t a = flat_byte P s a" by (simp add: flat_byte_def dummy_read_def)
  with flat show "flat_byte P s' a \<noteq> flat_byte P s a \<Longrightarrow> unat (stack_ptr s) \<le> unat a \<and> unat a < unat (stack_ptr s')"
    unfolding ptr n by (auto split: if_splits)
qed

lemma stack_bounded_aux:
  assumes "reachable P args s" "fits_layout TYPE('k) args" "cells_fit TYPE('v) s"
  shows "unat (stack_depth s) \<le> arg_stack_depth args \<and>
    unat (stack_ptr s) = unat (stack_depth s) * unat (word_size s) \<and> contain (stack_allocated s) (stack_ptr s) \<and>
    (\<forall>v x s' a. push P v s = Some (Inr (x, s')) \<longrightarrow> flat_byte P s' a \<noteq> flat_byte P s a \<longrightarrow>
       contain (stack_allocated s) a \<and> \<not> contain (register_allocated s) a \<and> \<not> contain (memory_allocated s) a)"
proof -
  note room = stack_room [OF assms(1,2)] and sec = reachable_sections [OF assms(1,2)]
  have in_stack: "contain (stack_allocated s) a" if "unat a \<le> unat (sec_hi (stack_allocated s))" for a
    using that sec by (simp add: contain_def sections_ok_def word_le_nat_alt)
  have "contain (stack_allocated s) a" if push: "push P v s = Some (Inr (x, s'))" and ne: "flat_byte P s' a \<noteq> flat_byte P s a"
    for v x s' a
  proof -
    have "reachable P args s'" by (rule reach_step [OF assms(1) step_push [OF push]])
    note room' = stack_room [OF this assms(2)]
    have "stack_allocated s' = stack_allocated s"
      using mstep_frame [OF step_push [OF push] reachable_inv [OF assms(1)]] by simp
    then show ?thesis using push_bytes(2) [OF assms push ne] room'(4) by (intro in_stack) simp
  qed
  moreover have "\<not> contain (register_allocated s) a \<and> \<not> contain (memory_allocated s) a" if "contain (stack_allocated s) a" for a
    using that sec disjoint_sections_contain unfolding sections_ok_def by blast
  moreover have "unat (stack_ptr s) = unat (stack_depth s) * unat (word_size s)" using room(1) by (simp add: stack_inv_def)
  ultimately show ?thesis using room(3) in_stack [OF room(4)] by blast
qed

end

section \<open>Property\<close>

text \<open>
  C33: with the head layout the stack stays in its section: in every reachable machine the
  depth is at most the configured one, the pointer is the depth in cells and lies in the
  section, and a push changes only bytes of that section, none of a register or of the
  program's memory.
\<close>

theorem stack_bounded:
  fixes P :: "('m, 't, 'k::len word, 'v::len word) platform"
  assumes "rbtree P" "reachable P args s" "fits_layout TYPE('k) args" "cells_fit TYPE('v) s"
  shows "unat (stack_depth s) \<le> arg_stack_depth args \<and>
    unat (stack_ptr s) = unat (stack_depth s) * unat (word_size s) \<and> contain (stack_allocated s) (stack_ptr s) \<and>
    (\<forall>v x s' a. push P v s = Some (Inr (x, s')) \<longrightarrow> flat_byte P s' a \<noteq> flat_byte P s a \<longrightarrow>
       contain (stack_allocated s) a \<and> \<not> contain (register_allocated s) a \<and> \<not> contain (memory_allocated s) a)"
  by (rule rbtree.stack_bounded_aux [OF assms])

theorem stack_bounded_witness:
  "contain (stack_allocated (default_machine lib)) (stack_ptr (default_machine lib)) \<and>
   (\<exists>x s'. push lib 5 (default_machine lib) = Some (Inr (x, s')) \<and>
      {a. flat_byte lib s' a \<noteq> flat_byte lib (default_machine lib) a} \<subseteq> {..32768})"
proof -
  have "fits_layout TYPE(256) default_config" by (simp add: fits_layout_def default_config_def WORD_SIZE_def)
  note S = stack_bounded [OF rbt_platform_law default_machine_reachable this default_cells_fit, of True]
  have in_stack: "contain (stack_allocated (default_machine lib)) a \<longleftrightarrow> a \<le> 32768" for a
    by (simp add: default_machine_def contain_def)
  have "stack_depth (default_machine lib) = 0" "max_stack_depth (default_machine lib) = 1024"
    "word_size (default_machine lib) = 32"
    by (simp_all add: default_machine_def)
  then obtain x s' where "push lib 5 (default_machine lib) = Some (Inr (x, s'))"
    using push_pop [OF rbt_platform_law default_machine_reachable default_cells_fit, of True 5]
    by (auto simp: default_ready)
  moreover from this have "{a. flat_byte lib s' a \<noteq> flat_byte lib (default_machine lib) a} \<subseteq> {..32768}"
    using S in_stack by blast
  ultimately show ?thesis using S by blast
qed

end
