(* ===== verification/Trace_Consistency.thy ===== *)
theory Trace_Consistency
  imports Machine_Correct
begin

text \<open>
  What memory consistency of a trace means, twice: on the time-ordered trace, where a read
  must return the last value written to its cell, and on the trace sorted by address and
  time log, where it is a condition on neighbours. The circuits check the second; the two
  agree. Cells start undefined here: the first access to a cell must be a write.
\<close>

section \<open>The two orders\<close>

text \<open>The records of the backends, over 256-bit addresses and values.\<close>

type_synonym access = "(256 word, 256 word) trace_record"

definition access_key :: "('k, 'v) trace_record \<Rightarrow> 'k \<times> u64" where
  "access_key r = (tr_address r, tr_time_log r)"

text \<open>\<open>sort_by\<close> is a stable sort.\<close>

definition sort_trace_by_address_time ::
    "('k::linorder, 'v) trace_record list \<Rightarrow> ('k, 'v) trace_record list" where
  "sort_trace_by_address_time tr = sort_key access_key tr"

definition time_ordered :: "('k, 'v) trace_record list \<Rightarrow> bool" where
  "time_ordered tr \<longleftrightarrow> sorted_wrt (<) (map tr_time_log tr)"

definition starts_at_zero :: "('k, 'v) trace_record list \<Rightarrow> bool" where
  "starts_at_zero tr \<longleftrightarrow> (case tr of [] \<Rightarrow> True | r # _ \<Rightarrow> tr_time_log r = 0)"

section \<open>Consistency\<close>

fun consistent_from ::
    "('k \<Rightarrow> 'v option) \<Rightarrow> ('k, 'v) trace_record list \<Rightarrow> bool" where
  "consistent_from m [] = True"
| "consistent_from m (r # rs) =
     (case tr_instruction r of
        Write \<Rightarrow> consistent_from (m(tr_address r \<mapsto> tr_value r)) rs
      | Read \<Rightarrow> m (tr_address r) = Some (tr_value r) \<and> consistent_from m rs)"

definition memory_consistent :: "('k, 'v) trace_record list \<Rightarrow> bool" where
  "memory_consistent tr = consistent_from Map.empty tr"

definition sorted_step :: "('k, 'v) trace_record \<Rightarrow> ('k, 'v) trace_record \<Rightarrow> bool" where
  "sorted_step p r \<longleftrightarrow>
     (if tr_address r = tr_address p
      then tr_instruction r = Read \<longrightarrow> tr_value r = tr_value p
      else tr_instruction r = Write)"

definition sorted_consistent :: "('k, 'v) trace_record list \<Rightarrow> bool" where
  "sorted_consistent tr \<longleftrightarrow>
     (tr \<noteq> [] \<longrightarrow> tr_instruction (hd tr) = Write) \<and> successively sorted_step tr"

section \<open>One cell at a time\<close>

fun cell_chain :: "'v option \<Rightarrow> ('k, 'v) trace_record list \<Rightarrow> bool" where
  "cell_chain v [] = True"
| "cell_chain v (r # rs) =
     ((tr_instruction r = Read \<longrightarrow> v = Some (tr_value r)) \<and> cell_chain (Some (tr_value r)) rs)"

definition at_cell :: "'k \<Rightarrow> ('k, 'v) trace_record list \<Rightarrow> ('k, 'v) trace_record list" where
  "at_cell a tr = filter (\<lambda>r. tr_address r = a) tr"

lemma at_cell_simps [simp]:
  "at_cell a [] = []"
  "at_cell a (r # rs) = (if tr_address r = a then r # at_cell a rs else at_cell a rs)"
  by (simp_all add: at_cell_def)

lemma consistent_from_cells:
  "consistent_from m tr \<longleftrightarrow> (\<forall>a. cell_chain (m a) (at_cell a tr))"
proof (induction tr arbitrary: m)
  case (Cons r rs)
  show ?case
  proof (cases "tr_instruction r")
    case Write
    then show ?thesis using Cons by (auto split: if_splits)
  next
    case Read
    have "(m(tr_address r \<mapsto> tr_value r)) = m" if "m (tr_address r) = Some (tr_value r)"
      using that by (simp add: fun_upd_idem)
    then show ?thesis using Read Cons by (auto split: if_splits) metis+
  qed
qed simp

lemma successively_cells:
  assumes "sorted (map tr_address (p # tr))"
  shows "successively sorted_step (p # tr) \<longleftrightarrow>
    cell_chain (Some (tr_value p)) (at_cell (tr_address p) tr) \<and>
    (\<forall>a. a \<noteq> tr_address p \<longrightarrow> cell_chain None (at_cell a tr))"
  using assms
proof (induction tr arbitrary: p)
  case (Cons r rs)
  have step: "successively sorted_step (p # r # rs) \<longleftrightarrow> sorted_step p r \<and>
      cell_chain (Some (tr_value r)) (at_cell (tr_address r) rs) \<and>
      (\<forall>a. a \<noteq> tr_address r \<longrightarrow> cell_chain None (at_cell a rs))"
    using Cons by simp
  show ?case
  proof (cases "tr_address r = tr_address p")
    case True
    then have "sorted_step p r \<longleftrightarrow> (tr_instruction r = Read \<longrightarrow> tr_value r = tr_value p)"
      by (simp add: sorted_step_def)
    with True show ?thesis unfolding step by auto
  next
    case False
    with Cons(2) have "tr_address p < tr_address r" and "\<forall>x \<in> set rs. tr_address r \<le> tr_address x"
      by auto
    then have "at_cell (tr_address p) rs = []"
      by (auto simp: at_cell_def filter_empty_conv)
    moreover have "sorted_step p r \<longleftrightarrow> tr_instruction r \<noteq> Read"
      using False by (cases "tr_instruction r") (simp_all add: sorted_step_def)
    ultimately show ?thesis using False unfolding step by auto (metis cell_chain.simps(1))
  qed
qed simp

lemma sorted_consistent_cells:
  assumes "sorted (map tr_address tr)"
  shows "sorted_consistent tr \<longleftrightarrow> (\<forall>a. cell_chain None (at_cell a tr))"
proof (cases tr)
  case (Cons r rs)
  have i: "tr_instruction r = Write \<longleftrightarrow> tr_instruction r \<noteq> Read" by (cases "tr_instruction r") simp_all
  show ?thesis
    using successively_cells [of r rs] assms Cons by (auto simp: sorted_consistent_def i)
qed (simp add: sorted_consistent_def)

lemma at_cell_sort:
  assumes "time_ordered tr"
  shows "at_cell a (sort_trace_by_address_time tr) = at_cell a tr"
proof -
  have "sorted_wrt (<) (map tr_time_log (at_cell a tr))"
    using assms by (simp add: time_ordered_def at_cell_def sorted_wrt_map sorted_wrt_filter)
  then have "sorted (map access_key (at_cell a tr))"
    unfolding sorted_map
    by (rule sorted_wrt_mono_rel [rotated, OF iffD1 [OF sorted_wrt_map]])
      (auto simp: access_key_def at_cell_def less_eq_prod_def)
  then show ?thesis
    by (simp add: sort_trace_by_address_time_def at_cell_def filter_sort sort_key_id_if_sorted)
qed

lemma sorted_addresses: "sorted (map tr_address (sort_trace_by_address_time tr))"
proof -
  have "sorted (map access_key (sort_trace_by_address_time tr))"
    by (simp add: sort_trace_by_address_time_def)
  then show ?thesis
    unfolding sorted_map by (rule sorted_wrt_mono_rel [rotated]) (auto simp: access_key_def)
qed

lemma sorted_check_iff:
  assumes "time_ordered tr"
  shows "sorted_consistent (sort_trace_by_address_time tr) \<longleftrightarrow> memory_consistent tr"
  by (simp add: sorted_consistent_cells [OF sorted_addresses] at_cell_sort [OF assms]
      memory_consistent_def consistent_from_cells)

section \<open>Traces of the machine\<close>

text \<open>
  The machine reads zero from a cell never written, so its traces replay, but they are
  memory-consistent only if no cell is read before it is written.
\<close>

fun reads_initialised :: "'k set \<Rightarrow> ('k, 'v) trace_record list \<Rightarrow> bool" where
  "reads_initialised A [] = True"
| "reads_initialised A (r # rs) =
     ((tr_instruction r = Read \<longrightarrow> tr_address r \<in> A) \<and> reads_initialised (insert (tr_address r) A) rs)"

lemma consistent_from_replay:
  "consistent_from m tr \<longleftrightarrow> replay m tr \<noteq> None \<and> reads_initialised (dom m) tr"
proof (induction tr arbitrary: m)
  case (Cons r rs)
  show ?case
  proof (cases "tr_instruction r")
    case Write
    then show ?thesis using Cons by (simp del: fun_upd_apply)
  next
    case Read
    then show ?thesis
      using Cons [of m] by (auto simp: cell_value_def insert_absorb dom_def split: option.splits)
  qed
qed simp

lemma trace_ok_time_ordered: "trace_ok tr \<Longrightarrow> time_ordered tr"
  by (simp add: trace_ok_def time_ordered_def sorted_wrt_map word_of_nat_less_iff
      sorted_wrt_iff_nth_less)

text \<open>
  C9: for a trace in time order, the check of neighbours on the trace sorted by address and
  time log holds exactly when every read of the time-ordered trace returns the last value
  written to its address, the first access to an address being a write.
\<close>

theorem sorted_check_iff_consistent:
  assumes "time_ordered tr"
  shows "sorted_consistent (sort_trace_by_address_time tr) \<longleftrightarrow> memory_consistent tr"
  by (rule sorted_check_iff [OF assms])

theorem sorted_check_iff_consistent_witness:
  "sorted_consistent (sort_trace_by_address_time
     [TraceRecord_new 0 0 Write (8 :: 16 word) (5 :: 16 word), TraceRecord_new 1 0 Write 4 6,
      TraceRecord_new 2 0 Read 8 5]) \<and>
   \<not> sorted_consistent (sort_trace_by_address_time
     [TraceRecord_new 0 0 Write (8 :: 16 word) (5 :: 16 word), TraceRecord_new 1 0 Write 4 6,
      TraceRecord_new 2 0 Read 8 6])"
  by (subst (1 2) sorted_check_iff_consistent)
    (simp_all add: time_ordered_def TraceRecord_new_def memory_consistent_def)

text \<open>
  The sorted trace of a machine reached from \<open>StateMachine::new\<close> passes the check
  exactly when the program never reads a cell before writing it: the machine's own reads
  always return the last value written.
\<close>

theorem machine_trace_sorted_check:
  assumes "rbtree P" "reachable P args s"
  shows "sorted_consistent (sort_trace_by_address_time (machine_trace P s)) \<longleftrightarrow>
    reads_initialised {} (machine_trace P s)"
proof -
  have inv: "machine_inv P s" by (rule rbtree.reachable_inv [OF assms])
  then have "time_ordered (machine_trace P s)"
    by (intro trace_ok_time_ordered) (simp add: machine_inv_def)
  with inv show ?thesis
    by (simp add: sorted_check_iff memory_consistent_def consistent_from_replay machine_inv_def)
qed

theorem machine_trace_sorted_check_witness:
  "\<exists>c s'. mem_read lib 35840 (default_machine lib) = Some (Inr (c, s')) \<and>
     \<not> sorted_consistent (sort_trace_by_address_time (machine_trace lib s'))"
proof -
  have "unat (35840 :: 256 word) + LENGTH(256) div 8 \<le> 2 ^ LENGTH(256)" by simp
  then obtain c s1 where r: "mem_read lib 35840 (default_machine lib) = Some (Inr (c, s1))"
    using rbt.mem_read_succeeds [OF lib_inv default_cells_fit, of 35840] by (auto simp: default_ready)
  obtain c' s' where s': "Inr (c, s1) = (Inr (c', s') :: machine_error + _)"
    and tr: "machine_trace lib s' = machine_trace lib (default_machine lib) @
      read_records lib 35840 (default_machine lib)"
    by (rule rbt.mem_read_inv [OF lib_inv r])
  have "read_records lib 35840 (default_machine lib) =
      [TraceRecord_new 0 0 Read 35840 (dummy_read lib 35840 (default_machine lib))]"
    by (simp add: read_records_def is_zero_def) (simp add: default_machine_def)
  with tr s' have "\<not> reads_initialised {} (machine_trace lib s1)"
    by (simp add: default_ready TraceRecord_new_def)
  moreover have "reachable lib default_config s1"
    by (rule reach_step [OF default_machine_reachable step_read [OF r]])
  ultimately show ?thesis
    using r machine_trace_sorted_check [OF rbt_platform_law] by blast
qed

end
