(* ===== verification/Benes.thy ===== *)
theory Benes
  imports Prelude
begin

text \<open>
  Routing of a Benes network (\<open>zkmemory/src/zincplus/benes.rs\<close>): the stride of each
  layer, the switch settings that realize a permutation and the application of one layer.
  The assertions, the debug assertions among them, are panics; the colours \<open>u8::MAX\<close>,
  0 and 1 are \<open>None\<close>, \<open>Some False\<close> and \<open>Some True\<close>.
\<close>

section \<open>Topology\<close>

definition stride_bit :: "nat \<Rightarrow> nat \<Rightarrow> nat option" where
  "stride_bit v layer = do {
     assert_ok (1 \<le> v);
     assert_ok (layer < 2 * v - 1);
     Some (if layer < v then v - 1 - layer else layer - v + 1) }"

definition num_layers :: "nat \<Rightarrow> nat option" where
  "num_layers v = do { assert_ok (1 \<le> v); Some (2 * v - 1) }"

text \<open>\<open>usize::trailing_zeros\<close> and \<open>usize::is_power_of_two\<close>.\<close>

fun trailing_zeros :: "nat \<Rightarrow> nat" where
  "trailing_zeros n = (if n = 0 then 64 else if odd n then 0 else Suc (trailing_zeros (n div 2)))"

declare trailing_zeros.simps [simp del]

definition is_power_of_two :: "nat \<Rightarrow> bool" where
  "is_power_of_two n \<longleftrightarrow> n \<noteq> 0 \<and> n = 2 ^ trailing_zeros n"

section \<open>Routing\<close>

text \<open>\<open>layers[l][w] = b\<close>.\<close>

definition set_switch :: "nat \<Rightarrow> nat \<Rightarrow> bool \<Rightarrow> bool list list \<Rightarrow> bool list list option" where
  "set_switch l w b layers = do {
     row \<leftarrow> vec_get layers l;
     row \<leftarrow> vec_set row w b;
     vec_set layers l row }"

text \<open>The two mates of an input of a block of \<open>2 * h\<close> wires.\<close>

definition entry_mate :: "nat \<Rightarrow> nat \<Rightarrow> nat \<Rightarrow> nat" where
  "entry_mate h m i = (i + h) mod m"

definition exit_mate :: "nat list \<Rightarrow> nat list \<Rightarrow> nat \<Rightarrow> nat \<Rightarrow> nat \<Rightarrow> nat option" where
  "exit_mate perm ipos h m i = do { j \<leftarrow> vec_get ipos i; vec_get perm ((j + h) mod m) }"

text \<open>
  The walk around one cycle of the constraint graph: it colours \<open>i\<close> with \<open>c\<close>, follows
  the entry or the exit edge, and stops when it is back at \<open>start\<close>.
\<close>

partial_function (option) walk ::
    "nat list \<Rightarrow> nat list \<Rightarrow> nat \<Rightarrow> nat \<Rightarrow> nat \<Rightarrow> nat \<Rightarrow> bool \<Rightarrow> bool \<Rightarrow> bool option list \<Rightarrow>
     bool option list option" where
  "walk perm ipos h m start i c via_entry color = do {
     color \<leftarrow> vec_set color i (Some c);
     next \<leftarrow> (if via_entry then Some (entry_mate h m i) else exit_mate perm ipos h m i);
     if next = start then Some color
     else do {
       x \<leftarrow> vec_get color next;
       assert_ok (x = None);
       walk perm ipos h m start next (\<not> c) (\<not> via_entry) color } }"

definition invert :: "nat list \<Rightarrow> nat list option" where
  "invert perm = loop_m (\<lambda>j ipos. do { i \<leftarrow> vec_get perm j; vec_set ipos i j }) [0..<length perm]
     (replicate (length perm) 0)"

definition colour_inputs :: "nat list \<Rightarrow> nat list \<Rightarrow> bool option list option" where
  "colour_inputs perm ipos = (let m = length perm; h = m div 2 in
     loop_m (\<lambda>start color. do {
       x \<leftarrow> vec_get color start;
       if x \<noteq> None then Some color else walk perm ipos h m start start False True color })
     [0..<m] (replicate m None))"

text \<open>The entry and the exit layer of a block, and the permutations of its two halves.\<close>

definition set_entry ::
    "bool option list \<Rightarrow> nat \<Rightarrow> nat \<Rightarrow> nat \<Rightarrow> bool list list \<Rightarrow> bool list list option" where
  "set_entry color h base layer layers =
     loop_m (\<lambda>a layers. do {
       x \<leftarrow> vec_get color a;
       layers \<leftarrow> set_switch layer (base + a) (x = Some True) layers;
       y \<leftarrow> vec_get color (a + h);
       assert_ok (x \<noteq> y);
       Some layers }) [0..<h] layers"

definition set_exit ::
    "nat list \<Rightarrow> bool option list \<Rightarrow> nat \<Rightarrow> nat \<Rightarrow> nat \<Rightarrow> bool list list \<Rightarrow> bool list list option"
  where
  "set_exit perm color h base layer layers =
     loop_m (\<lambda>j layers. do {
       p \<leftarrow> vec_get perm j;
       x \<leftarrow> vec_get color p;
       layers \<leftarrow> set_switch layer (base + j) (x = Some True) layers;
       q \<leftarrow> vec_get perm (j + h);
       y \<leftarrow> vec_get color q;
       assert_ok (x \<noteq> y);
       Some layers }) [0..<h] layers"

definition sub_perms ::
    "nat list \<Rightarrow> bool option list \<Rightarrow> nat \<Rightarrow> (nat list \<times> nat list) option" where
  "sub_perms perm color h =
     loop_m (\<lambda>j (perm_top, perm_bot). do {
       i0 \<leftarrow> vec_get perm j;
       i1 \<leftarrow> vec_get perm (j + h);
       x \<leftarrow> vec_get color i0;
       let (top_src, bot_src) = (if x = Some False then (i0, i1) else (i1, i0));
       perm_top \<leftarrow> vec_set perm_top j (top_src mod h);
       perm_bot \<leftarrow> vec_set perm_bot j (bot_src mod h);
       Some (perm_top, perm_bot) }) [0..<h] (replicate h 0, replicate h 0)"

lemma loop_m_inv:
  assumes "loop_m f is s = Some s'" "I s" "\<And>i s s'. I s \<Longrightarrow> f i s = Some s' \<Longrightarrow> I s'"
  shows "I s'"
  using assms(1,2)
proof (induction "is" arbitrary: s)
  case (Cons i js)
  then show ?case using assms(3) by (auto simp: bind_eq_Some_conv)
qed simp

lemma sub_perms_length:
  assumes "sub_perms perm color h = Some (p, q)"
  shows "length p = h \<and> length q = h"
proof -
  have "(\<lambda>(p, q). length p = h \<and> length q = h) (p, q)"
    by (rule loop_m_inv [OF assms [unfolded sub_perms_def]])
      (auto simp: bind_eq_Some_conv vec_set_def split: if_splits prod.splits)
  then show ?thesis by simp
qed

function route_block ::
    "nat list \<Rightarrow> nat \<Rightarrow> nat \<Rightarrow> nat \<Rightarrow> bool list list \<Rightarrow> bool list list option" where
  "route_block perm base depth v layers =
     (let m = length perm in do {
       assert_ok (is_power_of_two m \<and> 2 \<le> m);
       if m = 2 then do {
         let middle = v - 1;
         assert_ok (depth = middle);
         p \<leftarrow> vec_get perm 0;
         set_switch middle base (p = 1) layers }
       else do {
         let h = m div 2;
         ipos \<leftarrow> invert perm;
         color \<leftarrow> colour_inputs perm ipos;
         layers \<leftarrow> set_entry color h base depth layers;
         layers \<leftarrow> set_exit perm color h base (2 * v - 2 - depth) layers;
         (perm_top, perm_bot) \<leftarrow> sub_perms perm color h;
         layers \<leftarrow> route_block perm_top base (depth + 1) v layers;
         route_block perm_bot (base + h) (depth + 1) v layers } })"
  by pat_completeness auto

termination
  by (relation "measure (\<lambda>(perm, _). length perm)") (auto dest: sub_perms_length)

declare route_block.simps [simp del]

text \<open>The check that the input is a permutation.\<close>

definition check_permutation :: "nat list \<Rightarrow> bool list option" where
  "check_permutation perm = loop_m (\<lambda>p seen. do {
     assert_ok (p < length perm);
     x \<leftarrow> vec_get seen p;
     assert_ok (\<not> x);
     vec_set seen p True }) perm (replicate (length perm) False)"

definition route :: "nat list \<Rightarrow> bool list list option" where
  "route perm = do {
     let n = length perm;
     assert_ok (2 \<le> n \<and> is_power_of_two n);
     let v = trailing_zeros n;
     seen \<leftarrow> check_permutation perm;
     layers \<leftarrow> num_layers v;
     route_block perm 0 0 v (replicate layers (replicate n False)) }"

section \<open>Applying the switches\<close>

definition swap_at :: "nat \<Rightarrow> nat \<Rightarrow> 'a list \<Rightarrow> 'a list option" where
  "swap_at i j xs =
     (if i < length xs \<and> j < length xs then Some (xs[i := xs ! j, j := xs ! i]) else panic)"

definition apply_layer :: "'a list \<Rightarrow> nat \<Rightarrow> nat \<Rightarrow> bool list \<Rightarrow> 'a list option" where
  "apply_layer state v layer bits = do {
     assert_ok (length state = 2 ^ v);
     assert_ok (length bits = length state);
     k \<leftarrow> stride_bit v layer;
     let stride = 2 ^ k;
     loop_m (\<lambda>i state. if i AND stride = 0 \<and> bits ! i then swap_at i (i + stride) state
       else Some state) [0..<length bits] state }"

text \<open>All layers in order, as the witness builder and \<open>simulate\<close> apply them.\<close>

definition apply_network :: "nat \<Rightarrow> bool list list \<Rightarrow> 'a list \<Rightarrow> 'a list option" where
  "apply_network v layers state =
     loop_m (\<lambda>layer state. do { bits \<leftarrow> vec_get layers layer; apply_layer state v layer bits })
       [0..<length layers] state"

end
