(* ===== verification/Benes_Routing.thy ===== *)
theory Benes_Routing
  imports Benes
begin

text \<open>
  Correctness of the routing: the walks two-colour the constraint graph, the halves of a
  block get permutations, and the network with the computed switches realizes the
  permutation it was routed for.
\<close>

section \<open>Permutations and mates\<close>

definition is_perm :: "nat list \<Rightarrow> bool" where
  "is_perm p \<longleftrightarrow> distinct p \<and> set p = {0..<length p}"

lemma is_perm_nth: "is_perm p \<Longrightarrow> j < length p \<Longrightarrow> p ! j < length p"
  by (metis atLeastLessThan_iff is_perm_def nth_mem)

lemma is_perm_eq_iff: "is_perm p \<Longrightarrow> i < length p \<Longrightarrow> j < length p \<Longrightarrow> p ! i = p ! j \<longleftrightarrow> i = j"
  by (simp add: is_perm_def nth_eq_iff_index_eq)

lemma is_perm_surj:
  assumes "is_perm p" "i < length p"
  obtains j where "j < length p" "p ! j = i"
  using assms by (metis atLeastLessThan_iff in_set_conv_nth is_perm_def zero_le)

lemma is_permI:
  assumes "length p = n" "\<And>j. j < n \<Longrightarrow> p ! j < n"
    and "\<And>i j. i < n \<Longrightarrow> j < n \<Longrightarrow> p ! i = p ! j \<Longrightarrow> i = j"
  shows "is_perm p"
proof -
  have d: "distinct p" using assms by (auto simp: distinct_conv_nth)
  have "set p \<subseteq> {0..<length p}" using assms(1,2) by (auto simp: in_set_conv_nth)
  moreover have "card (set p) = length p" by (rule distinct_card [OF d])
  ultimately have "set p = {0..<length p}" by (intro card_subset_eq) auto
  with d show ?thesis by (simp add: is_perm_def)
qed

lemma invert_ok:
  assumes p: "is_perm p"
  obtains q where "invert p = Some q" "length q = length p" "\<And>j. j < length p \<Longrightarrow> q ! (p ! j) = j"
    "\<And>i. i < length p \<Longrightarrow> q ! i < length p \<and> p ! (q ! i) = i"
proof -
  let ?m = "length p"
  obtain q where q: "invert p = Some q" "length q = ?m \<and> (\<forall>j < ?m. q ! (p ! j) = j)"
  proof (rule loop_m_range [where n = ?m and s = "replicate ?m 0" and
        I = "\<lambda>k q. length q = ?m \<and> (\<forall>j < k. q ! (p ! j) = j)" and
        f = "\<lambda>j ipos. do { i \<leftarrow> vec_get p j; vec_set ipos i j }"])
    fix k q assume k: "k < ?m" "length q = ?m \<and> (\<forall>j < k. q ! (p ! j) = j)"
    then show "\<exists>q'. do { i \<leftarrow> vec_get p k; vec_set q i k } = Some q' \<and>
        length q' = ?m \<and> (\<forall>j < Suc k. q' ! (p ! j) = j)"
      using is_perm_nth [OF p] is_perm_eq_iff [OF p]
      by (auto simp: less_Suc_eq nth_list_update)
  qed (use that in \<open>simp_all add: invert_def\<close>)
  have "q ! i < ?m \<and> p ! (q ! i) = i" if "i < ?m" for i
    using is_perm_surj [OF p that] q(2) by metis
  with q that show thesis by blast
qed

text \<open>An involution without fixed points on the wires of a block.\<close>

definition mate_fun :: "nat \<Rightarrow> (nat \<Rightarrow> nat) \<Rightarrow> bool" where
  "mate_fun m f \<longleftrightarrow> (\<forall>i < m. f i < m \<and> f i \<noteq> i \<and> f (f i) = i)"

lemma mate_fun_half: "0 < h \<Longrightarrow> mate_fun (2 * h) (\<lambda>i. (i + h) mod (2 * h))"
  by (auto simp: mate_fun_def mod_if)

lemma mate_fun_entry: "0 < h \<Longrightarrow> mate_fun (2 * h) (entry_mate h (2 * h))"
  using mate_fun_half [of h] by (simp add: entry_mate_def mate_fun_def)

lemma mate_fun_exit:
  assumes h: "0 < h" and m: "length p = 2 * h" and p: "is_perm p" and q: "length q = 2 * h"
    and pq: "\<And>j. j < 2 * h \<Longrightarrow> q ! (p ! j) = j" and qp: "\<And>i. i < 2 * h \<Longrightarrow> q ! i < 2 * h \<and> p ! (q ! i) = i"
  defines "x \<equiv> \<lambda>i. p ! ((q ! i + h) mod (2 * h))"
  shows "mate_fun (2 * h) x" and "i < 2 * h \<Longrightarrow> exit_mate p q h (2 * h) i = Some (x i)"
    and "j < h \<Longrightarrow> x (p ! j) = p ! (j + h)"
proof -
  note half = mate_fun_half [OF h, unfolded mate_fun_def, rule_format]
  show "mate_fun (2 * h) x"
    unfolding mate_fun_def x_def
  proof (intro allI impI)
    fix i assume i: "i < 2 * h"
    note H = half [of "q ! i"]
    have lt: "(q ! i + h) mod (2 * h) < 2 * h" using h by simp
    have "p ! ((q ! i + h) mod (2 * h)) \<noteq> i"
      using H qp [OF i] is_perm_eq_iff [OF p, of "(q ! i + h) mod (2 * h)" "q ! i"] m by auto
    then show "p ! ((q ! i + h) mod (2 * h)) < 2 * h \<and> p ! ((q ! i + h) mod (2 * h)) \<noteq> i \<and>
        p ! ((q ! (p ! ((q ! i + h) mod (2 * h))) + h) mod (2 * h)) = i"
      using is_perm_nth [OF p] m lt pq [OF lt] H qp [OF i] by simp
  qed
  show "i < 2 * h \<Longrightarrow> exit_mate p q h (2 * h) i = Some (x i)"
    using h m q by (simp add: exit_mate_def x_def)
  show "j < h \<Longrightarrow> x (p ! j) = p ! (j + h)"
    using pq [of j] by (simp add: x_def)
qed

section \<open>Two-colouring\<close>

definition opposite :: "(nat \<Rightarrow> nat) \<Rightarrow> bool option list \<Rightarrow> nat \<Rightarrow> bool" where
  "opposite f col j \<longleftrightarrow> col ! f j = map_option Not (col ! j)"

definition closed :: "nat \<Rightarrow> (nat \<Rightarrow> nat) \<Rightarrow> (nat \<Rightarrow> nat) \<Rightarrow> bool option list \<Rightarrow> bool" where
  "closed m e x col \<longleftrightarrow>
     length col = m \<and> (\<forall>j < m. col ! j \<noteq> None \<longrightarrow> opposite e col j \<and> opposite x col j)"

text \<open>The state of a walk at an input about to be left by its entry, or by its exit edge.\<close>

definition walk_entry ::
    "nat \<Rightarrow> (nat \<Rightarrow> nat) \<Rightarrow> (nat \<Rightarrow> nat) \<Rightarrow> nat \<Rightarrow> nat \<Rightarrow> bool option list \<Rightarrow> bool" where
  "walk_entry m e x start i col \<longleftrightarrow>
     length col = m \<and> i < m \<and> start < m \<and> col ! i = None \<and>
     (\<forall>j < m. col ! j \<noteq> None \<longrightarrow> opposite e col j) \<and>
     (\<forall>j < m. col ! j \<noteq> None \<and> j \<noteq> start \<and> x j \<noteq> i \<longrightarrow> opposite x col j) \<and>
     (if i = start then \<forall>j < m. col ! j \<noteq> None \<longrightarrow> opposite x col j
      else col ! start = Some False \<and> col ! x i = Some True)"

definition walk_exit ::
    "nat \<Rightarrow> (nat \<Rightarrow> nat) \<Rightarrow> (nat \<Rightarrow> nat) \<Rightarrow> nat \<Rightarrow> nat \<Rightarrow> bool option list \<Rightarrow> bool" where
  "walk_exit m e x start i col \<longleftrightarrow>
     length col = m \<and> i < m \<and> start < m \<and> col ! i = None \<and>
     (\<forall>j < m. col ! j \<noteq> None \<and> e j \<noteq> i \<longrightarrow> opposite e col j) \<and> col ! e i = Some False \<and>
     (\<forall>j < m. col ! j \<noteq> None \<and> j \<noteq> start \<longrightarrow> opposite x col j) \<and> col ! start = Some False"

lemma walk_entry_step:
  assumes e: "mate_fun m e" and x: "mate_fun m x" and w: "walk_entry m e x start i col"
  shows "e i \<noteq> start" and "walk_exit m e x start (e i) (col[i := Some False])"
    and "col[i := Some False] ! e i = None"
proof -
  note E = e [unfolded mate_fun_def, rule_format] and X = x [unfolded mate_fun_def, rule_format]
  note W = w [unfolded walk_entry_def]
  have im: "i < m" "start < m" and n: "col ! i = None" "length col = m" using W by simp_all
  have ne: "col ! e i = None"
    using W E [of i] by (auto simp: opposite_def)
  then show "e i \<noteq> start" using W E [of i] by (cases "i = start") auto
  show new: "col[i := Some False] ! e i = None"
    using ne E [OF im(1)] by simp
  have "opposite e (col[i := Some False]) j"
    if "j < m" "col[i := Some False] ! j \<noteq> None" "e j \<noteq> e i" for j
    using that W E [of j] E [of i] n by (auto simp: opposite_def nth_list_update split: if_splits)
  moreover have "opposite x (col[i := Some False]) j"
    if "j < m" "col[i := Some False] ! j \<noteq> None" "j \<noteq> start" for j
    using that W X [of j] X [of i] n by (auto simp: opposite_def nth_list_update split: if_splits)
  ultimately show "walk_exit m e x start (e i) (col[i := Some False])"
    using W E [of i] new by (auto simp: walk_exit_def nth_list_update)
qed

lemma walk_exit_step:
  assumes e: "mate_fun m e" and x: "mate_fun m x" and w: "walk_exit m e x start i col"
  shows "x i = start \<Longrightarrow> closed m e x (col[i := Some True])"
    and "x i \<noteq> start \<Longrightarrow> walk_entry m e x start (x i) (col[i := Some True])"
    and "x i \<noteq> start \<Longrightarrow> col[i := Some True] ! x i = None"
proof -
  note E = e [unfolded mate_fun_def, rule_format] and X = x [unfolded mate_fun_def, rule_format]
  note W = w [unfolded walk_exit_def]
  have im: "i < m" and n: "col ! i = None" "length col = m" using W by simp_all
  have es: "opposite e (col[i := Some True]) j" if "j < m" "col[i := Some True] ! j \<noteq> None" for j
    using that W E [of j] E [of i] n by (auto simp: opposite_def nth_list_update split: if_splits)
  have xs: "opposite x (col[i := Some True]) j"
    if "j < m" "col[i := Some True] ! j \<noteq> None" "j \<noteq> start" "x j \<noteq> x i" for j
    using that W X [of j] X [of i] n by (auto simp: opposite_def nth_list_update split: if_splits)
  show "closed m e x (col[i := Some True])" if "x i = start"
    using that es xs W X [of i] n
    by (auto simp: closed_def) (auto simp: opposite_def nth_list_update split: if_splits)
  assume ns: "x i \<noteq> start"
  show new: "col[i := Some True] ! x i = None"
    using W X [of i] ns n by (auto simp: opposite_def nth_list_update)
  show "walk_entry m e x start (x i) (col[i := Some True])"
    using W es xs ns new X [of i] n by (auto simp: walk_entry_def nth_list_update)
qed

lemma nth_list_update_if: "xs[i := x] ! j = (if i = j \<and> i < length xs then x else xs ! j)"
  by (cases "i < length xs") (simp_all add: nth_list_update list_update_beyond)

lemma walk_ok:
  assumes e: "mate_fun m (entry_mate h m)" and x: "mate_fun m x"
    and ex: "\<And>i. i < m \<Longrightarrow> exit_mate p q h m i = Some (x i)"
  shows "walk_entry m (entry_mate h m) x start i col \<Longrightarrow>
    \<exists>col'. walk p q h m start i False True col = Some col' \<and> closed m (entry_mate h m) x col' \<and>
      (\<forall>j < m. col ! j \<noteq> None \<longrightarrow> col' ! j \<noteq> None) \<and> col' ! i \<noteq> None"
proof (induction "card {j. j < m \<and> col ! j = None}" arbitrary: i col rule: less_induct)
  case less
  let ?e = "entry_mate h m"
  note A = walk_entry_step [OF e x less.prems]
  define col1 where "col1 = col[i := Some False]"
  define col2 where "col2 = col1[?e i := Some True]"
  have B: "walk_exit m ?e x start (?e i) col1" using A(2) by (simp add: col1_def)
  note C = walk_exit_step [OF e x B, folded col2_def]
  have im: "i < m" "length col = m" "col ! i = None" using less.prems by (simp_all add: walk_entry_def)
  have em: "?e i < m" "length col1 = m" "col1 ! ?e i = None" using B by (simp_all add: walk_exit_def)
  have keep: "col ! j \<noteq> None \<Longrightarrow> col2 ! j \<noteq> None" for j
    using im em by (auto simp: col1_def col2_def nth_list_update_if)
  have coli: "col2 ! i \<noteq> None"
    using im em by (auto simp: col1_def col2_def nth_list_update_if)
  have xm: "x (?e i) < m" using x em by (simp add: mate_fun_def)
  have "walk p q h m start i False True col = walk p q h m start (?e i) True False col1"
    using im em A(1) A(3) by (subst walk.simps) (simp add: col1_def)
  also have "\<dots> = (if x (?e i) = start then Some col2
      else walk p q h m start (x (?e i)) False True col2)"
    using em C(3) xm by (subst walk.simps) (simp add: ex col2_def)
  finally have run: "walk p q h m start i False True col = (if x (?e i) = start then Some col2
      else walk p q h m start (x (?e i)) False True col2)" .
  show ?case
  proof (cases "x (?e i) = start")
    case True
    with run C(1) keep coli show ?thesis by simp
  next
    case False
    have "{j. j < m \<and> col2 ! j = None} \<subset> {j. j < m \<and> col ! j = None}"
    proof (rule psubsetI)
      show "{j. j < m \<and> col2 ! j = None} \<subseteq> {j. j < m \<and> col ! j = None}"
        using keep by blast
      have "i \<in> {j. j < m \<and> col ! j = None}" "i \<notin> {j. j < m \<and> col2 ! j = None}"
        using im coli by simp_all
      then show "{j. j < m \<and> col2 ! j = None} \<noteq> {j. j < m \<and> col ! j = None}" by blast
    qed
    then have "card {j. j < m \<and> col2 ! j = None} < card {j. j < m \<and> col ! j = None}"
      by (intro psubset_card_mono) simp_all
    from less.hyps [OF this C(2) [OF False]] obtain col' where
      "walk p q h m start (x (?e i)) False True col2 = Some col'" "closed m ?e x col'"
      and "\<forall>j < m. col2 ! j \<noteq> None \<longrightarrow> col' ! j \<noteq> None" by blast
    with run False keep coli im show ?thesis by auto
  qed
qed

text \<open>All inputs get a colour, and mates get different ones.\<close>

definition proper :: "nat \<Rightarrow> (nat \<Rightarrow> nat) \<Rightarrow> (nat \<Rightarrow> nat) \<Rightarrow> bool option list \<Rightarrow> bool" where
  "proper m e x col \<longleftrightarrow> length col = m \<and>
     (\<forall>j < m. col ! j \<noteq> None \<and> col ! e j = map_option Not (col ! j) \<and>
       col ! x j = map_option Not (col ! j))"

lemma colour_inputs_ok:
  assumes e: "mate_fun m (entry_mate (m div 2) m)" and x: "mate_fun m x" and m: "length p = m"
    and ex: "\<And>i. i < m \<Longrightarrow> exit_mate p q (m div 2) m i = Some (x i)"
  obtains col where "colour_inputs p q = Some col" "proper m (entry_mate (m div 2) m) x col"
proof -
  let ?e = "entry_mate (m div 2) m"
  let ?f = "\<lambda>start color. do {
       y \<leftarrow> vec_get color start;
       if y \<noteq> None then Some color else walk p q (m div 2) m start start False True color }"
  obtain col where col: "loop_m ?f [0..<m] (replicate m None) = Some col"
    "closed m ?e x col \<and> (\<forall>j < m. j < m \<longrightarrow> col ! j \<noteq> None)"
  proof (rule loop_m_range [where n = m and s = "replicate m None" and f = ?f and
        I = "\<lambda>k col. closed m ?e x col \<and> (\<forall>j < m. j < k \<longrightarrow> col ! j \<noteq> None)"])
    fix k col assume k: "k < m" and I: "closed m ?e x col \<and> (\<forall>j < m. j < k \<longrightarrow> col ! j \<noteq> None)"
    then have l: "length col = m" by (simp add: closed_def)
    show "\<exists>col'. ?f k col = Some col' \<and> closed m ?e x col' \<and> (\<forall>j < m. j < Suc k \<longrightarrow> col' ! j \<noteq> None)"
    proof (cases "col ! k = None")
      case True
      have "walk_entry m ?e x k k col"
        using I k True by (simp add: walk_entry_def closed_def)
      from walk_ok [OF e x ex this] I k l True show ?thesis by (auto simp: less_Suc_eq)
    next
      case False
      then show ?thesis using I k l by (auto simp: less_Suc_eq)
    qed
  qed (simp_all add: closed_def)
  show thesis
    by (rule that [of col]) (use col m in \<open>auto simp: colour_inputs_def closed_def proper_def opposite_def\<close>)
qed

section \<open>Writing switch settings\<close>

definition grid :: "nat \<Rightarrow> nat \<Rightarrow> bool list list \<Rightarrow> bool" where
  "grid L n layers \<longleftrightarrow> length layers = L \<and> (\<forall>l < L. length (layers ! l) = n)"

lemma set_switch_ok:
  assumes "grid L n layers" "l < L" "w < n"
  obtains layers' where "set_switch l w b layers = Some layers'" "grid L n layers'"
    and "\<forall>l' w'. layers' ! l' ! w' = (if l' = l \<and> w' = w then b else layers ! l' ! w')"
proof -
  have len: "length layers = L" "length (layers ! l) = n" using assms by (simp_all add: grid_def)
  show thesis
    by (rule that [of "layers[l := (layers ! l)[w := b]]"])
      (use assms len in \<open>auto simp: set_switch_def grid_def nth_list_update_if\<close>)
qed

lemma set_switches_ok:
  assumes g: "grid L n layers" and l: "l < L" and b: "base + h \<le> n"
    and f: "\<And>a layers. a < h \<Longrightarrow> f a layers =
      do { layers \<leftarrow> set_switch l (base + a) (bs a) layers; Some layers }"
  obtains layers' where "loop_m f [0..<h] layers = Some layers'" "grid L n layers'"
    and "\<forall>l' w. layers' ! l' ! w =
      (if l' = l \<and> base \<le> w \<and> w < base + h then bs (w - base) else layers ! l' ! w)"
proof -
  obtain layers' where "loop_m f [0..<h] layers = Some layers'" and
    "grid L n layers' \<and> (\<forall>l' w. layers' ! l' ! w =
      (if l' = l \<and> base \<le> w \<and> w < base + h then bs (w - base) else layers ! l' ! w))"
  proof (rule loop_m_range [where n = h and s = layers and f = f and I = "\<lambda>k layers'.
      grid L n layers' \<and> (\<forall>l' w. layers' ! l' ! w =
        (if l' = l \<and> base \<le> w \<and> w < base + k then bs (w - base) else layers ! l' ! w))"])
    fix k layers1
    assume k: "k < h" and I: "grid L n layers1 \<and> (\<forall>l' w. layers1 ! l' ! w =
        (if l' = l \<and> base \<le> w \<and> w < base + k then bs (w - base) else layers ! l' ! w))"
    have w: "base + k < n" using k b by simp
    obtain layers2 where s: "set_switch l (base + k) (bs k) layers1 = Some layers2" "grid L n layers2"
      and e: "\<forall>l' w'. layers2 ! l' ! w' = (if l' = l \<and> w' = base + k then bs k else layers1 ! l' ! w')"
      by (rule set_switch_ok [OF conjunct1 [OF I] l w, of "bs k"])
    have "layers2 ! l' ! w' =
        (if l' = l \<and> base \<le> w' \<and> w' < base + Suc k then bs (w' - base) else layers ! l' ! w')" for l' w'
      using I by (auto simp: e)
    with s f [OF k, of layers1] show "\<exists>s'. f k layers1 = Some s' \<and> grid L n s' \<and> (\<forall>l' w. s' ! l' ! w =
        (if l' = l \<and> base \<le> w \<and> w < base + Suc k then bs (w - base) else layers ! l' ! w))"
      by auto
  qed (use g in auto)
  then show thesis by (intro that) auto
qed

lemma set_entry_ok:
  assumes g: "grid L n layers" and l: "l < L" and b: "base + h \<le> n"
    and c: "length col = 2 * h" "\<And>a. a < h \<Longrightarrow> col ! a \<noteq> col ! (a + h)"
  obtains layers' where "set_entry col h base l layers = Some layers'" "grid L n layers'"
    and "\<forall>l' w. layers' ! l' ! w =
      (if l' = l \<and> base \<le> w \<and> w < base + h then col ! (w - base) = Some True else layers ! l' ! w)"
proof -
  let ?f = "\<lambda>a layers. do {
       x \<leftarrow> vec_get col a;
       layers \<leftarrow> set_switch l (base + a) (x = Some True) layers;
       y \<leftarrow> vec_get col (a + h);
       assert_ok (x \<noteq> y);
       Some layers }"
  obtain layers' where "loop_m ?f [0..<h] layers = Some layers'" "grid L n layers'"
    and "\<forall>l' w. layers' ! l' ! w =
      (if l' = l \<and> base \<le> w \<and> w < base + h then col ! (w - base) = Some True else layers ! l' ! w)"
    by (rule set_switches_ok [OF g l b, where bs = "\<lambda>a. col ! a = Some True" and f = ?f])
      (use c in auto)
  then show thesis by (rule that [unfolded set_entry_def])
qed

lemma set_exit_ok:
  assumes g: "grid L n layers" and l: "l < L" and b: "base + h \<le> n"
    and p: "length p = 2 * h" "is_perm p"
    and c: "length col = 2 * h" "\<And>j. j < h \<Longrightarrow> col ! (p ! j) \<noteq> col ! (p ! (j + h))"
  obtains layers' where "set_exit p col h base l layers = Some layers'" "grid L n layers'"
    and "\<forall>l' w. layers' ! l' ! w =
      (if l' = l \<and> base \<le> w \<and> w < base + h then col ! (p ! (w - base)) = Some True
       else layers ! l' ! w)"
proof -
  have lt: "p ! j < 2 * h" if "j < 2 * h" for j using is_perm_nth [OF p(2)] p(1) that by simp
  let ?f = "\<lambda>j layers. do {
       i \<leftarrow> vec_get p j;
       x \<leftarrow> vec_get col i;
       layers \<leftarrow> set_switch l (base + j) (x = Some True) layers;
       q \<leftarrow> vec_get p (j + h);
       y \<leftarrow> vec_get col q;
       assert_ok (x \<noteq> y);
       Some layers }"
  obtain layers' where "loop_m ?f [0..<h] layers = Some layers'" "grid L n layers'"
    and "\<forall>l' w. layers' ! l' ! w =
      (if l' = l \<and> base \<le> w \<and> w < base + h then col ! (p ! (w - base)) = Some True
       else layers ! l' ! w)"
    by (rule set_switches_ok [OF g l b, where bs = "\<lambda>j. col ! (p ! j) = Some True" and f = ?f])
      (use p c lt in auto)
  then show thesis by (rule that [unfolded set_exit_def])
qed

section \<open>The halves of a block\<close>

definition pick :: "nat list \<Rightarrow> bool option list \<Rightarrow> nat \<Rightarrow> bool \<Rightarrow> nat \<Rightarrow> nat" where
  "pick p col h c j = (if col ! (p ! j) = Some c then p ! j else p ! (j + h))"

lemma sub_perms_ok:
  assumes p: "length p = 2 * h" "is_perm p" and c: "length col = 2 * h"
    and two: "\<And>i. i < 2 * h \<Longrightarrow> col ! i \<noteq> None"
    and mates: "\<And>j. j < h \<Longrightarrow> col ! (p ! (j + h)) = map_option Not (col ! (p ! j))"
  obtains pt pb where "sub_perms p col h = Some (pt, pb)" "length pt = h" "length pb = h"
    and "\<forall>j < h. pt ! j = pick p col h False j mod h"
    and "\<forall>j < h. pb ! j = pick p col h True j mod h"
proof -
  have lt: "p ! j < 2 * h" if "j < 2 * h" for j using is_perm_nth [OF p(2)] p(1) that by simp
  let ?I = "\<lambda>k (pt, pb). length pt = h \<and> length pb = h \<and>
      (\<forall>j < k. pt ! j = pick p col h False j mod h \<and> pb ! j = pick p col h True j mod h)"
  obtain s where "sub_perms p col h = Some s" "?I h s"
    unfolding sub_perms_def
  proof (rule loop_m_range [where n = h and s = "(replicate h 0, replicate h 0)" and I = ?I])
    fix k s assume k: "k < h" and I: "?I k s"
    obtain pt pb where s: "s = (pt, pb)" by (cases s)
    have lts: "p ! k < 2 * h" "p ! (k + h) < 2 * h" using lt k by simp_all
    have cases: "col ! (p ! k) = Some True \<or> col ! (p ! k) = Some False"
      using two [OF lts(1)] by auto
    show "\<exists>s'. (case s of (perm_top, perm_bot) \<Rightarrow> do {
       i0 \<leftarrow> vec_get p k;
       i1 \<leftarrow> vec_get p (k + h);
       x \<leftarrow> vec_get col i0;
       let (top_src, bot_src) = (if x = Some False then (i0, i1) else (i1, i0));
       perm_top \<leftarrow> vec_set perm_top k (top_src mod h);
       perm_bot \<leftarrow> vec_set perm_bot k (bot_src mod h);
       Some (perm_top, perm_bot) }) = Some s' \<and> ?I (Suc k) s'"
      using I k p c lts cases mates [OF k]
      by (auto simp: s less_Suc_eq nth_list_update_if pick_def)
  qed auto
  with that show thesis by (cases s) auto
qed

lemma pick_facts:
  assumes p: "length p = 2 * h" "is_perm p"
    and two: "\<And>i. i < 2 * h \<Longrightarrow> col ! i \<noteq> None"
    and mates: "\<And>j. j < h \<Longrightarrow> col ! (p ! (j + h)) = map_option Not (col ! (p ! j))"
    and j: "j < h"
  shows "pick p col h c j < 2 * h" and "col ! pick p col h c j = Some c"
proof -
  have lt: "p ! j < 2 * h" if "j < 2 * h" for j using is_perm_nth [OF p(2)] p(1) that by simp
  then show "pick p col h c j < 2 * h" using j by (simp add: pick_def)
  show "col ! pick p col h c j = Some c"
    using two [OF lt, of j] mates [OF j] j by (auto simp: pick_def)
qed

lemma sub_perm_is_perm:
  assumes h: "0 < h" and p: "length p = 2 * h" "is_perm p"
    and two: "\<And>i. i < 2 * h \<Longrightarrow> col ! i \<noteq> None"
    and entry: "\<And>a. a < h \<Longrightarrow> col ! (a + h) = map_option Not (col ! a)"
    and mates: "\<And>j. j < h \<Longrightarrow> col ! (p ! (j + h)) = map_option Not (col ! (p ! j))"
    and q: "length q = h" "\<And>j. j < h \<Longrightarrow> q ! j = pick p col h c j mod h"
  shows "is_perm q"
proof (rule is_permI [OF q(1)])
  have pick_lt: "pick p col h c j < 2 * h" and pick_col: "col ! pick p col h c j = Some c"
    if "j < h" for j
    using pick_facts [OF p two mates that] by simp_all
  have same: "i = j" if "i < 2 * h" "j < 2 * h" "i mod h = j mod h" "col ! i = col ! j" for i j
  proof -
    have m: "k mod h = (if k < h then k else k - h)" if "k < 2 * h" for k
      using that by (simp add: le_mod_geq)
    have ne: "col ! (a + h) \<noteq> col ! a" if "a < h" for a
      using entry [OF that] two [of a] that by (cases "col ! a") auto
    have "i = j \<or> i = j + h \<and> j < h \<or> j = i + h \<and> i < h"
      using that(1-3) m [OF that(1)] m [OF that(2)] by (auto split: if_splits)
    then show ?thesis using that(4) ne [of i] ne [of j] by metis
  qed
  show "q ! j < h" if "j < h" for j using h that by (simp add: q(2))
  show "i = j" if "i < h" "j < h" "q ! i = q ! j" for i j
  proof -
    have "pick p col h c i = pick p col h c j"
    proof (rule same [OF pick_lt [OF that(1)] pick_lt [OF that(2)]])
      show "pick p col h c i mod h = pick p col h c j mod h"
        using that(3) unfolding q(2) [OF that(1)] q(2) [OF that(2)] .
    qed (simp only: pick_col [OF that(1)] pick_col [OF that(2)])
    then have "p ! i = p ! j \<or> p ! i = p ! (j + h) \<or> p ! (i + h) = p ! j \<or> p ! (i + h) = p ! (j + h)"
      unfolding pick_def by presburger
    moreover have "p ! i = p ! j \<longleftrightarrow> i = j" "p ! i = p ! (j + h) \<longleftrightarrow> i = j + h"
      "p ! (i + h) = p ! j \<longleftrightarrow> i + h = j" "p ! (i + h) = p ! (j + h) \<longleftrightarrow> i = j"
      using that(1,2) by (simp_all add: is_perm_eq_iff [OF p(2)] p(1))
    ultimately have "i = j \<or> i = j + h \<or> i + h = j" by blast
    then show ?thesis using that(1,2) by auto
  qed
qed

section \<open>The network as a function\<close>

text \<open>
  A state as a function of the wire; \<open>b\<close> holds the switches of the layer, read at the
  upper wire of each pair, whose bit \<open>k\<close> is clear.
\<close>

definition act :: "nat \<Rightarrow> (nat \<Rightarrow> bool) \<Rightarrow> (nat \<Rightarrow> 'a) \<Rightarrow> nat \<Rightarrow> 'a" where
  "act k b st w = (if b (unset_bit k w) then st (flip_bit k w) else st w)"

definition stride :: "nat \<Rightarrow> nat \<Rightarrow> nat" where
  "stride v layer = (if layer < v then v - 1 - layer else layer - v + 1)"

fun run_layers :: "nat \<Rightarrow> (nat \<Rightarrow> nat \<Rightarrow> bool) \<Rightarrow> nat \<Rightarrow> nat \<Rightarrow> (nat \<Rightarrow> 'a) \<Rightarrow> nat \<Rightarrow> 'a" where
  "run_layers v B l 0 st = st"
| "run_layers v B l (Suc n) st = run_layers v B (Suc l) n (act (stride v l) (B l) st)"

lemma run_layers_snoc:
  "run_layers v B l (Suc n) st = act (stride v (l + n)) (B (l + n)) (run_layers v B l n st)"
  by (induction n arbitrary: l st) simp_all

lemma stride_bit_Some: "1 \<le> v \<Longrightarrow> l < 2 * v - 1 \<Longrightarrow> stride_bit v l = Some (stride v l)"
  by (simp add: stride_bit_def stride_def)

lemma stride_less: "1 \<le> v \<Longrightarrow> l < 2 * v - 1 \<Longrightarrow> stride v l < v"
  by (auto simp: stride_def)

lemma block_bits:
  fixes a h base k :: nat
  assumes h: "h = 2 ^ k" and b: "2 * h dvd base" and a: "a < h"
  shows "\<not> bit (base + a) k" "bit (base + a + h) k"
    and "unset_bit k (base + a) = base + a" "flip_bit k (base + a) = base + a + h"
    and "unset_bit k (base + a + h) = base + a" "flip_bit k (base + a + h) = base + a"
proof -
  obtain c where c: "base = 2 * h * c" using b by blast
  have eq: "base + a = a + 2 * c * h" "base + a + h = a + (2 * c + 1) * h" by (simp_all add: c)
  have "(base + a) div h = 2 * c" unfolding eq using a by simp
  then show nb: "\<not> bit (base + a) k" by (simp add: bit_iff_odd h)
  have "(base + a + h) div h = 2 * c + 1" unfolding eq(2) using a by (simp only: div_mult_self1) simp
  then show bb: "bit (base + a + h) k" by (simp add: bit_iff_odd h)
  have set: "base + a + h = set_bit k (base + a)" using nb by (simp add: set_bit_eq h)
  show low: "unset_bit k (base + a) = base + a" using nb by (auto intro!: bit_eqI simp: bit_simps)
  have "unset_bit k (set_bit k (base + a)) = unset_bit k (base + a)"
    and "flip_bit k (set_bit k (base + a)) = unset_bit k (base + a)"
    and "flip_bit k (base + a) = set_bit k (base + a)"
    using nb by (auto intro!: bit_eqI simp: bit_simps)
  then show "unset_bit k (base + a + h) = base + a" "flip_bit k (base + a + h) = base + a"
    "flip_bit k (base + a) = base + a + h"
    by (simp_all only: set low)
qed

text \<open>One layer on a block whose halves are its switch pairs.\<close>

lemma act_block:
  fixes a h base k :: nat
  assumes h: "h = 2 ^ k" and b: "2 * h dvd base" and a: "a < h"
  shows "act k s st (base + a) = (if s (base + a) then st (base + a + h) else st (base + a))"
    and "act k s st (base + a + h) = (if s (base + a) then st (base + a) else st (base + a + h))"
  by (simp_all add: act_def block_bits [OF assms])

definition realizes :: "nat \<Rightarrow> (nat \<Rightarrow> nat \<Rightarrow> bool) \<Rightarrow> nat \<Rightarrow> nat \<Rightarrow> nat list \<Rightarrow> 'a itself \<Rightarrow> bool" where
  "realizes v B d base p _ \<longleftrightarrow>
     (\<forall>(st :: nat \<Rightarrow> 'a) j. j < length p \<longrightarrow>
        run_layers v B d (2 * (v - d) - 1) st (base + j) = st (base + p ! j))"

text \<open>A block around its two halves.\<close>

lemma realizes_block:
  fixes h base k d v :: nat
  assumes h: "h = 2 ^ k" and k: "k = v - 1 - d" and d: "Suc d < v" and b: "2 * h dvd base"
    and p: "length p = 2 * h" "is_perm p"
    and two: "\<And>i. i < 2 * h \<Longrightarrow> col ! i \<noteq> None"
    and entry: "\<And>a. a < h \<Longrightarrow> col ! (a + h) = map_option Not (col ! a)"
    and mates: "\<And>j. j < h \<Longrightarrow> col ! (p ! (j + h)) = map_option Not (col ! (p ! j))"
    and pt: "length pt = h" "\<And>j. j < h \<Longrightarrow> pt ! j = pick p col h False j mod h"
    and pb: "length pb = h" "\<And>j. j < h \<Longrightarrow> pb ! j = pick p col h True j mod h"
    and B1: "\<And>a. a < h \<Longrightarrow> B d (base + a) \<longleftrightarrow> col ! a = Some True"
    and B2: "\<And>j. j < h \<Longrightarrow> B (2 * v - 2 - d) (base + j) \<longleftrightarrow> col ! (p ! j) = Some True"
    and R1: "realizes v B (Suc d) base pt TYPE('a)"
    and R2: "realizes v B (Suc d) (base + h) pb TYPE('a)"
  shows "realizes v B d base p TYPE('a)"
  unfolding realizes_def
proof (intro allI impI)
  fix st :: "nat \<Rightarrow> 'a" and j assume j: "j < length p"
  define s1 where "s1 = act k (B d) st"
  define s2 where "s2 = run_layers v B (Suc d) (2 * (v - Suc d) - 1) s1"
  have n: "2 * (v - d) - 1 = Suc (Suc (2 * (v - Suc d) - 1))" using d by simp
  have st: "stride v d = k" "stride v (2 * v - 2 - d) = k" using d k by (auto simp: stride_def)
  have ex: "Suc d + (2 * (v - Suc d) - 1) = 2 * v - 2 - d" using d by simp
  have "run_layers v B d (2 * (v - d) - 1) st = run_layers v B (Suc d) (Suc (2 * (v - Suc d) - 1)) s1"
    by (simp only: n run_layers.simps(2) st s1_def)
  also have "\<dots> = act k (B (2 * v - 2 - d)) s2"
    by (simp only: run_layers_snoc ex st s2_def)
  finally have run: "run_layers v B d (2 * (v - d) - 1) st = act k (B (2 * v - 2 - d)) s2" .
  have pf: "pick p col h c j < 2 * h" "col ! pick p col h c j = Some c" if "j < h" for c j
    using pick_facts [OF p two mates that] by simp_all
  have low: "s1 (base + i mod h) = st (base + i)" if "i < 2 * h" "col ! i = Some False" for i
  proof (cases "i < h")
    case True
    then show ?thesis using that B1 [of i] by (simp add: s1_def act_block [OF h b])
  next
    case False
    define a where "a = i - h"
    have i: "i = a + h" "a < h" using False that(1) by (simp_all add: a_def)
    then have "col ! a = Some True" using entry [of a] two [of a] that(2) by auto
    then show ?thesis using i B1 [of a] by (simp add: s1_def act_block [OF h b] add.assoc [symmetric])
  qed
  have high: "s1 (base + h + i mod h) = st (base + i)" if "i < 2 * h" "col ! i = Some True" for i
  proof (cases "i < h")
    case True
    then show ?thesis using that B1 [of i] act_block(2) [OF h b True, of "B d" st]
      by (simp add: s1_def ac_simps)
  next
    case False
    define a where "a = i - h"
    have i: "i = a + h" "a < h" using False that(1) by (simp_all add: a_def)
    then have "col ! a = Some False" using entry [of a] two [of a] that(2) by auto
    then show ?thesis using i B1 [of a] act_block(2) [OF h b i(2), of "B d" st]
      by (simp add: s1_def ac_simps)
  qed
  have top: "s2 (base + a) = st (base + pick p col h False a)" if "a < h" for a
    using R1 that pt low [OF pf [OF that]] by (simp add: realizes_def s2_def)
  have bot: "s2 (base + a + h) = st (base + pick p col h True a)" if "a < h" for a
  proof -
    have "s2 (base + h + a) = s1 (base + h + pb ! a)" using R2 that pb(1) by (simp add: realizes_def s2_def)
    then show ?thesis using that pb(2) high [OF pf [OF that]] by (simp add: ac_simps)
  qed
  show "run_layers v B d (2 * (v - d) - 1) st (base + j) = st (base + p ! j)"
  proof (cases "j < h")
    case True
    have "col ! (p ! j) = Some True \<or> col ! (p ! j) = Some False"
      using two [of "p ! j"] is_perm_nth [OF p(2) j] p(1) by auto
    then show ?thesis
      unfolding run using act_block(1) [OF h b True, of "B (2 * v - 2 - d)" s2] B2 [OF True] top [OF True] bot [OF True]
      by (auto simp: pick_def)
  next
    case False
    define a where "a = j - h"
    have a: "j = a + h" "a < h" using False j p(1) by (simp_all add: a_def)
    have "p ! a < 2 * h" using is_perm_nth [OF p(2), of a] p(1) a by simp
    then have "col ! (p ! a) = Some True \<or> col ! (p ! a) = Some False" using two [of "p ! a"] by auto
    then show ?thesis
      unfolding run using act_block(2) [OF h b a(2), of "B (2 * v - 2 - d)" s2] B2 [OF a(2)] top [OF a(2)] bot [OF a(2)] a(1)
      by (auto simp: pick_def add.assoc [symmetric])
  qed
qed

section \<open>Routing a block\<close>

lemma trailing_zeros_power [simp]: "trailing_zeros (2 ^ k) = k"
proof (induction k)
  case 0
  show ?case by (subst trailing_zeros.simps) simp
next
  case (Suc k)
  then show ?case by (subst trailing_zeros.simps) simp
qed

lemma is_power_of_two_power [simp]: "is_power_of_two (2 ^ k)"
  by (simp add: is_power_of_two_def)

lemma is_power_of_two_iff: "is_power_of_two n \<longleftrightarrow> (\<exists>k. n = 2 ^ k)"
  by (metis is_power_of_two_def is_power_of_two_power)

definition region :: "nat \<Rightarrow> nat \<Rightarrow> nat \<Rightarrow> nat \<Rightarrow> nat \<Rightarrow> nat \<Rightarrow> bool" where
  "region v d base m l w \<longleftrightarrow> d \<le> l \<and> l \<le> 2 * v - 2 - d \<and> base \<le> w \<and> w < base + m"

text \<open>
  What routing a block leaves: only switches of its region changed, only upper wires were
  set, and any switches that agree there realize its permutation.
\<close>

definition routed ::
    "nat \<Rightarrow> nat \<Rightarrow> nat \<Rightarrow> nat list \<Rightarrow> bool list list \<Rightarrow> bool list list \<Rightarrow> 'a itself \<Rightarrow> bool" where
  "routed v d base p layers layers' T \<longleftrightarrow>
     grid (2 * v - 1) (2 ^ v) layers' \<and>
     (\<forall>l w. \<not> region v d base (length p) l w \<longrightarrow> layers' ! l ! w = layers ! l ! w) \<and>
     (\<forall>l w. layers' ! l ! w \<longrightarrow> layers ! l ! w \<or> \<not> bit w (stride v l)) \<and>
     (\<forall>B. (\<forall>l w. region v d base (length p) l w \<longrightarrow> B l w = layers' ! l ! w) \<longrightarrow>
        realizes v B d base p T)"

lemma route_block_ok:
  assumes "v = d + Suc r" "length p = 2 ^ Suc r" "is_perm p" "2 ^ Suc r dvd base"
    and "base + 2 ^ Suc r \<le> 2 ^ v" "grid (2 * v - 1) (2 ^ v) layers"
  shows "\<exists>layers'. route_block p base d v layers = Some layers' \<and>
    routed v d base p layers layers' TYPE('a)"
  using assms
proof (induction r arbitrary: d p base layers)
  case 0
  have g: "grid (2 * v - 1) (2 ^ v) layers" and v: "v = Suc d" and lp: "length p = 2" using 0 by simp_all
  have l: "d < 2 * v - 1" and w: "base < 2 ^ v" using 0 by simp_all
  obtain layers' where s: "set_switch d base (p ! 0 = 1) layers = Some layers'" "grid (2 * v - 1) (2 ^ v) layers'"
    and e: "\<forall>l' w'. layers' ! l' ! w' = (if l' = d \<and> w' = base then p ! 0 = 1 else layers ! l' ! w')"
    by (rule set_switch_ok [OF g l w, of "p ! 0 = 1"])
  have p: "p ! 0 < 2" "p ! 1 < 2" "p ! 0 \<noteq> p ! 1"
    using is_perm_nth [OF 0(3), of 0] is_perm_nth [OF 0(3), of 1] is_perm_eq_iff [OF 0(3), of 0 1] lp
    by simp_all
  have st: "stride v d = 0" by (simp add: v stride_def)
  have b: "2 * 1 dvd base" using 0 by simp
  note bb = block_bits [of 1 0, OF _ b, of 0, simplified]
  have run: "route_block p base d v layers = Some layers'"
    using s lp by (simp add: route_block.simps v is_power_of_two_power [of 1, simplified])
  moreover have "realizes v B d base p TYPE('a)"
    if B: "\<forall>l w. region v d base (length p) l w \<longrightarrow> B l w = layers' ! l ! w" for B
  proof -
    have "B d base = (p ! 0 = 1)" using B e lp by (simp add: region_def v)
    moreover have "act 0 (B d) f base = (if B d base then f (Suc base) else f base)"
      "act 0 (B d) f (Suc base) = (if B d base then f base else f (Suc base))" for f :: "nat \<Rightarrow> 'a"
      using act_block [of 1 0, OF _ b, of 0 "B d" f] by simp_all
    ultimately show ?thesis
      using p lp by (auto simp: realizes_def v st [unfolded v] less_2_cases_iff)
  qed
  ultimately show ?case
    using s e bb lp by (auto simp: routed_def region_def v st [unfolded v] split: if_splits)
next
  case (Suc r)
  define h where "h = (2 :: nat) ^ Suc r"
  have v: "v = d + Suc (Suc r)" and h0: "0 < h" and lp: "length p = 2 * h" and pp: "is_perm p"
    and b: "2 * h dvd base" and top: "base + 2 * h \<le> 2 ^ v" and g: "grid (2 * v - 1) (2 ^ v) layers"
    using Suc.prems by (simp_all add: h_def)
  obtain q where q: "invert p = Some q" and lq: "length q = length p"
    and qp: "\<And>j. j < length p \<Longrightarrow> q ! (p ! j) = j" "\<And>i. i < length p \<Longrightarrow> q ! i < length p \<and> p ! (q ! i) = i"
    using invert_ok [OF pp] by blast
  define x where "x = (\<lambda>i. p ! ((q ! i + h) mod (2 * h)))"
  have X1: "mate_fun (2 * h) x"
    unfolding x_def by (rule mate_fun_exit(1) [OF h0 lp pp]) (use lq lp qp in auto)
  have X2: "exit_mate p q h (2 * h) i = Some (x i)" if "i < 2 * h" for i
    unfolding x_def by (rule mate_fun_exit(2) [OF h0 lp pp]) (use that lq lp qp in auto)
  have X3: "x (p ! j) = p ! (j + h)" if "j < h" for j
    unfolding x_def by (rule mate_fun_exit(3) [OF h0 lp pp]) (use that lq lp qp in auto)
  have half: "2 * h div 2 = h" by simp
  obtain col where col: "colour_inputs p q = Some col" "proper (2 * h) (entry_mate h (2 * h)) x col"
    using colour_inputs_ok [of "2 * h" x p q, unfolded half, OF mate_fun_entry [OF h0] X1 lp X2] by blast
  have lc: "length col = 2 * h" and two: "\<And>i. i < 2 * h \<Longrightarrow> col ! i \<noteq> None"
    using col(2) by (simp_all add: proper_def)
  have entry: "col ! (a + h) = map_option Not (col ! a)" if "a < h" for a
  proof -
    have "a < 2 * h" "entry_mate h (2 * h) a = a + h" using that by (simp_all add: entry_mate_def)
    then show ?thesis using col(2) by (metis proper_def)
  qed
  have mates: "col ! (p ! (j + h)) = map_option Not (col ! (p ! j))" if "j < h" for j
  proof -
    have "p ! j < 2 * h" using is_perm_nth [OF pp, of j] that lp by simp
    then show ?thesis using col(2) X3 [OF that] by (metis proper_def)
  qed
  have ne: "col ! a \<noteq> map_option Not (col ! a)" if "a < 2 * h" for a using two [OF that] by auto
  obtain layers1 where l1: "set_entry col h base d layers = Some layers1" "grid (2 * v - 1) (2 ^ v) layers1"
    and e1: "\<forall>l w. layers1 ! l ! w =
      (if l = d \<and> base \<le> w \<and> w < base + h then col ! (w - base) = Some True else layers ! l ! w)"
    by (rule set_entry_ok [OF g _ _ lc, of d base]) (use entry ne top v in auto)
  obtain layers2 where l2: "set_exit p col h base (2 * v - 2 - d) layers1 = Some layers2"
      "grid (2 * v - 1) (2 ^ v) layers2"
    and e2: "\<forall>l w. layers2 ! l ! w = (if l = 2 * v - 2 - d \<and> base \<le> w \<and> w < base + h
      then col ! (p ! (w - base)) = Some True else layers1 ! l ! w)"
    by (rule set_exit_ok [OF l1(2) _ _ lp pp lc, of "2 * v - 2 - d" base])
      (use mates ne is_perm_nth [OF pp] lp top v in auto)
  obtain pt pb where sub: "sub_perms p col h = Some (pt, pb)" and ls: "length pt = h" "length pb = h"
    and pt: "\<forall>j < h. pt ! j = pick p col h False j mod h" and pb: "\<forall>j < h. pb ! j = pick p col h True j mod h"
    by (rule sub_perms_ok [OF lp pp lc two mates]) auto
  have pt': "\<And>j. j < h \<Longrightarrow> pt ! j = pick p col h False j mod h" using pt by simp
  have pb': "\<And>j. j < h \<Longrightarrow> pb ! j = pick p col h True j mod h" using pb by simp
  have perms: "is_perm pt" "is_perm pb"
    using sub_perm_is_perm [OF h0 lp pp two entry mates ls(1) pt']
      sub_perm_is_perm [OF h0 lp pp two entry mates ls(2) pb'] by simp_all
  have dvd: "2 ^ Suc r dvd base" "2 ^ Suc r dvd base + h" using b by (auto simp: h_def)
  have hv: "base + 2 ^ Suc r \<le> 2 ^ v" "base + h + 2 ^ Suc r \<le> 2 ^ v" using top by (simp_all add: h_def)
  obtain layers3 where l3: "route_block pt base (Suc d) v layers2 = Some layers3"
    and r3: "routed v (Suc d) base pt layers2 layers3 TYPE('a)"
    using Suc.IH [of "Suc d" pt base layers2] v ls perms dvd hv l2(2) by (auto simp: h_def)
  have g3: "grid (2 * v - 1) (2 ^ v) layers3" using r3 by (simp add: routed_def)
  obtain layers4 where l4: "route_block pb (base + h) (Suc d) v layers3 = Some layers4"
    and r4: "routed v (Suc d) (base + h) pb layers3 layers4 TYPE('a)"
    using Suc.IH [of "Suc d" pb "base + h" layers3] v ls perms dvd hv g3 by (auto simp: h_def)
  have "length p \<noteq> 2" "is_power_of_two (length p)" "2 \<le> length p" "length p div 2 = h"
    using lp is_power_of_two_power [of "Suc (Suc r)"] by (simp_all add: h_def)
  then have "route_block p base d v layers = Some layers4"
    by (simp add: route_block.simps [of p] Let_def q col(1) l1(1) l2(1) [simplified] sub l3 l4)
  moreover have "routed v d base p layers layers4 TYPE('a)"
    unfolding routed_def
  proof (intro conjI allI impI)
    have e3: "\<not> region v (Suc d) base h l w \<Longrightarrow> layers3 ! l ! w = layers2 ! l ! w" for l w
      using r3 ls(1) by (simp add: routed_def)
    have e4: "\<not> region v (Suc d) (base + h) h l w \<Longrightarrow> layers4 ! l ! w = layers3 ! l ! w" for l w
      using r4 ls(2) by (simp add: routed_def)
    show "grid (2 * v - 1) (2 ^ v) layers4" using r4 by (simp add: routed_def)
    show "layers4 ! l ! w = layers ! l ! w" if "\<not> region v d base (length p) l w" for l w
    proof -
      have "\<not> region v (Suc d) base h l w" "\<not> region v (Suc d) (base + h) h l w"
        using that lp v by (auto simp: region_def)
      moreover have "layers2 ! l ! w = layers ! l ! w"
        using that lp v by (auto simp: region_def e1 e2)
      ultimately show ?thesis by (simp add: e3 e4)
    qed
    have kd: "h = 2 ^ (v - 1 - d)" using v by (simp add: h_def)
    have st: "stride v d = v - 1 - d" "stride v (2 * v - 2 - d) = v - 1 - d"
      using v by (auto simp: stride_def)
    have upper: "\<not> bit w (v - 1 - d)" if "base \<le> w" "w < base + h" for w
      using block_bits(1) [OF kd b, of "w - base"] that by simp
    show "layers ! l ! w \<or> \<not> bit w (stride v l)" if "layers4 ! l ! w" for l w
    proof -
      have "layers3 ! l ! w \<or> \<not> bit w (stride v l)" using that r4 by (simp add: routed_def)
      then have "layers2 ! l ! w \<or> \<not> bit w (stride v l)" using r3 by (auto simp: routed_def)
      then show ?thesis using upper [of w] st by (auto simp: e1 e2 split: if_splits)
    qed
    fix B assume B: "\<forall>l w. region v d base (length p) l w \<longrightarrow> B l w = layers4 ! l ! w"
    show "realizes v B d base p TYPE('a)"
    proof (rule realizes_block [OF kd refl _ b lp pp two entry mates ls(1) pt' ls(2) pb'])
      show "B d (base + a) \<longleftrightarrow> col ! a = Some True" if "a < h" for a
        using that B v lp by (simp add: region_def e3 e4 e2 e1)
      show "B (2 * v - 2 - d) (base + j) \<longleftrightarrow> col ! (p ! j) = Some True" if "j < h" for j
        using that B v lp by (simp add: region_def e3 e4 e2)
      show "realizes v B (Suc d) base pt TYPE('a)"
        using r3 B v lp ls(1) by (auto simp: routed_def region_def e4)
      show "realizes v B (Suc d) (base + h) pb TYPE('a)"
        using r4 B v lp ls(2) by (auto simp: routed_def region_def)
    qed (use v in simp_all)
  qed
  ultimately show ?case by blast
qed

section \<open>Applying the layers\<close>

lemma unset_bit_eq_iff:
  assumes "\<not> bit (i :: nat) k"
  shows "unset_bit k w = i \<longleftrightarrow> w = i \<or> w = i + 2 ^ k"
proof -
  have set: "i + 2 ^ k = set_bit k i" using assms by (simp add: set_bit_eq)
  have "unset_bit k i = i" "unset_bit k (set_bit k i) = i"
    using assms by (auto intro!: bit_eqI simp: bit_simps)
  moreover have "w = unset_bit k w \<or> w = set_bit k (unset_bit k w)"
  proof (cases "bit w k")
    case True
    then have "w = set_bit k (unset_bit k w)" by (auto intro!: bit_eqI simp: bit_simps)
    then show ?thesis ..
  next
    case False
    then have "w = unset_bit k w" by (auto intro!: bit_eqI simp: bit_simps)
    then show ?thesis ..
  qed
  ultimately show ?thesis unfolding set by metis
qed

lemma partner_bit: "\<not> bit (i :: nat) k \<Longrightarrow> bit (i + 2 ^ k) k"
proof -
  assume "\<not> bit i k"
  then have "i + 2 ^ k = set_bit k i" by (simp add: set_bit_eq)
  then show ?thesis by (simp add: bit_simps)
qed

lemma partner_bits:
  assumes "\<not> bit (i :: nat) k"
  shows "flip_bit k i = i + 2 ^ k" "flip_bit k (i + 2 ^ k) = i"
    and "unset_bit k i = i" "unset_bit k (i + 2 ^ k) = i"
proof -
  have set: "i + 2 ^ k = set_bit k i" using assms by (simp add: set_bit_eq)
  show "flip_bit k i = i + 2 ^ k" "unset_bit k i = i" "flip_bit k (i + 2 ^ k) = i"
    "unset_bit k (i + 2 ^ k) = i"
    unfolding set using assms by (auto intro!: bit_eqI simp: bit_simps)
qed

lemma partner_less:
  assumes "\<not> bit (i :: nat) k" "i < 2 ^ v" "k < v"
  shows "i + 2 ^ k < 2 ^ v"
proof -
  have "i + 2 ^ k = set_bit k i" using assms(1) by (simp add: set_bit_eq)
  moreover have "take_bit v (set_bit k i) = set_bit k i"
  proof (intro bit_eqI)
    fix n
    have "bit i n \<Longrightarrow> n < v" using assms(2) by (metis bit_take_bit_iff take_bit_nat_eq_self)
    then show "bit (take_bit v (set_bit k i)) n \<longleftrightarrow> bit (set_bit k i) n"
      using assms(3) by (auto simp: bit_simps)
  qed
  ultimately show ?thesis by (metis take_bit_nat_eq_self_iff)
qed

lemma apply_layer_ok:
  assumes v: "1 \<le> v" and l: "l < 2 * v - 1" and xs: "length xs = 2 ^ v" and bs: "length bits = 2 ^ v"
  obtains ys where "apply_layer xs v l bits = Some ys" "length ys = 2 ^ v"
    and "\<forall>w < 2 ^ v. ys ! w = act (stride v l) ((!) bits) ((!) xs) w"
proof -
  define k where "k = stride v l"
  have kv: "k < v" using stride_less [OF v l] by (simp add: k_def)
  let ?f = "\<lambda>i state. if i AND 2 ^ k = 0 \<and> bits ! i then swap_at i (i + 2 ^ k) state else Some state"
  let ?I = "\<lambda>i ys. length ys = 2 ^ v \<and>
    (\<forall>w < 2 ^ v. ys ! w = (if unset_bit k w < i then act k ((!) bits) ((!) xs) w else xs ! w))"
  obtain ys where ys: "loop_m ?f [0..<2 ^ v] xs = Some ys" "?I (2 ^ v) ys"
  proof (rule loop_m_range [where I = ?I and n = "2 ^ v" and f = ?f and s = xs])
    fix i ys assume i: "i < 2 ^ v" and I: "?I i ys"
    show "\<exists>ys'. ?f i ys = Some ys' \<and> ?I (Suc i) ys'"
    proof (cases "i AND 2 ^ k = 0")
      case True
      then have nb: "\<not> bit i k" by (simp add: and_exp_eq_0_iff_not_bit)
      note P = partner_less [OF nb i kv] and U = unset_bit_eq_iff [OF nb]
      have u: "unset_bit k i = i" "unset_bit k (i + 2 ^ k) = i" using U by simp_all
      have f: "flip_bit k i = i + 2 ^ k" "flip_bit k (i + 2 ^ k) = i"
        using nb u by (simp_all add: flip_bit_eq_if set_bit_eq bit_double_iff) (simp add: partner_bit)
      show ?thesis
      proof (cases "bits ! i")
        case b: True
        have "(ys[i := ys ! (i + 2 ^ k), i + 2 ^ k := ys ! i]) ! w =
            (if unset_bit k w < Suc i then act k ((!) bits) ((!) xs) w else xs ! w)" if w: "w < 2 ^ v" for w
          using I w i P b u f U [of w] by (auto simp: nth_list_update_if act_def less_Suc_eq)
        then show ?thesis using True b I i P by (simp add: swap_at_def)
      next
        case b: False
        have "ys ! w = (if unset_bit k w < Suc i then act k ((!) bits) ((!) xs) w else xs ! w)"
          if w: "w < 2 ^ v" for w
          using I w b U [of w] u by (auto simp: act_def less_Suc_eq)
        then show ?thesis using b I by simp
      qed
    next
      case False
      then have "bit i k" by (simp add: and_exp_eq_0_iff_not_bit)
      then have "unset_bit k w \<noteq> i" for w by (auto simp: bit_simps)
      then show ?thesis using I False by (auto simp: less_Suc_eq)
    qed
  qed (use xs in simp_all)
  have "unset_bit k w < 2 ^ v" if "w < 2 ^ v" for w :: nat
    using unset_bit_eq_iff [of "unset_bit k w" k w] that by (auto simp: bit_simps)
  then show thesis
    using ys by (intro that [of ys]) (simp_all add: apply_layer_def xs bs stride_bit_Some [OF v l] Let_def flip: k_def)
qed

lemma act_cong:
  assumes "\<And>w. w < 2 ^ v \<Longrightarrow> f w = g w" "k < v" "w < 2 ^ v"
  shows "act k b f w = act k b g w"
proof -
  have "flip_bit k w < 2 ^ v"
  proof (cases "bit w k")
    case True
    then have "flip_bit k w = unset_bit k w" by (simp add: flip_bit_eq_if)
    then show ?thesis
      using unset_bit_eq_iff [of "unset_bit k w" k w] assms(3) by (auto simp: bit_simps)
  next
    case False
    then show ?thesis using partner_less [OF False assms(3,2)] by (simp add: flip_bit_eq_if set_bit_eq)
  qed
  with assms show ?thesis by (simp add: act_def)
qed

lemma apply_layers_ok:
  assumes v: "1 \<le> v" and g: "grid (2 * v - 1) (2 ^ v) layers" and xs: "length xs = 2 ^ v"
  obtains ys where "apply_network v layers xs = Some ys" "length ys = 2 ^ v"
    and "\<forall>w < 2 ^ v. ys ! w = run_layers v (\<lambda>l w. layers ! l ! w) 0 (2 * v - 1) ((!) xs) w"
proof -
  let ?B = "\<lambda>l w. layers ! l ! w"
  let ?I = "\<lambda>n ys. length ys = 2 ^ v \<and> (\<forall>w < 2 ^ v. ys ! w = run_layers v ?B 0 n ((!) xs) w)"
  let ?f = "\<lambda>layer state. do { bits \<leftarrow> vec_get layers layer; apply_layer state v layer bits }"
  have len: "length layers = 2 * v - 1" using g by (simp add: grid_def)
  obtain ys where ys: "loop_m ?f [0..<2 * v - 1] xs = Some ys" "?I (2 * v - 1) ys"
  proof (rule loop_m_range [where I = ?I and n = "2 * v - 1" and f = ?f and s = xs])
    fix l ys assume l: "l < 2 * v - 1" and I: "?I l ys"
    have "length (layers ! l) = 2 ^ v" using g l by (simp add: grid_def)
    from apply_layer_ok [OF v l _ this, of ys] I obtain zs where
      z: "apply_layer ys v l (layers ! l) = Some zs" "length zs = 2 ^ v"
      and e: "\<forall>w < 2 ^ v. zs ! w = act (stride v l) (?B l) ((!) ys) w" by blast
    have "zs ! w = run_layers v ?B 0 (Suc l) ((!) xs) w" if "w < 2 ^ v" for w
    proof -
      have "act (stride v l) (?B l) ((!) ys) w = act (stride v l) (?B l) (run_layers v ?B 0 l ((!) xs)) w"
        by (rule act_cong [OF _ stride_less [OF v l] that]) (use I in simp)
      with e that show ?thesis unfolding run_layers_snoc by simp
    qed
    with z show "\<exists>ys'. ?f l ys = Some ys' \<and> ?I (Suc l) ys'"
      using l len by (auto simp del: run_layers.simps)
  qed (use xs in simp_all)
  then show thesis by (intro that [of ys]) (simp_all add: apply_network_def len)
qed

section \<open>The whole network\<close>

lemma check_permutation_iff:
  "check_permutation p \<noteq> None \<longleftrightarrow> is_perm p"
proof -
  let ?f = "\<lambda>q seen. do { assert_ok (q < length p); x \<leftarrow> vec_get seen q; assert_ok (\<not> x); vec_set seen q True }"
  have "loop_m ?f xs seen \<noteq> None \<longleftrightarrow> distinct xs \<and> (\<forall>x \<in> set xs. x < length p \<and> \<not> seen ! x)"
    if "length seen = length p" for xs seen
    using that
  proof (induction xs arbitrary: seen)
    case (Cons x xs)
    show ?case
    proof (cases "x < length p \<and> \<not> seen ! x")
      case True
      then have "loop_m ?f (x # xs) seen = loop_m ?f xs (seen[x := True])" using Cons.prems by simp
      then show ?thesis using Cons.IH [of "seen[x := True]"] Cons.prems True
        by (auto simp: nth_list_update_if split: if_splits)
    next
      case False
      then have "loop_m ?f (x # xs) seen = None" using Cons.prems by (auto simp: assert_ok_def)
      with False show ?thesis by auto
    qed
  qed simp
  from this [of "replicate (length p) False" p]
  have "check_permutation p \<noteq> None \<longleftrightarrow> distinct p \<and> (\<forall>x \<in> set p. x < length p)"
    by (auto simp: check_permutation_def)
  also have "\<dots> \<longleftrightarrow> is_perm p"
  proof
    assume d: "distinct p \<and> (\<forall>x \<in> set p. x < length p)"
    then have "set p \<subseteq> {0..<length p}" "card (set p) = length p" by (auto simp: distinct_card)
    then have "set p = {0..<length p}" by (intro card_subset_eq) auto
    with d show "is_perm p" by (simp add: is_perm_def)
  qed (auto simp: is_perm_def)
  finally show ?thesis .
qed

lemma route_ok:
  assumes "is_perm p" "length p = 2 ^ v" "1 \<le> v"
  obtains layers where "route p = Some layers" "grid (2 * v - 1) (2 ^ v) layers"
    and "\<forall>l w. layers ! l ! w \<longrightarrow> l < 2 * v - 1 \<and> w < 2 ^ v \<longrightarrow> \<not> bit w (stride v l)"
    and "\<forall>xs :: 'a list. length xs = 2 ^ v \<longrightarrow>
      apply_network v layers xs = Some (map (\<lambda>j. xs ! (p ! j)) [0..<2 ^ v])"
proof -
  let ?L = "replicate (2 * v - 1) (replicate (2 ^ v) False)"
  have g: "grid (2 * v - 1) (2 ^ v) ?L" by (simp add: grid_def)
  obtain r where r: "v = Suc r" using assms(3) by (cases v) auto
  obtain layers where run: "route_block p 0 0 v ?L = Some layers" and R: "routed v 0 0 p ?L layers TYPE('a)"
    using route_block_ok [of v 0 r p 0 ?L] assms g r by auto
  have "(2 :: nat) ^ 1 \<le> 2 ^ v" using assms(3) by (intro power_increasing) simp_all
  moreover obtain seen where "check_permutation p = Some seen"
    using check_permutation_iff [of p] assms(1) by auto
  ultimately have "route p = Some layers"
    using run assms by (simp add: route_def num_layers_def)
  moreover have gl: "grid (2 * v - 1) (2 ^ v) layers" using R by (simp add: routed_def)
  moreover have "\<forall>l w. layers ! l ! w \<longrightarrow> l < 2 * v - 1 \<and> w < 2 ^ v \<longrightarrow> \<not> bit w (stride v l)"
  proof (intro allI impI)
    fix l w assume "layers ! l ! w" "l < 2 * v - 1 \<and> w < 2 ^ v"
    moreover have "?L ! l ! w \<or> \<not> bit w (stride v l)"
      using R calculation(1) unfolding routed_def by blast
    ultimately show "\<not> bit w (stride v l)" by simp
  qed
  moreover have "apply_network v layers xs = Some (map (\<lambda>j. xs ! (p ! j)) [0..<2 ^ v])"
    if xs: "length xs = 2 ^ v" for xs :: "'a list"
  proof -
    obtain ys where ys: "apply_network v layers xs = Some ys" "length ys = 2 ^ v"
      and e: "\<forall>w < 2 ^ v. ys ! w = run_layers v (\<lambda>l w. layers ! l ! w) 0 (2 * v - 1) ((!) xs) w"
      by (rule apply_layers_ok [OF assms(3) gl xs])
    have "realizes v (\<lambda>l w. layers ! l ! w) 0 0 p TYPE('a)" using R by (simp add: routed_def)
    then have "ys ! j = xs ! (p ! j)" if "j < 2 ^ v" for j
      using e that assms(2) by (simp add: realizes_def)
    with ys show ?thesis by (auto intro: nth_equalityI)
  qed
  ultimately show thesis by (intro that) auto
qed

lemma apply_layer_mset:
  assumes "apply_layer xs v l bits = Some ys"
  shows "mset ys = mset xs"
proof -
  obtain k where "loop_m (\<lambda>i state. if i AND 2 ^ k = 0 \<and> bits ! i then swap_at i (i + 2 ^ k) state
      else Some state) [0..<length bits] xs = Some ys"
    using assms by (auto simp: apply_layer_def bind_eq_Some_conv Let_def)
  then show ?thesis
    by (rule loop_m_inv [where I = "\<lambda>ys. mset ys = mset xs"])
      (auto simp: swap_at_def mset_swap split: if_splits)
qed

section \<open>Properties\<close>

text \<open>
  C14: routing a permutation of \<open>2 ^ v\<close> wires returns: no walk loops, no assertion fails.
  The \<open>2 v - 1\<close> layers have switches set at upper wires only, and applying them to any
  vector gives at position \<open>j\<close> the input \<open>p ! j\<close>.
\<close>

theorem route_realizes_permutation:
  assumes "distinct p" "set p = {0..<2 ^ v}" "1 \<le> v"
  shows "\<exists>layers. route p = Some layers \<and> length layers = 2 * v - 1 \<and>
    (\<forall>l w. layers ! l ! w \<longrightarrow> l < 2 * v - 1 \<and> w < 2 ^ v \<longrightarrow> \<not> bit w (stride v l)) \<and>
    (\<forall>xs :: 'a list. length xs = 2 ^ v \<longrightarrow>
      apply_network v layers xs = Some (map (\<lambda>j. xs ! (p ! j)) [0..<2 ^ v]))"
proof -
  have l: "length p = 2 ^ v" using assms distinct_card [of p] by simp
  with assms have "is_perm p" by (simp add: is_perm_def)
  then obtain layers where "route p = Some layers" and g: "grid (2 * v - 1) (2 ^ v) layers"
    and "\<forall>l w. layers ! l ! w \<longrightarrow> l < 2 * v - 1 \<and> w < 2 ^ v \<longrightarrow> \<not> bit w (stride v l)"
    and "\<forall>xs :: 'a list. length xs = 2 ^ v \<longrightarrow>
      apply_network v layers xs = Some (map (\<lambda>j. xs ! (p ! j)) [0..<2 ^ v])"
    by (rule route_ok [OF _ l assms(3)])
  then show ?thesis unfolding grid_def by blast
qed

theorem route_realizes_permutation_witness:
  "\<exists>layers. route [2, 0, 3, 1] = Some layers \<and>
     apply_network 2 layers ''abcd'' = Some ''cadb''"
proof -
  have "set [2, 0, 3, 1] = {0..<2 ^ 2 :: nat}" by auto
  from route_realizes_permutation [OF _ this, where 'a = char] obtain layers where
    "route [2, 0, 3, 1] = Some layers" and
    "\<forall>xs :: string. length xs = 2 ^ 2 \<longrightarrow>
      apply_network 2 layers xs = Some (map (\<lambda>j. xs ! ([2, 0, 3, 1] ! j)) [0..<2 ^ 2])"
    by auto
  moreover have "map (\<lambda>j. ''abcd'' ! ([2, 0, 3, 1] ! j)) [0..<2 ^ 2 :: nat] = ''cadb''"
    by (simp add: upt_rec)
  ultimately show ?thesis by auto
qed

text \<open>
  Routing panics exactly on a vector that is not a permutation of \<open>0\<close> to
  \<open>2 ^ v - 1\<close> for some \<open>v \<ge> 1\<close>.
\<close>

theorem route_panics_iff:
  "route p = None \<longleftrightarrow> \<not> (\<exists>v \<ge> 1. distinct p \<and> set p = {0..<2 ^ v})"
proof
  assume none: "route p = None"
  show "\<not> (\<exists>v \<ge> 1. distinct p \<and> set p = {0..<2 ^ v})"
  proof (intro notI, elim exE conjE)
    fix v assume v: "1 \<le> (v :: nat)" and p: "distinct p" "set p = {0..<2 ^ v}"
    then have l: "length p = 2 ^ v" using distinct_card [of p] by simp
    have "is_perm p" using p l by (simp add: is_perm_def)
    then obtain layers where "route p = Some layers" by (rule route_ok [OF _ l v])
    with none show False by simp
  qed
next
  assume no: "\<not> (\<exists>v \<ge> 1. distinct p \<and> set p = {0..<2 ^ v})"
  show "route p = None"
  proof (rule ccontr)
    assume "route p \<noteq> None"
    then obtain layers where "route p = Some layers" by blast
    then have "2 \<le> length p" and p2: "is_power_of_two (length p)" and c: "check_permutation p \<noteq> None"
      by (auto simp: route_def bind_eq_Some_conv Let_def)
    from p2 obtain v where "length p = 2 ^ v" by (auto simp: is_power_of_two_iff)
    moreover have "is_perm p" using c by (simp only: check_permutation_iff)
    ultimately have v: "length p = 2 ^ v" "is_perm p" by simp_all
    with \<open>2 \<le> length p\<close> have "v \<noteq> 0" by (intro notI) simp
    then have "1 \<le> v" by simp
    with v no show False by (auto simp: is_perm_def)
  qed
qed

text \<open>
  Whatever the switch bits, a layer returns a rearrangement of its input: the routing
  is not part of the soundness argument.
\<close>

theorem apply_layer_permutes:
  assumes "apply_layer xs v l bits = Some ys"
  shows "mset ys = mset xs"
  by (rule apply_layer_mset [OF assms])

theorem apply_layer_permutes_witness:
  "apply_layer ''abcd'' 2 0 [True, True, True, False] = Some ''cdab'' \<and>
   mset ''cdab'' = mset ''abcd''"
proof -
  have "apply_layer ''abcd'' 2 0 [True, True, True, False] = Some ''cdab''"
    by code_simp
  from this apply_layer_permutes [OF this] show ?thesis by blast
qed

end
