(* ===== verification/Plonk_Gadgets.thy ===== *)
theory Plonk_Gadgets
  imports Trace_Consistency Complex_Main
begin

text \<open>
  The gadgets of the Halo2 circuits (\<open>zkmemory/src/constraints/gadgets.rs\<close>) and the field
  conversions they use (\<open>zkmemory/src/commitment/extends.rs\<close>). A column is read at a row:
  an expression is its value in the field, a gate is an expression that must be zero and a
  lookup a value that must lie in a table. The field is a parameter: any type of class
  \<open>field\<close> whose characteristic is large where a lemma needs it.
\<close>

section \<open>Constraints of a row\<close>

datatype 'f check = Gate 'f | Lookup nat 'f

text \<open>\<open>Table::<N>::load\<close> and \<open>Table::range_check\<close>: the table holds \<open>0\<close> to \<open>N - 1\<close>.\<close>

definition table_rows :: "nat \<Rightarrow> 'f::field list" where
  "table_rows N = map of_nat [0..<N]"

fun passes :: "'f::field check \<Rightarrow> bool" where
  "passes (Gate e) = (e = 0)"
| "passes (Lookup N x) = (x \<in> set (table_rows N))"

section \<open>Conversions to a field\<close>

text \<open>\<open>F::from(u64)\<close> is the image of the number.\<close>

definition field_from_u64 :: "u64 \<Rightarrow> 'f::field" where
  "field_from_u64 x = of_nat (unat x)"

text \<open>
  \<open>Fp::from_raw\<close> reads its four limbs least significant first; the conversion passes
  them most significant first.
\<close>

definition fp_from_raw :: "u64 list \<Rightarrow> 'f::field" where
  "fp_from_raw limbs = of_nat (undigits_be (2 ^ 64) (map unat (rev limbs)))"

definition fp_from :: "'a::len word \<Rightarrow> 'f::field" where
  "fp_from value =
     (let bytes = fixed_be_bytes value in
      fp_from_raw (map (\<lambda>i. from_be_bytes (take 8 (drop (i * 8) bytes))) [0..<4]))"

text \<open>\<open>Fr::from_bytes\<close> rejects numbers from the modulus on, and the conversion panics then.\<close>

definition fr_from :: "nat \<Rightarrow> 'a::len word \<Rightarrow> 'f::field option" where
  "fr_from modulus value =
     (let n = undigits_be 256 (map unat (rev (fixed_le_bytes value))) in
      if n < modulus then Some (of_nat n) else panic)"

section \<open>Zero test\<close>

text \<open>\<open>IsZeroConfig::configure\<close>.\<close>

definition is_zero_gates :: "'f::field \<Rightarrow> 'f \<Rightarrow> 'f \<Rightarrow> 'f \<Rightarrow> 'f check list" where
  "is_zero_gates selector val temp temp_inv =
     [Gate (selector * (temp * temp_inv - 1)),
      Gate (selector * (temp * val * (1 - temp * val)))]"

section \<open>Binary numbers\<close>

fun bits_from_low :: "nat \<Rightarrow> nat \<Rightarrow> nat list" where
  "bits_from_low 0 value = []"
| "bits_from_low (Suc n) value = value mod 2 # bits_from_low n (value div 2)"

definition as_bits :: "nat \<Rightarrow> nat \<Rightarrow> nat list" where
  "as_bits N value = rev (bits_from_low N value)"

definition binary_gates :: "'f::field \<Rightarrow> 'f list \<Rightarrow> 'f check list" where
  "binary_gates selector bits = map (\<lambda>bit. Gate (selector * bit * (1 - bit))) bits"

definition binary_assign :: "nat \<Rightarrow> nat \<Rightarrow> 'f::field list" where
  "binary_assign N value = map of_nat (as_bits N value)"

definition equal_value :: "'f::field list \<Rightarrow> nat \<Rightarrow> 'f" where
  "equal_value lhs rhs =
     foldl (\<lambda>acc (r, l). acc * (1 - (l - of_nat r) * (l - of_nat r))) 1
       (zip (as_bits (length lhs) rhs) lhs)"

section \<open>Trace records\<close>

text \<open>
  One row of a \<open>TraceRecordWitnessTable\<close>, which is what \<open>Queries::new\<close> reads and what a
  \<open>ConvertedTraceRecord\<close> holds.
\<close>

record 'f cells =
  address_limbs :: "'f list"
  time_limbs :: "'f list"
  instruction_cell :: 'f
  value_limbs :: "'f list"

definition converted :: "(256 word, 256 word) trace_record \<Rightarrow> 'f::field cells" where
  "converted r =
     \<lparr>address_limbs = map (\<lambda>b. field_from_u64 (ucast b)) (fixed_be_bytes (tr_address r)),
      time_limbs = map (\<lambda>b. field_from_u64 (ucast b)) (to_be_bytes (tr_time_log r)),
      instruction_cell = (case tr_instruction r of Write \<Rightarrow> 1 | Read \<Rightarrow> 0),
      value_limbs = map (\<lambda>b. field_from_u64 (ucast b)) (fixed_be_bytes (tr_value r))\<rparr>"

definition be_limbs :: "'f cells \<Rightarrow> bool \<Rightarrow> 'f list" where
  "be_limbs q address_included =
     (if \<not> address_included then time_limbs q else address_limbs q @ time_limbs q)"

section \<open>Comparison of limbs\<close>

record 'f greater_than =
  difference :: 'f
  difference_inverse :: 'f
  first_difference_limb :: "'f list"

text \<open>The random linear combinations of the differences before each limb.\<close>

fun rlc_loop :: "('f::field \<times> 'f) list \<Rightarrow> 'f list \<Rightarrow> 'f \<Rightarrow> 'f list" where
  "rlc_loop ((c, p) # limbs) (alpha # alphas) acc =
     acc # rlc_loop limbs alphas (acc + alpha * (c - p))"
| "rlc_loop limbs alphas acc = []"

definition rlc_limb_differences ::
    "'f::field cells \<Rightarrow> 'f cells \<Rightarrow> 'f list \<Rightarrow> bool \<Rightarrow> 'f list" where
  "rlc_limb_differences cur prev alpha_power address_included =
     rlc_loop (zip (be_limbs cur address_included) (be_limbs prev address_included)) alpha_power 0"

definition bits_value :: "'f::field list \<Rightarrow> 'f" where
  "bits_value bits = foldl (\<lambda>result bit. bit + result * 2) 0 bits"

text \<open>\<open>GreaterThanConfig::configure\<close>, gates first, then lookups.\<close>

definition greater_than_checks ::
    "'f::field list \<Rightarrow> bool \<Rightarrow> 'f \<Rightarrow> 'f cells \<Rightarrow> 'f cells \<Rightarrow> 'f greater_than \<Rightarrow> 'f check list" where
  "greater_than_checks alpha_power address_included selector cur prev g =
     binary_gates selector (first_difference_limb g)
     @ [Gate (selector * (difference g * difference_inverse g - 1))]
     @ map (\<lambda>(i, rlc). Gate (selector * rlc * equal_value (first_difference_limb g) i))
         (zip [0..<40] (rlc_limb_differences cur prev alpha_power address_included))
     @ map (\<lambda>(i, c, p). Gate (selector * equal_value (first_difference_limb g) i *
           (difference g - c + p)))
         (zip [0..<40] (zip (be_limbs cur address_included) (be_limbs prev address_included)))
     @ (if address_included then [Lookup 40 (bits_value (first_difference_limb g))] else [])
     @ [Lookup 256 (difference g)]"

text \<open>
  The witness of a comparison: the first limb that differs, \<open>limit\<close> when none does; the
  inverse of a zero difference panics.
\<close>

definition greater_than_assign ::
    "nat \<Rightarrow> nat \<Rightarrow> 'f::field list \<Rightarrow> 'f list \<Rightarrow> 'f greater_than option" where
  "greater_than_assign N limit cur prev =
     (let (index, c, p) = (case find (\<lambda>(i, a, b). a \<noteq> b) (zip [0..<limit] (zip cur prev)) of
        Some x \<Rightarrow> x | None \<Rightarrow> (limit, 0, 0)) in
      if c - p = 0 then panic
      else Some \<lparr>difference = c - p, difference_inverse = inverse (c - p),
        first_difference_limb = binary_assign N index\<rparr>)"

text \<open>The powers \<open>1, \<alpha>, \<dots>, \<alpha> ^ n\<close>.\<close>

definition alpha_powers :: "'f::field \<Rightarrow> nat \<Rightarrow> 'f list" where
  "alpha_powers alpha n = map (\<lambda>i. alpha ^ i) [0..<Suc n]"

section \<open>Rows\<close>

text \<open>
  A region of assigned rows between unassigned ones, whose cells are zero: the constraints
  are evaluated at every row, with the row before it.
\<close>

definition rows_satisfied :: "('r \<Rightarrow> 'r \<Rightarrow> 'f::field check list) \<Rightarrow> 'r \<Rightarrow> 'r list \<Rightarrow> bool" where
  "rows_satisfied checks blank rows =
     list_all (\<lambda>(prev, cur). list_all passes (checks cur prev))
       (zip (blank # rows @ [blank]) (rows @ [blank, blank]))"

definition blank_cells :: "'f::field cells" where
  "blank_cells = \<lparr>address_limbs = replicate 32 0, time_limbs = replicate 8 0, instruction_cell = 0,
     value_limbs = replicate 32 0\<rparr>"

definition blank_greater_than :: "nat \<Rightarrow> 'f::field greater_than" where
  "blank_greater_than N = \<lparr>difference = 0, difference_inverse = 0, first_difference_limb = replicate N 0\<rparr>"

end
