(* ===== verification/Gadget_Facts.thy ===== *)
theory Gadget_Facts
  imports Plonk_Gadgets
begin

text \<open>
  What the gadgets compare: in a field in which small numbers stay apart, the constraints of
  the comparison hold for a row exactly when the limbs increase in lexicographic order, for
  the witness the circuits assign; for any witness they imply it, if the challenge separates
  the rows.
\<close>

section \<open>Small numbers in the field\<close>

definition wide_field :: "'f::field itself \<Rightarrow> nat \<Rightarrow> bool" where
  "wide_field T n \<longleftrightarrow> (\<forall>k. 0 < k \<and> k < n \<longrightarrow> (of_nat k :: 'f) \<noteq> 0)"

lemma wide_field_mono: "wide_field T n \<Longrightarrow> m \<le> n \<Longrightarrow> wide_field T m"
  by (simp add: wide_field_def)

lemma wide_field_rat: "wide_field TYPE(rat) n"
  by (simp add: wide_field_def)

lemma of_nat_small_eq:
  assumes "wide_field TYPE('f::field) n" "a < n" "b < n"
  shows "(of_nat a :: 'f) = of_nat b \<longleftrightarrow> a = b"
proof
  assume eq: "(of_nat a :: 'f) = of_nat b"
  show "a = b"
  proof (rule ccontr)
    assume "a \<noteq> b"
    define d where "d = max a b - min a b"
    have d: "0 < d" "d < n" "max a b = min a b + d"
      using assms(2,3) \<open>a \<noteq> b\<close> by (auto simp: d_def max_def min_def)
    have "(of_nat (max a b) :: 'f) = of_nat (min a b)" using eq by (auto simp: max_def min_def)
    then have "(of_nat d :: 'f) = 0" unfolding d(3) by simp
    with d(1,2) assms(1) show False by (simp add: wide_field_def)
  qed
qed simp

lemma lookup_difference:
  assumes "wide_field TYPE('f::field) (2 * n)" "c < n" "p < n"
  shows "passes (Lookup n (of_nat c - of_nat p :: 'f)) \<longleftrightarrow> p \<le> c"
proof
  assume "passes (Lookup n (of_nat c - of_nat p :: 'f))"
  then obtain d where d: "d < n" "(of_nat c - of_nat p :: 'f) = of_nat d" by (auto simp: table_rows_def)
  then have "(of_nat c :: 'f) = of_nat (p + d)" by (simp add: algebra_simps)
  then have "c = p + d" using of_nat_small_eq [OF assms(1), of c "p + d"] assms(2,3) d(1) by simp
  then show "p \<le> c" by simp
next
  assume le: "p \<le> c"
  then have "(of_nat c - of_nat p :: 'f) = of_nat (c - p)" by simp
  then show "passes (Lookup n (of_nat c - of_nat p :: 'f))"
    using assms(2) by (auto simp: table_rows_def)
qed

lemma lookup_small: "x < n \<Longrightarrow> passes (Lookup n (of_nat x))"
  by (auto simp: table_rows_def)

section \<open>Bits\<close>

lemma length_bits_from_low [simp]: "length (bits_from_low n v) = n"
  by (induction n arbitrary: v) simp_all

lemma length_as_bits [simp]: "length (as_bits N v) = N"
  by (simp add: as_bits_def)

lemma bits_from_low_less: "b \<in> set (bits_from_low n v) \<Longrightarrow> b < 2"
  by (induction n arbitrary: v) auto

lemma as_bits_less: "b \<in> set (as_bits N v) \<Longrightarrow> b < 2"
  by (simp add: as_bits_def bits_from_low_less)

lemma undigits_bits: "undigits_be 2 (rev (bits_from_low n v)) = v mod 2 ^ n"
proof (induction n arbitrary: v)
  case (Suc n)
  have "v div 2 mod 2 ^ n * 2 + v mod 2 = v mod 2 ^ Suc n"
    by (simp add: mod_mult2_eq mult.commute)
  then show ?case by (simp add: Suc)
qed simp

lemma undigits_as_bits: "undigits_be 2 (as_bits N v) = v mod 2 ^ N"
  by (simp add: as_bits_def undigits_bits)

lemma as_bits_eq_iff:
  assumes "length bs = N" "\<forall>b \<in> set bs. b < 2" "v < 2 ^ N"
  shows "bs = as_bits N v \<longleftrightarrow> undigits_be 2 bs = v"
  using undigits_be_inj [of bs "as_bits N v" 2] assms undigits_as_bits [of N v] by (auto dest: as_bits_less)

lemma foldl_equal:
  assumes "length bs = length rs" "\<forall>b \<in> set bs. b < 2" "\<forall>r \<in> set rs. r < 2"
  shows "foldl (\<lambda>acc (r, l). acc * (1 - (l - of_nat r) * (l - of_nat r))) (x :: 'f::field)
    (zip rs (map of_nat bs)) = (if bs = rs then x else 0)"
  using assms
proof (induction bs rs arbitrary: x rule: list_induct2)
  case (Cons b bs r rs)
  have "(1 - (of_nat b - of_nat r) * (of_nat b - of_nat r) :: 'f) = of_bool (b = r)"
    using Cons.prems by (auto simp: less_2_cases_iff)
  with Cons show ?case by auto
qed simp

lemma equal_value_bits:
  assumes "\<forall>b \<in> set bs. b < 2" "i < 2 ^ length bs"
  shows "equal_value (map of_nat bs) i = (of_bool (undigits_be 2 bs = i) :: 'f::field)"
proof -
  have "equal_value (map of_nat bs) i = (if bs = as_bits (length bs) i then 1 else 0 :: 'f)"
    unfolding equal_value_def length_map
    by (rule foldl_equal) (use assms in \<open>auto dest: as_bits_less\<close>)
  then show ?thesis using as_bits_eq_iff [OF refl assms] by simp
qed

lemma bits_value_of_nat: "bits_value (map of_nat bs) = (of_nat (undigits_be 2 bs) :: 'f::field)"
proof -
  have "foldl (\<lambda>result bit. bit + result * 2) (of_nat a) (map of_nat bs) =
      (of_nat (foldl (\<lambda>a d. a * 2 + d) a bs) :: 'f)" for a
  proof (induction bs arbitrary: a)
    case (Cons b bs)
    have "(of_nat b + of_nat a * 2 :: 'f) = of_nat (a * 2 + b)" by simp
    with Cons show ?case by (simp only: list.map foldl_Cons)
  qed simp
  from this [of 0] show ?thesis by (simp add: bits_value_def undigits_be_def)
qed

lemma binary_gates_bits:
  assumes "list_all passes (binary_gates 1 bits)"
  obtains bs where "bits = map of_nat bs" "\<forall>b \<in> set bs. b < 2" "length bs = length bits"
proof -
  have "\<exists>bs. bits = map of_nat bs \<and> (\<forall>b \<in> set bs. b < 2)"
    using assms
  proof (induction bits)
    case (Cons b bits)
    then obtain bs where "bits = map of_nat bs" "\<forall>b \<in> set bs. b < 2" by (auto simp: binary_gates_def)
    moreover have "b = of_nat 0 \<or> b = of_nat 1" using Cons.prems by (auto simp: binary_gates_def)
    then have "\<exists>d < 2. b = of_nat d" by (metis one_less_numeral_iff semiring_norm(76) zero_less_numeral)
    then obtain d where "d < 2" "b = of_nat d" by blast
    ultimately show ?case by (intro exI [of _ "d # bs"]) simp
  qed simp
  with that show thesis by auto
qed

lemma binary_gates_assign: "list_all passes (binary_gates (1 :: 'f::field) (binary_assign N v))"
  by (auto simp: binary_gates_def binary_assign_def list_all_iff dest!: as_bits_less simp: less_2_cases_iff)

section \<open>Linear combinations\<close>

lemma rlc_loop_nth:
  assumes "length alphas \<ge> length zs" "i < length zs"
  shows "rlc_loop zs alphas acc ! i = acc + (\<Sum>k < i. alphas ! k * (fst (zs ! k) - snd (zs ! k)))"
  using assms
proof (induction zs alphas acc arbitrary: i rule: rlc_loop.induct)
  case (1 c p limbs alpha alphas acc)
  show ?case
  proof (cases i)
    case (Suc j)
    with 1 show ?thesis
      by (simp add: sum.lessThan_Suc_shift algebra_simps del: sum.lessThan_Suc)
  qed simp
qed auto

lemma length_rlc_loop: "length alphas \<ge> length zs \<Longrightarrow> length (rlc_loop zs alphas acc) = length zs"
  by (induction zs alphas acc rule: rlc_loop.induct) auto

section \<open>The comparison\<close>

lemma list_all_zip_upt:
  assumes "length ys \<le> n"
  shows "list_all P (map f (zip [0..<n] ys)) \<longleftrightarrow> (\<forall>i < length ys. P (f (i, ys ! i)))"
  using assms by (auto simp: list_all_length)

lemma binary_bits_pass: "\<forall>b \<in> set bs. b < 2 \<Longrightarrow> list_all passes (binary_gates 1 (map of_nat bs))"
  by (auto simp: binary_gates_def list_all_iff less_2_cases_iff)

text \<open>The constraints of an enabled row, for boolean index bits.\<close>

lemma greater_than_passes:
  fixes alpha :: "'f::field list"
  assumes bits: "first_difference_limb g = map of_nat bs" "\<forall>b \<in> set bs. b < 2" "m \<le> 2 ^ length bs"
    and k: "k = undigits_be 2 bs"
    and limbs: "be_limbs cur inc = cl" "be_limbs prev inc = pl" "length cl = m" "length pl = m"
    and m: "m \<le> length alpha" "m \<le> 40"
  shows "list_all passes (greater_than_checks alpha inc 1 cur prev g) \<longleftrightarrow>
    difference g * difference_inverse g = 1 \<and>
    (k < m \<longrightarrow> (\<Sum>j < k. alpha ! j * (cl ! j - pl ! j)) = 0 \<and> difference g = cl ! k - pl ! k) \<and>
    (inc \<longrightarrow> passes (Lookup 40 (of_nat k :: 'f))) \<and> passes (Lookup 256 (difference g))"
proof -
  let ?r = "rlc_limb_differences cur prev alpha inc"
  have r: "length ?r = m" "i < m \<Longrightarrow> ?r ! i = (\<Sum>j < i. alpha ! j * (cl ! j - pl ! j))" for i
    using limbs m by (simp_all add: rlc_limb_differences_def length_rlc_loop rlc_loop_nth)
  have ev: "equal_value (map of_nat bs) i = (of_bool (k = i) :: 'f)" if "i < m" for i
    unfolding k by (rule equal_value_bits [OF bits(2)]) (use that bits(3) in simp)
  have 1: "list_all passes (map (\<lambda>(i, rlc). Gate (1 * rlc * equal_value (first_difference_limb g) i)) (zip [0..<40] ?r))
      \<longleftrightarrow> (k < m \<longrightarrow> (\<Sum>j < k. alpha ! j * (cl ! j - pl ! j)) = 0)"
    using r m by (subst list_all_zip_upt) (auto simp: bits(1) ev)
  have 2: "list_all passes (map (\<lambda>(i, c, p). Gate (1 * equal_value (first_difference_limb g) i * (difference g - c + p)))
        (zip [0..<40] (zip (be_limbs cur inc) (be_limbs prev inc))))
      \<longleftrightarrow> (k < m \<longrightarrow> difference g = cl ! k - pl ! k)"
    using limbs m by (subst list_all_zip_upt) (auto simp: bits(1) ev algebra_simps)
  show ?thesis
    unfolding greater_than_checks_def list_all_append 1 2
    using binary_bits_pass [OF bits(2), where 'a = 'f]
    by (auto simp: bits(1) bits_value_of_nat k simp del: passes.simps(2))
qed

lemma find_first_difference:
  assumes "length cs = m" "length ps = m" "cs \<noteq> ps"
    and inj: "\<And>i. i < m \<Longrightarrow> f (cs ! i) = f (ps ! i) \<longleftrightarrow> cs ! i = ps ! i"
  obtains k where "k < m" "take k cs = take k ps" "cs ! k \<noteq> ps ! k"
    "find (\<lambda>(i, a, b). a \<noteq> b) (zip [0..<m] (zip (map f cs) (map f ps))) = Some (k, f (cs ! k), f (ps ! k))"
proof -
  let ?P = "\<lambda>k. k < m \<and> cs ! k \<noteq> ps ! k"
  obtain k0 where "?P k0" using assms(1-3) by (auto simp: list_eq_iff_nth_eq)
  then have "?P (LEAST k. ?P k)" by (rule LeastI)
  moreover define k where "k = (LEAST k. ?P k)"
  ultimately have k: "k < m" "cs ! k \<noteq> ps ! k" by simp_all
  have pre: "cs ! j = ps ! j" if "j < k" for j
    using not_less_Least [of j ?P] that k(1) by (auto simp: k_def)
  have "find (\<lambda>(i, a, b). a \<noteq> b) (zip [0..<m] (zip (map f cs) (map f ps))) = Some (k, f (cs ! k), f (ps ! k))"
    unfolding find_Some_iff using k pre assms(1,2) inj by (intro exI [of _ k]) auto
  moreover have "take k cs = take k ps" using k(1) pre assms(1,2) by (intro take_nth_eqI) auto
  ultimately show thesis using k that by blast
qed

lemma undigits_first_difference:
  assumes "length cs = length ps" "k < length cs" "take k cs = take k ps" "cs ! k \<noteq> ps ! k"
    and "\<forall>c \<in> set cs. c < b" "\<forall>p \<in> set ps. p < b"
  shows "undigits_be b ps < undigits_be b cs \<longleftrightarrow> ps ! k < cs ! k"
  using undigits_be_lex [of ps cs k b] undigits_be_lex [of cs ps k b] assms
  by (metis less_asym' linorder_neqE_nat)

lemma nth_byte_less: "\<forall>c \<in> set cs. c < (256 :: nat) \<Longrightarrow> i < length cs \<Longrightarrow> cs ! i < 512"
  using nth_mem [of i cs] by fastforce

text \<open>The assigned witness: it exists for rows that differ, and passes when they increase.\<close>

lemma greater_than_assign_exact:
  fixes alpha :: "'f::field list"
  assumes wide: "wide_field TYPE('f) 512"
    and cs: "length cs = m" "\<forall>c \<in> set cs. c < 256" and ps: "length ps = m" "\<forall>p \<in> set ps. p < 256"
    and limbs: "be_limbs cur inc = map of_nat cs" "be_limbs prev inc = map of_nat ps"
    and m: "m \<le> 2 ^ N" "m \<le> length alpha" "m \<le> 40" and ne: "cs \<noteq> ps"
  shows "\<exists>g. greater_than_assign N m (be_limbs cur inc) (be_limbs prev inc) = Some g \<and>
    (list_all passes (greater_than_checks alpha inc 1 cur prev g) \<longleftrightarrow> undigits_be 256 ps < undigits_be 256 cs)"
proof -
  have inj: "(of_nat (cs ! i) :: 'f) = of_nat (ps ! i) \<longleftrightarrow> cs ! i = ps ! i" if "i < m" for i
  proof -
    have "cs ! i < 512" "ps ! i < 512" using that(1) cs ps by (simp_all add: nth_byte_less)
    then show ?thesis by (rule of_nat_small_eq [OF wide])
  qed
  from find_first_difference [OF cs(1) ps(1) ne, where f = "of_nat :: nat \<Rightarrow> 'f", OF inj] obtain k where
    k: "k < m" "take k cs = take k ps" "cs ! k \<noteq> ps ! k"
    and find: "find (\<lambda>(i, a, b). a \<noteq> b) (zip [0..<m] (zip (map of_nat cs) (map of_nat ps)))
      = Some (k, of_nat (cs ! k), of_nat (ps ! k) :: 'f)" by blast
  let ?d = "of_nat (cs ! k) - of_nat (ps ! k) :: 'f"
  let ?g = "\<lparr>difference = ?d, difference_inverse = inverse ?d, first_difference_limb = binary_assign N k\<rparr>"
  have d: "?d \<noteq> 0" using inj [OF k(1)] k(3) by simp
  have g: "greater_than_assign N m (be_limbs cur inc) (be_limbs prev inc) = Some ?g"
    using d by (simp add: greater_than_assign_def limbs find)
  have kN: "k < 2 ^ N" using k(1) m(1) by simp
  have pre: "map of_nat cs ! j = (map of_nat ps ! j :: 'f)" if "j < k" for j
    using that k(1,2) cs(1) ps(1) by (metis less_trans nth_map nth_take)
  have sum: "(\<Sum>j < k. alpha ! j * (map of_nat cs ! j - map of_nat ps ! j)) = (0 :: 'f)"
    by (rule sum.neutral) (use pre in simp)
  have bytes: "cs ! k < 256" "ps ! k < 256" using k(1) cs ps by simp_all
  have "list_all passes (greater_than_checks alpha inc 1 cur prev ?g) \<longleftrightarrow> passes (Lookup 256 ?d)"
    using k(1) m d sum cs(1) ps(1) lookup_small [of k 40, where 'a = 'f] kN
    by (subst greater_than_passes [where bs = "as_bits N k" and k = k, OF _ _ _ _ limbs])
      (auto simp: binary_assign_def undigits_as_bits dest: as_bits_less simp del: passes.simps(2))
  also have "\<dots> \<longleftrightarrow> ps ! k \<le> cs ! k"
    by (rule lookup_difference) (use wide bytes in simp_all)
  also have "\<dots> \<longleftrightarrow> undigits_be 256 ps < undigits_be 256 cs"
    using undigits_first_difference [of cs ps k 256] k cs ps by auto
  finally show ?thesis using g by blast
qed

text \<open>Any witness, when the challenge separates the two rows.\<close>

definition separates :: "'f::field list \<Rightarrow> 'f list \<Rightarrow> 'f list \<Rightarrow> bool" where
  "separates alpha cl pl \<longleftrightarrow> (\<forall>k < length cl.
     (\<Sum>j < k. alpha ! j * (cl ! j - pl ! j)) = 0 \<longrightarrow> (\<forall>j < k. cl ! j = pl ! j))"

lemma greater_than_checks_sound:
  fixes alpha :: "'f::field list"
  assumes wide: "wide_field TYPE('f) 512"
    and cs: "length cs = m" "\<forall>c \<in> set cs. c < 256" and ps: "length ps = m" "\<forall>p \<in> set ps. p < 256"
    and limbs: "be_limbs cur inc = map of_nat cs" "be_limbs prev inc = map of_nat ps"
    and m: "m \<le> length alpha" "m \<le> 40" and N: "N = length (first_difference_limb g)"
    and sep: "separates alpha (be_limbs cur inc) (be_limbs prev inc)"
    and checks: "list_all passes (greater_than_checks alpha inc 1 cur prev g)"
    and index: "inc \<and> m = 40 \<and> N = 6 \<or> m = 2 ^ N"
  shows "undigits_be 256 ps < undigits_be 256 cs"
proof -
  have "list_all passes (binary_gates 1 (first_difference_limb g))"
    using checks by (simp add: greater_than_checks_def)
  then obtain bs where bs: "first_difference_limb g = map of_nat bs" "\<forall>b \<in> set bs. b < 2"
    "length bs = length (first_difference_limb g)" by (rule binary_gates_bits)
  define k where "k = undigits_be 2 bs"
  have mN: "m \<le> 2 ^ length bs" using index N bs(3) by auto
  have kN: "k < 2 ^ length bs" unfolding k_def using bs(2) by (rule undigits_be_less)
  have len: "length (map of_nat cs :: 'f list) = m" "length (map of_nat ps :: 'f list) = m"
    using cs(1) ps(1) by simp_all
  note P = greater_than_passes [OF bs(1,2) mN k_def limbs len m, THEN iffD1, OF checks]
  have km: "k < m"
  proof (cases "inc \<and> m = 40 \<and> N = 6")
    case True
    then have "passes (Lookup 40 (of_nat k :: 'f))" using P by blast
    then obtain j where j: "j < 40" "(of_nat k :: 'f) = of_nat j" by (auto simp: table_rows_def)
    have "k < 64" using kN True N bs(3) by simp
    then have "k = j" using of_nat_small_eq [OF wide, of k j] j by simp
    then show ?thesis using j True by simp
  next
    case False
    then have "m = 2 ^ length bs" using index N bs(3) by auto
    then show ?thesis using kN by simp
  qed
  then have sum: "(\<Sum>j < k. alpha ! j * (map of_nat cs ! j - map of_nat ps ! j)) = (0 :: 'f)"
    and d: "difference g = of_nat (cs ! k) - of_nat (ps ! k)" using P cs(1) ps(1) by simp_all
  have inj: "cs ! i = ps ! i" if "i < m" "(of_nat (cs ! i) :: 'f) = of_nat (ps ! i)" for i
  proof -
    have "cs ! i < 512" "ps ! i < 512" using that(1) cs ps by (simp_all add: nth_byte_less)
    then show ?thesis using of_nat_small_eq [OF wide] that(2) by blast
  qed
  have "\<forall>j < k. map of_nat cs ! j = (map of_nat ps ! j :: 'f)"
    using sep sum km cs(1) by (simp add: separates_def limbs)
  then have pre: "take k cs = take k ps"
    using inj km cs(1) ps(1) by (intro take_nth_eqI) auto
  have bytes: "cs ! k < 256" "ps ! k < 256" using km cs ps by simp_all
  have "difference g \<noteq> 0" using P by auto
  then have ne: "cs ! k \<noteq> ps ! k" using d by auto
  have "ps ! k \<le> cs ! k"
    using lookup_difference [of 256 "cs ! k" "ps ! k", where 'f = 'f] wide bytes P d by simp
  with ne show ?thesis
    using undigits_first_difference [of cs ps k 256] km pre cs ps by auto
qed

section \<open>Converted records\<close>

definition byte_numbers :: "u8 list \<Rightarrow> nat list" where
  "byte_numbers bs = map unat bs"

lemma length_byte_numbers [simp]: "length (byte_numbers bs) = length bs"
  by (simp add: byte_numbers_def)

lemma byte_numbers_less: "\<forall>c \<in> set (byte_numbers bs). c < 256"
  by (auto simp: byte_numbers_def unat_less_2p [where 'a = 8, simplified])

lemma field_from_byte: "field_from_u64 (ucast (b :: u8)) = (of_nat (unat b) :: 'f::field)"
proof -
  have "unat b < 2 ^ 8" using unat_less_2p [of b] by simp
  then have "unat b < 2 ^ 64" by simp
  then have "unat (ucast b :: u64) = unat b" by (simp add: unsigned_ucast_eq take_bit_nat_eq_self)
  then show ?thesis by (simp add: field_from_u64_def)
qed

lemma converted_simps:
  "address_limbs (converted r) = map of_nat (byte_numbers (fixed_be_bytes (tr_address r)))"
  "time_limbs (converted r) = map of_nat (byte_numbers (to_be_bytes (tr_time_log r)))"
  "value_limbs (converted r) = map of_nat (byte_numbers (fixed_be_bytes (tr_value r)))"
  "instruction_cell (converted r) = (case tr_instruction r of Write \<Rightarrow> 1 | Read \<Rightarrow> 0)"
  by (simp_all add: converted_def byte_numbers_def field_from_byte o_def)

lemma undigits_time: "undigits_be 256 (byte_numbers (to_be_bytes (t :: u64))) = unat t"
  by (simp add: byte_numbers_def undigits_to_be_bytes)

lemma undigits_word: "undigits_be 256 (byte_numbers (fixed_be_bytes (x :: u256))) = unat x"
  by (simp add: byte_numbers_def undigits_fixed_be_bytes)

lemma length_word_bytes [simp]: "length (fixed_be_bytes (x :: u256)) = 32"
  by (simp add: length_fixed_be_bytes)

lemma blank_passes_binary: "list_all passes (binary_gates (0 :: 'f::field) bits)"
  by (simp add: binary_gates_def list_all_iff)

lemma zero_lookup: "0 < n \<Longrightarrow> passes (Lookup n (0 :: 'f::field))"
  using lookup_small [of 0 n] by simp

lemma greater_than_disabled:
  "list_all passes (greater_than_checks alpha inc (0 :: 'f::field) cur prev (blank_greater_than N))"
proof -
  have "bits_value (replicate N (0 :: 'f)) = 0"
  proof -
    have "map of_nat (replicate N 0) = replicate N (0 :: 'f)" by simp
    moreover have "undigits_be 2 (replicate N 0) = 0"
      using undigits_replicate_0 [of 2 N "[]"] by simp
    ultimately show ?thesis using bits_value_of_nat [of "replicate N 0", where 'f = 'f] by simp
  qed
  then show ?thesis
    using zero_lookup [of 40, where 'f = 'f] zero_lookup [of 256, where 'f = 'f]
    by (auto simp: greater_than_checks_def blank_greater_than_def blank_passes_binary list_all_iff
        binary_gates_def simp del: passes.simps(2))
qed

lemma field_from_u64_inj:
  assumes "wide_field TYPE('f::field) (2 ^ 64)"
  shows "(field_from_u64 x :: 'f) = field_from_u64 y \<longleftrightarrow> x = y"
  using of_nat_small_eq [OF assms, of "unat x" "unat y"] unat_less_2p [of x] unat_less_2p [of y]
  by (simp add: field_from_u64_def word_unat_eq_iff)

end
