(* ===== verification/Original_Circuit.thy ===== *)
theory Original_Circuit
  imports Gadget_Facts
begin

text \<open>
  The circuit of the time-ordered trace
  (\<open>zkmemory/src/constraints/original_memory_circuit.rs\<close>): the first access happens at
  time zero and the times strictly increase.
\<close>

record 'f original_row =
  or_trace :: "'f cells"
  or_selector :: 'f
  or_selector_zero :: 'f
  or_greater_than :: "'f greater_than"

definition original_blank :: "'f::field original_row" where
  "original_blank = \<lparr>or_trace = blank_cells, or_selector = 0, or_selector_zero = 0,
     or_greater_than = blank_greater_than 3\<rparr>"

text \<open>\<open>OriginalMemoryConfig::configure\<close>.\<close>

definition limbs_fold :: "'f::field list \<Rightarrow> 'f" where
  "limbs_fold limbs = foldl (\<lambda>time t. time * 256 + t) (hd limbs) (tl limbs)"

definition original_checks :: "'f::field list \<Rightarrow> 'f original_row \<Rightarrow> 'f original_row \<Rightarrow> 'f check list" where
  "original_checks alpha_power cur prev =
     greater_than_checks alpha_power False (or_selector cur) (or_trace cur) (or_trace prev) (or_greater_than cur)
     @ [Gate (or_selector_zero cur * limbs_fold (time_limbs (or_trace cur)))]"

text \<open>\<open>original_memory_assign\<close>.\<close>

definition original_memory_assign :: "'f::field cells list \<Rightarrow> nat \<Rightarrow> 'f original_row option" where
  "original_memory_assign trace offset =
     (if offset = 0 then do {
        cur \<leftarrow> vec_get trace offset;
        Some (original_blank\<lparr>or_trace := cur, or_selector_zero := 1\<rparr>) }
      else do {
        cur \<leftarrow> vec_get trace offset;
        prev \<leftarrow> vec_get trace (offset - 1);
        g \<leftarrow> greater_than_assign 3 8 (time_limbs cur) (time_limbs prev);
        Some (original_blank\<lparr>or_trace := cur, or_selector := 1, or_greater_than := g\<rparr>) })"

definition original_synthesize :: "'f::field cells list \<Rightarrow> 'f original_row list option" where
  "original_synthesize trace = those (map (original_memory_assign trace) [0..<length trace])"

text \<open>
  The circuit on its own, with the challenge \<open>alpha\<close>: a panic, or whether the constraints
  hold.
\<close>

definition original_circuit :: "'f::field \<Rightarrow> 'f cells list \<Rightarrow> bool option" where
  "original_circuit alpha trace = do {
     rows \<leftarrow> original_synthesize trace;
     Some (rows_satisfied (original_checks (alpha_powers alpha 8)) original_blank rows) }"

section \<open>Facts\<close>

lemma limbs_fold_of_nat: "ds \<noteq> [] \<Longrightarrow> limbs_fold (map of_nat ds) = (of_nat (undigits_be 256 ds) :: 'f::field)"
proof -
  have f: "foldl (\<lambda>time t. time * 256 + t) (of_nat a) (map of_nat ds) =
      (of_nat (foldl (\<lambda>a d. a * 256 + d) a ds) :: 'f)" for a ds
  proof (induction ds arbitrary: a)
    case (Cons d ds)
    have "(of_nat a * 256 + of_nat d :: 'f) = of_nat (a * 256 + d)" by simp
    with Cons show ?case by (simp only: list.map foldl_Cons)
  qed simp
  assume "ds \<noteq> []"
  then obtain d ds' where ds: "ds = d # ds'" by (cases ds) auto
  show ?thesis using f [of d ds'] by (simp add: limbs_fold_def ds undigits_be_def)
qed

lemma rows_satisfied_iff:
  assumes blank: "\<And>prev. list_all passes (checks blank prev)"
  shows "rows_satisfied checks blank rows \<longleftrightarrow>
    (\<forall>i < length rows. list_all passes (checks (rows ! i) (if i = 0 then blank else rows ! (i - 1))))"
proof -
  have "rows_satisfied checks blank rows \<longleftrightarrow>
      (\<forall>i < length rows + 2. list_all passes (checks ((rows @ [blank, blank]) ! i) ((blank # rows @ [blank]) ! i)))"
    by (auto simp: rows_satisfied_def list_all_length)
  also have "\<dots> \<longleftrightarrow> (\<forall>i < length rows. list_all passes (checks (rows ! i) ((blank # rows @ [blank]) ! i)))"
  proof (intro iffI allI impI)
    fix i assume H: "\<forall>i < length rows. list_all passes (checks (rows ! i) ((blank # rows @ [blank]) ! i))"
      and i: "i < length rows + 2"
    show "list_all passes (checks ((rows @ [blank, blank]) ! i) ((blank # rows @ [blank]) ! i))"
    proof (cases "i < length rows")
      case False
      then have "i = length rows \<or> i = Suc (length rows)" using i by auto
      then have "(rows @ [blank, blank]) ! i = blank" by (auto simp: nth_append)
      then show ?thesis using blank by simp
    qed (use H in \<open>simp add: nth_append\<close>)
  next
    fix i assume H: "\<forall>i < length rows + 2. list_all passes (checks ((rows @ [blank, blank]) ! i) ((blank # rows @ [blank]) ! i))"
      and i: "i < length rows"
    from H [rule_format, of i] i show "list_all passes (checks (rows ! i) ((blank # rows @ [blank]) ! i))"
      by (simp add: nth_append)
  qed
  also have "\<dots> \<longleftrightarrow> (\<forall>i < length rows. list_all passes (checks (rows ! i) (if i = 0 then blank else rows ! (i - 1))))"
    by (auto simp: nth_Cons' nth_append)
  finally show ?thesis .
qed

lemma rows_satisfied_upt:
  assumes "\<And>prev. list_all passes (checks blank prev)"
  shows "rows_satisfied checks blank (map row [0..<n]) \<longleftrightarrow>
    (\<forall>i < n. list_all passes (checks (row i) (if i = 0 then blank else row (i - 1))))"
proof -
  have "(if i = 0 then blank else map row [0..<n] ! (i - 1)) = (if i = 0 then blank else row (i - 1))" if "i < n" for i
    using that by simp
  then show ?thesis by (simp add: rows_satisfied_iff [where checks = checks and blank = blank, OF assms] cong: if_cong)
qed

lemma all_rows_split:
  "(\<forall>i < n. if i = 0 then P else Q (i - 1) i) \<longleftrightarrow> (0 < n \<longrightarrow> P) \<and> (\<forall>i. Suc i < n \<longrightarrow> Q i (Suc i))"
  by (auto split: if_splits) (metis Suc_pred)

lemma those_map_nth:
  assumes "\<And>i. i < n \<Longrightarrow> f i = Some (g i)"
  shows "those (map f [0..<n]) = Some (map g [0..<n])"
  by (rule those_map_Some) (use assms in simp)

lemma those_map_None: "i < n \<Longrightarrow> f i = None \<Longrightarrow> those (map f [0..<n]) = None"
proof -
  have "x \<in> set xs \<Longrightarrow> f x = None \<Longrightarrow> those (map f xs) = None" for x xs
    by (induction xs) (auto split: option.splits)
  then show "i < n \<Longrightarrow> f i = None \<Longrightarrow> those (map f [0..<n]) = None" by simp
qed

lemma blank_original: "list_all passes (original_checks alpha (original_blank :: 'f::field original_row) prev)"
  by (simp add: original_checks_def original_blank_def greater_than_disabled)

lemma greater_than_assign_equal: "greater_than_assign N m xs xs = None"
proof -
  have "find (\<lambda>(i, a, b). a \<noteq> b) (zip is (zip xs xs)) = None" for "is" :: "nat list"
    by (auto simp: find_None_iff set_zip)
  then show ?thesis by (simp add: greater_than_assign_def)
qed

text \<open>One enabled row of the circuit.\<close>

lemma time_limbs_record:
  "be_limbs (converted r) False = map of_nat (byte_numbers (to_be_bytes (tr_time_log r)))"
  by (simp add: be_limbs_def converted_simps)

lemma original_step_exact:
  fixes p r :: access and alpha :: "'f::field"
  assumes wide: "wide_field TYPE('f) 512" and ne: "tr_time_log p \<noteq> tr_time_log r" and m: "8 \<le> m"
  shows "\<exists>g. greater_than_assign 3 8 (time_limbs (converted r)) (time_limbs (converted p)) = Some g \<and>
    (list_all passes (greater_than_checks (alpha_powers alpha m) False 1 (converted r) (converted p) g)
      \<longleftrightarrow> tr_time_log p < tr_time_log r)"
proof -
  have d: "byte_numbers (to_be_bytes (tr_time_log r)) \<noteq> byte_numbers (to_be_bytes (tr_time_log p))"
    using ne undigits_time by (metis word_unat_eq_iff)
  have "length (byte_numbers (to_be_bytes (tr_time_log x))) = 8" for x :: access by simp
  from greater_than_assign_exact [OF wide this byte_numbers_less this byte_numbers_less time_limbs_record time_limbs_record
      _ _ _ d, where N = 3 and alpha = "alpha_powers alpha m"] m
  show ?thesis
    by (simp add: undigits_time word_less_nat_alt be_limbs_def alpha_powers_def)
qed

definition time_repeated :: "access list \<Rightarrow> bool" where
  "time_repeated tr \<longleftrightarrow> \<not> successively (\<lambda>p r. tr_time_log p \<noteq> tr_time_log r) tr"

lemma successively_nth: "successively P xs \<longleftrightarrow> (\<forall>i. Suc i < length xs \<longrightarrow> P (xs ! i) (xs ! Suc i))"
  by (induction P xs rule: successively.induct) (auto simp: nth_Cons split: nat.splits)

lemma original_synthesize_panics:
  assumes "time_repeated tr"
  shows "original_synthesize (map converted tr :: 'f::field cells list) = None"
proof -
  obtain i where i: "Suc i < length tr" "tr_time_log (tr ! i) = tr_time_log (tr ! Suc i)"
    using assms by (auto simp: time_repeated_def successively_nth)
  then have "time_limbs (converted (tr ! Suc i) :: 'f cells) = time_limbs (converted (tr ! i))"
    by (simp add: converted_simps)
  then have "original_memory_assign (map converted tr :: 'f cells list) (Suc i) = None"
    using i(1) by (simp add: original_memory_assign_def greater_than_assign_equal)
  then show ?thesis
    unfolding original_synthesize_def by (intro those_map_None [of "Suc i"]) (use i(1) in simp_all)
qed

lemma original_synthesize_exact:
  fixes tr :: "access list" and alpha :: "'f::field"
  assumes wide: "wide_field TYPE('f) (2 ^ 64)" and m: "8 \<le> m" and distinct: "\<not> time_repeated tr"
  shows "\<exists>rows. original_synthesize (map converted tr) = Some rows \<and>
    (rows_satisfied (original_checks (alpha_powers alpha m)) original_blank rows
      \<longleftrightarrow> starts_at_zero tr \<and> time_ordered tr)"
proof -
  have small: "wide_field TYPE('f) 512" by (rule wide_field_mono [OF wide]) simp
  define al where "al = alpha_powers alpha m"
  define row :: "nat \<Rightarrow> 'f original_row" where "row i = the (original_memory_assign (map converted tr) i)" for i
  have row: "original_memory_assign (map converted tr) i = Some (row i) \<and> or_trace (row i) = converted (tr ! i) \<and>
      (list_all passes (original_checks al (row i) (if i = 0 then original_blank else row (i - 1))) \<longleftrightarrow>
        (if i = 0 then tr_time_log (tr ! 0) = 0 else tr_time_log (tr ! (i - 1)) < tr_time_log (tr ! i)))"
    if i: "i < length tr" for i
    using i
  proof (induction i)
    case 0
    have "of_nat (unat (tr_time_log (tr ! 0))) = (0 :: 'f) \<longleftrightarrow> unat (tr_time_log (tr ! 0)) = 0"
      using of_nat_small_eq [OF wide, of "unat (tr_time_log (tr ! 0))" 0] unat_less_2p [of "tr_time_log (tr ! 0)"]
      by simp
    moreover have "limbs_fold (time_limbs (converted (tr ! 0))) = (of_nat (unat (tr_time_log (tr ! 0))) :: 'f)"
      unfolding converted_simps using undigits_time [of "tr_time_log (tr ! 0)"]
      by (subst limbs_fold_of_nat) (auto simp: byte_numbers_def dest: arg_cong [where f = length])
    ultimately show ?case
      using 0 by (simp add: row_def original_memory_assign_def original_checks_def original_blank_def
          greater_than_disabled unat_eq_0)
  next
    case (Suc j)
    let ?p = "tr ! j" and ?r = "tr ! Suc j"
    have ne: "tr_time_log ?p \<noteq> tr_time_log ?r" using distinct Suc.prems by (auto simp: time_repeated_def successively_nth)
    obtain g where g: "greater_than_assign 3 8 (time_limbs (converted ?r)) (time_limbs (converted ?p)) = Some g"
      "list_all passes (greater_than_checks al False 1 (converted ?r) (converted ?p) g)
        \<longleftrightarrow> tr_time_log ?p < tr_time_log ?r"
      using original_step_exact [OF small ne m, of alpha] by (auto simp: al_def)
    have "or_trace (row j) = converted ?p" using Suc by simp
    then show ?case
      using g Suc.prems by (simp add: row_def original_memory_assign_def original_checks_def original_blank_def)
  qed
  then have syn: "original_synthesize (map converted tr) = Some (map row [0..<length tr])"
    unfolding original_synthesize_def using those_map_nth [of "length tr" _ row] by simp
  have "rows_satisfied (original_checks al) original_blank (map row [0..<length tr]) \<longleftrightarrow>
      (\<forall>i < length tr. list_all passes (original_checks al (row i) (if i = 0 then original_blank else row (i - 1))))"
    by (simp add: rows_satisfied_upt [where checks = "original_checks al", OF blank_original])
  also have "(\<forall>i < length tr. list_all passes (original_checks al (row i) (if i = 0 then original_blank else row (i - 1))))
      \<longleftrightarrow> (\<forall>i < length tr. if i = 0 then tr_time_log (tr ! 0) = 0 else tr_time_log (tr ! (i - 1)) < tr_time_log (tr ! i))"
    using row by blast
  also have "(\<forall>i < length tr. if i = 0 then tr_time_log (tr ! 0) = 0 else tr_time_log (tr ! (i - 1)) < tr_time_log (tr ! i))
      \<longleftrightarrow> starts_at_zero tr \<and> time_ordered tr"
  proof -
    have "time_ordered tr \<longleftrightarrow> (\<forall>i. Suc i < length tr \<longrightarrow> tr_time_log (tr ! i) < tr_time_log (tr ! Suc i))"
      unfolding time_ordered_def sorted_wrt_map
      by (subst sorted_wrt_iff_nth_Suc_transp) (auto simp: transp_def)
    moreover have "starts_at_zero tr \<longleftrightarrow> (tr \<noteq> [] \<longrightarrow> tr_time_log (tr ! 0) = 0)"
      by (cases tr) (simp_all add: starts_at_zero_def)
    ultimately show ?thesis
      using all_rows_split [of "length tr" "tr_time_log (tr ! 0) = 0" "\<lambda>i j. tr_time_log (tr ! i) < tr_time_log (tr ! j)"]
      by auto
  qed
  finally show ?thesis using syn by (auto simp: al_def)
qed

lemma original_circuit_aux:
  fixes tr :: "access list" and alpha :: "'f::field"
  assumes wide: "wide_field TYPE('f) (2 ^ 64)"
  shows "original_circuit alpha (map converted tr) =
    (if time_repeated tr then None else Some (starts_at_zero tr \<and> time_ordered tr))"
proof (cases "time_repeated tr")
  case False
  from original_synthesize_exact [OF wide _ False, of 8 alpha] show ?thesis
    using False by (auto simp: original_circuit_def)
qed (simp add: original_circuit_def original_synthesize_panics)


section \<open>Property\<close>

text \<open>
  C22: the assignment of a converted trace panics exactly when two neighbours have the same
  time; otherwise the constraints hold exactly when the trace starts at time zero and its
  times strictly increase, in every field where the numbers below \<open>2 ^ 64\<close> are distinct.
\<close>

theorem original_circuit_exact:
  fixes tr :: "access list" and alpha :: "'f::field"
  assumes "wide_field TYPE('f) (2 ^ 64)"
  shows "original_circuit alpha (map converted tr) =
    (if time_repeated tr then None else Some (starts_at_zero tr \<and> time_ordered tr))"
  by (rule original_circuit_aux [OF assms])

theorem original_circuit_exact_witness:
  "original_circuit (7 :: rat) (map converted
     [TraceRecord_new 0 0 Write (1 :: u256) (5 :: u256), TraceRecord_new 300 0 Read 1 5]) = Some True \<and>
   original_circuit (7 :: rat) (map converted
     [TraceRecord_new 0 0 Write (1 :: u256) (5 :: u256), TraceRecord_new 0 0 Read 1 5]) = None"
  by (subst (1 2) original_circuit_exact)
    (simp_all add: wide_field_rat time_repeated_def TraceRecord_new_def starts_at_zero_def time_ordered_def)

end
