(* ===== verification/Sorted_Circuit.thy ===== *)
theory Sorted_Circuit
  imports Original_Circuit
begin

text \<open>
  The circuit of the trace sorted by address and time
  (\<open>zkmemory/src/constraints/sorted_memory_circuit.rs\<close>). \<open>limbs_to_expression\<close> starts
  from zero and skips the first limb, so the constraints on values and on equal addresses
  read only the low 31 bytes of a word; the facts below are about \<open>low\<close> words.
\<close>

record 'f sorted_row =
  sr_trace :: "'f cells"
  sr_addr_val :: 'f
  sr_addr_temp :: 'f
  sr_addr_temp_inv :: 'f
  sr_greater_than :: "'f greater_than"
  sr_selector :: 'f
  sr_selector_zero :: 'f

definition sorted_blank :: "'f::field sorted_row" where
  "sorted_blank = \<lparr>sr_trace = blank_cells, sr_addr_val = 0, sr_addr_temp = 0, sr_addr_temp_inv = 0,
     sr_greater_than = blank_greater_than 6, sr_selector = 0, sr_selector_zero = 0\<rparr>"

definition limbs_to_expression :: "'f::field list \<Rightarrow> 'f" where
  "limbs_to_expression limbs = foldl (\<lambda>acc t. acc * 256 + t) 0 (drop 1 limbs)"

definition address_limb_to_field :: "'f::field list \<Rightarrow> 'f" where
  "address_limb_to_field address = foldl (\<lambda>acc t. acc * 256 + t) 0 (drop 1 address)"

text \<open>\<open>SortedMemoryConfig::configure\<close>.\<close>

definition sorted_checks :: "'f::field list \<Rightarrow> 'f sorted_row \<Rightarrow> 'f sorted_row \<Rightarrow> 'f check list" where
  "sorted_checks alpha_power cur prev =
     (let c = sr_trace cur; p = sr_trace prev; selector = sr_selector cur;
          addr_diff = sr_addr_val cur;
          val_diff = limbs_to_expression (value_limbs c) - limbs_to_expression (value_limbs p);
          should_be_zero = 1 - addr_diff * sr_addr_temp cur;
          should_be_zero_2 = limbs_to_expression (address_limbs c)
            - limbs_to_expression (address_limbs p) - addr_diff in
      is_zero_gates selector (sr_addr_val cur) (sr_addr_temp cur) (sr_addr_temp_inv cur)
      @ greater_than_checks alpha_power True selector c p (sr_greater_than cur)
      @ [Gate (sr_selector_zero cur * (instruction_cell c - 1)),
         Gate (selector * (instruction_cell c - 1) * val_diff * should_be_zero),
         Gate (selector * should_be_zero_2),
         Gate (selector * (instruction_cell c - 1)
           * (limbs_to_expression (address_limbs c) - limbs_to_expression (address_limbs p))),
         Lookup 2 (instruction_cell c)]
      @ concat (map (\<lambda>(addr, val). [Lookup 256 addr, Lookup 256 val]) (zip (address_limbs c) (value_limbs c)))
      @ map (Lookup 256) (time_limbs c))"

text \<open>
  \<open>sorted_memory_assign\<close>; \<open>random\<close> is the field element drawn for the row, whose inverse
  panics when it is zero.
\<close>

definition sorted_memory_assign ::
    "'f::field \<Rightarrow> 'f cells list \<Rightarrow> nat \<Rightarrow> 'f sorted_row option" where
  "sorted_memory_assign random trace offset =
     (if offset = 0 then do {
        cur \<leftarrow> vec_get trace offset;
        Some (sorted_blank\<lparr>sr_trace := cur, sr_selector_zero := 1\<rparr>) }
      else do {
        cur \<leftarrow> vec_get trace offset;
        prev \<leftarrow> vec_get trace (offset - 1);
        let address_diff = address_limb_to_field (address_limbs cur) - address_limb_to_field (address_limbs prev);
        (temp, temp_inv) \<leftarrow>
          (if address_diff = 0 then do { assert_ok (random \<noteq> 0); Some (random, inverse random) }
           else Some (inverse address_diff, address_diff));
        g \<leftarrow> greater_than_assign 6 40 (address_limbs cur @ time_limbs cur) (address_limbs prev @ time_limbs prev);
        Some (sorted_blank\<lparr>sr_trace := cur, sr_addr_val := address_diff, sr_addr_temp := temp,
          sr_addr_temp_inv := temp_inv, sr_greater_than := g, sr_selector := 1\<rparr>) })"

definition sorted_synthesize :: "(nat \<Rightarrow> 'f::field) \<Rightarrow> 'f cells list \<Rightarrow> 'f sorted_row list option" where
  "sorted_synthesize random trace =
     those (map (\<lambda>offset. sorted_memory_assign (random offset) trace offset) [0..<length trace])"

definition sorted_circuit :: "'f::field \<Rightarrow> (nat \<Rightarrow> 'f) \<Rightarrow> 'f cells list \<Rightarrow> bool option" where
  "sorted_circuit alpha random trace = do {
     rows \<leftarrow> sorted_synthesize random trace;
     Some (rows_satisfied (sorted_checks (alpha_powers alpha 40)) sorted_blank rows) }"

section \<open>What the constraints say\<close>

definition low :: "u256 \<Rightarrow> nat" where
  "low x = unat x mod 2 ^ 248"

definition low_step :: "access \<Rightarrow> access \<Rightarrow> bool" where
  "low_step p r \<longleftrightarrow>
     (if low (tr_address r) = low (tr_address p)
      then tr_instruction r = Read \<longrightarrow> low (tr_value r) = low (tr_value p)
      else tr_instruction r = Write)"

definition low_consistent :: "access list \<Rightarrow> bool" where
  "low_consistent tr \<longleftrightarrow> (tr \<noteq> [] \<longrightarrow> tr_instruction (hd tr) = Write) \<and> successively low_step tr"

lemma limbs_to_expression_of_nat:
  "limbs_to_expression (map of_nat ds) = (of_nat (undigits_be 256 (drop 1 ds)) :: 'f::field)"
proof -
  have f: "foldl (\<lambda>acc t. acc * 256 + t) (of_nat a) (map of_nat ds) =
      (of_nat (foldl (\<lambda>a d. a * 256 + d) a ds) :: 'f)" for a ds
  proof (induction ds arbitrary: a)
    case (Cons d ds)
    have "(of_nat a * 256 + of_nat d :: 'f) = of_nat (a * 256 + d)" by simp
    with Cons show ?case by (simp only: list.map foldl_Cons)
  qed simp
  from f [of 0 "drop 1 ds"] show ?thesis by (simp add: limbs_to_expression_def drop_map undigits_be_def)
qed

lemma undigits_low: "undigits_be 256 (drop 1 (byte_numbers (fixed_be_bytes x))) = low x"
proof -
  obtain d ds where ds: "byte_numbers (fixed_be_bytes x) = d # ds"
    by (cases "byte_numbers (fixed_be_bytes x)") (auto dest: arg_cong [where f = length])
  then have l: "length ds = 31" by (auto dest: arg_cong [where f = length])
  have "\<forall>c \<in> set ds. c < 256" using byte_numbers_less [of "fixed_be_bytes x"] ds by simp
  from undigits_be_less [OF this] have "undigits_be 256 ds < 256 ^ 31" by (simp only: l)
  also have "(256 :: nat) ^ 31 = 2 ^ 248" by simp
  finally have less: "undigits_be 256 ds < 2 ^ 248" .
  have "unat x = d * 2 ^ 248 + undigits_be 256 ds"
    using undigits_word [of x] unfolding ds undigits_be_Cons l by simp
  with less show ?thesis by (simp add: low_def ds)
qed

lemma low_less: "low x < 2 ^ 248"
  by (simp add: low_def)

lemma converted_low:
  "limbs_to_expression (address_limbs (converted r)) = (of_nat (low (tr_address r)) :: 'f::field)"
  "limbs_to_expression (value_limbs (converted r)) = (of_nat (low (tr_value r)) :: 'f::field)"
  by (simp_all only: converted_simps limbs_to_expression_of_nat undigits_low)

lemma address_limb_is: "address_limb_to_field = limbs_to_expression"
  by (simp add: fun_eq_iff address_limb_to_field_def limbs_to_expression_def)

lemma low_diff:
  assumes "wide_field TYPE('f::field) (2 ^ 248)"
  shows "(of_nat (low x) - of_nat (low y) :: 'f) = 0 \<longleftrightarrow> low x = low y"
  using of_nat_small_eq [OF assms low_less low_less] by simp

text \<open>The range checks hold for the limbs of a record.\<close>

lemma record_lookups:
  "list_all passes (concat (map (\<lambda>(addr, val). [Lookup 256 addr, Lookup 256 val])
     (zip (address_limbs (converted r)) (value_limbs (converted r)))) :: 'f::field check list)"
  "list_all passes (map (Lookup 256) (time_limbs (converted r)) :: 'f::field check list)"
  "passes (Lookup 2 (instruction_cell (converted r)) :: 'f check)"
proof -
  have byte: "passes (Lookup 256 (of_nat c) :: 'f check)" if "c \<in> set (byte_numbers bs)" for c bs
    using byte_numbers_less [of bs] that by (intro lookup_small) simp
  show "list_all passes (concat (map (\<lambda>(addr, val). [Lookup 256 addr, Lookup 256 val])
     (zip (address_limbs (converted r)) (value_limbs (converted r)))) :: 'f check list)"
    using byte
    by (auto simp: converted_simps list_all_iff zip_map_map simp del: passes.simps dest: set_zip_leftD set_zip_rightD)
  show "list_all passes (map (Lookup 256) (time_limbs (converted r)) :: 'f check list)"
    using byte by (auto simp: converted_simps list_all_iff simp del: passes.simps)
  show "passes (Lookup 2 (instruction_cell (converted r)) :: 'f check)"
    using lookup_small [of 0 2, where 'a = 'f] lookup_small [of 1 2, where 'a = 'f]
    by (simp add: converted_simps split: memory_instruction.split del: passes.simps)
qed

text \<open>The gates of an enabled row, whatever the witness of the zero test.\<close>

definition step_gates :: "'f::field sorted_row \<Rightarrow> 'f cells \<Rightarrow> bool" where
  "step_gates cur p \<longleftrightarrow> list_all passes
     (is_zero_gates 1 (sr_addr_val cur) (sr_addr_temp cur) (sr_addr_temp_inv cur)
      @ [Gate ((instruction_cell (sr_trace cur) - 1)
          * (limbs_to_expression (value_limbs (sr_trace cur)) - limbs_to_expression (value_limbs p))
          * (1 - sr_addr_val cur * sr_addr_temp cur)),
         Gate (limbs_to_expression (address_limbs (sr_trace cur))
            - limbs_to_expression (address_limbs p) - sr_addr_val cur),
         Gate ((instruction_cell (sr_trace cur) - 1)
           * (limbs_to_expression (address_limbs (sr_trace cur)) - limbs_to_expression (address_limbs p)))])"

lemma step_gates_sound:
  fixes cur :: "'f::field sorted_row"
  assumes wide: "wide_field TYPE('f) (2 ^ 248)" and rows: "sr_trace cur = converted r" "p' = converted p"
    and gates: "step_gates cur p'"
  shows "low_step p r"
proof -
  have d: "sr_addr_val cur = of_nat (low (tr_address r)) - of_nat (low (tr_address p))"
    using gates by (simp add: step_gates_def rows converted_low)
  have v: "(instruction_cell (converted r) - 1) * (of_nat (low (tr_value r)) - of_nat (low (tr_value p)))
      * (1 - sr_addr_val cur * sr_addr_temp cur) = (0 :: 'f)"
    and a: "(instruction_cell (converted r) - 1) * (of_nat (low (tr_address r)) - of_nat (low (tr_address p))) = (0 :: 'f)"
    using gates unfolding step_gates_def list_all_append rows converted_low
    by (simp_all only: list.pred_inject passes.simps simp_thms)
  have i: "(instruction_cell (converted r) - 1 :: 'f) = 0 \<longleftrightarrow> tr_instruction r = Write"
    by (simp add: converted_simps split: memory_instruction.split)
  show ?thesis
  proof (cases "low (tr_address r) = low (tr_address p)")
    case True
    then have zero: "sr_addr_val cur = 0" using d by simp
    from v have "(instruction_cell (converted r) - 1 :: 'f) = 0
        \<or> (of_nat (low (tr_value r)) - of_nat (low (tr_value p)) :: 'f) = 0"
      unfolding zero by simp
    then show ?thesis
      using i low_diff [OF wide, of "tr_value r" "tr_value p"] True by (auto simp: low_step_def)
  next
    case False
    then have "(of_nat (low (tr_address r)) - of_nat (low (tr_address p)) :: 'f) \<noteq> 0"
      using low_diff [OF wide, of "tr_address r" "tr_address p"] by simp
    with a have "(instruction_cell (converted r) - 1 :: 'f) = 0" by (metis mult_eq_0_iff)
    with i False show ?thesis by (simp add: low_step_def)
  qed
qed

lemma step_gates_complete:
  fixes cur :: "'f::field sorted_row"
  assumes wide: "wide_field TYPE('f) (2 ^ 248)" and rows: "sr_trace cur = converted r" "p' = converted p"
    and d: "sr_addr_val cur = of_nat (low (tr_address r)) - of_nat (low (tr_address p))"
    and t: "sr_addr_temp cur * sr_addr_temp_inv cur = 1"
      "sr_addr_val cur \<noteq> 0 \<Longrightarrow> sr_addr_temp cur = inverse (sr_addr_val cur)"
    and step: "low_step p r"
  shows "step_gates cur p'"
proof (cases "low (tr_address r) = low (tr_address p)")
  case True
  then have "sr_addr_val cur = 0" using d by simp
  with t step True show ?thesis
    by (auto simp: step_gates_def rows converted_low is_zero_gates_def low_step_def converted_simps(4)
        split: memory_instruction.splits)
next
  case False
  then have "sr_addr_val cur \<noteq> 0" using d low_diff [OF wide, of "tr_address r" "tr_address p"] by simp
  with t step False d show ?thesis
    by (auto simp: step_gates_def rows converted_low is_zero_gates_def low_step_def converted_simps(4))
qed


text \<open>An enabled row, the first row and an unassigned row.\<close>

lemma sorted_checks_enabled:
  fixes al :: "'f::field list"
  assumes "sr_selector cur = 1" "sr_selector_zero cur = 0" "sr_trace cur = converted r"
  shows "list_all passes (sorted_checks al cur prev) \<longleftrightarrow>
    step_gates cur (sr_trace prev) \<and>
    list_all passes (greater_than_checks al True 1 (converted r) (sr_trace prev) (sr_greater_than cur))"
  using record_lookups [of r, where 'f = 'f] assms
  by (auto simp: sorted_checks_def step_gates_def Let_def simp del: passes.simps(2))

lemma sorted_checks_first:
  fixes al :: "'f::field list"
  assumes "sr_selector cur = 0" "sr_selector_zero cur = 1" "sr_trace cur = converted r"
    "sr_greater_than cur = blank_greater_than N"
  shows "list_all passes (sorted_checks al cur prev) \<longleftrightarrow> tr_instruction r = Write"
proof -
  have "instruction_cell (converted r) = (1 :: 'f) \<longleftrightarrow> tr_instruction r = Write"
    by (simp add: converted_simps(4) split: memory_instruction.split)
  then show ?thesis
    using record_lookups [of r, where 'f = 'f] greater_than_disabled [of al True] assms
    by (auto simp: sorted_checks_def is_zero_gates_def Let_def simp del: passes.simps(2))
qed

lemma blank_sorted: "list_all passes (sorted_checks al (sorted_blank :: 'f::field sorted_row) prev)"
proof -
  have "list_all passes (concat (map (\<lambda>(addr, val). [Lookup 256 addr, Lookup 256 val])
      (zip (replicate 32 0) (replicate 32 0))) :: 'f check list)"
    using zero_lookup [of 256, where 'f = 'f] by (simp add: list_all_iff del: passes.simps)
  then show ?thesis
    using zero_lookup [of 256, where 'f = 'f] zero_lookup [of 2, where 'f = 'f]
    by (simp add: sorted_checks_def sorted_blank_def blank_cells_def is_zero_gates_def
        greater_than_disabled [unfolded list_all_iff] list_all_iff del: passes.simps(2))
qed

text \<open>The comparison of the keys.\<close>

lemma key_limbs_record:
  "be_limbs (converted r) True =
     map of_nat (byte_numbers (fixed_be_bytes (tr_address r)) @ byte_numbers (to_be_bytes (tr_time_log r)))"
  by (simp add: be_limbs_def converted_simps)

definition key_bytes :: "access \<Rightarrow> nat list" where
  "key_bytes r = byte_numbers (fixed_be_bytes (tr_address r)) @ byte_numbers (to_be_bytes (tr_time_log r))"

lemma key_bytes_facts: "length (key_bytes r) = 40" "\<forall>c \<in> set (key_bytes r). c < 256"
  using byte_numbers_less by (auto simp: key_bytes_def)

lemma undigits_key: "undigits_be 256 (key_bytes r) = unat (tr_address r) * 2 ^ 64 + unat (tr_time_log r)"
  by (simp add: key_bytes_def undigits_be_append undigits_word undigits_time)

lemma undigits_key_less:
  "undigits_be 256 (key_bytes p) < undigits_be 256 (key_bytes r) \<longleftrightarrow> access_key p < access_key r"
proof -
  have less: "a * B + x < b * B + y \<longleftrightarrow> a < b \<or> a = b \<and> x < y" if "x < B" "y < B" for a b x y B :: nat
  proof (cases a b rule: linorder_cases)
    case less
    then have "Suc a * B \<le> b * B" by (intro mult_le_mono1) simp
    with that less show ?thesis by simp
  next
    case greater
    then have "Suc b * B \<le> a * B" by (intro mult_le_mono1) simp
    with that greater show ?thesis by simp
  qed simp
  have "unat (tr_time_log x) < 2 ^ 64" for x :: access using unat_less_2p [of "tr_time_log x"] by simp
  from less [OF this this] show ?thesis
    unfolding undigits_key access_key_def less_prod_def
    by (auto simp: word_less_nat_alt word_le_nat_alt word_unat_eq_iff)
qed

lemma key_bytes_inj: "key_bytes p = key_bytes r \<longleftrightarrow> access_key p = access_key r"
  using undigits_key_less [of p r] undigits_key_less [of r p]
  by (metis (no_types, lifting) access_key_def key_bytes_def less_irrefl linorder_neqE prod.inject)

lemma sorted_step_exact:
  fixes alpha :: "'f::field"
  assumes wide: "wide_field TYPE('f) 512" and ne: "access_key p \<noteq> access_key r" and m: "40 \<le> m"
  shows "\<exists>g. greater_than_assign 6 40 (be_limbs (converted r) True) (be_limbs (converted p) True) = Some g \<and>
    (list_all passes (greater_than_checks (alpha_powers alpha m) True 1 (converted r) (converted p) g)
      \<longleftrightarrow> access_key p < access_key r)"
proof -
  have "key_bytes r \<noteq> key_bytes p" using ne key_bytes_inj by metis
  from greater_than_assign_exact [OF wide key_bytes_facts key_bytes_facts
      key_limbs_record [folded key_bytes_def] key_limbs_record [folded key_bytes_def]
      _ _ _ this, where N = 6 and alpha = "alpha_powers alpha m"] m
  show ?thesis by (simp add: undigits_key_less alpha_powers_def)
qed


section \<open>The circuit decides low consistency\<close>

definition key_repeated :: "access list \<Rightarrow> bool" where
  "key_repeated tr \<longleftrightarrow> \<not> successively (\<lambda>p r. access_key p \<noteq> access_key r) tr"

lemma low_consistent_nth:
  "low_consistent tr \<longleftrightarrow> (0 < length tr \<longrightarrow> tr_instruction (tr ! 0) = Write) \<and>
     (\<forall>i. Suc i < length tr \<longrightarrow> low_step (tr ! i) (tr ! Suc i))"
  by (cases tr) (auto simp: low_consistent_def successively_nth)

lemma keys_increase_nth:
  fixes tr :: "access list"
  shows "sorted_wrt (<) (map access_key tr) \<longleftrightarrow> (\<forall>i. Suc i < length tr \<longrightarrow> access_key (tr ! i) < access_key (tr ! Suc i))"
  unfolding sorted_wrt_map
  by (subst sorted_wrt_iff_nth_Suc_transp) (simp_all add: transp_on_def order_less_trans)

lemma sorted_synthesize_panics:
  assumes "key_repeated tr"
  shows "sorted_synthesize random (map converted tr :: 'f::field cells list) = None"
proof -
  obtain i where i: "Suc i < length tr" "access_key (tr ! i) = access_key (tr ! Suc i)"
    using assms by (auto simp: key_repeated_def successively_nth)
  then have "greater_than_assign 6 40 (address_limbs (converted (tr ! Suc i)) @ time_limbs (converted (tr ! Suc i)) :: 'f list)
      (address_limbs (converted (tr ! i)) @ time_limbs (converted (tr ! i))) = None"
    by (simp add: converted_simps access_key_def greater_than_assign_equal)
  then have "sorted_memory_assign (random (Suc i)) (map converted tr) (Suc i) = None"
    using i(1) by (auto simp: sorted_memory_assign_def Let_def split: bind_splits prod.splits)
  then show ?thesis
    unfolding sorted_synthesize_def by (intro those_map_None [of "Suc i"]) (use i(1) in simp_all)
qed

lemma sorted_synthesize_exact:
  fixes tr :: "access list" and alpha :: "'f::field" and random :: "nat \<Rightarrow> 'f"
  assumes wide: "wide_field TYPE('f) (2 ^ 248)" and random: "\<And>i. random i \<noteq> 0"
    and m: "40 \<le> m" and distinct: "\<not> key_repeated tr"
  shows "\<exists>rows. sorted_synthesize random (map converted tr) = Some rows \<and>
    (rows_satisfied (sorted_checks (alpha_powers alpha m)) sorted_blank rows
      \<longleftrightarrow> sorted_wrt (<) (map access_key tr) \<and> low_consistent tr)"
proof -
  have small: "wide_field TYPE('f) 512" by (rule wide_field_mono [OF wide]) simp
  define al where "al = alpha_powers alpha m"
  define row :: "nat \<Rightarrow> 'f sorted_row" where
    "row i = the (sorted_memory_assign (random i) (map converted tr) i)" for i
  have row: "sorted_memory_assign (random i) (map converted tr) i = Some (row i) \<and> sr_trace (row i) = converted (tr ! i) \<and>
      (list_all passes (sorted_checks al (row i) (if i = 0 then sorted_blank else row (i - 1))) \<longleftrightarrow>
        (if i = 0 then tr_instruction (tr ! 0) = Write
         else access_key (tr ! (i - 1)) < access_key (tr ! i) \<and> low_step (tr ! (i - 1)) (tr ! i)))"
    if i: "i < length tr" for i
    using i
  proof (induction i)
    case 0
    then have "sorted_memory_assign (random 0) (map converted tr) 0 =
        Some (sorted_blank\<lparr>sr_trace := converted (tr ! 0), sr_selector_zero := 1\<rparr>)"
      by (simp add: sorted_memory_assign_def)
    then show ?case
      using sorted_checks_first [of "sorted_blank\<lparr>sr_trace := converted (tr ! 0), sr_selector_zero := 1\<rparr>" "tr ! 0" 6 al sorted_blank]
      by (simp add: row_def) (simp add: sorted_blank_def)
  next
    case (Suc j)
    let ?p = "tr ! j" and ?r = "tr ! Suc j"
    let ?d = "of_nat (low (tr_address ?r)) - of_nat (low (tr_address ?p)) :: 'f"
    have ne: "access_key ?p \<noteq> access_key ?r" using distinct Suc.prems by (auto simp: key_repeated_def successively_nth)
    obtain g where g: "greater_than_assign 6 40 (be_limbs (converted ?r) True) (be_limbs (converted ?p) True) = Some g"
      "list_all passes (greater_than_checks al True 1 (converted ?r) (converted ?p) g) \<longleftrightarrow> access_key ?p < access_key ?r"
      using sorted_step_exact [OF small ne m, of alpha] by (auto simp: al_def)
    define t where "t = (if ?d = 0 then random (Suc j) else inverse ?d)"
    define t' where "t' = (if ?d = 0 then inverse (random (Suc j)) else ?d)"
    have t: "t * t' = 1" "?d \<noteq> 0 \<Longrightarrow> t = inverse ?d" using random [of "Suc j"] by (simp_all add: t_def t'_def)
    let ?row = "sorted_blank\<lparr>sr_trace := converted ?r, sr_addr_val := ?d, sr_addr_temp := t,
      sr_addr_temp_inv := t', sr_greater_than := g, sr_selector := 1\<rparr>"
    have assign: "sorted_memory_assign (random (Suc j)) (map converted tr) (Suc j) = Some ?row"
      unfolding sorted_memory_assign_def using Suc.prems g(1)
      using random [of "Suc j"]
      by (cases "?d = 0") (simp_all add: address_limb_is converted_low Let_def be_limbs_def t_def t'_def)
    then have row: "row (Suc j) = ?row" by (simp add: row_def)
    have prev: "sr_trace (row j) = converted ?p" using Suc by simp
    have gates: "step_gates ?row (converted ?p) \<longleftrightarrow> low_step ?p ?r"
    proof
      assume "step_gates ?row (converted ?p)"
      from step_gates_sound [OF wide _ refl this, of ?r] show "low_step ?p ?r" by simp
    next
      assume "low_step ?p ?r"
      from step_gates_complete [OF wide _ refl _ _ _ this, of ?row] t
      show "step_gates ?row (converted ?p)" by simp
    qed
    have sel: "sr_selector ?row = 1" "sr_selector_zero ?row = 0" "sr_trace ?row = converted ?r"
      "sr_greater_than ?row = g" by (simp_all add: sorted_blank_def)
    have "list_all passes (sorted_checks al ?row (row j)) \<longleftrightarrow> low_step ?p ?r \<and> access_key ?p < access_key ?r"
      unfolding sorted_checks_enabled [OF sel(1-3)] prev gates sel(4) g(2) by (rule refl)
    with assign row show ?case by auto
  qed
  then have syn: "sorted_synthesize random (map converted tr) = Some (map row [0..<length tr])"
    unfolding sorted_synthesize_def using those_map_nth [of "length tr" _ row] by simp
  have "rows_satisfied (sorted_checks al) sorted_blank (map row [0..<length tr]) \<longleftrightarrow>
      (\<forall>i < length tr. list_all passes (sorted_checks al (row i) (if i = 0 then sorted_blank else row (i - 1))))"
    by (simp add: rows_satisfied_upt [where checks = "sorted_checks al", OF blank_sorted])
  also have "(\<forall>i < length tr. list_all passes (sorted_checks al (row i) (if i = 0 then sorted_blank else row (i - 1))))
      \<longleftrightarrow> (\<forall>i < length tr. if i = 0 then tr_instruction (tr ! 0) = Write
         else access_key (tr ! (i - 1)) < access_key (tr ! i) \<and> low_step (tr ! (i - 1)) (tr ! i))"
    using row by blast
  also have "\<dots> \<longleftrightarrow> sorted_wrt (<) (map access_key tr) \<and> low_consistent tr"
    using all_rows_split [of "length tr" "tr_instruction (tr ! 0) = Write"
        "\<lambda>i j. access_key (tr ! i) < access_key (tr ! j) \<and> low_step (tr ! i) (tr ! j)"]
    unfolding keys_increase_nth low_consistent_nth by blast
  finally show ?thesis using syn by (auto simp: al_def)
qed

lemma sorted_circuit_aux:
  fixes tr :: "access list" and alpha :: "'f::field" and random :: "nat \<Rightarrow> 'f"
  assumes wide: "wide_field TYPE('f) (2 ^ 248)" and random: "\<And>i. random i \<noteq> 0"
  shows "sorted_circuit alpha random (map converted tr) =
    (if key_repeated tr then None else Some (sorted_wrt (<) (map access_key tr) \<and> low_consistent tr))"
proof (cases "key_repeated tr")
  case False
  from sorted_synthesize_exact [where m = 40 and alpha = alpha and random = random, OF wide random _ False] show ?thesis
    using False by (auto simp: sorted_circuit_def)
qed (simp add: sorted_circuit_def sorted_synthesize_panics)


section \<open>Any satisfying assignment\<close>

text \<open>Cells that pass the range checks are those of a record.\<close>

lemma limbs_are_bytes:
  fixes xs :: "'f::field list"
  assumes "list_all passes (map (Lookup 256) xs)" "length xs = LENGTH('a::len) div 8" "8 dvd LENGTH('a::len)"
  obtains w where "xs = map of_nat (byte_numbers (to_be_bytes (w :: 'a::len word)))"
proof -
  have "\<exists>ds. xs = map of_nat ds \<and> (\<forall>d \<in> set ds. d < 256)"
    using assms(1)
  proof (induction xs)
    case (Cons x xs)
    then obtain ds where "xs = map of_nat ds" "\<forall>d \<in> set ds. d < 256" by auto
    moreover obtain d where "d < 256" "x = of_nat d" using Cons.prems by (auto simp: table_rows_def)
    ultimately show ?case by (intro exI [of _ "d # ds"]) simp
  qed simp
  then obtain ds where ds: "xs = map of_nat ds" "\<forall>d \<in> set ds. d < 256" by blast
  define w where "w = (word_of_nat (undigits_be 256 ds) :: 'a word)"
  have len: "length ds = LENGTH('a) div 8" using ds(1) assms(2) by simp
  have "undigits_be 256 ds < 2 ^ LENGTH('a)"
    using undigits_be_less [OF ds(2)] len pow_256_width [OF assms(3)] by simp
  then have "undigits_be 256 (byte_numbers (to_be_bytes w)) = undigits_be 256 ds"
    using undigits_to_be_bytes [OF assms(3), of w] by (simp add: w_def byte_numbers_def unat_of_nat)
  then have "byte_numbers (to_be_bytes w) = ds"
    using undigits_be_inj [OF _ byte_numbers_less ds(2)] len by simp
  with ds(1) that show thesis by metis
qed

definition cells_shape :: "'f cells \<Rightarrow> bool" where
  "cells_shape c \<longleftrightarrow> length (address_limbs c) = 32 \<and> length (time_limbs c) = 8 \<and> length (value_limbs c) = 32"

lemma fixed_be_bytes_256: "fixed_be_bytes (w :: u256) = to_be_bytes w"
  by (simp add: fixed_be_bytes_def)

lemma zip_lookups:
  assumes "length xs = length ys"
    "list_all passes (concat (map (\<lambda>(addr, val). [Lookup 256 addr, Lookup 256 val]) (zip xs ys)) :: 'f::field check list)"
  shows "list_all passes (map (Lookup 256) xs)" "list_all passes (map (Lookup 256) ys)"
  using assms by (induction xs ys rule: list_induct2) (auto simp del: passes.simps)

lemma cells_are_record:
  fixes c :: "'f::field cells"
  assumes shape: "cells_shape c" and instr: "passes (Lookup 2 (instruction_cell c))"
    and limbs: "list_all passes (concat (map (\<lambda>(addr, val). [Lookup 256 addr, Lookup 256 val])
      (zip (address_limbs c) (value_limbs c))))"
    and time: "list_all passes (map (Lookup 256) (time_limbs c))"
  shows "\<exists>r. c = converted r"
proof -
  have "list_all passes (map (Lookup 256) (address_limbs c))" "list_all passes (map (Lookup 256) (value_limbs c))"
    using zip_lookups [OF _ limbs] shape by (simp_all add: cells_shape_def)
  note limbs = this
  have w: "LENGTH(256) div 8 = 32" "8 dvd LENGTH(256)" "LENGTH(64) div 8 = 8" "8 dvd LENGTH(64)"
    by (simp_all add: dvd_def)
  have len: "length (address_limbs c) = 32" "length (time_limbs c) = 8" "length (value_limbs c) = 32"
    using shape by (simp_all add: cells_shape_def)
  obtain a :: u256 where "address_limbs c = map of_nat (byte_numbers (to_be_bytes a))"
    using limbs_are_bytes [OF limbs(1), where 'a = 256] w(1,2) len by metis
  moreover obtain v :: u256 where "value_limbs c = map of_nat (byte_numbers (to_be_bytes v))"
    using limbs_are_bytes [OF limbs(2), where 'a = 256] w(1,2) len by metis
  moreover obtain t :: u64 where "time_limbs c = map of_nat (byte_numbers (to_be_bytes t))"
    using limbs_are_bytes [OF time, where 'a = 64] w(3,4) len by metis
  moreover obtain i where "instruction_cell c = (case i of Write \<Rightarrow> 1 | Read \<Rightarrow> 0)"
  proof -
    have "instruction_cell c = 0 \<or> instruction_cell c = 1"
      using instr by (auto simp: table_rows_def numeral_2_eq_2 less_Suc_eq)
    with that [of Read] that [of Write] show thesis by auto
  qed
  ultimately have "c = converted \<lparr>tr_time_log = t, tr_stack_depth = 0, tr_instruction = i, tr_address = a, tr_value = v\<rparr>"
    by (intro cells.equality) (simp_all add: converted_simps fixed_be_bytes_256)
  then show ?thesis by blast
qed


text \<open>What the fixed columns and the shape of the table give a prover no choice of.\<close>

definition sorted_assignment :: "'f::field sorted_row list \<Rightarrow> bool" where
  "sorted_assignment rows \<longleftrightarrow> (\<forall>i < length rows. cells_shape (sr_trace (rows ! i)) \<and>
     length (first_difference_limb (sr_greater_than (rows ! i))) = 6 \<and>
     sr_selector_zero (rows ! i) = of_bool (i = 0) \<and> sr_selector (rows ! i) = of_bool (i \<noteq> 0))"

definition challenge_separates :: "'f::field \<Rightarrow> 'f sorted_row list \<Rightarrow> bool" where
  "challenge_separates alpha rows \<longleftrightarrow> successively (\<lambda>p c.
     separates (alpha_powers alpha 40) (be_limbs (sr_trace c) True) (be_limbs (sr_trace p) True)) rows"

lemma sorted_checks_lookups:
  "list_all passes (sorted_checks al cur prev) \<Longrightarrow> cells_shape (sr_trace cur) \<Longrightarrow> \<exists>r. sr_trace cur = converted r"
  by (rule cells_are_record) (auto simp: sorted_checks_def Let_def simp del: passes.simps)

lemma enabled_row_sound:
  fixes cur :: "'f::field sorted_row"
  assumes wide: "wide_field TYPE('f) (2 ^ 248)" and rows: "sr_trace cur = converted r" "sr_trace prev = converted p"
    and sel: "sr_selector cur = 1" "sr_selector_zero cur = 0" "length (first_difference_limb (sr_greater_than cur)) = 6"
    and sep: "separates (alpha_powers alpha 40) (be_limbs (sr_trace cur) True) (be_limbs (sr_trace prev) True)"
    and checks: "list_all passes (sorted_checks (alpha_powers alpha 40) cur prev)"
  shows "access_key p < access_key r \<and> low_step p r"
proof
  have g: "step_gates cur (converted p)"
    and gt: "list_all passes (greater_than_checks (alpha_powers alpha 40) True 1 (converted r) (converted p) (sr_greater_than cur))"
    using checks unfolding sorted_checks_enabled [OF sel(1,2) rows(1)] rows(2) by blast+
  show "low_step p r" by (rule step_gates_sound [OF wide rows(1) refl g])
  have small: "wide_field TYPE('f) 512" by (rule wide_field_mono [OF wide]) simp
  have "undigits_be 256 (key_bytes p) < undigits_be 256 (key_bytes r)"
    by (rule greater_than_checks_sound [OF small key_bytes_facts key_bytes_facts
          key_limbs_record [folded key_bytes_def] key_limbs_record [folded key_bytes_def] _ _ sel(3) [symmetric]
          sep [unfolded rows] gt]) (simp_all add: alpha_powers_def)
  then show "access_key p < access_key r" by (simp add: undigits_key_less)
qed

lemma sorted_rows_sound_aux:
  fixes rows :: "'f::field sorted_row list"
  assumes wide: "wide_field TYPE('f) (2 ^ 248)" and fixed: "sorted_assignment rows"
    and sep: "challenge_separates alpha rows"
    and sat: "rows_satisfied (sorted_checks (alpha_powers alpha 40)) sorted_blank rows"
  shows "\<exists>tr. map sr_trace rows = map converted tr \<and> sorted_wrt (<) (map access_key tr) \<and> low_consistent tr"
proof -
  let ?al = "alpha_powers alpha 40"
  have checks: "list_all passes (sorted_checks ?al (rows ! i) (if i = 0 then sorted_blank else rows ! (i - 1)))"
    if "i < length rows" for i
    using sat that rows_satisfied_iff [of "sorted_checks ?al" sorted_blank rows, OF blank_sorted] by blast
  have "\<forall>i \<in> {..<length rows}. \<exists>r. sr_trace (rows ! i) = converted r"
    using sorted_checks_lookups [OF checks] fixed by (auto simp: sorted_assignment_def)
  then obtain f where f: "\<And>i. i < length rows \<Longrightarrow> sr_trace (rows ! i) = converted (f i)"
    by (auto dest: bchoice)
  define tr where "tr = map f [0..<length rows]"
  have step: "access_key (f i) < access_key (f (Suc i)) \<and> low_step (f i) (f (Suc i))" if "Suc i < length rows" for i
  proof (rule enabled_row_sound [OF wide f f])
    show "list_all passes (sorted_checks ?al (rows ! Suc i) (rows ! i))" using checks [of "Suc i"] that by simp
    show "separates ?al (be_limbs (sr_trace (rows ! Suc i)) True) (be_limbs (sr_trace (rows ! i)) True)"
      using sep that by (simp add: challenge_separates_def successively_nth)
  qed (use fixed that in \<open>simp_all add: sorted_assignment_def\<close>)
  have first: "tr_instruction (f 0) = Write" if "rows \<noteq> []"
  proof -
    have "list_all passes (sorted_checks ?al (rows ! 0) sorted_blank)" using checks [of 0] that by simp
    then have "instruction_cell (converted (f 0)) = (1 :: 'f)"
      using fixed that f [of 0] by (simp add: sorted_checks_def Let_def sorted_assignment_def)
    then show ?thesis by (simp add: converted_simps(4) split: memory_instruction.splits)
  qed
  have "map sr_trace rows = map converted tr" by (rule nth_equalityI) (simp_all add: tr_def f)
  moreover have "sorted_wrt (<) (map access_key tr)" "low_consistent tr"
    unfolding keys_increase_nth low_consistent_nth using step first by (simp_all add: tr_def)
  ultimately show ?thesis by blast
qed


section \<open>Properties\<close>

text \<open>
  C21: the assignment of a converted trace panics exactly when two neighbours have the same
  address and time; otherwise the constraints hold exactly when the keys strictly increase
  and neighbours are consistent in the low 31 bytes, in every field where the numbers below
  \<open>2 ^ 248\<close> are distinct.
\<close>

theorem sorted_circuit_exact:
  fixes tr :: "access list" and alpha :: "'f::field" and random :: "nat \<Rightarrow> 'f"
  assumes "wide_field TYPE('f) (2 ^ 248)" and "\<And>i. random i \<noteq> 0"
  shows "sorted_circuit alpha random (map converted tr) =
    (if key_repeated tr then None else Some (sorted_wrt (<) (map access_key tr) \<and> low_consistent tr))"
  by (rule sorted_circuit_aux [OF assms])

theorem sorted_circuit_exact_witness:
  "sorted_circuit (7 :: rat) (\<lambda>_. 1) (map converted
     [TraceRecord_new 3 0 Write (1 :: u256) (5 :: u256), TraceRecord_new 4 0 Read 1 6]) = Some False"
  by (subst sorted_circuit_exact)
    (simp_all add: wide_field_rat key_repeated_def TraceRecord_new_def access_key_def low_consistent_def low_step_def low_def)

text \<open>
  Any assignment of the advice columns that satisfies the constraints of the sorted
  circuit is the conversion of a trace with strictly increasing keys that is consistent in
  the low 31 bytes, when the challenge separates the keys of neighbours.
\<close>

theorem sorted_rows_sound:
  fixes rows :: "'f::field sorted_row list"
  assumes "wide_field TYPE('f) (2 ^ 248)" and "sorted_assignment rows" and "challenge_separates alpha rows"
    and "rows_satisfied (sorted_checks (alpha_powers alpha 40)) sorted_blank rows"
  shows "\<exists>tr. map sr_trace rows = map converted tr \<and> sorted_wrt (<) (map access_key tr) \<and> low_consistent tr"
  by (rule sorted_rows_sound_aux [OF assms])

theorem sorted_rows_sound_witness:
  "\<exists>tr. map sr_trace [sorted_blank\<lparr>sr_trace := converted (TraceRecord_new 3 0 Write (1 :: u256) (5 :: u256)),
      sr_selector_zero := 1 :: rat\<rparr>] = map converted tr \<and> sorted_wrt (<) (map access_key tr) \<and> low_consistent tr"
proof (rule sorted_rows_sound [where alpha = 2])
  let ?row = "sorted_blank\<lparr>sr_trace := converted (TraceRecord_new 3 0 Write (1 :: u256) (5 :: u256)), sr_selector_zero := 1 :: rat\<rparr>"
  have "list_all passes (sorted_checks (alpha_powers 2 40) ?row sorted_blank)"
    by (subst sorted_checks_first [where N = 6 and r = "TraceRecord_new 3 0 Write (1 :: u256) (5 :: u256)"])
      (simp_all add: sorted_blank_def TraceRecord_new_def)
  then show "rows_satisfied (sorted_checks (alpha_powers 2 40)) sorted_blank [?row]"
    by (simp add: rows_satisfied_iff [where checks = "sorted_checks _", OF blank_sorted])
qed (simp_all add: wide_field_rat challenge_separates_def sorted_assignment_def sorted_blank_def
    blank_greater_than_def cells_shape_def converted_simps)

text \<open>
  The circuit accepts a read that returns another value than the one written, if they
  differ only in the most significant byte, which the folds of the limbs skip.
\<close>

theorem sorted_circuit_top_byte:
  fixes alpha :: "'f::field" and random :: "nat \<Rightarrow> 'f"
  assumes "wide_field TYPE('f) (2 ^ 248)" and "\<And>i. random i \<noteq> 0"
  shows "let tr = [TraceRecord_new 0 0 Write (0 :: u256) (0 :: u256), TraceRecord_new 1 0 Read 0 (2 ^ 248)] in
    sorted_circuit alpha random (map converted tr) = Some True \<and> \<not> sorted_consistent tr"
  unfolding Let_def
  by (subst sorted_circuit_aux [OF assms])
    (simp add: key_repeated_def TraceRecord_new_def access_key_def low_consistent_def low_step_def low_def
      sorted_consistent_def sorted_step_def)

theorem sorted_circuit_top_byte_witness:
  "sorted_circuit (3 :: rat) (\<lambda>_. 1) (map converted
     [TraceRecord_new 0 0 Write (0 :: u256) (0 :: u256), TraceRecord_new 1 0 Read 0 (2 ^ 248)]) = Some True"
  using sorted_circuit_top_byte [where alpha = "3 :: rat" and random = "\<lambda>_. 1"] wide_field_rat by (simp add: Let_def)

end
