(* ===== verification/Permutation_Circuit.thy ===== *)
theory Permutation_Circuit
  imports Gadget_Facts
begin

text \<open>
  The permutation circuit (\<open>zkmemory/src/constraints/permutation_circuit.rs\<close>): records are
  compressed to one field element with random coefficients, and a shuffle argument compares
  the two columns as multisets. The Halo2 library that proves it is a parameter.
\<close>

section \<open>Compression of a record\<close>

definition record_fields ::
    "('k \<Rightarrow> 'f::field) \<Rightarrow> ('v \<Rightarrow> 'f) \<Rightarrow> ('k, 'v) trace_record \<Rightarrow> 'f list" where
  "record_fields from_key from_value r =
     [field_from_u64 (tr_time_log r), field_from_u64 (tr_stack_depth r),
      (case tr_instruction r of Write \<Rightarrow> 1 | Read \<Rightarrow> 0),
      from_key (tr_address r), from_value (tr_value r)]"

definition compress ::
    "('k \<Rightarrow> 'f::field) \<Rightarrow> ('v \<Rightarrow> 'f) \<Rightarrow> u64 list \<Rightarrow> ('k, 'v) trace_record \<Rightarrow> 'f" where
  "compress from_key from_value seed r =
     (let instruction = (case tr_instruction r of Write \<Rightarrow> 1 | Read \<Rightarrow> 0) in
      field_from_u64 (tr_time_log r) * field_from_u64 (seed ! 0)
      + field_from_u64 (tr_stack_depth r) * field_from_u64 (seed ! 1)
      + instruction * field_from_u64 (seed ! 2)
      + from_key (tr_address r) * field_from_u64 (seed ! 3)
      + from_value (tr_value r) * field_from_u64 (seed ! 4))"

section \<open>The circuit\<close>

record 'f permutation_circuit =
  pc_input :: "'f list"
  pc_shuffle :: "'f list"

text \<open>\<open>PermutationCircuit::new\<close>, with the seeds it draws.\<close>

definition PermutationCircuit_new ::
    "('k \<Rightarrow> 'f::field) \<Rightarrow> ('v \<Rightarrow> 'f) \<Rightarrow> u64 list \<Rightarrow>
     ('k, 'v) trace_record list \<Rightarrow> ('k, 'v) trace_record list \<Rightarrow> 'f permutation_circuit option" where
  "PermutationCircuit_new from_key from_value seeds input_trace shuffle_trace = do {
     assert_ok (length input_trace = length shuffle_trace);
     Some \<lparr>pc_input = map (compress from_key from_value seeds) input_trace,
       pc_shuffle = map (compress from_key from_value seeds) shuffle_trace\<rparr> }"

text \<open>
  The columns \<open>input\<close>, \<open>s_input\<close>, \<open>shuffle\<close> and \<open>s_shuffle\<close>: the values from row
  zero on with their selector set, zeros below.
\<close>

record 'f shuffle_row =
  sh_input :: 'f
  sh_s_input :: 'f
  sh_shuffle :: 'f
  sh_s_shuffle :: 'f

definition column :: "'f::field list \<Rightarrow> nat \<Rightarrow> 'f \<times> 'f" where
  "column xs i = (if i < length xs then (xs ! i, 1) else (0, 0))"

definition permutation_synthesize :: "nat \<Rightarrow> 'f::field permutation_circuit \<Rightarrow> 'f shuffle_row list" where
  "permutation_synthesize usable pc = map (\<lambda>i.
     (let (input, s_input) = column (pc_input pc) i; (shuffle, s_shuffle) = column (pc_shuffle pc) i in
      \<lparr>sh_input = input, sh_s_input = s_input, sh_shuffle = shuffle, sh_s_shuffle = s_shuffle\<rparr>)) [0..<usable]"

text \<open>\<open>ShuffleChip::configure\<close>: the two expressions take the same values with the same multiplicities.\<close>

definition shuffle_exprs :: "'f::field shuffle_row \<Rightarrow> 'f \<times> 'f" where
  "shuffle_exprs row = (sh_s_input row * sh_input row, sh_s_shuffle row * sh_shuffle row)"

definition shuffle_holds :: "'f::field shuffle_row list \<Rightarrow> bool" where
  "shuffle_holds rows \<longleftrightarrow> mset (map (fst \<circ> shuffle_exprs) rows) = mset (map (snd \<circ> shuffle_exprs) rows)"

section \<open>The prover\<close>

text \<open>
  \<open>ParamsIPA::new\<close>, \<open>keygen_vk\<close>, \<open>keygen_pk\<close>, \<open>create_proof\<close> and
  \<open>verify_proof\<close> with its strategy are the fields of a record of functions.
\<close>

record ('params, 'vk, 'pk, 'err, 'f) ipa =
  ipa_params :: "u32 \<Rightarrow> 'params"
  ipa_keygen_vk :: "'params \<Rightarrow> 'f permutation_circuit \<Rightarrow> 'err + 'vk"
  ipa_keygen_pk :: "'params \<Rightarrow> 'vk \<Rightarrow> 'f permutation_circuit \<Rightarrow> 'err + 'pk"
  ipa_get_vk :: "'pk \<Rightarrow> 'vk"
  ipa_create_proof :: "'params \<Rightarrow> 'pk \<Rightarrow> 'f permutation_circuit \<Rightarrow> 'err + u8 list"
  ipa_verify_proof :: "'params \<Rightarrow> 'vk \<Rightarrow> u8 list \<Rightarrow> 'err + bool"

record ('params, 'pk, 'f) permutation_prover =
  pp_params :: 'params
  pp_pk :: 'pk
  pp_circuit :: "'f permutation_circuit"
  pp_expected :: bool

definition PermutationProver_new ::
    "('params, 'vk, 'pk, 'err, 'f) ipa \<Rightarrow> u32 \<Rightarrow> 'f permutation_circuit \<Rightarrow> bool \<Rightarrow>
     ('params, 'pk, 'f) permutation_prover option" where
  "PermutationProver_new L k circuit expected = do {
     let params = ipa_params L k;
     vk \<leftarrow> expect_ok (ipa_keygen_vk L params circuit);
     pk \<leftarrow> expect_ok (ipa_keygen_pk L params vk circuit);
     Some \<lparr>pp_params = params, pp_pk = pk, pp_circuit = circuit, pp_expected = expected\<rparr> }"

definition prover_create_proof ::
    "('params, 'vk, 'pk, 'err, 'f) ipa \<Rightarrow> ('params, 'pk, 'f) permutation_prover \<Rightarrow> u8 list option" where
  "prover_create_proof L p = expect_ok (ipa_create_proof L (pp_params p) (pp_pk p) (pp_circuit p))"

definition prover_verify ::
    "('params, 'vk, 'pk, 'err, 'f) ipa \<Rightarrow> ('params, 'pk, 'f) permutation_prover \<Rightarrow> u8 list \<Rightarrow> bool option" where
  "prover_verify L p proof = do {
     accepted \<leftarrow> expect_ok (ipa_verify_proof L (pp_params p) (ipa_get_vk L (pp_pk p)) proof);
     Some (accepted = pp_expected p) }"

section \<open>Facts\<close>

lemma compress_sum:
  "compress fk fv seed r = (\<Sum>j<5. record_fields fk fv r ! j * field_from_u64 (seed ! j))"
  by (simp add: compress_def record_fields_def numeral_eq_Suc Let_def algebra_simps)

lemma column_exprs:
  assumes "length xs \<le> n"
  shows "map (\<lambda>i. snd (column xs i) * fst (column xs i)) [0..<n] = xs @ replicate (n - length xs) (0 :: 'f::field)"
  using assms by (intro nth_equalityI) (auto simp: column_def nth_append)

lemma shuffle_exprs_columns:
  "map (fst \<circ> shuffle_exprs) (permutation_synthesize n pc) =
     map (\<lambda>i. snd (column (pc_input pc) i) * fst (column (pc_input pc) i)) [0..<n]"
  "map (snd \<circ> shuffle_exprs) (permutation_synthesize n pc) =
     map (\<lambda>i. snd (column (pc_shuffle pc) i) * fst (column (pc_shuffle pc) i)) [0..<n]"
  by (simp_all add: permutation_synthesize_def shuffle_exprs_def o_def split_def Let_def)

text \<open>The zeros of the unused rows cancel.\<close>

lemma shuffle_holds_iff:
  assumes "length (pc_input pc) = length (pc_shuffle pc)" "length (pc_input pc) \<le> n"
  shows "shuffle_holds (permutation_synthesize n pc) \<longleftrightarrow> mset (pc_input pc) = mset (pc_shuffle pc)"
  using assms by (simp add: shuffle_holds_def shuffle_exprs_columns column_exprs)

lemma mset_map_inj:
  assumes "inj_on f (set xs \<union> set ys)" "mset (map f xs) = mset (map f ys)"
  shows "mset xs = mset ys"
proof -
  let ?g = "the_inv_into (set xs \<union> set ys) f"
  have "map ?g (map f zs) = zs" if "set zs \<subseteq> set xs \<union> set ys" for zs
    using assms(1) that by (auto simp: the_inv_into_f_f intro!: map_idI)
  from this [of xs] this [of ys] show ?thesis
    using arg_cong [OF assms(2), of "image_mset ?g"] by (simp flip: mset_map)
qed

text \<open>With one seed left open, at most one value of it lets two different records collide.\<close>

lemma one_seed:
  fixes a b c d :: "'f::field"
  assumes "a \<noteq> b" "a * x + c = b * x + d" "a * y + c = b * y + d"
  shows "x = y"
proof -
  have "(a - b) * (x - y) = (a * x + c) - (b * x + d) - ((a * y + c) - (b * y + d))" by (simp add: algebra_simps)
  with assms show ?thesis by simp
qed

lemma compress_open_seed:
  assumes "j < 5" "length seed = 5"
  shows "compress fk fv (seed[j := x]) r = record_fields fk fv r ! j * field_from_u64 x +
    (\<Sum>i \<in> {..<5} - {j}. record_fields fk fv r ! i * field_from_u64 (seed ! i))"
proof -
  have "compress fk fv (seed[j := x]) r = record_fields fk fv r ! j * field_from_u64 (seed[j := x] ! j) +
      (\<Sum>i \<in> {..<5} - {j}. record_fields fk fv r ! i * field_from_u64 (seed[j := x] ! i))"
    unfolding compress_sum by (rule sum.remove) (use assms in auto)
  also have "(\<Sum>i \<in> {..<5} - {j}. record_fields fk fv r ! i * field_from_u64 (seed[j := x] ! i)) =
      (\<Sum>i \<in> {..<5} - {j}. record_fields fk fv r ! i * field_from_u64 (seed ! i))"
    by (rule sum.cong) auto
  finally show ?thesis using assms by simp
qed

lemma one_seed_collides:
  assumes wide: "wide_field TYPE('f::field) (2 ^ 64)" and "j < 5" "length seed = 5"
    and "record_fields fk fv r ! j \<noteq> (record_fields fk fv r' ! j :: 'f)"
    and "compress fk fv (seed[j := x]) r = (compress fk fv (seed[j := x]) r' :: 'f)"
    and "compress fk fv (seed[j := y]) r = (compress fk fv (seed[j := y]) r' :: 'f)"
  shows "x = y"
  using one_seed [OF assms(4) assms(5,6) [unfolded compress_open_seed [OF assms(2,3)]]]
  by (simp add: field_from_u64_inj [OF wide])

section \<open>Properties\<close>

text \<open>
  The circuit is built and its shuffle argument holds exactly for two traces that are
  permutations of each other, if the compression with the drawn seeds separates their
  records; traces of different lengths panic.
\<close>

theorem permutation_circuit_exact:
  assumes "inj_on (compress from_key from_value seeds :: ('k, 'v) trace_record \<Rightarrow> 'f::field) (set xs \<union> set ys)"
    and "length xs \<le> usable"
  shows "(\<exists>pc. PermutationCircuit_new from_key from_value seeds xs ys = Some pc \<and>
      shuffle_holds (permutation_synthesize usable pc)) \<longleftrightarrow> mset xs = mset ys"
proof (cases "length xs = length ys")
  case True
  then show ?thesis
    using assms mset_map_inj [OF assms(1)] by (auto simp: PermutationCircuit_new_def shuffle_holds_iff)
next
  case False
  then show ?thesis by (auto simp: PermutationCircuit_new_def dest: mset_eq_length)
qed

theorem permutation_circuit_exact_witness:
  "\<not> (\<exists>pc. PermutationCircuit_new unsigned unsigned [1, 2, 3, 4, 5 :: u64]
        [TraceRecord_new 0 0 Write (1 :: u256) (5 :: u256)] [TraceRecord_new 0 0 Read 1 5] = Some pc \<and>
      shuffle_holds (permutation_synthesize 4 pc :: rat shuffle_row list))"
  by (subst permutation_circuit_exact) (simp_all add: inj_on_def compress_def TraceRecord_new_def Let_def field_from_u64_def)

text \<open>
  Two records that differ in some field collide under the compression for at most one
  value of that field's seed, whatever the other seeds are.
\<close>

theorem compress_collisions:
  fixes from_key :: "'k \<Rightarrow> 'f::field"
  assumes "wide_field TYPE('f) (2 ^ 64)" and "j < 5" and "length seed = 5"
    and "record_fields from_key from_value r ! j \<noteq> record_fields from_key from_value r' ! j"
  shows "card {x. compress from_key from_value (seed[j := x]) r = compress from_key from_value (seed[j := x]) r'} \<le> 1"
  by (rule card_le_Suc0_iff_eq [THEN iffD2, unfolded One_nat_def [symmetric]])
    (use one_seed_collides [OF assms] in auto)

theorem compress_collisions_witness:
  "card {x. compress unsigned unsigned ([1, 2, 3, 4, 5][3 := x]) (TraceRecord_new 0 0 Write (1 :: u256) (5 :: u256)) =
     (compress unsigned unsigned ([1, 2, 3, 4, 5][3 := x]) (TraceRecord_new 0 0 Read (2 :: u256) (5 :: u256)) :: rat)} \<le> 1"
  by (rule compress_collisions [where 'f = rat and j = 3 and seed = "[1, 2, 3, 4, 5]"
        and r = "TraceRecord_new 0 0 Write (1 :: u256) (5 :: u256)" and r' = "TraceRecord_new 0 0 Read 2 5"
        and from_key = unsigned and from_value = unsigned])
    (simp_all add: wide_field_rat record_fields_def TraceRecord_new_def)

text \<open>
  With a proof system that proves satisfied circuits, the prover built for a trace and a
  permutation of it creates a proof, and verifying that proof gives the expected flag.
\<close>

definition ipa_complete :: "(u32 \<Rightarrow> nat) \<Rightarrow> ('params, 'vk, 'pk, 'err, 'f::field) ipa \<Rightarrow> bool" where
  "ipa_complete usable L \<longleftrightarrow> (\<forall>k c vk pk. ipa_keygen_vk L (ipa_params L k) c = Inr vk \<longrightarrow>
     ipa_keygen_pk L (ipa_params L k) vk c = Inr pk \<longrightarrow> shuffle_holds (permutation_synthesize (usable k) c) \<longrightarrow>
     (\<exists>proof. ipa_create_proof L (ipa_params L k) pk c = Inr proof \<and>
        ipa_verify_proof L (ipa_params L k) (ipa_get_vk L pk) proof = Inr True))"

theorem permutation_prover_roundtrip:
  assumes "ipa_complete usable L" and "mset xs = mset ys" and "length xs \<le> usable k"
    and "PermutationCircuit_new from_key from_value seeds xs ys = Some circuit"
    and "PermutationProver_new L k circuit expected = Some prover"
  shows "\<exists>proof. prover_create_proof L prover = Some proof \<and> prover_verify L prover proof = Some expected"
proof -
  have "shuffle_holds (permutation_synthesize (usable k) circuit)"
    using assms(2-4) mset_eq_length [OF assms(2)] by (auto simp: PermutationCircuit_new_def shuffle_holds_iff)
  moreover obtain vk pk where "ipa_keygen_vk L (ipa_params L k) circuit = Inr vk"
    "ipa_keygen_pk L (ipa_params L k) vk circuit = Inr pk"
    and prover: "prover = \<lparr>pp_params = ipa_params L k, pp_pk = pk, pp_circuit = circuit, pp_expected = expected\<rparr>"
    using assms(5) by (auto simp: PermutationProver_new_def Let_def split: bind_splits)
  ultimately obtain bytes where "ipa_create_proof L (ipa_params L k) pk circuit = Inr bytes"
    "ipa_verify_proof L (ipa_params L k) (ipa_get_vk L pk) bytes = Inr True"
    using assms(1) unfolding ipa_complete_def by blast
  then show ?thesis by (simp add: prover prover_create_proof_def prover_verify_def)
qed

definition ideal_ipa :: "(nat, unit, rat permutation_circuit, unit, rat) ipa" where
  "ideal_ipa = \<lparr>ipa_params = unat, ipa_keygen_vk = \<lambda>_ _. Inr (), ipa_keygen_pk = \<lambda>_ _ c. Inr c,
     ipa_get_vk = \<lambda>_. (), ipa_create_proof = \<lambda>n pk c. if shuffle_holds (permutation_synthesize n c) then Inr [1] else Inl (),
     ipa_verify_proof = \<lambda>_ _ proof. if proof = [1] then Inr True else Inl ()\<rparr>"

theorem permutation_prover_roundtrip_witness:
  "\<exists>circuit prover proof. PermutationCircuit_new unsigned unsigned [1, 2, 3, 4, 5 :: u64]
      [TraceRecord_new 0 0 Write (1 :: u256) (5 :: u256)] [TraceRecord_new 0 0 Write 1 5] = Some circuit \<and>
    PermutationProver_new ideal_ipa 6 circuit False = Some prover \<and>
    prover_create_proof ideal_ipa prover = Some proof \<and> prover_verify ideal_ipa prover proof = Some False"
proof -
  have L: "ipa_complete unat ideal_ipa" by (simp add: ipa_complete_def ideal_ipa_def)
  obtain circuit where c: "PermutationCircuit_new unsigned unsigned [1, 2, 3, 4, 5 :: u64]
      [TraceRecord_new 0 0 Write (1 :: u256) (5 :: u256)] [TraceRecord_new 0 0 Write 1 5] = Some (circuit :: rat permutation_circuit)"
    by (simp add: PermutationCircuit_new_def)
  obtain prover where p: "PermutationProver_new ideal_ipa 6 circuit False = Some prover"
    by (simp add: PermutationProver_new_def ideal_ipa_def)
  from permutation_prover_roundtrip [OF L _ _ c p] c p show ?thesis by auto
qed

end
