(* ===== verification/Consistency_Circuit.thy ===== *)
theory Consistency_Circuit
  imports Sorted_Circuit Permutation_Circuit
begin

text \<open>
  The composed circuit of the Halo2 backend
  (\<open>zkmemory/src/constraints/consistency_check_circuit.rs\<close>, \<open>common.rs\<close>), the sorting
  of \<open>helper.rs\<close> and the placement of its regions: \<open>usable\<close> is the number of rows the
  proof system leaves to the circuit.
\<close>

section \<open>Regions\<close>

text \<open>
  One region from row \<open>start\<close> on: \<open>row\<close> assigns the rows one by one and may panic, a
  row past the usable ones is an error; then come \<open>height\<close> rows of tables.
\<close>

definition assign_region ::
    "nat \<Rightarrow> nat \<Rightarrow> nat \<Rightarrow> (nat \<Rightarrow> 'r option) \<Rightarrow> nat \<Rightarrow> (unit + 'r list) option" where
  "assign_region usable start height row n = do {
     rows \<leftarrow> those (map row [0..<min n (usable - start)]);
     Some (if usable < start + max n height then Inl () else Inr rows) }"

text \<open>The lookup tables \<open>size40\<close>, \<open>size256\<close> and \<open>size2\<close> take 256 rows.\<close>

definition table_height :: nat where
  "table_height = 256"

text \<open>
  The table columns belong to both the sorted and the original region, so the second starts
  below the first.
\<close>

definition region_height :: "'r list \<Rightarrow> nat" where
  "region_height trace = max (length trace) table_height"

section \<open>The circuit\<close>

record 'f consistency_rows =
  cr_permutation :: "'f shuffle_row list"
  cr_sorted :: "'f sorted_row list"
  cr_original :: "'f original_row list"

text \<open>\<open>MemoryConsistencyCircuit::synthesize_with_layouter\<close>.\<close>

definition consistency_synthesize ::
    "nat \<Rightarrow> (nat \<Rightarrow> 'f::field) \<Rightarrow> u64 list \<Rightarrow> access list \<Rightarrow> access list \<Rightarrow> (unit + 'f consistency_rows) option" where
  "consistency_synthesize usable random seeds input shuffle = do {
     pc \<leftarrow> PermutationCircuit_new fp_from fp_from seeds input shuffle;
     if usable < length (pc_input pc) then Some (Inl ()) else do {
       let sorted_trace_record = map converted shuffle;
       let original_trace_record = map converted input;
       s \<leftarrow> assign_region usable 0 table_height
         (\<lambda>offset. sorted_memory_assign (random offset) sorted_trace_record offset) (length shuffle);
       case s of Inl e \<Rightarrow> Some (Inl e) | Inr sorted_rows \<Rightarrow> do {
         r \<leftarrow> assign_region usable (region_height shuffle) table_height
           (original_memory_assign original_trace_record) (length input);
         case r of Inl e \<Rightarrow> Some (Inl e) | Inr original_rows \<Rightarrow>
           Some (Inr \<lparr>cr_permutation = permutation_synthesize usable pc, cr_sorted = sorted_rows,
             cr_original = original_rows\<rparr>) } } }"

text \<open>\<open>ConsistencyConfig::configure\<close>, with the powers of the challenge.\<close>

definition consistency_constraints :: "'f::field \<Rightarrow> 'f consistency_rows \<Rightarrow> bool" where
  "consistency_constraints alpha rows \<longleftrightarrow>
     rows_satisfied (original_checks (alpha_powers alpha 40)) original_blank (cr_original rows) \<and>
     rows_satisfied (sorted_checks (alpha_powers alpha 40)) sorted_blank (cr_sorted rows) \<and>
     shuffle_holds (cr_permutation rows)"

text \<open>The circuit under a mock prover: a synthesis error or whether the constraints hold.\<close>

definition consistency_circuit ::
    "nat \<Rightarrow> 'f::field \<Rightarrow> (nat \<Rightarrow> 'f) \<Rightarrow> u64 list \<Rightarrow> access list \<Rightarrow> access list \<Rightarrow> (unit + bool) option" where
  "consistency_circuit usable alpha random seeds input shuffle =
     map_option (map_sum id (consistency_constraints alpha))
       (consistency_synthesize usable random seeds input shuffle)"

text \<open>\<open>sort_trace\<close> of \<open>helper.rs\<close> and \<open>build_and_test_circuit\<close>, which panics unless the constraints hold.\<close>

definition key_le :: "('k::linorder, 'v) trace_record \<Rightarrow> ('k, 'v) trace_record \<Rightarrow> bool" where
  "key_le a b \<longleftrightarrow> (if tr_address a = tr_address b then tr_time_log a \<le> tr_time_log b
     else tr_address a \<le> tr_address b)"

fun insert_by_key :: "('k::linorder, 'v) trace_record \<Rightarrow> ('k, 'v) trace_record list \<Rightarrow> ('k, 'v) trace_record list" where
  "insert_by_key x [] = [x]"
| "insert_by_key x (y # ys) = (if key_le x y then x # y # ys else y # insert_by_key x ys)"

definition sort_trace :: "('k::linorder, 'v) trace_record list \<Rightarrow> ('k, 'v) trace_record list" where
  "sort_trace trace = foldr insert_by_key trace []"

definition build_and_test_circuit ::
    "nat \<Rightarrow> 'f::field \<Rightarrow> (nat \<Rightarrow> 'f) \<Rightarrow> u64 list \<Rightarrow> access list \<Rightarrow> unit option" where
  "build_and_test_circuit usable alpha random seeds trace = do {
     r \<leftarrow> consistency_circuit usable alpha random seeds trace (sort_trace trace);
     holds \<leftarrow> expect_ok r;
     assert_ok holds }"

section \<open>Facts\<close>

lemma key_le_access_key: "key_le a b \<longleftrightarrow> access_key a \<le> access_key b"
  by (auto simp: key_le_def access_key_def less_eq_prod_def)

lemma insert_by_key_insort: "insert_by_key x xs = insort_key access_key x xs"
  by (induction xs) (simp_all add: key_le_access_key)

lemma sort_trace_is: "sort_trace tr = sort_trace_by_address_time tr"
  by (induction tr) (simp_all add: sort_trace_def sort_trace_by_address_time_def insert_by_key_insort)

lemma assign_region_fits:
  assumes "start + max n height \<le> usable"
  shows "assign_region usable start height row n = map_option Inr (those (map row [0..<n]))"
proof -
  have "min n (usable - start) = n" using assms by simp
  with assms show ?thesis by (cases "those (map row [0..<n])") (simp_all add: assign_region_def)
qed

text \<open>The tables hold the traces they were assigned from.\<close>

lemma those_map_rows:
  assumes "those (map f [0..<n]) = Some rows"
  shows "length rows = n" and "i < n \<Longrightarrow> f i = Some (rows ! i)"
proof -
  have eq: "map f [0..<n] = map Some rows" using assms by (simp add: those_Some_iff)
  show len: "length rows = n" using arg_cong [OF eq, of length] by simp
  show "i < n \<Longrightarrow> f i = Some (rows ! i)" using arg_cong [OF eq, of "\<lambda>xs. xs ! i"] len by simp
qed

lemma original_synthesize_traces:
  assumes "original_synthesize (map converted tr) = Some rows"
  shows "map or_trace rows = map converted tr"
proof -
  have len: "length rows = length tr"
    and row: "i < length tr \<Longrightarrow> original_memory_assign (map converted tr) i = Some (rows ! i)" for i
    using those_map_rows [OF assms [unfolded original_synthesize_def]] by simp_all
  have "or_trace (rows ! i) = converted (tr ! i)" if "i < length tr" for i
    using row [OF that] that by (auto simp: original_memory_assign_def Let_def bind_eq_Some_conv split: if_split_asm dest!: sym [of _ "rows ! i"] sym [of _ "rows ! 0"])
  then show ?thesis using len by (intro nth_equalityI) simp_all
qed

lemma sorted_synthesize_traces:
  assumes "sorted_synthesize random (map converted tr) = Some rows"
  shows "map sr_trace rows = map converted tr"
proof -
  have len: "length rows = length tr"
    and row: "i < length tr \<Longrightarrow> sorted_memory_assign (random i) (map converted tr) i = Some (rows ! i)" for i
    using those_map_rows [OF assms [unfolded sorted_synthesize_def]] by simp_all
  have "sr_trace (rows ! i) = converted (tr ! i)" if "i < length tr" for i
    using row [OF that] that by (auto simp: sorted_memory_assign_def Let_def bind_eq_Some_conv split: if_split_asm dest!: sym [of _ "rows ! i"] sym [of _ "rows ! 0"])
  then show ?thesis using len by (intro nth_equalityI) simp_all
qed

definition circuit_fits :: "nat \<Rightarrow> 'r list \<Rightarrow> bool" where
  "circuit_fits usable trace \<longleftrightarrow> 2 * region_height trace \<le> usable"

lemma circuit_fits_simps:
  assumes "circuit_fits usable trace"
  shows "length trace \<le> usable" "max (length trace) table_height \<le> usable"
    "region_height trace + max (length trace) table_height \<le> usable"
  using assms by (auto simp: circuit_fits_def region_height_def)

lemma sort_keys_increase:
  assumes "time_ordered tr"
  shows "sorted_wrt (<) (map access_key (sort_trace_by_address_time tr))"
proof -
  have "distinct (map access_key tr)"
    using assms strict_sorted_iff [of "map tr_time_log tr"]
    by (auto simp: time_ordered_def distinct_map access_key_def inj_on_def)
  then have "distinct (map access_key (sort_trace_by_address_time tr))"
    by (simp add: sort_trace_by_address_time_def distinct_map)
  moreover have "sorted (map access_key (sort_trace_by_address_time tr))"
    by (simp add: sort_trace_by_address_time_def)
  ultimately show ?thesis by (simp add: strict_sorted_iff)
qed

lemma keys_increase_distinct: "sorted_wrt (<) (map access_key tr) \<Longrightarrow> \<not> key_repeated tr"
  by (fastforce simp: key_repeated_def successively_nth keys_increase_nth)

lemma time_ordered_distinct: "time_ordered tr \<Longrightarrow> \<not> time_repeated tr"
  by (fastforce simp: time_repeated_def successively_nth time_ordered_def sorted_wrt_iff_nth_less)

text \<open>The circuit of the backend on a trace that fits, with the trace sorted.\<close>

lemma consistency_synthesize_cases:
  fixes random :: "nat \<Rightarrow> 'f::field"
  assumes fits: "circuit_fits usable tr" and s: "s = sort_trace_by_address_time tr"
  shows "consistency_synthesize usable random seeds tr s =
    (case sorted_synthesize random (map converted s) of None \<Rightarrow> None | Some srows \<Rightarrow>
      (case original_synthesize (map converted tr) of None \<Rightarrow> None | Some orows \<Rightarrow>
        Some (Inr \<lparr>cr_permutation = permutation_synthesize usable
            \<lparr>pc_input = map (compress fp_from fp_from seeds) tr, pc_shuffle = map (compress fp_from fp_from seeds) s\<rparr>,
          cr_sorted = srows, cr_original = orows\<rparr>)))"
proof -
  have len: "length s = length tr" by (simp add: s sort_trace_by_address_time_def)
  then have h: "region_height s = region_height tr" by (simp add: region_height_def)
  note f = circuit_fits_simps [OF fits]
  have "assign_region usable 0 table_height (\<lambda>offset. sorted_memory_assign (random offset) (map converted s) offset) (length s)
      = map_option Inr (sorted_synthesize random (map converted s))"
    using f by (subst assign_region_fits) (simp_all add: len sorted_synthesize_def)
  moreover have "assign_region usable (region_height s) table_height (original_memory_assign (map converted tr :: 'f cells list)) (length tr)
      = map_option Inr (original_synthesize (map converted tr))"
    using f by (subst assign_region_fits) (simp_all add: h original_synthesize_def)
  ultimately show ?thesis
    using f by (simp add: consistency_synthesize_def PermutationCircuit_new_def len Let_def split: option.splits)
qed

lemma sort_permutation_holds:
  assumes "length tr \<le> usable" "s = sort_trace_by_address_time tr"
  shows "shuffle_holds (permutation_synthesize usable \<lparr>pc_input = map f tr, pc_shuffle = map f s\<rparr>)"
  using assms by (subst shuffle_holds_iff) (simp_all add: sort_trace_by_address_time_def)

text \<open>A trace that does not fit is a synthesis error, found before any row panics.\<close>

lemma those_map_prefix:
  assumes "those (map f [0..<n]) = Some ys" "k \<le> n"
  shows "\<exists>zs. those (map f [0..<k]) = Some zs"
proof (rule ccontr)
  assume "\<nexists>zs. those (map f [0..<k]) = Some zs"
  moreover have "f i = Some (the (f i))" if "i < n" for i
    using those_map_None [OF that, of f] assms(1) by (cases "f i") auto
  then have "those (map f [0..<k]) = Some (map (\<lambda>i. the (f i)) [0..<k])"
    using assms(2) by (intro those_map_nth) simp
  ultimately show False by blast
qed

lemma assign_region_overflow:
  assumes "those (map row [0..<n]) = Some rows" "usable < start + max n height"
  shows "assign_region usable start height row n = Some (Inl ())"
  using those_map_prefix [OF assms(1), of "min n (usable - start)"] assms(2)
  by (auto simp: assign_region_def)

lemma consistency_overflow:
  fixes random :: "nat \<Rightarrow> 'f::field"
  assumes fits: "\<not> circuit_fits usable tr" and s: "s = sort_trace_by_address_time tr"
    and "sorted_synthesize random (map converted s) = Some srows"
    and "original_synthesize (map converted tr :: 'f cells list) = Some orows"
  shows "consistency_synthesize usable random seeds tr s = Some (Inl ())"
proof -
  have len: "length s = length tr" by (simp add: s sort_trace_by_address_time_def)
  then have h: "region_height s = region_height tr" by (simp add: region_height_def)
  have S: "those (map (\<lambda>offset. sorted_memory_assign (random offset) (map converted s) offset) [0..<length s]) = Some srows"
    and O: "those (map (original_memory_assign (map converted tr :: 'f cells list)) [0..<length tr]) = Some orows"
    using assms(3,4) by (simp_all add: sorted_synthesize_def original_synthesize_def)
  note syn = consistency_synthesize_def PermutationCircuit_new_def Let_def
  consider "usable < length tr" | "length tr \<le> usable" "usable < max (length s) table_height"
    | "length tr \<le> usable" "max (length s) table_height \<le> usable" "usable < region_height s + max (length tr) table_height"
  proof -
    define M where "M = max (length tr) table_height"
    have "\<not> 2 * M \<le> usable" using fits by (simp add: circuit_fits_def region_height_def M_def)
    with that show thesis unfolding region_height_def len M_def [symmetric] by linarith
  qed
  then show ?thesis
  proof cases
    case 2
    then show ?thesis using assign_region_overflow [OF S, of usable 0 table_height] by (simp add: syn len)
  next
    case 3
    have "assign_region usable 0 table_height (\<lambda>offset. sorted_memory_assign (random offset) (map converted s) offset)
        (length s) = Some (Inr srows)"
      using 3 by (subst assign_region_fits) (simp_all only: S option.map add_0)
    with 3 show ?thesis using assign_region_overflow [OF O 3(3)] by (simp add: syn len)
  qed (simp add: syn len)
qed

lemma sort_keys_strict:
  assumes "\<not> key_repeated (sort_trace_by_address_time tr)"
  shows "sorted_wrt (<) (map access_key (sort_trace_by_address_time tr))"
proof -
  let ?k = "map access_key (sort_trace_by_address_time tr)"
  have "sorted ?k" by (simp add: sort_trace_by_address_time_def)
  then have "?k ! i < ?k ! Suc i" if "Suc i < length ?k" for i
    using assms that sorted_nth_mono [of ?k i "Suc i"]
    by (auto simp: key_repeated_def successively_nth order_le_less)
  then have "successively (<) ?k" by (simp add: successively_nth)
  then show ?thesis by (simp add: successively_iff_sorted_wrt_strong)
qed

text \<open>The prover inverts the difference of neighbours, so equal ones panic.\<close>

definition neighbours_repeat :: "access list \<Rightarrow> bool" where
  "neighbours_repeat tr \<longleftrightarrow> time_repeated tr \<or> key_repeated (sort_trace_by_address_time tr)"

lemma consistency_circuit_panics:
  assumes "circuit_fits usable tr" "neighbours_repeat tr"
  shows "consistency_circuit usable (alpha :: 'f::field) random seeds tr (sort_trace_by_address_time tr) = None"
proof -
  have "sorted_synthesize random (map converted (sort_trace_by_address_time tr) :: 'f cells list) = None \<or>
      original_synthesize (map converted tr :: 'f cells list) = None"
    using assms(2) by (auto simp: neighbours_repeat_def original_synthesize_panics sorted_synthesize_panics)
  then show ?thesis unfolding consistency_circuit_def consistency_synthesize_cases [OF assms(1) refl]
    by (auto split: option.split)
qed

lemma consistency_circuit_runs:
  fixes alpha :: "'f::field" and random :: "nat \<Rightarrow> 'f"
  assumes wide: "wide_field TYPE('f) (2 ^ 248)" and random: "\<And>i. random i \<noteq> 0" and "\<not> neighbours_repeat tr"
  shows "consistency_circuit usable alpha random seeds tr (sort_trace_by_address_time tr) =
    Some (if circuit_fits usable tr
      then Inr (starts_at_zero tr \<and> time_ordered tr \<and> low_consistent (sort_trace_by_address_time tr)) else Inl ())"
proof -
  let ?s = "sort_trace_by_address_time tr"
  have small: "wide_field TYPE('f) (2 ^ 64)" by (rule wide_field_mono [OF wide]) simp
  have t: "\<not> time_repeated tr" and k: "\<not> key_repeated ?s" using assms(3) by (simp_all add: neighbours_repeat_def)
  from original_synthesize_exact [where alpha = alpha and m = 40, OF small _ t] obtain orows where
    o: "original_synthesize (map converted tr) = Some orows"
      "rows_satisfied (original_checks (alpha_powers alpha 40)) original_blank orows
        \<longleftrightarrow> starts_at_zero tr \<and> time_ordered tr" by auto
  from sorted_synthesize_exact [where alpha = alpha and m = 40 and random = random, OF wide random _ k]
  obtain srows where
    s: "sorted_synthesize random (map converted ?s) = Some srows"
      "rows_satisfied (sorted_checks (alpha_powers alpha 40)) sorted_blank srows \<longleftrightarrow> low_consistent ?s"
    using sort_keys_strict [OF k] by auto
  show ?thesis
  proof (cases "circuit_fits usable tr")
    case True
    note holds = sort_permutation_holds [where f = "compress fp_from fp_from seeds :: access \<Rightarrow> 'f",
        OF circuit_fits_simps(1) [OF True] refl]
    show ?thesis
      unfolding consistency_circuit_def consistency_synthesize_cases [OF True refl] o(1) s(1)
      using True o(2) s(2) holds by (simp add: consistency_constraints_def)
  next
    case False
    then show ?thesis
      unfolding consistency_circuit_def consistency_overflow [OF False refl s(1) o(1)] by simp
  qed
qed

lemma distinct_neighbours:
  assumes "distinct (map tr_time_log tr)"
  shows "\<not> neighbours_repeat tr"
proof -
  have "distinct (map access_key tr)" using assms by (auto simp: distinct_map access_key_def inj_on_def)
  then have "distinct (map access_key (sort_trace_by_address_time tr))" "sorted (map access_key (sort_trace_by_address_time tr))"
    by (simp_all add: sort_trace_by_address_time_def distinct_map)
  then have "sorted_wrt (<) (map access_key (sort_trace_by_address_time tr))" by (simp add: strict_sorted_iff)
  moreover have "\<not> time_repeated tr"
    using assms by (auto simp: time_repeated_def successively_nth distinct_conv_nth)
  ultimately show ?thesis using keys_increase_distinct by (auto simp: neighbours_repeat_def)
qed

lemma consistency_circuit_aux:
  fixes alpha :: "'f::field" and random :: "nat \<Rightarrow> 'f"
  assumes "wide_field TYPE('f) (2 ^ 248)" and "\<And>i. random i \<noteq> 0" and "distinct (map tr_time_log tr)"
  shows "consistency_circuit usable alpha random seeds tr (sort_trace_by_address_time tr) =
    Some (if circuit_fits usable tr
      then Inr (starts_at_zero tr \<and> time_ordered tr \<and> low_consistent (sort_trace_by_address_time tr)) else Inl ())"
  by (rule consistency_circuit_runs [OF assms(1,2) distinct_neighbours [OF assms(3)]])

text \<open>Where the skipped top bytes are zero, the circuit decides memory consistency.\<close>

definition low_bounded :: "access list \<Rightarrow> bool" where
  "low_bounded tr \<longleftrightarrow> (\<forall>r \<in> set tr. tr_address r < 2 ^ 248 \<and> tr_value r < 2 ^ 248)"

lemma low_unat: "(x :: u256) < 2 ^ 248 \<Longrightarrow> low x = unat x"
proof -
  assume "x < 2 ^ 248"
  then have "unat x < unat (2 ^ 248 :: u256)" by (simp only: word_less_nat_alt)
  also have "unat (2 ^ 248 :: u256) = 2 ^ 248" by simp
  finally show ?thesis by (simp add: low_def)
qed

lemma low_step_bounded:
  assumes "low_bounded [p, r]"
  shows "low_step p r \<longleftrightarrow> sorted_step p r"
  using assms by (auto simp: low_bounded_def low_step_def sorted_step_def low_unat word_unat_eq_iff)

lemma low_consistent_bounded:
  assumes "low_bounded tr"
  shows "low_consistent tr \<longleftrightarrow> sorted_consistent tr"
proof -
  have "low_step (tr ! i) (tr ! Suc i) \<longleftrightarrow> sorted_step (tr ! i) (tr ! Suc i)" if "Suc i < length tr" for i
    using assms that by (intro low_step_bounded) (simp add: low_bounded_def)
  then show ?thesis by (auto simp: low_consistent_def sorted_consistent_def successively_nth)
qed

lemma low_bounded_sort: "low_bounded (sort_trace_by_address_time tr) \<longleftrightarrow> low_bounded tr"
  by (simp add: low_bounded_def sort_trace_by_address_time_def)

lemma low_consistent_memory:
  assumes "time_ordered tr" "low_bounded tr"
  shows "low_consistent (sort_trace_by_address_time tr) \<longleftrightarrow> memory_consistent tr"
  using assms by (simp add: low_consistent_bounded low_bounded_sort sorted_check_iff)

lemma time_ordered_times: "time_ordered tr \<Longrightarrow> distinct (map tr_time_log tr)"
  by (simp add: time_ordered_def strict_sorted_iff)


section \<open>Properties\<close>

text \<open>
  C5: on a trace and its sorting the composed circuit panics exactly when two neighbours of the
  trace share their time or two of its sorting their address and time. Otherwise it does not fit,
  unless twice the larger of the trace length and 256 rows are usable, or its constraints
  hold exactly when the trace starts at time zero, is in time order and its sorting is
  consistent in the low 31 bytes of addresses and values: the top byte is not looked at.
  Only for a trace that both repeats a neighbour and does not fit is nothing said.
\<close>

theorem consistency_circuit_exact:
  fixes alpha :: "'f::field" and random :: "nat \<Rightarrow> 'f"
  assumes "wide_field TYPE('f) (2 ^ 248)" and "\<And>i. random i \<noteq> 0"
    and "neighbours_repeat tr \<Longrightarrow> circuit_fits usable tr"
  shows "consistency_circuit usable alpha random seeds tr (sort_trace_by_address_time tr) =
    (if neighbours_repeat tr then None
     else if \<not> circuit_fits usable tr then Some (Inl ())
     else Some (Inr (starts_at_zero tr \<and> time_ordered tr \<and> low_consistent (sort_trace_by_address_time tr))))"
proof (cases "neighbours_repeat tr")
  case True
  then show ?thesis using consistency_circuit_panics [OF assms(3) True] by simp
next
  case False
  then show ?thesis using consistency_circuit_runs [OF assms(1,2) False] by simp
qed

text \<open>
  A consistent trace, one that reads a wrong value, one that is wrong in the top byte only, one
  with a repeated time, and one of 600 records, which does not fit the 1024 rows of \<open>k = 10\<close>.
\<close>

theorem consistency_circuit_exact_witness:
  "(let run = (\<lambda>tr. consistency_circuit 1018 (3 :: rat) (\<lambda>_. 1) [1, 2, 3, 4, 5] tr (sort_trace_by_address_time tr)) in
     run [TraceRecord_new 0 0 Write 0 5, TraceRecord_new 1 0 Read 0 5] = Some (Inr True) \<and>
     run [TraceRecord_new 0 0 Write 0 5, TraceRecord_new 1 0 Read 0 6] = Some (Inr False) \<and>
     run [TraceRecord_new 0 0 Write 0 0, TraceRecord_new 1 0 Read 0 (2 ^ 248)] = Some (Inr True) \<and>
     run [TraceRecord_new 0 0 Write 0 5, TraceRecord_new 0 0 Write 1 5] = None \<and>
     run (map (\<lambda>i. TraceRecord_new (word_of_nat i) 0 Write 0 0) [0..<600]) = Some (Inl ()))"
proof -
  let ?run = "\<lambda>tr. consistency_circuit 1018 (3 :: rat) (\<lambda>_. 1) [1, 2, 3, 4, 5] tr (sort_trace_by_address_time tr)"
  let ?long = "map (\<lambda>i. TraceRecord_new (word_of_nat i) 0 Write 0 0) [0..<600] :: access list"
  note exact = consistency_circuit_exact [OF wide_field_rat, of "\<lambda>_. 1" _ 1018 3 "[1, 2, 3, 4, 5]"]
  have small: "?run [TraceRecord_new 0 0 Write 0 a, TraceRecord_new 1 0 Read 0 b] =
      Some (Inr (low b = low a))" for a b
    by (subst exact) (simp_all add: circuit_fits_def region_height_def table_height_def neighbours_repeat_def time_repeated_def
        key_repeated_def sort_trace_by_address_time_def access_key_def TraceRecord_new_def starts_at_zero_def time_ordered_def
        low_consistent_def low_step_def)
  have "?run [TraceRecord_new 0 0 Write 0 5, TraceRecord_new 0 0 Write 1 5] = None"
    by (subst exact) (simp_all add: circuit_fits_def region_height_def table_height_def neighbours_repeat_def time_repeated_def TraceRecord_new_def)
  moreover have "?run ?long = Some (Inl ())"
  proof -
    have "inj_on (word_of_nat :: nat \<Rightarrow> u64) {0..<600}"
      by (rule inj_onI) (simp add: word_of_nat_eq_iff take_bit_eq_mod)
    then have "\<not> neighbours_repeat ?long"
      by (intro distinct_neighbours) (simp add: distinct_map o_def TraceRecord_new_def)
    moreover have "\<not> circuit_fits 1018 ?long" by (simp add: circuit_fits_def region_height_def table_height_def)
    ultimately show ?thesis by (subst exact) (simp_all only: if_False if_True one_neq_zero not_False_eq_True simp_thms)
  qed
  ultimately show ?thesis unfolding Let_def small by (simp add: low_def)
qed

text \<open>
  C38: nothing ties the three parts of the composed circuit together: whatever trace the table
  of the original circuit holds, whatever trace the table of the sorted circuit holds, permutations
  of each other or not, and whatever trace is in both columns of the shuffle argument, all
  constraints are satisfied as soon as the first is in time order from time zero and the second is
  sorted and consistent in itself.
\<close>

theorem consistency_circuit_unlinked:
  fixes alpha :: "'f::field" and tr tr' tr'' :: "access list"
  assumes "wide_field TYPE('f) (2 ^ 248)" and "starts_at_zero tr" and "time_ordered tr"
    and "sorted_wrt (<) (map access_key tr')" and "low_consistent tr'"
  shows "\<exists>rows. consistency_constraints alpha rows \<and> map or_trace (cr_original rows) = map converted tr \<and>
    map sr_trace (cr_sorted rows) = map converted tr' \<and>
    cr_permutation rows = permutation_synthesize usable
      \<lparr>pc_input = map (compress fp_from fp_from seeds) tr'', pc_shuffle = map (compress fp_from fp_from seeds) tr''\<rparr>"
proof -
  have small: "wide_field TYPE('f) (2 ^ 64)" by (rule wide_field_mono [OF assms(1)]) simp
  from sorted_synthesize_exact [where alpha = alpha and m = 40 and random = "\<lambda>_. 1", OF assms(1) _ _ keys_increase_distinct [OF assms(4)]]
  obtain srows where s0: "sorted_synthesize (\<lambda>_. 1) (map converted tr') = Some srows"
    and s: "rows_satisfied (sorted_checks (alpha_powers alpha 40)) sorted_blank srows"
    using assms(4,5) by auto
  from original_synthesize_exact [where alpha = alpha and m = 40, OF small _ time_ordered_distinct [OF assms(3)]]
  obtain orows where o: "original_synthesize (map converted tr) = Some orows"
    "rows_satisfied (original_checks (alpha_powers alpha 40)) original_blank orows"
    using assms(2,3) by auto
  let ?rows = "\<lparr>cr_permutation = permutation_synthesize usable
      \<lparr>pc_input = map (compress fp_from fp_from seeds) tr'', pc_shuffle = map (compress fp_from fp_from seeds) tr''\<rparr>,
    cr_sorted = srows, cr_original = orows\<rparr>"
  have "consistency_constraints alpha ?rows" using s o(2)
    by (simp add: consistency_constraints_def shuffle_holds_def shuffle_exprs_columns)
  moreover have "map or_trace orows = map converted tr" by (rule original_synthesize_traces [OF o(1)])
  moreover have "map sr_trace srows = map converted tr'" by (rule sorted_synthesize_traces [OF s0])
  ultimately show ?thesis by (intro exI [of _ ?rows]) (simp only: consistency_rows.select_convs simp_thms)
qed

text \<open>A wrong read next to the table of another trace, all values far below the top byte.\<close>

theorem consistency_circuit_unlinked_witness:
  "\<exists>rows tr tr'. consistency_constraints (3 :: rat) rows \<and> map or_trace (cr_original rows) = map converted tr \<and>
    map sr_trace (cr_sorted rows) = map converted tr' \<and> mset tr \<noteq> mset tr' \<and> low_bounded (tr @ tr') \<and> \<not> memory_consistent tr"
proof -
  let ?bad = "[TraceRecord_new 0 0 Write 0 5, TraceRecord_new 1 0 Read 0 6] :: access list"
  let ?good = "[TraceRecord_new 0 0 Write 7 9] :: access list"
  have "starts_at_zero ?bad" "time_ordered ?bad" "sorted_wrt (<) (map access_key ?good)" "low_consistent ?good"
    by (simp_all add: starts_at_zero_def time_ordered_def low_consistent_def TraceRecord_new_def)
  from consistency_circuit_unlinked [OF wide_field_rat this, of 3 1018 "[1, 2, 3, 4, 5]" "[]"]
  obtain rows where "consistency_constraints (3 :: rat) rows" "map or_trace (cr_original rows) = map converted ?bad"
    "map sr_trace (cr_sorted rows) = map converted ?good" by blast
  moreover have "mset ?bad \<noteq> mset ?good" by (metis (no_types) length_Cons mset_eq_length n_not_Suc_n list.size(3) nat.inject)
  moreover have "low_bounded (?bad @ ?good)" "\<not> memory_consistent ?bad"
    by (simp_all add: low_bounded_def memory_consistent_def TraceRecord_new_def)
  ultimately show ?thesis by blast
qed

end
