(* ===== verification/Uair_Layout.thy ===== *)
theory Uair_Layout
  imports Benes_Routing
begin

text \<open>
  The column layout of the memory-consistency UAIR (\<open>NetLayout\<close> of
  \<open>zkmemory/src/zincplus/uair.rs\<close>): network states of 21 payload columns, slack columns,
  integer columns, and the sorted list of shifted columns the constraints read.
\<close>

section \<open>Constants\<close>

definition NUM_ADDR_LIMBS :: nat where "NUM_ADDR_LIMBS = 8"
definition NUM_TIME_LIMBS :: nat where "NUM_TIME_LIMBS = 2"
definition NUM_STACK_DEPTH_LIMBS :: nat where "NUM_STACK_DEPTH_LIMBS = 2"
definition NUM_VALUE_LIMBS :: nat where "NUM_VALUE_LIMBS = 8"
definition NUM_LEX_LIMBS :: nat where "NUM_LEX_LIMBS = NUM_ADDR_LIMBS + NUM_TIME_LIMBS"
definition PL_ADDR :: nat where "PL_ADDR = 0"
definition PL_TIME :: nat where "PL_TIME = PL_ADDR + NUM_ADDR_LIMBS"
definition PL_STACK_DEPTH :: nat where "PL_STACK_DEPTH = PL_TIME + NUM_TIME_LIMBS"
definition PL_VALUE :: nat where "PL_VALUE = PL_STACK_DEPTH + NUM_STACK_DEPTH_LIMBS"
definition PL_INSTR :: nat where "PL_INSTR = PL_VALUE + NUM_VALUE_LIMBS"
definition PAYLOAD_CELLS :: nat where "PAYLOAD_CELLS = PL_INSTR + 1"
definition MIN_NUM_VARS :: nat where "MIN_NUM_VARS = 3"
definition MAX_NUM_VARS :: nat where "MAX_NUM_VARS = 16"

lemmas limb_counts = NUM_ADDR_LIMBS_def NUM_TIME_LIMBS_def NUM_STACK_DEPTH_LIMBS_def
  NUM_VALUE_LIMBS_def NUM_LEX_LIMBS_def

lemma payload_offsets [simp]:
  "PL_ADDR = 0" "PL_TIME = 8" "PL_STACK_DEPTH = 10" "PL_VALUE = 12" "PL_INSTR = 20"
  "PAYLOAD_CELLS = 21" "NUM_ADDR_LIMBS = 8" "NUM_VALUE_LIMBS = 8" "NUM_LEX_LIMBS = 10"
  by (simp_all add: PL_ADDR_def PL_TIME_def PL_STACK_DEPTH_def PL_VALUE_def PL_INSTR_def
      PAYLOAD_CELLS_def limb_counts)

section \<open>The layout\<close>

record net_layout =
  lay_num_vars :: nat
  lay_num_layers :: nat
  lay_num_states :: nat
  num_bp_cols :: nat
  num_int_cols :: nat
  num_public_int_cols :: nat
  bp_slack_sorted :: nat
  bp_slack_original :: nat
  int_is_first :: nat
  int_upper :: nat
  int_s :: nat
  int_w :: nat
  int_time_hi_sel :: nat
  int_time_lo_sel :: nat
  int_switch :: nat
  shifts :: "(nat \<times> nat) list"

definition state_col :: "nat \<Rightarrow> nat \<Rightarrow> nat" where
  "state_col state payload = state * PAYLOAD_CELLS + payload"

definition original_state :: "net_layout \<Rightarrow> nat" where
  "original_state L = lay_num_states L - 1"

definition layout_stride :: "net_layout \<Rightarrow> nat \<Rightarrow> nat option" where
  "layout_stride L layer = do { k \<leftarrow> stride_bit (lay_num_vars L) layer; Some (2 ^ k) }"

text \<open>The shift amounts of one column, and the whole list.\<close>

definition shift_amounts :: "net_layout \<Rightarrow> nat \<Rightarrow> nat \<Rightarrow> nat list option" where
  "shift_amounts L state payload =
     (if state = 0 then do {
        let in_transitions = (payload \<noteq> PL_STACK_DEPTH \<and> payload \<noteq> PL_STACK_DEPTH + 1);
        s \<leftarrow> layout_stride L 0;
        Some ((if in_transitions then [1] else []) @ [s]) }
      else if state < original_state L then do {
        a \<leftarrow> layout_stride L (state - 1);
        b \<leftarrow> layout_stride L state;
        Some [min a b, max a b] }
      else do {
        let in_transitions = (payload = PL_TIME \<or> payload = PL_TIME + 1);
        s \<leftarrow> layout_stride L (lay_num_layers L - 1);
        Some ((if in_transitions then [1] else []) @ [s]) })"

definition build_shifts :: "net_layout \<Rightarrow> (nat \<times> nat) list option" where
  "build_shifts L = do {
     columns \<leftarrow> those (map (\<lambda>(state, payload). do {
       amounts \<leftarrow> shift_amounts L state payload;
       Some (map (Pair (state_col state payload)) amounts) })
     (List.product [0..<lay_num_states L] [0..<PAYLOAD_CELLS]));
     assert_ok (sorted_wrt (<) (concat columns));
     Some (concat columns) }"

definition NetLayout_new :: "nat \<Rightarrow> net_layout option" where
  "NetLayout_new num_vars = do {
     assert_ok (MIN_NUM_VARS \<le> num_vars \<and> num_vars \<le> MAX_NUM_VARS);
     layers \<leftarrow> num_layers num_vars;
     let num_states = layers + 1;
     let payload_cols = num_states * PAYLOAD_CELLS;
     let iup = 1;
     let ins = iup + num_vars;
     let iw = ins + NUM_LEX_LIMBS;
     let ihi = iw + 1;
     let ilo = ihi + 1;
     let isw = ilo + 1;
     let layout = \<lparr>lay_num_vars = num_vars, lay_num_layers = layers, lay_num_states = num_states,
       num_bp_cols = payload_cols + 2, num_int_cols = isw + layers,
       num_public_int_cols = 1 + num_vars, bp_slack_sorted = payload_cols,
       bp_slack_original = payload_cols + 1, int_is_first = 0, int_upper = iup, int_s = ins,
       int_w = iw, int_time_hi_sel = ihi, int_time_lo_sel = ilo, int_switch = isw, shifts = []\<rparr>;
     ss \<leftarrow> build_shifts layout;
     Some (layout\<lparr>shifts := ss\<rparr>) }"

text \<open>
  \<open>binary_search\<close> on the sorted list finds the position of a pair that is there and panics
  through \<open>expect\<close> on one that is not.
\<close>

fun position :: "'a \<Rightarrow> 'a list \<Rightarrow> nat option" where
  "position x [] = None"
| "position x (y # ys) = (if x = y then Some 0 else map_option Suc (position x ys))"

definition down_idx :: "net_layout \<Rightarrow> nat \<Rightarrow> nat \<Rightarrow> nat option" where
  "down_idx L col amount = position (col, amount) (shifts L)"

section \<open>Facts\<close>

lemma position_Some: "position x ys = Some i \<Longrightarrow> i < length ys \<and> ys ! i = x"
  by (induction ys arbitrary: i) (auto split: if_splits)

lemma position_in: "x \<in> set ys \<Longrightarrow> \<exists>i. position x ys = Some i"
  by (induction ys) auto

definition amounts :: "nat \<Rightarrow> nat \<Rightarrow> nat \<Rightarrow> nat list" where
  "amounts v state payload =
     (if state = 0 then (if payload \<noteq> 10 \<and> payload \<noteq> 11 then [1] else []) @ [2 ^ (v - 1)]
      else if state < 2 * v - 1
      then [min (2 ^ stride v (state - 1)) (2 ^ stride v state),
            max (2 ^ stride v (state - 1)) (2 ^ stride v state)]
      else (if payload = 8 \<or> payload = 9 then [1] else []) @ [2 ^ (v - 1)])"

definition shift_list :: "nat \<Rightarrow> (nat \<times> nat) list" where
  "shift_list v = concat (map (\<lambda>(state, payload). map (Pair (state_col state payload)) (amounts v state payload))
     (List.product [0..<2 * v] [0..<21]))"

definition layout_of :: "nat \<Rightarrow> net_layout" where
  "layout_of v =
     \<lparr>lay_num_vars = v, lay_num_layers = 2 * v - 1, lay_num_states = 2 * v,
      num_bp_cols = 42 * v + 2, num_int_cols = 3 * v + 13, num_public_int_cols = 1 + v,
      bp_slack_sorted = 42 * v, bp_slack_original = 42 * v + 1, int_is_first = 0, int_upper = 1,
      int_s = 1 + v, int_w = v + 11, int_time_hi_sel = v + 12, int_time_lo_sel = v + 13,
      int_switch = v + 14, shifts = shift_list v\<rparr>"

lemma shift_amounts_ok:
  assumes "lay_num_vars L = v" "lay_num_layers L = 2 * v - 1" "lay_num_states L = 2 * v" "1 \<le> v"
    and "state < 2 * v" "payload < 21"
  shows "shift_amounts L state payload = Some (amounts v state payload)"
  using assms
  by (auto simp: shift_amounts_def amounts_def layout_stride_def original_state_def stride_bit_Some
      stride_def Let_def)

lemma sorted_wrt_concat_map:
  assumes "\<And>x. x \<in> set xs \<Longrightarrow> sorted_wrt R (f x)"
    and "sorted_wrt (\<lambda>x y. \<forall>a \<in> set (f x). \<forall>b \<in> set (f y). R a b) xs"
  shows "sorted_wrt R (concat (map f xs))"
  using assms by (induction xs) (auto simp: sorted_wrt_append)

lemma sorted_wrt_product:
  fixes xs ys :: "nat list"
  assumes "sorted_wrt (<) xs" "sorted_wrt (<) ys"
  shows "sorted_wrt (\<lambda>(a, b) (c, d). a < c \<or> a = c \<and> b < d) (List.product xs ys)"
  using assms(1)
proof (induction xs)
  case (Cons x xs)
  then show ?case
    using assms(2) by (auto simp: sorted_wrt_append sorted_wrt_map)
qed simp

lemma stride_neighbours: "0 < l \<Longrightarrow> l < 2 * v - 1 \<Longrightarrow> stride v (l - 1) \<noteq> stride v l"
  by (auto simp: stride_def)

lemma amounts_sorted: "2 \<le> v \<Longrightarrow> sorted_wrt (<) (amounts v state payload)"
  using one_less_power [of "2 :: nat" "v - 1"] stride_neighbours [of state v]
    power_inject_exp [of "2 :: nat" "stride v (state - 1)" "stride v state"]
  by (auto simp: amounts_def min_def max_def)

lemma shift_list_sorted:
  assumes "2 \<le> v"
  shows "sorted_wrt (<) (shift_list v)"
  unfolding shift_list_def
proof (rule sorted_wrt_concat_map)
  fix x assume "x \<in> set (List.product [0..<2 * v] [0..<21 :: nat])"
  obtain state payload where x: "x = (state, payload)" by (cases x)
  show "sorted_wrt (<) (case x of (state, payload) \<Rightarrow> map (Pair (state_col state payload)) (amounts v state payload))"
    using amounts_sorted [OF assms, of state payload] by (simp add: x sorted_wrt_map)
next
  have col: "state_col a b < state_col c d" if "b < 21" "a < c \<or> a = c \<and> b < d" for a b c d
    using that by (auto simp: state_col_def)
  let ?f = "\<lambda>x. case x of (state, payload) \<Rightarrow> map (Pair (state_col state payload)) (amounts v state payload)"
  let ?P = "\<lambda>(a, b) (c, d). a < c \<or> a = c \<and> b < (d :: nat)"
  let ?L = "List.product [0..<2 * v] [0..<21 :: nat]"
  have mono: "\<forall>a \<in> set (?f x). \<forall>b \<in> set (?f y). a < b" if "x \<in> set ?L" "y \<in> set ?L" "?P x y" for x y
  proof -
    obtain a b c d where xy: "x = (a, b)" "y = (c, d)" by (cases x; cases y)
    with that(1,3) have "b < 21" "a < c \<or> a = c \<and> b < d" by auto
    from col [OF this] xy show ?thesis by auto
  qed
  have "sorted_wrt ?P ?L" by (rule sorted_wrt_product) simp_all
  with mono show "sorted_wrt (\<lambda>x y. \<forall>a \<in> set (?f x). \<forall>b \<in> set (?f y). a < b) ?L"
    by (rule sorted_wrt_mono_rel [of ?L ?P])
qed

lemma build_shifts_ok:
  assumes "lay_num_vars L = v" "lay_num_layers L = 2 * v - 1" "lay_num_states L = 2 * v" "2 \<le> v"
  shows "build_shifts L = Some (shift_list v)"
proof -
  have "those (map (\<lambda>(state, payload). do {
       a \<leftarrow> shift_amounts L state payload;
       Some (map (Pair (state_col state payload)) a) }) (List.product [0..<2 * v] [0..<21]))
     = Some (map (\<lambda>(state, payload). map (Pair (state_col state payload)) (amounts v state payload))
         (List.product [0..<2 * v] [0..<21]))"
    by (rule those_map_Some) (use assms(4) in \<open>auto simp: shift_amounts_ok [OF assms(1-3)]\<close>)
  then show ?thesis
    using shift_list_sorted [OF assms(4)] by (simp add: build_shifts_def assms(3) shift_list_def)
qed

lemma NetLayout_new_ok: "3 \<le> v \<Longrightarrow> v \<le> 16 \<Longrightarrow> NetLayout_new v = Some (layout_of v)"
  by (simp add: NetLayout_new_def MIN_NUM_VARS_def MAX_NUM_VARS_def num_layers_def Let_def
      build_shifts_ok) (simp add: layout_of_def)

lemma NetLayout_new_None: "v < 3 \<or> 16 < v \<Longrightarrow> NetLayout_new v = None"
  by (auto simp: NetLayout_new_def MIN_NUM_VARS_def MAX_NUM_VARS_def assert_ok_def)

lemma set_shift_list:
  "(c, a) \<in> set (shift_list v) \<longleftrightarrow>
     (\<exists>state < 2 * v. \<exists>payload < 21. c = state_col state payload \<and> a \<in> set (amounts v state payload))"
  by (simp add: shift_list_def image_iff Bex_def split_beta) blast

lemma down_idx_ok:
  assumes "state < 2 * v" "payload < 21" "a \<in> set (amounts v state payload)"
  obtains i where "down_idx (layout_of v) (state_col state payload) a = Some i"
    "i < length (shift_list v)" "shift_list v ! i = (state_col state payload, a)"
proof -
  have "(state_col state payload, a) \<in> set (shift_list v)"
    using assms by (auto simp: set_shift_list)
  from position_in [OF this] obtain i where "position (state_col state payload, a) (shift_list v) = Some i"
    by blast
  with position_Some [OF this] that show thesis by (simp add: down_idx_def layout_of_def)
qed

end
