(* ===== verification/Uair_Constraints.thy ===== *)
theory Uair_Constraints
  imports Uair_Layout
begin

text \<open>
  The constraints of the memory-consistency UAIR (\<open>constrain_general\<close> of
  \<open>zkmemory/src/zincplus/uair.rs\<close>). Expressions are polynomials with integer coefficients;
  a cell of a binary-polynomial column is the polynomial of the bits of a 32-bit word, an
  integer cell a constant. Constraints are read over the integers, as the comment in the
  source argues they may be; the proof system that checks them modulo a random prime is
  outside this theory.
\<close>

section \<open>Polynomials\<close>

type_synonym poly = "int list"

fun padd :: "poly \<Rightarrow> poly \<Rightarrow> poly" where
  "padd [] q = q"
| "padd p [] = p"
| "padd (a # p) (b # q) = (a + b) # padd p q"

definition pneg :: "poly \<Rightarrow> poly" where
  "pneg p = map uminus p"

definition psub :: "poly \<Rightarrow> poly \<Rightarrow> poly" where
  "psub p q = padd p (pneg q)"

fun pmul :: "poly \<Rightarrow> poly \<Rightarrow> poly" where
  "pmul [] q = []"
| "pmul (a # p) q = padd (map ((*) a) q) (0 # pmul p q)"

definition one :: poly where "one = [1]"

definition bit_poly :: "u32 \<Rightarrow> poly" where
  "bit_poly w = map (\<lambda>i. of_bool (bit w i)) [0..<32]"

text \<open>The value at 2 and vanishing.\<close>

definition eval2 :: "poly \<Rightarrow> int" where
  "eval2 p = foldr (\<lambda>c acc. c + 2 * acc) p 0"

definition vanishes :: "poly \<Rightarrow> bool" where
  "vanishes p = list_all (\<lambda>c. c = 0) p"

text \<open>A constraint: an expression is zero, or lies in the ideal of \<open>X - 2\<close>.\<close>

datatype uconstraint = Assert_zero poly | Assert_base2 poly

fun holds :: "uconstraint \<Rightarrow> bool" where
  "holds (Assert_zero p) = vanishes p"
| "holds (Assert_base2 p) = (eval2 p = 0)"

section \<open>One row\<close>

text \<open>
  The binary and integer cells of a row, and the down row: one cell for each declared pair
  of column and shift.
\<close>

record urow =
  up_bp :: "poly list"
  up_int :: "poly list"
  down_bp :: "poly list"

definition down_cell :: "net_layout \<Rightarrow> urow \<Rightarrow> nat \<Rightarrow> nat \<Rightarrow> poly option" where
  "down_cell L r col amount = do { i \<leftarrow> down_idx L col amount; Some (down_bp r ! i) }"

text \<open>The loop over the ten lexicographic limbs: (S5), and the sum of (S6).\<close>

fun lex_loop ::
    "net_layout \<Rightarrow> urow \<Rightarrow> poly list \<Rightarrow> nat list \<Rightarrow> poly option \<Rightarrow> poly option \<Rightarrow>
     (uconstraint list \<times> poly option) option" where
  "lex_loop L r selectors [] prefix increase = Some ([], increase)"
| "lex_loop L r selectors (j # js) prefix increase = do {
     let limb_col = state_col 0 (PL_ADDR + j);
     let s_j = selectors ! j;
     d \<leftarrow> down_cell L r limb_col 1;
     let d_j = psub d (up_bp r ! limb_col);
     let e_j = (case prefix of None \<Rightarrow> s_j | Some e \<Rightarrow> padd e s_j);
     let c = Assert_zero (pmul (psub one e_j) d_j);
     let term = pmul s_j d_j;
     let increase = (case increase of None \<Rightarrow> term | Some acc \<Rightarrow> padd acc term);
     (cs, increase) \<leftarrow> lex_loop L r selectors js (Some e_j) (Some increase);
     Some (c # cs, increase) }"

definition sorted_constraints :: "net_layout \<Rightarrow> urow \<Rightarrow> uconstraint list option" where
  "sorted_constraints L r = do {
     let is_first = up_int r ! int_is_first L;
     let instr_col = state_col 0 PL_INSTR;
     let instr = up_bp r ! instr_col;
     instr_next \<leftarrow> down_cell L r instr_col 1;
     let selectors = take NUM_LEX_LIMBS (drop (int_s L) (up_int r));
     let w = up_int r ! int_w L;
     let slack_sorted = up_bp r ! bp_slack_sorted L;
     let instr_minus_one = psub instr one;
     let instr_next_minus_one = psub instr_next one;
     let s1 = Assert_zero (pmul is_first instr_minus_one);
     let s2 = Assert_zero (pmul instr_next instr_next_minus_one);
     let s3 = map (\<lambda>s_j. Assert_zero (pmul s_j (psub s_j one))) selectors;
     let s_sum = foldl padd (selectors ! 0) (tl selectors);
     let s4 = Assert_zero (psub s_sum one);
     (s5, increase) \<leftarrow> lex_loop L r selectors [0..<NUM_LEX_LIMBS] None None;
     increase \<leftarrow> increase;
     let s6 = Assert_base2 (psub (psub increase one) slack_sorted);
     let a_same = padd (selectors ! NUM_ADDR_LIMBS) (selectors ! (NUM_ADDR_LIMBS + 1));
     let s7 = Assert_zero (psub w (pmul a_same instr_next_minus_one));
     s8 \<leftarrow> those (map (\<lambda>j. do {
       let value_col = state_col 0 (PL_VALUE + j);
       v \<leftarrow> down_cell L r value_col 1;
       Some (Assert_zero (pmul w (psub v (up_bp r ! value_col)))) }) [0..<NUM_VALUE_LIMBS]);
     let a_changed = psub one a_same;
     let s9 = Assert_zero (pmul a_changed instr_next_minus_one);
     Some ([s1, s2] @ s3 @ [s4] @ s5 @ [s6, s7] @ s8 @ [s9]) }"

definition original_constraints :: "net_layout \<Rightarrow> urow \<Rightarrow> uconstraint list option" where
  "original_constraints L r = do {
     let is_first = up_int r ! int_is_first L;
     let time_hi_col = state_col (original_state L) PL_TIME;
     let time_lo_col = state_col (original_state L) (PL_TIME + 1);
     let time_hi = up_bp r ! time_hi_col;
     let time_lo = up_bp r ! time_lo_col;
     let hi_sel = up_int r ! int_time_hi_sel L;
     let lo_sel = up_int r ! int_time_lo_sel L;
     let slack_original = up_bp r ! bp_slack_original L;
     let o1 = Assert_zero (pmul is_first time_hi);
     let o2 = Assert_zero (pmul is_first time_lo);
     let o3 = Assert_zero (pmul hi_sel (psub hi_sel one));
     let o3' = Assert_zero (pmul lo_sel (psub lo_sel one));
     let o4 = Assert_zero (psub (padd hi_sel lo_sel) one);
     hi \<leftarrow> down_cell L r time_hi_col 1;
     lo \<leftarrow> down_cell L r time_lo_col 1;
     let d_hi = psub hi time_hi;
     let d_lo = psub lo time_lo;
     let o5 = Assert_zero (pmul (psub one hi_sel) d_hi);
     let selected = padd (pmul hi_sel d_hi) (pmul lo_sel d_lo);
     let o6 = Assert_base2 (psub (psub selected one) slack_original);
     Some [o1, o2, o3, o3', o4, o5, o6] }"

text \<open>(N2) and (N3) for one payload cell, and a whole layer.\<close>

definition swap_constraints ::
    "net_layout \<Rightarrow> urow \<Rightarrow> nat \<Rightarrow> nat \<Rightarrow> poly \<Rightarrow> poly \<Rightarrow> nat \<Rightarrow> uconstraint list option" where
  "swap_constraints L r layer st msk switch payload = do {
     let in_col = state_col layer payload;
     let out_col = state_col (layer + 1) payload;
     let in_1 = up_bp r ! in_col;
     in_2 \<leftarrow> down_cell L r in_col st;
     let out_1 = up_bp r ! out_col;
     out_2 \<leftarrow> down_cell L r out_col st;
     let diff = psub in_2 in_1;
     let switched = pmul switch diff;
     Some [Assert_zero (pmul msk (psub (psub out_1 in_1) switched)),
           Assert_zero (pmul msk (padd (psub out_2 in_2) switched))] }"

definition layer_constraints :: "net_layout \<Rightarrow> urow \<Rightarrow> nat \<Rightarrow> uconstraint list option" where
  "layer_constraints L r layer = do {
     st \<leftarrow> layout_stride L layer;
     k \<leftarrow> stride_bit (lay_num_vars L) layer;
     let msk = up_int r ! (int_upper L + k);
     let switch = up_int r ! (int_switch L + layer);
     let n1 = Assert_zero (pmul msk (pmul switch (psub switch one)));
     cs \<leftarrow> those (map (swap_constraints L r layer st msk switch) [0..<PAYLOAD_CELLS]);
     Some (n1 # concat cs) }"

definition constrain_general :: "net_layout \<Rightarrow> urow \<Rightarrow> uconstraint list option" where
  "constrain_general L r = do {
     s \<leftarrow> sorted_constraints L r;
     o' \<leftarrow> original_constraints L r;
     n \<leftarrow> those (map (layer_constraints L r) [0..<lay_num_layers L]);
     Some (s @ o' @ concat n) }"

text \<open>
  The signature: binary, arbitrary and integer columns in all and public, and the shifts.
\<close>

definition signature :: "nat \<Rightarrow> ((nat \<times> nat \<times> nat) \<times> (nat \<times> nat \<times> nat) \<times> (nat \<times> nat) list) option" where
  "signature v = do {
     L \<leftarrow> NetLayout_new v;
     Some ((num_bp_cols L, 0, num_int_cols L), (0, 0, num_public_int_cols L), shifts L) }"

section \<open>A trace\<close>

record utrace =
  bp_cols :: "u32 list list"
  int_cols :: "int list list"

definition public_int_columns :: "nat \<Rightarrow> int list list" where
  "public_int_columns num_vars =
     (let num_rows = 2 ^ num_vars in
      map (\<lambda>i. of_bool (i = 0)) [0..<num_rows] #
      map (\<lambda>k. map (\<lambda>i. of_bool (drop_bit k i AND 1 = 0)) [0..<num_rows]) [0..<num_vars])"

text \<open>
  A shifted column below the last row is the proof system's choice: \<open>oob\<close> is the value
  of column \<open>col\<close> shifted by \<open>amount\<close> at row \<open>i\<close> there.
\<close>

definition shifted_cell :: "(nat \<Rightarrow> nat \<Rightarrow> nat \<Rightarrow> u32) \<Rightarrow> utrace \<Rightarrow> nat \<Rightarrow> nat \<Rightarrow> nat \<Rightarrow> u32" where
  "shifted_cell oob t col amount i =
     (if i + amount < length (bp_cols t ! col) then bp_cols t ! col ! (i + amount)
      else oob col amount i)"

definition row_at :: "(nat \<Rightarrow> nat \<Rightarrow> nat \<Rightarrow> u32) \<Rightarrow> net_layout \<Rightarrow> utrace \<Rightarrow> nat \<Rightarrow> urow" where
  "row_at oob L t i =
     \<lparr>up_bp = map (\<lambda>col. bit_poly (col ! i)) (bp_cols t),
      up_int = map (\<lambda>col. [col ! i]) (int_cols t),
      down_bp = map (\<lambda>(col, amount). bit_poly (shifted_cell oob t col amount i)) (shifts L)\<rparr>"

text \<open>
  What the verifier accepts: the signature's shape, the public columns, and the constraints
  at every row but the last.
\<close>

definition uair_satisfied :: "(nat \<Rightarrow> nat \<Rightarrow> nat \<Rightarrow> u32) \<Rightarrow> nat \<Rightarrow> utrace \<Rightarrow> bool" where
  "uair_satisfied oob v t \<longleftrightarrow>
     (case NetLayout_new v of
        None \<Rightarrow> False
      | Some L \<Rightarrow>
          length (bp_cols t) = num_bp_cols L \<and> list_all (\<lambda>col. length col = 2 ^ v) (bp_cols t) \<and>
          length (int_cols t) = num_int_cols L \<and> list_all (\<lambda>col. length col = 2 ^ v) (int_cols t) \<and>
          take (num_public_int_cols L) (int_cols t) = public_int_columns v \<and>
          list_all (\<lambda>i. case constrain_general L (row_at oob L t i) of
            None \<Rightarrow> False | Some cs \<Rightarrow> list_all holds cs) [0..<2 ^ v - 1])"

end
