(* ===== verification/Uair_Soundness.thy ===== *)
theory Uair_Soundness
  imports Uair_Constraints Trace_Consistency
begin

text \<open>
  What a trace that satisfies the constraints says: its first and last network states decode
  to two traces, one in time order and the other its rearrangement sorted by address and time,
  and the accesses are memory-consistent.
\<close>

section \<open>Values at 2\<close>

lemma eval2_simps [simp]:
  "eval2 [] = 0" "eval2 (c # p) = c + 2 * eval2 p"
  by (simp_all add: eval2_def)

lemma eval2_padd [simp]: "eval2 (padd p q) = eval2 p + eval2 q"
  by (induction p q rule: padd.induct) (simp_all add: algebra_simps)

lemma eval2_pneg [simp]: "eval2 (pneg p) = - eval2 p"
  by (induction p) (simp_all add: pneg_def)

lemma eval2_psub [simp]: "eval2 (psub p q) = eval2 p - eval2 q"
  by (simp add: psub_def)

lemma eval2_scale [simp]: "eval2 (map ((*) c) p) = c * eval2 p"
  by (induction p) (simp_all add: algebra_simps)

lemma eval2_pmul [simp]: "eval2 (pmul p q) = eval2 p * eval2 q"
  by (induction p) (simp_all add: algebra_simps)

lemma eval2_one [simp]: "eval2 one = 1"
  by (simp add: one_def)

lemma eval2_bit_poly [simp]: "eval2 (bit_poly w) = uint w"
proof -
  have h: "eval2 (map of_bool bs) = horner_sum of_bool 2 bs" for bs by (induction bs) simp_all
  have "bit_poly w = map of_bool (map (bit (uint w)) [0..<32])"
    by (simp add: bit_poly_def bit_uint_iff)
  then have "eval2 (bit_poly w) = horner_sum of_bool 2 (map (bit (uint w)) [0..<32])"
    by (simp only: h)
  also have "\<dots> = take_bit 32 (uint w)" by (rule horner_sum_bit_eq_take_bit)
  also have "\<dots> = uint w" by (rule take_bit_int_eq_self) (use unsigned_less [of w, where 'a = int] in simp_all)
  finally show ?thesis .
qed

fun expr :: "uconstraint \<Rightarrow> poly" where
  "expr (Assert_zero p) = p"
| "expr (Assert_base2 p) = p"

lemma vanishes_eval2: "vanishes p \<Longrightarrow> eval2 p = 0"
  by (induction p) (simp_all add: vanishes_def)

lemma holds_eval2: "holds c \<Longrightarrow> eval2 (expr c) = 0"
  by (cases c) (simp_all add: vanishes_eval2)

section \<open>One-hot selectors\<close>

lemma one_hot:
  fixes s :: "nat \<Rightarrow> int"
  assumes "\<forall>j < n. s j * (s j - 1) = 0" "(\<Sum>j < n. s j) = 1"
  obtains k where "k < n" "s k = 1" "\<forall>j < n. j \<noteq> k \<longrightarrow> s j = 0"
proof -
  have b: "s j = 0 \<or> s j = 1" if "j < n" for j using assms(1) that by auto
  have "\<exists>k < n. s k = 1"
  proof (rule ccontr)
    assume "\<not> (\<exists>k < n. s k = 1)"
    with b have "(\<Sum>j < n. s j) = 0" by (intro sum.neutral) auto
    with assms(2) show False by simp
  qed
  then obtain k where k: "k < n" "s k = 1" by blast
  have "(\<Sum>j < n. s j) = s k + (\<Sum>j \<in> {..<n} - {k}. s j)" using k by (simp add: sum.remove)
  then have "(\<Sum>j \<in> {..<n} - {k}. s j) = 0" using assms(2) k by simp
  moreover have "\<forall>j \<in> {..<n} - {k}. 0 \<le> s j" using b by force
  ultimately have "\<forall>j \<in> {..<n} - {k}. s j = 0" by (subst (asm) sum_nonneg_eq_0_iff) auto
  with k that show thesis by auto
qed

lemma first_difference:
  fixes s d :: "nat \<Rightarrow> int"
  assumes bool: "\<forall>j < n. s j * (s j - 1) = 0" and sum: "(\<Sum>j < n. s j) = 1"
    and eq: "\<forall>j < n. (1 - (\<Sum>i \<le> j. s i)) * d j = 0"
    and inc: "(\<Sum>j < n. s j * d j) - 1 - r = 0"
  obtains k where "k < n" "s k = 1" "\<forall>j < n. j \<noteq> k \<longrightarrow> s j = 0" "\<forall>j < k. d j = 0" "d k = 1 + r"
proof -
  obtain k where k: "k < n" "s k = 1" and o: "\<forall>j < n. j \<noteq> k \<longrightarrow> s j = 0"
    by (rule one_hot [OF bool sum])
  have "d j = 0" if "j < k" for j
  proof -
    have "(\<Sum>i \<le> j. s i) = 0" using o k that by (intro sum.neutral) auto
    then show ?thesis using eq [rule_format, of j] k that by simp
  qed
  moreover have "(\<Sum>j < n. s j * d j) = (\<Sum>j < n. if j = k then d k else 0)"
    using k o by (intro sum.cong) auto
  then have "d k = 1 + r" using inc k by simp
  ultimately show thesis using k o that by blast
qed

section \<open>The constraints of a row, as equations\<close>

text \<open>The shape of a trace, and its cells as integers.\<close>

definition shaped :: "nat \<Rightarrow> utrace \<Rightarrow> bool" where
  "shaped v t \<longleftrightarrow> 3 \<le> v \<and> v \<le> 16 \<and>
     length (bp_cols t) = 42 * v + 2 \<and> (\<forall>col \<in> set (bp_cols t). length col = 2 ^ v) \<and>
     length (int_cols t) = 3 * v + 13 \<and> (\<forall>col \<in> set (int_cols t). length col = 2 ^ v)"

definition cell :: "utrace \<Rightarrow> nat \<Rightarrow> nat \<Rightarrow> nat \<Rightarrow> u32" where
  "cell t state payload i = bp_cols t ! state_col state payload ! i"

definition icell :: "utrace \<Rightarrow> nat \<Rightarrow> nat \<Rightarrow> int" where
  "icell t col i = int_cols t ! col ! i"

lemma state_col_less: "state < 2 * v \<Longrightarrow> payload < 21 \<Longrightarrow> state_col state payload < 42 * v"
  by (simp add: state_col_def)

lemma layout_of_simps [simp]:
  "lay_num_vars (layout_of v) = v" "lay_num_layers (layout_of v) = 2 * v - 1"
  "lay_num_states (layout_of v) = 2 * v" "int_is_first (layout_of v) = 0" "int_upper (layout_of v) = 1"
  "int_s (layout_of v) = 1 + v" "int_w (layout_of v) = v + 11" "int_time_hi_sel (layout_of v) = v + 12"
  "int_time_lo_sel (layout_of v) = v + 13" "int_switch (layout_of v) = v + 14"
  "bp_slack_sorted (layout_of v) = 42 * v" "bp_slack_original (layout_of v) = 42 * v + 1"
  "shifts (layout_of v) = shift_list v" "original_state (layout_of v) = 2 * v - 1"
  "num_bp_cols (layout_of v) = 42 * v + 2" "num_int_cols (layout_of v) = 3 * v + 13"
  "num_public_int_cols (layout_of v) = 1 + v"
  by (simp_all add: layout_of_def original_state_def)

lemma up_cells:
  assumes "shaped v t"
  shows "state < 2 * v \<Longrightarrow> payload < 21 \<Longrightarrow>
      up_bp (row_at oob L t i) ! state_col state payload = bit_poly (cell t state payload i)"
    and "c < 42 * v + 2 \<Longrightarrow> up_bp (row_at oob L t i) ! c = bit_poly (bp_cols t ! c ! i)"
    and "c < 3 * v + 13 \<Longrightarrow> up_int (row_at oob L t i) ! c = [icell t c i]"
  using assms state_col_less [of state v payload]
  by (simp_all add: shaped_def row_at_def cell_def icell_def)

lemma down_cell_at:
  assumes sh: "shaped v t" and d: "state < 2 * v" "payload < 21" "a \<in> set (amounts v state payload)"
    and i: "i + a < 2 ^ v"
  shows "down_cell (layout_of v) (row_at oob (layout_of v) t i) (state_col state payload) a
    = Some (bit_poly (cell t state payload (i + a)))"
proof -
  obtain k where "down_idx (layout_of v) (state_col state payload) a = Some k"
    "k < length (shift_list v)" "shift_list v ! k = (state_col state payload, a)"
    by (rule down_idx_ok [OF d])
  moreover have "length (bp_cols t ! state_col state payload) = 2 ^ v"
    using sh state_col_less [OF d(1,2)] by (simp add: shaped_def)
  ultimately show ?thesis
    using i by (simp add: down_cell_def row_at_def shifted_cell_def cell_def)
qed

definition eval_opt :: "poly option \<Rightarrow> int" where
  "eval_opt p = (case p of None \<Rightarrow> 0 | Some q \<Rightarrow> eval2 q)"

lemma lex_loop_facts:
  assumes "lex_loop L r S [m..<n] prefix inc = Some (cs, inc')" "list_all holds cs" "m \<le> n"
    and "\<And>j. m \<le> j \<Longrightarrow> j < n \<Longrightarrow> down_cell L r (state_col 0 j) 1 = Some (dn j)"
    and s: "s = (\<lambda>j. eval2 (S ! j))" and d: "d = (\<lambda>j. eval2 (dn j) - eval2 (up_bp r ! state_col 0 j))"
  shows "(\<forall>j \<in> {m..<n}. (1 - (eval_opt prefix + (\<Sum>i \<in> {m..j}. s i))) * d j = 0) \<and>
    eval_opt inc' = eval_opt inc + (\<Sum>j \<in> {m..<n}. s j * d j)"
  using assms(1-4)
proof (induction "n - m" arbitrary: m prefix inc cs)
  case 0
  then show ?case by simp
next
  case (Suc k)
  then have mn: "m < n" by simp
  define e where "e = (case prefix of None \<Rightarrow> S ! m | Some q \<Rightarrow> padd q (S ! m))"
  define inc1 where "inc1 = (case inc of None \<Rightarrow> pmul (S ! m) (psub (dn m) (up_bp r ! state_col 0 m))
    | Some acc \<Rightarrow> padd acc (pmul (S ! m) (psub (dn m) (up_bp r ! state_col 0 m))))"
  have e: "eval2 e = eval_opt prefix + s m"
    by (simp add: e_def eval_opt_def s split: option.splits)
  have inc1: "eval2 inc1 = eval_opt inc + s m * d m"
    by (simp add: inc1_def eval_opt_def s d split: option.splits)
  obtain cs1 where cs: "cs = Assert_zero (pmul (psub one e) (psub (dn m) (up_bp r ! state_col 0 m))) # cs1"
    and run: "lex_loop L r S [Suc m..<n] (Some e) (Some inc1) = Some (cs1, inc')"
    using Suc.prems(1) mn Suc.prems(4) [of m]
    by (auto simp: upt_conv_Cons bind_eq_Some_conv Let_def simp flip: e_def inc1_def)
  have IH: "(\<forall>j \<in> {Suc m..<n}. (1 - (eval_opt (Some e) + (\<Sum>i \<in> {Suc m..j}. s i))) * d j = 0) \<and>
      eval_opt inc' = eval_opt (Some inc1) + (\<Sum>j \<in> {Suc m..<n}. s j * d j)"
    by (rule Suc.hyps(1) [OF _ run]) (use Suc.hyps(2) Suc.prems mn cs in auto)
  have "eval2 (expr (Assert_zero (pmul (psub one e) (psub (dn m) (up_bp r ! state_col 0 m))))) = 0"
    using Suc.prems(2) cs by (intro holds_eval2) simp
  then have first: "(1 - (eval_opt prefix + s m)) * d m = 0" by (simp add: e d)
  have "(1 - (eval_opt prefix + (\<Sum>i \<in> {m..j}. s i))) * d j = 0" if j: "j \<in> {m..<n}" for j
  proof (cases "j = m")
    case False
    then have "{m..j} = insert m {Suc m..j}" using j by auto
    then have "(\<Sum>i \<in> {m..j}. s i) = s m + (\<Sum>i \<in> {Suc m..j}. s i)" by simp
    moreover have "j \<in> {Suc m..<n}" using j False by simp
    ultimately show ?thesis using IH by (auto simp: eval_opt_def e algebra_simps)
  qed (use first in simp)
  moreover have "{m..<n} = insert m {Suc m..<n}" using mn by auto
  then have "(\<Sum>j \<in> {m..<n}. s j * d j) = s m * d m + (\<Sum>j \<in> {Suc m..<n}. s j * d j)" by simp
  ultimately show ?case using IH inc1 by (auto simp: eval_opt_def)
qed

lemma eval2_foldl: "eval2 (foldl padd p ps) = eval2 p + (\<Sum>q \<leftarrow> ps. eval2 q)"
  by (induction ps arbitrary: p) simp_all

lemma those_map_facts:
  assumes "those (map f xs) = Some ys" "list_all P ys" "x \<in> set xs"
  obtains y where "f x = Some y" "P y"
  using assms by (induction xs arbitrary: ys) (auto split: option.splits)

lemma down_sorted:
  assumes "shaped v t" "payload < 21" "payload \<noteq> 10" "payload \<noteq> 11" "Suc i < 2 ^ v"
  shows "down_cell (layout_of v) (row_at oob (layout_of v) t i) (state_col 0 payload) 1
    = Some (bit_poly (cell t 0 payload (Suc i)))"
  using down_cell_at [OF assms(1), of 0 payload 1 i] assms by (simp add: shaped_def amounts_def)

lemma selectors_at:
  assumes "shaped v t"
  shows "length (take 10 (drop (Suc v) (up_int (row_at oob L t i)))) = 10"
    and "j < 10 \<Longrightarrow> take 10 (drop (Suc v) (up_int (row_at oob L t i))) ! j = [icell t (v + 1 + j) i]"
  using assms up_cells(3) [OF assms, of "v + 1 + j" oob L i]
  by (simp_all add: shaped_def row_at_def)

lemma sum_list_selectors:
  assumes "length S = 10"
  shows "eval2 (foldl padd (S ! 0) (tl S)) = (\<Sum>j < 10. eval2 (S ! j))"
proof -
  obtain p ps where S: "S = p # ps" using assms by (cases S) auto
  have "(\<Sum>q \<leftarrow> S. eval2 q) = (\<Sum>j < 10. eval2 (S ! j))"
    using assms by (simp add: sum_list_sum_nth atLeast0LessThan)
  then show ?thesis by (simp add: eval2_foldl S)
qed

lemma sorted_row:
  assumes sh: "shaped v t" and i: "Suc i < 2 ^ v"
    and run: "sorted_constraints (layout_of v) (row_at oob (layout_of v) t i) = Some cs"
    and H: "list_all holds cs"
    and s: "s = (\<lambda>j. icell t (v + 1 + j) i)"
    and d: "d = (\<lambda>j. uint (cell t 0 j (Suc i)) - uint (cell t 0 j i))"
    and x: "x = uint (cell t 0 20 (Suc i))"
  shows "icell t 0 i * (uint (cell t 0 20 i) - 1) = 0" and "x * (x - 1) = 0"
    and "\<forall>j < 10. s j * (s j - 1) = 0" and "(\<Sum>j < 10. s j) = 1"
    and "\<forall>j < 10. (1 - (\<Sum>k \<le> j. s k)) * d j = 0"
    and "(\<Sum>j < 10. s j * d j) - 1 - uint (bp_cols t ! (42 * v) ! i) = 0"
    and "icell t (v + 11) i = (s 8 + s 9) * (x - 1)"
    and "\<forall>j < 8. icell t (v + 11) i * d (12 + j) = 0"
    and "(1 - (s 8 + s 9)) * (x - 1) = 0"
proof -
  let ?L = "layout_of v"
  let ?r = "row_at oob ?L t i"
  define S0 where "S0 = take 10 (drop (Suc v) (up_int ?r))"
  note S = selectors_at [OF sh, where oob = oob and L = ?L and i = i, folded S0_def]
  note D = down_sorted [OF sh _ _ _ i, where oob = oob]
  have v: "3 \<le> v" using sh by (simp add: shaped_def)
  have U: "up_bp ?r ! state_col 0 p = bit_poly (cell t 0 p i)" if "p < 21" for p
    using up_cells(1) [OF sh _ that, of 0 oob ?L i] v by simp
  have slack: "up_bp ?r ! (42 * v) = bit_poly (bp_cols t ! (42 * v) ! i)"
    using up_cells(2) [OF sh, of "42 * v" oob ?L i] by simp
  have ints: "up_int ?r ! 0 = [icell t 0 i]" "up_int ?r ! (v + 11) = [icell t (v + 11) i]"
    using up_cells(3) [OF sh, of 0 oob ?L i] up_cells(3) [OF sh, of "v + 11" oob ?L i] v by simp_all
  have Sj: "eval2 (S0 ! j) = s j" if "j < 10" for j using S(2) [OF that] by (simp add: s)
  obtain s5 inc s8 where
    lex: "lex_loop ?L ?r S0 [0..<10] None None = Some (s5, Some inc)"
    and val: "those (map (\<lambda>j. down_cell ?L ?r (state_col 0 (12 + j)) 1 \<bind> (\<lambda>y. Some (Assert_zero
        (pmul (up_int ?r ! (v + 11)) (psub y (up_bp ?r ! state_col 0 (12 + j))))))) [0..<8]) = Some s8"
    and h1: "holds (Assert_zero (pmul (up_int ?r ! 0) (psub (up_bp ?r ! state_col 0 20) one)))"
    and h2: "holds (Assert_zero (pmul (bit_poly (cell t 0 20 (Suc i)))
        (psub (bit_poly (cell t 0 20 (Suc i))) one)))"
    and h3: "list_all holds (map (\<lambda>s_j. Assert_zero (pmul s_j (psub s_j one))) S0)"
    and h4: "holds (Assert_zero (psub (foldl padd (S0 ! 0) (tl S0)) one))"
    and h5: "list_all holds s5"
    and h6: "holds (Assert_base2 (psub (psub inc one) (up_bp ?r ! (42 * v))))"
    and h7: "holds (Assert_zero (psub (up_int ?r ! (v + 11))
        (pmul (padd (S0 ! 8) (S0 ! 9)) (psub (bit_poly (cell t 0 20 (Suc i))) one))))"
    and h8: "list_all holds s8"
    and h9: "holds (Assert_zero (pmul (psub one (padd (S0 ! 8) (S0 ! 9)))
        (psub (bit_poly (cell t 0 20 (Suc i))) one)))"
    using run H D [of 20]
    by (auto simp: sorted_constraints_def bind_eq_Some_conv Let_def
        simp del: holds.simps upt_rec_numeral simp flip: S0_def)
  note E = holds_eval2 [OF h1] holds_eval2 [OF h2] holds_eval2 [OF h4] holds_eval2 [OF h6]
    holds_eval2 [OF h7] holds_eval2 [OF h9]
  show "icell t 0 i * (uint (cell t 0 20 i) - 1) = 0" using E(1) by (simp add: U ints)
  show "x * (x - 1) = 0" using E(2) by (simp add: x)
  show "\<forall>j < 10. s j * (s j - 1) = 0"
  proof (intro allI impI)
    fix j :: nat assume j: "j < 10"
    then have "holds (Assert_zero (pmul (S0 ! j) (psub (S0 ! j) one)))"
      using h3 S(1) by (simp add: list_all_length)
    from holds_eval2 [OF this] show "s j * (s j - 1) = 0"
      by (simp only: expr.simps eval2_pmul eval2_psub eval2_one Sj [OF j])
  qed
  show "(\<Sum>j < 10. s j) = 1" using E(3) by (simp add: sum_list_selectors [OF S(1)] Sj)
  define s' where "s' = (\<lambda>j. eval2 (S0 ! j))"
  define d' where "d' = (\<lambda>j. eval2 (bit_poly (cell t 0 j (Suc i))) - eval2 (up_bp ?r ! state_col 0 j))"
  have same: "s' j = s j" "d' j = d j" if "j < 10" for j
    using that Sj by (simp_all add: s'_def d'_def U d)
  have lex: "(\<forall>j \<in> {0..<10}. (1 - (eval_opt None + (\<Sum>k \<in> {0..j}. s' k))) * d' j = 0) \<and>
    eval_opt (Some inc) = eval_opt None + (\<Sum>j \<in> {0..<10}. s' j * d' j)"
    by (rule lex_loop_facts [OF lex h5 _ _ s'_def d'_def]) (use D in auto)
  show "\<forall>j < 10. (1 - (\<Sum>k \<le> j. s k)) * d j = 0"
  proof (intro allI impI)
    fix j :: nat assume j: "j < 10"
    have "(\<Sum>k \<in> {0..j}. s' k) = (\<Sum>k \<le> j. s k)" using same j by (intro sum.cong) auto
    moreover have "(1 - (eval_opt None + (\<Sum>k \<in> {0..j}. s' k))) * d' j = 0" using lex j by simp
    ultimately show "(1 - (\<Sum>k \<le> j. s k)) * d j = 0" using same(2) [OF j] by (simp add: eval_opt_def)
  qed
  have "(\<Sum>j \<in> {0..<10}. s' j * d' j) = (\<Sum>j < 10. s j * d j)" using same by (intro sum.cong) auto
  with lex E(4) show "(\<Sum>j < 10. s j * d j) - 1 - uint (bp_cols t ! (42 * v) ! i) = 0"
    by (simp add: eval_opt_def slack)
  show "icell t (v + 11) i = (s 8 + s 9) * (x - 1)" using E(5) by (simp add: ints Sj x)
  show "(1 - (s 8 + s 9)) * (x - 1) = 0" using E(6) by (simp add: Sj x)
  show "\<forall>j < 8. icell t (v + 11) i * d (12 + j) = 0"
  proof (intro allI impI)
    fix j :: nat assume j: "j < 8"
    obtain y where "down_cell ?L ?r (state_col 0 (12 + j)) 1 \<bind> (\<lambda>y. Some (Assert_zero
        (pmul (up_int ?r ! (v + 11)) (psub y (up_bp ?r ! state_col 0 (12 + j)))))) = Some y" "holds y"
      using those_map_facts [OF val h8, of j] j by auto
    with D [of "12 + j"] j holds_eval2 [of y] show "icell t (v + 11) i * d (12 + j) = 0"
      by (auto simp: ints U d simp del: holds.simps)
  qed
qed

lemma original_row:
  assumes sh: "shaped v t" and i: "Suc i < 2 ^ v"
    and run: "original_constraints (layout_of v) (row_at oob (layout_of v) t i) = Some cs"
    and H: "list_all holds cs"
    and g: "g = 2 * v - 1" and hi: "hi = icell t (v + 12) i" and lo: "lo = icell t (v + 13) i"
    and dh: "dh = uint (cell t g 8 (Suc i)) - uint (cell t g 8 i)"
    and dl: "dl = uint (cell t g 9 (Suc i)) - uint (cell t g 9 i)"
  shows "icell t 0 i * uint (cell t g 8 i) = 0" "icell t 0 i * uint (cell t g 9 i) = 0"
    and "hi * (hi - 1) = 0" "lo * (lo - 1) = 0" "hi + lo = 1"
    and "(1 - hi) * dh = 0" "hi * dh + lo * dl - 1 - uint (bp_cols t ! (42 * v + 1) ! i) = 0"
proof -
  let ?L = "layout_of v"
  let ?r = "row_at oob ?L t i"
  have v: "3 \<le> v" using sh by (simp add: shaped_def)
  have U: "up_bp ?r ! state_col g p = bit_poly (cell t g p i)" if "p < 21" for p
    using up_cells(1) [OF sh _ that, of g oob ?L i] v by (simp add: g)
  have D: "down_cell ?L ?r (state_col g p) 1 = Some (bit_poly (cell t g p (Suc i)))"
    if "p = 8 \<or> p = 9" for p
    using down_cell_at [OF sh, of g p 1 i oob] that i v by (auto simp: amounts_def g)
  have slack: "up_bp ?r ! Suc (42 * v) = bit_poly (bp_cols t ! Suc (42 * v) ! i)"
    using up_cells(2) [OF sh, of "42 * v + 1" oob ?L i] by simp
  have ints: "up_int ?r ! 0 = [icell t 0 i]" "up_int ?r ! (v + 12) = [hi]" "up_int ?r ! (v + 13) = [lo]"
    using up_cells(3) [OF sh, of 0 oob ?L i] up_cells(3) [OF sh, of "v + 12" oob ?L i]
      up_cells(3) [OF sh, of "v + 13" oob ?L i] v by (simp_all add: hi lo)
  let ?dh = "psub (bit_poly (cell t g 8 (Suc i))) (up_bp ?r ! state_col g 8)"
  let ?dl = "psub (bit_poly (cell t g 9 (Suc i))) (up_bp ?r ! state_col g 9)"
  let ?hi = "up_int ?r ! (v + 12)" and ?lo = "up_int ?r ! (v + 13)"
  have h: "holds (Assert_zero (pmul (up_int ?r ! 0) (up_bp ?r ! state_col g 8)))"
    "holds (Assert_zero (pmul (up_int ?r ! 0) (up_bp ?r ! state_col g 9)))"
    "holds (Assert_zero (pmul ?hi (psub ?hi one)))" "holds (Assert_zero (pmul ?lo (psub ?lo one)))"
    "holds (Assert_zero (psub (padd ?hi ?lo) one))" "holds (Assert_zero (pmul (psub one ?hi) ?dh))"
    "holds (Assert_base2 (psub (psub (padd (pmul ?hi ?dh) (pmul ?lo ?dl)) one) (up_bp ?r ! Suc (42 * v))))"
    using run H D [of 8] D [of 9]
    by (auto simp: original_constraints_def bind_eq_Some_conv Let_def g [simplified, symmetric]
        simp del: holds.simps)
  show "icell t 0 i * uint (cell t g 8 i) = 0" using holds_eval2 [OF h(1)] by (simp add: U ints)
  show "icell t 0 i * uint (cell t g 9 i) = 0" using holds_eval2 [OF h(2)] by (simp add: U ints)
  show "hi * (hi - 1) = 0" using holds_eval2 [OF h(3)] by (simp add: ints)
  show "lo * (lo - 1) = 0" using holds_eval2 [OF h(4)] by (simp add: ints)
  show "hi + lo = 1" using holds_eval2 [OF h(5)] by (simp add: ints)
  show "(1 - hi) * dh = 0" using holds_eval2 [OF h(6)] by (simp add: ints U dh)
  show "hi * dh + lo * dl - 1 - uint (bp_cols t ! (42 * v + 1) ! i) = 0"
    using holds_eval2 [OF h(7)] by (simp add: ints U dh dl slack)
qed

lemma layer_row:
  assumes sh: "shaped v t" and l: "l < 2 * v - 1" and i: "i + 2 ^ stride v l < 2 ^ v"
    and run: "layer_constraints (layout_of v) (row_at oob (layout_of v) t i) l = Some cs"
    and H: "list_all holds cs" and up: "icell t (1 + stride v l) i = 1"
    and s: "s = icell t (v + 14 + l) i" and j: "j = i + 2 ^ stride v l"
  shows "s * (s - 1) = 0"
    and "\<forall>p < 21. uint (cell t (Suc l) p i) =
        uint (cell t l p i) + s * (uint (cell t l p j) - uint (cell t l p i))"
    and "\<forall>p < 21. uint (cell t (Suc l) p j) =
        uint (cell t l p j) - s * (uint (cell t l p j) - uint (cell t l p i))"
proof -
  let ?L = "layout_of v"
  let ?r = "row_at oob ?L t i"
  let ?k = "stride v l"
  have v: "3 \<le> v" using sh by (simp add: shaped_def)
  have kv: "?k < v" using stride_less [of v l] l v by simp
  have U: "up_bp ?r ! state_col g p = bit_poly (cell t g p i)" if "p < 21" "g < 2 * v" for g p
    using up_cells(1) [OF sh that(2,1)] by simp
  have am: "2 ^ ?k \<in> set (amounts v l p)" "2 ^ ?k \<in> set (amounts v (Suc l) p)" for p
    using l v by (auto simp: amounts_def min_def max_def stride_def)
  have D: "down_cell ?L ?r (state_col l p) (2 ^ ?k) = Some (bit_poly (cell t l p j))"
    "down_cell ?L ?r (state_col (Suc l) p) (2 ^ ?k) = Some (bit_poly (cell t (Suc l) p j))"
    if "p < 21" for p
    using down_cell_at [OF sh _ that am(1) i] down_cell_at [OF sh _ that am(2) i] l v by (simp_all add: j)
  have ints: "up_int ?r ! Suc ?k = [1]" "up_int ?r ! (v + 14 + l) = [s]"
    using up_cells(3) [OF sh, of "1 + ?k" oob ?L i] up_cells(3) [OF sh, of "v + 14 + l" oob ?L i] l v kv up
    by (simp_all add: s)
  have st: "stride_bit v l = Some ?k" by (rule stride_bit_Some) (use l v in simp_all)
  obtain css where css: "those (map (swap_constraints ?L ?r l (2 ^ ?k) [1] [s]) [0..<21]) = Some css"
    and n1: "holds (Assert_zero (pmul [1] (pmul [s] (psub [s] one))))" and Hs: "list_all holds (concat css)"
    using run H
    by (auto simp: layer_constraints_def layout_stride_def st ints bind_eq_Some_conv Let_def
        simp del: holds.simps pmul.simps upt_rec_numeral)
  show "s * (s - 1) = 0" using holds_eval2 [OF n1] by simp
  have swap: "uint (cell t (Suc l) p i) = uint (cell t l p i) + s * (uint (cell t l p j) - uint (cell t l p i)) \<and>
      uint (cell t (Suc l) p j) = uint (cell t l p j) - s * (uint (cell t l p j) - uint (cell t l p i))"
    if p: "p < 21" for p
  proof -
    have "list_all (list_all holds) css" using Hs by (auto simp: list_all_iff)
    then obtain y where y: "swap_constraints ?L ?r l (2 ^ ?k) [1] [s] p = Some y" "list_all holds y"
      using those_map_facts [OF css, of "list_all holds" p] p by auto
    have "holds (Assert_zero (pmul [1] (psub (psub (up_bp ?r ! state_col (Suc l) p) (up_bp ?r ! state_col l p))
        (pmul [s] (psub (bit_poly (cell t l p j)) (up_bp ?r ! state_col l p))))))"
      and "holds (Assert_zero (pmul [1] (padd (psub (bit_poly (cell t (Suc l) p j)) (bit_poly (cell t l p j)))
        (pmul [s] (psub (bit_poly (cell t l p j)) (up_bp ?r ! state_col l p))))))"
      using y D [OF p]
      by (auto simp: swap_constraints_def Let_def simp del: holds.simps pmul.simps)
    from this [THEN holds_eval2] show ?thesis using p l by (simp add: U algebra_simps)
  qed
  then show "\<forall>p < 21. uint (cell t (Suc l) p i) =
        uint (cell t l p i) + s * (uint (cell t l p j) - uint (cell t l p i))"
    and "\<forall>p < 21. uint (cell t (Suc l) p j) =
        uint (cell t l p j) - s * (uint (cell t l p j) - uint (cell t l p i))" by blast+
qed

section \<open>Decoding the states\<close>

definition limbs_value :: "u32 list \<Rightarrow> 'a::len word" where
  "limbs_value xs = word_of_nat (undigits_be (2 ^ 32) (map unat xs))"

definition row_cells :: "utrace \<Rightarrow> nat \<Rightarrow> nat \<Rightarrow> u32 list" where
  "row_cells t g i = map (\<lambda>p. cell t g p i) [0..<21]"

definition decode_row :: "u32 list \<Rightarrow> (256 word, 256 word) trace_record" where
  "decode_row row =
     \<lparr>tr_time_log = limbs_value (take 2 (drop 8 row)),
      tr_stack_depth = limbs_value (take 2 (drop 10 row)),
      tr_instruction = (if row ! 20 = 0 then Read else Write),
      tr_address = limbs_value (take 8 row), tr_value = limbs_value (take 8 (drop 12 row))\<rparr>"

definition state_trace :: "nat \<Rightarrow> utrace \<Rightarrow> nat \<Rightarrow> (256 word, 256 word) trace_record list" where
  "state_trace v t g = map (\<lambda>i. decode_row (row_cells t g i)) [0..<2 ^ v]"

lemma unat_limbs_value:
  assumes "32 * length xs \<le> LENGTH('a::len)"
  shows "unat (limbs_value xs :: 'a word) = undigits_be (2 ^ 32) (map unat xs)"
proof -
  have "undigits_be (2 ^ 32) (map unat xs) < (2 ^ 32) ^ length (map unat xs)"
    by (intro undigits_be_less) (auto simp: unat_less_2p [where 'a = 32, simplified])
  also have "\<dots> = 2 ^ (32 * length xs)" by (simp only: power_mult length_map)
  also have "\<dots> \<le> 2 ^ LENGTH('a)" using assms by (intro power_increasing) simp_all
  finally show ?thesis by (simp add: limbs_value_def unat_of_nat)
qed

lemma limbs_value_less:
  assumes "32 * length xs \<le> LENGTH('a::len)" "length xs = length ys" "k < length xs"
    and "take k xs = take k ys" "xs ! k < ys ! k"
  shows "(limbs_value xs :: 'a word) < limbs_value ys"
proof -
  have "undigits_be (2 ^ 32) (map unat xs) < undigits_be (2 ^ 32) (map unat ys)"
    by (rule undigits_be_lex [of _ _ k])
      (use assms in \<open>auto simp: take_map word_less_nat_alt unat_less_2p [where 'a = 32, simplified]\<close>)
  then show ?thesis using assms(1,2) by (simp add: word_less_nat_alt unat_limbs_value)
qed

lemma row_cells_simps [simp]: "length (row_cells t g i) = 21" "p < 21 \<Longrightarrow> row_cells t g i ! p = cell t g p i"
  by (simp_all add: row_cells_def)

section \<open>What the satisfied constraints say\<close>

definition satisfied_rows :: "(nat \<Rightarrow> nat \<Rightarrow> nat \<Rightarrow> u32) \<Rightarrow> nat \<Rightarrow> utrace \<Rightarrow> bool" where
  "satisfied_rows oob v t \<longleftrightarrow> shaped v t \<and>
     (\<forall>i < 2 ^ v. icell t 0 i = of_bool (i = 0)) \<and>
     (\<forall>k < v. \<forall>i < 2 ^ v. icell t (1 + k) i = of_bool (\<not> bit i k)) \<and>
     (\<forall>i. Suc i < 2 ^ v \<longrightarrow> (\<exists>s o' n. sorted_constraints (layout_of v) (row_at oob (layout_of v) t i) = Some s \<and>
        original_constraints (layout_of v) (row_at oob (layout_of v) t i) = Some o' \<and>
        those (map (layer_constraints (layout_of v) (row_at oob (layout_of v) t i)) [0..<2 * v - 1]) = Some n \<and>
        list_all holds s \<and> list_all holds o' \<and> list_all (list_all holds) n))"

lemma satisfied_rowsI:
  assumes "uair_satisfied oob v t"
  shows "satisfied_rows oob v t"
proof -
  have v: "3 \<le> v" "v \<le> 16"
    using assms NetLayout_new_None [of v] by (auto simp: uair_satisfied_def not_le intro: ccontr)
  note A = assms [unfolded uair_satisfied_def NetLayout_new_ok [OF v] option.case layout_of_simps]
  have sh: "shaped v t" using A v by (simp add: shaped_def list_all_iff)
  have pub: "int_cols t ! c = public_int_columns v ! c" if "c < 1 + v" for c
    using A that by (metis nth_take)
  have "icell t 0 i = of_bool (i = 0)" if "i < 2 ^ v" for i
    using pub [of 0] that by (simp add: icell_def public_int_columns_def Let_def)
  moreover have "icell t (1 + k) i = of_bool (\<not> bit i k)" if "k < v" "i < 2 ^ v" for k i
    using pub [of "1 + k"] that
    by (simp add: icell_def public_int_columns_def Let_def and_one_eq bit_iff_odd_drop_bit
        mod_2_eq_odd)
  moreover have "\<exists>s o' n. sorted_constraints (layout_of v) (row_at oob (layout_of v) t i) = Some s \<and>
        original_constraints (layout_of v) (row_at oob (layout_of v) t i) = Some o' \<and>
        those (map (layer_constraints (layout_of v) (row_at oob (layout_of v) t i)) [0..<2 * v - 1]) = Some n \<and>
        list_all holds s \<and> list_all holds o' \<and> list_all (list_all holds) n" if "Suc i < 2 ^ v" for i
  proof -
    have "i < 2 ^ v - 1" using that by simp
    then have "case constrain_general (layout_of v) (row_at oob (layout_of v) t i) of
        None \<Rightarrow> False | Some cs \<Rightarrow> list_all holds cs"
      using A unfolding list_all_iff [where xs = "[0..<2 ^ v - 1]"] by simp
    then obtain cs where "constrain_general (layout_of v) (row_at oob (layout_of v) t i) = Some cs"
      "list_all holds cs"
      by (cases "constrain_general (layout_of v) (row_at oob (layout_of v) t i)") simp_all
    then show ?thesis
      by (fastforce simp: constrain_general_def bind_eq_Some_conv list_all_iff)
  qed
  ultimately show ?thesis using sh by (simp add: satisfied_rows_def)
qed

lemma state_permutation:
  assumes sat: "satisfied_rows oob v t" and l: "l < 2 * v - 1"
  shows "mset (map (row_cells t (Suc l)) [0..<2 ^ v]) = mset (map (row_cells t l) [0..<2 ^ v])"
proof -
  let ?k = "stride v l"
  have sh: "shaped v t" using sat by (simp add: satisfied_rows_def)
  then have v: "1 \<le> v" by (simp add: shaped_def)
  have kv: "?k < v" by (rule stride_less [OF v l])
  define bits where "bits = map (\<lambda>i. icell t (v + 14 + l) i = 1) [0..<2 ^ v]"
  let ?xs = "map (row_cells t l) [0..<2 ^ v]"
  obtain ys where ys: "apply_layer ?xs v l bits = Some ys" "length ys = 2 ^ v"
    and act: "\<forall>w < 2 ^ v. ys ! w = act ?k ((!) bits) ((!) ?xs) w"
    by (rule apply_layer_ok [OF v l]) (auto simp: bits_def)
  have "ys ! w = row_cells t (Suc l) w" if w: "w < 2 ^ v" for w
  proof -
    define i where "i = unset_bit ?k w"
    define j where "j = i + 2 ^ ?k"
    have nb: "\<not> bit i ?k" by (simp add: i_def bit_simps)
    have wij: "w = i \<or> w = j" using unset_bit_eq_iff [OF nb, of w] by (simp add: i_def j_def)
    then have i: "i < 2 ^ v" using w by (auto simp: j_def)
    have j: "j < 2 ^ v" unfolding j_def by (rule partner_less [OF nb i kv])
    have "1 \<le> (2 :: nat) ^ ?k" by simp
    then have "Suc i < 2 ^ v" using j unfolding j_def by linarith
    then obtain n where n: "those (map (layer_constraints (layout_of v) (row_at oob (layout_of v) t i)) [0..<2 * v - 1]) = Some n"
      "list_all (list_all holds) n"
      using sat by (auto simp: satisfied_rows_def)
    obtain cs where cs: "layer_constraints (layout_of v) (row_at oob (layout_of v) t i) l = Some cs" "list_all holds cs"
      using those_map_facts [OF n, of l] l by auto
    have up: "icell t (1 + ?k) i = 1" using sat kv i nb by (simp add: satisfied_rows_def)
    note R = layer_row [OF sh l j [unfolded j_def] cs up refl j_def]
    have s: "icell t (v + 14 + l) i = 0 \<or> icell t (v + 14 + l) i = 1" using R(1) by auto
    have eq: "cell t (Suc l) p i = (if icell t (v + 14 + l) i = 1 then cell t l p j else cell t l p i)"
      "cell t (Suc l) p j = (if icell t (v + 14 + l) i = 1 then cell t l p i else cell t l p j)" if "p < 21" for p
      using R(2,3) that s by (auto simp: word_uint_eq_iff)
    have flip: "flip_bit ?k i = j" "flip_bit ?k j = i" "unset_bit ?k i = i" "unset_bit ?k j = i"
      using partner_bits [OF nb] by (simp_all add: j_def)
    show ?thesis
      using act w wij i j flip eq
      by (auto simp: act_def bits_def row_cells_def)
  qed
  with ys(2) have "map (row_cells t (Suc l)) [0..<2 ^ v] = ys" by (auto intro: nth_equalityI)
  with apply_layer_mset [OF ys(1)] show ?thesis by simp
qed

lemma row_facts:
  assumes "satisfied_rows oob v t" "Suc i < 2 ^ v"
  obtains cs cs' where "shaped v t"
    and "sorted_constraints (layout_of v) (row_at oob (layout_of v) t i) = Some cs" "list_all holds cs"
    and "original_constraints (layout_of v) (row_at oob (layout_of v) t i) = Some cs'" "list_all holds cs'"
  using assms by (auto simp: satisfied_rows_def)

lemma limbs_equal:
  assumes "\<forall>j < n. uint (cell t g (m + j) i) = uint (cell t g (m + j) i')" "m + n \<le> 21"
  shows "take n (drop m (row_cells t g i)) = take n (drop m (row_cells t g i'))"
  using assms by (intro nth_equalityI) (auto simp: row_cells_def word_uint_eq_iff)

lemma limbs_increase:
  assumes "\<forall>j < k. uint (cell t g (m + j) i) = uint (cell t g (m + j) i')"
    and "uint (cell t g (m + k) i) < uint (cell t g (m + k) i')"
    and "k < n" "m + n \<le> 21" "32 * n \<le> LENGTH('a::len)"
  shows "(limbs_value (take n (drop m (row_cells t g i))) :: 'a word)
    < limbs_value (take n (drop m (row_cells t g i')))"
proof (rule limbs_value_less)
  show "take k (take n (drop m (row_cells t g i))) = take k (take n (drop m (row_cells t g i')))"
    using limbs_equal [OF assms(1)] assms(3,4) by (simp add: min_def)
  show "take n (drop m (row_cells t g i)) ! k < take n (drop m (row_cells t g i')) ! k"
    using assms by (simp add: row_cells_def word_less_def)
qed (use assms in simp_all)

text \<open>Neighbouring rows of the sorted trace.\<close>

lemma sorted_neighbours:
  assumes sat: "satisfied_rows oob v t" and i: "Suc i < 2 ^ v"
  defines "p \<equiv> decode_row (row_cells t 0 i)" and "r \<equiv> decode_row (row_cells t 0 (Suc i))"
  shows "access_key p < access_key r" and "sorted_step p r"
proof -
  obtain cs where sh: "shaped v t"
    and run: "sorted_constraints (layout_of v) (row_at oob (layout_of v) t i) = Some cs" "list_all holds cs"
    by (rule row_facts [OF sat i])
  define s where "s = (\<lambda>j. icell t (v + 1 + j) i)"
  define d where "d = (\<lambda>j. uint (cell t 0 j (Suc i)) - uint (cell t 0 j i))"
  define x where "x = uint (cell t 0 20 (Suc i))"
  note F = sorted_row [OF sh i run s_def d_def x_def]
  obtain k where k: "k < 10" "s k = 1" and hot: "\<forall>j < 10. j \<noteq> k \<longrightarrow> s j = 0"
    and eq: "\<forall>j < k. d j = 0" and dk: "d k = 1 + uint (bp_cols t ! (42 * v) ! i)"
    by (rule first_difference [OF F(3-6)])
  have lt: "uint (cell t 0 k i) < uint (cell t 0 k (Suc i))"
    using dk uint_ge_0 [of "bp_cols t ! (42 * v) ! i"] unfolding d_def by linarith
  have instr: "tr_instruction r = (if x = 0 then Read else Write)"
    by (simp add: r_def decode_row_def x_def word_uint_eq_iff)
  have x01: "x = 0 \<or> x = 1" using F(2) by auto
  show "access_key p < access_key r" and "sorted_step p r"
  proof (atomize (full), cases "k < 8")
    case True
    have "tr_address p < tr_address r"
      using limbs_increase [of k t 0 0 i "Suc i" 8, where 'a = 256] True eq lt
      by (simp add: p_def r_def decode_row_def d_def)
    moreover have "s 8 + s 9 = 0" using True hot by simp
    then have "x = 1" using F(9) by simp
    ultimately show "access_key p < access_key r \<and> sorted_step p r"
      by (auto simp: access_key_def sorted_step_def instr)
  next
    case False
    then have k8: "k = 8 \<or> k = 9" using k by auto
    have same: "tr_address p = tr_address r"
      using limbs_equal [of 8 t 0 0 i "Suc i"] eq k8 by (auto simp: p_def r_def decode_row_def d_def)
    have "tr_time_log p < tr_time_log r"
      using limbs_increase [of "k - 8" t 0 8 i "Suc i" 2, where 'a = 64] k8 eq lt
      by (auto simp: p_def r_def decode_row_def d_def)
    moreover have "tr_value r = tr_value p" if "x = 0"
    proof -
      have "s 8 + s 9 = 1" using k8 k(2) hot by auto
      with F(7) that have "icell t (v + 11) i = - 1" by simp
      with F(8) have "\<forall>j < 8. d (12 + j) = 0" by simp
      then show ?thesis
        using limbs_equal [of 8 t 0 12 i "Suc i"] by (simp add: p_def r_def decode_row_def d_def)
    qed
    ultimately show "access_key p < access_key r \<and> sorted_step p r"
      using same x01 by (auto simp: access_key_def sorted_step_def instr)
  qed
qed

text \<open>Neighbouring rows of the original trace.\<close>

lemma original_neighbours:
  assumes sat: "satisfied_rows oob v t" and i: "Suc i < 2 ^ v" and g: "g = 2 * v - 1"
  shows "tr_time_log (decode_row (row_cells t g i)) < tr_time_log (decode_row (row_cells t g (Suc i)))"
proof -
  obtain cs' where sh: "shaped v t"
    and run: "original_constraints (layout_of v) (row_at oob (layout_of v) t i) = Some cs'" "list_all holds cs'"
    by (rule row_facts [OF sat i])
  define hi lo where "hi = icell t (v + 12) i" and "lo = icell t (v + 13) i"
  define dh dl where "dh = uint (cell t g 8 (Suc i)) - uint (cell t g 8 i)"
    and "dl = uint (cell t g 9 (Suc i)) - uint (cell t g 9 i)"
  note F = original_row [OF sh i run g hi_def lo_def dh_def dl_def]
  have r: "0 \<le> uint (bp_cols t ! (42 * v + 1) ! i)" by (rule uint_ge_0)
  have "hi = 1 \<and> lo = 0 \<or> hi = 0 \<and> lo = 1" using F(3,4,5) by auto
  then show ?thesis
  proof
    assume h: "hi = 1 \<and> lo = 0"
    then have "dh - 1 - uint (bp_cols t ! (42 * v + 1) ! i) = 0" using F(7) by simp
    then have "0 < dh" using r by linarith
    then show ?thesis
      using limbs_increase [of 0 t g 8 i "Suc i" 2, where 'a = 64] by (simp add: decode_row_def dh_def)
  next
    assume h: "hi = 0 \<and> lo = 1"
    then have "dh = 0" and "dl - 1 - uint (bp_cols t ! (42 * v + 1) ! i) = 0" using F(6,7) by simp_all
    then have "dh = 0" "0 < dl" using r by linarith+
    then show ?thesis
      using limbs_increase [of 1 t g 8 i "Suc i" 2, where 'a = 64]
      by (simp add: decode_row_def dh_def dl_def)
  qed
qed

lemma sorted_wrt_neighbours:
  assumes "transp R" "\<And>i. Suc i < n \<Longrightarrow> R (f i) (f (Suc i))"
  shows "sorted_wrt R (map f [0..<n])"
  using assms(1)
  by (rule sorted_wrt_iff_nth_Suc_transp [THEN iffD2]) (use assms(2) in simp)

lemma successively_map_upt:
  assumes "\<And>i. Suc i < n \<Longrightarrow> R (f i) (f (Suc i))"
  shows "successively R (map f [0..<n])"
  using assms by (simp add: successively_conv_nth)

lemma mset_states:
  assumes "satisfied_rows oob v t" "g \<le> 2 * v - 1"
  shows "mset (state_trace v t g) = mset (state_trace v t 0)"
proof -
  have "mset (map (row_cells t g) [0..<2 ^ v]) = mset (map (row_cells t 0) [0..<2 ^ v])"
    using assms(2)
  proof (induction g)
    case (Suc g)
    then show ?case using state_permutation [OF assms(1), of g] by simp
  qed simp
  then have "mset (map decode_row (map (row_cells t g) [0..<2 ^ v]))
      = mset (map decode_row (map (row_cells t 0) [0..<2 ^ v]))"
    by (simp only: mset_map)
  then show ?thesis by (simp add: state_trace_def o_def)
qed

lemma decode_time_zero:
  assumes "cell t g 8 i = 0" "cell t g 9 i = 0"
  shows "tr_time_log (decode_row (row_cells t g i)) = 0"
proof -
  have "take 2 (drop 8 (row_cells t g i)) = [0, 0]"
    using assms by (intro nth_equalityI) (auto simp: row_cells_def less_2_cases_iff)
  then show ?thesis by (simp add: decode_row_def limbs_value_def undigits_be_Cons)
qed

lemma sorted_unique:
  assumes "sorted_wrt (\<lambda>p r. access_key p < access_key r) S" "mset S = mset T"
  shows "sort_trace_by_address_time T = S"
proof -
  have sd: "sorted_wrt (<) (map access_key S)" using assms(1) by (simp add: sorted_wrt_map)
  then have s: "sorted (map access_key S)" "distinct (map access_key S)"
    by (simp_all add: strict_sorted_iff)
  have m: "mset (sort_trace_by_address_time T) = mset S"
    using assms(2) by (simp add: sort_trace_by_address_time_def)
  then have set: "set (sort_trace_by_address_time T) = set S" by (rule mset_eq_setD)
  have "mset (map access_key (sort_trace_by_address_time T)) = mset (map access_key S)"
    using m by (metis mset_map)
  then have "distinct (map access_key (sort_trace_by_address_time T))"
    using s(2) by (metis mset_eq_imp_distinct_iff)
  moreover have "inj_on access_key (set S)" using s(2) by (simp add: distinct_map)
  ultimately show ?thesis
    using s set by (intro map_sorted_distinct_set_unique [where f = access_key])
      (simp_all add: sort_trace_by_address_time_def)
qed

lemma uair_sound_aux:
  assumes "uair_satisfied oob v t"
  defines "Orig \<equiv> state_trace v t (2 * v - 1)" and "Srt \<equiv> state_trace v t 0"
  shows "starts_at_zero Orig" and "time_ordered Orig" and "mset Srt = mset Orig"
    and "Srt = sort_trace_by_address_time Orig" and "memory_consistent Orig"
proof -
  note sat = satisfied_rowsI [OF assms(1)]
  then have sh: "shaped v t" by (simp add: satisfied_rows_def)
  then have v: "3 \<le> v" by (simp add: shaped_def)
  have "(2 :: nat) ^ 1 < 2 ^ v" using v by (intro power_strict_increasing) simp_all
  then have n: "Suc 0 < 2 ^ v" by simp
  have v0: "0 < (2 :: nat) ^ v" by simp
  let ?g = "2 * v - 1"
  have first: "icell t 0 0 = 1" using sat n by (simp add: satisfied_rows_def)
  obtain cs where run: "sorted_constraints (layout_of v) (row_at oob (layout_of v) t 0) = Some cs" "list_all holds cs"
    by (rule row_facts [OF sat n])
  obtain cs' where run': "original_constraints (layout_of v) (row_at oob (layout_of v) t 0) = Some cs'"
    "list_all holds cs'"
    by (rule row_facts [OF sat n])
  have "uint (cell t ?g 8 0) = 0" "uint (cell t ?g 9 0) = 0"
    using original_row(1,2) [OF sh n run' refl refl refl refl refl] first by simp_all
  then have "tr_time_log (decode_row (row_cells t ?g 0)) = 0"
    by (intro decode_time_zero) (simp_all add: word_uint_eq_iff)
  then show z: "starts_at_zero Orig"
    by (simp add: Orig_def starts_at_zero_def state_trace_def upt_conv_Cons)
  have "sorted_wrt (\<lambda>p r. tr_time_log p < tr_time_log r) Orig"
    unfolding Orig_def state_trace_def
    by (rule sorted_wrt_neighbours) (auto simp: transp_def intro: original_neighbours [OF sat])
  then show tm: "time_ordered Orig" by (simp add: time_ordered_def sorted_wrt_map)
  show m: "mset Srt = mset Orig" unfolding Srt_def Orig_def by (rule mset_states [OF sat, symmetric]) simp
  have "sorted_wrt (\<lambda>p r. access_key p < access_key r) Srt"
    unfolding Srt_def state_trace_def
    by (rule sorted_wrt_neighbours) (auto simp: transp_def intro: sorted_neighbours(1) [OF sat])
  from sorted_unique [OF this m] show so: "Srt = sort_trace_by_address_time Orig" by simp
  have "successively sorted_step Srt"
    unfolding Srt_def state_trace_def
    by (rule successively_map_upt) (rule sorted_neighbours(2) [OF sat])
  moreover have "uint (cell t 0 20 0) = 1"
    using sorted_row(1) [OF sh n run refl refl refl] first by simp
  then have "tr_instruction (hd Srt) = Write"
    by (auto simp: Srt_def state_trace_def upt_conv_Cons decode_row_def word_uint_eq_iff)
  ultimately have "sorted_consistent Srt" by (simp add: sorted_consistent_def)
  then show "memory_consistent Orig" using sorted_check_iff [OF tm] so by simp
qed

end
