(* ===== verification/Uair_Witness.thy ===== *)
theory Uair_Witness
  imports Uair_Constraints Trace_Consistency
begin

text \<open>
  The witness builder of the memory-consistency UAIR (\<open>build_uair_trace\<close> of
  \<open>zkmemory/src/zincplus/uair.rs\<close>) and the errors of the backend
  (\<open>zkmemory/src/zincplus/prover.rs\<close>). A loop that fills a column row by row is the list
  of its entries; every \<open>return Err\<close> and every panic is a branch.
\<close>

section \<open>Errors\<close>

datatype zinc_error =
  EmptyTrace
  | FirstTimeNonZero u64
  | DuplicatedAccess u64
  | TimeNotIncreasing u64
  | TraceTooLong
  | TimeLogOverflow
  | UnsortedTrace
  | MalformedProof string
  | Prover string
  | Verifier string

section \<open>Rows in 32-bit limbs\<close>

record row_limbs =
  rl_addr :: "u32 list"
  rl_time :: "u32 list"
  rl_stack_depth :: "u32 list"
  rl_value :: "u32 list"
  rl_instr :: u32

definition be_bytes_to_limbs :: "u8 list \<Rightarrow> u32 list" where
  "be_bytes_to_limbs bytes = map (\<lambda>j. from_be_bytes
     [bytes ! (4 * j), bytes ! (4 * j + 1), bytes ! (4 * j + 2), bytes ! (4 * j + 3)]) [0..<8]"

definition u64_limbs :: "u64 \<Rightarrow> u32 list" where
  "u64_limbs x = [ucast (drop_bit 32 x), ucast x]"

definition from_record :: "access \<Rightarrow> row_limbs" where
  "from_record r =
     \<lparr>rl_addr = be_bytes_to_limbs (fixed_be_bytes (tr_address r)),
      rl_time = u64_limbs (tr_time_log r),
      rl_stack_depth = u64_limbs (tr_stack_depth r),
      rl_value = be_bytes_to_limbs (fixed_be_bytes (tr_value r)),
      rl_instr = (case tr_instruction r of Write \<Rightarrow> 1 | Read \<Rightarrow> 0)\<rparr>"

text \<open>The payload cell \<open>p\<close>, below \<open>PAYLOAD_CELLS\<close>.\<close>

definition payload :: "row_limbs \<Rightarrow> nat \<Rightarrow> u32" where
  "payload r p =
     (if p < PL_TIME then rl_addr r ! (p - PL_ADDR)
      else if p < PL_STACK_DEPTH then rl_time r ! (p - PL_TIME)
      else if p < PL_VALUE then rl_stack_depth r ! (p - PL_STACK_DEPTH)
      else if p < PL_INSTR then rl_value r ! (p - PL_VALUE)
      else rl_instr r)"

definition lex_limb :: "row_limbs \<Rightarrow> nat \<Rightarrow> u32" where
  "lex_limb r j = payload r (PL_ADDR + j)"

section \<open>Checks and padding\<close>

fun check_times :: "access list \<Rightarrow> zinc_error option" where
  "check_times (a # b # rs) =
     (if tr_time_log a < tr_time_log b then check_times (b # rs)
      else if tr_time_log b = tr_time_log a then Some (DuplicatedAccess (tr_time_log a))
      else Some (TimeNotIncreasing (tr_time_log b)))"
| "check_times rs = None"

text \<open>\<open>usize::checked_next_power_of_two\<close>.\<close>

fun next_power_of_two :: "nat \<Rightarrow> nat" where
  "next_power_of_two n = (if n \<le> 1 then 1 else 2 * next_power_of_two ((n + 1) div 2))"

declare next_power_of_two.simps [simp del]

definition checked_next_power_of_two :: "nat \<Rightarrow> nat option" where
  "checked_next_power_of_two n =
     (if next_power_of_two n < 2 ^ 64 then Some (next_power_of_two n) else None)"

fun padding_rows :: "nat \<Rightarrow> u64 \<Rightarrow> access \<Rightarrow> zinc_error + access list" where
  "padding_rows 0 time pad = Inr []"
| "padding_rows (Suc n) time pad =
     (if time = - 1 then Inl TimeLogOverflow
      else case padding_rows n (time + 1) pad of
        Inl e \<Rightarrow> Inl e
      | Inr rows \<Rightarrow> Inr (TraceRecord_new (time + 1) (tr_stack_depth pad) Read (tr_address pad)
          (tr_value pad) # rows))"

section \<open>Transition witnesses\<close>

text \<open>The first differing limb, the slack and the helper \<open>w\<close> of neighbouring sorted rows.\<close>

definition sorted_transition :: "row_limbs \<Rightarrow> row_limbs \<Rightarrow> zinc_error + (nat \<times> u32 \<times> int)" where
  "sorted_transition cur next =
     (case find (\<lambda>j. lex_limb cur j \<noteq> lex_limb next j) [0..<NUM_LEX_LIMBS] of
        None \<Rightarrow> Inl UnsortedTrace
      | Some k \<Rightarrow>
          (let diff = uint (lex_limb next k) - uint (lex_limb cur k) in
           if diff < 1 then Inl UnsortedTrace
           else Inr (k, word_of_int (diff - 1),
             if NUM_ADDR_LIMBS \<le> k then uint (rl_instr next) - 1 else 0)))"

definition original_transition :: "row_limbs \<Rightarrow> row_limbs \<Rightarrow> zinc_error + (bool \<times> u32)" where
  "original_transition cur next =
     (let hi = rl_time cur ! 0 \<noteq> rl_time next ! 0;
          diff = (if hi then uint (rl_time next ! 0) - uint (rl_time cur ! 0)
                  else uint (rl_time next ! 1) - uint (rl_time cur ! 1)) in
      if diff < 1 then Inl UnsortedTrace else Inr (hi, word_of_int (diff - 1)))"

fun transitions :: "('a \<Rightarrow> 'a \<Rightarrow> 'e + 'b) \<Rightarrow> 'a list \<Rightarrow> 'e + 'b list" where
  "transitions f (a # b # rows) =
     (case f a b of Inl e \<Rightarrow> Inl e
      | Inr x \<Rightarrow> (case transitions f (b # rows) of Inl e \<Rightarrow> Inl e | Inr xs \<Rightarrow> Inr (x # xs)))"
| "transitions f rows = Inr []"

section \<open>The network\<close>

text \<open>The positions by time log: a later entry replaces an earlier one.\<close>

definition pos_by_time :: "access list \<Rightarrow> u64 \<Rightarrow> nat option" where
  "pos_by_time rows = map_of (rev (zip (map tr_time_log rows) [0..<length rows]))"

definition perm_of :: "access list \<Rightarrow> access list \<Rightarrow> nat list option" where
  "perm_of srt original = those (map (\<lambda>r. pos_by_time srt (tr_time_log r)) original)"

text \<open>All states of the network, the input first.\<close>

fun network_states :: "nat \<Rightarrow> nat \<Rightarrow> bool list list \<Rightarrow> 'a list \<Rightarrow> 'a list list option" where
  "network_states v l [] state = Some [state]"
| "network_states v l (bits # layers) state = do {
     next \<leftarrow> apply_layer state v l bits;
     rest \<leftarrow> network_states v (l + 1) layers next;
     Some (state # rest) }"

definition bp_column :: "row_limbs list \<Rightarrow> nat \<Rightarrow> u32 list" where
  "bp_column rows p = map (\<lambda>row. payload row p) rows"

section \<open>The builder\<close>

definition assemble ::
    "nat \<Rightarrow> row_limbs list list \<Rightarrow> (nat \<times> u32 \<times> int) list \<Rightarrow> (bool \<times> u32) list \<Rightarrow> bool list list \<Rightarrow>
     utrace" where
  "assemble v states st ot layers =
     \<lparr>bp_cols = concat (map (\<lambda>state. map (bp_column state) [0..<PAYLOAD_CELLS]) states)
        @ [map (\<lambda>(k, slack, w). slack) st @ [0], map (\<lambda>(hi, slack). slack) ot @ [0]],
      int_cols = public_int_columns v
        @ map (\<lambda>j. map (\<lambda>(k, slack, w). of_bool (k = j)) st @ [0]) [0..<NUM_LEX_LIMBS]
        @ [map (\<lambda>(k, slack, w). w) st @ [0]]
        @ [map (\<lambda>(hi, slack). of_bool hi) ot @ [0]]
        @ [map (\<lambda>(hi, slack). of_bool (\<not> hi)) ot @ [0]]
        @ map (map of_bool) layers\<rparr>"

definition build_rows ::
    "nat \<Rightarrow> access list \<Rightarrow> access list \<Rightarrow> (zinc_error, utrace \<times> nat) result" where
  "build_rows v original srt = do {
     layout \<leftarrow> NetLayout_new v;
     let original_rows = map from_record original;
     let sorted_rows = map from_record srt;
     case transitions sorted_transition sorted_rows of
       Inl e \<Rightarrow> Some (Inl e)
     | Inr st \<Rightarrow>
       (case transitions original_transition original_rows of
          Inl e \<Rightarrow> Some (Inl e)
        | Inr ot \<Rightarrow> do {
            perm \<leftarrow> perm_of srt original;
            layers \<leftarrow> route perm;
            states \<leftarrow> network_states v 0 layers sorted_rows;
            if last states \<noteq> original_rows then Some (Inl UnsortedTrace)
            else do {
              let t = assemble v states st ot layers;
              assert_ok (length (bp_cols t) = num_bp_cols layout);
              assert_ok (length (int_cols t) = num_int_cols layout);
              Some (Inr (t, v)) } }) }"

definition build_uair_trace_any_start ::
    "access list \<Rightarrow> (zinc_error, utrace \<times> nat) result" where
  "build_uair_trace_any_start tr =
     (if tr = [] then Some (Inl EmptyTrace)
      else case check_times tr of
        Some e \<Rightarrow> Some (Inl e)
      | None \<Rightarrow>
        (case checked_next_power_of_two (length tr + 1) of
           None \<Rightarrow> Some (Inl TraceTooLong)
         | Some padded_len \<Rightarrow>
             if MAX_NUM_VARS < trailing_zeros padded_len then Some (Inl TraceTooLong)
             else
               (let v = max (trailing_zeros padded_len) MIN_NUM_VARS;
                    srt = sort_trace_by_address_time tr in
                case padding_rows (2 ^ v - length tr) (tr_time_log (last tr)) (last srt) of
                  Inl e \<Rightarrow> Some (Inl e)
                | Inr padding \<Rightarrow> build_rows v (tr @ padding) (srt @ padding))))"

definition build_uair_trace :: "access list \<Rightarrow> (zinc_error, utrace \<times> nat) result" where
  "build_uair_trace tr =
     (case tr of
        [] \<Rightarrow> build_uair_trace_any_start tr
      | first # _ \<Rightarrow>
          if tr_time_log first \<noteq> 0 then Some (Inl (FirstTimeNonZero (tr_time_log first)))
          else build_uair_trace_any_start tr)"

end
