(* ===== verification/Uair_Completeness.thy ===== *)
theory Uair_Completeness
  imports Uair_Soundness Uair_Witness
begin

text \<open>
  The converse of the row lemmas of \<open>Uair_Soundness\<close>: cells that are related as the
  witness builder relates them satisfy the constraints of their row.
\<close>

section \<open>Coefficients\<close>

fun coeff :: "poly \<Rightarrow> nat \<Rightarrow> int" where
  "coeff [] n = 0"
| "coeff (c # p) 0 = c"
| "coeff (c # p) (Suc n) = coeff p n"

lemma coeff_padd [simp]: "coeff (padd p q) n = coeff p n + coeff q n"
proof (induction p q arbitrary: n rule: padd.induct)
  case (3 a p b q)
  then show ?case by (cases n) simp_all
qed simp_all

lemma coeff_pneg [simp]: "coeff (pneg p) n = - coeff p n"
  by (induction p n rule: coeff.induct) (simp_all add: pneg_def)

lemma coeff_psub [simp]: "coeff (psub p q) n = coeff p n - coeff q n"
  by (simp add: psub_def)

lemma coeff_scale [simp]: "coeff (map ((*) c) p) n = c * coeff p n"
  by (induction p n rule: coeff.induct) simp_all

lemma vanishes_iff: "vanishes p \<longleftrightarrow> (\<forall>n. coeff p n = 0)"
proof (induction p)
  case (Cons c p)
  have "(\<forall>n. coeff (c # p) n = 0) \<longleftrightarrow> c = 0 \<and> (\<forall>n. coeff p n = 0)"
    by (metis coeff.simps(2,3) not0_implies_Suc)
  with Cons show ?case by (simp add: vanishes_def)
qed (simp add: vanishes_def)

lemma vanishes_pmul: "vanishes p \<or> vanishes q \<Longrightarrow> vanishes (pmul p q)"
proof (induction p)
  case (Cons a p)
  then have "a = 0 \<or> vanishes q" "vanishes (pmul p q)" by (auto simp: vanishes_def)
  moreover have "coeff (0 # r) n = 0" if "vanishes r" for r n
    using that by (cases n) (simp_all add: vanishes_iff)
  ultimately show ?case by (auto simp: vanishes_iff)
qed (simp add: vanishes_def)

lemma vanishes_single [simp]: "vanishes [c] \<longleftrightarrow> c = 0"
  by (simp add: vanishes_def)

lemma vanishes_psub_self [simp]: "vanishes (psub p p)"
  by (simp add: vanishes_iff)

lemma single_simps [simp]:
  "padd [a] [b] = [a + b]" "pneg [a] = [- a]" "psub [a] [b] = [a - b]" "psub one [a] = [1 - a]"
  "psub [a] one = [a - 1]" "pmul [a] [b] = [a * b]"
  by (simp_all add: psub_def pneg_def one_def)

lemma bit_poly_01:
  assumes "x = 0 \<or> x = 1"
  shows "coeff (bit_poly x) n = coeff [uint x] n"
proof -
  have "bit_poly 0 = replicate 32 0" "bit_poly 1 = 1 # replicate 31 0" by code_simp+
  moreover have "coeff (replicate m 0) n = 0" for m n
  proof (induction m arbitrary: n)
    case (Suc m)
    then show ?case by (cases n) simp_all
  qed simp
  ultimately show ?thesis using assms by (cases n) auto
qed

lemma coeff_pmul_single [simp]: "coeff (pmul [a] q) n = a * coeff q n"
proof -
  have "coeff [0] n = 0" by (cases n) simp_all
  then show ?thesis by simp
qed

lemma coeff_single: "coeff [a] n = (if n = 0 then a else 0)"
  by (cases n) simp_all

section \<open>Rows\<close>

lemma lex_loop_holds:
  assumes "m \<le> n"
    and D: "\<And>j. m \<le> j \<Longrightarrow> j < n \<Longrightarrow> down_cell L r (state_col 0 j) 1 = Some (dn j)"
    and S: "\<And>j. m \<le> j \<Longrightarrow> j < n \<Longrightarrow> S ! j = [s j]"
    and "prefix = None \<and> e = 0 \<or> prefix = Some [e]"
    and "\<And>j. m \<le> j \<Longrightarrow> j < n \<Longrightarrow> e + (\<Sum>i \<in> {m..j}. s i) = 1 \<or>
      vanishes (psub (dn j) (up_bp r ! state_col 0 j))"
  shows "\<exists>cs inc'. lex_loop L r S [m..<n] prefix inc = Some (cs, inc') \<and> list_all holds cs \<and>
    (inc' = None \<longrightarrow> m = n)"
  using assms
proof (induction "n - m" arbitrary: m prefix e inc)
  case 0
  then show ?case by simp
next
  case (Suc k)
  then have mn: "m < n" by simp
  let ?e = "e + s m"
  let ?d = "psub (dn m) (up_bp r ! state_col 0 m)"
  define inc1 where "inc1 = (case inc of None \<Rightarrow> pmul [s m] ?d | Some acc \<Rightarrow> padd acc (pmul [s m] ?d))"
  have sums: "(\<Sum>i \<in> {m..j}. s i) = s m + (\<Sum>i \<in> {Suc m..j}. s i)" if "Suc m \<le> j" for j
  proof -
    have "{m..j} = insert m {Suc m..j}" using that by auto
    then show ?thesis by simp
  qed
  have "\<exists>cs inc'. lex_loop L r S [Suc m..<n] (Some [?e]) (Some inc1) = Some (cs, inc') \<and>
      list_all holds cs \<and> (inc' = None \<longrightarrow> Suc m = n)"
  proof (rule Suc.hyps(1))
    fix j assume j: "Suc m \<le> j" "j < n"
    show "?e + (\<Sum>i \<in> {Suc m..j}. s i) = 1 \<or> vanishes (psub (dn j) (up_bp r ! state_col 0 j))"
      using Suc.prems(5) [of j] j sums [of j] by (auto simp: algebra_simps)
  qed (use Suc.hyps(2) Suc.prems mn in auto)
  then obtain cs inc' where cs: "lex_loop L r S [Suc m..<n] (Some [?e]) (Some inc1) = Some (cs, inc')"
    "list_all holds cs" "inc' = None \<longrightarrow> Suc m = n" by blast
  have "\<exists>x. inc' = Some x"
  proof (cases "Suc m = n")
    case True
    then show ?thesis using cs(1) by auto
  qed (use cs(3) in auto)
  moreover have "vanishes (pmul [1 - ?e] ?d)"
    using Suc.prems(5) [of m] mn by (intro vanishes_pmul) auto
  moreover have "(case prefix of None \<Rightarrow> [s m] | Some q \<Rightarrow> padd q [s m]) = [?e]"
    using Suc.prems(4) by auto
  ultimately show ?case
    using cs Suc.prems(2,3) [of m] mn by (auto simp: upt_conv_Cons Let_def inc1_def [symmetric] simp del: pmul.simps)
qed

lemma those_map_ex:
  assumes "\<And>x. x \<in> set xs \<Longrightarrow> \<exists>y. f x = Some y \<and> P y"
  shows "\<exists>ys. those (map f xs) = Some ys \<and> list_all P ys"
  using assms
proof (induction xs)
  case (Cons x xs)
  then obtain y ys where "f x = Some y" "P y" "those (map f xs) = Some ys" "list_all P ys"
    by (meson list.set_intros)
  then show ?case by simp
qed simp

lemma foldl_singles:
  assumes "length S = n" "\<forall>j < n. S ! j = [s j]" "0 < n"
  shows "foldl padd (S ! 0) (tl S) = [(\<Sum>j < n. s j)]"
proof -
  have fold: "foldl padd [a] (map (\<lambda>x. [x]) xs) = [a + sum_list xs]" for a xs
    by (induction xs arbitrary: a) simp_all
  have S: "S = map (\<lambda>x. [x]) (map s [0..<n])" using assms by (auto intro: nth_equalityI)
  have tl: "tl S = map (\<lambda>x. [x]) (map s [1..<n])" by (subst S) (simp add: map_tl [symmetric])
  have "s 0 + sum_list (map s [1..<n]) = sum_list (map s [0..<n])"
    using assms(3) by (simp add: upt_conv_Cons)
  moreover have "sum_list (map s [0..<n]) = (\<Sum>j < n. s j)"
    by (simp add: sum_list_distinct_conv_sum_set atLeast0LessThan)
  moreover have "S ! 0 = [s 0]" using assms by simp
  ultimately show ?thesis by (simp only: tl fold)
qed

lemma sorted_row_holds:
  assumes sh: "shaped v t" and i: "Suc i < 2 ^ v"
    and first: "icell t 0 i = 0 \<or> cell t 0 20 i = 1"
    and instr: "cell t 0 20 (Suc i) = 0 \<or> cell t 0 20 (Suc i) = 1"
    and k: "k < 10" "\<forall>j < 10. icell t (v + 1 + j) i = of_bool (k = j)"
    and eq: "\<forall>j < k. cell t 0 j (Suc i) = cell t 0 j i"
    and slack: "uint (cell t 0 k (Suc i)) - uint (cell t 0 k i) - 1 = uint (bp_cols t ! (42 * v) ! i)"
    and w: "icell t (v + 11) i = (if 8 \<le> k then uint (cell t 0 20 (Suc i)) - 1 else 0)"
    and wr: "k < 8 \<Longrightarrow> cell t 0 20 (Suc i) = 1"
    and val: "8 \<le> k \<Longrightarrow> cell t 0 20 (Suc i) = 0 \<Longrightarrow> \<forall>j < 8. cell t 0 (12 + j) (Suc i) = cell t 0 (12 + j) i"
  shows "\<exists>cs. sorted_constraints (layout_of v) (row_at oob (layout_of v) t i) = Some cs \<and> list_all holds cs"
proof -
  let ?L = "layout_of v"
  let ?r = "row_at oob ?L t i"
  let ?x = "cell t 0 20 (Suc i)"
  define S0 where "S0 = take 10 (drop (Suc v) (up_int ?r))"
  define s where "s = (\<lambda>j. of_bool (k = j) :: int)"
  note S = selectors_at [OF sh, where oob = oob and L = ?L and i = i, folded S0_def]
  have Sj: "S0 ! j = [s j]" if "j < 10" for j using S(2) [OF that] k(2) that by (simp add: s_def)
  note D = down_sorted [OF sh _ _ _ i, where oob = oob]
  have v: "3 \<le> v" using sh by (simp add: shaped_def)
  have U: "up_bp ?r ! state_col 0 p = bit_poly (cell t 0 p i)" if "p < 21" for p
    using up_cells(1) [OF sh _ that, of 0 oob ?L i] v by simp
  have sl: "up_bp ?r ! (42 * v) = bit_poly (bp_cols t ! (42 * v) ! i)"
    using up_cells(2) [OF sh, of "42 * v" oob ?L i] by simp
  have ints: "up_int ?r ! 0 = [icell t 0 i]" "up_int ?r ! (v + 11) = [icell t (v + 11) i]"
    using up_cells(3) [OF sh, of 0 oob ?L i] up_cells(3) [OF sh, of "v + 11" oob ?L i] v by simp_all
  have sum: "(\<Sum>j < 10. s j) = 1" using k(1) by (simp add: s_def)
  have lex: "\<exists>cs inc'. lex_loop ?L ?r S0 [0..<10] None None = Some (cs, inc') \<and> list_all holds cs \<and>
      (inc' = None \<longrightarrow> (0 :: nat) = 10)"
  proof (rule lex_loop_holds [where s = s and e = 0])
    fix j :: nat assume j: "j < 10"
    show "down_cell ?L ?r (state_col 0 j) 1 = Some (bit_poly (cell t 0 j (Suc i)))"
      using D [of j] j by simp
    show "0 + (\<Sum>i \<in> {0..j}. s i) = 1 \<or>
        vanishes (psub (bit_poly (cell t 0 j (Suc i))) (up_bp ?r ! state_col 0 j))"
    proof (cases "j < k")
      case True
      then show ?thesis using eq j by (simp add: U)
    next
      case False
      then show ?thesis by (simp add: s_def)
    qed
  qed (use Sj in auto)
  then obtain s5 inc where lex: "lex_loop ?L ?r S0 [0..<10] None None = Some (s5, Some inc)"
    and h5: "list_all holds s5" by auto
  define s' where "s' = (\<lambda>j. eval2 (S0 ! j))"
  define d' where "d' = (\<lambda>j. eval2 (bit_poly (cell t 0 j (Suc i))) - eval2 (up_bp ?r ! state_col 0 j))"
  have "eval_opt (Some inc) = eval_opt None + (\<Sum>j \<in> {0..<10}. s' j * d' j)"
    using lex_loop_facts [OF lex h5 _ _ s'_def d'_def] D by simp
  moreover have "(\<Sum>j \<in> {0..<10}. s' j * d' j) = (\<Sum>j \<in> {0..<10}. if j = k then d' k else 0)"
    by (intro sum.cong) (auto simp: s'_def Sj s_def)
  ultimately have inc: "eval2 inc = uint (cell t 0 k (Suc i)) - uint (cell t 0 k i)"
    using k(1) by (simp add: eval_opt_def d'_def U)
  have "\<exists>s8. those (map (\<lambda>j. down_cell ?L ?r (state_col 0 (12 + j)) 1 \<bind> (\<lambda>y. Some (Assert_zero
        (pmul (up_int ?r ! (v + 11)) (psub y (up_bp ?r ! state_col 0 (12 + j))))))) [0..<8]) = Some s8
      \<and> list_all holds s8"
  proof (rule those_map_ex)
    fix j assume "j \<in> set [0..<8 :: nat]"
    then have j: "j < 8" by simp
    have "icell t (v + 11) i = 0 \<or> cell t 0 (12 + j) (Suc i) = cell t 0 (12 + j) i"
      using w val instr j by auto
    then have "vanishes (pmul [icell t (v + 11) i]
        (psub (bit_poly (cell t 0 (12 + j) (Suc i))) (bit_poly (cell t 0 (12 + j) i))))"
      by (intro vanishes_pmul) auto
    then show "\<exists>y. (down_cell ?L ?r (state_col 0 (12 + j)) 1 \<bind> (\<lambda>y. Some (Assert_zero
        (pmul (up_int ?r ! (v + 11)) (psub y (up_bp ?r ! state_col 0 (12 + j))))))) = Some y \<and> holds y"
      using D [of "12 + j"] j by (simp add: U ints del: pmul.simps)
  qed
  then obtain s8 where val': "those (map (\<lambda>j. down_cell ?L ?r (state_col 0 (12 + j)) 1 \<bind> (\<lambda>y. Some (Assert_zero
        (pmul (up_int ?r ! (v + 11)) (psub y (up_bp ?r ! state_col 0 (12 + j))))))) [0..<8]) = Some s8"
    and h8: "list_all holds s8" by blast
  note B = bit_poly_01 [OF instr]
  have one: "coeff one n = coeff [1] n" for n by (simp add: one_def)
  have h1: "vanishes (pmul [icell t 0 i] (psub (bit_poly (cell t 0 20 i)) one))"
    using first bit_poly_01 [of 1] by (intro vanishes_pmul) (auto simp: vanishes_iff one coeff_single)
  have h2: "vanishes (pmul (bit_poly ?x) (psub (bit_poly ?x) one))"
    using instr B by (intro vanishes_pmul) (auto simp: vanishes_iff one coeff_single)
  have h3: "list_all holds (map (\<lambda>s_j. Assert_zero (pmul s_j (psub s_j one))) S0)"
    using S(1) by (simp add: list_all_length Sj s_def)
  have h4: "foldl padd [s 0] (tl S0) = [1]"
    using foldl_singles [OF S(1), of s] Sj [of 0] Sj sum by simp
  have h7: "vanishes (psub [icell t (v + 11) i] (pmul [s 8 + s 9] (psub (bit_poly ?x) one)))"
    using k(1) w by (auto simp: vanishes_iff one B coeff_single s_def simp del: pmul.simps)
  have h9: "vanishes (pmul [1 - (s 8 + s 9)] (psub (bit_poly ?x) one))"
  proof (cases "k < 8")
    case True
    with wr bit_poly_01 [of 1] show ?thesis
      by (auto simp: vanishes_iff one coeff_single simp del: pmul.simps)
  next
    case False
    with k(1) have "s 8 + s 9 = 1" by (auto simp: s_def)
    then show ?thesis by (auto simp: vanishes_iff coeff_single simp del: pmul.simps)
  qed
  have h6: "eval2 (psub (psub inc one) (up_bp ?r ! (42 * v))) = 0" using slack by (simp add: inc sl)
  show ?thesis
    using D [of 20] lex val' h1 h2 h3 h5 h6 h7 h8 h9
    by (simp add: sorted_constraints_def Let_def h4 U ints Sj flip: S0_def del: pmul.simps upt_rec_numeral)
qed

lemma original_row_holds:
  assumes sh: "shaped v t" and i: "Suc i < 2 ^ v" and g: "g = 2 * v - 1"
    and first: "icell t 0 i = 0 \<or> cell t g 8 i = 0 \<and> cell t g 9 i = 0"
    and hi: "icell t (v + 12) i = of_bool h" and lo: "icell t (v + 13) i = of_bool (\<not> h)"
    and eq: "\<not> h \<Longrightarrow> cell t g 8 (Suc i) = cell t g 8 i"
    and slack: "(if h then uint (cell t g 8 (Suc i)) - uint (cell t g 8 i)
      else uint (cell t g 9 (Suc i)) - uint (cell t g 9 i)) - 1 = uint (bp_cols t ! (42 * v + 1) ! i)"
  shows "\<exists>cs. original_constraints (layout_of v) (row_at oob (layout_of v) t i) = Some cs \<and> list_all holds cs"
proof -
  let ?L = "layout_of v"
  let ?r = "row_at oob ?L t i"
  have v: "3 \<le> v" using sh by (simp add: shaped_def)
  have U: "up_bp ?r ! state_col g p = bit_poly (cell t g p i)" if "p < 21" for p
    using up_cells(1) [OF sh _ that, of g oob ?L i] v by (simp add: g)
  have D: "down_cell ?L ?r (state_col g p) 1 = Some (bit_poly (cell t g p (Suc i)))"
    if "p = 8 \<or> p = 9" for p
    using down_cell_at [OF sh, of g p 1 i oob] that i v by (auto simp: amounts_def g)
  have sl: "up_bp ?r ! Suc (42 * v) = bit_poly (bp_cols t ! Suc (42 * v) ! i)"
    using up_cells(2) [OF sh, of "42 * v + 1" oob ?L i] by simp
  have ints: "up_int ?r ! 0 = [icell t 0 i]" "up_int ?r ! (v + 12) = [of_bool h]"
    "up_int ?r ! (v + 13) = [of_bool (\<not> h)]"
    using up_cells(3) [OF sh, of 0 oob ?L i] up_cells(3) [OF sh, of "v + 12" oob ?L i]
      up_cells(3) [OF sh, of "v + 13" oob ?L i] v by (simp_all add: hi lo)
  let ?dh = "psub (bit_poly (cell t g 8 (Suc i))) (bit_poly (cell t g 8 i))"
  let ?dl = "psub (bit_poly (cell t g 9 (Suc i))) (bit_poly (cell t g 9 i))"
  have zero: "vanishes (bit_poly 0)" using bit_poly_01 [of 0] by (simp add: vanishes_iff coeff_single)
  have "vanishes (pmul [icell t 0 i] (bit_poly (cell t g 8 i)))"
    "vanishes (pmul [icell t 0 i] (bit_poly (cell t g 9 i)))"
    "vanishes (pmul [1 - of_bool h] ?dh)"
    using first eq zero by (auto intro!: vanishes_pmul simp del: pmul.simps)
  moreover have "eval2 (psub (psub (padd (pmul [of_bool h] ?dh) (pmul [of_bool (\<not> h)] ?dl)) one)
      (bit_poly (bp_cols t ! Suc (42 * v) ! i))) = 0"
    using slack by (cases h) simp_all
  ultimately show ?thesis
    using D [of 8] D [of 9]
    by (simp add: original_constraints_def Let_def U ints sl g [simplified, symmetric] del: pmul.simps)
qed

lemma layer_row_holds:
  assumes sh: "shaped v t" and i: "i < 2 ^ v" and l: "l < 2 * v - 1"
    and up: "icell t (1 + stride v l) i = of_bool (\<not> bit i (stride v l))"
    and sw: "icell t (v + 14 + l) i = of_bool b"
    and out: "\<And>p. \<not> bit i (stride v l) \<Longrightarrow> p < 21 \<Longrightarrow>
      cell t (Suc l) p i = cell t l p (if b then i + 2 ^ stride v l else i) \<and>
      cell t (Suc l) p (i + 2 ^ stride v l) = cell t l p (if b then i else i + 2 ^ stride v l)"
  shows "\<exists>cs. layer_constraints (layout_of v) (row_at oob (layout_of v) t i) l = Some cs \<and> list_all holds cs"
proof -
  let ?L = "layout_of v"
  let ?r = "row_at oob ?L t i"
  let ?k = "stride v l"
  have v: "3 \<le> v" using sh by (simp add: shaped_def)
  have kv: "?k < v" using stride_less [of v l] l v by simp
  have am: "2 ^ ?k \<in> set (amounts v l p)" "2 ^ ?k \<in> set (amounts v (Suc l) p)" for p
    using l v by (auto simp: amounts_def min_def max_def stride_def)
  have ints: "up_int ?r ! Suc ?k = [of_bool (\<not> bit i ?k)]" "up_int ?r ! (v + 14 + l) = [of_bool b]"
    using up_cells(3) [OF sh, of "1 + ?k" oob ?L i] up_cells(3) [OF sh, of "v + 14 + l" oob ?L i] l v kv up sw
    by simp_all
  have st: "stride_bit v l = Some ?k" by (rule stride_bit_Some) (use l v in simp_all)
  have "\<exists>css. those (map (swap_constraints ?L ?r l (2 ^ ?k) [of_bool (\<not> bit i ?k)] [of_bool b]) [0..<21]) = Some css
      \<and> list_all (list_all holds) css"
  proof (rule those_map_ex)
    fix p assume "p \<in> set [0..<21 :: nat]"
    then have p: "p < 21" by simp
    obtain x where x: "down_idx ?L (state_col l p) (2 ^ ?k) = Some x"
      by (rule down_idx_ok [OF _ p am(1)]) (use l in auto)
    obtain y where y: "down_idx ?L (state_col (Suc l) p) (2 ^ ?k) = Some y"
      by (rule down_idx_ok [OF _ p am(2)]) (use l in auto)
    show "\<exists>cs. swap_constraints ?L ?r l (2 ^ ?k) [of_bool (\<not> bit i ?k)] [of_bool b] p = Some cs \<and> list_all holds cs"
    proof (cases "bit i ?k")
      case True
      then show ?thesis
        by (simp add: swap_constraints_def down_cell_def x y Let_def vanishes_pmul del: pmul.simps)
    next
      case False
      have j: "i + 2 ^ ?k < 2 ^ v" by (rule partner_less [OF False i kv])
      have D: "down_cell ?L ?r (state_col l p) (2 ^ ?k) = Some (bit_poly (cell t l p (i + 2 ^ ?k)))"
        "down_cell ?L ?r (state_col (Suc l) p) (2 ^ ?k) = Some (bit_poly (cell t (Suc l) p (i + 2 ^ ?k)))"
        using down_cell_at [OF sh _ p am(1) j] down_cell_at [OF sh _ p am(2) j] l v by simp_all
      have U: "up_bp ?r ! state_col l p = bit_poly (cell t l p i)"
        "up_bp ?r ! state_col (Suc l) p = bit_poly (cell t (Suc l) p i)"
        using up_cells(1) [OF sh _ p, of _ oob ?L i] l by simp_all
      show ?thesis
        using out [OF False p]
        by (auto simp: swap_constraints_def D U Let_def vanishes_iff simp del: pmul.simps)
    qed
  qed
  then obtain css where "those (map (swap_constraints ?L ?r l (2 ^ ?k) [of_bool (\<not> bit i ?k)] [of_bool b]) [0..<21]) = Some css"
    "list_all (list_all holds) css" by blast
  moreover have "vanishes (pmul [of_bool (\<not> bit i ?k)] (pmul [of_bool b] (psub [of_bool b] one)))"
    by simp
  ultimately show ?thesis
    using kv
    by (auto simp: layer_constraints_def layout_stride_def st ints Let_def list_all_iff
        simp del: pmul.simps upt_rec_numeral)
qed

lemma satisfied_rows_satisfied:
  assumes sh: "shaped v t" and pub: "take (1 + v) (int_cols t) = public_int_columns v"
    and s: "\<And>i. Suc i < 2 ^ v \<Longrightarrow>
      \<exists>cs. sorted_constraints (layout_of v) (row_at oob (layout_of v) t i) = Some cs \<and> list_all holds cs"
    and o: "\<And>i. Suc i < 2 ^ v \<Longrightarrow>
      \<exists>cs. original_constraints (layout_of v) (row_at oob (layout_of v) t i) = Some cs \<and> list_all holds cs"
    and n: "\<And>i l. Suc i < 2 ^ v \<Longrightarrow> l < 2 * v - 1 \<Longrightarrow>
      \<exists>cs. layer_constraints (layout_of v) (row_at oob (layout_of v) t i) l = Some cs \<and> list_all holds cs"
  shows "uair_satisfied oob v t"
proof -
  have v: "3 \<le> v" "v \<le> 16" using sh by (simp_all add: shaped_def)
  have "case constrain_general (layout_of v) (row_at oob (layout_of v) t i) of
      None \<Rightarrow> False | Some cs \<Rightarrow> list_all holds cs" if i: "Suc i < 2 ^ v" for i
  proof -
    obtain ss os where "sorted_constraints (layout_of v) (row_at oob (layout_of v) t i) = Some ss" "list_all holds ss"
      "original_constraints (layout_of v) (row_at oob (layout_of v) t i) = Some os" "list_all holds os"
      using s [OF i] o [OF i] by blast
    moreover obtain ns where
      "those (map (layer_constraints (layout_of v) (row_at oob (layout_of v) t i)) [0..<2 * v - 1]) = Some ns"
      "list_all (list_all holds) ns"
      using those_map_ex [of "[0..<2 * v - 1]" "layer_constraints (layout_of v) (row_at oob (layout_of v) t i)"
        "list_all holds"] n [OF i] by auto
    ultimately show ?thesis by (auto simp: constrain_general_def list_all_iff)
  qed
  then have A: "list_all (\<lambda>i. case constrain_general (layout_of v) (row_at oob (layout_of v) t i) of
      None \<Rightarrow> False | Some cs \<Rightarrow> list_all holds cs) [0..<2 ^ v - 1]"
    unfolding list_all_iff by auto
  show ?thesis
    using sh pub A
    unfolding uair_satisfied_def NetLayout_new_ok [OF v] option.case layout_of_simps
    by (simp add: shaped_def list_all_iff)
qed

end
