(* ===== verification/Uair_Rows.thy ===== *)
theory Uair_Rows
  imports Uair_Completeness
begin

text \<open>
  The pieces of the witness builder one at a time: the limbs of a record decode to it, the
  order of keys is the order of the first differing limb, the padding continues both orders,
  and the network runs from the sorted rows to the original ones.
\<close>

section \<open>Limbs\<close>

lemma undigits_blocks:
  assumes "length ds = 4 * n"
  shows "undigits_be (b ^ 4) (map (\<lambda>j. undigits_be b [ds ! (4 * j), ds ! (4 * j + 1), ds ! (4 * j + 2),
    ds ! (4 * j + 3)]) [0..<n]) = undigits_be b ds"
  using assms
proof (induction n arbitrary: ds)
  case (Suc n)
  let ?f = "\<lambda>ds j. undigits_be b [ds ! (4 * j), ds ! (4 * j + 1), ds ! (4 * j + 2), ds ! (4 * j + 3)]"
  let ?hd = "take (4 * n) ds"
  have eq: "map (?f ?hd) [0..<n] = map (?f ds) [0..<n]" by (intro map_cong) auto
  have "length ?hd = 4 * n" using Suc.prems by simp
  from Suc.IH [OF this]
  have IH: "undigits_be (b ^ 4) (map (?f ds) [0..<n]) = undigits_be b ?hd" unfolding eq .
  have tl: "drop (4 * n) ds = [ds ! (4 * n), ds ! (4 * n + 1), ds ! (4 * n + 2), ds ! (4 * n + 3)]"
    using Suc.prems by (intro nth_equalityI) (auto simp: less_Suc_eq numeral_eq_Suc)
  have "undigits_be b ds = undigits_be b (?hd @ drop (4 * n) ds)" by simp
  also have "\<dots> = undigits_be b ?hd * b ^ 4 + ?f ds n"
    unfolding undigits_be_append tl by (simp add: power4_eq_xxxx mult.assoc)
  finally show ?case using IH by simp
qed simp

lemma undigits_be_bytes_to_limbs:
  assumes "length bs = 32"
  shows "undigits_be (2 ^ 32) (map unat (be_bytes_to_limbs bs)) = undigits_be 256 (map unat bs)"
proof -
  have "unat (from_be_bytes [bs ! (4 * j), bs ! (4 * j + 1), bs ! (4 * j + 2), bs ! (4 * j + 3)] :: u32)
      = undigits_be 256 [map unat bs ! (4 * j), map unat bs ! (4 * j + 1), map unat bs ! (4 * j + 2),
          map unat bs ! (4 * j + 3)]" if "j < 8" for j
    using that assms by (subst unat_from_be_bytes) simp_all
  then have "map unat (be_bytes_to_limbs bs) = map (\<lambda>j. undigits_be 256 [map unat bs ! (4 * j),
      map unat bs ! (4 * j + 1), map unat bs ! (4 * j + 2), map unat bs ! (4 * j + 3)]) [0..<8]"
    unfolding be_bytes_to_limbs_def map_map by (intro map_cong) (simp_all add: o_def)
  then show ?thesis using undigits_blocks [of "map unat bs" 8 256] assms by simp
qed

lemma undigits_address_limbs:
  "undigits_be (2 ^ 32) (map unat (be_bytes_to_limbs (fixed_be_bytes (x :: u256)))) = unat x"
  using undigits_be_bytes_to_limbs [of "fixed_be_bytes x"]
  by (simp add: length_fixed_be_bytes undigits_fixed_be_bytes)

lemma undigits_u64_limbs: "undigits_be (2 ^ 32) (map unat (u64_limbs x)) = unat x"
proof -
  have "unat x < 2 ^ 64" using unat_less_2p [of x] by simp
  then have "unat x div 2 ^ 32 < 2 ^ 32" by (simp add: div_less_iff_less_mult)
  then have "unat (ucast (drop_bit 32 x) :: u32) = unat x div 2 ^ 32"
    by (simp add: unsigned_ucast_eq take_bit_eq_mod drop_bit_eq_div unat_div)
  moreover have "unat (ucast x :: u32) = unat x mod 2 ^ 32" by (simp add: unsigned_ucast_eq take_bit_eq_mod)
  ultimately show ?thesis by (simp add: u64_limbs_def undigits_be_def)
qed

lemma limbs_lengths [simp]:
  "length (be_bytes_to_limbs bs) = 8" "length (u64_limbs x) = 2"
  "length (rl_addr (from_record r)) = 8" "length (rl_time (from_record r)) = 2"
  "length (rl_stack_depth (from_record r)) = 2" "length (rl_value (from_record r)) = 8"
  by (simp_all add: be_bytes_to_limbs_def u64_limbs_def from_record_def)

definition payload_row :: "access \<Rightarrow> u32 list" where
  "payload_row r = map (payload (from_record r)) [0..<21]"

lemma payload_row_parts:
  "take 8 (payload_row r) = rl_addr (from_record r)"
  "take 2 (drop 8 (payload_row r)) = rl_time (from_record r)"
  "take 2 (drop 10 (payload_row r)) = rl_stack_depth (from_record r)"
  "take 8 (drop 12 (payload_row r)) = rl_value (from_record r)"
  "payload_row r ! 20 = rl_instr (from_record r)"
  by (rule nth_equalityI; auto simp: payload_row_def payload_def nth_append)+
    (simp add: payload_row_def payload_def)

lemma payload_row_key: "take 10 (payload_row r) = rl_addr (from_record r) @ rl_time (from_record r)"
  using take_add [of 8 2 "payload_row r"] by (simp add: payload_row_parts)

lemma limbs_value_eq: "undigits_be (2 ^ 32) (map unat xs) = unat x \<Longrightarrow> limbs_value xs = x"
  by (simp add: limbs_value_def)

lemma decode_payload_row: "decode_row (payload_row r) = r"
proof -
  have "limbs_value (rl_addr (from_record r)) = tr_address r" "limbs_value (rl_value (from_record r)) = tr_value r"
    "limbs_value (rl_time (from_record r)) = tr_time_log r"
    "limbs_value (rl_stack_depth (from_record r)) = tr_stack_depth r"
    by (rule limbs_value_eq; simp add: from_record_def undigits_address_limbs [simplified]
        undigits_u64_limbs [simplified])+
  moreover have "(if rl_instr (from_record r) = 0 then Read else Write) = tr_instruction r"
    by (simp add: from_record_def split: memory_instruction.split)
  ultimately show ?thesis by (simp add: decode_row_def payload_row_parts)
qed

lemma from_record_inj: "from_record r = from_record r' \<Longrightarrow> r = r'"
  using decode_payload_row by (metis payload_row_def)

section \<open>The first difference\<close>

lemma limbs_first_difference:
  fixes xs ys :: "u32 list"
  assumes "length xs = length ys"
    and less: "undigits_be (2 ^ 32) (map unat xs) < undigits_be (2 ^ 32) (map unat ys)"
  obtains k where "k < length xs" "\<forall>j < k. xs ! j = ys ! j" "xs ! k < ys ! k"
proof -
  let ?P = "\<lambda>k. k < length xs \<and> xs ! k \<noteq> ys ! k"
  have "xs \<noteq> ys" using less by auto
  then obtain k0 where "?P k0" using assms(1) by (auto simp: list_eq_iff_nth_eq)
  then have k: "?P (LEAST k. ?P k)" by (rule LeastI)
  define k where "k = (LEAST k. ?P k)"
  have k: "k < length xs" "xs ! k \<noteq> ys ! k" using k by (simp_all add: k_def)
  have pre: "xs ! j = ys ! j" if "j < k" for j
    using not_less_Least [of j ?P] that k by (auto simp: k_def)
  have "xs ! k < ys ! k"
  proof (rule ccontr)
    assume "\<not> xs ! k < ys ! k"
    with k(2) have gt: "ys ! k < xs ! k" by simp
    have "undigits_be (2 ^ 32) (map unat ys) < undigits_be (2 ^ 32) (map unat xs)"
    proof (rule undigits_be_lex [of _ _ k])
      show "take k (map unat ys) = take k (map unat xs)"
        using pre k assms(1) by (intro take_nth_eqI) auto
    qed (use k gt assms(1) in \<open>auto simp: word_less_nat_alt unat_less_2p [where 'a = 32, simplified]\<close>)
    with less show False by simp
  qed
  with k pre that show thesis by blast
qed

section \<open>Transitions\<close>

lemma key_undigits:
  "undigits_be (2 ^ 32) (map unat (rl_addr (from_record r) @ rl_time (from_record r)))
    = unat (tr_address r) * 2 ^ 64 + unat (tr_time_log r)"
proof -
  have "undigits_be (2 ^ 32) (map unat (rl_addr (from_record r))) = unat (tr_address r)"
    "undigits_be (2 ^ 32) (map unat (rl_time (from_record r))) = unat (tr_time_log r)"
    by (simp_all only: from_record_def row_limbs.simps undigits_address_limbs undigits_u64_limbs)
  then show ?thesis unfolding map_append undigits_be_append by simp
qed

lemma access_key_undigits:
  assumes "access_key a < access_key b"
  shows "unat (tr_address a) * 2 ^ 64 + unat (tr_time_log a)
    < unat (tr_address b) * 2 ^ 64 + unat (tr_time_log b)"
proof (cases "tr_address a = tr_address b")
  case True
  with assms show ?thesis by (simp add: access_key_def word_less_nat_alt)
next
  case False
  with assms have "tr_address a < tr_address b" by (auto simp: access_key_def)
  then have "unat (tr_address a) + 1 \<le> unat (tr_address b)" by (simp add: word_less_nat_alt)
  then have "(unat (tr_address a) + 1) * 2 ^ 64 \<le> unat (tr_address b) * 2 ^ 64" by (rule mult_le_mono1)
  moreover have "unat (tr_time_log a) < 2 ^ 64" using unat_less_2p [of "tr_time_log a"] by simp
  ultimately show ?thesis by simp
qed

lemma payload_row_nth: "p < 21 \<Longrightarrow> payload_row r ! p = payload (from_record r) p"
  by (simp add: payload_row_def)

lemma length_payload_row [simp]: "length (payload_row r) = 21"
  by (simp add: payload_row_def)

definition sorted_link :: "access \<Rightarrow> access \<Rightarrow> nat \<times> u32 \<times> int \<Rightarrow> bool" where
  "sorted_link a b x = (case x of (k, slack, w) \<Rightarrow>
     k < 10 \<and> (\<forall>j < k. payload_row b ! j = payload_row a ! j) \<and>
     uint (payload_row b ! k) - uint (payload_row a ! k) - 1 = uint slack \<and>
     w = (if 8 \<le> k then uint (payload_row b ! 20) - 1 else 0) \<and>
     (8 \<le> k \<longleftrightarrow> tr_address a = tr_address b))"

definition original_link :: "access \<Rightarrow> access \<Rightarrow> bool \<times> u32 \<Rightarrow> bool" where
  "original_link a b x = (case x of (h, slack) \<Rightarrow>
     (\<not> h \<longrightarrow> payload_row b ! 8 = payload_row a ! 8) \<and>
     (if h then uint (payload_row b ! 8) - uint (payload_row a ! 8)
      else uint (payload_row b ! 9) - uint (payload_row a ! 9)) - 1 = uint slack)"

lemma uint_slack:
  assumes "(x :: u32) < y"
  shows "uint (word_of_int (uint y - uint x - 1) :: u32) = uint y - uint x - 1"
proof -
  have len32: "(2 :: int) ^ LENGTH(32) = 2 ^ 32" by simp
  have "0 \<le> uint x" by (rule uint_ge_0)
  moreover have "uint x < uint y" "uint y < 2 ^ 32"
    using assms unsigned_less [of y, where 'a = int] by (simp_all add: word_less_def)
  ultimately show ?thesis
    unfolding uint_word_of_int using len32 by (intro mod_pos_pos_trivial) linarith+
qed

lemma sorted_transition_ok:
  assumes "access_key a < access_key b"
  shows "\<exists>x. sorted_transition (from_record a) (from_record b) = Inr x \<and> sorted_link a b x"
proof -
  let ?l = "\<lambda>r. rl_addr (from_record r) @ rl_time (from_record r)"
  have "undigits_be (2 ^ 32) (map unat (?l a)) < undigits_be (2 ^ 32) (map unat (?l b))"
    unfolding key_undigits by (rule access_key_undigits [OF assms])
  then obtain k where k: "k < 10" and eq: "\<forall>j < k. ?l a ! j = ?l b ! j" and lt: "?l a ! k < ?l b ! k"
    by (rule limbs_first_difference [rotated]) simp_all
  have l: "?l r ! j = payload_row r ! j" if "j < 10" for r j
    using payload_row_key [of r] that by (metis nth_take)
  have lex: "lex_limb (from_record r) j = payload_row r ! j" if "j < 10" for r j
    using that by (simp add: lex_limb_def payload_row_nth)
  have eq: "\<forall>j < k. payload_row b ! j = payload_row a ! j" and lt: "payload_row a ! k < payload_row b ! k"
    using eq lt l k by simp_all
  have find: "find (\<lambda>j. lex_limb (from_record a) j \<noteq> lex_limb (from_record b) j) [0..<10] = Some k"
    unfolding find_Some_iff using eq lt k lex by (intro exI [of _ k]) auto
  have addr: "8 \<le> k \<longleftrightarrow> tr_address a = tr_address b"
  proof
    assume "8 \<le> k"
    then have "take 8 (payload_row a) = take 8 (payload_row b)"
      using eq by (intro take_nth_eqI) auto
    then have "decode_row (payload_row a)\<lparr>tr_time_log := 0, tr_stack_depth := 0, tr_instruction := Read, tr_value := 0\<rparr>
        = decode_row (payload_row b)\<lparr>tr_time_log := 0, tr_stack_depth := 0, tr_instruction := Read, tr_value := 0\<rparr>"
      by (simp add: decode_row_def)
    then show "tr_address a = tr_address b"
      unfolding decode_payload_row by (cases a; cases b) simp
  next
    assume same: "tr_address a = tr_address b"
    show "8 \<le> k"
    proof (rule ccontr)
      assume "\<not> 8 \<le> k"
      then have "payload_row a ! k = payload_row b ! k"
        using same by (simp add: payload_row_nth payload_def from_record_def)
      with lt show False by simp
    qed
  qed
  have "uint (payload_row a ! k) < uint (payload_row b ! k)" using lt by (simp add: word_less_def)
  then have "sorted_transition (from_record a) (from_record b) =
      Inr (k, word_of_int (uint (payload_row b ! k) - uint (payload_row a ! k) - 1),
        if 8 \<le> k then uint (payload_row b ! 20) - 1 else 0)"
    using k by (simp add: sorted_transition_def find lex Let_def payload_row_parts)
  moreover have "sorted_link a b (k, word_of_int (uint (payload_row b ! k) - uint (payload_row a ! k) - 1),
        if 8 \<le> k then uint (payload_row b ! 20) - 1 else 0)"
    using k eq addr uint_slack [OF lt] by (simp add: sorted_link_def)
  ultimately show ?thesis by blast
qed

lemma original_transition_ok:
  assumes "tr_time_log a < tr_time_log b"
  shows "\<exists>x. original_transition (from_record a) (from_record b) = Inr x \<and> original_link a b x"
proof -
  let ?t = "\<lambda>r. rl_time (from_record r)"
  have u: "undigits_be (2 ^ 32) (map unat (?t r)) = unat (tr_time_log r)" for r
    by (simp only: from_record_def row_limbs.simps undigits_u64_limbs)
  have "undigits_be (2 ^ 32) (map unat (?t a)) < undigits_be (2 ^ 32) (map unat (?t b))"
    using assms unfolding u by (simp add: word_less_nat_alt)
  then obtain k where k: "k < 2" and eq: "\<forall>j < k. ?t a ! j = ?t b ! j" and lt: "?t a ! k < ?t b ! k"
    by (rule limbs_first_difference [rotated]) simp_all
  have c: "?t r ! 0 = payload_row r ! 8" "?t r ! 1 = payload_row r ! 9" for r
    by (simp_all add: payload_row_nth payload_def)
  have lt': "uint (?t a ! k) < uint (?t b ! k)" using lt by (simp add: word_less_def)
  note s = uint_slack [OF lt]
  consider "k = 0" | "k = 1" using k by linarith
  then show ?thesis
  proof cases
    case 1
    then show ?thesis using lt lt' s
      by (auto simp: original_transition_def original_link_def Let_def c [simplified])
  next
    case 2
    then show ?thesis using eq lt lt' s
      by (auto simp: original_transition_def original_link_def Let_def c [simplified])
  qed
qed

lemma transitions_ok:
  assumes "successively R rs"
    and "\<And>a b. R a b \<Longrightarrow> \<exists>x. f (g a) (g b) = Inr x \<and> Q a b x"
  shows "\<exists>xs. transitions f (map g rs) = Inr xs \<and> length xs = length rs - 1 \<and>
    (\<forall>i. Suc i < length rs \<longrightarrow> Q (rs ! i) (rs ! Suc i) (xs ! i))"
  using assms(1)
proof (induction rs rule: induct_list012)
  case (3 a b rs)
  from 3 obtain xs where xs: "transitions f (map g (b # rs)) = Inr xs" "length xs = length rs"
    "\<forall>i. Suc i < length (b # rs) \<longrightarrow> Q ((b # rs) ! i) ((b # rs) ! Suc i) (xs ! i)"
    by auto
  from 3 assms(2) [of a b] obtain x where x: "f (g a) (g b) = Inr x" "Q a b x" by auto
  have "\<forall>i. Suc i < length (a # b # rs) \<longrightarrow> Q ((a # b # rs) ! i) ((a # b # rs) ! Suc i) ((x # xs) ! i)"
  proof (intro allI impI)
    fix i assume "Suc i < length (a # b # rs)"
    then show "Q ((a # b # rs) ! i) ((a # b # rs) ! Suc i) ((x # xs) ! i)"
      using xs(3) x(2) by (cases i) simp_all
  qed
  with x xs show ?case by simp
qed simp_all

end
