(* ===== verification/Uair_Builder.thy ===== *)
theory Uair_Builder
  imports Uair_Rows
begin

text \<open>
  The witness builder on a time-ordered trace: the checks it makes, its padding, the
  permutation it routes, the states of the network and the columns it assembles.
\<close>

section \<open>Checks and padding\<close>

lemma check_times_None: "check_times tr = None \<longleftrightarrow> time_ordered tr"
proof (induction tr rule: check_times.induct)
  case (1 a b rs)
  have "transp ((<) :: u64 \<Rightarrow> u64 \<Rightarrow> bool)" by (rule transp_on_less)
  with 1 show ?case by (auto simp: time_ordered_def)
qed (simp_all add: time_ordered_def)

lemma next_power_of_two_spec:
  obtains k where "next_power_of_two n = 2 ^ k" "n \<le> 2 ^ k" "1 < n \<Longrightarrow> 2 ^ k < 2 * n" "n \<le> 1 \<Longrightarrow> k = 0"
proof -
  have "\<exists>k. next_power_of_two n = 2 ^ k \<and> n \<le> 2 ^ k \<and> (1 < n \<longrightarrow> 2 ^ k < 2 * n) \<and> (n \<le> 1 \<longrightarrow> k = 0)"
  proof (induction n rule: next_power_of_two.induct)
    case (1 n)
    show ?case
    proof (cases "n \<le> 1")
      case True
      then show ?thesis by (intro exI [of _ 0]) (simp add: next_power_of_two.simps [of n])
    next
      case False
      let ?m = "(n + 1) div 2"
      from 1 False obtain k where k: "next_power_of_two ?m = 2 ^ k" "?m \<le> 2 ^ k"
        "1 < ?m \<longrightarrow> 2 ^ k < 2 * ?m" "?m \<le> 1 \<longrightarrow> k = 0" by blast
      have "next_power_of_two n = 2 ^ Suc k" using False k(1) by (simp add: next_power_of_two.simps [of n])
      moreover have "n \<le> 2 ^ Suc k" using k(2) by simp
      moreover have "2 ^ Suc k < 2 * n"
      proof (cases "1 < ?m")
        case True
        show ?thesis
        proof (rule ccontr)
          assume "\<not> 2 ^ Suc k < 2 * n"
          then have n: "n \<le> 2 ^ k" by simp
          have "2 ^ k < 2 * ?m" using k(3) True by simp
          also have "\<dots> \<le> n + 1" by simp
          finally have "2 ^ k = n" using n by simp
          moreover from this have "even n" using True by (cases k) auto
          ultimately show False using \<open>2 ^ k < 2 * ?m\<close> by simp
        qed
      next
        case one: False
        with k(4) False show ?thesis by simp
      qed
      ultimately show ?thesis using False by (intro exI [of _ "Suc k"]) simp
    qed
  qed
  with that show thesis by blast
qed

text \<open>The number of variables the builder picks for a trace of \<open>n\<close> records.\<close>

definition vars_for :: "nat \<Rightarrow> nat" where
  "vars_for n = max (trailing_zeros (next_power_of_two (n + 1))) 3"

lemma vars_for_bounds: "3 \<le> vars_for n" "n < 2 ^ vars_for n"
proof -
  obtain k where k: "next_power_of_two (n + 1) = 2 ^ k" "n + 1 \<le> 2 ^ k" by (rule next_power_of_two_spec)
  have v: "vars_for n = max k 3" by (simp only: vars_for_def k(1) trailing_zeros_power)
  then show "3 \<le> vars_for n" by simp
  have "(2 :: nat) ^ k \<le> 2 ^ vars_for n" using v by (intro power_increasing) simp_all
  with k(2) show "n < 2 ^ vars_for n" by linarith
qed

lemma vars_for_limit:
  "trailing_zeros (next_power_of_two (n + 1)) \<le> 16 \<longleftrightarrow> n < 2 ^ 16"
proof -
  obtain k where k: "next_power_of_two (n + 1) = 2 ^ k" "n + 1 \<le> 2 ^ k" "1 < n + 1 \<Longrightarrow> 2 ^ k < 2 * (n + 1)"
    "n + 1 \<le> 1 \<Longrightarrow> k = 0" by (rule next_power_of_two_spec [of "n + 1"]) blast
  have "k \<le> 16 \<longleftrightarrow> n < 2 ^ 16"
  proof
    assume "k \<le> 16"
    then have "(2 :: nat) ^ k \<le> 2 ^ 16" by (intro power_increasing) simp_all
    with k(2) show "n < 2 ^ 16" by linarith
  next
    assume n: "n < 2 ^ 16"
    show "k \<le> 16"
    proof (cases "n = 0")
      case False
      then have "2 ^ k < 2 * (n + 1)" using k(3) by simp
      also have "\<dots> \<le> 2 ^ 17" using n by simp
      finally have "k < 17" by (simp only: power_strict_increasing_iff one_less_numeral_iff semiring_norm(76))
      then show ?thesis by simp
    qed (use k(4) in simp)
  qed
  then show ?thesis by (simp only: k(1) trailing_zeros_power)
qed

lemma unat_max: "unat (- 1 :: u64) = 2 ^ 64 - 1"
  by (simp add: unsigned_minus_1_eq_mask mask_eq_exp_minus_1)

definition padding_row :: "u64 \<Rightarrow> access \<Rightarrow> access" where
  "padding_row time pad = TraceRecord_new time (tr_stack_depth pad) Read (tr_address pad) (tr_value pad)"

lemma padding_rows_ok:
  assumes "unat time + n < 2 ^ 64"
  shows "padding_rows n time pad = Inr (map (\<lambda>i. padding_row (time + 1 + word_of_nat i) pad) [0..<n])"
  using assms
proof (induction n arbitrary: time)
  case (Suc n)
  have ne: "time \<noteq> - 1" using Suc.prems unat_max by auto
  have "unat time + 1 < 2 ^ 64" using Suc.prems by linarith
  then have u: "unat (time + 1) = unat time + 1" by (simp add: unat_word_ariths)
  then have "unat (time + 1) + n < 2 ^ 64" using Suc.prems by linarith
  note IH = Suc.IH [OF this]
  have "map (\<lambda>i. padding_row (time + 1 + word_of_nat i) pad) [0..<Suc n]
      = padding_row (time + 1) pad # map (\<lambda>i. padding_row (time + 1 + 1 + word_of_nat i) pad) [0..<n]"
    by (subst map_upt_Suc) (simp add: algebra_simps)
  then show ?case by (simp only: padding_rows.simps ne IH) (simp add: padding_row_def)
qed simp

lemma padding_rows_overflow:
  assumes "2 ^ 64 \<le> unat time + n"
  shows "padding_rows n time pad = Inl TimeLogOverflow"
  using assms
proof (induction n arbitrary: time)
  case 0
  then show ?case using unat_less_2p [of time] by simp
next
  case (Suc n)
  show ?case
  proof (cases "time = - 1")
    case False
    then have "unat time + 1 < 2 ^ 64"
      using unat_less_2p [of time] unat_max by (auto simp: word_unat_eq_iff)
    then have "unat (time + 1) = unat time + 1" by (simp add: unat_word_ariths)
    then have "2 ^ 64 \<le> unat (time + 1) + n" using Suc.prems by linarith
    with Suc.IH False show ?thesis by simp
  qed simp
qed

section \<open>The padded orders\<close>

text \<open>
  A padding of rows with the largest address and times beyond the last one extends both
  orders, and the sorted one stays the sorting of the original one.
\<close>

definition padding_of :: "access list \<Rightarrow> nat \<Rightarrow> access list" where
  "padding_of tr n = map (\<lambda>i. padding_row (tr_time_log (last tr) + 1 + word_of_nat i)
     (last (sort_trace_by_address_time tr))) [0..<n]"

lemma padding_time:
  assumes "unat t + n < 2 ^ 64" "i < n"
  shows "unat (t + 1 + word_of_nat i :: u64) = unat t + 1 + i"
proof -
  have "unat (word_of_nat (1 + i) :: u64) = 1 + i" unfolding unat_of_nat using assms by (intro mod_less) simp
  then have "unat (t + word_of_nat (1 + i)) = unat t + (1 + i)"
    using assms by (simp add: unat_word_ariths)
  then show ?thesis by (simp add: add.assoc)
qed

lemma time_ordered_last:
  assumes "time_ordered tr" "r \<in> set tr"
  shows "tr_time_log r \<le> tr_time_log (last tr)"
proof -
  obtain ys z where tr: "tr = ys @ [z]" using assms(2) by (cases tr rule: rev_cases) auto
  with assms show ?thesis
    by (auto simp: time_ordered_def sorted_wrt_append sorted_wrt_map less_imp_le)
qed

lemma padded_time_ordered:
  assumes "time_ordered tr" "tr \<noteq> []" "unat (tr_time_log (last tr)) + n < 2 ^ 64"
  shows "time_ordered (tr @ padding_of tr n)"
proof -
  let ?t = "tr_time_log (last tr)"
  note u = padding_time [OF assms(3)]
  have "sorted_wrt (\<lambda>i j. ?t + 1 + word_of_nat i < ?t + 1 + word_of_nat j) [0..<n]"
    by (rule sorted_wrt_mono_rel [OF _ sorted_wrt_upt]) (simp add: word_less_nat_alt u)
  then have "sorted_wrt (<) (map tr_time_log (padding_of tr n))"
    by (simp add: padding_of_def padding_row_def TraceRecord_new_def sorted_wrt_map o_def)
  moreover have "tr_time_log x < ?t + 1 + word_of_nat i" if "x \<in> set tr" "i < n" for x i
    using time_ordered_last [OF assms(1) that(1)] u [OF that(2)] by (simp add: word_less_nat_alt word_le_nat_alt)
  ultimately show ?thesis
    using assms(1)
    by (auto simp: time_ordered_def sorted_wrt_append padding_of_def padding_row_def TraceRecord_new_def)
qed

lemma sorted_keys_strict:
  assumes "time_ordered tr"
  shows "sorted_wrt (\<lambda>p r. access_key p < access_key r) (sort_trace_by_address_time tr)"
proof -
  have "distinct (map tr_time_log tr)" using assms by (simp add: time_ordered_def strict_sorted_iff)
  then have d: "distinct (map access_key tr)"
    by (auto simp: distinct_map inj_on_def access_key_def)
  have "mset (map access_key (sort_trace_by_address_time tr)) = mset (map access_key tr)"
    by (simp add: sort_trace_by_address_time_def)
  with d have "distinct (map access_key (sort_trace_by_address_time tr))" by (metis mset_eq_imp_distinct_iff)
  moreover have "sorted (map access_key (sort_trace_by_address_time tr))"
    by (simp add: sort_trace_by_address_time_def)
  ultimately have "sorted_wrt (<) (map access_key (sort_trace_by_address_time tr))"
    by (simp add: strict_sorted_iff)
  then show ?thesis by (simp add: sorted_wrt_map)
qed

lemma padded_sorted:
  assumes "time_ordered tr" "tr \<noteq> []" "unat (tr_time_log (last tr)) + n < 2 ^ 64"
  shows "sort_trace_by_address_time (tr @ padding_of tr n)
      = sort_trace_by_address_time tr @ padding_of tr n"
    and "sorted_wrt (\<lambda>p r. access_key p < access_key r) (sort_trace_by_address_time tr @ padding_of tr n)"
proof -
  let ?s = "sort_trace_by_address_time tr"
  have m: "mset ?s = mset tr" by (simp add: sort_trace_by_address_time_def)
  then have set: "set ?s = set tr" by (rule mset_eq_setD)
  have P: "time_ordered (tr @ padding_of tr n)" by (rule padded_time_ordered [OF assms])
  have addr: "tr_address x = tr_address (last ?s)" if "x \<in> set (padding_of tr n)" for x
    using that by (auto simp: padding_of_def padding_row_def TraceRecord_new_def)
  have top: "tr_address x \<le> tr_address (last ?s)" if "x \<in> set ?s" for x
  proof -
    have "?s \<noteq> []" using that by auto
    then obtain ys z where s: "?s = ys @ [z]" by (cases ?s rule: rev_cases) auto
    then show ?thesis using that sorted_addresses [of tr] by (auto simp: sorted_append)
  qed
  have "access_key x < access_key y" if x: "x \<in> set ?s" and y: "y \<in> set (padding_of tr n)" for x y
  proof -
    have "tr_time_log x < tr_time_log y"
      using P x y set by (auto simp: time_ordered_def sorted_wrt_append)
    then show ?thesis using top [OF x] addr [OF y] by (auto simp: access_key_def)
  qed
  moreover have "sorted_wrt (\<lambda>p r. access_key p < access_key r) (padding_of tr n)"
  proof -
    have "sorted_wrt (\<lambda>p r. tr_time_log p < tr_time_log r) (padding_of tr n)"
      using P by (simp add: time_ordered_def sorted_wrt_append sorted_wrt_map)
    then show ?thesis
      by (rule sorted_wrt_mono_rel [rotated]) (simp add: access_key_def addr)
  qed
  ultimately show sorted: "sorted_wrt (\<lambda>p r. access_key p < access_key r) (?s @ padding_of tr n)"
    using sorted_keys_strict [OF assms(1)] by (auto simp: sorted_wrt_append)
  show "sort_trace_by_address_time (tr @ padding_of tr n) = ?s @ padding_of tr n"
    by (rule sorted_unique [OF sorted]) (simp add: m)
qed

section \<open>The permutation\<close>

lemma pos_by_time_ok:
  assumes "distinct (map tr_time_log rows)" "i < length rows"
  shows "pos_by_time rows (tr_time_log (rows ! i)) = Some i"
proof -
  let ?z = "zip (map tr_time_log rows) [0..<length rows]"
  have "map fst ?z = map tr_time_log rows" by simp
  then have d: "distinct (map fst (rev ?z))" using assms(1) by (metis distinct_rev rev_map)
  have "(tr_time_log (rows ! i), i) \<in> set (rev ?z)"
    using assms(2) by (force simp: set_zip)
  then show ?thesis unfolding pos_by_time_def using d by simp
qed

lemma perm_of_ok:
  assumes "distinct (map tr_time_log srt)" "mset srt = mset orig"
  obtains p where "perm_of srt orig = Some p" "is_perm p" "length p = length orig"
    "map (\<lambda>i. srt ! i) p = orig"
proof -
  let ?g = "\<lambda>r. the (pos_by_time srt (tr_time_log r))"
  have len: "length srt = length orig" using assms(2) by (rule mset_eq_length)
  have "distinct (map tr_time_log orig)"
    using assms by (metis mset_eq_imp_distinct_iff mset_map)
  then have d: "distinct orig" by (simp add: distinct_map)
  have g: "pos_by_time srt (tr_time_log r) = Some (?g r) \<and> ?g r < length srt \<and> srt ! ?g r = r"
    if "r \<in> set orig" for r
  proof -
    have "r \<in> set srt" using that assms(2) by (metis mset_eq_setD)
    then obtain i where "i < length srt" "srt ! i = r" by (auto simp: in_set_conv_nth)
    with pos_by_time_ok [OF assms(1), of i] show ?thesis by auto
  qed
  have 1: "perm_of srt orig = Some (map ?g orig)"
    unfolding perm_of_def by (rule those_map_Some) (use g in auto)
  have 2: "map (\<lambda>i. srt ! i) (map ?g orig) = orig"
    unfolding map_map by (rule map_idI) (use g in auto)
  have 3: "is_perm (map ?g orig)"
  proof (rule is_permI [where n = "length orig"])
    fix i j assume ij: "i < length orig" "j < length orig" "map ?g orig ! i = map ?g orig ! j"
    then have "?g (orig ! i) = ?g (orig ! j)" by simp
    then have "orig ! i = orig ! j" using g [of "orig ! i"] g [of "orig ! j"] ij by (metis nth_mem)
    with d ij show "i = j" by (simp add: nth_eq_iff_index_eq)
  qed (use g len in auto)
  show thesis by (rule that [OF 1 3 _ 2]) simp
qed

section \<open>The states\<close>

lemma network_states_ok:
  assumes v: "1 \<le> v" and "l + length layers \<le> 2 * v - 1" "\<forall>bits \<in> set layers. length bits = 2 ^ v"
    and "length st = 2 ^ v"
  shows "\<exists>states. network_states v l layers st = Some states \<and> length states = Suc (length layers) \<and>
    states ! 0 = st \<and> (\<forall>g \<le> length layers. length (states ! g) = 2 ^ v) \<and>
    (\<forall>g < length layers. apply_layer (states ! g) v (l + g) (layers ! g) = Some (states ! Suc g))"
  using assms(2-4)
proof (induction layers arbitrary: l st)
  case (Cons bits layers)
  have "l < 2 * v - 1" "length bits = 2 ^ v" using Cons.prems by simp_all
  from apply_layer_ok [OF v this(1) Cons.prems(3) this(2)] obtain st' where
    st': "apply_layer st v l bits = Some st'" "length st' = 2 ^ v" by metis
  from Cons.IH [of "Suc l" st'] Cons.prems st'(2) obtain states where
    s: "network_states v (Suc l) layers st' = Some states" "length states = Suc (length layers)" "states ! 0 = st'"
      "\<forall>g \<le> length layers. length (states ! g) = 2 ^ v"
      "\<forall>g < length layers. apply_layer (states ! g) v (Suc l + g) (layers ! g) = Some (states ! Suc g)"
    by auto
  have "\<forall>g \<le> length (bits # layers). length ((st # states) ! g) = 2 ^ v"
  proof (intro allI impI)
    fix g assume "g \<le> length (bits # layers)"
    then show "length ((st # states) ! g) = 2 ^ v" using s(4) Cons.prems(3) by (cases g) simp_all
  qed
  moreover have "\<forall>g < length (bits # layers). apply_layer ((st # states) ! g) v (l + g) ((bits # layers) ! g)
      = Some ((st # states) ! Suc g)"
  proof (intro allI impI)
    fix g assume "g < length (bits # layers)"
    then show "apply_layer ((st # states) ! g) v (l + g) ((bits # layers) ! g) = Some ((st # states) ! Suc g)"
      using s(3,5) st'(1) by (cases g) simp_all
  qed
  ultimately show ?case using s st'(1) by simp
qed simp

lemma network_states_network:
  assumes "states ! 0 = st" "\<forall>g < length layers. apply_layer (states ! g) v g (layers ! g) = Some (states ! Suc g)"
  shows "apply_network v layers st = Some (states ! length layers)"
proof -
  let ?f = "\<lambda>layer state. do { bits \<leftarrow> vec_get layers layer; apply_layer state v layer bits }"
  have "loop_m ?f [0..<n] st = Some (states ! n)" if "n \<le> length layers" for n
    using that
  proof (induction n)
    case (Suc n)
    then show ?case using assms(2) by (simp add: loop_m_append)
  qed (simp add: assms(1))
  then show ?thesis by (simp add: apply_network_def)
qed

section \<open>The columns\<close>

lemma nth_concat_blocks:
  assumes "\<forall>xs \<in> set xss. length xs = m" "g < length xss" "p < m"
  shows "concat xss ! (g * m + p) = xss ! g ! p"
  using assms
proof (induction xss arbitrary: g)
  case (Cons xs xss)
  then show ?case by (cases g) (simp_all add: nth_append)
qed simp

lemma length_concat_blocks: "\<forall>xs \<in> set xss. length xs = m \<Longrightarrow> length (concat xss) = length xss * m"
  by (induction xss) simp_all

text \<open>The facts the assembled trace rests on.\<close>

lemma assemble_cells:
  assumes v: "3 \<le> v" "v \<le> 16" and S: "length states = 2 * v" "\<forall>g < 2 * v. length (states ! g) = 2 ^ v"
    and len: "length st = 2 ^ v - 1" "length ot = 2 ^ v - 1"
    and L: "length layers = 2 * v - 1" "\<forall>bits \<in> set layers. length bits = 2 ^ v"
  defines "t \<equiv> assemble v states st ot layers"
  shows "shaped v t" and "take (1 + v) (int_cols t) = public_int_columns v"
    and "\<And>g p i. g < 2 * v \<Longrightarrow> p < 21 \<Longrightarrow> i < 2 ^ v \<Longrightarrow> cell t g p i = payload (states ! g ! i) p"
    and "\<And>i. Suc i < 2 ^ v \<Longrightarrow> bp_cols t ! (42 * v) ! i = fst (snd (st ! i))"
    and "\<And>i. Suc i < 2 ^ v \<Longrightarrow> bp_cols t ! (42 * v + 1) ! i = snd (ot ! i)"
    and "\<And>i j. Suc i < 2 ^ v \<Longrightarrow> j < 10 \<Longrightarrow> icell t (v + 1 + j) i = of_bool (fst (st ! i) = j)"
    and "\<And>i. Suc i < 2 ^ v \<Longrightarrow> icell t (v + 11) i = snd (snd (st ! i))"
    and "\<And>i. Suc i < 2 ^ v \<Longrightarrow> icell t (v + 12) i = of_bool (fst (ot ! i))"
    and "\<And>i. Suc i < 2 ^ v \<Longrightarrow> icell t (v + 13) i = of_bool (\<not> fst (ot ! i))"
    and "\<And>l i. l < 2 * v - 1 \<Longrightarrow> i < 2 ^ v \<Longrightarrow> icell t (v + 14 + l) i = of_bool (layers ! l ! i)"
proof -
  let ?xss = "map (\<lambda>state. map (bp_column state) [0..<21]) states"
  have n: "2 ^ v = Suc (2 ^ v - 1)" by simp
  have lc: "length (concat ?xss) = 42 * v"
    by (subst length_concat_blocks [where m = 21]) (simp_all add: S)
  have bp: "bp_cols t = concat ?xss @ [map (\<lambda>(k, slack, w). slack) st @ [0], map (\<lambda>(hi, slack). slack) ot @ [0]]"
    by (simp add: t_def assemble_def)
  have pl: "length (public_int_columns v) = 1 + v" by (simp add: public_int_columns_def Let_def)
  have int: "int_cols t = public_int_columns v
        @ map (\<lambda>j. map (\<lambda>(k, slack, w). of_bool (k = j)) st @ [0]) [0..<10]
        @ [map (\<lambda>(k, slack, w). w) st @ [0], map (\<lambda>(hi, slack). of_bool hi) ot @ [0],
           map (\<lambda>(hi, slack). of_bool (\<not> hi)) ot @ [0]] @ map (map of_bool) layers"
    by (simp add: t_def assemble_def del: upt_rec_numeral)
  have cols: "length col = 2 ^ v" if "col \<in> set (public_int_columns v)" for col
    using that by (auto simp: public_int_columns_def Let_def)
  have "\<forall>g < length states. \<forall>col \<in> set (map (bp_column (states ! g)) [0..<21]). length col = 2 ^ v"
    using S by (auto simp: bp_column_def)
  then have "\<forall>col \<in> set (concat ?xss). length col = 2 ^ v" by (auto simp: in_set_conv_nth [of _ states])
  then have "\<forall>col \<in> set (bp_cols t). length col = 2 ^ v" unfolding bp using len by auto
  moreover have "\<forall>col \<in> set (int_cols t). length col = 2 ^ v" unfolding int using len L cols by auto
  moreover have "length (bp_cols t) = 42 * v + 2" unfolding bp by (simp add: lc)
  moreover have "length (int_cols t) = 3 * v + 13" unfolding int using L v by (simp add: pl)
  ultimately show "shaped v t" using v by (simp add: shaped_def)
  show "take (1 + v) (int_cols t) = public_int_columns v" unfolding int using pl by simp
  show "cell t g p i = payload (states ! g ! i) p" if "g < 2 * v" "p < 21" "i < 2 ^ v" for g p i
  proof -
    have "g * 21 + p < 42 * v" using that by simp
    then have "bp_cols t ! (g * 21 + p) = concat ?xss ! (g * 21 + p)"
      unfolding bp by (simp add: nth_append lc)
    also have "\<dots> = bp_column (states ! g) p"
      by (subst nth_concat_blocks) (use that S in simp_all)
    finally show ?thesis using that S by (simp add: cell_def state_col_def bp_column_def)
  qed
  note sel = nth_append lc len case_prod_beta
  have lt: "i < 2 ^ v - 1" if "Suc i < 2 ^ v" for i using that by simp
  show "bp_cols t ! (42 * v) ! i = fst (snd (st ! i))" if "Suc i < 2 ^ v" for i
    unfolding bp using lt [OF that] by (simp add: sel)
  show "bp_cols t ! (42 * v + 1) ! i = snd (ot ! i)" if "Suc i < 2 ^ v" for i
    unfolding bp using lt [OF that] by (simp add: sel)
  have I: "icell t (v + 1 + j) i = (map (\<lambda>j. map (\<lambda>(k, slack, w). of_bool (k = j)) st @ [0]) [0..<10]
        @ [map (\<lambda>(k, slack, w). w) st @ [0], map (\<lambda>(hi, slack). of_bool hi) ot @ [0],
           map (\<lambda>(hi, slack). of_bool (\<not> hi)) ot @ [0]] @ map (map of_bool) layers) ! j ! i" for j i
    unfolding icell_def int by (simp add: nth_append pl del: upt_rec_numeral)
  show "icell t (v + 1 + j) i = of_bool (fst (st ! i) = j)" if "Suc i < 2 ^ v" "j < 10" for i j
    unfolding I using lt [OF that(1)] that(2) by (simp add: sel del: upt_rec_numeral)
  show "icell t (v + 11) i = snd (snd (st ! i))" if "Suc i < 2 ^ v" for i
    using I [of 10 i] lt [OF that] by (simp add: sel add.commute [of v] del: upt_rec_numeral)
  show "icell t (v + 12) i = of_bool (fst (ot ! i))" if "Suc i < 2 ^ v" for i
    using I [of 11 i] lt [OF that] by (simp add: sel add.commute [of v] del: upt_rec_numeral)
  show "icell t (v + 13) i = of_bool (\<not> fst (ot ! i))" if "Suc i < 2 ^ v" for i
    using I [of 12 i] lt [OF that] by (simp add: sel add.commute [of v] del: upt_rec_numeral)
  show "icell t (v + 14 + l) i = of_bool (layers ! l ! i)" if "l < 2 * v - 1" "i < 2 ^ v" for l i
    using I [of "13 + l" i] that L by (simp add: sel add.assoc add.commute [of v] add.left_commute [of v] del: upt_rec_numeral)
qed

end
