(* ===== verification/Uair_Correct.thy ===== *)
theory Uair_Correct
  imports Uair_Builder
begin

text \<open>
  The memory-consistency UAIR is sound and complete: a satisfying trace is two orders of a
  consistent memory trace, and the builder's witness for a time-ordered trace satisfies the
  constraints exactly when the trace starts at time zero and is consistent.
\<close>

section \<open>One built witness\<close>

text \<open>
  What \<open>build_rows\<close> leaves: the shape, the states, and for each row but the last its
  transition witnesses.
\<close>

definition built :: "nat \<Rightarrow> access list \<Rightarrow> access list \<Rightarrow> utrace \<Rightarrow> bool" where
  "built v orig srt t \<longleftrightarrow> shaped v t \<and> take (1 + v) (int_cols t) = public_int_columns v \<and>
     (\<forall>i < 2 ^ v. row_cells t 0 i = payload_row (srt ! i)) \<and>
     (\<forall>i < 2 ^ v. row_cells t (2 * v - 1) i = payload_row (orig ! i)) \<and>
     (\<forall>i. Suc i < 2 ^ v \<longrightarrow> (\<exists>k slack w. sorted_link (srt ! i) (srt ! Suc i) (k, slack, w) \<and>
        bp_cols t ! (42 * v) ! i = slack \<and> icell t (v + 11) i = w \<and>
        (\<forall>j < 10. icell t (v + 1 + j) i = of_bool (k = j)))) \<and>
     (\<forall>i. Suc i < 2 ^ v \<longrightarrow> (\<exists>h slack. original_link (orig ! i) (orig ! Suc i) (h, slack) \<and>
        bp_cols t ! (42 * v + 1) ! i = slack \<and> icell t (v + 12) i = of_bool h \<and>
        icell t (v + 13) i = of_bool (\<not> h))) \<and>
     (\<forall>l < 2 * v - 1. \<forall>i < 2 ^ v. \<exists>b. icell t (v + 14 + l) i = of_bool b \<and>
        (\<not> bit i (stride v l) \<longrightarrow> (\<forall>p < 21.
          cell t (Suc l) p i = cell t l p (if b then i + 2 ^ stride v l else i) \<and>
          cell t (Suc l) p (i + 2 ^ stride v l) = cell t l p (if b then i else i + 2 ^ stride v l))))"

lemma build_rows_ok:
  assumes v: "3 \<le> v" "v \<le> 16" and len: "length orig = 2 ^ v" and tm: "time_ordered orig"
    and srt: "srt = sort_trace_by_address_time orig"
  obtains t where "build_rows v orig srt = Some (Inr (t, v))" "built v orig srt t"
proof -
  have m: "mset srt = mset orig" by (simp add: srt sort_trace_by_address_time_def)
  then have ls: "length srt = 2 ^ v" using len by (metis size_mset)
  have keys: "successively (\<lambda>p r. access_key p < access_key r) srt"
    unfolding srt by (rule successively_if_sorted_wrt [OF sorted_keys_strict [OF tm]])
  have times: "successively (\<lambda>p r. tr_time_log p < tr_time_log r) orig"
    by (rule successively_if_sorted_wrt) (use tm in \<open>simp add: time_ordered_def sorted_wrt_map\<close>)
  obtain st where st: "transitions sorted_transition (map from_record srt) = Inr st" "length st = 2 ^ v - 1"
    "\<forall>i. Suc i < 2 ^ v \<longrightarrow> sorted_link (srt ! i) (srt ! Suc i) (st ! i)"
    using transitions_ok [where f = sorted_transition and g = from_record and Q = sorted_link, OF keys sorted_transition_ok] ls by auto
  obtain ot where ot: "transitions original_transition (map from_record orig) = Inr ot" "length ot = 2 ^ v - 1"
    "\<forall>i. Suc i < 2 ^ v \<longrightarrow> original_link (orig ! i) (orig ! Suc i) (ot ! i)"
    using transitions_ok [where f = original_transition and g = from_record and Q = original_link, OF times original_transition_ok] len by auto
  have "distinct (map tr_time_log orig)" using tm by (simp add: time_ordered_def strict_sorted_iff)
  with m have "distinct (map tr_time_log srt)" by (metis mset_eq_imp_distinct_iff mset_map)
  from perm_of_ok [OF this m] obtain p where p: "perm_of srt orig = Some p" "is_perm p" "length p = 2 ^ v"
    "map (\<lambda>i. srt ! i) p = orig" using len by metis
  have v1: "1 \<le> v" using v by simp
  obtain layers where r: "route p = Some layers" and g: "grid (2 * v - 1) (2 ^ v) layers"
    and net: "\<forall>xs :: row_limbs list. length xs = 2 ^ v \<longrightarrow>
      apply_network v layers xs = Some (map (\<lambda>j. xs ! (p ! j)) [0..<2 ^ v])"
    using route_ok [OF p(2,3) v1, where 'a = row_limbs] by metis
  have L: "length layers = 2 * v - 1" "\<forall>bits \<in> set layers. length bits = 2 ^ v"
    using g by (auto simp: grid_def in_set_conv_nth)
  let ?rows = "map from_record srt"
  have lr: "length ?rows = 2 ^ v" using ls by simp
  obtain states where s: "network_states v 0 layers ?rows = Some states" "length states = Suc (length layers)"
    "states ! 0 = ?rows" "\<forall>g \<le> length layers. length (states ! g) = 2 ^ v"
    and step: "\<forall>g < length layers. apply_layer (states ! g) v g (layers ! g) = Some (states ! Suc g)"
    using network_states_ok [OF v1 _ L(2) lr, of 0] L(1) by auto
  have "map (\<lambda>j. ?rows ! (p ! j)) [0..<2 ^ v] = map (\<lambda>i. ?rows ! i) p"
    using p(3) by (intro nth_equalityI) simp_all
  also have "\<dots> = map from_record (map (\<lambda>i. srt ! i) p)"
    using p(2,3) ls by (auto simp: is_perm_def)
  finally have "apply_network v layers ?rows = Some (map from_record orig)"
    using net [rule_format, OF lr] p(4) by simp
  then have last: "states ! length layers = map from_record orig"
    using network_states_network [OF s(3) step] by simp
  have "states \<noteq> []" using s(2) by auto
  then have lst: "last states = map from_record orig" using s(2) last by (simp add: last_conv_nth)
  define t where "t = assemble v states st ot layers"
  have S: "length states = 2 * v" "\<forall>g < 2 * v. length (states ! g) = 2 ^ v"
    using s(2,4) L(1) v by auto
  note A = assemble_cells [OF v S st(2) ot(2) L, folded t_def]
  have "build_rows v orig srt = Some (Inr (t, v))"
    using A(1) st(1) ot(1) p(1) r s(1) lst
    by (simp add: build_rows_def NetLayout_new_ok [OF v] Let_def shaped_def flip: t_def)
  moreover have "built v orig srt t"
    unfolding built_def
  proof (intro conjI allI impI)
    fix i :: nat assume i: "i < 2 ^ v"
    show "row_cells t 0 i = payload_row (srt ! i)"
      using A(3) [OF _ _ i] i s(3) ls v by (simp add: row_cells_def payload_row_def)
    have e: "states ! (2 * v - 1) = map from_record orig" using last L(1) by simp
    show "row_cells t (2 * v - 1) i = payload_row (orig ! i)"
      unfolding row_cells_def payload_row_def
    proof (rule map_cong [OF refl])
      fix q assume "q \<in> set [0..<21 :: nat]"
      then show "cell t (2 * v - 1) q i = payload (from_record (orig ! i)) q"
        using A(3) [OF _ _ i, of "2 * v - 1" q] e i len v by simp
    qed
  next
    fix i assume i: "Suc i < 2 ^ v"
    obtain k slack w where x: "st ! i = (k, slack, w)" by (cases "st ! i") auto
    show "\<exists>k slack w. sorted_link (srt ! i) (srt ! Suc i) (k, slack, w) \<and>
        bp_cols t ! (42 * v) ! i = slack \<and> icell t (v + 11) i = w \<and>
        (\<forall>j < 10. icell t (v + 1 + j) i = of_bool (k = j))"
      using st(3) i A(4,6,7) [OF i] x by (intro exI [of _ k] exI [of _ slack] exI [of _ w]) auto
    obtain h sl where y: "ot ! i = (h, sl)" by (cases "ot ! i") auto
    show "\<exists>h slack. original_link (orig ! i) (orig ! Suc i) (h, slack) \<and>
        bp_cols t ! (42 * v + 1) ! i = slack \<and> icell t (v + 12) i = of_bool h \<and>
        icell t (v + 13) i = of_bool (\<not> h)"
      using ot(3) i A(5,8,9) [OF i] y by (intro exI [of _ h] exI [of _ sl]) auto
  next
    fix l i :: nat assume l: "l < 2 * v - 1" and i: "i < 2 ^ v"
    have "length (states ! l) = 2 ^ v" "length (layers ! l) = 2 ^ v" using S l L by auto
    from apply_layer_ok [OF v1 l this] obtain ys where "apply_layer (states ! l) v l (layers ! l) = Some ys"
      and act: "\<forall>w < 2 ^ v. ys ! w = act (stride v l) ((!) (layers ! l)) ((!) (states ! l)) w" by metis
    then have ys: "ys = states ! Suc l" using step l L(1) by auto
    let ?k = "stride v l"
    show "\<exists>b. icell t (v + 14 + l) i = of_bool b \<and> (\<not> bit i ?k \<longrightarrow> (\<forall>p < 21.
          cell t (Suc l) p i = cell t l p (if b then i + 2 ^ ?k else i) \<and>
          cell t (Suc l) p (i + 2 ^ ?k) = cell t l p (if b then i else i + 2 ^ ?k)))"
    proof (intro exI [of _ "layers ! l ! i"] conjI impI allI)
      show "icell t (v + 14 + l) i = of_bool (layers ! l ! i)" by (rule A(10) [OF l i])
    next
      fix q :: nat assume nb: "\<not> bit i ?k" and q: "q < 21"
      have kv: "?k < v" by (rule stride_less [OF v1 l])
      have j: "i + 2 ^ ?k < 2 ^ v" by (rule partner_less [OF nb i kv])
      note bits = partner_bits [OF nb]
      have l': "l < 2 * v" "Suc l < 2 * v" using l by simp_all
      show "cell t (Suc l) q i = cell t l q (if layers ! l ! i then i + 2 ^ ?k else i)"
        using act [rule_format, OF i] A(3) [OF l'(2) q i] A(3) [OF l'(1) q i] A(3) [OF l'(1) q j]
        by (simp add: ys act_def bits)
      show "cell t (Suc l) q (i + 2 ^ ?k) = cell t l q (if layers ! l ! i then i else i + 2 ^ ?k)"
        using act [rule_format, OF j] A(3) [OF l'(2) q j] A(3) [OF l'(1) q i] A(3) [OF l'(1) q j]
        by (simp add: ys act_def bits)
    qed
  qed (use A(1,2) in simp_all)
  ultimately show thesis by (rule that)
qed

lemma built_states:
  assumes "built v orig srt t" "length orig = 2 ^ v" "length srt = 2 ^ v"
  shows "state_trace v t 0 = srt" "state_trace v t (2 * v - 1) = orig"
  using assms by (auto simp: state_trace_def built_def decode_payload_row intro!: nth_equalityI)

text \<open>The built trace satisfies the constraints when the trace is consistent.\<close>

lemma instr_cell:
  "payload_row r ! 20 = (case tr_instruction r of Write \<Rightarrow> 1 | Read \<Rightarrow> 0)"
  by (simp add: payload_row_parts from_record_def)

lemma value_cells:
  "tr_value a = tr_value b \<Longrightarrow> j < 8 \<Longrightarrow> payload_row a ! (12 + j) = payload_row b ! (12 + j)"
  by (simp add: payload_row_nth payload_def from_record_def)

lemma zero_time_cells: "tr_time_log r = 0 \<Longrightarrow> payload_row r ! 8 = 0 \<and> payload_row r ! 9 = 0"
  by (simp add: payload_row_nth payload_def from_record_def u64_limbs_def)

lemma built_satisfied:
  assumes B: "built v orig srt t" and len: "length orig = 2 ^ v" "length srt = 2 ^ v"
    and start: "starts_at_zero orig" and cons: "sorted_consistent srt"
  shows "uair_satisfied oob v t"
proof -
  have sh: "shaped v t" and pub: "take (1 + v) (int_cols t) = public_int_columns v"
    using B by (simp_all add: built_def)
  have v: "3 \<le> v" using sh by (simp add: shaped_def)
  have c: "int_cols t ! c = public_int_columns v ! c" if "c < 1 + v" for c
    using pub that by (metis nth_take)
  have first: "icell t 0 i = of_bool (i = 0)" if "i < 2 ^ v" for i
    using c [of 0] that by (simp add: icell_def public_int_columns_def Let_def)
  have upper: "icell t (1 + k) i = of_bool (\<not> bit i k)" if "k < v" "i < 2 ^ v" for k i
    using c [of "1 + k"] that
    by (simp add: icell_def public_int_columns_def Let_def and_one_eq bit_iff_odd_drop_bit mod_2_eq_odd)
  have S: "cell t 0 p i = payload_row (srt ! i) ! p" if "p < 21" "i < 2 ^ v" for p i
  proof -
    have "row_cells t 0 i = payload_row (srt ! i)" using B that by (simp add: built_def)
    then show ?thesis using row_cells_simps(2) [OF that(1), of t 0 i] by simp
  qed
  let ?g = "2 * v - 1"
  have O: "cell t ?g p i = payload_row (orig ! i) ! p" if "p < 21" "i < 2 ^ v" for p i
  proof -
    have "row_cells t ?g i = payload_row (orig ! i)" using B that by (simp add: built_def)
    then show ?thesis using row_cells_simps(2) [OF that(1), of t ?g i] by simp
  qed
  have ne: "srt \<noteq> []" "orig \<noteq> []" using len by auto
  show ?thesis
  proof (rule satisfied_rows_satisfied [OF sh pub])
    fix i assume i: "Suc i < 2 ^ v"
    then have i': "i < 2 ^ v" by simp
    obtain k slack w where link: "sorted_link (srt ! i) (srt ! Suc i) (k, slack, w)"
      and cols: "bp_cols t ! (42 * v) ! i = slack" "icell t (v + 11) i = w"
        "\<forall>j < 10. icell t (v + 1 + j) i = of_bool (k = j)"
      using B i unfolding built_def by blast
    have step: "sorted_step (srt ! i) (srt ! Suc i)"
      using cons i len by (auto simp: sorted_consistent_def intro: successively_nth)
    note l = link [unfolded sorted_link_def prod.case]
    have k: "k < 10" using l by simp
    have k21: "j < 21" if "j \<le> k" for j using that k by simp
    show "\<exists>cs. sorted_constraints (layout_of v) (row_at oob (layout_of v) t i) = Some cs \<and> list_all holds cs"
    proof (rule sorted_row_holds [OF sh i, where k = k])
      show "icell t 0 i = 0 \<or> cell t 0 20 i = 1"
        using first [OF i'] S [of 20 i] cons ne i'
        by (cases "i = 0") (simp_all add: sorted_consistent_def instr_cell hd_conv_nth)
      show "cell t 0 20 (Suc i) = 0 \<or> cell t 0 20 (Suc i) = 1"
        using S [of 20 "Suc i"] i by (simp add: instr_cell split: memory_instruction.splits)
      show "\<forall>j < k. cell t 0 j (Suc i) = cell t 0 j i"
        using l k21 S i i' by (metis less_imp_le)
      show "uint (cell t 0 k (Suc i)) - uint (cell t 0 k i) - 1 = uint (bp_cols t ! (42 * v) ! i)"
        using l S [OF k21 [OF order_refl]] i i' cols(1) by simp
      show "icell t (v + 11) i = (if 8 \<le> k then uint (cell t 0 20 (Suc i)) - 1 else 0)"
        using l S [of 20 "Suc i"] i cols(2) by simp
      show "cell t 0 20 (Suc i) = 1" if "k < 8"
        using that l step S [of 20 "Suc i"] i by (auto simp: sorted_step_def instr_cell)
      show "\<forall>j < 8. cell t 0 (12 + j) (Suc i) = cell t 0 (12 + j) i"
        if "8 \<le> k" "cell t 0 20 (Suc i) = 0"
      proof -
        have "tr_instruction (srt ! Suc i) = Read"
          using that(2) S [of 20 "Suc i"] i by (simp add: instr_cell split: memory_instruction.splits)
        with that(1) l step have "tr_value (srt ! Suc i) = tr_value (srt ! i)" by (simp add: sorted_step_def)
        from value_cells [OF this] show ?thesis using S i i' by simp
      qed
    qed (use k cols in simp_all)
    obtain h slack' where ol: "original_link (orig ! i) (orig ! Suc i) (h, slack')"
      and oc: "bp_cols t ! (42 * v + 1) ! i = slack'" "icell t (v + 12) i = of_bool h"
        "icell t (v + 13) i = of_bool (\<not> h)"
      using B i unfolding built_def by blast
    note o = ol [unfolded original_link_def prod.case]
    show "\<exists>cs. original_constraints (layout_of v) (row_at oob (layout_of v) t i) = Some cs \<and> list_all holds cs"
    proof (rule original_row_holds [OF sh i refl, where h = h])
      show "icell t 0 i = 0 \<or> cell t ?g 8 i = 0 \<and> cell t ?g 9 i = 0"
      proof (cases "i = 0")
        case True
        have "tr_time_log (orig ! 0) = 0" using start ne by (cases orig) (simp_all add: starts_at_zero_def)
        with zero_time_cells [OF this] True O show ?thesis by simp
      qed (use first [OF i'] in simp)
    qed (use oc o O i i' in \<open>auto split: if_splits\<close>)
    fix l assume l: "l < 2 * v - 1"
    obtain b where b: "icell t (v + 14 + l) i = of_bool b" "\<not> bit i (stride v l) \<longrightarrow> (\<forall>p < 21.
          cell t (Suc l) p i = cell t l p (if b then i + 2 ^ stride v l else i) \<and>
          cell t (Suc l) p (i + 2 ^ stride v l) = cell t l p (if b then i else i + 2 ^ stride v l))"
      using B l i' unfolding built_def by blast
    have kv: "stride v l < v" by (rule stride_less) (use v l in simp_all)
    show "\<exists>cs. layer_constraints (layout_of v) (row_at oob (layout_of v) t i) l = Some cs \<and> list_all holds cs"
      by (rule layer_row_holds [OF sh i' l upper [OF kv i'] b(1)]) (use b(2) in blast)
  qed
qed

section \<open>The builder\<close>

lemma sorted_padding:
  assumes "tr \<noteq> []"
  shows "sorted_consistent (sort_trace_by_address_time tr @ padding_of tr n)
    \<longleftrightarrow> sorted_consistent (sort_trace_by_address_time tr)"
proof -
  let ?s = "sort_trace_by_address_time tr"
  have "mset ?s = mset tr" by (simp add: sort_trace_by_address_time_def)
  with assms have ne: "?s \<noteq> []" by auto
  have P: "tr_address r = tr_address (last ?s) \<and> tr_value r = tr_value (last ?s)"
    if "r \<in> set (padding_of tr n)" for r
    using that by (auto simp: padding_of_def padding_row_def TraceRecord_new_def)
  have "successively sorted_step (padding_of tr n)"
    using P by (auto simp: successively_conv_nth sorted_step_def)
  moreover have "padding_of tr n = [] \<or> sorted_step (last ?s) (hd (padding_of tr n))"
    using P by (cases "padding_of tr n") (auto simp: sorted_step_def)
  ultimately show ?thesis using ne by (auto simp: sorted_consistent_def successively_append_iff)
qed

lemma build_ok:
  assumes tr: "tr \<noteq> []" and tm: "time_ordered tr" and len: "length tr < 2 ^ 16"
    and v: "v = vars_for (length tr)" and n: "n = 2 ^ v - length tr"
    and top: "unat (tr_time_log (last tr)) + n < 2 ^ 64"
  obtains t where "build_uair_trace_any_start tr = Some (Inr (t, v))"
    "state_trace v t (2 * v - 1) = tr @ padding_of tr n"
    "state_trace v t 0 = sort_trace_by_address_time tr @ padding_of tr n"
    "\<forall>oob. uair_satisfied oob v t \<longleftrightarrow> starts_at_zero tr \<and> memory_consistent tr"
proof -
  let ?p = "padding_of tr n"
  let ?srt = "sort_trace_by_address_time tr @ ?p"
  have limit: "trailing_zeros (next_power_of_two (length tr + 1)) \<le> 16" using len by (simp only: vars_for_limit)
  then have v': "3 \<le> v" "v \<le> 16" using v by (simp_all add: vars_for_def)
  have "length tr < 2 ^ v" unfolding v by (rule vars_for_bounds)
  then have lo: "length (tr @ ?p) = 2 ^ v" by (simp add: padding_of_def n)
  have m: "mset (sort_trace_by_address_time tr) = mset tr" by (simp add: sort_trace_by_address_time_def)
  then have ls: "length ?srt = 2 ^ v" using lo by (metis length_append size_mset)
  have to: "time_ordered (tr @ ?p)" by (rule padded_time_ordered [OF tm tr top])
  note srt = padded_sorted(1) [OF tm tr top]
  obtain t where t: "build_rows v (tr @ ?p) ?srt = Some (Inr (t, v))" "built v (tr @ ?p) ?srt t"
    by (rule build_rows_ok [OF v' lo to srt [symmetric]])
  note states = built_states [OF t(2) lo ls]
  have pad: "padding_rows n (tr_time_log (last tr)) (last (sort_trace_by_address_time tr)) = Inr ?p"
    unfolding padding_of_def by (rule padding_rows_ok [OF top])
  obtain k where k: "next_power_of_two (length tr + 1) = 2 ^ k" by (rule next_power_of_two_spec)
  then have "k \<le> 16" using limit by simp
  then have "(2 :: nat) ^ k \<le> 2 ^ 16" by (intro power_increasing) simp_all
  then have "next_power_of_two (length tr + 1) < 2 ^ 64" using k by simp
  then have check: "checked_next_power_of_two (length tr + 1) = Some (next_power_of_two (length tr + 1))"
    by (simp add: checked_next_power_of_two_def)
  have "check_times tr = None" using tm by (simp only: check_times_None)
  then have "build_uair_trace_any_start tr = Some (Inr (t, v))"
    using tr check limit pad t(1) n
    by (simp add: build_uair_trace_any_start_def Let_def MAX_NUM_VARS_def MIN_NUM_VARS_def v vars_for_def
        del: padding_rows.simps)
  moreover have "uair_satisfied oob v t \<longleftrightarrow> starts_at_zero tr \<and> memory_consistent tr" for oob
  proof -
    have start: "starts_at_zero (tr @ ?p) \<longleftrightarrow> starts_at_zero tr"
      using tr by (cases tr) (simp_all add: starts_at_zero_def)
    have cons: "sorted_consistent ?srt \<longleftrightarrow> memory_consistent tr"
      using sorted_padding [OF tr] sorted_check_iff [OF tm] by blast
    have cons': "sorted_consistent ?srt \<longleftrightarrow> memory_consistent (tr @ ?p)"
      using sorted_check_iff [OF to] srt by simp
    show ?thesis
      using built_satisfied [OF t(2) lo ls] uair_sound_aux(1,5) [of oob v t] states start cons cons'
      by auto
  qed
  ultimately show thesis using states by (intro that) blast+
qed

text \<open>The first pair of neighbours that is out of order, read off by position.\<close>

definition first_time_error :: "access list \<Rightarrow> zinc_error option" where
  "first_time_error tr = map_option
     (\<lambda>i. if tr_time_log (tr ! i) = tr_time_log (tr ! Suc i) then DuplicatedAccess (tr_time_log (tr ! i))
       else TimeNotIncreasing (tr_time_log (tr ! Suc i)))
     (find (\<lambda>i. tr_time_log (tr ! Suc i) \<le> tr_time_log (tr ! i)) [0..<length tr - 1])"

lemma find_map_Suc: "find P (map Suc xs) = map_option Suc (find (P \<circ> Suc) xs)"
  by (induction xs) simp_all

lemma check_times_first: "check_times tr = first_time_error tr"
proof (induction tr rule: check_times.induct)
  case (1 a b rs)
  have upt: "[0..<length (a # b # rs) - 1] = 0 # map Suc [0..<length (b # rs) - 1]"
    by (subst upt_conv_Cons) (simp_all add: map_Suc_upt del: upt_Suc)
  show ?case
  proof (cases "tr_time_log a < tr_time_log b")
    case True
    then have "first_time_error (a # b # rs) = first_time_error (b # rs)"
      unfolding first_time_error_def upt find.simps find_map_Suc by (simp add: o_def not_le option.map_comp cong: if_cong)
    with 1 True show ?thesis by simp
  next
    case False
    then show ?thesis unfolding first_time_error_def upt by auto
  qed
qed (simp_all add: first_time_error_def)

lemma time_ordered_first: "time_ordered tr \<longleftrightarrow> first_time_error tr = None"
  by (simp add: check_times_None [symmetric] check_times_first)

text \<open>What the builder answers, on every input.\<close>

definition builder_answer :: "access list \<Rightarrow> zinc_error + unit" where
  "builder_answer tr =
     (if tr = [] then Inl EmptyTrace
      else if tr_time_log (hd tr) \<noteq> 0 then Inl (FirstTimeNonZero (tr_time_log (hd tr)))
      else case first_time_error tr of
        Some e \<Rightarrow> Inl e
      | None \<Rightarrow>
        if 2 ^ 16 \<le> length tr then Inl TraceTooLong
        else if 2 ^ 64 + length tr \<le> unat (tr_time_log (last tr)) + 2 ^ vars_for (length tr)
        then Inl TimeLogOverflow else Inr ())"

lemma build_too_long:
  assumes "tr \<noteq> []" "time_ordered tr" "2 ^ 16 \<le> length tr"
  shows "build_uair_trace_any_start tr = Some (Inl TraceTooLong)"
proof -
  have "16 < trailing_zeros (next_power_of_two (length tr + 1))"
    using assms(3) vars_for_limit [of "length tr"] by (metis not_le)
  moreover have "check_times tr = None" using assms(2) by (simp only: check_times_None)
  ultimately show ?thesis
    using assms(1) by (simp add: build_uair_trace_any_start_def checked_next_power_of_two_def MAX_NUM_VARS_def)
qed

lemma build_overflow:
  assumes "tr \<noteq> []" "time_ordered tr" "length tr < 2 ^ 16"
    and "2 ^ 64 \<le> unat (tr_time_log (last tr)) + (2 ^ vars_for (length tr) - length tr)"
  shows "build_uair_trace_any_start tr = Some (Inl TimeLogOverflow)"
proof -
  have limit: "trailing_zeros (next_power_of_two (length tr + 1)) \<le> 16" using assms(3) by (simp only: vars_for_limit)
  obtain k where k: "next_power_of_two (length tr + 1) = 2 ^ k" by (rule next_power_of_two_spec)
  then have "k \<le> 16" using limit by simp
  then have "(2 :: nat) ^ k \<le> 2 ^ 16" by (intro power_increasing) simp_all
  then have "checked_next_power_of_two (length tr + 1) = Some (next_power_of_two (length tr + 1))"
    using k by (simp add: checked_next_power_of_two_def)
  moreover have "check_times tr = None" using assms(2) by (simp only: check_times_None)
  ultimately show ?thesis
    using assms(1) limit padding_rows_overflow [OF assms(4)]
    by (simp add: build_uair_trace_any_start_def Let_def MAX_NUM_VARS_def MIN_NUM_VARS_def vars_for_def
        del: padding_rows.simps)
qed

lemma build_answer_aux: "map_option (map_sum id (\<lambda>_. ())) (build_uair_trace tr) = Some (builder_answer tr)"
proof (cases tr)
  case Nil
  then show ?thesis
    by (simp add: build_uair_trace_def build_uair_trace_any_start_def builder_answer_def)
next
  case (Cons r rs)
  then have ne: "tr \<noteq> []" by simp
  consider (first) "tr_time_log r \<noteq> 0" | (times) e where "tr_time_log r = 0" "first_time_error tr = Some e"
    | (ok) "tr_time_log r = 0" "first_time_error tr = None" by (cases "first_time_error tr") auto
  then show ?thesis
  proof cases
    case first
    then show ?thesis by (simp add: Cons build_uair_trace_def builder_answer_def)
  next
    case times
    then show ?thesis
      using Cons by (simp add: build_uair_trace_def build_uair_trace_any_start_def check_times_first
          builder_answer_def del: check_times.simps)
  next
    case ok
    then have tm: "time_ordered tr" by (simp add: time_ordered_first)
    have b: "build_uair_trace tr = build_uair_trace_any_start tr"
      using ok(1) Cons by (simp add: build_uair_trace_def)
    have lt: "length tr < 2 ^ vars_for (length tr)" by (rule vars_for_bounds)
    have hd: "tr_time_log (hd tr) = 0" using ok(1) Cons by simp
    consider "2 ^ 16 \<le> length tr"
      | "length tr < 2 ^ 16" "2 ^ 64 \<le> unat (tr_time_log (last tr)) + (2 ^ vars_for (length tr) - length tr)"
      | "length tr < 2 ^ 16" "unat (tr_time_log (last tr)) + (2 ^ vars_for (length tr) - length tr) < 2 ^ 64"
      by linarith
    then show ?thesis
    proof cases
      case 1
      then show ?thesis by (simp add: b builder_answer_def ne hd ok(2) build_too_long [OF ne tm])
    next
      case 2
      with lt show ?thesis by (simp add: b builder_answer_def ne hd ok(2) build_overflow [OF ne tm 2])
    next
      case 3
      from build_ok [OF ne tm 3(1) refl refl 3(2)] obtain t where
        "build_uair_trace_any_start tr = Some (Inr (t, vars_for (length tr)))" by metis
      with 3 lt show ?thesis by (simp add: b builder_answer_def ne hd ok(2))
    qed
  qed
qed

section \<open>Properties\<close>

text \<open>
  C2: soundness. In a trace that satisfies the constraints, whatever values the shifted
  columns take below the last row, the last network state decodes to a trace whose times
  start at zero and strictly increase, the first state is that trace sorted by address and
  time, and every read of it returns the last value written to its address.
\<close>

theorem uair_sound:
  assumes "uair_satisfied oob v t"
  shows "starts_at_zero (state_trace v t (2 * v - 1)) \<and> time_ordered (state_trace v t (2 * v - 1)) \<and>
    state_trace v t 0 = sort_trace_by_address_time (state_trace v t (2 * v - 1)) \<and>
    memory_consistent (state_trace v t (2 * v - 1))"
  using uair_sound_aux [OF assms] by blast

definition two_accesses :: "u256 \<Rightarrow> access list" where
  "two_accesses x = [TraceRecord_new 0 0 Write 8 5, TraceRecord_new 1 0 Read 8 x]"

lemma two_accesses_facts:
  "two_accesses x \<noteq> []" "time_ordered (two_accesses x)" "length (two_accesses x) < 2 ^ 16"
  "3 = vars_for (length (two_accesses x))" "(6 :: nat) = 2 ^ 3 - length (two_accesses x)"
  "unat (tr_time_log (last (two_accesses x))) + 6 < 2 ^ 64"
  "starts_at_zero (two_accesses x)" "memory_consistent (two_accesses x) \<longleftrightarrow> x = 5"
proof -
  have "vars_for 2 = 3" by code_simp
  then show "3 = vars_for (length (two_accesses x))" by (simp add: two_accesses_def numeral_2_eq_2)
qed (auto simp: two_accesses_def TraceRecord_new_def time_ordered_def starts_at_zero_def memory_consistent_def)

theorem uair_sound_witness:
  "\<exists>t. uair_satisfied (\<lambda>_ _ _. 0) 3 t \<and> hd (state_trace 3 t 5) = TraceRecord_new 0 0 Write 8 5 \<and>
     memory_consistent (state_trace 3 t 5)"
proof -
  note f = two_accesses_facts [of 5]
  obtain t where "state_trace 3 t (2 * 3 - 1) = two_accesses 5 @ padding_of (two_accesses 5) 6"
    and "\<forall>oob. uair_satisfied oob 3 t \<longleftrightarrow> starts_at_zero (two_accesses 5) \<and> memory_consistent (two_accesses 5)"
    by (rule build_ok [OF f(1-6)])
  with f(7,8) have "uair_satisfied (\<lambda>_ _ _. 0) 3 t" "hd (state_trace 3 t 5) = TraceRecord_new 0 0 Write 8 5"
    by (simp_all add: two_accesses_def)
  with uair_sound [OF this(1)] show ?thesis by auto
qed

text \<open>
  C1: the builder is exact. For a nonempty trace in time order of fewer than \<open>2 ^ 16\<close>
  records whose padding does not run out of times, the builder returns a witness whose last
  state is the trace followed by its padding and whose first state is the sorted trace with
  the same padding; the witness satisfies the constraints if and only if the trace starts at
  time zero and is memory-consistent.
\<close>

theorem uair_builder_exact:
  assumes "tr \<noteq> []" "time_ordered tr" "length tr < 2 ^ 16"
    and "unat (tr_time_log (last tr)) + (2 ^ vars_for (length tr) - length tr) < 2 ^ 64"
  shows "\<exists>t v padding. build_uair_trace_any_start tr = Some (Inr (t, v)) \<and>
    state_trace v t (2 * v - 1) = tr @ padding \<and>
    state_trace v t 0 = sort_trace_by_address_time tr @ padding \<and> padding \<noteq> [] \<and>
    (\<forall>oob. uair_satisfied oob v t \<longleftrightarrow> starts_at_zero tr \<and> memory_consistent tr)"
proof -
  let ?v = "vars_for (length tr)"
  obtain t where "build_uair_trace_any_start tr = Some (Inr (t, ?v))"
    "state_trace ?v t (2 * ?v - 1) = tr @ padding_of tr (2 ^ ?v - length tr)"
    "state_trace ?v t 0 = sort_trace_by_address_time tr @ padding_of tr (2 ^ ?v - length tr)"
    "\<forall>oob. uair_satisfied oob ?v t \<longleftrightarrow> starts_at_zero tr \<and> memory_consistent tr"
    by (rule build_ok [OF assms(1-3) refl refl assms(4)])
  moreover have "padding_of tr (2 ^ ?v - length tr) \<noteq> []"
    using vars_for_bounds(2) [of "length tr"] by (simp add: padding_of_def)
  ultimately show ?thesis by blast
qed

theorem uair_builder_exact_witness:
  "\<exists>t v. build_uair_trace_any_start (two_accesses 6) = Some (Inr (t, v)) \<and> (\<forall>oob. \<not> uair_satisfied oob v t)"
proof -
  note f = two_accesses_facts [of 6]
  have "unat (tr_time_log (last (two_accesses 6))) + (2 ^ vars_for (length (two_accesses 6)) - length (two_accesses 6)) < 2 ^ 64"
    using f(6) by (simp only: f(4) [symmetric] f(5) [symmetric])
  from uair_builder_exact [OF f(1-3) this] f(8) show ?thesis by auto
qed

text \<open>
  The builder answers every input, without a panic: an empty trace, a first time other
  than zero, the first pair of neighbours whose times do not increase, more than
  \<open>2 ^ 16 - 1\<close> records and times too close to \<open>2 ^ 64\<close> are reported in this
  order, everything else is built, and \<open>UnsortedTrace\<close> never occurs.
\<close>

theorem uair_builder_answers:
  "map_option (map_sum id (\<lambda>_. ())) (build_uair_trace tr) = Some (builder_answer tr)"
  by (rule build_answer_aux)

end
