(* ===== verification/Zinc_Types.thy ===== *)
theory Zinc_Types
  imports Prelude
begin

text \<open>
  The parameters of the Zinc+ instance (\<open>zkmemory/src/zincplus/types.rs\<close>): the widths and
  limb counts, the three kinds of committed columns and the set-up of the commitment
  parameters. The linear codes, the folding and the commitment scheme are functions of the
  Zinc+ crates; the constants are those of a 64-bit platform, where \<open>U64::LIMBS\<close> is one.
\<close>

section \<open>Constants\<close>

definition INT_LIMBS :: nat where
  "INT_LIMBS = 1"

definition FIELD_LIMBS :: nat where
  "FIELD_LIMBS = INT_LIMBS * 3"

definition ZINC_D :: nat where
  "ZINC_D = 32"

definition ZINC_HALF_D :: nat where
  "ZINC_HALF_D = ZINC_D div 2"

definition ZINC_QUARTER_D :: nat where
  "ZINC_QUARTER_D = ZINC_D div 4"

definition ZINC_M :: nat where
  "ZINC_M = INT_LIMBS * 8"

definition REP_FACTOR :: nat where
  "REP_FACTOR = 8"

section \<open>Kinds of columns\<close>

datatype zip_types = MemoryBinZipTypes | MemoryArbZipTypes | MemoryIntZipTypes

definition NUM_COLUMN_OPENINGS :: "zip_types \<Rightarrow> nat" where
  "NUM_COLUMN_OPENINGS kind = 100"

section \<open>Set-up\<close>

record ('code, 'params) zip_library =
  zs_folding_factor :: "nat \<Rightarrow> nat \<Rightarrow> nat \<Rightarrow> nat"
  zs_iprs :: "zip_types \<Rightarrow> nat \<Rightarrow> nat \<Rightarrow> 'code option"
  zs_setup :: "zip_types \<Rightarrow> nat \<Rightarrow> 'code \<Rightarrow> 'params"

type_synonym 'params pcs_params = "'params \<times> 'params \<times> 'params"

text \<open>\<open>1usize << n\<close> overflows from 64 on, and the logarithm of zero panics.\<close>

definition shl_one :: "nat \<Rightarrow> nat option" where
  "shl_one n = (if n < 64 then Some (2 ^ n) else panic)"

fun ilog2 :: "nat \<Rightarrow> nat option" where
  "ilog2 n = (if n = 0 then panic else if n = 1 then Some 0 else map_option Suc (ilog2 (n div 2)))"

declare ilog2.simps [simp del]

definition make_iprs :: "('code, 'params) zip_library \<Rightarrow> zip_types \<Rightarrow> nat \<Rightarrow> 'code option" where
  "make_iprs Z kind num_vars = do {
     poly_size \<leftarrow> shl_one num_vars;
     zs_iprs Z kind REP_FACTOR poly_size }"

definition setup_params :: "('code, 'params) zip_library \<Rightarrow> nat \<Rightarrow> 'params pcs_params option" where
  "setup_params Z num_vars = do {
     let folding_factor = zs_folding_factor Z ZINC_D ZINC_HALF_D ZINC_QUARTER_D;
     lg \<leftarrow> ilog2 folding_factor;
     let folded_num_vars = num_vars + lg;
     poly_size \<leftarrow> shl_one num_vars;
     folded_poly_size \<leftarrow> shl_one folded_num_vars;
     bin \<leftarrow> make_iprs Z MemoryBinZipTypes num_vars;
     arb \<leftarrow> make_iprs Z MemoryArbZipTypes num_vars;
     int \<leftarrow> make_iprs Z MemoryIntZipTypes num_vars;
     Some (zs_setup Z MemoryBinZipTypes folded_poly_size bin,
       zs_setup Z MemoryArbZipTypes poly_size arb,
       zs_setup Z MemoryIntZipTypes poly_size int) }"

section \<open>Facts\<close>

text \<open>
  What the crates document: binary columns are folded four times, and the code for a power
  of two exists.
\<close>

definition zip_ok :: "('code, 'params) zip_library \<Rightarrow> bool" where
  "zip_ok Z \<longleftrightarrow> zs_folding_factor Z ZINC_D ZINC_HALF_D ZINC_QUARTER_D = 4 \<and>
     (\<forall>kind. \<forall>v < 62. zs_iprs Z kind REP_FACTOR (2 ^ v) \<noteq> None)"

lemma ilog2_power: "ilog2 (2 ^ n) = Some n"
  by (induction n) (simp_all add: ilog2.simps)

text \<open>The binary parameters cover four times the evaluations of the others.\<close>

lemma setup_params_ok:
  assumes "zip_ok Z" "v < 62"
  obtains bin arb int where "zs_iprs Z MemoryBinZipTypes REP_FACTOR (2 ^ v) = Some bin"
    "zs_iprs Z MemoryArbZipTypes REP_FACTOR (2 ^ v) = Some arb" "zs_iprs Z MemoryIntZipTypes REP_FACTOR (2 ^ v) = Some int"
    "setup_params Z v = Some (zs_setup Z MemoryBinZipTypes (2 ^ (v + 2)) bin,
       zs_setup Z MemoryArbZipTypes (2 ^ v) arb, zs_setup Z MemoryIntZipTypes (2 ^ v) int)"
proof -
  obtain bin arb int where codes: "zs_iprs Z MemoryBinZipTypes REP_FACTOR (2 ^ v) = Some bin"
    "zs_iprs Z MemoryArbZipTypes REP_FACTOR (2 ^ v) = Some arb" "zs_iprs Z MemoryIntZipTypes REP_FACTOR (2 ^ v) = Some int"
    using assms unfolding zip_ok_def by blast
  have "ilog2 4 = Some 2" using ilog2_power [of 2] by simp
  then have "setup_params Z v = Some (zs_setup Z MemoryBinZipTypes (2 ^ (v + 2)) bin,
       zs_setup Z MemoryArbZipTypes (2 ^ v) arb, zs_setup Z MemoryIntZipTypes (2 ^ v) int)"
    using assms codes by (simp add: setup_params_def make_iprs_def shl_one_def zip_ok_def)
  with codes show thesis by (rule that)
qed

end
