(* ===== verification/Zinc_Prover.thy ===== *)
theory Zinc_Prover
  imports Uair_Correct Zinc_Types
begin

text \<open>
  The entry points of the Zinc+ backend (\<open>zkmemory/src/zincplus/prover.rs\<close>) and their
  errors. The Zinc+ crates are a record of functions: what the set-up calls, the prover, the
  verifier and the transcript that writes and reads the inner proof; their errors are already
  rendered as strings.
\<close>

section \<open>Rendering of numbers and errors\<close>

text \<open>The decimal digits of a number, as \<open>format!\<close> prints them; 20 digits cover \<open>u64\<close>.\<close>

fun decimal_fuel :: "nat \<Rightarrow> nat \<Rightarrow> string \<Rightarrow> string" where
  "decimal_fuel 0 n acc = acc"
| "decimal_fuel (Suc fuel) n acc =
     (let acc' = char_of (48 + n mod 10) # acc in
      if n div 10 = 0 then acc' else decimal_fuel fuel (n div 10) acc')"

definition decimal :: "nat \<Rightarrow> string" where
  "decimal n = decimal_fuel (Suc n) n []"

fun zinc_error_display :: "zinc_error \<Rightarrow> string" where
  "zinc_error_display EmptyTrace = ''the execution trace is empty''"
| "zinc_error_display (FirstTimeNonZero t) =
     ''the original trace must start at time_log 0, got '' @ decimal (unat t)"
| "zinc_error_display (DuplicatedAccess t) = ''two trace records share time_log '' @ decimal (unat t)"
| "zinc_error_display (TimeNotIncreasing t) =
     ''the original trace's time_logs must strictly increase; time_log '' @ decimal (unat t) @ '' decreases''"
| "zinc_error_display TraceTooLong =
     ''the execution trace exceeds 2^'' @ decimal MAX_NUM_VARS @ '' - 1 records''"
| "zinc_error_display TimeLogOverflow = ''padding the trace would overflow the u64 time domain''"
| "zinc_error_display UnsortedTrace = ''internal error: witness builder invariant violated''"
| "zinc_error_display (MalformedProof msg) = ''malformed proof: '' @ msg"
| "zinc_error_display (Prover msg) = ''Zinc+ prover error: '' @ msg"
| "zinc_error_display (Verifier msg) = ''Zinc+ verification failed: '' @ msg"

section \<open>The library\<close>

record ('proof, 'code, 'params) zinc_library =
  zl_zip :: "('code, 'params) zip_library"
  zl_prove :: "nat \<Rightarrow> 'params pcs_params \<Rightarrow> utrace \<Rightarrow> nat \<Rightarrow> string + 'proof"
  zl_verify :: "nat \<Rightarrow> 'params pcs_params \<Rightarrow> 'proof \<Rightarrow> int list list \<Rightarrow> nat \<Rightarrow> string + unit"
  zl_write :: "'proof \<Rightarrow> string + u8 list"
  zl_read :: "u8 list \<Rightarrow> string + 'proof"

section \<open>Proofs\<close>

record 'proof zinc_proof =
  zp_proof :: 'proof
  zp_num_vars :: nat

definition num_vars_error :: "nat \<Rightarrow> zinc_error" where
  "num_vars_error n = MalformedProof (''num_vars '' @ decimal n @ '' outside ['' @ decimal MIN_NUM_VARS
     @ '', '' @ decimal MAX_NUM_VARS @ '']'')"

text \<open>\<open>u32::to_le_bytes\<close> and \<open>u32::from_le_bytes\<close>.\<close>

definition to_le_bytes :: "u32 \<Rightarrow> u8 list" where
  "to_le_bytes x = rev (to_be_bytes x)"

definition from_le_bytes :: "u8 list \<Rightarrow> u32" where
  "from_le_bytes bs = from_be_bytes (rev bs)"

definition to_bytes :: "('proof, 'code, 'params) zinc_library \<Rightarrow> 'proof zinc_proof \<Rightarrow> zinc_error + u8 list" where
  "to_bytes Z p =
     (case zl_write Z (zp_proof p) of
        Inl e \<Rightarrow> Inl (MalformedProof e)
      | Inr stream \<Rightarrow>
          if 2 ^ 32 \<le> zp_num_vars p then Inl (MalformedProof ''num_vars overflow'')
          else Inr (to_le_bytes (word_of_nat (zp_num_vars p)) @ stream))"

definition from_bytes :: "('proof, 'code, 'params) zinc_library \<Rightarrow> u8 list \<Rightarrow> zinc_error + 'proof zinc_proof" where
  "from_bytes Z bytes =
     (if length bytes < 4 then Inl (MalformedProof ''buffer too short'')
      else let header = take 4 bytes; body = drop 4 bytes; num_vars = unat (from_le_bytes header) in
        if \<not> (MIN_NUM_VARS \<le> num_vars \<and> num_vars \<le> MAX_NUM_VARS) then Inl (num_vars_error num_vars)
        else case zl_read Z body of
          Inl e \<Rightarrow> Inl (MalformedProof e)
        | Inr proof \<Rightarrow> Inr \<lparr>zp_proof = proof, zp_num_vars = num_vars\<rparr>)"

section \<open>Proving and verifying\<close>

text \<open>The dispatch over the const generic: other values are unreachable code.\<close>

definition with_const_num_vars :: "nat \<Rightarrow> (nat \<Rightarrow> 'a) \<Rightarrow> 'a option" where
  "with_const_num_vars num_vars body =
     (if num_vars \<in> set [3, 4, 5, 6, 7, 8, 9, 10, 11, 12, 13, 14, 15, 16] then Some (body num_vars) else panic)"

definition prove_from_uair_trace ::
    "('proof, 'code, 'params) zinc_library \<Rightarrow> utrace \<Rightarrow> nat \<Rightarrow> (zinc_error, 'proof zinc_proof) result" where
  "prove_from_uair_trace Z uair_trace num_vars = do {
     params \<leftarrow> setup_params (zl_zip Z) num_vars;
     r \<leftarrow> with_const_num_vars num_vars (\<lambda>v. zl_prove Z v params uair_trace num_vars);
     Some (case r of Inl e \<Rightarrow> Inl (Prover e)
       | Inr proof \<Rightarrow> Inr \<lparr>zp_proof = proof, zp_num_vars = num_vars\<rparr>) }"

definition prove_memory_consistency ::
    "('proof, 'code, 'params) zinc_library \<Rightarrow> access list \<Rightarrow> (zinc_error, 'proof zinc_proof) result" where
  "prove_memory_consistency Z trace = do {
     r \<leftarrow> build_uair_trace trace;
     case r of Inl e \<Rightarrow> Some (Inl e)
     | Inr (uair_trace, num_vars) \<Rightarrow> prove_from_uair_trace Z uair_trace num_vars }"

definition verify_memory_consistency ::
    "('proof, 'code, 'params) zinc_library \<Rightarrow> 'proof zinc_proof \<Rightarrow> (zinc_error, unit) result" where
  "verify_memory_consistency Z proof =
     (let num_vars = zp_num_vars proof in
      if \<not> (MIN_NUM_VARS \<le> num_vars \<and> num_vars \<le> MAX_NUM_VARS) then Some (Inl (num_vars_error num_vars))
      else do {
        params \<leftarrow> setup_params (zl_zip Z) num_vars;
        let public_trace = public_int_columns num_vars;
        r \<leftarrow> with_const_num_vars num_vars (\<lambda>v. zl_verify Z v params (zp_proof proof) public_trace num_vars);
        Some (map_sum Verifier id r) })"

section \<open>Facts\<close>

lemma dispatch_range: "with_const_num_vars v body = (if MIN_NUM_VARS \<le> v \<and> v \<le> MAX_NUM_VARS then Some (body v) else None)"
proof -
  have "[3, 4, 5, 6, 7, 8, 9, 10, 11, 12, 13, 14, 15, 16] = [3..<17 :: nat]" by (simp add: upt_rec)
  moreover have "v \<in> set [3..<17] \<longleftrightarrow> 3 \<le> v \<and> v \<le> 16"
    by (simp only: set_upt atLeastLessThan_iff) arith
  ultimately show ?thesis by (simp only: with_const_num_vars_def MIN_NUM_VARS_def MAX_NUM_VARS_def)
qed

lemma le_bytes_roundtrip: "n < 2 ^ 32 \<Longrightarrow> unat (from_le_bytes (to_le_bytes (word_of_nat n))) = n"
  by (simp add: from_le_bytes_def to_le_bytes_def from_to_be_bytes unat_of_nat)

lemma length_to_le_bytes [simp]: "length (to_le_bytes x) = 4"
  by (simp add: to_le_bytes_def)

lemma build_num_vars:
  assumes "build_uair_trace tr = Some (Inr (t, v))"
  shows "MIN_NUM_VARS \<le> v \<and> v \<le> MAX_NUM_VARS"
proof -
  have b: "build_rows v' a b = Some (Inr (t, v)) \<Longrightarrow> v' = v" for v' a b
    by (auto simp: build_rows_def Let_def split: bind_splits sum.splits if_splits)
  show ?thesis
    using assms
    by (auto simp: build_uair_trace_def build_uair_trace_any_start_def Let_def MIN_NUM_VARS_def MAX_NUM_VARS_def
        split: list.splits if_splits option.splits sum.splits dest!: b)
qed


lemma from_to_bytes:
  assumes law: "\<And>q stream. zl_write Z q = Inr stream \<Longrightarrow> zl_read Z stream = Inr q"
    and v: "MIN_NUM_VARS \<le> zp_num_vars p" "zp_num_vars p \<le> MAX_NUM_VARS" and b: "to_bytes Z p = Inr bytes"
  shows "from_bytes Z bytes = Inr p"
proof -
  have small: "zp_num_vars p < 2 ^ 32" using v(2) by (simp add: MAX_NUM_VARS_def)
  then obtain stream where s: "zl_write Z (zp_proof p) = Inr stream"
    "bytes = to_le_bytes (word_of_nat (zp_num_vars p)) @ stream"
    using b by (auto simp: to_bytes_def split: sum.splits)
  have "unat (from_le_bytes (take 4 bytes)) = zp_num_vars p" "drop 4 bytes = stream" "\<not> length bytes < 4"
    using le_bytes_roundtrip [OF small] by (simp_all add: s(2))
  then show ?thesis using v law [OF s(1)] by (simp add: from_bytes_def Let_def)
qed

text \<open>An accepted input is built, and its witness satisfies the constraints when it is consistent.\<close>

lemma builder_answer_ok:
  assumes "builder_answer tr = Inr ()"
  shows "\<exists>t. build_uair_trace tr = Some (Inr (t, vars_for (length tr))) \<and>
    (\<forall>oob. uair_satisfied oob (vars_for (length tr)) t \<longleftrightarrow> memory_consistent tr)"
proof -
  have ne: "tr \<noteq> []" and hd: "tr_time_log (hd tr) = 0" and fte: "first_time_error tr = None"
    and len: "length tr < 2 ^ 16"
    and fit: "unat (tr_time_log (last tr)) + 2 ^ vars_for (length tr) < 2 ^ 64 + length tr"
    using assms by (auto simp: builder_answer_def not_le split: if_splits option.splits)
  have tm: "time_ordered tr" using fte by (simp only: time_ordered_first)
  have "unat (tr_time_log (last tr)) + (2 ^ vars_for (length tr) - length tr) < 2 ^ 64"
    using fit vars_for_bounds(2) [of "length tr"] by linarith
  from build_ok [OF ne tm len refl refl this] obtain t where
    t: "build_uair_trace_any_start tr = Some (Inr (t, vars_for (length tr)))"
      "\<forall>oob. uair_satisfied oob (vars_for (length tr)) t \<longleftrightarrow> starts_at_zero tr \<and> memory_consistent tr" by metis
  moreover have "build_uair_trace tr = build_uair_trace_any_start tr" "starts_at_zero tr"
    using ne hd by (cases tr; simp add: build_uair_trace_def starts_at_zero_def)+
  ultimately show ?thesis by auto
qed

section \<open>The proof system\<close>

text \<open>A commitment scheme without contents, for the instances.\<close>

definition unit_zip :: "(unit, unit) zip_library" where
  "unit_zip = \<lparr>zs_folding_factor = \<lambda>_ _ _. 4, zs_iprs = \<lambda>_ _ _. Some (), zs_setup = \<lambda>_ _ _. ()\<rparr>"

lemma unit_zip_ok: "zip_ok unit_zip"
  by (simp add: zip_ok_def unit_zip_def)

text \<open>
  What the backend relies on: satisfied constraints are proved and the proof verifies,
  violated ones make the prover fail, and what verifies has a satisfying trace.
\<close>

locale zinc_system =
  fixes Z :: "('proof, 'code, 'params) zinc_library"
  assumes zip: "zip_ok (zl_zip Z)"
    and complete: "setup_params (zl_zip Z) v = Some params \<Longrightarrow> (\<And>oob. uair_satisfied oob v t) \<Longrightarrow>
      \<exists>p. zl_prove Z v params t v = Inr p \<and> zl_verify Z v params p (public_int_columns v) v = Inr ()"
    and rejects: "setup_params (zl_zip Z) v = Some params \<Longrightarrow> (\<And>oob. \<not> uair_satisfied oob v t) \<Longrightarrow>
      \<exists>e. zl_prove Z v params t v = Inl e"
    and extracts: "setup_params (zl_zip Z) v = Some params \<Longrightarrow>
      zl_verify Z v params p (public_int_columns v) v = Inr () \<Longrightarrow> \<exists>t oob. uair_satisfied oob v t"
begin

lemma params:
  assumes "v \<le> MAX_NUM_VARS"
  obtains params where "setup_params (zl_zip Z) v = Some params"
proof -
  have "v < 62" using assms by (simp add: MAX_NUM_VARS_def)
  from setup_params_ok [OF zip this] that show thesis by blast
qed

lemma prove_outcome:
  shows "case builder_answer tr of
      Inl e \<Rightarrow> prove_memory_consistency Z tr = Some (Inl e)
    | Inr _ \<Rightarrow>
        if memory_consistent tr
        then \<exists>p. prove_memory_consistency Z tr = Some (Inr p) \<and> verify_memory_consistency Z p = Some (Inr ())
        else \<exists>msg. prove_memory_consistency Z tr = Some (Inl (Prover msg))"
proof (cases "builder_answer tr")
  case (Inl e)
  then have "map_option (map_sum id (\<lambda>_. ())) (build_uair_trace tr) = Some (Inl e)"
    by (simp add: build_answer_aux)
  then obtain r where "build_uair_trace tr = Some r" "map_sum id (\<lambda>_. ()) r = Inl e" by auto
  then have "build_uair_trace tr = Some (Inl e)" by (cases r) auto
  with Inl show ?thesis by (simp add: prove_memory_consistency_def)
next
  case (Inr u)
  then have ok: "builder_answer tr = Inr ()" by simp
  obtain t v where b: "build_uair_trace tr = Some (Inr (t, v))"
    and sat: "\<And>oob. uair_satisfied oob v t \<longleftrightarrow> memory_consistent tr"
    using builder_answer_ok [OF ok] by blast
  note v = build_num_vars [OF b]
  obtain params where ps: "setup_params (zl_zip Z) v = Some params" using params v by blast
  have p: "prove_memory_consistency Z tr = Some (case zl_prove Z v params t v of
      Inl e \<Rightarrow> Inl (Prover e) | Inr proof \<Rightarrow> Inr \<lparr>zp_proof = proof, zp_num_vars = v\<rparr>)"
    by (simp add: prove_memory_consistency_def b prove_from_uair_trace_def dispatch_range v ps)
  show ?thesis
  proof (cases "memory_consistent tr")
    case True
    then obtain q where "zl_prove Z v params t v = Inr q"
      "zl_verify Z v params q (public_int_columns v) v = Inr ()" using complete [OF ps] sat by metis
    then show ?thesis using ok True v by (simp add: p verify_memory_consistency_def dispatch_range ps)
  next
    case False
    then obtain e where "zl_prove Z v params t v = Inl e" using rejects [OF ps] sat by metis
    then show ?thesis using ok False by (simp add: p)
  qed
qed

lemma verify_sound:
  assumes "verify_memory_consistency Z p = Some (Inr ())"
  shows "\<exists>tr :: access list. length tr = 2 ^ zp_num_vars p \<and> starts_at_zero tr \<and> time_ordered tr \<and> memory_consistent tr"
proof -
  let ?v = "zp_num_vars p"
  have v: "MIN_NUM_VARS \<le> ?v" "?v \<le> MAX_NUM_VARS"
    using assms by (auto simp: verify_memory_consistency_def Let_def split: if_splits)
  obtain params where ps: "setup_params (zl_zip Z) ?v = Some params" by (rule params [OF v(2)])
  have "zl_verify Z ?v params (zp_proof p) (public_int_columns ?v) ?v = Inr ()"
    using assms v by (cases "zl_verify Z ?v params (zp_proof p) (public_int_columns ?v) ?v")
      (simp_all add: verify_memory_consistency_def dispatch_range Let_def ps)
  then obtain t oob where "uair_satisfied oob ?v t" using extracts [OF ps] by blast
  from uair_sound_aux [OF this] have "starts_at_zero (state_trace ?v t (2 * ?v - 1)) \<and>
      time_ordered (state_trace ?v t (2 * ?v - 1)) \<and> memory_consistent (state_trace ?v t (2 * ?v - 1))" by blast
  moreover have "length (state_trace ?v t (2 * ?v - 1)) = 2 ^ ?v" by (simp add: state_trace_def)
  ultimately show ?thesis by blast
qed

end


section \<open>Property\<close>

text \<open>
  A proof with a supported number of variables comes back from its bytes, when the
  transcript reads back what it wrote.
\<close>

theorem zinc_bytes_roundtrip:
  assumes "\<And>q stream. zl_write Z q = Inr stream \<Longrightarrow> zl_read Z stream = Inr q"
    and "MIN_NUM_VARS \<le> zp_num_vars p" and "zp_num_vars p \<le> MAX_NUM_VARS" and "to_bytes Z p = Inr bytes"
  shows "from_bytes Z bytes = Inr p"
  by (rule from_to_bytes [OF assms])

definition byte_transcript :: "(u8 list, unit, unit) zinc_library" where
  "byte_transcript = \<lparr>zl_zip = unit_zip, zl_prove = \<lambda>_ _ _ _. Inl [], zl_verify = \<lambda>_ _ _ _ _. Inl [],
     zl_write = Inr, zl_read = Inr\<rparr>"

theorem zinc_bytes_roundtrip_witness:
  "from_bytes byte_transcript [5, 0, 0, 0, 9, 8] = Inr \<lparr>zp_proof = [9, 8], zp_num_vars = 5\<rparr>"
proof (rule zinc_bytes_roundtrip)
  have "to_le_bytes 5 = [5, 0, 0, 0]" by (simp add: to_le_bytes_def to_be_bytes_def digits_be_def upt_rec)
  then show "to_bytes byte_transcript \<lparr>zp_proof = [9, 8], zp_num_vars = 5\<rparr> = Inr [5, 0, 0, 0, 9, 8]"
    by (simp add: to_bytes_def byte_transcript_def)
qed (simp_all add: byte_transcript_def MIN_NUM_VARS_def MAX_NUM_VARS_def)

end
