(* ===== verification/Backend.thy ===== *)
theory Backend
  imports Consistency_Circuit Zinc_Prover
begin

text \<open>
  The backend seam (\<open>zkmemory/src/backend.rs\<close>): the trait as a locale whose law is what
  its callers rely on, and its two implementations. The mock prover's rows and messages and
  the field elements it draws are an environment of the Halo2 backend.
\<close>

section \<open>The Halo2 backend\<close>

record 'f halo2_env =
  he_usable :: "u32 \<Rightarrow> nat"
  he_not_enough_rows :: "u32 \<Rightarrow> string"
  he_failures :: "access list \<Rightarrow> string"
  he_alpha :: 'f
  he_random :: "nat \<Rightarrow> 'f"
  he_seeds :: "u64 list"

record halo2_backend =
  hb_k :: u32

record halo2_attestation =
  ha_trace :: "access list"
  ha_k :: u32

definition Halo2_check :: "'f::field halo2_env \<Rightarrow> u32 \<Rightarrow> access list \<Rightarrow> (string, unit) result" where
  "Halo2_check E k trace = do {
     r \<leftarrow> consistency_circuit (he_usable E k) (he_alpha E) (he_random E) (he_seeds E)
       trace (sort_trace_by_address_time trace);
     Some (case r of
         Inl _ \<Rightarrow> Inl (''synthesis: '' @ he_not_enough_rows E k)
       | Inr ok \<Rightarrow> if ok then Inr () else Inl (''constraint check: '' @ he_failures E trace)) }"

definition Halo2_prove ::
    "'f::field halo2_env \<Rightarrow> halo2_backend \<Rightarrow> access list \<Rightarrow> (string, halo2_attestation) result" where
  "Halo2_prove E b trace = do {
     r \<leftarrow> Halo2_check E (hb_k b) trace;
     Some (case r of Inl e \<Rightarrow> Inl e | Inr _ \<Rightarrow> Inr \<lparr>ha_trace = trace, ha_k = hb_k b\<rparr>) }"

definition Halo2_verify :: "'f::field halo2_env \<Rightarrow> halo2_attestation \<Rightarrow> (string, unit) result" where
  "Halo2_verify E proof = Halo2_check E (ha_k proof) (ha_trace proof)"

section \<open>The Zinc+ backend\<close>

definition ZincPlus_prove ::
    "('proof, 'code, 'params) zinc_library \<Rightarrow> access list \<Rightarrow> (zinc_error, 'proof zinc_proof) result" where
  "ZincPlus_prove Z trace = prove_memory_consistency Z trace"

definition ZincPlus_verify ::
    "('proof, 'code, 'params) zinc_library \<Rightarrow> 'proof zinc_proof \<Rightarrow> (zinc_error, unit) result" where
  "ZincPlus_verify Z proof = verify_memory_consistency Z proof"

section \<open>The trait\<close>

text \<open>
  A backend decides a predicate on traces: it proves exactly the accepted ones, and what it
  proves verifies.
\<close>

locale memory_backend =
  fixes prove :: "access list \<Rightarrow> ('e, 'p) result" and verify :: "'p \<Rightarrow> ('e, unit) result"
    and accepts :: "access list \<Rightarrow> bool"
  assumes accepted: "accepts tr \<Longrightarrow> \<exists>p. prove tr = Some (Inr p) \<and> verify p = Some (Inr ())"
    and proved: "prove tr = Some (Inr p) \<Longrightarrow> accepts tr"
begin

lemma proved_verifies: "prove tr = Some (Inr p) \<Longrightarrow> verify p = Some (Inr ())"
  using accepted [OF proved] by fastforce

lemma proves_iff: "(\<exists>p. prove tr = Some (Inr p)) \<longleftrightarrow> accepts tr"
  using accepted proved by blast

end

section \<open>What the Halo2 backend accepts\<close>

definition halo2_accepts :: "nat \<Rightarrow> access list \<Rightarrow> bool" where
  "halo2_accepts usable tr \<longleftrightarrow> circuit_fits usable tr \<and> starts_at_zero tr \<and> time_ordered tr \<and>
     low_consistent (sort_trace_by_address_time tr)"

lemma assign_region_Inr:
  assumes "assign_region usable start height row n = Some (Inr rows)"
  shows "those (map row [0..<n]) = Some rows" "start + max n height \<le> usable"
proof -
  show le: "start + max n height \<le> usable"
    using assms by (auto simp: assign_region_def not_less split: bind_splits if_splits)
  then have "min n (usable - start) = n" by simp
  with assms show "those (map row [0..<n]) = Some rows"
    by (auto simp: assign_region_def split: bind_splits if_splits)
qed

lemma consistency_circuit_times:
  fixes alpha :: "'f::field"
  assumes wide: "wide_field TYPE('f) (2 ^ 64)"
    and ok: "consistency_circuit usable alpha random seeds tr s = Some (Inr True)"
  shows "time_ordered tr"
proof -
  obtain rows where rows: "consistency_synthesize usable random seeds tr s = Some (Inr rows)"
    and sat: "consistency_constraints alpha rows"
  proof -
    obtain r where "consistency_synthesize usable random seeds tr s = Some r"
      "map_sum id (consistency_constraints alpha) r = Inr True"
      using ok by (auto simp: consistency_circuit_def)
    then show thesis using that by (cases r) auto
  qed
  then have syn: "original_synthesize (map converted tr) = Some (cr_original rows)"
    by (auto simp: consistency_synthesize_def original_synthesize_def Let_def
        split: bind_splits if_splits sum.splits dest!: assign_region_Inr(1))
  have "\<not> time_repeated tr" using syn original_synthesize_panics [of tr, where 'f = 'f] by auto
  from original_synthesize_exact [where alpha = alpha and m = 40, OF wide _ this] syn sat
  show ?thesis by (auto simp: consistency_constraints_def)
qed

lemma consistency_circuit_accepts:
  fixes alpha :: "'f::field" and random :: "nat \<Rightarrow> 'f"
  assumes wide: "wide_field TYPE('f) (2 ^ 248)" and random: "\<And>i. random i \<noteq> 0"
  shows "consistency_circuit usable alpha random seeds tr (sort_trace_by_address_time tr) = Some (Inr True)
    \<longleftrightarrow> halo2_accepts usable tr"
proof (cases "time_ordered tr")
  case True
  then show ?thesis
    by (simp add: consistency_circuit_aux [OF assms time_ordered_times] halo2_accepts_def)
next
  case False
  have small: "wide_field TYPE('f) (2 ^ 64)" by (rule wide_field_mono [OF wide]) simp
  show ?thesis using False consistency_circuit_times [OF small] by (auto simp: halo2_accepts_def)
qed

definition good_env :: "'f::field halo2_env \<Rightarrow> bool" where
  "good_env E \<longleftrightarrow> wide_field TYPE('f) (2 ^ 248) \<and> (\<forall>i. he_random E i \<noteq> 0)"

lemma halo2_check_ok:
  assumes "good_env E"
  shows "Halo2_check E k tr = Some (Inr ()) \<longleftrightarrow> halo2_accepts (he_usable E k) tr"
proof -
  have "Halo2_check E k tr = Some (Inr ()) \<longleftrightarrow> consistency_circuit (he_usable E k) (he_alpha E) (he_random E)
      (he_seeds E) tr (sort_trace_by_address_time tr) = Some (Inr True)"
    by (auto simp: Halo2_check_def split: bind_splits sum.splits if_splits)
  then show ?thesis using assms by (simp add: consistency_circuit_accepts good_env_def)
qed

lemma halo2_prove_ok:
  "Halo2_prove E b tr = Some (Inr p) \<longleftrightarrow>
     Halo2_check E (hb_k b) tr = Some (Inr ()) \<and> p = \<lparr>ha_trace = tr, ha_k = hb_k b\<rparr>"
  by (auto simp: Halo2_prove_def split: bind_splits sum.splits)

text \<open>Proving and verifying draw their own challenges and seeds.\<close>

locale halo2_system =
  fixes E E' :: "'f::field halo2_env" and b :: halo2_backend
  assumes good: "good_env E" "good_env E'" and same_rows: "he_usable E' = he_usable E"

sublocale halo2_system \<subseteq> backend: memory_backend "Halo2_prove E b" "Halo2_verify E'"
  "halo2_accepts (he_usable E (hb_k b))"
proof
  fix tr
  assume "halo2_accepts (he_usable E (hb_k b)) tr"
  then show "\<exists>p. Halo2_prove E b tr = Some (Inr p) \<and> Halo2_verify E' p = Some (Inr ())"
    using good same_rows by (simp add: halo2_prove_ok Halo2_verify_def halo2_check_ok)
next
  fix tr p
  assume "Halo2_prove E b tr = Some (Inr p)"
  then show "halo2_accepts (he_usable E (hb_k b)) tr"
    using good by (simp add: halo2_prove_ok halo2_check_ok)
qed

context halo2_system
begin

lemmas halo2_proves_iff = backend.proves_iff
lemmas halo2_proved_verifies = backend.proved_verifies

end

section \<open>What the Zinc+ backend accepts\<close>

definition zinc_accepts :: "access list \<Rightarrow> bool" where
  "zinc_accepts tr \<longleftrightarrow> builder_answer tr = Inr () \<and> memory_consistent tr"

sublocale zinc_system \<subseteq> backend: memory_backend "ZincPlus_prove Z" "ZincPlus_verify Z" zinc_accepts
proof
  fix tr
  assume "zinc_accepts tr"
  then show "\<exists>p. ZincPlus_prove Z tr = Some (Inr p) \<and> ZincPlus_verify Z p = Some (Inr ())"
    using prove_outcome [of tr] by (simp add: zinc_accepts_def ZincPlus_prove_def ZincPlus_verify_def)
next
  fix tr p
  assume "ZincPlus_prove Z tr = Some (Inr p)"
  then show "zinc_accepts tr"
    using prove_outcome [of tr]
    by (auto simp: zinc_accepts_def ZincPlus_prove_def split: sum.splits if_splits)
qed


context zinc_system
begin

lemmas zinc_proves_iff = backend.proves_iff

end

section \<open>Instances\<close>

text \<open>
  The laws hold of a proof system that checks the constraints itself, and of the mock prover
  over a field where small numbers are distinct.
\<close>

definition checking_zinc :: "(utrace, unit, unit) zinc_library" where
  "checking_zinc = \<lparr>zl_zip = unit_zip,
     zl_prove = \<lambda>v _ t n. if uair_satisfied (\<lambda>_ _ _. 0) v t then Inr t else Inl ''unsatisfied'',
     zl_verify = \<lambda>v _ t cols n. if uair_satisfied (\<lambda>_ _ _. 0) v t then Inr () else Inl ''unsatisfied'',
     zl_write = \<lambda>_. Inl ''unsupported'', zl_read = \<lambda>_. Inl ''unsupported''\<rparr>"

interpretation checker: zinc_system checking_zinc
  by unfold_locales (auto simp: checking_zinc_def unit_zip_ok split: if_splits)

definition mock_env :: "rat halo2_env" where
  "mock_env = \<lparr>he_usable = \<lambda>k. 2 ^ unat k - 8, he_not_enough_rows = \<lambda>_. ''not enough rows'',
     he_failures = \<lambda>_. ''unsatisfied'', he_alpha = 3, he_random = \<lambda>_. 1, he_seeds = [1, 2, 3, 4, 5]\<rparr>"

interpretation mock: halo2_system mock_env "mock_env\<lparr>he_alpha := 7\<rparr>" "\<lparr>hb_k = 10\<rparr>"
  by unfold_locales (simp_all add: good_env_def mock_env_def wide_field_rat)

section \<open>Properties\<close>

definition sample_trace :: "u256 \<Rightarrow> access list" where
  "sample_trace x = [TraceRecord_new 0 0 Write 8 5, TraceRecord_new 1 0 Read 8 x]"

lemma sample_facts:
  "time_ordered (sample_trace x)" "starts_at_zero (sample_trace x)"
  "memory_consistent (sample_trace x) \<longleftrightarrow> x = 5" "x < 2 ^ 248 \<Longrightarrow> low_bounded (sample_trace x)"
  by (auto simp: sample_trace_def TraceRecord_new_def time_ordered_def starts_at_zero_def memory_consistent_def
      low_bounded_def)

lemma sample_fits: "circuit_fits 1016 (sample_trace x)"
  by (simp add: circuit_fits_def sample_trace_def region_height_def table_height_def)

lemma sample_builder: "builder_answer (sample_trace x) = Inr ()"
proof -
  have v: "vars_for 2 = 3" by code_simp
  have "first_time_error (sample_trace x) = None"
    using sample_facts(1) time_ordered_first by metis
  then show ?thesis
    by (simp add: builder_answer_def sample_trace_def TraceRecord_new_def v flip: numeral_2_eq_2)
qed

text \<open>
  With a lawful proof system the Zinc+ entry points decide consistency: a malformed
  trace is the builder's error, a consistent one is proved and its proof verifies, an
  inconsistent one is a \<open>Prover\<close> error; nothing panics.
\<close>

theorem zinc_prove_exact:
  assumes "zinc_system Z"
  shows "case builder_answer tr of
      Inl e \<Rightarrow> prove_memory_consistency Z tr = Some (Inl e)
    | Inr _ \<Rightarrow>
        if memory_consistent tr
        then \<exists>p. prove_memory_consistency Z tr = Some (Inr p) \<and> verify_memory_consistency Z p = Some (Inr ())
        else \<exists>msg. prove_memory_consistency Z tr = Some (Inl (Prover msg))"
  by (rule zinc_system.prove_outcome [OF assms])

theorem zinc_prove_exact_witness:
  "\<exists>msg. prove_memory_consistency checking_zinc (sample_trace 6) = Some (Inl (Prover msg))"
  using zinc_prove_exact [OF checker.zinc_system_axioms, of "sample_trace 6"]
  by (simp add: sample_builder sample_facts(3))

text \<open>
  A Zinc+ proof that verifies attests a consistent trace of \<open>2 ^ num_vars\<close> records
  whose times start at zero and strictly increase.
\<close>

theorem zinc_verify_sound:
  assumes "zinc_system Z" and "verify_memory_consistency Z p = Some (Inr ())"
  shows "\<exists>tr :: access list. length tr = 2 ^ zp_num_vars p \<and> starts_at_zero tr \<and> time_ordered tr \<and> memory_consistent tr"
  by (rule zinc_system.verify_sound [OF assms])

theorem zinc_verify_sound_witness:
  "\<exists>p (tr :: access list). prove_memory_consistency checking_zinc (sample_trace 5) = Some (Inr p) \<and>
     length tr = 2 ^ zp_num_vars p \<and> memory_consistent tr"
proof -
  obtain p where "prove_memory_consistency checking_zinc (sample_trace 5) = Some (Inr p)"
    "verify_memory_consistency checking_zinc p = Some (Inr ())"
    using checker.prove_outcome [of "sample_trace 5"] by (auto simp: sample_builder sample_facts(3))
  with zinc_verify_sound [OF checker.zinc_system_axioms this(2)] show ?thesis by blast
qed

text \<open>
  The Halo2 backend proves exactly the traces that fit the rows, start at time zero, are
  in time order and whose sorting is consistent in the low 31 bytes; a later verification,
  with other challenges, accepts what it proved.
\<close>

theorem halo2_backend_exact:
  fixes E E' :: "'f::field halo2_env"
  assumes "good_env E" and "good_env E'" and "he_usable E' = he_usable E"
  shows "((\<exists>p. Halo2_prove E b tr = Some (Inr p)) \<longleftrightarrow> halo2_accepts (he_usable E (hb_k b)) tr) \<and>
    (Halo2_prove E b tr = Some (Inr p) \<longrightarrow> Halo2_verify E' p = Some (Inr ()))"
  using halo2_system.intro [OF assms] halo2_system.halo2_proves_iff halo2_system.halo2_proved_verifies
  by metis

theorem halo2_backend_exact_witness:
  "\<exists>p. Halo2_prove mock_env \<lparr>hb_k = 10\<rparr> (sample_trace 5) = Some (Inr p) \<and>
     Halo2_verify (mock_env\<lparr>he_alpha := 7\<rparr>) p = Some (Inr ())"
proof -
  have "halo2_accepts (he_usable mock_env 10) (sample_trace 5)"
    using sample_fits [of 5] sample_facts [of 5]
    by (simp add: halo2_accepts_def low_consistent_memory) (simp add: mock_env_def)
  then show ?thesis
    using halo2_backend_exact [OF mock.good mock.same_rows, of "\<lparr>hb_k = 10\<rparr>" "sample_trace 5"] by auto
qed

text \<open>
  On a well-formed trace whose addresses and values leave the top byte zero and that
  fits the circuit, the two backends prove the same traces: the consistent ones.
\<close>

theorem backends_agree:
  assumes "good_env E" and "zinc_system Z" and "builder_answer tr = Inr ()" and "low_bounded tr"
    and "circuit_fits (he_usable E (hb_k b)) tr"
  shows "((\<exists>p. Halo2_prove E b tr = Some (Inr p)) \<longleftrightarrow> memory_consistent tr) \<and>
    ((\<exists>p. ZincPlus_prove Z tr = Some (Inr p)) \<longleftrightarrow> memory_consistent tr)"
proof
  have "tr \<noteq> []" "tr_time_log (hd tr) = 0" "first_time_error tr = None"
    using assms(3) by (auto simp: builder_answer_def split: if_splits option.splits)
  then have tm: "time_ordered tr" "starts_at_zero tr"
    by (simp_all only: time_ordered_first) (cases tr; simp add: starts_at_zero_def)
  have "halo2_accepts (he_usable E (hb_k b)) tr \<longleftrightarrow> memory_consistent tr"
    using assms(4,5) tm by (simp add: halo2_accepts_def low_consistent_memory)
  then show "(\<exists>p. Halo2_prove E b tr = Some (Inr p)) \<longleftrightarrow> memory_consistent tr"
    using halo2_system.halo2_proves_iff [OF halo2_system.intro [OF assms(1,1) refl]] by metis
  show "(\<exists>p. ZincPlus_prove Z tr = Some (Inr p)) \<longleftrightarrow> memory_consistent tr"
    using zinc_system.zinc_proves_iff [OF assms(2)] assms(3) by (simp add: zinc_accepts_def)
qed

theorem backends_agree_witness:
  "\<not> (\<exists>p. Halo2_prove mock_env \<lparr>hb_k = 10\<rparr> (sample_trace 6) = Some (Inr p)) \<and>
   \<not> (\<exists>p. ZincPlus_prove checking_zinc (sample_trace 6) = Some (Inr p))"
proof -
  have "circuit_fits (he_usable mock_env (hb_k \<lparr>hb_k = 10\<rparr>)) (sample_trace 6)"
    using sample_fits [of 6] by (simp add: mock_env_def)
  from backends_agree [OF mock.good(1) checker.zinc_system_axioms sample_builder sample_facts(4) this]
  show ?thesis by (simp add: sample_facts(3))
qed

end
