(* ===== verification/Poseidon_Hash.thy ===== *)
theory Poseidon_Hash
  imports Prelude Complex_Main
begin

text \<open>
  The Poseidon hash (\<open>poseidon/src/poseidon_hash.rs\<close>): the permutation and the sponge
  around it. The const generics \<open>T\<close> (width) and \<open>R\<close> (rate) and the functions of the
  trait \<open>Spec\<close> are the fields of a record; a state is a list of length \<open>T\<close>.
\<close>

section \<open>Parameters\<close>

record 'f spec =
  sp_T :: nat
  sp_R :: nat
  full_rounds :: nat
  partial_rounds :: nat
  sbox :: "'f \<Rightarrow> 'f"
  round_constants :: "'f list list"
  mds :: "'f list list"
  mds_inv :: "'f list list"

text \<open>The domain \<open>ConstantLength<L>\<close>; a rate of zero divides by zero.\<close>

definition initial_capacity_element :: "nat \<Rightarrow> 'f::field" where
  "initial_capacity_element L = of_nat (L * 2 ^ 64)"

definition div_ceil :: "nat \<Rightarrow> nat \<Rightarrow> nat option" where
  "div_ceil a b = (if b = 0 then panic else Some ((a + b - 1) div b))"

definition padding :: "nat \<Rightarrow> nat \<Rightarrow> nat \<Rightarrow> 'f::field list option" where
  "padding R L input_len = do {
     assert_ok (input_len = L);
     k \<leftarrow> div_ceil L R;
     Some (replicate (k * R - L) 0) }"

section \<open>The permutation\<close>

definition mix_layer :: "'f::field list list \<Rightarrow> 'f list \<Rightarrow> 'f list" where
  "mix_layer m state = map (\<lambda>row. foldl (\<lambda>acc (j, k). acc + j * k) 0 (zip row state)) m"

definition add_words :: "'f::field list \<Rightarrow> 'f list \<Rightarrow> 'f list" where
  "add_words state rcs = map2 (+) state rcs"

definition full_round :: "'f::field spec \<Rightarrow> 'f list \<Rightarrow> 'f list \<Rightarrow> 'f list" where
  "full_round S state rcs = mix_layer (mds S) (map (sbox S) (add_words state rcs))"

definition sbox_first :: "('f \<Rightarrow> 'f) \<Rightarrow> 'f list \<Rightarrow> 'f list" where
  "sbox_first s state = (case state of [] \<Rightarrow> [] | x # xs \<Rightarrow> s x # xs)"

definition part_round :: "'f::field spec \<Rightarrow> 'f list \<Rightarrow> 'f list \<Rightarrow> 'f list" where
  "part_round S state rcs = mix_layer (mds S) (sbox_first (sbox S) (add_words state rcs))"

definition permute :: "'f::field spec \<Rightarrow> 'f list \<Rightarrow> 'f list" where
  "permute S state =
     (let r_f = full_rounds S div 2; r_p = partial_rounds S; rcs = round_constants S;
          state1 = foldl (full_round S) state (take r_f rcs);
          state2 = foldl (part_round S) state1 (take r_p (drop r_f rcs)) in
      foldl (full_round S) state2 (drop (r_p + r_f) (take (r_p + 2 * r_f) rcs)))"

section \<open>The sponge\<close>

text \<open>
  The mode is the array of pending or available words; \<open>Sponge::new\<close> indexes the state at
  \<open>R\<close>.
\<close>

record 'f sponge =
  sg_mode :: "'f option list"
  sg_state :: "'f list"

definition Sponge_new :: "'f::field spec \<Rightarrow> 'f \<Rightarrow> 'f sponge option" where
  "Sponge_new S capacity = do {
     state \<leftarrow> vec_set (replicate (sp_T S) 0) (sp_R S) capacity;
     Some \<lparr>sg_mode = replicate (sp_R S) None, sg_state = state\<rparr> }"

text \<open>Adding the input to the first words: \<open>expect\<close> panics on a missing word.\<close>

fun add_input_words :: "'f::field list \<Rightarrow> 'f option list \<Rightarrow> 'f list option" where
  "add_input_words (w # ws) (v # vs) = do {
     x \<leftarrow> v;
     rest \<leftarrow> add_input_words ws vs;
     Some ((w + x) # rest) }"
| "add_input_words ws vs = Some ws"

definition poseidon_sponge ::
    "'f::field spec \<Rightarrow> 'f list \<Rightarrow> 'f option list option \<Rightarrow> ('f list \<times> 'f option list) option" where
  "poseidon_sponge S state input = do {
     state \<leftarrow> (case input of Some words \<Rightarrow> add_input_words state words | None \<Rightarrow> Some state);
     let state = permute S state;
     Some (state, take (sp_R S) (map Some state @ replicate (sp_R S) None)) }"

text \<open>The first empty entry takes the value.\<close>

fun fill_first :: "'f \<Rightarrow> 'f option list \<Rightarrow> 'f option list option" where
  "fill_first v [] = None"
| "fill_first v (None # es) = Some (Some v # es)"
| "fill_first v (Some e # es) = map_option ((#) (Some e)) (fill_first v es)"

text \<open>\<open>Absorbing::init_with\<close>; \<open>try_into\<close> fails for a rate of zero, whose list has one entry.\<close>

definition init_with :: "nat \<Rightarrow> 'f \<Rightarrow> 'f option list option" where
  "init_with R v = (let xs = Some v # replicate (R - 1) None in if length xs = R then Some xs else panic)"

definition absorb :: "'f::field spec \<Rightarrow> 'f \<Rightarrow> 'f sponge \<Rightarrow> 'f sponge option" where
  "absorb S value sg =
     (case fill_first value (sg_mode sg) of
        Some mode \<Rightarrow> Some (sg\<lparr>sg_mode := mode\<rparr>)
      | None \<Rightarrow> do {
          (state, _) \<leftarrow> poseidon_sponge S (sg_state sg) (Some (sg_mode sg));
          mode \<leftarrow> init_with (sp_R S) value;
          Some \<lparr>sg_mode = mode, sg_state = state\<rparr> })"

definition finish_absorbing :: "'f::field spec \<Rightarrow> 'f sponge \<Rightarrow> 'f sponge option" where
  "finish_absorbing S sg = do {
     (state, mode) \<leftarrow> poseidon_sponge S (sg_state sg) (Some (sg_mode sg));
     Some \<lparr>sg_mode = mode, sg_state = state\<rparr> }"

text \<open>\<open>Option::take\<close> on the first available entry.\<close>

fun take_first :: "'f option list \<Rightarrow> ('f \<times> 'f option list) option" where
  "take_first [] = None"
| "take_first (Some e # es) = Some (e, None # es)"
| "take_first (None # es) = map_option (\<lambda>(e, es'). (e, None # es')) (take_first es)"

text \<open>The loop of \<open>squeeze\<close>; it runs at most twice unless the rate is zero.\<close>

fun squeeze_loop :: "nat \<Rightarrow> 'f::field spec \<Rightarrow> 'f sponge \<Rightarrow> ('f \<times> 'f sponge) option" where
  "squeeze_loop 0 S sg = None"
| "squeeze_loop (Suc fuel) S sg =
     (case take_first (sg_mode sg) of
        Some (e, mode) \<Rightarrow> Some (e, sg\<lparr>sg_mode := mode\<rparr>)
      | None \<Rightarrow> do {
          (state, mode) \<leftarrow> poseidon_sponge S (sg_state sg) None;
          squeeze_loop fuel S \<lparr>sg_mode = mode, sg_state = state\<rparr> })"

definition squeeze :: "'f::field spec \<Rightarrow> 'f sponge \<Rightarrow> ('f \<times> 'f sponge) option" where
  "squeeze S sg = squeeze_loop 2 S sg"

section \<open>The hash\<close>

definition Hash_init :: "'f::field spec \<Rightarrow> nat \<Rightarrow> 'f sponge option" where
  "Hash_init S L = Sponge_new S (initial_capacity_element L)"

definition hash_message :: "'f::field spec \<Rightarrow> nat \<Rightarrow> 'f list \<Rightarrow> 'f sponge \<Rightarrow> 'f option" where
  "hash_message S L message sg = do {
     pad \<leftarrow> padding (sp_R S) L L;
     sg \<leftarrow> loop_m (absorb S) (message @ pad) sg;
     sg \<leftarrow> finish_absorbing S sg;
     (e, _) \<leftarrow> squeeze S sg;
     Some e }"

definition poseidon_hash :: "'f::field spec \<Rightarrow> 'f list \<Rightarrow> 'f option" where
  "poseidon_hash S message = do {
     sg \<leftarrow> Hash_init S (length message);
     hash_message S (length message) message sg }"

section \<open>The reference\<close>

text \<open>Blocks of \<open>R\<close> words are added to the state, with a permutation after each.\<close>

fun blocks :: "nat \<Rightarrow> 'f list \<Rightarrow> 'f list list" where
  "blocks R xs = (if R = 0 \<or> length xs \<le> R then [xs] else take R xs # blocks R (drop R xs))"

declare blocks.simps [simp del]

definition absorb_block :: "'f::field spec \<Rightarrow> 'f list \<Rightarrow> 'f list \<Rightarrow> 'f list" where
  "absorb_block S state block = permute S (map2 (+) (take (length block) state) block @ drop (length block) state)"

definition padded :: "nat \<Rightarrow> 'f::field list \<Rightarrow> 'f list" where
  "padded R message = message @ replicate ((length message + R - 1) div R * R - length message) 0"

definition initial_state_words :: "'f::field spec \<Rightarrow> nat \<Rightarrow> 'f list" where
  "initial_state_words S L = (replicate (sp_T S) 0)[sp_R S := initial_capacity_element L]"

definition block_hash :: "'f::field spec \<Rightarrow> 'f list \<Rightarrow> 'f" where
  "block_hash S message =
     hd (foldl (absorb_block S) (initial_state_words S (length message)) (blocks (sp_R S) (padded (sp_R S) message)))"

section \<open>The sponge absorbs blocks\<close>

text \<open>A pending mode: some words, then empty entries.\<close>

definition pending :: "nat \<Rightarrow> 'f list \<Rightarrow> 'f option list" where
  "pending R ws = map Some ws @ replicate (R - length ws) None"

lemma fill_first_pending:
  "fill_first v (pending R ws) = (if length ws < R then Some (pending R (ws @ [v])) else None)"
proof -
  have "fill_first v (map Some ws @ es) = map_option (\<lambda>es'. map Some ws @ es') (fill_first v es)" for es
    by (induction ws) (auto simp: option.map_comp o_def option.map_ident)
  note fill = this
  from fill [of "[]"] have "fill_first v (map Some ws) = None" by simp
  moreover have "R - length ws = Suc (R - Suc (length ws))" if "length ws < R" using that by simp
  ultimately show ?thesis using fill by (cases "length ws < R") (auto simp: pending_def)
qed

lemma add_input_words_pending:
  assumes "length ws = R" "R \<le> length state"
  shows "add_input_words state (pending R ws) = Some (map2 (+) (take R state) ws @ drop R state)"
proof -
  have "add_input_words state (map Some ws) = Some (map2 (+) (take (length ws) state) ws @ drop (length ws) state)"
    if "length ws \<le> length state" for state :: "'a list"
    using that
  proof (induction ws arbitrary: state)
    case (Cons w ws)
    then show ?case by (cases state) auto
  next
    case Nil
    then show ?case by (cases state) simp_all
  qed
  from this [of state] show ?thesis using assms by (simp add: pending_def)
qed

lemma add_input_words_missing:
  assumes "length ws < R" "R \<le> length state"
  shows "add_input_words state (pending R ws) = None"
proof -
  have "add_input_words state (map Some ws @ None # es) = None" if "length ws < length state" for state :: "'a list" and es
    using that
  proof (induction ws arbitrary: state)
    case (Cons w ws)
    then show ?case by (cases state) auto
  next
    case Nil
    then show ?case by (cases state) simp_all
  qed
  from this [of state "replicate (R - Suc (length ws)) None"] assms show ?thesis
    by (simp add: pending_def Suc_diff_Suc flip: replicate_Suc)
qed

definition spec_ok :: "'f::field spec \<Rightarrow> bool" where
  "spec_ok S \<longleftrightarrow> 0 < sp_R S \<and> sp_R S < sp_T S \<and> length (mds S) = sp_T S \<and>
     (\<forall>row \<in> set (mds S). length row = sp_T S) \<and> (\<forall>rc \<in> set (round_constants S). length rc = sp_T S)"

lemma length_rounds:
  assumes "spec_ok S"
  shows "length (full_round S st rc) = sp_T S" "length (part_round S st rc) = sp_T S"
  using assms by (simp_all add: full_round_def part_round_def mix_layer_def spec_ok_def)

lemma length_fold_rounds:
  assumes "\<And>st rc. length (f st rc) = n" "length st = n"
  shows "length (foldl f st rcs) = n"
  using assms by (induction rcs arbitrary: st) simp_all

lemma length_permute:
  assumes "spec_ok S" "length st = sp_T S"
  shows "length (permute S st) = sp_T S"
  unfolding permute_def Let_def
  by (intro length_fold_rounds length_rounds [OF assms(1)] assms(2))

lemma length_absorb_block:
  assumes "spec_ok S" "length st = sp_T S" "length b \<le> sp_T S"
  shows "length (absorb_block S st b) = sp_T S"
  unfolding absorb_block_def by (intro length_permute assms(1)) (use assms in simp)

lemma poseidon_sponge_block:
  assumes "spec_ok S" "length st = sp_T S" "length ws = sp_R S"
  shows "poseidon_sponge S st (Some (pending (sp_R S) ws)) = Some (absorb_block S st ws,
    take (sp_R S) (map Some (absorb_block S st ws) @ replicate (sp_R S) None))"
proof -
  have "sp_R S \<le> length st" using assms by (simp add: spec_ok_def)
  from add_input_words_pending [OF assms(3) this] show ?thesis
    by (simp add: poseidon_sponge_def absorb_block_def assms(3) Let_def)
qed

lemma absorb_pending:
  assumes ok: "spec_ok S" and st: "length st = sp_T S" and ws: "length ws \<le> sp_R S"
  shows "absorb S v \<lparr>sg_mode = pending (sp_R S) ws, sg_state = st\<rparr> =
    Some (if length ws < sp_R S then \<lparr>sg_mode = pending (sp_R S) (ws @ [v]), sg_state = st\<rparr>
      else \<lparr>sg_mode = pending (sp_R S) [v], sg_state = absorb_block S st ws\<rparr>)"
proof (cases "length ws < sp_R S")
  case True
  then show ?thesis by (simp add: absorb_def fill_first_pending)
next
  case False
  then have len: "length ws = sp_R S" using ws by simp
  have "0 < sp_R S" using ok by (simp add: spec_ok_def)
  then have "init_with (sp_R S) v = Some (pending (sp_R S) [v])"
    by (simp add: init_with_def pending_def)
  then show ?thesis using len by (simp add: absorb_def fill_first_pending poseidon_sponge_block [OF ok st len])
qed

text \<open>Absorbing a whole number of blocks leaves the last one pending.\<close>

lemma blocks_short: "length xs \<le> R \<Longrightarrow> blocks R xs = [xs]"
  by (subst blocks.simps) simp

lemma blocks_long: "0 < R \<Longrightarrow> R < length xs \<Longrightarrow> blocks R xs = take R xs # blocks R (drop R xs)"
  by (subst blocks.simps) simp

lemma absorb_all:
  assumes ok: "spec_ok S" and "length st = sp_T S" "length ws \<le> sp_R S"
  shows "loop_m (absorb S) vs \<lparr>sg_mode = pending (sp_R S) ws, sg_state = st\<rparr> =
    Some \<lparr>sg_mode = pending (sp_R S) (last (blocks (sp_R S) (ws @ vs))),
      sg_state = foldl (absorb_block S) st (butlast (blocks (sp_R S) (ws @ vs)))\<rparr>"
  using assms(2,3)
proof (induction vs arbitrary: st ws)
  case Nil
  then show ?case by (simp add: blocks_short)
next
  case (Cons v vs)
  have R: "0 < sp_R S" "sp_R S < sp_T S" using ok by (simp_all add: spec_ok_def)
  show ?case
  proof (cases "length ws < sp_R S")
    case True
    with Cons show ?thesis by (simp add: absorb_pending [OF ok])
  next
    case False
    then have len: "length ws = sp_R S" using Cons.prems by simp
    then have b: "blocks (sp_R S) (ws @ v # vs) = ws # blocks (sp_R S) (v # vs)"
      using R(1) by (subst blocks_long) simp_all
    have ne: "blocks (sp_R S) (v # vs) \<noteq> []" by (subst blocks.simps) simp
    have st': "length (absorb_block S st ws) = sp_T S"
      using len R(2) Cons.prems by (intro length_absorb_block [OF ok]) simp_all
    have "length [v] \<le> sp_R S" using R(1) by simp
    with Cons.IH [OF st' this] Cons.prems False ne show ?thesis
      by (simp add: absorb_pending [OF ok] b)
  qed
qed


lemma blocks_full:
  assumes "0 < R" "xs \<noteq> []" "R dvd length xs"
  shows "\<forall>b \<in> set (blocks R xs). length b = R"
  using assms
proof (induction R xs rule: blocks.induct)
  case (1 R xs)
  show ?case
  proof (cases "length xs \<le> R")
    case True
    moreover have "R \<le> length xs" using 1(3,4) by (intro dvd_imp_le) simp_all
    ultimately show ?thesis by (simp add: blocks_short)
  next
    case False
    then have "drop R xs \<noteq> []" "R dvd length (drop R xs)" using 1(4) by simp_all
    moreover have "\<not> (R = 0 \<or> length xs \<le> R)" using False 1(2) by simp
    ultimately have "\<forall>b \<in> set (blocks R (drop R xs)). length b = R" using 1(1) 1(2) by blast
    moreover have "blocks R xs = take R xs # blocks R (drop R xs)" using False 1(2) by (intro blocks_long) simp_all
    ultimately show ?thesis using False by simp
  qed
qed

lemma length_padded:
  fixes message :: "'f::field list"
  assumes "0 < R" "message \<noteq> []"
  shows "R dvd length (padded R message)" "padded R message \<noteq> []"
proof -
  let ?n = "length message"
  have "?n \<le> (?n + R - 1) div R * R"
  proof -
    have "?n + R - 1 = (?n + R - 1) div R * R + (?n + R - 1) mod R" by simp
    moreover have "(?n + R - 1) mod R < R" using assms(1) by simp
    ultimately show ?thesis by linarith
  qed
  then show "R dvd length (padded R message)" by (simp add: padded_def)
  show "padded R message \<noteq> []" using assms(2) by (simp add: padded_def)
qed

lemma sponge_start:
  assumes "spec_ok S"
  shows "Hash_init S L = Some \<lparr>sg_mode = pending (sp_R S) [], sg_state = initial_state_words S L\<rparr>"
  using assms by (simp add: Hash_init_def Sponge_new_def spec_ok_def pending_def initial_state_words_def)

lemma squeeze_available: "squeeze S \<lparr>sg_mode = Some e # es, sg_state = st\<rparr> = Some (e, \<lparr>sg_mode = None # es, sg_state = st\<rparr>)"
  by (simp add: squeeze_def numeral_2_eq_2)

lemma poseidon_hash_blocks:
  assumes ok: "spec_ok S" and ne: "message \<noteq> []"
  shows "poseidon_hash S message = Some (block_hash S message)"
proof -
  have R: "0 < sp_R S" "sp_R S < sp_T S" using ok by (simp_all add: spec_ok_def)
  let ?L = "length message" and ?st = "initial_state_words S (length message)"
  let ?bs = "blocks (sp_R S) (padded (sp_R S) message)"
  obtain pd where pad: "padding (sp_R S) ?L ?L = Some pd" "message @ pd = padded (sp_R S) message"
    using R by (simp add: padding_def div_ceil_def padded_def)
  have len: "length ?st = sp_T S" by (simp add: initial_state_words_def)
  have full: "\<forall>b \<in> set ?bs. length b = sp_R S" using blocks_full [OF R(1)] length_padded [OF R(1) ne] by blast
  have bs: "?bs \<noteq> []" by (subst blocks.simps) simp
  let ?last = "last ?bs" and ?st' = "foldl (absorb_block S) ?st (butlast ?bs)"
  have last: "length ?last = sp_R S" using full bs by simp
  have "length (foldl (absorb_block S) st bs) = sp_T S" if "\<forall>b \<in> set bs. length b = sp_R S" "length st = sp_T S" for st bs
    using that R(2) by (induction bs arbitrary: st) (simp_all add: length_absorb_block [OF ok])
  then have len': "length ?st' = sp_T S" using full len by (auto dest: in_set_butlastD)
  have absorbed: "loop_m (absorb S) (padded (sp_R S) message) \<lparr>sg_mode = pending (sp_R S) [], sg_state = ?st\<rparr> =
      Some \<lparr>sg_mode = pending (sp_R S) ?last, sg_state = ?st'\<rparr>"
    using absorb_all [OF ok len, of "[]"] by simp
  have fold: "absorb_block S ?st' ?last = foldl (absorb_block S) ?st ?bs"
    using bs by (metis append_butlast_last_id foldl_Cons foldl_Nil foldl_append)
  have len'': "length (absorb_block S ?st' ?last) = sp_T S"
    using last R(2) len' by (intro length_absorb_block [OF ok]) simp_all
  then obtain e es where e: "absorb_block S ?st' ?last = e # es" using R by (cases "absorb_block S ?st' ?last") auto
  have "finish_absorbing S \<lparr>sg_mode = pending (sp_R S) ?last, sg_state = ?st'\<rparr> =
      Some \<lparr>sg_mode = take (sp_R S) (map Some (e # es) @ replicate (sp_R S) None), sg_state = e # es\<rparr>"
    by (simp only: finish_absorbing_def sponge.select_convs poseidon_sponge_block [OF ok len' last] e
        Option.bind.simps prod.case)
  moreover obtain k where "sp_R S = Suc k" using R(1) by (cases "sp_R S") auto
  ultimately have "finish_absorbing S \<lparr>sg_mode = pending (sp_R S) ?last, sg_state = ?st'\<rparr> =
      Some \<lparr>sg_mode = Some e # take k (map Some es @ replicate (sp_R S) None), sg_state = e # es\<rparr>" by simp
  moreover have "hd (foldl (absorb_block S) ?st ?bs) = e" using fold e by (metis list.sel(1))
  ultimately show ?thesis
    using absorbed
    by (simp add: poseidon_hash_def hash_message_def sponge_start [OF ok] pad squeeze_available block_hash_def)
qed

lemma poseidon_hash_empty:
  assumes ok: "spec_ok S"
  shows "poseidon_hash S [] = None"
proof -
  have R: "0 < sp_R S" "sp_R S < sp_T S" using ok by (simp_all add: spec_ok_def)
  have "add_input_words (initial_state_words S 0) (pending (sp_R S) []) = None"
    using R by (intro add_input_words_missing) (simp_all add: initial_state_words_def)
  then show ?thesis
    using R by (simp add: poseidon_hash_def hash_message_def sponge_start [OF ok] padding_def div_ceil_def
        finish_absorbing_def poseidon_sponge_def)
qed


section \<open>Property\<close>

text \<open>
  C28: the sponge hashes a message of fixed length by absorbing the padded message block by
  block, one permutation per block, and returns the first word; the empty message panics,
  because nothing is absorbed before the first permutation.
\<close>

theorem poseidon_hash_exact:
  assumes "spec_ok S"
  shows "poseidon_hash S message = (if message = [] then None else Some (block_hash S message))"
  using poseidon_hash_blocks [OF assms] poseidon_hash_empty [OF assms] by simp

definition small_spec :: "'f::field spec" where
  "small_spec = \<lparr>sp_T = 3, sp_R = 2, full_rounds = 2, partial_rounds = 2, sbox = (\<lambda>x. x ^ 5),
     round_constants = [[1, 2, 3], [4, 5, 6], [7, 8, 9], [1, 0, 1]],
     mds = [[1, 0, 0], [0, 1, 0], [1, 0, 1]], mds_inv = [[1, 0, 0], [0, 1, 0], [- 1, 0, 1]]\<rparr>"

theorem poseidon_hash_exact_witness:
  "poseidon_hash small_spec [3, 4 :: rat] = Some (hd (permute small_spec [3, 4, 2 ^ 65]))"
proof -
  have ok: "spec_ok (small_spec :: rat spec)" by (simp add: spec_ok_def small_spec_def)
  have R: "sp_R (small_spec :: rat spec) = 2" by (simp add: small_spec_def)
  have b: "blocks 2 (padded 2 [3, 4 :: rat]) = [[3, 4]]" by (simp add: padded_def blocks_short)
  have "initial_state_words small_spec (length [3, 4 :: rat]) = [0, 0, 2 ^ 65 :: rat]"
    by (simp add: initial_state_words_def small_spec_def initial_capacity_element_def numeral_3_eq_3)
  then have "block_hash small_spec [3, 4 :: rat] = hd (absorb_block small_spec [0, 0, 2 ^ 65] [3, 4])"
    unfolding block_hash_def R b by simp
  also have "absorb_block small_spec [0, 0, 2 ^ 65 :: rat] [3, 4] = permute small_spec [3, 4, 2 ^ 65]"
    by (simp add: absorb_block_def)
  finally have "block_hash small_spec [3, 4 :: rat] = hd (permute small_spec [3, 4, 2 ^ 65])" .
  then show ?thesis using poseidon_hash_exact [OF ok, of "[3, 4]"] by simp
qed

end
