(* ===== verification/Poseidon_Circuit.thy ===== *)
theory Poseidon_Circuit
  imports Poseidon_Hash
begin

text \<open>
  The Poseidon chip (\<open>poseidon/src/circuit.rs\<close>, \<open>poseidon/src/gadgets.rs\<close>). Synthesis
  is read under an arbitrary assignment of the advice columns: every region takes its rows
  from the assignment, and what is threaded through is whether all gates and copy
  constraints hold so far. The fixed columns are set by the code.
\<close>

section \<open>Configuration and gates\<close>

record 'f poseidon_config =
  cf_T :: nat
  cf_R :: nat
  half_full_rounds :: nat
  half_partial_rounds :: nat
  cf_round_constants :: "'f list list"
  m_reg :: "'f list list"
  m_inv :: "'f list list"

definition configure :: "'f spec \<Rightarrow> 'f poseidon_config option" where
  "configure S = do {
     assert_ok (sp_R S = sp_T S - 1);
     assert_ok (even (full_rounds S));
     assert_ok (even (partial_rounds S));
     Some \<lparr>cf_T = sp_T S, cf_R = sp_R S, half_full_rounds = full_rounds S div 2,
       half_partial_rounds = partial_rounds S div 2, cf_round_constants = round_constants S,
       m_reg = mds S, m_inv = mds_inv S\<rparr> }"

record 'f advice =
  ad_state :: "'f list"
  ad_partial_sbox :: 'f

record 'f fixed =
  sel_full_round :: 'f
  sel_partial_round :: 'f
  sel_pad_and_add :: 'f
  rc_a :: "'f list"
  rc_b :: "'f list"

definition pow_5 :: "'f::field \<Rightarrow> 'f" where
  "pow_5 v = (let v2 = v * v in v2 * v2 * v)"

definition full_round_gate :: "'f::field poseidon_config \<Rightarrow> 'f fixed \<Rightarrow> 'f advice \<Rightarrow> 'f advice \<Rightarrow> 'f list" where
  "full_round_gate C fx cur next = map (\<lambda>next_idx.
     sel_full_round fx * (sum_list (map (\<lambda>idx. pow_5 (ad_state cur ! idx + rc_a fx ! idx)
         * m_reg C ! next_idx ! idx) [0..<cf_T C]) - ad_state next ! next_idx)) [0..<cf_T C]"

definition gate_mid :: "'f::field poseidon_config \<Rightarrow> 'f fixed \<Rightarrow> 'f advice \<Rightarrow> nat \<Rightarrow> 'f" where
  "gate_mid C fx cur idx = foldl (\<lambda>acc cur_idx. acc
       + (ad_state cur ! cur_idx + rc_a fx ! cur_idx) * m_reg C ! idx ! cur_idx)
     (ad_partial_sbox cur * m_reg C ! idx ! 0) [1..<cf_T C]"

definition gate_next :: "'f::field poseidon_config \<Rightarrow> 'f advice \<Rightarrow> nat \<Rightarrow> 'f" where
  "gate_next C next idx = sum_list (map (\<lambda>next_idx. ad_state next ! next_idx * m_inv C ! idx ! next_idx) [0..<cf_T C])"

definition partial_rounds_gate :: "'f::field poseidon_config \<Rightarrow> 'f fixed \<Rightarrow> 'f advice \<Rightarrow> 'f advice \<Rightarrow> 'f list" where
  "partial_rounds_gate C fx cur next = map ((*) (sel_partial_round fx))
     ([pow_5 (ad_state cur ! 0 + rc_a fx ! 0) - ad_partial_sbox cur,
       pow_5 (gate_mid C fx cur 0 + rc_b fx ! 0) - gate_next C next 0]
      @ map (\<lambda>idx. gate_mid C fx cur idx + rc_b fx ! idx - gate_next C next idx) [1..<cf_T C])"

definition pad_and_add_gate ::
    "'f::field poseidon_config \<Rightarrow> 'f fixed \<Rightarrow> 'f advice \<Rightarrow> 'f advice \<Rightarrow> 'f advice \<Rightarrow> 'f list" where
  "pad_and_add_gate C fx prev cur next = map ((*) (sel_pad_and_add fx))
     (map (\<lambda>idx. ad_state prev ! idx + ad_state cur ! idx - ad_state next ! idx) [0..<cf_R C]
      @ [ad_state prev ! cf_R C - ad_state next ! cf_R C])"

section \<open>Regions\<close>

definition blank_advice :: "'f::field poseidon_config \<Rightarrow> 'f advice" where
  "blank_advice C = \<lparr>ad_state = replicate (cf_T C) 0, ad_partial_sbox = 0\<rparr>"

definition region_holds :: "'f::field poseidon_config \<Rightarrow> 'f fixed list \<Rightarrow> 'f advice list \<Rightarrow> bool" where
  "region_holds C fxs ads \<longleftrightarrow> length ads = length fxs \<and> (\<forall>a \<in> set ads. length (ad_state a) = cf_T C) \<and>
     (\<forall>i < length fxs.
       let fx = fxs ! i; cur = ads ! i;
           prev = (if i = 0 then blank_advice C else ads ! (i - 1));
           next = (if Suc i < length ads then ads ! Suc i else blank_advice C) in
       \<forall>e \<in> set (full_round_gate C fx cur next @ partial_rounds_gate C fx cur next
         @ pad_and_add_gate C fx prev cur next). e = 0)"

text \<open>The regions still to come, and whether everything holds so far.\<close>

type_synonym 'f synth = "'f advice list list \<times> bool"

definition next_region :: "'f synth \<Rightarrow> 'f advice list \<times> 'f synth" where
  "next_region sy = (case fst sy of [] \<Rightarrow> ([], ([], False)) | r # rs \<Rightarrow> (r, (rs, snd sy)))"

definition require :: "bool \<Rightarrow> 'f synth \<Rightarrow> 'f synth" where
  "require b sy = (fst sy, snd sy \<and> b)"

definition no_gates :: "'f::field poseidon_config \<Rightarrow> 'f fixed" where
  "no_gates C = \<lparr>sel_full_round = 0, sel_partial_round = 0, sel_pad_and_add = 0,
     rc_a = replicate (cf_T C) 0, rc_b = replicate (cf_T C) 0\<rparr>"

text \<open>\<open>initial_state\<close>: the words are constrained to constants.\<close>

definition chip_initial_state :: "'f::field poseidon_config \<Rightarrow> nat \<Rightarrow> 'f synth \<Rightarrow> 'f list \<times> 'f synth" where
  "chip_initial_state C L sy =
     (let (ads, sy) = next_region sy; state = ad_state (ads ! 0) in
      (state, require (region_holds C [no_gates C] ads
         \<and> take (Suc (cf_R C)) state = replicate (cf_R C) 0 @ [initial_capacity_element L]) sy))"

text \<open>\<open>add_input\<close>.\<close>

datatype 'f padded_word = Message 'f | Padding 'f

definition word_value :: "'f padded_word \<Rightarrow> 'f" where
  "word_value w = (case w of Message x \<Rightarrow> x | Padding x \<Rightarrow> x)"

definition chip_add_input ::
    "'f::field poseidon_config \<Rightarrow> 'f list \<Rightarrow> 'f padded_word option list \<Rightarrow> 'f synth \<Rightarrow> ('f list \<times> 'f synth) option" where
  "chip_add_input C initial_state input sy = do {
     words \<leftarrow> those (take (cf_R C) input);
     let (ads, sy) = next_region sy;
     let pad = map (\<lambda>i. case words ! i of Padding p \<Rightarrow> p | Message _ \<Rightarrow> 0) [0..<cf_R C];
     let fx = (no_gates C)\<lparr>sel_pad_and_add := 1, rc_b := pad @ drop (cf_R C) (rc_b (no_gates C))\<rparr>;
     Some (ad_state (ads ! 2),
       require (region_holds C [no_gates C, fx, no_gates C] ads
         \<and> take (cf_T C) (ad_state (ads ! 0)) = initial_state
         \<and> take (cf_R C) (ad_state (ads ! 1)) = map word_value words) sy) }"

text \<open>\<open>permute\<close>: the rows of the rounds, with their constants, and the row of the result.\<close>

definition full_row :: "'f::field poseidon_config \<Rightarrow> nat \<Rightarrow> 'f fixed option" where
  "full_row C rnd = do {
     rc \<leftarrow> vec_get (cf_round_constants C) rnd;
     Some ((no_gates C)\<lparr>sel_full_round := 1, rc_a := rc\<rparr>) }"

definition partial_row :: "'f::field poseidon_config \<Rightarrow> nat \<Rightarrow> 'f fixed option" where
  "partial_row C rnd = do {
     rc \<leftarrow> vec_get (cf_round_constants C) rnd;
     rc' \<leftarrow> vec_get (cf_round_constants C) (Suc rnd);
     Some ((no_gates C)\<lparr>sel_partial_round := 1, rc_a := rc, rc_b := rc'\<rparr>) }"

definition permute_fixed :: "'f::field poseidon_config \<Rightarrow> 'f fixed list option" where
  "permute_fixed C = do {
     a \<leftarrow> those (map (full_row C) [0..<half_full_rounds C]);
     b \<leftarrow> those (map (\<lambda>r. partial_row C (half_full_rounds C + 2 * r)) [0..<half_partial_rounds C]);
     c \<leftarrow> those (map (\<lambda>r. full_row C (half_full_rounds C + 2 * half_partial_rounds C + r)) [0..<half_full_rounds C]);
     Some (a @ b @ c @ [no_gates C]) }"

definition chip_permute :: "'f::field poseidon_config \<Rightarrow> 'f list \<Rightarrow> 'f synth \<Rightarrow> ('f list \<times> 'f synth) option" where
  "chip_permute C initial_state sy = do {
     fxs \<leftarrow> permute_fixed C;
     let (ads, sy) = next_region sy;
     Some (ad_state (last ads),
       require (region_holds C fxs ads \<and> ad_state (hd ads) = initial_state) sy) }"

section \<open>The sponge of the gadget\<close>

record 'f chip_sponge =
  cs_mode :: "'f padded_word option list"
  cs_state :: "'f list"

definition chip_poseidon_sponge ::
    "'f::field poseidon_config \<Rightarrow> 'f list \<Rightarrow> 'f padded_word option list option \<Rightarrow> 'f synth \<Rightarrow>
     ('f list \<times> 'f option list \<times> 'f synth) option" where
  "chip_poseidon_sponge C state input sy = do {
     (state, sy) \<leftarrow> (case input of Some words \<Rightarrow> chip_add_input C state words sy | None \<Rightarrow> Some (state, sy));
     (state, sy) \<leftarrow> chip_permute C state sy;
     Some (state, map Some (take (cf_R C) state), sy) }"

definition chip_sponge_new :: "'f::field poseidon_config \<Rightarrow> nat \<Rightarrow> 'f synth \<Rightarrow> 'f chip_sponge \<times> 'f synth" where
  "chip_sponge_new C L sy =
     (let (state, sy) = chip_initial_state C L sy in
      (\<lparr>cs_mode = replicate (cf_R C) None, cs_state = state\<rparr>, sy))"

definition chip_absorb ::
    "'f::field poseidon_config \<Rightarrow> 'f padded_word \<Rightarrow> 'f chip_sponge \<times> 'f synth \<Rightarrow> ('f chip_sponge \<times> 'f synth) option" where
  "chip_absorb C value s =
     (case fill_first value (cs_mode (fst s)) of
        Some mode \<Rightarrow> Some ((fst s)\<lparr>cs_mode := mode\<rparr>, snd s)
      | None \<Rightarrow> do {
          (state, _, sy) \<leftarrow> chip_poseidon_sponge C (cs_state (fst s)) (Some (cs_mode (fst s))) (snd s);
          mode \<leftarrow> init_with (cf_R C) value;
          Some (\<lparr>cs_mode = mode, cs_state = state\<rparr>, sy) })"

fun chip_squeeze_loop ::
    "nat \<Rightarrow> 'f::field poseidon_config \<Rightarrow> 'f list \<Rightarrow> 'f option list \<Rightarrow> 'f synth \<Rightarrow> ('f \<times> 'f synth) option" where
  "chip_squeeze_loop 0 C state mode sy = None"
| "chip_squeeze_loop (Suc fuel) C state mode sy =
     (case take_first mode of
        Some (e, _) \<Rightarrow> Some (e, sy)
      | None \<Rightarrow> do {
          (state, mode, sy) \<leftarrow> chip_poseidon_sponge C state None sy;
          chip_squeeze_loop fuel C state mode sy })"

definition chip_hash :: "'f::field poseidon_config \<Rightarrow> 'f list \<Rightarrow> 'f synth \<Rightarrow> ('f \<times> 'f synth) option" where
  "chip_hash C message sy = do {
     pad \<leftarrow> padding (cf_R C) (length message) (length message);
     (sg, sy) \<leftarrow> loop_m (chip_absorb C) (map Message message @ map Padding pad)
       (chip_sponge_new C (length message) sy);
     (state, mode, sy) \<leftarrow> chip_poseidon_sponge C (cs_state sg) (Some (cs_mode sg)) sy;
     chip_squeeze_loop 2 C state mode sy }"


section \<open>The assigned values\<close>

text \<open>\<open>PoseidonState::full_round\<close> and \<open>partial_round\<close>: the next state, and the partial S-box.\<close>

definition full_round_values :: "'f::field poseidon_config \<Rightarrow> nat \<Rightarrow> 'f list \<Rightarrow> 'f list option" where
  "full_round_values C rnd st = do {
     rc \<leftarrow> vec_get (cf_round_constants C) rnd;
     let r = map (\<lambda>q. q ^ 5) (map2 (+) st rc);
     Some (map (\<lambda>m_i. foldl (\<lambda>acc (j, r_j). acc + m_i ! j * r_j) 0 (enumerate 0 r)) (m_reg C)) }"

definition partial_round_values :: "'f::field poseidon_config \<Rightarrow> nat \<Rightarrow> 'f list \<Rightarrow> ('f \<times> 'f list) option" where
  "partial_round_values C rnd p = do {
     rc \<leftarrow> vec_get (cf_round_constants C) rnd;
     let r = (hd p + hd rc) ^ 5 # map2 (+) (tl p) (tl rc);
     let p_mid = map (\<lambda>m_i. foldl (\<lambda>acc (m_ij, r_j). acc + m_ij * r_j) 0 (zip m_i r)) (m_reg C);
     rc' \<leftarrow> vec_get (cf_round_constants C) (Suc rnd);
     let r_mid = (hd p_mid + hd rc') ^ 5 # map2 (+) (tl p_mid) (tl rc');
     Some (hd r, map (\<lambda>m_i. foldl (\<lambda>acc (m_ij, r_j). acc + m_ij * r_j) 0 (zip m_i r_mid)) (m_reg C)) }"

definition full_round_assign ::
    "'f::field poseidon_config \<Rightarrow> nat \<Rightarrow> 'f advice list \<times> 'f list \<Rightarrow> ('f advice list \<times> 'f list) option" where
  "full_round_assign C rnd = (\<lambda>(rows, st). do {
     st' \<leftarrow> full_round_values C rnd st;
     Some (rows @ [\<lparr>ad_state = st, ad_partial_sbox = 0\<rparr>], st') })"

definition partial_round_assign ::
    "'f::field poseidon_config \<Rightarrow> nat \<Rightarrow> 'f advice list \<times> 'f list \<Rightarrow> ('f advice list \<times> 'f list) option" where
  "partial_round_assign C rnd = (\<lambda>(rows, st). do {
     (p, st') \<leftarrow> partial_round_values C rnd st;
     Some (rows @ [\<lparr>ad_state = st, ad_partial_sbox = p\<rparr>], st') })"

definition permute_assign :: "'f::field poseidon_config \<Rightarrow> 'f list \<Rightarrow> 'f advice list option" where
  "permute_assign C st = do {
     s \<leftarrow> loop_m (full_round_assign C) [0..<half_full_rounds C] ([], st);
     s \<leftarrow> loop_m (\<lambda>r. partial_round_assign C (half_full_rounds C + 2 * r)) [0..<half_partial_rounds C] s;
     (rows, st) \<leftarrow> loop_m (\<lambda>r. full_round_assign C (half_full_rounds C + 2 * half_partial_rounds C + r))
       [0..<half_full_rounds C] s;
     Some (rows @ [\<lparr>ad_state = st, ad_partial_sbox = 0\<rparr>]) }"

text \<open>The rows of the input region and of the initial state.\<close>

definition add_input_assign :: "'f::field poseidon_config \<Rightarrow> 'f list \<Rightarrow> 'f list \<Rightarrow> 'f advice list" where
  "add_input_assign C st vals =
     [\<lparr>ad_state = st, ad_partial_sbox = 0\<rparr>,
      \<lparr>ad_state = vals @ replicate (cf_T C - cf_R C) 0, ad_partial_sbox = 0\<rparr>,
      \<lparr>ad_state = map2 (+) st (vals @ replicate (cf_T C - cf_R C) 0), ad_partial_sbox = 0\<rparr>]"

definition initial_state_assign :: "'f::field poseidon_config \<Rightarrow> nat \<Rightarrow> 'f advice list" where
  "initial_state_assign C L =
     [\<lparr>ad_state = replicate (cf_R C) 0 @ [initial_capacity_element L], ad_partial_sbox = 0\<rparr>]"

end
