(* ===== verification/Poseidon_Chip.thy ===== *)
theory Poseidon_Chip
  imports Poseidon_Circuit
begin

text \<open>
  The gates of the Poseidon chip are the rounds of the permutation: an enabled row relates
  its state and the next exactly as the round does, two partial rounds at a time through the
  inverse matrix.
\<close>

section \<open>Vectors\<close>

lemma foldl_add_sum: "foldl (\<lambda>acc x. acc + f x) (a :: 'f::field) xs = a + sum_list (map f xs)"
  by (induction xs arbitrary: a) (simp_all add: add.assoc)

lemma sum_list_upt: "sum_list (map f [0..<n]) = (\<Sum>i<n. f i :: 'f::field)"
  by (simp add: interv_sum_list_conv_sum_set_nat atLeast0LessThan)

lemma foldl_zip_sum:
  assumes "length xs = n" "length ys = n"
  shows "foldl (\<lambda>acc (j, k). acc + j * k) 0 (zip xs ys) = (\<Sum>i<n. xs ! i * ys ! i :: 'f::field)"
proof -
  have "foldl (\<lambda>acc (j, k). acc + j * k) 0 (zip xs ys) = sum_list (map (\<lambda>(j, k). j * k) (zip xs ys))"
    using foldl_add_sum [of "\<lambda>(j, k). j * k" 0 "zip xs ys"] by (simp add: split_def)
  also have "map (\<lambda>(j, k). j * k) (zip xs ys) = map (\<lambda>i. xs ! i * ys ! i) [0..<n]"
    using assms by (intro nth_equalityI) simp_all
  finally show ?thesis by (simp only: sum_list_upt)
qed

lemma mix_layer_nth:
  assumes "i < length m" "length (m ! i) = n" "length v = n"
  shows "mix_layer m v ! i = (\<Sum>j<n. m ! i ! j * v ! j)"
  using assms by (simp add: mix_layer_def foldl_zip_sum)

definition is_inverse :: "nat \<Rightarrow> 'f::field list list \<Rightarrow> 'f list list \<Rightarrow> bool" where
  "is_inverse n A B \<longleftrightarrow> (\<forall>i<n. \<forall>k<n. (\<Sum>j<n. A ! i ! j * B ! j ! k) = of_bool (i = k))"

lemma sum_unit: "(i :: nat) < n \<Longrightarrow> (\<Sum>k<n. of_bool (i = k) * f k) = (f i :: 'f::field)"
proof -
  assume i: "i < n"
  have "(\<Sum>k<n. of_bool (i = k) * f k) = (\<Sum>k<n. if k = i then f k else 0)" by (intro sum.cong) auto
  with i show ?thesis by simp
qed

lemma inverse_apply:
  fixes v :: "nat \<Rightarrow> 'f::field"
  assumes "is_inverse n A B" "i < n"
  shows "(\<Sum>j<n. A ! i ! j * (\<Sum>k<n. B ! j ! k * v k)) = v i"
proof -
  have "(\<Sum>j<n. A ! i ! j * (\<Sum>k<n. B ! j ! k * v k)) = (\<Sum>j<n. \<Sum>k<n. A ! i ! j * B ! j ! k * v k)"
    by (simp add: sum_distrib_left mult.assoc)
  also have "\<dots> = (\<Sum>k<n. \<Sum>j<n. A ! i ! j * B ! j ! k * v k)" by (rule sum.swap)
  also have "\<dots> = (\<Sum>k<n. (\<Sum>j<n. A ! i ! j * B ! j ! k) * v k)" by (simp add: sum_distrib_right)
  also have "\<dots> = (\<Sum>k<n. of_bool (i = k) * v k)" using assms by (intro sum.cong) (simp_all add: is_inverse_def)
  finally show ?thesis using sum_unit [OF assms(2)] by metis
qed

section \<open>What the chip needs of its parameters\<close>

definition square :: "nat \<Rightarrow> 'f list list \<Rightarrow> bool" where
  "square n m \<longleftrightarrow> length m = n \<and> (\<forall>row \<in> set m. length row = n)"

definition chip_spec :: "'f::field spec \<Rightarrow> bool" where
  "chip_spec S \<longleftrightarrow> 0 < sp_R S \<and> sp_T S = Suc (sp_R S) \<and> even (full_rounds S) \<and> even (partial_rounds S) \<and>
     sbox S = (\<lambda>x. x ^ 5) \<and> square (sp_T S) (mds S) \<and> square (sp_T S) (mds_inv S) \<and>
     is_inverse (sp_T S) (mds S) (mds_inv S) \<and> is_inverse (sp_T S) (mds_inv S) (mds S) \<and>
     (\<forall>rc \<in> set (round_constants S). length rc = sp_T S) \<and>
     full_rounds S + partial_rounds S \<le> length (round_constants S)"

definition config_of :: "'f spec \<Rightarrow> 'f poseidon_config" where
  "config_of S = \<lparr>cf_T = sp_T S, cf_R = sp_R S, half_full_rounds = full_rounds S div 2,
       half_partial_rounds = partial_rounds S div 2, cf_round_constants = round_constants S,
       m_reg = mds S, m_inv = mds_inv S\<rparr>"

lemma configure_ok: "chip_spec S \<Longrightarrow> configure S = Some (config_of S)"
  by (simp add: chip_spec_def configure_def config_of_def)

lemma chip_spec_ok: "chip_spec S \<Longrightarrow> spec_ok S"
  by (simp add: chip_spec_def spec_ok_def square_def)

lemma pow_5: "pow_5 x = x ^ 5"
  by (simp add: pow_5_def Let_def numeral_eq_Suc mult.assoc)

section \<open>Gates are rounds\<close>

lemma square_nth: "square n m \<Longrightarrow> i < n \<Longrightarrow> length (m ! i) = n"
  by (auto simp: square_def)

lemma full_gate_iff:
  assumes S: "chip_spec S" and sel: "sel_full_round fx = 1"
    and len: "length (ad_state cur) = sp_T S" "length (ad_state next) = sp_T S" "length (rc_a fx) = sp_T S"
  shows "(\<forall>e \<in> set (full_round_gate (config_of S) fx cur next). e = 0) \<longleftrightarrow>
    ad_state next = full_round S (ad_state cur) (rc_a fx)"
proof -
  let ?n = "sp_T S"
  have sq: "square ?n (mds S)" and sb: "sbox S = (\<lambda>x. x ^ 5)" using S unfolding chip_spec_def by blast+
  have nth: "full_round S (ad_state cur) (rc_a fx) ! i =
      (\<Sum>j<?n. mds S ! i ! j * (ad_state cur ! j + rc_a fx ! j) ^ 5)" if "i < ?n" for i
  proof -
    have "full_round S (ad_state cur) (rc_a fx) ! i =
        (\<Sum>j<?n. mds S ! i ! j * map (sbox S) (add_words (ad_state cur) (rc_a fx)) ! j)"
      unfolding full_round_def
      by (rule mix_layer_nth) (use that sq len in \<open>simp_all add: square_def add_words_def\<close>)
    also have "\<dots> = (\<Sum>j<?n. mds S ! i ! j * (ad_state cur ! j + rc_a fx ! j) ^ 5)"
      by (rule sum.cong) (simp_all add: add_words_def len sb)
    finally show ?thesis .
  qed
  have "length (full_round S (ad_state cur) (rc_a fx)) = ?n"
    by (rule length_rounds(1) [OF chip_spec_ok [OF S]])
  then have "ad_state next = full_round S (ad_state cur) (rc_a fx) \<longleftrightarrow>
      (\<forall>i<?n. ad_state next ! i = (\<Sum>j<?n. mds S ! i ! j * (ad_state cur ! j + rc_a fx ! j) ^ 5))"
    using len nth by (auto simp: list_eq_iff_nth_eq)
  then show ?thesis
    by (auto simp: full_round_gate_def sel config_of_def sum_list_upt pow_5 mult.commute)
qed

lemma gate_mid_mix:
  assumes S: "chip_spec S" and idx: "idx < sp_T S"
    and len: "length (ad_state cur) = sp_T S" "length (rc_a fx) = sp_T S"
  shows "gate_mid (config_of S) fx cur idx =
    mix_layer (mds S) (ad_partial_sbox cur # tl (add_words (ad_state cur) (rc_a fx))) ! idx"
proof -
  obtain m where T: "sp_T S = Suc m" using S by (simp add: chip_spec_def)
  have sq: "square (sp_T S) (mds S)" using S unfolding chip_spec_def by blast
  let ?v = "ad_partial_sbox cur # tl (add_words (ad_state cur) (rc_a fx))"
  have v: "?v ! Suc j = ad_state cur ! Suc j + rc_a fx ! Suc j" if "j < m" for j
    using that len T by (simp add: add_words_def nth_tl)
  have "gate_mid (config_of S) fx cur idx = ad_partial_sbox cur * mds S ! idx ! 0 +
      sum_list (map (\<lambda>i. (ad_state cur ! i + rc_a fx ! i) * mds S ! idx ! i) (map Suc [0..<m]))"
    by (simp add: gate_mid_def config_of_def foldl_add_sum T map_Suc_upt)
  also have "\<dots> = ad_partial_sbox cur * mds S ! idx ! 0 +
      (\<Sum>j<m. (ad_state cur ! Suc j + rc_a fx ! Suc j) * mds S ! idx ! Suc j)"
    by (simp only: map_map o_def sum_list_upt)
  also have "\<dots> = (\<Sum>j<Suc m. mds S ! idx ! j * ?v ! j)"
    unfolding sum.lessThan_Suc_shift using v by (simp add: mult.commute)
  also have "\<dots> = mix_layer (mds S) ?v ! idx"
    by (rule mix_layer_nth [symmetric]) (use idx sq len T in \<open>auto simp: square_def add_words_def\<close>)
  finally show ?thesis .
qed

lemma gate_next_sum:
  "gate_next (config_of S) next idx = (\<Sum>j \<in> {..<sp_T S}. mds_inv S ! idx ! j * ad_state next ! j)"
  by (simp add: gate_next_def config_of_def sum_list_upt mult.commute)

text \<open>The inverse matrix recovers the words before the mixing.\<close>

lemma next_is_mix:
  assumes S: "chip_spec S" and len: "length v = sp_T S" "length (ad_state next) = sp_T S"
  shows "(\<forall>idx < sp_T S. gate_next (config_of S) next idx = v ! idx) \<longleftrightarrow> ad_state next = mix_layer (mds S) v"
proof -
  let ?n = "sp_T S"
  have sq: "square ?n (mds S)" and inv: "is_inverse ?n (mds S) (mds_inv S)" "is_inverse ?n (mds_inv S) (mds S)"
    using S unfolding chip_spec_def by blast+
  have nth: "mix_layer (mds S) v ! i = (\<Sum>j<?n. mds S ! i ! j * v ! j)" if "i < ?n" for i
    by (rule mix_layer_nth) (use that sq len in \<open>simp_all add: square_def\<close>)
  show ?thesis
  proof
    assume H: "\<forall>idx<?n. gate_next (config_of S) next idx = v ! idx"
    have "ad_state next ! i = (\<Sum>j<?n. mds S ! i ! j * v ! j)" if i: "i < ?n" for i
    proof -
      have "(\<Sum>j<?n. mds S ! i ! j * v ! j) =
          (\<Sum>j<?n. mds S ! i ! j * (\<Sum>k<?n. mds_inv S ! j ! k * ad_state next ! k))"
        using H by (intro sum.cong) (simp_all add: gate_next_sum)
      also have "\<dots> = ad_state next ! i" by (rule inverse_apply [OF inv(1) i])
      finally show ?thesis by simp
    qed
    then show "ad_state next = mix_layer (mds S) v"
      using nth len sq by (intro nth_equalityI) (simp_all add: mix_layer_def square_def)
  next
    assume H: "ad_state next = mix_layer (mds S) v"
    show "\<forall>idx<?n. gate_next (config_of S) next idx = v ! idx"
    proof (intro allI impI)
      fix i assume i: "i < ?n"
      have "gate_next (config_of S) next i = (\<Sum>j<?n. mds_inv S ! i ! j * (\<Sum>k<?n. mds S ! j ! k * v ! k))"
        unfolding gate_next_sum H by (intro sum.cong) (simp_all add: nth)
      also have "\<dots> = v ! i" by (rule inverse_apply [OF inv(2) i])
      finally show "gate_next (config_of S) next i = v ! i" .
    qed
  qed
qed

lemma sbox_first_Cons: "xs \<noteq> [] \<Longrightarrow> sbox_first s xs = s (hd xs) # tl xs"
  by (cases xs) (simp_all add: sbox_first_def)

lemma all_index_split: "(\<forall>i<Suc m. P i) \<longleftrightarrow> P 0 \<and> (\<forall>i \<in> {1..<Suc m}. P i)"
  by (auto simp: less_Suc_eq_0_disj)

lemma partial_gate_iff:
  assumes S: "chip_spec S" and sel: "sel_partial_round fx = 1"
    and len: "length (ad_state cur) = sp_T S" "length (ad_state next) = sp_T S"
      "length (rc_a fx) = sp_T S" "length (rc_b fx) = sp_T S"
  shows "(\<forall>e \<in> set (partial_rounds_gate (config_of S) fx cur next). e = 0) \<longleftrightarrow>
    ad_partial_sbox cur = (ad_state cur ! 0 + rc_a fx ! 0) ^ 5 \<and>
    ad_state next = part_round S (part_round S (ad_state cur) (rc_a fx)) (rc_b fx)"
proof -
  obtain m where T: "sp_T S = Suc m" using S by (simp add: chip_spec_def)
  have sq: "square (sp_T S) (mds S)" and sb: "sbox S = (\<lambda>x. x ^ 5)" using S unfolding chip_spec_def by blast+
  let ?C = "config_of S" and ?w = "add_words (ad_state cur) (rc_a fx)"
  have w: "?w \<noteq> []" "hd ?w = ad_state cur ! 0 + rc_a fx ! 0" "length ?w = sp_T S"
    using len T by (cases "ad_state cur"; cases "rc_a fx"; simp add: add_words_def)+
  let ?mid = "mix_layer (mds S) (ad_partial_sbox cur # tl ?w)"
  let ?v = "sbox_first (sbox S) (add_words ?mid (rc_b fx))"
  have lmid: "length ?mid = sp_T S" using sq by (simp add: mix_layer_def square_def)
  then have lw: "add_words ?mid (rc_b fx) \<noteq> []" "length (add_words ?mid (rc_b fx)) = sp_T S"
    using len T by (cases ?mid; cases "rc_b fx"; simp add: add_words_def)+
  have lv: "length ?v = sp_T S" using lw by (simp add: sbox_first_Cons T)
  have v: "?v ! 0 = pow_5 (gate_mid ?C fx cur 0 + rc_b fx ! 0)"
      "\<And>idx. idx \<in> {1..<Suc m} \<Longrightarrow> ?v ! idx = gate_mid ?C fx cur idx + rc_b fx ! idx"
    using lw len lmid T gate_mid_mix [OF S _ len(1,3)]
    by (auto simp: sbox_first_Cons sb pow_5 nth_tl add_words_def hd_conv_nth nth_Cons split: nat.splits)
  have "(\<forall>e \<in> set (partial_rounds_gate ?C fx cur next). e = 0) \<longleftrightarrow>
      ad_partial_sbox cur = (ad_state cur ! 0 + rc_a fx ! 0) ^ 5 \<and>
      gate_next ?C next 0 = pow_5 (gate_mid ?C fx cur 0 + rc_b fx ! 0) \<and>
      (\<forall>idx \<in> {1..<Suc m}. gate_next ?C next idx = gate_mid ?C fx cur idx + rc_b fx ! idx)"
    unfolding partial_rounds_gate_def sel using T
    by (auto simp: pow_5 config_of_def)
  also have "\<dots> \<longleftrightarrow> ad_partial_sbox cur = (ad_state cur ! 0 + rc_a fx ! 0) ^ 5 \<and>
      (\<forall>idx < sp_T S. gate_next ?C next idx = ?v ! idx)"
    unfolding T all_index_split using v by auto
  also have "\<dots> \<longleftrightarrow> ad_partial_sbox cur = (ad_state cur ! 0 + rc_a fx ! 0) ^ 5 \<and> ad_state next = mix_layer (mds S) ?v"
    by (simp only: next_is_mix [OF S lv len(2)])
  also have "\<dots> \<longleftrightarrow> ad_partial_sbox cur = (ad_state cur ! 0 + rc_a fx ! 0) ^ 5 \<and>
      ad_state next = part_round S (part_round S (ad_state cur) (rc_a fx)) (rc_b fx)"
    using w by (auto simp: part_round_def sbox_first_Cons sb)
  finally show ?thesis .
qed

end
