(* ===== verification/Poseidon_Permutation.thy ===== *)
theory Poseidon_Permutation
  imports Poseidon_Chip
begin

text \<open>
  The permute region: under the gates its rows are the states of the permutation, and the
  witness of \<open>PoseidonState\<close> satisfies them.
\<close>

section \<open>The permutation row by row\<close>

abbreviation hf :: "'f spec \<Rightarrow> nat" where "hf S \<equiv> full_rounds S div 2"
abbreviation hp :: "'f spec \<Rightarrow> nat" where "hp S \<equiv> partial_rounds S div 2"

definition num_rows :: "'f spec \<Rightarrow> nat" where
  "num_rows S = hf S + hp S + hf S"

definition row_step :: "'f::field spec \<Rightarrow> nat \<Rightarrow> 'f list \<Rightarrow> 'f list" where
  "row_step S i st = (let rcs = round_constants S in
     if i < hf S then full_round S st (rcs ! i)
     else if i < hf S + hp S then
       part_round S (part_round S st (rcs ! (hf S + 2 * (i - hf S)))) (rcs ! Suc (hf S + 2 * (i - hf S)))
     else full_round S st (rcs ! (hf S + 2 * hp S + (i - hf S - hp S))))"

lemma upt_split3: "[0..<a + b + c] = [0..<a] @ map ((+) a) [0..<b] @ map ((+) (a + b)) [0..<c]"
proof -
  have m: "map ((+) n) [0..<k] = [n..<n + k]" for n k
  proof -
    have "(+) n = (\<lambda>i. i + n)" by (simp add: fun_eq_iff)
    then show ?thesis using map_add_upt [of n k] by (simp add: add.commute)
  qed
  have "[0..<a + b + c] = [0..<a + b] @ [a + b..<a + b + c]" by (rule upt_add_eq_append) simp
  moreover have "[0..<a + b] = [0..<a] @ [a..<a + b]" by (rule upt_add_eq_append) simp
  ultimately show ?thesis by (simp only: m append_assoc)
qed

lemma foldl_take:
  assumes "n \<le> length xs"
  shows "foldl f st (take n xs) = foldl (\<lambda>st i. f st (xs ! i)) st [0..<n]"
proof -
  have "take n xs = map ((!) xs) [0..<n]" using assms by (intro nth_equalityI) simp_all
  then show ?thesis by (simp add: foldl_map)
qed

lemma foldl_take_pairs:
  assumes "2 * n \<le> length xs"
  shows "foldl f st (take (2 * n) xs) = foldl (\<lambda>st i. f (f st (xs ! (2 * i))) (xs ! Suc (2 * i))) st [0..<n]"
  using assms
proof (induction n)
  case (Suc n)
  have "take (2 * Suc n) xs = take (2 * n) xs @ [xs ! (2 * n), xs ! Suc (2 * n)]"
    using Suc.prems by (simp add: take_Suc_conv_app_nth)
  with Suc show ?case by simp
qed simp

lemma foldl_cong_upt:
  "(\<And>st i. i < n \<Longrightarrow> f st i = g st i) \<Longrightarrow> foldl f st [0..<n] = foldl g st [0..<n]"
  by (rule foldl_cong) simp_all

lemma permute_rows:
  assumes S: "chip_spec S"
  shows "permute S st = foldl (\<lambda>st i. row_step S i st) st [0..<num_rows S]"
proof -
  let ?rcs = "round_constants S"
  have ev: "full_rounds S = 2 * hf S" "partial_rounds S = 2 * hp S" and len: "2 * hf S + 2 * hp S \<le> length ?rcs"
    using S by (auto simp: chip_spec_def)
  let ?g = "\<lambda>st i. row_step S i st"
  have A: "foldl (full_round S) st (take (hf S) ?rcs) = foldl ?g st [0..<hf S]" for st
    using len by (subst foldl_take) (auto intro!: foldl_cong_upt simp: row_step_def Let_def)
  have B: "foldl (part_round S) st (take (2 * hp S) (drop (hf S) ?rcs)) = foldl ?g st (map ((+) (hf S)) [0..<hp S])" for st
    using len by (subst foldl_take_pairs) (auto intro!: foldl_cong_upt simp: row_step_def Let_def foldl_map)
  have C: "foldl (full_round S) st (take (hf S) (drop (2 * hp S + hf S) ?rcs)) =
      foldl ?g st (map ((+) (hf S + hp S)) [0..<hf S])" for st
    using len by (subst foldl_take) (auto intro!: foldl_cong_upt simp: row_step_def Let_def foldl_map add_ac)
  have "[0..<num_rows S] = [0..<hf S] @ map ((+) (hf S)) [0..<hp S] @ map ((+) (hf S + hp S)) [0..<hf S]"
    unfolding num_rows_def by (rule upt_split3)
  then have "foldl ?g st [0..<num_rows S] =
      foldl ?g (foldl ?g (foldl ?g st [0..<hf S]) (map ((+) (hf S)) [0..<hp S])) (map ((+) (hf S + hp S)) [0..<hf S])"
    by (simp only: foldl_append)
  moreover have "drop (2 * hp S + hf S) (take (2 * hp S + 2 * hf S) ?rcs) = take (hf S) (drop (2 * hp S + hf S) ?rcs)"
    by (simp add: drop_take)
  moreover have "permute S st = foldl (full_round S) (foldl (part_round S) (foldl (full_round S) st (take (hf S) ?rcs))
      (take (2 * hp S) (drop (hf S) ?rcs))) (drop (2 * hp S + hf S) (take (2 * hp S + 2 * hf S) ?rcs))"
    by (simp only: permute_def Let_def ev(2) [symmetric])
  ultimately show ?thesis by (simp only: A B C)
qed

section \<open>The fixed columns\<close>

definition row_fixed :: "'f::field spec \<Rightarrow> nat \<Rightarrow> 'f fixed" where
  "row_fixed S i = (let rcs = round_constants S; N = no_gates (config_of S) in
     if i < hf S then N\<lparr>sel_full_round := 1, rc_a := rcs ! i\<rparr>
     else if i < hf S + hp S then
       N\<lparr>sel_partial_round := 1, rc_a := rcs ! (hf S + 2 * (i - hf S)), rc_b := rcs ! Suc (hf S + 2 * (i - hf S))\<rparr>
     else N\<lparr>sel_full_round := 1, rc_a := rcs ! (hf S + 2 * hp S + (i - hf S - hp S))\<rparr>)"

lemma permute_fixed_rows:
  assumes S: "chip_spec S"
  shows "permute_fixed (config_of S) = Some (map (row_fixed S) [0..<num_rows S] @ [no_gates (config_of S)])"
proof -
  let ?C = "config_of S"
  have c: "half_full_rounds ?C = hf S" "half_partial_rounds ?C = hp S" "cf_round_constants ?C = round_constants S"
    by (simp_all add: config_of_def)
  have "full_rounds S = 2 * hf S" "partial_rounds S = 2 * hp S" and len0: "full_rounds S + partial_rounds S \<le> length (round_constants S)"
    using S unfolding chip_spec_def by (simp_all only: even_two_times_div_two)
  then have len: "2 * hf S + 2 * hp S \<le> length (round_constants S)" by linarith
  have "those (map (full_row ?C) [0..<hf S]) = Some (map (row_fixed S) [0..<hf S])"
    using len by (intro those_map_Some) (auto simp: full_row_def c row_fixed_def Let_def)
  moreover have "those (map (\<lambda>r. partial_row ?C (hf S + 2 * r)) [0..<hp S]) = Some (map (\<lambda>r. row_fixed S (hf S + r)) [0..<hp S])"
    using len by (intro those_map_Some) (auto simp: partial_row_def c row_fixed_def Let_def)
  moreover have "those (map (\<lambda>r. full_row ?C (hf S + 2 * hp S + r)) [0..<hf S]) =
      Some (map (\<lambda>r. row_fixed S (hf S + hp S + r)) [0..<hf S])"
    using len by (intro those_map_Some) (auto simp: full_row_def c row_fixed_def Let_def)
  moreover have "map (row_fixed S) [0..<num_rows S] = map (row_fixed S) [0..<hf S] @ map (\<lambda>r. row_fixed S (hf S + r)) [0..<hp S]
      @ map (\<lambda>r. row_fixed S (hf S + hp S + r)) [0..<hf S]"
    unfolding num_rows_def upt_split3 by (simp add: o_def)
  ultimately show ?thesis by (simp add: permute_fixed_def c)
qed

section \<open>Rows of the region\<close>

lemma disabled_gates:
  "sel_full_round fx = 0 \<Longrightarrow> e \<in> set (full_round_gate C fx cur next) \<Longrightarrow> e = 0"
  "sel_partial_round fx = 0 \<Longrightarrow> e \<in> set (partial_rounds_gate C fx cur next) \<Longrightarrow> e = 0"
  "sel_pad_and_add fx = 0 \<Longrightarrow> e \<in> set (pad_and_add_gate C fx prev cur next) \<Longrightarrow> e = 0"
  by (auto simp: full_round_gate_def partial_rounds_gate_def pad_and_add_gate_def)

lemma no_gates_hold:
  "e \<in> set (full_round_gate C (no_gates C) cur next @ partial_rounds_gate C (no_gates C) cur next
     @ pad_and_add_gate C (no_gates C) prev cur next) \<Longrightarrow> e = 0"
  by (auto simp: no_gates_def dest: disabled_gates [rotated])

definition sbox_of_row :: "'f::field spec \<Rightarrow> nat \<Rightarrow> 'f list \<Rightarrow> 'f \<Rightarrow> bool" where
  "sbox_of_row S i st p \<longleftrightarrow> (hf S \<le> i \<and> i < hf S + hp S \<longrightarrow>
     p = (st ! 0 + round_constants S ! (hf S + 2 * (i - hf S)) ! 0) ^ 5)"

lemma rc_length:
  assumes "chip_spec S" "i < full_rounds S + partial_rounds S"
  shows "length (round_constants S ! i) = sp_T S"
proof -
  have "i < length (round_constants S)" using assms unfolding chip_spec_def by linarith
  then show ?thesis using assms(1) unfolding chip_spec_def by (metis nth_mem)
qed

lemma row_gates_iff:
  assumes S: "chip_spec S" and i: "i < num_rows S"
    and len: "length (ad_state cur) = sp_T S" "length (ad_state next) = sp_T S"
  shows "(\<forall>e \<in> set (full_round_gate (config_of S) (row_fixed S i) cur next
      @ partial_rounds_gate (config_of S) (row_fixed S i) cur next
      @ pad_and_add_gate (config_of S) (row_fixed S i) prev cur next). e = 0) \<longleftrightarrow>
    ad_state next = row_step S i (ad_state cur) \<and> sbox_of_row S i (ad_state cur) (ad_partial_sbox cur)"
proof -
  let ?C = "config_of S" and ?fx = "row_fixed S i"
  have ev: "full_rounds S = 2 * hf S" "partial_rounds S = 2 * hp S"
    using S unfolding chip_spec_def by (simp_all only: even_two_times_div_two)
  have rl: "j < 2 * hf S + 2 * hp S \<Longrightarrow> length (round_constants S ! j) = sp_T S" for j
    using rc_length [OF S, of j] ev by linarith
  have pad: "sel_pad_and_add ?fx = 0" by (simp add: row_fixed_def Let_def no_gates_def)
  show ?thesis
  proof (cases "hf S \<le> i \<and> i < hf S + hp S")
    case True
    then have fx: "sel_full_round ?fx = 0" "sel_partial_round ?fx = 1" "length (rc_a ?fx) = sp_T S" "length (rc_b ?fx) = sp_T S"
      "rc_a ?fx = round_constants S ! (hf S + 2 * (i - hf S))" "rc_b ?fx = round_constants S ! Suc (hf S + 2 * (i - hf S))"
      using rl by (auto simp: row_fixed_def Let_def no_gates_def)
    have "(\<forall>e \<in> set (full_round_gate ?C ?fx cur next @ partial_rounds_gate ?C ?fx cur next @ pad_and_add_gate ?C ?fx prev cur next). e = 0)
        \<longleftrightarrow> (\<forall>e \<in> set (partial_rounds_gate ?C ?fx cur next). e = 0)"
      using disabled_gates(1) [OF fx(1)] disabled_gates(3) [OF pad] by auto
    then show ?thesis
      unfolding partial_gate_iff [OF S fx(2) len fx(3,4)] using True by (auto simp: fx(5,6) row_step_def sbox_of_row_def Let_def)
  next
    case False
    then have fx: "sel_full_round ?fx = 1" "sel_partial_round ?fx = 0" "length (rc_a ?fx) = sp_T S"
      "row_step S i (ad_state cur) = full_round S (ad_state cur) (rc_a ?fx)"
      using rl i by (auto simp: row_fixed_def row_step_def Let_def no_gates_def num_rows_def)
    have "(\<forall>e \<in> set (full_round_gate ?C ?fx cur next @ partial_rounds_gate ?C ?fx cur next @ pad_and_add_gate ?C ?fx prev cur next). e = 0)
        \<longleftrightarrow> (\<forall>e \<in> set (full_round_gate ?C ?fx cur next). e = 0)"
      using disabled_gates(2) [OF fx(2)] disabled_gates(3) [OF pad] by auto
    then show ?thesis
      unfolding full_gate_iff [OF S fx(1) len fx(3)] using False by (auto simp: fx(4) sbox_of_row_def)
  qed
qed

text \<open>The region is satisfied exactly by the states of the permutation.\<close>

definition row_holds :: "'f::field poseidon_config \<Rightarrow> 'f fixed \<Rightarrow> 'f advice \<Rightarrow> 'f advice \<Rightarrow> 'f advice \<Rightarrow> bool" where
  "row_holds C fx prev cur next \<longleftrightarrow> (\<forall>e \<in> set (full_round_gate C fx cur next @ partial_rounds_gate C fx cur next
     @ pad_and_add_gate C fx prev cur next). e = 0)"

lemma no_gates_row: "row_holds C (no_gates C) prev cur next"
  unfolding row_holds_def using no_gates_hold by blast

lemma region_holds_rows:
  "region_holds C fxs ads \<longleftrightarrow> length ads = length fxs \<and> (\<forall>a \<in> set ads. length (ad_state a) = cf_T C) \<and>
     (\<forall>i < length fxs. row_holds C (fxs ! i) (if i = 0 then blank_advice C else ads ! (i - 1)) (ads ! i)
       (if Suc i < length ads then ads ! Suc i else blank_advice C))"
  unfolding region_holds_def row_holds_def Let_def by (rule refl)

lemma permute_region_iff:
  assumes S: "chip_spec S"
  shows "region_holds (config_of S) (map (row_fixed S) [0..<num_rows S] @ [no_gates (config_of S)]) ads \<longleftrightarrow>
    length ads = Suc (num_rows S) \<and> (\<forall>a \<in> set ads. length (ad_state a) = sp_T S) \<and>
    (\<forall>i < num_rows S. ad_state (ads ! Suc i) = row_step S i (ad_state (ads ! i)) \<and>
      sbox_of_row S i (ad_state (ads ! i)) (ad_partial_sbox (ads ! i)))"
proof -
  let ?C = "config_of S"
  define n where "n = num_rows S"
  define fxs where "fxs = map (row_fixed S) [0..<n] @ [no_gates ?C]"
  have T: "cf_T ?C = sp_T S" by (simp add: config_of_def)
  have fx: "length fxs = Suc n" "fxs ! n = no_gates ?C" "i < n \<Longrightarrow> fxs ! i = row_fixed S i" for i
    by (simp_all add: fxs_def nth_append)
  have row: "row_holds ?C (row_fixed S i) prev (ads ! i) (ads ! Suc i) \<longleftrightarrow>
      ad_state (ads ! Suc i) = row_step S i (ad_state (ads ! i)) \<and>
      sbox_of_row S i (ad_state (ads ! i)) (ad_partial_sbox (ads ! i))"
    if "length ads = Suc n" "\<forall>a \<in> set ads. length (ad_state a) = sp_T S" "i < n" for i prev
    unfolding row_holds_def by (rule row_gates_iff [OF S]) (use that in \<open>simp_all add: n_def\<close>)
  show ?thesis
    unfolding n_def [symmetric] fxs_def [symmetric] region_holds_rows fx(1) T less_Suc_eq
    using fx(2,3) row no_gates_row by auto
qed

lemma permute_region_state:
  assumes "\<forall>i < n. ad_state (ads ! Suc i) = row_step S i (ad_state (ads ! i))" "i \<le> n"
  shows "ad_state (ads ! i) = foldl (\<lambda>st i. row_step S i st) (ad_state (ads ! 0)) [0..<i]"
  using assms(2) by (induction i) (use assms(1) in simp_all)

lemma chip_permute_sound:
  assumes S: "chip_spec S" and run: "chip_permute (config_of S) st sy = Some (st', sy')" and ok: "snd sy'"
  shows "snd sy \<and> st' = permute S st \<and> length st' = sp_T S"
proof -
  let ?fxs = "map (row_fixed S) [0..<num_rows S] @ [no_gates (config_of S)]"
  obtain ads sy1 where n: "next_region sy = (ads, sy1)" by (cases "next_region sy")
  then have h: "region_holds (config_of S) ?fxs ads" "ad_state (hd ads) = st" "snd sy1" and st': "st' = ad_state (last ads)"
    using run ok by (auto simp: chip_permute_def permute_fixed_rows [OF S] require_def)
  note R = h(1) [unfolded permute_region_iff [OF S]]
  have "ads \<noteq> []" using R by auto
  then have ends: "ad_state (ads ! 0) = st" "last ads = ads ! num_rows S" "last ads \<in> set ads"
    using h(2) R by (simp_all add: hd_conv_nth last_conv_nth)
  have "st' = permute S st"
    using permute_region_state [of "num_rows S" ads S "num_rows S"] R ends st' by (simp add: permute_rows [OF S])
  moreover have "snd sy" using h(3) n by (auto simp: next_region_def split: list.splits)
  moreover have "length st' = sp_T S" unfolding st' using R ends(3) by blast
  ultimately show ?thesis by blast
qed

end
