(* ===== verification/Poseidon_Hash_Circuit.thy ===== *)
theory Poseidon_Hash_Circuit
  imports Poseidon_Permutation
begin

text \<open>
  The hash chip computes the hash: whatever the assignment, a satisfied synthesis returns
  what \<open>Hash::hash\<close> returns, and the assigned values satisfy it.
\<close>

lemma config_of_sizes [simp]: "cf_R (config_of S) = sp_R S" "cf_T (config_of S) = sp_T S"
  by (simp_all add: config_of_def)

section \<open>The assigned rows of a permutation\<close>

lemma full_round_values_ok:
  assumes S: "chip_spec S" and i: "rnd < length (round_constants S)" and st: "length st = sp_T S"
  shows "full_round_values (config_of S) rnd st = Some (full_round S st (round_constants S ! rnd))"
proof -
  let ?r = "map (\<lambda>q. q ^ 5) (map2 (+) st (round_constants S ! rnd))"
  have sq: "square (sp_T S) (mds S)" and sb: "sbox S = (\<lambda>x. x ^ 5)" using S unfolding chip_spec_def by blast+
  have "\<forall>rc \<in> set (round_constants S). length rc = sp_T S" using S unfolding chip_spec_def by blast
  then have rc: "length (round_constants S ! rnd) = sp_T S" using i by simp
  have e: "foldl (\<lambda>acc (j, r_j). acc + m_i ! j * r_j) 0 (enumerate 0 ?r) = foldl (\<lambda>acc (j, k). acc + j * k) 0 (zip m_i ?r)"
    if "length m_i = sp_T S" for m_i
  proof -
    have z: "zip m_i ?r = map (\<lambda>(j, r_j). (m_i ! j, r_j)) (enumerate 0 ?r)"
      using that st rc by (intro nth_equalityI) (simp_all add: nth_enumerate_eq)
    show ?thesis unfolding z foldl_map by (rule foldl_cong) auto
  qed
  have "map (\<lambda>m_i. foldl (\<lambda>acc (j, r_j). acc + m_i ! j * r_j) 0 (enumerate 0 ?r)) (mds S) =
      map (\<lambda>row. foldl (\<lambda>acc (j, k). acc + j * k) 0 (zip row ?r)) (mds S)"
    by (rule map_cong [OF refl], rule e) (use sq in \<open>simp add: square_def\<close>)
  then show ?thesis
    using i by (simp add: full_round_values_def full_round_def mix_layer_def add_words_def sb config_of_def Let_def)
qed

lemma sbox_first_map2:
  "length a = length b \<Longrightarrow> a \<noteq> [] \<Longrightarrow> (hd a + hd b) ^ 5 # map2 (+) (tl a) (tl b) = sbox_first (\<lambda>x. x ^ 5) (add_words a b)"
  by (cases a; cases b) (simp_all add: sbox_first_def add_words_def)

lemma partial_round_values_ok:
  assumes S: "chip_spec S" and i: "Suc rnd < length (round_constants S)" and st: "length st = sp_T S"
  shows "partial_round_values (config_of S) rnd st =
    Some ((st ! 0 + round_constants S ! rnd ! 0) ^ 5,
      part_round S (part_round S st (round_constants S ! rnd)) (round_constants S ! Suc rnd))"
proof -
  let ?rc = "round_constants S ! rnd" and ?rc' = "round_constants S ! Suc rnd"
  have sb: "sbox S = (\<lambda>x. x ^ 5)" and T: "0 < sp_T S" using S by (simp_all add: chip_spec_def)
  have "\<forall>rc \<in> set (round_constants S). length rc = sp_T S" using S unfolding chip_spec_def by blast
  then have rc: "length ?rc = sp_T S" "length ?rc' = sp_T S" using i by simp_all
  let ?r = "(hd st + hd ?rc) ^ 5 # map2 (+) (tl st) (tl ?rc)"
  have r: "?r = sbox_first (sbox S) (add_words st ?rc)"
    unfolding sb by (rule sbox_first_map2) (use st rc T in auto)
  have mid: "length (part_round S st ?rc) = sp_T S" by (rule length_rounds(2) [OF chip_spec_ok [OF S]])
  have "(hd (part_round S st ?rc) + hd ?rc') ^ 5 # map2 (+) (tl (part_round S st ?rc)) (tl ?rc') =
      sbox_first (sbox S) (add_words (part_round S st ?rc) ?rc')"
    unfolding sb by (rule sbox_first_map2) (use mid rc T in auto)
  moreover have "hd st = st ! 0" "hd ?rc = ?rc ! 0" using st rc T by (metis hd_conv_nth length_greater_0_conv)+
  moreover have "map (\<lambda>m_i. foldl (\<lambda>acc (m_ij, r_j). acc + m_ij * r_j) 0 (zip m_i ?r)) (mds S) = part_round S st ?rc"
    unfolding r by (simp add: part_round_def mix_layer_def)
  ultimately show ?thesis
    using i by (simp add: partial_round_values_def config_of_def Let_def part_round_def [of S "part_round S st ?rc"] mix_layer_def)
qed

definition state_at :: "'f::field spec \<Rightarrow> 'f list \<Rightarrow> nat \<Rightarrow> 'f list" where
  "state_at S st i = foldl (\<lambda>st i. row_step S i st) st [0..<i]"

definition assigned_row :: "'f::field spec \<Rightarrow> 'f list \<Rightarrow> nat \<Rightarrow> 'f advice" where
  "assigned_row S st i = \<lparr>ad_state = state_at S st i,
     ad_partial_sbox = (if hf S \<le> i \<and> i < hf S + hp S
       then (state_at S st i ! 0 + round_constants S ! (hf S + 2 * (i - hf S)) ! 0) ^ 5 else 0)\<rparr>"

lemma length_state_at:
  assumes "chip_spec S" "length st = sp_T S"
  shows "length (state_at S st i) = sp_T S"
  using assms length_rounds [OF chip_spec_ok [OF assms(1)]]
  by (cases i) (simp_all add: state_at_def row_step_def Let_def)

lemma state_at_Suc: "state_at S st (Suc i) = row_step S i (state_at S st i)"
  by (simp add: state_at_def)

lemma assign_loop:
  assumes "\<And>r. r < n \<Longrightarrow> f r (map (assigned_row S st) [0..<a + r], state_at S st (a + r)) =
    Some (map (assigned_row S st) [0..<Suc (a + r)], state_at S st (Suc (a + r)))"
  shows "loop_m f [0..<n] (map (assigned_row S st) [0..<a], state_at S st a) =
    Some (map (assigned_row S st) [0..<a + n], state_at S st (a + n))"
  using assms by (induction n) (simp_all add: loop_m_append)

lemma permute_assign_ok:
  assumes S: "chip_spec S" and st: "length st = sp_T S"
  shows "permute_assign (config_of S) st = Some (map (assigned_row S st) [0..<Suc (num_rows S)])"
proof -
  let ?C = "config_of S"
  have c: "half_full_rounds ?C = hf S" "half_partial_rounds ?C = hp S" by (simp_all add: config_of_def)
  have "full_rounds S = 2 * hf S" "partial_rounds S = 2 * hp S" and len0: "full_rounds S + partial_rounds S \<le> length (round_constants S)"
    using S unfolding chip_spec_def by (simp_all only: even_two_times_div_two)
  then have len: "2 * hf S + 2 * hp S \<le> length (round_constants S)" by linarith
  note sl = length_state_at [OF S st]
  have 1: "loop_m (full_round_assign ?C) [0..<hf S] (map (assigned_row S st) [0..<0], state_at S st 0) =
      Some (map (assigned_row S st) [0..<0 + hf S], state_at S st (0 + hf S))"
    using len by (intro assign_loop)
      (simp add: full_round_assign_def full_round_values_ok [OF S _ sl] state_at_Suc row_step_def assigned_row_def Let_def)
  have 2: "loop_m (\<lambda>r. partial_round_assign ?C (hf S + 2 * r)) [0..<hp S] (map (assigned_row S st) [0..<hf S], state_at S st (hf S)) =
      Some (map (assigned_row S st) [0..<hf S + hp S], state_at S st (hf S + hp S))"
    using len by (intro assign_loop)
      (simp add: partial_round_assign_def partial_round_values_ok [OF S _ sl] state_at_Suc row_step_def assigned_row_def Let_def)
  have 3: "loop_m (\<lambda>r. full_round_assign ?C (hf S + 2 * hp S + r)) [0..<hf S]
      (map (assigned_row S st) [0..<hf S + hp S], state_at S st (hf S + hp S)) =
      Some (map (assigned_row S st) [0..<hf S + hp S + hf S], state_at S st (hf S + hp S + hf S))"
    using len by (intro assign_loop)
      (simp add: full_round_assign_def full_round_values_ok [OF S _ sl] state_at_Suc row_step_def assigned_row_def Let_def)
  have "state_at S st 0 = st" by (simp add: state_at_def)
  with 1 2 3 show ?thesis
    by (simp add: permute_assign_def c num_rows_def) (simp add: assigned_row_def)
qed

lemma permute_assign_holds:
  assumes S: "chip_spec S" and st: "length st = sp_T S"
  shows "chip_permute (config_of S) st (map (assigned_row S st) [0..<Suc (num_rows S)] # rest, True) =
    Some (permute S st, (rest, True))"
proof -
  let ?ads = "map (assigned_row S st) [0..<Suc (num_rows S)]"
  have nth: "?ads ! i = assigned_row S st i" if "i < Suc (num_rows S)" for i using that by (simp del: upt_Suc)
  have "region_holds (config_of S) (map (row_fixed S) [0..<num_rows S] @ [no_gates (config_of S)]) ?ads"
    unfolding permute_region_iff [OF S] using length_state_at [OF S st]
    by (auto simp: nth assigned_row_def state_at_Suc sbox_of_row_def simp del: upt_Suc)
  moreover have "ad_state (hd ?ads) = st" "ad_state (last ?ads) = permute S st"
    by (simp_all add: hd_conv_nth last_conv_nth nth assigned_row_def state_at_def permute_rows [OF S] del: upt_Suc)
  ultimately show ?thesis
    by (simp add: chip_permute_def permute_fixed_rows [OF S] next_region_def require_def del: upt_Suc)
qed


section \<open>Adding the input\<close>

lemma those_take_None:
  assumes "those (take n xs) = None"
  shows "\<exists>i < length xs. i < n \<and> xs ! i = None"
proof -
  have "those ys = None \<Longrightarrow> None \<in> set ys" for ys :: "'b option list"
    by (induction ys) (auto split: option.splits)
  from this [OF assms] show ?thesis by (auto simp: in_set_conv_nth)
qed

abbreviation values_of :: "'f padded_word option list \<Rightarrow> 'f option list" where
  "values_of mode \<equiv> map (map_option word_value) mode"

lemma add_input_words_values:
  assumes "length input \<le> length st" "those input = Some words"
  shows "add_input_words st (values_of input) = Some (map2 (+) (take (length words) st) (map word_value words) @ drop (length words) st)"
proof -
  have i: "input = map Some words" using assms(2) by (simp add: those_Some_iff)
  have "add_input_words st (pending (length words) (map word_value words)) =
      Some (map2 (+) (take (length words) st) (map word_value words) @ drop (length words) st)"
    by (rule add_input_words_pending) (use assms(1) i in simp_all)
  then show ?thesis by (simp add: i pending_def o_def)
qed

lemma pad_row_iff:
  assumes S: "chip_spec S" and sel: "sel_full_round fx = 0" "sel_partial_round fx = 0" "sel_pad_and_add fx = 1"
    and len: "length (ad_state prev) = sp_T S" "length (ad_state cur) = sp_T S" "length (ad_state next) = sp_T S"
  shows "row_holds (config_of S) fx prev cur next \<longleftrightarrow>
    ad_state next = map2 (+) (take (sp_R S) (ad_state prev)) (take (sp_R S) (ad_state cur)) @ drop (sp_R S) (ad_state prev)"
proof -
  have T: "sp_T S = Suc (sp_R S)" using S by (simp add: chip_spec_def)
  have "row_holds (config_of S) fx prev cur next \<longleftrightarrow>
      (\<forall>e \<in> set (pad_and_add_gate (config_of S) fx prev cur next). e = 0)"
    unfolding row_holds_def using disabled_gates(1) [OF sel(1)] disabled_gates(2) [OF sel(2)] by auto
  also have "\<dots> \<longleftrightarrow> (\<forall>i < sp_R S. ad_state next ! i = ad_state prev ! i + ad_state cur ! i) \<and>
      ad_state next ! sp_R S = ad_state prev ! sp_R S"
    by (auto simp: pad_and_add_gate_def sel(3) config_of_def algebra_simps)
  also have "\<dots> \<longleftrightarrow> ad_state next = map2 (+) (take (sp_R S) (ad_state prev)) (take (sp_R S) (ad_state cur)) @ drop (sp_R S) (ad_state prev)"
    using len T by (auto simp: list_eq_iff_nth_eq nth_append less_Suc_eq)
  finally show ?thesis .
qed

text \<open>The three rows of the region.\<close>

lemma pad_region_iff:
  assumes S: "chip_spec S" and sel: "sel_full_round fx = 0" "sel_partial_round fx = 0" "sel_pad_and_add fx = 1"
  shows "region_holds (config_of S) [no_gates (config_of S), fx, no_gates (config_of S)] ads \<longleftrightarrow>
    length ads = 3 \<and> (\<forall>a \<in> set ads. length (ad_state a) = sp_T S) \<and>
    ad_state (ads ! 2) = map2 (+) (take (sp_R S) (ad_state (ads ! 0))) (take (sp_R S) (ad_state (ads ! 1)))
      @ drop (sp_R S) (ad_state (ads ! 0))"
proof -
  have T: "cf_T (config_of S) = sp_T S" by (simp add: config_of_def)
  have "row_holds (config_of S) fx (ads ! 0) (ads ! 1) (ads ! 2) \<longleftrightarrow>
      ad_state (ads ! 2) = map2 (+) (take (sp_R S) (ad_state (ads ! 0))) (take (sp_R S) (ad_state (ads ! 1)))
        @ drop (sp_R S) (ad_state (ads ! 0))"
    if "length ads = 3" "\<forall>a \<in> set ads. length (ad_state a) = sp_T S"
    by (rule pad_row_iff [OF S sel]) (use that in simp_all)
  then show ?thesis
    unfolding region_holds_rows T
    by (auto simp: no_gates_row numeral_eq_Suc less_Suc_eq)
qed

definition pad_row :: "'f::field spec \<Rightarrow> 'f list \<Rightarrow> 'f fixed" where
  "pad_row S pad = (no_gates (config_of S))\<lparr>sel_pad_and_add := 1,
     rc_b := pad @ drop (sp_R S) (rc_b (no_gates (config_of S)))\<rparr>"

lemma pad_row_sel: "sel_full_round (pad_row S pad) = 0" "sel_partial_round (pad_row S pad) = 0"
  "sel_pad_and_add (pad_row S pad) = 1"
  by (simp_all add: pad_row_def no_gates_def)

lemma chip_add_input_sound:
  assumes S: "chip_spec S" and input: "length input = sp_R S"
    and run: "chip_add_input (config_of S) st input sy = Some (st', sy')" and ok: "snd sy'"
  shows "snd sy \<and> add_input_words st (values_of input) = Some st' \<and> length st' = sp_T S"
proof -
  have C: "cf_R (config_of S) = sp_R S" "cf_T (config_of S) = sp_T S" by (simp_all add: config_of_def)
  have T: "sp_T S = Suc (sp_R S)" using S by (simp add: chip_spec_def)
  obtain words where words: "those input = Some words"
    using run input by (cases "those input") (simp_all add: chip_add_input_def C)
  obtain ads sy1 where n: "next_region sy = (ads, sy1)" by (cases "next_region sy")
  define pad where "pad = map (\<lambda>i. case words ! i of Padding p \<Rightarrow> p | Message _ \<Rightarrow> 0) [0..<sp_R S]"
  have h: "region_holds (config_of S) [no_gates (config_of S), pad_row S pad, no_gates (config_of S)] ads"
    "take (sp_T S) (ad_state (ads ! 0)) = st" "take (sp_R S) (ad_state (ads ! 1)) = map word_value words"
    "snd sy1" "st' = ad_state (ads ! 2)"
    using run ok n input words by (auto simp: chip_add_input_def C require_def Let_def pad_row_def pad_def)
  note R = h(1) [unfolded pad_region_iff [OF S pad_row_sel]]
  then have len: "length (ad_state (ads ! 0)) = sp_T S" "length (ad_state (ads ! 2)) = sp_T S" by simp_all
  then have st: "ad_state (ads ! 0) = st" "length st = sp_T S" using h(2) by simp_all
  have lw: "length words = sp_R S" using words input by (auto simp: those_Some_iff)
  have "add_input_words st (values_of input) = Some st'"
    using add_input_words_values [OF _ words, of st] R h(3,5) st input lw T by simp
  moreover have "snd sy" using h(4) n by (auto simp: next_region_def split: list.splits)
  ultimately show ?thesis using h(5) len(2) by simp
qed

lemma chip_add_input_complete:
  assumes S: "chip_spec S" and input: "length input = sp_R S" and st: "length st = sp_T S"
    and run: "add_input_words st (values_of input) = Some st'"
  shows "\<exists>ads. \<forall>rest. chip_add_input (config_of S) st input (ads # rest, True) = Some (st', (rest, True))"
proof -
  have C: "cf_R (config_of S) = sp_R S" "cf_T (config_of S) = sp_T S" by (simp_all add: config_of_def)
  have T: "sp_T S = Suc (sp_R S)" using S by (simp add: chip_spec_def)
  obtain words where words: "those input = Some words"
  proof (cases "those input")
    case None
    then obtain i where i: "i < sp_R S" "input ! i = None"
      using those_take_None [of "sp_R S" input] input by auto
    have "add_input_words ws vs = None" if "i < length ws" "i < length vs" "vs ! i = None" for ws :: "'a list" and vs
      using that
    proof (induction ws vs arbitrary: i rule: add_input_words.induct)
      case (1 w ws v vs)
      then show ?case by (cases i) (auto split: bind_splits)
    qed auto
    from this [of st "values_of input"] i st T input run have False by simp
    then show thesis ..
  qed
  have lw: "length words = sp_R S" using words input by (auto simp: those_Some_iff)
  have st': "st' = map2 (+) (take (sp_R S) st) (map word_value words) @ drop (sp_R S) st"
    using add_input_words_values [OF _ words, of st] run input st T lw by simp
  define pad where "pad = map (\<lambda>i. case words ! i of Padding p \<Rightarrow> p | Message _ \<Rightarrow> 0) [0..<sp_R S]"
  let ?ads = "add_input_assign (config_of S) st (map word_value words)"
  have third: "map2 (+) st (map word_value words @ [0]) = st'"
    unfolding st' using st lw T by (intro nth_equalityI) (auto simp: nth_append less_Suc_eq)
  have "region_holds (config_of S) [no_gates (config_of S), pad_row S pad, no_gates (config_of S)] ?ads"
    unfolding pad_region_iff [OF S pad_row_sel]
    using st lw T third by (simp add: add_input_assign_def C st' [symmetric]) (simp add: st')
  then have "chip_add_input (config_of S) st input (?ads # rest, True) = Some (st', (rest, True))" for rest
    using words input st lw T third
    by (simp add: chip_add_input_def C next_region_def require_def Let_def pad_row_def pad_def)
      (simp add: add_input_assign_def C)
  then show ?thesis by blast
qed


section \<open>The sponge\<close>

lemma poseidon_sponge_output:
  assumes "chip_spec S" "length st = sp_T S"
  shows "take (sp_R S) (map Some st @ replicate (sp_R S) None) = map Some (take (sp_R S) st)"
  using assms by (simp add: chip_spec_def take_map)

lemma chip_poseidon_sponge_sound:
  assumes S: "chip_spec S" and st: "length st = sp_T S" and input: "\<And>m. input = Some m \<Longrightarrow> length m = sp_R S"
    and run: "chip_poseidon_sponge (config_of S) st input sy = Some (st', mode, sy')" and ok: "snd sy'"
  shows "snd sy \<and> poseidon_sponge S st (map_option values_of input) = Some (st', mode) \<and> length st' = sp_T S"
proof -
  obtain st1 sy1 where a: "(case input of Some words \<Rightarrow> chip_add_input (config_of S) st words sy | None \<Rightarrow> Some (st, sy)) = Some (st1, sy1)"
    and p: "chip_permute (config_of S) st1 sy1 = Some (st', sy')" and m: "mode = map Some (take (sp_R S) st')"
    using run by (auto simp: chip_poseidon_sponge_def split: bind_splits prod.splits)
  have P: "snd sy1" "st' = permute S st1" "length st' = sp_T S" using chip_permute_sound [OF S p ok] by blast+
  have A: "snd sy \<and> (case map_option values_of input of Some words \<Rightarrow> add_input_words st words | None \<Rightarrow> Some st) = Some st1"
    using a P(1) chip_add_input_sound [OF S input] by (cases input) auto
  show ?thesis
    using A P(2,3) m poseidon_sponge_output [OF S P(3)] by (simp add: poseidon_sponge_def Let_def)
qed

lemma chip_poseidon_sponge_complete:
  assumes S: "chip_spec S" and st: "length st = sp_T S" and input: "\<And>m. input = Some m \<Longrightarrow> length m = sp_R S"
    and run: "poseidon_sponge S st (map_option values_of input) = Some (st', mode)"
  shows "length st' = sp_T S \<and>
    (\<exists>ads. \<forall>rest. chip_poseidon_sponge (config_of S) st input (ads @ rest, True) = Some (st', mode, (rest, True)))"
proof -
  obtain st1 where a: "(case map_option values_of input of Some words \<Rightarrow> add_input_words st words | None \<Rightarrow> Some st) = Some st1"
    and st': "st' = permute S st1" and mode: "mode = take (sp_R S) (map Some st' @ replicate (sp_R S) None)"
    using run by (auto simp: poseidon_sponge_def Let_def split: bind_splits)
  have len1: "length (add_input_words' :: 'a list) = length ws" if "add_input_words ws vs = Some add_input_words'" for ws vs add_input_words'
    using that by (induction ws vs arbitrary: add_input_words' rule: add_input_words.induct) (auto split: bind_splits)
  have st1: "length st1 = sp_T S" using a st len1 by (auto split: option.splits)
  then have len: "length st' = sp_T S" unfolding st' by (rule length_permute [OF chip_spec_ok [OF S]])
  have m: "mode = map Some (take (sp_R S) st')" unfolding mode by (rule poseidon_sponge_output [OF S len])
  obtain p where p: "\<And>rest. chip_permute (config_of S) st1 (p # rest, True) = Some (st', (rest, True))"
    using permute_assign_holds [OF S st1] st' by blast
  have cR: "cf_R (config_of S) = sp_R S" by (simp add: config_of_def)
  show ?thesis
  proof (cases input)
    case None
    then have "chip_poseidon_sponge (config_of S) st input ([p] @ rest, True) = Some (st', mode, (rest, True))" for rest
      using a p [of rest] m by (simp add: chip_poseidon_sponge_def cR)
    with len show ?thesis by blast
  next
    case (Some words)
    then obtain q where q: "\<And>rest. chip_add_input (config_of S) st words (q # rest, True) = Some (st1, (rest, True))"
      using a chip_add_input_complete [OF S input st, of words st1] by auto
    have "chip_poseidon_sponge (config_of S) st input ([q, p] @ rest, True) = Some (st', mode, (rest, True))" for rest
      using Some q [of "p # rest"] p [of rest] m by (simp add: chip_poseidon_sponge_def cR)
    with len show ?thesis by blast
  qed
qed

text \<open>The sponge of the gadget and the sponge of the hash.\<close>

definition native :: "'f chip_sponge \<Rightarrow> 'f sponge" where
  "native cs = \<lparr>sg_mode = values_of (cs_mode cs), sg_state = cs_state cs\<rparr>"

definition sponge_shape :: "'f::field spec \<Rightarrow> 'f chip_sponge \<Rightarrow> bool" where
  "sponge_shape S cs \<longleftrightarrow> length (cs_mode cs) = sp_R S \<and> length (cs_state cs) = sp_T S"

lemma fill_first_values: "fill_first (word_value v) (values_of mode) = map_option values_of (fill_first v mode)"
  by (induction v mode rule: fill_first.induct) (simp_all add: option.map_comp o_def)

lemma length_fill_first: "fill_first v mode = Some mode' \<Longrightarrow> length mode' = length mode"
  by (induction v mode arbitrary: mode' rule: fill_first.induct) auto

lemma init_with_values: "init_with R (word_value v) = map_option values_of (init_with R v)"
  by (simp add: init_with_def Let_def)

lemma length_init_with: "init_with R v = Some mode \<Longrightarrow> length mode = R"
  by (auto simp: init_with_def Let_def split: if_splits)

lemma chip_absorb_sound:
  assumes S: "chip_spec S" and shape: "sponge_shape S cs"
    and run: "chip_absorb (config_of S) v (cs, sy) = Some (cs', sy')" and ok: "snd sy'"
  shows "snd sy \<and> absorb S (word_value v) (native cs) = Some (native cs') \<and> sponge_shape S cs'"
proof (cases "fill_first v (cs_mode cs)")
  case (Some mode)
  with run ok shape show ?thesis
    by (auto simp: chip_absorb_def absorb_def native_def fill_first_values sponge_shape_def dest: length_fill_first)
next
  case None
  obtain st m sy1 mode where p: "chip_poseidon_sponge (config_of S) (cs_state cs) (Some (cs_mode cs)) sy = Some (st, m, sy1)"
    and i: "init_with (sp_R S) v = Some mode" and r: "cs' = \<lparr>cs_mode = mode, cs_state = st\<rparr>" "sy' = sy1"
    using run None by (auto simp: chip_absorb_def split: bind_splits prod.splits)
  have "snd sy \<and> poseidon_sponge S (cs_state cs) (Some (values_of (cs_mode cs))) = Some (st, m) \<and> length st = sp_T S"
    using chip_poseidon_sponge_sound [OF S _ _ p] shape ok r by (simp add: sponge_shape_def)
  then show ?thesis
    using None i r length_init_with [OF i]
    by (simp add: absorb_def native_def fill_first_values init_with_values sponge_shape_def)
qed

lemma chip_absorb_complete:
  assumes S: "chip_spec S" and shape: "sponge_shape S cs" and run: "absorb S (word_value v) (native cs) = Some sg"
  shows "\<exists>cs' ads. sg = native cs' \<and> sponge_shape S cs' \<and>
    (\<forall>rest. chip_absorb (config_of S) v (cs, (ads @ rest, True)) = Some (cs', (rest, True)))"
proof (cases "fill_first v (cs_mode cs)")
  case (Some mode)
  with run shape show ?thesis
    by (intro exI [of _ "cs\<lparr>cs_mode := mode\<rparr>"] exI [of _ "[]"])
      (auto simp: chip_absorb_def absorb_def native_def fill_first_values sponge_shape_def dest: length_fill_first)
next
  case None
  then obtain st m mode where p: "poseidon_sponge S (cs_state cs) (map_option values_of (Some (cs_mode cs))) = Some (st, m)"
    and i: "init_with (sp_R S) v = Some mode" and sg: "sg = \<lparr>sg_mode = values_of mode, sg_state = st\<rparr>"
    using run by (auto simp: absorb_def native_def fill_first_values init_with_values split: bind_splits prod.splits)
  obtain ads where "length st = sp_T S"
    "\<And>rest. chip_poseidon_sponge (config_of S) (cs_state cs) (Some (cs_mode cs)) (ads @ rest, True) = Some (st, m, (rest, True))"
    using chip_poseidon_sponge_complete [OF S _ _ p] shape by (auto simp: sponge_shape_def)
  then show ?thesis
    using None i sg length_init_with [OF i]
    by (intro exI [of _ "\<lparr>cs_mode = mode, cs_state = st\<rparr>"] exI [of _ ads])
      (simp add: chip_absorb_def native_def sponge_shape_def)
qed

text \<open>A violated constraint stays violated.\<close>

lemma next_region_mono: "next_region sy = (ads, sy') \<Longrightarrow> snd sy' \<Longrightarrow> snd sy"
  by (auto simp: next_region_def split: list.splits)

lemma chip_sponge_mono:
  "chip_poseidon_sponge C st input sy = Some (st', mode, sy') \<Longrightarrow> snd sy' \<Longrightarrow> snd sy"
  by (auto simp: chip_poseidon_sponge_def chip_add_input_def chip_permute_def require_def Let_def
      split: bind_splits prod.splits option.splits dest!: next_region_mono)

lemma chip_absorb_mono: "chip_absorb C v (cs, sy) = Some (cs', sy') \<Longrightarrow> snd sy' \<Longrightarrow> snd sy"
  by (auto simp: chip_absorb_def split: option.splits bind_splits prod.splits dest: chip_sponge_mono)

lemma chip_absorb_all_mono: "loop_m (chip_absorb C) vs (cs, sy) = Some (cs', sy') \<Longrightarrow> snd sy' \<Longrightarrow> snd sy"
proof (induction vs arbitrary: cs sy)
  case (Cons v vs)
  then obtain cs1 sy1 where "chip_absorb C v (cs, sy) = Some (cs1, sy1)"
    "loop_m (chip_absorb C) vs (cs1, sy1) = Some (cs', sy')" by (auto split: bind_splits)
  with Cons chip_absorb_mono show ?case by blast
qed simp

lemma chip_absorb_all_sound:
  assumes S: "chip_spec S" and "sponge_shape S cs"
    and "loop_m (chip_absorb (config_of S)) vs (cs, sy) = Some (cs', sy')" and "snd sy'"
  shows "snd sy \<and> loop_m (absorb S) (map word_value vs) (native cs) = Some (native cs') \<and> sponge_shape S cs'"
  using assms(2-4)
proof (induction vs arbitrary: cs sy)
  case (Cons v vs)
  then obtain cs1 sy1 where a: "chip_absorb (config_of S) v (cs, sy) = Some (cs1, sy1)"
    and l: "loop_m (chip_absorb (config_of S)) vs (cs1, sy1) = Some (cs', sy')" by (auto split: bind_splits)
  have A: "snd sy \<and> absorb S (word_value v) (native cs) = Some (native cs1) \<and> sponge_shape S cs1"
    by (rule chip_absorb_sound [OF S Cons.prems(1) a chip_absorb_all_mono [OF l Cons.prems(3)]])
  with Cons.IH [OF _ l Cons.prems(3)] show ?case by simp
qed simp

lemma chip_absorb_all_complete:
  assumes S: "chip_spec S" and "sponge_shape S cs"
    and "loop_m (absorb S) (map word_value vs) (native cs) = Some sg"
  shows "\<exists>cs' ads. sg = native cs' \<and> sponge_shape S cs' \<and>
    (\<forall>rest. loop_m (chip_absorb (config_of S)) vs (cs, (ads @ rest, True)) = Some (cs', (rest, True)))"
  using assms(2,3)
proof (induction vs arbitrary: cs)
  case Nil
  then show ?case by (intro exI [of _ cs] exI [of _ "[]"]) simp
next
  case (Cons v vs)
  then obtain sg1 where a: "absorb S (word_value v) (native cs) = Some sg1"
    and l: "loop_m (absorb S) (map word_value vs) sg1 = Some sg" by (auto split: bind_splits)
  obtain cs1 ads1 where 1: "sg1 = native cs1" "sponge_shape S cs1"
    "\<And>rest. chip_absorb (config_of S) v (cs, (ads1 @ rest, True)) = Some (cs1, (rest, True))"
    using chip_absorb_complete [OF S Cons.prems(1) a] by blast
  obtain cs' ads2 where 2: "sg = native cs'" "sponge_shape S cs'"
    "\<And>rest. loop_m (chip_absorb (config_of S)) vs (cs1, (ads2 @ rest, True)) = Some (cs', (rest, True))"
    using Cons.IH [OF 1(2)] l 1(1) by blast
  have "loop_m (chip_absorb (config_of S)) (v # vs) (cs, ((ads1 @ ads2) @ rest, True)) = Some (cs', (rest, True))" for rest
    using 1(3) [of "ads2 @ rest"] 2(3) [of rest] by simp
  with 2(1,2) show ?case by blast
qed

section \<open>The hash\<close>

lemma chip_initial_state_sound:
  assumes S: "chip_spec S" and run: "chip_initial_state (config_of S) L sy = (st, sy')" and ok: "snd sy'"
  shows "snd sy \<and> st = initial_state_words S L"
proof -
  obtain ads sy1 where n: "next_region sy = (ads, sy1)" by (cases "next_region sy")
  have h: "region_holds (config_of S) [no_gates (config_of S)] ads" "snd sy1" "st = ad_state (ads ! 0)"
    "take (Suc (sp_R S)) st = replicate (sp_R S) 0 @ [initial_capacity_element L]"
    using run ok n by (auto simp: chip_initial_state_def require_def Let_def)
  then have "length st = Suc (sp_R S)" using S by (auto simp: region_holds_def chip_spec_def)
  moreover have "initial_state_words S L = replicate (sp_R S) 0 @ [initial_capacity_element L]"
    using S by (simp add: initial_state_words_def chip_spec_def replicate_append_same [symmetric] list_update_append)
  ultimately show ?thesis using h(2,4) next_region_mono [OF n] by simp
qed

lemma chip_initial_state_complete:
  assumes S: "chip_spec S"
  shows "chip_initial_state (config_of S) L (initial_state_assign (config_of S) L # rest, True) =
    (initial_state_words S L, (rest, True))"
proof -
  have "initial_state_words S L = replicate (sp_R S) 0 @ [initial_capacity_element L]"
    using S by (simp add: initial_state_words_def chip_spec_def replicate_append_same [symmetric] list_update_append)
  moreover have "region_holds (config_of S) [no_gates (config_of S)] (initial_state_assign (config_of S) L)"
    using S by (simp add: region_holds_rows no_gates_row initial_state_assign_def chip_spec_def)
  ultimately show ?thesis
    by (simp add: chip_initial_state_def next_region_def require_def Let_def initial_state_assign_def)
qed

lemma chip_squeeze_mono: "chip_squeeze_loop n C st m sy = Some (out, sy') \<Longrightarrow> snd sy' \<Longrightarrow> snd sy"
proof (induction n arbitrary: st m sy)
  case (Suc n)
  show ?case
  proof (cases "take_first m")
    case None
    then obtain st1 m1 sy1 where p: "chip_poseidon_sponge C st None sy = Some (st1, m1, sy1)"
      "chip_squeeze_loop n C st1 m1 sy1 = Some (out, sy')" using Suc.prems by (auto split: bind_splits)
    show ?thesis by (rule chip_sponge_mono [OF p(1) Suc.IH [OF p(2) Suc.prems(2)]])
  next
    case (Some x)
    then show ?thesis using Suc.prems by (cases x) auto
  qed
qed simp

lemma chip_squeeze_first:
  assumes "chip_squeeze_loop 2 C st (Some e # es) sy = Some (out, sy')"
  shows "out = e \<and> sy' = sy"
  using assms by (simp add: numeral_2_eq_2)

lemma native_new:
  assumes "chip_spec S"
  shows "Hash_init S L = Some (native \<lparr>cs_mode = replicate (sp_R S) None, cs_state = initial_state_words S L\<rparr>)"
    and "sponge_shape S \<lparr>cs_mode = replicate (sp_R S) None, cs_state = initial_state_words S L\<rparr>"
  using sponge_start [OF chip_spec_ok [OF assms]]
  by (simp_all add: native_def pending_def sponge_shape_def initial_state_words_def)

lemma output_Cons:
  assumes "chip_spec S" "length st = sp_T S"
  obtains e es where "map Some (take (sp_R S) st) = Some e # es" "st \<noteq> []" "e = hd st"
  using assms by (cases st; cases "sp_R S") (auto simp: chip_spec_def)

lemma chip_hash_sound:
  fixes message :: "'f::field list"
  assumes S: "chip_spec S" and run: "chip_hash (config_of S) message sy = Some (out, sy')" and ok: "snd sy'"
  shows "snd sy \<and> poseidon_hash S message = Some out"
proof -
  let ?L = "length message"
  obtain pd :: "'f list" where pd: "padding (sp_R S) ?L ?L = Some pd"
    using run by (auto simp: chip_hash_def split: bind_splits)
  obtain st0 sy0 where i: "chip_initial_state (config_of S) ?L sy = (st0, sy0)"
    by (cases "chip_initial_state (config_of S) ?L sy")
  let ?cs0 = "\<lparr>cs_mode = replicate (sp_R S) None, cs_state = st0\<rparr>"
  obtain cs1 sy1 st mode sy2 where l: "loop_m (chip_absorb (config_of S)) (map Message message @ map Padding pd) (?cs0, sy0) = Some (cs1, sy1)"
    and f: "chip_poseidon_sponge (config_of S) (cs_state cs1) (Some (cs_mode cs1)) sy1 = Some (st, mode, sy2)"
    and s: "chip_squeeze_loop 2 (config_of S) st mode sy2 = Some (out, sy')"
    using run pd i by (auto simp: chip_hash_def chip_sponge_new_def split: bind_splits prod.splits)
  have "mode = map Some (take (sp_R S) st)" using f by (auto simp: chip_poseidon_sponge_def split: bind_splits prod.splits)
  have ok2: "snd sy2" by (rule chip_squeeze_mono [OF s ok])
  then have ok0: "snd sy0" using chip_sponge_mono [OF f] chip_absorb_all_mono [OF l] by blast
  have I: "snd sy" "st0 = initial_state_words S ?L" using chip_initial_state_sound [OF S i ok0] by simp_all
  have L: "loop_m (absorb S) (message @ pd) (native ?cs0) = Some (native cs1) \<and> sponge_shape S cs1"
    using chip_absorb_all_sound [OF S _ l chip_sponge_mono [OF f ok2]] native_new(2) [OF S] I(2)
    by (simp add: o_def word_value_def)
  have F: "poseidon_sponge S (cs_state cs1) (Some (values_of (cs_mode cs1))) = Some (st, mode)" "length st = sp_T S"
    using chip_poseidon_sponge_sound [OF S _ _ f ok2] L by (simp_all add: sponge_shape_def)
  obtain e es where e: "map Some (take (sp_R S) st) = Some e # es" by (rule output_Cons [OF S F(2)])
  with \<open>mode = _\<close> have "mode = Some e # es" by simp
  with s chip_squeeze_first have "out = e" by metis
  then show ?thesis
    using I L F(1) pd \<open>mode = Some e # es\<close> native_new(1) [OF S, of ?L]
    by (simp add: poseidon_hash_def hash_message_def finish_absorbing_def native_def squeeze_available)
qed

lemma chip_hash_complete:
  fixes message :: "'f::field list"
  assumes S: "chip_spec S" and run: "poseidon_hash S message = Some out"
  shows "\<exists>ads. \<forall>rest. chip_hash (config_of S) message (ads @ rest, True) = Some (out, (rest, True))"
proof -
  let ?L = "length message" and ?C = "config_of S"
  let ?cs0 = "\<lparr>cs_mode = replicate (sp_R S) None, cs_state = initial_state_words S (length message)\<rparr>"
  obtain pd :: "'f list" where pd: "padding (sp_R S) ?L ?L = Some pd"
    using run by (auto simp: poseidon_hash_def hash_message_def split: bind_splits)
  obtain sg st mode where l: "loop_m (absorb S) (message @ pd) (native ?cs0) = Some sg"
    and f: "poseidon_sponge S (sg_state sg) (Some (sg_mode sg)) = Some (st, mode)"
    and s: "map_option fst (squeeze S \<lparr>sg_mode = mode, sg_state = st\<rparr>) = Some out"
    using run pd native_new(1) [OF S, of ?L]
    by (auto simp: poseidon_hash_def hash_message_def finish_absorbing_def split: bind_splits prod.splits)
  have "map word_value (map Message message @ map Padding pd) = message @ pd"
    by (simp add: o_def word_value_def)
  then obtain cs ads1 where 1: "sg = native cs" "sponge_shape S cs"
    "\<And>rest. loop_m (chip_absorb ?C) (map Message message @ map Padding pd) (?cs0, (ads1 @ rest, True)) = Some (cs, (rest, True))"
    using chip_absorb_all_complete [OF S native_new(2) [OF S], of "map Message message @ map Padding pd"] l by metis
  have f': "poseidon_sponge S (cs_state cs) (map_option values_of (Some (cs_mode cs))) = Some (st, mode)"
    using f 1(1) by (simp add: native_def)
  obtain ads2 where 2: "length st = sp_T S"
    "\<And>rest. chip_poseidon_sponge ?C (cs_state cs) (Some (cs_mode cs)) (ads2 @ rest, True) = Some (st, mode, (rest, True))"
    using chip_poseidon_sponge_complete [OF S _ _ f'] 1(2) by (auto simp: sponge_shape_def)
  have "mode = map Some (take (sp_R S) st)"
    using f' poseidon_sponge_output [OF S 2(1)] by (auto simp: poseidon_sponge_def Let_def split: bind_splits)
  moreover obtain e es where e: "map Some (take (sp_R S) st) = Some e # es" by (rule output_Cons [OF S 2(1)])
  ultimately have mode: "mode = Some e # es" by simp
  then have out: "out = e" using s by (simp add: squeeze_available)
  have "chip_hash ?C message ((initial_state_assign ?C ?L # ads1 @ ads2) @ rest, True) = Some (out, (rest, True))" for rest
    using 1(3) [of "ads2 @ rest"] 2(2) [of rest] chip_initial_state_complete [OF S, of ?L "ads1 @ ads2 @ rest"]
    by (simp add: chip_hash_def pd chip_sponge_new_def mode out numeral_2_eq_2)
  then show ?thesis by blast
qed


section \<open>Properties\<close>

text \<open>
  The rows of the permute region satisfy the gates exactly when each state is the next
  step of the permutation, the partial S-box cells included; two partial rounds per row lose
  nothing, since the matrices are inverse to each other.
\<close>

theorem permute_region_exact:
  assumes "chip_spec S"
  shows "region_holds (config_of S) (map (row_fixed S) [0..<num_rows S] @ [no_gates (config_of S)]) ads \<longleftrightarrow>
    length ads = Suc (num_rows S) \<and> (\<forall>a \<in> set ads. length (ad_state a) = sp_T S) \<and>
    (\<forall>i < num_rows S. ad_state (ads ! Suc i) = row_step S i (ad_state (ads ! i)) \<and>
      sbox_of_row S i (ad_state (ads ! i)) (ad_partial_sbox (ads ! i)))"
  by (rule permute_region_iff [OF assms])

lemma small_chip: "chip_spec (small_spec :: rat spec)"
proof -
  have "is_inverse 3 (mds small_spec) (mds_inv small_spec :: rat list list)"
    "is_inverse 3 (mds_inv small_spec) (mds small_spec :: rat list list)"
    by (simp_all add: is_inverse_def small_spec_def numeral_3_eq_3 All_less_Suc)
  then show ?thesis by (simp add: chip_spec_def square_def) (simp add: small_spec_def)
qed

theorem permute_region_exact_witness:
  "\<not> region_holds (config_of small_spec) (map (row_fixed small_spec) [0..<num_rows small_spec]
     @ [no_gates (config_of small_spec)]) [\<lparr>ad_state = [0, 0, 0 :: rat], ad_partial_sbox = 0\<rparr>]"
  using permute_region_exact [OF small_chip, of "[\<lparr>ad_state = [0, 0, 0 :: rat], ad_partial_sbox = 0\<rparr>]"]
  by (simp add: num_rows_def) (simp add: small_spec_def)

text \<open>
  C15: the hash chip returns a value under some satisfied assignment exactly when the hash
  function returns it; so no assignment proves another digest.
\<close>

theorem chip_hash_exact:
  fixes message :: "'f::field list"
  assumes "chip_spec S" and "configure S = Some C"
  shows "(\<exists>ads rest. chip_hash C message (ads, True) = Some (out, (rest, True))) \<longleftrightarrow> poseidon_hash S message = Some out"
proof -
  have C: "C = config_of S" using assms(2) configure_ok [OF assms(1)] by simp
  show ?thesis
    unfolding C using chip_hash_sound [OF assms(1)] chip_hash_complete [OF assms(1), of message out] by fastforce
qed

theorem chip_hash_exact_witness:
  "\<exists>ads rest. chip_hash (config_of small_spec) [3, 4 :: rat] (ads, True) =
     Some (block_hash small_spec [3, 4], (rest, True))"
  using chip_hash_exact [OF small_chip configure_ok [OF small_chip]] poseidon_hash_blocks [OF chip_spec_ok [OF small_chip]]
  by blast

end
