(* ===== verification/Commitment_Scheme.thy ===== *)
theory Commitment_Scheme
  imports Prelude
begin

text \<open>
  The trait \<open>CommitmentScheme\<close> (\<open>zkmemory/src/commitment/commitment_scheme.rs\<close>). Every
  scheme promises that an honest opening verifies; one whose openings are the committed data
  promises too that only the opening and the commitment of the witness verify. An operation
  that panics makes no promise.
\<close>

locale opening_scheme =
  fixes commit :: "'w \<Rightarrow> 'c option"
    and opens :: "'w \<Rightarrow> 'o option"
    and verify :: "'c \<Rightarrow> 'o \<Rightarrow> 'w \<Rightarrow> bool option"
  assumes honest: "commit w = Some c \<Longrightarrow> opens w = Some p \<Longrightarrow> verify c p w = Some True"

locale commitment_scheme = opening_scheme +
  assumes sound: "verify c p w = Some True \<Longrightarrow> opens w = Some p \<and> commit w = Some c"
begin

lemma verify_iff: "verify c p w = Some True \<longleftrightarrow> opens w = Some p \<and> commit w = Some c"
  using honest sound by blast

lemma commitment_unique: "verify c p w = Some True \<Longrightarrow> verify c2 p2 w = Some True \<Longrightarrow> c = c2 \<and> p = p2"
  by (simp add: verify_iff)

end

end
