(* ===== verification/Merkle_Tree.thy ===== *)
theory Merkle_Tree
  imports Poseidon_Hash_Circuit Gadget_Facts Commitment_Scheme
begin

text \<open>
  The Merkle tree commitment (\<open>zkmemory/src/commitment/merkle_tree.rs\<close>), an instance of the
  trait of \<open>Commitment_Scheme\<close>. The circuit is read under an arbitrary assignment: one row of
  advice per level, and the regions of the hash chip.
\<close>

section \<open>The commitment\<close>

text \<open>\<open>merkle_tree_commit_fp\<close>: a missing index panics, any index but zero swaps.\<close>

definition merkle_step :: "'f::field spec \<Rightarrow> u64 list \<Rightarrow> u64 list \<Rightarrow> nat \<Rightarrow> 'f \<Rightarrow> 'f option" where
  "merkle_step S elements indices i digest = do {
     index \<leftarrow> vec_get indices i;
     element \<leftarrow> vec_get elements i;
     let message = (if index = 0 then [digest, field_from_u64 element] else [field_from_u64 element, digest]);
     poseidon_hash S message }"

definition merkle_tree_commit_fp :: "'f::field spec \<Rightarrow> u64 \<Rightarrow> u64 list \<Rightarrow> u64 list \<Rightarrow> 'f option" where
  "merkle_tree_commit_fp S leaf elements indices =
     loop_m (merkle_step S elements indices) [0..<length elements] (field_from_u64 leaf)"

record merkle_witness =
  mw_leaf :: u64
  mw_elements :: "u64 list"
  mw_indices :: "u64 list"

definition MerkleWitness_new :: "u64 \<Rightarrow> u64 list \<Rightarrow> u64 list \<Rightarrow> merkle_witness" where
  "MerkleWitness_new leaf elements indices = \<lparr>mw_leaf = leaf, mw_elements = elements, mw_indices = indices\<rparr>"

definition to_circuit_format :: "merkle_witness \<Rightarrow> 'f::field \<times> 'f list \<times> 'f list" where
  "to_circuit_format w = (field_from_u64 (mw_leaf w), map field_from_u64 (mw_elements w), map field_from_u64 (mw_indices w))"

section \<open>The circuit\<close>

record 'f merkle_circuit =
  mc_leaf :: 'f
  mc_elements :: "'f list"
  mc_indices :: "'f list"

text \<open>The advice columns \<open>[digest, element, left, right]\<close> and \<open>indices\<close> of a level.\<close>

record 'f merkle_level =
  ml_digest :: 'f
  ml_element :: 'f
  ml_left :: 'f
  ml_right :: 'f
  ml_index :: 'f

definition merkle_gates :: "'f::field \<Rightarrow> 'f merkle_level \<Rightarrow> 'f list" where
  "merkle_gates selector l =
     [selector * ml_index l * (1 - ml_index l),
      selector * (ml_left l - (ml_digest l + ml_index l * (ml_element l - ml_digest l))),
      selector * (ml_right l - (ml_element l + ml_index l * (ml_digest l - ml_element l)))]"

text \<open>
  The loop of \<open>synthesize\<close> over the levels of an assignment: the digest is copied in, the
  gates of the row hold, and the chip's output is the next digest. The circuit fixes the
  number of levels; \<open>leaf\<close> and \<open>levels\<close> are the assigned cells.
\<close>

fun merkle_levels ::
    "'f::field poseidon_config \<Rightarrow> 'f merkle_level list \<Rightarrow> 'f \<Rightarrow> 'f synth \<Rightarrow> ('f \<times> 'f synth) option" where
  "merkle_levels C [] digest sy = Some (digest, sy)"
| "merkle_levels C (l # ls) digest sy = do {
     let sy = require (ml_digest l = digest \<and> (\<forall>e \<in> set (merkle_gates 1 l). e = 0)) sy;
     (digest, sy) \<leftarrow> chip_hash C [ml_left l, ml_right l] sy;
     merkle_levels C ls digest sy }"

definition merkle_synthesize ::
    "'f::field poseidon_config \<Rightarrow> 'f merkle_circuit \<Rightarrow> 'f \<times> 'f \<Rightarrow> 'f \<Rightarrow> (nat \<Rightarrow> 'f merkle_level) \<Rightarrow>
     'f synth \<Rightarrow> 'f synth option" where
  "merkle_synthesize C circuit instances leaf levels sy = do {
     assert_ok (length (mc_indices circuit) = length (mc_elements circuit));
     let sy = require (leaf = fst instances) sy;
     (rt, sy) \<leftarrow> merkle_levels C (map levels [0..<length (mc_indices circuit)]) leaf sy;
     Some (require (rt = snd instances) sy) }"

text \<open>The values the prover assigns to a level.\<close>

definition merkle_assign :: "'f::field \<Rightarrow> 'f \<Rightarrow> 'f \<Rightarrow> 'f merkle_level" where
  "merkle_assign digest element index =
     (let (left, right) = (if index = 0 then (digest, element) else (element, digest)) in
      \<lparr>ml_digest = digest, ml_element = element, ml_left = left, ml_right = right, ml_index = index\<rparr>)"

section \<open>The commitment scheme\<close>

definition merkle_setup :: "'f::field merkle_circuit" where
  "merkle_setup = \<lparr>mc_leaf = 0, mc_elements = [0], mc_indices = [0]\<rparr>"

definition merkle_commit :: "'f::field spec \<Rightarrow> merkle_witness \<Rightarrow> 'f option" where
  "merkle_commit S w = merkle_tree_commit_fp S (mw_leaf w) (mw_elements w) (mw_indices w)"

definition merkle_open :: "merkle_witness \<Rightarrow> u64 list" where
  "merkle_open w = mw_elements w"

definition merkle_verify :: "'f::field spec \<Rightarrow> 'f \<Rightarrow> u64 list \<Rightarrow> merkle_witness \<Rightarrow> bool option" where
  "merkle_verify S commitment opening w =
     (if opening \<noteq> mw_elements w then Some False
      else do {
        rt \<leftarrow> merkle_tree_commit_fp S (mw_leaf w) opening (mw_indices w);
        Some (commitment = rt) })"

section \<open>Paths\<close>

text \<open>The root of a path given by elements and bits.\<close>

fun path_root :: "'f::field spec \<Rightarrow> 'f \<Rightarrow> ('f \<times> bool) list \<Rightarrow> 'f option" where
  "path_root S digest [] = Some digest"
| "path_root S digest ((element, b) # path) = do {
     d \<leftarrow> poseidon_hash S (if b then [element, digest] else [digest, element]);
     path_root S d path }"

lemma commit_is_path:
  fixes S :: "'f::field spec"
  assumes "length elements \<le> length indices"
  shows "merkle_tree_commit_fp S leaf elements indices =
    path_root S (field_from_u64 leaf) (map (\<lambda>(e, i). (field_from_u64 e, i \<noteq> 0)) (zip elements indices))"
proof -
  let ?path = "\<lambda>k. map (\<lambda>i. (field_from_u64 (elements ! i), indices ! i \<noteq> 0)) [k..<length elements] :: ('f \<times> bool) list"
  have step: "loop_m (merkle_step S elements indices) [k..<length elements] d = path_root S d (?path k)"
    if "k \<le> length elements" for k d
    using that
  proof (induction "length elements - k" arbitrary: k d)
    case (Suc n)
    then have "k < length elements" by simp
    then have u: "[k..<length elements] = k # [Suc k..<length elements]" by (rule upt_conv_Cons)
    have "n = length elements - Suc k" "Suc k \<le> length elements" using Suc.hyps(2) by simp_all
    then have IH: "loop_m (merkle_step S elements indices) [Suc k..<length elements] = (\<lambda>d. path_root S d (?path (Suc k)))"
      by (intro ext Suc.hyps(1))
    show ?case
      using \<open>k < length elements\<close> assms by (simp add: u merkle_step_def IH Let_def del: upt_Suc)
  qed simp
  have "?path 0 = map (\<lambda>(e, i). (field_from_u64 e, i \<noteq> 0)) (zip elements indices)"
    using assms by (intro nth_equalityI) (simp_all del: upt_Suc)
  with step [of 0 "field_from_u64 leaf"] show ?thesis by (simp add: merkle_tree_commit_fp_def)
qed

text \<open>A level whose gates hold swaps by its bit.\<close>

lemma gates_hold_iff:
  "(\<forall>e \<in> set (merkle_gates 1 l). e = 0) \<longleftrightarrow>
     (ml_index l = 0 \<and> ml_left l = ml_digest l \<and> ml_right l = ml_element l) \<or>
     (ml_index l = 1 \<and> ml_left l = ml_element l \<and> ml_right l = ml_digest l)"
  by (auto simp: merkle_gates_def)

lemma merkle_levels_sound:
  assumes S: "chip_spec S" and "merkle_levels (config_of S) ls digest sy = Some (rt, sy')" and "snd sy'"
  shows "snd sy \<and> path_root S digest (map (\<lambda>l. (ml_element l, ml_index l = 1)) ls) = Some rt \<and>
    (\<forall>l \<in> set ls. ml_index l = 0 \<or> ml_index l = 1)"
  using assms(2,3)
proof (induction ls arbitrary: digest sy)
  case (Cons l ls)
  let ?sy = "require (ml_digest l = digest \<and> (\<forall>e \<in> set (merkle_gates 1 l). e = 0)) sy"
  obtain d sy1 where h: "chip_hash (config_of S) [ml_left l, ml_right l] ?sy = Some (d, sy1)"
    and r: "merkle_levels (config_of S) ls d sy1 = Some (rt, sy')"
    using Cons.prems(1) by (auto simp: Let_def simp del: set_simps split: bind_splits)
  note IH = Cons.IH [OF r Cons.prems(2)]
  have H: "snd ?sy \<and> poseidon_hash S [ml_left l, ml_right l] = Some d"
    using chip_hash_sound [OF S h] IH by blast
  then have "ml_digest l = digest" "\<forall>e \<in> set (merkle_gates 1 l). e = 0" "snd sy"
    by (simp_all add: require_def)
  then show ?case using H IH unfolding gates_hold_iff by auto
qed simp

lemma merkle_levels_complete:
  assumes S: "chip_spec S" and "path_root S digest path = Some rt"
  shows "\<exists>ls ads. map (\<lambda>l. (ml_element l, ml_index l = 1)) ls = path \<and>
    (\<forall>rest. merkle_levels (config_of S) ls digest (ads @ rest, True) = Some (rt, (rest, True)))"
  using assms(2)
proof (induction path arbitrary: digest)
  case Nil
  then show ?case by (intro exI [of _ "[]"]) simp
next
  case (Cons p path)
  obtain element b where p: "p = (element, b)" by (cases p)
  let ?l = "merkle_assign digest element (of_bool b)"
  obtain d where d: "poseidon_hash S [ml_left ?l, ml_right ?l] = Some d" "path_root S d path = Some rt"
    using Cons.prems by (cases b) (auto simp: p merkle_assign_def split: bind_splits)
  obtain ads1 where 1: "\<And>rest. chip_hash (config_of S) [ml_left ?l, ml_right ?l] (ads1 @ rest, True) = Some (d, (rest, True))"
    using chip_hash_complete [OF S d(1)] by blast
  obtain ls ads2 where 2: "map (\<lambda>l. (ml_element l, ml_index l = 1)) ls = path"
    "\<And>rest. merkle_levels (config_of S) ls d (ads2 @ rest, True) = Some (rt, (rest, True))"
    using Cons.IH [OF d(2)] by blast
  have g: "\<forall>e \<in> set (merkle_gates 1 ?l). e = 0" unfolding gates_hold_iff by (simp add: merkle_assign_def)
  have dg: "ml_digest ?l = digest" "ml_element ?l = element" "ml_index ?l = of_bool b"
    by (simp_all add: merkle_assign_def)
  have "merkle_levels (config_of S) (?l # ls) digest ((ads1 @ ads2) @ rest, True) = Some (rt, (rest, True))" for rest
    using 1 [of "ads2 @ rest"] 2(2) [of rest] g by (simp add: require_def dg Let_def del: set_simps)
  moreover have "map (\<lambda>l. (ml_element l, ml_index l = 1)) (?l # ls) = p # path" using 2(1) by (simp add: dg p)
  ultimately show ?case by (intro exI [of _ "?l # ls"] exI [of _ "ads1 @ ads2"] conjI allI) simp_all
qed

lemma merkle_levels_iff:
  assumes "chip_spec S"
  shows "(\<exists>ls ads rest. map (\<lambda>l. (ml_element l, ml_index l)) ls = path \<and>
      merkle_levels (config_of S) ls digest (ads, True) = Some (rt, (rest, True))) \<longleftrightarrow>
    (\<forall>(e, b) \<in> set path. b = 0 \<or> b = 1) \<and> path_root S digest (map (\<lambda>(e, b). (e, b = 1)) path) = Some rt"
    (is "?L \<longleftrightarrow> ?R")
proof
  assume ?L
  then show ?R using merkle_levels_sound [OF assms] by (fastforce simp: o_def)
next
  assume R: ?R
  then obtain ls ads where ls: "map (\<lambda>l. (ml_element l, ml_index l = 1)) ls = map (\<lambda>(e, b). (e, b = 1)) path"
    and run: "\<And>rest. merkle_levels (config_of S) ls digest (ads @ rest, True) = Some (rt, (rest, True))"
    using merkle_levels_complete [OF assms] by blast
  have bits: "\<forall>l \<in> set ls. ml_index l = 0 \<or> ml_index l = 1"
    using merkle_levels_sound [OF assms run [of "[]"]] by simp
  have "map (\<lambda>l. (ml_element l, ml_index l)) ls = path"
  proof (rule nth_equalityI)
    show len: "length (map (\<lambda>l. (ml_element l, ml_index l)) ls) = length path" using arg_cong [OF ls, of length] by simp
    fix i assume "i < length (map (\<lambda>l. (ml_element l, ml_index l)) ls)"
    then have "i < length ls" "i < length path" using len by simp_all
    then have "(ml_element (ls ! i), ml_index (ls ! i) = 1) = (fst (path ! i), snd (path ! i) = 1)"
      "ml_index (ls ! i) = 0 \<or> ml_index (ls ! i) = 1" "snd (path ! i) = 0 \<or> snd (path ! i) = 1"
      using arg_cong [OF ls, of "\<lambda>xs. xs ! i"] bits R nth_mem [of i path] nth_mem [of i ls] by (auto simp: split_def)
    then show "map (\<lambda>l. (ml_element l, ml_index l)) ls ! i = path ! i"
      using \<open>i < length ls\<close> by (cases "path ! i") auto
  qed
  then show ?L using run [of "[]"] by (metis append_Nil2)
qed

section \<open>The trait\<close>

interpretation merkle: commitment_scheme "merkle_commit S" "\<lambda>w. Some (merkle_open w)" "merkle_verify S"
  for S :: "'f::field spec"
  by unfold_locales (auto simp: merkle_commit_def merkle_open_def merkle_verify_def split: if_splits bind_splits)

section \<open>Properties\<close>

lemma all_zip_snd:
  "length xs = length ys \<Longrightarrow> (\<forall>(x, y) \<in> set (zip xs ys). P y) \<longleftrightarrow> (\<forall>y \<in> set ys. P y)"
  by (induction xs ys rule: list_induct2) auto

lemma levels_as_assignment:
  assumes "length ls = n" shows "\<exists>f. map f [0..<n] = ls"
  using assms by (intro exI [of _ "(!) ls"]) (auto simp: map_nth)

definition circuit_of :: "merkle_witness \<Rightarrow> 'f::field merkle_circuit" where
  "circuit_of w = (let (leaf, elements, indices) = to_circuit_format w in
     \<lparr>mc_leaf = leaf, mc_elements = elements, mc_indices = indices\<rparr>)"

lemma merkle_circuit_aux:
  assumes "chip_spec S" and "configure S = Some C" and "wide_field TYPE('f::field) (2 ^ 64)"
    and "length (mw_indices w) = length (mw_elements w)"
  shows "(\<exists>leaf levels ads rest.
      map (\<lambda>i. (ml_element (levels i), ml_index (levels i))) [0..<length (mw_indices w)] =
        zip (mc_elements (circuit_of w)) (mc_indices (circuit_of w)) \<and>
      merkle_synthesize C (circuit_of w) (mc_leaf (circuit_of w), rt :: 'f) leaf levels (ads, True) = Some (rest, True)) \<longleftrightarrow>
    (\<forall>i \<in> set (mw_indices w). i = 0 \<or> i = 1) \<and> merkle_commit S w = Some rt"
    (is "?L \<longleftrightarrow> ?bits \<and> _")
proof -
  have C: "C = config_of S" using assms(2) configure_ok [OF assms(1)] by simp
  let ?n = "length (mw_indices w)" and ?lf = "field_from_u64 (mw_leaf w) :: 'f"
  let ?path = "zip (map field_from_u64 (mw_elements w)) (map field_from_u64 (mw_indices w)) :: ('f \<times> 'f) list"
  have of: "mc_leaf (circuit_of w) = ?lf" "mc_elements (circuit_of w) = map field_from_u64 (mw_elements w)"
    "mc_indices (circuit_of w) = map field_from_u64 (mw_indices w)"
    by (simp_all add: circuit_of_def to_circuit_format_def)
  have inj: "field_from_u64 x = (0::'f) \<longleftrightarrow> x = 0" "field_from_u64 x = (1::'f) \<longleftrightarrow> x = 1" for x
    using field_from_u64_inj [OF assms(3), of x 0] field_from_u64_inj [OF assms(3), of x 1]
    by (simp_all add: field_from_u64_def)
  have "?L \<longleftrightarrow> (\<exists>levels ads rest. map (\<lambda>i. (ml_element (levels i), ml_index (levels i))) [0..<?n] = ?path \<and>
      merkle_levels C (map levels [0..<?n]) ?lf (ads, True) = Some (rt, (rest, True)))"
    (is "_ \<longleftrightarrow> ?A")
  proof
    assume ?L
    then obtain leaf levels ads rest where
      path: "map (\<lambda>i. (ml_element (levels i), ml_index (levels i))) [0..<?n] = ?path"
      and run: "merkle_levels C (map levels [0..<?n]) leaf (require (leaf = ?lf) (ads, True)) = Some (rt, (rest, True))"
      unfolding merkle_synthesize_def of by (auto simp: require_def split: bind_splits)
    have "leaf = ?lf" using merkle_levels_sound [OF assms(1) run [unfolded C]] by (simp add: require_def)
    with path run show ?A by (auto simp: require_def)
  next
    assume ?A
    then obtain levels ads rest where "map (\<lambda>i. (ml_element (levels i), ml_index (levels i))) [0..<?n] = ?path"
      "merkle_levels C (map levels [0..<?n]) ?lf (ads, True) = Some (rt, (rest, True))" by blast
    then show ?L unfolding merkle_synthesize_def of using assms(4)
      by (intro exI [of _ ?lf] exI [of _ levels] exI [of _ ads] exI [of _ rest]) (simp add: require_def)
  qed
  also have "\<dots> \<longleftrightarrow> (\<exists>ls ads rest. map (\<lambda>l. (ml_element l, ml_index l)) ls = ?path \<and>
      merkle_levels C ls ?lf (ads, True) = Some (rt, (rest, True)))" (is "_ \<longleftrightarrow> ?B")
  proof
    assume ?A
    then obtain levels ads rest where "map (\<lambda>i. (ml_element (levels i), ml_index (levels i))) [0..<?n] = ?path"
      "merkle_levels C (map levels [0..<?n]) ?lf (ads, True) = Some (rt, (rest, True))" by blast
    then show ?B by (intro exI [of _ "map levels [0..<?n]"] exI [of _ ads] exI [of _ rest]) (simp add: o_def)
  next
    assume ?B
    then obtain ls ads rest where ls: "map (\<lambda>l. (ml_element l, ml_index l)) ls = ?path"
      "merkle_levels C ls ?lf (ads, True) = Some (rt, (rest, True))" by blast
    then have "length ls = ?n" using assms(4) arg_cong [OF ls(1), of length, unfolded length_map length_zip] by simp
    then obtain f where "map f [0..<?n] = ls" using levels_as_assignment by blast
    with ls show ?A by (intro exI [of _ f] exI [of _ ads] exI [of _ rest]) (auto simp: o_def)
  qed
  also have "\<dots> \<longleftrightarrow> (\<forall>(e, b) \<in> set ?path. b = 0 \<or> b = 1) \<and> path_root S ?lf (map (\<lambda>(e, b). (e, b = 1)) ?path) = Some rt"
    unfolding C by (rule merkle_levels_iff [OF assms(1)])
  also have "(\<forall>(e, b) \<in> set ?path. b = 0 \<or> b = 1) \<longleftrightarrow> ?bits"
    using assms(4) by (subst all_zip_snd) (simp_all add: inj)
  also have "(?bits \<and> path_root S ?lf (map (\<lambda>(e, b). (e, b = 1)) ?path) = Some rt) \<longleftrightarrow> ?bits \<and> merkle_commit S w = Some rt"
  proof (rule conj_cong [OF refl])
    assume bits: ?bits
    have "map (\<lambda>(e, b). (e, b = 1)) ?path = map (\<lambda>(e, i). (field_from_u64 e, i \<noteq> 0)) (zip (mw_elements w) (mw_indices w))"
      using bits by (fastforce simp: zip_map_map inj dest: set_zip_rightD)
    then show "path_root S ?lf (map (\<lambda>(e, b). (e, b = 1)) ?path) = Some rt \<longleftrightarrow> merkle_commit S w = Some rt"
      using assms(4) by (simp add: merkle_commit_def commit_is_path)
  qed
  finally show ?thesis .
qed

text \<open>
  C16: the Merkle circuit of a witness has a satisfying assignment carrying the witness's
  siblings and indices, for a public leaf and root, exactly when the indices are bits and the
  root is the one the native function computes. So the two agree on bits only: any other
  index swaps in the native function, and the circuit refuses it.
\<close>

theorem merkle_circuit_exact:
  assumes "chip_spec S" and "configure S = Some C" and "wide_field TYPE('f::field) (2 ^ 64)"
    and "length (mw_indices w) = length (mw_elements w)"
  shows "(\<exists>leaf levels ads rest.
      map (\<lambda>i. (ml_element (levels i), ml_index (levels i))) [0..<length (mw_indices w)] =
        zip (mc_elements (circuit_of w)) (mc_indices (circuit_of w)) \<and>
      merkle_synthesize C (circuit_of w) (mc_leaf (circuit_of w), rt :: 'f) leaf levels (ads, True) = Some (rest, True)) \<longleftrightarrow>
    (\<forall>i \<in> set (mw_indices w). i = 0 \<or> i = 1) \<and> merkle_commit S w = Some rt"
  by (rule merkle_circuit_aux [OF assms])

theorem merkle_circuit_exact_witness:
  "\<exists>leaf levels ads rest. merkle_synthesize (config_of small_spec) (circuit_of (MerkleWitness_new 5 [6] [1]))
     (5, block_hash small_spec [6, 5] :: rat) leaf levels (ads, True) = Some (rest, True)"
proof -
  let ?w = "MerkleWitness_new 5 [6] [1]"
  have "poseidon_hash small_spec [6, 5 :: rat] = Some (block_hash small_spec [6, 5])"
    using poseidon_hash_blocks [OF chip_spec_ok [OF small_chip]] by blast
  then have "merkle_commit small_spec ?w = Some (block_hash small_spec [6, 5] :: rat)"
    by (simp add: merkle_commit_def commit_is_path MerkleWitness_new_def field_from_u64_def)
  moreover have "mc_leaf (circuit_of ?w) = (5 :: rat)"
    by (simp add: circuit_of_def to_circuit_format_def MerkleWitness_new_def field_from_u64_def)
  ultimately show ?thesis
    using merkle_circuit_exact [OF small_chip configure_ok [OF small_chip] wide_field_rat, of ?w "block_hash small_spec [6, 5]"]
    by (auto simp: MerkleWitness_new_def)
qed

text \<open>Two openings of one commitment that differ collide somewhere on their paths.\<close>

definition collision :: "'f::field spec \<Rightarrow> bool" where
  "collision S \<longleftrightarrow> (\<exists>a b c d out. (a, b) \<noteq> (c, d) \<and> poseidon_hash S [a, b] = Some out \<and> poseidon_hash S [c, d] = Some out)"

lemma path_collision:
  assumes "path_root S d p = Some rt" "path_root S d' p' = Some rt" "map snd p = map snd p'" "(d, p) \<noteq> (d', p')"
  shows "collision S"
  using assms
proof (induction p arbitrary: d d' p')
  case (Cons x p)
  obtain e b e' p'' where x: "x = (e, b)" and p': "p' = (e', b) # p''"
    using Cons.prems(3) by (cases x; cases p') auto
  let ?m = "\<lambda>e d. if b then [e, d] else [d, e]"
  obtain h h' where h: "poseidon_hash S (?m e d) = Some h" "path_root S h p = Some rt"
    "poseidon_hash S (?m e' d') = Some h'" "path_root S h' p'' = Some rt"
    using Cons.prems(1,2) by (auto simp: x p' split: bind_splits)
  show ?case
  proof (cases "(h, p) = (h', p'')")
    case True
    then have "(d, e) \<noteq> (d', e')" using Cons.prems(4) by (auto simp: x p')
    then show ?thesis using h(1,3) True unfolding collision_def by (cases b) (auto, blast+)
  next
    case False
    then show ?thesis using Cons.IH h(2,4) Cons.prems(3) by (auto simp: x p')
  qed
qed simp

text \<open>
  The commitment binds. If two witnesses of the same length and the same positions
  verify under one commitment, they have the same leaf and siblings, or two different pairs
  of field elements have the same hash.
\<close>

theorem merkle_binding:
  fixes S :: "'f::field spec"
  assumes wide: "wide_field TYPE('f) (2 ^ 64)"
    and "merkle_verify S c o1 w1 = Some True" and "merkle_verify S c o2 w2 = Some True"
    and "length o1 = length o2" and "length o1 = length (mw_indices w1)"
    and "map ((=) 0) (mw_indices w1) = map ((=) 0) (mw_indices w2)"
  shows "(mw_leaf w1 = mw_leaf w2 \<and> o1 = o2) \<or> collision S"
proof -
  have o: "o1 = mw_elements w1" "o2 = mw_elements w2" and c: "merkle_commit S w1 = Some c" "merkle_commit S w2 = Some c"
    using merkle.sound [OF assms(2)] merkle.sound [OF assms(3)] by (simp_all add: merkle_open_def)
  have i: "length (mw_indices w1) = length (mw_indices w2)" using arg_cong [OF assms(6), of length] by simp
  have inj: "inj (field_from_u64 :: u64 \<Rightarrow> 'f)" by (rule injI) (simp add: field_from_u64_inj [OF wide])
  let ?path = "\<lambda>w. map (\<lambda>(e, i). (field_from_u64 e :: 'f, i \<noteq> 0)) (zip (mw_elements (w :: merkle_witness)) (mw_indices w))"
  let ?leaf = "\<lambda>w. field_from_u64 (mw_leaf w) :: 'f"
  have roots: "path_root S (?leaf w1) (?path w1) = Some c" "path_root S (?leaf w2) (?path w2) = Some c"
    using c o i assms(4,5) commit_is_path [of "mw_elements w1" "mw_indices w1" S] commit_is_path [of "mw_elements w2" "mw_indices w2" S]
    by (simp_all add: merkle_commit_def)
  have parts: "map fst (?path w) = map field_from_u64 (mw_elements w) \<and> map snd (?path w) = map Not (map ((=) 0) (mw_indices w))"
    if "length (mw_elements w) = length (mw_indices w)" for w
    using that by (auto simp: list_eq_iff_nth_eq)
  have p: "map snd (?path w1) = map snd (?path w2)" using parts o i assms(4-6) by metis
  show ?thesis
  proof (cases "(?leaf w1, ?path w1) = (?leaf w2, ?path w2)")
    case True
    then have "map field_from_u64 (mw_elements w1) = (map field_from_u64 (mw_elements w2) :: 'f list)"
      using parts o i assms(4,5) by (metis Pair_inject)
    then have "o1 = o2" using o inj by simp
    with True show ?thesis using inj by (simp add: inj_eq)
  next
    case False
    then show ?thesis using path_collision [OF roots p] by blast
  qed
qed

text \<open>A permutation without rounds: the hash is the first word of the block.\<close>

definition roundless_spec :: "'f::field spec" where
  "roundless_spec = \<lparr>sp_T = 3, sp_R = 2, full_rounds = 0, partial_rounds = 0, sbox = (\<lambda>x. x ^ 5),
     round_constants = [], mds = replicate 3 [0, 0, 0], mds_inv = replicate 3 [0, 0, 0]\<rparr>"

lemma roundless_hash: "poseidon_hash roundless_spec [a, b] = Some (a :: rat)"
proof -
  have "spec_ok (roundless_spec :: rat spec)" by (simp add: spec_ok_def roundless_spec_def)
  then have "poseidon_hash roundless_spec [a, b] = Some (block_hash roundless_spec [a, b])"
    by (rule poseidon_hash_blocks) simp
  also have "block_hash roundless_spec [a, b] = a"
  proof -
    have R: "sp_R (roundless_spec :: rat spec) = 2" by (simp add: roundless_spec_def)
    have b: "blocks 2 (padded 2 [a, b]) = [[a, b]]" by (simp add: padded_def blocks_short)
    have st: "\<exists>w. initial_state_words (roundless_spec :: rat spec) (length [a, b]) = [0, 0, w]"
      by (simp add: initial_state_words_def roundless_spec_def numeral_3_eq_3)
    have "absorb_block roundless_spec [0, 0, w] [a, b] = [a, b, w]" for w
      by (simp add: absorb_block_def permute_def roundless_spec_def)
    then show ?thesis using st unfolding block_hash_def R b by auto
  qed
  finally show ?thesis .
qed

theorem merkle_binding_witness: "collision (roundless_spec :: rat spec)"
proof -
  have v: "merkle_verify roundless_spec (1 :: rat) [e] (MerkleWitness_new 1 [e] [0]) = Some True" for e
    using roundless_hash [of 1 "field_from_u64 e"]
    by (simp add: merkle_verify_def commit_is_path MerkleWitness_new_def field_from_u64_def)
  show ?thesis
    using merkle_binding [OF wide_field_rat v [of 2] v [of 3]] by (simp add: MerkleWitness_new_def)
qed

end
