(* ===== verification/Nova_Circuit.thy ===== *)
theory Nova_Circuit
  imports Poseidon_Hash Gadget_Facts
begin

text \<open>
  The step circuit of the Nova backend (\<open>zkmemory/src/nova/memory_consistency_circuit.rs\<close>).
  A step reads its variables from an assignment; the prover's assignment is the one the
  allocation closures compute. A constraint is a triple of linear combinations with
  \<open>a * b = c\<close>.
\<close>

section \<open>The commitment to the memory\<close>

definition vec_pop :: "'a list \<Rightarrow> ('a \<times> 'a list) option" where
  "vec_pop xs = (if xs = [] then panic else Some (last xs, butlast xs))"

lemma vec_pop_eq_Some: "vec_pop xs = Some (a, ys) \<longleftrightarrow> xs = ys @ [a]"
  by (cases xs rule: rev_cases) (auto simp: vec_pop_def)

text \<open>The inner and the outer loop of \<open>merkle_tree_commit\<close>, on a vector used as a stack.\<close>

fun commit_inner :: "'f::field spec \<Rightarrow> nat \<Rightarrow> 'f list \<Rightarrow> 'f list option" where
  "commit_inner S root_size rt =
     (if 1 < root_size then do {
        (left, rt) \<leftarrow> vec_pop rt;
        (right, rt) \<leftarrow> vec_pop rt;
        out \<leftarrow> poseidon_hash S [left, right];
        commit_inner S (root_size - 2) (rt @ [out]) }
      else Some rt)"

declare commit_inner.simps [simp del]

lemma commit_inner_length: "commit_inner S n rt = Some rt' \<Longrightarrow> length rt' + n div 2 = length rt"
proof (induction S n rt arbitrary: rt' rule: commit_inner.induct)
  case (1 S n rt)
  show ?case
  proof (cases "1 < n")
    case True
    then obtain a xs b ys out where p: "vec_pop rt = Some (a, xs)" "vec_pop xs = Some (b, ys)"
      "poseidon_hash S [a, b] = Some out" "commit_inner S (n - 2) (ys @ [out]) = Some rt'"
      using 1(2) by (auto simp: commit_inner.simps [of S n rt] split: bind_splits)
    have "length rt' + (n - 2) div 2 = length (ys @ [out])" using 1(1) [OF True p(1) _ p(2) _ p(3,4)] by simp
    moreover have "length rt = Suc (length xs)" "length xs = Suc (length ys)"
      using p(1,2) by (simp_all add: vec_pop_eq_Some)
    ultimately show ?thesis using True by (simp add: div_if)
  next
    case False
    then show ?thesis using 1(2) by (simp add: commit_inner.simps [of S n rt])
  qed
qed

function commit_outer :: "'f::field spec \<Rightarrow> 'f list \<Rightarrow> 'f list option" where
  "commit_outer S rt =
     (if 1 < length rt then Option.bind (commit_inner S (length rt) rt) (commit_outer S) else Some rt)"
  by pat_completeness auto

termination
proof (relation "measure (\<lambda>(S, rt). length rt)")
  fix S :: "'f::field spec" and rt rt'
  assume "1 < length rt" "commit_inner S (length rt) rt = Some rt'"
  then show "((S, rt'), (S, rt)) \<in> measure (\<lambda>(S, rt). length rt)"
    using commit_inner_length [of S "length rt" rt rt'] by simp
qed simp

declare commit_outer.simps [simp del]

definition memory_commit :: "'f::field spec \<Rightarrow> 'f list \<Rightarrow> 'f option" where
  "memory_commit S mem = do {
     rt \<leftarrow> commit_outer S mem;
     vec_get rt 0 }"

text \<open>The stack makes it a chain of hashes from the last cell to the first, not a tree.\<close>

fun hash_chain :: "'f::field spec \<Rightarrow> 'f \<Rightarrow> 'f list \<Rightarrow> 'f option" where
  "hash_chain S acc [] = Some acc"
| "hash_chain S acc (x # xs) = Option.bind (poseidon_hash S [acc, x]) (\<lambda>h. hash_chain S h xs)"

lemma hash_chain_append: "hash_chain S acc (xs @ ys) = Option.bind (hash_chain S acc xs) (\<lambda>h. hash_chain S h ys)"
  by (induction xs arbitrary: acc) (auto split: bind_splits)

lemma commit_inner_chain:
  assumes "n div 2 \<le> length xs"
  shows "commit_inner S n (rev xs @ [acc]) =
    map_option (\<lambda>h. rev (drop (n div 2) xs) @ [h]) (hash_chain S acc (take (n div 2) xs))"
  using assms
proof (induction n arbitrary: xs acc rule: less_induct)
  case (less n)
  show ?case
  proof (cases "1 < n")
    case False
    then have "n div 2 = 0" by simp
    with False show ?thesis by (simp add: commit_inner.simps [of S n])
  next
    case True
    then have d: "n div 2 = Suc ((n - 2) div 2)" by (simp add: div_if)
    then obtain x ys where xs: "xs = x # ys" using less.prems by (cases xs) auto
    have IH: "commit_inner S (n - 2) (rev ys @ [h]) =
        map_option (\<lambda>h. rev (drop ((n - 2) div 2) ys) @ [h]) (hash_chain S h (take ((n - 2) div 2) ys))" for h
      using less.IH [of "n - 2" ys h] less.prems True by (simp add: d xs)
    show ?thesis
      using True by (simp add: commit_inner.simps [of S n] vec_pop_def xs d IH butlast_append split: bind_splits)
  qed
qed

lemma commit_outer_chain: "commit_outer S (rev xs @ [acc]) = map_option (\<lambda>h. [h]) (hash_chain S acc xs)"
proof (induction "length xs" arbitrary: xs acc rule: less_induct)
  case less
  show ?case
  proof (cases xs)
    case Nil
    then show ?thesis by (simp add: commit_outer.simps)
  next
    case (Cons x ys)
    let ?k = "Suc (length xs) div 2"
    have k: "?k \<le> length xs" "0 < ?k" using Cons by simp_all
    have "length (drop ?k xs) < length xs" using k Cons by simp
    note IH = less [OF this]
    have "commit_outer S (rev xs @ [acc]) = Option.bind (commit_inner S (Suc (length xs)) (rev xs @ [acc])) (commit_outer S)"
      using Cons by (subst commit_outer.simps) simp
    also have "\<dots> = Option.bind (hash_chain S acc (take ?k xs)) (\<lambda>h. commit_outer S (rev (drop ?k xs) @ [h]))"
      by (subst commit_inner_chain [OF k(1)]) (auto split: bind_splits)
    also have "\<dots> = map_option (\<lambda>h. [h]) (hash_chain S acc (take ?k xs @ drop ?k xs))"
      unfolding IH hash_chain_append by (auto split: bind_splits)
    finally show ?thesis by simp
  qed
qed

lemma memory_commit_chain:
  "memory_commit S mem = (if mem = [] then None else hash_chain S (last mem) (rev (butlast mem)))"
proof (cases mem rule: rev_cases)
  case Nil
  then show ?thesis by (simp add: memory_commit_def commit_outer.simps vec_get_def)
next
  case (snoc xs x)
  then show ?thesis
    using commit_outer_chain [of S "rev xs" x] by (auto simp: memory_commit_def split: bind_splits)
qed

section \<open>The circuit\<close>

record 'f nova_record =
  nr_address :: 'f
  nr_instruction :: 'f
  nr_value :: 'f

record 'f nova_circuit =
  nc_memory_len :: nat
  nc_num_iters :: nat
  nc_trace :: "'f nova_record list"

text \<open>\<open>NovaMemoryConsistencyCircuit::new\<close>: the vectors are indexed, so a short one panics.\<close>

definition NovaCircuit_new :: "nat \<Rightarrow> nat \<Rightarrow> u64 list \<Rightarrow> u64 list \<Rightarrow> u64 list \<Rightarrow> 'f::field nova_circuit option" where
  "NovaCircuit_new memory_len num_iters address instruction value = do {
     trace \<leftarrow> those (map (\<lambda>i. do {
       a \<leftarrow> vec_get address i;
       op \<leftarrow> vec_get instruction i;
       v \<leftarrow> vec_get value i;
       Some \<lparr>nr_address = field_from_u64 a, nr_instruction = field_from_u64 op, nr_value = field_from_u64 v\<rparr> })
       [0..<num_iters]);
     Some \<lparr>nc_memory_len = memory_len, nc_num_iters = num_iters, nc_trace = trace\<rparr> }"

text \<open>The variables of an iteration, and its constraints.\<close>

record 'f nova_vars =
  nv_value :: 'f
  nv_instruction :: 'f
  nv_memory_address :: 'f
  nv_commitment :: 'f
  nv_lookup :: 'f
  nv_cells :: "'f list"
  nv_new_commitment :: 'f

definition nova_constraints :: "nat \<Rightarrow> 'f::field list \<Rightarrow> 'f nova_vars \<Rightarrow> ('f \<times> 'f \<times> 'f) list" where
  "nova_constraints memory_len z_out v =
     [(nv_lookup v, 1, 1),
      (nv_commitment v, 1, z_out ! memory_len),
      (nv_instruction v, nv_memory_address v - nv_value v, nv_memory_address v - nv_value v),
      (nv_instruction v, nv_instruction v, nv_instruction v)]"

definition r1cs_holds :: "('f::field \<times> 'f \<times> 'f) list \<Rightarrow> bool" where
  "r1cs_holds cs = list_all (\<lambda>(a, b, c). a * b = c) cs"

text \<open>\<open>F::from(d)\<close> for the \<open>u8\<close> that tells whether two field elements are equal.\<close>

definition same_u8 :: "'f::field \<Rightarrow> 'f \<Rightarrow> u8" where
  "same_u8 i address = (if i - address = 0 then 1 else 0)"

definition nova_memory_address :: "'f::field list \<Rightarrow> 'f \<Rightarrow> 'f" where
  "nova_memory_address mem address =
     foldl (\<lambda>tmp (i, item). tmp + field_from_u64 (ucast (same_u8 (field_from_u64 (word_of_nat i)) address)) * item)
       0 (enumerate 0 mem)"

definition get_new_memory_cell :: "'f::field \<Rightarrow> 'f \<Rightarrow> 'f \<Rightarrow> 'f \<Rightarrow> 'f" where
  "get_new_memory_cell item value i address =
     (let d = same_u8 i address in
      field_from_u64 (ucast (1 - d)) * item + field_from_u64 (ucast d) * value)"

text \<open>The count of matching indices, in \<open>u8\<close> arithmetic.\<close>

definition lookup_res :: "nat \<Rightarrow> 'f::field \<Rightarrow> u8" where
  "lookup_res memory_len address =
     foldl (\<lambda>res i. res + same_u8 (field_from_u64 (word_of_nat i)) address) 0 [0..<memory_len]"

text \<open>The variables as the prover computes them.\<close>

definition nova_assign :: "'f::field spec \<Rightarrow> nat \<Rightarrow> 'f nova_record \<Rightarrow> 'f list \<Rightarrow> 'f nova_vars option" where
  "nova_assign S memory_len r z_out = do {
     let mem = take memory_len z_out;
     commitment \<leftarrow> memory_commit S mem;
     let cells = map (\<lambda>(i, item). get_new_memory_cell item (nr_value r) (field_from_u64 (word_of_nat i)) (nr_address r))
       (enumerate 0 mem);
     new_commitment \<leftarrow> memory_commit S cells;
     Some \<lparr>nv_value = nr_value r, nv_instruction = nr_instruction r,
       nv_memory_address = nova_memory_address mem (nr_address r), nv_commitment = commitment,
       nv_lookup = field_from_u64 (ucast (lookup_res memory_len (nr_address r))),
       nv_cells = cells, nv_new_commitment = new_commitment\<rparr> }"

text \<open>
  One iteration under given variables: the constraints it adds and the next \<open>z_out\<close>; the
  assertion on its length ends the iteration.
\<close>

definition nova_iteration ::
    "nat \<Rightarrow> 'f::field nova_vars \<Rightarrow> 'f list \<times> ('f \<times> 'f \<times> 'f) list \<Rightarrow> ('f list \<times> ('f \<times> 'f \<times> 'f) list) option" where
  "nova_iteration memory_len v = (\<lambda>(z_out, cs). do {
     let cs = cs @ nova_constraints memory_len z_out v;
     let z_out = nv_cells v @ [nv_new_commitment v];
     assert_ok (length z_out = memory_len + 1);
     Some (z_out, cs) })"

text \<open>\<open>synthesize\<close> with the prover's variables, and with variables of one's own choice.\<close>

definition nova_synthesize ::
    "'f::field spec \<Rightarrow> 'f nova_circuit \<Rightarrow> 'f list \<Rightarrow> ('f list \<times> ('f \<times> 'f \<times> 'f) list) option" where
  "nova_synthesize S c z_in = do {
     assert_ok (length z_in = nc_memory_len c + 1);
     loop_m (\<lambda>j s. do {
       r \<leftarrow> vec_get (nc_trace c) j;
       v \<leftarrow> nova_assign S (nc_memory_len c) r (fst s);
       nova_iteration (nc_memory_len c) v s }) [0..<nc_num_iters c] (z_in, []) }"

definition nova_relation ::
    "nat \<Rightarrow> nat \<Rightarrow> 'f::field list \<Rightarrow> 'f nova_vars list \<Rightarrow> 'f list \<Rightarrow> bool" where
  "nova_relation memory_len num_iters z_in vs z_out \<longleftrightarrow> length z_in = memory_len + 1 \<and> length vs = num_iters \<and>
     (case loop_m (nova_iteration memory_len) vs (z_in, []) of
        None \<Rightarrow> False
      | Some (z, cs) \<Rightarrow> z = z_out \<and> r1cs_holds cs)"

section \<open>The memory it computes\<close>

text \<open>The abstract run: reads must return the cell, writes update it.\<close>

fun memory_run :: "'f::field list \<Rightarrow> (u64 \<times> u64 \<times> u64) list \<Rightarrow> 'f list option" where
  "memory_run mem [] = Some mem"
| "memory_run mem ((a, op, v) # ops) =
     (if length mem \<le> unat a then None
      else if op = 0 then (if mem ! unat a = field_from_u64 v then memory_run mem ops else None)
      else if op = 1 then memory_run (mem[unat a := field_from_u64 v]) ops
      else None)"

section \<open>Facts\<close>

lemma loop_m_cong: "(\<And>i s. i \<in> set is \<Longrightarrow> f i s = g i s) \<Longrightarrow> loop_m f is s = loop_m g is s"
  by (induction "is" arbitrary: s) (auto intro!: option.case_cong bind_option_cong)

lemma loop_m_indexed:
  "loop_m (\<lambda>j s. Option.bind (vec_get xs j) (\<lambda>x. f x s)) [0..<length xs] s = loop_m f xs s"
proof (induction xs arbitrary: s rule: rev_induct)
  case (snoc x xs)
  have "loop_m (\<lambda>j s. Option.bind (vec_get (xs @ [x]) j) (\<lambda>x. f x s)) [0..<length xs] s =
      loop_m (\<lambda>j s. Option.bind (vec_get xs j) (\<lambda>x. f x s)) [0..<length xs] s"
    by (rule loop_m_cong) (simp add: vec_get_def nth_append)
  moreover have "loop_m (\<lambda>j s. Option.bind (vec_get (xs @ [x]) j) (\<lambda>x. f x s)) [length xs] = loop_m f [x]"
    by (rule ext) (simp add: vec_get_def, auto split: bind_splits)
  ultimately show ?case by (simp add: loop_m_append snoc.IH del: loop_m.simps)
qed simp

lemma loop_m_map: "loop_m f (map g xs) = loop_m (\<lambda>x. f (g x)) xs"
proof
  fix s show "loop_m f (map g xs) s = loop_m (\<lambda>x. f (g x)) xs s"
    by (induction xs arbitrary: s) (auto intro!: bind_option_cong)
qed

lemma same_index:
  assumes "wide_field TYPE('f::field) (2 ^ 64)" "i < 2 ^ 64"
  shows "same_u8 (field_from_u64 (word_of_nat i) :: 'f) (field_from_u64 a) = of_bool (i = unat a)"
proof -
  have "(field_from_u64 (word_of_nat i) :: 'f) = field_from_u64 a \<longleftrightarrow> i = unat a"
    using assms(2) by (simp add: field_from_u64_inj [OF assms(1)] word_unat_eq_iff unat_of_nat take_bit_nat_eq_self)
  then show ?thesis by (simp add: same_u8_def)
qed

lemma field_from_flag: "field_from_u64 (ucast (of_bool b :: u8)) = (of_bool b :: 'f::field)"
  "field_from_u64 (ucast (1 - of_bool b :: u8)) = (of_bool (\<not> b) :: 'f::field)"
  by (simp_all add: field_from_u64_def)

lemma nova_memory_address_nth:
  assumes "wide_field TYPE('f::field) (2 ^ 64)" "length mem \<le> 2 ^ 64"
  shows "nova_memory_address mem (field_from_u64 a) = (if unat a < length mem then mem ! unat a else 0 :: 'f)"
  using assms(2)
proof (induction mem rule: rev_induct)
  case (snoc x mem)
  have "nova_memory_address (mem @ [x]) (field_from_u64 a) =
      nova_memory_address mem (field_from_u64 a) + of_bool (length mem = unat a) * x"
    using snoc.prems by (simp add: nova_memory_address_def enumerate_append_eq same_index [OF assms(1)] field_from_flag)
  then show ?case using snoc by (auto simp: nth_append)
qed (simp add: nova_memory_address_def)

lemma lookup_res_range:
  assumes "wide_field TYPE('f::field) (2 ^ 64)" "n \<le> 2 ^ 64"
  shows "lookup_res n (field_from_u64 a :: 'f) = of_bool (unat a < n)"
  using assms(2) by (induction n) (auto simp: lookup_res_def same_index [OF assms(1)])

lemma new_cells:
  assumes "wide_field TYPE('f::field) (2 ^ 64)" "length mem \<le> 2 ^ 64"
  shows "map (\<lambda>(i, item). get_new_memory_cell item v (field_from_u64 (word_of_nat i)) (field_from_u64 a)) (enumerate 0 mem) =
    (mem[unat a := v] :: 'f list)"
  using assms(2)
  by (intro nth_equalityI)
    (auto simp: nth_enumerate_eq get_new_memory_cell_def same_index [OF assms(1)] field_from_flag nth_list_update Let_def)

lemma memory_commit_total:
  assumes "spec_ok S" "mem \<noteq> []"
  shows "\<exists>c. memory_commit S mem = Some c"
proof -
  have "\<exists>h. hash_chain S acc xs = Some h" for acc xs
    using poseidon_hash_blocks [OF assms(1)] by (induction xs arbitrary: acc) auto
  then show ?thesis using assms(2) by (simp add: memory_commit_chain)
qed

definition nova_record_of :: "u64 \<times> u64 \<times> u64 \<Rightarrow> 'f::field nova_record" where
  "nova_record_of = (\<lambda>(a, op, v). \<lparr>nr_address = field_from_u64 a, nr_instruction = field_from_u64 op, nr_value = field_from_u64 v\<rparr>)"

lemma bit_square: "(x :: 'f::field) * x = x \<longleftrightarrow> x = 0 \<or> x = 1"
  by (metis mult_cancel_right1)

text \<open>What the constraints of an iteration say about the prover's variables.\<close>

lemma nova_iteration_assigned:
  assumes wide: "wide_field TYPE('f::field) (2 ^ 64)" and S: "spec_ok S"
    and mem: "length mem = n" "0 < n" "n \<le> 2 ^ 64"
  obtains v c c' where "nova_assign S n (nova_record_of (a, op, x)) (mem @ [z]) = Some (v :: 'f nova_vars)"
    and "memory_commit S mem = Some c" and "memory_commit S (mem[unat a := field_from_u64 x]) = Some c'"
    and "nv_cells v = mem[unat a := field_from_u64 x]" and "nv_new_commitment v = c'"
    and "r1cs_holds (nova_constraints n (mem @ [z]) v) \<longleftrightarrow>
      unat a < n \<and> z = c \<and> (op = 0 \<and> mem ! unat a = field_from_u64 x \<or> op = 1)"
proof -
  have ne: "mem \<noteq> []" "mem[unat a := field_from_u64 x] \<noteq> []" using mem by auto
  obtain c c' where c: "memory_commit S mem = Some c" "memory_commit S (mem[unat a := field_from_u64 x]) = Some c'"
    using memory_commit_total [OF S] ne by blast
  let ?r = "nova_record_of (a, op, x) :: 'f nova_record"
  let ?v = "\<lparr>nv_value = field_from_u64 x, nv_instruction = field_from_u64 op,
       nv_memory_address = (if unat a < n then mem ! unat a else 0), nv_commitment = c,
       nv_lookup = of_bool (unat a < n), nv_cells = mem[unat a := field_from_u64 x], nv_new_commitment = c'\<rparr>"
  have r: "nr_address ?r = field_from_u64 a" "nr_value ?r = field_from_u64 x" "nr_instruction ?r = field_from_u64 op"
    by (simp_all add: nova_record_of_def)
  have v: "nova_assign S n ?r (mem @ [z]) = Some ?v"
    using mem c new_cells [OF wide, of mem "field_from_u64 x" a] nova_memory_address_nth [OF wide, of mem a] lookup_res_range [OF wide, of n a]
    by (simp add: nova_assign_def r field_from_flag)
  have op: "field_from_u64 op = (0 :: 'f) \<longleftrightarrow> op = 0" "field_from_u64 op = (1 :: 'f) \<longleftrightarrow> op = 1"
    using field_from_u64_inj [OF wide, of op 0] field_from_u64_inj [OF wide, of op 1] by (simp_all add: field_from_u64_def)
  have "r1cs_holds (nova_constraints n (mem @ [z]) ?v) \<longleftrightarrow> unat a < n \<and> z = c \<and>
      field_from_u64 op * ((if unat a < n then mem ! unat a else 0) - field_from_u64 x) = (if unat a < n then mem ! unat a else 0) - (field_from_u64 x :: 'f) \<and>
      (field_from_u64 op :: 'f) * field_from_u64 op = field_from_u64 op"
    using mem by (auto simp: r1cs_holds_def nova_constraints_def nth_append)
  also have "\<dots> \<longleftrightarrow> unat a < n \<and> z = c \<and> (op = 0 \<and> mem ! unat a = field_from_u64 x \<or> op = 1)"
    unfolding bit_square op using op(2) by (cases "op = 1") auto
  finally show thesis using that [OF v c] by simp
qed

lemma r1cs_holds_append: "r1cs_holds (xs @ ys) \<longleftrightarrow> r1cs_holds xs \<and> r1cs_holds ys"
  by (simp add: r1cs_holds_def)

definition nova_loop ::
    "'f::field spec \<Rightarrow> nat \<Rightarrow> (u64 \<times> u64 \<times> u64) list \<Rightarrow> 'f list \<times> ('f \<times> 'f \<times> 'f) list \<Rightarrow>
     ('f list \<times> ('f \<times> 'f \<times> 'f) list) option" where
  "nova_loop S n ops s = loop_m (\<lambda>o' s. Option.bind (nova_assign S n (nova_record_of o') (fst s)) (\<lambda>v. nova_iteration n v s)) ops s"

lemma nova_loop_exact:
  assumes wide: "wide_field TYPE('f::field) (2 ^ 64)" and S: "spec_ok S" and n: "0 < n" "n \<le> 2 ^ 64"
    and "length mem = n"
  shows "\<exists>z_out new. nova_loop S n ops (mem @ [z], cs) = Some (z_out, cs @ new) \<and>
    (r1cs_holds new \<longleftrightarrow> (ops \<noteq> [] \<longrightarrow> memory_commit S mem = Some (z :: 'f)) \<and> memory_run mem ops \<noteq> None) \<and>
    (r1cs_holds new \<longrightarrow> (\<exists>mem' c. memory_run mem ops = Some mem' \<and> (ops \<noteq> [] \<longrightarrow> memory_commit S mem' = Some c)
       \<and> z_out = mem' @ [c]))"
  using assms(5)
proof (induction ops arbitrary: mem z cs)
  case Nil
  then show ?case by (simp add: nova_loop_def r1cs_holds_def)
next
  case (Cons o' ops)
  obtain a op x where o': "o' = (a, op, x)" by (cases o')
  obtain v c c' where v: "nova_assign S n (nova_record_of o') (mem @ [z]) = Some v"
    and c: "memory_commit S mem = Some c" "memory_commit S (mem[unat a := field_from_u64 x]) = Some c'"
    and out: "nv_cells v = mem[unat a := field_from_u64 x]" "nv_new_commitment v = c'"
    and holds: "r1cs_holds (nova_constraints n (mem @ [z]) v) \<longleftrightarrow>
      unat a < n \<and> z = c \<and> (op = 0 \<and> mem ! unat a = field_from_u64 x \<or> op = 1)"
    using nova_iteration_assigned [OF wide S Cons.prems n, of a op x z] unfolding o' by blast
  let ?mem = "mem[unat a := field_from_u64 x]" and ?cs = "nova_constraints n (mem @ [z]) v"
  have "length ?mem = n" using Cons.prems by simp
  then obtain z_out new where IH: "nova_loop S n ops (?mem @ [c'], (cs @ ?cs)) = Some (z_out, (cs @ ?cs) @ new)"
    "r1cs_holds new \<longleftrightarrow> memory_run ?mem ops \<noteq> None"
    "r1cs_holds new \<longrightarrow> (\<exists>mem' c. memory_run ?mem ops = Some mem' \<and> (ops \<noteq> [] \<longrightarrow> memory_commit S mem' = Some c) \<and> z_out = mem' @ [c])"
    using Cons.IH [of ?mem c' "cs @ ?cs"] c(2) by auto
  have run: "nova_loop S n (o' # ops) (mem @ [z], cs) = Some (z_out, cs @ (?cs @ new))"
    using IH(1) Cons.prems by (simp add: nova_loop_def v nova_iteration_def out)
  have same: "op = 0 \<Longrightarrow> mem ! unat a = field_from_u64 x \<Longrightarrow> ?mem = mem" by (metis list_update_id)
  have run_Cons: "memory_run mem (o' # ops) = (if unat a < n \<and> (op = 0 \<and> mem ! unat a = field_from_u64 x \<or> op = 1)
      then memory_run ?mem ops else None)"
    using Cons.prems same by (auto simp: o')
  have first: "r1cs_holds (?cs @ new) \<longleftrightarrow> memory_commit S mem = Some z \<and> memory_run mem (o' # ops) \<noteq> None"
    unfolding r1cs_holds_append holds run_Cons IH(2) c(1) by auto
  have last: "\<exists>mem' c. memory_run mem (o' # ops) = Some mem' \<and> memory_commit S mem' = Some c \<and> z_out = mem' @ [c]"
    if holds_all: "r1cs_holds (?cs @ new)"
  proof -
    obtain mem' d where d: "memory_run ?mem ops = Some mem'" "ops \<noteq> [] \<longrightarrow> memory_commit S mem' = Some d" "z_out = mem' @ [d]"
      using holds_all IH(3) unfolding r1cs_holds_append by blast
    have "memory_commit S mem' = Some d"
    proof (cases "ops = []")
      case True
      then have "mem' = ?mem" "z_out = ?mem @ [c']" using d(1) IH(1) by (simp_all add: nova_loop_def)
      then show ?thesis using d(3) c(2) by simp
    qed (use d(2) in blast)
    moreover have "memory_run mem (o' # ops) = Some mem'" using holds_all d(1) run_Cons first by (auto split: if_splits)
    ultimately show ?thesis using d(3) by blast
  qed
  show ?case using run first last by (intro exI [of _ z_out] exI [of _ "?cs @ new"]) simp
qed

lemma NovaCircuit_new_ok:
  fixes n :: nat
  assumes "length address = k" "length instruction = k" "length value = k"
  shows "NovaCircuit_new n k address instruction value = Some (
     \<lparr>nc_memory_len = n, nc_num_iters = k, nc_trace = map nova_record_of (zip address (zip instruction value))\<rparr> :: 'f::field nova_circuit)"
proof -
  let ?trace = "map nova_record_of (zip address (zip instruction value)) :: 'f nova_record list"
  have "map (\<lambda>i. do { a \<leftarrow> vec_get address i; op \<leftarrow> vec_get instruction i; v \<leftarrow> vec_get value i;
       Some \<lparr>nr_address = field_from_u64 a, nr_instruction = field_from_u64 op, nr_value = field_from_u64 v\<rparr> }) [0..<k] =
    map Some ?trace"
    using assms by (intro nth_equalityI) (simp_all add: nova_record_of_def)
  then have "those (map (\<lambda>i. do { a \<leftarrow> vec_get address i; op \<leftarrow> vec_get instruction i; v \<leftarrow> vec_get value i;
       Some \<lparr>nr_address = field_from_u64 a, nr_instruction = field_from_u64 op, nr_value = field_from_u64 v\<rparr> }) [0..<k]) = Some ?trace"
    by (simp only: those_Some_iff)
  then show ?thesis unfolding NovaCircuit_new_def by simp
qed

section \<open>Properties\<close>

lemma nova_step_aux:
  fixes mem :: "'f::field list"
  assumes "wide_field TYPE('f) (2 ^ 64)" and "spec_ok S" and "mem \<noteq> []" and "length mem \<le> 2 ^ 64"
    and "0 < k" and "length address = k" and "length instruction = k" and "length value = k"
    and "NovaCircuit_new (length mem) k address instruction value = Some c"
  shows "\<exists>z_out cs. nova_synthesize S c (mem @ [z]) = Some (z_out, cs) \<and>
    (r1cs_holds cs \<longleftrightarrow> memory_commit S mem = Some z \<and> memory_run mem (zip address (zip instruction value)) \<noteq> None) \<and>
    (r1cs_holds cs \<longrightarrow> (\<exists>mem' c'. memory_run mem (zip address (zip instruction value)) = Some mem' \<and>
       memory_commit S mem' = Some c' \<and> z_out = mem' @ [c']))"
proof -
  let ?ops = "zip address (zip instruction value)"
  have c: "c = \<lparr>nc_memory_len = length mem, nc_num_iters = length ?ops, nc_trace = map nova_record_of ?ops\<rparr>"
    using assms(9) NovaCircuit_new_ok [OF assms(6-8), where 'f = 'f] assms(6-8) by simp
  have "?ops \<noteq> []" using assms(5-8) by auto
  have "nova_synthesize S c (mem @ [z]) = nova_loop S (length mem) ?ops (mem @ [z], [])"
    unfolding c nova_loop_def
    using loop_m_indexed [of "map nova_record_of ?ops" "\<lambda>r s. Option.bind (nova_assign S (length mem) r (fst s)) (\<lambda>v. nova_iteration (length mem) v s)" "(mem @ [z], [])"]
    by (simp add: nova_synthesize_def loop_m_map)
  then show ?thesis
    using nova_loop_exact [OF assms(1,2) _ assms(4) refl, of ?ops z "[]"] assms(3) \<open>?ops \<noteq> []\<close> by simp
qed

text \<open>
  C23: on the prover's own variables the Nova step never panics, and its constraints hold
  exactly when the last input is the commitment to the memory, every address is in range,
  every instruction is a read or a write and every read returns its cell; the output is then
  the memory after the writes with its commitment.
\<close>

theorem nova_step_exact:
  fixes mem :: "'f::field list"
  assumes "wide_field TYPE('f) (2 ^ 64)" and "spec_ok S" and "mem \<noteq> []" and "length mem \<le> 2 ^ 64"
    and "0 < k" and "length address = k" and "length instruction = k" and "length value = k"
    and "NovaCircuit_new (length mem) k address instruction value = Some c"
  shows "\<exists>z_out cs. nova_synthesize S c (mem @ [z]) = Some (z_out, cs) \<and>
    (r1cs_holds cs \<longleftrightarrow> memory_commit S mem = Some z \<and> memory_run mem (zip address (zip instruction value)) \<noteq> None) \<and>
    (r1cs_holds cs \<longrightarrow> (\<exists>mem' c'. memory_run mem (zip address (zip instruction value)) = Some mem' \<and>
       memory_commit S mem' = Some c' \<and> z_out = mem' @ [c']))"
  by (rule nova_step_aux [OF assms])

lemma small_spec_ok: "spec_ok (small_spec :: rat spec)"
  by (simp add: spec_ok_def small_spec_def)

theorem nova_step_exact_witness:
  "\<exists>c cs c'. NovaCircuit_new 2 2 [0, 0] [1, 0] [7, 7] = Some c \<and>
     nova_synthesize small_spec c [5, 6, block_hash small_spec [6, 5] :: rat] = Some ([7, 6, c'], cs) \<and> r1cs_holds cs"
proof -
  let ?z = "block_hash small_spec [6, 5] :: rat"
  obtain c :: "rat nova_circuit" where c: "NovaCircuit_new 2 2 [0, 0] [1, 0] [7, 7] = Some c" "NovaCircuit_new (length [5, 6 :: rat]) 2 [0, 0] [1, 0] [7, 7] = Some c"
    using NovaCircuit_new_ok [of "[0, 0]" 2 "[1, 0]" "[7, 7]" 2] by (simp add: numeral_2_eq_2)
  have z: "memory_commit small_spec [5, 6] = Some ?z"
    using poseidon_hash_blocks [OF small_spec_ok, of "[6, 5]"] by (simp add: memory_commit_chain)
  have run: "memory_run [5, 6 :: rat] (zip [0, 0] (zip [1, 0] [7, 7])) = Some [7, 6]"
    by (simp add: field_from_u64_def)
  show ?thesis
    using nova_step_exact [OF wide_field_rat small_spec_ok, of "[5, 6]" 2 "[0, 0]" "[1, 0]" "[7, 7]" c ?z, OF _ _ _ _ _ _ c(2)] c(1) z run by auto
qed

text \<open>
  The constraints leave the memory free: for any input and any output of the right
  length, and any reads and writes, there are variables that satisfy every constraint.
\<close>

theorem nova_step_unconstrained:
  fixes z_in z_out :: "'f::field list"
  assumes "length z_in = n + 1" and "length z_out = n + 1" and "accesses \<noteq> []"
    and "\<forall>(op, v) \<in> set accesses. op = 0 \<or> op = 1"
  shows "\<exists>vs. map (\<lambda>v. (nv_instruction v, nv_value v)) vs = accesses \<and> nova_relation n (length accesses) z_in vs z_out"
proof -
  let ?v = "\<lambda>z (op, x). \<lparr>nv_value = x, nv_instruction = op, nv_memory_address = x, nv_commitment = z ! n, nv_lookup = 1,
      nv_cells = butlast z_out, nv_new_commitment = last z_out\<rparr>"
  let ?vs = "map (?v z_out) (tl accesses)"
  have out: "z_out \<noteq> []" using assms(2) by auto
  have iter: "nova_iteration n (?v z p) (z, cs) = Some (z_out, cs @ nova_constraints n z (?v z p))" for z cs p
    using assms(2) out by (cases p) (simp add: nova_iteration_def)
  have holds: "r1cs_holds (nova_constraints n z (?v z p))" if "p \<in> set accesses" for z p
    using that assms(4) by (cases p) (auto simp: nova_constraints_def r1cs_holds_def)
  have rest: "\<exists>cs'. loop_m (nova_iteration n) (map (?v z_out) ps) (z_out, cs) = Some (z_out, cs @ cs') \<and> r1cs_holds cs'"
    if "set ps \<subseteq> set accesses" for ps cs
    using that
  proof (induction ps arbitrary: cs)
    case (Cons p ps)
    then obtain cs' where "loop_m (nova_iteration n) (map (?v z_out) ps) (z_out, cs @ nova_constraints n z_out (?v z_out p)) =
        Some (z_out, (cs @ nova_constraints n z_out (?v z_out p)) @ cs')" "r1cs_holds cs'" by fastforce
    then show ?case using iter [of z_out p cs] holds [of p z_out] Cons.prems
      by (intro exI [of _ "nova_constraints n z_out (?v z_out p) @ cs'"]) (simp add: r1cs_holds_append)
  qed (simp add: r1cs_holds_def)
  obtain p ps where ps: "accesses = p # ps" using assms(3) by (cases accesses) auto
  obtain cs' where cs': "loop_m (nova_iteration n) ?vs (z_out, nova_constraints n z_in (?v z_in p)) =
      Some (z_out, nova_constraints n z_in (?v z_in p) @ cs')" "r1cs_holds cs'"
    using rest [of ps] by (auto simp: ps)
  have "nova_relation n (length accesses) z_in (?v z_in p # ?vs) z_out"
    using cs' iter [of z_in p "[]"] holds [of p z_in] assms(1) by (simp add: nova_relation_def ps r1cs_holds_append)
  moreover have "map (\<lambda>v. (nv_instruction v, nv_value v)) (?v z_in p # ?vs) = accesses"
    by (simp add: ps split_def o_def)
  ultimately show ?thesis by blast
qed

theorem nova_step_unconstrained_witness:
  "\<exists>vs. map (\<lambda>v. (nv_instruction v, nv_value v)) vs = [(0, 9)] \<and> nova_relation 2 1 [5, 6, 0] vs [1, 2, 3 :: rat]"
  using nova_step_unconstrained [of "[5, 6, 0 :: rat]" 2 "[1, 2, 3]" "[(0, 9)]"] by simp

end
