(* ===== verification/Supernova_Circuit.thy ===== *)
theory Supernova_Circuit
  imports Nova_Circuit
begin

text \<open>
  The circuits of the SuperNova backend
  (\<open>zkmemory/src/supernova/memory_consistency_circuit.rs\<close>): one for reads and one for
  writes, each choosing its successor by the program counter it returns. The file repeats the
  commitment and the cell functions of the Nova circuit.
\<close>

section \<open>The circuits\<close>

record 'f sn_record =
  sr_address :: 'f
  sr_value :: 'f

record 'f sn_step =
  sc_trace :: "'f sn_record option"
  sc_next_instruction :: "'f option"
  sc_memory_size :: "nat option"

datatype 'f sn_circuit = ReadCircuit "'f sn_step" | WriteCircuit "'f sn_step"

definition read_arity :: "'f sn_step \<Rightarrow> nat option" where
  "read_arity x = map_option Suc (sc_memory_size x)"

definition write_arity :: "'f sn_step \<Rightarrow> nat option" where
  "write_arity x = map_option Suc (sc_memory_size x)"

definition read_circuit_index :: "'f sn_step \<Rightarrow> nat" where
  "read_circuit_index x = 0"

definition write_circuit_index :: "'f sn_step \<Rightarrow> nat" where
  "write_circuit_index x = 1"

fun sn_arity :: "'f sn_circuit \<Rightarrow> nat option" where
  "sn_arity (ReadCircuit x) = read_arity x"
| "sn_arity (WriteCircuit x) = write_arity x"

fun circuit_index :: "'f sn_circuit \<Rightarrow> nat" where
  "circuit_index (ReadCircuit x) = read_circuit_index x"
| "circuit_index (WriteCircuit x) = write_circuit_index x"

definition num_circuits :: nat where
  "num_circuits = 2"

lemma circuit_index_simps [simp]: "read_circuit_index x = 0" "write_circuit_index x = 1"
  by (simp_all add: read_circuit_index_def write_circuit_index_def)

lemma circuit_index_less: "circuit_index c < num_circuits"
  by (cases c) (simp_all add: num_circuits_def)

text \<open>
  The functions each circuit has for itself: the cell at an address, a cell of the next
  memory, the commitment to a memory.
\<close>

definition read_get_memory_address :: "'f::field list \<Rightarrow> nat \<Rightarrow> 'f \<Rightarrow> 'f" where
  "read_get_memory_address mem memory_size address =
     foldl (\<lambda>tmp (i, item). tmp + field_from_u64 (ucast (same_u8 (field_from_u64 (word_of_nat i)) address)) * item)
       0 (enumerate 0 (take memory_size mem))"

definition read_merkle_tree_commit :: "'f::field spec \<Rightarrow> 'f list \<Rightarrow> 'f option" where
  "read_merkle_tree_commit S mem = do {
     rt \<leftarrow> commit_outer S mem;
     vec_get rt 0 }"

definition write_get_new_memory_cell :: "'f::field \<Rightarrow> 'f \<Rightarrow> 'f \<Rightarrow> 'f \<Rightarrow> 'f" where
  "write_get_new_memory_cell item v i address =
     (let d = same_u8 i address in
      field_from_u64 (ucast (1 - d)) * item + field_from_u64 (ucast d) * v)"

definition write_merkle_tree_commit :: "'f::field spec \<Rightarrow> 'f list \<Rightarrow> 'f option" where
  "write_merkle_tree_commit S mem = do {
     rt \<leftarrow> commit_outer S mem;
     vec_get rt 0 }"

text \<open>They are those of the Nova circuit.\<close>

lemma same_as_nova [simp]:
  "read_get_memory_address mem n a = nova_memory_address (take n mem) a"
  "read_merkle_tree_commit = memory_commit" "write_merkle_tree_commit = memory_commit"
  "write_get_new_memory_cell = get_new_memory_cell"
  by (simp_all add: fun_eq_iff read_get_memory_address_def nova_memory_address_def read_merkle_tree_commit_def
      write_merkle_tree_commit_def memory_commit_def write_get_new_memory_cell_def get_new_memory_cell_def)

text \<open>The variables and constraints of a read, and the variables as the prover computes them.\<close>

record 'f read_vars =
  rv_lookup :: 'f
  rv_memory_address :: 'f
  rv_value :: 'f
  rv_commitment :: 'f
  rv_pc_next :: 'f

definition read_constraints :: "nat \<Rightarrow> 'f::field list \<Rightarrow> 'f read_vars \<Rightarrow> ('f \<times> 'f \<times> 'f) list" where
  "read_constraints memory_size z v =
     [(rv_commitment v, 1, z ! memory_size), (rv_lookup v, 1, 1), (1, rv_memory_address v, rv_value v)]"

definition read_assign :: "'f::field spec \<Rightarrow> nat \<Rightarrow> 'f sn_step \<Rightarrow> 'f list \<Rightarrow> 'f read_vars option" where
  "read_assign S memory_size x z = do {
     trace \<leftarrow> sc_trace x;
     commitment \<leftarrow> read_merkle_tree_commit S (take memory_size z);
     pc_next \<leftarrow> sc_next_instruction x;
     Some \<lparr>rv_lookup = field_from_u64 (ucast (lookup_res memory_size (sr_address trace))),
       rv_memory_address = read_get_memory_address z memory_size (sr_address trace),
       rv_value = sr_value trace, rv_commitment = commitment, rv_pc_next = pc_next\<rparr> }"

definition read_synthesize ::
    "'f::field spec \<Rightarrow> 'f sn_step \<Rightarrow> 'f list \<Rightarrow> ('f \<times> 'f list \<times> ('f \<times> 'f \<times> 'f) list) option" where
  "read_synthesize S x z = do {
     memory_size \<leftarrow> sc_memory_size x;
     assert_ok (length z = memory_size + 1);
     v \<leftarrow> read_assign S memory_size x z;
     Some (rv_pc_next v, z, read_constraints memory_size z v) }"

text \<open>The same of a write.\<close>

record 'f write_vars =
  wv_lookup :: 'f
  wv_value :: 'f
  wv_cells :: "'f list"
  wv_new_commitment :: 'f
  wv_pc_next :: 'f

definition write_constraints :: "'f::field write_vars \<Rightarrow> ('f \<times> 'f \<times> 'f) list" where
  "write_constraints v = [(wv_lookup v, 1, 1)]"

definition write_assign :: "'f::field spec \<Rightarrow> nat \<Rightarrow> 'f sn_step \<Rightarrow> 'f list \<Rightarrow> 'f write_vars option" where
  "write_assign S memory_size x z = do {
     trace \<leftarrow> sc_trace x;
     let cells = map (\<lambda>(i, item). write_get_new_memory_cell item (sr_value trace) (field_from_u64 (word_of_nat i)) (sr_address trace))
       (enumerate 0 (take memory_size z));
     new_commitment \<leftarrow> write_merkle_tree_commit S cells;
     pc_next \<leftarrow> sc_next_instruction x;
     Some \<lparr>wv_lookup = field_from_u64 (ucast (lookup_res memory_size (sr_address trace))),
       wv_value = sr_value trace, wv_cells = cells, wv_new_commitment = new_commitment, wv_pc_next = pc_next\<rparr> }"

definition write_synthesize ::
    "'f::field spec \<Rightarrow> 'f sn_step \<Rightarrow> 'f list \<Rightarrow> ('f \<times> 'f list \<times> ('f \<times> 'f \<times> 'f) list) option" where
  "write_synthesize S x z = do {
     memory_size \<leftarrow> sc_memory_size x;
     assert_ok (length z = memory_size + 1);
     v \<leftarrow> write_assign S memory_size x z;
     let z_out = wv_cells v @ [wv_new_commitment v];
     assert_ok (length z_out = memory_size + 1);
     Some (wv_pc_next v, z_out, write_constraints v) }"

fun sn_synthesize ::
    "'f::field spec \<Rightarrow> 'f sn_circuit \<Rightarrow> 'f list \<Rightarrow> ('f \<times> 'f list \<times> ('f \<times> 'f \<times> 'f) list) option" where
  "sn_synthesize S (ReadCircuit x) z = read_synthesize S x z"
| "sn_synthesize S (WriteCircuit x) z = write_synthesize S x z"

section \<open>The sequence of circuits\<close>

text \<open>\<open>MemoryConsistencyCircuit::new\<close>: a first read of cell zero, then the trace.\<close>

definition sn_circuit_at ::
    "u64 list \<Rightarrow> u64 list \<Rightarrow> u64 list \<Rightarrow> nat \<Rightarrow> nat \<Rightarrow> 'f::field sn_circuit option" where
  "sn_circuit_at address value instruction memory_size i = do {
     op \<leftarrow> vec_get instruction i;
     a \<leftarrow> vec_get address i;
     v \<leftarrow> vec_get value i;
     next_op \<leftarrow> vec_get instruction (i + 1);
     let x = \<lparr>sc_trace = Some \<lparr>sr_address = field_from_u64 a, sr_value = field_from_u64 v\<rparr>,
       sc_next_instruction = Some (field_from_u64 next_op), sc_memory_size = Some memory_size\<rparr>;
     Some (if op = 0 then ReadCircuit x else WriteCircuit x) }"

definition Supernova_new ::
    "'f::field list \<Rightarrow> u64 list \<Rightarrow> u64 list \<Rightarrow> u64 list \<Rightarrow> nat \<Rightarrow> nat \<Rightarrow> 'f sn_circuit list option" where
  "Supernova_new z_primary address value instruction num_steps memory_size = do {
     assert_ok (length instruction = length address + 1);
     final \<leftarrow> vec_get instruction (length address);
     assert_ok (final = 2);
     z0 \<leftarrow> vec_get z_primary 0;
     op0 \<leftarrow> vec_get instruction 0;
     circuits \<leftarrow> those (map (sn_circuit_at address value instruction memory_size) [0..<num_steps]);
     Some (ReadCircuit \<lparr>sc_trace = Some \<lparr>sr_address = field_from_u64 0, sr_value = z0\<rparr>,
       sc_next_instruction = Some (field_from_u64 op0), sc_memory_size = Some memory_size\<rparr> # circuits) }"

text \<open>\<open>primary_circuit\<close>: the shapes of the proof system have four cells, whatever the memory.\<close>

definition primary_circuit :: "nat \<Rightarrow> 'f::field sn_circuit option" where
  "primary_circuit index =
     (if index = 0 then Some (ReadCircuit \<lparr>sc_trace = Some \<lparr>sr_address = 0, sr_value = 0\<rparr>,
        sc_next_instruction = Some 1, sc_memory_size = Some 4\<rparr>)
      else if index = 1 then Some (WriteCircuit \<lparr>sc_trace = Some \<lparr>sr_address = 0, sr_value = 0\<rparr>,
        sc_next_instruction = Some 0, sc_memory_size = Some 4\<rparr>)
      else panic)"

text \<open>
  A run synthesizes the circuits in order; the folding scheme runs a circuit only if it is
  the one the program counter selects, beginning with circuit zero.
\<close>

definition sn_run_step ::
    "'f::field spec \<Rightarrow> 'f sn_circuit \<Rightarrow> 'f list \<times> 'f list \<times> ('f \<times> 'f \<times> 'f) list \<Rightarrow>
     ('f list \<times> 'f list \<times> ('f \<times> 'f \<times> 'f) list) option" where
  "sn_run_step S c = (\<lambda>(z, pcs, cs). do {
     (pc, z, new) \<leftarrow> sn_synthesize S c z;
     Some (z, pcs @ [pc], cs @ new) })"

fun selected :: "'f::field \<Rightarrow> 'f sn_circuit list \<Rightarrow> 'f list \<Rightarrow> bool" where
  "selected pc (c # circuits) (pc_next # pcs) = (pc = of_nat (circuit_index c) \<and> selected pc_next circuits pcs)"
| "selected pc [] [] = True"
| "selected pc _ _ = False"

section \<open>Facts\<close>

text \<open>The circuits of a list of accesses, each with the instruction of the next.\<close>

fun next_op :: "(u64 \<times> u64 \<times> u64) list \<Rightarrow> u64" where
  "next_op [] = 2"
| "next_op ((a, op, v) # ops) = op"

definition sn_circuit_of :: "nat \<Rightarrow> u64 \<times> u64 \<times> u64 \<Rightarrow> u64 \<Rightarrow> 'f::field sn_circuit" where
  "sn_circuit_of n = (\<lambda>(a, op, v) op'.
     (if op = 0 then ReadCircuit else WriteCircuit) \<lparr>sc_trace = Some \<lparr>sr_address = field_from_u64 a, sr_value = field_from_u64 v\<rparr>,
       sc_next_instruction = Some (field_from_u64 op'), sc_memory_size = Some n\<rparr>)"

fun sn_circuits_of :: "nat \<Rightarrow> (u64 \<times> u64 \<times> u64) list \<Rightarrow> 'f::field sn_circuit list" where
  "sn_circuits_of n [] = []"
| "sn_circuits_of n (o' # ops) = sn_circuit_of n o' (next_op ops) # sn_circuits_of n ops"

lemma sn_circuits_of_nth:
  "i < length ops \<Longrightarrow> sn_circuits_of n ops ! i = sn_circuit_of n (ops ! i) (if Suc i < length ops then fst (snd (ops ! Suc i)) else 2)"
proof (induction ops arbitrary: i)
  case (Cons o' ops)
  then show ?case by (cases ops; cases i) auto
qed simp

lemma length_sn_circuits_of [simp]: "length (sn_circuits_of n ops) = length ops"
  by (induction ops) auto

lemma read_step:
  fixes x z p :: "'f::field"
  assumes wide: "wide_field TYPE('f) (2 ^ 64)" and S: "spec_ok S"
    and mem: "length mem = n" "0 < n" "n \<le> 2 ^ 64"
  obtains c cs where "memory_commit S mem = Some c"
    and "read_synthesize S \<lparr>sc_trace = Some \<lparr>sr_address = field_from_u64 a, sr_value = x\<rparr>,
       sc_next_instruction = Some p, sc_memory_size = Some n\<rparr> (mem @ [z]) = Some (p, mem @ [z], cs)"
    and "r1cs_holds cs \<longleftrightarrow> z = c \<and> unat a < n \<and> mem ! unat a = x"
proof -
  have "mem \<noteq> []" using mem by auto
  then obtain c where c: "memory_commit S mem = Some c" using memory_commit_total [OF S] by blast
  let ?v = "\<lparr>rv_lookup = of_bool (unat a < n), rv_memory_address = (if unat a < n then mem ! unat a else 0),
      rv_value = x, rv_commitment = c, rv_pc_next = p\<rparr>"
  have "read_synthesize S \<lparr>sc_trace = Some \<lparr>sr_address = field_from_u64 a, sr_value = x\<rparr>,
       sc_next_instruction = Some p, sc_memory_size = Some n\<rparr> (mem @ [z]) = Some (p, mem @ [z], read_constraints n (mem @ [z]) ?v)"
    using mem c nova_memory_address_nth [OF wide, of mem a] lookup_res_range [OF wide, of n a]
    by (simp add: read_synthesize_def read_assign_def field_from_flag)
  moreover have "r1cs_holds (read_constraints n (mem @ [z]) ?v) \<longleftrightarrow> z = c \<and> unat a < n \<and> mem ! unat a = x"
    using mem by (auto simp: r1cs_holds_def read_constraints_def nth_append)
  ultimately show thesis using that c by blast
qed

lemma write_step:
  fixes x z p :: "'f::field"
  assumes wide: "wide_field TYPE('f) (2 ^ 64)" and S: "spec_ok S"
    and mem: "length mem = n" "0 < n" "n \<le> 2 ^ 64"
  obtains c cs where "memory_commit S (mem[unat a := x]) = Some c"
    and "write_synthesize S \<lparr>sc_trace = Some \<lparr>sr_address = field_from_u64 a, sr_value = x\<rparr>,
       sc_next_instruction = Some p, sc_memory_size = Some n\<rparr> (mem @ [z]) = Some (p, mem[unat a := x] @ [c], cs)"
    and "r1cs_holds cs \<longleftrightarrow> unat a < n"
proof -
  have "mem[unat a := x] \<noteq> []" using mem by auto
  then obtain c where c: "memory_commit S (mem[unat a := x]) = Some c" using memory_commit_total [OF S] by blast
  let ?v = "\<lparr>wv_lookup = of_bool (unat a < n), wv_value = x, wv_cells = mem[unat a := x], wv_new_commitment = c, wv_pc_next = p\<rparr>"
  have "write_synthesize S \<lparr>sc_trace = Some \<lparr>sr_address = field_from_u64 a, sr_value = x\<rparr>,
       sc_next_instruction = Some p, sc_memory_size = Some n\<rparr> (mem @ [z]) = Some (p, mem[unat a := x] @ [c], write_constraints ?v)"
    using mem c new_cells [OF wide, of mem x a] lookup_res_range [OF wide, of n a]
    by (simp add: write_synthesize_def write_assign_def field_from_flag)
  moreover have "r1cs_holds (write_constraints ?v) \<longleftrightarrow> unat a < n"
    by (auto simp: r1cs_holds_def write_constraints_def)
  ultimately show thesis using that c by blast
qed

lemma sn_run_exact:
  fixes mem :: "'f::field list"
  assumes wide: "wide_field TYPE('f) (2 ^ 64)" and S: "spec_ok S" and n: "0 < n" "n \<le> 2 ^ 64"
    and "length mem = n"
  shows "\<exists>z_out ps new. loop_m (sn_run_step S) (sn_circuits_of n ops) (mem @ [z], pcs, cs) = Some (z_out, pcs @ ps, cs @ new) \<and>
    (memory_commit S mem = Some z \<longrightarrow>
      (r1cs_holds new \<and> selected (field_from_u64 (next_op ops)) (sn_circuits_of n ops) ps \<longleftrightarrow> memory_run mem ops \<noteq> None) \<and>
      (\<forall>mem'. memory_run mem ops = Some mem' \<longrightarrow> (\<exists>c. memory_commit S mem' = Some c \<and> z_out = mem' @ [c])))"
  using assms(5)
proof (induction ops arbitrary: mem z pcs cs)
  case Nil
  then show ?case by (simp add: r1cs_holds_def)
next
  case (Cons o' ops)
  obtain a op x where o': "o' = (a, op, x)" by (cases o')
  let ?p = "field_from_u64 (next_op ops) :: 'f" and ?x = "field_from_u64 x :: 'f"
  have op: "field_from_u64 op = (0 :: 'f) \<longleftrightarrow> op = 0" "field_from_u64 op = (1 :: 'f) \<longleftrightarrow> op = 1"
    using field_from_u64_inj [OF wide, of op 0] field_from_u64_inj [OF wide, of op 1] by (simp_all add: field_from_u64_def)
  show ?case
  proof (cases "op = 0")
    case True
    obtain c new1 where c: "memory_commit S mem = Some c"
      and step: "read_synthesize S \<lparr>sc_trace = Some \<lparr>sr_address = field_from_u64 a, sr_value = ?x\<rparr>,
         sc_next_instruction = Some ?p, sc_memory_size = Some n\<rparr> (mem @ [z]) = Some (?p, mem @ [z], new1)"
      and holds: "r1cs_holds new1 \<longleftrightarrow> z = c \<and> unat a < n \<and> mem ! unat a = ?x"
      by (rule read_step [OF wide S Cons.prems n])
    obtain z_out ps new where IH: "loop_m (sn_run_step S) (sn_circuits_of n ops) (mem @ [z], pcs @ [?p], cs @ new1) = Some (z_out, (pcs @ [?p]) @ ps, (cs @ new1) @ new)"
      "memory_commit S mem = Some z \<longrightarrow>
        (r1cs_holds new \<and> selected ?p (sn_circuits_of n ops) ps \<longleftrightarrow> memory_run mem ops \<noteq> None) \<and>
        (\<forall>mem'. memory_run mem ops = Some mem' \<longrightarrow> (\<exists>c. memory_commit S mem' = Some c \<and> z_out = mem' @ [c]))"
      using Cons.IH [OF Cons.prems, of z "pcs @ [?p]" "cs @ new1"] by blast
    have run: "memory_run mem (o' # ops) = (if unat a < n \<and> mem ! unat a = ?x then memory_run mem ops else None)"
      using True Cons.prems by (auto simp: o')
    have "loop_m (sn_run_step S) (sn_circuits_of n (o' # ops)) (mem @ [z], pcs, cs) = Some (z_out, pcs @ (?p # ps), cs @ (new1 @ new))"
      using True IH(1) step by (simp add: o' sn_circuit_of_def sn_run_step_def)
    moreover have "selected (field_from_u64 (next_op (o' # ops))) (sn_circuits_of n (o' # ops)) (?p # ps) = selected ?p (sn_circuits_of n ops) ps"
      using True by (simp add: o' sn_circuit_of_def field_from_u64_def)
    ultimately show ?thesis
      using IH(2) holds c by (intro exI [of _ z_out] exI [of _ "?p # ps"] exI [of _ "new1 @ new"]) (auto simp: run r1cs_holds_append split: if_splits)
  next
    case False
    obtain c new1 where c: "memory_commit S (mem[unat a := ?x]) = Some c"
      and step: "write_synthesize S \<lparr>sc_trace = Some \<lparr>sr_address = field_from_u64 a, sr_value = ?x\<rparr>,
         sc_next_instruction = Some ?p, sc_memory_size = Some n\<rparr> (mem @ [z]) = Some (?p, mem[unat a := ?x] @ [c], new1)"
      and holds: "r1cs_holds new1 \<longleftrightarrow> unat a < n"
      by (rule write_step [OF wide S Cons.prems n])
    let ?mem = "mem[unat a := ?x]"
    have "length ?mem = n" using Cons.prems by simp
    from Cons.IH [OF this, of c "pcs @ [?p]" "cs @ new1"] c
    obtain z_out ps new where IH: "loop_m (sn_run_step S) (sn_circuits_of n ops) (?mem @ [c], pcs @ [?p], cs @ new1) = Some (z_out, (pcs @ [?p]) @ ps, (cs @ new1) @ new)"
      "r1cs_holds new \<and> selected ?p (sn_circuits_of n ops) ps \<longleftrightarrow> memory_run ?mem ops \<noteq> None"
      "\<forall>mem'. memory_run ?mem ops = Some mem' \<longrightarrow> (\<exists>c. memory_commit S mem' = Some c \<and> z_out = mem' @ [c])"
      by blast
    have run: "memory_run mem (o' # ops) = (if unat a < n \<and> op = 1 then memory_run ?mem ops else None)"
      using False Cons.prems by (auto simp: o')
    have "loop_m (sn_run_step S) (sn_circuits_of n (o' # ops)) (mem @ [z], pcs, cs) = Some (z_out, pcs @ (?p # ps), cs @ (new1 @ new))"
      using False IH(1) step by (simp add: o' sn_circuit_of_def sn_run_step_def)
    moreover have "selected (field_from_u64 (next_op (o' # ops))) (sn_circuits_of n (o' # ops)) (?p # ps) \<longleftrightarrow>
        op = 1 \<and> selected ?p (sn_circuits_of n ops) ps"
      using False op by (simp add: o' sn_circuit_of_def)
    ultimately show ?thesis
      using IH(2,3) holds by (intro exI [of _ z_out] exI [of _ "?p # ps"] exI [of _ "new1 @ new"]) (auto simp: run r1cs_holds_append split: if_splits)
  qed
qed

lemma Supernova_new_ok:
  fixes z :: "'f::field"
  assumes "length address = k" "length instruction = k" "length value = k" "mem \<noteq> []"
  shows "Supernova_new (mem @ [z]) address value (instruction @ [2]) k n = Some (
    ReadCircuit \<lparr>sc_trace = Some \<lparr>sr_address = field_from_u64 0, sr_value = hd mem\<rparr>,
       sc_next_instruction = Some (field_from_u64 (next_op (zip address (zip instruction value)))), sc_memory_size = Some n\<rparr>
    # sn_circuits_of n (zip address (zip instruction value)))"
proof -
  let ?ops = "zip address (zip instruction value)"
  have "map (sn_circuit_at address value (instruction @ [2]) n) [0..<k] = map Some (sn_circuits_of n ?ops :: 'f sn_circuit list)"
    using assms(1-3) by (intro nth_equalityI) (auto simp: sn_circuits_of_nth sn_circuit_at_def sn_circuit_of_def nth_append)
  then have "those (map (sn_circuit_at address value (instruction @ [2]) n) [0..<k]) = Some (sn_circuits_of n ?ops :: 'f sn_circuit list)"
    by (simp only: those_Some_iff)
  moreover have "vec_get (instruction @ [2]) 0 = Some (next_op ?ops)"
    using assms(1-3) by (cases instruction; cases address) (auto simp: vec_get_def length_Suc_conv)
  moreover have "vec_get (mem @ [z]) 0 = Some (hd mem)" using assms(4) by (cases mem) auto
  moreover have "(instruction @ [2]) ! k = 2" using assms(2) by (simp add: nth_append)
  ultimately show ?thesis using assms(1,2) by (simp add: Supernova_new_def)
qed

section \<open>Properties\<close>

lemma supernova_aux:
  fixes mem :: "'f::field list"
  assumes "wide_field TYPE('f) (2 ^ 64)" and "spec_ok S" and "mem \<noteq> []" and "length mem \<le> 2 ^ 64"
    and "length address = k" and "length instruction = k" and "length value = k"
    and "Supernova_new (mem @ [z]) address value (instruction @ [2]) k (length mem) = Some circuits"
  shows "\<exists>z_out pcs cs. loop_m (sn_run_step S) circuits (mem @ [z], [], []) = Some (z_out, pcs, cs) \<and>
    (r1cs_holds cs \<and> selected 0 circuits pcs \<longleftrightarrow>
       memory_commit S mem = Some z \<and> memory_run mem (zip address (zip instruction value)) \<noteq> None) \<and>
    (r1cs_holds cs \<and> selected 0 circuits pcs \<longrightarrow> (\<exists>mem' c. memory_run mem (zip address (zip instruction value)) = Some mem' \<and>
       memory_commit S mem' = Some c \<and> z_out = mem' @ [c]))"
proof -
  let ?n = "length mem" and ?ops = "zip address (zip instruction value)"
  let ?p = "field_from_u64 (next_op ?ops) :: 'f"
  have n: "0 < ?n" "?n \<le> 2 ^ 64" using assms(3,4) by simp_all
  have c: "circuits = ReadCircuit \<lparr>sc_trace = Some \<lparr>sr_address = field_from_u64 0, sr_value = hd mem\<rparr>,
       sc_next_instruction = Some ?p, sc_memory_size = Some ?n\<rparr> # sn_circuits_of ?n ?ops"
    using assms(8) Supernova_new_ok [OF assms(5-7,3)] by simp
  obtain c new1 where commit: "memory_commit S mem = Some c"
    and step: "read_synthesize S \<lparr>sc_trace = Some \<lparr>sr_address = field_from_u64 0, sr_value = hd mem\<rparr>,
       sc_next_instruction = Some ?p, sc_memory_size = Some ?n\<rparr> (mem @ [z]) = Some (?p, mem @ [z], new1)"
    and holds: "r1cs_holds new1 \<longleftrightarrow> z = c \<and> unat (0 :: u64) < ?n \<and> mem ! unat (0 :: u64) = hd mem"
    by (rule read_step [OF assms(1,2) refl n])
  have first: "r1cs_holds new1 \<longleftrightarrow> memory_commit S mem = Some z"
    using holds commit n(1) by (auto simp: hd_conv_nth)
  obtain z_out ps new where run: "loop_m (sn_run_step S) (sn_circuits_of ?n ?ops) (mem @ [z], [?p], new1) = Some (z_out, [?p] @ ps, new1 @ new)"
    and ok: "memory_commit S mem = Some z \<longrightarrow>
      (r1cs_holds new \<and> selected ?p (sn_circuits_of ?n ?ops) ps \<longleftrightarrow> memory_run mem ?ops \<noteq> None) \<and>
      (\<forall>mem'. memory_run mem ?ops = Some mem' \<longrightarrow> (\<exists>c. memory_commit S mem' = Some c \<and> z_out = mem' @ [c]))"
    using sn_run_exact [OF assms(1,2) n refl, of ?ops z "[?p]" new1] by blast
  have "loop_m (sn_run_step S) circuits (mem @ [z], [], []) = Some (z_out, ?p # ps, new1 @ new)"
    using run step by (simp add: c sn_run_step_def)
  moreover have "selected 0 circuits (?p # ps) = selected ?p (sn_circuits_of ?n ?ops) ps" by (simp add: c)
  ultimately show ?thesis using first ok by (simp add: r1cs_holds_append) blast
qed

text \<open>
  C24: the circuits built from a trace run without panic, and their constraints and the
  program counter hold exactly when the last input is the commitment to the memory and the
  trace runs on it, which is when the Nova steps accept it; the output is the same memory.
\<close>

theorem supernova_exact:
  fixes mem :: "'f::field list"
  assumes "wide_field TYPE('f) (2 ^ 64)" and "spec_ok S" and "mem \<noteq> []" and "length mem \<le> 2 ^ 64"
    and "length address = k" and "length instruction = k" and "length value = k"
    and "Supernova_new (mem @ [z]) address value (instruction @ [2]) k (length mem) = Some circuits"
  shows "\<exists>z_out pcs cs. loop_m (sn_run_step S) circuits (mem @ [z], [], []) = Some (z_out, pcs, cs) \<and>
    (r1cs_holds cs \<and> selected 0 circuits pcs \<longleftrightarrow>
       memory_commit S mem = Some z \<and> memory_run mem (zip address (zip instruction value)) \<noteq> None) \<and>
    (r1cs_holds cs \<and> selected 0 circuits pcs \<longrightarrow> (\<exists>mem' c. memory_run mem (zip address (zip instruction value)) = Some mem' \<and>
       memory_commit S mem' = Some c \<and> z_out = mem' @ [c]))"
  by (rule supernova_aux [OF assms])

theorem supernova_exact_witness:
  "\<exists>circuits c pcs cs. Supernova_new [5, 6, block_hash small_spec [6, 5]] [0, 0] [7, 7] [1, 0, 2] 2 2 = Some circuits \<and>
     loop_m (sn_run_step small_spec) circuits ([5, 6, block_hash small_spec [6, 5] :: rat], [], []) = Some ([7, 6, c], pcs, cs) \<and>
     r1cs_holds cs \<and> selected 0 circuits pcs"
proof -
  let ?z = "block_hash small_spec [6, 5] :: rat"
  obtain circuits :: "rat sn_circuit list" where c: "Supernova_new ([5, 6] @ [?z]) [0, 0] [7, 7] ([1, 0] @ [2]) 2 2 = Some circuits"
      "Supernova_new ([5, 6] @ [?z]) [0, 0] [7, 7] ([1, 0] @ [2]) 2 (length [5, 6 :: rat]) = Some circuits"
    using Supernova_new_ok [of "[0, 0]" 2 "[1, 0]" "[7, 7]" "[5, 6]" ?z 2] by (simp add: numeral_2_eq_2)
  have z: "memory_commit small_spec [5, 6] = Some ?z"
    using poseidon_hash_blocks [OF small_spec_ok, of "[6, 5]"] by (simp add: memory_commit_chain)
  have run: "memory_run [5, 6 :: rat] (zip [0, 0] (zip [1, 0] [7, 7])) = Some [7, 6]"
    by (simp add: field_from_u64_def)
  show ?thesis
    using supernova_exact [OF wide_field_rat small_spec_ok _ _ _ _ _ c(2)] c(1) z run by auto
qed

text \<open>A write constrains nothing but its count of matching addresses.\<close>

lemma write_unconstrained:
  "\<exists>v. wv_value v = x \<and> wv_cells v = ys \<and> wv_new_commitment v = c \<and> wv_pc_next v = pc \<and> r1cs_holds (write_constraints v)"
  by (intro exI [of _ "\<lparr>wv_lookup = 1, wv_value = x, wv_cells = ys, wv_new_commitment = c, wv_pc_next = pc\<rparr>"])
    (simp add: write_constraints_def r1cs_holds_def)

end
