(* ===== verification/Ecvrf.thy ===== *)
theory Ecvrf
  imports Prelude Complex_Main
begin

text \<open>
  The elliptic-curve verifiable random function (\<open>libecvrf/src\<close>). The curve, its scalars
  and Keccak come from libraries and are a parameter: a record of the functions the code
  calls. Points are the elements of a commutative group, scalars and coordinates those of
  fields; what the code relies on is the predicate \<open>secp_ok\<close> of \<open>Ecvrf_Correct\<close>.
\<close>

section \<open>The library\<close>

record ('s, 'g, 'f) secp =
  sl_mul :: "'s \<Rightarrow> 'g \<Rightarrow> 'g"
  sl_base :: 'g
  sl_x :: "'g \<Rightarrow> 'f"
  sl_y :: "'g \<Rightarrow> 'f"
  sl_affine :: "'f \<Rightarrow> 'f \<Rightarrow> 'g"
  sl_valid :: "'g \<Rightarrow> bool"
  sl_set_b32 :: "u8 list \<Rightarrow> 's"
  sl_overflows :: "u8 list \<Rightarrow> bool"
  sl_b32 :: "'s \<Rightarrow> u8 list"
  sl_limbs :: "'s \<Rightarrow> u32 list"
  sl_field_set_b32 :: "u8 list \<Rightarrow> 'f"
  sl_field_b32 :: "'f \<Rightarrow> u8 list"
  sl_sqrt :: "'f \<Rightarrow> 'f"
  sl_is_odd :: "'f \<Rightarrow> bool"
  sl_keccak :: "u8 list \<Rightarrow> u8 list"

section \<open>Errors and constants\<close>

datatype vrf_error = UnknowError | OutOfRange | UnableToConvertBytesToScalar | RetriesExceeded

fun vrf_error_display :: "vrf_error \<Rightarrow> string" where
  "vrf_error_display UnknowError = ''Unknow error''"
| "vrf_error_display OutOfRange = ''Out of range''"
| "vrf_error_display UnableToConvertBytesToScalar = ''Unable to convert bytes to scalar''"
| "vrf_error_display RetriesExceeded = ''Retries exceeded''"

definition MAX_RETRIES :: nat where
  "MAX_RETRIES = 100"

definition FIELD_SIZE :: "u32 list" where
  "FIELD_SIZE = [0xFFFFFC2F, 0xFFFFFFFE, 0xFFFFFFFF, 0xFFFFFFFF, 0xFFFFFFFF, 0xFFFFFFFF, 0xFFFFFFFF, 0xFFFFFFFF]"

definition GROUP_ORDER :: "u32 list" where
  "GROUP_ORDER = [0xD0364141, 0xBFD25E8C, 0xAF48A03B, 0xBAAEDCE6, 0xFFFFFFFE, 0xFFFFFFFF, 0xFFFFFFFF, 0xFFFFFFFF]"

section \<open>Scalars\<close>

text \<open>\<open>from_bytes\<close>: the bytes fill the array from its most significant end.\<close>

definition from_bytes_scalar :: "('s, 'g, 'f) secp \<Rightarrow> u8 list \<Rightarrow> 's option" where
  "from_bytes_scalar L bytes =
     (if 32 < length bytes then panic
      else Some (sl_set_b32 L (bytes @ replicate (32 - length bytes) 0)))"

text \<open>The loops of \<open>gt\<close> and \<open>gte\<close>, from the last limb to the first.\<close>

fun limbs_compare :: "bool \<Rightarrow> (u32 \<times> u32) list \<Rightarrow> bool" where
  "limbs_compare eq [] = eq"
| "limbs_compare eq ((a, b) # limbs) = (if a < b then False else if b < a then True else limbs_compare eq limbs)"

definition scalar_gt :: "u32 list \<Rightarrow> u32 list \<Rightarrow> bool" where
  "scalar_gt a b = limbs_compare False (rev (zip a b))"

definition scalar_gte :: "u32 list \<Rightarrow> u32 list \<Rightarrow> bool" where
  "scalar_gte a b = limbs_compare True (rev (zip a b))"

definition scalar_keccak256 :: "('s, 'g, 'f) secp \<Rightarrow> u8 list \<Rightarrow> 's option" where
  "scalar_keccak256 L a = from_bytes_scalar L (sl_keccak L a)"

definition randomize :: "('s, 'g, 'f) secp \<Rightarrow> u8 list \<Rightarrow> 's option" where
  "randomize L buf = from_bytes_scalar L buf"

text \<open>
  The retry loop: \<open>draws\<close> are the buffers the generator fills, \<open>i\<close> the next of them.
\<close>

function draw_loop ::
    "('s::field, 'g, 'f) secp \<Rightarrow> (nat \<Rightarrow> u8 list) \<Rightarrow> nat \<Rightarrow> nat \<Rightarrow> 's \<Rightarrow> (vrf_error + 's) option" where
  "draw_loop L draws i retries k =
     (if scalar_gte (sl_limbs L k) GROUP_ORDER \<or> k = 0 then
        if MAX_RETRIES < retries then Some (Inl RetriesExceeded)
        else (case randomize L (draws i) of None \<Rightarrow> None | Some k \<Rightarrow> draw_loop L draws (i + 1) (retries + 1) k)
      else Some (Inr k))"
  by pat_completeness auto
termination
  by (relation "measure (\<lambda>(L, draws, i, retries, k). Suc MAX_RETRIES - retries)") auto

declare draw_loop.simps [simp del]

definition random_scalar :: "('s::field, 'g, 'f) secp \<Rightarrow> (nat \<Rightarrow> u8 list) \<Rightarrow> (vrf_error + 's) option" where
  "random_scalar L draws = do {
     k \<leftarrow> randomize L (draws 0);
     draw_loop L draws 1 0 k }"

section \<open>Points\<close>

definition point_bytes :: "('s, 'g, 'f) secp \<Rightarrow> 'g \<Rightarrow> u8 list" where
  "point_bytes L p = sl_field_b32 L (sl_x L p) @ sl_field_b32 L (sl_y L p)"

definition affine_keccak256 :: "('s, 'g, 'f) secp \<Rightarrow> 'g \<Rightarrow> u8 list" where
  "affine_keccak256 L p = sl_keccak L (point_bytes L p)"

definition calculate_witness_address :: "('s, 'g, 'f) secp \<Rightarrow> 'g \<Rightarrow> u8 list" where
  "calculate_witness_address L witness = drop 12 (affine_keccak256 L witness)"

definition y_squared :: "'f::field \<Rightarrow> 'f" where
  "y_squared x = x * x * x + 7"

definition is_on_curve :: "'f::field \<times> 'f \<Rightarrow> bool" where
  "is_on_curve p \<longleftrightarrow> y_squared (fst p) = snd p * snd p"

text \<open>
  \<open>field_hash\<close>: a hash that is not below the field's size is hashed again, and the
  assertion is on the overflow flag that \<open>set_b32\<close> returns.
\<close>

definition field_hash :: "('s, 'g, 'f) secp \<Rightarrow> u8 list \<Rightarrow> 'f option" where
  "field_hash L b = do {
     let output = sl_keccak L b;
     s \<leftarrow> from_bytes_scalar L output;
     s \<leftarrow> (if scalar_gte (sl_limbs L s) FIELD_SIZE then do {
         let output = sl_keccak L output;
         assert_ok (sl_overflows L output);
         Some (sl_set_b32 L output) }
       else Some s);
     Some (sl_field_set_b32 L (sl_b32 L s)) }"

definition new_candidate_point :: "('s, 'g, 'f::field) secp \<Rightarrow> u8 list \<Rightarrow> ('f \<times> 'f) option" where
  "new_candidate_point L b = do {
     x \<leftarrow> field_hash L b;
     let y = sl_sqrt L (y_squared x);
     Some (x, if sl_is_odd L y then - y else y) }"

text \<open>The search for a point on the curve may go on forever: then it is None.\<close>

partial_function (option) candidate_loop ::
    "('s, 'g, 'f::field) secp \<Rightarrow> 'f \<times> 'f \<Rightarrow> ('f \<times> 'f) option" where
  "candidate_loop L rv =
     (if is_on_curve rv then Some rv
      else Option.bind (new_candidate_point L (sl_field_b32 L (fst rv))) (candidate_loop L))"

text \<open>\<open>Field::from_int(1).b32()\<close> and \<open>Scalar::from_int(2).b32()\<close> are the byte after 31 zeros.\<close>

definition int_b32 :: "u8 \<Rightarrow> u8 list" where
  "int_b32 n = replicate 31 0 @ [n]"

definition hash_to_curve_prefix :: "('s, 'g, 'f::field) secp \<Rightarrow> 's \<Rightarrow> 'g \<Rightarrow> 'g option" where
  "hash_to_curve_prefix L alpha pk = do {
     let packed = int_b32 1 @ point_bytes L pk @ sl_b32 L alpha;
     rv \<leftarrow> new_candidate_point L packed;
     rv \<leftarrow> candidate_loop L rv;
     Some (sl_affine L (fst rv) (snd rv)) }"

definition hash_to_curve :: "('s, 'g::ab_group_add, 'f) secp \<Rightarrow> 's \<Rightarrow> 'g option \<Rightarrow> 'g" where
  "hash_to_curve L alpha y =
     (let r = sl_mul L alpha (sl_base L) in case y of Some v \<Rightarrow> r + v | None \<Rightarrow> r)"

definition hash_points ::
    "('s, 'g, 'f) secp \<Rightarrow> 'g \<Rightarrow> 'g \<Rightarrow> 'g \<Rightarrow> 'g \<Rightarrow> 'g \<Rightarrow> 'g \<Rightarrow> 's option" where
  "hash_points L g h pk gamma kg kh =
     from_bytes_scalar L (sl_keccak L (concat (map (point_bytes L) [g, h, pk, gamma, kg, kh])))"

definition hash_points_prefix ::
    "('s, 'g, 'f) secp \<Rightarrow> 'g \<Rightarrow> 'g \<Rightarrow> 'g \<Rightarrow> u8 list \<Rightarrow> 'g \<Rightarrow> 's option" where
  "hash_points_prefix L hash pk gamma u_witness v =
     from_bytes_scalar L (sl_keccak L (int_b32 2 @ concat (map (point_bytes L) [hash, pk, gamma, v]) @ u_witness))"

section \<open>Projective addition\<close>

text \<open>A pair is a fraction: numerator and denominator.\<close>

definition projective_sub :: "'f::field \<times> 'f \<Rightarrow> 'f \<times> 'f \<Rightarrow> 'f \<times> 'f" where
  "projective_sub a b = (snd b * fst a + snd a * (- fst b), snd a * snd b)"

definition projective_mul :: "'f::field \<times> 'f \<Rightarrow> 'f \<times> 'f \<Rightarrow> 'f \<times> 'f" where
  "projective_mul a b = (fst a * fst b, snd a * snd b)"

definition projective_ec_add :: "'f::field \<times> 'f \<Rightarrow> 'f \<times> 'f \<Rightarrow> 'f \<times> 'f \<times> 'f" where
  "projective_ec_add a b =
     (let l = (snd b + - snd a, fst b + - fst a);
          s1 = projective_mul l l;
          s1 = projective_sub s1 (fst a, 1);
          s1 = projective_sub s1 (fst b, 1);
          s2 = projective_sub (fst a, 1) s1;
          s2 = projective_mul s2 l;
          s2 = projective_sub s2 (snd a, 1) in
      if snd s1 \<noteq> snd s2 then (fst s1 * snd s2, fst s2 * snd s1, snd s1 * snd s2)
      else (fst s1, fst s2, snd s1))"

section \<open>Proving and verifying\<close>

record ('s, 'g) vrf_proof =
  vp_gamma :: 'g
  vp_c :: 's
  vp_s :: 's
  vp_y :: 's
  vp_pk :: 'g

record ('s, 'g, 'f) contract_proof =
  cp_pk :: 'g
  cp_gamma :: 'g
  cp_c :: 's
  cp_s :: 's
  cp_y :: 's
  cp_alpha :: 's
  cp_witness_address :: 's
  cp_witness_gamma :: 'g
  cp_witness_hash :: 'g
  cp_inverse_z :: 'f

record ('s, 'g) ecvrf =
  secret_key :: 's
  public_key :: 'g

definition ECVRF_new :: "('s, 'g, 'f) secp \<Rightarrow> 's \<Rightarrow> ('s, 'g) ecvrf" where
  "ECVRF_new L sk = \<lparr>secret_key = sk, public_key = sl_mul L sk (sl_base L)\<rparr>"

definition vrf_prove ::
    "('s::field, 'g::ab_group_add, 'f) secp \<Rightarrow> (nat \<Rightarrow> u8 list) \<Rightarrow> ('s, 'g) ecvrf \<Rightarrow> 's \<Rightarrow>
     (vrf_error + ('s, 'g) vrf_proof) option" where
  "vrf_prove L draws e alpha = do {
     let h = hash_to_curve L alpha (Some (public_key e));
     let gamma = sl_mul L (secret_key e) h;
     r \<leftarrow> random_scalar L draws;
     case r of Inl err \<Rightarrow> Some (Inl err)
     | Inr k \<Rightarrow> do {
         let kg = sl_mul L k (sl_base L);
         let kh = sl_mul L k h;
         c \<leftarrow> hash_points L (sl_base L) h (public_key e) gamma kg kh;
         let neg_c = - c;
         let s = k + neg_c * secret_key e;
         y \<leftarrow> from_bytes_scalar L (affine_keccak256 L gamma);
         Some (Inr \<lparr>vp_gamma = gamma, vp_c = c, vp_s = s, vp_y = y, vp_pk = public_key e\<rparr>) } }"

definition vrf_verify ::
    "('s::field, 'g::ab_group_add, 'f) secp \<Rightarrow> ('s, 'g) ecvrf \<Rightarrow> 's \<Rightarrow> ('s, 'g) vrf_proof \<Rightarrow> bool option" where
  "vrf_verify L e alpha p = do {
     assert_ok (sl_valid L (public_key e));
     assert_ok (sl_valid L (vp_gamma p));
     let h = hash_to_curve L alpha (Some (public_key e));
     let u = sl_mul L (vp_c p) (public_key e) + sl_mul L (vp_s p) (sl_base L);
     let witness_gamma = sl_mul L (vp_c p) (vp_gamma p);
     let witness_hash = sl_mul L (vp_s p) h;
     let v = witness_gamma + witness_hash;
     computed_c \<leftarrow> hash_points L (sl_base L) h (public_key e) (vp_gamma p) u v;
     computed_y \<leftarrow> from_bytes_scalar L (affine_keccak256 L (vp_gamma p));
     Some (computed_c = vp_c p \<and> computed_y = vp_y p) }"

definition vrf_prove_contract ::
    "('s::field, 'g::ab_group_add, 'f::field) secp \<Rightarrow> (nat \<Rightarrow> u8 list) \<Rightarrow> ('s, 'g) ecvrf \<Rightarrow> 's \<Rightarrow>
     (vrf_error + ('s, 'g, 'f) contract_proof) option" where
  "vrf_prove_contract L draws e alpha = do {
     assert_ok (sl_valid L (public_key e));
     h \<leftarrow> hash_to_curve_prefix L alpha (public_key e);
     let gamma = sl_mul L (secret_key e) h;
     r \<leftarrow> random_scalar L draws;
     case r of Inl err \<Rightarrow> Some (Inl err)
     | Inr k \<Rightarrow> do {
         let kg = sl_mul L k (sl_base L);
         let u_witness = calculate_witness_address L kg;
         let kh = sl_mul L k h;
         c \<leftarrow> hash_points_prefix L h (public_key e) gamma u_witness kh;
         let neg_c = - c;
         let s = k + neg_c * secret_key e;
         let witness_gamma = sl_mul L c gamma;
         let witness_hash = sl_mul L s h;
         let (vx, vy, vz) = projective_ec_add (sl_x L witness_gamma, sl_y L witness_gamma) (sl_x L witness_hash, sl_y L witness_hash);
         y \<leftarrow> from_bytes_scalar L (affine_keccak256 L gamma);
         witness_address \<leftarrow> from_bytes_scalar L u_witness;
         Some (Inr \<lparr>cp_pk = public_key e, cp_gamma = gamma, cp_c = c, cp_s = s, cp_y = y, cp_alpha = alpha,
           cp_witness_address = witness_address, cp_witness_gamma = witness_gamma,
           cp_witness_hash = witness_hash, cp_inverse_z = inverse vz\<rparr>) } }"

section \<open>Keys\<close>

record raw_key_pair =
  rk_public_key :: "u8 list"
  rk_secret_key :: "u8 list"

definition zeroize :: "raw_key_pair \<Rightarrow> raw_key_pair" where
  "zeroize k = \<lparr>rk_public_key = map (\<lambda>b. b XOR b) (rk_public_key k), rk_secret_key = map (\<lambda>b. b XOR b) (rk_secret_key k)\<rparr>"

definition raw_is_zero :: "raw_key_pair \<Rightarrow> bool" where
  "raw_is_zero k \<longleftrightarrow> list_all (\<lambda>b. b = 0) (rk_public_key k) \<and> list_all (\<lambda>b. b = 0) (rk_secret_key k)"

text \<open>
  A key pair is the secret scalar and its multiple of the base point. The library parses the
  bytes of a secret, which may fail, and serialises keys.
\<close>

definition KeyPair_from :: "('s, 'g, 'f) secp \<Rightarrow> 's \<Rightarrow> 's \<times> 'g" where
  "KeyPair_from L value = (value, sl_mul L value (sl_base L))"

definition KeyPair_new :: "('s, 'g, 'f) secp \<Rightarrow> 's \<Rightarrow> 's \<times> 'g" where
  "KeyPair_new L drawn = (drawn, sl_mul L drawn (sl_base L))"

definition KeyPair_parse :: "('s, 'g, 'f) secp \<Rightarrow> (u8 list \<Rightarrow> 's option) \<Rightarrow> u8 list \<Rightarrow> ('s \<times> 'g) option" where
  "KeyPair_parse L parse bytes = do {
     secret_instance \<leftarrow> parse bytes;
     Some (secret_instance, sl_mul L secret_instance (sl_base L)) }"

definition RawKeyPair_from :: "('g \<Rightarrow> u8 list) \<Rightarrow> ('s \<Rightarrow> u8 list) \<Rightarrow> 's \<times> 'g \<Rightarrow> raw_key_pair" where
  "RawKeyPair_from public_bytes secret_bytes keypair =
     \<lparr>rk_public_key = public_bytes (snd keypair), rk_secret_key = secret_bytes (fst keypair)\<rparr>"

definition RawKeyPair_parse ::
    "('s, 'g, 'f) secp \<Rightarrow> (u8 list \<Rightarrow> 's option) \<Rightarrow> ('g \<Rightarrow> u8 list) \<Rightarrow> u8 list \<Rightarrow> raw_key_pair option" where
  "RawKeyPair_parse L parse public_bytes bytes = do {
     secret_instance \<leftarrow> parse bytes;
     Some \<lparr>rk_public_key = public_bytes (sl_mul L secret_instance (sl_base L)), rk_secret_key = bytes\<rparr> }"

text \<open>The bytes of a secret that the library wrote give the pair and its raw form back.\<close>

lemma key_pair_roundtrip:
  assumes "parse (secret_bytes sk) = Some sk"
  shows "KeyPair_parse L parse (rk_secret_key (RawKeyPair_from public_bytes secret_bytes (KeyPair_from L sk))) = Some (KeyPair_from L sk)"
    and "RawKeyPair_parse L parse public_bytes (secret_bytes sk) = Some (RawKeyPair_from public_bytes secret_bytes (KeyPair_from L sk))"
  using assms by (simp_all add: KeyPair_parse_def RawKeyPair_from_def RawKeyPair_parse_def KeyPair_from_def)

text \<open>The Ethereum address of a public key, whose coordinates are normalised first.\<close>

definition get_address :: "('s, 'g, 'f) secp \<Rightarrow> 'g \<Rightarrow> u8 list" where
  "get_address L pub_key = calculate_witness_address L pub_key"

end
