(* ===== verification/Node_Store.thy ===== *)
theory Node_Store
  imports Prelude
begin

text \<open>
  The tables of the randomness oracle (\<open>node/src/postgres\<close>) and the queries on them. The
  database is PostgreSQL behind an object-relational crate: a record of the statements the
  code runs, with the contents of the tables as a view. What the statements do is the
  predicate \<open>sql_ok\<close>, which takes the constraints of the schema from the migrations.
\<close>

section \<open>Rows\<close>

text \<open>
  A row extends the fields its insertion gives; the randomness record starts with the
  columns that are serialised.
\<close>

record keyring_fields =
  kr_username :: string
  kr_hmac_secret :: string
  kr_public_key :: string
  kr_secret_key :: string

record keyring = keyring_fields +
  kr_id :: int
  kr_created_date :: string

record receiver_fields =
  rc_keyring_id :: int
  rc_name :: string
  rc_address :: string
  rc_network :: int
  rc_nonce :: int

record receiver = receiver_fields +
  rc_id :: int
  rc_created_date :: string

record randomness_public =
  rn_epoch :: int
  rn_alpha :: string
  rn_gamma :: string
  rn_c :: string
  rn_s :: string
  rn_y :: string
  rn_witness_address :: string
  rn_witness_gamma :: string
  rn_witness_hash :: string
  rn_inverse_z :: string
  rn_signature_proof :: string

record randomness_fields = randomness_public +
  rn_keyring_id :: int
  rn_receiver_id :: int

record randomness = randomness_fields +
  rn_id :: int
  rn_created_date :: string

section \<open>Statements\<close>

datatype db_err = RecordNotFound string | ExecError string | OtherError string

datatype row_order = Unordered | EpochDesc

record tables =
  keyrings :: "keyring list"
  receivers :: "receiver list"
  randomnesses :: "randomness list"

text \<open>
  A selection gets a condition; that of the randomness table an order and a limit too. A
  transaction works on the value \<open>sq_begin\<close> gives; \<open>sq_commit\<close> gets the value at its
  start, the one it worked on and whether one of its statements has failed.
\<close>

record 'db sql =
  sq_tables :: "'db \<Rightarrow> tables"
  sq_select_keyring :: "'db \<Rightarrow> (keyring \<Rightarrow> bool) \<Rightarrow> db_err + keyring list"
  sq_select_receiver :: "'db \<Rightarrow> (receiver \<Rightarrow> bool) \<Rightarrow> db_err + receiver list"
  sq_select_randomness :: "'db \<Rightarrow> (randomness \<Rightarrow> bool) \<Rightarrow> row_order \<Rightarrow> nat option \<Rightarrow> db_err + randomness list"
  sq_insert_keyring :: "keyring_fields \<Rightarrow> 'db \<Rightarrow> db_err + keyring \<times> 'db"
  sq_insert_receiver :: "receiver_fields \<Rightarrow> 'db \<Rightarrow> db_err + receiver \<times> 'db"
  sq_insert_randomness :: "randomness_fields \<Rightarrow> 'db \<Rightarrow> db_err + randomness \<times> 'db"
  sq_update_receiver :: "receiver \<Rightarrow> 'db \<Rightarrow> db_err + receiver \<times> 'db"
  sq_update_randomness :: "randomness \<Rightarrow> 'db \<Rightarrow> db_err + randomness \<times> 'db"
  sq_delete_receivers :: "(receiver \<Rightarrow> bool) \<Rightarrow> 'db \<Rightarrow> db_err + nat \<times> 'db"
  sq_begin :: "'db \<Rightarrow> db_err + 'db"
  sq_commit :: "'db \<Rightarrow> 'db \<Rightarrow> bool \<Rightarrow> db_err + 'db"

text \<open>\<open>one()\<close> on a selection.\<close>

definition one :: "'e + 'r list \<Rightarrow> 'e + 'r option" where
  "one r = map_sum id (\<lambda>xs. case xs of [] \<Rightarrow> None | x # _ \<Rightarrow> Some x) r"

section \<open>The keyring table\<close>

definition keyring_find_by_id :: "'db sql \<Rightarrow> 'db \<Rightarrow> int \<Rightarrow> db_err + keyring option" where
  "keyring_find_by_id Q db i = one (sq_select_keyring Q db (\<lambda>k. kr_id k = i))"

definition keyring_find_by_name :: "'db sql \<Rightarrow> 'db \<Rightarrow> string \<Rightarrow> db_err + keyring option" where
  "keyring_find_by_name Q db name = one (sq_select_keyring Q db (\<lambda>k. kr_username k = name))"

definition keyring_find_all :: "'db sql \<Rightarrow> 'db \<Rightarrow> db_err + keyring list" where
  "keyring_find_all Q db = sq_select_keyring Q db (\<lambda>_. True)"

definition keyring_insert :: "'db sql \<Rightarrow> keyring_fields \<Rightarrow> 'db \<Rightarrow> db_err + keyring \<times> 'db" where
  "keyring_insert Q json_record db = sq_insert_keyring Q json_record db"

section \<open>The receiver table\<close>

text \<open>The subquery of the keyring ids of a user; the rows of a failing one are none.\<close>

definition keyring_ids :: "'db sql \<Rightarrow> 'db \<Rightarrow> string \<Rightarrow> int set" where
  "keyring_ids Q db username = {kr_id k | k. k \<in> set (keyrings (sq_tables Q db)) \<and> kr_username k = username}"

definition receiver_find_by_id :: "'db sql \<Rightarrow> 'db \<Rightarrow> int \<Rightarrow> db_err + receiver option" where
  "receiver_find_by_id Q db i = one (sq_select_receiver Q db (\<lambda>r. rc_id r = i))"

definition receiver_update :: "'db sql \<Rightarrow> receiver \<Rightarrow> 'db \<Rightarrow> db_err + receiver \<times> 'db" where
  "receiver_update Q record db = sq_update_receiver Q record db"

definition receiver_find_by_username :: "'db sql \<Rightarrow> 'db \<Rightarrow> string \<Rightarrow> db_err + receiver list" where
  "receiver_find_by_username Q db username =
     sq_select_receiver Q db (\<lambda>r. rc_keyring_id r \<in> keyring_ids Q db username)"

definition receiver_delete :: "'db sql \<Rightarrow> string \<Rightarrow> int \<Rightarrow> 'db \<Rightarrow> db_err + nat \<times> 'db" where
  "receiver_delete Q username receiver_id db =
     sq_delete_receivers Q (\<lambda>r. rc_id r = receiver_id \<and> rc_keyring_id r \<in> keyring_ids Q db username) db"

definition receiver_find_one :: "'db sql \<Rightarrow> 'db \<Rightarrow> int \<Rightarrow> string \<Rightarrow> db_err + receiver option" where
  "receiver_find_one Q db network address =
     one (sq_select_receiver Q db (\<lambda>r. rc_address r = address \<and> rc_network r = network))"

definition receiver_insert :: "'db sql \<Rightarrow> receiver_fields \<Rightarrow> 'db \<Rightarrow> db_err + receiver \<times> 'db" where
  "receiver_insert Q json_record db = sq_insert_receiver Q json_record db"

section \<open>The randomness table\<close>

definition find_recent_epoch :: "'db sql \<Rightarrow> 'db \<Rightarrow> int \<Rightarrow> string \<Rightarrow> (db_err, randomness list) result" where
  "find_recent_epoch Q db network address = do {
     receiver \<leftarrow> expect_ok (receiver_find_one Q db network address);
     case receiver of
       Some r \<Rightarrow> Some (sq_select_randomness Q db (\<lambda>x. rn_receiver_id x = rc_id r) EpochDesc (Some 20))
     | None \<Rightarrow> Some (Inr []) }"

definition find_closure_epoch :: "'db sql \<Rightarrow> 'db \<Rightarrow> int \<Rightarrow> string \<Rightarrow> int \<Rightarrow> (db_err, randomness list) result" where
  "find_closure_epoch Q db network address epoch = do {
     receiver \<leftarrow> expect_ok (receiver_find_one Q db network address);
     case receiver of
       Some r \<Rightarrow> Some (sq_select_randomness Q db (\<lambda>x. rn_receiver_id x = rc_id r \<and> rn_epoch x \<le> epoch) EpochDesc (Some 20))
     | None \<Rightarrow> Some (Inr []) }"

definition find_latest_epoch :: "'db sql \<Rightarrow> 'db \<Rightarrow> int \<Rightarrow> string \<Rightarrow> (db_err, randomness option) result" where
  "find_latest_epoch Q db network address = do {
     receiver \<leftarrow> expect_ok (receiver_find_one Q db network address);
     case receiver of
       Some r \<Rightarrow> Some (one (sq_select_randomness Q db (\<lambda>x. rn_receiver_id x = rc_id r) EpochDesc (Some 1)))
     | None \<Rightarrow> Some (Inr None) }"

definition find_given_epoch :: "'db sql \<Rightarrow> 'db \<Rightarrow> int \<Rightarrow> string \<Rightarrow> int \<Rightarrow> (db_err, randomness option) result" where
  "find_given_epoch Q db network address epoch_id = do {
     receiver \<leftarrow> expect_ok (receiver_find_one Q db network address);
     case receiver of
       Some r \<Rightarrow> Some (one (sq_select_randomness Q db (\<lambda>x. rn_receiver_id x = rc_id r \<and> rn_epoch x = epoch_id) EpochDesc (Some 1)))
     | None \<Rightarrow> Some (Inr None) }"

definition randomness_update :: "'db sql \<Rightarrow> randomness \<Rightarrow> 'db \<Rightarrow> db_err + randomness \<times> 'db" where
  "randomness_update Q active_model db = sq_update_randomness Q active_model db"

section \<open>What the statements do\<close>

text \<open>The first \<open>n\<close> of the rows meeting the condition, in an order that puts high epochs first.\<close>

definition selects :: "randomness list \<Rightarrow> row_order \<Rightarrow> nat option \<Rightarrow> randomness list \<Rightarrow> bool" where
  "selects rows ord lim xs \<longleftrightarrow> (\<exists>ys. mset ys = mset rows \<and>
     (ord = EpochDesc \<longrightarrow> sorted_wrt (\<lambda>x y. rn_epoch y \<le> rn_epoch x) ys) \<and>
     xs = (case lim of None \<Rightarrow> ys | Some n \<Rightarrow> take n ys))"

text \<open>
  The constraints of the schema an inserted row meets: fresh primary keys, the unique
  columns, and foreign keys.
\<close>

definition keyring_allowed :: "keyring_fields \<Rightarrow> tables \<Rightarrow> bool" where
  "keyring_allowed f t \<longleftrightarrow> (\<forall>k \<in> set (keyrings t). kr_username k \<noteq> kr_username f \<and>
     kr_public_key k \<noteq> kr_public_key f \<and> kr_secret_key k \<noteq> kr_secret_key f)"

definition receiver_allowed :: "receiver_fields \<Rightarrow> tables \<Rightarrow> bool" where
  "receiver_allowed f t \<longleftrightarrow> rc_keyring_id f \<in> kr_id ` set (keyrings t) \<and>
     (\<forall>r \<in> set (receivers t). rc_name r \<noteq> rc_name f \<and> (rc_address r, rc_network r) \<noteq> (rc_address f, rc_network f))"

definition randomness_allowed :: "randomness_fields \<Rightarrow> tables \<Rightarrow> bool" where
  "randomness_allowed f t \<longleftrightarrow> rn_keyring_id f \<in> kr_id ` set (keyrings t) \<and>
     rn_receiver_id f \<in> rc_id ` set (receivers t) \<and>
     (\<forall>x \<in> set (randomnesses t). rn_alpha x \<noteq> rn_alpha f \<and> rn_y x \<noteq> rn_y f \<and> rn_signature_proof x \<noteq> rn_signature_proof f)"

definition update_receivers :: "receiver \<Rightarrow> receiver list \<Rightarrow> receiver list" where
  "update_receivers row rows = map (\<lambda>r. if rc_id r = rc_id row then row else r) rows"

definition update_randomnesses :: "randomness \<Rightarrow> randomness list \<Rightarrow> randomness list" where
  "update_randomnesses row rows = map (\<lambda>x. if rn_id x = rn_id row then row else x) rows"

definition selects_ok :: "'db sql \<Rightarrow> bool" where
  "selects_ok Q \<longleftrightarrow>
     (\<forall>db P xs. sq_select_keyring Q db P = Inr xs \<longrightarrow> mset xs = mset (filter P (keyrings (sq_tables Q db)))) \<and>
     (\<forall>db P xs. sq_select_receiver Q db P = Inr xs \<longrightarrow> mset xs = mset (filter P (receivers (sq_tables Q db)))) \<and>
     (\<forall>db P ord lim xs. sq_select_randomness Q db P ord lim = Inr xs \<longrightarrow>
        selects (filter P (randomnesses (sq_tables Q db))) ord lim xs)"

definition inserts_ok :: "'db sql \<Rightarrow> bool" where
  "inserts_ok Q \<longleftrightarrow>
     (\<forall>f db row db'. sq_insert_keyring Q f db = Inr (row, db') \<longrightarrow> keyring_fields.truncate row = f \<and>
        kr_id row \<notin> kr_id ` set (keyrings (sq_tables Q db)) \<and> keyring_allowed f (sq_tables Q db) \<and>
        sq_tables Q db' = sq_tables Q db\<lparr>keyrings := keyrings (sq_tables Q db) @ [row]\<rparr>) \<and>
     (\<forall>f db row db'. sq_insert_receiver Q f db = Inr (row, db') \<longrightarrow> receiver_fields.truncate row = f \<and>
        rc_id row \<notin> rc_id ` set (receivers (sq_tables Q db)) \<and> receiver_allowed f (sq_tables Q db) \<and>
        sq_tables Q db' = sq_tables Q db\<lparr>receivers := receivers (sq_tables Q db) @ [row]\<rparr>) \<and>
     (\<forall>f db row db'. sq_insert_randomness Q f db = Inr (row, db') \<longrightarrow> randomness_fields.truncate row = f \<and>
        rn_id row \<notin> rn_id ` set (randomnesses (sq_tables Q db)) \<and> randomness_allowed f (sq_tables Q db) \<and>
        sq_tables Q db' = sq_tables Q db\<lparr>randomnesses := randomnesses (sq_tables Q db) @ [row]\<rparr>)"

definition transactions_ok :: "'db sql \<Rightarrow> bool" where
  "transactions_ok Q \<longleftrightarrow>
     (\<forall>db w. sq_begin Q db = Inr w \<longrightarrow> sq_tables Q w = sq_tables Q db) \<and>
     (\<forall>row db row' db'. sq_update_receiver Q row db = Inr (row', db') \<longrightarrow>
        sq_tables Q db' = sq_tables Q db\<lparr>receivers := update_receivers row (receivers (sq_tables Q db))\<rparr>) \<and>
     (\<forall>row db row' db'. sq_update_randomness Q row db = Inr (row', db') \<longrightarrow>
        sq_tables Q db' = sq_tables Q db\<lparr>randomnesses := update_randomnesses row (randomnesses (sq_tables Q db))\<rparr>) \<and>
     (\<forall>db w aborted db'. sq_commit Q db w aborted = Inr db' \<longrightarrow>
        sq_tables Q db' = (if aborted then sq_tables Q db else sq_tables Q w))"

definition sql_ok :: "'db sql \<Rightarrow> bool" where
  "sql_ok Q \<longleftrightarrow> selects_ok Q \<and> inserts_ok Q \<and> transactions_ok Q"

text \<open>A database that is up answers every statement its constraints allow.\<close>

definition sql_up :: "'db sql \<Rightarrow> bool" where
  "sql_up Q \<longleftrightarrow>
     (\<forall>db P. \<exists>xs. sq_select_keyring Q db P = Inr xs) \<and> (\<forall>db P. \<exists>xs. sq_select_receiver Q db P = Inr xs) \<and>
     (\<forall>db P ord lim. \<exists>xs. sq_select_randomness Q db P ord lim = Inr xs) \<and>
     (\<forall>f db. keyring_allowed f (sq_tables Q db) \<longrightarrow> (\<exists>r. sq_insert_keyring Q f db = Inr r)) \<and>
     (\<forall>f db. receiver_allowed f (sq_tables Q db) \<longrightarrow> (\<exists>r. sq_insert_receiver Q f db = Inr r)) \<and>
     (\<forall>f db. randomness_allowed f (sq_tables Q db) \<longrightarrow> (\<exists>r. sq_insert_randomness Q f db = Inr r)) \<and>
     (\<forall>row db. rc_id row \<in> rc_id ` set (receivers (sq_tables Q db)) \<longrightarrow> (\<exists>r. sq_update_receiver Q row db = Inr r)) \<and>
     (\<forall>db. \<exists>w. sq_begin Q db = Inr w) \<and> (\<forall>db w aborted. \<exists>db'. sq_commit Q db w aborted = Inr db')"

section \<open>Facts\<close>

lemma one_Inr: "one r = Inr x \<longleftrightarrow> (\<exists>xs. r = Inr xs \<and> x = (case xs of [] \<Rightarrow> None | y # _ \<Rightarrow> Some y))"
  by (cases r) (auto simp: one_def)

lemma one_select:
  assumes "one r = Inr x" "\<And>xs. r = Inr xs \<Longrightarrow> set xs = S"
  shows "(case x of None \<Rightarrow> S = {} | Some y \<Rightarrow> y \<in> S)"
proof -
  obtain xs where r: "r = Inr xs" and x: "x = (case xs of [] \<Rightarrow> None | y # _ \<Rightarrow> Some y)"
    using assms(1) by (auto simp: one_Inr)
  show ?thesis using assms(2) [OF r] x by (cases xs) auto
qed

lemma mset_filter_set: "mset xs = mset (filter P ys) \<Longrightarrow> set xs = {y \<in> set ys. P y}"
  by (drule mset_eq_setD) simp

lemma select_sets:
  assumes "sql_ok Q"
  shows "sq_select_keyring Q db P = Inr xs \<Longrightarrow> set xs = {k \<in> set (keyrings (sq_tables Q db)). P k}"
    and "sq_select_receiver Q db P' = Inr ys \<Longrightarrow> set ys = {r \<in> set (receivers (sq_tables Q db)). P' r}"
proof -
  have "selects_ok Q" using assms by (simp add: sql_ok_def)
  then show "sq_select_keyring Q db P = Inr xs \<Longrightarrow> set xs = {k \<in> set (keyrings (sq_tables Q db)). P k}"
    and "sq_select_receiver Q db P' = Inr ys \<Longrightarrow> set ys = {r \<in> set (receivers (sq_tables Q db)). P' r}"
    unfolding selects_ok_def by (metis mset_filter_set)+
qed

lemma keyring_found:
  assumes "sql_ok Q" "keyring_find_by_name Q db name = Inr x"
  shows "case x of None \<Rightarrow> \<forall>k \<in> set (keyrings (sq_tables Q db)). kr_username k \<noteq> name
    | Some k \<Rightarrow> k \<in> set (keyrings (sq_tables Q db)) \<and> kr_username k = name"
  using one_select [OF assms(2) [unfolded keyring_find_by_name_def], of "{k \<in> set (keyrings (sq_tables Q db)). kr_username k = name}"]
    select_sets(1) [OF assms(1)] by (auto split: option.splits)

lemma receiver_found:
  assumes "sql_ok Q" "one (sq_select_receiver Q db P) = Inr x"
  shows "case x of None \<Rightarrow> \<forall>r \<in> set (receivers (sq_tables Q db)). \<not> P r
    | Some r \<Rightarrow> r \<in> set (receivers (sq_tables Q db)) \<and> P r"
  using one_select [OF assms(2), of "{r \<in> set (receivers (sq_tables Q db)). P r}"] select_sets(2) [OF assms(1)]
  by (auto split: option.splits)

lemma selects_set: "selects rows ord lim xs \<Longrightarrow> set xs \<subseteq> set rows"
  unfolding selects_def by (metis mset_eq_setD option.case_eq_if set_take_subset subset_refl)

text \<open>The latest epoch of a receiver.\<close>

lemma latest_found:
  assumes "sql_ok Q" "one (sq_select_randomness Q db P EpochDesc lim) = Inr x" "lim \<noteq> Some 0"
  shows "case x of None \<Rightarrow> \<forall>r \<in> set (randomnesses (sq_tables Q db)). \<not> P r
    | Some r \<Rightarrow> r \<in> set (randomnesses (sq_tables Q db)) \<and> P r \<and>
        (\<forall>r' \<in> set (randomnesses (sq_tables Q db)). P r' \<longrightarrow> rn_epoch r' \<le> rn_epoch r)"
proof -
  let ?rows = "filter P (randomnesses (sq_tables Q db))"
  obtain xs where xs: "sq_select_randomness Q db P EpochDesc lim = Inr xs"
    and x: "x = (case xs of [] \<Rightarrow> None | y # _ \<Rightarrow> Some y)" using assms(2) by (auto simp: one_Inr)
  then have "selects ?rows EpochDesc lim xs" using assms(1) unfolding sql_ok_def selects_ok_def by blast
  then obtain ys where ys: "mset ys = mset ?rows" "sorted_wrt (\<lambda>x y. rn_epoch y \<le> rn_epoch x) ys"
    "xs = (case lim of None \<Rightarrow> ys | Some n \<Rightarrow> take n ys)" by (auto simp: selects_def)
  have set: "set ys = set ?rows" using ys(1) by (rule mset_eq_setD)
  show ?thesis
  proof (cases ys)
    case Nil
    then show ?thesis using x ys(3) set by (auto simp: filter_empty_conv split: option.splits)
  next
    case (Cons y zs)
    then have "x = Some y" using x ys(3) assms(3) by (cases lim) (auto simp: take_Cons split: nat.splits)
    then show ?thesis using set ys(2) Cons by (auto simp: set_eq_iff)
  qed
qed

end
