(* ===== verification/Node_Rpc.thy ===== *)
theory Node_Rpc
  imports Prelude
begin

text \<open>
  Requests of the randomness oracle: its errors (\<open>node/src/error.rs\<close>), the JSON-RPC
  methods and their parameters (\<open>rpc.rs\<close>) and its tokens (\<open>jwt.rs\<close>). Strings are lists
  of bytes. The JSON, base64, hex and HMAC crates and the clock are parameters; an \<open>i64\<close> is
  an integer within its range.
\<close>

section \<open>Errors\<close>

datatype node_error = Error string string

fun error_code :: "node_error \<Rightarrow> string" where
  "error_code (Error c r) = c"

fun error_reason :: "node_error \<Rightarrow> string" where
  "error_reason (Error c r) = r"

definition error_json :: "node_error \<Rightarrow> string" where
  "error_json e =
     (let q = [char_of (34 :: nat)] in
      ''{'' @ q @ ''success'' @ q @ '':false,'' @ q @ ''message'' @ q @ '':'' @ q @
      ''Code ['' @ error_code e @ '']: '' @ error_reason e @ q @ ''}'')"

section \<open>Characters and numbers\<close>

abbreviation byte_of :: "char \<Rightarrow> nat" where
  "byte_of c \<equiv> of_char c"

definition is_digit :: "char \<Rightarrow> bool" where
  "is_digit c \<longleftrightarrow> 48 \<le> byte_of c \<and> byte_of c \<le> 57"

definition is_lower :: "char \<Rightarrow> bool" where
  "is_lower c \<longleftrightarrow> 97 \<le> byte_of c \<and> byte_of c \<le> 122"

definition is_hex_digit :: "char \<Rightarrow> bool" where
  "is_hex_digit c \<longleftrightarrow> is_digit c \<or> (97 \<le> byte_of c \<and> byte_of c \<le> 102) \<or> (65 \<le> byte_of c \<and> byte_of c \<le> 70)"

definition lower_char :: "char \<Rightarrow> char" where
  "lower_char c = (if 65 \<le> byte_of c \<and> byte_of c \<le> 90 then char_of (byte_of c + 32) else c)"

definition I64_MAX :: int where
  "I64_MAX = 2 ^ 63 - 1"

definition in_i64 :: "int \<Rightarrow> bool" where
  "in_i64 n \<longleftrightarrow> - (2 ^ 63) \<le> n \<and> n \<le> I64_MAX"

text \<open>\<open>str::parse::<i64>\<close>: an optional sign, at least one digit, no overflow.\<close>

definition split_sign :: "string \<Rightarrow> bool \<times> string" where
  "split_sign s = (case s of [] \<Rightarrow> (False, [])
     | c # cs \<Rightarrow> if c = CHR ''-'' then (True, cs) else if c = CHR ''+'' then (False, cs) else (False, s))"

definition digits_int :: "string \<Rightarrow> int" where
  "digits_int ds = foldl (\<lambda>n c. n * 10 + int (byte_of c - 48)) 0 ds"

definition parse_i64 :: "string \<Rightarrow> int option" where
  "parse_i64 s =
     (let (neg, ds) = split_sign s; n = (if neg then - digits_int ds else digits_int ds) in
      if ds \<noteq> [] \<and> list_all is_digit ds \<and> in_i64 n then Some n else None)"

section \<open>Parameters of a method\<close>

definition ZERO_ADDRESS :: string where
  "ZERO_ADDRESS = ''0x0000000000000000000000000000000000000000''"

text \<open>The expression of \<open>decode_i64\<close> is not anchored: one digit anywhere matches it.\<close>

definition decode_i64 :: "string \<Rightarrow> int option" where
  "decode_i64 val = (if list_ex is_digit val then parse_i64 val else panic)"

definition decode_address :: "string \<Rightarrow> string option" where
  "decode_address val =
     (if length val = 42 \<and> take 2 val = ''0x'' \<and> list_all is_hex_digit (drop 2 val)
      then Some (map lower_char val) else panic)"

definition check_name :: "string \<Rightarrow> bool" where
  "check_name val = (case val of [] \<Rightarrow> False
     | c # cs \<Rightarrow> is_lower c \<and> 3 \<le> length cs \<and> length cs \<le> 40 \<and>
         list_all (\<lambda>x. is_lower x \<or> is_digit x \<or> x = CHR ''_'') cs)"

definition decode_name :: "string \<Rightarrow> string option" where
  "decode_name val = (if check_name val then Some val else panic)"

section \<open>Methods\<close>

record json_rpc_payload =
  jr_method :: string
  jr_params :: "string list"

datatype json_rpc_method =
    OrandNewEpoch int string
  | OrandGetEpoch int string int
  | OrandNewPrivateEpoch int string
  | OrandGetPublicKey string
  | AdminGetUser string
  | AdminAddUser string
  | AdminGetReceiver string
  | AdminAddReceiver string string int
  | AdminRemoveReceiver string int

definition param :: "json_rpc_payload \<Rightarrow> nat \<Rightarrow> (string \<Rightarrow> 'a option) \<Rightarrow> 'a option" where
  "param p i decode = Option.bind (vec_get (jr_params p) i) decode"

text \<open>\<open>from_json_string\<close>, given what \<open>serde_json\<close> makes of the string.\<close>

definition from_json_string :: "json_rpc_payload option \<Rightarrow> (node_error, json_rpc_method) result" where
  "from_json_string parsed = (case parsed of
     None \<Rightarrow> Some (Inl (Error ''INVALID_JSON'' ''Invalid JSON''))
   | Some p \<Rightarrow>
       if jr_method p = ''orand_getPublicEpoch'' then do {
         network \<leftarrow> param p 0 decode_i64; epoch \<leftarrow> param p 1 decode_i64;
         Some (Inr (OrandGetEpoch network ZERO_ADDRESS epoch)) }
       else if jr_method p = ''orand_getPrivateEpoch'' then do {
         network \<leftarrow> param p 0 decode_i64; address \<leftarrow> param p 1 decode_address; epoch \<leftarrow> param p 2 decode_i64;
         Some (Inr (OrandGetEpoch network address epoch)) }
       else if jr_method p = ''orand_newPublicEpoch'' then do {
         network \<leftarrow> param p 0 decode_i64;
         Some (Inr (OrandNewEpoch network ZERO_ADDRESS)) }
       else if jr_method p = ''orand_newPrivateEpoch'' then do {
         network \<leftarrow> param p 0 decode_i64; address \<leftarrow> param p 1 decode_address;
         Some (Inr (OrandNewEpoch network address)) }
       else if jr_method p = ''orand_getPublicKey'' then do {
         name \<leftarrow> param p 0 decode_name; Some (Inr (OrandGetPublicKey name)) }
       else if jr_method p = ''admin_getUser'' then do {
         name \<leftarrow> param p 0 decode_name; Some (Inr (AdminGetUser name)) }
       else if jr_method p = ''admin_addUser'' then do {
         name \<leftarrow> param p 0 decode_name; Some (Inr (AdminAddUser name)) }
       else if jr_method p = ''admin_getReceiver'' then do {
         name \<leftarrow> param p 0 decode_name; Some (Inr (AdminGetReceiver name)) }
       else if jr_method p = ''admin_addReceiver'' then do {
         name \<leftarrow> param p 0 decode_name; address \<leftarrow> param p 1 decode_address; network \<leftarrow> param p 2 decode_i64;
         Some (Inr (AdminAddReceiver name address network)) }
       else Some (Inl (Error ''INVALID_METHOD'' ''Unsupported method'')))"

section \<open>Tokens\<close>

record jwt_payload =
  jwt_user :: string
  jwt_nonce :: u32
  jwt_iat :: u64
  jwt_exp :: u64

text \<open>What the node takes from its crates.\<close>

record codecs =
  parse_rpc :: "string \<Rightarrow> json_rpc_payload option"
  parse_jwt :: "u8 list \<Rightarrow> jwt_payload option"
  base64_decode :: "string \<Rightarrow> u8 list option"
  hex_encode :: "u8 list \<Rightarrow> string"
  hex_decode :: "string \<Rightarrow> u8 list option"
  hmac_ok :: "u8 list \<Rightarrow> u8 list \<Rightarrow> u8 list \<Rightarrow> bool"

definition is_space :: "char \<Rightarrow> bool" where
  "is_space c \<longleftrightarrow> byte_of c = 32 \<or> (9 \<le> byte_of c \<and> byte_of c \<le> 13)"

definition trim :: "string \<Rightarrow> string" where
  "trim s = rev (dropWhile is_space (rev (dropWhile is_space s)))"

fun split_on :: "char \<Rightarrow> string \<Rightarrow> string list" where
  "split_on d [] = [[]]"
| "split_on d (c # cs) = (if c = d then [] # split_on d cs
     else case split_on d cs of [] \<Rightarrow> [[c]] | p # ps \<Rightarrow> (c # p) # ps)"

text \<open>\<open>str::replace\<close> of a pattern of two characters by nothing.\<close>

fun remove_pair :: "char \<Rightarrow> char \<Rightarrow> string \<Rightarrow> string" where
  "remove_pair a b (x # y # s) = (if x = a \<and> y = b then remove_pair a b s else x # remove_pair a b (y # s))"
| "remove_pair a b s = s"

definition strip_0x :: "string \<Rightarrow> string" where
  "strip_0x s = remove_pair (CHR ''0'') (CHR ''X'') (remove_pair (CHR ''0'') (CHR ''x'') s)"

text \<open>\<open>JWT::new\<close> gives the secret key.\<close>

definition JWT_new :: "codecs \<Rightarrow> string \<Rightarrow> u8 list option" where
  "JWT_new C secret_hex_string = hex_decode C (strip_0x secret_hex_string)"

definition decode_payload :: "codecs \<Rightarrow> u64 \<Rightarrow> string \<Rightarrow> node_error + jwt_payload" where
  "decode_payload C current_time json_web_token =
     (let split_jwt = split_on (CHR ''.'') (trim json_web_token) in
      if length split_jwt = 3 then
        case base64_decode C (split_jwt ! 1) of
          None \<Rightarrow> Inl (Error ''INVALID_PAYLOAD'' ''Unable to decode payload'')
        | Some decoded \<Rightarrow> (case parse_jwt C decoded of
            None \<Rightarrow> Inl (Error ''INVALID_PAYLOAD'' ''Unable to deserialize payload'')
          | Some p \<Rightarrow>
              if jwt_exp p < current_time \<or> current_time < jwt_iat p \<or> jwt_exp p < jwt_iat p
              then Inl (Error ''EXPIRED_JWT'' ''JWT is expired'')
              else if check_name (jwt_user p) then Inr p
              else Inl (Error ''INVALID_USERNAME'' ''Invalid username''))
      else Inl (Error ''INVALID_JWT'' ''Invalid JWT format''))"

text \<open>The code covers the payload only, not the header; undecodable parts panic.\<close>

definition jwt_verify :: "codecs \<Rightarrow> u8 list \<Rightarrow> string \<Rightarrow> bool option" where
  "jwt_verify C secret_key json_web_token =
     (let split_jwt = split_on (CHR ''.'') (trim json_web_token) in
      if length split_jwt = 3 then do {
        payload \<leftarrow> base64_decode C (split_jwt ! 1);
        signature \<leftarrow> base64_decode C (split_jwt ! 2);
        Some (hmac_ok C secret_key payload signature) }
      else Some False)"

section \<open>Facts\<close>

lemma parse_i64_range: "parse_i64 s = Some n \<Longrightarrow> in_i64 n"
  by (auto simp: parse_i64_def split_def Let_def split: if_splits)

text \<open>The match is implied by the parse, so it bounds nothing.\<close>

lemma decode_i64_parse: "decode_i64 s = parse_i64 s"
proof (cases "list_ex is_digit s")
  case False
  have "parse_i64 s = None"
  proof (rule ccontr)
    assume "parse_i64 s \<noteq> None"
    then have "snd (split_sign s) \<noteq> []" "list_all is_digit (snd (split_sign s))"
      by (auto simp: parse_i64_def split_def Let_def split: if_splits)
    then have "is_digit (hd (snd (split_sign s)))" "hd (snd (split_sign s)) \<in> set (snd (split_sign s))"
      by (auto simp: list_all_iff)
    moreover have "set (snd (split_sign s)) \<subseteq> set s"
      by (auto simp: split_sign_def split: list.splits if_splits)
    ultimately show False using False by (auto simp: list_ex_iff)
  qed
  with False show ?thesis by (simp add: decode_i64_def)
qed (simp add: decode_i64_def)

lemma lower_char_range: "is_hex_digit c \<Longrightarrow> is_digit (lower_char c) \<or> (97 \<le> byte_of (lower_char c) \<and> byte_of (lower_char c) \<le> 102)"
  by (auto simp: lower_char_def is_hex_digit_def is_digit_def)

text \<open>Decoded addresses are canonical: decoding them again gives the same.\<close>

lemma lower_char_idem: "lower_char (lower_char c) = lower_char c"
  by (auto simp: lower_char_def)

lemma decode_address_canonical:
  assumes "decode_address val = Some a"
  shows "decode_address a = Some a"
proof -
  have v: "length val = 42" "take 2 val = ''0x''" "list_all is_hex_digit (drop 2 val)" and a: "a = map lower_char val"
    using assms by (auto simp: decode_address_def split: if_splits)
  have "take 2 a = ''0x''" using v(2) by (simp add: a take_map lower_char_def)
  moreover have "list_all is_hex_digit (drop 2 a)"
    using v(3) lower_char_range by (auto simp: a drop_map list_all_iff is_hex_digit_def)
  moreover have "map lower_char a = a" by (simp add: a lower_char_idem)
  ultimately show ?thesis using v(1) by (simp add: decode_address_def) (simp add: a)
qed

lemma split_on_nonempty: "split_on d s \<noteq> []"
  by (cases s) (auto split: list.splits)

text \<open>The removal method is never produced, nor is the separate private-epoch one.\<close>

lemma from_json_methods:
  assumes "from_json_string p = Some (Inr m)"
  shows "(\<forall>u r. m \<noteq> AdminRemoveReceiver u r) \<and> (\<forall>n a. m \<noteq> OrandNewPrivateEpoch n a)"
  using assms unfolding from_json_string_def
  by (auto split: option.splits if_splits bind_splits)

end
