(* ===== verification/Node_Epoch.thy ===== *)
theory Node_Epoch
  imports Base_Values Ecvrf Node_Store Node_Rpc
begin

text \<open>
  Producing an epoch of randomness: the messages to the chain (\<open>node/src/ethereum.rs\<close>),
  the check on the emulated contract (\<open>evm.rs\<close>) and the transaction that inserts the
  record (\<open>RandomnessTable::safe_insert\<close>). Signing and the emulated machine are parameters.
\<close>

section \<open>The node\<close>

record ('s, 'g) node_context =
  nc_key_id :: int
  nc_ecvrf :: "('s, 'g) ecvrf"
  nc_keypair :: "'s \<times> 'g"
  nc_is_testnet :: bool

definition NodeContext_new :: "('s, 'g, 'f) secp \<Rightarrow> int \<Rightarrow> 's \<times> 'g \<Rightarrow> bool \<Rightarrow> ('s, 'g) node_context" where
  "NodeContext_new L key_id keypair is_testnet =
     \<lparr>nc_key_id = key_id, nc_ecvrf = ECVRF_new L (fst keypair), nc_keypair = keypair,
      nc_is_testnet = is_testnet\<rparr>"

text \<open>
  What the node is built on. \<open>nd_sign\<close> gives a serialised signature and its recovery id;
  \<open>nd_evm\<close> the output of a call that returns, if the transaction can be performed at all.
\<close>

record ('db, 's, 'g, 'f) node =
  nd_sql :: "'db sql"
  nd_codecs :: codecs
  nd_secp :: "('s, 'g, 'f) secp"
  nd_overflow_checks :: bool
  nd_sign :: "'s \<Rightarrow> 's \<Rightarrow> u8 list \<times> u8"
  nd_evm :: "u8 list \<Rightarrow> u8 list option option"
  nd_parse_secret :: "u8 list \<Rightarrow> 's option"
  nd_serialize :: "'s \<times> 'g \<Rightarrow> raw_key_pair"

text \<open>What a request draws: the clock, identifiers and randomness.\<close>

record 's env =
  en_now :: u64
  en_uuid :: string
  en_hmac :: "u8 list"
  en_new_key :: 's
  en_alpha :: "u8 list"
  en_draws :: "nat \<Rightarrow> u8 list"

section \<open>Messages\<close>

fun decimal :: "nat \<Rightarrow> u8 list" where
  "decimal n = (if n < 10 then [word_of_nat (48 + n)] else decimal (n div 10) @ [word_of_nat (48 + n mod 10)])"

declare decimal.simps [simp del]

definition ETHEREUM_MESSAGE_PREFIX :: "u8 list" where
  "ETHEREUM_MESSAGE_PREFIX = 0x19 # map (\<lambda>c. word_of_nat (of_char c)) ''Ethereum Signed Message:'' @ [10]"

definition sign_ethereum_message :: "('db, 's, 'g, 'f) node \<Rightarrow> 's \<Rightarrow> u8 list \<Rightarrow> u8 list option" where
  "sign_ethereum_message N sk message = do {
     let buf = ETHEREUM_MESSAGE_PREFIX @ decimal (length message) @ message;
     digest \<leftarrow> scalar_keccak256 (nd_secp N) buf;
     let (signature, recovery_id) = nd_sign N sk digest;
     let recover_id = (if recovery_id < 27 then recovery_id + 27 else recovery_id);
     Some (signature @ [recover_id] @ message) }"

text \<open>The fields from \<open>gamma\<close> on, which both digests end with.\<close>

definition proof_bytes :: "('s, 'g, 'f) secp \<Rightarrow> ('s, 'g, 'f) contract_proof \<Rightarrow> u8 list" where
  "proof_bytes L p =
     point_bytes L (cp_gamma p) @ sl_b32 L (cp_c p) @ sl_b32 L (cp_s p) @ sl_b32 L (cp_alpha p) @
     take 20 (sl_b32 L (cp_witness_address p)) @ point_bytes L (cp_witness_gamma p) @
     point_bytes L (cp_witness_hash p) @ sl_field_b32 L (cp_inverse_z p)"

definition ecvrf_proof_checksum ::
    "codecs \<Rightarrow> ('s, 'g, 'f) secp \<Rightarrow> string \<Rightarrow> ('s, 'g, 'f) contract_proof \<Rightarrow> u8 list option" where
  "ecvrf_proof_checksum C L receiver_address p = do {
     address \<leftarrow> decode_address receiver_address;
     bytes \<leftarrow> hex_decode C (remove_pair (CHR ''0'') (CHR ''x'') address);
     Some (sl_keccak L (bytes @ proof_bytes L p)) }"

definition ecvrf_proof_digest :: "('s, 'g, 'f) secp \<Rightarrow> ('s, 'g, 'f) contract_proof \<Rightarrow> u8 list" where
  "ecvrf_proof_digest L p = sl_keccak L (point_bytes L (cp_pk p) @ proof_bytes L p)"

text \<open>A nonce of 96 bits: 32 zeros and the \<open>i64\<close>.\<close>

definition compose_operator_proof :: "int \<Rightarrow> u8 list \<Rightarrow> u8 list \<Rightarrow> u8 list" where
  "compose_operator_proof nonce receiver digest =
     to_be_bytes (0 :: u32) @ to_be_bytes (word_of_int nonce :: u64) @ receiver @ digest"

section \<open>The emulated contract\<close>

definition call_data :: "('s, 'g, 'f) secp \<Rightarrow> ('s, 'g, 'f) contract_proof \<Rightarrow> u8 list" where
  "call_data L p =
     [0xc8, 0xd2, 0x0a, 0x77] @ point_bytes L (cp_pk p) @ point_bytes L (cp_gamma p) @
     sl_b32 L (cp_c p) @ sl_b32 L (cp_s p) @ sl_b32 L (cp_alpha p) @
     replicate 12 0 @ take 20 (sl_b32 L (cp_witness_address p)) @
     point_bytes L (cp_witness_gamma p) @ point_bytes L (cp_witness_hash p) @ sl_field_b32 L (cp_inverse_z p)"

definition evm_verify :: "('db, 's, 'g, 'f) node \<Rightarrow> ('s, 'g, 'f) contract_proof \<Rightarrow> bool option" where
  "evm_verify N p = do {
     result \<leftarrow> nd_evm N (call_data (nd_secp N) p);
     case result of
       Some output \<Rightarrow> do { y \<leftarrow> from_bytes_scalar (nd_secp N) output; Some (y = cp_y p) }
     | None \<Rightarrow> Some False }"

section \<open>The transaction\<close>

text \<open>\<open>?\<close> and the early returns: an error leaves the database as it was.\<close>

definition try_db :: "'db \<Rightarrow> 'e + 'a \<Rightarrow> ('a \<Rightarrow> (('e + 'b) \<times> 'db) option) \<Rightarrow> (('e + 'b) \<times> 'db) option" where
  "try_db db r k = (case r of Inl e \<Rightarrow> Some (Inl e, db) | Inr v \<Rightarrow> k v)"

definition i64_add :: "bool \<Rightarrow> int \<Rightarrow> int \<Rightarrow> int option" where
  "i64_add chk a b = (if in_i64 (a + b) then Some (a + b) else if chk then panic else Some (sint (word_of_int (a + b) :: u64)))"

definition decode_to_slice :: "codecs \<Rightarrow> nat \<Rightarrow> string \<Rightarrow> u8 list option" where
  "decode_to_slice C n s = do {
     bs \<leftarrow> hex_decode C s;
     assert_ok (length bs = n);
     Some bs }"

definition find_own_receiver :: "'db sql \<Rightarrow> 'db \<Rightarrow> string \<Rightarrow> int \<Rightarrow> string \<Rightarrow> db_err + receiver" where
  "find_own_receiver Q db username network address =
     (case one (sq_select_receiver Q db (\<lambda>r. rc_address r = address \<and> rc_network r = network \<and>
          rc_keyring_id r \<in> keyring_ids Q db username)) of
        Inl e \<Rightarrow> Inl e
      | Inr None \<Rightarrow> Inl (RecordNotFound ''Receiver record not found'')
      | Inr (Some r) \<Rightarrow> Inr r)"

definition read_alpha :: "('db, 's, 'g, 'f) node \<Rightarrow> 's env \<Rightarrow> 'db \<Rightarrow> receiver \<Rightarrow> (db_err, 's) result" where
  "read_alpha N E db r =
     (case one (sq_select_randomness (nd_sql N) db (\<lambda>x. rn_receiver_id x = rc_id r) EpochDesc (Some 1)) of
        Inl e \<Rightarrow> Some (Inl e)
      | Inr (Some latest) \<Rightarrow> do {
          buf \<leftarrow> decode_to_slice (nd_codecs N) 32 (rn_y latest);
          alpha \<leftarrow> from_bytes_scalar (nd_secp N) buf;
          Some (Inr alpha) }
      | Inr None \<Rightarrow> do { alpha \<leftarrow> randomize (nd_secp N) (en_alpha E); Some (Inr alpha) })"

text \<open>The columns of the new record; a slice of the witness address too short panics.\<close>

definition new_randomness ::
    "('db, 's, 'g, 'f) node \<Rightarrow> ('s, 'g) node_context \<Rightarrow> receiver \<Rightarrow> 's \<Rightarrow> ('s, 'g, 'f) contract_proof \<Rightarrow>
     u8 list \<Rightarrow> randomness_fields option" where
  "new_randomness N ctx r alpha p signature = do {
     let L = nd_secp N;
     let hex = hex_encode (nd_codecs N);
     let witness = hex (sl_b32 L (cp_witness_address p));
     assert_ok (40 \<le> length witness);
     Some \<lparr>rn_epoch = rc_nonce r, rn_alpha = hex (sl_b32 L alpha), rn_gamma = hex (point_bytes L (cp_gamma p)),
       rn_c = hex (sl_b32 L (cp_c p)), rn_s = hex (sl_b32 L (cp_s p)), rn_y = hex (sl_b32 L (cp_y p)),
       rn_witness_address = take 40 witness, rn_witness_gamma = hex (point_bytes L (cp_witness_gamma p)),
       rn_witness_hash = hex (point_bytes L (cp_witness_hash p)), rn_inverse_z = hex (sl_field_b32 L (cp_inverse_z p)),
       rn_signature_proof = hex signature, rn_keyring_id = nc_key_id ctx, rn_receiver_id = rc_id r\<rparr> }"

text \<open>The end of the transaction: the nonce advances, the record is inserted, both are committed.\<close>

definition commit_epoch ::
    "('db, 's, 'g, 'f) node \<Rightarrow> receiver \<Rightarrow> randomness_fields \<Rightarrow> 'db \<Rightarrow> 'db \<Rightarrow> ((db_err + randomness) \<times> 'db) option" where
  "commit_epoch N r record db txn = do {
     let Q = nd_sql N;
     nonce \<leftarrow> i64_add (nd_overflow_checks N) (rc_nonce r) 1;
     try_db db (sq_update_receiver Q (r\<lparr>rc_nonce := nonce\<rparr>) txn) (\<lambda>(_, txn).
       let result = sq_insert_randomness Q record txn;
           txn = (case result of Inl _ \<Rightarrow> txn | Inr (_, t) \<Rightarrow> t) in
       try_db db (sq_commit Q db txn (isl result)) (\<lambda>db'. Some (map_sum id fst result, db'))) }"

definition operator_signature ::
    "('db, 's, 'g, 'f) node \<Rightarrow> ('s, 'g) node_context \<Rightarrow> receiver \<Rightarrow> string \<Rightarrow> ('s, 'g, 'f) contract_proof \<Rightarrow> u8 list option" where
  "operator_signature N ctx r address p = do {
     bytes_address \<leftarrow> decode_to_slice (nd_codecs N) 20 (strip_0x address);
     sign_ethereum_message N (fst (nc_keypair ctx))
       (compose_operator_proof (rc_nonce r) bytes_address (ecvrf_proof_digest (nd_secp N) p)) }"

definition safe_insert ::
    "('db, 's::field, 'g::ab_group_add, 'f::field) node \<Rightarrow> ('s, 'g) node_context \<Rightarrow> 's env \<Rightarrow>
     string \<Rightarrow> int \<Rightarrow> string \<Rightarrow> 'db \<Rightarrow> ((db_err + randomness) \<times> 'db) option" where
  "safe_insert N ctx E username network address db =
     try_db db (sq_begin (nd_sql N) db) (\<lambda>txn.
     try_db db (find_own_receiver (nd_sql N) txn username network address) (\<lambda>r. do {
       alpha \<leftarrow> read_alpha N E txn r;
       try_db db alpha (\<lambda>alpha. do {
         contract_proof \<leftarrow> vrf_prove_contract (nd_secp N) (en_draws E) (nc_ecvrf ctx) alpha;
         case contract_proof of Inl _ \<Rightarrow> Some (Inl (ExecError ''Unable to prove contract''), db)
         | Inr p \<Rightarrow> do {
             verified \<leftarrow> evm_verify N p;
             if \<not> verified then Some (Inl (ExecError ''EVM unable to verify''), db)
             else do {
               signature \<leftarrow> operator_signature N ctx r address p;
               new_record \<leftarrow> new_randomness N ctx r alpha p signature;
               commit_epoch N r new_record db txn } } }) }))"

end
