(* ===== verification/Node_Service.thy ===== *)
theory Node_Service
  imports Node_Epoch
begin

text \<open>
  The service (\<open>node/src/main.rs\<close>, \<open>quick_response.rs\<close>, \<open>cli.rs\<close>): authentication, the
  handlers of the JSON-RPC methods and the start of the node. A request runs on a value of
  the database and gives a response and the next value; a panic gives neither, and leaves the
  database as it was, since no statement that writes is followed by one that can panic.
\<close>

section \<open>Responses\<close>

text \<open>
  The serialised records, without the columns the models skip: the ids and secrets of a
  keyring, the keyring of a receiver, the ids of a randomness record.
\<close>

record user_response =
  ur_username :: string
  ur_hmac_secret :: string
  ur_public_key :: string
  ur_created_date :: string

datatype json =
    JRandomnesses "(randomness_public \<times> string) list"
  | JRandomness "randomness_public \<times> string"
  | JKeyring "(string \<times> string \<times> string) option"
  | JUserCreated user_response
  | JUser string string string
  | JReceivers "(int \<times> string \<times> string \<times> int \<times> int \<times> string) list"
  | JReceiver "(int \<times> string \<times> string \<times> int \<times> int \<times> string) option"
  | JMessage bool string

datatype http_response = Response int json | Err_response int node_error

definition quick_ok :: "json \<Rightarrow> http_response" where
  "quick_ok j = Response 200 j"

definition quick_err :: "node_error \<Rightarrow> http_response" where
  "quick_err e = Err_response 500 e"

text \<open>The serialiser does not fail on these records; a response carries the value it encodes.\<close>

definition json_encode :: "json \<Rightarrow> node_error + json" where
  "json_encode value = Inr value"

definition quick_res :: "node_error + json \<Rightarrow> http_response" where
  "quick_res ret = (case ret of Inr body \<Rightarrow> quick_ok body | Inl err \<Rightarrow> quick_err err)"

definition res_json :: "json \<Rightarrow> http_response" where
  "res_json value = quick_res (json_encode value)"

lemma res_json_ok: "res_json j = Response 200 j"
  by (simp add: res_json_def quick_res_def json_encode_def quick_ok_def)

definition randomness_json :: "randomness \<Rightarrow> randomness_public \<times> string" where
  "randomness_json x = (randomness_public.truncate x, rn_created_date x)"

definition keyring_json :: "keyring \<Rightarrow> string \<times> string \<times> string" where
  "keyring_json k = (kr_username k, kr_public_key k, kr_created_date k)"

definition receiver_json :: "receiver \<Rightarrow> int \<times> string \<times> string \<times> int \<times> int \<times> string" where
  "receiver_json r = (rc_id r, rc_name r, rc_address r, rc_network r, rc_nonce r, rc_created_date r)"

section \<open>Epochs\<close>

definition ORAND_KEYRING_NAME :: string where
  "ORAND_KEYRING_NAME = ''orand''"

definition orand_get_epoch :: "'db sql \<Rightarrow> int \<Rightarrow> string \<Rightarrow> int \<Rightarrow> 'db \<Rightarrow> http_response option" where
  "orand_get_epoch Q network address epoch db = do {
     found \<leftarrow> (if epoch = I64_MAX then find_recent_epoch Q db network address
       else find_closure_epoch Q db network address epoch);
     Some (case found of
         Inr recent_epochs \<Rightarrow> res_json (JRandomnesses (map randomness_json recent_epochs))
       | Inl _ \<Rightarrow> quick_err (Error ''NOT_FOUND'' ''Epoch was not found'')) }"

definition orand_new_epoch ::
    "('db, 's::field, 'g::ab_group_add, 'f::field) node \<Rightarrow> ('s, 'g) node_context \<Rightarrow> 's env \<Rightarrow>
     string \<Rightarrow> int \<Rightarrow> string \<Rightarrow> 'db \<Rightarrow> (http_response \<times> 'db) option" where
  "orand_new_epoch N ctx E username network address db = do {
     (inserted, db') \<leftarrow> safe_insert N ctx E username network address db;
     Some (case inserted of
         Inr x \<Rightarrow> res_json (JRandomness (randomness_json x))
       | Inl _ \<Rightarrow> quick_err (Error ''INTERNAL_SERVER_ERROR'' ''Unknown error''), db') }"

section \<open>Authentication\<close>

text \<open>
  The header is absent, not text, or a string. The user's record decides the secret.
\<close>

definition authorize ::
    "('db, 's, 'g, 'f) node \<Rightarrow> 's env \<Rightarrow> string option option \<Rightarrow> 'db \<Rightarrow> (node_error, jwt_payload) result" where
  "authorize N E header db = (case header of
     None \<Rightarrow> Some (Inl (Error ''INVALID_JWT'' ''Access denied, this method required authorization''))
   | Some None \<Rightarrow> Some (Inl (Error ''INVALID_JWT'' ''Unable to decode authorization header''))
   | Some (Some s) \<Rightarrow> (case decode_payload (nd_codecs N) (en_now E) s of
       Inl e \<Rightarrow> Some (Inl e)
     | Inr p \<Rightarrow> do {
         user_record \<leftarrow> expect_ok (keyring_find_by_name (nd_sql N) db (jwt_user p));
         case user_record of
           None \<Rightarrow> Some (Inl (Error ''INVALID_JWT'' ''Access denied, this method required authorization''))
         | Some k \<Rightarrow> do {
             jwt \<leftarrow> JWT_new (nd_codecs N) (kr_hmac_secret k);
             valid \<leftarrow> jwt_verify (nd_codecs N) jwt s;
             Some (if valid then Inr p else Inl (Error ''ACCESS_DENIED'' ''Access denied, incorrect key'')) } }))"

section \<open>Administration\<close>

definition denied :: "string \<Rightarrow> http_response" where
  "denied reason = quick_err (Error ''ACCESS_DENIED'' reason)"

definition admin_add_user ::
    "('db, 's, 'g, 'f) node \<Rightarrow> 's env \<Rightarrow> string \<Rightarrow> string \<Rightarrow> 'db \<Rightarrow> (http_response \<times> 'db) option" where
  "admin_add_user N E user username db =
     (if user = ORAND_KEYRING_NAME then do {
        found \<leftarrow> expect_ok (keyring_find_by_name (nd_sql N) db username);
        case found of
          Some _ \<Rightarrow> Some (quick_err (Error ''UNABLE_TO_CREATE_USER'' ''Unable to create user''), db)
        | None \<Rightarrow> do {
            let hex = hex_encode (nd_codecs N);
            let raw = nd_serialize N (KeyPair_new (nd_secp N) (en_new_key E));
            (inserted, db') \<leftarrow> expect_ok (keyring_insert (nd_sql N)
              \<lparr>kr_username = username, kr_hmac_secret = hex (en_hmac E),
               kr_public_key = hex (rk_public_key raw), kr_secret_key = hex (rk_secret_key raw)\<rparr> db);
            Some (res_json (JUserCreated \<lparr>ur_username = kr_username inserted, ur_hmac_secret = kr_hmac_secret inserted,
              ur_public_key = kr_public_key inserted, ur_created_date = kr_created_date inserted\<rparr>), db') } }
      else Some (denied ''Access denied, you do not have ability add new user'', db))"

definition admin_add_receiver ::
    "('db, 's, 'g, 'f) node \<Rightarrow> 's env \<Rightarrow> string \<Rightarrow> string \<Rightarrow> string \<Rightarrow> int \<Rightarrow> 'db \<Rightarrow> (http_response \<times> 'db) option" where
  "admin_add_receiver N E user username receiver_address network db =
     (if user = ORAND_KEYRING_NAME then do {
        model_keyring \<leftarrow> expect_ok (keyring_find_by_name (nd_sql N) db username);
        case model_keyring of
          None \<Rightarrow> Some (denied ''User may not exist or database error'', db)
        | Some k \<Rightarrow> do {
            receiver_check \<leftarrow> expect_ok (receiver_find_one (nd_sql N) db network receiver_address);
            case receiver_check of
              Some r \<Rightarrow> Some (res_json (JReceiver (Some (receiver_json r))), db)
            | None \<Rightarrow> (case receiver_insert (nd_sql N)
                \<lparr>rc_keyring_id = kr_id k, rc_name = en_uuid E, rc_address = receiver_address, rc_network = network, rc_nonce = 0\<rparr> db of
                Inr (r, db') \<Rightarrow> Some (res_json (JReceiver (Some (receiver_json r))), db')
              | Inl _ \<Rightarrow> Some (quick_err (Error ''INTERNAL_SERVER_ERROR'' ''Unable to add new receiver''), db)) } }
      else Some (denied ''Access denied, you do not have ability to add new receiver'', db))"

definition admin_get_user :: "'db sql \<Rightarrow> string \<Rightarrow> string \<Rightarrow> 'db \<Rightarrow> http_response option" where
  "admin_get_user Q user username db =
     (if user = ORAND_KEYRING_NAME then do {
        found \<leftarrow> expect_ok (keyring_find_by_name Q db username);
        case found of
          Some k \<Rightarrow> Some (res_json (JUser (kr_username k) (kr_hmac_secret k) (kr_created_date k)))
        | None \<Rightarrow> Some (denied ''User may not exist or database error'') }
      else Some (denied ''Access denied, you do not have ability to add new receiver''))"

text \<open>Unlike its siblings, this method does not look at the user.\<close>

definition admin_get_receiver :: "'db sql \<Rightarrow> string \<Rightarrow> 'db \<Rightarrow> http_response option" where
  "admin_get_receiver Q username db = do {
     found \<leftarrow> expect_ok (receiver_find_by_username Q db username);
     Some (res_json (JReceivers (map receiver_json found))) }"

definition admin_remove_receiver :: "'db sql \<Rightarrow> string \<Rightarrow> int \<Rightarrow> 'db \<Rightarrow> http_response \<times> 'db" where
  "admin_remove_receiver Q username receiver_id db = (case receiver_delete Q username receiver_id db of
     Inr (_, db') \<Rightarrow> (res_json (JMessage True ''Receiver has been removed''), db')
   | Inl _ \<Rightarrow> (quick_err (Error ''INTERNAL_SERVER_ERROR'' ''Unable to remove receiver''), db))"

definition orand_get_public_key :: "'db sql \<Rightarrow> string \<Rightarrow> 'db \<Rightarrow> http_response option" where
  "orand_get_public_key Q key_name db = do {
     key_record \<leftarrow> expect_ok (keyring_find_by_name Q db key_name);
     Some (res_json (JKeyring (map_option keyring_json key_record))) }"

definition not_implemented :: http_response where
  "not_implemented = quick_err (Error ''NOT_IMPLEMENTED'' ''It is not working in this way'')"

section \<open>Dispatch\<close>

definition dispatch ::
    "('db, 's::field, 'g::ab_group_add, 'f::field) node \<Rightarrow> ('s, 'g) node_context \<Rightarrow> 's env \<Rightarrow>
     string \<Rightarrow> json_rpc_method \<Rightarrow> 'db \<Rightarrow> (http_response \<times> 'db) option" where
  "dispatch N ctx E user m db =
     (let Q = nd_sql N; read = (\<lambda>r. map_option (\<lambda>resp. (resp, db)) r) in case m of
       OrandGetEpoch network address epoch \<Rightarrow> read (orand_get_epoch Q network address epoch db)
     | OrandNewEpoch network address \<Rightarrow>
         if address = ZERO_ADDRESS \<and> user \<noteq> ORAND_KEYRING_NAME
         then Some (denied ''Access denied, you do not have ability to create public epoch'', db)
         else orand_new_epoch N ctx E user network address db
     | OrandGetPublicKey key_name \<Rightarrow> read (orand_get_public_key Q key_name db)
     | AdminAddUser username \<Rightarrow> admin_add_user N E user username db
     | AdminAddReceiver username address network \<Rightarrow> admin_add_receiver N E user username address network db
     | AdminGetUser username \<Rightarrow> read (admin_get_user Q user username db)
     | AdminGetReceiver username \<Rightarrow> read (admin_get_receiver Q username db)
     | AdminRemoveReceiver username receiver_id \<Rightarrow> Some (admin_remove_receiver Q username receiver_id db)
     | OrandNewPrivateEpoch _ _ \<Rightarrow> Some (not_implemented, db))"

text \<open>
  A request: its method and path, the upper bound of the body's size if there is one, the
  collected body (None when it cannot be collected or is not UTF-8) and the header.
\<close>

record request =
  rq_method :: string
  rq_path :: string
  rq_upper :: "u64 option"
  rq_body :: "string option"
  rq_authorization :: "string option option"

definition orand ::
    "('db, 's::field, 'g::ab_group_add, 'f::field) node \<Rightarrow> ('s, 'g) node_context \<Rightarrow> 's env \<Rightarrow>
     request \<Rightarrow> 'db \<Rightarrow> (http_response \<times> 'db) option" where
  "orand N ctx E rq db =
     (if rq_method rq = ''POST'' \<and> rq_path rq = ''/'' then
        if 1024 * 64 < (case rq_upper rq of None \<Rightarrow> - 1 | Some n \<Rightarrow> n)
        then Some (quick_err (Error ''PAYLOAD_TOO_LARGE'' ''Your body too big, can not fit the body bag''), db)
        else do {
          json_string \<leftarrow> rq_body rq;
          json_rpc_payload \<leftarrow> from_json_string (parse_rpc (nd_codecs N) json_string);
          case json_rpc_payload of Inl e \<Rightarrow> Some (quick_err e, db)
          | Inr m \<Rightarrow> do {
              authorized_jwt \<leftarrow> authorize N E (rq_authorization rq) db;
              case authorized_jwt of Inl e \<Rightarrow> Some (quick_err e, db)
              | Inr p \<Rightarrow> dispatch N ctx E (jwt_user p) m db } }
      else Some (not_implemented, db))"

section \<open>Start\<close>

definition trimmed_key :: "('db, 's, 'g, 'f) node \<Rightarrow> string \<Rightarrow> ('s \<times> 'g) option" where
  "trimmed_key N value = do {
     bytes \<leftarrow> decode_to_slice (nd_codecs N) 32 (trim value);
     KeyPair_parse (nd_secp N) (nd_parse_secret N) bytes }"

text \<open>
  \<open>main\<close> up to the listener; \<open>secret\<close> and \<open>testnet\<close> are the variables \<open>SECRET_KEY\<close> and
  \<open>ORAND_TESTNET\<close>.
\<close>

definition orand_testnet :: "string option \<Rightarrow> bool" where
  "orand_testnet var = (case var of Some s \<Rightarrow> map lower_char (trim s) = ''true'' | None \<Rightarrow> False)"

definition start_node ::
    "('db, 's, 'g, 'f) node \<Rightarrow> 's env \<Rightarrow> string option \<Rightarrow> string option \<Rightarrow> 'db \<Rightarrow> (('s, 'g) node_context \<times> 'db) option" where
  "start_node N E secret testnet db = do {
     let hex = hex_encode (nd_codecs N);
     let is_testnet = orand_testnet testnet;
     result_keyring \<leftarrow> expect_ok (keyring_find_by_name (nd_sql N) db ORAND_KEYRING_NAME);
     case result_keyring of
       None \<Rightarrow> do {
         new_keypair \<leftarrow> (case secret of Some r \<Rightarrow> trimmed_key N r
           | None \<Rightarrow> Some (KeyPair_new (nd_secp N) (en_new_key E)));
         let raw = nd_serialize N new_keypair;
         (record, db') \<leftarrow> expect_ok (keyring_insert (nd_sql N)
           \<lparr>kr_username = ORAND_KEYRING_NAME, kr_hmac_secret = hex (en_hmac E),
            kr_public_key = hex (rk_public_key raw), kr_secret_key = hex (rk_secret_key raw)\<rparr> db);
         Some (NodeContext_new (nd_secp N) (kr_id record) new_keypair is_testnet, db') }
     | Some k \<Rightarrow> do {
         keypair \<leftarrow> trimmed_key N (kr_secret_key k);
         Some (NodeContext_new (nd_secp N) (kr_id k) keypair is_testnet, db) } }"

section \<open>The command line\<close>

text \<open>
  The command \<open>user\<close>: the key, the secret and a name; an error of the insertion is returned.
\<close>

definition cli_user ::
    "('db, 's, 'g, 'f) node \<Rightarrow> 's env \<Rightarrow> string \<Rightarrow> 'db \<Rightarrow> (db_err + keyring \<times> 'db) option" where
  "cli_user N E username db = do {
     username \<leftarrow> decode_name (trim username);
     let hex = hex_encode (nd_codecs N);
     let raw = nd_serialize N (KeyPair_new (nd_secp N) (en_new_key E));
     Some (keyring_insert (nd_sql N)
       \<lparr>kr_username = username, kr_hmac_secret = hex (en_hmac E),
        kr_public_key = hex (rk_public_key raw), kr_secret_key = hex (rk_secret_key raw)\<rparr> db) }"

text \<open>
  \<open>ActiveModel::from_json\<close> on a receiver whose JSON may lack the keyring: the model does not
  skip the column, so that a missing one is an error, which the insertion unwraps.
\<close>

definition receiver_from_json :: "int option \<Rightarrow> string \<Rightarrow> string \<Rightarrow> int \<Rightarrow> int \<Rightarrow> receiver_fields option" where
  "receiver_from_json keyring_id name address network nonce = (case keyring_id of
     Some k \<Rightarrow> Some \<lparr>rc_keyring_id = k, rc_name = name, rc_address = address, rc_network = network, rc_nonce = nonce\<rparr>
   | None \<Rightarrow> panic)"

definition cli_receiver ::
    "'db sql \<Rightarrow> string \<Rightarrow> string \<Rightarrow> string \<Rightarrow> 'db \<Rightarrow> (db_err + receiver \<times> 'db) option" where
  "cli_receiver Q name address network_id db = do {
     name \<leftarrow> decode_name (trim name);
     address \<leftarrow> decode_address (trim address);
     network_id \<leftarrow> decode_i64 (trim network_id);
     json_record \<leftarrow> receiver_from_json None name address network_id 0;
     Some (receiver_insert Q json_record db) }"

text \<open>The command \<open>receiver\<close> gives no keyring, so it never inserts one.\<close>

lemma cli_receiver_panics: "cli_receiver Q name address network_id db = None"
  by (simp add: cli_receiver_def receiver_from_json_def bind_eq_None_conv)

end
