(* ===== verification/Ecvrf_Correct.thy ===== *)
theory Ecvrf_Correct
  imports Ecvrf
begin

text \<open>
  What the verifiable random function promises: proofs verify, the retries are bounded, the
  contract proof satisfies the equations its on-chain verifier checks; and what it does not:
  the outputs of the ordinary prover follow from one another.
\<close>

section \<open>Scalars as numbers\<close>

definition limbs_value :: "u32 list \<Rightarrow> nat" where
  "limbs_value limbs = undigits_be (2 ^ 32) (map unat (rev limbs))"

lemma limbs_compare_value:
  assumes "length as = length bs"
  shows "limbs_compare eq (zip as bs) \<longleftrightarrow>
    (if eq then undigits_be (2 ^ 32) (map unat bs) \<le> undigits_be (2 ^ 32) (map unat as)
     else undigits_be (2 ^ 32) (map unat bs) < undigits_be (2 ^ 32) (map unat as))"
  using assms
proof (induction as bs rule: list_induct2)
  case (Cons a as b bs)
  let ?u = "\<lambda>xs. undigits_be (2 ^ 32) (map unat (xs :: u32 list))"
  have bound: "?u xs < (2 ^ 32) ^ length xs" for xs
    using undigits_be_less [of "map unat xs" "2 ^ 32"] unat_less_2p [where 'a = 32] by auto
  have lt: "?u (x # xs) < ?u (y # ys)" if "x < y" "length xs = length ys" for x y xs ys
  proof -
    have "?u (x # xs) < Suc (unat x) * (2 ^ 32) ^ length xs" using bound [of xs] by (simp add: undigits_be_Cons)
    also have "\<dots> \<le> unat y * (2 ^ 32) ^ length xs"
      using that(1) by (intro mult_le_mono1) (simp add: word_less_nat_alt)
    also have "\<dots> \<le> ?u (y # ys)" using that(2) by (simp add: undigits_be_Cons)
    finally show ?thesis .
  qed
  consider "a < b" | "b < a" | "a = b" by fastforce
  then show ?case
  proof cases
    case 1
    with lt [OF 1 Cons.hyps] show ?thesis by simp
  next
    case 2
    with lt [OF 2 Cons.hyps [symmetric]] show ?thesis by simp
  next
    case 3
    then show ?thesis using Cons by (simp add: undigits_be_Cons)
  qed
qed simp

lemma scalar_compare_value:
  assumes "length a = length b"
  shows "scalar_gte a b \<longleftrightarrow> limbs_value b \<le> limbs_value a" "scalar_gt a b \<longleftrightarrow> limbs_value b < limbs_value a"
  using limbs_compare_value [of "rev a" "rev b"] assms
  by (simp_all add: scalar_gte_def scalar_gt_def limbs_value_def zip_rev)

section \<open>The library's laws\<close>

text \<open>
  A group of prime order with its scalar multiplication, the addition of points with
  different abscissas by the chord, scalars reduced below the order, and a 32-byte hash.
\<close>

definition chord_law :: "('s, 'g::ab_group_add, 'f::field) secp \<Rightarrow> bool" where
  "chord_law L \<longleftrightarrow> (\<forall>P Q. P \<noteq> 0 \<longrightarrow> Q \<noteq> 0 \<longrightarrow> sl_x L P \<noteq> sl_x L Q \<longrightarrow>
     (let l = (sl_y L Q - sl_y L P) / (sl_x L Q - sl_x L P) in
      sl_x L (P + Q) = l * l - sl_x L P - sl_x L Q \<and>
      sl_y L (P + Q) = l * (sl_x L P - sl_x L (P + Q)) - sl_y L P))"

definition secp_ok :: "('s::field, 'g::ab_group_add, 'f::field) secp \<Rightarrow> bool" where
  "secp_ok L \<longleftrightarrow>
     (\<forall>a b P. sl_mul L (a + b) P = sl_mul L a P + sl_mul L b P) \<and>
     (\<forall>a P Q. sl_mul L a (P + Q) = sl_mul L a P + sl_mul L a Q) \<and>
     (\<forall>a b P. sl_mul L a (sl_mul L b P) = sl_mul L (a * b) P) \<and>
     (\<forall>a P. sl_mul L a P = 0 \<longleftrightarrow> a = 0 \<or> P = 0) \<and>
     sl_base L \<noteq> 0 \<and> (\<forall>P. sl_valid L P \<longleftrightarrow> P \<noteq> 0) \<and> (\<forall>bs. length (sl_keccak L bs) = 32) \<and>
     (\<forall>bs. length (sl_limbs L (sl_set_b32 L bs)) = 8 \<and> limbs_value (sl_limbs L (sl_set_b32 L bs)) < limbs_value GROUP_ORDER) \<and>
     chord_law L"

lemma order_below_field: "limbs_value GROUP_ORDER < limbs_value FIELD_SIZE"
  by (simp add: limbs_value_def undigits_be_def GROUP_ORDER_def FIELD_SIZE_def)

lemma reduced_scalar:
  assumes "secp_ok L"
  shows "\<not> scalar_gte (sl_limbs L (sl_set_b32 L bs)) GROUP_ORDER" "\<not> scalar_gte (sl_limbs L (sl_set_b32 L bs)) FIELD_SIZE"
proof -
  have l: "length (sl_limbs L (sl_set_b32 L bs)) = 8" "limbs_value (sl_limbs L (sl_set_b32 L bs)) < limbs_value GROUP_ORDER"
    using assms by (auto simp: secp_ok_def)
  have "length GROUP_ORDER = 8" "length FIELD_SIZE = 8" by (simp_all add: GROUP_ORDER_def FIELD_SIZE_def)
  then show "\<not> scalar_gte (sl_limbs L (sl_set_b32 L bs)) GROUP_ORDER" "\<not> scalar_gte (sl_limbs L (sl_set_b32 L bs)) FIELD_SIZE"
    using l order_below_field by (simp_all add: scalar_compare_value)
qed

lemma keccak_scalar: "secp_ok L \<Longrightarrow> from_bytes_scalar L (sl_keccak L bs) = Some (sl_set_b32 L (sl_keccak L bs))"
  by (simp add: secp_ok_def from_bytes_scalar_def)

text \<open>So the second hash of \<open>field_hash\<close> is dead code.\<close>

lemma field_hash_once:
  assumes "secp_ok L"
  shows "field_hash L b = Some (sl_field_set_b32 L (sl_b32 L (sl_set_b32 L (sl_keccak L b))))"
  using reduced_scalar [OF assms] by (simp add: field_hash_def keccak_scalar [OF assms])

section \<open>The random scalar\<close>

definition drawn :: "('s, 'g, 'f) secp \<Rightarrow> (nat \<Rightarrow> u8 list) \<Rightarrow> nat \<Rightarrow> 's" where
  "drawn L draws i = sl_set_b32 L (draws i)"

lemma draw_loop_result:
  assumes L: "secp_ok L" and len: "\<forall>i. length (draws i) = 32" and "retries \<le> Suc MAX_RETRIES"
  shows "if \<exists>j \<le> Suc MAX_RETRIES - retries. drawn L draws (i + j) \<noteq> 0
    then \<exists>k. draw_loop L draws (Suc i) retries (drawn L draws i) = Some (Inr k) \<and> k \<noteq> 0
    else draw_loop L draws (Suc i) retries (drawn L draws i) = Some (Inl RetriesExceeded)"
  using assms(3)
proof (induction "Suc MAX_RETRIES - retries" arbitrary: i retries)
  case 0
  then have "MAX_RETRIES < retries" by simp
  with 0 show ?case
    using reduced_scalar(1) [OF L] by (simp add: draw_loop.simps [of L draws "Suc i" retries] drawn_def)
next
  case (Suc n)
  then have r: "\<not> MAX_RETRIES < retries" "n = Suc MAX_RETRIES - Suc retries" "Suc retries \<le> Suc MAX_RETRIES" by simp_all
  note IH = Suc.hyps(1) [OF r(2,3), of "Suc i"]
  have next_draw: "randomize L (draws (Suc i)) = Some (drawn L draws (Suc i))"
    using len by (simp add: randomize_def from_bytes_scalar_def drawn_def)
  show ?case
  proof (cases "drawn L draws i = 0")
    case False
    then have "draw_loop L draws (Suc i) retries (drawn L draws i) = Some (Inr (drawn L draws i))"
      using reduced_scalar(1) [OF L] by (simp add: draw_loop.simps [of L draws "Suc i" retries] drawn_def)
    with False show ?thesis by (auto intro: exI [of _ 0])
  next
    case True
    then have step: "draw_loop L draws (Suc i) retries (drawn L draws i) = draw_loop L draws (Suc (Suc i)) (Suc retries) (drawn L draws (Suc i))"
      using r(1) next_draw by (subst draw_loop.simps) simp
    have "(\<exists>j \<le> Suc MAX_RETRIES - retries. drawn L draws (i + j) \<noteq> 0) \<longleftrightarrow>
        (\<exists>j \<le> Suc MAX_RETRIES - Suc retries. drawn L draws (Suc i + j) \<noteq> 0)" (is "?A \<longleftrightarrow> ?B")
    proof
      assume ?A
      then obtain j where j: "j \<le> Suc MAX_RETRIES - retries" "drawn L draws (i + j) \<noteq> 0" by blast
      then obtain j' where "j = Suc j'" using True by (cases j) auto
      with j show ?B by (intro exI [of _ j']) auto
    next
      assume ?B
      then obtain j where "j \<le> Suc MAX_RETRIES - Suc retries" "drawn L draws (Suc i + j) \<noteq> 0" by blast
      then show ?A using r(1) by (intro exI [of _ "Suc j"]) auto
    qed
    then show ?thesis using IH unfolding step by simp
  qed
qed

lemma random_scalar_result:
  assumes "secp_ok L" and "\<forall>i. length (draws i) = 32"
  shows "if \<exists>j \<le> 101. drawn L draws j \<noteq> 0 then \<exists>k. random_scalar L draws = Some (Inr k) \<and> k \<noteq> 0
    else random_scalar L draws = Some (Inl RetriesExceeded)"
proof -
  have "randomize L (draws 0) = Some (drawn L draws 0)"
    using assms(2) by (simp add: randomize_def from_bytes_scalar_def drawn_def)
  then have r: "random_scalar L draws = draw_loop L draws (Suc 0) 0 (drawn L draws 0)" by (simp add: random_scalar_def)
  have "Suc MAX_RETRIES - 0 = 101" by (simp add: MAX_RETRIES_def)
  from draw_loop_result [OF assms le0, of 0, unfolded this add_0] show ?thesis unfolding r .
qed

section \<open>Projective addition\<close>

lemma projective_chord:
  fixes ax ay bx "by" :: "'f::field"
  assumes "ax \<noteq> bx"
  defines "l \<equiv> (by - ay) / (bx - ax)"
  obtains rx ry rz where "projective_ec_add (ax, ay) (bx, by) = (rx, ry, rz)" and "rz \<noteq> 0"
    and "rx / rz = l * l - ax - bx" and "ry / rz = l * (ax - (l * l - ax - bx)) - ay"
proof -
  define d where "d = bx - ax"
  define n where "n = by - ay"
  have nd: "by + - ay = n" "bx + - ax = d" by (simp_all add: d_def n_def)
  have d: "d \<noteq> 0" using assms(1) by (simp add: d_def)
  let ?x = "n * n - ax * (d * d) - bx * (d * d)"
  have s1: "projective_sub (projective_sub (projective_mul (n, d) (n, d)) (ax, 1)) (bx, 1) = (?x, d * d)"
    by (simp add: projective_sub_def projective_mul_def algebra_simps)
  let ?y = "(ax * (d * d) - ?x) * n - ay * (d * d * d)"
  have s2: "projective_sub (projective_mul (projective_sub (ax, 1) (?x, d * d)) (n, d)) (ay, 1) = (?y, d * d * d)"
    by (simp add: projective_sub_def projective_mul_def algebra_simps)
  have r: "projective_ec_add (ax, ay) (bx, by) =
      (if d * d \<noteq> d * d * d then (?x * (d * d * d), ?y * (d * d), d * d * (d * d * d)) else (?x, ?y, d * d))"
    unfolding projective_ec_add_def Let_def fst_conv snd_conv nd s1 s2 ..
  have x: "?x / (d * d) = l * l - ax - bx" using d by (simp add: l_def d_def [symmetric] n_def [symmetric] field_simps)
  have y: "?y / (d * d * d) = l * (ax - (l * l - ax - bx)) - ay"
    using d unfolding x [symmetric] by (simp add: l_def d_def [symmetric] n_def [symmetric] field_simps)
  show thesis
  proof (cases "d * d = d * d * d")
    case True
    have "?y / (d * d) = l * (ax - (l * l - ax - bx)) - ay"
      using arg_cong [OF True, of "\<lambda>q. ?y / q"] y by (rule trans)
    with that [of ?x ?y "d * d"] True r x d show ?thesis by simp
  next
    case False
    have "?x * (d * d * d) / (d * d * (d * d * d)) = ?x / (d * d)" "?y * (d * d) / (d * d * (d * d * d)) = ?y / (d * d * d)"
      using d by (simp_all add: field_simps)
    with that [of "?x * (d * d * d)" "?y * (d * d)" "d * d * (d * d * d)"] False r x y d show ?thesis by simp
  qed
qed

section \<open>A model of the library\<close>

text \<open>
  The points \<open>(t\<^sup>-\<^sup>2, t\<^sup>-\<^sup>3)\<close> of the cubic \<open>y\<^sup>2 = x\<^sup>3\<close> add by the chord as their parameters do, so
  the reals satisfy the laws.
\<close>

definition cusp :: "(real, real, real) secp" where
  "cusp = \<lparr>sl_mul = (*), sl_base = 1, sl_x = (\<lambda>t. 1 / (t * t)), sl_y = (\<lambda>t. 1 / (t * t * t)), sl_affine = (\<lambda>x y. x / y),
     sl_valid = (\<lambda>t. t \<noteq> 0), sl_set_b32 = (\<lambda>_. 1), sl_overflows = (\<lambda>_. False), sl_b32 = (\<lambda>_. replicate 32 0),
     sl_limbs = (\<lambda>_. [0, 0, 0, 0, 0, 0, 0, 0]), sl_field_set_b32 = (\<lambda>_. 2), sl_field_b32 = (\<lambda>_. replicate 32 0),
     sl_sqrt = sqrt, sl_is_odd = (\<lambda>y. y < 0), sl_keccak = (\<lambda>_. replicate 32 0)\<rparr>"

lemma square_fraction: "a / w * (a / w) - b - c = (a * a - (b + c) * (w * w)) / (w * w)" if "w \<noteq> 0" for a b c w :: real
  using that by (simp add: field_simps)

lemma cube_fraction: "a / w * (b - d / w * (d / w)) - c = (a * (b * (w * w) - d * d) - c * (w * w * w)) / (w * w * w)"
  if "w \<noteq> 0" for a b c d w :: real
  using that by (simp add: field_simps)

lemma cusp_chord: "chord_law cusp"
  unfolding chord_law_def
proof (intro allI impI)
  fix s t :: real
  assume st: "s \<noteq> 0" "t \<noteq> 0" and x: "sl_x cusp s \<noteq> sl_x cusp t"
  define u v where "u = 1 / s" and "v = 1 / t"
  have uv: "u \<noteq> 0" "v \<noteq> 0" using st by (simp_all add: u_def v_def)
  have co: "sl_x cusp s = u * u" "sl_y cusp s = u * u * u" "sl_x cusp t = v * v" "sl_y cusp t = v * v * v"
    by (simp_all add: cusp_def u_def v_def)
  have "(v - u) * (v + u) \<noteq> 0" using x unfolding co by (simp add: algebra_simps)
  then have nz: "v - u \<noteq> 0" "u + v \<noteq> 0" by auto
  have l: "(v * v * v - u * u * u) / (v * v - u * u) = (u * u + u * v + v * v) / (u + v)"
    using nz \<open>(v - u) * (v + u) \<noteq> 0\<close> by (simp add: divide_eq_eq eq_divide_eq algebra_simps)
  have "s + t = (u + v) / (u * v)" using st by (simp add: u_def v_def field_simps)
  then have sum: "1 / (s + t) = u * v / (u + v)" using uv nz by simp
  let ?w = "u * v / (u + v)" and ?l = "(u * u + u * v + v * v) / (u + v)"
  have co': "sl_x cusp (s + t) = ?w * ?w" "sl_y cusp (s + t) = ?w * ?w * ?w"
    by (simp_all add: cusp_def sum [symmetric])
  have x3: "?w * ?w = ?l * ?l - u * u - v * v"
    unfolding square_fraction [OF nz(2)] by (simp add: algebra_simps)
  have y3: "?w * ?w * ?w = ?l * (u * u - ?w * ?w) - u * u * u"
    unfolding cube_fraction [OF nz(2)] by (simp add: algebra_simps)
  show "let l = (sl_y cusp t - sl_y cusp s) / (sl_x cusp t - sl_x cusp s) in
      sl_x cusp (s + t) = l * l - sl_x cusp s - sl_x cusp t \<and>
      sl_y cusp (s + t) = l * (sl_x cusp s - sl_x cusp (s + t)) - sl_y cusp s"
    unfolding co co' l Let_def using x3 y3 by simp
qed

lemma cusp_ok: "secp_ok cusp"
  unfolding secp_ok_def
proof (intro conjI cusp_chord)
  have "limbs_value [0, 0, 0, 0, 0, 0, 0, 0] < limbs_value GROUP_ORDER"
    by (simp add: limbs_value_def undigits_be_def GROUP_ORDER_def)
  then show "\<forall>bs. length (sl_limbs cusp (sl_set_b32 cusp bs)) = 8 \<and> limbs_value (sl_limbs cusp (sl_set_b32 cusp bs)) < limbs_value GROUP_ORDER"
    by (simp add: cusp_def)
qed (simp_all add: cusp_def algebra_simps)

section \<open>Properties\<close>

text \<open>The response cancels the challenge.\<close>

lemma schnorr:
  assumes "secp_ok L"
  shows "sl_mul L c (sl_mul L sk P) + sl_mul L (k + - c * sk) P = sl_mul L k P"
proof -
  have "sl_mul L c (sl_mul L sk P) + sl_mul L (k + - c * sk) P = sl_mul L (c * sk + (k + - c * sk)) P"
    using assms unfolding secp_ok_def by metis
  then show ?thesis by simp
qed

lemma hashed_point:
  assumes "secp_ok L"
  shows "hash_to_curve L alpha (Some (public_key (ECVRF_new L sk))) = sl_mul L (alpha + sk) (sl_base L)"
  using assms by (simp add: hash_to_curve_def ECVRF_new_def secp_ok_def)

lemma vrf_prove_ok:
  assumes L: "secp_ok L" and "random_scalar L draws = Some (Inr k)"
    and h: "h = sl_mul L (alpha + sk) (sl_base L)" and e: "e = ECVRF_new L sk"
  obtains c where "hash_points L (sl_base L) h (public_key e) (sl_mul L sk h) (sl_mul L k (sl_base L)) (sl_mul L k h) = Some c"
    and "vrf_prove L draws e alpha = Some (Inr \<lparr>vp_gamma = sl_mul L sk h, vp_c = c, vp_s = k + - c * sk,
      vp_y = sl_set_b32 L (affine_keccak256 L (sl_mul L sk h)), vp_pk = public_key e\<rparr>)"
proof -
  have h': "hash_to_curve L alpha (Some (public_key e)) = h" unfolding e h by (rule hashed_point [OF L])
  have sk: "secret_key e = sk" by (simp add: e ECVRF_new_def)
  show thesis
    using that by (simp add: vrf_prove_def h' sk assms(2) hash_points_def affine_keccak256_def keccak_scalar [OF L] Let_def)
qed

text \<open>
  C29: proving gives up exactly when the first 102 scalars drawn are zero, and never panics;
  a proof verifies under the same key and seed, unless the seed is the negated secret key,
  for which the proof is the point at infinity and verification panics.
\<close>

theorem vrf_roundtrip:
  assumes "secp_ok L" and "sk \<noteq> 0" and "\<forall>i. length (draws i) = 32"
  shows "if \<exists>j \<le> 101. drawn L draws j \<noteq> 0
    then \<exists>p. vrf_prove L draws (ECVRF_new L sk) alpha = Some (Inr p) \<and>
      vrf_verify L (ECVRF_new L sk) alpha p = (if alpha + sk = 0 then None else Some True)
    else vrf_prove L draws (ECVRF_new L sk) alpha = Some (Inl RetriesExceeded)"
proof -
  let ?e = "ECVRF_new L sk" and ?G = "sl_base L"
  let ?h = "sl_mul L (alpha + sk) ?G"
  have zero: "\<forall>a P. sl_mul L a P = 0 \<longleftrightarrow> a = 0 \<or> P = 0" "?G \<noteq> 0" "\<forall>P. sl_valid L P \<longleftrightarrow> P \<noteq> 0"
    using assms(1) by (simp_all add: secp_ok_def)
  have pk: "public_key ?e = sl_mul L sk ?G" "secret_key ?e = sk" by (simp_all add: ECVRF_new_def)
  note h = hashed_point [OF assms(1), of alpha sk]
  have valid_pk: "public_key ?e \<noteq> 0" using zero assms(2) by (simp add: pk)
  show ?thesis
  proof (cases "\<exists>j \<le> 101. drawn L draws j \<noteq> 0")
    case True
    then obtain k where "random_scalar L draws = Some (Inr k)" using random_scalar_result [OF assms(1,3)] by auto
    then obtain c where c: "hash_points L ?G ?h (public_key ?e) (sl_mul L sk ?h) (sl_mul L k ?G) (sl_mul L k ?h) = Some c"
      and p: "vrf_prove L draws ?e alpha = Some (Inr \<lparr>vp_gamma = sl_mul L sk ?h, vp_c = c, vp_s = k + - c * sk,
        vp_y = sl_set_b32 L (affine_keccak256 L (sl_mul L sk ?h)), vp_pk = public_key ?e\<rparr>)"
      by (rule vrf_prove_ok [OF assms(1) _ refl refl])
    have u: "sl_mul L c (public_key ?e) + sl_mul L (k + - c * sk) ?G = sl_mul L k ?G"
      and v: "sl_mul L c (sl_mul L sk ?h) + sl_mul L (k + - c * sk) ?h = sl_mul L k ?h"
      unfolding pk by (rule schnorr [OF assms(1)])+
    have "vrf_verify L ?e alpha \<lparr>vp_gamma = sl_mul L sk ?h, vp_c = c, vp_s = k + - c * sk,
        vp_y = sl_set_b32 L (affine_keccak256 L (sl_mul L sk ?h)), vp_pk = public_key ?e\<rparr> =
        (if alpha + sk = 0 then None else Some True)"
      unfolding vrf_verify_def Let_def vrf_proof.select_convs h u v c
      using zero assms(2) by (simp add: affine_keccak256_def keccak_scalar [OF assms(1)] valid_pk)
    then show ?thesis using True p by auto
  next
    case False
    then have "random_scalar L draws = Some (Inl RetriesExceeded)" using random_scalar_result [OF assms(1,3)] by auto
    with False show ?thesis by (simp add: vrf_prove_def)
  qed
qed

theorem vrf_roundtrip_witness:
  "\<exists>p. vrf_prove cusp (\<lambda>_. replicate 32 0) (ECVRF_new cusp 2) 3 = Some (Inr p) \<and> vrf_verify cusp (ECVRF_new cusp 2) 3 p = Some True"
proof -
  have d: "\<exists>j \<le> 101. drawn cusp (\<lambda>_. replicate 32 0) j \<noteq> 0"
    by (intro exI [of _ 0]) (simp add: drawn_def cusp_def)
  have l: "\<forall>i. length (replicate 32 0) = 32" by simp
  show ?thesis using vrf_roundtrip [OF cusp_ok _ l, of 2 3] d by simp
qed

text \<open>
  C40: the outputs of the ordinary prover are not pseudorandom. Its hash to the curve is a
  known multiple of the base point, so from one proof anyone computes the point and the
  output for every other seed, without the secret key.
\<close>

theorem vrf_predictable:
  assumes "secp_ok L" and "vrf_prove L draws (ECVRF_new L sk) alpha = Some (Inr p)"
    and "vrf_prove L draws' (ECVRF_new L sk) beta = Some (Inr q)"
  shows "vp_gamma q = vp_gamma p + sl_mul L (beta - alpha) (vp_pk p) \<and>
    from_bytes_scalar L (affine_keccak256 L (vp_gamma p + sl_mul L (beta - alpha) (vp_pk p))) = Some (vp_y q)"
proof -
  let ?G = "sl_base L" and ?e = "ECVRF_new L sk"
  have parts: "vp_gamma r = sl_mul L sk (sl_mul L (a + sk) ?G) \<and> vp_pk r = sl_mul L sk ?G \<and>
      from_bytes_scalar L (affine_keccak256 L (vp_gamma r)) = Some (vp_y r)"
    if "vrf_prove L d ?e a = Some (Inr r)" for d a r
    using that hashed_point [OF assms(1), of a sk]
    by (auto simp: vrf_prove_def ECVRF_new_def Let_def split: bind_splits sum.splits)
  have "sl_mul L sk (sl_mul L (beta + sk) ?G) = sl_mul L (sk * (alpha + sk) + (beta - alpha) * sk) ?G"
    using assms(1) by (simp add: secp_ok_def algebra_simps)
  also have "\<dots> = sl_mul L sk (sl_mul L (alpha + sk) ?G) + sl_mul L (beta - alpha) (sl_mul L sk ?G)"
    using assms(1) unfolding secp_ok_def by metis
  finally have g: "vp_gamma q = vp_gamma p + sl_mul L (beta - alpha) (vp_pk p)"
    using parts [OF assms(2)] parts [OF assms(3)] by simp
  have "from_bytes_scalar L (affine_keccak256 L (vp_gamma q)) = Some (vp_y q)" using parts [OF assms(3)] by blast
  with g show ?thesis by metis
qed

theorem vrf_predictable_witness:
  "\<exists>p q. vrf_prove cusp (\<lambda>_. replicate 32 0) (ECVRF_new cusp 2) 3 = Some (Inr p) \<and>
     vrf_prove cusp (\<lambda>_. replicate 32 0) (ECVRF_new cusp 2) 5 = Some (Inr q) \<and>
     vp_gamma q = vp_gamma p + 2 * vp_pk p"
proof -
  have l: "\<forall>i. length (replicate 32 0) = 32" by simp
  have "\<exists>j \<le> 101. drawn cusp (\<lambda>_. replicate 32 0) j \<noteq> 0"
    by (intro exI [of _ 0]) (simp add: drawn_def cusp_def)
  then obtain k where "random_scalar cusp (\<lambda>_. replicate 32 0) = Some (Inr k)"
    using random_scalar_result [OF cusp_ok, of "\<lambda>_. replicate 32 0"] by auto
  from vrf_prove_ok [OF cusp_ok this refl refl] obtain p q
    where pq: "vrf_prove cusp (\<lambda>_. replicate 32 0) (ECVRF_new cusp 2) 3 = Some (Inr p)"
      "vrf_prove cusp (\<lambda>_. replicate 32 0) (ECVRF_new cusp 2) 5 = Some (Inr q)" by metis
  have "sl_mul cusp a b = a * b" for a b by (simp add: cusp_def)
  then show ?thesis using vrf_predictable [OF cusp_ok pq] pq by simp
qed

text \<open>
  C30: a contract proof meets the equations its on-chain verifier checks: the challenge is the
  hash of the commitment points recomputed from the response, the witness points are the
  multiples they are claimed to be, and where their abscissas differ the inverse of \<open>z\<close>
  turns the projective sum into the sum.
\<close>

theorem contract_proof_checks:
  assumes "secp_ok L" and "vrf_prove_contract L draws (ECVRF_new L sk) alpha = Some (Inr p)"
  shows "\<exists>h. hash_to_curve_prefix L alpha (cp_pk p) = Some h \<and> cp_alpha p = alpha \<and>
    cp_gamma p = sl_mul L sk h \<and> cp_pk p = sl_mul L sk (sl_base L) \<and>
    cp_witness_gamma p = sl_mul L (cp_c p) (cp_gamma p) \<and> cp_witness_hash p = sl_mul L (cp_s p) h \<and>
    hash_points_prefix L h (cp_pk p) (cp_gamma p)
      (calculate_witness_address L (sl_mul L (cp_c p) (cp_pk p) + sl_mul L (cp_s p) (sl_base L)))
      (cp_witness_gamma p + cp_witness_hash p) = Some (cp_c p) \<and>
    from_bytes_scalar L (affine_keccak256 L (cp_gamma p)) = Some (cp_y p) \<and>
    (let a = cp_witness_gamma p; b = cp_witness_hash p;
         (rx, ry, rz) = projective_ec_add (sl_x L a, sl_y L a) (sl_x L b, sl_y L b) in
     a \<noteq> 0 \<longrightarrow> b \<noteq> 0 \<longrightarrow> sl_x L a \<noteq> sl_x L b \<longrightarrow> rz * cp_inverse_z p = 1 \<and>
       sl_x L (a + b) = rx * cp_inverse_z p \<and> sl_y L (a + b) = ry * cp_inverse_z p)"
proof -
  let ?e = "ECVRF_new L sk" and ?G = "sl_base L"
  have pk: "public_key ?e = sl_mul L sk ?G" "secret_key ?e = sk" by (simp_all add: ECVRF_new_def)
  obtain h k c where h: "hash_to_curve_prefix L alpha (public_key ?e) = Some h"
    and c: "hash_points_prefix L h (public_key ?e) (sl_mul L sk h) (calculate_witness_address L (sl_mul L k ?G)) (sl_mul L k h) = Some c"
    and p: "cp_pk p = public_key ?e" "cp_gamma p = sl_mul L sk h" "cp_c p = c" "cp_s p = k + - c * sk" "cp_alpha p = alpha"
      "from_bytes_scalar L (affine_keccak256 L (sl_mul L sk h)) = Some (cp_y p)"
      "cp_witness_gamma p = sl_mul L c (sl_mul L sk h)" "cp_witness_hash p = sl_mul L (k + - c * sk) h"
      "cp_inverse_z p = inverse (snd (snd (projective_ec_add
        (sl_x L (sl_mul L c (sl_mul L sk h)), sl_y L (sl_mul L c (sl_mul L sk h)))
        (sl_x L (sl_mul L (k + - c * sk) h), sl_y L (sl_mul L (k + - c * sk) h)))))"
    using assms(2) unfolding vrf_prove_contract_def pk(2) Let_def
    by (auto split: bind_splits sum.splits prod.splits simp del: mult_minus_left)
  note uv = schnorr [OF assms(1), of c sk _ k]
  let ?a = "cp_witness_gamma p" and ?b = "cp_witness_hash p"
  have inverse_z: "let (rx, ry, rz) = projective_ec_add (sl_x L ?a, sl_y L ?a) (sl_x L ?b, sl_y L ?b) in
      ?a \<noteq> 0 \<longrightarrow> ?b \<noteq> 0 \<longrightarrow> sl_x L ?a \<noteq> sl_x L ?b \<longrightarrow> rz * cp_inverse_z p = 1 \<and>
       sl_x L (?a + ?b) = rx * cp_inverse_z p \<and> sl_y L (?a + ?b) = ry * cp_inverse_z p"
  proof (cases "?a \<noteq> 0 \<and> ?b \<noteq> 0 \<and> sl_x L ?a \<noteq> sl_x L ?b")
    case True
    then have chord: "sl_x L (?a + ?b) = ((sl_y L ?b - sl_y L ?a) / (sl_x L ?b - sl_x L ?a)) * ((sl_y L ?b - sl_y L ?a) / (sl_x L ?b - sl_x L ?a)) - sl_x L ?a - sl_x L ?b"
      "sl_y L (?a + ?b) = ((sl_y L ?b - sl_y L ?a) / (sl_x L ?b - sl_x L ?a)) * (sl_x L ?a - sl_x L (?a + ?b)) - sl_y L ?a"
      using assms(1) by (simp_all add: secp_ok_def chord_law_def Let_def)
    obtain rx ry rz where r: "projective_ec_add (sl_x L ?a, sl_y L ?a) (sl_x L ?b, sl_y L ?b) = (rx, ry, rz)" "rz \<noteq> 0"
      "rx / rz = sl_x L (?a + ?b)" "ry / rz = sl_y L (?a + ?b)"
      using projective_chord [of "sl_x L ?a" "sl_x L ?b" "sl_y L ?a" "sl_y L ?b"] True unfolding chord by metis
    have "cp_inverse_z p = inverse rz" using p(7-9) r(1) by simp
    then show ?thesis using r by (simp add: divide_inverse)
  qed auto
  show ?thesis
  proof (intro exI conjI)
    show "hash_to_curve_prefix L alpha (cp_pk p) = Some h" using h p(1) by simp
    show "hash_points_prefix L h (cp_pk p) (cp_gamma p)
      (calculate_witness_address L (sl_mul L (cp_c p) (cp_pk p) + sl_mul L (cp_s p) ?G)) (?a + ?b) = Some (cp_c p)"
      using c unfolding p pk uv .
    show "let a = ?a; b = ?b; (rx, ry, rz) = projective_ec_add (sl_x L a, sl_y L a) (sl_x L b, sl_y L b) in
     a \<noteq> 0 \<longrightarrow> b \<noteq> 0 \<longrightarrow> sl_x L a \<noteq> sl_x L b \<longrightarrow> rz * cp_inverse_z p = 1 \<and>
       sl_x L (a + b) = rx * cp_inverse_z p \<and> sl_y L (a + b) = ry * cp_inverse_z p"
      using inverse_z unfolding Let_def .
  qed (use p pk in simp_all)
qed

lemma cusp_hash_to_curve: "hash_to_curve_prefix cusp alpha pk = Some (2 / sqrt 15)"
proof -
  have "field_hash cusp b = Some 2" for b by (simp add: field_hash_once [OF cusp_ok]) (simp add: cusp_def)
  then have c: "new_candidate_point cusp b = Some (2, sqrt 15)" for b
    by (simp add: new_candidate_point_def y_squared_def) (simp add: cusp_def)
  have "candidate_loop cusp (2, sqrt 15) = Some (2, sqrt 15)"
    by (subst candidate_loop.simps) (simp add: is_on_curve_def y_squared_def)
  then show ?thesis by (simp add: hash_to_curve_prefix_def c) (simp add: cusp_def)
qed

theorem contract_proof_checks_witness:
  "\<exists>p. vrf_prove_contract cusp (\<lambda>_. replicate 32 0) (ECVRF_new cusp 2) 3 = Some (Inr p) \<and>
     hash_points_prefix cusp (2 / sqrt 15) (cp_pk p) (cp_gamma p)
       (calculate_witness_address cusp (cp_c p * cp_pk p + cp_s p))
       (cp_witness_gamma p + cp_witness_hash p) = Some (cp_c p)"
proof -
  let ?d = "\<lambda>_ :: nat. replicate 32 0 :: u8 list"
  have "\<exists>j \<le> 101. drawn cusp ?d j \<noteq> 0" by (intro exI [of _ 0]) (simp add: drawn_def cusp_def)
  then obtain k where k: "random_scalar cusp ?d = Some (Inr k)" using random_scalar_result [OF cusp_ok, of ?d] by auto
  have L: "sl_mul cusp a b = a * b" "sl_base cusp = 1" "sl_valid cusp a \<longleftrightarrow> a \<noteq> 0" for a b by (simp_all add: cusp_def)
  have "\<exists>p. vrf_prove_contract cusp ?d (ECVRF_new cusp 2) 3 = Some (Inr p)"
    by (simp add: vrf_prove_contract_def ECVRF_new_def L k cusp_hash_to_curve hash_points_prefix_def affine_keccak256_def
        calculate_witness_address_def keccak_scalar [OF cusp_ok] Let_def split: prod.splits)
      (simp add: from_bytes_scalar_def cusp_def)
  then obtain p where p: "vrf_prove_contract cusp ?d (ECVRF_new cusp 2) 3 = Some (Inr p)" by blast
  show ?thesis using contract_proof_checks [OF cusp_ok p] p by (auto simp: cusp_hash_to_curve L)
qed

section \<open>The search for a point\<close>

text \<open>
  What the search relies on: \<open>sqrt\<close> gives a root of a square, and of two opposite roots one
  is odd.
\<close>

definition roots_ok :: "('s, 'g, 'f::field) secp \<Rightarrow> bool" where
  "roots_ok L \<longleftrightarrow> (\<forall>z. sl_sqrt L (z * z) * sl_sqrt L (z * z) = z * z) \<and>
     (\<forall>y. y \<noteq> 0 \<longrightarrow> (sl_is_odd L (- y) \<longleftrightarrow> \<not> sl_is_odd L y)) \<and> \<not> sl_is_odd L 0"

text \<open>The first coordinates that are tried: Keccak hashes, reduced modulo the group order.\<close>

definition hashed :: "('s, 'g, 'f) secp \<Rightarrow> u8 list \<Rightarrow> 'f" where
  "hashed L bs = sl_field_set_b32 L (sl_b32 L (sl_set_b32 L (sl_keccak L bs)))"

primrec abscissa :: "('s, 'g, 'f) secp \<Rightarrow> u8 list \<Rightarrow> nat \<Rightarrow> 'f" where
  "abscissa L bs 0 = hashed L bs"
| "abscissa L bs (Suc n) = hashed L (sl_field_b32 L (abscissa L bs n))"

definition has_point :: "'f::field \<Rightarrow> bool" where
  "has_point x \<longleftrightarrow> (\<exists>y. y ^ 2 = x ^ 3 + 7)"

lemma cubic: "y_squared x = x ^ 3 + 7"
  by (simp add: y_squared_def power3_eq_cube)

definition even_root :: "('s, 'g, 'f::field) secp \<Rightarrow> 'f \<Rightarrow> 'f" where
  "even_root L x = (if sl_is_odd L (sl_sqrt L (y_squared x)) then - sl_sqrt L (y_squared x) else sl_sqrt L (y_squared x))"

lemma even_root:
  assumes "roots_ok L"
  shows "is_on_curve (x, even_root L x) \<longleftrightarrow> has_point x"
    and "y ^ 2 = x ^ 3 + 7 \<Longrightarrow> \<not> sl_is_odd L y \<longleftrightarrow> y = even_root L x"
proof -
  let ?r = "sl_sqrt L (y_squared x)"
  have sq: "even_root L x * even_root L x = ?r * ?r" by (simp add: even_root_def)
  show on: "is_on_curve (x, even_root L x) \<longleftrightarrow> has_point x"
    unfolding is_on_curve_def fst_conv snd_conv sq has_point_def cubic [symmetric] power2_eq_square
    using assms by (metis roots_ok_def)
  have odd: "\<not> sl_is_odd L (even_root L x)" using assms by (cases "?r = 0") (auto simp: roots_ok_def even_root_def)
  assume y: "y ^ 2 = x ^ 3 + 7"
  then have "y * y = even_root L x * even_root L x"
    using on by (auto simp: has_point_def is_on_curve_def cubic power2_eq_square)
  then have "y = even_root L x \<or> y = - even_root L x" by (simp add: square_eq_iff)
  then show "\<not> sl_is_odd L y \<longleftrightarrow> y = even_root L x"
    using odd assms by (metis minus_zero roots_ok_def)
qed

lemma cusp_roots: "roots_ok cusp"
  by (auto simp: roots_ok_def cusp_def)

lemma candidate: "secp_ok L \<Longrightarrow> new_candidate_point L bs = Some (hashed L bs, even_root L (hashed L bs))"
  by (simp add: new_candidate_point_def field_hash_once hashed_def even_root_def)

text \<open>The search at the candidate of each first coordinate.\<close>

abbreviation tried :: "('s, 'g, 'f::field) secp \<Rightarrow> u8 list \<Rightarrow> nat \<Rightarrow> 'f \<times> 'f" where
  "tried L bs n \<equiv> (abscissa L bs n, even_root L (abscissa L bs n))"

lemma loop_step:
  assumes "secp_ok L" "roots_ok L"
  shows "candidate_loop L (tried L bs n) =
     (if has_point (abscissa L bs n) then Some (tried L bs n) else candidate_loop L (tried L bs (Suc n)))"
  by (subst candidate_loop.simps) (simp add: even_root(1) [OF assms(2)] candidate [OF assms(1)])

lemma loop_finds:
  assumes "secp_ok L" "roots_ok L" and "n \<le> k" "has_point (abscissa L bs k)"
    and "\<And>m. n \<le> m \<Longrightarrow> m < k \<Longrightarrow> \<not> has_point (abscissa L bs m)"
  shows "candidate_loop L (tried L bs n) = Some (tried L bs k)"
  using assms(3-5)
proof (induction rule: inc_induct)
  case base
  then show ?case by (simp add: loop_step [OF assms(1,2)])
next
  case (step n)
  then show ?case by (simp add: loop_step [OF assms(1,2), of bs n])
qed

lemma loop_found:
  assumes "candidate_loop L rv = Some p" "secp_ok L" "roots_ok L" "rv = tried L bs n"
  shows "\<exists>k. has_point (abscissa L bs k)"
  using assms
proof (induction arbitrary: n rule: candidate_loop.raw_induct [rotated, consumes 1, case_names step])
  case (step search L rv p)
  show ?case
  proof (cases "is_on_curve rv")
    case True
    then show ?thesis using step(5) even_root(1) [OF step(4)] by auto
  next
    case False
    then have "search L (tried L bs (Suc n)) = Some p"
      using step(2,5) candidate [OF step(3)] by simp
    then show ?thesis using step(1) [OF _ step(3,4) refl] by blast
  qed
qed

text \<open>
  C32: the hash of a seed to the curve is the point with the even second coordinate above the
  first abscissa that has one, among the Keccak hash of the byte 1, the public key and the
  seed, then the hash of each abscissa tried; it diverges exactly when none of them has a point.
\<close>

theorem hash_to_curve_exact:
  fixes L :: "('s::field, 'g::ab_group_add, 'f::field) secp"
  assumes "secp_ok L" and "roots_ok L"
    and "bs = replicate 31 0 @ [1] @ sl_field_b32 L (sl_x L pk) @ sl_field_b32 L (sl_y L pk) @ sl_b32 L alpha"
  shows "(hash_to_curve_prefix L alpha pk = Some h \<longleftrightarrow>
      (\<exists>n y. y ^ 2 = abscissa L bs n ^ 3 + 7 \<and> \<not> sl_is_odd L y \<and> h = sl_affine L (abscissa L bs n) y \<and>
         (\<forall>m < n. \<nexists>z. z ^ 2 = abscissa L bs m ^ 3 + 7))) \<and>
    (hash_to_curve_prefix L alpha pk = None \<longleftrightarrow> (\<forall>n. \<nexists>z. z ^ 2 = abscissa L bs n ^ 3 + 7))"
proof -
  let ?x = "abscissa L bs"
  have run: "hash_to_curve_prefix L alpha pk =
      map_option (\<lambda>rv. sl_affine L (fst rv) (snd rv)) (candidate_loop L (tried L bs 0))"
    by (cases "candidate_loop L (tried L bs 0)")
      (simp_all add: hash_to_curve_prefix_def candidate [OF assms(1)] assms(3) int_b32_def point_bytes_def)
  have on: "even_root L x ^ 2 = x ^ 3 + 7 \<longleftrightarrow> has_point x" for x
    using even_root(1) [OF assms(2), of x] by (simp add: is_on_curve_def cubic power2_eq_square eq_commute)
  have root: "y ^ 2 = ?x n ^ 3 + 7 \<and> \<not> sl_is_odd L y \<longleftrightarrow> has_point (?x n) \<and> y = even_root L (?x n)" for y n
    using even_root(2) [OF assms(2), of y "?x n"] even_root(2) [OF assms(2) on [THEN iffD2]] on has_point_def by metis
  show ?thesis
  proof (cases "\<exists>n. has_point (?x n)")
    case True
    define k where "k = (LEAST n. has_point (?x n))"
    have k: "has_point (?x k)" "\<And>m. m < k \<Longrightarrow> \<not> has_point (?x m)"
      using True LeastI_ex [of "\<lambda>n. has_point (?x n)"] not_less_Least unfolding k_def by blast+
    have first: "has_point (?x n) \<and> (\<forall>m < n. \<not> has_point (?x m)) \<longleftrightarrow> n = k" for n
      using k by (metis linorder_neqE_nat)
    have "hash_to_curve_prefix L alpha pk = Some (sl_affine L (?x k) (even_root L (?x k)))"
      using loop_finds [OF assms(1,2) _ k(1), of 0] k(2) by (simp add: run)
    moreover have "(\<exists>n y. y ^ 2 = ?x n ^ 3 + 7 \<and> \<not> sl_is_odd L y \<and> h = sl_affine L (?x n) y \<and>
        (\<forall>m < n. \<not> has_point (?x m))) \<longleftrightarrow> h = sl_affine L (?x k) (even_root L (?x k))" (is "?found \<longleftrightarrow> _")
    proof -
      have "?found \<longleftrightarrow> (\<exists>n. (has_point (?x n) \<and> (\<forall>m < n. \<not> has_point (?x m))) \<and> h = sl_affine L (?x n) (even_root L (?x n)))"
        unfolding conj_assoc [symmetric] root by auto
      then show ?thesis unfolding first by blast
    qed
    ultimately show ?thesis using True by (auto simp: has_point_def [symmetric])
  next
    case False
    then have "candidate_loop L (tried L bs 0) = None"
      using loop_found [OF _ assms(1,2) refl] by (cases "candidate_loop L (tried L bs 0)") blast+
    then show ?thesis using False root by (auto simp: run has_point_def)
  qed
qed

theorem hash_to_curve_exact_witness:
  "hash_to_curve_prefix cusp 3 2 = Some (2 / sqrt 15) \<and> hash_to_curve_prefix cusp 3 2 \<noteq> None"
proof -
  let ?bs = "replicate 31 0 @ [1] @ sl_field_b32 cusp (sl_x cusp 2) @ sl_field_b32 cusp (sl_y cusp 2) @ sl_b32 cusp 3"
  have x: "abscissa cusp ?bs 0 = 2" by (simp add: hashed_def cusp_def)
  have "\<exists>n y. y ^ 2 = abscissa cusp ?bs n ^ 3 + 7 \<and> \<not> sl_is_odd cusp y \<and> 2 / sqrt 15 = sl_affine cusp (abscissa cusp ?bs n) y \<and>
      (\<forall>m < n. \<nexists>z. z ^ 2 = abscissa cusp ?bs m ^ 3 + 7)"
    by (intro exI [of _ 0] exI [of _ "sqrt 15"]) (simp only: x, simp add: cusp_def)
  with hash_to_curve_exact [OF cusp_ok cusp_roots refl, of 3 2 "2 / sqrt 15"] show ?thesis by blast
qed

text \<open>When a contract proof comes out: the search ends and one of the 102 draws is not zero.\<close>

lemma contract_proof_exists:
  assumes "secp_ok L" and "\<forall>i. length (draws i) = 32"
  shows "(\<exists>p. vrf_prove_contract L draws e alpha = Some (Inr p)) \<longleftrightarrow>
    sl_valid L (public_key e) \<and> hash_to_curve_prefix L alpha (public_key e) \<noteq> None \<and> (\<exists>j \<le> 101. drawn L draws j \<noteq> 0)"
proof -
  have w: "\<exists>s. from_bytes_scalar L (drop 12 (sl_keccak L bs)) = Some s" for bs
    using assms(1) by (simp add: secp_ok_def from_bytes_scalar_def)
  show ?thesis
  proof (cases "sl_valid L (public_key e) \<and> hash_to_curve_prefix L alpha (public_key e) \<noteq> None")
    case True
    then obtain h where h: "hash_to_curve_prefix L alpha (public_key e) = Some h" by blast
    show ?thesis
    proof (cases "\<exists>j \<le> 101. drawn L draws j \<noteq> 0")
      case ok: True
      then obtain k where k: "random_scalar L draws = Some (Inr k)" using random_scalar_result [OF assms] by auto
      obtain s where "from_bytes_scalar L (calculate_witness_address L (sl_mul L k (sl_base L))) = Some s"
        using w by (auto simp: calculate_witness_address_def affine_keccak256_def)
      then have "\<exists>p. vrf_prove_contract L draws e alpha = Some (Inr p)"
        using True by (simp add: vrf_prove_contract_def h k hash_points_prefix_def affine_keccak256_def
            keccak_scalar [OF assms(1)] Let_def split: prod.splits)
      then show ?thesis using True ok by simp
    next
      case False
      then have "random_scalar L draws = Some (Inl RetriesExceeded)" using random_scalar_result [OF assms] by presburger
      then show ?thesis using False by (simp add: vrf_prove_contract_def Let_def bind_eq_Some_conv)
    qed
  qed (auto simp: vrf_prove_contract_def)
qed

section \<open>Keys\<close>

lemma zeroize_is_zero: "raw_is_zero (zeroize k)"
  by (simp add: raw_is_zero_def zeroize_def list_all_iff)

end
