(* ===== verification/Node_Correct.thy ===== *)
theory Node_Correct
  imports Node_Service Ecvrf_Correct
begin

text \<open>
  What the oracle guarantees: the epochs of a receiver are numbered without gaps and chained,
  every published record carries a proof the contract accepts, and only the right users
  change the tables.
\<close>

section \<open>The effect of a transaction\<close>

abbreviation view :: "('db, 's, 'g, 'f) node \<Rightarrow> 'db \<Rightarrow> tables" where
  "view N db \<equiv> sq_tables (nd_sql N) db"

definition epoch_added :: "int \<Rightarrow> receiver \<Rightarrow> randomness \<Rightarrow> tables \<Rightarrow> tables \<Rightarrow> bool" where
  "epoch_added nonce r row t t' \<longleftrightarrow>
     t' = t\<lparr>receivers := update_receivers (r\<lparr>rc_nonce := nonce\<rparr>) (receivers t), randomnesses := randomnesses t @ [row]\<rparr>"

lemma try_db_Some:
  "try_db db r k = Some (res, db') \<longleftrightarrow> (\<exists>e. r = Inl e \<and> res = Inl e \<and> db' = db) \<or> (\<exists>v. r = Inr v \<and> k v = Some (res, db'))"
  by (auto simp: try_db_def split: sum.splits)

lemma commit_epoch_cases:
  assumes Q: "sql_ok (nd_sql N)" and "sq_begin (nd_sql N) db = Inr txn"
    and run: "commit_epoch N r f db txn = Some (res, db')"
  shows "(isl res \<and> view N db' = view N db) \<or>
    (\<exists>row nonce. res = Inr row \<and> randomness_fields.truncate row = f \<and>
       i64_add (nd_overflow_checks N) (rc_nonce r) 1 = Some nonce \<and> epoch_added nonce r row (view N db) (view N db'))"
proof -
  have t: "transactions_ok (nd_sql N)" and i: "inserts_ok (nd_sql N)" using Q by (simp_all add: sql_ok_def)
  have begin_eq: "view N txn = view N db" using t assms(2) unfolding transactions_ok_def by blast
  obtain nonce where nonce: "i64_add (nd_overflow_checks N) (rc_nonce r) 1 = Some nonce"
    and run': "try_db db (sq_update_receiver (nd_sql N) (r\<lparr>rc_nonce := nonce\<rparr>) txn) (\<lambda>(_, txn).
       let result = sq_insert_randomness (nd_sql N) f txn;
           txn = (case result of Inl _ \<Rightarrow> txn | Inr (_, t) \<Rightarrow> t) in
       try_db db (sq_commit (nd_sql N) db txn (isl result)) (\<lambda>db'. Some (map_sum id fst result, db'))) = Some (res, db')"
    using run by (auto simp: commit_epoch_def Let_def split: bind_splits)
  show ?thesis
  proof (cases "sq_update_receiver (nd_sql N) (r\<lparr>rc_nonce := nonce\<rparr>) txn")
    case (Inl e)
    then show ?thesis using run' by (auto simp: try_db_Some)
  next
    case (Inr v)
    obtain row' w where v: "v = (row', w)" by (cases v)
    have w: "view N w = view N txn\<lparr>receivers := update_receivers (r\<lparr>rc_nonce := nonce\<rparr>) (receivers (view N txn))\<rparr>"
      using t Inr v unfolding transactions_ok_def by blast
    show ?thesis
    proof (cases "sq_insert_randomness (nd_sql N) f w")
      case (Inl e)
      then have "isl res" "db' = db \<or> sq_commit (nd_sql N) db w True = Inr db'"
        using run' Inr v by (auto simp: try_db_Some)
      then show ?thesis using t unfolding transactions_ok_def by metis
    next
      case ins: (Inr u)
      obtain row w' where u: "u = (row, w')" by (cases u)
      have row: "randomness_fields.truncate row = f" "view N w' = view N w\<lparr>randomnesses := randomnesses (view N w) @ [row]\<rparr>"
        using i ins u unfolding inserts_ok_def by blast+
      have "(isl res \<and> db' = db) \<or> (res = Inr row \<and> sq_commit (nd_sql N) db w' False = Inr db')"
        using run' Inr v ins u by (auto simp: try_db_Some)
      moreover have "view N db' = view N w'" if "sq_commit (nd_sql N) db w' False = Inr db'"
        using t that unfolding transactions_ok_def by metis
      ultimately show ?thesis
        using row w begin_eq nonce by (auto simp: epoch_added_def)
    qed
  qed
qed

section \<open>Histories\<close>

definition history :: "tables \<Rightarrow> receiver \<Rightarrow> randomness list" where
  "history t r = filter (\<lambda>x. rn_receiver_id x = rc_id r) (randomnesses t)"

definition chained :: "randomness list \<Rightarrow> bool" where
  "chained xs \<longleftrightarrow> (\<forall>i. Suc i < length xs \<longrightarrow> rn_alpha (xs ! Suc i) = rn_y (xs ! i))"

definition proved_row ::
    "('db, 's::field, 'g::ab_group_add, 'f::field) node \<Rightarrow> ('s, 'g) node_context \<Rightarrow> randomness \<Rightarrow> bool" where
  "proved_row N ctx x \<longleftrightarrow> (\<exists>draws alpha p r address signature.
     vrf_prove_contract (nd_secp N) draws (nc_ecvrf ctx) alpha = Some (Inr p) \<and> evm_verify N p = Some True \<and>
     operator_signature N ctx r address p = Some signature \<and> rc_id r = rn_receiver_id x \<and> rc_nonce r = rn_epoch x \<and>
     new_randomness N ctx r alpha p signature = Some (randomness_fields.truncate x))"

definition epochs_inv ::
    "('db, 's::field, 'g::ab_group_add, 'f::field) node \<Rightarrow> ('s, 'g) node_context \<Rightarrow> tables \<Rightarrow> bool" where
  "epochs_inv N ctx t \<longleftrightarrow> distinct (map rc_id (receivers t)) \<and>
     distinct (map (\<lambda>r. (rc_address r, rc_network r)) (receivers t)) \<and>
     (\<forall>x \<in> set (randomnesses t). rn_receiver_id x \<in> rc_id ` set (receivers t)) \<and>
     (\<forall>r \<in> set (receivers t). rc_nonce r = int (length (history t r)) \<and>
        map rn_epoch (history t r) = map int [0..<length (history t r)] \<and> chained (history t r)) \<and>
     (\<forall>x \<in> set (randomnesses t). proved_row N ctx x)"

definition epoch_codecs_ok :: "('db, 's, 'g, 'f) node \<Rightarrow> bool" where
  "epoch_codecs_ok N \<longleftrightarrow> (\<forall>bs. hex_decode (nd_codecs N) (hex_encode (nd_codecs N) bs) = Some bs) \<and>
     (\<forall>s. length (sl_b32 (nd_secp N) s) = 32 \<and>
        sl_b32 (nd_secp N) (sl_set_b32 (nd_secp N) (sl_b32 (nd_secp N) s)) = sl_b32 (nd_secp N) s)"

lemma truncate_fields [simp]:
  fixes x :: randomness
  shows "rn_epoch (randomness_fields.truncate x) = rn_epoch x" "rn_alpha (randomness_fields.truncate x) = rn_alpha x"
    "rn_y (randomness_fields.truncate x) = rn_y x" "rn_receiver_id (randomness_fields.truncate x) = rn_receiver_id x"
  by (simp_all add: randomness_fields.truncate_def)

lemma new_randomness_fields:
  assumes "new_randomness N ctx r alpha p signature = Some f"
  shows "rn_epoch f = rc_nonce r" "rn_receiver_id f = rc_id r" "rn_alpha f = hex_encode (nd_codecs N) (sl_b32 (nd_secp N) alpha)"
    "rn_y f = hex_encode (nd_codecs N) (sl_b32 (nd_secp N) (cp_y p))"
  using assms by (auto simp: new_randomness_def Let_def split: bind_splits)

lemma decode_y:
  fixes N :: "('db, 's::field, 'g::ab_group_add, 'f::field) node"
  assumes "epoch_codecs_ok N" "proved_row N ctx x"
  shows "\<exists>s. rn_y x = hex_encode (nd_codecs N) (sl_b32 (nd_secp N) s) \<and>
    decode_to_slice (nd_codecs N) 32 (rn_y x) = Some (sl_b32 (nd_secp N) s) \<and>
    from_bytes_scalar (nd_secp N) (sl_b32 (nd_secp N) s) = Some (sl_set_b32 (nd_secp N) (sl_b32 (nd_secp N) s)) \<and>
    sl_b32 (nd_secp N) (sl_set_b32 (nd_secp N) (sl_b32 (nd_secp N) s)) = sl_b32 (nd_secp N) s"
proof -
  obtain p :: "('s, 'g, 'f) contract_proof" where y: "rn_y x = hex_encode (nd_codecs N) (sl_b32 (nd_secp N) (cp_y p))"
    using assms(2) by (auto simp: proved_row_def dest!: new_randomness_fields(4))
  then show ?thesis
    using assms(1) by (intro exI [of _ "cp_y p"]) (simp add: epoch_codecs_ok_def decode_to_slice_def from_bytes_scalar_def)
qed

text \<open>The seed of a new epoch is the output of the latest, or a random one.\<close>

lemma read_alpha_history:
  assumes Q: "sql_ok (nd_sql N)" and C: "epoch_codecs_ok N" and inv: "epochs_inv N ctx (view N db)"
    and r: "r \<in> set (receivers (view N db))"
    and read: "read_alpha N E db r = Some (Inr alpha)"
  shows "history (view N db) r = [] \<or> hex_encode (nd_codecs N) (sl_b32 (nd_secp N) alpha) = rn_y (last (history (view N db) r))"
proof (cases "one (sq_select_randomness (nd_sql N) db (\<lambda>x. rn_receiver_id x = rc_id r) EpochDesc (Some 1))")
  case (Inl e)
  then show ?thesis using read by (simp add: read_alpha_def)
next
  case (Inr found)
  let ?h = "history (view N db) r"
  note f = latest_found [OF Q Inr]
  show ?thesis
  proof (cases found)
    case None
    then show ?thesis using f by (simp add: history_def filter_empty_conv)
  next
    case (Some latest)
    then have l: "latest \<in> set ?h" "\<forall>x \<in> set ?h. rn_epoch x \<le> rn_epoch latest" using f by (auto simp: history_def)
    have e: "map rn_epoch ?h = map int [0..<length ?h]" using inv r by (simp add: epochs_inv_def)
    have nth: "rn_epoch (?h ! i) = int i" if "i < length ?h" for i
      using arg_cong [OF e, of "\<lambda>xs. xs ! i"] that by simp
    obtain i where i: "i < length ?h" "latest = ?h ! i" using l(1) by (auto simp: in_set_conv_nth)
    have "rn_epoch (?h ! (length ?h - 1)) \<le> rn_epoch latest"
      using i l(2) nth_mem [of "length ?h - 1" ?h] by (cases "length ?h") auto
    then have "i = length ?h - 1" using i nth [of i] nth [of "length ?h - 1"] by simp
    then have "latest = last ?h" using i by (subst last_conv_nth) auto
    moreover have "proved_row N ctx latest" using inv l(1) by (auto simp: epochs_inv_def history_def)
    ultimately show ?thesis using decode_y [OF C] read Inr Some by (force simp: read_alpha_def)
  qed
qed

section \<open>Epochs are numbered and chained\<close>

text \<open>The cases of the transaction: nothing happens, or one record is added.\<close>

lemma safe_insert_cases:
  assumes Q: "sql_ok (nd_sql N)" and run: "safe_insert N ctx E username network address db = Some (res, db')"
  shows "(isl res \<and> view N db' = view N db) \<or>
    (\<exists>r row nonce alpha txn. res = Inr row \<and> r \<in> set (receivers (view N db)) \<and> rc_address r = address \<and> rc_network r = network \<and>
       rc_keyring_id r \<in> keyring_ids (nd_sql N) db username \<and>
       view N txn = view N db \<and> read_alpha N E txn r = Some (Inr alpha) \<and>
       rn_epoch row = rc_nonce r \<and> rn_receiver_id row = rc_id r \<and>
       rn_alpha row = hex_encode (nd_codecs N) (sl_b32 (nd_secp N) alpha) \<and> proved_row N ctx row \<and>
       i64_add (nd_overflow_checks N) (rc_nonce r) 1 = Some nonce \<and> epoch_added nonce r row (view N db) (view N db'))"
proof (cases "isl res \<and> db' = db")
  case False
  obtain txn r where txn: "sq_begin (nd_sql N) db = Inr txn"
    and r: "find_own_receiver (nd_sql N) txn username network address = Inr r"
    and run1: "(do { alpha \<leftarrow> read_alpha N E txn r;
       try_db db alpha (\<lambda>alpha. do {
         contract_proof \<leftarrow> vrf_prove_contract (nd_secp N) (en_draws E) (nc_ecvrf ctx) alpha;
         case contract_proof of Inl _ \<Rightarrow> Some (Inl (ExecError ''Unable to prove contract''), db)
         | Inr p \<Rightarrow> do {
             verified \<leftarrow> evm_verify N p;
             if \<not> verified then Some (Inl (ExecError ''EVM unable to verify''), db)
             else do {
               signature \<leftarrow> operator_signature N ctx r address p;
               new_record \<leftarrow> new_randomness N ctx r alpha p signature;
               commit_epoch N r new_record db txn } } }) }) = Some (res, db')"
    using run False by (auto simp: safe_insert_def try_db_Some)
  obtain alpha where alpha: "read_alpha N E txn r = Some (Inr alpha)"
    and run2: "(do {
         contract_proof \<leftarrow> vrf_prove_contract (nd_secp N) (en_draws E) (nc_ecvrf ctx) alpha;
         case contract_proof of Inl _ \<Rightarrow> Some (Inl (ExecError ''Unable to prove contract''), db)
         | Inr p \<Rightarrow> do {
             verified \<leftarrow> evm_verify N p;
             if \<not> verified then Some (Inl (ExecError ''EVM unable to verify''), db)
             else do {
               signature \<leftarrow> operator_signature N ctx r address p;
               new_record \<leftarrow> new_randomness N ctx r alpha p signature;
               commit_epoch N r new_record db txn } } }) = Some (res, db')"
    using run1 False by (auto simp: bind_eq_Some_conv try_db_Some)
  from run2 obtain q where q: "vrf_prove_contract (nd_secp N) (en_draws E) (nc_ecvrf ctx) alpha = Some q"
    by (auto simp: bind_eq_Some_conv)
  with run2 False obtain p where p: "vrf_prove_contract (nd_secp N) (en_draws E) (nc_ecvrf ctx) alpha = Some (Inr p)"
    by (cases q) auto
  then obtain verified where v: "evm_verify N p = Some verified"
    and run3: "(if \<not> verified then Some (Inl (ExecError ''EVM unable to verify''), db)
             else do {
               signature \<leftarrow> operator_signature N ctx r address p;
               new_record \<leftarrow> new_randomness N ctx r alpha p signature;
               commit_epoch N r new_record db txn }) = Some (res, db')"
    using run2 by (auto simp: bind_eq_Some_conv)
  have v: "evm_verify N p = Some True" using v run3 False by (cases verified) auto
  obtain signature f where s: "operator_signature N ctx r address p = Some signature"
    and f: "new_randomness N ctx r alpha p signature = Some f"
    and run2: "commit_epoch N r f db txn = Some (res, db')"
    using run3 False by (auto simp: bind_eq_Some_conv split: if_splits)
  have same: "view N txn = view N db" using Q txn unfolding sql_ok_def transactions_ok_def by blast
  have own: "r \<in> set (receivers (view N db))" "rc_address r = address" "rc_network r = network"
      "rc_keyring_id r \<in> keyring_ids (nd_sql N) db username"
    using r receiver_found [OF Q, of txn] same
    by (force simp: find_own_receiver_def keyring_ids_def split: sum.splits option.splits)+
  from commit_epoch_cases [OF Q txn run2] show ?thesis
  proof
    assume "\<exists>row nonce. res = Inr row \<and> randomness_fields.truncate row = f \<and>
       i64_add (nd_overflow_checks N) (rc_nonce r) 1 = Some nonce \<and> epoch_added nonce r row (view N db) (view N db')"
    then obtain row nonce where row: "res = Inr row" "randomness_fields.truncate row = f"
      "i64_add (nd_overflow_checks N) (rc_nonce r) 1 = Some nonce" "epoch_added nonce r row (view N db) (view N db')" by blast
    have fields: "rn_epoch row = rc_nonce r" "rn_receiver_id row = rc_id r"
      "rn_alpha row = hex_encode (nd_codecs N) (sl_b32 (nd_secp N) alpha)"
      using new_randomness_fields [OF f] unfolding row(2) [symmetric] by simp_all
    have "proved_row N ctx row" unfolding proved_row_def using p v s f fields row(2) by metis
    then show ?thesis using row own alpha same fields by blast
  qed blast
qed blast

lemma updated_receivers:
  assumes "distinct (map rc_id rows)" "r \<in> set rows" "rc_id r' = rc_id r"
  shows "set (update_receivers r' rows) = insert r' {x \<in> set rows. rc_id x \<noteq> rc_id r}"
  using assms by (auto simp: update_receivers_def image_def)

lemma updated_columns:
  assumes "distinct (map rc_id rows)" "r \<in> set rows" "rc_id r' = rc_id r" "f r' = f r"
  shows "map f (update_receivers r' rows) = map f rows"
  using assms by (auto simp: update_receivers_def distinct_map inj_on_def)

lemma history_same_id: "rc_id r = rc_id r' \<Longrightarrow> history t r = history t r'"
  by (simp add: history_def)

lemma history_added:
  assumes "epoch_added nonce r row t t'" "rn_receiver_id row = rc_id r"
  shows "history t' x = history t x @ (if rc_id x = rc_id r then [row] else [])"
  using assms by (simp add: epoch_added_def history_def)

lemma chained_snoc: "chained (xs @ [x]) \<longleftrightarrow> chained xs \<and> (xs = [] \<or> rn_alpha x = rn_y (last xs))"
proof
  assume L: "chained (xs @ [x])"
  have "chained xs" unfolding chained_def
  proof (intro allI impI)
    fix i assume "Suc i < length xs"
    then show "rn_alpha (xs ! Suc i) = rn_y (xs ! i)" using L [unfolded chained_def, rule_format, of i] by (simp add: nth_append)
  qed
  moreover have "rn_alpha x = rn_y (last xs)" if "xs \<noteq> []"
    using L [unfolded chained_def, rule_format, of "length xs - 1"] that by (simp add: nth_append last_conv_nth)
  ultimately show "chained xs \<and> (xs = [] \<or> rn_alpha x = rn_y (last xs))" by blast
next
  assume R: "chained xs \<and> (xs = [] \<or> rn_alpha x = rn_y (last xs))"
  show "chained (xs @ [x])" unfolding chained_def
  proof (intro allI impI)
    fix i assume "Suc i < length (xs @ [x])"
    then consider "Suc i < length xs" | "Suc i = length xs" by fastforce
    then show "rn_alpha ((xs @ [x]) ! Suc i) = rn_y ((xs @ [x]) ! i)"
    proof cases
      case 1
      then show ?thesis using R by (simp add: chained_def nth_append)
    next
      case 2
      then have "xs \<noteq> []" "i = length xs - 1" by auto
      with 2 R show ?thesis by (auto simp: nth_append last_conv_nth)
    qed
  qed
qed

lemma epoch_added_inv:
  assumes inv: "epochs_inv N ctx t" and r: "r \<in> set (receivers t)" and added: "epoch_added nonce r row t t'"
    and nonce: "i64_add chk (rc_nonce r) 1 = Some nonce" and bound: "length (randomnesses t') < 2 ^ 63"
    and row: "rn_epoch row = rc_nonce r" "rn_receiver_id row = rc_id r" "proved_row N ctx row"
    and link: "history t r = [] \<or> rn_alpha row = rn_y (last (history t r))"
  shows "epochs_inv N ctx t'"
proof -
  let ?r = "r\<lparr>rc_nonce := nonce\<rparr>"
  have t': "receivers t' = update_receivers ?r (receivers t)" "randomnesses t' = randomnesses t @ [row]"
    using added by (simp_all add: epoch_added_def)
  have d: "distinct (map rc_id (receivers t))" "distinct (map (\<lambda>r. (rc_address r, rc_network r)) (receivers t))"
    using inv by (simp_all add: epochs_inv_def)
  have hist: "rc_nonce x = int (length (history t x))" "map rn_epoch (history t x) = map int [0..<length (history t x)]"
      "chained (history t x)" if "x \<in> set (receivers t)" for x
    using inv that by (simp_all add: epochs_inv_def)
  have cols: "map rc_id (receivers t') = map rc_id (receivers t)"
    "map (\<lambda>r. (rc_address r, rc_network r)) (receivers t') = map (\<lambda>r. (rc_address r, rc_network r)) (receivers t)"
    unfolding t'(1) by (intro updated_columns [OF d(1) r]; simp)+
  have "length (history t r) \<le> length (randomnesses t)" by (simp add: history_def)
  then have "in_i64 (rc_nonce r + 1)" using bound hist(1) [OF r] by (simp add: in_i64_def I64_MAX_def t')
  then have n: "nonce = rc_nonce r + 1" using nonce by (simp add: i64_add_def)
  have new: "rc_nonce x = int (length (history t' x)) \<and> map rn_epoch (history t' x) = map int [0..<length (history t' x)] \<and>
      chained (history t' x)" if "x \<in> set (receivers t')" for x
  proof (cases "x = ?r")
    case True
    then have "history t' x = history t r @ [row]" using history_added [OF added row(2), of x] history_same_id [of x r] by simp
    then show ?thesis using True hist [OF r] row(1) n link by (simp add: chained_snoc)
  next
    case False
    then have "x \<in> set (receivers t)" "rc_id x \<noteq> rc_id r"
      using that updated_receivers [OF d(1) r, of ?r] by (auto simp: t')
    then show ?thesis using hist [of x] history_added [OF added row(2), of x] by simp
  qed
  have ids: "rc_id ` set (receivers t') = rc_id ` set (receivers t)" using arg_cong [OF cols(1), of set] by simp
  have "\<forall>x \<in> set (randomnesses t'). rn_receiver_id x \<in> rc_id ` set (receivers t') \<and> proved_row N ctx x"
    using inv row r by (auto simp: t'(2) ids epochs_inv_def)
  then show ?thesis using new d cols by (simp add: epochs_inv_def)
qed

section \<open>Runs\<close>

text \<open>
  The statements that write, in any order: handlers that interleave between their statements
  still make such a sequence, the transaction being under the lock.
\<close>

inductive store_step ::
    "('db, 's::field, 'g::ab_group_add, 'f::field) node \<Rightarrow> ('s, 'g) node_context \<Rightarrow> 'db \<Rightarrow> 'db \<Rightarrow> bool"
  for N ctx where
  new_user: "keyring_insert (nd_sql N) f db = Inr (k, db') \<Longrightarrow> store_step N ctx db db'"
| new_receiver: "receiver_insert (nd_sql N) f db = Inr (r, db') \<Longrightarrow> rc_nonce f = 0 \<Longrightarrow> store_step N ctx db db'"
| new_epoch: "safe_insert N ctx E username network address db = Some (res, db') \<Longrightarrow> store_step N ctx db db'"

inductive reachable ::
    "('db, 's::field, 'g::ab_group_add, 'f::field) node \<Rightarrow> ('s, 'g) node_context \<Rightarrow> 'db \<Rightarrow> bool"
  for N ctx where
  started: "view N db = \<lparr>keyrings = [], receivers = [], randomnesses = []\<rparr> \<Longrightarrow>
    start_node N E secret testnet db = Some (ctx, db') \<Longrightarrow> reachable N ctx db'"
| stepped: "reachable N ctx db \<Longrightarrow> store_step N ctx db db' \<Longrightarrow> reachable N ctx db'"

inductive_cases store_stepE: "store_step N ctx db db'"

locale epoch_node =
  fixes N :: "('db, 's::field, 'g::ab_group_add, 'f::field) node" and ctx :: "('s, 'g) node_context"
  assumes store: "sql_ok (nd_sql N)" and codecs: "epoch_codecs_ok N"
begin

lemma inserted_keyring:
  assumes "keyring_insert (nd_sql N) f db = Inr (k, db')"
  shows "view N db' = view N db\<lparr>keyrings := keyrings (view N db) @ [k]\<rparr>"
  using assms store unfolding sql_ok_def inserts_ok_def keyring_insert_def by blast

lemma inserted_receiver:
  assumes "receiver_insert (nd_sql N) f db = Inr (r, db')"
  shows "view N db' = view N db\<lparr>receivers := receivers (view N db) @ [r]\<rparr>" "receiver_fields.truncate r = f"
    "rc_id r \<notin> rc_id ` set (receivers (view N db))" "receiver_allowed f (view N db)"
  using assms store unfolding sql_ok_def inserts_ok_def receiver_insert_def by blast+

lemma new_receiver_inv:
  assumes "receiver_insert (nd_sql N) f db = Inr (r, db')" "rc_nonce f = 0" "epochs_inv N ctx (view N db)"
  shows "epochs_inv N ctx (view N db')"
proof -
  note i = inserted_receiver [OF assms(1)]
  have f: "rc_nonce r = rc_nonce f" "rc_address r = rc_address f" "rc_network r = rc_network f"
    using i(2) by (auto simp: receiver_fields.truncate_def)
  have h: "history (view N db') x = history (view N db) x" for x by (simp add: history_def i(1))
  have "\<forall>x \<in> set (randomnesses (view N db)). rn_receiver_id x \<noteq> rc_id r"
    using assms(3) i(3) unfolding epochs_inv_def by metis
  then have "history (view N db') r = []" by (simp add: history_def i(1) filter_empty_conv)
  moreover have "(rc_address r, rc_network r) \<notin> (\<lambda>r. (rc_address r, rc_network r)) ` set (receivers (view N db))"
    using i(4) f by (auto simp: receiver_allowed_def)
  ultimately show ?thesis
    using assms(2,3) i(3) f unfolding epochs_inv_def h by (auto simp: i(1) h chained_def)
qed

lemma new_epoch_inv:
  assumes "safe_insert N ctx E username network address db = Some (res, db')" "epochs_inv N ctx (view N db)"
    and "length (randomnesses (view N db')) < 2 ^ 63"
  shows "epochs_inv N ctx (view N db')"
  using safe_insert_cases [OF store assms(1)]
proof (elim disjE conjE exE)
  fix r row nonce alpha txn
  assume r: "r \<in> set (receivers (view N db))" and txn: "view N txn = view N db" and read: "read_alpha N E txn r = Some (Inr alpha)"
    and row: "rn_epoch row = rc_nonce r" "rn_receiver_id row = rc_id r" "proved_row N ctx row"
    "rn_alpha row = hex_encode (nd_codecs N) (sl_b32 (nd_secp N) alpha)"
    and nonce: "i64_add (nd_overflow_checks N) (rc_nonce r) 1 = Some nonce" and added: "epoch_added nonce r row (view N db) (view N db')"
  have "epochs_inv N ctx (view N txn)" "r \<in> set (receivers (view N txn))" using assms(2) r txn by simp_all
  from read_alpha_history [OF store codecs this read] row(4)
  have "history (view N db) r = [] \<or> rn_alpha row = rn_y (last (history (view N db) r))" by (simp add: txn)
  with epoch_added_inv [OF assms(2) r added nonce assms(3) row(1-3)] show ?thesis by blast
qed (use assms(2) in simp)

lemma store_step_inv:
  assumes "store_step N ctx db db'" "length (randomnesses (view N db')) < 2 ^ 63" "epochs_inv N ctx (view N db)"
  shows "epochs_inv N ctx (view N db')"
  using assms(1)
proof cases
  case (new_user f k)
  have same: "receivers (view N db') = receivers (view N db)" "randomnesses (view N db') = randomnesses (view N db)"
    using inserted_keyring [OF new_user] by simp_all
  then have "history (view N db') x = history (view N db) x" for x by (simp add: history_def)
  then show ?thesis using assms(3) same by (simp add: epochs_inv_def)
next
  case (new_receiver f r)
  then show ?thesis using new_receiver_inv assms(3) by blast
next
  case (new_epoch E username network address res)
  then show ?thesis using new_epoch_inv assms(2,3) by blast
qed

lemma store_step_grows:
  assumes "store_step N ctx db db'"
  shows "length (randomnesses (view N db)) \<le> length (randomnesses (view N db'))"
  using assms
proof cases
  case (new_epoch E username network address res)
  then show ?thesis using safe_insert_cases [OF store new_epoch] by (auto simp: epoch_added_def)
qed (simp_all add: inserted_keyring inserted_receiver)

lemma reachable_inv:
  assumes "reachable N ctx db" "length (randomnesses (view N db)) < 2 ^ 63"
  shows "epochs_inv N ctx (view N db)"
  using assms
proof induction
  case (started db E secret testnet db')
  have "receivers (view N db') = []" "randomnesses (view N db') = []"
    using started by (auto simp: start_node_def inserted_keyring Let_def split: bind_splits option.splits)
  then show ?case by (simp add: epochs_inv_def)
next
  case (stepped db db')
  then show ?case using store_step_inv store_step_grows by (meson le_less_trans)
qed

end

end
