(* ===== verification/Node_Requests.thy ===== *)
theory Node_Requests
  imports Node_Correct
begin

text \<open>
  The requests of the oracle over its tables: who changes them, what the epoch queries
  answer, when a new epoch is produced; and an instance of the node over tables kept as
  lists, at which the properties are applied.
\<close>

section \<open>Authorised changes\<close>

text \<open>A token of a user: it is decoded at the time of the request and signed with the user's secret.\<close>

definition token_of ::
    "('db, 's, 'g, 'f) node \<Rightarrow> u64 \<Rightarrow> tables \<Rightarrow> string \<Rightarrow> string \<Rightarrow> bool" where
  "token_of N now t token user \<longleftrightarrow> (\<exists>p k key. decode_payload (nd_codecs N) now token = Inr p \<and> jwt_user p = user \<and>
     jwt_iat p \<le> now \<and> now \<le> jwt_exp p \<and> k \<in> set (keyrings t) \<and> kr_username k = user \<and>
     JWT_new (nd_codecs N) (kr_hmac_secret k) = Some key \<and> jwt_verify (nd_codecs N) key token = Some True)"

text \<open>What a user may do to the tables.\<close>

definition allowed_change :: "string \<Rightarrow> tables \<Rightarrow> tables \<Rightarrow> bool" where
  "allowed_change user t t' \<longleftrightarrow>
     (user = ORAND_KEYRING_NAME \<and> (\<exists>k. t' = t\<lparr>keyrings := keyrings t @ [k]\<rparr>)) \<or>
     (user = ORAND_KEYRING_NAME \<and> (\<exists>r. t' = t\<lparr>receivers := receivers t @ [r]\<rparr> \<and> rc_nonce r = 0)) \<or>
     (\<exists>r row nonce. r \<in> set (receivers t) \<and> (\<exists>k \<in> set (keyrings t). kr_username k = user \<and> kr_id k = rc_keyring_id r) \<and>
        (rc_address r = ZERO_ADDRESS \<longrightarrow> user = ORAND_KEYRING_NAME) \<and> epoch_added nonce r row t t')"

lemma authorize_token:
  assumes "sql_ok (nd_sql N)" "authorize N E header db = Some (Inr p)"
  shows "\<exists>token. header = Some (Some token) \<and> token_of N (en_now E) (view N db) token (jwt_user p)"
proof -
  obtain token where h: "header = Some (Some token)" and d: "decode_payload (nd_codecs N) (en_now E) token = Inr p"
    and rest: "(do { user_record \<leftarrow> expect_ok (keyring_find_by_name (nd_sql N) db (jwt_user p));
         case user_record of
           None \<Rightarrow> Some (Inl (Error ''INVALID_JWT'' ''Access denied, this method required authorization''))
         | Some k \<Rightarrow> do {
             jwt \<leftarrow> JWT_new (nd_codecs N) (kr_hmac_secret k);
             valid \<leftarrow> jwt_verify (nd_codecs N) jwt token;
             Some (if valid then Inr p else Inl (Error ''ACCESS_DENIED'' ''Access denied, incorrect key'')) } })
      = Some (Inr p)"
    using assms(2) by (auto simp: authorize_def bind_eq_Some_conv split: option.split_asm sum.split_asm if_split_asm)
  then obtain k key where k: "keyring_find_by_name (nd_sql N) db (jwt_user p) = Inr (Some k)"
    "JWT_new (nd_codecs N) (kr_hmac_secret k) = Some key" "jwt_verify (nd_codecs N) key token = Some True"
    by (auto simp: bind_eq_Some_conv split: option.split_asm if_split_asm)
  moreover have "k \<in> set (keyrings (view N db))" "kr_username k = jwt_user p" using keyring_found [OF assms(1) k(1)] by simp_all
  moreover have "jwt_iat p \<le> en_now E" "en_now E \<le> jwt_exp p"
    using d by (auto simp: decode_payload_def Let_def not_less split: if_splits option.splits)
  ultimately show ?thesis using h d unfolding token_of_def by blast
qed

context epoch_node
begin

lemma new_epoch_change:
  assumes "orand_new_epoch N ctx E user network address db = Some (resp, db')"
    and "address = ZERO_ADDRESS \<longrightarrow> user = ORAND_KEYRING_NAME"
  shows "store_step N ctx db db' \<and> (view N db' = view N db \<or> allowed_change user (view N db) (view N db'))"
proof -
  obtain res where s: "safe_insert N ctx E user network address db = Some (res, db')"
    using assms(1) by (auto simp: orand_new_epoch_def bind_eq_Some_conv)
  have "view N db' = view N db \<or> allowed_change user (view N db) (view N db')"
    using safe_insert_cases [OF store s]
  proof (elim disjE conjE exE)
    fix r row nonce
    assume r: "r \<in> set (receivers (view N db))" "rc_address r = address" "rc_keyring_id r \<in> keyring_ids (nd_sql N) db user"
      and added: "epoch_added nonce r row (view N db) (view N db')"
    have "\<exists>k \<in> set (keyrings (view N db)). kr_username k = user \<and> kr_id k = rc_keyring_id r"
      using r(3) by (auto simp: keyring_ids_def)
    then show ?thesis using r added assms(2) unfolding allowed_change_def by blast
  qed blast
  then show ?thesis using new_epoch [OF s] by blast
qed

lemma add_user_change:
  assumes "admin_add_user N E user username db = Some (resp, db')"
  shows "db' = db \<or> store_step N ctx db db' \<and> allowed_change user (view N db) (view N db')"
proof (cases "db' = db")
  case False
  then obtain f k where i: "keyring_insert (nd_sql N) f db = Inr (k, db')" and u: "user = ORAND_KEYRING_NAME"
    using assms by (auto simp: admin_add_user_def bind_eq_Some_conv Let_def split: if_split_asm option.split_asm)
  then show ?thesis using new_user [OF i] inserted_keyring [OF i] by (auto simp: allowed_change_def)
qed simp

lemma add_receiver_change:
  assumes "admin_add_receiver N E user username address network db = Some (resp, db')"
  shows "db' = db \<or> store_step N ctx db db' \<and> allowed_change user (view N db) (view N db')"
proof (cases "db' = db")
  case False
  then obtain f r where i: "receiver_insert (nd_sql N) f db = Inr (r, db')" "rc_nonce f = 0" and u: "user = ORAND_KEYRING_NAME"
    using assms by (auto simp: admin_add_receiver_def bind_eq_Some_conv split: if_split_asm option.split_asm sum.split_asm)
  have "rc_nonce r = 0" using inserted_receiver(2) [OF i(1)] i(2) by (auto simp: receiver_fields.truncate_def)
  then show ?thesis using new_receiver [OF i] inserted_receiver(1) [OF i(1)] u by (auto simp: allowed_change_def)
qed simp

lemma dispatch_change:
  assumes "dispatch N ctx E user m db = Some (resp, db')" "\<forall>u r. m \<noteq> AdminRemoveReceiver u r"
  shows "db' = db \<or> store_step N ctx db db' \<and> (view N db' = view N db \<or> allowed_change user (view N db) (view N db'))"
  using assms new_epoch_change add_user_change add_receiver_change
  by (cases m) (fastforce simp: dispatch_def Let_def split: if_split_asm)+

lemma orand_change:
  assumes "orand N ctx E rq db = Some (resp, db')"
  shows "db' = db \<or> store_step N ctx db db' \<and> (view N db' = view N db \<or>
    (\<exists>token user. rq_authorization rq = Some (Some token) \<and> token_of N (en_now E) (view N db) token user \<and>
       allowed_change user (view N db) (view N db')))"
proof (cases "db' = db")
  case False
  then obtain body q where q: "from_json_string (parse_rpc (nd_codecs N) body) = Some q"
    and run: "(case q of Inl e \<Rightarrow> Some (quick_err e, db)
          | Inr m \<Rightarrow> do {
              authorized_jwt \<leftarrow> authorize N E (rq_authorization rq) db;
              case authorized_jwt of Inl e \<Rightarrow> Some (quick_err e, db)
              | Inr p \<Rightarrow> dispatch N ctx E (jwt_user p) m db }) = Some (resp, db')"
    using assms by (auto simp: orand_def bind_eq_Some_conv split: if_split_asm)
  then obtain m where m: "from_json_string (parse_rpc (nd_codecs N) body) = Some (Inr m)" and qm: "q = Inr m"
    using False by (cases q) auto
  obtain a where a: "authorize N E (rq_authorization rq) db = Some a"
    and run2: "(case a of Inl e \<Rightarrow> Some (quick_err e, db) | Inr p \<Rightarrow> dispatch N ctx E (jwt_user p) m db) = Some (resp, db')"
    using run by (auto simp: qm bind_eq_Some_conv)
  obtain p where p: "authorize N E (rq_authorization rq) db = Some (Inr p)" and d: "dispatch N ctx E (jwt_user p) m db = Some (resp, db')"
    using a run2 False by (cases a) auto
  have "\<forall>u r. m \<noteq> AdminRemoveReceiver u r" using from_json_methods [OF m] by blast
  from dispatch_change [OF d this] authorize_token [OF store p] show ?thesis by blast
qed simp

end

section \<open>Queries and new epochs\<close>

lemma selects_history:
  assumes s: "selects rows EpochDesc cap xs" and e: "sorted (map rn_epoch rows)" "distinct (map rn_epoch rows)"
  shows "xs = (case cap of None \<Rightarrow> rev rows | Some n \<Rightarrow> take n (rev rows))"
proof -
  obtain ys where ys: "mset ys = mset rows" "sorted_wrt (\<lambda>x y. rn_epoch y \<le> rn_epoch x) ys"
    and xs: "xs = (case cap of None \<Rightarrow> ys | Some n \<Rightarrow> take n ys)"
    using s by (auto simp: selects_def)
  let ?f = "\<lambda>x. - rn_epoch x"
  have inj: "inj_on ?f (set rows)" using e(2) by (auto simp: distinct_map inj_on_def)
  have "sort_key ?f rows = ys"
    using ys inj by (intro sort_key_inj_key_eq) (simp_all add: sorted_map)
  moreover have "sort_key ?f rows = rev rows"
    using inj e(1) by (intro sort_key_inj_key_eq) (simp_all add: sorted_map sorted_wrt_rev)
  ultimately have ys: "ys = rev rows" by simp
  show ?thesis using xs unfolding ys .
qed

text \<open>
  Whether the epoch with the seed \<open>alpha\<close> can be published: the proof of this seed exists and
  the emulated contract accepts it, the address of the receiver is one, and none of the three
  unique columns repeats.
\<close>

definition publishable ::
    "('db, 's::field, 'g::ab_group_add, 'f::field) node \<Rightarrow> ('s, 'g) node_context \<Rightarrow> 's env \<Rightarrow> receiver \<Rightarrow> 's \<Rightarrow> tables \<Rightarrow> bool" where
  "publishable N ctx E r alpha t \<longleftrightarrow> (\<exists>p signature.
     vrf_prove_contract (nd_secp N) (en_draws E) (nc_ecvrf ctx) alpha = Some (Inr p) \<and> evm_verify N p = Some True \<and>
     decode_to_slice (nd_codecs N) 20 (strip_0x (rc_address r)) \<noteq> None \<and>
     operator_signature N ctx r (rc_address r) p = Some signature \<and>
     (\<forall>x \<in> set (randomnesses t). rn_alpha x \<noteq> hex_encode (nd_codecs N) (sl_b32 (nd_secp N) alpha) \<and>
        rn_y x \<noteq> hex_encode (nd_codecs N) (sl_b32 (nd_secp N) (cp_y p)) \<and>
        rn_signature_proof x \<noteq> hex_encode (nd_codecs N) signature))"

text \<open>The seed of the next epoch: drawn for the first, else the latest output.\<close>

definition next_seed ::
    "('db, 's, 'g, 'f) node \<Rightarrow> 's env \<Rightarrow> randomness list \<Rightarrow> 's \<Rightarrow> bool" where
  "next_seed N E epochs alpha \<longleftrightarrow>
     (if epochs = [] then alpha = sl_set_b32 (nd_secp N) (en_alpha E)
      else hex_encode (nd_codecs N) (sl_b32 (nd_secp N) alpha) = rn_y (last epochs))"

text \<open>Lengths of what the libraries return and the buffers the node fills.\<close>

definition lengths_ok :: "('db, 's, 'g, 'f) node \<Rightarrow> 's env \<Rightarrow> bool" where
  "lengths_ok N E \<longleftrightarrow> length (en_alpha E) = 32 \<and> (\<forall>i. length (en_draws E i) = 32) \<and>
     (\<forall>bs. length (sl_keccak (nd_secp N) bs) = 32) \<and> (\<forall>bs. length (hex_encode (nd_codecs N) bs) = 2 * length bs)"

text \<open>A database that answers.\<close>

locale live_node = epoch_node +
  assumes up: "sql_up (nd_sql N)"
begin

lemma answers:
  "\<exists>xs. sq_select_receiver (nd_sql N) db P = Inr xs" "\<exists>ys. sq_select_randomness (nd_sql N) db P' ord cap = Inr ys"
  "\<exists>w. sq_begin (nd_sql N) db = Inr w" "\<exists>db'. sq_commit (nd_sql N) db w' aborted = Inr db'"
  "randomness_allowed f (view N db) \<Longrightarrow> \<exists>r. sq_insert_randomness (nd_sql N) f db = Inr r"
  "rc_id row \<in> rc_id ` set (receivers (view N db)) \<Longrightarrow> \<exists>r. sq_update_receiver (nd_sql N) row db = Inr r"
  using up unfolding sql_up_def by blast+

lemma found_one:
  "\<exists>x. one (sq_select_receiver (nd_sql N) db P) = Inr x" "\<exists>y. one (sq_select_randomness (nd_sql N) db P' ord cap) = Inr y"
  using answers(1,2) unfolding one_Inr by blast+

lemma find_one_exact:
  assumes "epochs_inv N ctx (view N db)" "r \<in> set (receivers (view N db))"
  shows "receiver_find_one (nd_sql N) db (rc_network r) (rc_address r) = Inr (Some r)"
proof -
  let ?P = "\<lambda>x. rc_address x = rc_address r \<and> rc_network x = rc_network r"
  obtain x where x: "one (sq_select_receiver (nd_sql N) db ?P) = Inr x" using found_one(1) by blast
  have "inj_on (\<lambda>r. (rc_address r, rc_network r)) (set (receivers (view N db)))"
    using assms(1) by (simp add: epochs_inv_def distinct_map)
  with receiver_found [OF store x] assms(2) have "x = Some r"
    by (auto simp: inj_on_def split: option.splits)
  with x show ?thesis by (simp add: receiver_find_one_def)
qed

lemma get_epoch_aux:
  assumes inv: "epochs_inv N ctx (view N db)" and r: "r \<in> set (receivers (view N db))"
  shows "orand_get_epoch (nd_sql N) (rc_network r) (rc_address r) epoch db =
    Some (res_json (JRandomnesses (map randomness_json
      (take 20 (rev (filter (\<lambda>x. epoch = I64_MAX \<or> rn_epoch x \<le> epoch) (history (view N db) r)))))))"
proof -
  let ?h = "history (view N db) r" and ?P = "\<lambda>x. epoch = I64_MAX \<or> rn_epoch x \<le> epoch"
  have e: "map rn_epoch ?h = map int [0..<length ?h]" using inv r by (simp add: epochs_inv_def)
  have "sorted (map int [0..<length ?h])" "distinct (map int [0..<length ?h])"
    by (simp_all add: sorted_map distinct_map)
  then have h: "sorted (map rn_epoch ?h)" "distinct (map rn_epoch ?h)" by (simp_all only: e)
  then have f: "sorted (map rn_epoch (filter Q ?h))" "distinct (map rn_epoch (filter Q ?h))" for Q
    by (simp_all add: sorted_map sorted_wrt_filter distinct_map inj_on_def)
  have sel: "sq_select_randomness (nd_sql N) db (\<lambda>x. rn_receiver_id x = rc_id r \<and> Q x) EpochDesc (Some 20) =
      Inr (take 20 (rev (filter Q ?h)))" for Q
  proof -
    let ?C = "\<lambda>x. rn_receiver_id x = rc_id r \<and> Q x"
    obtain xs where xs: "sq_select_randomness (nd_sql N) db ?C EpochDesc (Some 20) = Inr xs" using answers(2) by blast
    then have "selects (filter ?C (randomnesses (view N db))) EpochDesc (Some 20) xs"
      using store unfolding sql_ok_def selects_ok_def by blast
    moreover have "filter ?C (randomnesses (view N db)) = filter Q ?h" by (simp add: history_def conj_commute)
    ultimately show ?thesis using xs selects_history [OF _ f, of Q "Some 20" xs] by simp
  qed
  show ?thesis
    using sel [of "\<lambda>_. True"] sel [of "\<lambda>x. rn_epoch x \<le> epoch"] find_one_exact [OF inv r]
    by (simp add: orand_get_epoch_def find_recent_epoch_def find_closure_epoch_def)
qed

lemma signing_ok:
  assumes "\<forall>bs. length (sl_keccak (nd_secp N) bs) \<le> 32"
  shows "\<exists>s. sign_ethereum_message N sk message = Some s"
proof -
  let ?buf = "ETHEREUM_MESSAGE_PREFIX @ decimal (length message) @ message"
  obtain d where "scalar_keccak256 (nd_secp N) ?buf = Some d"
    using assms [rule_format, of ?buf] by (simp add: scalar_keccak256_def from_bytes_scalar_def)
  then show ?thesis by (simp add: sign_ethereum_message_def split_def Let_def)
qed

lemma read_alpha_ok:
  assumes inv: "epochs_inv N ctx (view N db)" and len: "length (en_alpha E) \<le> 32"
  shows "\<exists>alpha. read_alpha N E db r = Some (Inr alpha)"
proof -
  obtain x where x: "one (sq_select_randomness (nd_sql N) db (\<lambda>x. rn_receiver_id x = rc_id r) EpochDesc (Some 1)) = Inr x"
    using found_one(2) by blast
  show ?thesis
  proof (cases x)
    case None
    then show ?thesis using x len by (simp add: read_alpha_def randomize_def from_bytes_scalar_def)
  next
    case (Some latest)
    then have "proved_row N ctx latest" using latest_found [OF store x] inv by (simp add: epochs_inv_def)
    from decode_y [OF codecs this] x Some show ?thesis by (auto simp: read_alpha_def)
  qed
qed

lemma commit_ok:
  assumes "r \<in> set (receivers (view N db))" "randomness_allowed f (view N db)" "in_i64 (rc_nonce r + 1)"
    and start: "sq_begin (nd_sql N) db = Inr txn"
  shows "\<exists>row db'. commit_epoch N r f db txn = Some (Inr row, db')"
proof -
  let ?r = "r\<lparr>rc_nonce := rc_nonce r + 1\<rparr>"
  have same: "view N txn = view N db" using start store unfolding sql_ok_def transactions_ok_def by blast
  have "rc_id ?r \<in> rc_id ` set (receivers (view N txn))" using assms(1) same by simp
  from answers(6) [OF this] obtain r' w where w: "sq_update_receiver (nd_sql N) ?r txn = Inr (r', w)"
    by (metis surj_pair)
  then have vw: "view N w = view N db\<lparr>receivers := update_receivers ?r (receivers (view N db))\<rparr>"
    using store same unfolding sql_ok_def transactions_ok_def by metis
  have "map rc_id (update_receivers ?r (receivers (view N db))) = map rc_id (receivers (view N db))"
    by (simp add: update_receivers_def)
  then have "rc_id ` set (update_receivers ?r (receivers (view N db))) = rc_id ` set (receivers (view N db))"
    by (metis list.set_map)
  then have "randomness_allowed f (view N w)" using assms(2) by (simp add: randomness_allowed_def vw)
  from answers(5) [OF this] obtain row w' where i: "sq_insert_randomness (nd_sql N) f w = Inr (row, w')"
    by (metis surj_pair)
  obtain db' where "sq_commit (nd_sql N) db w' False = Inr db'" using answers(4) by blast
  then show ?thesis using w i assms(3) by (simp add: commit_epoch_def i64_add_def try_db_def)
qed

lemma no_repeat:
  assumes "commit_epoch N r f db txn = Some (Inr row, db')" and start: "sq_begin (nd_sql N) db = Inr txn"
    and "x \<in> set (randomnesses (view N db))"
  shows "rn_alpha x \<noteq> rn_alpha f \<and> rn_y x \<noteq> rn_y f \<and> rn_signature_proof x \<noteq> rn_signature_proof f"
proof -
  obtain nonce r' w where w: "sq_update_receiver (nd_sql N) (r\<lparr>rc_nonce := nonce\<rparr>) txn = Inr (r', w)"
    and "map_sum id fst (sq_insert_randomness (nd_sql N) f w) = Inr row"
    using assms(1) by (auto simp: commit_epoch_def try_db_Some Let_def bind_eq_Some_conv)
  then obtain row' w' where i: "sq_insert_randomness (nd_sql N) f w = Inr (row', w')"
    by (cases "sq_insert_randomness (nd_sql N) f w") auto
  have "randomnesses (view N w) = randomnesses (view N db)"
    using store start w unfolding sql_ok_def transactions_ok_def by force
  moreover have "randomness_allowed f (view N w)" using store i unfolding sql_ok_def inserts_ok_def by blast
  ultimately show ?thesis using assms(3) unfolding randomness_allowed_def by metis
qed

lemma first_seed:
  assumes "read_alpha N E db r = Some (Inr alpha)" "history (view N db) r = []" "length (en_alpha E) = 32"
  shows "alpha = sl_set_b32 (nd_secp N) (en_alpha E)"
proof -
  obtain x where x: "one (sq_select_randomness (nd_sql N) db (\<lambda>x. rn_receiver_id x = rc_id r) EpochDesc (Some 1)) = Inr x"
    using found_one(2) by blast
  have "x = None" using latest_found [OF store x] assms(2) by (auto simp: history_def filter_empty_conv split: option.splits)
  then show ?thesis using assms(1,3) x by (simp add: read_alpha_def randomize_def from_bytes_scalar_def)
qed

text \<open>The transaction of an owner, from the seed on.\<close>

lemma owner_transaction:
  assumes inv: "epochs_inv N ctx (view N db)" and r: "r \<in> set (receivers (view N db))"
    and owner: "rc_keyring_id r \<in> keyring_ids (nd_sql N) db user" and txn: "sq_begin (nd_sql N) db = Inr txn"
    and alpha: "read_alpha N E txn r = Some (Inr alpha)"
  shows "safe_insert N ctx E user (rc_network r) (rc_address r) db = do {
     contract_proof \<leftarrow> vrf_prove_contract (nd_secp N) (en_draws E) (nc_ecvrf ctx) alpha;
     case contract_proof of Inl _ \<Rightarrow> Some (Inl (ExecError ''Unable to prove contract''), db)
     | Inr p \<Rightarrow> do {
         verified \<leftarrow> evm_verify N p;
         if \<not> verified then Some (Inl (ExecError ''EVM unable to verify''), db)
         else do {
           signature \<leftarrow> operator_signature N ctx r (rc_address r) p;
           new_record \<leftarrow> new_randomness N ctx r alpha p signature;
           commit_epoch N r new_record db txn } } }"
proof -
  have same: "view N txn = view N db" using txn store unfolding sql_ok_def transactions_ok_def by blast
  let ?P = "\<lambda>x. rc_address x = rc_address r \<and> rc_network x = rc_network r \<and> rc_keyring_id x \<in> keyring_ids (nd_sql N) txn user"
  have own: "rc_keyring_id r \<in> keyring_ids (nd_sql N) txn user" using owner by (simp add: keyring_ids_def same)
  obtain x where x: "one (sq_select_receiver (nd_sql N) txn ?P) = Inr x" using found_one(1) by blast
  have "inj_on (\<lambda>r. (rc_address r, rc_network r)) (set (receivers (view N db)))"
    using inv by (simp add: epochs_inv_def distinct_map)
  with receiver_found [OF store x] r own have "x = Some r" by (auto simp: same inj_on_def split: option.splits)
  with x have found: "find_own_receiver (nd_sql N) txn user (rc_network r) (rc_address r) = Inr r"
    by (simp add: find_own_receiver_def)
  show ?thesis by (simp add: safe_insert_def try_db_def txn found alpha)
qed

lemma new_epoch_aux:
  assumes inv: "epochs_inv N ctx (view N db)" and r: "r \<in> set (receivers (view N db))"
    and owner: "rc_keyring_id r \<in> keyring_ids (nd_sql N) db user"
    and key: "nc_key_id ctx \<in> kr_id ` set (keyrings (view N db))" and len: "lengths_ok N E"
    and room: "length (randomnesses (view N db)) < 2 ^ 63 - 1"
  shows "\<exists>alpha. next_seed N E (history (view N db) r) alpha \<and>
    (if publishable N ctx E r alpha (view N db)
     then \<exists>row db'. safe_insert N ctx E user (rc_network r) (rc_address r) db = Some (Inr row, db') \<and>
       rn_epoch row = rc_nonce r \<and> rn_alpha row = hex_encode (nd_codecs N) (sl_b32 (nd_secp N) alpha) \<and>
       epoch_added (rc_nonce r + 1) r row (view N db) (view N db')
     else \<forall>res db'. safe_insert N ctx E user (rc_network r) (rc_address r) db = Some (res, db') \<longrightarrow>
       isl res \<and> view N db' = view N db)"
proof -
  let ?run = "safe_insert N ctx E user (rc_network r) (rc_address r) db"
  obtain txn where txn: "sq_begin (nd_sql N) db = Inr txn" using answers(3) by blast
  then have same: "view N txn = view N db" using store unfolding sql_ok_def transactions_ok_def by blast
  obtain alpha where alpha: "read_alpha N E txn r = Some (Inr alpha)"
    using read_alpha_ok [of txn E r] inv len by (auto simp: same lengths_ok_def)
  note run = owner_transaction [OF inv r owner txn alpha]
  have seed: "next_seed N E (history (view N db) r) alpha"
    using first_seed [OF alpha] read_alpha_history [OF store codecs _ _ alpha] inv r len
    by (auto simp: same next_seed_def lengths_ok_def)
  have length_ok: "40 \<le> length (hex_encode (nd_codecs N) (sl_b32 (nd_secp N) w))" for w
    using len codecs by (simp add: lengths_ok_def epoch_codecs_ok_def)
  have columns: "\<exists>f. new_randomness N ctx r alpha p signature = Some f \<and> rn_alpha f = hex_encode (nd_codecs N) (sl_b32 (nd_secp N) alpha) \<and>
      rn_y f = hex_encode (nd_codecs N) (sl_b32 (nd_secp N) (cp_y p)) \<and> rn_signature_proof f = hex_encode (nd_codecs N) signature \<and>
      rn_keyring_id f = nc_key_id ctx \<and> rn_receiver_id f = rc_id r \<and> rn_epoch f = rc_nonce r" for p signature
    using length_ok by (simp add: new_randomness_def Let_def)
  show ?thesis
  proof (cases "publishable N ctx E r alpha (view N db)")
    case True
    then obtain p signature where p: "vrf_prove_contract (nd_secp N) (en_draws E) (nc_ecvrf ctx) alpha = Some (Inr p)"
      "evm_verify N p = Some True" and s: "operator_signature N ctx r (rc_address r) p = Some signature"
      and fresh: "\<forall>x \<in> set (randomnesses (view N db)). rn_alpha x \<noteq> hex_encode (nd_codecs N) (sl_b32 (nd_secp N) alpha) \<and>
        rn_y x \<noteq> hex_encode (nd_codecs N) (sl_b32 (nd_secp N) (cp_y p)) \<and> rn_signature_proof x \<noteq> hex_encode (nd_codecs N) signature"
      unfolding publishable_def by blast
    obtain f where f: "new_randomness N ctx r alpha p signature = Some f" "rn_alpha f = hex_encode (nd_codecs N) (sl_b32 (nd_secp N) alpha)"
      "rn_epoch f = rc_nonce r" and allowed: "randomness_allowed f (view N db)"
      using columns [of p signature] fresh key r by (auto simp: randomness_allowed_def)
    have "length (history (view N db) r) \<le> length (randomnesses (view N db))" by (simp add: history_def)
    then have range: "in_i64 (rc_nonce r + 1)" using room inv r by (simp add: epochs_inv_def in_i64_def I64_MAX_def)
    from commit_ok [OF r allowed range txn] obtain row db' where c: "commit_epoch N r f db txn = Some (Inr row, db')" by blast
    then have "?run = Some (Inr row, db')" by (simp add: run p s f)
    moreover have "rn_epoch row = rc_nonce r \<and> rn_alpha row = rn_alpha f \<and> epoch_added (rc_nonce r + 1) r row (view N db) (view N db')"
      using commit_epoch_cases [OF store txn c] f(3) range by (auto simp: i64_add_def)
    ultimately show ?thesis using seed True f(2) by auto
  next
    case False
    have "isl res \<and> view N db' = view N db" if res: "?run = Some (res, db')" for res db'
    proof (cases res)
      case (Inl e)
      then show ?thesis using safe_insert_cases [OF store res] by auto
    next
      case (Inr row)
      obtain p where proof_ok: "vrf_prove_contract (nd_secp N) (en_draws E) (nc_ecvrf ctx) alpha = Some (Inr p)"
        using res Inr unfolding run
        by (cases "vrf_prove_contract (nd_secp N) (en_draws E) (nc_ecvrf ctx) alpha") (auto split: sum.split_asm)
      then obtain signature f where p: "vrf_prove_contract (nd_secp N) (en_draws E) (nc_ecvrf ctx) alpha = Some (Inr p)"
        "evm_verify N p = Some True" "operator_signature N ctx r (rc_address r) p = Some signature"
        and f: "new_randomness N ctx r alpha p signature = Some f" "commit_epoch N r f db txn = Some (Inr row, db')"
        using res Inr unfolding run by (auto simp: bind_eq_Some_conv split: if_split_asm)
      have "decode_to_slice (nd_codecs N) 20 (strip_0x (rc_address r)) \<noteq> None"
        using p(3) by (auto simp: operator_signature_def bind_eq_Some_conv)
      then have "publishable N ctx E r alpha (view N db)"
        using p no_repeat [OF f(2) txn] columns [of p signature] f(1) unfolding publishable_def by auto
      with False show ?thesis by blast
    qed
    then show ?thesis using seed False by auto
  qed
qed

end

section \<open>The key of the node\<close>

lemma step_keyrings:
  assumes "sql_ok (nd_sql N)" "store_step N ctx db db'"
  shows "set (keyrings (view N db)) \<subseteq> set (keyrings (view N db'))"
  using assms(2)
proof cases
  case (new_user f k)
  then have "view N db' = view N db\<lparr>keyrings := keyrings (view N db) @ [k]\<rparr>"
    using assms(1) unfolding sql_ok_def inserts_ok_def keyring_insert_def by blast
  then show ?thesis by auto
next
  case (new_receiver f r)
  then have "view N db' = view N db\<lparr>receivers := receivers (view N db) @ [r]\<rparr>"
    using assms(1) unfolding sql_ok_def inserts_ok_def receiver_insert_def by blast
  then show ?thesis by simp
next
  case (new_epoch E username network address res)
  then show ?thesis using safe_insert_cases [OF assms(1) new_epoch] by (auto simp: epoch_added_def)
qed

lemma key_listed:
  assumes "sql_ok (nd_sql N)" "reachable N ctx db"
  shows "nc_key_id ctx \<in> kr_id ` set (keyrings (view N db))"
  using assms(2)
proof induction
  case (started db E secret testnet db')
  obtain found where f: "keyring_find_by_name (nd_sql N) db ORAND_KEYRING_NAME = Inr found"
    using started(2) by (auto simp: start_node_def Let_def bind_eq_Some_conv)
  show ?case
  proof (cases found)
    case None
    then obtain fields k where "keyring_insert (nd_sql N) fields db = Inr (k, db')" and key: "nc_key_id ctx = kr_id k"
      using started(2) f by (auto simp: start_node_def Let_def bind_eq_Some_conv NodeContext_new_def)
    then have "view N db' = view N db\<lparr>keyrings := keyrings (view N db) @ [k]\<rparr>"
      using assms(1) unfolding sql_ok_def inserts_ok_def keyring_insert_def by blast
    then show ?thesis using key by simp
  next
    case (Some k)
    then have "k \<in> set (keyrings (view N db))" using keyring_found [OF assms(1) f] by simp
    moreover have "db' = db" "nc_key_id ctx = kr_id k"
      using started(2) f Some by (auto simp: start_node_def Let_def bind_eq_Some_conv NodeContext_new_def)
    ultimately show ?thesis by simp
  qed
next
  case (stepped db db')
  then show ?case using step_keyrings [OF assms(1)] by blast
qed

section \<open>The operator's message\<close>

lemma append_inj_lengths: "length xs = length ys \<Longrightarrow> xs @ zs = ys @ ws \<longleftrightarrow> xs = ys \<and> zs = ws"
  by auto

lemma i64_word_inj:
  assumes "in_i64 m" "in_i64 n" "(word_of_int m :: u64) = word_of_int n"
  shows "m = n"
proof -
  have "signed_take_bit 63 m = signed_take_bit 63 n"
    using arg_cong [OF assms(3), of sint] by (simp add: sint_sbintrunc')
  moreover have "signed_take_bit 63 k = k" if "in_i64 k" for k :: int
    using that by (intro signed_take_bit_int_eq_self) (auto simp: in_i64_def I64_MAX_def)
  ultimately show ?thesis using assms(1,2) by simp
qed

end
