(* ===== verification/Node_Properties.thy ===== *)
theory Node_Properties
  imports Node_Requests
begin

text \<open>
  The properties of the oracle and a node to apply them to: its tables are lists, its curve
  the model of \<open>Ecvrf_Correct\<close>.
\<close>

section \<open>Tables as lists\<close>

definition fresh_id :: "int list \<Rightarrow> int" where
  "fresh_id ids = foldr max ids 0 + 1"

lemma foldr_max_ge: "x \<in> set ids \<Longrightarrow> x \<le> foldr max ids (0 :: int)"
  by (induction ids) auto

lemma fresh_row: "fresh_id (map f xs) = f x \<Longrightarrow> x \<notin> set xs"
  using foldr_max_ge [of "f x" "map f xs"] by (auto simp: fresh_id_def)

definition list_insert_keyring :: "keyring_fields \<Rightarrow> tables \<Rightarrow> db_err + keyring \<times> tables" where
  "list_insert_keyring f t =
     (if keyring_allowed f t then
        let row = keyring_fields.extend f (keyring.fields (fresh_id (map kr_id (keyrings t))) [])
        in Inr (row, t\<lparr>keyrings := keyrings t @ [row]\<rparr>)
      else Inl (OtherError ''constraint''))"

definition list_insert_receiver :: "receiver_fields \<Rightarrow> tables \<Rightarrow> db_err + receiver \<times> tables" where
  "list_insert_receiver f t =
     (if receiver_allowed f t then
        let row = receiver_fields.extend f (receiver.fields (fresh_id (map rc_id (receivers t))) [])
        in Inr (row, t\<lparr>receivers := receivers t @ [row]\<rparr>)
      else Inl (OtherError ''constraint''))"

definition list_insert_randomness :: "randomness_fields \<Rightarrow> tables \<Rightarrow> db_err + randomness \<times> tables" where
  "list_insert_randomness f t =
     (if randomness_allowed f t then
        let row = randomness_fields.extend f (randomness.fields (fresh_id (map rn_id (randomnesses t))) [])
        in Inr (row, t\<lparr>randomnesses := randomnesses t @ [row]\<rparr>)
      else Inl (OtherError ''constraint''))"

definition list_select :: "randomness list \<Rightarrow> row_order \<Rightarrow> nat option \<Rightarrow> randomness list" where
  "list_select xs ord cap =
     (let ys = (if ord = EpochDesc then sort_key (\<lambda>x. - rn_epoch x) xs else xs) in
      case cap of None \<Rightarrow> ys | Some n \<Rightarrow> take n ys)"

definition list_sql :: "tables sql" where
  "list_sql = \<lparr>sq_tables = \<lambda>t. t,
     sq_select_keyring = \<lambda>t P. Inr (filter P (keyrings t)), sq_select_receiver = \<lambda>t P. Inr (filter P (receivers t)),
     sq_select_randomness = \<lambda>t P ord cap. Inr (list_select (filter P (randomnesses t)) ord cap),
     sq_insert_keyring = list_insert_keyring, sq_insert_receiver = list_insert_receiver,
     sq_insert_randomness = list_insert_randomness,
     sq_update_receiver = \<lambda>row t. Inr (row, t\<lparr>receivers := update_receivers row (receivers t)\<rparr>),
     sq_update_randomness = \<lambda>row t. Inr (row, t\<lparr>randomnesses := update_randomnesses row (randomnesses t)\<rparr>),
     sq_delete_receivers = \<lambda>P t. Inr (length (filter P (receivers t)), t\<lparr>receivers := filter (\<lambda>r. \<not> P r) (receivers t)\<rparr>),
     sq_begin = Inr, sq_commit = \<lambda>t w aborted. Inr (if aborted then t else w)\<rparr>"

lemma list_select_ok: "selects xs ord cap (list_select xs ord cap)"
proof -
  have "sorted_wrt (\<lambda>x y. rn_epoch y \<le> rn_epoch x) (sort_key (\<lambda>x. - rn_epoch x) xs)"
    using sorted_sort_key [of "\<lambda>x. - rn_epoch x" xs] by (simp add: sorted_map)
  then show ?thesis unfolding selects_def list_select_def Let_def
    by (intro exI [of _ "if ord = EpochDesc then sort_key (\<lambda>x. - rn_epoch x) xs else xs"]) simp
qed

lemma list_inserts_ok: "inserts_ok list_sql"
  by (auto simp: inserts_ok_def list_sql_def list_insert_keyring_def list_insert_receiver_def list_insert_randomness_def
      keyring_fields.defs receiver_fields.defs randomness_fields.defs keyring.defs receiver.defs randomness.defs
      Let_def split: if_splits dest: fresh_row)

lemma list_sql_ok: "sql_ok list_sql"
  unfolding sql_ok_def
proof (intro conjI list_inserts_ok)
  show "selects_ok list_sql" using list_select_ok by (simp add: selects_ok_def list_sql_def)
  show "transactions_ok list_sql" by (simp add: transactions_ok_def list_sql_def)
qed

lemma list_sql_up: "sql_up list_sql"
  by (simp add: sql_up_def list_sql_def list_insert_keyring_def list_insert_receiver_def list_insert_randomness_def Let_def)

section \<open>A node\<close>

fun every_other :: "'a list \<Rightarrow> 'a list" where
  "every_other (x # y # xs) = x # every_other xs"
| "every_other xs = []"

definition doubled :: "u8 list \<Rightarrow> string" where
  "doubled bs = concat (map (\<lambda>b. [char_of (unat b), char_of (unat b)]) bs)"

definition undoubled :: "string \<Rightarrow> u8 list option" where
  "undoubled s = (if even (length s) then Some (map (\<lambda>c. word_of_nat (byte_of c)) (every_other s)) else None)"

lemma undoubled: "undoubled (doubled bs) = Some bs" "length (doubled bs) = 2 * length bs"
proof -
  show len: "length (doubled bs) = 2 * length bs" for bs by (induction bs) (simp_all add: doubled_def)
  have "map (\<lambda>c. word_of_nat (byte_of c)) (every_other (doubled bs)) = bs"
  proof (induction bs)
    case (Cons b bs)
    have "unat b < 256" using unat_less_2p [of b] by simp
    then show ?case using Cons by (simp add: doubled_def)
  qed (simp add: doubled_def)
  then show "undoubled (doubled bs) = Some bs" by (simp add: undoubled_def len)
qed

definition demo_address :: string where
  "demo_address = ''0x1111111111111111111111111111111111111111''"

text \<open>Every body asks for a private epoch of the address, every token is \<open>orand\<close>'s.\<close>

definition demo_codecs :: codecs where
  "demo_codecs = \<lparr>parse_rpc = \<lambda>_. Some \<lparr>jr_method = ''orand_newPrivateEpoch'', jr_params = [''1'', demo_address]\<rparr>,
     parse_jwt = \<lambda>_. Some \<lparr>jwt_user = ''orand'', jwt_nonce = 0, jwt_iat = 0, jwt_exp = 100\<rparr>,
     base64_decode = \<lambda>_. Some [], hex_encode = doubled, hex_decode = undoubled, hmac_ok = \<lambda>_ _ _. True\<rparr>"

definition demo_node :: "(tables, real, real, real) node" where
  "demo_node = \<lparr>nd_sql = list_sql, nd_codecs = demo_codecs, nd_secp = cusp, nd_overflow_checks = False,
     nd_sign = \<lambda>_ _. ([7], 0), nd_evm = \<lambda>_. Some (Some (replicate 32 0)), nd_parse_secret = \<lambda>_. Some 2,
     nd_serialize = \<lambda>_. \<lparr>rk_public_key = [1], rk_secret_key = replicate 32 2\<rparr>\<rparr>"

definition demo_env :: "real env" where
  "demo_env = \<lparr>en_now = 10, en_uuid = ''demo'', en_hmac = [], en_new_key = 2, en_alpha = replicate 32 0,
     en_draws = \<lambda>_. replicate 32 0\<rparr>"

definition demo_ctx :: "(real, real) node_context" where
  "demo_ctx = NodeContext_new cusp 1 (2, 2) False"

interpretation demo: live_node demo_node demo_ctx
proof
  show "sql_ok (nd_sql demo_node)" "sql_up (nd_sql demo_node)" by (simp_all add: demo_node_def list_sql_ok list_sql_up)
  show "epoch_codecs_ok demo_node"
    by (simp add: epoch_codecs_ok_def demo_node_def demo_codecs_def undoubled) (simp add: cusp_def)
qed

lemma cusp_proves:
  "\<exists>p. vrf_prove_contract cusp (\<lambda>_. replicate 32 0) (ECVRF_new cusp 2) alpha = Some (Inr p) \<and> cp_y p = 1"
proof -
  let ?d = "\<lambda>_ :: nat. replicate 32 0 :: u8 list"
  have "\<exists>j \<le> 101. drawn cusp ?d j \<noteq> 0" by (intro exI [of _ 0]) (simp add: drawn_def cusp_def)
  then obtain k where k: "random_scalar cusp ?d = Some (Inr k)" using random_scalar_result [OF cusp_ok, of ?d] by auto
  have L: "sl_mul cusp a b = a * b" "sl_base cusp = 1" "sl_valid cusp a \<longleftrightarrow> a \<noteq> 0" for a b by (simp_all add: cusp_def)
  show ?thesis
    by (simp add: vrf_prove_contract_def ECVRF_new_def L k cusp_hash_to_curve hash_points_prefix_def affine_keccak256_def
        calculate_witness_address_def keccak_scalar [OF cusp_ok] Let_def split: prod.splits)
      (simp add: from_bytes_scalar_def cusp_def)
qed

definition demo_keyring :: keyring where
  "demo_keyring = \<lparr>kr_username = ''orand'', kr_hmac_secret = [], kr_public_key = doubled [1], kr_secret_key = doubled (replicate 32 2),
     kr_id = 1, kr_created_date = []\<rparr>"

definition demo_receiver :: receiver where
  "demo_receiver = \<lparr>rc_keyring_id = 1, rc_name = ''demo'', rc_address = demo_address, rc_network = 1, rc_nonce = 0,
     rc_id = 1, rc_created_date = []\<rparr>"

definition demo_tables :: tables where
  "demo_tables = \<lparr>keyrings = [demo_keyring], receivers = [demo_receiver], randomnesses = []\<rparr>"

lemma demo_view [simp]: "view demo_node t = t" "sq_tables list_sql t = t"
  by (simp_all add: demo_node_def list_sql_def)

lemma demo_started:
  "start_node demo_node demo_env None None \<lparr>keyrings = [], receivers = [], randomnesses = []\<rparr> =
     Some (demo_ctx, \<lparr>keyrings = [demo_keyring], receivers = [], randomnesses = []\<rparr>)"
  by (simp add: start_node_def demo_node_def demo_env_def demo_codecs_def list_sql_def keyring_find_by_name_def one_def
      keyring_insert_def list_insert_keyring_def keyring_allowed_def fresh_id_def keyring_fields.defs keyring.defs
      demo_keyring_def ORAND_KEYRING_NAME_def demo_ctx_def Let_def doubled_def KeyPair_new_def orand_testnet_def)
    (simp add: cusp_def)

lemma demo_reachable: "reachable demo_node demo_ctx demo_tables"
proof (rule stepped)
  show "reachable demo_node demo_ctx \<lparr>keyrings = [demo_keyring], receivers = [], randomnesses = []\<rparr>"
    by (rule started [OF _ demo_started]) simp
  show "store_step demo_node demo_ctx \<lparr>keyrings = [demo_keyring], receivers = [], randomnesses = []\<rparr> demo_tables"
  proof (rule new_receiver)
    let ?f = "receiver_fields.truncate demo_receiver"
    show "receiver_insert (nd_sql demo_node) ?f \<lparr>keyrings = [demo_keyring], receivers = [], randomnesses = []\<rparr> =
        Inr (demo_receiver, demo_tables)"
      by (simp add: receiver_insert_def demo_node_def list_sql_def list_insert_receiver_def receiver_allowed_def
          demo_receiver_def demo_keyring_def demo_tables_def fresh_id_def receiver_fields.defs receiver.defs Let_def)
    show "rc_nonce ?f = 0" by (simp add: receiver_fields.truncate_def demo_receiver_def)
  qed
qed

lemma demo_publishable: "publishable demo_node demo_ctx demo_env demo_receiver alpha demo_tables"
proof -
  obtain p where p: "vrf_prove_contract cusp (\<lambda>_. replicate 32 0) (ECVRF_new cusp 2) alpha = Some (Inr p)" "cp_y p = 1"
    using cusp_proves by blast
  then have e: "evm_verify demo_node p = Some True"
    by (simp add: evm_verify_def demo_node_def from_bytes_scalar_def) (simp add: cusp_def)
  have "strip_0x demo_address = replicate 40 (CHR ''1'')"
    by (simp add: demo_address_def strip_0x_def numeral_eq_Suc)
  moreover have "length (every_other (replicate 40 (CHR ''1''))) = 20" by (simp add: numeral_eq_Suc)
  ultimately obtain bs where a: "decode_to_slice demo_codecs 20 (strip_0x demo_address) = Some bs"
    by (simp add: decode_to_slice_def demo_codecs_def undoubled_def)
  then have "\<exists>signature. operator_signature demo_node demo_ctx demo_receiver demo_address p = Some signature"
    by (simp add: operator_signature_def sign_ethereum_message_def scalar_keccak256_def demo_node_def from_bytes_scalar_def Let_def)
      (simp add: cusp_def)
  then show ?thesis using p e a
    by (auto simp: publishable_def demo_node_def demo_env_def demo_receiver_def demo_ctx_def NodeContext_new_def demo_tables_def)
qed

lemma demo_lengths: "lengths_ok demo_node demo_env"
  by (simp add: lengths_ok_def demo_node_def demo_env_def demo_codecs_def undoubled(2)) (simp add: cusp_def)

lemma demo_inv: "epochs_inv demo_node demo_ctx demo_tables"
  using demo.reachable_inv [OF demo_reachable] by (simp add: demo_tables_def)

lemma demo_member: "demo_receiver \<in> set (receivers demo_tables)"
  "rc_keyring_id demo_receiver \<in> keyring_ids (nd_sql demo_node) demo_tables ''orand''"
  by (simp_all add: demo_tables_def keyring_ids_def demo_receiver_def demo_keyring_def demo_node_def list_sql_def)

text \<open>The state after the first epoch of the receiver.\<close>

lemma demo_epoch:
  obtains row t where "safe_insert demo_node demo_ctx demo_env ''orand'' 1 demo_address demo_tables = Some (Inr row, t)"
    "reachable demo_node demo_ctx t" "epoch_added 1 demo_receiver row demo_tables t" "rn_epoch row = 0" "rn_receiver_id row = 1"
proof -
  have f: "rc_address demo_receiver = demo_address" "rc_network demo_receiver = 1" "rc_nonce demo_receiver = 0"
    "rc_id demo_receiver = 1" "length (randomnesses demo_tables) = 0"
    by (simp_all add: demo_receiver_def demo_tables_def)
  obtain row t where s: "safe_insert demo_node demo_ctx demo_env ''orand'' 1 demo_address demo_tables = Some (Inr row, t)"
    using demo.new_epoch_aux [of demo_tables demo_receiver "''orand''" demo_env] demo_inv demo_member demo_publishable
      demo_lengths key_listed [OF demo.store demo_reachable] by (auto simp: f)
  from safe_insert_cases [OF demo.store s] obtain r nonce where "r \<in> set (receivers demo_tables)"
    "rn_epoch row = rc_nonce r" "rn_receiver_id row = rc_id r" "i64_add False (rc_nonce r) 1 = Some nonce"
    "epoch_added nonce r row demo_tables t" by (auto simp: demo_node_def list_sql_def)
  then have "epoch_added 1 demo_receiver row demo_tables t" "rn_epoch row = 0" "rn_receiver_id row = 1"
    by (auto simp: demo_tables_def f i64_add_def in_i64_def I64_MAX_def)
  with s that stepped [OF demo_reachable new_epoch [OF s]] show thesis by blast
qed

section \<open>Properties\<close>

text \<open>
  C7: in every run of the oracle, whatever the requests and however their statements
  interleave, the epochs of a receiver are numbered from zero to its nonce without gap or
  repetition, and the seed of each is the output of the one before.
\<close>

theorem epochs_chained:
  assumes "sql_ok (nd_sql N)" and "epoch_codecs_ok N" and "reachable N ctx db"
    and "length (randomnesses (view N db)) < 2 ^ 63" and "r \<in> set (receivers (view N db))"
  shows "rc_nonce r = int (length (history (view N db) r)) \<and>
    map rn_epoch (history (view N db) r) = map int [0..<length (history (view N db) r)] \<and>
    (\<forall>i. Suc i < length (history (view N db) r) \<longrightarrow>
       rn_alpha (history (view N db) r ! Suc i) = rn_y (history (view N db) r ! i))"
  using epoch_node.reachable_inv [OF epoch_node.intro [OF assms(1,2)] assms(3,4)] assms(5)
  by (simp add: epochs_inv_def chained_def)

theorem epochs_chained_witness:
  "\<exists>t r. reachable demo_node demo_ctx t \<and> r \<in> set (receivers t) \<and> rc_nonce r = 1 \<and> map rn_epoch (history t r) = [0]"
proof -
  obtain row t where t: "reachable demo_node demo_ctx t" "epoch_added 1 demo_receiver row demo_tables t" "rn_receiver_id row = 1"
    by (rule demo_epoch)
  let ?r = "demo_receiver\<lparr>rc_nonce := 1\<rparr>"
  have "?r \<in> set (receivers t)" "length (randomnesses t) < 2 ^ 63"
    using t(2) by (simp_all add: epoch_added_def update_receivers_def demo_tables_def)
  then have "rc_nonce ?r = int (length (history t ?r)) \<and> map rn_epoch (history t ?r) = map int [0..<length (history t ?r)]"
    using epochs_chained [OF demo.store demo.codecs t(1), of ?r] by simp
  then show ?thesis using \<open>?r \<in> set (receivers t)\<close> t(1) by (intro exI [of _ t] exI [of _ ?r]) auto
qed

text \<open>
  C20: every record the oracle publishes comes from a contract proof of the node's key that
  the emulated contract accepted, signed by its operator for the receiver and the epoch.
\<close>

theorem epochs_proved:
  assumes "sql_ok (nd_sql N)" and "epoch_codecs_ok N" and "reachable N ctx db"
    and "length (randomnesses (view N db)) < 2 ^ 63" and "x \<in> set (randomnesses (view N db))"
  shows "\<exists>draws alpha p r address signature.
    vrf_prove_contract (nd_secp N) draws (nc_ecvrf ctx) alpha = Some (Inr p) \<and> evm_verify N p = Some True \<and>
    operator_signature N ctx r address p = Some signature \<and> rc_id r = rn_receiver_id x \<and> rc_nonce r = rn_epoch x \<and>
    new_randomness N ctx r alpha p signature = Some (randomness_fields.truncate x)"
  using epoch_node.reachable_inv [OF epoch_node.intro [OF assms(1,2)] assms(3,4)] assms(5)
  by (simp add: epochs_inv_def proved_row_def)

theorem epochs_proved_witness:
  "\<exists>t x p. reachable demo_node demo_ctx t \<and> x \<in> set (randomnesses t) \<and> evm_verify demo_node p = Some True \<and>
     rn_y x = doubled (sl_b32 cusp (cp_y p))"
proof -
  obtain row t where t: "reachable demo_node demo_ctx t" "epoch_added 1 demo_receiver row demo_tables t" by (rule demo_epoch)
  then have x: "row \<in> set (randomnesses t)" "length (randomnesses t) < 2 ^ 63" by (simp_all add: epoch_added_def demo_tables_def)
  then obtain r alpha p signature where p: "evm_verify demo_node p = Some True"
    "new_randomness demo_node demo_ctx r alpha p signature = Some (randomness_fields.truncate row)"
    using epochs_proved [OF demo.store demo.codecs t(1), of row] by (simp only: demo_view) blast
  have "rn_y row = doubled (sl_b32 cusp (cp_y p))"
    using new_randomness_fields(4) [OF p(2)] by (simp add: demo_node_def demo_codecs_def)
  with t x p show ?thesis by blast
qed

text \<open>
  C8: a request changes the tables by at most one of the steps of a run, and only with a
  token that is in time and signed with the secret of its user: adding users and receivers
  takes the node's own user, an epoch the owner of its receiver, and a public epoch both.
  So no request removes or rewrites a published record.
\<close>

theorem request_authorised:
  assumes "sql_ok (nd_sql N)" and "epoch_codecs_ok N" and "orand N ctx E rq db = Some (resp, db')"
  shows "(db' = db \<or> store_step N ctx db db') \<and>
    (view N db' = view N db \<or>
      (\<exists>token user. rq_authorization rq = Some (Some token) \<and> token_of N (en_now E) (view N db) token user \<and>
         allowed_change user (view N db) (view N db')))"
  using epoch_node.orand_change [OF epoch_node.intro [OF assms(1,2)] assms(3)] by auto

definition demo_request :: request where
  "demo_request = \<lparr>rq_method = ''POST'', rq_path = ''/'', rq_upper = Some 100, rq_body = Some ''{}'', rq_authorization = Some (Some ''a.b.c'')\<rparr>"

lemma demo_token: "decode_payload demo_codecs 10 ''a.b.c'' = Inr \<lparr>jwt_user = ''orand'', jwt_nonce = 0, jwt_iat = 0, jwt_exp = 100\<rparr>"
  "jwt_verify demo_codecs key ''a.b.c'' = Some True" "JWT_new demo_codecs [] = Some []"
  by (simp_all add: decode_payload_def jwt_verify_def trim_def is_space_def demo_codecs_def check_name_def is_lower_def JWT_new_def
      strip_0x_def undoubled_def)

lemma demo_orand:
  "orand demo_node demo_ctx demo_env demo_request demo_tables = orand_new_epoch demo_node demo_ctx demo_env ''orand'' 1 demo_address demo_tables"
proof -
  have m: "from_json_string (parse_rpc demo_codecs s) = Some (Inr (OrandNewEpoch 1 demo_address))" for s
    by (simp add: demo_codecs_def from_json_string_def param_def decode_i64_parse parse_i64_def split_sign_def digits_int_def
        is_digit_def in_i64_def I64_MAX_def demo_address_def decode_address_def is_hex_digit_def lower_char_def vec_get_def)
  have a: "authorize demo_node demo_env (Some (Some ''a.b.c'')) demo_tables =
      Some (Inr \<lparr>jwt_user = ''orand'', jwt_nonce = 0, jwt_iat = 0, jwt_exp = 100\<rparr>)"
    using demo_token by (simp add: authorize_def demo_node_def demo_env_def demo_tables_def list_sql_def
        keyring_find_by_name_def one_def demo_keyring_def)
  have z: "demo_address \<noteq> ZERO_ADDRESS" by (simp add: demo_address_def ZERO_ADDRESS_def)
  have C: "nd_codecs demo_node = demo_codecs" by (simp add: demo_node_def)
  show ?thesis
    by (simp add: orand_def demo_request_def C m a dispatch_def z)
qed

theorem request_authorised_witness:
  "\<exists>resp t. orand demo_node demo_ctx demo_env demo_request demo_tables = Some (resp, t) \<and> t \<noteq> demo_tables \<and>
     allowed_change ''orand'' demo_tables t"
proof -
  obtain row t where s: "safe_insert demo_node demo_ctx demo_env ''orand'' 1 demo_address demo_tables = Some (Inr row, t)"
    "epoch_added 1 demo_receiver row demo_tables t" by (rule demo_epoch)
  then obtain resp where o': "orand demo_node demo_ctx demo_env demo_request demo_tables = Some (resp, t)"
    by (simp add: demo_orand orand_new_epoch_def)
  have "length (randomnesses t) = 1" "length (randomnesses demo_tables) = 0"
    using s(2) by (simp_all add: epoch_added_def demo_tables_def)
  then have ne: "t \<noteq> demo_tables" by auto
  from request_authorised [OF demo.store demo.codecs o'] ne obtain user where
    u: "token_of demo_node 10 demo_tables ''a.b.c'' user" "allowed_change user demo_tables t"
    by (auto simp: demo_request_def demo_env_def)
  then have "user = ''orand''" using demo_token(1) by (auto simp: token_of_def demo_node_def)
  with u o' ne show ?thesis by blast
qed

text \<open>
  C31: asked for a receiver's epochs up to a number, or for the recent ones by the largest
  number, the oracle answers the twenty latest of them, newest first. (The example in the
  README shows the epochs from the number upwards, oldest first; the code never answers so.)
\<close>

theorem get_epoch_exact:
  assumes "sql_ok (nd_sql N)" and "epoch_codecs_ok N" and "sql_up (nd_sql N)" and "reachable N ctx db"
    and "length (randomnesses (view N db)) < 2 ^ 63" and "r \<in> set (receivers (view N db))"
  shows "orand_get_epoch (nd_sql N) (rc_network r) (rc_address r) epoch db =
    Some (res_json (JRandomnesses (map randomness_json
      (take 20 (rev (filter (\<lambda>x. epoch = I64_MAX \<or> rn_epoch x \<le> epoch) (history (view N db) r)))))))"
proof -
  have e: "epoch_node N" using assms(1,2) by (rule epoch_node.intro)
  show ?thesis
    using live_node.get_epoch_aux [OF live_node.intro [OF e live_node_axioms.intro [OF assms(3)]]]
      epoch_node.reachable_inv [OF e assms(4,5)] assms(6) by blast
qed

theorem get_epoch_exact_witness:
  "\<exists>row t. reachable demo_node demo_ctx t \<and> rn_epoch row = 0 \<and>
     orand_get_epoch list_sql 1 demo_address 5 t = Some (res_json (JRandomnesses [randomness_json row]))"
proof -
  obtain row t where t: "reachable demo_node demo_ctx t" "epoch_added 1 demo_receiver row demo_tables t"
    "rn_epoch row = 0" "rn_receiver_id row = 1" by (rule demo_epoch)
  let ?r = "demo_receiver\<lparr>rc_nonce := 1\<rparr>"
  have r: "?r \<in> set (receivers t)" "length (randomnesses t) < 2 ^ 63" "history t ?r = [row]" "rc_address ?r = demo_address" "rc_network ?r = 1"
    using t(2,4) by (simp_all add: epoch_added_def update_receivers_def demo_tables_def history_def demo_receiver_def)
  have "nd_sql demo_node = list_sql" by (simp add: demo_node_def)
  then have "orand_get_epoch list_sql 1 demo_address 5 t = Some (res_json (JRandomnesses [randomness_json row]))"
    using get_epoch_exact [OF demo.store demo.codecs demo.up t(1), of ?r 5] r t(3) by (simp add: I64_MAX_def)
  with t show ?thesis by blast
qed

text \<open>
  C19: while the database is up, the owner of a receiver who asks for an epoch gets it, with the
  next number, the seed that follows from the history and the nonce advanced, exactly when
  the proof of this seed exists, the emulated contract accepts it, the address is one and
  neither seed, output nor signature repeats; otherwise nothing changes and any response is
  an error. The proof exists when the node's public key is valid, the search for a curve
  point ends and one of the 102 draws is not zero.
\<close>

theorem new_epoch_exact:
  fixes N :: "('db, 's::field, 'g::ab_group_add, 'f::field) node"
  assumes "sql_ok (nd_sql N)" and "epoch_codecs_ok N" and "sql_up (nd_sql N)" and "secp_ok (nd_secp N)" and "lengths_ok N E"
    and "reachable N ctx db" and "length (randomnesses (view N db)) < 2 ^ 63 - 1"
    and "r \<in> set (receivers (view N db))" and "rc_keyring_id r \<in> keyring_ids (nd_sql N) db user"
  shows "\<exists>alpha. next_seed N E (history (view N db) r) alpha \<and>
    (if publishable N ctx E r alpha (view N db)
     then \<exists>row db'. orand_new_epoch N ctx E user (rc_network r) (rc_address r) db =
         Some (res_json (JRandomness (randomness_json row)), db') \<and>
       rn_epoch row = rc_nonce r \<and> rn_alpha row = hex_encode (nd_codecs N) (sl_b32 (nd_secp N) alpha) \<and>
       epoch_added (rc_nonce r + 1) r row (view N db) (view N db')
     else \<forall>resp db'. orand_new_epoch N ctx E user (rc_network r) (rc_address r) db = Some (resp, db') \<longrightarrow>
       resp = quick_err (Error ''INTERNAL_SERVER_ERROR'' ''Unknown error'') \<and> view N db' = view N db) \<and>
    ((\<exists>p. vrf_prove_contract (nd_secp N) (en_draws E) (nc_ecvrf ctx) alpha = Some (Inr p)) \<longleftrightarrow>
       sl_valid (nd_secp N) (public_key (nc_ecvrf ctx)) \<and>
       hash_to_curve_prefix (nd_secp N) alpha (public_key (nc_ecvrf ctx)) \<noteq> None \<and>
       (\<exists>j \<le> 101. drawn (nd_secp N) (en_draws E) j \<noteq> 0))"
proof -
  have e: "epoch_node N" using assms(1,2) by (rule epoch_node.intro)
  have "length (randomnesses (view N db)) < 2 ^ 63" using assms(7) by simp
  note inv = epoch_node.reachable_inv [OF e assms(6) this]
  let ?seeded = "\<lambda>alpha. next_seed N E (history (view N db) r) alpha"
  let ?run = "safe_insert N ctx E user (rc_network r) (rc_address r) db"
  obtain alpha where seed: "?seeded alpha" and run: "if publishable N ctx E r alpha (view N db)
     then \<exists>row db'. ?run = Some (Inr row, db') \<and>
       rn_epoch row = rc_nonce r \<and> rn_alpha row = hex_encode (nd_codecs N) (sl_b32 (nd_secp N) alpha) \<and>
       epoch_added (rc_nonce r + 1) r row (view N db) (view N db')
     else \<forall>res db'. ?run = Some (res, db') \<longrightarrow> isl res \<and> view N db' = view N db"
    using live_node.new_epoch_aux [OF live_node.intro [OF e live_node_axioms.intro [OF assms(3)]] inv assms(8,9)
        key_listed [OF assms(1,6)] assms(5,7)] by blast
  have draws: "\<forall>i. length (en_draws E i) = 32" using assms(5) by (simp add: lengths_ok_def)
  show ?thesis
  proof (intro exI [of _ alpha] conjI seed contract_proof_exists [OF assms(4) draws])
    show "if publishable N ctx E r alpha (view N db)
     then \<exists>row db'. orand_new_epoch N ctx E user (rc_network r) (rc_address r) db =
         Some (res_json (JRandomness (randomness_json row)), db') \<and>
       rn_epoch row = rc_nonce r \<and> rn_alpha row = hex_encode (nd_codecs N) (sl_b32 (nd_secp N) alpha) \<and>
       epoch_added (rc_nonce r + 1) r row (view N db) (view N db')
     else \<forall>resp db'. orand_new_epoch N ctx E user (rc_network r) (rc_address r) db = Some (resp, db') \<longrightarrow>
       resp = quick_err (Error ''INTERNAL_SERVER_ERROR'' ''Unknown error'') \<and> view N db' = view N db"
    proof (cases "publishable N ctx E r alpha (view N db)")
      case True
      then show ?thesis using run by (auto simp: orand_new_epoch_def)
    next
      case False
      then show ?thesis using run by (cases ?run) (auto simp: orand_new_epoch_def isl_def)
    qed
  qed
qed

theorem new_epoch_exact_witness:
  "\<exists>row t. orand_new_epoch demo_node demo_ctx demo_env ''orand'' 1 demo_address demo_tables =
      Some (res_json (JRandomness (randomness_json row)), t) \<and> rn_epoch row = 0 \<and> rn_alpha row = doubled (sl_b32 cusp 1)"
proof -
  have f: "rc_address demo_receiver = demo_address" "rc_network demo_receiver = 1" "rc_nonce demo_receiver = 0"
    "length (randomnesses demo_tables) = 0" "randomnesses demo_tables = []"
    by (simp_all add: demo_receiver_def demo_tables_def)
  have L: "secp_ok (nd_secp demo_node)" "hex_encode (nd_codecs demo_node) = doubled" "nd_secp demo_node = cusp"
    by (simp_all add: demo_node_def cusp_ok demo_codecs_def)
  have s: "sl_set_b32 cusp bs = 1" for bs by (simp add: cusp_def)
  have m: "demo_receiver \<in> set (receivers (view demo_node demo_tables))"
    "length (randomnesses (view demo_node demo_tables)) < 2 ^ 63 - 1"
    "rc_keyring_id demo_receiver \<in> keyring_ids (nd_sql demo_node) demo_tables ''orand''"
    using demo_member by (simp_all add: f)
  from new_epoch_exact [OF demo.store demo.codecs demo.up L(1) demo_lengths demo_reachable m(2,1,3)]
  obtain alpha where "next_seed demo_node demo_env (history demo_tables demo_receiver) alpha"
    "\<exists>row t. orand_new_epoch demo_node demo_ctx demo_env ''orand'' 1 demo_address demo_tables =
      Some (res_json (JRandomness (randomness_json row)), t) \<and> rn_epoch row = 0 \<and> rn_alpha row = doubled (sl_b32 cusp alpha)"
    using demo_publishable by (auto simp: f L(2,3))
  moreover from this(1) have "alpha = 1" by (simp add: next_seed_def history_def f L(3) s)
  ultimately show ?thesis by blast
qed

text \<open>
  The message the operator signs is the nonce in 96 bits, the receiver and the digest of
  the proof: 64 bytes that determine all three, so one signature serves one epoch of one
  receiver only.
\<close>

theorem operator_proof_injective:
  assumes "in_i64 m" and "in_i64 n" and "length r = 20" and "length s = 20" and "length d = 32" and "length e = 32"
  shows "length (compose_operator_proof m r d) = 64 \<and>
    (compose_operator_proof m r d = compose_operator_proof n s e \<longleftrightarrow> m = n \<and> r = s \<and> d = e)"
proof -
  have "to_be_bytes (word_of_int m :: u64) = to_be_bytes (word_of_int n :: u64) \<longleftrightarrow> m = n"
  proof
    assume "to_be_bytes (word_of_int m :: u64) = to_be_bytes (word_of_int n :: u64)"
    moreover have "from_be_bytes (to_be_bytes x) = x" for x :: u64 by (simp add: from_to_be_bytes)
    ultimately have "(word_of_int m :: u64) = word_of_int n" by metis
    then show "m = n" by (rule i64_word_inj [OF assms(1,2)])
  qed simp
  then show ?thesis using assms by (auto simp: compose_operator_proof_def)
qed

theorem operator_proof_injective_witness:
  "compose_operator_proof 3 (replicate 20 1) (replicate 32 2) \<noteq> compose_operator_proof (-1) (replicate 20 1) (replicate 32 2)"
  using operator_proof_injective [of 3 "-1" "replicate 20 1" "replicate 20 1" "replicate 32 2" "replicate 32 2"]
  by (simp add: in_i64_def I64_MAX_def)

end
