(* ===== verification/Node_Restart.thy ===== *)
theory Node_Restart
  imports Node_Properties
begin

text \<open>
  Restarting the oracle (\<open>node/src/main.rs\<close>): the key pair is drawn or configured once,
  stored in the keyring, and read back at every later start.
\<close>

section \<open>The keyring of the node\<close>

text \<open>The stored form of a key pair is read back as the pair.\<close>

definition readable :: "('db, 's, 'g, 'f) node \<Rightarrow> 's \<times> 'g \<Rightarrow> bool" where
  "readable N keypair \<longleftrightarrow>
     trimmed_key N (hex_encode (nd_codecs N) (rk_secret_key (nd_serialize N keypair))) = Some keypair"

definition keeps_key :: "('db, 's, 'g, 'f) node \<Rightarrow> ('s, 'g) node_context \<Rightarrow> tables \<Rightarrow> bool" where
  "keeps_key N ctx t \<longleftrightarrow> distinct (map kr_username (keyrings t)) \<and>
     (\<exists>k \<in> set (keyrings t). kr_username k = ORAND_KEYRING_NAME \<and> kr_id k = nc_key_id ctx \<and>
        trimmed_key N (kr_secret_key k) = Some (nc_keypair ctx))"

lemma keyring_inserted:
  assumes "sql_ok (nd_sql N)" "keyring_insert (nd_sql N) f db = Inr (k, db')"
  shows "keyrings (view N db') = keyrings (view N db) @ [k]" "kr_username k = kr_username f" "kr_secret_key k = kr_secret_key f"
    "kr_username k \<notin> kr_username ` set (keyrings (view N db))"
proof -
  have i: "keyring_fields.truncate k = f \<and> keyring_allowed f (view N db) \<and>
      view N db' = view N db\<lparr>keyrings := keyrings (view N db) @ [k]\<rparr>"
    using assms unfolding sql_ok_def inserts_ok_def keyring_insert_def by blast
  then show "keyrings (view N db') = keyrings (view N db) @ [k]" "kr_username k = kr_username f" "kr_secret_key k = kr_secret_key f"
    by (auto simp: keyring_fields.truncate_def)
  then show "kr_username k \<notin> kr_username ` set (keyrings (view N db))"
    using i by (auto simp: keyring_allowed_def)
qed

lemma keeps_key_snoc:
  assumes "keeps_key N ctx t" "keyrings t' = keyrings t @ [k]" "kr_username k \<notin> kr_username ` set (keyrings t)"
  shows "keeps_key N ctx t'"
  using assms by (auto simp: keeps_key_def)

lemma store_step_keeps_key:
  assumes "sql_ok (nd_sql N)" "store_step N ctx db db'" "keeps_key N c (view N db)"
  shows "keeps_key N c (view N db')"
  using assms(2)
proof cases
  case (new_user f k)
  show ?thesis by (rule keeps_key_snoc [OF assms(3) keyring_inserted(1,4) [OF assms(1) new_user]])
next
  case (new_receiver f r)
  have "view N db' = view N db\<lparr>receivers := receivers (view N db) @ [r]\<rparr>"
    using new_receiver(1) assms(1) unfolding sql_ok_def inserts_ok_def receiver_insert_def by blast
  then show ?thesis using assms(3) by (simp add: keeps_key_def)
next
  case (new_epoch E username network address res)
  have "keyrings (view N db') = keyrings (view N db)"
    using safe_insert_cases [OF assms(1) new_epoch] by (auto simp: epoch_added_def)
  then show ?thesis using assms(3) by (simp add: keeps_key_def)
qed

text \<open>The first start leaves the key it runs with in the table.\<close>

lemma start_keeps_key:
  assumes Q: "sql_ok (nd_sql N)" and "view N db = \<lparr>keyrings = [], receivers = [], randomnesses = []\<rparr>"
    and start: "start_node N E secret testnet db = Some (ctx, db')" and "readable N (nc_keypair ctx)"
  shows "keeps_key N ctx (view N db') \<and> ctx = NodeContext_new (nd_secp N) (nc_key_id ctx) (nc_keypair ctx) (nc_is_testnet ctx)"
proof -
  obtain found where f: "keyring_find_by_name (nd_sql N) db ORAND_KEYRING_NAME = Inr found"
    using start by (auto simp: start_node_def Let_def bind_eq_Some_conv)
  have "found = None" using keyring_found [OF Q f] assms(2) by (auto split: option.splits)
  then obtain kp k raw where
    ins: "keyring_insert (nd_sql N) \<lparr>kr_username = ORAND_KEYRING_NAME, kr_hmac_secret = hex_encode (nd_codecs N) (en_hmac E),
        kr_public_key = hex_encode (nd_codecs N) (rk_public_key raw), kr_secret_key = hex_encode (nd_codecs N) (rk_secret_key raw)\<rparr> db = Inr (k, db')"
    and raw: "raw = nd_serialize N kp"
    and ctx: "ctx = NodeContext_new (nd_secp N) (kr_id k) kp (orand_testnet testnet)"
    using start f by (auto simp: start_node_def Let_def bind_eq_Some_conv)
  have kp: "nc_keypair ctx = kp" "nc_key_id ctx = kr_id k" "nc_is_testnet ctx = orand_testnet testnet"
    using ctx by (simp_all add: NodeContext_new_def)
  note i = keyring_inserted [OF Q ins]
  have "trimmed_key N (kr_secret_key k) = Some kp"
    using assms(4) i(3) raw by (simp add: readable_def kp(1))
  then show ?thesis using i(1,2) assms(2) kp ctx by (simp add: keeps_key_def)
qed

lemma reachable_keeps_key:
  assumes "Node_Correct.reachable N ctx db" "sql_ok (nd_sql N)" "readable N (nc_keypair ctx)"
  shows "keeps_key N ctx (view N db) \<and> ctx = NodeContext_new (nd_secp N) (nc_key_id ctx) (nc_keypair ctx) (nc_is_testnet ctx)"
  using assms
proof induction
  case (started db E secret testnet db')
  then show ?case by (intro start_keeps_key)
next
  case (stepped db db')
  then have "keeps_key N ctx (view N db)" by simp
  from store_step_keeps_key [OF stepped(4,2) this] stepped show ?case by simp
qed

lemma context_again:
  "c = NodeContext_new L i keypair f \<Longrightarrow> NodeContext_new L i keypair b = c\<lparr>nc_is_testnet := b\<rparr>"
  by (simp add: NodeContext_new_def)

text \<open>Text without spaces is its own trimmed form.\<close>

lemma trim_spaceless: "list_all (\<lambda>c. \<not> is_space c) s \<Longrightarrow> trim s = s"
proof -
  have no: "dropWhile is_space xs = xs" if "list_all (\<lambda>c. \<not> is_space c) xs" for xs
    using that by (cases xs) simp_all
  assume "list_all (\<lambda>c. \<not> is_space c) s"
  then show "trim s = s" by (simp add: trim_def no list_all_iff)
qed

section \<open>Property\<close>

text \<open>
  C36: at any point of a run, starting the node again, with whatever variables and random
  bytes, changes nothing in the database and restores the node's key and its row: the same
  context but for the flag of the testnet.
\<close>

theorem restart_restores_key:
  fixes N :: "('db, 's::field, 'g::ab_group_add, 'f::field) node"
  assumes "sql_ok (nd_sql N)" and "sql_up (nd_sql N)" and "Node_Correct.reachable N ctx db" and "readable N (nc_keypair ctx)"
  shows "start_node N E secret testnet db = Some (ctx\<lparr>nc_is_testnet := orand_testnet testnet\<rparr>, db)"
proof -
  note inv = reachable_keeps_key [OF assms(3,1,4)]
  obtain k where k: "k \<in> set (keyrings (view N db))" "kr_username k = ORAND_KEYRING_NAME" "kr_id k = nc_key_id ctx"
    "trimmed_key N (kr_secret_key k) = Some (nc_keypair ctx)" and d: "distinct (map kr_username (keyrings (view N db)))"
    using inv by (auto simp: keeps_key_def)
  obtain xs where xs: "sq_select_keyring (nd_sql N) db (\<lambda>k. kr_username k = ORAND_KEYRING_NAME) = Inr xs"
    using conjunct1 [OF assms(2) [unfolded sql_up_def]] by blast
  have "y = k" if "y \<in> set (keyrings (view N db))" "kr_username y = ORAND_KEYRING_NAME" for y
    using d that k(1,2) by (metis distinct_map inj_onD)
  moreover have "set xs = {y \<in> set (keyrings (view N db)). kr_username y = ORAND_KEYRING_NAME}"
    by (rule select_sets(1) [OF assms(1) xs])
  ultimately have "set xs = {k}" using k(1,2) by blast
  then have "keyring_find_by_name (nd_sql N) db ORAND_KEYRING_NAME = Inr (Some k)"
    by (cases xs) (auto simp: keyring_find_by_name_def one_def xs)
  moreover have "NodeContext_new (nd_secp N) (kr_id k) (nc_keypair ctx) b = ctx\<lparr>nc_is_testnet := b\<rparr>" for b
    unfolding k(3) by (rule context_again [OF conjunct2 [OF inv]])
  ultimately show ?thesis using k(4) by (simp add: start_node_def)
qed

theorem restart_restores_key_witness:
  "start_node demo_node demo_env (Some ''00'') (Some '' TRUE'') demo_tables = Some (demo_ctx\<lparr>nc_is_testnet := True\<rparr>, demo_tables)"
proof -
  have two: "c = char_of (2 :: nat)" if "c \<in> set (doubled (replicate 32 2))" for c
    using that by (auto simp: doubled_def)
  then have "trim (doubled (replicate 32 2)) = doubled (replicate 32 2)"
    by (intro trim_spaceless) (auto simp: list_all_iff is_space_def dest!: two)
  then have "readable demo_node (nc_keypair demo_ctx)"
    by (simp add: readable_def demo_node_def demo_ctx_def NodeContext_new_def trimmed_key_def demo_codecs_def
        decode_to_slice_def undoubled KeyPair_parse_def)
      (simp add: cusp_def)
  moreover have "orand_testnet (Some '' TRUE'')"
    by code_simp
  moreover have "sql_ok (nd_sql demo_node)" "sql_up (nd_sql demo_node)"
    by (simp_all add: demo_node_def list_sql_ok list_sql_up)
  ultimately show ?thesis using restart_restores_key [OF _ _ demo_reachable] by simp
qed

end
