(* ===== verification/Proof_System.thy ===== *)
theory Proof_System
  imports Prelude
begin

text \<open>
  The proof system of the Halo2 library as its users call it: \<open>ParamsKZG::setup\<close> or
  \<open>ParamsIPA::new\<close>, \<open>keygen_vk\<close>, \<open>keygen_pk\<close>, \<open>create_proof\<close> on a circuit with its instances,
  and \<open>verify_proof\<close> with a single strategy. The prover's randomness and a panic of the
  circuit's \<open>synthesize\<close> belong to the functions; the users unwrap every error but that of
  the verifier.
\<close>

record ('params, 'vk, 'pk, 'err, 'c, 'i) halo2 =
  h2_setup :: "u32 \<Rightarrow> 'params"
  h2_keygen_vk :: "'params \<Rightarrow> 'c \<Rightarrow> 'err + 'vk"
  h2_keygen_pk :: "'params \<Rightarrow> 'vk \<Rightarrow> 'c \<Rightarrow> 'err + 'pk"
  h2_get_vk :: "'pk \<Rightarrow> 'vk"
  h2_create_proof :: "'params \<Rightarrow> 'pk \<Rightarrow> 'c \<Rightarrow> 'i \<Rightarrow> 'err + u8 list"
  h2_verify_proof :: "'params \<Rightarrow> 'vk \<Rightarrow> 'i \<Rightarrow> u8 list \<Rightarrow> 'err + unit"

text \<open>The start of every prover: parameters and keys of a circuit.\<close>

definition halo2_keygen ::
    "('params, 'vk, 'pk, 'err, 'c, 'i) halo2 \<Rightarrow> u32 \<Rightarrow> 'c \<Rightarrow> ('params \<times> 'pk) option" where
  "halo2_keygen L k circuit = do {
     let params = h2_setup L k;
     vk \<leftarrow> expect_ok (h2_keygen_vk L params circuit);
     pk \<leftarrow> expect_ok (h2_keygen_pk L params vk circuit);
     Some (params, pk) }"

text \<open>Completeness: a circuit whose assignment satisfies its constraints is proved.\<close>

definition halo2_complete :: "('c \<Rightarrow> 'i \<Rightarrow> bool) \<Rightarrow> ('params, 'vk, 'pk, 'err, 'c, 'i) halo2 \<Rightarrow> bool" where
  "halo2_complete satisfied L \<longleftrightarrow> (\<forall>k c i vk pk.
     h2_keygen_vk L (h2_setup L k) c = Inr vk \<longrightarrow> h2_keygen_pk L (h2_setup L k) vk c = Inr pk \<longrightarrow> satisfied c i \<longrightarrow>
     (\<exists>bytes. h2_create_proof L (h2_setup L k) pk c i = Inr bytes \<and>
        h2_verify_proof L (h2_setup L k) (h2_get_vk L pk) i bytes = Inr ()))"

lemma halo2_proved:
  assumes "halo2_complete satisfied L" "halo2_keygen L k c = Some (params, pk)" "satisfied c i"
  obtains bytes where "h2_create_proof L params pk c i = Inr bytes"
    "h2_verify_proof L params (h2_get_vk L pk) i bytes = Inr ()"
proof -
  obtain vk where "h2_keygen_vk L (h2_setup L k) c = Inr vk" "h2_keygen_pk L (h2_setup L k) vk c = Inr pk"
    and params: "params = h2_setup L k"
    using assms(2) by (auto simp: halo2_keygen_def Let_def bind_eq_Some_conv)
  then show thesis using assms(1,3) that unfolding halo2_complete_def params by blast
qed

text \<open>A library that proves satisfied circuits and nothing else.\<close>

definition ideal_halo2 :: "('c \<Rightarrow> 'i \<Rightarrow> bool) \<Rightarrow> (u32, unit, 'c, unit, 'c, 'i) halo2" where
  "ideal_halo2 satisfied = \<lparr>h2_setup = id, h2_keygen_vk = (\<lambda>_ _. Inr ()), h2_keygen_pk = (\<lambda>_ _ c. Inr c),
     h2_get_vk = (\<lambda>_. ()),
     h2_create_proof = (\<lambda>_ _ c i. if satisfied c i then Inr [1] else Inl ()),
     h2_verify_proof = (\<lambda>_ _ i proof. if proof = [1] then Inr () else Inl ())\<rparr>"

lemma ideal_halo2_complete: "halo2_complete satisfied (ideal_halo2 satisfied)"
  by (simp add: halo2_complete_def ideal_halo2_def)

lemma ideal_halo2_keygen: "halo2_keygen (ideal_halo2 satisfied) k c = Some (k, c)"
  by (simp add: halo2_keygen_def ideal_halo2_def)

end
