(* ===== verification/Poseidon_Constants.thy ===== *)
theory Poseidon_Constants
  imports Poseidon_Chip
begin

text \<open>
  The parameters of the Poseidon instance in use: the tables of
  \<open>poseidon/src/poseidon_constants.rs\<close> for the Pallas base field and the scalar field of
  BN254, and the specification \<open>OrchardNullifier\<close> of \<open>poseidon_hash.rs\<close>. A table holds
  the numbers that \<open>from_raw\<close> reads from four 64-bit limbs, least significant first.
\<close>

section \<open>Tables\<close>

definition raw :: "nat list \<Rightarrow> nat" where
  "raw limbs = foldr (\<lambda>l acc. l + 2 ^ 64 * acc) limbs 0"

definition pallas_modulus :: nat where
  "pallas_modulus = 0x40000000000000000000000000000000224698fc094cf91b992d30ed00000001"

definition bn254_modulus :: nat where
  "bn254_modulus = 0x30644e72e131a029b85045b68181585d2833e84879b9709143e1f593f0000001"

definition MDS :: "nat list list" where
  "MDS = [
    [raw [0x323f2486d7e11b63, 0x97d7a0ab23850b56, 0xb3d59fbdc8c9ead4, 0x0ab5e5b874a68de7],
     raw [0x8eca5596e996ab5e, 0x240d4a7cbf735736, 0x293f0f0d886c7954, 0x31916628e58a5abb],
     raw [0x19d1cf25d8e8345d, 0xa0a3b71a5fb15735, 0xd803952bbb364fdf, 0x07c045d5f5e9e5a6]],
    [raw [0xd049cdc8d085167c, 0x3a0a464048bd770a, 0xf8e24f66822c2d9f, 0x233162630ebf9ed7],
     raw [0x402270113e047a2e, 0x78f8365c85bbab07, 0xb36664548d60957d, 0x25cae2599892a8b0],
     raw [0xf84d806f685f747a, 0x9aad3d8262efd83f, 0x74938717989a1957, 0x22f5b5e1e6081c97]],
    [raw [0xfee7a9944f84dbe4, 0x21680eabc56bc15d, 0xf333aa91c3833464, 0x2e29dd59c64b1037],
     raw [0xc771effa43263664, 0xcbeaf48b3a0624c3, 0x92d15e7dceef1665, 0x1d1aab4ec1cd6788],
     raw [0x15639415f6e85ef1, 0x75872c39b59a31f6, 0x51e0cbead65516b9, 0x3bf763086a189364]]]"

definition MDS_INV :: "nat list list" where
  "MDS_INV = [
    [raw [0xc6de463cd1404e6b, 0x4543705f35e98ab5, 0xcc59ffd00de86443, 0x2cc057f3fa14687a],
     raw [0x171840417cab7576, 0xfadbf8ae7ae24796, 0x5fd72b55df208385, 0x32e7c439f2f967e5],
     raw [0x942645bd7d4464e0, 0x1403db6f50302040, 0xf461778abf6c91fa, 0x2eae5df8c3115969]],
    [raw [0xa1ca1516a4a1a6a0, 0x13f074fde9a18b29, 0xdb18b4aefe68d26d, 0x07bf368481067199],
     raw [0xe82425bc1b23a059, 0xbb1d65040c85c1bf, 0x018a918b9dac5dad, 0x2aec6906c63f3cf1],
     raw [0xe0541adf238e0781, 0x76b2a7139db71b36, 0x1215944a64a246b2, 0x0952e0243aec2af0]],
    [raw [0x2a418d8d73a7c908, 0xaef9112e952fdbb5, 0x723a63a0c09dab26, 0x2fcbba6f9159a219],
     raw [0x76efab42d4fba90b, 0xc5e4960d7424cd37, 0xb4ddd4b4d6452256, 0x1ec7372574f3851b],
     raw [0xadc8933c6f3c72ee, 0x87a7435d30f8be81, 0x3c26fa4b7d25b1e4, 0x0d0c2efd6472f12a]]]"

definition MDS_FR :: "nat list list" where
  "MDS_FR = [
    [raw [0x0afc0cfa0a8a5646, 0xe4ee40767308c9f3, 0x75c8473fcea07d4c, 0x09e3a3f105d15e2c],
     raw [0xc9734c70896f5e99, 0x9a3ee572878f2f10, 0xd8ecd909bbd80b5c, 0x0eb2ae85c6b74425],
     raw [0x839d96e502e588b1, 0xf6b3a7a130c517ff, 0x0afcb4ad0c00bf36, 0x10e0751ba29ce7ac]],
    [raw [0x7a10e22808e6837f, 0xd804c6087124d7bf, 0x3f789e3f8a0fe553, 0x2c847b9f66357d1f],
     raw [0x0ba6bb1c6e77d4b4, 0x3e2326419e8584e8, 0x026cd6f51aa6dc9f, 0x1d306a5a01ed78aa],
     raw [0x0174fbc867a65752, 0x6f71fb55f0361481, 0x76ee294e2b0ea0ae, 0x16ac1ab6b20353cf]],
    [raw [0x75084fc9b703ac7c, 0x3c3bb9e76d48e22c, 0xedf4bbca1637f5ff, 0x074f322ee8e05551],
     raw [0xc68aeb0255924558, 0x503e427bca035129, 0x0684b67f40f1d855, 0x2cc03e8d20ece994],
     raw [0x2b789fdfa32f51ee, 0x48ce7664eaa7f637, 0x61548420a6c8173e, 0x197494855ff93ed7]]]"

definition MDS_INV_FR :: "nat list list" where
  "MDS_INV_FR = [
    [raw [0x6f436f0d24d67ac7, 0xce946f4516265d58, 0xb1b9ed3ec8b67b6a, 0x2ce28cd0e463fd1a],
     raw [0x7e1a37721e369ab4, 0x866a6e5d03e4032c, 0x3728c49b10a66598, 0x0266e6b7f92d9239],
     raw [0xeb8d5dfa7a92c37d, 0x4a346ccd72ce9aae, 0xa68cb88ad4d666e4, 0x2a7f094e033fe9d1]],
    [raw [0x71d5392534f6fa4c, 0xe7856e864a88e071, 0x32bcd78a383ab3ba, 0x2640ba168146c1fe],
     raw [0x7717c8c51ee87285, 0xf50b27e165f98ed4, 0x16764fd0a58dfd61, 0x2589dcad27a58e61],
     raw [0xd58fc8f01ef9ce87, 0x03aea02efcd15e8a, 0xa26fd3e8f65c9c87, 0x1cef8d82379a2aad]],
    [raw [0x623333e9d07f8b12, 0x7bc392a23df733f7, 0xaf4d728e065656c1, 0x25d2a8078b35105f],
     raw [0xaddb6443cb90d272, 0xf831a0925d47a26f, 0x9669fdf6da4885dc, 0x20fc4d7c8dc90085],
     raw [0xb6e1278edfaafef1, 0x3551b04c63a90eec, 0xf353b39d973c173b, 0x264a775fb0477296]]]"

definition ROUND_CONSTANTS :: "nat list list" where
  "ROUND_CONSTANTS = [
    [raw [0x57538c2596426303, 0x4e71162f31003b70, 0x353f628f76d110f3, 0x360d7470611e473d],
     raw [0xbdb74213bf63188b, 0x4908ac2f12ebe06f, 0x5dc3c6c5febfaa31, 0x2bab94d7ae222d13],
     raw [0x0939d92753cc5dc8, 0xef77e7d736766c5d, 0x2bf03e1a29aa871f, 0x150c93fef652fb1c]],
    [raw [0x14259dce537782b2, 0x03cc0a60141e894e, 0x955d55db56dc57c1, 0x3270661e68928b3a],
     raw [0xce9fb9ffc345afb3, 0xb407c370f2b5a1cc, 0xa0b7afe4e2057299, 0x073f116f04122e25],
     raw [0x8ebad76fc71554d8, 0x55c9cd2061ae93ca, 0x7affd09c1f53f5fd, 0x2a32ec5c4ee5b183]],
    [raw [0x2d8ccbe292efeead, 0x634d24fc6e2559f2, 0x651e2cfc740628ca, 0x270326ee039df19e],
     raw [0xa068fc37c182e274, 0x8af895bce012f182, 0xdc100fe7fcfa5491, 0x27c6642ac633bc66],
     raw [0x9ca18682e26d7ff9, 0x710e1fb6ab976a45, 0xd27f57396989129d, 0x1bdfd8b01401c70a]],
    [raw [0xc832d824261a35ea, 0xf4f6fb3f9054d373, 0x14b9d6a9c84dd678, 0x162a14c62f9a89b8],
     raw [0xf79824667b5b6bec, 0xac0a1fc71e2cf0c0, 0x2af6f79e3127feea, 0x2d193e0f76de586b],
     raw [0x5d0bf58dc8a4aa94, 0x4feff82984990ff8, 0x81696ef1104e674f, 0x044ca3cc4a85d73b]],
    [raw [0x6198785f0cd6b9af, 0xb8d9e2d4f314f46f, 0x1d0453416d3e235c, 0x1cbaf2b371dac6a8],
     raw [0x343e07610f3fede5, 0x293c4ab038fdbbdc, 0x0e6c49d061b6b5f4, 0x1d5b2777692c205b],
     raw [0xf60e971b8d73b04f, 0x06a9adb0c1e6f962, 0xaa30535bdd749a7e, 0x2e9bdbba3dd34bff]],
    [raw [0x035a13661f22418b, 0xde40fbe26d047b05, 0x8bd5bae36969299f, 0x2de11886b18011ca],
     raw [0xbc998884ba96a721, 0x2ab9395c449be947, 0x0d5b4a3f1841dcd8, 0x2e07de1780b8a70d],
     raw [0x825e4c2bb74925ca, 0x250440a99d6b8af3, 0xbbdb63dbd52dad16, 0x0f69f1854d20ca0c]],
    [raw [0x816c059422dc705e, 0x6ce5113507f96de9, 0x0d135dc639fb09a4, 0x2eb1b25417fe1767],
     raw [0xb8b1bdf4953bd82c, 0xff36c661d26cc42d, 0x8c24cb44c3fab48a, 0x115cd0a0643cfb98],
     raw [0xde801612311d04cd, 0xbb57ddf14e0f958a, 0x066d7378b999868b, 0x26ca293f7b2c462d]],
    [raw [0xf5209d14b24820ca, 0x0f160bf9f71e967f, 0x2a830aa162412cd9, 0x17bf1b93c4c7e01a],
     raw [0x05c86f2e7dc293c5, 0xe03c0354bd8cfd38, 0xa24f8456369c85df, 0x35b41a7ac4f3c571],
     raw [0x72ac156af435d09e, 0x64e14d3beb2dddde, 0x435927994849bea9, 0x3b1480080523c439]],
    [raw [0x271618d874b14c6d, 0x08e286442a2d3eb2, 0x4950856dc907d575, 0x2cc6810031dc1b0d],
     raw [0x91f318c09f0cb566, 0x9e517aa93b78341d, 0x059618e2afd2ef99, 0x25bdbbeda1bde8c1],
     raw [0xc6313487073f7f7b, 0x2a5ed0a27b61926c, 0xb95f33c25dde8ac0, 0x392a4a8758e06ee8]],
    [raw [0xe7bbcef02eb5866c, 0x5e6a6fd15db89365, 0x9aa6111f4de00948, 0x272a55878a08442b],
     raw [0x9b925b3c5b21e0e2, 0xa6ebba011694dd12, 0xefa13c4e60e26239, 0x2d5b308b0cf02cdf],
     raw [0xef38c57c311673ac, 0x44dff42f18b46c56, 0xdd5d293d72e2e5f2, 0x16549fc6af2f3b72]],
    [raw [0x9b7126d9b46860df, 0x7639826534420311, 0xfa69c3a2ad52f76d, 0x1b10bb7a82afce39],
     raw [0x90d27f6a00b7dfc8, 0xd1b36968ba0405c0, 0xc79c2df7dc98a3be, 0x0f1e7505ebd91d2f],
     raw [0xff457756b819bb20, 0x797fd6e3f18eb1ca, 0x537a7497a3b43f46, 0x2f313faf0d3f6187]],
    [raw [0xf0bc3e732ecb26f6, 0x5cad11ebf0f7ceb8, 0xfa3ca61c0ed15bc5, 0x3a5cbb6de450b481],
     raw [0x865527cbca915982, 0x51baa6e20f892b62, 0xd92086e253b439d6, 0x3dab54bc9bef688d],
     raw [0x368045acf2b71ae3, 0x4c24b33b410fefd4, 0xe280d31670123f74, 0x06dbfb42b979884d]],
    [raw [0xa7fc32d22f18b9d3, 0xb8d2de72e3d2c9ec, 0xc6f039ea1973a63e, 0x068d6b4608aae810],
     raw [0x2b5dfcc5572555df, 0xb868a7d7e1f1f69a, 0x0ee258c9b8fdfccd, 0x366ebfafa3ad381c],
     raw [0xe6bc229e95bc76b1, 0x7ef66d89d044d022, 0x04db3024f41d3f56, 0x39678f65512f1ee4]],
    [raw [0xe534c88fe53d85fe, 0xcf82c25f99dc01a4, 0xd58b7750a3bc2fe1, 0x21668f016a8063c0],
     raw [0x4bef429bc5331608, 0xe34dea56439fe195, 0x1bc749363e98a768, 0x39d00994a8a5046a],
     raw [0x770c956f60d881b3, 0xb163d41605d39f99, 0x6b203bbe12fb3425, 0x1f9dbdc3f8431263]],
    [raw [0x9794a9f7c336eab2, 0xbe0bc829fe5e66c6, 0xe5f17b9e0ee0cab6, 0x027745a9cddfad95],
     raw [0x52025657abd8aee0, 0x2fa43fe20a45c78d, 0x788d695c61e93212, 0x1cec0803c504b635],
     raw [0xd3872a9559a03a73, 0xed5082c8dbf31365, 0x72077448ef87cc6e, 0x123523d75e9fabc1]],
    [raw [0x001779e3a1d357f4, 0x27feba35975ee7e5, 0xf419b848e5d694bf, 0x1723d1452c9cf02d],
     raw [0x9dab1ee4dcf96622, 0x21c3f776f572836d, 0xfcc0573d7e613694, 0x1739d180a16010bd],
     raw [0x70290452042d048d, 0xfafa96fbeb0ab893, 0xacce32391794b627, 0x2d4e6354da9cc554]],
    [raw [0x670bcf6f8b485dcd, 0x8f3bd43f99260621, 0x4a869553c9d007f8, 0x153ee6142e535e33],
     raw [0xd258d2e2b7782172, 0x968ad4424af83700, 0x635ef7e7a430b486, 0x0c45bfd3a69aaa65],
     raw [0x0e5633d251f73307, 0x6897ac0a8ffa5ff1, 0xf2d56aec83144600, 0x0adfd53b256a6957]],
    [raw [0xac9d36a8b7516d63, 0x3f87b28f1c1be4bd, 0x8cd1726b7cbab8ee, 0x315d2ac8ebdbac3c],
     raw [0x299ce44ea423d8e1, 0xc9bb60d1f6959879, 0xcfaec23d2b16883f, 0x1b8472712d02eef4],
     raw [0xc4a5404198adf70c, 0x367d2c54e36928c9, 0xbd0b70fa2255eb6f, 0x3c1cd07efda6ff24]],
    [raw [0xbbe523aef9ab107a, 0x4a16073f738f7e0c, 0x687f4e51b2e1dcd3, 0x136052d26bb3d373],
     raw [0x676c36c24ef967dd, 0x7b3cfbb873032681, 0xc1bdd859a1232a1d, 0x16c96beef6a0a848],
     raw [0x067eec7f2d6340c4, 0x012387bab4f1662d, 0x2ab7fed8f499a9fb, 0x284b38c57ff65c26]],
    [raw [0xaf1dff204c922f86, 0xfc06772c1c0411a6, 0x39e242198897d17c, 0x0c5993d175e81f66],
     raw [0xbbf53f67b1f87b15, 0xf24887ad48e17759, 0xfcda655d1ba9c8f9, 0x03bf7a3f7bd043da],
     raw [0x9b5cd09e36d8be62, 0x4c8f9cbe69f0e827, 0xb0cf999567f00e73, 0x3188fe4ee9f9fafb]],
    [raw [0xafea99a2ec6c595a, 0x3af5bf77c1c42652, 0x5a39768c480d61e1, 0x171f528ccf658437],
     raw [0x5a0563b9b8e9f1d5, 0x812c3286ee700067, 0x196e41859b35ef88, 0x12f4175c4ab45afc],
     raw [0x0e74d4d369118b79, 0x7e23e1aabe96cfab, 0x8f8fdcf800a9ac69, 0x3a509e155cb7ebfd]],
    [raw [0x98712c65678cfd30, 0x984bc8f2e4c1b69e, 0x1a89920e2504c3b3, 0x10f2a685df4a27c8],
     raw [0xe8a16728cc9d4918, 0x54573c9333c56321, 0x1d8d93d54ab91a0e, 0x09e5f49790c8a0e2],
     raw [0x609a740347cf5fea, 0x42d17ed6ee0fab7e, 0x2bf35705d9f84a34, 0x352d69bed80ee3e5]],
    [raw [0x3a758af6fa84e0e8, 0xc634debd281b76a6, 0x491562faf2b190d3, 0x058ee73ba9f3f293],
     raw [0x621a132510a43904, 0x092cb92119bc76be, 0xcd0f1fc55b1a3250, 0x232f99cc911eddd9],
     raw [0xc3b97c1e301bc213, 0xf9efd52ca6bc2961, 0x86c22c6c5d4869f0, 0x201beed7b8f3ab81]],
    [raw [0xbf6b3431ba94e9bc, 0x29388842744a1210, 0xa1c9291d58602f51, 0x1376dce6580030c6],
     raw [0x6454843c5486d7b3, 0x072ba8b02d92e722, 0x2b3356c38238f761, 0x1793199e6fd6ba34],
     raw [0x06a3f1d3b433311b, 0x3c66160dc62aacac, 0x9fee9c20c87a67df, 0x22de7a7488dcc735]],
    [raw [0x30d6e3fd516b47a8, 0xdbe0b77fae77e1d0, 0xdf8ff37fe2d8edf8, 0x3514d5e9066bb160],
     raw [0x19377427137a81c7, 0xff453d6f900f144a, 0xf919a00dabbf5fa5, 0x30cd3006931ad636],
     raw [0x5b6a74220692b506, 0x8f9e4b2cae2ebb51, 0x41f81a5cf613c8df, 0x253d1a5c52934127]],
    [raw [0x73f666cb86a48e8e, 0x851b3a59c990fafc, 0xa35e9613e7f5fe92, 0x035b461c02d79d19],
     raw [0x7cfbf86a3aa04780, 0x92b1283c2d5fccde, 0x5bc00eedd56b93e0, 0x23a9928079d175bd],
     raw [0xf1e4ccd73fa00a82, 0xb5e2ea3436eef957, 0xf1594a0763c611ab, 0x13a7785ae134ea92]],
    [raw [0xbbf04f5252de4279, 0x3889c57863446d88, 0x4962ae3c0da17e31, 0x39fce308b7d43c57],
     raw [0x3b57e34489b53fad, 0xbef00a08c6ed38d2, 0xc0fdf01662f60d22, 0x1aae18833f8e1d3a],
     raw [0x55513e033398513f, 0x27c1b3fd8f85d8a8, 0x8b2e80c064fd83ed, 0x1a761ce82400af01]],
    [raw [0x5244ca749b73e481, 0xdcf6af2830a50287, 0x16dd1a87ca22e1cc, 0x275a03e45adda7c3],
     raw [0x58a253cfb6a95786, 0x07e561453fc5648b, 0xeb08e47e5feabcf8, 0x2e5a10f08b5ab8bb],
     raw [0xe033d82cefe78ce3, 0xc141a5b6d594bec4, 0xb84e9c333b2932f1, 0x1459cb8587208473]],
    [raw [0x5cec7e7b338fbe1b, 0x52f9332fbffcfbbd, 0x7b92ce810e14a400, 0x193ae5921d78b5de],
     raw [0x60224be67248e82c, 0x374384f4a0728205, 0x89111fb2c4660281, 0x3097898a5d0011a4],
     raw [0x549980de862930f5, 0x1979b2d1c465b4d9, 0x571782fd96ce54b4, 0x378d97bf8c864ae7]],
    [raw [0x37ea32a971d17884, 0xdbc7f5cb46093421, 0x88136287ce376b08, 0x2eb04ea7c01d97ec],
     raw [0xead3726f1af2e7b0, 0x861cbda476804e6c, 0x2302a1c22e49baec, 0x36425347ea03f641],
     raw [0xecd627e59590d09e, 0x3f5b5ca5a19a9701, 0xcc996cd85c98a1d8, 0x26b72df47408ad42]],
    [raw [0x59bece31f0a31e95, 0xde01212ee4588f89, 0x1f05636c610b89aa, 0x130180e44e2924db],
     raw [0x9ea8e7bc79263550, 0xdf7793cc89e5b52f, 0x73275acaed5f579c, 0x219e97737d3979ba],
     raw [0x9c12635df251d153, 0x3b0672dd7d42cbb4, 0x3461363f81c489a2, 0x3cdb93598a5ca528]],
    [raw [0x2861ce16f219d5a9, 0x4ad0447045a7c5aa, 0x20724b927a0ca81c, 0x0e59e6f332d7ed37],
     raw [0x43b0a3fcff2036bd, 0x172cc07b9d33fbf9, 0x3d7369467222697a, 0x1b064342d51a4275],
     raw [0x3eb310228a0e5f6c, 0x78fa9fb9171221b7, 0x2f363c55b2882e0b, 0x30b82a998cbd8e8a]],
    [raw [0xe46f6d4298740107, 0x8ad71ea715be0573, 0x63df7a76e858a4aa, 0x23e4ab37183acba4],
     raw [0xfca995e2b59914a1, 0xacfe14640de044f2, 0x5d33094e0beda75b, 0x2795d5c5fa428022],
     raw [0xc26d909dee8b53c0, 0xa6687c3df16c8fe4, 0xd765f26dd03f4c45, 0x3001ca401e89601c]],
    [raw [0xe7fea6bdf3471380, 0xe84b5bebae4e501d, 0xf7bf86e89280827f, 0x0072e45cc676b08e],
     raw [0xd0c54ddeb26b86c0, 0xb64829e2d40e41bd, 0xe2abe4c518ce599e, 0x13de705484874bb5],
     raw [0x38915b432a9959a5, 0x82bb18e5af1b05bb, 0x315950f1211defe8, 0x0408a9fcf9d61abf]],
    [raw [0x34070cbee26886a0, 0xae4d23b0b41be9a8, 0xbb4e4a1400ccd2c4, 0x2780b9e75b55676e],
     raw [0x9405592098b4056f, 0xdc4d8fbefe24405a, 0xf80333ec85634ac9, 0x3a570d4d7c4e7ac3],
     raw [0x78d2b247899520b4, 0xe2cc1507bebdcc62, 0xf347c247fcf09294, 0x0c13cca7cb1f9d2c]],
    [raw [0x2e8c88f7707470e0, 0x0b50bb2eb82df74d, 0xd2614a197c6b794b, 0x14f59baa03cd0ca4],
     raw [0xbe52476e0a16f3be, 0xa51d54ede66167f5, 0x6f546e1704c39c60, 0x307defee925dfb43],
     raw [0x380b67d80473dce3, 0x661106836adfe5e7, 0x7a07e7674b5a2621, 0x1960cd511a91e060]],
    [raw [0x15aaf1f7712589dd, 0xb8ee335d88284cbe, 0xca2ad0fb56672500, 0x2301ef9c63ea84c5],
     raw [0x5e68478c4d6027a9, 0xc86182d1b4246b58, 0xd10f4cd52be97f6b, 0x029a5a47da79a488],
     raw [0x2cc4f962eaae2260, 0xf97fe46b6a925428, 0x2360d17d890e55cb, 0x32d7b16a7f11cc96]],
    [raw [0xc0cab915d5363d9f, 0xa5f2404cd7b35eb0, 0x18e857a98d498cf7, 0x26703e48c03b81ca],
     raw [0xf691123ae112b928, 0xf44388bd6b89221e, 0x88ac8d25a24603f1, 0x048682a35b3265bc],
     raw [0x3ab7defcb8d803e2, 0x91d6e1715164775e, 0xd72cddc6cf06b507, 0x06b1390441fa7030]],
    [raw [0xbcd795414a6e2e86, 0x43b360f6386a86d7, 0x1689426dce05fcd8, 0x31aa0eeb868c626d],
     raw [0xed77f5d576b99cc3, 0x90efd8f41b2078b2, 0x057abad3764c104b, 0x239464f75bf7b6af],
     raw [0xb2cb487307c1cecf, 0xa5cc47c59654b2a7, 0xa45e19ed813a54ab, 0x0a64d4c04fd426bd]],
    [raw [0x1f7315322f658735, 0x777c7a921a062e9d, 0x576a4ad259860fb1, 0x21fbbdbb73670734],
     raw [0x674324003fc52146, 0x5b86d29463d31564, 0xd9371ca2eb95acf3, 0x31b86f3cf01705d4],
     raw [0x7045f48aa4eb4f6f, 0x13541d65157ee1ce, 0x05ef1736d09056f6, 0x2bfde53354377c91]],
    [raw [0x5a13a58d20011e2f, 0xf4d5239c11d0eafa, 0xd558f36e65f8eca7, 0x1233ca936ec24671],
     raw [0x6e70af0a7a924b3a, 0x878058d0234a576f, 0xc437846d8e0b2b30, 0x27d452a43ac7dea2],
     raw [0xa02576b94392f980, 0x6a30641a1c3d87b2, 0xe816ea8da493e0fa, 0x2699dba82184e413]],
    [raw [0x608c6f7a61b56e55, 0xf18584664f8cab49, 0xc3988baee42e4b10, 0x36c722f0efcc8803],
     raw [0x6e49ac170dbb7fcd, 0x85c38899a7b5a833, 0x08b0f2ec89ccaa37, 0x02b3ff48861e339b],
     raw [0xa8c5ae03ad98e405, 0x6fc3ff4c49eb59ad, 0x60162f4427bc657b, 0x0b70d061d58d8a7f]],
    [raw [0x2e06cc4af33b0a06, 0xad3de8be46ed9693, 0xf8753adeb9d7cee2, 0x3fc2a13f127f96a4],
     raw [0xc12080ac117ee15f, 0x00cb3d621e171d80, 0x1bd63434ac8c419f, 0x0c41a6e48dd23a51],
     raw [0x9685213e9692f5e1, 0x72aaad7e4e75339d, 0xed4476537169084e, 0x2de8072a6bd86884]],
    [raw [0x0ad01184567b027c, 0xb81cf735cc9c39c0, 0x9d3496a3d9fe05ec, 0x03557a8f7b38a17f],
     raw [0x45bcb5ac00826abc, 0x060f43363d818e54, 0xee976d34282f1a37, 0x0b5f59552f498735],
     raw [0x2f2909e17e22b0df, 0xf5d646e57507e548, 0xfedbb18570dc7300, 0x0e2923a5fee7b878]],
    [raw [0xf71eed73f15b3326, 0xcf1cb37c3b032af6, 0xc787be97020a7fdd, 0x1d785005a7a00592],
     raw [0x0acfbfb223f8f00d, 0xa590b88a3b060294, 0x0ba5fedcb8f25bd2, 0x1ad772c273d9c6df],
     raw [0xc1ce13d60f2f5031, 0x810510eb61f0672d, 0xa78f3275c278234b, 0x027bd64785fcbd2a]],
    [raw [0x8337f5e07923a853, 0xe224313469457b8e, 0xce6f8ffea1031b6d, 0x20800f441b4a0526],
     raw [0xa33d7bed89a4408a, 0x36cdc8eed662ad37, 0x6eea2cd49f4312b4, 0x3d5ad61d7b65f938],
     raw [0x3bbbae94cc195284, 0x1df96cc03ea4b26d, 0x02c5f91be4dd8e3d, 0x13338bc351fc46dd]],
    [raw [0xc5271c297852819e, 0x646c49f9b46cbf19, 0xb87db1e2af3ea923, 0x25e52be507c92760],
     raw [0x5c380ab701b52ea9, 0xa34c83a3485c6b2d, 0x71096d8b1b983c98, 0x1c492d64c157aaa4],
     raw [0xa20c0b3da0da4ca3, 0xd43487bc288df682, 0xf4e6c5e7a573f592, 0x0c5b801579992718]],
    [raw [0x7ea33c93e40833cf, 0x584e9e62a7f9554e, 0x68695c0cd7cbf43d, 0x1090b1b4d2bebe7a],
     raw [0xe383e1ec3baa8d69, 0x1b218e35ecf2328e, 0x68f5ce5cbed19cad, 0x33e38018a801387a],
     raw [0xb76b0b3d787ee953, 0x5f4a02d28729e3ae, 0xeef8d83d0e876bac, 0x1654af18772b2da5]],
    [raw [0xef7ce6a013265477, 0xbb0893870367ec6c, 0x44742de88c5ab0d5, 0x1678be3cc9c67993],
     raw [0xaf5d47893348f766, 0xdaf1818355b13b4f, 0x7ff9c6be546e928a, 0x3780bd1e01f34c22],
     raw [0xa12380320d7cc1de, 0x5d11e69aa6c0b98c, 0x0786018e7cb77267, 0x1e83d6315c9f125b]],
    [raw [0x1799603e855ce731, 0xc486894d76e0c33b, 0x160b41552f2931c8, 0x354afd0a2f9d0b26],
     raw [0x8b997ee06be1bff3, 0x60b00dbe1faced07, 0x2d8affa62905c5a5, 0x00cd6d29f166eadc],
     raw [0x08d0641917082f2c, 0xc60d01973f183057, 0xdbe0e3d7cdbc66ef, 0x1d6219352768e3ae]],
    [raw [0xfa08dd9806387577, 0xafe3ca1db8d4f529, 0xe48d2370d7d1a142, 0x146336e25db5181d],
     raw [0xa901d3ce84de0ad4, 0x022e54b49c13d907, 0x997a21163e2e43df, 0x0005d8e085fd72ee],
     raw [0x1c36f31341964484, 0x6f8ebc1d2296021a, 0x0dd5e61c8a4e8642, 0x364e97c7a3893227]],
    [raw [0xd7a00c03d2e0baaa, 0xfa97ec80ad307a52, 0x561c6fff15346878, 0x01189910671bc16b],
     raw [0x63fd8ac57a95ca8c, 0x4c0f7e001df490aa, 0x5229dfaa01231a45, 0x162a7c80f4d2d12e],
     raw [0x32e69efb22f40b96, 0xcaff31b4fda32124, 0x2604e4afb09f8603, 0x2a0d6c09576666bb]],
    [raw [0xc0a0180f8cbfc0d2, 0xf444d10d63a74e2c, 0xe16a4d603d5a808e, 0x0978e5c51e1e5649],
     raw [0x03f4460ebc351b6e, 0x05087d903bdacfd1, 0xebe19bbdce251011, 0x1bdcee3aaca9cd25],
     raw [0xf61964bf3ade7670, 0x0c947321e0075e3f, 0xe49479140b1944fd, 0x1862cccb70b5b885]],
    [raw [0xc3267da6e94adc50, 0x39ee99c1cc6e5dda, 0xbc26cc883a1987e1, 0x1f3e91d863c16922],
     raw [0x0f85b4ac2c367406, 0xfa661465c656ad99, 0xef5c08f8478f663a, 0x1af47a48a6016a49],
     raw [0x0eabcd87e7d01b15, 0x1c3698b0a2e3da10, 0x009d57338c693505, 0x3c8ee901956e3d3f]],
    [raw [0x8b94772189673476, 0xe10ce2b7069f4dbd, 0x68d0b024f591b520, 0x1660a8cde7fec553],
     raw [0x9d8d0f67fdaa79d5, 0x3963c2c1f5586e2f, 0x1303936334dd1132, 0x0f6d991929d5e4e7],
     raw [0x7a433091e1ce2d3a, 0x4e7fda770712f343, 0xcc625eaaab52b4dc, 0x02b9cea1921cd9f6]],
    [raw [0x3797b2d8376043b3, 0xd8caf468976f0472, 0x214f7c6784acb565, 0x14a323b99b900331],
     raw [0x347fef2c00f0953a, 0x718b7fbc7788af78, 0xec01ea79642d5760, 0x190476b580cb9277],
     raw [0xff4e7e6fb268dfd7, 0x9660902b60087651, 0xa42463d30b442b6f, 0x090a3a9d869d2eef]],
    [raw [0xf983387ea0456203, 0xe365001304f9a11e, 0x0dbe8fd2270a6795, 0x3877a95586367567],
     raw [0x39c0af0fe01f4a06, 0x60118c53a2181352, 0x5df39a2cc63ddc0a, 0x2d894691240fe953],
     raw [0x1aca9eaf9bba9850, 0x5914e855eeb44aa1, 0x7ef7178020166189, 0x21b9c18292bdbc59]],
    [raw [0x33f509a74ad9d39b, 0x272e1cc6c36a2968, 0x505a05f2a6ae834c, 0x2fe76be7cff723e2],
     raw [0x0df9fa97277fa8b4, 0xd15bff840ddae8a5, 0x929981d7cfce253b, 0x187aa448f391e3ca],
     raw [0xf0c66af5ffc73736, 0x663ccf7b2ffe4b5e, 0x007ab3aa3617f422, 0x0b7083ad751707bf]],
    [raw [0x2f9b20f1fbd49791, 0x1975b962f6cb8e0b, 0x3bc4ca9902c52acb, 0x030ddbb470493f16],
     raw [0x3a1c62ca8fbf2525, 0x8fb8ab9d60ea17b2, 0x950b0ab18d3546df, 0x3130fbaffb5aa82a],
     raw [0x43a876180dc382e0, 0x15ce2ead2fcd051e, 0x4f74d74bac2ee457, 0x337f544707c430f0]],
    [raw [0x26de98a8736d1d11, 0x7d8e471a9fb95fef, 0xac9d91b0930dac75, 0x349979919015394f],
     raw [0xccfcb61831d5c775, 0x3bf93da6fff31d95, 0x2305cd7a921ec5f1, 0x027cc4efe3fb35dd],
     raw [0xc3fa2629635d27de, 0x67f1c6b7314764af, 0x61b71a3698682ad2, 0x037f9f2365954c5b]],
    [raw [0x77c5b024848371ae, 0x60414abe362d01c9, 0x10f1cc6df8b4bcd7, 0x1f697cac4d07feb7],
     raw [0x786add244aa0ef29, 0x3145c478063109d6, 0x26e6c851fbd572a6, 0x267a750fe5d7cfbc],
     raw [0x180e2b4d3e756f65, 0xaf285fa82ce4fae5, 0x678c9996d9a472c8, 0x0c91feab4a43193a]],
    [raw [0x79c47c573ac410f7, 0x7e3b83af4a4ba3ba, 0x2186c3038ea05e69, 0x1745569a0a3e3014],
     raw [0x1e0388522696191f, 0xfdff66c6f3b5ffe1, 0xeca5120778a56711, 0x29863d546e7e7c0d],
     raw [0x2f225e6366bfe390, 0xa79a03df833994c6, 0xbf06bae49ef853f6, 0x1148d6ab2bd00192]],
    [raw [0xf4f6331a8b265d15, 0xf745f45d350d41d4, 0xe18b1499060da366, 0x02e0e121b0f3dfef],
     raw [0x078ae6aa151054b7, 0x690401736d44a653, 0xb89ef73a40a2b274, 0x0d0aa46e76a6a278],
     raw [0x9a4d532c7b6e0958, 0x392dde710f1f06db, 0xeee545f3fa6d3d08, 0x13943675b04aa986]],
    [raw [0x961fc818dcbb66b5, 0xc9f2b3257530dafe, 0xd97a11d63088f5d9, 0x2901ec61942d34aa],
     raw [0xfdf544b963d1fdc7, 0x22ffa2a2af9fa3e3, 0xf431d54434a3e0cf, 0x20204a2105d22e7e],
     raw [0x1211b9e2190d6852, 0xa004abe8e01528c4, 0x5c1e3e9e27a571c3, 0x3a8a628295121d5c]]]"

definition ROUND_CONSTANTS_FR :: "nat list list" where
  "ROUND_CONSTANTS_FR = [
    [raw [0xbdb74213bf63188b, 0x4908ac2f12ebe06f, 0x5dc3c6c5febfaa31, 0x2bab94d7ae222d13],
     raw [0x0939d92753cc5dc8, 0xef77e7d736766c5d, 0x2bf03e1a29aa871f, 0x150c93fef652fb1c],
     raw [0xce9fb9ffc345afb3, 0xb407c370f2b5a1cc, 0xa0b7afe4e2057299, 0x073f116f04122e25]],
    [raw [0x8ebad76fc71554d8, 0x55c9cd2061ae93ca, 0x7affd09c1f53f5fd, 0x2a32ec5c4ee5b183],
     raw [0x2d8ccbe292efeead, 0x634d24fc6e2559f2, 0x651e2cfc740628ca, 0x270326ee039df19e],
     raw [0xa068fc37c182e274, 0x8af895bce012f182, 0xdc100fe7fcfa5491, 0x27c6642ac633bc66]],
    [raw [0x9ca18682e26d7ff9, 0x710e1fb6ab976a45, 0xd27f57396989129d, 0x1bdfd8b01401c70a],
     raw [0xc832d824261a35ea, 0xf4f6fb3f9054d373, 0x14b9d6a9c84dd678, 0x162a14c62f9a89b8],
     raw [0xf79824667b5b6bec, 0xac0a1fc71e2cf0c0, 0x2af6f79e3127feea, 0x2d193e0f76de586b]],
    [raw [0x5d0bf58dc8a4aa94, 0x4feff82984990ff8, 0x81696ef1104e674f, 0x044ca3cc4a85d73b],
     raw [0x6198785f0cd6b9af, 0xb8d9e2d4f314f46f, 0x1d0453416d3e235c, 0x1cbaf2b371dac6a8],
     raw [0x343e07610f3fede5, 0x293c4ab038fdbbdc, 0x0e6c49d061b6b5f4, 0x1d5b2777692c205b]],
    [raw [0xf60e971b8d73b04f, 0x06a9adb0c1e6f962, 0xaa30535bdd749a7e, 0x2e9bdbba3dd34bff],
     raw [0x035a13661f22418b, 0xde40fbe26d047b05, 0x8bd5bae36969299f, 0x2de11886b18011ca],
     raw [0xbc998884ba96a721, 0x2ab9395c449be947, 0x0d5b4a3f1841dcd8, 0x2e07de1780b8a70d]],
    [raw [0x825e4c2bb74925ca, 0x250440a99d6b8af3, 0xbbdb63dbd52dad16, 0x0f69f1854d20ca0c],
     raw [0x816c059422dc705e, 0x6ce5113507f96de9, 0x0d135dc639fb09a4, 0x2eb1b25417fe1767],
     raw [0xb8b1bdf4953bd82c, 0xff36c661d26cc42d, 0x8c24cb44c3fab48a, 0x115cd0a0643cfb98]],
    [raw [0xde801612311d04cd, 0xbb57ddf14e0f958a, 0x066d7378b999868b, 0x26ca293f7b2c462d],
     raw [0xf5209d14b24820ca, 0x0f160bf9f71e967f, 0x2a830aa162412cd9, 0x17bf1b93c4c7e01a],
     raw [0x271618d874b14c6d, 0x08e286442a2d3eb2, 0x4950856dc907d575, 0x2cc6810031dc1b0d]],
    [raw [0x91f318c09f0cb566, 0x9e517aa93b78341d, 0x059618e2afd2ef99, 0x25bdbbeda1bde8c1],
     raw [0xe7bbcef02eb5866c, 0x5e6a6fd15db89365, 0x9aa6111f4de00948, 0x272a55878a08442b],
     raw [0x9b925b3c5b21e0e2, 0xa6ebba011694dd12, 0xefa13c4e60e26239, 0x2d5b308b0cf02cdf]],
    [raw [0xef38c57c311673ac, 0x44dff42f18b46c56, 0xdd5d293d72e2e5f2, 0x16549fc6af2f3b72],
     raw [0x9b7126d9b46860df, 0x7639826534420311, 0xfa69c3a2ad52f76d, 0x1b10bb7a82afce39],
     raw [0x90d27f6a00b7dfc8, 0xd1b36968ba0405c0, 0xc79c2df7dc98a3be, 0x0f1e7505ebd91d2f]],
    [raw [0xff457756b819bb20, 0x797fd6e3f18eb1ca, 0x537a7497a3b43f46, 0x2f313faf0d3f6187],
     raw [0x368045acf2b71ae3, 0x4c24b33b410fefd4, 0xe280d31670123f74, 0x06dbfb42b979884d],
     raw [0xa7fc32d22f18b9d3, 0xb8d2de72e3d2c9ec, 0xc6f039ea1973a63e, 0x068d6b4608aae810]],
    [raw [0xe534c88fe53d85fe, 0xcf82c25f99dc01a4, 0xd58b7750a3bc2fe1, 0x21668f016a8063c0],
     raw [0x770c956f60d881b3, 0xb163d41605d39f99, 0x6b203bbe12fb3425, 0x1f9dbdc3f8431263],
     raw [0x9794a9f7c336eab2, 0xbe0bc829fe5e66c6, 0xe5f17b9e0ee0cab6, 0x027745a9cddfad95]],
    [raw [0x52025657abd8aee0, 0x2fa43fe20a45c78d, 0x788d695c61e93212, 0x1cec0803c504b635],
     raw [0xd3872a9559a03a73, 0xed5082c8dbf31365, 0x72077448ef87cc6e, 0x123523d75e9fabc1],
     raw [0x001779e3a1d357f4, 0x27feba35975ee7e5, 0xf419b848e5d694bf, 0x1723d1452c9cf02d]],
    [raw [0x9dab1ee4dcf96622, 0x21c3f776f572836d, 0xfcc0573d7e613694, 0x1739d180a16010bd],
     raw [0x70290452042d048d, 0xfafa96fbeb0ab893, 0xacce32391794b627, 0x2d4e6354da9cc554],
     raw [0x670bcf6f8b485dcd, 0x8f3bd43f99260621, 0x4a869553c9d007f8, 0x153ee6142e535e33]],
    [raw [0xd258d2e2b7782172, 0x968ad4424af83700, 0x635ef7e7a430b486, 0x0c45bfd3a69aaa65],
     raw [0x0e5633d251f73307, 0x6897ac0a8ffa5ff1, 0xf2d56aec83144600, 0x0adfd53b256a6957],
     raw [0x299ce44ea423d8e1, 0xc9bb60d1f6959879, 0xcfaec23d2b16883f, 0x1b8472712d02eef4]],
    [raw [0xbbe523aef9ab107a, 0x4a16073f738f7e0c, 0x687f4e51b2e1dcd3, 0x136052d26bb3d373],
     raw [0x676c36c24ef967dd, 0x7b3cfbb873032681, 0xc1bdd859a1232a1d, 0x16c96beef6a0a848],
     raw [0x067eec7f2d6340c4, 0x012387bab4f1662d, 0x2ab7fed8f499a9fb, 0x284b38c57ff65c26]],
    [raw [0xaf1dff204c922f86, 0xfc06772c1c0411a6, 0x39e242198897d17c, 0x0c5993d175e81f66],
     raw [0xbbf53f67b1f87b15, 0xf24887ad48e17759, 0xfcda655d1ba9c8f9, 0x03bf7a3f7bd043da],
     raw [0xafea99a2ec6c595a, 0x3af5bf77c1c42652, 0x5a39768c480d61e1, 0x171f528ccf658437]],
    [raw [0x5a0563b9b8e9f1d5, 0x812c3286ee700067, 0x196e41859b35ef88, 0x12f4175c4ab45afc],
     raw [0x98712c65678cfd30, 0x984bc8f2e4c1b69e, 0x1a89920e2504c3b3, 0x10f2a685df4a27c8],
     raw [0xe8a16728cc9d4918, 0x54573c9333c56321, 0x1d8d93d54ab91a0e, 0x09e5f49790c8a0e2]],
    [raw [0x3a758af6fa84e0e8, 0xc634debd281b76a6, 0x491562faf2b190d3, 0x058ee73ba9f3f293],
     raw [0x621a132510a43904, 0x092cb92119bc76be, 0xcd0f1fc55b1a3250, 0x232f99cc911eddd9],
     raw [0xc3b97c1e301bc213, 0xf9efd52ca6bc2961, 0x86c22c6c5d4869f0, 0x201beed7b8f3ab81]],
    [raw [0xbf6b3431ba94e9bc, 0x29388842744a1210, 0xa1c9291d58602f51, 0x1376dce6580030c6],
     raw [0x6454843c5486d7b3, 0x072ba8b02d92e722, 0x2b3356c38238f761, 0x1793199e6fd6ba34],
     raw [0x06a3f1d3b433311b, 0x3c66160dc62aacac, 0x9fee9c20c87a67df, 0x22de7a7488dcc735]],
    [raw [0x5b6a74220692b506, 0x8f9e4b2cae2ebb51, 0x41f81a5cf613c8df, 0x253d1a5c52934127],
     raw [0x73f666cb86a48e8e, 0x851b3a59c990fafc, 0xa35e9613e7f5fe92, 0x035b461c02d79d19],
     raw [0x7cfbf86a3aa04780, 0x92b1283c2d5fccde, 0x5bc00eedd56b93e0, 0x23a9928079d175bd]],
    [raw [0xf1e4ccd73fa00a82, 0xb5e2ea3436eef957, 0xf1594a0763c611ab, 0x13a7785ae134ea92],
     raw [0x3b57e34489b53fad, 0xbef00a08c6ed38d2, 0xc0fdf01662f60d22, 0x1aae18833f8e1d3a],
     raw [0x55513e033398513f, 0x27c1b3fd8f85d8a8, 0x8b2e80c064fd83ed, 0x1a761ce82400af01]],
    [raw [0x5244ca749b73e481, 0xdcf6af2830a50287, 0x16dd1a87ca22e1cc, 0x275a03e45adda7c3],
     raw [0x58a253cfb6a95786, 0x07e561453fc5648b, 0xeb08e47e5feabcf8, 0x2e5a10f08b5ab8bb],
     raw [0xe033d82cefe78ce3, 0xc141a5b6d594bec4, 0xb84e9c333b2932f1, 0x1459cb8587208473]],
    [raw [0x5cec7e7b338fbe1b, 0x52f9332fbffcfbbd, 0x7b92ce810e14a400, 0x193ae5921d78b5de],
     raw [0x37ea32a971d17884, 0xdbc7f5cb46093421, 0x88136287ce376b08, 0x2eb04ea7c01d97ec],
     raw [0xecd627e59590d09e, 0x3f5b5ca5a19a9701, 0xcc996cd85c98a1d8, 0x26b72df47408ad42]],
    [raw [0x59bece31f0a31e95, 0xde01212ee4588f89, 0x1f05636c610b89aa, 0x130180e44e2924db],
     raw [0x9ea8e7bc79263550, 0xdf7793cc89e5b52f, 0x73275acaed5f579c, 0x219e97737d3979ba],
     raw [0x2861ce16f219d5a9, 0x4ad0447045a7c5aa, 0x20724b927a0ca81c, 0x0e59e6f332d7ed37]],
    [raw [0x43b0a3fcff2036bd, 0x172cc07b9d33fbf9, 0x3d7369467222697a, 0x1b064342d51a4275],
     raw [0xe46f6d4298740107, 0x8ad71ea715be0573, 0x63df7a76e858a4aa, 0x23e4ab37183acba4],
     raw [0xfca995e2b59914a1, 0xacfe14640de044f2, 0x5d33094e0beda75b, 0x2795d5c5fa428022]],
    [raw [0xc26d909dee8b53c0, 0xa6687c3df16c8fe4, 0xd765f26dd03f4c45, 0x3001ca401e89601c],
     raw [0xe7fea6bdf3471380, 0xe84b5bebae4e501d, 0xf7bf86e89280827f, 0x0072e45cc676b08e],
     raw [0xd0c54ddeb26b86c0, 0xb64829e2d40e41bd, 0xe2abe4c518ce599e, 0x13de705484874bb5]],
    [raw [0x38915b432a9959a5, 0x82bb18e5af1b05bb, 0x315950f1211defe8, 0x0408a9fcf9d61abf],
     raw [0x34070cbee26886a0, 0xae4d23b0b41be9a8, 0xbb4e4a1400ccd2c4, 0x2780b9e75b55676e],
     raw [0x78d2b247899520b4, 0xe2cc1507bebdcc62, 0xf347c247fcf09294, 0x0c13cca7cb1f9d2c]],
    [raw [0x2e8c88f7707470e0, 0x0b50bb2eb82df74d, 0xd2614a197c6b794b, 0x14f59baa03cd0ca4],
     raw [0x380b67d80473dce3, 0x661106836adfe5e7, 0x7a07e7674b5a2621, 0x1960cd511a91e060],
     raw [0x15aaf1f7712589dd, 0xb8ee335d88284cbe, 0xca2ad0fb56672500, 0x2301ef9c63ea84c5]],
    [raw [0x5e68478c4d6027a9, 0xc86182d1b4246b58, 0xd10f4cd52be97f6b, 0x029a5a47da79a488],
     raw [0xc0cab915d5363d9f, 0xa5f2404cd7b35eb0, 0x18e857a98d498cf7, 0x26703e48c03b81ca],
     raw [0xf691123ae112b928, 0xf44388bd6b89221e, 0x88ac8d25a24603f1, 0x048682a35b3265bc]],
    [raw [0x3ab7defcb8d803e2, 0x91d6e1715164775e, 0xd72cddc6cf06b507, 0x06b1390441fa7030],
     raw [0xed77f5d576b99cc3, 0x90efd8f41b2078b2, 0x057abad3764c104b, 0x239464f75bf7b6af],
     raw [0xb2cb487307c1cecf, 0xa5cc47c59654b2a7, 0xa45e19ed813a54ab, 0x0a64d4c04fd426bd]],
    [raw [0x1f7315322f658735, 0x777c7a921a062e9d, 0x576a4ad259860fb1, 0x21fbbdbb73670734],
     raw [0x7045f48aa4eb4f6f, 0x13541d65157ee1ce, 0x05ef1736d09056f6, 0x2bfde53354377c91],
     raw [0x5a13a58d20011e2f, 0xf4d5239c11d0eafa, 0xd558f36e65f8eca7, 0x1233ca936ec24671]],
    [raw [0x6e70af0a7a924b3a, 0x878058d0234a576f, 0xc437846d8e0b2b30, 0x27d452a43ac7dea2],
     raw [0xa02576b94392f980, 0x6a30641a1c3d87b2, 0xe816ea8da493e0fa, 0x2699dba82184e413],
     raw [0x6e49ac170dbb7fcd, 0x85c38899a7b5a833, 0x08b0f2ec89ccaa37, 0x02b3ff48861e339b]],
    [raw [0xa8c5ae03ad98e405, 0x6fc3ff4c49eb59ad, 0x60162f4427bc657b, 0x0b70d061d58d8a7f],
     raw [0xc12080ac117ee15f, 0x00cb3d621e171d80, 0x1bd63434ac8c419f, 0x0c41a6e48dd23a51],
     raw [0x9685213e9692f5e1, 0x72aaad7e4e75339d, 0xed4476537169084e, 0x2de8072a6bd86884]],
    [raw [0x0ad01184567b027c, 0xb81cf735cc9c39c0, 0x9d3496a3d9fe05ec, 0x03557a8f7b38a17f],
     raw [0x45bcb5ac00826abc, 0x060f43363d818e54, 0xee976d34282f1a37, 0x0b5f59552f498735],
     raw [0x2f2909e17e22b0df, 0xf5d646e57507e548, 0xfedbb18570dc7300, 0x0e2923a5fee7b878]],
    [raw [0xf71eed73f15b3326, 0xcf1cb37c3b032af6, 0xc787be97020a7fdd, 0x1d785005a7a00592],
     raw [0x0acfbfb223f8f00d, 0xa590b88a3b060294, 0x0ba5fedcb8f25bd2, 0x1ad772c273d9c6df],
     raw [0xc1ce13d60f2f5031, 0x810510eb61f0672d, 0xa78f3275c278234b, 0x027bd64785fcbd2a]],
    [raw [0x8337f5e07923a853, 0xe224313469457b8e, 0xce6f8ffea1031b6d, 0x20800f441b4a0526],
     raw [0x3bbbae94cc195284, 0x1df96cc03ea4b26d, 0x02c5f91be4dd8e3d, 0x13338bc351fc46dd],
     raw [0xc5271c297852819e, 0x646c49f9b46cbf19, 0xb87db1e2af3ea923, 0x25e52be507c92760]],
    [raw [0x5c380ab701b52ea9, 0xa34c83a3485c6b2d, 0x71096d8b1b983c98, 0x1c492d64c157aaa4],
     raw [0xa20c0b3da0da4ca3, 0xd43487bc288df682, 0xf4e6c5e7a573f592, 0x0c5b801579992718],
     raw [0x7ea33c93e40833cf, 0x584e9e62a7f9554e, 0x68695c0cd7cbf43d, 0x1090b1b4d2bebe7a]],
    [raw [0xb76b0b3d787ee953, 0x5f4a02d28729e3ae, 0xeef8d83d0e876bac, 0x1654af18772b2da5],
     raw [0xef7ce6a013265477, 0xbb0893870367ec6c, 0x44742de88c5ab0d5, 0x1678be3cc9c67993],
     raw [0xa12380320d7cc1de, 0x5d11e69aa6c0b98c, 0x0786018e7cb77267, 0x1e83d6315c9f125b]],
    [raw [0x8b997ee06be1bff3, 0x60b00dbe1faced07, 0x2d8affa62905c5a5, 0x00cd6d29f166eadc],
     raw [0x08d0641917082f2c, 0xc60d01973f183057, 0xdbe0e3d7cdbc66ef, 0x1d6219352768e3ae],
     raw [0xfa08dd9806387577, 0xafe3ca1db8d4f529, 0xe48d2370d7d1a142, 0x146336e25db5181d]],
    [raw [0xa901d3ce84de0ad4, 0x022e54b49c13d907, 0x997a21163e2e43df, 0x0005d8e085fd72ee],
     raw [0xd7a00c03d2e0baaa, 0xfa97ec80ad307a52, 0x561c6fff15346878, 0x01189910671bc16b],
     raw [0x63fd8ac57a95ca8c, 0x4c0f7e001df490aa, 0x5229dfaa01231a45, 0x162a7c80f4d2d12e]],
    [raw [0x32e69efb22f40b96, 0xcaff31b4fda32124, 0x2604e4afb09f8603, 0x2a0d6c09576666bb],
     raw [0xc0a0180f8cbfc0d2, 0xf444d10d63a74e2c, 0xe16a4d603d5a808e, 0x0978e5c51e1e5649],
     raw [0x03f4460ebc351b6e, 0x05087d903bdacfd1, 0xebe19bbdce251011, 0x1bdcee3aaca9cd25]],
    [raw [0xf61964bf3ade7670, 0x0c947321e0075e3f, 0xe49479140b1944fd, 0x1862cccb70b5b885],
     raw [0xc3267da6e94adc50, 0x39ee99c1cc6e5dda, 0xbc26cc883a1987e1, 0x1f3e91d863c16922],
     raw [0x0f85b4ac2c367406, 0xfa661465c656ad99, 0xef5c08f8478f663a, 0x1af47a48a6016a49]],
    [raw [0x8b94772189673476, 0xe10ce2b7069f4dbd, 0x68d0b024f591b520, 0x1660a8cde7fec553],
     raw [0x9d8d0f67fdaa79d5, 0x3963c2c1f5586e2f, 0x1303936334dd1132, 0x0f6d991929d5e4e7],
     raw [0x7a433091e1ce2d3a, 0x4e7fda770712f343, 0xcc625eaaab52b4dc, 0x02b9cea1921cd9f6]],
    [raw [0x3797b2d8376043b3, 0xd8caf468976f0472, 0x214f7c6784acb565, 0x14a323b99b900331],
     raw [0x347fef2c00f0953a, 0x718b7fbc7788af78, 0xec01ea79642d5760, 0x190476b580cb9277],
     raw [0xff4e7e6fb268dfd7, 0x9660902b60087651, 0xa42463d30b442b6f, 0x090a3a9d869d2eef]],
    [raw [0x39c0af0fe01f4a06, 0x60118c53a2181352, 0x5df39a2cc63ddc0a, 0x2d894691240fe953],
     raw [0x1aca9eaf9bba9850, 0x5914e855eeb44aa1, 0x7ef7178020166189, 0x21b9c18292bdbc59],
     raw [0x33f509a74ad9d39b, 0x272e1cc6c36a2968, 0x505a05f2a6ae834c, 0x2fe76be7cff723e2]],
    [raw [0x0df9fa97277fa8b4, 0xd15bff840ddae8a5, 0x929981d7cfce253b, 0x187aa448f391e3ca],
     raw [0xf0c66af5ffc73736, 0x663ccf7b2ffe4b5e, 0x007ab3aa3617f422, 0x0b7083ad751707bf],
     raw [0x2f9b20f1fbd49791, 0x1975b962f6cb8e0b, 0x3bc4ca9902c52acb, 0x030ddbb470493f16]],
    [raw [0xccfcb61831d5c775, 0x3bf93da6fff31d95, 0x2305cd7a921ec5f1, 0x027cc4efe3fb35dd],
     raw [0xc3fa2629635d27de, 0x67f1c6b7314764af, 0x61b71a3698682ad2, 0x037f9f2365954c5b],
     raw [0x77c5b024848371ae, 0x60414abe362d01c9, 0x10f1cc6df8b4bcd7, 0x1f697cac4d07feb7]],
    [raw [0x786add244aa0ef29, 0x3145c478063109d6, 0x26e6c851fbd572a6, 0x267a750fe5d7cfbc],
     raw [0x180e2b4d3e756f65, 0xaf285fa82ce4fae5, 0x678c9996d9a472c8, 0x0c91feab4a43193a],
     raw [0x79c47c573ac410f7, 0x7e3b83af4a4ba3ba, 0x2186c3038ea05e69, 0x1745569a0a3e3014]],
    [raw [0x1e0388522696191f, 0xfdff66c6f3b5ffe1, 0xeca5120778a56711, 0x29863d546e7e7c0d],
     raw [0x2f225e6366bfe390, 0xa79a03df833994c6, 0xbf06bae49ef853f6, 0x1148d6ab2bd00192],
     raw [0xf4f6331a8b265d15, 0xf745f45d350d41d4, 0xe18b1499060da366, 0x02e0e121b0f3dfef]],
    [raw [0x078ae6aa151054b7, 0x690401736d44a653, 0xb89ef73a40a2b274, 0x0d0aa46e76a6a278],
     raw [0x9a4d532c7b6e0958, 0x392dde710f1f06db, 0xeee545f3fa6d3d08, 0x13943675b04aa986],
     raw [0x961fc818dcbb66b5, 0xc9f2b3257530dafe, 0xd97a11d63088f5d9, 0x2901ec61942d34aa]],
    [raw [0xfdf544b963d1fdc7, 0x22ffa2a2af9fa3e3, 0xf431d54434a3e0cf, 0x20204a2105d22e7e],
     raw [0x287f2749e41352fd, 0xf5b9912fa1b95820, 0x5dbc3f49ca7869e0, 0x001d5e8f3cea8195],
     raw [0xa880e11ee465f2d6, 0xa380e5f61f1eaa9f, 0x021f16d20e960a18, 0x01f91faac992dd42]],
    [raw [0x0c0fc5b33c18357d, 0xf236bd77d53d8fb8, 0x0f4e8fd99bd15d06, 0x0a8555c849ada278],
     raw [0xf2007593c154e15b, 0xaee9373f018ba24f, 0x9c89e397231ede05, 0x29f948916de24e86],
     raw [0x6a7284304f5b70a3, 0x7c6133f71995dc2e, 0xc144e91fd96b2ec8, 0x0269114ff78e09cb]],
    [raw [0xcf0048357d82afbe, 0x6823626b52a7c0f3, 0x54608be687622cb7, 0x2b108b9fb391c04c],
     raw [0x72dfdcf8891ad787, 0x86a85702cf174c69, 0xd72842cba220c59a, 0x0b91213cb136a105],
     raw [0x2a877a70a3ebb3b7, 0x1f21375c36602ac7, 0x463a03e5ab337ac9, 0x06abb501b891ed52]],
    [raw [0x2b9a6f21858483ad, 0xb7b1aa04db69d711, 0x0c9bc3c1733f560e, 0x19922dfa99774167],
     raw [0x7ee574840e6c3f90, 0x0d6f2cf030ed7281, 0x61dc9991df0af549, 0x1fb229e93f0b861c],
     raw [0xdcf25600282e2284, 0x630b0ac5ad9c1f36, 0x1eb41d2de839f9b1, 0x2d460ea834c5eab5]],
    [raw [0x92fdee7a78b92037, 0x65b2e764c8e4e779, 0x903e158ba0963889, 0x1b6d93d46e4794bc],
     raw [0xdb56b2612e36ca17, 0xa5edd19571517c5e, 0xcff6b2b20b10f74a, 0x23ed075d44bc0b48],
     raw [0xb67f40e169a5f399, 0x1b9aa28eb782d429, 0x2896a9a7cae267ad, 0x2ff7bc6dcac914d2]],
    [raw [0x8a20048c5b3e3126, 0x8a11e9e429392e4a, 0x251731d6e5ff2e58, 0x2facd8ba1337d9cc],
     raw [0x254f4b55586ffc42, 0x93f6b01d8e5447f2, 0x76c4e080dc516e51, 0x24748a6e06ced487],
     raw [0x884ef175dc33b2f0, 0xe35b760a36295342, 0x9ab2477f95102e00, 0x17e692f4fe8c097f]],
    [raw [0x1528e0a9aaf14bed, 0x665e91422a31fb3d, 0x1fdf6c66cdea697e, 0x0acfa881567f5f0b],
     raw [0xb979f1120705f382, 0x56dd3eb195dd3243, 0x25fbed87d353f43c, 0x0111170a0ec1e828],
     raw [0x91e89984ff086c5f, 0x9570591ca0c06e29, 0x009375d69f54c0cc, 0x291fe235683203d5]],
    [raw [0x5c2fced397b27783, 0x57012c81682d35df, 0x07245cbf448208cf, 0x29ff222379f6ceac],
     raw [0x296c5b9f800be457, 0xb4c8ec0a1875e8d3, 0x868d98ae9ccd33a7, 0x2021cd35566f89d6],
     raw [0x18f8158a43dda6b1, 0x2afd79da9358d186, 0xed7fe52abe50cfc0, 0x1db1a17011388aaa]],
    [raw [0x043c244b338c27eb, 0x951cdfc4086c0ca6, 0xb5e7cadb47638e80, 0x197ff7d9cbd30b4f],
     raw [0xf2330e951a7f2cf0, 0x14133e3841ce2054, 0x271d2d63c8992724, 0x1b9360f3b48c3afb],
     raw [0xb42577a0f83ce7e9, 0xdeb3de1d387b31f9, 0xb1cb211450e1518c, 0x28eb1b041d082b7f]],
    [raw [0x6e94df3937c3c942, 0xd28dc37d540ac42a, 0xcf8cfe59ba1b85a8, 0x2092afe69dd23c33],
     raw [0xfbd41918c532dcb5, 0x09ac3940ad877671, 0x08583d2547f84a42, 0x103b6021f37458aa],
     raw [0x95d5bc18be741216, 0xb8f7cc4ec2891acf, 0xf91bb574c4761a36, 0x202599d760f90549]],
    [raw [0xdb24dac881981671, 0x035e5b1bb1810058, 0x407db79733bdf007, 0x1754548748c2e828],
     raw [0x9899f1783cebddd1, 0x8ac7407b54ac72a1, 0x52a4835042dd4e43, 0x0fd8868609f9a9cf],
     raw [0xf9bb34960392ee36, 0x35c40b7222daebcf, 0x9da3d559afc7b1e1, 0x2fd513c171787271]],
    [raw [0x7172a413e214cc74, 0xcf1a2bfc4cf40ccd, 0xd4d8b137b40d0f49, 0x2838fd8092283f4e],
     raw [0x104d0d4c3a1596a4, 0x82a118fec3c5cc55, 0x2329d92ff1b07cfd, 0x2fcaa044a9c7d282],
     raw [0x89663e8c8c05d778, 0xb91eeee5238226b0, 0x00e7b597440216d8, 0x2aa36de295d7e4df]],
    [raw [0xe6bdc7a0cd409792, 0x6bf4808d824f485e, 0x91b4091396b28058, 0x19048a438a2ee97b],
     raw [0x2691abb40c430725, 0xcdcb4f3821a7456d, 0x3a704b6a135ba725, 0x2b0db31c21aba9c4],
     raw [0xc87859bde1c8f6f4, 0xce0f18a477b3c8c1, 0x74bea6519992a6b2, 0x149a072c8247eb79]],
    [raw [0xcafb8354de5ad8cc, 0x46a58143468f11f5, 0xfc08241a5f3ba857, 0x22591e36d0f28762],
     raw [0x66d4507f7789625e, 0xcbb336e267240d22, 0x19dff7efc48aefe6, 0x2ec5a30721986fd0],
     raw [0x65f2e814cf45f50f, 0x75241ee941e521ed, 0x517240750809fc4f, 0x0e3f4290e7fd3382]]]"

section \<open>The specification\<close>

definition field_table :: "nat list list \<Rightarrow> 'f::field list list" where
  "field_table t = map (map of_nat) t"

definition OrchardNullifier :: "'f::field spec" where
  "OrchardNullifier = \<lparr>sp_T = 3, sp_R = 2, full_rounds = 8, partial_rounds = 56, sbox = (\<lambda>x. x ^ 5),
     round_constants = field_table ROUND_CONSTANTS, mds = field_table MDS, mds_inv = field_table MDS_INV\<rparr>"

definition OrchardNullifier_fr :: "'f::field spec" where
  "OrchardNullifier_fr = \<lparr>sp_T = 3, sp_R = 2, full_rounds = 8, partial_rounds = 56, sbox = (\<lambda>x. x ^ 5),
     round_constants = field_table ROUND_CONSTANTS_FR, mds = field_table MDS_FR, mds_inv = field_table MDS_INV_FR\<rparr>"

section \<open>Facts\<close>

text \<open>A table of rows of three numbers below the modulus.\<close>

definition canonical :: "nat \<Rightarrow> nat \<Rightarrow> nat list list \<Rightarrow> bool" where
  "canonical p n t \<longleftrightarrow> length t = n \<and> list_all (\<lambda>row. length row = 3 \<and> list_all (\<lambda>x. x < p) row) t"

definition dot3 :: "nat list list \<Rightarrow> nat list list \<Rightarrow> nat \<Rightarrow> nat \<Rightarrow> nat" where
  "dot3 a b i j = a ! i ! 0 * b ! 0 ! j + a ! i ! 1 * b ! 1 ! j + a ! i ! 2 * b ! 2 ! j"

definition inverse_mod :: "nat \<Rightarrow> nat list list \<Rightarrow> nat list list \<Rightarrow> bool" where
  "inverse_mod p a b \<longleftrightarrow> (\<forall>i<3. \<forall>j<3. dot3 a b i j mod p = of_bool (i = j))"

lemma all_less_3: "(\<forall>i<3. P i) \<longleftrightarrow> P 0 \<and> P 1 \<and> P (2 :: nat)"
  by (auto simp: numeral_3_eq_3 numeral_2_eq_2 less_Suc_eq)

lemma mod_of_quotient: "x = q * p + d \<Longrightarrow> d < p \<Longrightarrow> x mod p = (d :: nat)"
  by simp

text \<open>The entries as numbers.\<close>

lemma MDS_values: "MDS =
  [[4844513277385895547578596669280046666372576567380472439333234012806535256931,
    22420227485671588580194914215361958133919537309433003325602272145024023440222,
    3505906565384614297249013623188452104971681200991017471148427242055139865693],
   [15918204248318370126242808206081613758525089148509539575126649371340283647612,
    17094040714843518372934853765548613673798971581804674915582475057795168500270,
    15812769689003694604229247543370933348074043003262912834067271177893884949626],
   [20880359470746774736726481852287259022559450533689220298394450009637377072100,
    13164192954509875252051728398669721690665762613581286296450591265062029506148,
    27123552791154096240274588421608257979835967097480491934880175221940903501553]]"
  by (simp add: MDS_def raw_def)

lemma MDS_INV_values: "MDS_INV =
  [[20241607003636850108660836115940502736811498405161200570689148677571525758571,
    23025138405716231373797697921576452089394779832936284534415647586071677203830,
    21114470993121751666622391512824860651712966646298666275694910489305939207392],
   [3504033996059159311740309710248240756957113985486095525011622326035730769568,
    19414840413788828401816890242172608374848052910344543636209619190950790406233,
    4217244064506252798101134783726078418056517622403921972441329684677055612801],
   [21618660570245270623069891679058806165723984266207336981665295036319267277064,
    13921368629272394430455146883034263447975556794517869272975033952323006867723,
    5901593508136776399775545089468732924270234646759139436179418386042074198766]]"
  by (simp add: MDS_INV_def raw_def)

lemma MDS_FR_values: "MDS_FR =
  [[4473021403568454786096338509898317686995100380747524303231607292973833410118,
    6648083168160755230257003601315341391695195307868279388174268362722909314713,
    7633587569208893023491166809835143585264978635409272884724310843483715111089],
   [20135842362410500885208173768940832168862960268621376661706388984598018556799,
    13202615279735049890387357896302549964166000115592326236700339176690737992884,
    10254964734836009348531440391847181566756911028356190002487384801530880612178],
   [3306117210199980324098073257456246200718270857527790037905395940498467957884,
    20241431687194605410912269424607969465325608918088206679068646178308951786840,
    11513800528335385375368722643178229057329229035739079306995651762905418781166]]"
  by (simp add: MDS_FR_def raw_def)

lemma MDS_INV_FR_values: "MDS_INV_FR =
  [[20302044650513428854287823116767816788589387571388929251547184931385730562759,
    1086436459345437420444701742493211616262361846560456370636837112107127708340,
    19221593436659233578706526541218139068820642753475470658350726801525985952637],
   [17302250789863662767125652336004847201432032934898413904614852969370435910220,
    16979156497897847596754979395252154336195593762988453555955088816832428667525,
    13088012865697053476847596410473582547286488581222043263385690984419677556359],
   [17107772977950442352741987449743247270948487836827705378935761940864376474386,
    14919791407422487446906957165016433153857628100116572689750581345596245856882,
    17319458816532279833004149116246482926231572278290048142005997907496070217457]]"
  by (simp add: MDS_INV_FR_def raw_def)

text \<open>The products, entry by entry, with their quotients by the modulus.\<close>

lemma MDS_MDS_INV_row0:
  "dot3 MDS MDS_INV 0 0 = 8719593156476811940271282936053674370456212364547779115812939253262317540104 * pallas_modulus + 1"
  "dot3 MDS MDS_INV 0 1 = 20576111856865813802021414640601649138207723336830055787673387446672297613135 * pallas_modulus + 0"
  "dot3 MDS MDS_INV 0 2 = 7514549334732634965812120387865864113726572645340762925648329888527170185076 * pallas_modulus + 0"
  by (simp_all add: dot3_def MDS_values MDS_INV_values pallas_modulus_def)

lemma MDS_MDS_INV_row1:
  "dot3 MDS MDS_INV 1 0 = 25008929012108654694522421129126359243714977362251452698285315392169984642148 * pallas_modulus + 0"
  "dot3 MDS MDS_INV 1 1 = 31730399906727900096596886976585098507016790126022358432982035358607330299491 * pallas_modulus + 1"
  "dot3 MDS MDS_INV 1 2 = 17324663398075082972651816618000059044896342176862097331668065437418683993370 * pallas_modulus + 0"
  by (simp_all add: dot3_def MDS_values MDS_INV_values pallas_modulus_def)

lemma MDS_MDS_INV_row2:
  "dot3 MDS MDS_INV 2 0 = 36449975066374518269954732967662841242425719270696342604183798222948830504788 * pallas_modulus + 0"
  "dot3 MDS MDS_INV 2 1 = 38481069179823702357841321921400822007684561941345348512931393196816247825719 * pallas_modulus + 0"
  "dot3 MDS MDS_INV 2 2 = 22677422831430560260593985274179737518824512869357140145586006661947901555185 * pallas_modulus + 1"
  by (simp_all add: dot3_def MDS_values MDS_INV_values pallas_modulus_def)

lemma MDS_INV_MDS_row0:
  "dot3 MDS_INV MDS 0 0 = 31278728631902901009208150246354053746431009230682741957265161171949030153480 * pallas_modulus + 1"
  "dot3 MDS_INV MDS 0 1 = 38875507464028271601003037358331431424667501643056331507642817924480493437694 * pallas_modulus + 0"
  "dot3 MDS_INV MDS 0 2 = 34812597953175936388964395003486057202761639920073835365624272130433738138107 * pallas_modulus + 0"
  by (simp_all add: dot3_def MDS_INV_values MDS_values pallas_modulus_def)

lemma MDS_INV_MDS_row1:
  "dot3 MDS_INV MDS 1 0 = 14304338375573054314359135793536265855809804583621609321607679212852492282592 * pallas_modulus + 0"
  "dot3 MDS_INV MDS 1 1 = 16096295679098171171574152813537831991502188278256244974862279567125249223969 * pallas_modulus + 1"
  "dot3 MDS_INV MDS 1 2 = 14981122136318639775631684348650715212812619454814568177515895855186504725755 * pallas_modulus + 0"
  by (simp_all add: dot3_def MDS_INV_values MDS_values pallas_modulus_def)

lemma MDS_INV_MDS_row2:
  "dot3 MDS_INV MDS 2 0 = 15529989113763514632825766270516288071281153401503040365088240771870845198180 * pallas_modulus + 0"
  "dot3 MDS_INV MDS 2 1 = 27648087223485739180397931866602183059699100154689454519939265580573732036578 * pallas_modulus + 0"
  "dot3 MDS_INV MDS 2 2 = 15752391583634200116679852126926624658364317850988290762253540534743270017331 * pallas_modulus + 1"
  by (simp_all add: dot3_def MDS_INV_values MDS_values pallas_modulus_def)

lemma MDS_FR_MDS_INV_FR_row0:
  "dot3 MDS_FR MDS_INV_FR 0 0 = 15370441913339277321270090793412917088251322450227114143063302208416167797575 * bn254_modulus + 1"
  "dot3 MDS_FR MDS_INV_FR 0 1 = 10582395016294758660003060506272592931934160773528965698545229978503269260679 * bn254_modulus + 0"
  "dot3 MDS_FR MDS_INV_FR 0 2 = 13943485742747514799873021648336842907116544820289940225343263104655947317118 * bn254_modulus + 0"
  by (simp_all add: dot3_def MDS_FR_values MDS_INV_FR_values bn254_modulus_def)

lemma MDS_FR_MDS_INV_FR_row1:
  "dot3 MDS_FR MDS_INV_FR 1 0 = 37128304209171663722979639473537087148498093217069645395451518760795279283437 * bn254_modulus + 0"
  "dot3 MDS_FR MDS_INV_FR 1 1 = 18231135380261282619716879726502248934233020835906709435982916226247756786515 * bn254_modulus + 1"
  "dot3 MDS_FR MDS_INV_FR 1 2 = 33691576694614341564268456001268442601967360532543910919795850201144865555745 * bn254_modulus + 0"
  by (simp_all add: dot3_def MDS_FR_values MDS_INV_FR_values bn254_modulus_def)

lemma MDS_FR_MDS_INV_FR_row2:
  "dot3 MDS_FR MDS_INV_FR 2 0 = 28066152032768968442667738055706919679900071837499316299573655769108815064896 * bn254_modulus + 0"
  "dot3 MDS_FR MDS_INV_FR 2 1 = 23714001524154074884422840599780197530176058246160428865583707851073249529316 * bn254_modulus + 0"
  "dot3 MDS_FR MDS_INV_FR 2 2 = 24117137057263077987830035024247166370594634227964712726550866925505477563137 * bn254_modulus + 1"
  by (simp_all add: dot3_def MDS_FR_values MDS_INV_FR_values bn254_modulus_def)

lemma MDS_INV_FR_MDS_FR_row0:
  "dot3 MDS_INV_FR MDS_FR 0 0 = 8051657478419646794179194417970535809442209619520101561017996662295725929537 * bn254_modulus + 1"
  "dot3 MDS_INV_FR MDS_FR 0 1 = 24597043149533870293624209949354264175515178459640566917668836551183049502071 * bn254_modulus + 0"
  "dot3 MDS_INV_FR MDS_FR 0 2 = 17700479576449883294103864781260017996245241611259641038746770960616283676789 * bn254_modulus + 0"
  by (simp_all add: dot3_def MDS_INV_FR_values MDS_FR_values bn254_modulus_def)

lemma MDS_INV_FR_MDS_FR_row1:
  "dot3 MDS_INV_FR MDS_FR 1 0 = 21132507716233581019986051093406234917877801045817512031200240074659462550823 * bn254_modulus + 0"
  "dot3 MDS_INV_FR MDS_FR 1 1 = 27600031448066369508733712350690580949526504021821074328815692357576666155607 * bn254_modulus + 1"
  "dot3 MDS_INV_FR MDS_FR 1 2 = 20873839429924620187076700960029755978849491371038259247696945443635673237672 * bn254_modulus + 0"
  by (simp_all add: dot3_def MDS_INV_FR_values MDS_FR_values bn254_modulus_def)

lemma MDS_INV_FR_MDS_FR_row2:
  "dot3 MDS_INV_FR MDS_FR 2 0 = 19837415271967373330376014837020661900156015528591379109794045947432204843062 * bn254_modulus + 0"
  "dot3 MDS_INV_FR MDS_FR 2 1 = 30211872645580439542894724167190563838941267140575325466138750070240120517058 * bn254_modulus + 0"
  "dot3 MDS_INV_FR MDS_FR 2 2 = 22067025424377621625904098775501215634110263872757360415763396340297010062083 * bn254_modulus + 1"
  by (simp_all add: dot3_def MDS_INV_FR_values MDS_FR_values bn254_modulus_def)

lemma one_mod: "Suc (q * pallas_modulus) mod pallas_modulus = 1" "Suc (q * bn254_modulus) mod bn254_modulus = 1"
proof -
  have "Suc (q * m) mod m = 1" if "1 < m" for m
    using that mod_mult_self3 [of q m 1] by simp
  then show "Suc (q * pallas_modulus) mod pallas_modulus = 1" "Suc (q * bn254_modulus) mod bn254_modulus = 1"
    by (simp_all add: pallas_modulus_def bn254_modulus_def)
qed

lemma MDS_MDS_INV: "inverse_mod pallas_modulus MDS MDS_INV"
  unfolding inverse_mod_def all_less_3 MDS_MDS_INV_row0 MDS_MDS_INV_row1 MDS_MDS_INV_row2
  by (simp add: one_mod)

lemma MDS_INV_MDS: "inverse_mod pallas_modulus MDS_INV MDS"
  unfolding inverse_mod_def all_less_3 MDS_INV_MDS_row0 MDS_INV_MDS_row1 MDS_INV_MDS_row2
  by (simp add: one_mod)

lemma MDS_FR_MDS_INV_FR: "inverse_mod bn254_modulus MDS_FR MDS_INV_FR"
  unfolding inverse_mod_def all_less_3 MDS_FR_MDS_INV_FR_row0 MDS_FR_MDS_INV_FR_row1 MDS_FR_MDS_INV_FR_row2
  by (simp add: one_mod)

lemma MDS_INV_FR_MDS_FR: "inverse_mod bn254_modulus MDS_INV_FR MDS_FR"
  unfolding inverse_mod_def all_less_3 MDS_INV_FR_MDS_FR_row0 MDS_INV_FR_MDS_FR_row1 MDS_INV_FR_MDS_FR_row2
  by (simp add: one_mod)

text \<open>An entry is below the modulus when its last limb is.\<close>

lemma raw_less:
  assumes "a < 2 ^ 64" "b < 2 ^ 64" "c < 2 ^ 64" "d < m" "m * 2 ^ 192 \<le> p"
  shows "raw [a, b, c, d] < p"
proof -
  have "raw [a, b, c, d] < 2 ^ 192 * (d + 1)" using assms(1-3) by (simp add: raw_def)
  also have "\<dots> \<le> 2 ^ 192 * m" using assms(4) by (intro mult_le_mono2) simp
  also have "\<dots> \<le> p" using assms(5) by (simp add: mult.commute)
  finally show ?thesis .
qed

lemma raw_less_pallas: "a < 2 ^ 64 \<Longrightarrow> b < 2 ^ 64 \<Longrightarrow> c < 2 ^ 64 \<Longrightarrow> d < 0x4000000000000000 \<Longrightarrow> raw [a, b, c, d] < pallas_modulus"
  by (rule raw_less [where m = "0x4000000000000000"]) (simp_all add: pallas_modulus_def)

lemma raw_less_bn254: "a < 2 ^ 64 \<Longrightarrow> b < 2 ^ 64 \<Longrightarrow> c < 2 ^ 64 \<Longrightarrow> d < 0x30644e72e131a029 \<Longrightarrow> raw [a, b, c, d] < bn254_modulus"
  by (rule raw_less [where m = "0x30644e72e131a029"]) (simp_all add: bn254_modulus_def)

lemma canonical_matrices:
  "canonical pallas_modulus 3 MDS" "canonical pallas_modulus 3 MDS_INV"
  "canonical bn254_modulus 3 MDS_FR" "canonical bn254_modulus 3 MDS_INV_FR"
  by (simp_all add: canonical_def MDS_def MDS_INV_def MDS_FR_def MDS_INV_FR_def raw_less_pallas raw_less_bn254)

lemma canonical_round_constants: "canonical pallas_modulus 64 ROUND_CONSTANTS"
  by (simp add: canonical_def ROUND_CONSTANTS_def raw_less_pallas)

lemma canonical_round_constants_fr: "canonical bn254_modulus 64 ROUND_CONSTANTS_FR"
  by (simp add: canonical_def ROUND_CONSTANTS_FR_def raw_less_bn254)

text \<open>In a field where the modulus is zero the specification is one the chip can use.\<close>

lemma field_inverse:
  assumes "inverse_mod p a b" "(of_nat p :: 'f::field) = 0" "length a = 3" "length b = 3"
    and "\<forall>row \<in> set a. length row = 3" "\<forall>row \<in> set b. length row = 3"
  shows "is_inverse 3 (field_table a :: 'f list list) (field_table b)"
  unfolding is_inverse_def
proof (intro allI impI)
  fix i j :: nat assume ij: "i < 3" "j < 3"
  have entry: "(field_table t ! k ! l :: 'f) = of_nat (t ! k ! l)"
    if "length t = 3" "\<forall>row \<in> set t. length row = 3" "k < 3" "l < 3" for t k l
    using that by (simp add: field_table_def)
  have "(\<Sum>k<3. field_table a ! i ! k * field_table b ! k ! j :: 'f) = of_nat (dot3 a b i j)"
    using ij by (simp add: numeral_3_eq_3 entry [OF assms(3,5), unfolded numeral_3_eq_3] entry [OF assms(4,6), unfolded numeral_3_eq_3] dot3_def numeral_2_eq_2)
  also have "\<dots> = of_nat (dot3 a b i j div p * p + dot3 a b i j mod p)" by simp
  also have "\<dots> = of_nat (dot3 a b i j mod p)" using assms(2) unfolding of_nat_add of_nat_mult by simp
  also have "dot3 a b i j mod p = of_bool (i = j)" using assms(1) ij by (simp add: inverse_mod_def)
  finally show "(\<Sum>k<3. field_table a ! i ! k * field_table b ! k ! j :: 'f) = of_bool (i = j)" by simp
qed

lemma canonical_rows: "canonical p n t \<Longrightarrow> length t = n \<and> (\<forall>row \<in> set t. length row = 3)"
  by (auto simp: canonical_def list_all_iff)

lemma orchard_chip_spec:
  assumes "(of_nat pallas_modulus :: 'f::field) = 0"
  shows "chip_spec (OrchardNullifier :: 'f spec)"
proof -
  note rows = canonical_matrices [THEN canonical_rows] canonical_round_constants [THEN canonical_rows]
  have "is_inverse 3 (field_table MDS :: 'f list list) (field_table MDS_INV)" "is_inverse 3 (field_table MDS_INV :: 'f list list) (field_table MDS)"
    using rows by (auto intro!: field_inverse [OF _ assms] MDS_MDS_INV MDS_INV_MDS)
  then show ?thesis
    using rows by (auto simp: chip_spec_def OrchardNullifier_def square_def field_table_def)
qed

lemma orchard_fr_chip_spec:
  assumes "(of_nat bn254_modulus :: 'f::field) = 0"
  shows "chip_spec (OrchardNullifier_fr :: 'f spec)"
proof -
  note rows = canonical_matrices [THEN canonical_rows] canonical_round_constants_fr [THEN canonical_rows]
  have "is_inverse 3 (field_table MDS_FR :: 'f list list) (field_table MDS_INV_FR)" "is_inverse 3 (field_table MDS_INV_FR :: 'f list list) (field_table MDS_FR)"
    using rows by (auto intro!: field_inverse [OF _ assms] MDS_FR_MDS_INV_FR MDS_INV_FR_MDS_FR)
  then show ?thesis
    using rows by (auto simp: chip_spec_def OrchardNullifier_fr_def square_def field_table_def)
qed

lemma orchard_fr_spec_ok: "spec_ok (OrchardNullifier_fr :: 'f::field spec)"
  using canonical_matrices [THEN canonical_rows] canonical_round_constants_fr [THEN canonical_rows]
  by (auto simp: spec_ok_def OrchardNullifier_fr_def field_table_def)

end
