(* ===== verification/Kzg_Commitment.thy ===== *)
theory Kzg_Commitment
  imports Gadget_Facts Commitment_Scheme
begin

text \<open>
  The polynomial commitment of trace records (\<open>zkmemory/src/commitment/kzg.rs\<close>). The
  polynomial commitment scheme, its multi-point prover and verifier, the transcripts and the
  interpolation are those of the Halo2 library: a record of the functions the code calls. A
  polynomial is the list of its coefficients.
\<close>

section \<open>The library\<close>

text \<open>
  A transcript is written from \<open>kz_writer\<close>, finalized to bytes and read back. Writing and
  opening may fail, reading may find no valid point or scalar, and the accumulated check may
  fail to be set up: the code panics then. \<open>kz_interpolate\<close> is \<open>lagrange_interpolate\<close>.
\<close>

record ('f, 'g, 'params, 'w, 'r) kzg_library =
  kz_setup :: "u32 \<Rightarrow> 'params"
  kz_k :: "'params \<Rightarrow> u32"
  kz_interpolate :: "'f list \<Rightarrow> 'f list \<Rightarrow> 'f list"
  kz_eval :: "'f list \<Rightarrow> 'f \<Rightarrow> 'f"
  kz_commit :: "'params \<Rightarrow> 'f list \<Rightarrow> 'f \<Rightarrow> 'g"
  kz_writer :: 'w
  kz_write_point :: "'g \<Rightarrow> 'w \<Rightarrow> 'w option"
  kz_write_scalar :: "'f \<Rightarrow> 'w \<Rightarrow> 'w option"
  kz_create :: "'params \<Rightarrow> 'w \<Rightarrow> ('f \<times> 'f list \<times> 'f) list \<Rightarrow> 'w option"
  kz_finalize :: "'w \<Rightarrow> u8 list"
  kz_reader :: "u8 list \<Rightarrow> 'r"
  kz_read_point :: "'r \<Rightarrow> ('g \<times> 'r) option"
  kz_read_scalar :: "'r \<Rightarrow> ('f \<times> 'r) option"
  kz_check :: "'params \<Rightarrow> 'r \<Rightarrow> ('g \<times> 'f \<times> 'f) list \<Rightarrow> bool option"

section \<open>Opening at many points\<close>

fun write_points :: "('f, 'g, 'params, 'w, 'r) kzg_library \<Rightarrow> 'g list \<Rightarrow> 'w \<Rightarrow> 'w option" where
  "write_points L [] w = Some w"
| "write_points L (c # cs) w = Option.bind (kz_write_point L c w) (write_points L cs)"

fun write_scalars :: "('f, 'g, 'params, 'w, 'r) kzg_library \<Rightarrow> 'f list \<Rightarrow> 'w \<Rightarrow> 'w option" where
  "write_scalars L [] w = Some w"
| "write_scalars L (v # vs) w = Option.bind (kz_write_scalar L v w) (write_scalars L vs)"

text \<open>\<open>create_kzg_proof\<close>; the blind is drawn once.\<close>

definition create_kzg_proof ::
    "('f, 'g, 'params, 'w, 'r) kzg_library \<Rightarrow> 'params \<Rightarrow> 'f \<Rightarrow> 'f list \<Rightarrow> 'f list list \<Rightarrow> 'g list \<Rightarrow> u8 list option" where
  "create_kzg_proof L params blind points_list polynomial_list commitment_list = do {
     assert_ok ((length points_list, length polynomial_list) = (length points_list, length commitment_list));
     w \<leftarrow> write_points L commitment_list (kz_writer L);
     polynomials \<leftarrow> those (map (vec_get polynomial_list) [0..<length points_list]);
     w \<leftarrow> write_scalars L (map2 (kz_eval L) polynomials points_list) w;
     w \<leftarrow> kz_create L params w (map2 (\<lambda>x p. (x, p, blind)) points_list polynomials);
     Some (kz_finalize L w) }"

fun read_points :: "('f, 'g, 'params, 'w, 'r) kzg_library \<Rightarrow> nat \<Rightarrow> 'r \<Rightarrow> ('g list \<times> 'r) option" where
  "read_points L 0 r = Some ([], r)"
| "read_points L (Suc n) r = do {
     (c, r) \<leftarrow> kz_read_point L r;
     (cs, r) \<leftarrow> read_points L n r;
     Some (c # cs, r) }"

text \<open>
  The loop of \<open>verify_kzg_proof\<close>: a comparison is evaluated only while the check holds, the
  query reads the given value in any case.
\<close>

fun verify_loop ::
    "('f, 'g, 'params, 'w, 'r) kzg_library \<Rightarrow> 'g list \<Rightarrow> 'f list \<Rightarrow> nat \<Rightarrow> ('f \<times> 'g) list \<Rightarrow>
     bool \<Rightarrow> ('g \<times> 'f \<times> 'f) list \<Rightarrow> 'r \<Rightarrow> (bool \<times> ('g \<times> 'f \<times> 'f) list \<times> 'r) option" where
  "verify_loop L commitments eval i [] check queries r = Some (check, queries, r)"
| "verify_loop L commitments eval i ((point, read) # rest) check queries r = do {
     check \<leftarrow> (if check then do { c \<leftarrow> vec_get commitments i; Some (c = read) } else Some False);
     (e, r) \<leftarrow> kz_read_scalar L r;
     check \<leftarrow> (if check then do { v \<leftarrow> vec_get eval i; Some (v = e) } else Some False);
     v \<leftarrow> vec_get eval i;
     verify_loop L commitments eval (i + 1) rest check (queries @ [(read, point, v)]) r }"

definition verify_kzg_proof ::
    "('f, 'g, 'params, 'w, 'r) kzg_library \<Rightarrow> 'params \<Rightarrow> 'f list \<Rightarrow> 'f list \<Rightarrow> 'g list \<Rightarrow> u8 list \<Rightarrow> bool option" where
  "verify_kzg_proof L params points_list eval commitments bytes = do {
     (commitment_list, r) \<leftarrow> read_points L (length points_list) (kz_reader L bytes);
     (check, queries, r) \<leftarrow> verify_loop L commitments eval 0 (zip points_list commitment_list) True [] r;
     if check then kz_check L params r queries else Some False }"

section \<open>Committing a trace record\<close>

definition OMEGA_POWER :: "'f::field list" where
  "OMEGA_POWER = map fp_from_raw
     [[0x01, 0, 0, 0], [0x07, 0, 0, 0], [0x31, 0, 0, 0], [0x0157, 0, 0, 0], [0x0961, 0, 0, 0],
      [0x041a7, 0, 0, 0], [0x01cb91, 0, 0, 0], [0x0c90f7, 0, 0, 0]]"

text \<open>The domain is given by its size \<open>2 ^ k\<close>.\<close>

record 'params kzg =
  kzg_params :: 'params
  kzg_domain :: nat

definition kzg_new :: "('f, 'g, 'params, 'w, 'r) kzg_library \<Rightarrow> u32 \<Rightarrow> 'params kzg" where
  "kzg_new L k = \<lparr>kzg_params = kz_setup L k, kzg_domain = 2 ^ unat k\<rparr>"

definition kzg_default :: "('f, 'g, 'params, 'w, 'r) kzg_library \<Rightarrow> 'params kzg" where
  "kzg_default L = kzg_new L 3"

text \<open>
  The conversions of addresses and values are parameters: they panic from the modulus on.
\<close>

definition trace_to_field ::
    "('k \<Rightarrow> 'f::field option) \<Rightarrow> ('v \<Rightarrow> 'f option) \<Rightarrow> ('k, 'v) trace_record \<Rightarrow> 'f list option" where
  "trace_to_field from_key from_value trace = do {
     address \<leftarrow> from_key (tr_address trace);
     v \<leftarrow> from_value (tr_value trace);
     Some [field_from_u64 (tr_time_log trace), field_from_u64 (tr_stack_depth trace),
       (case tr_instruction trace of Read \<Rightarrow> 0 | Write \<Rightarrow> 1), address, v, 0, 0, 0] }"

text \<open>\<open>coeff_from_vec\<close> asserts that there are as many coefficients as the domain has elements.\<close>

definition kzg_poly_from_evals ::
    "('f::field, 'g, 'params, 'w, 'r) kzg_library \<Rightarrow> 'params kzg \<Rightarrow> 'f list \<Rightarrow> 'f list option" where
  "kzg_poly_from_evals L z evals = do {
     let coefficients = kz_interpolate L OMEGA_POWER evals;
     assert_ok (length coefficients = kzg_domain z);
     Some coefficients }"

definition poly_from_trace ::
    "('f::field, 'g, 'params, 'w, 'r) kzg_library \<Rightarrow> ('k \<Rightarrow> 'f option) \<Rightarrow> ('v \<Rightarrow> 'f option) \<Rightarrow> 'params kzg \<Rightarrow>
     ('k, 'v) trace_record \<Rightarrow> 'f list option" where
  "poly_from_trace L from_key from_value z trace = do {
     evals \<leftarrow> trace_to_field from_key from_value trace;
     kzg_poly_from_evals L z evals }"

definition commit_trace ::
    "('f::field, 'g, 'params, 'w, 'r) kzg_library \<Rightarrow> ('k \<Rightarrow> 'f option) \<Rightarrow> ('v \<Rightarrow> 'f option) \<Rightarrow> 'params kzg \<Rightarrow> 'f \<Rightarrow>
     ('k, 'v) trace_record \<Rightarrow> 'g option" where
  "commit_trace L from_key from_value z blind trace = do {
     poly \<leftarrow> poly_from_trace L from_key from_value z trace;
     Some (kz_commit L (kzg_params z) poly blind) }"

definition prove_trace_record ::
    "('f::field, 'g, 'params, 'w, 'r) kzg_library \<Rightarrow> ('k \<Rightarrow> 'f option) \<Rightarrow> ('v \<Rightarrow> 'f option) \<Rightarrow> 'params kzg \<Rightarrow> 'f \<Rightarrow>
     ('k, 'v) trace_record \<Rightarrow> 'g \<Rightarrow> u8 list option" where
  "prove_trace_record L from_key from_value z blind trace commitment = do {
     poly \<leftarrow> poly_from_trace L from_key from_value z trace;
     create_kzg_proof L (kzg_params z) blind (take 5 OMEGA_POWER) (replicate 5 poly) (replicate 5 commitment) }"

definition verify_trace_record ::
    "('f::field, 'g, 'params, 'w, 'r) kzg_library \<Rightarrow> ('k \<Rightarrow> 'f option) \<Rightarrow> ('v \<Rightarrow> 'f option) \<Rightarrow> 'params kzg \<Rightarrow>
     ('k, 'v) trace_record \<Rightarrow> 'g \<Rightarrow> u8 list \<Rightarrow> bool option" where
  "verify_trace_record L from_key from_value z trace commitment bytes = do {
     eval \<leftarrow> trace_to_field from_key from_value trace;
     verify_kzg_proof L (kzg_params z) (take 5 OMEGA_POWER) eval (replicate 5 commitment) bytes }"

section \<open>The scheme\<close>

text \<open>The operations of the trait rebuild the domain from the parameters.\<close>

definition scheme_kzg :: "('f, 'g, 'params, 'w, 'r) kzg_library \<Rightarrow> 'params kzg \<Rightarrow> 'params kzg" where
  "scheme_kzg L z = \<lparr>kzg_params = kzg_params z, kzg_domain = 2 ^ unat (kz_k L (kzg_params z))\<rparr>"

definition kzg_setup :: "('f, 'g, 'params, 'w, 'r) kzg_library \<Rightarrow> 'params kzg" where
  "kzg_setup L = kzg_default L"

definition kzg_commit ::
    "('f::field, 'g, 'params, 'w, 'r) kzg_library \<Rightarrow> ('k \<Rightarrow> 'f option) \<Rightarrow> ('v \<Rightarrow> 'f option) \<Rightarrow> 'params kzg \<Rightarrow> 'f \<Rightarrow>
     ('k, 'v) trace_record \<Rightarrow> 'g option" where
  "kzg_commit L from_key from_value z blind witness = commit_trace L from_key from_value (scheme_kzg L z) blind witness"

definition kzg_open ::
    "('f::field, 'g, 'params, 'w, 'r) kzg_library \<Rightarrow> ('k \<Rightarrow> 'f option) \<Rightarrow> ('v \<Rightarrow> 'f option) \<Rightarrow> 'params kzg \<Rightarrow> 'f \<Rightarrow> 'f \<Rightarrow>
     ('k, 'v) trace_record \<Rightarrow> u8 list option" where
  "kzg_open L from_key from_value z blind blind' witness = do {
     commitment \<leftarrow> commit_trace L from_key from_value (scheme_kzg L z) blind witness;
     prove_trace_record L from_key from_value (scheme_kzg L z) blind' witness commitment }"

definition kzg_verify ::
    "('f::field, 'g, 'params, 'w, 'r) kzg_library \<Rightarrow> ('k \<Rightarrow> 'f option) \<Rightarrow> ('v \<Rightarrow> 'f option) \<Rightarrow> 'params kzg \<Rightarrow>
     'g \<Rightarrow> u8 list \<Rightarrow> ('k, 'v) trace_record \<Rightarrow> bool option" where
  "kzg_verify L from_key from_value z commitment opening' witness =
     verify_trace_record L from_key from_value (scheme_kzg L z) witness commitment opening'"

section \<open>What the library promises\<close>

fun read_scalars :: "('f, 'g, 'params, 'w, 'r) kzg_library \<Rightarrow> nat \<Rightarrow> 'r \<Rightarrow> ('f list \<times> 'r) option" where
  "read_scalars L 0 r = Some ([], r)"
| "read_scalars L (Suc n) r = do {
     (v, r) \<leftarrow> kz_read_scalar L r;
     (vs, r) \<leftarrow> read_scalars L n r;
     Some (v # vs, r) }"

text \<open>
  Interpolation at distinct points; commitments that do not depend on the blind; a transcript
  that reads back what was written before the opening; and a verifier that accepts the
  opening, at its point of the transcript, for commitments to the opened polynomials at their
  values.
\<close>

definition kzg_laws :: "('f, 'g, 'params, 'w, 'r) kzg_library \<Rightarrow> bool" where
  "kzg_laws L \<longleftrightarrow>
     (\<forall>k. kz_k L (kz_setup L k) = k) \<and>
     (\<forall>xs ys. distinct xs \<longrightarrow> length ys = length xs \<longrightarrow> length (kz_interpolate L xs ys) = length xs \<and>
        (\<forall>i < length xs. kz_eval L (kz_interpolate L xs ys) (xs ! i) = ys ! i)) \<and>
     (\<forall>params p b b'. kz_commit L params p b = kz_commit L params p b') \<and>
     (\<forall>params cs vs qs w1 w2 w3. write_points L cs (kz_writer L) = Some w1 \<longrightarrow> write_scalars L vs w1 = Some w2 \<longrightarrow>
        kz_create L params w2 qs = Some w3 \<longrightarrow>
        (\<exists>r1 r2. read_points L (length cs) (kz_reader L (kz_finalize L w3)) = Some (cs, r1) \<and>
           read_scalars L (length vs) r1 = Some (vs, r2) \<and>
           (length cs = length qs \<longrightarrow>
            (\<forall>i < length qs. cs ! i = kz_commit L params (fst (snd (qs ! i))) (snd (snd (qs ! i)))) \<longrightarrow>
            vs = map (\<lambda>(x, p, b). kz_eval L p x) qs \<longrightarrow>
            kz_check L params r2 (map2 (\<lambda>c (x, p, b). (c, x, kz_eval L p x)) cs qs) = Some True)))"

section \<open>Facts\<close>

lemma verify_loop_exact:
  assumes "read_scalars L (length points) r = Some (vs, r')" "length reads = length points"
    and "i + length points \<le> length commitments" "i + length points \<le> length eval"
  shows "verify_loop L commitments eval i (zip points reads) check queries r =
    Some (check \<and> (\<forall>j < length points. commitments ! (i + j) = reads ! j \<and> eval ! (i + j) = vs ! j),
      queries @ map (\<lambda>j. (reads ! j, points ! j, eval ! (i + j))) [0..<length points], r')"
  using assms
proof (induction points arbitrary: r vs reads i check queries)
  case (Cons x points)
  obtain c cs where reads: "reads = c # cs" using Cons.prems(2) by (cases reads) auto
  obtain v r1 vs' where v: "kz_read_scalar L r = Some (v, r1)" "read_scalars L (length points) r1 = Some (vs', r')" "vs = v # vs'"
    using Cons.prems(1) by (auto split: bind_splits)
  have IH: "verify_loop L commitments eval (Suc i) (zip points cs) check queries r1 =
      Some (check \<and> (\<forall>j < length points. commitments ! (Suc i + j) = cs ! j \<and> eval ! (Suc i + j) = vs' ! j),
        queries @ map (\<lambda>j. (cs ! j, points ! j, eval ! (Suc i + j))) [0..<length points], r')" for check queries
    using Cons.IH [OF v(2), of cs "Suc i"] Cons.prems reads by simp
  have "map (\<lambda>j. (reads ! j, (x # points) ! j, eval ! (i + j))) [0..<length (x # points)] =
      (c, x, eval ! i) # map (\<lambda>j. (cs ! j, points ! j, eval ! (Suc i + j))) [0..<length points]"
    by (simp add: reads map_upt_Suc del: upt_Suc)
  moreover have "(\<forall>j < length (x # points). commitments ! (i + j) = reads ! j \<and> eval ! (i + j) = vs ! j) \<longleftrightarrow>
      commitments ! i = c \<and> eval ! i = v \<and> (\<forall>j < length points. commitments ! (Suc i + j) = cs ! j \<and> eval ! (Suc i + j) = vs' ! j)"
    by (simp add: reads v(3) All_less_Suc2)
  ultimately show ?case
    using Cons.prems by (simp add: reads v IH del: upt_Suc)
qed simp

lemma those_vec_get: "those (map (vec_get xs) [0..<length xs]) = Some xs"
  by (subst those_map_Some [where g = "(!) xs"]) (simp_all add: map_nth)

lemma kzg_laws_transcript:
  assumes "kzg_laws L" "write_points L cs (kz_writer L) = Some w1" "write_scalars L vs w1 = Some w2"
    "kz_create L params w2 qs = Some w3"
  shows "\<exists>r1 r2. read_points L (length cs) (kz_reader L (kz_finalize L w3)) = Some (cs, r1) \<and>
       read_scalars L (length vs) r1 = Some (vs, r2) \<and>
       (length cs = length qs \<longrightarrow>
        (\<forall>i < length qs. cs ! i = kz_commit L params (fst (snd (qs ! i))) (snd (snd (qs ! i)))) \<longrightarrow>
        vs = map (\<lambda>(x, p, b). kz_eval L p x) qs \<longrightarrow>
        kz_check L params r2 (map2 (\<lambda>c (x, p, b). (c, x, kz_eval L p x)) cs qs) = Some True)"
  by (rule assms(1) [unfolded kzg_laws_def, THEN conjunct2, THEN conjunct2, THEN conjunct2, rule_format, OF assms(2-4)])

lemma kzg_laws_blind: "kzg_laws L \<Longrightarrow> kz_commit L params p b = kz_commit L params p b'"
  unfolding kzg_laws_def by blast

text \<open>What the verifier makes of a proof: it compares what was committed and opened.\<close>

lemma honest_proof:
  fixes L :: "('f, 'g, 'params, 'w, 'r) kzg_library"
  assumes L: "kzg_laws L"
    and created: "create_kzg_proof L params blind points polys cs = Some bytes"
    and len: "length polys = length points" "length cs = length points"
      "length points \<le> length commitments" "length points \<le> length eval"
  defines "same \<equiv> \<forall>j < length points. commitments ! j = cs ! j \<and> eval ! j = kz_eval L (polys ! j) (points ! j)"
  shows "\<not> same \<Longrightarrow> verify_kzg_proof L params points eval commitments bytes = Some False"
    and "same \<Longrightarrow> \<forall>j < length points. \<exists>b. cs ! j = kz_commit L params (polys ! j) b \<Longrightarrow>
       verify_kzg_proof L params points eval commitments bytes = Some True"
proof -
  let ?n = "length points" and ?vs = "map2 (kz_eval L) polys points" and ?qs = "map2 (\<lambda>x p. (x, p, blind)) points polys"
  obtain w1 w2 w3 where w: "write_points L cs (kz_writer L) = Some w1" "write_scalars L ?vs w1 = Some w2"
    "kz_create L params w2 ?qs = Some w3" and bytes: "bytes = kz_finalize L w3"
    using created by (auto simp: create_kzg_proof_def those_vec_get len(1) [symmetric] split: bind_splits)
  have vs: "length ?vs = ?n" using len by simp
  have law: "\<exists>r1 r2. read_points L (length cs) (kz_reader L (kz_finalize L w3)) = Some (cs, r1) \<and>
       read_scalars L (length ?vs) r1 = Some (?vs, r2) \<and>
       (length cs = length ?qs \<longrightarrow>
        (\<forall>i < length ?qs. cs ! i = kz_commit L params (fst (snd (?qs ! i))) (snd (snd (?qs ! i)))) \<longrightarrow>
        ?vs = map (\<lambda>(x, p, b). kz_eval L p x) ?qs \<longrightarrow>
        kz_check L params r2 (map2 (\<lambda>c (x, p, b). (c, x, kz_eval L p x)) cs ?qs) = Some True)"
    using kzg_laws_transcript [OF L w] .
  then obtain r1 r2 where r: "read_points L ?n (kz_reader L bytes) = Some (cs, r1)" "read_scalars L ?n r1 = Some (?vs, r2)"
    and check: "length cs = length ?qs \<longrightarrow>
        (\<forall>i < length ?qs. cs ! i = kz_commit L params (fst (snd (?qs ! i))) (snd (snd (?qs ! i)))) \<longrightarrow>
        ?vs = map (\<lambda>(x, p, b). kz_eval L p x) ?qs \<longrightarrow>
        kz_check L params r2 (map2 (\<lambda>c (x, p, b). (c, x, kz_eval L p x)) cs ?qs) = Some True"
    unfolding vs len(2) bytes by blast
  let ?queries = "map (\<lambda>j. (cs ! j, points ! j, eval ! j)) [0..<?n]"
  have run: "verify_kzg_proof L params points eval commitments bytes = (if same then kz_check L params r2 ?queries else Some False)"
    using verify_loop_exact [OF r(2), of cs 0 commitments eval True "[]"] len
    by (simp add: verify_kzg_proof_def r(1) same_def cong: if_cong)
  show "verify_kzg_proof L params points eval commitments bytes = Some False" if "\<not> same" using run that by simp
  assume same and honest: "\<forall>j < ?n. \<exists>b. cs ! j = kz_commit L params (polys ! j) b"
  have q: "?queries = map2 (\<lambda>c (x, p, b). (c, x, kz_eval L p x)) cs ?qs"
    using \<open>same\<close> len by (intro nth_equalityI) (simp_all add: same_def)
  have "cs ! i = kz_commit L params (polys ! i) blind" if "i < ?n" for i
    using honest kzg_laws_blind [OF L] that by metis
  moreover have "?vs = map (\<lambda>(x, p, b). kz_eval L p x) ?qs"
    using len by (intro nth_equalityI) simp_all
  ultimately have "kz_check L params r2 ?queries = Some True"
    using check len unfolding q by simp
  with run \<open>same\<close> show "verify_kzg_proof L params points eval commitments bytes = Some True" by simp
qed

end
