(* ===== verification/Kzg_Correct.thy ===== *)
theory Kzg_Correct
  imports Kzg_Commitment "HOL-Library.Countable"
begin

text \<open>
  What the polynomial commitment of trace records promises, under the laws of the library:
  the polynomial takes the fields of the record at the powers of 7, and an honest opening
  verifies for the record it was made for and for no other. The laws hold for an exact
  library over the rationals whose commitments are the polynomials themselves.
\<close>

section \<open>The polynomial of a record\<close>

lemma OMEGA_POWER_powers: "OMEGA_POWER = map (\<lambda>i. of_nat (7 ^ i)) [0..<8]"
proof -
  have "[0..<8] = [0, 1, 2, 3, 4, 5, 6, 7 :: nat]" by (simp add: upt_rec)
  then show ?thesis by (simp add: OMEGA_POWER_def fp_from_raw_def undigits_be_def)
qed

lemma length_OMEGA_POWER [simp]: "length OMEGA_POWER = 8"
  by (simp add: OMEGA_POWER_powers)

lemma OMEGA_POWER_nth: "i < 8 \<Longrightarrow> OMEGA_POWER ! i = 7 ^ i"
  by (simp add: OMEGA_POWER_powers)

lemma OMEGA_POWER_distinct:
  assumes "wide_field TYPE('f::field) (2 ^ 64)"
  shows "distinct (OMEGA_POWER :: 'f list)"
proof -
  have "7 ^ i < (2 :: nat) ^ 64" if "i < 8" for i
  proof -
    have "(7 :: nat) ^ i \<le> 7 ^ 7" using that by (intro power_increasing) simp_all
    also have "(7 :: nat) ^ 7 < 2 ^ 64" by simp
    finally show ?thesis .
  qed
  then have "inj_on (\<lambda>i. of_nat (7 ^ i) :: 'f) {0..<8}"
    using of_nat_small_eq [OF assms] by (intro inj_onI) (simp del: of_nat_power)
  then show ?thesis by (simp add: OMEGA_POWER_powers distinct_map del: of_nat_power)
qed

lemma trace_to_field_length: "trace_to_field from_key from_value t = Some fs \<Longrightarrow> length fs = 8"
  by (auto simp: trace_to_field_def split: bind_splits)

lemma kzg_laws_interpolate:
  assumes "kzg_laws L" "distinct xs" "length ys = length xs"
  shows "length (kz_interpolate L xs ys) = length xs"
    and "i < length xs \<Longrightarrow> kz_eval L (kz_interpolate L xs ys) (xs ! i) = ys ! i"
  using assms unfolding kzg_laws_def by blast+

lemma kzg_setup_domain: "kzg_laws L \<Longrightarrow> kzg_domain (scheme_kzg L (kzg_setup L)) = 8"
  by (simp add: scheme_kzg_def kzg_setup_def kzg_default_def kzg_new_def kzg_laws_def)

lemma scheme_kzg_params [simp]: "kzg_params (scheme_kzg L z) = kzg_params z"
  by (simp add: scheme_kzg_def)

lemma poly_from_trace_aux:
  fixes L :: "('f::field, 'g, 'params, 'w, 'r) kzg_library"
  assumes L: "kzg_laws L" and wide: "wide_field TYPE('f) (2 ^ 64)" and "kzg_domain z = 8"
    and fs: "trace_to_field from_key from_value t = Some fs"
  shows "\<exists>p. poly_from_trace L from_key from_value z t = Some p \<and> length p = 8 \<and>
    (\<forall>i < 8. kz_eval L p (OMEGA_POWER ! i) = fs ! i)"
  using kzg_laws_interpolate [OF L OMEGA_POWER_distinct [OF wide], of fs] trace_to_field_length [OF fs] assms(3)
  by (simp add: poly_from_trace_def kzg_poly_from_evals_def fs Let_def)

section \<open>Honest openings\<close>

text \<open>Two addresses, or two values, do not convert to the same scalar.\<close>

definition lossless :: "('a \<Rightarrow> 'f option) \<Rightarrow> bool" where
  "lossless f \<longleftrightarrow> (\<forall>a b c. f a = Some c \<longrightarrow> f b = Some c \<longrightarrow> a = b)"

lemma losslessD: "lossless f \<Longrightarrow> f a = Some c \<Longrightarrow> f b = Some c \<Longrightarrow> a = b"
  unfolding lossless_def by blast

lemma trace_to_field_inj:
  assumes "wide_field TYPE('f::field) (2 ^ 64)"
    and "lossless from_key"
    and "lossless from_value"
    and fs: "trace_to_field from_key from_value t = Some (fs :: 'f list)" "trace_to_field from_key from_value t' = Some fs'"
  shows "(\<forall>j < 5. fs ! j = fs' ! j) \<longleftrightarrow> t = t'"
proof
  assume eq: "\<forall>j < 5. fs ! j = fs' ! j"
  then have "fs ! 0 = fs' ! 0" "fs ! 1 = fs' ! 1" "fs ! 2 = fs' ! 2" "fs ! 3 = fs' ! 3" "fs ! 4 = fs' ! 4" by simp_all
  with fs show "t = t'"
    by (intro trace_record.equality)
       (auto simp: trace_to_field_def field_from_u64_inj [OF assms(1)] intro: losslessD [OF assms(2)] losslessD [OF assms(3)]
         split: bind_splits memory_instruction.splits)
qed (use fs in simp)

lemma open_verifies:
  fixes L :: "('f::field, 'g, 'params, 'w, 'r) kzg_library"
  assumes L: "kzg_laws L" and wide: "wide_field TYPE('f) (2 ^ 64)"
    and keys: "lossless from_key"
    and vals: "lossless from_value"
    and opened: "kzg_open L from_key from_value (kzg_setup L) b1 b2 t = Some bytes"
    and fs': "trace_to_field from_key from_value t' = Some fs'"
  shows "kzg_verify L from_key from_value (kzg_setup L) c bytes t' =
    Some (t' = t \<and> kzg_commit L from_key from_value (kzg_setup L) b t = Some c)"
proof -
  let ?z = "scheme_kzg L (kzg_setup L)" and ?pts = "take 5 OMEGA_POWER :: 'f list"
  obtain fs where fs: "trace_to_field from_key from_value t = Some fs"
    using opened by (auto simp: kzg_open_def commit_trace_def poly_from_trace_def split: bind_splits)
  obtain p where p: "poly_from_trace L from_key from_value ?z t = Some p" "\<forall>i < 8. kz_eval L p (OMEGA_POWER ! i) = fs ! i"
    using poly_from_trace_aux [OF L wide kzg_setup_domain [OF L] fs] by blast
  let ?c = "kz_commit L (kzg_params ?z) p b1"
  have commit: "kzg_commit L from_key from_value (kzg_setup L) b t = Some ?c"
    by (simp add: kzg_commit_def commit_trace_def p(1) kzg_laws_blind [OF L, of _ _ b b1])
  have made: "create_kzg_proof L (kzg_params ?z) b2 ?pts (replicate 5 p) (replicate 5 ?c) = Some bytes"
    using opened by (simp add: kzg_open_def commit_trace_def prove_trace_record_def p(1))
  have run: "kzg_verify L from_key from_value (kzg_setup L) c bytes t' =
      verify_kzg_proof L (kzg_params ?z) ?pts fs' (replicate 5 c) bytes"
    by (simp add: kzg_verify_def verify_trace_record_def fs')
  have len: "length ?pts = 5" "length fs' = 8" using trace_to_field_length [OF fs'] by simp_all
  have same: "(\<forall>j < length ?pts. replicate 5 c ! j = replicate 5 ?c ! j \<and> fs' ! j = kz_eval L (replicate 5 p ! j) (?pts ! j)) \<longleftrightarrow>
      c = ?c \<and> t' = t"
  proof -
    have "?thesis \<longleftrightarrow> ((\<forall>j < 5. c = ?c \<and> fs' ! j = fs ! j) \<longleftrightarrow> c = ?c \<and> t' = t)"
      using p(2) len by simp
    also have "\<dots>" using trace_to_field_inj [OF wide keys vals fs' fs] by (auto dest: spec [of _ 0])
    finally show ?thesis by blast
  qed
  show ?thesis
  proof (cases "c = ?c \<and> t' = t")
    case True
    then have "verify_kzg_proof L (kzg_params ?z) ?pts fs' (replicate 5 c) bytes = Some True"
      using len same by (intro honest_proof(2) [OF L made]) auto
    then show ?thesis using True commit run by auto
  next
    case False
    then have "verify_kzg_proof L (kzg_params ?z) ?pts fs' (replicate 5 c) bytes = Some False"
      using len same by (intro honest_proof(1) [OF L made]) auto
    then show ?thesis using False commit run by auto
  qed
qed

section \<open>An exact library\<close>

text \<open>Polynomials over the rationals, evaluated by Horner's rule and interpolated point by point.\<close>

definition horner :: "rat list \<Rightarrow> rat \<Rightarrow> rat" where
  "horner cs x = foldr (\<lambda>c v. c + x * v) cs 0"

lemma horner_simps [simp]:
  "horner [] x = 0"
  "horner (c # cs) x = c + x * horner cs x"
  by (simp_all add: horner_def)

fun add_poly :: "rat list \<Rightarrow> rat list \<Rightarrow> rat list" where
  "add_poly [] q = q"
| "add_poly p [] = p"
| "add_poly (a # p) (b # q) = (a + b) # add_poly p q"

lemma horner_add: "horner (add_poly p q) x = horner p x + horner q x"
  by (induction p q rule: add_poly.induct) (simp_all add: algebra_simps)

lemma length_add: "length (add_poly p q) = max (length p) (length q)"
  by (induction p q rule: add_poly.induct) simp_all

lemma horner_scale: "horner (map ((*) a) p) x = a * horner p x"
  by (induction p) (simp_all add: algebra_simps)

fun vanishing :: "rat list \<Rightarrow> rat list" where
  "vanishing [] = [1]"
| "vanishing (x # xs) = add_poly (0 # vanishing xs) (map ((*) (- x)) (vanishing xs))"

lemma horner_vanishing: "horner (vanishing xs) x = prod_list (map (\<lambda>y. x - y) xs)"
  by (induction xs) (simp_all add: horner_add horner_scale algebra_simps)

lemma length_vanishing: "length (vanishing xs) = Suc (length xs)"
  by (induction xs) (simp_all add: length_add)

fun interpolate :: "rat list \<Rightarrow> rat list \<Rightarrow> rat list" where
  "interpolate (x # xs) (y # ys) =
     (let p = interpolate xs ys; q = vanishing xs in
      add_poly p (map ((*) ((y - horner p x) / horner q x)) q))"
| "interpolate _ _ = []"

lemma interpolate_correct:
  "distinct xs \<Longrightarrow> length ys = length xs \<Longrightarrow> length (interpolate xs ys) = length xs \<and>
    (\<forall>i < length xs. horner (interpolate xs ys) (xs ! i) = ys ! i)"
proof (induction xs ys rule: interpolate.induct)
  case (1 x xs y ys)
  have "prod_list (map (\<lambda>z. x - z) xs) \<noteq> 0"
    using 1(2) by (auto simp: prod_list_zero_iff)
  moreover have "prod_list (map (\<lambda>z. xs ! i - z) xs) = 0" if "i < length xs" for i
    using that by (force simp: prod_list_zero_iff)
  ultimately show ?case
    using 1 by (auto simp: Let_def length_add length_vanishing horner_add horner_scale horner_vanishing
        All_less_Suc2)
qed auto

text \<open>The transcript is a list of points and scalars, counted into bytes.\<close>

definition exact_library :: "(rat, rat list, u32, (rat list + rat) list, (rat list + rat) list) kzg_library" where
  "exact_library =
     \<lparr>kz_setup = (\<lambda>k. k), kz_k = (\<lambda>k. k), kz_interpolate = interpolate, kz_eval = horner,
      kz_commit = (\<lambda>params p blind. p), kz_writer = [],
      kz_write_point = (\<lambda>c w. Some (w @ [Inl c])), kz_write_scalar = (\<lambda>v w. Some (w @ [Inr v])),
      kz_create = (\<lambda>params w queries. Some w), kz_finalize = (\<lambda>w. replicate (to_nat w) 0),
      kz_reader = (\<lambda>bytes. from_nat (length bytes)),
      kz_read_point = (\<lambda>r. case r of Inl c # r \<Rightarrow> Some (c, r) | _ \<Rightarrow> None),
      kz_read_scalar = (\<lambda>r. case r of Inr v # r \<Rightarrow> Some (v, r) | _ \<Rightarrow> None),
      kz_check = (\<lambda>params r queries. Some (list_all (\<lambda>(c, x, v). horner c x = v) queries))\<rparr>"

lemma exact_write_points: "write_points exact_library cs w = Some (w @ map Inl cs)"
  by (induction cs arbitrary: w) (simp_all add: exact_library_def)

lemma exact_write_scalars: "write_scalars exact_library vs w = Some (w @ map Inr vs)"
  by (induction vs arbitrary: w) (simp_all add: exact_library_def)

lemma exact_read_points: "read_points exact_library (length cs) (map Inl cs @ r) = Some (cs, r)"
  by (induction cs) (simp_all add: exact_library_def)

lemma exact_read_scalars: "read_scalars exact_library (length vs) (map Inr vs @ r) = Some (vs, r)"
  by (induction vs) (simp_all add: exact_library_def)

lemma exact_laws: "kzg_laws exact_library"
proof -
  have check: "kz_check exact_library params r (map2 (\<lambda>c (x, p, b). (c, x, kz_eval exact_library p x)) cs qs) = Some True"
    if "length cs = length qs" "\<forall>i < length qs. cs ! i = kz_commit exact_library params' (fst (snd (qs ! i))) (snd (snd (qs ! i)))"
    for params params' r cs and qs :: "(rat \<times> rat list \<times> rat) list"
    using that by (auto simp: exact_library_def list_all_iff in_set_zip)
  have "\<exists>r1 r2. read_points exact_library (length cs) (kz_reader exact_library (kz_finalize exact_library w3)) = Some (cs, r1) \<and>
      read_scalars exact_library (length vs) r1 = Some (vs, r2)"
    if "write_points exact_library cs (kz_writer exact_library) = Some w1" "write_scalars exact_library vs w1 = Some w2"
      "kz_create exact_library params w2 qs = Some w3" for params cs vs qs w1 w2 w3
  proof -
    have "kz_reader exact_library (kz_finalize exact_library w3) = map Inl cs @ map Inr vs @ []"
      using that by (simp add: exact_write_points exact_write_scalars) (simp add: exact_library_def)
    then show ?thesis using exact_read_points [of cs] exact_read_scalars [of vs "[]"] by simp
  qed
  then show ?thesis
    unfolding kzg_laws_def using check interpolate_correct
    by (auto simp: exact_library_def simp del: read_points.simps read_scalars.simps)
qed

section \<open>Properties\<close>

lemma kzg_opening_scheme:
  fixes L :: "('f::field, 'g, 'params, 'w, 'r) kzg_library"
  assumes "kzg_laws L" "wide_field TYPE('f) (2 ^ 64)"
    and "lossless from_key"
    and "lossless from_value"
  shows "opening_scheme (kzg_commit L from_key from_value (kzg_setup L) b)
    (kzg_open L from_key from_value (kzg_setup L) b1 b2) (kzg_verify L from_key from_value (kzg_setup L))"
proof
  fix t c bytes
  assume "kzg_commit L from_key from_value (kzg_setup L) b t = Some c"
    and opened: "kzg_open L from_key from_value (kzg_setup L) b1 b2 t = Some bytes"
  then show "kzg_verify L from_key from_value (kzg_setup L) c bytes t = Some True"
    using open_verifies [OF assms opened, of t _ c b]
    by (auto simp: kzg_commit_def commit_trace_def poly_from_trace_def split: bind_splits)
qed

definition word_scalar :: "u64 \<Rightarrow> rat option" where
  "word_scalar x = Some (field_from_u64 x)"

lemma word_scalar_inj: "lossless word_scalar"
  by (auto simp: lossless_def word_scalar_def field_from_u64_inj [OF wide_field_rat])

interpretation kzg_scheme: opening_scheme "kzg_commit exact_library word_scalar word_scalar (kzg_setup exact_library) b"
    "kzg_open exact_library word_scalar word_scalar (kzg_setup exact_library) b1 b2"
    "kzg_verify exact_library word_scalar word_scalar (kzg_setup exact_library)"
  for b b1 b2
  by (rule kzg_opening_scheme [OF exact_laws wide_field_rat word_scalar_inj word_scalar_inj])

text \<open>
  The polynomial of a trace record exists exactly when the address and the value convert
  and the domain has eight elements; it has eight coefficients and takes, at the powers
  \<open>1, 7, \<dots>, 7 ^ 7\<close>, the time log, the stack depth, the instruction bit, the address, the value and
  three zeros.
\<close>

theorem kzg_polynomial:
  fixes L :: "('f::field, 'g, 'params, 'w, 'r) kzg_library"
  assumes "kzg_laws L" and "wide_field TYPE('f) (2 ^ 64)"
  shows "case poly_from_trace L from_key from_value z t of
      None \<Rightarrow> from_key (tr_address t) = None \<or> from_value (tr_value t) = None \<or> kzg_domain z \<noteq> 8
    | Some p \<Rightarrow> kzg_domain z = 8 \<and> length p = 8 \<and>
        map (\<lambda>i. kz_eval L p (7 ^ i)) [0..<8] =
          [of_nat (unat (tr_time_log t)), of_nat (unat (tr_stack_depth t)), of_bool (tr_instruction t = Write),
           the (from_key (tr_address t)), the (from_value (tr_value t)), 0, 0, 0]"
proof (cases "trace_to_field from_key from_value t")
  case None
  then show ?thesis by (auto simp: poly_from_trace_def trace_to_field_def split: bind_splits option.splits)
next
  case (Some fs)
  let ?p = "kz_interpolate L OMEGA_POWER fs"
  have len: "length fs = 8" using trace_to_field_length [OF Some] .
  have p: "length ?p = 8" "\<And>i. i < 8 \<Longrightarrow> kz_eval L ?p (7 ^ i) = fs ! i"
    using kzg_laws_interpolate [OF assms(1) OMEGA_POWER_distinct [OF assms(2)], of fs] len by (simp_all add: OMEGA_POWER_nth)
  have "poly_from_trace L from_key from_value z t = (if kzg_domain z = 8 then Some ?p else None)"
    by (simp add: poly_from_trace_def kzg_poly_from_evals_def Some p(1) Let_def)
  moreover have "map (\<lambda>i. kz_eval L ?p (7 ^ i)) [0..<8] = fs"
    using p(2) len by (intro nth_equalityI) simp_all
  moreover have "fs = [of_nat (unat (tr_time_log t)), of_nat (unat (tr_stack_depth t)), of_bool (tr_instruction t = Write),
      the (from_key (tr_address t)), the (from_value (tr_value t)), 0, 0, 0]"
    using Some by (auto simp: trace_to_field_def field_from_u64_def split: bind_splits memory_instruction.splits)
  ultimately show ?thesis using p(1) by simp
qed

theorem kzg_polynomial_witness:
  "case poly_from_trace exact_library word_scalar word_scalar (kzg_setup exact_library) (TraceRecord_new 3 1 Write 9 7) of
      None \<Rightarrow> False | Some p \<Rightarrow> length p = 8 \<and> map (\<lambda>i. horner p (7 ^ i)) [0..<8] = [3, 1, 1, 9, 7, 0, 0, 0]"
proof -
  have "kzg_domain (kzg_setup exact_library) = 8"
    by (simp add: kzg_setup_def kzg_default_def kzg_new_def)
  moreover have "kz_eval exact_library = horner" by (simp add: exact_library_def)
  ultimately show ?thesis
    using kzg_polynomial [OF exact_laws wide_field_rat, where from_key = word_scalar and from_value = word_scalar and
        z = "kzg_setup exact_library" and t = "TraceRecord_new 3 1 Write 9 7"]
    by (auto simp: TraceRecord_new_def word_scalar_def field_from_u64_def split: option.splits)
qed

text \<open>
  C17: The opening of a trace record verifies, against the commitment of that record, for the
  record itself and for no other; against any other commitment it verifies for none. The
  verifier answers, it does not panic.
\<close>

theorem kzg_opening_exact:
  fixes L :: "('f::field, 'g, 'params, 'w, 'r) kzg_library"
  assumes "kzg_laws L" and "wide_field TYPE('f) (2 ^ 64)"
    and "lossless from_key"
    and "lossless from_value"
    and "kzg_open L from_key from_value (kzg_setup L) b1 b2 t = Some bytes"
    and "from_key (tr_address t') \<noteq> None" "from_value (tr_value t') \<noteq> None"
  shows "kzg_verify L from_key from_value (kzg_setup L) c bytes t' =
    Some (t' = t \<and> kzg_commit L from_key from_value (kzg_setup L) b t = Some c)"
proof -
  obtain fs' where "trace_to_field from_key from_value t' = Some fs'"
    using assms(6,7) by (auto simp: trace_to_field_def)
  with assms(1-5) show ?thesis by (rule open_verifies)
qed

theorem kzg_opening_exact_witness:
  "\<exists>c bytes. kzg_commit exact_library word_scalar word_scalar (kzg_setup exact_library) 0 (TraceRecord_new 3 1 Write 9 7) = Some c \<and>
     kzg_open exact_library word_scalar word_scalar (kzg_setup exact_library) 0 0 (TraceRecord_new 3 1 Write 9 7) = Some bytes \<and>
     kzg_verify exact_library word_scalar word_scalar (kzg_setup exact_library) c bytes (TraceRecord_new 3 1 Write 9 7) = Some True \<and>
     kzg_verify exact_library word_scalar word_scalar (kzg_setup exact_library) c bytes (TraceRecord_new 3 1 Write 9 8) = Some False"
proof -
  let ?t = "TraceRecord_new 3 1 Write 9 7 :: (u64, u64) trace_record"
  obtain fs where "trace_to_field word_scalar word_scalar ?t = Some fs"
    by (simp add: trace_to_field_def word_scalar_def)
  then obtain p where p: "poly_from_trace exact_library word_scalar word_scalar (scheme_kzg exact_library (kzg_setup exact_library)) ?t = Some p"
    using poly_from_trace_aux [OF exact_laws wide_field_rat kzg_setup_domain [OF exact_laws]] by blast
  obtain bytes where opened: "kzg_open exact_library word_scalar word_scalar (kzg_setup exact_library) 0 0 ?t = Some bytes"
    by (auto simp: kzg_open_def commit_trace_def prove_trace_record_def p create_kzg_proof_def exact_write_points
        exact_write_scalars vec_get_def numeral_eq_Suc)
       (simp add: exact_library_def)
  obtain c where c: "kzg_commit exact_library word_scalar word_scalar (kzg_setup exact_library) 0 ?t = Some c"
    by (simp add: kzg_commit_def commit_trace_def p)
  have other: "TraceRecord_new 3 1 Write 9 8 \<noteq> ?t" by (simp add: TraceRecord_new_def)
  show ?thesis
    using c opened other kzg_opening_exact [OF exact_laws wide_field_rat word_scalar_inj word_scalar_inj opened, of ?t c 0]
      kzg_opening_exact [OF exact_laws wide_field_rat word_scalar_inj word_scalar_inj opened, of "TraceRecord_new 3 1 Write 9 8" c 0]
    by (auto simp: word_scalar_def)
qed

end
