(* ===== verification/Verkle_Circuit.thy ===== *)
theory Verkle_Circuit
  imports Poseidon_Constants Kzg_Correct
begin

text \<open>
  The Verkle tree circuit (\<open>verkletree/src/circuit.rs\<close>). A node of the tree is labelled with
  the hash of the polynomial commitment to its children; the circuit carries the opening of a
  path. The commitment library is that of \<open>Kzg_Commitment\<close>.
\<close>

section \<open>The library\<close>

text \<open>
  Beside the polynomial commitments: the coordinates of a commitment as scalars, none when a
  coordinate is not below the modulus of the scalars, the generator of the group, and the
  first byte of the little-endian form of a scalar.
\<close>

record ('f, 'g, 'params, 'w, 'r) verkle_library =
  vl_kzg :: "('f, 'g, 'params, 'w, 'r) kzg_library"
  vl_x :: "'g \<Rightarrow> 'f option"
  vl_y :: "'g \<Rightarrow> 'f option"
  vl_generator :: 'g
  vl_low_byte :: "'f \<Rightarrow> u8"

definition VERKLE_OMEGA_POWER :: "'f::field list" where
  "VERKLE_OMEGA_POWER = map fp_from_raw
     [[0x01, 0, 0, 0], [0x07, 0, 0, 0], [0x31, 0, 0, 0], [0x0157, 0, 0, 0], [0x0961, 0, 0, 0]]"

section \<open>The circuit\<close>

record ('f, 'g, 'params) verkle_circuit =
  vc_leaf :: 'f
  vc_commitment :: "'g list"
  vc_proof :: "u8 list"
  vc_path_elements :: "'f list"
  vc_indices :: "'f list"
  vc_params :: 'params

definition verkle_without_witnesses ::
    "('f::field, 'g, 'params, 'w, 'r) verkle_library \<Rightarrow> ('f, 'g, 'params) verkle_circuit" where
  "verkle_without_witnesses V = \<lparr>vc_leaf = 0, vc_commitment = [vl_generator V], vc_proof = [0],
     vc_path_elements = [0], vc_indices = [0], vc_params = kz_setup (vl_kzg V) 1\<rparr>"

text \<open>The two advice columns and the column \<open>indices\<close> in a row of the region \<open>verkle proof\<close>.\<close>

record 'f verkle_row =
  vr_cur :: 'f
  vr_next :: 'f
  vr_index :: 'f

text \<open>The cells of all regions: the leaf, the path, the check and the root.\<close>

record 'f verkle_cells =
  va_leaf :: 'f
  va_rows :: "'f verkle_row list"
  va_check :: 'f
  va_root :: 'f

text \<open>
  The selector column is fixed: zero in the first row, one in the others. The gates are those
  of \<open>VerkleTreeConfig::configure\<close>; the lookup ranges over every row, and a row that is not
  assigned has index zero, which the column of the table always holds.
\<close>

definition verkle_selector :: "nat \<Rightarrow> 'f::field" where
  "verkle_selector offset = (if offset \<noteq> 0 then 1 else 0)"

definition verkle_gates :: "nat \<Rightarrow> 'f::field verkle_cells \<Rightarrow> 'f check list" where
  "verkle_gates A va =
     map (\<lambda>i. Lookup A (vr_index (va_rows va ! i))) [0..<length (va_rows va)] @
     map (\<lambda>i. Gate (verkle_selector i * (vr_next (va_rows va ! (i - 1)) - vr_cur (va_rows va ! i))))
       [0..<length (va_rows va)] @
     [Gate (1 * (va_check va - 1))]"

text \<open>The instance column holds the leaf and the root.\<close>

definition verkle_satisfied :: "nat \<Rightarrow> 'f::field \<times> 'f \<Rightarrow> 'f verkle_cells \<Rightarrow> bool" where
  "verkle_satisfied A instances va \<longleftrightarrow>
     list_all passes (verkle_gates A va) \<and> va_leaf va = fst instances \<and> va_root va = snd instances"

section \<open>Synthesis\<close>

definition group_to_scalar ::
    "'f::field spec \<Rightarrow> ('f, 'g, 'params, 'w, 'r) verkle_library \<Rightarrow> 'g \<Rightarrow> 'f option" where
  "group_to_scalar S V commitment = do {
     x \<leftarrow> vl_x V commitment;
     y \<leftarrow> vl_y V commitment;
     poseidon_hash S [x, y] }"

definition verkle_assign ::
    "'f::field spec \<Rightarrow> ('f, 'g, 'params, 'w, 'r) verkle_library \<Rightarrow> 'f \<Rightarrow> 'g \<Rightarrow> 'f \<Rightarrow> 'f verkle_row option" where
  "verkle_assign S V cur_value commitment index = do {
     x_fr \<leftarrow> vl_x V commitment;
     y_fr \<leftarrow> vl_y V commitment;
     next_value \<leftarrow> poseidon_hash S [x_fr, y_fr];
     Some \<lparr>vr_cur = cur_value, vr_next = next_value, vr_index = index\<rparr> }"

definition verkle_level ::
    "'f::field spec \<Rightarrow> ('f, 'g, 'params, 'w, 'r) verkle_library \<Rightarrow> ('f, 'g, 'params) verkle_circuit \<Rightarrow>
     nat \<Rightarrow> 'f verkle_row option" where
  "verkle_level S V circuit i = do {
     cur \<leftarrow> (if i = 0 then Some (vc_leaf circuit) else vec_get (vc_path_elements circuit) (i - 1));
     commitment \<leftarrow> vec_get (vc_commitment circuit) i;
     index \<leftarrow> vec_get (vc_indices circuit) i;
     verkle_assign S V cur commitment index }"

text \<open>
  \<open>synthesize\<close>: an empty path underflows in the slice, and an index whose first byte is past
  the table of powers panics; the result of the polynomial check goes to a cell.
\<close>

definition verkle_synthesize ::
    "'f::field spec \<Rightarrow> ('f, 'g, 'params, 'w, 'r) verkle_library \<Rightarrow> ('f, 'g, 'params) verkle_circuit \<Rightarrow>
     'f verkle_cells option" where
  "verkle_synthesize S V circuit = do {
     assert_ok (length (vc_indices circuit) = length (vc_path_elements circuit));
     rows \<leftarrow> those (map (verkle_level S V circuit) [0..<length (vc_path_elements circuit)]);
     assert_ok (vc_path_elements circuit \<noteq> []);
     let last_index = length (vc_path_elements circuit) - 1;
     let poly_list = vc_leaf circuit # take last_index (vc_path_elements circuit);
     point_list \<leftarrow> those (map (\<lambda>x. vec_get VERKLE_OMEGA_POWER (unat (vl_low_byte V x))) (vc_indices circuit));
     b \<leftarrow> verify_kzg_proof (vl_kzg V) (vc_params circuit) point_list poly_list (vc_commitment circuit) (vc_proof circuit);
     rt \<leftarrow> vec_get (vc_path_elements circuit) last_index;
     Some \<lparr>va_leaf = vc_leaf circuit, va_rows = rows, va_check = of_bool b, va_root = rt\<rparr> }"

text \<open>The mock prover synthesizes and checks every constraint.\<close>

definition verkle_mock ::
    "nat \<Rightarrow> 'f::field spec \<Rightarrow> ('f, 'g, 'params, 'w, 'r) verkle_library \<Rightarrow> ('f, 'g, 'params) verkle_circuit \<Rightarrow>
     'f \<times> 'f \<Rightarrow> bool option" where
  "verkle_mock A S V circuit instances = do {
     va \<leftarrow> verkle_synthesize S V circuit;
     Some (verkle_satisfied A instances va) }"

section \<open>Committing a tree\<close>

definition KZGStruct_new :: "('f, 'g, 'params, 'w, 'r) kzg_library \<Rightarrow> u32 \<Rightarrow> 'params kzg" where
  "KZGStruct_new L k = \<lparr>kzg_params = kz_setup L k, kzg_domain = 2 ^ unat k\<rparr>"

definition node_poly_from_evals ::
    "('f::field, 'g, 'params, 'w, 'r) kzg_library \<Rightarrow> 'params kzg \<Rightarrow> 'f list \<Rightarrow> 'f list option" where
  "node_poly_from_evals L z evals = do {
     let coefficients = kz_interpolate L (take 4 VERKLE_OMEGA_POWER) evals;
     assert_ok (length coefficients = kzg_domain z);
     Some coefficients }"

definition node_commit ::
    "('f::field, 'g, 'params, 'w, 'r) kzg_library \<Rightarrow> 'params kzg \<Rightarrow> 'f \<Rightarrow> 'f list \<Rightarrow> 'g option" where
  "node_commit L z blind evals = do {
     poly \<leftarrow> node_poly_from_evals L z evals;
     Some (kz_commit L (kzg_params z) poly blind) }"

definition node_create_proof ::
    "('f::field, 'g, 'params, 'w, 'r) kzg_library \<Rightarrow> 'params kzg \<Rightarrow> 'f \<Rightarrow> 'f list \<Rightarrow> 'f list list \<Rightarrow> 'g list \<Rightarrow>
     u8 list option" where
  "node_create_proof L z blind point polynomial commitment =
     create_kzg_proof L (kzg_params z) blind point polynomial commitment"

text \<open>
  The loop of \<open>create_verkle_tree_proof\<close>: the siblings and the blind of a level are drawn at
  random, and are here arguments of the level.
\<close>

fun verkle_nodes ::
    "('f::field, 'g, 'params, 'w, 'r) verkle_library \<Rightarrow> 'params kzg \<Rightarrow> (nat \<Rightarrow> 'f list \<times> 'f) \<Rightarrow> nat \<Rightarrow> nat list \<Rightarrow> 'f \<Rightarrow>
     ('f list list \<times> 'g list \<times> 'f list \<times> 'f) option" where
  "verkle_nodes V z random i [] temp = Some ([], [], [], temp)"
| "verkle_nodes V z random i (index # indices) temp = do {
     let (evals, blind) = random i;
     evals \<leftarrow> vec_set evals index temp;
     poly \<leftarrow> node_poly_from_evals (vl_kzg V) z evals;
     commitment \<leftarrow> node_commit (vl_kzg V) z blind evals;
     temp \<leftarrow> group_to_scalar OrchardNullifier_fr V commitment;
     (poly_list, commitment_list, path_elements, rt) \<leftarrow> verkle_nodes V z random (i + 1) indices temp;
     Some (poly # poly_list, commitment # commitment_list, temp # path_elements, rt) }"

definition create_verkle_tree_proof ::
    "('f::field, 'g, 'params, 'w, 'r) verkle_library \<Rightarrow> (nat \<Rightarrow> 'f list \<times> 'f) \<Rightarrow> 'f \<Rightarrow> 'f \<Rightarrow> nat list \<Rightarrow>
     (('f, 'g, 'params) verkle_circuit \<times> 'f) option" where
  "create_verkle_tree_proof V random blind leaf indices = do {
     let kzg = KZGStruct_new (vl_kzg V) 2;
     (poly_list, commitment_list, path_elements, rt) \<leftarrow> verkle_nodes V kzg random 0 indices leaf;
     let indices_fr = map (\<lambda>x. field_from_u64 (of_nat x)) indices;
     point_list \<leftarrow> those (map (vec_get VERKLE_OMEGA_POWER) indices);
     bytes \<leftarrow> node_create_proof (vl_kzg V) kzg blind point_list poly_list commitment_list;
     Some (\<lparr>vc_leaf = leaf, vc_commitment = commitment_list, vc_proof = bytes, vc_path_elements = path_elements,
       vc_indices = indices_fr, vc_params = kzg_params kzg\<rparr>, rt) }"

end
