(* ===== verification/Verkle_Correct.thy ===== *)
theory Verkle_Correct
  imports Verkle_Circuit
begin

text \<open>
  What the Verkle circuit checks: exactly which circuits the mock prover accepts, that the
  paths made by \<open>create_verkle_tree_proof\<close> are accepted, and what no constraint ties together.
\<close>

section \<open>The constraints\<close>

lemma verkle_satisfied_iff:
  "verkle_satisfied A (l, r) va \<longleftrightarrow>
     va_leaf va = l \<and> va_root va = r \<and> va_check va = 1 \<and>
     (\<forall>i < length (va_rows va). vr_index (va_rows va ! i) \<in> set (table_rows A)) \<and>
     (\<forall>i. Suc i < length (va_rows va) \<longrightarrow> vr_cur (va_rows va ! Suc i) = vr_next (va_rows va ! i))"
proof -
  have gate: "(\<forall>i < n. verkle_selector i * (f (i - 1) - g i) = (0 :: 'a)) \<longleftrightarrow> (\<forall>i. Suc i < n \<longrightarrow> g (Suc i) = f i)"
    for n and f g :: "nat \<Rightarrow> 'a::field"
    by (auto simp: verkle_selector_def) (metis Suc_pred)
  show ?thesis
    using gate [of "length (va_rows va)" "\<lambda>i. vr_next (va_rows va ! i)" "\<lambda>i. vr_cur (va_rows va ! i)"]
    by (simp add: verkle_satisfied_def verkle_gates_def list_all_iff ball_Un del: right_minus_eq mult_eq_0_iff) auto
qed

lemma length_VERKLE_OMEGA [simp]: "length VERKLE_OMEGA_POWER = 5"
  by (simp add: VERKLE_OMEGA_POWER_def)

lemma VERKLE_OMEGA_take: "VERKLE_OMEGA_POWER = take 5 OMEGA_POWER"
  by (simp add: VERKLE_OMEGA_POWER_def OMEGA_POWER_def)

lemma VERKLE_OMEGA_nth: "i < 5 \<Longrightarrow> VERKLE_OMEGA_POWER ! i = 7 ^ i"
  by (simp add: VERKLE_OMEGA_take OMEGA_POWER_nth)

section \<open>Synthesis\<close>

lemma verkle_level_Some:
  "verkle_level S V c i = Some row \<longleftrightarrow> i < length (vc_commitment c) \<and> i < length (vc_indices c) \<and>
     (i = 0 \<or> i - 1 < length (vc_path_elements c)) \<and>
     group_to_scalar S V (vc_commitment c ! i) = Some (vr_next row) \<and>
     vr_cur row = (vc_leaf c # vc_path_elements c) ! i \<and> vr_index row = vc_indices c ! i"
  by (cases row)
     (auto simp: verkle_level_def verkle_assign_def group_to_scalar_def vec_get_def nth_Cons' split: bind_splits if_splits)

lemma those_upt_iff: "those (map f [0..<n]) = Some ys \<longleftrightarrow> length ys = n \<and> (\<forall>i < n. f i = Some (ys ! i))"
  by (auto simp: those_Some_iff list_eq_iff_nth_eq simp del: upt_Suc)

text \<open>The first byte of a scalar below 256 is the scalar.\<close>

definition low_byte_law :: "('f::field, 'g, 'params, 'w, 'r) verkle_library \<Rightarrow> bool" where
  "low_byte_law V \<longleftrightarrow> (\<forall>k < 256. vl_low_byte V (of_nat k) = of_nat k)"

lemma points_of_indices:
  assumes "low_byte_law V" "\<forall>k \<in> set ks. k < 256"
  shows "those (map (\<lambda>x. vec_get VERKLE_OMEGA_POWER (unat (vl_low_byte V x))) (map of_nat ks)) = Some points \<longleftrightarrow>
    (\<forall>k \<in> set ks. k < 5) \<and> points = map (\<lambda>k. 7 ^ k) ks"
  using assms(2)
proof (induction ks arbitrary: points)
  case (Cons k ks)
  have "unat (vl_low_byte V (of_nat k)) = k"
    using assms(1) Cons.prems by (simp add: low_byte_law_def unat_of_nat)
  then show ?case
    using Cons.IH Cons.prems by (cases points) (auto simp: vec_get_def VERKLE_OMEGA_nth split: option.splits)
qed auto

lemma table_row_indices: "(\<forall>x \<in> set xs. x \<in> set (table_rows A)) \<longleftrightarrow> (\<exists>ks. xs = map of_nat ks \<and> (\<forall>k \<in> set ks. k < A))"
proof
  assume "\<forall>x \<in> set xs. x \<in> set (table_rows A)"
  then have "\<forall>x \<in> set xs. \<exists>k < A. x = of_nat k" by (fastforce simp: table_rows_def image_iff)
  then obtain f where "\<forall>x \<in> set xs. f x < A \<and> x = of_nat (f x)" by metis
  then show "\<exists>ks. xs = map of_nat ks \<and> (\<forall>k \<in> set ks. k < A)"
    by (intro exI [of _ "map f xs"]) (auto simp: map_idI)
qed (auto simp: table_rows_def)

lemma verkle_synthesize_Some:
  "verkle_synthesize S V c = Some va \<longleftrightarrow>
     length (vc_indices c) = length (vc_path_elements c) \<and> vc_path_elements c \<noteq> [] \<and>
     va_leaf va = vc_leaf c \<and> va_root va = last (vc_path_elements c) \<and>
     length (va_rows va) = length (vc_path_elements c) \<and>
     (\<forall>i < length (vc_path_elements c). verkle_level S V c i = Some (va_rows va ! i)) \<and>
     (\<exists>points b. those (map (\<lambda>x. vec_get VERKLE_OMEGA_POWER (unat (vl_low_byte V x))) (vc_indices c)) = Some points \<and>
        verify_kzg_proof (vl_kzg V) (vc_params c) points (vc_leaf c # butlast (vc_path_elements c))
          (vc_commitment c) (vc_proof c) = Some b \<and> va_check va = of_bool b)"
proof (cases "vc_path_elements c = []")
  case False
  then have "vec_get (vc_path_elements c) (length (vc_path_elements c) - 1) = Some (last (vc_path_elements c))"
    by (simp add: vec_get_def last_conv_nth)
  then show ?thesis
    using False
    by (cases va) (auto simp: verkle_synthesize_def those_upt_iff butlast_conv_take Let_def bind_eq_Some_conv simp del: upt_Suc)
qed (auto simp: verkle_synthesize_def bind_eq_Some_conv)

section \<open>What the mock prover accepts\<close>

lemma verkle_mock_iff:
  fixes V :: "('f::field, 'g, 'params, 'w, 'r) verkle_library"
  assumes "low_byte_law V" and "A \<le> 256"
  shows "verkle_mock A S V c (l, r) = Some True \<longleftrightarrow>
    vc_path_elements c \<noteq> [] \<and> length (vc_indices c) = length (vc_path_elements c) \<and>
    length (vc_path_elements c) \<le> length (vc_commitment c) \<and>
    l = vc_leaf c \<and> r = last (vc_path_elements c) \<and>
    (\<forall>i < length (vc_path_elements c). group_to_scalar S V (vc_commitment c ! i) \<noteq> None) \<and>
    (\<forall>i. Suc i < length (vc_path_elements c) \<longrightarrow> group_to_scalar S V (vc_commitment c ! i) = Some (vc_path_elements c ! i)) \<and>
    (\<exists>ks. vc_indices c = map of_nat ks \<and> (\<forall>k \<in> set ks. k < A \<and> k < 5) \<and>
       verify_kzg_proof (vl_kzg V) (vc_params c) (map (\<lambda>k. 7 ^ k) ks) (vc_leaf c # butlast (vc_path_elements c))
         (vc_commitment c) (vc_proof c) = Some True)"
    (is "?L \<longleftrightarrow> ?R")
proof -
  let ?n = "length (vc_path_elements c)"
  have small: "(\<forall>k \<in> set ks. k < A) \<Longrightarrow> (\<forall>k \<in> set ks. k < 256)" for ks using assms(2) by fastforce
  have L: "?L \<longleftrightarrow> (\<exists>va. verkle_synthesize S V c = Some va \<and> verkle_satisfied A (l, r) va)"
    by (auto simp: verkle_mock_def bind_eq_Some_conv)
  show ?thesis
  proof
    assume ?L
    then obtain va points b where syn: "length (vc_indices c) = ?n" "vc_path_elements c \<noteq> []" "length (va_rows va) = ?n"
      and ends: "va_leaf va = vc_leaf c" "va_root va = last (vc_path_elements c)"
      and rows: "\<And>i. i < ?n \<Longrightarrow> verkle_level S V c i = Some (va_rows va ! i)"
      and points: "those (map (\<lambda>x. vec_get VERKLE_OMEGA_POWER (unat (vl_low_byte V x))) (vc_indices c)) = Some points"
      and b: "verify_kzg_proof (vl_kzg V) (vc_params c) points (vc_leaf c # butlast (vc_path_elements c))
          (vc_commitment c) (vc_proof c) = Some b" "va_check va = of_bool b"
      and sat: "verkle_satisfied A (l, r) va"
      unfolding L verkle_synthesize_Some by blast
    note sat = sat [unfolded verkle_satisfied_iff]
    have b: "verify_kzg_proof (vl_kzg V) (vc_params c) points (vc_leaf c # butlast (vc_path_elements c))
          (vc_commitment c) (vc_proof c) = Some True"
      using b sat by (cases b) auto
    have level: "group_to_scalar S V (vc_commitment c ! i) = Some (vr_next (va_rows va ! i))"
      "vr_cur (va_rows va ! i) = (vc_leaf c # vc_path_elements c) ! i" "vr_index (va_rows va ! i) = vc_indices c ! i"
      "i < length (vc_commitment c)" if "i < ?n" for i
      using rows [OF that] by (simp_all add: verkle_level_Some)
    have path: "group_to_scalar S V (vc_commitment c ! i) = Some (vc_path_elements c ! i)" if "Suc i < ?n" for i
      using sat that syn(3) level(1) [of i] level(2) [of "Suc i"] by auto
    have "\<forall>x \<in> set (vc_indices c). x \<in> set (table_rows A)"
      using sat syn level(3) by (auto simp: in_set_conv_nth)
    then obtain ks where ks: "vc_indices c = map of_nat ks" "\<forall>k \<in> set ks. k < A"
      unfolding table_row_indices by blast
    with points have "(\<forall>k \<in> set ks. k < 5) \<and> points = map (\<lambda>k. 7 ^ k) ks"
      using points_of_indices [OF assms(1) small] by metis
    moreover have "?n \<le> length (vc_commitment c)"
      using level(4) [of "?n - 1"] syn(2) by (cases "vc_path_elements c") auto
    ultimately show ?R
      using syn path level(1) ends sat ks b by (intro conjI exI [of _ ks] allI impI ballI) auto
  next
    assume R: ?R
    then obtain ks where ks: "vc_indices c = map of_nat ks" "\<forall>k \<in> set ks. k < A" "\<forall>k \<in> set ks. k < 5"
      and b: "verify_kzg_proof (vl_kzg V) (vc_params c) (map (\<lambda>k. 7 ^ k) ks) (vc_leaf c # butlast (vc_path_elements c))
         (vc_commitment c) (vc_proof c) = Some True" by blast
    let ?row = "\<lambda>i. \<lparr>vr_cur = (vc_leaf c # vc_path_elements c) ! i,
      vr_next = the (group_to_scalar S V (vc_commitment c ! i)), vr_index = vc_indices c ! i\<rparr>"
    let ?va = "\<lparr>va_leaf = vc_leaf c, va_rows = map ?row [0..<?n], va_check = 1, va_root = last (vc_path_elements c)\<rparr>"
    have "those (map (\<lambda>x. vec_get VERKLE_OMEGA_POWER (unat (vl_low_byte V x))) (vc_indices c)) = Some (map (\<lambda>k. 7 ^ k) ks)"
      using ks points_of_indices [OF assms(1) small [OF ks(2)], of "map (\<lambda>k. 7 ^ k) ks"] by simp
    moreover have "verkle_level S V c i = Some (va_rows ?va ! i)" if "i < ?n" for i
      using R that by (auto simp: verkle_level_Some)
    ultimately have "verkle_synthesize S V c = Some ?va"
      using R b unfolding verkle_synthesize_Some by (intro conjI exI [of _ "map (\<lambda>k. 7 ^ k) ks"] exI [of _ True]) auto
    moreover have "\<forall>x \<in> set (vc_indices c). x \<in> set (table_rows A)"
      using ks unfolding table_row_indices by blast
    then have "verkle_satisfied A (l, r) ?va"
      using R unfolding verkle_satisfied_iff by auto
    ultimately show ?L unfolding L by blast
  qed
qed

section \<open>Honest trees\<close>

lemma verkle_nodes_spec:
  fixes V :: "('f::field, 'g, 'params, 'w, 'r) verkle_library"
  assumes L: "kzg_laws (vl_kzg V)" and wide: "wide_field TYPE('f) (2 ^ 64)" and four: "\<And>i. length (fst (random i)) = 4"
    and "verkle_nodes V z random i indices temp = Some (polys, cs, path, rt)"
  shows "length polys = length indices \<and> length cs = length indices \<and> length path = length indices \<and>
    rt = last (temp # path) \<and>
    (\<forall>j < length indices. indices ! j < 4 \<and> group_to_scalar OrchardNullifier_fr V (cs ! j) = Some (path ! j) \<and>
      (\<exists>b. cs ! j = kz_commit (vl_kzg V) (kzg_params z) (polys ! j) b) \<and>
      kz_eval (vl_kzg V) (polys ! j) (7 ^ (indices ! j)) = (temp # path) ! j)"
  using assms(4)
proof (induction indices arbitrary: i temp polys cs path)
  case (Cons k indices)
  obtain evals blind where r: "random i = (evals, blind)" by (cases "random i")
  then have evals: "length evals = 4" using four [of i] by simp
  obtain poly c d polys' cs' path' where k: "k < 4" and poly: "node_poly_from_evals (vl_kzg V) z (evals[k := temp]) = Some poly"
    and c: "node_commit (vl_kzg V) z blind (evals[k := temp]) = Some c" and d: "group_to_scalar OrchardNullifier_fr V c = Some d"
    and rest: "verkle_nodes V z random (i + 1) indices d = Some (polys', cs', path', rt)"
    and out: "polys = poly # polys'" "cs = c # cs'" "path = d # path'"
    using Cons.prems evals by (auto simp: r vec_set_def split: bind_splits if_splits)
  have p: "poly = kz_interpolate (vl_kzg V) (take 4 VERKLE_OMEGA_POWER) (evals[k := temp])"
    using poly by (auto simp: node_poly_from_evals_def Let_def split: bind_splits)
  have "distinct (take 4 (VERKLE_OMEGA_POWER :: 'f list))"
    using OMEGA_POWER_distinct [OF wide] by (simp add: VERKLE_OMEGA_take)
  from kzg_laws_interpolate(2) [OF L this, of "evals[k := temp]" k]
  have "kz_eval (vl_kzg V) poly (7 ^ k) = temp"
    using evals k by (simp add: p VERKLE_OMEGA_nth)
  moreover have "\<exists>b. c = kz_commit (vl_kzg V) (kzg_params z) poly b"
    using c poly by (auto simp: node_commit_def)
  ultimately show ?case
    using Cons.IH [OF rest] k d by (simp add: out All_less_Suc2)
qed simp

lemma field_from_small: "k < 4 \<Longrightarrow> field_from_u64 (of_nat k) = (of_nat k :: 'f::field)"
  by (simp add: field_from_u64_def unat_of_nat)

text \<open>
  The circuit that \<open>create_verkle_tree_proof\<close> makes for a leaf and a path of children is
  accepted with that leaf and the root it returns, whatever the siblings and the blinds.
\<close>

lemma verkle_complete:
  fixes V :: "('f::field, 'g, 'params, 'w, 'r) verkle_library"
  assumes "kzg_laws (vl_kzg V)" and "wide_field TYPE('f) (2 ^ 64)" and "low_byte_law V"
    and "\<And>i. length (fst (random i)) = 4" and "indices \<noteq> []"
    and "create_verkle_tree_proof V random blind leaf indices = Some (c, rt)"
  shows "verkle_mock 4 OrchardNullifier_fr V c (leaf, rt) = Some True"
proof -
  let ?z = "KZGStruct_new (vl_kzg V) 2"
  obtain polys cs path points bytes where nodes: "verkle_nodes V ?z random 0 indices leaf = Some (polys, cs, path, rt)"
    and points: "those (map (vec_get VERKLE_OMEGA_POWER) indices) = Some points"
    and bytes: "create_kzg_proof (vl_kzg V) (kzg_params ?z) blind points polys cs = Some bytes"
    and c: "c = \<lparr>vc_leaf = leaf, vc_commitment = cs, vc_proof = bytes, vc_path_elements = path,
       vc_indices = map (\<lambda>x. field_from_u64 (of_nat x)) indices, vc_params = kzg_params ?z\<rparr>"
    using assms(6) by (auto simp: create_verkle_tree_proof_def node_create_proof_def Let_def bind_eq_Some_conv)
  note spec = verkle_nodes_spec [OF assms(1,2) assms(4) nodes]
  have ks: "\<forall>k \<in> set indices. k < 4" using spec by (auto simp: in_set_conv_nth)
  then have "those (map (vec_get VERKLE_OMEGA_POWER) indices) = Some (map (\<lambda>k. 7 ^ k) indices :: 'f list)"
    by (intro those_map_Some) (auto simp: vec_get_def VERKLE_OMEGA_nth)
  then have points: "points = map (\<lambda>k. 7 ^ k) indices" using points by simp
  have path: "path \<noteq> []" "rt = last path" using spec assms(5) by (auto split: if_splits)
  have "verify_kzg_proof (vl_kzg V) (kzg_params ?z) points (leaf # butlast path) cs bytes = Some True"
  proof (rule honest_proof(2) [OF assms(1) bytes])
    show "\<forall>j < length points. cs ! j = cs ! j \<and> (leaf # butlast path) ! j = kz_eval (vl_kzg V) (polys ! j) (points ! j)"
      using spec by (auto simp: points nth_Cons' nth_butlast)
    show "length points \<le> length (leaf # butlast path)" using spec by (simp add: points)
  qed (use spec in \<open>auto simp: points\<close>)
  moreover have "map (\<lambda>x. field_from_u64 (of_nat x)) indices = (map of_nat indices :: 'f list)"
    using ks by (auto simp: field_from_small)
  ultimately show ?thesis
    using spec path ks
    by (subst verkle_mock_iff [OF assms(3)]) (auto simp: c points intro!: exI [of _ indices])
qed

section \<open>A concrete tree\<close>

text \<open>Over the exact library, a commitment has its first two coefficients for coordinates.\<close>

definition exact_verkle :: "(rat, rat list, u32, (rat list + rat) list, (rat list + rat) list) verkle_library" where
  "exact_verkle = \<lparr>vl_kzg = exact_library, vl_x = (\<lambda>p. vec_get p 0), vl_y = (\<lambda>p. vec_get p 1), vl_generator = [1],
     vl_low_byte = (\<lambda>x. word_of_int \<lfloor>x\<rfloor>)\<rparr>"

lemma exact_low_byte: "low_byte_law exact_verkle"
  by (simp add: low_byte_law_def exact_verkle_def)

definition demo_random :: "nat \<Rightarrow> rat list \<times> rat" where
  "demo_random i = ([1, 2, 3, of_nat i], 0)"

text \<open>Every path of children is built over the exact library.\<close>

lemma exact_nodes:
  assumes "\<forall>k \<in> set indices. k < 4"
  shows "\<exists>out. verkle_nodes exact_verkle (KZGStruct_new exact_library 2) demo_random i indices temp = Some out"
  using assms
proof (induction indices arbitrary: i temp)
  case (Cons k indices)
  let ?evals = "[1, 2, 3, of_nat i][k := temp] :: rat list"
  let ?p = "interpolate (take 4 VERKLE_OMEGA_POWER) ?evals"
  have "distinct (take 4 (VERKLE_OMEGA_POWER :: rat list))"
    using OMEGA_POWER_distinct [OF wide_field_rat] by (simp add: VERKLE_OMEGA_take)
  moreover have "length ?evals = length (take 4 (VERKLE_OMEGA_POWER :: rat list))" by (simp del: list_update.simps)
  ultimately have len: "length ?p = 4" using interpolate_correct by fastforce
  then have p: "node_poly_from_evals exact_library (KZGStruct_new exact_library 2) ?evals = Some ?p"
    by (simp add: node_poly_from_evals_def KZGStruct_new_def exact_library_def)
  then have c: "node_commit exact_library (KZGStruct_new exact_library 2) 0 ?evals = Some ?p"
    by (simp add: node_commit_def) (simp add: exact_library_def)
  obtain d where d: "group_to_scalar OrchardNullifier_fr exact_verkle ?p = Some d"
    using poseidon_hash_blocks [OF orchard_fr_spec_ok, of "[?p ! 0, ?p ! 1]"] len
    by (auto simp: group_to_scalar_def exact_verkle_def)
  have "vl_kzg exact_verkle = exact_library" by (simp add: exact_verkle_def)
  then show ?case
    using Cons.IH [of "Suc i" d] Cons.prems p c d by (auto simp: demo_random_def)
qed simp

lemma exact_tree:
  obtains c rt where "create_verkle_tree_proof exact_verkle demo_random 0 5 [1, 3] = Some (c, rt)"
proof -
  obtain polys cs path rt where nodes: "verkle_nodes exact_verkle (KZGStruct_new exact_library 2) demo_random 0 [1, 3] 5 = Some (polys, cs, path, rt)"
    using exact_nodes [of "[1, 3]" 0 5] by auto
  have kz: "vl_kzg exact_verkle = exact_library" by (simp add: exact_verkle_def)
  have len: "length polys = 2 \<and> length cs = 2"
    using verkle_nodes_spec [of exact_verkle demo_random, OF _ wide_field_rat _ nodes] exact_laws
    by (simp add: kz demo_random_def)
  then obtain p q where "polys = [p, q]" by (auto simp: numeral_2_eq_2 length_Suc_conv)
  then have "\<exists>bytes. create_kzg_proof exact_library (kzg_params (KZGStruct_new exact_library 2)) 0
      (map (\<lambda>k. 7 ^ k) [1, 3]) polys cs = Some bytes"
    using len by (simp add: create_kzg_proof_def exact_write_points exact_write_scalars vec_get_def numeral_2_eq_2)
      (simp add: exact_library_def)
  moreover have "those (map (vec_get VERKLE_OMEGA_POWER) [1, 3]) = Some (map (\<lambda>k. 7 ^ k) [1, 3 :: nat] :: rat list)"
    by (simp add: vec_get_def VERKLE_OMEGA_nth)
  ultimately show thesis
    using nodes that by (auto simp: create_verkle_tree_proof_def node_create_proof_def kz Let_def)
qed

lemma exact_tree_accepted:
  obtains c rt where "verkle_mock 4 OrchardNullifier_fr exact_verkle c (5, rt) = Some True"
proof -
  obtain c rt where c: "create_verkle_tree_proof exact_verkle demo_random 0 5 [1, 3] = Some (c, rt)" by (rule exact_tree)
  show thesis
    by (rule that, rule verkle_complete [OF _ wide_field_rat exact_low_byte _ _ c])
       (use exact_laws in \<open>simp_all add: exact_verkle_def demo_random_def\<close>)
qed

section \<open>Properties\<close>

text \<open>
  C39: No constraint ties the root to the last commitment: from an accepted circuit the last
  path element and the public root can be replaced by any scalar, and the circuit is still
  accepted.
\<close>

theorem verkle_root_free:
  assumes "verkle_mock A S V c (l, r) = Some True"
  shows "verkle_mock A S V (c\<lparr>vc_path_elements := butlast (vc_path_elements c) @ [r']\<rparr>) (l, r') = Some True"
proof -
  let ?c = "c\<lparr>vc_path_elements := butlast (vc_path_elements c) @ [r']\<rparr>"
  obtain va where va: "verkle_synthesize S V c = Some va" "verkle_satisfied A (l, r) va"
    using assms by (auto simp: verkle_mock_def bind_eq_Some_conv)
  let ?va = "va\<lparr>va_root := r'\<rparr>"
  note syn = va(1) [unfolded verkle_synthesize_Some]
  have n: "length (vc_path_elements ?c) = length (vc_path_elements c)" using syn by auto
  have "verkle_level S V ?c i = verkle_level S V c i" if "i < length (vc_path_elements c)" for i
    using that by (auto simp: verkle_level_def vec_get_def nth_append nth_butlast)
  then have "verkle_synthesize S V ?c = Some ?va"
    using syn unfolding verkle_synthesize_Some n by auto
  moreover have "verkle_satisfied A (l, r') ?va"
    using va(2) by (simp add: verkle_satisfied_iff)
  ultimately show ?thesis by (simp add: verkle_mock_def)
qed

theorem verkle_root_free_witness:
  "\<exists>c rt. verkle_mock 4 OrchardNullifier_fr exact_verkle c (5, rt) = Some True \<and>
     verkle_mock 4 OrchardNullifier_fr exact_verkle (c\<lparr>vc_path_elements := butlast (vc_path_elements c) @ [rt + 1]\<rparr>) (5, rt + 1) = Some True"
proof -
  obtain c rt where "verkle_mock 4 OrchardNullifier_fr exact_verkle c (5, rt) = Some True"
    by (rule exact_tree_accepted)
  with verkle_root_free [OF this, of "rt + 1"] show ?thesis by blast
qed

text \<open>Nor are the cells of the leaf, the path and the root tied to each other.\<close>

lemma verkle_constraints_unlinked:
  assumes "0 < A"
  shows "\<exists>va. length (va_rows va) = n \<and> verkle_satisfied A (l, r) va"
  using assms
  by (intro exI [of _ "\<lparr>va_leaf = l, va_rows = replicate n \<lparr>vr_cur = 0, vr_next = 0, vr_index = 0\<rparr>, va_check = 1, va_root = r\<rparr>"])
     (auto simp: verkle_satisfied_iff table_rows_def intro!: image_eqI [of _ _ 0])

end
