(* ===== verification/Memory_Verkle.thy ===== *)
theory Memory_Verkle
  imports Verkle_Correct
begin

text \<open>
  The Verkle circuit of \<open>zkmemory/src/commitment/verkle_tree.rs\<close>: the circuit of
  \<open>verkletree/src/circuit.rs\<close> written a second time, with its own table of powers, over the
  verification of \<open>kzg.rs\<close> beside it. The two accept the same circuits.
\<close>

section \<open>The circuit\<close>

definition MEMORY_OMEGA_POWER :: "'f::field list" where
  "MEMORY_OMEGA_POWER = map fp_from_raw
     [[0x01, 0, 0, 0], [0x07, 0, 0, 0], [0x31, 0, 0, 0], [0x0157, 0, 0, 0], [0x0961, 0, 0, 0]]"

text \<open>The structure of the circuit and the columns have the fields of the other crate's.\<close>

type_synonym ('f, 'g, 'params) memory_verkle_circuit = "('f, 'g, 'params) verkle_circuit"

type_synonym 'f memory_verkle_row = "'f verkle_row"

definition memory_without_witnesses ::
    "('f::field, 'g, 'params, 'w, 'r) verkle_library \<Rightarrow> ('f, 'g, 'params) memory_verkle_circuit" where
  "memory_without_witnesses V = \<lparr>vc_leaf = 0, vc_commitment = [vl_generator V], vc_proof = [0],
     vc_path_elements = [0], vc_indices = [0], vc_params = kz_setup (vl_kzg V) 1\<rparr>"

text \<open>\<open>assign\<close> sets the fixed selector in every row but the first.\<close>

definition memory_selector :: "nat \<Rightarrow> 'f::field" where
  "memory_selector offset = (if offset = 0 then 0 else 1)"

definition memory_verkle_gates :: "nat \<Rightarrow> 'f::field verkle_cells \<Rightarrow> 'f check list" where
  "memory_verkle_gates A va =
     (let rows = va_rows va; is = [0..<length rows] in
      map (\<lambda>i. Lookup A (vr_index (rows ! i))) is @
      map (\<lambda>i. Gate (memory_selector i * (vr_next (rows ! (i - 1)) - vr_cur (rows ! i)))) is @
      [Gate (1 * (va_check va - 1))])"

definition memory_verkle_satisfied :: "nat \<Rightarrow> 'f::field \<times> 'f \<Rightarrow> 'f verkle_cells \<Rightarrow> bool" where
  "memory_verkle_satisfied A instances va \<longleftrightarrow>
     list_all passes (memory_verkle_gates A va) \<and> va_leaf va = fst instances \<and> va_root va = snd instances"

definition memory_verkle_assign ::
    "'f::field spec \<Rightarrow> ('f, 'g, 'params, 'w, 'r) verkle_library \<Rightarrow> 'f \<Rightarrow> 'g \<Rightarrow> 'f \<Rightarrow> 'f memory_verkle_row option" where
  "memory_verkle_assign S V cur_value commitment index = do {
     x_fr \<leftarrow> vl_x V commitment;
     y_fr \<leftarrow> vl_y V commitment;
     next_value \<leftarrow> poseidon_hash S [x_fr, y_fr];
     Some \<lparr>vr_cur = cur_value, vr_next = next_value, vr_index = index\<rparr> }"

definition memory_verkle_level ::
    "'f::field spec \<Rightarrow> ('f, 'g, 'params, 'w, 'r) verkle_library \<Rightarrow> ('f, 'g, 'params) memory_verkle_circuit \<Rightarrow>
     nat \<Rightarrow> 'f memory_verkle_row option" where
  "memory_verkle_level S V circuit i =
     (if i = 0 then do {
        commitment \<leftarrow> vec_get (vc_commitment circuit) i;
        index \<leftarrow> vec_get (vc_indices circuit) i;
        memory_verkle_assign S V (vc_leaf circuit) commitment index }
      else do {
        cur \<leftarrow> vec_get (vc_path_elements circuit) (i - 1);
        commitment \<leftarrow> vec_get (vc_commitment circuit) i;
        index \<leftarrow> vec_get (vc_indices circuit) i;
        memory_verkle_assign S V cur commitment index })"

definition memory_verkle_synthesize ::
    "'f::field spec \<Rightarrow> ('f, 'g, 'params, 'w, 'r) verkle_library \<Rightarrow> ('f, 'g, 'params) memory_verkle_circuit \<Rightarrow>
     'f verkle_cells option" where
  "memory_verkle_synthesize S V circuit = do {
     assert_ok (length (vc_indices circuit) = length (vc_path_elements circuit));
     rows \<leftarrow> those (map (memory_verkle_level S V circuit) [0..<length (vc_path_elements circuit)]);
     assert_ok (vc_path_elements circuit \<noteq> []);
     let last_index = length (vc_path_elements circuit) - 1;
     let poly_list = vc_leaf circuit # take last_index (vc_path_elements circuit);
     point_list \<leftarrow> those (map (\<lambda>x. vec_get MEMORY_OMEGA_POWER (unat (vl_low_byte V x))) (vc_indices circuit));
     b \<leftarrow> verify_kzg_proof (vl_kzg V) (vc_params circuit) point_list poly_list (vc_commitment circuit) (vc_proof circuit);
     rt \<leftarrow> vec_get (vc_path_elements circuit) last_index;
     Some \<lparr>va_leaf = vc_leaf circuit, va_rows = rows, va_check = of_bool b, va_root = rt\<rparr> }"

definition memory_verkle_mock ::
    "nat \<Rightarrow> 'f::field spec \<Rightarrow> ('f, 'g, 'params, 'w, 'r) verkle_library \<Rightarrow> ('f, 'g, 'params) memory_verkle_circuit \<Rightarrow>
     'f \<times> 'f \<Rightarrow> bool option" where
  "memory_verkle_mock A S V circuit instances = do {
     va \<leftarrow> memory_verkle_synthesize S V circuit;
     Some (memory_verkle_satisfied A instances va) }"

text \<open>The hash of the nodes has the constants of the scalar field of BN254.\<close>

definition memory_OrchardNullifier :: "'f::field spec" where
  "memory_OrchardNullifier = \<lparr>sp_T = 3, sp_R = 2, full_rounds = 8, partial_rounds = 56, sbox = (\<lambda>x. x ^ 5),
     round_constants = field_table ROUND_CONSTANTS_FR, mds = field_table MDS_FR, mds_inv = field_table MDS_INV_FR\<rparr>"

section \<open>The two circuits\<close>

lemma memory_parameters:
  "MEMORY_OMEGA_POWER = VERKLE_OMEGA_POWER" "memory_OrchardNullifier = OrchardNullifier_fr"
  "memory_without_witnesses V = verkle_without_witnesses V"
  by (simp_all add: MEMORY_OMEGA_POWER_def VERKLE_OMEGA_POWER_def memory_OrchardNullifier_def OrchardNullifier_fr_def
      memory_without_witnesses_def verkle_without_witnesses_def)

lemma memory_verkle_gates_same: "memory_verkle_gates A va = verkle_gates A va"
  by (simp add: memory_verkle_gates_def verkle_gates_def memory_selector_def verkle_selector_def Let_def)

lemma memory_verkle_level_same: "memory_verkle_level S V c = verkle_level S V c"
  by (rule ext) (simp add: memory_verkle_level_def verkle_level_def memory_verkle_assign_def verkle_assign_def)

lemma memory_verkle_synthesize_same: "memory_verkle_synthesize S V c = verkle_synthesize S V c"
  by (simp add: memory_verkle_synthesize_def verkle_synthesize_def memory_parameters memory_verkle_level_same)

lemma memory_verkle_mock_same: "memory_verkle_mock A S V c instances = verkle_mock A S V c instances"
  by (simp add: memory_verkle_mock_def verkle_mock_def memory_verkle_synthesize_same memory_verkle_satisfied_def
      verkle_satisfied_def memory_verkle_gates_same)

section \<open>Properties\<close>

text \<open>
  C18: the mock prover accepts a Verkle circuit, in either crate, with a public leaf and root
  exactly when the leaf and the last path element are the public ones, there is one index per path element,
  every index is a child number below \<open>A\<close> that the table of powers has, every commitment
  hashes, each path element but the last is the hash of its commitment, and the polynomial
  proof opens every commitment at its index to the node below.
\<close>

theorem verkle_circuit_exact:
  fixes V :: "('f::field, 'g, 'params, 'w, 'r) verkle_library"
  assumes "low_byte_law V" and "A \<le> 256"
  shows "(verkle_mock A S V c (l, r) = Some True \<longleftrightarrow>
    vc_path_elements c \<noteq> [] \<and> length (vc_indices c) = length (vc_path_elements c) \<and>
    length (vc_path_elements c) \<le> length (vc_commitment c) \<and>
    l = vc_leaf c \<and> r = last (vc_path_elements c) \<and>
    (\<forall>i < length (vc_path_elements c). group_to_scalar S V (vc_commitment c ! i) \<noteq> None) \<and>
    (\<forall>i. Suc i < length (vc_path_elements c) \<longrightarrow> group_to_scalar S V (vc_commitment c ! i) = Some (vc_path_elements c ! i)) \<and>
    (\<exists>ks. vc_indices c = map of_nat ks \<and> (\<forall>k \<in> set ks. k < A \<and> k < 5) \<and>
       verify_kzg_proof (vl_kzg V) (vc_params c) (map (\<lambda>k. 7 ^ k) ks) (vc_leaf c # butlast (vc_path_elements c))
         (vc_commitment c) (vc_proof c) = Some True)) \<and>
    memory_verkle_mock A S V c (l, r) = verkle_mock A S V c (l, r)"
  by (rule conjI [OF verkle_mock_iff [OF assms] memory_verkle_mock_same])

theorem verkle_circuit_exact_witness:
  "\<exists>c rt. verkle_mock 4 OrchardNullifier_fr exact_verkle c (5, rt) = Some True \<and> vc_leaf c = 5 \<and>
     (\<forall>rt'. rt' \<noteq> rt \<longrightarrow> verkle_mock 4 OrchardNullifier_fr exact_verkle c (5, rt') \<noteq> Some True)"
proof -
  obtain c rt where c: "verkle_mock 4 OrchardNullifier_fr exact_verkle c (5, rt) = Some True"
    by (rule exact_tree_accepted)
  note exact = verkle_circuit_exact [OF exact_low_byte, of 4 OrchardNullifier_fr c, THEN conjunct1, simplified]
  from c have c': "vc_leaf c = 5" "rt = last (vc_path_elements c)" unfolding exact by auto
  then have "verkle_mock 4 OrchardNullifier_fr exact_verkle c (5, rt') \<noteq> Some True" if "rt' \<noteq> rt" for rt'
    using that unfolding exact by auto
  with c c' show ?thesis by blast
qed

end
