(* ===== verification/Halo2_Provers.thy ===== *)
theory Halo2_Provers
  imports Proof_System Merkle_Tree Memory_Verkle
begin

text \<open>
  The provers around the circuits: \<open>PoseidonProver\<close> with the circuit it proves
  (\<open>poseidon/src/circuit.rs\<close>), \<open>MerkleTreeProver\<close>
  (\<open>zkmemory/src/commitment/merkle_tree.rs\<close>) and \<open>VerkleTreeProver\<close>
  (\<open>verkletree/src/circuit.rs\<close>).
\<close>

section \<open>The Poseidon circuit and its prover\<close>

record 'f poseidon_circuit =
  pq_message :: "'f list"
  pq_output :: 'f

definition poseidon_without_witnesses :: "'f::field poseidon_circuit \<Rightarrow> 'f poseidon_circuit" where
  "poseidon_without_witnesses c = \<lparr>pq_message = replicate (length (pq_message c)) 0, pq_output = 0\<rparr>"

text \<open>
  The message is loaded into the columns of the state, one element each: a message longer
  than the state panics. The output of the chip is tied to the loaded output.
\<close>

definition poseidon_synthesize ::
    "'f::field poseidon_config \<Rightarrow> 'f poseidon_circuit \<Rightarrow> 'f synth \<Rightarrow> 'f synth option" where
  "poseidon_synthesize C circuit sy = do {
     assert_ok (length (pq_message circuit) \<le> cf_T C);
     (out, sy) \<leftarrow> chip_hash C (pq_message circuit) sy;
     Some (require (out = pq_output circuit) sy) }"

definition poseidon_accepts :: "'f::field poseidon_config \<Rightarrow> 'f poseidon_circuit \<Rightarrow> bool" where
  "poseidon_accepts C circuit \<longleftrightarrow> (\<exists>ads rest. poseidon_synthesize C circuit (ads, True) = Some (rest, True))"

record ('params, 'pk, 'c) halo2_prover =
  hp_params :: 'params
  hp_pk :: 'pk
  hp_circuit :: 'c
  hp_expected :: bool

definition PoseidonProver_new ::
    "('params, 'vk, 'pk, 'err, 'f poseidon_circuit, unit) halo2 \<Rightarrow> u32 \<Rightarrow> 'f poseidon_circuit \<Rightarrow> bool \<Rightarrow>
     ('params, 'pk, 'f poseidon_circuit) halo2_prover option" where
  "PoseidonProver_new L k circuit expected = do {
     (params, pk) \<leftarrow> halo2_keygen L k circuit;
     Some \<lparr>hp_params = params, hp_pk = pk, hp_circuit = circuit, hp_expected = expected\<rparr> }"

definition poseidon_create_proof ::
    "('params, 'vk, 'pk, 'err, 'f poseidon_circuit, unit) halo2 \<Rightarrow> ('params, 'pk, 'f poseidon_circuit) halo2_prover \<Rightarrow>
     u8 list option" where
  "poseidon_create_proof L p = expect_ok (h2_create_proof L (hp_params p) (hp_pk p) (hp_circuit p) ())"

definition poseidon_verify ::
    "('params, 'vk, 'pk, 'err, 'f poseidon_circuit, unit) halo2 \<Rightarrow> ('params, 'pk, 'f poseidon_circuit) halo2_prover \<Rightarrow>
     u8 list \<Rightarrow> bool" where
  "poseidon_verify L p bytes = (case h2_verify_proof L (hp_params p) (h2_get_vk L (hp_pk p)) () bytes of
     Inr _ \<Rightarrow> hp_expected p | Inl _ \<Rightarrow> \<not> hp_expected p)"

section \<open>The Merkle tree prover\<close>

record ('params, 'pk, 'f) merkle_prover =
  mp_params :: 'params
  mp_pk :: 'pk
  mp_witness :: merkle_witness
  mp_circuit :: "'f merkle_circuit"

definition MerkleTreeProver_new ::
    "('params, 'vk, 'pk, 'err, 'f::field merkle_circuit, 'f list) halo2 \<Rightarrow> u32 \<Rightarrow> merkle_witness \<Rightarrow>
     ('params, 'pk, 'f) merkle_prover option" where
  "MerkleTreeProver_new L k w = do {
     let (leaf, elements, indices) = to_circuit_format w;
     let circuit = \<lparr>mc_leaf = leaf, mc_elements = elements, mc_indices = indices\<rparr>;
     (params, pk) \<leftarrow> halo2_keygen L k circuit;
     Some \<lparr>mp_params = params, mp_pk = pk, mp_witness = w, mp_circuit = circuit\<rparr> }"

text \<open>The specification is the parameter of \<open>merkle_tree_commit_fp\<close>, in the code \<open>OrchardNullifier\<close>.\<close>

definition merkle_create_proof ::
    "'f::field spec \<Rightarrow> ('params, 'vk, 'pk, 'err, 'f merkle_circuit, 'f list) halo2 \<Rightarrow> ('params, 'pk, 'f) merkle_prover \<Rightarrow>
     u8 list option" where
  "merkle_create_proof S L p = do {
     rt \<leftarrow> merkle_tree_commit_fp S (mw_leaf (mp_witness p)) (mw_elements (mp_witness p)) (mw_indices (mp_witness p));
     let public_inputs = [mc_leaf (mp_circuit p), rt];
     expect_ok (h2_create_proof L (mp_params p) (mp_pk p) (mp_circuit p) public_inputs) }"

definition merkle_prover_verify ::
    "('params, 'vk, 'pk, 'err, 'f::field merkle_circuit, 'f list) halo2 \<Rightarrow> ('params, 'pk, 'f) merkle_prover \<Rightarrow>
     u8 list \<Rightarrow> 'f list \<Rightarrow> bool" where
  "merkle_prover_verify L p bytes public_inputs \<longleftrightarrow>
     \<not> isl (h2_verify_proof L (mp_params p) (h2_get_vk L (mp_pk p)) public_inputs bytes)"

text \<open>The circuit is satisfied by an assignment that carries its siblings and indices.\<close>

definition merkle_accepts :: "'f::field poseidon_config \<Rightarrow> 'f merkle_circuit \<Rightarrow> 'f list \<Rightarrow> bool" where
  "merkle_accepts C circuit instances \<longleftrightarrow> (\<exists>leaf levels ads rest.
      map (\<lambda>i. (ml_element (levels i), ml_index (levels i))) [0..<length (mc_indices circuit)] =
        zip (mc_elements circuit) (mc_indices circuit) \<and> length instances = 2 \<and>
      merkle_synthesize C circuit (instances ! 0, instances ! 1) leaf levels (ads, True) = Some (rest, True))"

section \<open>The Verkle tree prover\<close>

definition VerkleTreeProver_new ::
    "('params, 'vk, 'pk, 'err, 'c, 'f \<times> 'f) halo2 \<Rightarrow> u32 \<Rightarrow> 'c \<Rightarrow> bool \<Rightarrow> ('params, 'pk, 'c) halo2_prover option" where
  "VerkleTreeProver_new L k circuit expected = do {
     (params, pk) \<leftarrow> halo2_keygen L k circuit;
     Some \<lparr>hp_params = params, hp_pk = pk, hp_circuit = circuit, hp_expected = expected\<rparr> }"

definition verkle_create_proof ::
    "('params, 'vk, 'pk, 'err, 'c, 'f \<times> 'f) halo2 \<Rightarrow> ('params, 'pk, 'c) halo2_prover \<Rightarrow> 'f \<Rightarrow> 'f \<Rightarrow> u8 list option" where
  "verkle_create_proof L p leaf rt = expect_ok (h2_create_proof L (hp_params p) (hp_pk p) (hp_circuit p) (leaf, rt))"

definition verkle_prover_verify ::
    "('params, 'vk, 'pk, 'err, 'c, 'f \<times> 'f) halo2 \<Rightarrow> ('params, 'pk, 'c) halo2_prover \<Rightarrow> u8 list \<Rightarrow> 'f \<Rightarrow> 'f \<Rightarrow> bool" where
  "verkle_prover_verify L p bytes leaf rt =
     (case h2_verify_proof L (hp_params p) (h2_get_vk L (hp_pk p)) (leaf, rt) bytes of
        Inr _ \<Rightarrow> hp_expected p | Inl _ \<Rightarrow> \<not> hp_expected p)"

section \<open>Properties\<close>

text \<open>
  The Poseidon circuit is satisfiable for a message and an output exactly when the
  message fits into the state and the output is its hash.
\<close>

theorem poseidon_circuit_exact:
  fixes c :: "'f::field poseidon_circuit"
  assumes "chip_spec S" and "configure S = Some C"
  shows "poseidon_accepts C c \<longleftrightarrow> length (pq_message c) \<le> sp_T S \<and> poseidon_hash S (pq_message c) = Some (pq_output c)"
proof -
  have C: "C = config_of S" using assms(2) configure_ok [OF assms(1)] by simp
  have "poseidon_accepts C c \<longleftrightarrow> length (pq_message c) \<le> sp_T S \<and>
      (\<exists>ads rest. chip_hash C (pq_message c) (ads, True) = Some (pq_output c, (rest, True)))"
    by (auto simp: poseidon_accepts_def poseidon_synthesize_def C require_def bind_eq_Some_conv) metis
  then show ?thesis
    unfolding C using chip_hash_sound [OF assms(1)] chip_hash_complete [OF assms(1), of "pq_message c" "pq_output c"] by fastforce
qed

theorem poseidon_circuit_exact_witness:
  "poseidon_accepts (config_of small_spec) \<lparr>pq_message = [3, 4 :: rat], pq_output = block_hash small_spec [3, 4]\<rparr>"
proof -
  have "poseidon_hash small_spec [3, 4 :: rat] = Some (block_hash small_spec [3, 4])"
    by (rule poseidon_hash_blocks [OF chip_spec_ok [OF small_chip]]) simp
  moreover have "2 \<le> sp_T (small_spec :: rat spec)" by (simp add: small_spec_def)
  ultimately show ?thesis
    by (subst poseidon_circuit_exact [OF small_chip configure_ok [OF small_chip]]) simp
qed

text \<open>
  Completeness of the Merkle prover: for a witness whose indices are bits, one per
  sibling, a prover that could be set up makes a proof, and the proof verifies for the leaf
  and the committed root.
\<close>

theorem merkle_prover_roundtrip:
  fixes L :: "('params, 'vk, 'pk, 'err, 'f::field merkle_circuit, 'f list) halo2"
  assumes "chip_spec S" and "configure S = Some C" and "wide_field TYPE('f) (2 ^ 64)"
    and "halo2_complete (merkle_accepts C) L"
    and "length (mw_indices w) = length (mw_elements w)" and "\<forall>i \<in> set (mw_indices w). i = 0 \<or> i = 1"
    and "merkle_commit S w = Some rt" and "MerkleTreeProver_new L k w = Some p"
  shows "\<exists>bytes. merkle_create_proof S L p = Some bytes \<and>
    merkle_prover_verify L p bytes [field_from_u64 (mw_leaf w), rt]"
proof -
  let ?i = "[field_from_u64 (mw_leaf w), rt]"
  obtain params pk where keys: "halo2_keygen L k (circuit_of w) = Some (params, pk)"
    and p: "p = \<lparr>mp_params = params, mp_pk = pk, mp_witness = w, mp_circuit = circuit_of w\<rparr>"
    using assms(8) by (auto simp: MerkleTreeProver_new_def circuit_of_def Let_def split: prod.splits bind_splits)
  have leaf: "mc_leaf (circuit_of w) = field_from_u64 (mw_leaf w)"
    and len: "length (mc_indices (circuit_of w)) = length (mw_indices w)"
    by (simp_all add: circuit_of_def to_circuit_format_def)
  have "merkle_accepts C (circuit_of w) ?i"
    using merkle_circuit_aux [OF assms(1-3,5), of rt] assms(6,7) by (simp add: merkle_accepts_def leaf len)
  then obtain bytes where "h2_create_proof L params pk (circuit_of w) ?i = Inr bytes"
    "h2_verify_proof L params (h2_get_vk L pk) ?i bytes = Inr ()"
    by (rule halo2_proved [OF assms(4) keys])
  then show ?thesis
    using assms(7) by (simp add: merkle_create_proof_def merkle_prover_verify_def p leaf merkle_commit_def)
qed

theorem merkle_prover_roundtrip_witness:
  "\<exists>rt p bytes. merkle_commit small_spec (MerkleWitness_new 5 [6] [1]) = Some (rt :: rat) \<and>
     merkle_create_proof small_spec (ideal_halo2 (merkle_accepts (config_of small_spec))) p = Some bytes \<and>
     merkle_prover_verify (ideal_halo2 (merkle_accepts (config_of small_spec))) p bytes [5, rt]"
proof -
  let ?w = "MerkleWitness_new 5 [6] [1]" and ?L = "ideal_halo2 (merkle_accepts (config_of (small_spec :: rat spec)))"
  have "poseidon_hash small_spec [6, 5 :: rat] = Some (block_hash small_spec [6, 5])"
    using poseidon_hash_blocks [OF chip_spec_ok [OF small_chip]] by blast
  then have c: "merkle_commit small_spec ?w = Some (block_hash small_spec [6, 5] :: rat)"
    by (simp add: merkle_commit_def commit_is_path MerkleWitness_new_def field_from_u64_def)
  obtain p where p: "MerkleTreeProver_new ?L 5 ?w = Some p"
    by (cases "to_circuit_format ?w :: rat \<times> rat list \<times> rat list") (simp add: MerkleTreeProver_new_def ideal_halo2_keygen Let_def)
  have bits: "length (mw_indices ?w) = length (mw_elements ?w)" "\<forall>i \<in> set (mw_indices ?w). i = 0 \<or> i = 1"
    and leaf: "field_from_u64 (mw_leaf ?w) = (5 :: rat)"
    by (simp_all add: MerkleWitness_new_def field_from_u64_def)
  from merkle_prover_roundtrip [OF small_chip configure_ok [OF small_chip] wide_field_rat ideal_halo2_complete bits c p] c leaf
  show ?thesis by auto
qed

text \<open>
  Completeness of the Verkle prover: for a circuit made by \<open>create_verkle_tree_proof\<close>, a
  prover that could be set up makes a proof for the leaf and the root of the tree, and
  verification of it answers what the prover was told to expect.
\<close>

theorem verkle_prover_roundtrip:
  fixes V :: "('f::field, 'g, 'kz, 'w, 'r) verkle_library"
    and L :: "('params, 'vk, 'pk, 'err, ('f, 'g, 'kz) verkle_circuit, 'f \<times> 'f) halo2"
  assumes "kzg_laws (vl_kzg V)" and "wide_field TYPE('f) (2 ^ 64)" and "low_byte_law V"
    and "\<And>i. length (fst (random i)) = 4" and "indices \<noteq> []"
    and "create_verkle_tree_proof V random blind leaf indices = Some (c, rt)"
    and "halo2_complete (\<lambda>c i. verkle_mock 4 OrchardNullifier_fr V c i = Some True) L"
    and "VerkleTreeProver_new L k c expected = Some p"
  shows "\<exists>bytes. verkle_create_proof L p leaf rt = Some bytes \<and> verkle_prover_verify L p bytes leaf rt = expected"
proof -
  obtain params pk where keys: "halo2_keygen L k c = Some (params, pk)"
    and p: "p = \<lparr>hp_params = params, hp_pk = pk, hp_circuit = c, hp_expected = expected\<rparr>"
    using assms(8) by (auto simp: VerkleTreeProver_new_def split: prod.splits bind_splits)
  obtain bytes where "h2_create_proof L params pk c (leaf, rt) = Inr bytes"
    "h2_verify_proof L params (h2_get_vk L pk) (leaf, rt) bytes = Inr ()"
    by (rule halo2_proved [OF assms(7) keys]) (rule verkle_complete [OF assms(1-6)])
  then show ?thesis by (simp add: verkle_create_proof_def verkle_prover_verify_def p)
qed

theorem verkle_prover_roundtrip_witness:
  "\<exists>c rt p bytes. create_verkle_tree_proof exact_verkle demo_random 0 5 [1, 3] = Some (c, rt) \<and>
     verkle_create_proof (ideal_halo2 (\<lambda>c i. verkle_mock 4 OrchardNullifier_fr exact_verkle c i = Some True)) p 5 rt = Some bytes \<and>
     verkle_prover_verify (ideal_halo2 (\<lambda>c i. verkle_mock 4 OrchardNullifier_fr exact_verkle c i = Some True)) p bytes 5 rt = True"
proof -
  let ?L = "ideal_halo2 (\<lambda>c i. verkle_mock 4 OrchardNullifier_fr exact_verkle c i = Some True)"
  obtain c rt where c: "create_verkle_tree_proof exact_verkle demo_random 0 5 [1, 3] = Some (c, rt)" by (rule exact_tree)
  obtain p where p: "VerkleTreeProver_new ?L 10 c True = Some p"
    by (simp add: VerkleTreeProver_new_def ideal_halo2_keygen)
  have V: "kzg_laws (vl_kzg exact_verkle)" using exact_laws by (simp add: exact_verkle_def)
  have r: "\<And>i. length (fst (demo_random i)) = 4" by (simp add: demo_random_def)
  from verkle_prover_roundtrip [OF V wide_field_rat exact_low_byte r _ c ideal_halo2_complete p] c
  show ?thesis by auto
qed

end
