(* ===== verification/Machine_Programs.thy ===== *)
theory Machine_Programs
  imports Machine_Stack Trace_Consistency
begin

text \<open>
  Programs of the RAM machine. The image of a machine is its memory as bytes, the depth of
  its stack, and what the provers will ask about its trace: which cells have been written,
  whether one was read before, whether a word in the trace uses its top byte, and the number
  of records. Every instruction, with operands aligned to the cells or not, acts on the
  image as \<open>image_exec\<close> says, so that the fate of a program can be computed on images.
\<close>

section \<open>Images\<close>

record 'k image =
  im_bytes :: "'k \<Rightarrow> u8"
  im_depth :: nat
  im_cells :: "'k set"
  im_clean :: bool
  im_low :: bool
  im_records :: nat

text \<open>The image of a new machine.\<close>

definition empty_image :: "'k image" where
  "empty_image = \<lparr>im_bytes = \<lambda>_. 0, im_depth = 0, im_cells = {}, im_clean = True, im_low = True, im_records = 0\<rparr>"

text \<open>A value at an address, in big-endian bytes.\<close>

definition load :: "('k::len word \<Rightarrow> u8) \<Rightarrow> 'k word \<Rightarrow> 'v::len word" where
  "load m a = from_be_bytes (map (\<lambda>i. m (a + word_of_nat i)) [0..<LENGTH('v) div 8])"

definition store :: "('k::len word \<Rightarrow> u8) \<Rightarrow> 'k word \<Rightarrow> 'v::len word \<Rightarrow> 'k word \<Rightarrow> u8" where
  "store m a v x = (if unat a \<le> unat x \<and> unat x < unat a + LENGTH('v) div 8
     then to_be_bytes v ! (unat x - unat a) else m x)"

lemma byte_address:
  fixes a :: "'k::len word"
  assumes "unat a + n \<le> 2 ^ LENGTH('k)" "i < n"
  shows "unat (a + word_of_nat i) = unat a + i"
proof -
  have "i < 2 ^ LENGTH('k)" "unat a + i < 2 ^ LENGTH('k)" using assms by linarith+
  then show ?thesis by (simp add: unat_word_ariths unat_of_nat)
qed

lemma load_store_same:
  fixes v :: "'v::len word" and a :: "'k::len word"
  assumes "unat a + LENGTH('v) div 8 \<le> 2 ^ LENGTH('k)" "8 dvd LENGTH('v)"
  shows "load (store m a v) a = v"
proof -
  have "map (\<lambda>i. store m a v (a + word_of_nat i)) [0..<LENGTH('v) div 8] = to_be_bytes v"
    by (rule nth_equalityI) (simp_all add: store_def byte_address [OF assms(1)])
  then show ?thesis by (simp add: load_def from_to_be_bytes [OF assms(2)])
qed

lemma load_store_other:
  fixes v :: "'v::len word" and a b :: "'k::len word"
  assumes "unat a + LENGTH('v) div 8 \<le> 2 ^ LENGTH('k)"
    and "unat a + LENGTH('v) div 8 \<le> unat b \<or> unat b + LENGTH('v) div 8 \<le> unat a"
  shows "load (store m b v) a = (load m a :: 'v word)"
proof -
  have "map (\<lambda>i. store m b v (a + word_of_nat i)) [0..<LENGTH('v) div 8] = map (\<lambda>i. m (a + word_of_nat i)) [0..<LENGTH('v) div 8]"
    using assms(2) by (auto simp: store_def byte_address [OF assms(1)])
  then show ?thesis by (simp only: load_def)
qed

lemma store_load_same:
  fixes a :: "'k::len word"
  assumes "unat a + LENGTH('v::len) div 8 \<le> 2 ^ LENGTH('k)" "8 dvd LENGTH('v)"
  shows "store m a (load m a :: 'v word) = m"
proof
  fix x
  let ?n = "LENGTH('v) div 8"
  have "to_be_bytes (load m a :: 'v word) = map (\<lambda>i. m (a + word_of_nat i)) [0..<?n]"
    using assms(2) by (simp add: load_def to_from_be_bytes)
  moreover have "a + word_of_nat (unat x - unat a) = x" if "unat a \<le> unat x"
    using that by (simp add: of_nat_diff)
  ultimately show "store m a (load m a :: 'v word) x = m x" by (auto simp: store_def)
qed

text \<open>The cells an access touches, and whether they leave the top bytes zero.\<close>

definition touched :: "'k::len word \<Rightarrow> 'k word \<Rightarrow> 'k word list" where
  "touched w a = (if a mod w = 0 then [a] else [a - a mod w, a - a mod w + w])"

definition top_zero :: "'k::len word \<Rightarrow> bool" where
  "top_zero x \<longleftrightarrow> to_be_bytes x ! 0 = 0"

definition low_cells :: "('k::len word \<Rightarrow> u8) \<Rightarrow> 'k word list \<Rightarrow> bool" where
  "low_cells m cs \<longleftrightarrow> list_all (\<lambda>c. top_zero c \<and> m c = 0) cs"

definition image_read :: "'k::len word \<Rightarrow> 'k word \<Rightarrow> 'k word image \<Rightarrow> 'k word image" where
  "image_read w a I = I\<lparr>im_clean := im_clean I \<and> set (touched w a) \<subseteq> im_cells I,
     im_low := im_low I \<and> low_cells (im_bytes I) (touched w a), im_records := im_records I + length (touched w a)\<rparr>"

definition image_write :: "'k::len word \<Rightarrow> 'k word \<Rightarrow> 'v::len word \<Rightarrow> 'k word image \<Rightarrow> 'k word image" where
  "image_write w a v I = I\<lparr>im_bytes := store (im_bytes I) a v, im_cells := im_cells I \<union> set (touched w a),
     im_low := im_low I \<and> low_cells (store (im_bytes I) a v) (touched w a),
     im_records := im_records I + length (touched w a)\<rparr>"

text \<open>The instructions, access by access in the order of the code.\<close>

fun image_exec :: "'k::len word \<Rightarrow> ('k word, 'v::len word) instruction \<Rightarrow> 'k word image \<Rightarrow> 'k word image" where
  "image_exec w (I_Read a) I = image_read w a I"
| "image_exec w (I_Write a v) I = image_write w a v I"
| "image_exec w (I_Push v) I = (image_write w (slot w (im_depth I)) v I)\<lparr>im_depth := im_depth I + 1\<rparr>"
| "image_exec w I_Pop I = (image_read w (slot w (im_depth I - 1)) I)\<lparr>im_depth := im_depth I - 1\<rparr>"
| "image_exec w (I_Mov g h) I =
     image_write w (reg_address g) (load (im_bytes I) (reg_address h) :: 'v word) (image_read w (reg_address h) I)"
| "image_exec w (I_Swap g) I =
     (let top = slot w (im_depth I - 1); J = image_read w (reg_address g) (image_read w top I) in
      image_write w (reg_address g) (load (im_bytes I) top :: 'v word)
        (image_write w top (load (im_bytes I) (reg_address g) :: 'v word) J))"
| "image_exec w (I_Load g a) I =
     image_write w (reg_address g) (load (im_bytes I) a :: 'v word) (image_read w a I)"
| "image_exec w (I_Save a g) I =
     image_write w a (load (im_bytes I) (reg_address g) :: 'v word) (image_read w (reg_address g) I)"
| "image_exec w I_Invalid I = I"
| "image_exec w (I_Add g h) I =
     image_write w (reg_address g) (load (im_bytes I) (reg_address g) + load (im_bytes I) (reg_address h) :: 'v word)
       (image_read w (reg_address h) (image_read w (reg_address g) I))"

definition image_guard ::
    "bool \<Rightarrow> 'k::len word mem_section \<Rightarrow> nat \<Rightarrow> ('k word, 'v::len word) instruction \<Rightarrow> 'k word image \<Rightarrow> bool" where
  "image_guard chk sec mx i I = spec_guard chk sec mx i (load (im_bytes I), im_depth I)"

fun image_run ::
    "bool \<Rightarrow> 'k::len word mem_section \<Rightarrow> nat \<Rightarrow> 'k word \<Rightarrow> ('k word, 'v::len word) instruction list \<Rightarrow>
     'k word image \<Rightarrow> 'k word image option" where
  "image_run chk sec mx w [] I = Some I"
| "image_run chk sec mx w (i # is) I =
     (if image_guard chk sec mx i I then image_run chk sec mx w is (image_exec w i I) else None)"

text \<open>
  Operands that are registers lie on cells, which makes their interactions single cells;
  every access ends inside the address space.
\<close>

fun registers_of :: "('k, 'v) instruction \<Rightarrow> 'k list" where
  "registers_of (I_Mov g h) = [reg_address g, reg_address h]"
| "registers_of (I_Swap g) = [reg_address g]"
| "registers_of (I_Load g a) = [reg_address g]"
| "registers_of (I_Save a g) = [reg_address g]"
| "registers_of (I_Add g h) = [reg_address g, reg_address h]"
| "registers_of _ = []"

definition operands_ok :: "'k::len word \<Rightarrow> ('k word, 'v::len word) instruction \<Rightarrow> bool" where
  "operands_ok w i \<longleftrightarrow> list_all (\<lambda>a. a mod w = 0) (registers_of i) \<and>
     list_all (\<lambda>a. unat a + unat w \<le> 2 ^ LENGTH('k)) (operands i)"

section \<open>The image of a machine\<close>

definition low_record :: "('k::len word, 'v::len word) trace_record \<Rightarrow> bool" where
  "low_record r \<longleftrightarrow> top_zero (tr_address r) \<and> top_zero (tr_value r)"

definition image_of ::
    "('m, 't, 'k::len word, 'v::len word) platform \<Rightarrow> ('m, 't, 'k word, 'z) machine_scheme \<Rightarrow> 'k word image" where
  "image_of P s = \<lparr>im_bytes = flat_byte P s, im_depth = unat (stack_depth s), im_cells = dom (rb_get P (memory s)),
     im_clean = reads_initialised {} (machine_trace P s), im_low = list_all low_record (machine_trace P s),
     im_records = length (machine_trace P s)\<rparr>"

lemma image_of_simps [simp]:
  "im_bytes (image_of P s) = flat_byte P s" "im_depth (image_of P s) = unat (stack_depth s)"
  "im_clean (image_of P s) = reads_initialised {} (machine_trace P s)"
  "im_records (image_of P s) = length (machine_trace P s)"
  by (simp_all add: image_of_def)

lemma image_read_simps [simp]:
  "im_bytes (image_read w a I) = im_bytes I" "im_depth (image_read w a I) = im_depth I"
  "im_cells (image_read w a I) = im_cells I"
  by (simp_all add: image_read_def)

lemma image_write_simps [simp]:
  "im_bytes (image_write w a v I) = store (im_bytes I) a v" "im_depth (image_write w a v I) = im_depth I"
  "im_cells (image_write w a v I) = im_cells I \<union> set (touched w a)"
  by (simp_all add: image_write_def)

lemma image_depth_commute:
  "image_read w a (I\<lparr>im_depth := d\<rparr>) = (image_read w a I)\<lparr>im_depth := d\<rparr>"
  "image_write w a v (I\<lparr>im_depth := d\<rparr>) = (image_write w a v I)\<lparr>im_depth := d\<rparr>"
  by (simp_all add: image_read_def image_write_def)

text \<open>Reading a sequence of records in parts.\<close>

lemma reads_initialised_append:
  "reads_initialised A (xs @ ys) \<longleftrightarrow> reads_initialised A xs \<and> reads_initialised (A \<union> tr_address ` set xs) ys"
  by (induction xs arbitrary: A) (auto simp: insert_commute)

lemma replay_dom:
  "replay m tr = Some m' \<Longrightarrow> reads_initialised A tr \<Longrightarrow> A = dom m \<Longrightarrow> dom m' = A \<union> tr_address ` set tr"
proof (induction tr arbitrary: m A)
  case (Cons r rs)
  show ?case
  proof (cases "tr_instruction r")
    case Write
    then show ?thesis using Cons.IH [of "m(tr_address r \<mapsto> tr_value r)" "insert (tr_address r) A"] Cons.prems
      by (simp del: fun_upd_apply)
  next
    case Read
    then have "tr_address r \<in> A" "replay m rs = Some m'" using Cons.prems by (auto split: if_splits)
    then show ?thesis using Cons.IH [of m A] Cons.prems by (auto simp: insert_absorb)
  qed
qed simp

lemma trace_cells:
  assumes "machine_inv P s" "reads_initialised {} (machine_trace P s)"
  shows "tr_address ` set (machine_trace P s) = dom (rb_get P (memory s))"
  using replay_dom [of Map.empty "machine_trace P s" "rb_get P (memory s)" "{}"] assms by (simp add: machine_inv_def)


section \<open>Accesses\<close>

text \<open>A machine on which \<open>image_of\<close> is exact and whose trace has room for \<open>n\<close> records.\<close>

lemma aligned_mod: "aligned s a \<longleftrightarrow> a mod word_size s = 0"
  by (simp add: aligned_def is_zero_def)

lemma base_aligned:
  fixes a w :: "'k::len word"
  shows "(a - a mod w) mod w = 0"
proof (cases "w = 0")
  case False
  have "unat (a mod w) \<le> unat a" by (simp add: unat_mod_distrib)
  then have "unat (a - a mod w) = unat a - unat a mod unat w" by (simp add: unat_sub word_le_nat_alt unat_mod_distrib)
  then have "unat (a - a mod w) = unat w * (unat a div unat w)" by (simp add: minus_mod_eq_mult_div)
  then show ?thesis by (simp add: word_unat_eq_iff unat_mod_distrib)
qed simp

context rbtree
begin

lemma flat_base:
  assumes "x mod word_size s = 0"
  shows "flat_byte P s x = to_be_bytes (cell_value (rb_get P (memory s)) x) ! 0"
  using assms by (simp add: flat_byte_def dummy_read_cell)

lemma records_touched:
  "map tr_address (read_records P a s) = touched (word_size s) a"
  "map fst (write_cells P a v s) = touched (word_size s) a"
  by (simp_all add: read_records_def write_cells_def touched_def Let_def TraceRecord_new_def is_zero_def)

lemma high_aligned:
  fixes s :: "('m, 't, 'k word, 'z) machine_scheme"
  assumes "cells_fit TYPE('v) s" "unat a + LENGTH('v) div 8 \<le> 2 ^ LENGTH('k)" "a mod word_size s \<noteq> 0"
  shows "(a - a mod word_size s + word_size s) mod word_size s = 0"
    and "a - a mod word_size s + word_size s \<noteq> a - a mod word_size s"
proof -
  let ?w = "word_size s" and ?lo = "a - a mod word_size s"
  have w: "unat ?w = LENGTH('v) div 8" "0 < unat ?w" using assms(1) cells_fit_pos [OF assms(1)] by (simp_all add: cells_fit_def)
  have "unat (a mod ?w) \<le> unat a" "0 < unat (a mod ?w)"
    using assms(3) by (simp_all add: unat_mod_distrib unat_gt_0 flip: unat_eq_0)
  then have "unat ?lo + unat ?w < 2 ^ LENGTH('k)"
    using assms(2) w by (simp add: unat_sub word_le_nat_alt)
  then have "unat (?lo + ?w) = unat ?lo + unat ?w" by (simp add: unat_word_ariths)
  moreover have "unat ?lo mod unat ?w = 0" using base_aligned [of a ?w] by (metis unat_mod_distrib unat_0)
  ultimately show "(?lo + ?w) mod ?w = 0" by (simp add: word_unat_eq_iff unat_mod_distrib)
  show "?lo + ?w \<noteq> ?lo" using w(2) by (simp add: unat_gt_0)
qed

lemma touched_aligned:
  fixes s :: "('m, 't, 'k word, 'z) machine_scheme"
  assumes "cells_fit TYPE('v) s" "unat a + LENGTH('v) div 8 \<le> 2 ^ LENGTH('k)"
  shows "\<forall>c \<in> set (touched (word_size s) a). c mod word_size s = 0" "distinct (touched (word_size s) a)"
  using base_aligned [of a "word_size s"] high_aligned [OF assms] by (auto simp: touched_def)

lemma clean_append:
  assumes "machine_inv P s" "map tr_address rs = cs"
  shows "reads_initialised {} (machine_trace P s @ rs) \<longleftrightarrow>
    reads_initialised {} (machine_trace P s) \<and> reads_initialised (dom (rb_get P (memory s))) rs"
  using trace_cells [OF assms(1)] by (auto simp: reads_initialised_append)

lemma read_records_clean: "reads_initialised A (read_records P a s) \<longleftrightarrow> set (touched (word_size s) a) \<subseteq> A"
  by (auto simp: read_records_def touched_def Let_def TraceRecord_new_def is_zero_def)

lemma write_records_clean: "reads_initialised A (write_records t d cs)"
  by (induction t d cs arbitrary: A rule: write_records.induct) (simp_all add: TraceRecord_new_def)

lemma read_records_low:
  assumes "\<forall>c \<in> set (touched (word_size s) a). c mod word_size s = 0"
  shows "list_all low_record (read_records P a s) \<longleftrightarrow> low_cells (flat_byte P s) (touched (word_size s) a)"
proof -
  have low: "low_record (TraceRecord_new t d i c (dummy_read P c s)) \<longleftrightarrow> top_zero c \<and> flat_byte P s c = 0"
    if "c \<in> set (touched (word_size s) a)" for t d i c
    using that assms by (simp add: low_record_def TraceRecord_new_def top_zero_def flat_base dummy_read_cell)
  show ?thesis
    using low by (simp add: read_records_def touched_def Let_def is_zero_def low_cells_def split: if_splits)
qed

lemma write_records_low:
  "list_all low_record (write_records t d cs) \<longleftrightarrow> list_all (\<lambda>(c, x). top_zero c \<and> top_zero x) cs"
  by (induction t d cs rule: write_records.induct) (simp_all add: TraceRecord_new_def low_record_def)

lemma store_cells_lookup: "distinct (map fst cs) \<Longrightarrow> (c, x) \<in> set cs \<Longrightarrow> store_cells m cs c = Some x"
proof (induction m cs rule: store_cells.induct)
  case (2 m a v cs)
  have keep: "c \<notin> fst ` set cs \<Longrightarrow> store_cells m' cs c = m' c" for m'
    by (induction m' cs rule: store_cells.induct) auto
  show ?case
  proof (cases "(c, x) = (a, v)")
    case True
    then have "c \<notin> fst ` set cs" using 2 by simp
    then show ?thesis using True keep by simp
  next
    case False
    then have "(c, x) \<in> set cs" "distinct (map fst cs)" using 2(2,3) by auto
    from 2(1) [OF this(2,1)] show ?thesis by (simp del: fun_upd_apply)
  qed
qed simp

lemma store_cells_dom: "dom (store_cells m cs) = dom m \<union> fst ` set cs"
  by (induction m cs rule: store_cells.induct) (simp_all add: insert_commute del: fun_upd_apply)


lemma image_access_read:
  assumes g: "ready P (n + 2) s" and room: "unat a + unat (word_size s) \<le> 2 ^ LENGTH('k)"
  obtains c s' where "mem_read P a s = Some (Inr (c, s'))" "ready P n s'" "same_frame s s'"
    and "image_of P s' = image_read (word_size s) a (image_of P s)"
    and "interaction_value c = load (flat_byte P s) a"
    and "a mod word_size s = 0 \<longrightarrow> c = SingleCell Read a (load (flat_byte P s) a)"
proof -
  note d = readyD [of "n + 1" s] and inv = readyD(1) [of "n + 1" s]
  have g1: "ready P (Suc (n + 1)) s" using g by simp
  note inv = readyD(1) [OF g1] and fit = readyD(2) [OF g1]
  have w: "unat (word_size s) = LENGTH('v) div 8" using fit by (simp add: cells_fit_def)
  have room': "unat a + LENGTH('v) div 8 \<le> 2 ^ LENGTH('k)" using room w by simp
  have "length (machine_trace P s) + 2 < 2 ^ 64" using g by (simp add: ready_def)
  then obtain c s' where run: "mem_read P a s = Some (Inr (c, s'))"
    using mem_read_succeeds [OF inv fit room'] by blast
  have f: "same_frame s s'" by (rule access_frame(1) [OF inv run])
  obtain c' s'' where e: "Inr (c, s') = (Inr (c', s'') :: machine_error + _)" and inv': "machine_inv P s''"
    and m: "memory s'' = memory s" and tr: "machine_trace P s'' = machine_trace P s @ read_records P a s"
    by (rule mem_read_inv [OF inv run])
  have len: "length (read_records P a s) = length (touched (word_size s) a)"
    using arg_cong [OF records_touched(1), of length] by simp
  moreover have "length (touched (word_size s) a) \<le> 2" by (simp add: touched_def)
  ultimately have rd: "ready P n s'" using e inv' tr g f by (simp add: ready_def cells_fit_frame stack_inv_frame)
  have "flat_byte P s' = flat_byte P s"
    using e m f by (auto simp: flat_byte_def dummy_read_def same_frame_def fun_eq_iff)
  then have im: "image_of P s' = image_read (word_size s) a (image_of P s)"
    using e m f tr len clean_append [OF inv records_touched(1)] touched_aligned(1) [OF fit room']
    by (simp add: image_of_def image_read_def same_frame_def read_records_clean read_records_low)
  have v: "interaction_value c = load (flat_byte P s) a"
    using mem_read_flat [OF inv fit run room'] by (simp add: load_def)
  have single: "a mod word_size s = 0 \<longrightarrow> c = SingleCell Read a (load (flat_byte P s) a)"
  proof
    assume "a mod word_size s = 0"
    then have "is_zero (a mod word_size s)" by (simp add: is_zero_def)
    then obtain s1 where "Inr (c, s') = (Inr (SingleCell Read a (dummy_read P a s), s1) :: machine_error + _)"
      using mem_read_aligned_run [OF run] by metis
    then show "c = SingleCell Read a (load (flat_byte P s) a)" using v by simp
  qed
  show thesis by (rule that [OF run rd f im v single])
qed

lemma image_access_write:
  fixes v :: "'v word"
  assumes g: "ready P (n + 2) s" and room: "unat a + unat (word_size s) \<le> 2 ^ LENGTH('k)"
  obtains c s' where "mem_write P a v s = Some (Inr (c, s'))" "ready P n s'" "same_frame s s'"
    and "image_of P s' = image_write (word_size s) a v (image_of P s)"
proof -
  have g1: "ready P (Suc (n + 1)) s" using g by simp
  note inv = readyD(1) [OF g1] and fit = readyD(2) [OF g1]
  have w: "unat (word_size s) = LENGTH('v) div 8" using fit by (simp add: cells_fit_def)
  have room': "unat a + LENGTH('v) div 8 \<le> 2 ^ LENGTH('k)" using room w by simp
  have "length (machine_trace P s) + 2 < 2 ^ 64" using g by (simp add: ready_def)
  then obtain c s' where run: "mem_write P a v s = Some (Inr (c, s'))"
    using mem_write_succeeds [OF inv fit room'] by blast
  have f: "same_frame s s'" by (rule access_frame(2) [OF inv run])
  note W = mem_write_cells [OF inv fit run]
  let ?cs = "write_cells P a v s" and ?t = "touched (word_size s) a"
  have cs: "map fst ?cs = ?t" by (rule records_touched(2))
  have len: "length ?cs = length ?t" using arg_cong [OF cs, of length] by simp
  moreover have "length ?t \<le> 2" by (simp add: touched_def)
  ultimately have rd: "ready P n s'" using W(3,4) g f by (simp add: ready_def cells_fit_frame stack_inv_frame)
  have flat: "flat_byte P s' = store (flat_byte P s) a v"
    by (rule ext) (simp add: store_def mem_write_flat [OF inv fit run room'])
  have "distinct (map fst ?cs)" using touched_aligned(2) [OF fit room'] cs by simp
  then have "top_zero x \<longleftrightarrow> flat_byte P s' c = 0" if "(c, x) \<in> set ?cs" for c x
  proof -
    have "c \<in> set ?t" using that cs by (metis fst_conv image_eqI set_map)
    then have "c mod word_size s' = 0" using touched_aligned(1) [OF fit room'] W(2) by simp
    moreover have "rb_get P (memory s') c = Some x"
      unfolding W(1) by (rule store_cells_lookup [OF \<open>distinct (map fst ?cs)\<close> that])
    ultimately show ?thesis by (simp add: flat_base cell_value_def top_zero_def)
  qed
  then have "list_all (\<lambda>(c, x). top_zero c \<and> top_zero x) ?cs = list_all (\<lambda>c. top_zero c \<and> flat_byte P s' c = 0) (map fst ?cs)"
    by (auto simp: list_all_iff)
  then have low: "list_all low_record (write_records t d ?cs) \<longleftrightarrow> low_cells (store (flat_byte P s) a v) ?t" for t d
    by (simp add: write_records_low cs low_cells_def flat)
  have dom: "dom (rb_get P (memory s')) = dom (rb_get P (memory s)) \<union> set ?t"
    unfolding W(1) store_cells_dom using arg_cong [OF cs, of set] by simp
  have "image_of P s' = image_write (word_size s) a v (image_of P s)"
    using W(4) f len clean_append [OF inv refl] low
    by (simp add: image_of_def image_write_def same_frame_def flat dom write_records_clean)
  from that [OF run rd f this] show thesis .
qed


text \<open>What no instruction changes.\<close>

definition same_layout :: "('m, 't, 'k word, 'z) machine_scheme \<Rightarrow> ('m, 't, 'k word, 'z) machine_scheme \<Rightarrow> bool" where
  "same_layout s s' \<longleftrightarrow> word_size s' = word_size s \<and> memory_allocated s' = memory_allocated s \<and>
     max_stack_depth s' = max_stack_depth s"

lemma frame_layout: "same_frame s s' \<Longrightarrow> same_layout s s'"
  by (simp add: same_frame_def same_layout_def)

lemma same_layout_trans: "same_layout s s' \<Longrightarrow> same_layout s' s'' \<Longrightarrow> same_layout s s''"
  by (simp add: same_layout_def)

lemma image_push:
  fixes v :: "'v word"
  assumes g: "ready P (n + 2) s" and lt: "stack_depth s < max_stack_depth s"
  obtains c s' where "push P v s = Some (Inr ((stack_depth s + 1, c), s'))" "ready P n s'" "same_layout s s'"
    and "image_of P s' = (image_write (word_size s) (slot (word_size s) (unat (stack_depth s))) v (image_of P s))
       \<lparr>im_depth := unat (stack_depth s) + 1\<rparr>"
    and "stack_depth s' = stack_depth s + 1"
proof -
  have inv: "stack_inv s" using g by (simp add: ready_def)
  note step = stack_inv_step [OF inv lt]
  let ?t = "s\<lparr>stack_depth := stack_depth s + 1, stack_ptr := stack_ptr s + word_size s\<rparr>"
  have "stack_inv ?t" using inv lt step by (simp add: stack_inv_def word_le_nat_alt word_less_nat_alt)
  with g have g': "ready P (n + 2) ?t" by (simp add: ready_def cells_fit_def)
  have "unat (stack_ptr s) + unat (word_size s) = unat (stack_ptr s + word_size s)"
    using inv step(2) by (simp add: stack_inv_def)
  then have room: "unat (stack_ptr s) + unat (word_size ?t) \<le> 2 ^ LENGTH('k)"
    by (simp add: less_imp_le [OF unat_less_2p])
  obtain c s' where w: "mem_write P (stack_ptr s) v ?t = Some (Inr (c, s'))" and s': "ready P n s'" "same_frame ?t s'"
    and im: "image_of P s' = image_write (word_size ?t) (stack_ptr s) v (image_of P ?t)"
    by (rule image_access_write [OF g' room])
  have "stack_depth s \<noteq> max_stack_depth s" using lt by simp
  then have push: "push P v s = Some (Inr ((stack_depth s + 1, c), s'))" using w step by (simp add: push_run)
  have "image_of P ?t = (image_of P s)\<lparr>im_depth := unat (stack_depth s) + 1\<rparr>"
    using step(1) by (simp add: image_of_def flat_byte_def dummy_read_def fun_eq_iff)
  then have im': "image_of P s' = (image_write (word_size s) (slot (word_size s) (unat (stack_depth s))) v (image_of P s))
       \<lparr>im_depth := unat (stack_depth s) + 1\<rparr>"
    unfolding im slot_def stack_slot(1) [OF inv, symmetric] by (simp add: image_depth_commute)
  show thesis by (rule that [OF push s'(1) _ im']) (use s'(2) in \<open>simp_all add: same_frame_def same_layout_def\<close>)
qed

lemma image_pop:
  assumes g: "ready P (n + 2) s" and ne: "stack_depth s \<noteq> 0"
  defines "tp \<equiv> slot (word_size s) (unat (stack_depth s) - 1)"
  obtains s' where "pop P s = Some (Inr ((stack_depth s - 1, SingleCell Read tp (load (flat_byte P s) tp)), s'))"
    and "ready P n s'" "same_layout s s'"
    and "image_of P s' = (image_read (word_size s) tp (image_of P s))\<lparr>im_depth := unat (stack_depth s) - 1\<rparr>"
    and "stack_depth s' = stack_depth s - 1"
proof -
  have inv: "stack_inv s" using g by (simp add: ready_def)
  note step = stack_inv_back [OF inv ne]
  let ?p = "stack_ptr s - word_size s"
  let ?t = "s\<lparr>stack_depth := stack_depth s - 1, stack_ptr := ?p\<rparr>"
  have inv': "stack_inv ?t" using inv step by (auto simp: stack_inv_def word_le_nat_alt)
  with g have g': "ready P (n + 2) ?t" by (simp add: ready_def cells_fit_def)
  have p: "?p = tp" using stack_slot(1) [OF inv'] step(1) by (simp add: tp_def slot_def)
  have al: "tp mod word_size ?t = 0" using stack_slot(2) [OF inv'] by (simp add: aligned_mod p)
  have "1 * unat (word_size s) \<le> unat (stack_depth s) * unat (word_size s)"
    using ne by (intro mult_le_mono1) (simp add: Suc_le_eq unat_gt_0)
  then have "unat tp + unat (word_size s) = unat (stack_ptr s)"
    using step(2) inv by (simp add: p stack_inv_def diff_mult_distrib)
  then have room: "unat tp + unat (word_size ?t) \<le> 2 ^ LENGTH('k)"
    by (simp add: less_imp_le [OF unat_less_2p])
  obtain c s' where r: "mem_read P tp ?t = Some (Inr (c, s'))" and s': "ready P n s'" "same_frame ?t s'"
    and im: "image_of P s' = image_read (word_size ?t) tp (image_of P ?t)"
    and c0: "tp mod word_size ?t = 0 \<longrightarrow> c = SingleCell Read tp (load (flat_byte P ?t) tp)"
    by (rule image_access_read [OF g' room])
  have c: "c = SingleCell Read tp (load (flat_byte P ?t) tp)" using c0 al by blast
  have flat: "flat_byte P ?t = flat_byte P s" by (simp add: flat_byte_def dummy_read_def fun_eq_iff)
  have pop: "pop P s = Some (Inr ((stack_depth s - 1, SingleCell Read tp (load (flat_byte P s) tp)), s'))"
    using r step ne c by (simp add: pop_run p flat [unfolded p])
  have "image_of P ?t = (image_of P s)\<lparr>im_depth := unat (stack_depth s) - 1\<rparr>"
    using step(1) flat by (simp add: image_of_def)
  then have im': "image_of P s' = (image_read (word_size s) tp (image_of P s))\<lparr>im_depth := unat (stack_depth s) - 1\<rparr>"
    unfolding im by (simp add: image_depth_commute)
  show thesis by (rule that [OF pop s'(1) _ im']) (use s'(2) in \<open>simp_all add: same_frame_def same_layout_def\<close>)
qed


section \<open>Instructions and programs\<close>

text \<open>An instruction records at most eight accesses.\<close>

definition image_refines :: "('k word, 'v word) instruction \<Rightarrow> nat \<Rightarrow> ('m, 't, 'k word, 'z) machine_scheme \<Rightarrow> bool" where
  "image_refines i n s \<longleftrightarrow>
     (if image_guard (overflow_checks P) (memory_allocated s) (unat (max_stack_depth s)) i (image_of P s)
      then \<exists>s'. exec P i s = Some s' \<and> image_of P s' = image_exec (word_size s) i (image_of P s) \<and>
        ready P n s' \<and> same_layout s s'
      else exec P i s = None)"

lemma operands_frame: "same_layout s s' \<Longrightarrow> operands_ok (word_size s') i = operands_ok (word_size s) i"
  by (simp add: same_layout_def)

lemma image_refines_copy:
  fixes s :: "('m, 't, 'k word, 'z) machine_scheme"
  assumes g: "ready P (n + 8) s" and a: "unat a + unat (word_size s) \<le> 2 ^ LENGTH('k)"
    and b: "unat b + unat (word_size s) \<le> 2 ^ LENGTH('k)"
  obtains c s1 c' s2 where "mem_read P a s = Some (Inr (c, s1))"
    and "mem_write P b (load (flat_byte P s) a :: 'v word) s1 = Some (Inr (c', s2))"
    and "image_of P s2 = image_write (word_size s) b (load (flat_byte P s) a :: 'v word) (image_read (word_size s) a (image_of P s))"
    and "ready P n s2" "same_layout s s2" "interaction_value c = (load (flat_byte P s) a :: 'v word)"
    and "a mod word_size s = 0 \<longrightarrow> c = SingleCell Read a (load (flat_byte P s) a)"
proof -
  have g2: "ready P (n + 6 + 2) s" by (rule ready_mono [OF g]) simp
  obtain c s1 where r: "mem_read P a s = Some (Inr (c, s1))" and s1: "ready P (n + 6) s1" "same_frame s s1"
    and i1: "image_of P s1 = image_read (word_size s) a (image_of P s)"
    and c: "interaction_value c = load (flat_byte P s) a"
      "a mod word_size s = 0 \<longrightarrow> c = SingleCell Read a (load (flat_byte P s) a)"
    by (rule image_access_read [OF g2 a])
  have s1': "ready P (n + 2) s1" by (rule ready_mono [OF s1(1)]) simp
  have b': "unat b + unat (word_size s1) \<le> 2 ^ LENGTH('k)" using b s1(2) by (simp add: same_frame_def)
  obtain c' s2 where "mem_write P b (load (flat_byte P s) a :: 'v word) s1 = Some (Inr (c', s2))" "ready P n s2" "same_frame s1 s2"
    and "image_of P s2 = image_write (word_size s1) b (load (flat_byte P s) a :: 'v word) (image_of P s1)"
    by (rule image_access_write [OF s1' b'])
  with r s1(2) i1 c show thesis
    by (intro that [of c s1 c' s2]) (auto simp: same_frame_def same_layout_def)
qed

lemma image_refines_simple:
  assumes g: "ready P (n + 8) s" and ok: "operands_ok (word_size s) i"
  shows "i = I_Read a \<Longrightarrow> image_refines i n s" "i = I_Write a v \<Longrightarrow> image_refines i n s"
    "i = I_Push v \<Longrightarrow> image_refines i n s" "i = I_Pop \<Longrightarrow> image_refines i n s"
proof -
  have g2: "ready P (n + 2) s" by (rule ready_mono [OF g]) simp
  have inv: "stack_inv s" using g by (simp add: ready_def)
  {
    assume i: "i = I_Read a"
    then have a: "unat a + unat (word_size s) \<le> 2 ^ LENGTH('k)" using ok by (simp add: operands_ok_def)
    obtain c s' where "mem_read P a s = Some (Inr (c, s'))" "ready P n s'" "same_frame s s'"
      and "image_of P s' = image_read (word_size s) a (image_of P s)"
      by (rule image_access_read [OF g2 a])
    then show "image_refines i n s"
      by (simp add: i image_refines_def image_guard_def expecting_simps frame_layout)
  }
  {
    assume i: "i = I_Write a v"
    then have a: "unat a + unat (word_size s) \<le> 2 ^ LENGTH('k)" using ok by (simp add: operands_ok_def)
    obtain c s' where "mem_write P a v s = Some (Inr (c, s'))" "ready P n s'" "same_frame s s'"
      and "image_of P s' = image_write (word_size s) a v (image_of P s)"
      by (rule image_access_write [OF g2 a])
    then show "image_refines i n s"
      by (simp add: i image_refines_def image_guard_def expecting_simps frame_layout)
  }
  {
    assume i: "i = I_Push v"
    show "image_refines i n s"
    proof (cases "stack_depth s < max_stack_depth s")
      case True
      obtain c s' where "push P v s = Some (Inr ((stack_depth s + 1, c), s'))" "ready P n s'" "same_layout s s'"
        and "image_of P s' = (image_write (word_size s) (slot (word_size s) (unat (stack_depth s))) v (image_of P s))
          \<lparr>im_depth := unat (stack_depth s) + 1\<rparr>"
        by (rule image_push [OF g2 True])
      with True show ?thesis
        by (simp add: i image_refines_def image_guard_def expecting_simps word_less_nat_alt)
    next
      case False
      then have "stack_depth s = max_stack_depth s" using inv by (auto simp: stack_inv_def)
      then show ?thesis by (simp add: i image_refines_def image_guard_def expecting_simps push_def)
    qed
  }
  {
    assume i: "i = I_Pop"
    show "image_refines i n s"
    proof (cases "stack_depth s = 0")
      case True
      then show ?thesis by (simp add: i image_refines_def image_guard_def expecting_simps pop_def)
    next
      case False
      obtain x s' where "pop P s = Some (Inr (x, s'))" "ready P n s'" "same_layout s s'"
        and "image_of P s' = (image_read (word_size s) (slot (word_size s) (unat (stack_depth s) - 1)) (image_of P s))
          \<lparr>im_depth := unat (stack_depth s) - 1\<rparr>"
        by (rule image_pop [OF g2 False])
      with False show ?thesis
        by (cases x) (simp add: i image_refines_def image_guard_def expecting_simps unat_gt_0)
    qed
  }
qed


lemma image_refines_moves:
  assumes g: "ready P (n + 8) s" and ok: "operands_ok (word_size s) i"
  shows "i = I_Mov r q \<Longrightarrow> image_refines i n s" "i = I_Load r a \<Longrightarrow> image_refines i n s"
    "i = I_Save a r \<Longrightarrow> image_refines i n s"
proof -
  {
    assume i: "i = I_Mov r q"
    then have o: "unat (reg_address q) + unat (word_size s) \<le> 2 ^ LENGTH('k)"
      "unat (reg_address r) + unat (word_size s) \<le> 2 ^ LENGTH('k)" "reg_address q mod word_size s = 0"
      using ok by (simp_all add: operands_ok_def)
    show "image_refines i n s"
      by (rule image_refines_copy [OF g o(1,2)])
        (use o(3) in \<open>simp add: i image_refines_def image_guard_def expecting_simps reg_get_def reg_set_def\<close>)
  }
  {
    assume i: "i = I_Load r a"
    then have o: "unat a + unat (word_size s) \<le> 2 ^ LENGTH('k)"
      "unat (reg_address r) + unat (word_size s) \<le> 2 ^ LENGTH('k)"
      using ok by (simp_all add: operands_ok_def)
    show "image_refines i n s"
    proof (rule image_refines_copy [OF g o])
      fix c s1 c' s2
      assume "mem_read P a s = Some (Inr (c, s1))"
        "mem_write P (reg_address r) (load (flat_byte P s) a :: 'v word) s1 = Some (Inr (c', s2))"
        "image_of P s2 = image_write (word_size s) (reg_address r) (load (flat_byte P s) a :: 'v word) (image_read (word_size s) a (image_of P s))"
        "ready P n s2" "same_layout s s2" "interaction_value c = (load (flat_byte P s) a :: 'v word)"
      then show "image_refines i n s"
        by (cases c) (simp_all add: i image_refines_def image_guard_def expecting_simps reg_set_def)
    qed
  }
  {
    assume i: "i = I_Save a r"
    then have o: "unat (reg_address r) + unat (word_size s) \<le> 2 ^ LENGTH('k)"
      "unat a + unat (word_size s) \<le> 2 ^ LENGTH('k)" "reg_address r mod word_size s = 0"
      using ok by (simp_all add: operands_ok_def)
    show "image_refines i n s"
      by (rule image_refines_copy [OF g o(1,2)])
        (use o(3) in \<open>simp add: i image_refines_def image_guard_def expecting_simps reg_get_def\<close>)
  }
qed

lemma image_refines_add:
  assumes g: "ready P (n + 8) s" and ok: "operands_ok (word_size s) (I_Add r q)"
  shows "image_refines (I_Add r q) n s"
proof -
  let ?a = "reg_address r" and ?b = "reg_address q"
  have o: "unat ?a + unat (word_size s) \<le> 2 ^ LENGTH('k)" "unat ?b + unat (word_size s) \<le> 2 ^ LENGTH('k)"
    "?a mod word_size s = 0" "?b mod word_size s = 0"
    using ok by (simp_all add: operands_ok_def)
  define x y where "x = (load (flat_byte P s) ?a :: 'v word)" and "y = (load (flat_byte P s) ?b :: 'v word)"
  have g1: "ready P (n + 6 + 2) s" by (rule ready_mono [OF g]) simp
  obtain c s1 where r1: "mem_read P ?a s = Some (Inr (c, s1))" and s1: "ready P (n + 6) s1" "same_frame s s1"
    and i1: "image_of P s1 = image_read (word_size s) ?a (image_of P s)"
    and c: "?a mod word_size s = 0 \<longrightarrow> c = SingleCell Read ?a (load (flat_byte P s) ?a)"
    by (rule image_access_read [OF g1 o(1)])
  have w1: "word_size s1 = word_size s" using s1(2) by (simp add: same_frame_def)
  have f1: "flat_byte P s1 = flat_byte P s" using arg_cong [OF i1, of im_bytes] by simp
  have g2: "ready P (n + 4 + 2) s1" by (rule ready_mono [OF s1(1)]) simp
  obtain c' s2 where r2: "mem_read P ?b s1 = Some (Inr (c', s2))" and s2: "ready P (n + 4) s2" "same_frame s1 s2"
    and i2: "image_of P s2 = image_read (word_size s1) ?b (image_of P s1)"
    and c': "?b mod word_size s1 = 0 \<longrightarrow> c' = SingleCell Read ?b (load (flat_byte P s1) ?b)"
    by (rule image_access_read [OF g2 o(2) [folded w1]])
  have w2: "word_size s2 = word_size s" using s2(2) w1 by (simp add: same_frame_def)
  have g3: "ready P (n + 2) s2" by (rule ready_mono [OF s2(1)]) simp
  obtain d s3 where w: "mem_write P ?a (x + y) s2 = Some (Inr (d, s3))" and s3: "ready P n s3" "same_frame s2 s3"
    and i3: "image_of P s3 = image_write (word_size s2) ?a (x + y) (image_of P s2)"
    by (rule image_access_write [OF g3 o(1) [folded w2]])
  have lay: "same_layout s s3" using s1(2) s2(2) s3(2) by (simp add: same_frame_def same_layout_def)
  have run: "exec P (I_Add r q) s = do { total \<leftarrow> uadd (overflow_checks P) x y;
      (_, s) \<leftarrow> expecting (mem_write P ?a total s2); Some s }"
    using r1 r2 c c' o(3,4) w1 f1 by (simp add: expecting_simps reg_get_def reg_set_def x_def y_def)
  show ?thesis
  proof (cases "overflow_checks P \<longrightarrow> unat x + unat y < 2 ^ LENGTH('v)")
    case True
    then have "uadd (overflow_checks P) x y = Some (x + y)" by (auto simp: uadd_def)
    then show ?thesis using True run w s3(1) lay i3 i2 i1 w1 w2
      by (simp add: image_refines_def image_guard_def expecting_simps x_def y_def)
  next
    case False
    then have "uadd (overflow_checks P) x y = None" by (auto simp: uadd_def)
    then show ?thesis using False run by (simp add: image_refines_def image_guard_def x_def y_def)
  qed
qed

lemma image_refines_swap:
  assumes g: "ready P (n + 8) s" and ok: "operands_ok (word_size s) (I_Swap r)"
  shows "image_refines (I_Swap r) n s"
proof (cases "stack_depth s = 0")
  case True
  then show ?thesis by (simp add: image_refines_def image_guard_def expecting_simps pop_def)
next
  case False
  let ?a = "reg_address r" and ?w = "word_size s" and ?tp = "slot (word_size s) (unat (stack_depth s) - 1)"
  have o: "unat ?a + unat ?w \<le> 2 ^ LENGTH('k)" "?a mod ?w = 0" using ok by (simp_all add: operands_ok_def)
  define x y where "x = (load (flat_byte P s) ?tp :: 'v word)" and "y = (load (flat_byte P s) ?a :: 'v word)"
  have inv: "stack_inv s" using g by (simp add: ready_def)
  have g1: "ready P (n + 6 + 2) s" by (rule ready_mono [OF g]) simp
  obtain s1 where pop: "pop P s = Some (Inr ((stack_depth s - 1, SingleCell Read ?tp x), s1))"
    and s1: "ready P (n + 6) s1" "same_layout s s1"
    and i1: "image_of P s1 = (image_read ?w ?tp (image_of P s))\<lparr>im_depth := unat (stack_depth s) - 1\<rparr>"
    and d1: "stack_depth s1 = stack_depth s - 1"
    unfolding x_def by (rule image_pop [OF g1 False])
  have w1: "word_size s1 = ?w" using s1(2) by (simp add: same_layout_def)
  have f1: "flat_byte P s1 = flat_byte P s" using arg_cong [OF i1, of im_bytes] by simp
  have g2: "ready P (n + 4 + 2) s1" by (rule ready_mono [OF s1(1)]) simp
  obtain c s2 where get: "mem_read P ?a s1 = Some (Inr (c, s2))" and s2: "ready P (n + 4) s2" "same_frame s1 s2"
    and i2: "image_of P s2 = image_read (word_size s1) ?a (image_of P s1)"
    and c: "?a mod word_size s1 = 0 \<longrightarrow> c = SingleCell Read ?a (load (flat_byte P s1) ?a)"
    by (rule image_access_read [OF g2 o(1) [folded w1]])
  have w2: "word_size s2 = ?w" and d2: "stack_depth s2 = stack_depth s - 1" and m2: "max_stack_depth s2 = max_stack_depth s"
    using s2(2) s1(2) w1 d1 by (simp_all add: same_frame_def same_layout_def)
  note down = stack_inv_back [OF inv False]
  have lt: "stack_depth s2 < max_stack_depth s2"
    unfolding d2 m2 using down(1) inv False unat_gt_0 [of "stack_depth s"]
    by (auto simp: word_less_nat_alt word_le_nat_alt stack_inv_def)
  have g3: "ready P (n + 2 + 2) s2" by (rule ready_mono [OF s2(1)]) simp
  obtain d s3 where push: "push P y s2 = Some (Inr ((stack_depth s2 + 1, d), s3))" and s3: "ready P (n + 2) s3" "same_layout s2 s3"
    and i3: "image_of P s3 = (image_write (word_size s2) (slot (word_size s2) (unat (stack_depth s2))) y (image_of P s2))
       \<lparr>im_depth := unat (stack_depth s2) + 1\<rparr>"
    by (rule image_push [OF g3 lt])
  have w3: "word_size s3 = ?w" using s3(2) w2 by (simp add: same_layout_def)
  obtain e s4 where set: "mem_write P ?a x s3 = Some (Inr (e, s4))" and s4: "ready P n s4" "same_frame s3 s4"
    and i4: "image_of P s4 = image_write (word_size s3) ?a x (image_of P s3)"
    by (rule image_access_write [OF s3(1) o(1) [folded w3]])
  have run: "exec P (I_Swap r) s = Some s4"
    using pop get c o(2) w1 push set by (simp add: expecting_simps reg_get_def reg_set_def f1 y_def)
  have lay: "same_layout s s4" using s1(2) s2(2) s3(2) s4(2) by (simp add: same_frame_def same_layout_def)
  have depth: "Suc (unat (stack_depth s) - Suc 0) = unat (stack_depth s)"
    using False by (simp add: unat_gt_0)
  have "image_of P s4 = image_exec ?w (I_Swap r :: ('k word, 'v word) instruction) (image_of P s)"
    unfolding i4 i3 i2 i1 w1 w2 w3 d2 down(1)
    using depth by (simp add: image_depth_commute Let_def x_def y_def)
  with run lay s4(1) False show ?thesis by (simp add: image_refines_def image_guard_def unat_gt_0)
qed

lemma image_refines_exec:
  assumes g: "ready P (n + 8) s" and ok: "operands_ok (word_size s) i"
  shows "image_refines i n s"
proof (cases i)
  case I_Invalid
  then show ?thesis by (simp add: image_refines_def image_guard_def)
qed (use image_refines_simple [OF g ok] image_refines_moves [OF g ok] image_refines_swap [OF g]
    image_refines_add [OF g] ok in simp_all)

text \<open>Programs, by induction; each instruction has room for its records.\<close>

lemma image_refines_program:
  assumes "ready P (8 * length is) s" and "list_all (operands_ok (word_size s)) is"
  shows "map_option (image_of P) (exec_program P is s) =
    image_run (overflow_checks P) (memory_allocated s) (unat (max_stack_depth s)) (word_size s) is (image_of P s)"
  using assms
proof (induction "is" arbitrary: s)
  case (Cons i "is")
  have g: "ready P (8 * length is + 8) s" using Cons.prems(1) by (simp add: add.commute)
  have ok: "operands_ok (word_size s) i" using Cons.prems(2) by simp
  show ?case
  proof (cases "image_guard (overflow_checks P) (memory_allocated s) (unat (max_stack_depth s)) i (image_of P s)")
    case True
    then obtain s' where s': "exec P i s = Some s'" "image_of P s' = image_exec (word_size s) i (image_of P s)"
      "ready P (8 * length is) s'" "same_layout s s'"
      using image_refines_exec [OF g ok] unfolding image_refines_def by auto
    then show ?thesis using Cons.IH [OF s'(3)] Cons.prems(2) True by (simp add: same_layout_def)
  next
    case False
    then show ?thesis using image_refines_exec [OF g ok] by (simp add: image_refines_def)
  qed
qed simp


text \<open>A new machine.\<close>

lemma zero_byte: "unat x < LENGTH('a::len) div 8 \<Longrightarrow> to_be_bytes (0 :: 'a word) ! unat x = 0"
  by (simp add: to_be_bytes_def digits_be_nth)

lemma new_image:
  assumes "memory s = rb_new P" "execution_trace s = tr_new P" "stack_depth s = 0" "cells_fit TYPE('v) s"
  shows "image_of P s = empty_image"
proof -
  have "unat (word_size s) = LENGTH('v) div 8" "0 < unat (word_size s)"
    using assms(4) cells_fit_pos [OF assms(4)] by (simp_all add: cells_fit_def)
  then have "unat (x mod word_size s) < LENGTH('v) div 8" for x
    by (simp add: unat_mod_distrib)
  then have "flat_byte P s x = 0" for x
    using assms(1) by (simp add: flat_byte_def dummy_read_cell rb_get_new cell_value_def zero_byte)
  then show ?thesis
    using assms by (simp add: image_of_def empty_image_def fun_eq_iff machine_trace_def rb_get_new tr_keys_new)
qed

lemma new_machine_image:
  assumes "StateMachine_new P args = Some s" "cells_fit TYPE('v) s"
  shows "image_of P s = empty_image"
  using assms by (intro new_image) (auto simp: StateMachine_new_def bind_eq_Some_conv)

end

context rbtree
begin

lemma program_images_aux:
  fixes "is" :: "('k word, 'v word) instruction list"
  assumes "reachable P args s" and "fits_layout TYPE('k) args" and "cells_fit TYPE('v) s"
    and "length (machine_trace P s) + 8 * length is < 2 ^ 64" and "list_all (operands_ok WORD_SIZE) is"
  shows "map_option (image_of P) (exec_program P is s) =
    image_run (overflow_checks P) (memory_allocated s) (arg_stack_depth args) WORD_SIZE is (image_of P s)"
proof -
  note room = stack_room [OF assms(1,2)]
  have "ready P (8 * length is) s" using reachable_inv [OF assms(1)] room(1) assms(3,4) by (simp add: ready_def)
  moreover have "unat (max_stack_depth s) = arg_stack_depth args"
    using reachable_sections [OF assms(1,2)] by (simp add: sections_ok_def)
  ultimately show ?thesis using image_refines_program room(2) assms(5) by metis
qed

end

text \<open>A new machine over 256-bit words.\<close>

lemma new_program_image:
  fixes P :: "('m, 't, 256 word, 256 word) platform"
  assumes "rbtree P" and "StateMachine_new P args = Some s" and "fits_layout TYPE(256) args"
    and "8 * length is < 2 ^ 64" and "list_all (operands_ok WORD_SIZE) is"
  shows "map_option (image_of P) (exec_program P is s) =
    image_run (overflow_checks P) (memory_allocated s) (arg_stack_depth args) WORD_SIZE is empty_image"
proof -
  have r: "reachable P args s" by (rule reach_new [OF assms(2)])
  have fit: "cells_fit TYPE(256) s"
    using rbtree.reachable_sizes(1) [OF assms(1) r] by (simp add: cells_fit_def WORD_SIZE_def)
  note img = rbtree.new_machine_image [OF assms(1,2) fit]
  have "im_records (image_of P s) = 0" unfolding img by (simp add: empty_image_def)
  then have "length (machine_trace P s) + 8 * length is < 2 ^ 64" using assms(4) by simp
  from rbtree.program_images_aux [OF assms(1) r assms(3) fit this assms(5)] show ?thesis by (simp only: img)
qed

text \<open>The default machine.\<close>

lemma default_fits: "fits_layout TYPE(256) default_config"
  by (simp add: fits_layout_def default_config_def WORD_SIZE_def)

lemma default_frame:
  "overflow_checks lib = True" "memory_allocated (default_machine P) = Section 35840 base_MAX"
  "arg_stack_depth default_config = 1024" "(WORD_SIZE :: 256 word) = 32"
  by (simp_all add: rbt_platform_def default_config_def default_machine_def WORD_SIZE_def)

section \<open>Property\<close>

text \<open>
  C12: every program, whose operands may be unaligned as long as registers are cells and
  accesses end inside the address space, runs on a machine exactly as \<open>image_run\<close> computes
  on its image: it panics when the guard of an instruction fails, and otherwise leaves the
  memory, the stack and a trace with the computed verdicts.
\<close>

theorem program_images:
  fixes "is" :: "('k::len word, 'v::len word) instruction list"
  assumes "rbtree P" and "reachable P args s" and "fits_layout TYPE('k) args" and "cells_fit TYPE('v) s"
    and "length (machine_trace P s) + 8 * length is < 2 ^ 64" and "list_all (operands_ok WORD_SIZE) is"
  shows "map_option (image_of P) (exec_program P is s) =
    image_run (overflow_checks P) (memory_allocated s) (arg_stack_depth args) WORD_SIZE is (image_of P s)"
  by (rule rbtree.program_images_aux [OF assms])

theorem program_images_witness:
  "map_option im_clean (map_option (image_of lib) (exec_program lib [I_Write 35841 7, I_Read 35841, I_Read 0] (default_machine lib)))
     = None \<and>
   map_option im_clean (map_option (image_of lib) (exec_program lib [I_Write 35841 7, I_Read 35873] (default_machine lib)))
     = Some False"
proof -
  let ?p = "[I_Write 35841 7, I_Read 35841, I_Read 0] :: (256 word, 256 word) instruction list"
  let ?q = "[I_Write 35841 7, I_Read 35873] :: (256 word, 256 word) instruction list"
  have ok: "list_all (operands_ok WORD_SIZE) ?p" "list_all (operands_ok WORD_SIZE) ?q"
    by (simp_all add: operands_ok_def WORD_SIZE_def)
  have img: "image_of lib (default_machine lib) = empty_image"
    by (rule rbt.new_machine_image [OF new_default_machine default_cells_fit])
  note run = program_images [OF rbt_platform_law [of True] default_machine_reachable default_fits default_cells_fit]
  have "map_option (image_of lib) (exec_program lib ?p (default_machine lib)) =
      image_run True (Section 35840 base_MAX) 1024 32 ?p empty_image"
    using run [OF _ ok(1)] by (simp only: default_ready default_frame img) simp
  moreover have "image_run True (Section 35840 base_MAX) 1024 32 ?p empty_image = None"
    by (simp add: image_guard_def contain_def base_MAX_def)
  moreover have "map_option (image_of lib) (exec_program lib ?q (default_machine lib)) =
      image_run True (Section 35840 base_MAX) 1024 32 ?q empty_image"
    using run [OF _ ok(2)] by (simp only: default_ready default_frame img) simp
  moreover have "map_option im_clean (image_run True (Section 35840 base_MAX) 1024 32 ?q empty_image) = Some False"
    by (simp add: image_guard_def contain_def base_MAX_def image_write_def image_read_def touched_def empty_image_def)
  ultimately show ?thesis by simp
qed

end
