(* ===== verification/Composition.thy ===== *)
theory Composition
  imports Backend Supernova_Circuit Node_Properties Machine_Programs
begin

text \<open>
  Facts that span components: the traces of the machine at the backends, the two folding
  circuits, and the outputs the oracle publishes.
\<close>

section \<open>Traces of the machine\<close>

lemma inv_trace:
  assumes inv: "machine_inv P s"
  shows "time_ordered (machine_trace P s)" "starts_at_zero (machine_trace P s)"
    "memory_consistent (machine_trace P s) \<longleftrightarrow> reads_initialised {} (machine_trace P s)"
    "i < length (machine_trace P s) \<Longrightarrow> unat (tr_time_log (machine_trace P s ! i)) = i"
proof -
  let ?tr = "machine_trace P s"
  have ok: "trace_ok ?tr" using inv by (simp add: machine_inv_def)
  then show "time_ordered ?tr" by (rule trace_ok_time_ordered)
  show time: "unat (tr_time_log (?tr ! i)) = i" if "i < length ?tr" for i
  proof -
    have "map tr_time_log ?tr = map word_of_nat [0..<length ?tr]" using ok by (simp add: trace_ok_def)
    from arg_cong [OF this, of "\<lambda>ts. ts ! i"] have "tr_time_log (?tr ! i) = word_of_nat i" using that by simp
    moreover have "length ?tr \<le> 2 ^ 64" using ok by (simp add: trace_ok_def)
    then have "i < 2 ^ 64" using that by linarith
    ultimately show ?thesis by (simp add: unat_of_nat)
  qed
  show "starts_at_zero ?tr"
  proof (cases ?tr)
    case (Cons r rs)
    then have "unat (tr_time_log r) = 0" using time [of 0] by simp
    then show ?thesis using Cons by (simp add: starts_at_zero_def unat_eq_0)
  qed (simp add: starts_at_zero_def)
  show "memory_consistent ?tr \<longleftrightarrow> reads_initialised {} ?tr"
    using inv by (simp add: memory_consistent_def consistent_from_replay machine_inv_def)
qed

lemma inv_builder:
  fixes P :: "('m, 't, 256 word, 256 word) platform"
  assumes inv: "machine_inv P s"
  shows "builder_answer (machine_trace P s) =
    (if machine_trace P s = [] then Inl EmptyTrace
     else if 2 ^ 16 \<le> length (machine_trace P s) then Inl TraceTooLong else Inr ())"
proof (cases "machine_trace P s = []")
  case False
  let ?tr = "machine_trace P s"
  note T = inv_trace [OF inv]
  have "tr_time_log (hd ?tr) = 0" using T(2) False by (cases ?tr) (simp_all add: starts_at_zero_def)
  moreover have "first_time_error ?tr = None" using T(1) by (simp add: time_ordered_first)
  moreover have "unat (tr_time_log (last ?tr)) < length ?tr"
    using T(4) [of "length ?tr - 1"] False by (simp add: last_conv_nth)
  moreover have "2 ^ vars_for (length ?tr) \<le> (2 :: nat) ^ 16" if "length ?tr < 2 ^ 16"
  proof -
    have "trailing_zeros (next_power_of_two (length ?tr + 1)) \<le> 16" using that by (simp only: vars_for_limit)
    then have "vars_for (length ?tr) \<le> 16" by (simp add: vars_for_def)
    then show ?thesis by (intro power_increasing) simp_all
  qed
  ultimately show ?thesis using False by (auto simp: builder_answer_def not_le)
qed (simp add: builder_answer_def)

text \<open>What both backends answer on the trace of a machine that keeps its invariant.\<close>

lemma inv_zinc:
  fixes P :: "('m, 't, 256 word, 256 word) platform"
  assumes "machine_inv P s" and "zinc_system Z"
  shows "if machine_trace P s = [] then prove_memory_consistency Z (machine_trace P s) = Some (Inl EmptyTrace)
    else if 2 ^ 16 \<le> length (machine_trace P s) then prove_memory_consistency Z (machine_trace P s) = Some (Inl TraceTooLong)
    else if reads_initialised {} (machine_trace P s)
    then \<exists>p. prove_memory_consistency Z (machine_trace P s) = Some (Inr p) \<and> verify_memory_consistency Z p = Some (Inr ())
    else \<exists>msg. prove_memory_consistency Z (machine_trace P s) = Some (Inl (Prover msg))"
  using zinc_system.prove_outcome [OF assms(2), of "machine_trace P s"] inv_builder [OF assms(1)] inv_trace(3) [OF assms(1)]
  by (simp split: if_splits)

lemma inv_halo2_exact:
  fixes P :: "('m, 't, 256 word, 256 word) platform" and E :: "'f::field halo2_env"
  assumes "machine_inv P s" and "good_env E"
  shows "(\<exists>p. Halo2_prove E b (machine_trace P s) = Some (Inr p)) \<longleftrightarrow>
      circuit_fits (he_usable E (hb_k b)) (machine_trace P s) \<and> low_consistent (sort_trace_by_address_time (machine_trace P s))"
    and "low_bounded (machine_trace P s) \<Longrightarrow>
      low_consistent (sort_trace_by_address_time (machine_trace P s)) \<longleftrightarrow> reads_initialised {} (machine_trace P s)"
  using halo2_system.halo2_proves_iff [OF halo2_system.intro [OF assms(2,2) refl], of b "machine_trace P s"]
    inv_trace(1-3) [OF assms(1)]
  by (simp_all add: halo2_accepts_def low_consistent_memory)

lemma inv_halo2:
  fixes P :: "('m, 't, 256 word, 256 word) platform" and E :: "'f::field halo2_env"
  assumes "machine_inv P s" and "good_env E"
    and "low_bounded (machine_trace P s)" and "circuit_fits (he_usable E (hb_k b)) (machine_trace P s)"
  shows "(\<exists>p. Halo2_prove E b (machine_trace P s) = Some (Inr p)) \<longleftrightarrow> reads_initialised {} (machine_trace P s)"
  using inv_halo2_exact(1) [OF assms(1,2), of b] inv_halo2_exact(2) [OF assms(1,2)] assms(3,4) by simp

text \<open>Words that leave their top byte zero.\<close>

lemma top_zero_bound: "top_zero (x :: 256 word) \<longleftrightarrow> x < 2 ^ 248"
proof -
  have n: "to_be_bytes x ! 0 = word_of_nat (unat x div 2 ^ 248 mod 256)"
    by (simp add: to_be_bytes_def digits_be_nth)
  have "unat x < 2 ^ 256" using unat_less_2p [of x] by simp
  then have lt: "unat x div 2 ^ 248 < 256" by (simp add: div_less_iff_less_mult)
  then have "to_be_bytes x ! 0 = 0 \<longleftrightarrow> unat x div 2 ^ 248 = 0"
    unfolding n by (auto simp: word_of_nat_eq_0_iff dest: nat_dvd_not_less)
  also have "\<dots> \<longleftrightarrow> x < 2 ^ 248" by (simp add: div_eq_0_iff word_less_nat_alt)
  finally show ?thesis by (simp add: top_zero_def)
qed

lemma image_low_bounded: "im_low (image_of P s) \<longleftrightarrow> low_bounded (machine_trace P s)"
  by (auto simp: image_of_def low_bounded_def low_record_def list_all_iff top_zero_bound)

text \<open>The verdict on the trace of a machine, read off its image.\<close>

lemma image_verdict:
  fixes P :: "('m, 't, 256 word, 256 word) platform" and E :: "'f::field halo2_env"
  assumes "machine_inv P s" and "zinc_system Z" and "good_env E" and "image_of P s = I"
  shows "(if im_records I = 0 then prove_memory_consistency Z (machine_trace P s) = Some (Inl EmptyTrace)
      else if 2 ^ 16 \<le> im_records I then prove_memory_consistency Z (machine_trace P s) = Some (Inl TraceTooLong)
      else if im_clean I
      then \<exists>p. prove_memory_consistency Z (machine_trace P s) = Some (Inr p) \<and> verify_memory_consistency Z p = Some (Inr ())
      else \<exists>msg. prove_memory_consistency Z (machine_trace P s) = Some (Inl (Prover msg))) \<and>
    (im_low I \<and> 2 * max (im_records I) 256 \<le> he_usable E (hb_k b) \<longrightarrow>
      ((\<exists>p. Halo2_prove E b (machine_trace P s) = Some (Inr p)) \<longleftrightarrow> im_clean I))"
proof -
  have I: "im_records I = length (machine_trace P s)" "im_clean I = reads_initialised {} (machine_trace P s)"
    "im_low I = low_bounded (machine_trace P s)" using assms(4) image_low_bounded [of P s] by auto
  have "im_low I \<and> 2 * max (im_records I) 256 \<le> he_usable E (hb_k b) \<Longrightarrow>
      (\<exists>p. Halo2_prove E b (machine_trace P s) = Some (Inr p)) \<longleftrightarrow> im_clean I"
    unfolding I using inv_halo2 [OF assms(1,3)] by (simp add: circuit_fits_def region_height_def table_height_def)
  moreover have "im_records I = 0 \<longleftrightarrow> machine_trace P s = []" by (simp add: I)
  ultimately show ?thesis using inv_zinc [OF assms(1,2)] by (simp add: I split: if_splits)
qed

section \<open>Outputs of the oracle\<close>

text \<open>The output of the contract variant for a seed, and the outputs each got from the one before.\<close>

definition vrf_output :: "('s, 'g, 'f::field) secp \<Rightarrow> ('s, 'g) ecvrf \<Rightarrow> 's \<Rightarrow> 's option" where
  "vrf_output L e alpha = do {
     h \<leftarrow> hash_to_curve_prefix L alpha (public_key e);
     from_bytes_scalar L (affine_keccak256 L (sl_mul L (secret_key e) h)) }"

primrec vrf_orbit :: "('s, 'g, 'f::field) secp \<Rightarrow> ('s, 'g) ecvrf \<Rightarrow> 's \<Rightarrow> nat \<Rightarrow> 's option" where
  "vrf_orbit L e alpha 0 = vrf_output L e alpha"
| "vrf_orbit L e alpha (Suc n) = Option.bind (vrf_orbit L e alpha n) (vrf_output L e)"

lemma vrf_output_bytes: "sl_b32 L a = sl_b32 L b \<Longrightarrow> vrf_output L e a = vrf_output L e b"
  by (simp add: vrf_output_def hash_to_curve_prefix_def)

lemma contract_output: "vrf_prove_contract L draws e alpha = Some (Inr p) \<Longrightarrow> vrf_output L e alpha = Some (cp_y p)"
  unfolding vrf_prove_contract_def vrf_output_def Let_def
  by (auto split: bind_splits sum.splits prod.splits simp del: mult_minus_left)

lemma proved_row_output:
  fixes N :: "('db, 's::field, 'g::ab_group_add, 'f::field) node"
  assumes "proved_row N ctx x"
  obtains alpha y where "vrf_output (nd_secp N) (nc_ecvrf ctx) alpha = Some y"
    "rn_alpha x = hex_encode (nd_codecs N) (sl_b32 (nd_secp N) alpha)" "rn_y x = hex_encode (nd_codecs N) (sl_b32 (nd_secp N) y)"
proof -
  obtain draws alpha and p :: "('s, 'g, 'f) contract_proof" and r signature
    where p: "vrf_prove_contract (nd_secp N) draws (nc_ecvrf ctx) alpha = Some (Inr p)"
    and f: "new_randomness N ctx r alpha p signature = Some (randomness_fields.truncate x)"
    using assms unfolding proved_row_def by blast
  show thesis
    using that [OF contract_output [OF p]] new_randomness_fields(3,4) [OF f] by simp
qed

lemma chained_orbit:
  fixes N :: "('db, 's::field, 'g::ab_group_add, 'f::field) node"
  assumes C: "epoch_codecs_ok N" and "chained xs" and rows: "\<forall>x \<in> set xs. proved_row N ctx x" and "xs \<noteq> []"
  shows "\<exists>alpha. rn_alpha (xs ! 0) = hex_encode (nd_codecs N) (sl_b32 (nd_secp N) alpha) \<and>
    (\<forall>i < length xs. \<exists>y. vrf_orbit (nd_secp N) (nc_ecvrf ctx) alpha i = Some y \<and>
       rn_y (xs ! i) = hex_encode (nd_codecs N) (sl_b32 (nd_secp N) y))"
proof -
  let ?hex = "\<lambda>s. hex_encode (nd_codecs N) (sl_b32 (nd_secp N) s)"
  have inj: "?hex a = ?hex b \<Longrightarrow> sl_b32 (nd_secp N) a = sl_b32 (nd_secp N) b" for a b
    using C unfolding epoch_codecs_ok_def by (metis option.inject)
  obtain alpha y0 where a: "vrf_output (nd_secp N) (nc_ecvrf ctx) alpha = Some y0" "rn_alpha (xs ! 0) = ?hex alpha" "rn_y (xs ! 0) = ?hex y0"
    using rows assms(4) by (metis length_greater_0_conv nth_mem proved_row_output)
  have "\<exists>y. vrf_orbit (nd_secp N) (nc_ecvrf ctx) alpha i = Some y \<and> rn_y (xs ! i) = ?hex y" if "i < length xs" for i
    using that
  proof (induction i)
    case 0
    then show ?case using a by simp
  next
    case (Suc i)
    then obtain y where y: "vrf_orbit (nd_secp N) (nc_ecvrf ctx) alpha i = Some y" "rn_y (xs ! i) = ?hex y" by auto
    obtain b z where b: "vrf_output (nd_secp N) (nc_ecvrf ctx) b = Some z" "rn_alpha (xs ! Suc i) = ?hex b" "rn_y (xs ! Suc i) = ?hex z"
      using rows Suc.prems by (metis nth_mem proved_row_output)
    have "?hex b = ?hex y" using assms(2) Suc.prems b(2) y(2) by (simp add: chained_def)
    then have "vrf_output (nd_secp N) (nc_ecvrf ctx) y = Some z"
      using vrf_output_bytes [OF inj] b(1) by metis
    with y b(3) show ?case by simp
  qed
  with a(2) show ?thesis by blast
qed

section \<open>A machine to apply them to\<close>

text \<open>The default machine after one aligned write.\<close>

lemma written_machine:
  obtains s where "Machine_Invariant.reachable lib default_config s" "machine_trace lib s = [TraceRecord_new 0 0 Write 0 5]"
proof -
  let ?d = "default_machine lib"
  obtain c s where w: "mem_write lib 0 5 ?d = Some (Inr (c, s))"
    by (rule lib_write [of 0]) simp_all
  have s: "Machine_Invariant.reachable lib default_config s"
    by (rule reach_step [OF default_machine_reachable step_write [OF w]])
  have d: "is_zero (0 mod word_size ?d)" "time_log ?d = 0" "stack_depth ?d = 0"
    by (simp_all add: default_machine_def is_zero_def base_zero_def)
  obtain s1 where t: "track lib (TraceRecord_new 0 0 Write 0 5) (?d\<lparr>memory := rb_replace_or_insert lib (memory ?d) 0 5\<rparr>) = Some s1"
    and s1: "Inr (c, s) = (Inr (SingleCell Write 0 5, s1\<lparr>time_log := 0 + 1\<rparr>) :: machine_error + _)"
    by (rule rbt.mem_write_aligned_run [OF w d(1), unfolded d])
  then have "machine_trace lib s = [TraceRecord_new 0 0 Write 0 5]"
    by (auto simp: track_def bind_eq_Some_conv machine_trace_def default_machine_def rbt_platform_def)
  with s show thesis by (rule that)
qed

lemma written_trace:
  fixes tr :: "access list"
  defines "tr \<equiv> [TraceRecord_new 0 0 Write 0 5]"
  shows "reads_initialised {} tr" "low_bounded tr" "circuit_fits 1016 tr"
  by (simp_all add: tr_def TraceRecord_new_def low_bounded_def circuit_fits_def region_height_def table_height_def)

end
