(* ===== verification/Example_Machine.thy ===== *)
theory Example_Machine
  imports Machine_Programs
begin

text \<open>
  The machine of the examples (\<open>zkmemory/examples/256bits-machine.rs\<close> and
  \<open>memory-consistency.rs\<close>, which define the same one): four registers, and an instruction
  set in which \<open>Pop\<close> carries a value it ignores and \<open>Swap\<close> differs from the one of
  \<open>machine.rs\<close>.
\<close>

section \<open>The machine\<close>

datatype ('k, 'v) my_instruction =
  E_Read 'k
  | E_Write 'k 'v
  | E_Push 'v
  | E_Pop 'v
  | E_Mov "'k register" "'k register"
  | E_Swap "'k register"
  | E_Load "'k register" 'k
  | E_Save 'k "'k register"
  | E_Invalid
  | E_Add "'k register" "'k register"

record ('m, 't, 'k) example_machine = "('m, 't, 'k) machine" +
  ex_r0 :: "'k register"
  ex_r1 :: "'k register"
  ex_r2 :: "'k register"
  ex_r3 :: "'k register"

definition Example_new ::
    "('m, 't, 'k::len word, 'v) platform \<Rightarrow> config_args \<Rightarrow> ('m, 't, 'k word) example_machine option" where
  "Example_new P args = do {
     cfg \<leftarrow> config_new (overflow_checks P) WORD_SIZE args;
     g0 \<leftarrow> create_register (overflow_checks P) cfg 0;
     g1 \<leftarrow> create_register (overflow_checks P) cfg 1;
     g2 \<leftarrow> create_register (overflow_checks P) cfg 2;
     g3 \<leftarrow> create_register (overflow_checks P) cfg 3;
     Some \<lparr>memory = rb_new P, memory_allocated = cfg_memory cfg, word_size = cfg_word_size cfg,
       time_log = 0, stack_allocated = cfg_stack cfg,
       max_stack_depth = into_u64 (cfg_stack_depth cfg), stack_depth = 0, stack_ptr = base_zero,
       register_allocated = cfg_register cfg, execution_trace = tr_new P,
       ex_r0 = g0, ex_r1 = g1, ex_r2 = g2, ex_r3 = g3\<rparr> }"

fun example_exec ::
    "('m, 't, 'k::len word, 'v::len word) platform \<Rightarrow> ('k word, 'v word) my_instruction \<Rightarrow>
     ('m, 't, 'k word, 'z) machine_scheme \<Rightarrow> ('m, 't, 'k word, 'z) machine_scheme option" where
  "example_exec P E_Invalid s = panic"
| "example_exec P (E_Read addr) s =
     (if \<not> contain (memory_allocated s) addr then panic
      else do { (_, s) \<leftarrow> expecting (mem_read P addr s); Some s })"
| "example_exec P (E_Write addr val) s =
     (if \<not> contain (memory_allocated s) addr then panic
      else do { (_, s) \<leftarrow> expecting (mem_write P addr val s); Some s })"
| "example_exec P (E_Push value) s = do { (_, s) \<leftarrow> expecting (push P value s); Some s }"
| "example_exec P (E_Pop _) s = do { (_, s) \<leftarrow> expecting (pop P s); Some s }"
| "example_exec P (E_Mov reg1 reg2) s = do {
     (c, s) \<leftarrow> expecting (reg_get P reg2 s);
     value \<leftarrow> single_value c;
     (_, s) \<leftarrow> expecting (reg_set P reg1 value s);
     Some s }"
| "example_exec P (E_Swap reg) s = do {
     ((_, c), s) \<leftarrow> expecting (pop P s);
     value \<leftarrow> single_value c;
     (_, s) \<leftarrow> expecting (push P value s);
     (_, s) \<leftarrow> expecting (reg_set P reg value s);
     Some s }"
| "example_exec P (E_Load reg addr) s = do {
     (c, s) \<leftarrow> expecting (mem_read P addr s);
     (case c of
        SingleCell _ _ value \<Rightarrow> do { (_, s) \<leftarrow> expecting (reg_set P reg value s); Some s }
      | DoubleCell _ _ cvalue _ _ _ _ \<Rightarrow>
          do { (_, s) \<leftarrow> expecting (reg_set P reg cvalue s); Some s }) }"
| "example_exec P (E_Save address reg) s = do {
     (c, s) \<leftarrow> expecting (reg_get P reg s);
     value \<leftarrow> single_value c;
     (_, s) \<leftarrow> expecting (mem_write P address value s);
     Some s }"
| "example_exec P (E_Add reg1 reg2) s = do {
     (c1, s) \<leftarrow> expecting (reg_get P reg1 s);
     value1 \<leftarrow> single_value c1;
     (c2, s) \<leftarrow> expecting (reg_get P reg2 s);
     value2 \<leftarrow> single_value c2;
     total \<leftarrow> uadd (overflow_checks P) value1 value2;
     (_, s) \<leftarrow> expecting (reg_set P reg1 total s);
     Some s }"

fun example_program ::
    "('m, 't, 'k::len word, 'v::len word) platform \<Rightarrow> ('k word, 'v word) my_instruction list \<Rightarrow>
     ('m, 't, 'k word, 'z) machine_scheme \<Rightarrow> ('m, 't, 'k word, 'z) machine_scheme option" where
  "example_program P [] s = Some s"
| "example_program P (i # is) s = do { s \<leftarrow> example_exec P i s; example_program P is s }"

section \<open>What the instructions do\<close>

text \<open>The instructions the two machines share.\<close>

fun shared :: "('k, 'v) my_instruction \<Rightarrow> ('k, 'v) instruction option" where
  "shared (E_Read a) = Some (I_Read a)"
| "shared (E_Write a v) = Some (I_Write a v)"
| "shared (E_Push v) = Some (I_Push v)"
| "shared (E_Pop v) = Some I_Pop"
| "shared (E_Mov g h) = Some (I_Mov g h)"
| "shared (E_Swap g) = None"
| "shared (E_Load g a) = Some (I_Load g a)"
| "shared (E_Save a g) = Some (I_Save a g)"
| "shared E_Invalid = Some I_Invalid"
| "shared (E_Add g h) = Some (I_Add g h)"

lemma shared_exec: "shared i = Some j \<Longrightarrow> example_exec P i s = exec P j s"
  by (cases i) auto

lemma shared_swap: "shared i = None \<longleftrightarrow> (\<exists>g. i = E_Swap g)"
  by (cases i) simp_all

text \<open>On images; a swap reads the top of the stack and writes it back and to the register.\<close>

definition example_swap :: "'k::len word \<Rightarrow> 'v::len itself \<Rightarrow> 'k word register \<Rightarrow> 'k word image \<Rightarrow> 'k word image" where
  "example_swap w _ g I = (let top = slot w (im_depth I - 1); v = (load (im_bytes I) top :: 'v word) in
     image_write w (reg_address g) v (image_write w top v (image_read w top I)))"

definition example_image ::
    "'k::len word \<Rightarrow> ('k word, 'v::len word) my_instruction \<Rightarrow> 'k word image \<Rightarrow> 'k word image" where
  "example_image w i I = (case i of E_Swap g \<Rightarrow> example_swap w TYPE('v) g I | _ \<Rightarrow> image_exec w (the (shared i)) I)"

definition example_guard ::
    "bool \<Rightarrow> 'k::len word mem_section \<Rightarrow> nat \<Rightarrow> ('k word, 'v::len word) my_instruction \<Rightarrow> 'k word image \<Rightarrow> bool" where
  "example_guard chk sec mx i I = (case i of E_Swap g \<Rightarrow> 0 < im_depth I | _ \<Rightarrow> image_guard chk sec mx (the (shared i)) I)"

definition example_operands :: "'k::len word \<Rightarrow> ('k word, 'v::len word) my_instruction \<Rightarrow> bool" where
  "example_operands w i = (case i of E_Swap g \<Rightarrow> operands_ok w (I_Swap g :: ('k word, 'v word) instruction)
     | _ \<Rightarrow> operands_ok w (the (shared i)))"

fun example_run ::
    "bool \<Rightarrow> 'k::len word mem_section \<Rightarrow> nat \<Rightarrow> 'k word \<Rightarrow> ('k word, 'v::len word) my_instruction list \<Rightarrow>
     'k word image \<Rightarrow> 'k word image option" where
  "example_run chk sec mx w [] I = Some I"
| "example_run chk sec mx w (i # is) I =
     (if example_guard chk sec mx i I then example_run chk sec mx w is (example_image w i I) else None)"

lemma shared_cases:
  assumes "shared i = Some j"
  shows "example_image w i I = image_exec w j I" "example_guard chk sec mx i I = image_guard chk sec mx j I"
    "example_operands w i = operands_ok w j"
  using assms by (cases i; auto simp: example_image_def example_guard_def example_operands_def)+

context rbtree
begin

definition example_refines :: "('k word, 'v word) my_instruction \<Rightarrow> nat \<Rightarrow> ('m, 't, 'k word, 'z) machine_scheme \<Rightarrow> bool" where
  "example_refines i n s \<longleftrightarrow>
     (if example_guard (overflow_checks P) (memory_allocated s) (unat (max_stack_depth s)) i (image_of P s)
      then \<exists>s'. example_exec P i s = Some s' \<and> image_of P s' = example_image (word_size s) i (image_of P s) \<and>
        ready P n s' \<and> same_layout s s'
      else example_exec P i s = None)"

lemma example_refines_swap:
  assumes g: "ready P (n + 8) s" and ok: "operands_ok (word_size s) (I_Swap r :: ('k word, 'v word) instruction)"
  shows "example_refines (E_Swap r) n s"
proof (cases "stack_depth s = 0")
  case True
  then show ?thesis by (simp add: example_refines_def example_guard_def expecting_simps pop_def)
next
  case False
  let ?a = "reg_address r" and ?w = "word_size s" and ?tp = "slot (word_size s) (unat (stack_depth s) - 1)"
  have o: "unat ?a + unat ?w \<le> 2 ^ LENGTH('k)" using ok by (simp add: operands_ok_def)
  define x where "x = (load (flat_byte P s) ?tp :: 'v word)"
  have inv: "stack_inv s" using g by (simp add: ready_def)
  have g1: "ready P (n + 6 + 2) s" by (rule ready_mono [OF g]) simp
  obtain s1 where pop: "pop P s = Some (Inr ((stack_depth s - 1, SingleCell Read ?tp x), s1))"
    and s1: "ready P (n + 6) s1" "same_layout s s1"
    and i1: "image_of P s1 = (image_read ?w ?tp (image_of P s))\<lparr>im_depth := unat (stack_depth s) - 1\<rparr>"
    and d1: "stack_depth s1 = stack_depth s - 1"
    unfolding x_def by (rule image_pop [OF g1 False])
  have w1: "word_size s1 = ?w" and m1: "max_stack_depth s1 = max_stack_depth s"
    using s1(2) by (simp_all add: same_layout_def)
  note down = stack_inv_back [OF inv False]
  have lt: "stack_depth s1 < max_stack_depth s1"
    unfolding d1 m1 using down(1) inv False unat_gt_0 [of "stack_depth s"]
    by (auto simp: word_less_nat_alt word_le_nat_alt stack_inv_def)
  have g2: "ready P (n + 2 + 2) s1" by (rule ready_mono [OF s1(1)]) simp
  obtain d s2 where push: "push P x s1 = Some (Inr ((stack_depth s1 + 1, d), s2))" and s2: "ready P (n + 2) s2" "same_layout s1 s2"
    and i2: "image_of P s2 = (image_write (word_size s1) (slot (word_size s1) (unat (stack_depth s1))) x (image_of P s1))
       \<lparr>im_depth := unat (stack_depth s1) + 1\<rparr>"
    by (rule image_push [OF g2 lt])
  have w2: "word_size s2 = ?w" using s2(2) w1 by (simp add: same_layout_def)
  obtain e s3 where set: "mem_write P ?a x s2 = Some (Inr (e, s3))" and s3: "ready P n s3" "same_frame s2 s3"
    and i3: "image_of P s3 = image_write (word_size s2) ?a x (image_of P s2)"
    by (rule image_access_write [OF s2(1) o [folded w2]])
  have run: "example_exec P (E_Swap r) s = Some s3"
    using pop push set by (simp add: expecting_simps reg_set_def)
  have lay: "same_layout s s3" using s1(2) s2(2) s3(2) by (simp add: same_frame_def same_layout_def)
  have depth: "Suc (unat (stack_depth s) - Suc 0) = unat (stack_depth s)"
    using False by (simp add: unat_gt_0)
  have "image_of P s3 = example_image ?w (E_Swap r :: ('k word, 'v word) my_instruction) (image_of P s)"
    unfolding i3 i2 i1 w1 w2 d1 down(1)
    using depth by (simp add: image_depth_commute Let_def x_def example_image_def example_swap_def)
  with run lay s3(1) False show ?thesis by (simp add: example_refines_def example_guard_def unat_gt_0)
qed

lemma example_refines_exec:
  assumes g: "ready P (n + 8) s" and ok: "example_operands (word_size s) i"
  shows "example_refines i n s"
proof (cases "shared i")
  case None
  then obtain r where "i = E_Swap r" by (auto simp: shared_swap)
  then show ?thesis using example_refines_swap [OF g] ok by (simp add: example_operands_def)
next
  case (Some j)
  note sh = shared_exec [OF Some] shared_cases [OF Some]
  from image_refines_exec [OF g, of j] ok show ?thesis
    unfolding example_refines_def image_refines_def sh by blast
qed

lemma example_refines_program:
  assumes "ready P (8 * length is) s" and "list_all (example_operands (word_size s)) is"
  shows "map_option (image_of P) (example_program P is s) =
    example_run (overflow_checks P) (memory_allocated s) (unat (max_stack_depth s)) (word_size s) is (image_of P s) \<and>
    (\<forall>s'. example_program P is s = Some s' \<longrightarrow> ready P 0 s')"
  using assms
proof (induction "is" arbitrary: s)
  case (Cons i "is")
  have g: "ready P (8 * length is + 8) s" using Cons.prems(1) by (simp add: add.commute)
  have ok: "example_operands (word_size s) i" using Cons.prems(2) by simp
  show ?case
  proof (cases "example_guard (overflow_checks P) (memory_allocated s) (unat (max_stack_depth s)) i (image_of P s)")
    case True
    then obtain s' where s': "example_exec P i s = Some s'" "image_of P s' = example_image (word_size s) i (image_of P s)"
      "ready P (8 * length is) s'" "same_layout s s'"
      using example_refines_exec [OF g ok] unfolding example_refines_def by auto
    then show ?thesis using Cons.IH [OF s'(3)] Cons.prems(2) True by (simp add: same_layout_def)
  next
    case False
    then show ?thesis using example_refines_exec [OF g ok] by (simp add: example_refines_def)
  qed
qed simp


lemma swap_copies_aux:
  fixes s :: "('m, 't, 'k word, 'z) machine_scheme" and g :: "'k word register"
  defines "a \<equiv> reg_address g" and "tp \<equiv> slot (word_size s) (unat (stack_depth s) - 1)"
  assumes "ready P 8 s" and "stack_depth s \<noteq> 0" and "aligned s a"
    and "unat a + unat (word_size s) \<le> 2 ^ LENGTH('k)" and "unat tp + unat (word_size s) \<le> unat a"
  shows "\<exists>s1 s2. example_exec P (E_Swap g) s = Some s1 \<and> flat_byte P s1 = store (flat_byte P s) a (load (flat_byte P s) tp :: 'v word) \<and>
      load (flat_byte P s1) tp = (load (flat_byte P s) tp :: 'v word) \<and>
    exec P (I_Swap g) s = Some s2 \<and> load (flat_byte P s2) a = (load (flat_byte P s) tp :: 'v word) \<and>
      load (flat_byte P s2) tp = (load (flat_byte P s) a :: 'v word)"
proof -
  let ?m = "flat_byte P s" and ?w = "word_size s"
  let ?x = "load ?m tp :: 'v word" and ?y = "load ?m a :: 'v word"
  have fit: "cells_fit TYPE('v) s" using assms(3) by (simp add: ready_def)
  have w: "unat ?w = LENGTH('v) div 8" and d8: "8 dvd LENGTH('v)" using fit by (simp_all add: cells_fit_def)
  have ok: "operands_ok ?w (I_Swap g :: ('k word, 'v word) instruction)"
    using assms(5,6) by (simp add: operands_ok_def aligned_mod a_def)
  have "ready P (0 + 8) s" using assms(3) by simp
  note ref = example_refines_swap [OF this ok] image_refines_swap [OF this ok]
  have pos: "0 < unat (stack_depth s)" using assms(4) by (simp add: unat_gt_0)
  have ra: "unat a + LENGTH('v) div 8 \<le> 2 ^ LENGTH('k)" using assms(6) w by simp
  have rt: "unat tp + LENGTH('v) div 8 \<le> 2 ^ LENGTH('k)" using assms(6,7) w by linarith
  have sep: "unat tp + LENGTH('v) div 8 \<le> unat a" using assms(7) w by simp
  obtain s1 where s1: "example_exec P (E_Swap g) s = Some s1"
    "image_of P s1 = example_image ?w (E_Swap g :: ('k word, 'v word) my_instruction) (image_of P s)"
    using ref(1) pos unfolding example_refines_def by (auto simp: example_guard_def)
  have f1: "flat_byte P s1 = store ?m a ?x"
    using arg_cong [OF s1(2), of im_bytes] store_load_same [OF rt d8, of ?m]
    by (simp add: example_image_def example_swap_def Let_def a_def tp_def)
  obtain s2 where s2: "exec P (I_Swap g) s = Some s2"
    "image_of P s2 = image_exec ?w (I_Swap g :: ('k word, 'v word) instruction) (image_of P s)"
    using ref(2) pos unfolding image_refines_def by (auto simp: image_guard_def)
  have f2: "flat_byte P s2 = store (store ?m tp ?y) a ?x"
    using arg_cong [OF s2(2), of im_bytes] by (simp add: Let_def a_def tp_def)
  have "load (flat_byte P s1) tp = ?x" unfolding f1 using rt sep by (intro load_store_other) simp_all
  moreover have "load (flat_byte P s2) a = ?x" unfolding f2 by (rule load_store_same [OF ra d8])
  moreover have "load (flat_byte P s2) tp = (load (store ?m tp ?y) tp :: 'v word)"
    unfolding f2 using rt sep by (intro load_store_other) simp_all
  then have "load (flat_byte P s2) tp = ?y" by (simp add: load_store_same [OF rt d8])
  ultimately show ?thesis using s1(1) s2(1) f1 by blast
qed

end

section \<open>Property\<close>

text \<open>
  C35: the swap of the examples copies: it leaves the top of the stack as it was and stores it in
  the register, whose value is lost, while the swap of \<open>machine.rs\<close> exchanges the two.
\<close>

theorem example_swap_copies:
  fixes P :: "('m, 't, 'k::len word, 'v::len word) platform"
  assumes "rbtree P" and "ready P 8 s" and "stack_depth s \<noteq> 0" and "aligned s (reg_address g)"
    and "unat (reg_address g) + unat (word_size s) \<le> 2 ^ LENGTH('k)"
    and "unat (slot (word_size s) (unat (stack_depth s) - 1)) + unat (word_size s) \<le> unat (reg_address g)"
  shows "\<exists>s1 s2. example_exec P (E_Swap g) s = Some s1 \<and>
      flat_byte P s1 = store (flat_byte P s) (reg_address g)
        (load (flat_byte P s) (slot (word_size s) (unat (stack_depth s) - 1)) :: 'v word) \<and>
      load (flat_byte P s1) (slot (word_size s) (unat (stack_depth s) - 1)) =
        (load (flat_byte P s) (slot (word_size s) (unat (stack_depth s) - 1)) :: 'v word) \<and>
    exec P (I_Swap g) s = Some s2 \<and>
      load (flat_byte P s2) (reg_address g) =
        (load (flat_byte P s) (slot (word_size s) (unat (stack_depth s) - 1)) :: 'v word) \<and>
      load (flat_byte P s2) (slot (word_size s) (unat (stack_depth s) - 1)) =
        (load (flat_byte P s) (reg_address g) :: 'v word)"
  by (rule rbtree.swap_copies_aux [OF assms])

theorem example_swap_copies_witness:
  "\<exists>s s1 :: (_, _, 256 word) state_machine. unat (stack_depth s) = 1 \<and> example_exec lib (E_Swap (Register_new 0 33792)) s = Some s1 \<and>
     load (flat_byte lib s1) 0 = (7 :: 256 word)"
proof -
  let ?d = "default_machine lib"
  have "stack_inv ?d" by (simp add: stack_inv_def) (simp add: default_machine_def)
  then have r: "ready lib (8 + 2) ?d" using lib_inv by (simp add: ready_def default_ready)
  have lt: "stack_depth ?d < max_stack_depth ?d" and w: "word_size ?d = 32" and d: "stack_depth ?d = 0"
    by (simp_all add: default_machine_def)
  obtain c s where "push lib (7 :: 256 word) ?d = Some (Inr ((stack_depth ?d + 1, c), s))" and s: "ready lib 8 s" "rbt.same_layout ?d s"
    and im: "image_of lib s = (image_write (word_size ?d) (slot (word_size ?d) (unat (stack_depth ?d))) (7 :: 256 word) (image_of lib ?d))
       \<lparr>im_depth := unat (stack_depth ?d) + 1\<rparr>" and d1: "stack_depth s = stack_depth ?d + 1"
    by (rule rbt.image_push [OF r lt])
  have w1: "word_size s = 32" using s(2) w by (simp add: rbt.same_layout_def)
  let ?g = "Register_new 0 33792 :: 256 word register" and ?t = "slot (word_size s) (unat (stack_depth s) - 1)"
  have v: "load (flat_byte lib s) 0 = (7 :: 256 word)"
    using arg_cong [OF im, of im_bytes] by (simp add: d slot_def load_store_same)
  have tp: "?t = 0" by (simp add: slot_def d1 d)
  have one: "stack_depth s \<noteq> 0" "unat (stack_depth s) = 1" by (simp_all add: d1 d)
  have g: "aligned s (reg_address ?g)" "unat (reg_address ?g) + unat (word_size s) \<le> 2 ^ LENGTH(256)"
    "unat ?t + unat (word_size s) \<le> unat (reg_address ?g)"
    unfolding tp by (simp_all add: aligned_mod w1 Register_new_def)
  obtain s1 where run: "example_exec lib (E_Swap ?g) s = Some s1"
    and top: "load (flat_byte lib s1) ?t = (load (flat_byte lib s) ?t :: 256 word)"
    using example_swap_copies [OF rbt_platform_law [of True] s(1) one(1) g] by (elim exE conjE) (rule that)
  have "load (flat_byte lib s1) 0 = (7 :: 256 word)" using top v unfolding tp by (rule trans)
  with one(2) run have "unat (stack_depth s) = 1 \<and> example_exec lib (E_Swap ?g) s = Some s1 \<and>
      load (flat_byte lib s1) 0 = (7 :: 256 word)" by (intro conjI)
  then show ?thesis by blast
qed

end
