(* ===== verification/Zinc_Tests.thy ===== *)
theory Zinc_Tests
  imports Backend
begin

text \<open>
  The tests of the Zinc+ backend (\<open>zkmemory/src/zincplus/testcases.rs\<close>) that judge traces: a
  test is a definition that panics where the test would. That they pass with every lawful
  proof system is a property of \<open>Zinc_Tampering\<close>. The tests that flip bytes of a proof are not here: what the transcript makes
  of them is no documented behaviour of the crates.
\<close>

section \<open>Helpers\<close>

definition record_of :: "u64 \<Rightarrow> memory_instruction \<Rightarrow> u64 \<Rightarrow> u64 \<Rightarrow> access" where
  "record_of time instruction address val = TraceRecord_new time 0 instruction (ucast address) (ucast val)"

definition consistent_trace :: "access list" where
  "consistent_trace =
    [record_of 0 Write 0x0 1368,
     record_of 1 Write 0x20 979,
     record_of 2 Read 0x0 1368,
     record_of 3 Write 0x40 42,
     record_of 4 Read 0x20 979,
     record_of 5 Write 0x0 500,
     record_of 6 Read 0x0 500,
     record_of 7 Read 0x40 42]"

definition assert_accepted :: "('proof, 'code, 'params) zinc_library \<Rightarrow> access list \<Rightarrow> unit option" where
  "assert_accepted Z trace = do {
     r \<leftarrow> prove_memory_consistency Z trace;
     proof \<leftarrow> expect_ok r;
     v \<leftarrow> verify_memory_consistency Z proof;
     expect_ok v }"

definition assert_rejected :: "('proof, 'code, 'params) zinc_library \<Rightarrow> access list \<Rightarrow> unit option" where
  "assert_rejected Z trace = do {
     r \<leftarrow> prove_memory_consistency Z trace;
     (case r of
       Inl _ \<Rightarrow> Some ()
     | Inr proof \<Rightarrow> do { v \<leftarrow> verify_memory_consistency Z proof; assert_ok (isl v) }) }"

text \<open>\<open>assert_eq!(prove_memory_consistency(trace), Err(e))\<close>.\<close>

definition assert_error :: "('proof, 'code, 'params) zinc_library \<Rightarrow> access list \<Rightarrow> zinc_error \<Rightarrow> unit option" where
  "assert_error Z trace e = do { r \<leftarrow> prove_memory_consistency Z trace; assert_ok (r = Inl e) }"

section \<open>Traces that are accepted\<close>

definition test_consistent_trace_roundtrip :: "('proof, 'code, 'params) zinc_library \<Rightarrow> unit option" where
  "test_consistent_trace_roundtrip Z = assert_accepted Z consistent_trace"

definition test_single_write_trace :: "('proof, 'code, 'params) zinc_library \<Rightarrow> unit option" where
  "test_single_write_trace Z = assert_accepted Z [record_of 0 Write 0xffff (- 1)]"

definition test_time_gaps_accepted :: "('proof, 'code, 'params) zinc_library \<Rightarrow> unit option" where
  "test_time_gaps_accepted Z = assert_accepted Z
    [record_of 0 Write 0x0 7,
     record_of 5 Read 0x0 7,
     record_of 1000 Write 0x20 9,
     record_of (push_bit 33 1 + 1) Read 0x20 9]"

definition test_nonzero_stack_depth_accepted :: "('proof, 'code, 'params) zinc_library \<Rightarrow> unit option" where
  "test_nonzero_stack_depth_accepted Z = assert_accepted Z
    [TraceRecord_new 0 3 Write 0 1, TraceRecord_new 1 9 Read 0 1]"

definition test_wide_addresses_and_values :: "('proof, 'code, 'params) zinc_library \<Rightarrow> unit option" where
  "test_wide_addresses_and_values Z =
    (let a = from_be_bytes (replicate 32 0x11); b = from_be_bytes ((replicate 32 0x11)[31 := 0x12]);
         big = from_be_bytes (replicate 32 0xab) in
     assert_accepted Z
      [TraceRecord_new 0 0 Write a big,
       TraceRecord_new 1 0 Write b 7,
       TraceRecord_new 2 0 Read a big,
       TraceRecord_new 3 0 Read b 7])"

definition test_power_of_two_length_trace :: "('proof, 'code, 'params) zinc_library \<Rightarrow> unit option" where
  "test_power_of_two_length_trace Z = do {
     let trace = consistent_trace;
     assert_ok (length trace = 8);
     r \<leftarrow> prove_memory_consistency Z trace;
     proof \<leftarrow> expect_ok r;
     assert_ok (zp_num_vars proof = 4);
     v \<leftarrow> verify_memory_consistency Z proof;
     expect_ok v }"

definition test_proof_serialization_roundtrip :: "('proof, 'code, 'params) zinc_library \<Rightarrow> unit option" where
  "test_proof_serialization_roundtrip Z = do {
     let trace = take 7 consistent_trace;
     r \<leftarrow> prove_memory_consistency Z trace;
     proof \<leftarrow> expect_ok r;
     bytes \<leftarrow> expect_ok (to_bytes Z proof);
     restored \<leftarrow> expect_ok (from_bytes Z bytes);
     assert_ok (proof = restored);
     v \<leftarrow> verify_memory_consistency Z restored;
     expect_ok v }"

definition probe_early_max_address_padding_boundary_accepted :: "('proof, 'code, 'params) zinc_library \<Rightarrow> unit option" where
  "probe_early_max_address_padding_boundary_accepted Z = assert_accepted Z
    [record_of 0 Write 0xff00 77,
     record_of 1 Read 0xff00 77,
     record_of 2 Write 0x00 1,
     record_of 3 Write 0x20 2,
     record_of 4 Read 0x00 1,
     record_of 5 Read 0x20 2]"

text \<open>The witness of a trace, proved through the internal entry point.\<close>

definition test_honest_witness_still_proves_after_helper_roundtrip ::
    "('proof, 'code, 'params) zinc_library \<Rightarrow> unit option" where
  "test_honest_witness_still_proves_after_helper_roundtrip Z = do {
     b \<leftarrow> build_uair_trace (take 7 consistent_trace);
     (uair_trace, num_vars) \<leftarrow> expect_ok b;
     r \<leftarrow> prove_from_uair_trace Z uair_trace num_vars;
     proof \<leftarrow> expect_ok r;
     v \<leftarrow> verify_memory_consistency Z proof;
     expect_ok v }"

section \<open>Traces that are rejected\<close>

definition test_read_before_any_write_rejected :: "('proof, 'code, 'params) zinc_library \<Rightarrow> unit option" where
  "test_read_before_any_write_rejected Z = assert_rejected Z [record_of 0 Read 0x0 0]"

definition test_read_of_unwritten_address_rejected :: "('proof, 'code, 'params) zinc_library \<Rightarrow> unit option" where
  "test_read_of_unwritten_address_rejected Z = assert_rejected Z
    [record_of 0 Write 0x0 11, record_of 1 Read 0x40 11]"

definition test_stale_read_value_rejected :: "('proof, 'code, 'params) zinc_library \<Rightarrow> unit option" where
  "test_stale_read_value_rejected Z = assert_rejected Z
    [record_of 0 Write 0x0 100, record_of 1 Write 0x0 200, record_of 2 Read 0x0 100]"

definition test_wrong_read_value_high_limb_rejected :: "('proof, 'code, 'params) zinc_library \<Rightarrow> unit option" where
  "test_wrong_read_value_high_limb_rejected Z =
    (let wrong = from_be_bytes ((replicate 32 0)[0 := 1, 31 := 1]) in
     assert_rejected Z [TraceRecord_new 0 0 Write 0x80 1, TraceRecord_new 1 0 Read 0x80 wrong])"

definition test_empty_trace_rejected :: "('proof, 'code, 'params) zinc_library \<Rightarrow> unit option" where
  "test_empty_trace_rejected Z = assert_error Z [] EmptyTrace"

definition test_first_time_nonzero_rejected :: "('proof, 'code, 'params) zinc_library \<Rightarrow> unit option" where
  "test_first_time_nonzero_rejected Z = assert_error Z [record_of 1 Write 0x0 1] (FirstTimeNonZero 1)"

definition test_time_decreasing_rejected :: "('proof, 'code, 'params) zinc_library \<Rightarrow> unit option" where
  "test_time_decreasing_rejected Z = assert_error Z
    [record_of 0 Write 0x0 1, record_of 2 Write 0x20 2, record_of 1 Write 0x40 3] (TimeNotIncreasing 1)"

definition test_duplicated_access_rejected :: "('proof, 'code, 'params) zinc_library \<Rightarrow> unit option" where
  "test_duplicated_access_rejected Z = assert_error Z
    [record_of 0 Write 0x0 1, record_of 0 Read 0x0 1] (DuplicatedAccess 0)"

definition test_same_time_different_address_rejected :: "('proof, 'code, 'params) zinc_library \<Rightarrow> unit option" where
  "test_same_time_different_address_rejected Z = assert_error Z
    [record_of 0 Write 0x0 1, record_of 0 Write 0x20 2] (DuplicatedAccess 0)"

definition test_time_log_overflow_rejected :: "('proof, 'code, 'params) zinc_library \<Rightarrow> unit option" where
  "test_time_log_overflow_rejected Z = assert_error Z
    [record_of 0 Write 0x0 1, record_of (- 1) Write 0x20 2] TimeLogOverflow"

definition test_trace_too_long_rejected :: "('proof, 'code, 'params) zinc_library \<Rightarrow> unit option" where
  "test_trace_too_long_rejected Z = do {
     too_long \<leftarrow> shl_one MAX_NUM_VARS;
     let trace = map (\<lambda>t. record_of (word_of_nat t) Write 0x0 1) [0..<too_long];
     assert_error Z trace TraceTooLong }"

text \<open>A trace shifted in time: the public entry point refuses it, and so does the circuit.\<close>

definition test_nonzero_start_time_rejected_in_circuit :: "bool \<Rightarrow> ('proof, 'code, 'params) zinc_library \<Rightarrow> unit option" where
  "test_nonzero_start_time_rejected_in_circuit chk Z = do {
     shifted \<leftarrow> those (map (\<lambda>r. do {
       t \<leftarrow> uadd chk (tr_time_log r) 1;
       Some (TraceRecord_new t (tr_stack_depth r) (tr_instruction r) (tr_address r) (tr_value r)) })
       (take 7 consistent_trace));
     _ \<leftarrow> assert_error Z shifted (FirstTimeNonZero 1);
     b \<leftarrow> build_uair_trace_any_start shifted;
     (uair_trace, num_vars) \<leftarrow> expect_ok b;
     r \<leftarrow> prove_from_uair_trace Z uair_trace num_vars;
     (case r of
       Inl (Prover _) \<Rightarrow> Some ()
     | Inl _ \<Rightarrow> panic
     | Inr proof \<Rightarrow> do { v \<leftarrow> verify_memory_consistency Z proof; assert_ok (isl v) }) }"

definition test_error_display_is_informative :: "unit option" where
  "test_error_display_is_informative =
    (let msg = zinc_error_display (FirstTimeNonZero 42) in
     assert_ok (list_ex (\<lambda>i. take 2 (drop i msg) = ''42'') [0..<length msg]))"

section \<open>Facts\<close>

text \<open>The traces are judged by evaluation.\<close>

lemma builder_answer_checked:
  "builder_answer tr =
     (if tr = [] then Inl EmptyTrace
      else if tr_time_log (hd tr) \<noteq> 0 then Inl (FirstTimeNonZero (tr_time_log (hd tr)))
      else case check_times tr of
        Some e \<Rightarrow> Inl e
      | None \<Rightarrow>
        if 2 ^ 16 \<le> length tr then Inl TraceTooLong
        else if 2 ^ 64 + length tr \<le> unat (tr_time_log (last tr)) + 2 ^ vars_for (length tr)
        then Inl TimeLogOverflow else Inr ())"
  by (simp only: builder_answer_def check_times_first)

lemma vars_for_small:
  "vars_for (Suc 0) = 3" "vars_for (Suc (Suc 0)) = 3" "vars_for (Suc (Suc (Suc 0))) = 3"
  "vars_for (Suc (Suc (Suc (Suc 0)))) = 3" "vars_for (Suc (Suc (Suc (Suc (Suc (Suc 0)))))) = 3"
  "vars_for (Suc (Suc (Suc (Suc (Suc (Suc (Suc 0))))))) = 3"
  "vars_for (Suc (Suc (Suc (Suc (Suc (Suc (Suc (Suc 0)))))))) = 4"
  by code_simp+

lemmas judged = builder_answer_checked memory_consistent_def record_of_def TraceRecord_new_def vars_for_small unat_max word_gt_0

context zinc_system
begin

lemma accepts_trace:
  assumes "builder_answer tr = Inr ()" and "memory_consistent tr"
  shows "assert_accepted Z tr = Some ()"
  using prove_outcome [of tr] assms by (auto simp: assert_accepted_def expect_ok_def)

lemma rejects_trace: "\<not> memory_consistent tr \<Longrightarrow> assert_rejected Z tr = Some ()"
  using prove_outcome [of tr] by (auto simp: assert_rejected_def split: sum.splits)

lemma reports_error: "builder_answer tr = Inl e \<Longrightarrow> assert_error Z tr e = Some ()"
  using prove_outcome [of tr] by (simp add: assert_error_def assert_ok_def)

lemma accepted_traces:
  "test_consistent_trace_roundtrip Z = Some ()" "test_single_write_trace Z = Some ()"
  "test_time_gaps_accepted Z = Some ()" "test_nonzero_stack_depth_accepted Z = Some ()"
  "probe_early_max_address_padding_boundary_accepted Z = Some ()"
  unfolding test_consistent_trace_roundtrip_def test_single_write_trace_def test_time_gaps_accepted_def
    test_nonzero_stack_depth_accepted_def probe_early_max_address_padding_boundary_accepted_def
  by (rule accepts_trace; simp add: judged consistent_trace_def)+

lemma rejected_traces:
  "test_read_before_any_write_rejected Z = Some ()" "test_read_of_unwritten_address_rejected Z = Some ()"
  "test_stale_read_value_rejected Z = Some ()" 
  unfolding test_read_before_any_write_rejected_def test_read_of_unwritten_address_rejected_def
    test_stale_read_value_rejected_def
  by (rule rejects_trace; simp add: judged)+

lemma reported_traces:
  "test_empty_trace_rejected Z = Some ()" "test_first_time_nonzero_rejected Z = Some ()"
  "test_time_decreasing_rejected Z = Some ()" "test_duplicated_access_rejected Z = Some ()"
  "test_same_time_different_address_rejected Z = Some ()" "test_time_log_overflow_rejected Z = Some ()"
  unfolding test_empty_trace_rejected_def test_first_time_nonzero_rejected_def test_time_decreasing_rejected_def
    test_duplicated_access_rejected_def test_same_time_different_address_rejected_def test_time_log_overflow_rejected_def
  by (rule reports_error; simp add: judged)+


lemma wide_words:
  fixes a b :: u256
  defines "a \<equiv> from_be_bytes (replicate 32 0x11)" and "b \<equiv> from_be_bytes ((replicate 32 0x11)[31 := 0x12])"
  shows "a \<noteq> b" "from_be_bytes ((replicate 32 0)[0 := 1, 31 := 1]) \<noteq> (1 :: u256)"
proof -
  have "to_be_bytes (from_be_bytes bs :: u256) = bs" if "length bs = 32" for bs
    using that by (simp add: to_from_be_bytes)
  from this [of "replicate 32 0x11"] this [of "(replicate 32 0x11)[31 := 0x12]"]
  have "to_be_bytes a ! 31 = 0x11" "to_be_bytes b ! 31 = 0x12" by (simp_all add: a_def b_def)
  then show "a \<noteq> b" by auto
  have "to_be_bytes (from_be_bytes ((replicate 32 0)[0 := 1, 31 := 1]) :: u256) ! 0 = 1"
    by (simp add: to_from_be_bytes)
  moreover have "to_be_bytes (1 :: u256) ! 0 = 0" by (simp add: to_be_bytes_def digits_be_nth)
  ultimately show "from_be_bytes ((replicate 32 0)[0 := 1, 31 := 1]) \<noteq> (1 :: u256)" by (metis zero_neq_one)
qed

lemma wide_traces:
  "test_wide_addresses_and_values Z = Some ()" "test_wrong_read_value_high_limb_rejected Z = Some ()"
proof -
  show "test_wide_addresses_and_values Z = Some ()"
    unfolding test_wide_addresses_and_values_def Let_def
    by (rule accepts_trace) (use wide_words(1) in \<open>simp_all add: judged\<close>)
  show "test_wrong_read_value_high_limb_rejected Z = Some ()"
    unfolding test_wrong_read_value_high_limb_rejected_def Let_def
    by (rule rejects_trace) (use wide_words(2) in \<open>simp add: judged\<close>)
qed

lemma test_display: "test_error_display_is_informative = Some ()"
  by code_simp

lemma prove_built:
  assumes "MIN_NUM_VARS \<le> v" "v \<le> MAX_NUM_VARS" and "\<And>oob. uair_satisfied oob v t"
  shows "\<exists>p. prove_from_uair_trace Z t v = Some (Inr p) \<and> zp_num_vars p = v \<and> verify_memory_consistency Z p = Some (Inr ())"
proof -
  obtain params where ps: "setup_params (zl_zip Z) v = Some params" using params assms(2) by blast
  obtain q where "zl_prove Z v params t v = Inr q" "zl_verify Z v params q (public_int_columns v) v = Inr ()"
    using complete [OF ps assms(3)] by blast
  then show ?thesis
    using assms(1,2) by (simp add: prove_from_uair_trace_def verify_memory_consistency_def dispatch_range ps)
qed

lemma prove_violated:
  assumes "MIN_NUM_VARS \<le> v" "v \<le> MAX_NUM_VARS" and "\<And>oob. \<not> uair_satisfied oob v t"
  shows "\<exists>e. prove_from_uair_trace Z t v = Some (Inl (Prover e))"
proof -
  obtain params where ps: "setup_params (zl_zip Z) v = Some params" using params assms(2) by blast
  obtain e where "zl_prove Z v params t v = Inl e" using rejects [OF ps assms(3)] by blast
  then show ?thesis using assms(1,2) by (simp add: prove_from_uair_trace_def dispatch_range ps)
qed

lemma proved_honestly:
  assumes "builder_answer tr = Inr ()" and "memory_consistent tr"
  obtains t p where "build_uair_trace tr = Some (Inr (t, vars_for (length tr)))"
    "prove_from_uair_trace Z t (vars_for (length tr)) = Some (Inr p)"
    "prove_memory_consistency Z tr = Some (Inr p)" "zp_num_vars p = vars_for (length tr)"
    "verify_memory_consistency Z p = Some (Inr ())"
proof -
  obtain t where t: "build_uair_trace tr = Some (Inr (t, vars_for (length tr)))"
    "\<And>oob. uair_satisfied oob (vars_for (length tr)) t" using builder_answer_ok [OF assms(1)] assms(2) by blast
  note v = build_num_vars [OF t(1)]
  from prove_built [OF v [THEN conjunct1] v [THEN conjunct2] t(2)] obtain p where
    p: "prove_from_uair_trace Z t (vars_for (length tr)) = Some (Inr p)" "zp_num_vars p = vars_for (length tr)"
      "verify_memory_consistency Z p = Some (Inr ())" by blast
  have "prove_memory_consistency Z tr = Some (Inr p)" by (simp add: prove_memory_consistency_def t(1) p(1))
  with t(1) p that show thesis by blast
qed

lemma proof_tests:
  "test_power_of_two_length_trace Z = Some ()" "test_honest_witness_still_proves_after_helper_roundtrip Z = Some ()"
proof -
  have ok: "builder_answer consistent_trace = Inr ()" "memory_consistent consistent_trace" "length consistent_trace = 8"
    by (simp_all add: judged consistent_trace_def)
  have v: "vars_for 8 = 4" by code_simp
  show "test_power_of_two_length_trace Z = Some ()"
    by (rule proved_honestly [OF ok(1,2)]) (simp add: test_power_of_two_length_trace_def ok(3) v assert_ok_def expect_ok_def)
  have ok7: "builder_answer (take 7 consistent_trace) = Inr ()" "memory_consistent (take 7 consistent_trace)"
    by (simp_all add: judged consistent_trace_def)
  show "test_honest_witness_still_proves_after_helper_roundtrip Z = Some ()"
    by (rule proved_honestly [OF ok7])
      (simp add: test_honest_witness_still_proves_after_helper_roundtrip_def expect_ok_def)
qed

lemma too_long_test: "test_trace_too_long_rejected Z = Some ()"
proof -
  let ?tr = "map (\<lambda>t. record_of (word_of_nat t) Write 0x0 1) [0..<2 ^ 16]"
  have "sorted_wrt (<) (map (word_of_nat :: nat \<Rightarrow> u64) [0..<2 ^ 16])"
    by (simp add: sorted_wrt_iff_nth_less word_less_nat_alt unat_of_nat)
  then have "time_ordered ?tr" by (simp add: time_ordered_def o_def record_of_def TraceRecord_new_def)
  then have "first_time_error ?tr = None" by (simp only: time_ordered_first)
  moreover have "?tr \<noteq> []" "tr_time_log (hd ?tr) = 0"
    by (simp_all add: hd_map record_of_def TraceRecord_new_def del: upt_rec_numeral)
  ultimately have "builder_answer ?tr = Inl TraceTooLong" by (simp add: builder_answer_def del: upt_rec_numeral)
  from reports_error [OF this] show ?thesis
    by (simp add: test_trace_too_long_rejected_def shl_one_def MAX_NUM_VARS_def del: upt_rec_numeral)
qed

text \<open>A shifted trace builds a witness that only violates the first time.\<close>

lemma shifted_test: "test_nonzero_start_time_rejected_in_circuit chk Z = Some ()"
proof -
  let ?shift = "\<lambda>r. do { t \<leftarrow> uadd chk (tr_time_log r) 1;
       Some (TraceRecord_new t (tr_stack_depth r) (tr_instruction r) (tr_address r) (tr_value r)) }"
  define tr where "tr = [record_of 1 Write 0x0 1368, record_of 2 Write 0x20 979, record_of 3 Read 0x0 1368,
    record_of 4 Write 0x40 42, record_of 5 Read 0x20 979, record_of 6 Write 0x0 500, record_of 7 Read 0x0 500]"
  have shifted: "those (map ?shift (take 7 consistent_trace)) = Some tr"
    by (simp add: consistent_trace_def tr_def record_of_def TraceRecord_new_def uadd_def)
  have ne: "tr \<noteq> []" and tm: "time_ordered tr" and len: "length tr = 7" and start: "\<not> starts_at_zero tr"
    and last: "tr_time_log (last tr) = 7"
    by (simp_all add: tr_def record_of_def TraceRecord_new_def time_ordered_def starts_at_zero_def)
  have "builder_answer tr = Inl (FirstTimeNonZero 1)"
    by (simp add: builder_answer_def tr_def record_of_def TraceRecord_new_def)
  note err = reports_error [OF this]
  have v: "vars_for 7 = 3" by code_simp
  obtain t where t: "build_uair_trace_any_start tr = Some (Inr (t, 3))"
    and sat: "\<forall>oob. uair_satisfied oob 3 t \<longleftrightarrow> starts_at_zero tr \<and> memory_consistent tr"
    by (rule build_ok [OF ne tm _ refl refl]) (simp_all add: len last v)
  obtain e where "prove_from_uair_trace Z t 3 = Some (Inl (Prover e))"
    using prove_violated [of 3 t] sat start by (auto simp: MIN_NUM_VARS_def MAX_NUM_VARS_def)
  then show ?thesis
    by (simp add: test_nonzero_start_time_rejected_in_circuit_def shifted err t expect_ok_def)
qed

end

section \<open>Transcripts\<close>

text \<open>A transcript writes every proof and reads back what it wrote.\<close>

locale zinc_transcript = zinc_system +
  assumes transcript: "\<exists>stream. zl_write Z q = Inr stream \<and> zl_read Z stream = Inr q"
begin

lemma restored:
  assumes "MIN_NUM_VARS \<le> zp_num_vars p" and "zp_num_vars p \<le> MAX_NUM_VARS"
  obtains bytes where "to_bytes Z p = Inr bytes" "from_bytes Z bytes = Inr p"
proof -
  obtain stream where s: "zl_write Z (zp_proof p) = Inr stream" using transcript by blast
  have "zp_num_vars p < 2 ^ 32" using assms(2) by (simp add: MAX_NUM_VARS_def)
  then have b: "to_bytes Z p = Inr (to_le_bytes (word_of_nat (zp_num_vars p)) @ stream)"
    using s by (simp add: to_bytes_def)
  have "zl_write Z q = Inr stream' \<Longrightarrow> zl_read Z stream' = Inr q" for q stream'
    using transcript [of q] by auto
  from that [OF b from_to_bytes [OF this assms b]] show thesis .
qed

lemma serialization_test: "test_proof_serialization_roundtrip Z = Some ()"
proof -
  have ok7: "builder_answer (take 7 consistent_trace) = Inr ()" "memory_consistent (take 7 consistent_trace)"
    by (simp_all add: judged consistent_trace_def)
  have v: "vars_for (length (take 7 consistent_trace)) = 3" by (simp add: consistent_trace_def vars_for_small)
  obtain p where p: "prove_memory_consistency Z (take 7 consistent_trace) = Some (Inr p)" "zp_num_vars p = 3"
    "verify_memory_consistency Z p = Some (Inr ())" using proved_honestly [OF ok7] v by metis
  obtain bytes where "to_bytes Z p = Inr bytes" "from_bytes Z bytes = Inr p"
    by (rule restored [of p]) (simp_all add: p(2) MIN_NUM_VARS_def MAX_NUM_VARS_def)
  with p show ?thesis by (simp add: test_proof_serialization_roundtrip_def expect_ok_def assert_ok_def)
qed

end

text \<open>An ideal proof system, whose proofs are empty, for the instances.\<close>

definition ideal_zinc :: "(unit, unit, unit) zinc_library" where
  "ideal_zinc = \<lparr>zl_zip = unit_zip,
     zl_prove = \<lambda>v _ t n. if uair_satisfied (\<lambda>_ _ _. 0) v t then Inr () else Inl ''unsatisfied'',
     zl_verify = \<lambda>v _ _ cols n. if \<exists>t. uair_satisfied (\<lambda>_ _ _. 0) v t then Inr () else Inl ''unsatisfied'',
     zl_write = \<lambda>_. Inr [], zl_read = \<lambda>_. Inr ()\<rparr>"

interpretation ideal: zinc_transcript ideal_zinc
  by unfold_locales (auto simp: ideal_zinc_def unit_zip_ok split: if_splits)

end
