(* ===== verification/Example_Programs.thy ===== *)
theory Example_Programs
  imports Example_Machine Composition Zinc_Tests
begin

text \<open>
  The programs of \<open>zkmemory/examples/\<close>: a program on the machine of the examples, a program
  whose trace the consistency circuit checks, for any random values, and a trace written by
  hand that both backends prove.
\<close>

section \<open>Images without their bytes\<close>

text \<open>
  The flags of an image follow from the addresses alone when every cell keeps its first byte
  zero, as it does for values of 64 bits stored at the multiples of half a cell.
\<close>

lemma image_flags [simp]:
  "im_clean (image_read w a I) \<longleftrightarrow> im_clean I \<and> set (touched w a) \<subseteq> im_cells I"
  "im_clean (image_write w a v I) = im_clean I"
  "im_records (image_read w a I) = im_records I + length (touched w a)"
  "im_records (image_write w a v I) = im_records I + length (touched w a)"
  "im_clean (I\<lparr>im_depth := d\<rparr>) = im_clean I" "im_records (I\<lparr>im_depth := d\<rparr>) = im_records I"
  "im_cells (I\<lparr>im_depth := d\<rparr>) = im_cells I" "im_bytes (I\<lparr>im_depth := d\<rparr>) = im_bytes I"
  by (simp_all add: image_read_def image_write_def)

lemma empty_image_simps [simp]:
  "im_clean empty_image" "im_records empty_image = 0" "im_cells empty_image = {}" "im_depth empty_image = 0"
  "im_low empty_image" "im_bytes empty_image = (\<lambda>_. 0)"
  by (simp_all add: empty_image_def)

definition firsts_zero :: "256 word image \<Rightarrow> bool" where
  "firsts_zero I \<longleftrightarrow> im_low I \<and> (\<forall>c. c mod 32 = 0 \<longrightarrow> im_bytes I c = 0)"

lemma top_bytes_zero: "v < 2 ^ 64 \<Longrightarrow> i < 24 \<Longrightarrow> to_be_bytes (v :: 256 word) ! i = 0"
proof -
  assume v: "v < 2 ^ 64" and i: "i < 24"
  have "unat v < 2 ^ 64" using v by (simp add: word_less_nat_alt)
  also have "(2 :: nat) ^ 64 = 256 ^ 8" by simp
  also have "\<dots> \<le> 256 ^ (31 - i)" using i by (intro power_increasing) simp_all
  finally have "unat v div 256 ^ (31 - i) = 0" by simp
  then show ?thesis using i by (simp add: to_be_bytes_def digits_be_nth)
qed

lemma short_value: "(ucast (d :: u64) :: 256 word) < 18446744073709551616"
proof -
  have d: "unat d < 2 ^ 64" using unat_less_2p [of d] by simp
  then have "unat d < 2 ^ 256" by (rule less_trans) simp
  then have "unat (ucast d :: 256 word) = unat d" by (simp add: unsigned_ucast_eq take_bit_nat_eq_self)
  then show ?thesis using d by (simp add: word_less_nat_alt)
qed

lemma firsts_zero_empty: "firsts_zero empty_image"
  by (simp add: firsts_zero_def)

lemma firsts_zero_depth: "firsts_zero (I\<lparr>im_depth := d\<rparr>) = firsts_zero I"
  by (simp add: firsts_zero_def)

lemma half_cell_offset:
  fixes a c :: nat
  assumes "a mod 32 = 0 \<or> a mod 32 = 16 \<or> a mod 32 = 24" and "c mod 32 = 0" and "a \<le> c" and "c < a + 32"
  shows "c - a < 24"
proof -
  obtain k where "c = 32 * k" using assms(2) by (auto simp: mod_eq_0_iff_dvd)
  moreover obtain q where "a = 32 * q \<or> a = 32 * q + 16 \<or> a = 32 * q + 24"
    using assms(1) by (metis add.right_neutral mult_div_mod_eq)
  moreover from calculation assms(4) have "k < q + 2" by linarith
  then have "k \<le> q \<or> k = q + 1" by linarith
  ultimately show ?thesis using assms(3,4) by (elim disjE) simp_all
qed

lemma half_cell_unat:
  fixes a :: "256 word"
  shows "a mod 32 = b \<Longrightarrow> unat a mod 32 = unat b"
  using unat_mod_distrib [of a 32] by simp

lemma firsts_zero_write:
  assumes "a mod 32 = 0 \<or> a mod 32 = 16 \<or> a mod 32 = 24" and "v < 2 ^ 64"
    and "\<forall>c \<in> set (touched 32 a). c mod 32 = 0 \<and> top_zero c" and "firsts_zero I"
  shows "firsts_zero (image_write 32 a (v :: 256 word) I)"
proof -
  have "store (im_bytes I) a v c = 0" if c: "c mod 32 = 0" for c
  proof (cases "unat a \<le> unat c \<and> unat c < unat a + 32")
    case True
    have "unat a mod 32 = 0 \<or> unat a mod 32 = 16 \<or> unat a mod 32 = 24"
      using assms(1) by (auto dest!: half_cell_unat)
    moreover have "unat c mod 32 = 0" using half_cell_unat [OF c] by simp
    ultimately have "unat c - unat a < 24" by (rule half_cell_offset) (use True in simp_all)
    then show ?thesis using True assms(2) by (simp add: store_def top_bytes_zero)
  next
    case False
    then show ?thesis using assms(4) c by (auto simp: store_def firsts_zero_def)
  qed
  then show ?thesis using assms(3,4) by (simp add: firsts_zero_def image_write_def low_cells_def list_all_iff)
qed

lemma firsts_zero_read:
  assumes "\<forall>c \<in> set (touched 32 a). c mod 32 = 0 \<and> top_zero c" and "firsts_zero I"
  shows "firsts_zero (image_read 32 a I)"
  using assms by (simp add: firsts_zero_def image_read_def low_cells_def list_all_iff)

lemmas firsts_zero_steps =
  firsts_zero_empty firsts_zero_depth firsts_zero_write firsts_zero_read short_value top_zero_bound touched_def

text \<open>The instructions of the examples on images, with constant operands.\<close>

lemmas example_steps =
  example_image_def example_guard_def image_guard_def contain_def base_MAX_def example_swap_def slot_def touched_def
  Let_def load_store_same load_store_other

section \<open>The new machine\<close>

definition default_example :: "('m, 't, 256 word, 256 word) platform \<Rightarrow> ('m, 't, 256 word) example_machine" where
  "default_example P =
     \<lparr>memory = rb_new P, memory_allocated = Section 35840 base_MAX, word_size = 32,
      time_log = 0, stack_allocated = Section 0 32768, max_stack_depth = 1024, stack_depth = 0,
      stack_ptr = 0, register_allocated = Section 33792 34816, execution_trace = tr_new P,
      ex_r0 = Register_new 0 33792, ex_r1 = Register_new 1 33824, ex_r2 = Register_new 2 33856,
      ex_r3 = Register_new 3 33888\<rparr>"

lemma new_default_example: "Example_new P default_config = Some (default_example P)"
proof -
  have "config_new (overflow_checks P) (WORD_SIZE :: 256 word) default_config = Some (head_config 32 1024 32 32)"
    using config_new_head [of default_config 1024 32 32 32 "overflow_checks P", where 'k = 256]
    by (simp add: default_config_def WORD_SIZE_def)
  then show ?thesis
    by (simp add: Example_new_def create_register_default)
      (simp add: default_example_def head_config_def base_zero_def into_u64_def from_usize_def)
qed

lemma default_example_simps [simp]:
  "memory_allocated (default_example P) = Section 35840 base_MAX" "word_size (default_example P) = 32"
  "max_stack_depth (default_example P) = 1024" "stack_depth (default_example P) = 0"
  "ex_r0 (default_example P) = Register_new 0 33792" "ex_r1 (default_example P) = Register_new 1 33824"
  "base_address (default_example P) = 35840"
  by (simp_all add: default_example_def base_address_def section_low_def)

lemma default_example_run:
  assumes "rbtree P" and "length is < 2 ^ 60" and "list_all (example_operands 32) is"
  shows "map_option (image_of P) (example_program P is (default_example P)) =
      example_run (overflow_checks P) (Section 35840 base_MAX) 1024 32 is empty_image"
    and "example_program P is (default_example P) = Some s \<Longrightarrow> machine_inv P s"
proof -
  let ?s = "default_example P"
  have fit: "cells_fit TYPE(256) ?s" by (simp add: cells_fit_def)
  have tr: "machine_trace P ?s = []"
    using rbtree.tr_keys_new [OF assms(1)] by (simp add: machine_trace_def default_example_def)
  have "machine_inv P ?s"
    using rbtree.rb_get_new [OF assms(1)] by (simp add: machine_inv_def tr trace_ok_def) (simp add: default_example_def)
  moreover have "stack_inv ?s" by (simp add: stack_inv_def) (simp add: default_example_def)
  ultimately have "Machine_Exec.ready P (8 * length is) ?s"
    using fit assms(2) by (simp add: Machine_Exec.ready_def tr)
  note run = rbtree.example_refines_program [OF assms(1) this]
  have "image_of P ?s = empty_image"
    by (rule rbtree.new_image [OF assms(1) _ _ _ fit]) (simp_all add: default_example_def)
  with run assms(3) show "map_option (image_of P) (example_program P is ?s) =
      example_run (overflow_checks P) (Section 35840 base_MAX) 1024 32 is empty_image"
    by simp
  show "example_program P is ?s = Some s \<Longrightarrow> machine_inv P s"
    using run assms(3) by (simp add: Machine_Exec.ready_def)
qed

section \<open>The program of \<open>256bits-machine.rs\<close>\<close>

text \<open>
  The function \<open>main\<close> up to its output, the trace of the machine it returns; the addresses
  are computed with the checked addition of the build.
\<close>

definition example_256bits ::
    "('m, 't, 256 word, 256 word) platform \<Rightarrow> ('m, 't, 256 word) example_machine option" where
  "example_256bits P = do {
     machine \<leftarrow> Example_new P default_config;
     let base = base_address machine;
     let plus = uadd (overflow_checks P) base;
     a16 \<leftarrow> plus 16; a48 \<leftarrow> plus 48; a80 \<leftarrow> plus 80; a112 \<leftarrow> plus 112; b16 \<leftarrow> plus 16; b24 \<leftarrow> plus 24;
     let program =
       [E_Write a16 1025, E_Write a48 1111, E_Write a80 1000, E_Write a112 9999, E_Load (ex_r0 machine) b16,
        E_Push 3735013596, E_Swap (ex_r1 machine), E_Add (ex_r0 machine) (ex_r1 machine), E_Save b24 (ex_r0 machine)];
     example_program P program machine }"

lemma plus_base: "n < 2 ^ 32 \<Longrightarrow> uadd chk (35840 :: 256 word) n = Some (35840 + n)"
proof -
  assume "n < 2 ^ 32"
  then have "unat n < 2 ^ 32" by (simp add: word_less_nat_alt)
  then show ?thesis by (simp add: uadd_def)
qed

definition program_256bits :: "(256 word, 256 word) my_instruction list" where
  "program_256bits = [E_Write 35856 1025, E_Write 35888 1111, E_Write 35920 1000, E_Write 35952 9999,
     E_Load (Register_new 0 33792) 35856, E_Push 3735013596, E_Swap (Register_new 1 33824),
     E_Add (Register_new 0 33792) (Register_new 1 33824), E_Save 35864 (Register_new 0 33792)]"

lemma example_256bits_program: "example_256bits P = example_program P program_256bits (default_example P)"
  unfolding example_256bits_def new_default_example Let_def program_256bits_def
  by (simp add: plus_base del: example_program.simps)

lemma program_256bits_ok: "list_all (example_operands 32) program_256bits"
  by (simp add: program_256bits_def example_operands_def operands_ok_def Register_new_def)

lemma firsts_low: "firsts_zero I \<Longrightarrow> im_low I"
  by (simp add: firsts_zero_def)

definition result_256bits :: "256 word image \<Rightarrow> bool" where
  "result_256bits I \<longleftrightarrow> im_clean I \<and> im_low I \<and> im_records I = 21 \<and> im_depth I = 1 \<and>
     load (im_bytes I) 33792 = (3735014621 :: 256 word) \<and> load (im_bytes I) 35864 = (3735014621 :: 256 word) \<and>
     load (im_bytes I) 33824 = (3735013596 :: 256 word) \<and> load (im_bytes I) 0 = (3735013596 :: 256 word)"

lemma run_256bits:
  "\<exists>I. example_run chk (Section 35840 base_MAX) 1024 32 program_256bits empty_image = Some I \<and> result_256bits I"
  unfolding program_256bits_def result_256bits_def
  by (simp add: example_steps Register_new_def) (rule firsts_low; simp add: firsts_zero_steps)

text \<open>It ends with the sum in the first register and in memory, and the pushed value in the second.\<close>

lemma example_256bits_result:
  assumes "rbtree P"
  shows "\<exists>s. example_256bits P = Some s \<and> machine_inv P s \<and> result_256bits (image_of P s)"
proof -
  have len: "length program_256bits < 2 ^ 60" by (simp add: program_256bits_def)
  note run = default_example_run [OF assms len program_256bits_ok]
  obtain I where I: "example_run (overflow_checks P) (Section 35840 base_MAX) 1024 32 program_256bits empty_image = Some I"
    "result_256bits I" using run_256bits by blast
  with run(1) obtain s where "example_program P program_256bits (default_example P) = Some s" "image_of P s = I"
    by (cases "example_program P program_256bits (default_example P)") simp_all
  then show ?thesis using run(2) I(2) by (simp add: example_256bits_program)
qed

section \<open>The program of \<open>memory-consistency.rs\<close>\<close>

text \<open>
  The function \<open>main\<close>: its random numbers are a sequence of draws, the first of which is
  discarded; the circuit is run with the rows a mock prover of size \<open>2 ^ 10\<close> has.
\<close>

definition example_memory_consistency ::
    "('m, 't, 256 word, 256 word) platform \<Rightarrow> nat \<Rightarrow> 'f::field \<Rightarrow> (nat \<Rightarrow> 'f) \<Rightarrow> u64 list \<Rightarrow> (nat \<Rightarrow> u64) \<Rightarrow> unit option" where
  "example_memory_consistency P usable alpha random seeds draw = do {
     machine \<leftarrow> Example_new P default_config;
     let base = base_address machine;
     let plus = uadd (overflow_checks P) base;
     let value = (\<lambda>i. ucast (draw i));
     a1 \<leftarrow> plus 16; a2 \<leftarrow> plus 48; a3 \<leftarrow> plus 80; a4 \<leftarrow> plus 112; a5 \<leftarrow> plus 320; a6 \<leftarrow> plus 16; a7 \<leftarrow> plus 10000;
     a8 \<leftarrow> plus 48; a9 \<leftarrow> plus 320; a10 \<leftarrow> plus 10016; a11 \<leftarrow> plus 10032; a12 \<leftarrow> plus 16; a13 \<leftarrow> plus 48;
     let program =
       [E_Write a1 (value 1), E_Write a2 (value 2), E_Write a3 (value 3), E_Write a4 (value 4), E_Write a5 (value 5),
        E_Read a6, E_Write a7 (value 6), E_Read a8, E_Read a9, E_Write a10 (value 7), E_Write a11 (value 8),
        E_Read a12, E_Read a13];
     machine \<leftarrow> example_program P program machine;
     build_and_test_circuit usable alpha random seeds (machine_trace P machine) }"

definition memory_example_program :: "(nat \<Rightarrow> u64) \<Rightarrow> (256 word, 256 word) my_instruction list" where
  "memory_example_program draw =
    [E_Write 35856 (ucast (draw 1)), E_Write 35888 (ucast (draw 2)), E_Write 35920 (ucast (draw 3)),
     E_Write 35952 (ucast (draw 4)), E_Write 36160 (ucast (draw 5)), E_Read 35856,
     E_Write 45840 (ucast (draw 6)), E_Read 35888, E_Read 36160, E_Write 45856 (ucast (draw 7)),
     E_Write 45872 (ucast (draw 8)), E_Read 35856, E_Read 35888]"

lemma example_memory_program:
  "example_memory_consistency P usable alpha random seeds draw = do {
     machine \<leftarrow> example_program P (memory_example_program draw) (default_example P);
     build_and_test_circuit usable alpha random seeds (machine_trace P machine) }"
  unfolding example_memory_consistency_def new_default_example Let_def memory_example_program_def
  by (simp add: plus_base del: example_program.simps)

lemma memory_example_ok: "list_all (example_operands 32) (memory_example_program draw)"
  by (simp add: memory_example_program_def example_operands_def operands_ok_def)

lemma run_memory_example:
  "\<exists>I. example_run chk (Section 35840 base_MAX) 1024 32 (memory_example_program draw) empty_image = Some I \<and>
    im_clean I \<and> im_low I \<and> im_records I = 23"
  unfolding memory_example_program_def
  by (simp add: example_steps) (rule firsts_low; simp add: firsts_zero_steps)

lemma build_and_test_ok:
  fixes alpha :: "'f::field"
  assumes "wide_field TYPE('f) (2 ^ 248)" and "\<And>i. random i \<noteq> 0"
  shows "build_and_test_circuit usable alpha random seeds tr = Some () \<longleftrightarrow> halo2_accepts usable tr"
proof -
  have "build_and_test_circuit usable alpha random seeds tr = Some () \<longleftrightarrow>
      consistency_circuit usable alpha random seeds tr (sort_trace_by_address_time tr) = Some (Inr True)"
    by (auto simp: build_and_test_circuit_def sort_trace_is expect_ok_def assert_ok_def split: bind_splits sum.splits if_splits)
  then show ?thesis by (simp only: consistency_circuit_accepts [OF assms])
qed

lemma example_memory_ok:
  fixes alpha :: "'f::field"
  assumes "rbtree P" and "wide_field TYPE('f) (2 ^ 248)" and "\<And>i. random i \<noteq> 0" and "512 \<le> usable"
  shows "example_memory_consistency P usable alpha random seeds draw = Some ()"
proof -
  let ?p = "memory_example_program draw"
  have len: "length ?p < 2 ^ 60" by (simp add: memory_example_program_def)
  note run = default_example_run [OF assms(1) len memory_example_ok]
  obtain I where I: "example_run (overflow_checks P) (Section 35840 base_MAX) 1024 32 ?p empty_image = Some I"
    "im_clean I" "im_low I" "im_records I = 23" using run_memory_example by blast
  with run(1) obtain s where s: "example_program P ?p (default_example P) = Some s" "image_of P s = I"
    by (cases "example_program P ?p (default_example P)") simp_all
  note inv = run(2) [OF s(1)]
  have tr: "length (machine_trace P s) = 23" "reads_initialised {} (machine_trace P s)" "low_bounded (machine_trace P s)"
    using s(2) I image_low_bounded [of P s] by auto
  have "halo2_accepts usable (machine_trace P s)"
    using inv_trace(1-3) [OF inv] tr assms(4)
    by (simp add: halo2_accepts_def low_consistent_memory circuit_fits_def region_height_def table_height_def)
  then show ?thesis by (simp add: example_memory_program s(1) build_and_test_ok [OF assms(2,3)])
qed

section \<open>The program of \<open>zincplus-memory-consistency.rs\<close>\<close>

definition example_record :: "u64 \<Rightarrow> memory_instruction \<Rightarrow> u64 \<Rightarrow> u64 \<Rightarrow> access" where
  "example_record time instruction address val =
     TraceRecord_new time 0 instruction (ucast address) (ucast val)"

definition example_trace :: "access list" where
  "example_trace =
    [example_record 0 Write 0x00 1368,
     example_record 1 Write 0x20 979,
     example_record 2 Read 0x00 1368,
     example_record 3 Write 0x40 42,
     example_record 4 Read 0x20 979,
     example_record 5 Write 0x00 500,
     example_record 6 Read 0x00 500,
     example_record 7 Read 0x40 42]"

text \<open>The function \<open>main\<close>; proving and verifying with Halo2 draw their own challenges.\<close>

definition example_zincplus ::
    "('proof, 'code, 'params) zinc_library \<Rightarrow> 'f::field halo2_env \<Rightarrow> 'f halo2_env \<Rightarrow> unit option" where
  "example_zincplus Z E E' = do {
     let trace = example_trace;
     r \<leftarrow> prove_memory_consistency Z trace;
     proof \<leftarrow> expect_ok r;
     r \<leftarrow> verify_memory_consistency Z proof;
     _ \<leftarrow> expect_ok r;
     bytes \<leftarrow> expect_ok (to_bytes Z proof);
     restored \<leftarrow> expect_ok (from_bytes Z bytes);
     r \<leftarrow> verify_memory_consistency Z restored;
     _ \<leftarrow> expect_ok r;
     let halo2 = \<lparr>hb_k = 10\<rparr>;
     r \<leftarrow> Halo2_prove E halo2 trace;
     attestation \<leftarrow> expect_ok r;
     r \<leftarrow> Halo2_verify E' attestation;
     _ \<leftarrow> expect_ok r;
     r \<leftarrow> ZincPlus_prove Z trace;
     zinc_proof \<leftarrow> expect_ok r;
     r \<leftarrow> ZincPlus_verify Z zinc_proof;
     _ \<leftarrow> expect_ok r;
     let inconsistent = trace[6 := example_record 6 Read 0x00 1368];
     r \<leftarrow> ZincPlus_prove Z inconsistent;
     rejected \<leftarrow> (case r of
         Inl _ \<Rightarrow> Some True
       | Inr bad_proof \<Rightarrow> do { v \<leftarrow> ZincPlus_verify Z bad_proof; Some (isl v) });
     assert_ok rejected }"


lemma example_trace_facts:
  "builder_answer example_trace = Inr ()" "memory_consistent example_trace" "low_bounded example_trace"
  "time_ordered example_trace" "starts_at_zero example_trace" "length example_trace = 8"
  "\<not> memory_consistent (example_trace[6 := example_record 6 Read 0x00 1368])"
  by (simp_all add: example_trace_def example_record_def TraceRecord_new_def builder_answer_checked vars_for_small
      memory_consistent_def low_bounded_def time_ordered_def starts_at_zero_def)

lemma example_zincplus_ok:
  fixes E E' :: "'f::field halo2_env"
  assumes "zinc_transcript Z" and good: "good_env E" "good_env E'" and same: "he_usable E' = he_usable E"
    and rows: "512 \<le> he_usable E 10"
  shows "example_zincplus Z E E' = Some ()"
proof -
  note F = example_trace_facts
  have Z: "zinc_system Z" using assms(1) by (rule zinc_transcript.axioms(1))
  obtain p where p: "prove_memory_consistency Z example_trace = Some (Inr p)"
    "verify_memory_consistency Z p = Some (Inr ())" and v: "zp_num_vars p = vars_for (length example_trace)"
    by (rule zinc_system.proved_honestly [OF Z F(1,2)])
  have "zp_num_vars p = 4" using v by (simp add: example_trace_def vars_for_small)
  then obtain bytes where bytes: "to_bytes Z p = Inr bytes" "from_bytes Z bytes = Inr p"
    by (rule_tac zinc_transcript.restored [OF assms(1), of p]) (simp_all add: MIN_NUM_VARS_def MAX_NUM_VARS_def)
  have "halo2_accepts (he_usable E 10) example_trace"
    using F rows by (simp add: halo2_accepts_def low_consistent_memory circuit_fits_def region_height_def table_height_def)
  moreover note H = halo2_system.intro [OF good same]
  ultimately have "\<exists>a. Halo2_prove E \<lparr>hb_k = 10\<rparr> example_trace = Some (Inr a)"
    using halo2_system.halo2_proves_iff [OF H, of "\<lparr>hb_k = 10\<rparr>" example_trace] by simp
  then obtain a where a: "Halo2_prove E \<lparr>hb_k = 10\<rparr> example_trace = Some (Inr a)" by blast
  note a = a halo2_system.halo2_proved_verifies [OF H a]
  let ?bad = "example_trace[6 := example_record 6 Read 0x00 1368]"
  have "\<nexists>q. ZincPlus_prove Z ?bad = Some (Inr q)"
    using zinc_system.zinc_proves_iff [OF Z, of ?bad] F(7) by (simp add: zinc_accepts_def)
  moreover have "ZincPlus_prove Z ?bad \<noteq> None"
    using zinc_system.prove_outcome [OF Z, of ?bad] F(7) by (auto simp: ZincPlus_prove_def split: sum.splits)
  ultimately obtain e where e: "ZincPlus_prove Z ?bad = Some (Inl e)"
    by (metis not_Some_eq obj_sumE option.exhaust)
  show ?thesis
    using p e unfolding example_zincplus_def Let_def
    by (simp add: ZincPlus_prove_def [of Z example_trace] ZincPlus_verify_def bytes a expect_ok_def assert_ok_def)
qed

section \<open>Properties\<close>

text \<open>
  C34: the three programs run as their comments say: the first leaves the sum in its register
  and in memory after a trace both backends accept, the second passes its circuit whatever
  numbers are drawn, and the third proves and verifies with both backends and rejects the
  stale read.
\<close>

theorem examples_pass:
  fixes E E' :: "'f::field halo2_env"
  assumes "rbtree P" and "good_env E" and "good_env E'" and "he_usable E' = he_usable E" and "512 \<le> he_usable E 10"
    and "zinc_transcript Z"
  shows "(\<exists>s. example_256bits P = Some s \<and> result_256bits (image_of P s)) \<and>
    example_memory_consistency P (he_usable E 10) (he_alpha E) (he_random E) (he_seeds E) draw = Some () \<and>
    example_zincplus Z E E' = Some ()"
  using example_256bits_result [OF assms(1)] example_memory_ok [OF assms(1) _ _ assms(5)]
    example_zincplus_ok [OF assms(6,2-5)] assms(2) unfolding good_env_def by blast

theorem examples_pass_witness:
  "example_memory_consistency lib 1016 3 (\<lambda>_. 1 :: rat) [1, 2, 3, 4, 5] (\<lambda>_. 7) = Some () \<and>
    example_zincplus ideal_zinc mock_env (mock_env\<lparr>he_alpha := 7\<rparr>) = Some ()"
proof -
  have rows: "512 \<le> he_usable mock_env 10" by (simp add: mock_env_def)
  have E: "he_usable mock_env 10 = 1016" "he_alpha mock_env = 3" "he_random mock_env = (\<lambda>_. 1)" "he_seeds mock_env = [1, 2, 3, 4, 5]"
    by (simp_all add: mock_env_def)
  show ?thesis
    using examples_pass [OF rbt_platform_law [of True] mock.good mock.same_rows rows ideal.zinc_transcript_axioms, of "\<lambda>_. 7"]
    by (simp add: E)
qed

end
