(* ===== verification/Uair_Tamper.thy ===== *)
theory Uair_Tamper
  imports Uair_Correct
begin

text \<open>
  Which witness cells of the UAIR are bound: in a satisfied trace, changing a cell breaks a
  constraint unless the cell is dead. Dead are the switches of lower wires and, since no
  constraint is checked at the last row, the slack, selector and helper cells of that row.
\<close>

section \<open>Changing one cell\<close>

definition with_bp :: "utrace \<Rightarrow> nat \<Rightarrow> nat \<Rightarrow> u32 \<Rightarrow> utrace" where
  "with_bp t c i x = t\<lparr>bp_cols := (bp_cols t)[c := (bp_cols t ! c)[i := x]]\<rparr>"

definition with_int :: "utrace \<Rightarrow> nat \<Rightarrow> nat \<Rightarrow> int \<Rightarrow> utrace" where
  "with_int t c i x = t\<lparr>int_cols := (int_cols t)[c := (int_cols t ! c)[i := x]]\<rparr>"

definition dead_bp :: "nat \<Rightarrow> nat \<Rightarrow> nat \<Rightarrow> bool" where
  "dead_bp v c i \<longleftrightarrow> 42 * v \<le> c \<and> Suc i = 2 ^ v"

definition dead_int :: "nat \<Rightarrow> nat \<Rightarrow> nat \<Rightarrow> bool" where
  "dead_int v c i \<longleftrightarrow> v + 1 \<le> c \<and> (Suc i = 2 ^ v \<or> v + 14 \<le> c \<and> bit i (stride v (c - (v + 14))))"

lemma with_simps [simp]:
  "int_cols (with_bp t c i x) = int_cols t" "bp_cols (with_int t c i y) = bp_cols t"
  "icell (with_bp t c i x) = icell t" "cell (with_int t c i y) = cell t"
  by (simp_all add: with_bp_def with_int_def icell_def cell_def fun_eq_iff)

lemma shaped_with:
  assumes "shaped v t"
  shows "shaped v (with_bp t c i x)" "shaped v (with_int t c i y)"
proof -
  have "set (bp_cols (with_bp t c i x)) \<subseteq> insert ((bp_cols t ! c)[i := x]) (set (bp_cols t))"
    unfolding with_bp_def by (simp add: set_update_subset_insert)
  moreover have "c < length (bp_cols t) \<Longrightarrow> length (bp_cols t ! c) = 2 ^ v" using assms by (simp add: shaped_def)
  ultimately show "shaped v (with_bp t c i x)"
    using assms unfolding shaped_def
    by (cases "c < length (bp_cols t)") (auto simp: with_bp_def list_update_beyond)
  have "set (int_cols (with_int t c i y)) \<subseteq> insert ((int_cols t ! c)[i := y]) (set (int_cols t))"
    unfolding with_int_def by (simp add: set_update_subset_insert)
  moreover have "c < length (int_cols t) \<Longrightarrow> length (int_cols t ! c) = 2 ^ v" using assms by (simp add: shaped_def)
  ultimately show "shaped v (with_int t c i y)"
    using assms unfolding shaped_def
    by (cases "c < length (int_cols t)") (auto simp: with_int_def list_update_beyond)
qed

lemma changed_bp:
  assumes "shaped v t" "c < 42 * v + 2" "i < 2 ^ v"
  shows "bp_cols (with_bp t c i x) ! c' ! i' = (if c' = c \<and> i' = i then x else bp_cols t ! c' ! i')"
  using assms by (auto simp: with_bp_def shaped_def nth_list_update)

lemma changed_int:
  assumes "shaped v t" "c < 3 * v + 13" "i < 2 ^ v"
  shows "icell (with_int t c i x) c' i' = (if c' = c \<and> i' = i then x else icell t c' i')"
  using assms by (auto simp: with_int_def icell_def shaped_def nth_list_update)

section \<open>Live cells\<close>

text \<open>A layer determines the rows of its output, and both sums of its input.\<close>

lemma layer_equations:
  assumes sat: "satisfied_rows oob v t" and l: "l < 2 * v - 1" and k: "k = stride v l"
    and i: "\<not> bit i k" "i < 2 ^ v" and p: "p < 21"
  defines "j \<equiv> i + 2 ^ k" and "s \<equiv> icell t (v + 14 + l) i"
  shows "j < 2 ^ v" "s = 0 \<or> s = 1"
    "uint (cell t (Suc l) p i) = uint (cell t l p i) + s * (uint (cell t l p j) - uint (cell t l p i))"
    "uint (cell t (Suc l) p j) = uint (cell t l p j) - s * (uint (cell t l p j) - uint (cell t l p i))"
proof -
  have sh: "shaped v t" using sat by (simp add: satisfied_rows_def)
  then have v: "1 \<le> v" by (simp add: shaped_def)
  have kv: "k < v" unfolding k by (rule stride_less [OF v l])
  show j: "j < 2 ^ v" unfolding j_def by (rule partner_less [OF i kv])
  have "1 \<le> (2 :: nat) ^ k" by simp
  then have "Suc i < 2 ^ v" using j unfolding j_def by linarith
  then obtain n where n: "those (map (layer_constraints (layout_of v) (row_at oob (layout_of v) t i)) [0..<2 * v - 1]) = Some n"
    "list_all (list_all holds) n"
    using sat by (auto simp: satisfied_rows_def)
  obtain cs where cs: "layer_constraints (layout_of v) (row_at oob (layout_of v) t i) l = Some cs" "list_all holds cs"
    using those_map_facts [OF n, of l] l by auto
  have up: "icell t (1 + stride v l) i = 1" using sat kv i by (simp add: satisfied_rows_def k)
  note R = layer_row [OF sh l j [unfolded j_def k] cs up meta_eq_to_obj_eq [OF s_def] meta_eq_to_obj_eq [OF j_def [unfolded k]]]
  show "s = 0 \<or> s = 1" using R(1) by auto
  show "uint (cell t (Suc l) p i) = uint (cell t l p i) + s * (uint (cell t l p j) - uint (cell t l p i))"
    "uint (cell t (Suc l) p j) = uint (cell t l p j) - s * (uint (cell t l p j) - uint (cell t l p i))"
    using R(2,3) p by blast+
qed

text \<open>The rows of a state are distinct, since their times are.\<close>

lemma rows_distinct:
  assumes sat: "satisfied_rows oob v t" and l: "l \<le> 2 * v - 1"
  shows "distinct (map (row_cells t l) [0..<2 ^ v])"
proof -
  let ?g = "2 * v - 1"
  have "sorted_wrt (<) (map (\<lambda>i. tr_time_log (decode_row (row_cells t ?g i))) [0..<2 ^ v])"
    using original_neighbours [OF sat _ refl] by (intro sorted_wrt_neighbours transp_on_less) blast
  then have "distinct (map (\<lambda>i. tr_time_log (decode_row (row_cells t ?g i))) [0..<2 ^ v])"
    by (simp add: strict_sorted_iff)
  then have d: "distinct (map (row_cells t ?g) [0..<2 ^ v])" by (auto simp: distinct_map inj_on_def)
  have "mset (map (row_cells t n) [0..<2 ^ v]) = mset (map (row_cells t 0) [0..<2 ^ v])" if "n \<le> 2 * v - 1" for n
    using that
  proof (induction n)
    case (Suc n)
    then show ?case using state_permutation [OF sat, of n] by simp
  qed simp
  from this [OF l] this [of ?g] show ?thesis using d by (metis mset_eq_imp_distinct_iff order_refl)
qed

lemma live_state:
  assumes sat: "satisfied_rows oob v t" "satisfied_rows oob' v (with_bp t c i x)"
    and c: "c < 42 * v" and i: "i < 2 ^ v"
  shows "x = bp_cols t ! c ! i"
proof -
  let ?t = "with_bp t c i x"
  define g p where "g = c div 21" and "p = c mod 21"
  have sh: "shaped v t" using sat(1) by (simp add: satisfied_rows_def)
  then have v: "3 \<le> v" by (simp add: shaped_def)
  have p: "p < 21" by (simp add: p_def)
  have g: "g < 2 * v" unfolding g_def using c by (simp add: div_less_iff_less_mult)
  have cg: "c = state_col g p" by (simp add: g_def p_def state_col_def)
  have new: "cell ?t g' p' i' = (if g' = g \<and> p' = p \<and> i' = i then x else cell t g' p' i')" if "p' < 21" for g' p' i'
  proof -
    have "state_col g' p' = state_col g p \<longleftrightarrow> g' = g \<and> p' = p"
      using that p by (auto simp: state_col_def dest: arg_cong [of _ _ "\<lambda>n. n mod 21"])
    then show ?thesis using changed_bp [OF sh _ i, of c] c by (simp add: cell_def cg)
  qed
  define l where "l = g - 1"
  have l: "l < 2 * v - 1" using g v by (simp add: l_def)
  define k where "k = stride v l"
  have kv: "k < v" unfolding k_def by (rule stride_less [OF _ l]) (use v in simp)
  define a where "a = unset_bit k i"
  have nb: "\<not> bit a k" by (simp add: a_def bit_simps)
  have wi: "i = a \<or> i = a + 2 ^ k" using unset_bit_eq_iff [OF nb, of i] by (simp add: a_def)
  then have a: "a < 2 ^ v" using i by auto
  note E = layer_equations [OF sat(1) l k_def nb a p]
  note E' = layer_equations [OF sat(2) l k_def nb a p]
  have s: "icell ?t (v + 14 + l) a = icell t (v + 14 + l) a" by simp
  have "uint x = uint (cell t g p i)"
  proof (cases "g = 0")
    case True
    then have l0: "l = 0" by (simp add: l_def)
    have "uint (cell t 1 p a) + uint (cell t 1 p (a + 2 ^ k)) = uint (cell t 0 p a) + uint (cell t 0 p (a + 2 ^ k))"
      using E(3,4) l0 by simp
    moreover have "uint (cell ?t 1 p a) + uint (cell ?t 1 p (a + 2 ^ k)) = uint (cell ?t 0 p a) + uint (cell ?t 0 p (a + 2 ^ k))"
      using E'(3,4) l0 by simp
    ultimately show ?thesis using wi new [OF p] True by auto
  next
    case False
    then have "Suc l = g" "l \<noteq> g" by (simp_all add: l_def)
    then show ?thesis using E(3,4) E'(3,4) new [OF p] wi by auto
  qed
  then show ?thesis by (simp add: word_uint_eq_iff cell_def cg)
qed

lemma live_slack:
  assumes sat: "satisfied_rows oob v t" "satisfied_rows oob' v (with_bp t c i x)"
    and c: "c = 42 * v \<or> c = 42 * v + 1" and i: "Suc i < 2 ^ v"
  shows "x = bp_cols t ! c ! i"
proof -
  let ?t = "with_bp t c i x"
  have i': "i < 2 ^ v" using i by simp
  have sh: "shaped v t" using sat(1) by (simp add: satisfied_rows_def)
  then have v: "3 \<le> v" by (simp add: shaped_def)
  have bp: "bp_cols ?t ! c' ! i' = (if c' = c \<and> i' = i then x else bp_cols t ! c' ! i')" for c' i'
    using changed_bp [OF sh _ i'] c by auto
  have cells: "cell ?t g p i' = cell t g p i'" if "g < 2 * v" "p < 21" for g p i'
    using state_col_less [OF that] c bp by (auto simp: cell_def)
  obtain cs os where S: "shaped v t" "sorted_constraints (layout_of v) (row_at oob (layout_of v) t i) = Some cs" "list_all holds cs"
    "original_constraints (layout_of v) (row_at oob (layout_of v) t i) = Some os" "list_all holds os"
    by (rule row_facts [OF sat(1) i])
  obtain cs' os' where S': "shaped v ?t"
    "sorted_constraints (layout_of v) (row_at oob' (layout_of v) ?t i) = Some cs'" "list_all holds cs'"
    "original_constraints (layout_of v) (row_at oob' (layout_of v) ?t i) = Some os'" "list_all holds os'"
    by (rule row_facts [OF sat(2) i])
  have "uint (bp_cols ?t ! c ! i) = uint (bp_cols t ! c ! i)"
    using c
  proof
    assume c: "c = 42 * v"
    have "(\<Sum>j < 10. icell t (v + 1 + j) i * (uint (cell ?t 0 j (Suc i)) - uint (cell ?t 0 j i)))
        = (\<Sum>j < 10. icell t (v + 1 + j) i * (uint (cell t 0 j (Suc i)) - uint (cell t 0 j i)))"
      using cells v by (intro sum.cong) auto
    then show ?thesis
      using sorted_row(6) [OF S(1) i S(2,3) refl refl refl] sorted_row(6) [OF S'(1) i S'(2,3) refl refl refl]
      by (simp add: c)
  next
    assume c: "c = 42 * v + 1"
    show ?thesis
      using original_row(7) [OF S(1) i S(4,5) refl refl refl refl refl]
        original_row(7) [OF S'(1) i S'(4,5) refl refl refl refl refl] cells [of "2 * v - 1"] v
      by (simp add: c)
  qed
  then show ?thesis using bp by (simp add: word_uint_eq_iff)
qed

text \<open>The one-hot selector is the first limb that differs.\<close>

lemma selectors_determined:
  assumes sat: "satisfied_rows oob v t" "satisfied_rows oob' v t'" and i: "Suc i < 2 ^ v"
    and cells: "cell t' = cell t" and slack: "bp_cols t' ! (42 * v) = bp_cols t ! (42 * v)" and j: "j < 10"
  shows "icell t' (v + 1 + j) i = icell t (v + 1 + j) i"
proof -
  obtain cs where S: "shaped v t" "sorted_constraints (layout_of v) (row_at oob (layout_of v) t i) = Some cs" "list_all holds cs"
    by (rule row_facts [OF sat(1) i])
  obtain cs' where S': "shaped v t'"
    "sorted_constraints (layout_of v) (row_at oob' (layout_of v) t' i) = Some cs'" "list_all holds cs'"
    by (rule row_facts [OF sat(2) i])
  define d where "d = (\<lambda>j. uint (cell t 0 j (Suc i)) - uint (cell t 0 j i))"
  define s s' where "s = (\<lambda>j. icell t (v + 1 + j) i)" and "s' = (\<lambda>j. icell t' (v + 1 + j) i)"
  note F = sorted_row [OF S(1) i S(2,3) s_def d_def refl]
  have d': "d = (\<lambda>j. uint (cell t' 0 j (Suc i)) - uint (cell t' 0 j i))" by (simp add: d_def cells)
  note F' = sorted_row [OF S'(1) i S'(2,3) s'_def d' refl]
  obtain k where k: "k < 10" "s k = 1" "\<forall>j < 10. j \<noteq> k \<longrightarrow> s j = 0" "\<forall>j < k. d j = 0"
    "d k = 1 + uint (bp_cols t ! (42 * v) ! i)" by (rule first_difference [OF F(3-6)])
  obtain k' where k': "k' < 10" "s' k' = 1" "\<forall>j < 10. j \<noteq> k' \<longrightarrow> s' j = 0" "\<forall>j < k'. d j = 0"
    "d k' = 1 + uint (bp_cols t' ! (42 * v) ! i)" by (rule first_difference [OF F'(3-6)])
  have "d k \<noteq> 0" "d k' \<noteq> 0"
    using k(5) k'(5) uint_ge_0 [of "bp_cols t ! (42 * v) ! i"] unfolding slack by linarith+
  then have "k = k'" using k(4) k'(4) by (metis linorder_neqE_nat)
  then have "s' j = s j" using k(2,3) k'(2,3) j by metis
  then show ?thesis by (simp add: s_def s'_def)
qed

text \<open>The integer columns of a row but the switches: one-hot selectors, helper and time selectors.\<close>

lemma live_selector:
  assumes sat: "satisfied_rows oob v t" "satisfied_rows oob' v (with_int t c i y)"
    and c: "v + 1 \<le> c" "c < v + 14" and i: "Suc i < 2 ^ v"
  shows "y = icell t c i"
proof -
  let ?t = "with_int t c i y"
  have i': "i < 2 ^ v" using i by simp
  have sh: "shaped v t" using sat(1) by (simp add: satisfied_rows_def)
  then have v: "3 \<le> v" by (simp add: shaped_def)
  have c3: "c < 3 * v + 13" using c v by simp
  have new: "icell ?t c' i' = (if c' = c \<and> i' = i then y else icell t c' i')" for c' i'
    by (rule changed_int [OF sh c3 i'])
  obtain cs os where S: "shaped v t" "sorted_constraints (layout_of v) (row_at oob (layout_of v) t i) = Some cs" "list_all holds cs"
    "original_constraints (layout_of v) (row_at oob (layout_of v) t i) = Some os" "list_all holds os"
    by (rule row_facts [OF sat(1) i])
  obtain cs' os' where S': "shaped v ?t"
    "sorted_constraints (layout_of v) (row_at oob' (layout_of v) ?t i) = Some cs'" "list_all holds cs'"
    "original_constraints (layout_of v) (row_at oob' (layout_of v) ?t i) = Some os'" "list_all holds os'"
    by (rule row_facts [OF sat(2) i])
  note F = sorted_row(7) [OF S(1) i S(2,3) refl refl refl] sorted_row(7) [OF S'(1) i S'(2,3) refl refl refl]
  note O = original_row(5) [OF S(1) i S(4,5) refl refl refl refl refl]
    original_row(5) [OF S'(1) i S'(4,5) refl refl refl refl refl]
  have "c = v + 1 + (c - (v + 1))" "c - (v + 1) < 10 \<or> c = v + 11 \<or> c = v + 12 \<or> c = v + 13" using c by auto
  then consider (sel) j where "j < 10" "c = v + 1 + j" | (w) "c = v + 11" | (time) "c = v + 12 \<or> c = v + 13" by blast
  then show ?thesis
  proof cases
    case (sel j)
    then show ?thesis using selectors_determined [OF sat i _ _ sel(1)] new by simp
  next
    case w
    then have "icell ?t (v + 11) i = icell t (v + 11) i" using F new by simp
    then show ?thesis using new w by simp
  next
    case time
    then show ?thesis using O new by auto
  qed
qed

lemma live_switch:
  assumes sat: "satisfied_rows oob v t" "satisfied_rows oob' v (with_int t (v + 14 + l) i y)"
    and l: "l < 2 * v - 1" and i: "i < 2 ^ v" and up: "\<not> bit i (stride v l)"
  shows "y = icell t (v + 14 + l) i"
proof -
  let ?t = "with_int t (v + 14 + l) i y" and ?j = "i + 2 ^ stride v l"
  have sh: "shaped v t" using sat(1) by (simp add: satisfied_rows_def)
  then have v: "3 \<le> v" by (simp add: shaped_def)
  have c3: "v + 14 + l < 3 * v + 13" using l v by simp
  have new: "icell ?t (v + 14 + l) i = y" by (simp add: changed_int [OF sh c3 i])
  note E = layer_equations [OF sat(1) l refl up i]
  note E' = layer_equations [OF sat(2) l refl up i]
  have j: "?j < 2 ^ v" using E(1) [of 0] by simp
  have "row_cells t l i \<noteq> row_cells t l ?j"
  proof
    assume "row_cells t l i = row_cells t l ?j"
    moreover have "inj_on (row_cells t l) {0..<2 ^ v}"
      using rows_distinct [OF sat(1), of l] l by (simp add: distinct_map)
    ultimately have "i = ?j" using i j by (metis atLeast0LessThan inj_onD lessThan_iff)
    then show False by simp
  qed
  then obtain p where p: "p < 21" "cell t l p i \<noteq> cell t l p ?j"
    by (metis (no_types, lifting) row_cells_simps nth_equalityI)
  then have "uint (cell t l p ?j) - uint (cell t l p i) \<noteq> 0" by (simp add: word_uint_eq_iff)
  moreover have "icell t (v + 14 + l) i * (uint (cell t l p ?j) - uint (cell t l p i))
      = y * (uint (cell t l p ?j) - uint (cell t l p i))"
    using E(3) [OF p(1)] E'(3) [OF p(1)] new by simp
  ultimately show ?thesis by simp
qed

section \<open>Dead cells\<close>

text \<open>A change in the last row of a column that is not shifted changes no row that is checked.\<close>

lemma row_at_ints:
  "row_at oob L (with_int t c i y) i' = (row_at oob L t i')\<lparr>up_int := map (\<lambda>col. [col ! i']) (int_cols (with_int t c i y))\<rparr>"
  by (simp add: row_at_def shifted_cell_def split_beta)

lemma ints_changed:
  assumes sh: "shaped v t" and c: "c < 3 * v + 13" and i: "i < 2 ^ v"
  shows "map (\<lambda>col. [col ! i']) (int_cols (with_int t c i y)) =
    (if i' = i then (up_int (row_at oob L t i'))[c := [y]] else up_int (row_at oob L t i'))"
proof (rule nth_equalityI)
  fix n assume "n < length (map (\<lambda>col. [col ! i']) (int_cols (with_int t c i y)))"
  then have n: "n < length (int_cols t)" by (simp add: with_int_def)
  have "int_cols (with_int t c i y) ! n ! i' = (if n = c \<and> i' = i then y else int_cols t ! n ! i')"
    using changed_int [OF sh c i, of y n i'] by (simp add: icell_def)
  then show "map (\<lambda>col. [col ! i']) (int_cols (with_int t c i y)) ! n =
      (if i' = i then (up_int (row_at oob L t i'))[c := [y]] else up_int (row_at oob L t i')) ! n"
    using n by (auto simp: row_at_def with_int_def nth_list_update)
qed (simp add: row_at_def with_int_def)

lemma row_at_other:
  assumes "shaped v t" "c < 3 * v + 13" "i < 2 ^ v" "i \<noteq> i'"
  shows "row_at oob L (with_int t c i y) i' = row_at oob L t i'"
  using ints_changed [OF assms(1-3), of i' y oob L] assms(4) by (simp add: row_at_ints)

lemma row_at_last:
  assumes sh: "shaped v t" and i: "Suc i = 2 ^ v" and i': "Suc i' < 2 ^ v"
  shows "42 * v \<le> c \<Longrightarrow> c < 42 * v + 2 \<Longrightarrow> row_at oob (layout_of v) (with_bp t c i x) i' = row_at oob (layout_of v) t i'"
    and "c < 3 * v + 13 \<Longrightarrow> row_at oob (layout_of v) (with_int t c i y) i' = row_at oob (layout_of v) t i'"
proof -
  have ii: "i < 2 ^ v" "i \<noteq> i'" using i i' by auto
  have v: "3 \<le> v" using sh by (simp add: shaped_def)
  show "row_at oob (layout_of v) (with_bp t c i x) i' = row_at oob (layout_of v) t i'" if c: "42 * v \<le> c" "c < 42 * v + 2"
  proof -
    have "map (\<lambda>col. bit_poly (col ! i')) (bp_cols (with_bp t c i x)) = map (\<lambda>col. bit_poly (col ! i')) (bp_cols t)"
    proof (rule nth_equalityI)
      fix n assume "n < length (map (\<lambda>col. bit_poly (col ! i')) (bp_cols (with_bp t c i x)))"
      then show "map (\<lambda>col. bit_poly (col ! i')) (bp_cols (with_bp t c i x)) ! n = map (\<lambda>col. bit_poly (col ! i')) (bp_cols t) ! n"
        using changed_bp [OF sh c(2) ii(1), of x n i'] ii(2) by (simp add: with_bp_def)
    qed (simp add: with_bp_def)
    moreover have "bp_cols (with_bp t c i x) ! col = bp_cols t ! col" if col: "(col, amount) \<in> set (shift_list v)" for col amount
    proof -
      obtain state payload where "state < 2 * v" "payload < 21" "col = state_col state payload"
        using col unfolding set_shift_list by blast
      then have "col < 42 * v" using state_col_less by simp
      then show ?thesis using c by (simp add: with_bp_def)
    qed
    then have "map (\<lambda>(col, amount). bit_poly (shifted_cell oob (with_bp t c i x) col amount i')) (shift_list v)
        = map (\<lambda>(col, amount). bit_poly (shifted_cell oob t col amount i')) (shift_list v)"
      by (intro map_cong) (auto simp: shifted_cell_def)
    ultimately show ?thesis by (simp add: row_at_def)
  qed
  show "row_at oob (layout_of v) (with_int t c i y) i' = row_at oob (layout_of v) t i'" if c: "c < 3 * v + 13"
    by (rule row_at_other [OF sh c ii])
qed

text \<open>The constraints read the integer cells at fixed places.\<close>

lemma lex_loop_ints:
  "lex_loop L (r\<lparr>up_int := u\<rparr>) S js prefix inc = lex_loop L r S js prefix inc"
  by (induction js arbitrary: prefix inc) (simp_all add: down_cell_def)

lemma constraints_ints:
  assumes "length u = length (up_int r)"
    and same: "\<And>c. c < v + 14 \<Longrightarrow> u ! c = up_int r ! c" and long: "v + 14 \<le> length u"
  shows "sorted_constraints (layout_of v) (r\<lparr>up_int := u\<rparr>) = sorted_constraints (layout_of v) r"
    and "original_constraints (layout_of v) (r\<lparr>up_int := u\<rparr>) = original_constraints (layout_of v) r"
proof -
  have sel: "take 10 (drop (Suc v) u) = take 10 (drop (Suc v) (up_int r))"
    by (rule nth_equalityI) (use assms in auto)
  show "sorted_constraints (layout_of v) (r\<lparr>up_int := u\<rparr>) = sorted_constraints (layout_of v) r"
    using same by (simp add: sorted_constraints_def down_cell_def lex_loop_ints sel Let_def)
  show "original_constraints (layout_of v) (r\<lparr>up_int := u\<rparr>) = original_constraints (layout_of v) r"
    using same by (simp add: original_constraints_def down_cell_def Let_def)
qed

lemma layer_ints:
  assumes "u ! (1 + stride v l) = up_int r ! (1 + stride v l)" and "u ! (v + 14 + l) = up_int r ! (v + 14 + l)"
    and "l < 2 * v - 1" "1 \<le> v"
  shows "layer_constraints (layout_of v) (r\<lparr>up_int := u\<rparr>) l = layer_constraints (layout_of v) r l"
proof -
  have st: "stride_bit v l = Some (stride v l)" by (rule stride_bit_Some) (use assms in simp_all)
  have "swap_constraints (layout_of v) (r\<lparr>up_int := u\<rparr>) l = swap_constraints (layout_of v) r l"
    by (simp add: fun_eq_iff swap_constraints_def down_cell_def)
  then show ?thesis using assms by (simp add: layer_constraints_def layout_stride_def st)
qed

text \<open>A layer is not checked at its lower wires.\<close>

lemma layer_masked:
  assumes sh: "shaped v t" and i: "i < 2 ^ v" and l: "l < 2 * v - 1"
    and up: "icell t (1 + stride v l) i = 0" 
  shows "\<exists>cs. layer_constraints (layout_of v) (row_at oob (layout_of v) t i) l = Some cs \<and> list_all holds cs"
proof -
  let ?L = "layout_of v" and ?r = "row_at oob (layout_of v) t i" and ?k = "stride v l"
  let ?s = "up_int ?r ! (v + 14 + l)"
  have v: "3 \<le> v" using sh by (simp add: shaped_def)
  have kv: "?k < v" using stride_less [of v l] l v by simp
  have am: "2 ^ ?k \<in> set (amounts v l p)" "2 ^ ?k \<in> set (amounts v (Suc l) p)" for p
    using l v by (auto simp: amounts_def min_def max_def stride_def)
  have mask: "up_int ?r ! Suc ?k = [0]"
    using up_cells(3) [OF sh, of "1 + ?k" oob ?L i] l v kv up by simp
  have st: "stride_bit v l = Some ?k" by (rule stride_bit_Some) (use l v in simp_all)
  have "\<exists>css. those (map (swap_constraints ?L ?r l (2 ^ ?k) [0] ?s) [0..<21]) = Some css \<and> list_all (list_all holds) css"
  proof (rule those_map_ex)
    fix p assume "p \<in> set [0..<21 :: nat]"
    then have p: "p < 21" by simp
    obtain x where x: "down_idx ?L (state_col l p) (2 ^ ?k) = Some x"
      by (rule down_idx_ok [OF _ p am(1)]) (use l in auto)
    obtain y where y: "down_idx ?L (state_col (Suc l) p) (2 ^ ?k) = Some y"
      by (rule down_idx_ok [OF _ p am(2)]) (use l in auto)
    show "\<exists>cs. swap_constraints ?L ?r l (2 ^ ?k) [0] ?s p = Some cs \<and> list_all holds cs"
      by (simp add: swap_constraints_def down_cell_def x y Let_def vanishes_pmul del: pmul.simps)
  qed
  then obtain css where "those (map (swap_constraints ?L ?r l (2 ^ ?k) [0] ?s) [0..<21]) = Some css"
    "list_all (list_all holds) css" by blast
  moreover have "vanishes (pmul [0] (pmul ?s (psub ?s one)))" by (simp add: vanishes_pmul del: pmul.simps)
  ultimately show ?thesis
    by (auto simp: layer_constraints_def layout_stride_def st mask Let_def list_all_iff simp del: pmul.simps upt_rec_numeral)
qed

lemma layers_each:
  assumes "satisfied_rows oob v t" "Suc i < 2 ^ v" "l < 2 * v - 1"
  shows "\<exists>cs. layer_constraints (layout_of v) (row_at oob (layout_of v) t i) l = Some cs \<and> list_all holds cs"
proof -
  obtain n where n: "those (map (layer_constraints (layout_of v) (row_at oob (layout_of v) t i)) [0..<2 * v - 1]) = Some n"
    "list_all (list_all holds) n"
    using assms(1,2) by (auto simp: satisfied_rows_def)
  obtain cs where "layer_constraints (layout_of v) (row_at oob (layout_of v) t i) l = Some cs" "list_all holds cs"
    using those_map_facts [OF n, of l] assms(3) by auto
  then show ?thesis by blast
qed

lemma row_each:
  assumes "satisfied_rows oob v t" "Suc i < 2 ^ v"
  shows "\<exists>cs. sorted_constraints (layout_of v) (row_at oob (layout_of v) t i) = Some cs \<and> list_all holds cs"
    and "\<exists>cs. original_constraints (layout_of v) (row_at oob (layout_of v) t i) = Some cs \<and> list_all holds cs"
  using row_facts [OF assms] by blast+

lemma public_columns:
  assumes "uair_satisfied oob v t"
  shows "take (1 + v) (int_cols t) = public_int_columns v"
proof -
  have "shaped v t" using satisfied_rowsI [OF assms] by (simp add: satisfied_rows_def)
  then have v: "3 \<le> v" "v \<le> 16" by (simp_all add: shaped_def)
  show ?thesis using assms [unfolded uair_satisfied_def NetLayout_new_ok [OF v] option.case layout_of_simps] by blast
qed

lemma rows_kept:
  assumes sat: "uair_satisfied oob v t" and sh: "shaped v t'"
    and pub: "take (1 + v) (int_cols t') = take (1 + v) (int_cols t)"
    and rows: "\<And>i. Suc i < 2 ^ v \<Longrightarrow> row_at oob (layout_of v) t' i = row_at oob (layout_of v) t i"
  shows "uair_satisfied oob v t'"
  by (rule satisfied_rows_satisfied [OF sh])
    (simp_all only: pub public_columns [OF sat] rows row_each [OF satisfied_rowsI [OF sat]] layers_each [OF satisfied_rowsI [OF sat]])

lemma dead_bp_free:
  assumes sat: "uair_satisfied oob v t" and c: "c < 42 * v + 2" and dead: "dead_bp v c i"
  shows "uair_satisfied oob v (with_bp t c i x)"
proof -
  have sh: "shaped v t" using satisfied_rowsI [OF sat] by (simp add: satisfied_rows_def)
  have d: "42 * v \<le> c" "Suc i = 2 ^ v" using dead by (simp_all add: dead_bp_def)
  show ?thesis
    by (rule rows_kept [OF sat shaped_with(1) [OF sh]]) (simp_all add: row_at_last(1) [OF sh d(2) _ d(1) c])
qed

lemma dead_int_free:
  assumes sat: "uair_satisfied oob v t" and c: "c < 3 * v + 13" and i: "i < 2 ^ v" and dead: "dead_int v c i"
  shows "uair_satisfied oob v (with_int t c i y)"
proof -
  let ?t = "with_int t c i y" and ?L = "layout_of v"
  note rows = satisfied_rowsI [OF sat]
  have sh: "shaped v t" using rows by (simp add: satisfied_rows_def)
  have v: "3 \<le> v" using sh by (simp add: shaped_def)
  note sh' = shaped_with(2) [OF sh, of c i y]
  have cv: "v + 1 \<le> c" using dead by (simp add: dead_int_def)
  have pub: "take (1 + v) (int_cols ?t) = take (1 + v) (int_cols t)" using cv by (simp add: with_int_def)
  show ?thesis
  proof (cases "Suc i = 2 ^ v")
    case True
    show ?thesis by (rule rows_kept [OF sat sh' pub row_at_last(2) [OF sh True _ c]])
  next
    case False
    then obtain l where l: "c = v + 14 + l" "bit i (stride v l)"
      using dead by (auto simp: dead_int_def dest: le_Suc_ex)
    have l': "l < 2 * v - 1" using l(1) c by simp
    have kv: "stride v n < v" if "n < 2 * v - 1" for n by (rule stride_less [OF _ that]) (use v in simp)
    let ?r = "row_at oob ?L t i" let ?u = "(up_int ?r)[c := [y]]"
    have changed: "row_at oob ?L ?t i' = (if i' = i then ?r\<lparr>up_int := ?u\<rparr> else row_at oob ?L t i')" for i'
      using row_at_ints [of oob ?L t c i y i'] ints_changed [OF sh c i, of i' y oob ?L] row_at_other [OF sh c i, of i' oob ?L y]
      by simp
    have long: "v + 14 \<le> length ?u" using sh v by (simp add: row_at_def shaped_def)
    have same: "?u ! n = up_int ?r ! n" if "n \<noteq> c" for n using that by simp
    have S: "sorted_constraints ?L (?r\<lparr>up_int := ?u\<rparr>) = sorted_constraints ?L ?r"
      "original_constraints ?L (?r\<lparr>up_int := ?u\<rparr>) = original_constraints ?L ?r"
      by (rule constraints_ints; use same long l(1) in simp)+
    have "icell t (1 + stride v l) i = 0" using rows kv [OF l'] i l(2) by (simp add: satisfied_rows_def)
    then have "icell ?t (1 + stride v l) i = 0" using changed_int [OF sh c i] kv [OF l'] l(1) by simp
    from layer_masked [OF sh' i l' this, of oob]
    have masked: "\<exists>cs. layer_constraints ?L (?r\<lparr>up_int := ?u\<rparr>) l = Some cs \<and> list_all holds cs"
      by (simp add: changed)
    have other: "layer_constraints ?L (?r\<lparr>up_int := ?u\<rparr>) n = layer_constraints ?L ?r n" if "n \<noteq> l" "n < 2 * v - 1" for n
      by (rule layer_ints) (use same kv [OF that(2)] that l(1) v in simp_all)
    show ?thesis
    proof (rule satisfied_rows_satisfied [OF sh'])
      show "take (1 + v) (int_cols ?t) = public_int_columns v" by (simp only: pub public_columns [OF sat])
      fix i' assume i': "Suc i' < 2 ^ v"
      show "\<exists>cs. sorted_constraints ?L (row_at oob ?L ?t i') = Some cs \<and> list_all holds cs"
        "\<exists>cs. original_constraints ?L (row_at oob ?L ?t i') = Some cs \<and> list_all holds cs"
        using row_each [OF rows i'] by (cases "i' = i"; simp add: changed S)+
      fix n assume n: "n < 2 * v - 1"
      show "\<exists>cs. layer_constraints ?L (row_at oob ?L ?t i') n = Some cs \<and> list_all holds cs"
        using layers_each [OF rows i' n] masked other [OF _ n] by (cases "n = l") (auto simp: changed)
    qed
  qed
qed

lemma live_public:
  assumes sat: "satisfied_rows oob v t" "satisfied_rows oob' v (with_int t c i y)" and c: "c < v + 1" and i: "i < 2 ^ v"
  shows "y = icell t c i"
proof -
  have sh: "shaped v t" using sat(1) by (simp add: satisfied_rows_def)
  then have "icell (with_int t c i y) c i = y" using changed_int [of v t c i y c i, OF sh _ i] c by (simp add: shaped_def)
  moreover have "icell (with_int t c i y) c i = icell t c i"
    using sat c i unfolding satisfied_rows_def by (cases c) auto
  ultimately show ?thesis by simp
qed

section \<open>Property\<close>

lemma cells_live_aux:
  assumes sat: "uair_satisfied oob v t" and i: "i < 2 ^ v"
  shows "c < 42 * v + 2 \<Longrightarrow> x \<noteq> bp_cols t ! c ! i \<Longrightarrow> \<not> dead_bp v c i \<Longrightarrow> \<not> uair_satisfied oob' v (with_bp t c i x)"
    and "c < 3 * v + 13 \<Longrightarrow> y \<noteq> int_cols t ! c ! i \<Longrightarrow> \<not> dead_int v c i \<Longrightarrow> \<not> uair_satisfied oob' v (with_int t c i y)"
proof -
  note rows = satisfied_rowsI [OF sat]
  have v: "3 \<le> v" using rows by (simp add: satisfied_rows_def shaped_def)
  show "\<not> uair_satisfied oob' v (with_bp t c i x)"
    if c: "c < 42 * v + 2" "x \<noteq> bp_cols t ! c ! i" "\<not> dead_bp v c i"
  proof
    assume "uair_satisfied oob' v (with_bp t c i x)"
    note rows' = satisfied_rowsI [OF this]
    consider "c < 42 * v" | "c = 42 * v \<or> c = 42 * v + 1" "Suc i < 2 ^ v"
      using c i by (fastforce simp: dead_bp_def)
    then show False
      using live_state [OF rows rows' _ i] live_slack [OF rows rows'] c(2) by cases blast+
  qed
  show "\<not> uair_satisfied oob' v (with_int t c i y)"
    if c: "c < 3 * v + 13" "y \<noteq> int_cols t ! c ! i" "\<not> dead_int v c i"
  proof
    assume "uair_satisfied oob' v (with_int t c i y)"
    note rows' = satisfied_rowsI [OF this]
    consider "c < v + 1" | "v + 1 \<le> c" "c < v + 14" "Suc i < 2 ^ v"
      | l where "c = v + 14 + l" "l < 2 * v - 1" "\<not> bit i (stride v l)"
    proof -
      have "c < v + 1 \<or> (v + 1 \<le> c \<and> c < v + 14) \<or> c = v + 14 + (c - (v + 14))" by linarith
      moreover have "c - (v + 14) < 2 * v - 1" if "v + 14 \<le> c" using that c(1) v by linarith
      moreover have "Suc i < 2 ^ v" if "v + 1 \<le> c" using that c(3) i by (auto simp: dead_int_def)
      moreover have "\<not> bit i (stride v (c - (v + 14)))" if "v + 14 \<le> c" using that c(3) by (simp add: dead_int_def)
      ultimately show thesis using that by (metis le_add1)
    qed
    then show False
    proof cases
      case 1
      then show False using live_public [OF rows rows' _ i] c(2) by (simp add: icell_def)
    next
      case 2
      then show False using live_selector [OF rows rows'] c(2) by (simp add: icell_def)
    next
      case (3 l)
      then show False using live_switch [OF rows rows' [unfolded 3(1)] 3(2) i 3(3)] c(2) by (simp add: icell_def)
    qed
  qed
qed

text \<open>
  C3: every cell of a satisfied trace is bound by a constraint but the dead ones: changing it
  keeps some completion of the trace satisfied exactly when it is the switch of a lower
  wire, or a slack, selector, helper or switch cell of the last row.
\<close>

theorem uair_cells_live:
  assumes "uair_satisfied oob v t" and "i < 2 ^ v"
    and "c < length (bp_cols t)" and "x \<noteq> bp_cols t ! c ! i" and "d < length (int_cols t)" and "y \<noteq> int_cols t ! d ! i"
  shows "((\<exists>oob'. uair_satisfied oob' v (with_bp t c i x)) \<longleftrightarrow> dead_bp v c i) \<and>
    ((\<exists>oob'. uair_satisfied oob' v (with_int t d i y)) \<longleftrightarrow> dead_int v d i)"
proof -
  have "length (bp_cols t) = 42 * v + 2" "length (int_cols t) = 3 * v + 13"
    using satisfied_rowsI [OF assms(1)] by (simp_all add: satisfied_rows_def shaped_def)
  with assms(3,5) have c: "c < 42 * v + 2" "d < 3 * v + 13" by simp_all
  show ?thesis
    using cells_live_aux [OF assms(1,2)] dead_bp_free [OF assms(1) c(1)] dead_int_free [OF assms(1) c(2) assms(2)]
      c assms(4,6) by metis
qed

theorem uair_cells_live_witness:
  "\<exists>t. uair_satisfied (\<lambda>_ _ _. 0) 3 t \<and> \<not> uair_satisfied (\<lambda>_ _ _. 0) 3 (with_bp t 0 0 (bp_cols t ! 0 ! 0 + 1)) \<and>
     (\<exists>oob'. uair_satisfied oob' 3 (with_int t 17 4 (int_cols t ! 17 ! 4 + 1)))"
proof -
  let ?tr = "[TraceRecord_new 0 0 Write 8 5] :: access list"
  have v: "vars_for (Suc 0) = 3" by code_simp
  obtain t where t: "\<forall>oob. uair_satisfied oob 3 t \<longleftrightarrow> starts_at_zero ?tr \<and> memory_consistent ?tr"
    by (rule build_ok [of ?tr 3 7]) (simp_all add: time_ordered_def TraceRecord_new_def v)
  then have sat: "uair_satisfied oob 3 t" for oob
    by (simp add: starts_at_zero_def memory_consistent_def TraceRecord_new_def)
  have len: "length (bp_cols t) = 128" "length (int_cols t) = 22"
    using satisfied_rowsI [OF sat] by (simp_all add: satisfied_rows_def shaped_def)
  have "\<not> dead_bp 3 0 0" by (simp add: dead_bp_def)
  then have "\<not> uair_satisfied (\<lambda>_ _ _. 0) 3 (with_bp t 0 0 (bp_cols t ! 0 ! 0 + 1))"
    using uair_cells_live [OF sat, of 0 0 "bp_cols t ! 0 ! 0 + 1" 0 "int_cols t ! 0 ! 0 + 1"] len by auto
  moreover have "stride 3 0 = 2" "bit (4 :: nat) 2" by (simp_all add: stride_def bit_iff_odd)
  then have "dead_int 3 17 4" by (simp add: dead_int_def)
  then have "\<exists>oob'. uair_satisfied oob' 3 (with_int t 17 4 (int_cols t ! 17 ! 4 + 1))"
    using uair_cells_live [OF sat, of 4 0 "bp_cols t ! 0 ! 4 + 1" 17 "int_cols t ! 17 ! 4 + 1"] len by auto
  ultimately show ?thesis using sat by blast
qed

end
