(* ===== verification/Zinc_Tampering.thy ===== *)
theory Zinc_Tampering
  imports Zinc_Tests Uair_Tamper
begin

text \<open>
  The tests of \<open>zkmemory/src/zincplus/testcases.rs\<close> that corrupt the witness of a trace before
  it is proved. That they pass follows from \<open>Uair_Tamper\<close>: each changes cells that are bound,
  or one that is dead.
\<close>

section \<open>Helpers\<close>

definition assert_tampered_witness_rejected ::
    "('proof, 'code, 'params) zinc_library \<Rightarrow> (utrace \<Rightarrow> net_layout \<Rightarrow> utrace option) \<Rightarrow> unit option" where
  "assert_tampered_witness_rejected Z mutate = do {
     b \<leftarrow> build_uair_trace (take 7 consistent_trace);
     (uair_trace, num_vars) \<leftarrow> expect_ok b;
     layout \<leftarrow> NetLayout_new num_vars;
     uair_trace \<leftarrow> mutate uair_trace layout;
     r \<leftarrow> prove_from_uair_trace Z uair_trace num_vars;
     (case r of
       Inl (Prover _) \<Rightarrow> Some ()
     | Inl _ \<Rightarrow> panic
     | Inr proof \<Rightarrow> do { v \<leftarrow> verify_memory_consistency Z proof; assert_ok (isl v) }) }"

definition set_bp_cell :: "utrace \<Rightarrow> nat \<Rightarrow> nat \<Rightarrow> u32 \<Rightarrow> utrace option" where
  "set_bp_cell uair_trace col row val = do {
     column \<leftarrow> vec_get (bp_cols uair_trace) col;
     column \<leftarrow> vec_set column row val;
     cols \<leftarrow> vec_set (bp_cols uair_trace) col column;
     Some (uair_trace\<lparr>bp_cols := cols\<rparr>) }"

text \<open>The cells of the integer columns, which the tests read and overwrite in place.\<close>

definition int_cell :: "utrace \<Rightarrow> nat \<Rightarrow> nat \<Rightarrow> int option" where
  "int_cell uair_trace col row = do { column \<leftarrow> vec_get (int_cols uair_trace) col; vec_get column row }"

definition set_int_cell :: "utrace \<Rightarrow> nat \<Rightarrow> nat \<Rightarrow> int \<Rightarrow> utrace option" where
  "set_int_cell uair_trace col row val = do {
     column \<leftarrow> vec_get (int_cols uair_trace) col;
     column \<leftarrow> vec_set column row val;
     cols \<leftarrow> vec_set (int_cols uair_trace) col column;
     Some (uair_trace\<lparr>int_cols := cols\<rparr>) }"

section \<open>The tests\<close>

definition test_tamper_original_trace_record_rejected :: "('proof, 'code, 'params) zinc_library \<Rightarrow> unit option" where
  "test_tamper_original_trace_record_rejected Z = assert_tampered_witness_rejected Z (\<lambda>uair_trace layout.
     let col = state_col (original_state layout) (PL_VALUE + 7) in
     set_bp_cell uair_trace col 0 0xdeadbeef)"

definition test_tamper_sorted_trace_record_rejected :: "('proof, 'code, 'params) zinc_library \<Rightarrow> unit option" where
  "test_tamper_sorted_trace_record_rejected Z = assert_tampered_witness_rejected Z (\<lambda>uair_trace layout.
     let col = state_col 0 (PL_STACK_DEPTH + 1) in
     set_bp_cell uair_trace col 2 7)"

definition test_tamper_interior_network_state_rejected :: "('proof, 'code, 'params) zinc_library \<Rightarrow> unit option" where
  "test_tamper_interior_network_state_rejected Z = assert_tampered_witness_rejected Z (\<lambda>uair_trace layout. do {
     let col = state_col (lay_num_layers layout div 2) PL_INSTR;
     column \<leftarrow> vec_get (bp_cols uair_trace) col;
     cell \<leftarrow> vec_get column 1;
     let flipped = (if cell = 1 then 0 else 1);
     set_bp_cell uair_trace col 1 flipped })"

definition test_tamper_switch_bit_rejected :: "('proof, 'code, 'params) zinc_library \<Rightarrow> unit option" where
  "test_tamper_switch_bit_rejected Z = assert_tampered_witness_rejected Z (\<lambda>uair_trace layout. do {
     let col = int_switch layout;
     cell \<leftarrow> int_cell uair_trace col 0;
     set_int_cell uair_trace col 0 (1 - cell) })"

definition test_tamper_switch_bit_non_boolean_rejected :: "('proof, 'code, 'params) zinc_library \<Rightarrow> unit option" where
  "test_tamper_switch_bit_non_boolean_rejected Z = assert_tampered_witness_rejected Z (\<lambda>uair_trace layout.
     let col = int_switch layout + 1 in
     set_int_cell uair_trace col 0 2)"

definition test_tamper_original_time_slack_rejected :: "('proof, 'code, 'params) zinc_library \<Rightarrow> unit option" where
  "test_tamper_original_time_slack_rejected Z = assert_tampered_witness_rejected Z (\<lambda>uair_trace layout.
     set_bp_cell uair_trace (bp_slack_original layout) 0 41)"

definition probe_tamper_w_helper_rejected :: "('proof, 'code, 'params) zinc_library \<Rightarrow> unit option" where
  "probe_tamper_w_helper_rejected Z = assert_tampered_witness_rejected Z (\<lambda>uair_trace layout. do {
     let w_col = int_switch layout - 3;
     column \<leftarrow> vec_get (int_cols uair_trace) w_col;
     row \<leftarrow> find (\<lambda>i. column ! i = -1) [0..<length column];
     set_int_cell uair_trace w_col row 0 })"

definition probe_tamper_sorted_slack_rejected :: "('proof, 'code, 'params) zinc_library \<Rightarrow> unit option" where
  "probe_tamper_sorted_slack_rejected Z = assert_tampered_witness_rejected Z (\<lambda>uair_trace layout.
     set_bp_cell uair_trace (bp_slack_sorted layout) 0 1234)"

definition probe_move_selector_position_rejected :: "('proof, 'code, 'params) zinc_library \<Rightarrow> unit option" where
  "probe_move_selector_position_rejected Z = assert_tampered_witness_rejected Z (\<lambda>uair_trace layout. do {
     let num_lex = NUM_LEX_LIMBS;
     let s0 = int_switch layout - 3 - num_lex;
     let row = 0;
     k \<leftarrow> find (\<lambda>j. int_cell uair_trace (s0 + j) row = Some 1) [0..<num_lex];
     let k_wrong = (k + 1) mod num_lex;
     uair_trace \<leftarrow> set_int_cell uair_trace (s0 + k) row 0;
     set_int_cell uair_trace (s0 + k_wrong) row 1 })"

definition probe_dead_switch_cell_is_unconstrained :: "('proof, 'code, 'params) zinc_library \<Rightarrow> unit option" where
  "probe_dead_switch_cell_is_unconstrained Z = do {
     b \<leftarrow> build_uair_trace (take 7 consistent_trace);
     (uair_trace, num_vars) \<leftarrow> expect_ok b;
     layout \<leftarrow> NetLayout_new num_vars;
     lower_row \<leftarrow> shl_one (num_vars - 1);
     uair_trace \<leftarrow> set_int_cell uair_trace (int_switch layout) lower_row 1;
     r \<leftarrow> prove_from_uair_trace Z uair_trace num_vars;
     proof \<leftarrow> expect_ok r;
     v \<leftarrow> verify_memory_consistency Z proof;
     expect_ok v }"

section \<open>The honest witness\<close>

lemma undigits_last: "xs \<noteq> [] \<Longrightarrow> undigits_be b xs mod b = last xs mod b"
  by (cases xs rule: rev_cases) (simp_all add: undigits_be_snoc)

lemma last_limb:
  assumes "32 * length xs \<le> LENGTH('a::len)" "xs \<noteq> []"
  shows "unat (last xs) = unat (limbs_value xs :: 'a word) mod 2 ^ 32"
  using assms unat_less_2p [of "last xs"] undigits_last [of "map unat xs" "2 ^ 32"]
  by (simp add: unat_limbs_value last_map)

lemma two_limbs: "unat (limbs_value [a, b] :: u64) = unat a * 2 ^ 32 + unat b"
  by (simp add: unat_limbs_value undigits_be_Cons)

text \<open>Cells of a decoded row.\<close>

lemma decoded_value: "unat (cell t g 19 i) = unat (tr_value (decode_row (row_cells t g i))) mod 2 ^ 32"
proof -
  let ?xs = "take 8 (drop 12 (row_cells t g i))"
  have "last ?xs = cell t g 19 i" by (subst last_conv_nth) (simp_all add: row_cells_def)
  then show ?thesis using last_limb [of ?xs, where 'a = 256] by (simp add: decode_row_def)
qed

lemma decoded_depth: "unat (cell t g 11 i) = unat (tr_stack_depth (decode_row (row_cells t g i))) mod 2 ^ 32"
proof -
  let ?xs = "take 2 (drop 10 (row_cells t g i))"
  have "last ?xs = cell t g 11 i" by (subst last_conv_nth) (simp_all add: row_cells_def)
  then show ?thesis using last_limb [of ?xs, where 'a = 64] by (simp add: decode_row_def)
qed

lemma decoded_time: "unat (tr_time_log (decode_row (row_cells t g i))) = unat (cell t g 8 i) * 2 ^ 32 + unat (cell t g 9 i)"
proof -
  have "take 2 (drop 8 (row_cells t g i)) = [cell t g 8 i, cell t g 9 i]"
    by (intro nth_equalityI) (auto simp: row_cells_def less_2_cases_iff)
  then show ?thesis using two_limbs by (simp add: decode_row_def)
qed

lemma decoded_small:
  assumes "unat (tr_time_log (decode_row (row_cells t g i))) = n" and "n < 2 ^ 32"
  shows "uint (cell t g 8 i) = 0 \<and> uint (cell t g 9 i) = int n"
proof -
  have "unat (cell t g 8 i) * 2 ^ 32 + unat (cell t g 9 i) = n" using assms(1) by (simp only: decoded_time)
  moreover from this have "unat (cell t g 8 i) = 0" using assms(2) by (cases "unat (cell t g 8 i)") simp_all
  ultimately have "unat (cell t g 8 i) = 0" "unat (cell t g 9 i) = n" by simp_all
  from this [THEN arg_cong [where f = int]] show ?thesis by simp
qed

definition honest :: "utrace \<Rightarrow> bool" where
  "honest t \<longleftrightarrow> build_uair_trace (take 7 consistent_trace) = Some (Inr (t, 3)) \<and> (\<forall>oob. uair_satisfied oob 3 t) \<and>
     tr_value (decode_row (row_cells t 5 0)) = 1368 \<and>
     tr_time_log (decode_row (row_cells t 5 0)) = 0 \<and> tr_time_log (decode_row (row_cells t 5 1)) = 1 \<and>
     tr_stack_depth (decode_row (row_cells t 0 2)) = 0 \<and>
     tr_address (decode_row (row_cells t 0 0)) = tr_address (decode_row (row_cells t 0 1)) \<and>
     tr_time_log (decode_row (row_cells t 0 0)) = 0 \<and> tr_time_log (decode_row (row_cells t 0 1)) = 2 \<and>
     tr_instruction (decode_row (row_cells t 0 1)) = Read"

lemma honest_exists: "\<exists>t. honest t"
proof -
  let ?tr = "take 7 consistent_trace"
  have v: "vars_for 7 = 3" by code_simp
  have len: "length consistent_trace = 8" by (simp add: consistent_trace_def)
  have tr: "?tr \<noteq> []" "time_ordered ?tr" "length ?tr = 7" "starts_at_zero ?tr" "memory_consistent ?tr"
    "tr_time_log (last ?tr) = 6"
    by (simp_all add: consistent_trace_def judged time_ordered_def starts_at_zero_def)
  obtain t where t: "build_uair_trace_any_start ?tr = Some (Inr (t, 3))"
    and orig: "state_trace 3 t 5 = ?tr @ padding_of ?tr 1"
    and srt: "state_trace 3 t 0 = sort_trace_by_address_time ?tr @ padding_of ?tr 1"
    and sat: "\<forall>oob. uair_satisfied oob 3 t \<longleftrightarrow> starts_at_zero ?tr \<and> memory_consistent ?tr"
    by (rule build_ok [OF tr(1,2), of 3 1]) (simp_all add: len tr(6) v)
  have b: "build_uair_trace ?tr = Some (Inr (t, 3))"
    using t by (simp add: build_uair_trace_def consistent_trace_def record_of_def TraceRecord_new_def)
  have sorted: "sort_trace_by_address_time ?tr =
      [record_of 0 Write 0x0 1368, record_of 2 Read 0x0 1368, record_of 5 Write 0x0 500, record_of 6 Read 0x0 500,
       record_of 1 Write 0x20 979, record_of 4 Read 0x20 979, record_of 3 Write 0x40 42]"
    by (simp add: sort_trace_by_address_time_def consistent_trace_def record_of_def TraceRecord_new_def access_key_def less_eq_prod_def)
  have nth: "state_trace 3 t g ! i = decode_row (row_cells t g i)" if "i < 8" for g i
    using that by (simp add: state_trace_def)
  have rows: "decode_row (row_cells t 5 0) = record_of 0 Write 0x0 1368" "decode_row (row_cells t 5 1) = record_of 1 Write 0x20 979"
    using nth [of 0 5] nth [of 1 5] unfolding orig by (simp_all add: consistent_trace_def)
  have srows: "decode_row (row_cells t 0 0) = record_of 0 Write 0x0 1368" "decode_row (row_cells t 0 1) = record_of 2 Read 0x0 1368"
    "decode_row (row_cells t 0 2) = record_of 5 Write 0x0 500"
    using nth [of 0 0] nth [of 1 0] nth [of 2 0] unfolding srt sorted by simp_all
  have "honest t"
    unfolding honest_def rows srows using b sat tr(4,5) by (simp add: record_of_def TraceRecord_new_def)
  then show ?thesis by blast
qed

lemma honest_shape:
  assumes "honest t"
  shows "uair_satisfied oob 3 t" "satisfied_rows oob 3 t" "shaped 3 t" "length (bp_cols t) = 128" "length (int_cols t) = 22"
proof -
  show s: "uair_satisfied oob 3 t" for oob using assms by (simp add: honest_def)
  show r: "satisfied_rows oob 3 t" for oob by (rule satisfied_rowsI [OF s])
  show "shaped 3 t" using r by (simp add: satisfied_rows_def)
  then show "length (bp_cols t) = 128" "length (int_cols t) = 22" by (simp_all add: shaped_def)
qed

text \<open>The helpers change one cell.\<close>

lemma set_cells:
  assumes "honest t" and "i < 8"
  shows "c < 128 \<Longrightarrow> set_bp_cell t c i x = Some (with_bp t c i x)"
    "c < 22 \<Longrightarrow> set_int_cell t c i y = Some (with_int t c i y)" "c < 22 \<Longrightarrow> int_cell t c i = Some (icell t c i)"
  using honest_shape [OF assms(1)] assms(2)
  by (simp_all add: set_bp_cell_def set_int_cell_def int_cell_def with_bp_def with_int_def icell_def vec_get_def shaped_def)

lemma live_bp:
  assumes "honest t" "i < 8" "c < 128" "x \<noteq> bp_cols t ! c ! i" "c < 126 \<or> i < 7"
  shows "\<not> uair_satisfied oob 3 (with_bp t c i x)"
  by (rule cells_live_aux(1) [OF honest_shape(1) [OF assms(1)]]) (use assms in \<open>auto simp: dead_bp_def\<close>)

lemma live_int:
  assumes "honest t" "i < 7" "c < 22" "y \<noteq> icell t c i" "c < 17 \<or> i = 0"
  shows "\<not> uair_satisfied oob 3 (with_int t c i y)"
  by (rule cells_live_aux(2) [OF honest_shape(1) [OF assms(1)]]) (use assms in \<open>auto simp: dead_int_def icell_def\<close>)

lemma layout3: "NetLayout_new 3 = Some (layout_of 3)"
  by (rule NetLayout_new_ok) simp_all

context zinc_system
begin

lemma tampered_rejected:
  assumes "\<And>t. honest t \<Longrightarrow> \<exists>t'. mutate t (layout_of 3) = Some t' \<and> (\<forall>oob. \<not> uair_satisfied oob 3 t')"
  shows "assert_tampered_witness_rejected Z mutate = Some ()"
proof -
  obtain t where t: "honest t" using honest_exists by blast
  then obtain t' where t': "mutate t (layout_of 3) = Some t'" "\<And>oob. \<not> uair_satisfied oob 3 t'" using assms by blast
  obtain e where "prove_from_uair_trace Z t' 3 = Some (Inl (Prover e))"
    using prove_violated [OF _ _ t'(2)] by (auto simp: MIN_NUM_VARS_def MAX_NUM_VARS_def)
  with t t'(1) show ?thesis by (simp add: assert_tampered_witness_rejected_def honest_def layout3 expect_ok_def)
qed

text \<open>The corrupted states and switches.\<close>

lemma tampered_states:
  "test_tamper_original_trace_record_rejected Z = Some ()" "test_tamper_sorted_trace_record_rejected Z = Some ()"
  "test_tamper_interior_network_state_rejected Z = Some ()"
proof -
  have c: "state_col 5 19 = 124" "state_col 0 11 = 11" "state_col 2 20 = 62" by (simp_all add: state_col_def)
  have "0xdeadbeef \<noteq> bp_cols t ! 124 ! 0" if "honest t" for t
  proof
    assume "0xdeadbeef = bp_cols t ! 124 ! 0"
    then have "unat (cell t 5 19 0) = 0xdeadbeef" by (simp add: cell_def c flip: \<open>0xdeadbeef = bp_cols t ! 124 ! 0\<close>)
    then show False using decoded_value [of t 5 0] that by (simp add: honest_def)
  qed
  then show "test_tamper_original_trace_record_rejected Z = Some ()"
    unfolding test_tamper_original_trace_record_rejected_def
    by (intro tampered_rejected) (simp add: c set_cells live_bp)
  have "7 \<noteq> bp_cols t ! 11 ! 2" if "honest t" for t
  proof
    assume "7 = bp_cols t ! 11 ! 2"
    then have "unat (cell t 0 11 2) = 7" by (simp add: cell_def c flip: \<open>7 = bp_cols t ! 11 ! 2\<close>)
    then show False using decoded_depth [of t 0 2] that by (simp add: honest_def)
  qed
  then show "test_tamper_sorted_trace_record_rejected Z = Some ()"
    unfolding test_tamper_sorted_trace_record_rejected_def
    by (intro tampered_rejected) (simp add: c set_cells live_bp)
  have "length (bp_cols t ! 62) = 8" if "honest t" for t
    using honest_shape(3,4) [OF that] by (simp add: shaped_def)
  then show "test_tamper_interior_network_state_rejected Z = Some ()"
    unfolding test_tamper_interior_network_state_rejected_def
    by (intro tampered_rejected) (simp add: c honest_shape vec_get_def set_cells live_bp)
qed

lemma tampered_switches:
  "test_tamper_switch_bit_rejected Z = Some ()" "test_tamper_switch_bit_non_boolean_rejected Z = Some ()"
proof -
  have "1 - x \<noteq> x" for x :: int by presburger
  then show "test_tamper_switch_bit_rejected Z = Some ()"
    unfolding test_tamper_switch_bit_rejected_def
    by (intro tampered_rejected) (simp add: set_cells live_int)
  have "2 \<noteq> icell t 18 0" if "honest t" for t
    using layer_equations(2) [OF honest_shape(2) [OF that], of 1 _ 0 0] by auto
  then show "test_tamper_switch_bit_non_boolean_rejected Z = Some ()"
    unfolding test_tamper_switch_bit_non_boolean_rejected_def
    by (intro tampered_rejected) (simp add: set_cells live_int)
qed

text \<open>The slacks of the first row: both are the difference of two times less one.\<close>

lemma honest_times:
  assumes "honest t"
  shows "uint (cell t 5 8 0) = 0" "uint (cell t 5 9 0) = 0" "uint (cell t 5 8 1) = 0" "uint (cell t 5 9 1) = 1"
    "uint (cell t 0 8 0) = 0" "uint (cell t 0 9 0) = 0" "uint (cell t 0 8 1) = 0" "uint (cell t 0 9 1) = 2"
proof -
  have T: "tr_time_log (decode_row (row_cells t 5 0)) = 0" "tr_time_log (decode_row (row_cells t 5 1)) = 1"
    "tr_time_log (decode_row (row_cells t 0 0)) = 0" "tr_time_log (decode_row (row_cells t 0 1)) = 2"
    using assms unfolding honest_def by blast+
  note D = decoded_small [of t 5 0 0] decoded_small [of t 5 1 1] decoded_small [of t 0 0 0] decoded_small [of t 0 1 2]
  show "uint (cell t 5 8 0) = 0" "uint (cell t 5 9 0) = 0" "uint (cell t 5 8 1) = 0" "uint (cell t 5 9 1) = 1"
    "uint (cell t 0 8 0) = 0" "uint (cell t 0 9 0) = 0" "uint (cell t 0 8 1) = 0" "uint (cell t 0 9 1) = 2"
    using D unfolding T by simp_all
qed

lemma honest_first_row:
  assumes "honest t"
  shows "uint (bp_cols t ! 127 ! 0) = 0" "uint (bp_cols t ! 126 ! 0) = 1" "icell t 14 0 = -1"
    and "\<exists>k < 10. icell t (4 + k) 0 = 1"
proof -
  have i: "Suc 0 < 2 ^ 3" by simp
  obtain cs os where S: "shaped 3 t" "sorted_constraints (layout_of 3) (row_at (\<lambda>_ _ _. 0) (layout_of 3) t 0) = Some cs" "list_all holds cs"
    "original_constraints (layout_of 3) (row_at (\<lambda>_ _ _. 0) (layout_of 3) t 0) = Some os" "list_all holds os"
    by (rule row_facts [OF honest_shape(2) [OF assms] i])
  note T = honest_times [OF assms]
  note O = original_row [OF S(1) i S(4,5) refl refl refl refl refl]
  define hi lo where "hi = icell t 15 0" and "lo = icell t 16 0"
  have "lo - 1 - uint (bp_cols t ! 127 ! 0) = 0" "hi + lo = 1" "hi = 0 \<or> hi = 1"
    using O(3,5,7) T by (simp_all add: hi_def lo_def)
  then show "uint (bp_cols t ! 127 ! 0) = 0" using uint_ge_0 [of "bp_cols t ! 127 ! 0"] by linarith
  define d where "d = (\<lambda>j. uint (cell t 0 j (Suc 0)) - uint (cell t 0 j 0))"
  define s where "s = (\<lambda>j. icell t (3 + 1 + j) 0)"
  note F = sorted_row [OF S(1) i S(2,3) s_def d_def refl]
  obtain k where k: "k < 10" "s k = 1" "\<forall>j < 10. j \<noteq> k \<longrightarrow> s j = 0" "\<forall>j < k. d j = 0"
    "d k = 1 + uint (bp_cols t ! (42 * 3) ! 0)" by (rule first_difference [OF F(3-6)])
  then show "\<exists>k < 10. icell t (4 + k) 0 = 1" by (auto simp: s_def)
  have pos: "0 < d k" using k(5) uint_ge_0 [of "bp_cols t ! (42 * 3) ! 0"] by linarith
  have "\<not> k < 8"
  proof
    assume "k < 8"
    then have "tr_address (decode_row (row_cells t 0 0)) < tr_address (decode_row (row_cells t 0 (Suc 0)))"
      using limbs_increase [of k t 0 0 0 "Suc 0" 8, where 'a = 256] k(4) pos by (simp add: decode_row_def d_def)
    then show False using assms by (simp add: honest_def)
  qed
  then have "k = 8 \<or> k = 9" using k(1) by linarith
  moreover have d: "d 8 = 0" "d 9 = 2" using T by (simp_all add: d_def)
  ultimately have k9: "k = 9" using pos by auto
  then show "uint (bp_cols t ! 126 ! 0) = 1" using k(5) d(2) by simp
  have "tr_instruction (decode_row (row_cells t 0 (Suc 0))) = Read" using assms by (simp add: honest_def)
  then have "uint (cell t 0 20 (Suc 0)) = 0" by (simp add: decode_row_def split: if_splits)
  moreover have "s 8 + s 9 = 1" using k(2,3) k9 by simp
  ultimately show "icell t 14 0 = -1" using F(7) by simp
qed

lemma tampered_slacks:
  "test_tamper_original_time_slack_rejected Z = Some ()" "probe_tamper_sorted_slack_rejected Z = Some ()"
proof -
  have "41 \<noteq> bp_cols t ! 127 ! 0" "1234 \<noteq> bp_cols t ! 126 ! 0" if "honest t" for t
    using honest_first_row(1,2) [OF that] by auto
  then show "test_tamper_original_time_slack_rejected Z = Some ()" "probe_tamper_sorted_slack_rejected Z = Some ()"
    unfolding test_tamper_original_time_slack_rejected_def probe_tamper_sorted_slack_rejected_def
    by (intro tampered_rejected; simp add: set_cells live_bp)+
qed

lemma tampered_helper: "probe_tamper_w_helper_rejected Z = Some ()"
  unfolding probe_tamper_w_helper_rejected_def
proof (rule tampered_rejected)
  fix t assume t: "honest t"
  have len: "length (int_cols t ! 14) = 8" using honest_shape(3,5) [OF t] by (simp add: shaped_def)
  have first: "find (\<lambda>i. int_cols t ! 14 ! i = - 1) [0..<8] = Some 0"
    using honest_first_row(3) [OF t] by (simp add: upt_rec icell_def)
  have "icell t 14 0 \<noteq> 0" using honest_first_row(3) [OF t] by simp
  then have "\<not> uair_satisfied oob 3 (with_int t 14 0 0)" for oob by (intro live_int [OF t]) simp_all
  then show "\<exists>t'. (let w_col = int_switch (layout_of 3) - 3 in vec_get (int_cols t) w_col \<bind>
      (\<lambda>column. find (\<lambda>i. column ! i = - 1) [0..<length column] \<bind> (\<lambda>row. set_int_cell t w_col row 0))) = Some t' \<and>
      (\<forall>oob. \<not> uair_satisfied oob 3 t')"
    using honest_shape(5) [OF t] set_cells(2) [OF t, of 0 14 0] first by (simp add: vec_get_def len)
qed

lemma dead_switch: "probe_dead_switch_cell_is_unconstrained Z = Some ()"
proof -
  obtain t where t: "honest t" using honest_exists by blast
  have "stride 3 0 = 2" "bit (4 :: nat) 2" by (simp_all add: stride_def bit_iff_odd)
  then have "uair_satisfied oob 3 (with_int t 17 4 1)" for oob
    by (intro dead_int_free [OF honest_shape(1) [OF t]]) (simp_all add: dead_int_def)
  from prove_built [OF _ _ this] obtain p where "prove_from_uair_trace Z (with_int t 17 4 1) 3 = Some (Inr p)"
    "verify_memory_consistency Z p = Some (Inr ())" by (auto simp: MIN_NUM_VARS_def MAX_NUM_VARS_def)
  with t show ?thesis
    by (simp add: probe_dead_switch_cell_is_unconstrained_def honest_def layout3 expect_ok_def shl_one_def set_cells(2) [OF t])
qed

lemma moved_selector: "probe_move_selector_position_rejected Z = Some ()"
  unfolding probe_move_selector_position_rejected_def
proof (rule tampered_rejected)
  fix t assume t: "honest t"
  obtain k where k: "find (\<lambda>j. int_cell t (4 + j) 0 = Some 1) [0..<10] = Some k" "k < 10" "icell t (4 + k) 0 = 1"
  proof -
    have c: "int_cell t (4 + j) 0 = Some (icell t (4 + j) 0)" if "j < 10" for j using set_cells(3) [OF t, of 0 "4 + j"] that by simp
    obtain j where "j < 10" "int_cell t (4 + j) 0 = Some 1" using honest_first_row(4) [OF t] c by auto
    then have "find (\<lambda>j. int_cell t (4 + j) 0 = Some 1) [0..<10] \<noteq> None" by (auto simp: find_None_iff)
    then obtain k where k: "find (\<lambda>j. int_cell t (4 + j) 0 = Some 1) [0..<10] = Some k" by blast
    then have "k < 10" "int_cell t (4 + k) 0 = Some 1" by (auto simp: find_Some_iff)
    with that k c show thesis by simp
  qed
  define w where "w = (k + 1) mod 10"
  let ?t1 = "with_int t (4 + k) 0 0"
  let ?t2 = "with_int ?t1 (4 + w) 0 1"
  have wk: "w < 10" "w \<noteq> k" using k(2) by (auto simp: w_def mod_Suc)
  have sh: "shaped 3 ?t1" by (rule shaped_with(2) [OF honest_shape(3) [OF t]])
  have s1: "set_int_cell t (4 + k) 0 0 = Some ?t1" by (rule set_cells(2) [OF t]) (use k(2) in simp_all)
  have s2: "set_int_cell ?t1 (4 + w) 0 1 = Some ?t2"
    using sh wk(1) by (simp add: set_int_cell_def with_int_def [of ?t1] vec_get_def shaped_def)
  have "\<not> uair_satisfied oob 3 ?t2" for oob
  proof
    assume "uair_satisfied oob 3 ?t2"
    note sat = satisfied_rowsI [OF this]
    have "icell ?t2 (3 + 1 + k) 0 = icell t (3 + 1 + k) 0"
      by (rule selectors_determined [OF honest_shape(2) [OF t] sat]) (use k(2) in simp_all)
    moreover have "icell ?t2 (4 + k) 0 = 0"
      using changed_int [OF sh, of "4 + w" 0 1 "4 + k" 0] changed_int [OF honest_shape(3) [OF t], of "4 + k" 0 0 "4 + k" 0] wk k(2)
      by simp
    ultimately show False using k(3) by simp
  qed
  then show "\<exists>t'. (let num_lex = NUM_LEX_LIMBS; s0 = int_switch (layout_of 3) - 3 - num_lex; row = 0
      in find (\<lambda>j. int_cell t (s0 + j) row = Some 1) [0..<num_lex] \<bind>
         (\<lambda>k. let k_wrong = (k + 1) mod num_lex
               in set_int_cell t (s0 + k) row 0 \<bind> (\<lambda>uair_trace. set_int_cell uair_trace (s0 + k_wrong) row 1))) = Some t' \<and>
      (\<forall>oob. \<not> uair_satisfied oob 3 t')"
    using k(1) s1 s2 by (simp add: w_def)
qed

end

section \<open>Property\<close>

text \<open>The tests, in the order of the file.\<close>

definition zinc_tests :: "bool \<Rightarrow> ('proof, 'code, 'params) zinc_library \<Rightarrow> unit option list" where
  "zinc_tests chk Z =
    [test_consistent_trace_roundtrip Z, test_single_write_trace Z, test_time_gaps_accepted Z,
     test_nonzero_stack_depth_accepted Z, test_wide_addresses_and_values Z, test_power_of_two_length_trace Z,
     test_proof_serialization_roundtrip Z, test_read_before_any_write_rejected Z,
     test_read_of_unwritten_address_rejected Z, test_stale_read_value_rejected Z,
     test_wrong_read_value_high_limb_rejected Z, test_empty_trace_rejected Z, test_first_time_nonzero_rejected Z,
     test_time_decreasing_rejected Z, test_duplicated_access_rejected Z, test_same_time_different_address_rejected Z,
     test_time_log_overflow_rejected Z, test_tamper_original_trace_record_rejected Z,
     test_tamper_sorted_trace_record_rejected Z, test_tamper_interior_network_state_rejected Z,
     test_tamper_switch_bit_rejected Z, test_tamper_switch_bit_non_boolean_rejected Z,
     test_tamper_original_time_slack_rejected Z, test_nonzero_start_time_rejected_in_circuit chk Z,
     test_honest_witness_still_proves_after_helper_roundtrip Z, test_trace_too_long_rejected Z,
     test_error_display_is_informative, probe_tamper_w_helper_rejected Z, probe_tamper_sorted_slack_rejected Z,
     probe_move_selector_position_rejected Z, probe_dead_switch_cell_is_unconstrained Z,
     probe_early_max_address_padding_boundary_accepted Z]"

text \<open>
  C4: the tests that judge traces and corrupted witnesses pass with every lawful proof system and
  transcript, with and without overflow checks.
\<close>

theorem zinc_tests_pass:
  assumes "zinc_transcript Z"
  shows "zinc_tests chk Z = replicate 32 (Some ())"
proof -
  have Z: "zinc_system Z" using assms by (rule zinc_transcript.axioms(1))
  note traces = zinc_system.accepted_traces [OF Z] zinc_system.rejected_traces [OF Z] zinc_system.reported_traces [OF Z]
    zinc_system.wide_traces [OF Z] zinc_system.proof_tests [OF Z] zinc_system.too_long_test [OF Z]
    zinc_system.shifted_test [OF Z] zinc_system.test_display [OF Z] zinc_transcript.serialization_test [OF assms]
  note witnesses = zinc_system.tampered_states [OF Z] zinc_system.tampered_switches [OF Z] zinc_system.tampered_slacks [OF Z]
    zinc_system.tampered_helper [OF Z] zinc_system.dead_switch [OF Z] zinc_system.moved_selector [OF Z]
  show ?thesis by (simp only: zinc_tests_def traces witnesses) (simp add: numeral_eq_Suc)
qed

theorem zinc_tests_pass_witness:
  "test_stale_read_value_rejected ideal_zinc = Some () \<and> test_proof_serialization_roundtrip ideal_zinc = Some () \<and>
   test_tamper_switch_bit_rejected ideal_zinc = Some ()"
proof -
  have "replicate 32 (Some ()) = zinc_tests True ideal_zinc"
    by (rule zinc_tests_pass [OF ideal.zinc_transcript_axioms, symmetric])
  then have "\<forall>x \<in> set (zinc_tests True ideal_zinc). x = Some ()" by (metis in_set_replicate)
  then show ?thesis by (simp add: zinc_tests_def)
qed

end
