(* ===== verification/Folding_Tests.thy ===== *)
theory Folding_Tests
  imports Supernova_Circuit
begin

text \<open>
  The tests of the folding circuits (\<open>zkmemory/src/nova/testcases.rs\<close> and
  \<open>supernova/testcases.rs\<close>). The folding libraries are records of functions, whose steps may
  panic; what the tests rely on is that folding the steps of an honest prover, for circuits of
  the shape of the set-up and, in SuperNova, in the order of the program counter, does not
  panic and verifies exactly when the constraints of the steps hold. The secondary circuits of the tests are trivial and left out;
  the Poseidon specification of the tests is a parameter, so they pass with any lawful one.
\<close>

section \<open>Nova\<close>

record ('f, 'pp, 'ivc) nova_library =
  nl_setup :: "'f nova_circuit \<Rightarrow> string + 'pp"
  nl_new :: "'pp \<Rightarrow> 'f nova_circuit \<Rightarrow> 'f list \<Rightarrow> string + 'ivc"
  nl_prove_step :: "'pp \<Rightarrow> 'f nova_circuit \<Rightarrow> 'ivc \<Rightarrow> ((string + unit) \<times> 'ivc) option"
  nl_verify :: "'pp \<Rightarrow> 'ivc \<Rightarrow> nat \<Rightarrow> 'f list \<Rightarrow> string + 'f list"

text \<open>The steps an honest prover runs, each from the output of the one before.\<close>

fun ivc_chain ::
    "'f::field spec \<Rightarrow> 'f nova_circuit list \<Rightarrow> 'f list \<Rightarrow> ('f list \<times> ('f \<times> 'f \<times> 'f) list) option" where
  "ivc_chain S [] z = Some (z, [])"
| "ivc_chain S (c # cs) z = do {
     (z, new) \<leftarrow> nova_synthesize S c z;
     (z, rest) \<leftarrow> ivc_chain S cs z;
     Some (z, new @ rest) }"

definition same_shape :: "'f nova_circuit \<Rightarrow> 'f nova_circuit \<Rightarrow> bool" where
  "same_shape c d \<longleftrightarrow> nc_memory_len d = nc_memory_len c \<and> nc_num_iters d = nc_num_iters c"

locale nova_ivc =
  fixes N :: "('f::field, 'pp, 'ivc) nova_library" and S :: "'f spec"
  assumes starts: "nova_synthesize S c z \<noteq> None \<Longrightarrow> \<exists>pp s. nl_setup N c = Inr pp \<and> nl_new N pp c z = Inr s"
    and folds: "nl_setup N c = Inr pp \<Longrightarrow> nl_new N pp c z = Inr s \<Longrightarrow> list_all (same_shape c) cs \<Longrightarrow>
      ivc_chain S (c # cs) z = Some (z', ks) \<Longrightarrow>
      \<exists>s'. loop_m (\<lambda>d s. map_option snd (nl_prove_step N pp d s)) (c # cs) s = Some s' \<and>
        (isl (nl_verify N pp s' (length (c # cs)) z) \<longleftrightarrow> \<not> r1cs_holds ks)"

text \<open>
  What every test does with its circuits, its first input and its number of steps: set up,
  start, prove the steps whatever they return, verify; the result is \<open>res.is_ok()\<close>.
\<close>

definition nova_run ::
    "('f::field, 'pp, 'ivc) nova_library \<Rightarrow> 'f nova_circuit list \<Rightarrow> 'f list \<Rightarrow> nat \<Rightarrow> bool option" where
  "nova_run N circuits z0 num_steps = do {
     c \<leftarrow> vec_get circuits 0;
     pp \<leftarrow> expect_ok (nl_setup N c);
     s \<leftarrow> expect_ok (nl_new N pp c z0);
     s \<leftarrow> loop_m (\<lambda>c s. map_option snd (nl_prove_step N pp c s)) circuits s;
     Some (\<not> isl (nl_verify N pp s num_steps z0)) }"

definition nova_test_commit :: "'f::field spec \<Rightarrow> 'f list \<Rightarrow> 'f option" where
  "nova_test_commit S mem = do { rt \<leftarrow> commit_outer S mem; vec_get rt 0 }"

definition test_memory_consistency_in_one_step ::
    "'f::field spec \<Rightarrow> ('f, 'pp, 'ivc) nova_library \<Rightarrow> unit option" where
  "test_memory_consistency_in_one_step S N = do {
     circuit_primary \<leftarrow> NovaCircuit_new 4 1 [0] [1] [1292001];
     commit \<leftarrow> nova_test_commit S [0, 0, 0, 0];
     is_ok \<leftarrow> nova_run N [circuit_primary] [0, 0, 0, 0, commit] 1;
     assert_ok is_ok }"

definition test_memory_consistency_in_two_steps ::
    "'f::field spec \<Rightarrow> ('f, 'pp, 'ivc) nova_library \<Rightarrow> unit option" where
  "test_memory_consistency_in_two_steps S N = do {
     circuit_primary \<leftarrow> NovaCircuit_new 4 2 [0, 0] [1, 0] [1292001, 1292001];
     commit \<leftarrow> nova_test_commit S [0, 0, 0, 0];
     is_ok \<leftarrow> nova_run N [circuit_primary] [0, 0, 0, 0, commit] 1;
     assert_ok is_ok }"

definition nova_test_invalid_instruction ::
    "'f::field spec \<Rightarrow> ('f, 'pp, 'ivc) nova_library \<Rightarrow> unit option" where
  "nova_test_invalid_instruction S N = do {
     circuit_primary \<leftarrow> NovaCircuit_new 4 1 [0] [2] [1292001];
     commit \<leftarrow> nova_test_commit S [0, 0, 0, 0];
     is_ok \<leftarrow> nova_run N [circuit_primary] [0, 0, 0, 0, commit] 1;
     assert_ok (\<not> is_ok) }"

definition nova_test_invalid_address ::
    "'f::field spec \<Rightarrow> ('f, 'pp, 'ivc) nova_library \<Rightarrow> unit option" where
  "nova_test_invalid_address S N = do {
     circuit_primary \<leftarrow> NovaCircuit_new 4 1 [5] [2] [1292001];
     commit \<leftarrow> nova_test_commit S [0, 0, 0, 0];
     is_ok \<leftarrow> nova_run N [circuit_primary] [0, 0, 0, 0, commit] 1;
     assert_ok (\<not> is_ok) }"

definition nova_test_invalid_read ::
    "'f::field spec \<Rightarrow> ('f, 'pp, 'ivc) nova_library \<Rightarrow> unit option" where
  "nova_test_invalid_read S N = do {
     circuit_primary \<leftarrow> NovaCircuit_new 4 1 [0] [0] [1292001];
     commit \<leftarrow> nova_test_commit S [0, 0, 0, 0];
     is_ok \<leftarrow> nova_run N [circuit_primary] [0, 0, 0, 0, commit] 1;
     assert_ok (\<not> is_ok) }"

definition nova_test_invalid_read_part_two ::
    "'f::field spec \<Rightarrow> ('f, 'pp, 'ivc) nova_library \<Rightarrow> unit option" where
  "nova_test_invalid_read_part_two S N = do {
     circuit_primary \<leftarrow> NovaCircuit_new 4 2 [0, 0] [1, 0] [1292001, 0];
     commit \<leftarrow> nova_test_commit S [0, 0, 0, 0];
     is_ok \<leftarrow> nova_run N [circuit_primary] [0, 0, 0, 0, commit] 1;
     assert_ok (\<not> is_ok) }"

definition nova_test_invalid_commitment ::
    "'f::field spec \<Rightarrow> ('f, 'pp, 'ivc) nova_library \<Rightarrow> unit option" where
  "nova_test_invalid_commitment S N = do {
     circuit_primary \<leftarrow> NovaCircuit_new 4 1 [0] [0] [1292001];
     is_ok \<leftarrow> nova_run N [circuit_primary] [0, 0, 0, 0, field_from_u64 99] 1;
     assert_ok (\<not> is_ok) }"

definition test_memory_consistency_in_four_step ::
    "'f::field spec \<Rightarrow> ('f, 'pp, 'ivc) nova_library \<Rightarrow> unit option" where
  "test_memory_consistency_in_four_step S N = do {
     let address = [0, 1, 2, 3];
     let instruction = [1, 0, 1, 0];
     let val = [1292001, 0, 1292001, 0];
     circuit_primary \<leftarrow> those (map (\<lambda>i. do {
       a \<leftarrow> those (map (vec_get address) [2 * i..<2 * i + 2]);
       op \<leftarrow> those (map (vec_get instruction) [2 * i..<2 * i + 2]);
       v \<leftarrow> those (map (vec_get val) [2 * i..<2 * i + 2]);
       NovaCircuit_new 4 2 a op v }) [0..<2]);
     commit \<leftarrow> nova_test_commit S [0, 0, 0, 0];
     is_ok \<leftarrow> nova_run N circuit_primary [0, 0, 0, 0, commit] 2;
     assert_ok is_ok }"

section \<open>SuperNova\<close>

record ('f, 'pp, 'ivc) supernova_library =
  sl_setup :: "'f sn_circuit \<Rightarrow> 'pp"
  sl_new :: "'pp \<Rightarrow> 'f sn_circuit \<Rightarrow> 'f list \<Rightarrow> string + 'ivc"
  sl_prove_step :: "'pp \<Rightarrow> 'f sn_circuit \<Rightarrow> 'ivc \<Rightarrow> ((string + unit) \<times> 'ivc) option"
  sl_verify :: "'pp \<Rightarrow> 'ivc \<Rightarrow> 'f list \<Rightarrow> string + 'f list"

text \<open>
  The set-up makes its shapes from \<open>primary_circuit\<close>. Of a circuit of another arity, or one the
  program counter does not select, nothing is assumed: proving it may panic, as the test
  \<open>test_invalid_instruction\<close> expects.
\<close>

definition fits_setup :: "'f::field sn_circuit \<Rightarrow> bool" where
  "fits_setup c \<longleftrightarrow> map_option sn_arity (primary_circuit (circuit_index c) :: 'f sn_circuit option) = Some (sn_arity c)"

locale supernova_ivc =
  fixes N :: "('f::field, 'pp, 'ivc) supernova_library" and S :: "'f spec"
  assumes starts: "fits_setup c \<Longrightarrow> sn_synthesize S c z \<noteq> None \<Longrightarrow> \<exists>s. sl_new N (sl_setup N c) c z = Inr s"
    and folds: "sl_new N (sl_setup N c) c z = Inr s \<Longrightarrow> list_all fits_setup (c # cs) \<Longrightarrow>
      loop_m (sn_run_step S) (c # cs) (z, [], []) = Some (z', pcs, ks) \<Longrightarrow> selected 0 (c # cs) pcs \<Longrightarrow>
      \<exists>s'. loop_m (\<lambda>d s. map_option snd (sl_prove_step N (sl_setup N c) d s)) (c # cs) s = Some s' \<and>
        (isl (sl_verify N (sl_setup N c) s' z) \<longleftrightarrow> \<not> r1cs_holds ks)"

definition supernova_run ::
    "('f::field, 'pp, 'ivc) supernova_library \<Rightarrow> 'f list \<Rightarrow> u64 list \<Rightarrow> u64 list \<Rightarrow> u64 list \<Rightarrow> nat \<Rightarrow>
     bool option" where
  "supernova_run N z0_primary address val instruction memory_size = do {
     let num_steps = length address;
     circuits \<leftarrow> Supernova_new z0_primary address val instruction num_steps memory_size;
     circuit_primary \<leftarrow> vec_get circuits 0;
     let pp = sl_setup N circuit_primary;
     s \<leftarrow> expect_ok (sl_new N pp circuit_primary z0_primary);
     s \<leftarrow> loop_m (\<lambda>c s. map_option snd (sl_prove_step N pp c s)) (take (num_steps + 1) circuits) s;
     Some (\<not> isl (sl_verify N pp s z0_primary)) }"

definition supernova_test_commit :: "'f::field spec \<Rightarrow> 'f list \<Rightarrow> 'f option" where
  "supernova_test_commit S mem = do { rt \<leftarrow> commit_outer S mem; vec_get rt 0 }"

definition supernova_test_memory_consistency ::
    "'f::field spec \<Rightarrow> ('f, 'pp, 'ivc) supernova_library \<Rightarrow> unit option" where
  "supernova_test_memory_consistency S N = do {
     let mem = map field_from_u64 [0, 0, 0, 0];
     commit \<leftarrow> supernova_test_commit S mem;
     is_ok \<leftarrow> supernova_run N (mem @ [commit]) [0, 0, 2, 2, 3, 3, 1, 1, 0, 1] [0, 3, 5, 5, 0, 7, 4, 4, 7, 4]
       [1, 1, 1, 0, 0, 1, 1, 0, 1, 0, 2] (length mem);
     assert_ok is_ok }"

definition test_memory_consistency_read_only ::
    "'f::field spec \<Rightarrow> ('f, 'pp, 'ivc) supernova_library \<Rightarrow> unit option" where
  "test_memory_consistency_read_only S N = do {
     let mem = map field_from_u64 [0, 0, 0, 0];
     commit \<leftarrow> supernova_test_commit S mem;
     is_ok \<leftarrow> supernova_run N (mem @ [commit]) [0, 0, 1, 2, 3] [0, 0, 0, 0, 0] [0, 0, 0, 0, 0, 2] (length mem);
     assert_ok is_ok }"

definition test_memory_consistency_write_only ::
    "'f::field spec \<Rightarrow> ('f, 'pp, 'ivc) supernova_library \<Rightarrow> unit option" where
  "test_memory_consistency_write_only S N = do {
     let mem = map field_from_u64 [0, 0, 0, 0];
     commit \<leftarrow> supernova_test_commit S mem;
     is_ok \<leftarrow> supernova_run N (mem @ [commit]) [0, 3, 1, 2] [4, 5, 6, 7] [1, 1, 1, 1, 2] (length mem);
     assert_ok is_ok }"

definition supernova_test_invalid_read ::
    "'f::field spec \<Rightarrow> ('f, 'pp, 'ivc) supernova_library \<Rightarrow> unit option" where
  "supernova_test_invalid_read S N = do {
     let mem = map field_from_u64 [0, 0, 0, 0];
     commit \<leftarrow> supernova_test_commit S mem;
     is_ok \<leftarrow> supernova_run N (mem @ [commit]) [0, 0] [4, 3] [1, 0, 2] (length mem);
     assert_ok (\<not> is_ok) }"

definition supernova_test_invalid_commitment ::
    "'f::field spec \<Rightarrow> ('f, 'pp, 'ivc) supernova_library \<Rightarrow> unit option" where
  "supernova_test_invalid_commitment S N = do {
     let mem = map field_from_u64 [0, 0, 0, 0];
     let commit = field_from_u64 0;
     is_ok \<leftarrow> supernova_run N (mem @ [commit]) [0] [4] [0, 2] (length mem);
     assert_ok (\<not> is_ok) }"

section \<open>Facts\<close>

lemma field_from_zero [simp]: "field_from_u64 0 = (0 :: 'f::field)"
  by (simp add: field_from_u64_def)

lemma test_commits: "nova_test_commit S mem = memory_commit S mem" "supernova_test_commit S mem = memory_commit S mem"
  by (simp_all add: nova_test_commit_def supernova_test_commit_def memory_commit_def)

lemma field_from_eqs:
  assumes "wide_field TYPE('f::field) (2 ^ 64)"
  shows "(field_from_u64 x = (field_from_u64 y :: 'f)) \<longleftrightarrow> x = y" "(field_from_u64 x = (0 :: 'f)) \<longleftrightarrow> x = 0"
    "(0 = (field_from_u64 x :: 'f)) \<longleftrightarrow> x = 0"
  using field_from_u64_inj [OF assms, of x y] field_from_u64_inj [OF assms, of x 0] by auto

lemma four: "Suc (Suc (Suc (Suc 0))) = 4"
  by simp

locale nova_tests = nova_ivc N S
  for N :: "('f::field, 'pp, 'ivc) nova_library" and S :: "'f spec" +
  assumes wide: "wide_field TYPE('f) (2 ^ 64)" and spec: "spec_ok S"
begin

lemma commits: obtains z where "memory_commit S [0, 0, 0, 0] = Some z"
  using memory_commit_total [OF spec, of "[0, 0, 0, 0]"] by auto

text \<open>A run verifies exactly when the constraints of its chain hold.\<close>

lemma run_chain:
  assumes "ivc_chain S (c # cs) z = Some (z', ks)" "list_all (same_shape c) cs"
  shows "nova_run N (c # cs) z (length (c # cs)) = Some (r1cs_holds ks)"
proof -
  have "nova_synthesize S c z \<noteq> None" using assms(1) by (auto split: bind_splits)
  then obtain pp s where s: "nl_setup N c = Inr pp" "nl_new N pp c z = Inr s" using starts by blast
  show ?thesis using folds [OF s assms(2,1)] by (auto simp: nova_run_def vec_get_def s expect_ok_def simp del: loop_m.simps)
qed

lemma run_one:
  assumes "length address = Suc k" "length instruction = Suc k" "length val = Suc k"
  shows "\<exists>c. NovaCircuit_new 4 (Suc k) address instruction val = Some c \<and>
    nova_run N [c] [0, 0, 0, 0, z] 1 = Some (memory_commit S [0, 0, 0, 0] = Some z \<and>
      memory_run [0, 0, 0, 0 :: 'f] (zip address (zip instruction val)) \<noteq> None)"
proof -
  let ?mem = "[0, 0, 0, 0] :: 'f list"
  obtain c :: "'f nova_circuit" where c: "NovaCircuit_new (length ?mem) (Suc k) address instruction val = Some c"
    using NovaCircuit_new_ok [OF assms] by blast
  obtain z_out cs where syn: "nova_synthesize S c (?mem @ [z]) = Some (z_out, cs)"
    "r1cs_holds cs \<longleftrightarrow> memory_commit S ?mem = Some z \<and> memory_run ?mem (zip address (zip instruction val)) \<noteq> None"
    using nova_step_aux [OF wide spec _ _ _ assms c, of z] by auto
  have "ivc_chain S [c] [0, 0, 0, 0, z] = Some (z_out, cs)" using syn(1) by simp
  from run_chain [OF this] syn(2) c show ?thesis by (auto simp: numeral_eq_Suc)
qed

text \<open>A test of one circuit and the honest commitment: whether the accesses run on a zero memory.\<close>

lemma single:
  assumes "length address = Suc k" "length instruction = Suc k" "length val = Suc k"
  shows "Option.bind (NovaCircuit_new 4 (Suc k) address instruction val) (\<lambda>c.
      Option.bind (nova_test_commit S [0, 0, 0, 0]) (\<lambda>z. Option.bind (nova_run N [c] [0, 0, 0, 0, z] 1) g)) =
    g (memory_run [0, 0, 0, 0 :: 'f] (zip address (zip instruction val)) \<noteq> None)"
proof -
  obtain z where z: "memory_commit S [0, 0, 0, 0] = Some z" by (rule commits)
  show ?thesis using run_one [OF assms, of z] z by (auto simp: test_commits)
qed

lemmas one_record = single [where k = 0, simplified]
lemmas two_records = single [where k = 1, simplified, folded numeral_2_eq_2]
lemmas test_simps = assert_ok_def field_from_eqs [OF wide]

lemma single_tests:
  "test_memory_consistency_in_one_step S N = Some ()"
  "test_memory_consistency_in_two_steps S N = Some ()"
  "nova_test_invalid_instruction S N = Some ()"
  "nova_test_invalid_address S N = Some ()"
  "nova_test_invalid_read S N = Some ()"
  "nova_test_invalid_read_part_two S N = Some ()"
  by (simp_all add: one_record two_records test_simps test_memory_consistency_in_one_step_def
      test_memory_consistency_in_two_steps_def nova_test_invalid_instruction_def nova_test_invalid_address_def
      nova_test_invalid_read_def nova_test_invalid_read_part_two_def)

lemma invalid_commitment: "nova_test_invalid_commitment S N = Some ()"
  using run_one [of "[0]" 0 "[0]" "[1292001]" "field_from_u64 99"] by (auto simp: nova_test_invalid_commitment_def test_simps)

text \<open>The second step starts from the output of the first.\<close>

lemma four_step: "test_memory_consistency_in_four_step S N = Some ()"
proof -
  let ?mem = "[0, 0, 0, 0] :: 'f list" and ?x = "field_from_u64 1292001 :: 'f"
  obtain z where z: "memory_commit S ?mem = Some z" by (rule commits)
  obtain c1 :: "'f nova_circuit" where c1: "NovaCircuit_new 4 2 [0, 1] [1, 0] [1292001, 0] = Some c1"
    using NovaCircuit_new_ok [of "[0, 1]" 2 "[1, 0]" "[1292001, 0]" 4] by auto
  obtain c2 :: "'f nova_circuit" where c2: "NovaCircuit_new 4 2 [2, 3] [1, 0] [1292001, 0] = Some c2"
    using NovaCircuit_new_ok [of "[2, 3]" 2 "[1, 0]" "[1292001, 0]" 4] by auto
  have four: "length [a, b, c, d :: 'f] = 4" for a b c d by simp
  obtain z1 cs1 c' where s1: "nova_synthesize S c1 [0, 0, 0, 0, z] = Some ([?x, 0, 0, 0, c'], cs1)" "r1cs_holds cs1"
      "memory_commit S [?x, 0, 0, 0] = Some c'"
    using nova_step_aux [OF wide spec, of ?mem 2 "[0, 1]" "[1, 0]" "[1292001, 0]" c1 z] z unfolding four by (auto simp: test_simps c1)
  obtain z2 cs2 where s2: "nova_synthesize S c2 [?x, 0, 0, 0, c'] = Some (z2, cs2)" "r1cs_holds cs2"
    using nova_step_aux [OF wide spec, of "[?x, 0, 0, 0]" 2 "[2, 3]" "[1, 0]" "[1292001, 0]" c2 c'] s1(3) unfolding four by (auto simp: test_simps c2)
  have chain: "ivc_chain S [c1, c2] [0, 0, 0, 0, z] = Some (z2, cs1 @ cs2)" by (simp add: s1(1) s2(1))
  have shapes: "same_shape c1 c2"
    using c1 c2 NovaCircuit_new_ok [of "[0, 1]" 2 "[1, 0]" "[1292001, 0]" 4, where 'f = 'f]
      NovaCircuit_new_ok [of "[2, 3]" 2 "[1, 0]" "[1292001, 0]" 4, where 'f = 'f] by (auto simp: same_shape_def)
  have run: "nova_run N [c1, c2] [0, 0, 0, 0, z] 2 = Some True"
    using run_chain [OF chain] s1(2) s2(2) shapes by (simp add: r1cs_holds_append numeral_2_eq_2)
  show ?thesis
    by (simp add: test_memory_consistency_in_four_step_def upt_rec vec_get_def c1 c2 z test_commits run assert_ok_def)
qed

end

text \<open>The counters of a run are the instructions that follow, so a run of reads and writes is selected.\<close>

fun next_instruction :: "'f sn_circuit \<Rightarrow> 'f" where
  "next_instruction (ReadCircuit x) = the (sc_next_instruction x)"
| "next_instruction (WriteCircuit x) = the (sc_next_instruction x)"

lemma synthesize_counter: "sn_synthesize S c z = Some (pc, z', new) \<Longrightarrow> pc = next_instruction c"
  by (cases c) (auto simp: read_synthesize_def write_synthesize_def read_assign_def write_assign_def Let_def bind_eq_Some_conv)

lemma run_counters_from:
  "loop_m (sn_run_step S) cs (z, pcs, ks) = Some (z', pcs', ks') \<Longrightarrow> pcs' = pcs @ map next_instruction cs"
proof (induction cs arbitrary: z pcs ks)
  case (Cons c cs)
  then obtain pc z1 new where "sn_synthesize S c z = Some (pc, z1, new)"
    "loop_m (sn_run_step S) cs (z1, pcs @ [pc], ks @ new) = Some (z', pcs', ks')"
    by (auto simp: sn_run_step_def [of S c] bind_eq_Some_conv)
  then show ?case using Cons.IH synthesize_counter by fastforce
qed simp

lemmas run_counters = run_counters_from [where pcs = "[]", simplified]

lemma selected_circuits:
  assumes "list_all (\<lambda>(a, op, v). op = 0 \<or> op = 1) ops"
  shows "selected (field_from_u64 (next_op ops) :: 'f::field) (sn_circuits_of n ops) (map next_instruction (sn_circuits_of n ops))"
  using assms by (induction ops) (auto simp: sn_circuit_of_def field_from_u64_def)

lemma fits_setup_circuits: "list_all fits_setup (sn_circuits_of 4 ops :: 'f::field sn_circuit list)"
  by (induction ops)
    (auto simp: sn_circuit_of_def fits_setup_def primary_circuit_def read_arity_def write_arity_def split: prod.split)

locale supernova_tests = supernova_ivc N S
  for N :: "('f::field, 'pp, 'ivc) supernova_library" and S :: "'f spec" +
  assumes wide: "wide_field TYPE('f) (2 ^ 64)" and spec: "spec_ok S"
begin

lemma run_trace:
  assumes "length instruction = Suc (length address)" "length val = length address" "last instruction = 2"
    and "list_all (\<lambda>op. op = 0 \<or> op = 1) (butlast instruction)"
  shows "supernova_run N [0, 0, 0, 0, z] address val instruction 4 = Some (memory_commit S [0, 0, 0, 0] = Some z \<and>
    memory_run [0, 0, 0, 0 :: 'f] (zip address (zip instruction val)) \<noteq> None)"
proof -
  let ?mem = "[0, 0, 0, 0] :: 'f list" and ?k = "length address"
  obtain ops where ops: "instruction = ops @ [2]" "length ops = ?k"
    using assms(1,3) by (cases instruction rule: rev_cases) auto
  have four: "length ?mem = 4" by simp
  let ?acc = "zip address (zip ops val)"
  let ?c = "ReadCircuit \<lparr>sc_trace = Some \<lparr>sr_address = field_from_u64 0, sr_value = hd ?mem\<rparr>,
      sc_next_instruction = Some (field_from_u64 (next_op ?acc)), sc_memory_size = Some 4\<rparr>"
  let ?cs = "sn_circuits_of 4 ?acc"
  have new: "Supernova_new (?mem @ [z]) address val (ops @ [2]) ?k (length ?mem) = Some (?c # ?cs)"
    using Supernova_new_ok [of address ?k ops val ?mem z "length ?mem"] ops(2) assms(2) unfolding four by simp
  have len: "length ?cs = ?k" using ops(2) assms(2) by simp
  obtain z_out pcs ks where run: "loop_m (sn_run_step S) (?c # ?cs) (?mem @ [z], [], []) = Some (z_out, pcs, ks)"
    and ok: "r1cs_holds ks \<and> selected 0 (?c # ?cs) pcs \<longleftrightarrow> memory_commit S ?mem = Some z \<and> memory_run ?mem ?acc \<noteq> None"
    using supernova_aux [OF wide spec _ _ refl ops(2) assms(2) new] by auto
  have known: "list_all (\<lambda>(a, op, v). op = 0 \<or> op = 1) ?acc"
    using assms(4) ops by (auto simp: list_all_iff dest!: set_zip_rightD [THEN set_zip_leftD])
  have sel: "selected 0 (?c # ?cs) pcs"
    using run_counters [OF run] selected_circuits [OF known] by simp
  have fit: "list_all fits_setup (?c # ?cs)"
    by (simp add: fits_setup_circuits) (simp add: fits_setup_def primary_circuit_def read_arity_def)
  have "sn_synthesize S ?c (?mem @ [z]) \<noteq> None" using run by (auto simp: sn_run_step_def split: bind_splits)
  then obtain s where s: "sl_new N (sl_setup N ?c) ?c (?mem @ [z]) = Inr s" using starts fit unfolding list.pred_inject(2) by blast
  have zips: "zip address (zip instruction val) = ?acc" using ops assms(2) by (simp add: zip_append1)
  show ?thesis
    using folds [OF s fit run sel] new s len ok sel unfolding zips four
    by (auto simp: supernova_run_def ops(1) vec_get_def expect_ok_def Let_def simp del: loop_m.simps)
qed

lemma trials:
  "supernova_test_memory_consistency S N = Some ()"
  "test_memory_consistency_read_only S N = Some ()"
  "test_memory_consistency_write_only S N = Some ()"
  "supernova_test_invalid_read S N = Some ()"
  "supernova_test_invalid_commitment S N = Some ()"
proof -
  obtain z where z: "memory_commit S [0, 0, 0, 0] = Some z" using memory_commit_total [OF spec, of "[0, 0, 0, 0]"] by auto
  note simps = run_trace test_commits z four assert_ok_def field_from_eqs [OF wide]
  show "supernova_test_memory_consistency S N = Some ()" by (simp add: supernova_test_memory_consistency_def simps)
  show "test_memory_consistency_read_only S N = Some ()" by (simp add: test_memory_consistency_read_only_def simps)
  show "test_memory_consistency_write_only S N = Some ()" by (simp add: test_memory_consistency_write_only_def simps)
  show "supernova_test_invalid_read S N = Some ()" by (simp add: supernova_test_invalid_read_def simps)
  show "supernova_test_invalid_commitment S N = Some ()" by (simp add: supernova_test_invalid_commitment_def simps)
qed

end

section \<open>Libraries that check\<close>

text \<open>
  Libraries whose proof is the list of the circuits proved so far, and that verify by running
  them; they keep the laws the tests rely on.
\<close>

definition checking_nova :: "'f::field spec \<Rightarrow> ('f, unit, 'f nova_circuit list) nova_library" where
  "checking_nova S = \<lparr>
     nl_setup = \<lambda>c. Inr (),
     nl_new = \<lambda>pp c z. Inr [],
     nl_prove_step = \<lambda>pp c cs. Some (Inr (), cs @ [c]),
     nl_verify = \<lambda>pp cs n z. case ivc_chain S cs z of
       Some (z', ks) \<Rightarrow> if n = length cs \<and> r1cs_holds ks then Inr z' else Inl ''ProofVerifyError''
     | None \<Rightarrow> Inl ''ProofVerifyError''\<rparr>"

text \<open>The SuperNova library panics on a circuit that the counter does not select.\<close>

definition checking_supernova :: "'f::field spec \<Rightarrow> ('f, 'f sn_circuit, 'f sn_circuit list) supernova_library" where
  "checking_supernova S = \<lparr>
     sl_setup = \<lambda>c. c,
     sl_new = \<lambda>pp c z. Inr [],
     sl_prove_step = \<lambda>pp c cs.
       if selected 0 (cs @ [c]) (map next_instruction (cs @ [c])) then Some (Inr (), cs @ [c]) else panic,
     sl_verify = \<lambda>pp cs z. case loop_m (sn_run_step S) cs (z, [], []) of
       Some (z', pcs, ks) \<Rightarrow> if r1cs_holds ks then Inr z' else Inl ''ProofVerifyError''
     | None \<Rightarrow> Inl ''ProofVerifyError''\<rparr>"

lemma fold_snoc: "loop_m (\<lambda>d s. Some (s @ [d])) xs ys = Some (ys @ xs)"
  by (induction xs arbitrary: ys) auto

lemma selected_take:
  "selected pc (cs @ ds) (map next_instruction (cs @ ds)) \<Longrightarrow> selected pc cs (map next_instruction cs)"
  by (induction cs arbitrary: pc) auto

lemma fold_selected:
  assumes "selected 0 (ys @ xs) (map next_instruction (ys @ xs))"
  shows "loop_m (\<lambda>d s. map_option snd (sl_prove_step (checking_supernova S) pp d s)) xs ys = Some (ys @ xs)"
  using assms
proof (induction xs arbitrary: ys)
  case (Cons x xs)
  then have "selected 0 ((ys @ [x]) @ xs) (map next_instruction ((ys @ [x]) @ xs))" by simp
  then show ?case using Cons.IH [of "ys @ [x]"] selected_take [of 0 "ys @ [x]" xs] by (simp add: checking_supernova_def)
qed simp

interpretation checking_nova: nova_ivc "checking_nova S" S for S
  by unfold_locales (auto simp: checking_nova_def fold_snoc)

interpretation checking_supernova: supernova_ivc "checking_supernova S" S for S
proof
  fix c :: "'a sn_circuit" and z s cs z' pcs ks
  assume new: "sl_new (checking_supernova S) (sl_setup (checking_supernova S) c) c z = Inr s"
    and run: "loop_m (sn_run_step S) (c # cs) (z, [], []) = Some (z', pcs, ks)" and sel: "selected 0 (c # cs) pcs"
  have "s = []" using new by (simp add: checking_supernova_def)
  moreover have "pcs = map next_instruction (c # cs)" using run_counters [OF run] by simp
  then have "loop_m (\<lambda>d s. map_option snd (sl_prove_step (checking_supernova S) (sl_setup (checking_supernova S) c) d s)) (c # cs) []
      = Some (c # cs)" using fold_selected [of "[]" "c # cs"] sel by simp
  moreover have "isl (sl_verify (checking_supernova S) (sl_setup (checking_supernova S) c) (c # cs) z) \<longleftrightarrow> \<not> r1cs_holds ks"
    using run by (simp add: checking_supernova_def)
  ultimately show "\<exists>s'. loop_m (\<lambda>d s. map_option snd (sl_prove_step (checking_supernova S) (sl_setup (checking_supernova S) c) d s)) (c # cs) s = Some s' \<and>
      (isl (sl_verify (checking_supernova S) (sl_setup (checking_supernova S) c) s' z) \<longleftrightarrow> \<not> r1cs_holds ks)" by blast
qed (simp add: checking_supernova_def)

interpretation checked_nova: nova_tests "checking_nova small_spec" "small_spec :: rat spec"
  by unfold_locales (rule wide_field_rat small_spec_ok)+

interpretation checked_supernova: supernova_tests "checking_supernova small_spec" "small_spec :: rat spec"
  by unfold_locales (rule wide_field_rat small_spec_ok)+

section \<open>Property\<close>

definition nova_tests_of ::
    "'f::field spec \<Rightarrow> ('f, 'pp, 'ivc) nova_library \<Rightarrow> unit option list" where
  "nova_tests_of S N =
     [test_memory_consistency_in_one_step S N, test_memory_consistency_in_two_steps S N,
      test_memory_consistency_in_four_step S N, nova_test_invalid_instruction S N, nova_test_invalid_address S N,
      nova_test_invalid_read S N, nova_test_invalid_read_part_two S N, nova_test_invalid_commitment S N]"

definition supernova_tests_of ::
    "'f::field spec \<Rightarrow> ('f, 'pp, 'ivc) supernova_library \<Rightarrow> unit option list" where
  "supernova_tests_of S N =
     [supernova_test_memory_consistency S N, test_memory_consistency_read_only S N,
      test_memory_consistency_write_only S N, supernova_test_invalid_read S N, supernova_test_invalid_commitment S N]"

text \<open>
  C26: with folding libraries that fold circuits of the set-up's shape, selected by the program
  counter, without panic and verify exactly when the constraints of the steps hold, the eight
  tests of the Nova circuit and five of the six tests of the SuperNova circuits pass: the
  honest runs verify, and the runs with an invalid instruction, address, read or commitment do
  not. The sixth, \<open>test_invalid_instruction\<close> of SuperNova, expects a panic of the library on a
  step the program counter does not select, and is not claimed.
\<close>

theorem folding_tests_pass:
  fixes S :: "'f::field spec"
  assumes "wide_field TYPE('f) (2 ^ 64)" and "spec_ok S" and "nova_ivc N S" and "supernova_ivc N' S"
  shows "set (nova_tests_of S N) \<union> set (supernova_tests_of S N') = {Some ()}"
proof -
  have n: "nova_tests N S" using assms(1-3) by (simp add: nova_tests_def nova_tests_axioms_def)
  have s: "supernova_tests N' S" using assms(1,2,4) by (simp add: supernova_tests_def supernova_tests_axioms_def)
  show ?thesis
    by (simp add: nova_tests_of_def supernova_tests_of_def nova_tests.single_tests [OF n] nova_tests.four_step [OF n]
        nova_tests.invalid_commitment [OF n] supernova_tests.trials [OF s])
qed

theorem folding_tests_pass_witness:
  "test_memory_consistency_in_four_step small_spec (checking_nova (small_spec :: rat spec)) = Some () \<and>
   supernova_test_invalid_read small_spec (checking_supernova (small_spec :: rat spec)) = Some ()"
  using folding_tests_pass [OF wide_field_rat small_spec_ok checking_nova.nova_ivc_axioms checking_supernova.supernova_ivc_axioms]
  by (auto simp: nova_tests_of_def supernova_tests_of_def)

end
