(* ===== verification/Spec2Isabelle.thy ===== *)
theory Spec2Isabelle
  imports Machine_Stack Trace_Consistency Benes_Routing Backend Merkle_Tree
    Supernova_Circuit Node_Restart Halo2_Provers Composition
    Folding_Parameters Example_Programs Zinc_Tampering Folding_Tests
begin

text \<open>
  Orochimaru is a RAM machine whose memory accesses are recorded as a trace, a set of proof
  circuits that show such a trace consistent, commitments to memories, a verifiable random
  function, and an oracle that publishes its outputs. This development models these parts in
  HOL and proves what each promises.

  \<^bold>\<open>How the parts interact.\<close> \<open>zkmemory/src/machine.rs\<close> executes instructions and emits one
  trace record per cell access. A trace is consistent when every read returns the last value
  written to its address; every prover decides this by sorting the trace by address and
  time and looking at neighbours. The Zinc+ backend (\<open>zincplus/\<close>) encodes both orders and a
  Benes network between them as columns of bits and integers; the Halo2 backend
  (\<open>constraints/\<close>) encodes them as two tables of byte limbs and a shuffle argument;
  \<open>backend.rs\<close> hides both behind one trait. The Nova and SuperNova circuits fold the
  accesses one by one over a memory and its hash. The Poseidon hash of \<open>poseidon/\<close> is used
  by these, by the Merkle commitment and by the Verkle tree, whose nodes are polynomial
  commitments as those of \<open>commitment/kzg.rs\<close>. The oracle of \<open>node/\<close> runs the contract variant
  of the random function of \<open>libecvrf/\<close>, chains its outputs in a database and serves them.

  \<^bold>\<open>Theories and sources.\<close>
  \<^item> \<open>Prelude\<close>: results that may panic (option, \<open>None\<close> is a panic) or fail (sums), vectors,
    numerals in a base, loops over index ranges.
  \<^item> \<open>Base_Values\<close> (\<open>base.rs\<close>): a \<open>Base\<close> value is a machine word; arithmetic panics or wraps
    as the platform's overflow checks say; byte conversions.
  \<^item> \<open>Memory_Config\<close> (\<open>config.rs\<close>): sections and their allocation.
  \<^item> \<open>Ram_Machine\<close>, \<open>Machine_Invariant\<close>, \<open>Machine_Bytes\<close>, \<open>Machine_Exec\<close>, \<open>Machine_Correct\<close>,
    \<open>Machine_Stack\<close> (\<open>machine.rs\<close>, \<open>error.rs\<close>): the state machine as a record passed through its operations;
    the red-black tree crate is a parameter with the laws of the locale \<open>rbtree\<close>,
    interpreted on the library's red-black trees. The invariant of reachable machines, the
    bytes a write changes, the abstract instruction set and the refinement to it, the bounds
    of the stack. \<open>Machine_Programs\<close>: the image of a machine (its bytes, its stack depth and what
    the provers will say of its trace) and the run of a program on images, for operands that
    need not be aligned.
  \<^item> \<open>Example_Machine\<close>, \<open>Example_Programs\<close> (\<open>zkmemory/examples/\<close>): the machine of the examples and
    their three programs, run on images. The machines share the record \<open>machine\<close> of what
    \<open>AbstractContext\<close> gives access to and extend it by their registers.
  \<^item> \<open>Trace_Consistency\<close>: the specification of a consistent trace, and its equivalence with
    the check on the sorted trace (\<open>backend.rs\<close>).
  \<^item> \<open>Benes\<close>, \<open>Benes_Routing\<close> (\<open>zincplus/benes.rs\<close>): routing a permutation.
  \<^item> \<open>Uair_Layout\<close>, \<open>Uair_Constraints\<close>, \<open>Uair_Soundness\<close>, \<open>Uair_Witness\<close>,
    \<open>Uair_Completeness\<close>, \<open>Uair_Rows\<close>, \<open>Uair_Builder\<close>, \<open>Uair_Correct\<close>, \<open>Uair_Tamper\<close> (\<open>zincplus/uair.rs\<close>): the
    columns, the constraints as integer polynomials, and the witness builder. Constraints
    are read over the integers; a column shifted past the last row has an arbitrary value.
  \<^item> \<open>Zinc_Types\<close>, \<open>Zinc_Prover\<close> (\<open>zincplus/types.rs\<close>, \<open>prover.rs\<close>): the constants and the set-up of
    the commitment parameters; proofs, their bytes, the dispatch over the number of
    variables. The proof library is a record of functions with the locale \<open>zinc_system\<close>.
    \<open>Zinc_Tests\<close>, \<open>Zinc_Tampering\<close> (\<open>testcases.rs\<close>): the tests of the backend, as definitions that panic where the
    test would; the locale \<open>zinc_transcript\<close> adds the round trip of written proofs.
  \<^item> \<open>Plonk_Gadgets\<close>, \<open>Gadget_Facts\<close> (\<open>constraints/gadgets.rs\<close>, \<open>commitment/extends.rs\<close>):
    gates and lookups at a row over any field; \<open>wide_field\<close> states how large its
    characteristic must be.
  \<^item> \<open>Original_Circuit\<close>, \<open>Sorted_Circuit\<close>, \<open>Permutation_Circuit\<close>, \<open>Consistency_Circuit\<close>: the
    circuits of those names, the assignment of the prover and arbitrary assignments.
  \<^item> \<open>Backend\<close> (\<open>backend.rs\<close>): the trait as the locale \<open>memory_backend\<close>, instantiated by both
    backends.
  \<^item> \<open>Poseidon_Hash\<close>, \<open>Poseidon_Circuit\<close>, \<open>Poseidon_Chip\<close>, \<open>Poseidon_Permutation\<close>,
    \<open>Poseidon_Hash_Circuit\<close>, \<open>Poseidon_Constants\<close> (\<open>poseidon/src/\<close>): the sponge over any
    specification, its block-wise reference, the chip under arbitrary assignments, and the
    tables of the instance in use.
  \<^item> \<open>Commitment_Scheme\<close>, \<open>Merkle_Tree\<close> (\<open>commitment/merkle_tree.rs\<close>,
    \<open>commitment_scheme.rs\<close>): the trait as the locales \<open>opening_scheme\<close> and its extension
    \<open>commitment_scheme\<close>, the native Merkle commitment and its circuit.
  \<^item> \<open>Kzg_Commitment\<close>, \<open>Kzg_Correct\<close> (\<open>commitment/kzg.rs\<close>): polynomial commitments of trace
    records over a record of the library's functions with the laws \<open>kzg_laws\<close>, which hold of
    the exact library over the rationals.
  \<^item> \<open>Verkle_Circuit\<close>, \<open>Verkle_Correct\<close> (\<open>verkletree/src/circuit.rs\<close>), \<open>Memory_Verkle\<close>
    (\<open>commitment/verkle_tree.rs\<close>): the circuit, its synthesis and its constraints, the trees that
    are built for it, and the second copy of the circuit, which accepts the same.
  \<^item> \<open>Proof_System\<close>, \<open>Halo2_Provers\<close>: the key generation, proving and verification the provers
    call, and the provers of the Poseidon, the Merkle and the Verkle circuit.
  \<^item> \<open>Nova_Circuit\<close>, \<open>Supernova_Circuit\<close> (\<open>nova/\<close>, \<open>supernova/\<close>): rank-one constraints over
    the variables of a step, the prover's values for them, and the abstract run
    \<open>memory_run\<close> that both are compared with. \<open>Folding_Parameters\<close>: their Poseidon parameters,
    which are those of \<open>poseidon/\<close>. \<open>Folding_Tests\<close> (\<open>testcases.rs\<close> of both): their tests, over
    folding libraries with the laws \<open>nova_ivc\<close> and \<open>supernova_ivc\<close>.
  \<^item> \<open>Ecvrf\<close>, \<open>Ecvrf_Correct\<close> (\<open>libecvrf/src/\<close>): the random function over a record of curve
    functions; \<open>secp_ok\<close> lists the laws, and \<open>cusp\<close> is a model of them.
  \<^item> \<open>Node_Rpc\<close> (\<open>node/src/rpc.rs\<close>, \<open>jwt.rs\<close>, \<open>error.rs\<close>), \<open>Node_Store\<close> (\<open>postgres/\<close> and the
    migrations), \<open>Node_Epoch\<close> (\<open>ethereum.rs\<close>, \<open>evm.rs\<close>, \<open>table/randomness.rs\<close>), \<open>Node_Service\<close>
    (\<open>main.rs\<close>, \<open>quick_response.rs\<close>, \<open>cli.rs\<close>): the oracle, from the text of a request to the
    rows of its tables.
  \<^item> \<open>Node_Correct\<close>, \<open>Node_Requests\<close>, \<open>Node_Properties\<close>, \<open>Node_Restart\<close>: the runs of the oracle as a step
    relation on its database, their invariant in the locales \<open>epoch_node\<close> and \<open>live_node\<close>, and
    an instance of both over lists of rows.
  \<^item> \<open>Composition\<close>: what the machine promises the backends and the random function the oracle;
    the properties across components follow this header.

  \<^bold>\<open>What is shown.\<close> The machine keeps its invariant, implements byte-addressed memory and the
  abstract instruction set, and its traces are consistent up to reads of unwritten cells;
  whole programs run as they do on images, from which the verdicts of both backends on their
  traces follow. The programs of the examples run to their end, and the tests of the Zinc+
  backend and of the folding circuits pass.
  The network realizes every permutation. The UAIR is sound, and its builder produces a
  satisfying witness exactly for consistent traces and reports every malformed input; every
  cell of a satisfied trace is bound but the dead ones. Each
  Halo2 circuit accepts exactly the traces stated with it; the two backends agree where both
  apply. The Poseidon chip computes the native hash and no other value, the Merkle circuit
  the native root, the commitment binds. The folding circuits accept exactly the traces that
  run. Proofs of the random function verify, and a seed hashes to the even point above the
  first hash that has one. An opening of a trace record verifies for that record and
  no other; the Verkle circuit accepts exactly the opened chains of hashed commitments. In
  every run of the oracle the epochs of a receiver are numbered without a gap, each seed is
  the output before it, every record carries a proof the contract accepted, and only the
  holders of tokens change the tables, within their rights; an owner is served exactly when
  the proof of the next seed is accepted and repeats nothing. Across components: the trace of
  a reachable machine is proved by the Zinc+ backend exactly when no cell is read before it is
  written, and by the Halo2 backend under the conditions stated with it, the two foldings of a
  trace agree, and the epochs of a receiver are the orbit of its first seed.

  Some theorems state what the code does not guarantee: the sorted circuit ignores the most
  significant byte; the composed Halo2 circuit does not link its three parts; the Nova
  and SuperNova constraints leave the memory free; the root of an accepted Verkle circuit
  can be replaced; outputs of the ordinary random function
  follow from one another; a machine with the tail layout starts its stack in the memory
  section (\<open>new_stack_pointer\<close>); the swap of the example machines copies
  (\<open>example_swap_copies\<close>).

  \<^bold>\<open>Bounds and fuel.\<close> Squeezing the sponge has fuel 2: the second pass finds the words the
  permutation made, unless the rate is zero. Printing a number has as much fuel as the
  number. Retries of the random scalar and the loops of the memory hash terminate by
  measures. The search for a curve point may go on forever and is a partial function whose
  divergence is \<open>None\<close>. Words have the widths of the source; lengths and indices are natural
  numbers, which the source's \<open>usize\<close> holds for every vector that fits in memory.

  \<^bold>\<open>Assumptions on other code.\<close> \<open>sql_ok\<close> says what the statements of a database with the
  schema of the migrations do when they succeed, \<open>sql_up\<close> that they succeed when the schema
  allows it. A run of the oracle interleaves whole statements, and the transaction of an
  epoch counts as one, since it runs under the lock of the node. \<open>epoch_codecs_ok\<close> is the
  round trip of the hex and scalar encodings. \<open>kzg_laws\<close> and \<open>halo2_complete\<close> are the
  correctness of the commitment library for honest proofs and the completeness of the proof
  system; \<open>nova_ivc\<close> and \<open>supernova_ivc\<close> say that steps of the set-up's shape, in the order of the
  program counter, fold to a proof that verifies exactly when their constraints hold; \<open>roots_ok\<close>
  and \<open>lengths_ok\<close> are the square roots of the curve library and the lengths of its bytes; nothing is assumed of forged proofs.

  \<^bold>\<open>Not modelled.\<close> The proof systems behind the circuits (Halo2, Zinc+, Nova, SuperNova), the
  curve and hash libraries, the database, the emulated machine, the JSON, hex, base64 and HMAC
  crates, random number generators: they are parameters. The HTTP server around the handlers
  and the logging; the output of the examples. The tests of the Zinc+ backend that flip or cut the
  bytes of a proof, whose outcome rests on the transcript format of the crates, and the test of
  SuperNova that expects its library to panic. The types that \<open>zincplus/types.rs\<close> passes to the Zinc+ crates. The stub
  crates hold no logic.
\<close>

section \<open>From the machine to the backends\<close>

text \<open>
  C6: what the backends say of the trace of any machine reached over 256-bit words. The Zinc+
  backend reports an empty trace and one of 65536 records or more; any other it proves, with
  a proof that verifies, exactly when no read comes before the first write of its cell, and
  refuses otherwise. The Halo2 backend has a proof exactly when the circuit has the rows and
  the sorted trace is consistent in the low 31 bytes, which, where every recorded word leaves
  its top byte zero, means again that no read comes before the first write of its cell.
\<close>

theorem machine_run_proved:
  fixes P :: "('m, 't, 256 word, 256 word) platform" and E :: "'f::field halo2_env"
  assumes "rbtree P" and "Machine_Invariant.reachable P args s" and "zinc_system Z" and "good_env E"
  shows "(if machine_trace P s = [] then prove_memory_consistency Z (machine_trace P s) = Some (Inl EmptyTrace)
     else if 2 ^ 16 \<le> length (machine_trace P s) then prove_memory_consistency Z (machine_trace P s) = Some (Inl TraceTooLong)
     else if reads_initialised {} (machine_trace P s)
     then \<exists>p. prove_memory_consistency Z (machine_trace P s) = Some (Inr p) \<and> verify_memory_consistency Z p = Some (Inr ())
     else \<exists>msg. prove_memory_consistency Z (machine_trace P s) = Some (Inl (Prover msg))) \<and>
    ((\<exists>p. Halo2_prove E b (machine_trace P s) = Some (Inr p)) \<longleftrightarrow>
       circuit_fits (he_usable E (hb_k b)) (machine_trace P s) \<and> low_consistent (sort_trace_by_address_time (machine_trace P s))) \<and>
    (low_bounded (machine_trace P s) \<longrightarrow>
       (low_consistent (sort_trace_by_address_time (machine_trace P s)) \<longleftrightarrow> reads_initialised {} (machine_trace P s)))"
proof -
  have inv: "machine_inv P s" by (rule rbtree.reachable_inv [OF assms(1,2)])
  show ?thesis using inv_zinc [OF inv assms(3)] inv_halo2_exact [OF inv assms(4)] by blast
qed

theorem machine_run_proved_witness:
  "\<exists>s p q. Machine_Invariant.reachable lib default_config s \<and> machine_trace lib s = [TraceRecord_new 0 0 Write 0 5] \<and>
     prove_memory_consistency checking_zinc (machine_trace lib s) = Some (Inr p) \<and>
     verify_memory_consistency checking_zinc p = Some (Inr ()) \<and>
     Halo2_prove mock_env \<lparr>hb_k = 10\<rparr> (machine_trace lib s) = Some (Inr q)"
proof -
  obtain s where s: "Machine_Invariant.reachable lib default_config s" "machine_trace lib s = [TraceRecord_new 0 0 Write 0 5]"
    by (rule written_machine)
  have "circuit_fits (he_usable mock_env (hb_k \<lparr>hb_k = 10\<rparr>)) (machine_trace lib s)"
    using written_trace(3) by (simp add: mock_env_def s(2))
  with machine_run_proved [OF rbt_platform_law s(1) checker.zinc_system_axioms mock.good(1), of "\<lparr>hb_k = 10\<rparr>"] s written_trace
  show ?thesis by auto
qed

text \<open>
  C13: what becomes of a program is computed without running it: from a new machine with the
  head layout it panics exactly when \<open>image_run\<close> does, and otherwise the image it reaches
  tells what both backends answer on its trace: the Zinc+ backend proves it, with a proof
  that verifies, exactly when it is not empty, not too long, and reads no cell before
  writing it, and so does the Halo2 backend when the circuit has the rows and every recorded
  word leaves its top byte zero.
\<close>

theorem program_proved:
  fixes P :: "('m, 't, 256 word, 256 word) platform" and E :: "'f::field halo2_env"
  assumes "rbtree P" and "StateMachine_new P args = Some s" and "fits_layout TYPE(256) args"
    and "8 * length is < 2 ^ 64" and "list_all (operands_ok WORD_SIZE) is" and "zinc_system Z" and "good_env E"
  shows "case image_run (overflow_checks P) (memory_allocated s) (arg_stack_depth args) WORD_SIZE is empty_image of
      None \<Rightarrow> exec_program P is s = None
    | Some I \<Rightarrow> \<exists>s'. exec_program P is s = Some s' \<and>
        (if im_records I = 0 then prove_memory_consistency Z (machine_trace P s') = Some (Inl EmptyTrace)
         else if 2 ^ 16 \<le> im_records I then prove_memory_consistency Z (machine_trace P s') = Some (Inl TraceTooLong)
         else if im_clean I
         then \<exists>p. prove_memory_consistency Z (machine_trace P s') = Some (Inr p) \<and> verify_memory_consistency Z p = Some (Inr ())
         else \<exists>msg. prove_memory_consistency Z (machine_trace P s') = Some (Inl (Prover msg))) \<and>
        (im_low I \<and> 2 * max (im_records I) 256 \<le> he_usable E (hb_k b) \<longrightarrow>
          ((\<exists>p. Halo2_prove E b (machine_trace P s') = Some (Inr p)) \<longleftrightarrow> im_clean I))"
proof -
  note run = new_program_image [OF assms(1-5)]
  show ?thesis
  proof (cases "exec_program P is s")
    case None
    then show ?thesis using run by simp
  next
    case (Some s')
    then have "machine_inv P s'"
      using rbtree.reachable_inv [OF assms(1) reachable_program [OF assms(2)]] by blast
    note verdict = image_verdict [OF this assms(6,7) refl, of b]
    have "image_run (overflow_checks P) (memory_allocated s) (arg_stack_depth args) WORD_SIZE is empty_image = Some (image_of P s')"
      using run Some by simp
    then show ?thesis by (simp only: option.case) (rule exI [of _ s'], rule conjI [OF Some verdict])
  qed
qed

theorem program_proved_witness:
  "\<exists>s' p. exec_program lib [I_Write 35841 7, I_Read 35841] (default_machine lib) = Some s' \<and>
     prove_memory_consistency checking_zinc (machine_trace lib s') = Some (Inr p) \<and>
     verify_memory_consistency checking_zinc p = Some (Inr ())"
proof -
  let ?p = "[I_Write 35841 7, I_Read 35841] :: (256 word, 256 word) instruction list"
  have ok: "list_all (operands_ok WORD_SIZE) ?p" "8 * length ?p < 2 ^ 64" by (simp_all add: operands_ok_def WORD_SIZE_def)
  define q where "q = ?p"
  obtain I where I: "image_run True (Section 35840 base_MAX) 1024 32 ?p empty_image = Some I" "im_records I = 4" "im_clean I"
    by (simp add: image_guard_def contain_def base_MAX_def image_write_def image_read_def touched_def empty_image_def)
  have "image_run (overflow_checks lib) (memory_allocated (default_machine lib)) (arg_stack_depth default_config) WORD_SIZE q empty_image = Some I"
    unfolding default_frame q_def by (rule I(1))
  with program_proved [OF rbt_platform_law [of True] new_default_machine default_fits ok(2,1) [folded q_def]
      checker.zinc_system_axioms mock.good(1), of undefined] I(2,3)
  show ?thesis unfolding q_def [symmetric] by auto
qed

section \<open>Folding a trace in two ways\<close>

text \<open>
  C25: the Nova step over a whole trace and the SuperNova circuits of the same trace, each
  with the Poseidon parameters of its own file, accept the same inputs, and what they then
  output is the same memory with the same commitment.
\<close>

theorem folding_agree:
  fixes mem :: "'f::field list"
  assumes "wide_field TYPE('f) (2 ^ 64)" and "mem \<noteq> []" and "length mem \<le> 2 ^ 64"
    and "0 < k" and "length address = k" and "length instruction = k" and "length value = k"
    and "NovaCircuit_new (length mem) k address instruction value = Some c"
    and "Supernova_new (mem @ [z]) address value (instruction @ [2]) k (length mem) = Some circuits"
  shows "\<exists>z1 cs1 z2 pcs cs2. nova_synthesize nova_OrchardNullifierScalar c (mem @ [z]) = Some (z1, cs1) \<and>
    loop_m (sn_run_step supernova_OrchardNullifierScalar) circuits (mem @ [z], [], []) = Some (z2, pcs, cs2) \<and>
    (r1cs_holds cs1 \<longleftrightarrow> r1cs_holds cs2 \<and> selected 0 circuits pcs) \<and> (r1cs_holds cs1 \<longrightarrow> z1 = z2)"
proof -
  obtain z1 cs1 where n: "nova_synthesize nova_OrchardNullifierScalar c (mem @ [z]) = Some (z1, cs1)"
    "r1cs_holds cs1 \<longleftrightarrow> memory_commit OrchardNullifier_fr mem = Some z \<and> memory_run mem (zip address (zip instruction value)) \<noteq> None"
    "r1cs_holds cs1 \<longrightarrow> (\<exists>mem' c'. memory_run mem (zip address (zip instruction value)) = Some mem' \<and>
       memory_commit OrchardNullifier_fr mem' = Some c' \<and> z1 = mem' @ [c'])"
    using nova_step_aux [OF assms(1) orchard_fr_spec_ok assms(2-8), of z] by auto
  obtain z2 pcs cs2 where m: "loop_m (sn_run_step supernova_OrchardNullifierScalar) circuits (mem @ [z], [], []) = Some (z2, pcs, cs2)"
    "r1cs_holds cs2 \<and> selected 0 circuits pcs \<longleftrightarrow>
       memory_commit OrchardNullifier_fr mem = Some z \<and> memory_run mem (zip address (zip instruction value)) \<noteq> None"
    "r1cs_holds cs2 \<and> selected 0 circuits pcs \<longrightarrow> (\<exists>mem' c. memory_run mem (zip address (zip instruction value)) = Some mem' \<and>
       memory_commit OrchardNullifier_fr mem' = Some c \<and> z2 = mem' @ [c])"
    using supernova_aux [OF assms(1) orchard_fr_spec_ok assms(2,3,5-7,9)] by auto
  have "r1cs_holds cs1 \<longleftrightarrow> r1cs_holds cs2 \<and> selected 0 circuits pcs" using n(2) m(2) by simp
  moreover have "r1cs_holds cs1 \<longrightarrow> z1 = z2" using n(2,3) m(2,3) by force
  ultimately show ?thesis using n(1) m(1) by blast
qed

theorem folding_agree_witness:
  "\<exists>c circuits z1 cs1 z2 pcs cs2. NovaCircuit_new 2 2 [0, 0] [1, 0] [7, 7] = Some c \<and>
     Supernova_new [5, 6, 4 :: rat] [0, 0] [7, 7] [1, 0, 2] 2 2 = Some circuits \<and>
     nova_synthesize nova_OrchardNullifierScalar c [5, 6, 4 :: rat] = Some (z1, cs1) \<and>
     loop_m (sn_run_step supernova_OrchardNullifierScalar) circuits ([5, 6, 4], [], []) = Some (z2, pcs, cs2) \<and>
     (r1cs_holds cs1 \<longleftrightarrow> r1cs_holds cs2 \<and> selected 0 circuits pcs)"
proof -
  obtain c :: "rat nova_circuit" where c: "NovaCircuit_new 2 2 [0, 0] [1, 0] [7, 7] = Some c" "NovaCircuit_new (length [5, 6 :: rat]) 2 [0, 0] [1, 0] [7, 7] = Some c"
    using NovaCircuit_new_ok [of "[0, 0]" 2 "[1, 0]" "[7, 7]" 2] by (simp add: numeral_2_eq_2)
  obtain circuits :: "rat sn_circuit list" where d: "Supernova_new ([5, 6] @ [4]) [0, 0] [7, 7] ([1, 0] @ [2]) 2 2 = Some circuits"
      "Supernova_new ([5, 6] @ [4]) [0, 0] [7, 7] ([1, 0] @ [2]) 2 (length [5, 6 :: rat]) = Some circuits"
    using Supernova_new_ok [of "[0, 0]" 2 "[1, 0]" "[7, 7]" "[5, 6]" 4 2] by (simp add: numeral_2_eq_2)
  show ?thesis
    using folding_agree [OF wide_field_rat _ _ _ _ _ _ c(2) d(2)] c(1) d(1) by (auto simp del: folding_specs)
qed

section \<open>The outputs of the oracle\<close>

text \<open>
  C27: the published epochs of a receiver are the orbit of its first seed under the random
  function of the node's key: epoch \<open>i\<close> publishes the output after \<open>i + 1\<close> rounds, so
  the operator chooses nothing after the first seed.
\<close>

theorem epochs_orbit:
  fixes N :: "('db, 's::field, 'g::ab_group_add, 'f::field) node"
  assumes "sql_ok (nd_sql N)" and "epoch_codecs_ok N" and "Node_Correct.reachable N ctx db"
    and "length (randomnesses (view N db)) < 2 ^ 63" and "r \<in> set (receivers (view N db))"
    and "history (view N db) r \<noteq> []"
  shows "\<exists>alpha. rn_alpha (history (view N db) r ! 0) = hex_encode (nd_codecs N) (sl_b32 (nd_secp N) alpha) \<and>
    (\<forall>i < length (history (view N db) r). \<exists>y. vrf_orbit (nd_secp N) (nc_ecvrf ctx) alpha i = Some y \<and>
       rn_y (history (view N db) r ! i) = hex_encode (nd_codecs N) (sl_b32 (nd_secp N) y))"
proof (rule chained_orbit [OF assms(2)])
  have "epochs_inv N ctx (view N db)"
    by (rule epoch_node.reachable_inv [OF epoch_node.intro [OF assms(1,2)] assms(3,4)])
  then show "chained (history (view N db) r)" "\<forall>x \<in> set (history (view N db) r). proved_row N ctx x"
    using assms(5) by (auto simp: epochs_inv_def history_def)
qed (rule assms(6))

theorem epochs_orbit_witness:
  "\<exists>t r alpha y. Node_Correct.reachable demo_node demo_ctx t \<and> r \<in> set (receivers t) \<and>
     vrf_orbit cusp (nc_ecvrf demo_ctx) alpha 0 = Some y \<and> rn_y (history t r ! 0) = doubled (sl_b32 cusp y)"
proof -
  obtain row t where t: "Node_Correct.reachable demo_node demo_ctx t" "epoch_added 1 demo_receiver row demo_tables t" "rn_receiver_id row = 1"
    by (rule demo_epoch)
  let ?r = "demo_receiver\<lparr>rc_nonce := 1\<rparr>"
  have r: "?r \<in> set (receivers t)" "length (randomnesses t) < 2 ^ 63" "history t ?r \<noteq> []"
    using t(2,3) by (simp_all add: epoch_added_def update_receivers_def demo_tables_def history_def demo_receiver_def)
  obtain alpha y where "vrf_orbit (nd_secp demo_node) (nc_ecvrf demo_ctx) alpha 0 = Some y"
    "rn_y (history t ?r ! 0) = hex_encode (nd_codecs demo_node) (sl_b32 (nd_secp demo_node) y)"
    using epochs_orbit [OF demo.store demo.codecs t(1), of ?r] r by (auto simp: demo_view simp del: vrf_orbit.simps)
  then have "vrf_orbit cusp (nc_ecvrf demo_ctx) alpha 0 = Some y \<and> rn_y (history t ?r ! 0) = doubled (sl_b32 cusp y)"
    by (simp add: demo_node_def demo_codecs_def del: vrf_orbit.simps)
  with r(1) t(1) show ?thesis by blast
qed

end
